(* ===== verification/Prelude.thy ===== *)
theory Prelude
  imports
    Complex_Main
    "HOL-Library.Word"
    "HOL-Library.Char_ord"
    "HOL-Library.List_Lexorder"
    "HOL-Library.Multiset"
begin

text \<open>
  Shared vocabulary of the development: the Go language and standard library as far as the
  modelled services use them.

  \<^item> error values (\<open>go_error\<close>), a panic-or-value result (\<open>'a go\<close>), and the collection
    \<open>go_simps\<close> of rewrite rules the component proofs use;
  \<^item> \<open>int64\<close> as \<open>64 word\<close>, and the two \<open>float64\<close> conversions the services perform;
  \<^item> byte strings: \<open>strings.Cut\<close>, \<open>HasPrefix\<close>, \<open>TrimPrefix\<close>, \<open>TrimSuffix\<close>,
    \<open>TrimSpace\<close>, \<open>strconv.Itoa\<close>, \<open>strconv.ParseInt\<close> and zero padded \<open>fmt\<close> verbs;
  \<^item> the visiting order of a Go \<open>range\<close> over a map, and generic lemmas on maps and lists.
\<close>

named_theorems go_simps \<open>rewrite rules for the Go vocabulary\<close>

section \<open>Errors and panics\<close>

text \<open>
  Go errors are kept symbolic: which constructor call made them, and with which operands.
  \<open>ENew\<close> is \<open>errors.New\<close> or sing's \<open>E.New\<close>, \<open>EFmt\<close> is \<open>fmt.Errorf\<close> (with the
  wrapped error of a \<open>%w\<close> verb, if any), \<open>ECause\<close> is \<open>E.Cause\<close>, \<open>EExtend\<close> is
  \<open>E.Extend\<close>, \<open>EErrors\<close> is the aggregate of \<open>E.Errors\<close>, \<open>ERcode\<close> is the \<open>RcodeError\<close> of the DNS
  package with its code, and \<open>EDriver\<close> is an error handed in by a library or driver.
  How an error is rendered as text is a parameter of the code that looks at the text.
\<close>

datatype go_error =
    ENew "string list"
  | EFmt string "string list" "go_error option"
  | ECause go_error "string list"
  | EExtend go_error "string list"
  | EErrors "go_error list"
  | ERcode int
  | EDriver string

text \<open>\<open>E.Errors(errs...)\<close>: nil for no error, otherwise an aggregate.\<close>

definition errors_of :: "go_error list \<Rightarrow> go_error option" where
  "errors_of errs = (if errs = [] then None else Some (EErrors errs))"

lemma errors_of_None_iff [simp]: "errors_of errs = None \<longleftrightarrow> errs = []"
  by (simp add: errors_of_def)

text \<open>A Go call either panics or returns.\<close>

datatype 'a go = Panic go_error | Ret 'a

definition go_bind :: "'a go \<Rightarrow> ('a \<Rightarrow> 'b go) \<Rightarrow> 'b go" where
  "go_bind x f = (case x of Panic e \<Rightarrow> Panic e | Ret a \<Rightarrow> f a)"

lemma go_bind_simps [simp]: "go_bind (Ret a) f = f a" "go_bind (Panic e) f = Panic e"
  by (simp_all add: go_bind_def)

lemma go_bind_Ret_iff: "go_bind x f = Ret b \<longleftrightarrow> (\<exists>a. x = Ret a \<and> f a = Ret b)"
  by (cases x) simp_all

fun returns :: "'a go \<Rightarrow> bool" where
  "returns (Ret a) = True"
| "returns (Panic e) = False"

lemma returns_iff: "returns x \<longleftrightarrow> (\<exists>a. x = Ret a)"
  by (cases x) simp_all

lemma returns_go_bind: "returns (go_bind x f) \<longleftrightarrow> returns x \<and> (\<forall>a. x = Ret a \<longrightarrow> returns (f a))"
  by (cases x) simp_all

section \<open>Integers and floating point\<close>

type_synonym i64 = "64 word"

text \<open>
  Truncation of an integral \<open>float64\<close> to \<open>int64\<close> as amd64 performs it: out of range
  gives the minimum value (the Go specification leaves it implementation dependent).
\<close>

definition trunc_i64 :: "int \<Rightarrow> int" where
  "trunc_i64 x = (if - (2 ^ 63) \<le> x \<and> x < 2 ^ 63 then x else - (2 ^ 63))"

text \<open>The value an \<open>int64\<close> operation stores, and Go's division, which truncates toward zero.\<close>

definition wrap_i64 :: "int \<Rightarrow> int" where
  "wrap_i64 x = sint (word_of_int x :: i64)"

definition go_quot :: "int \<Rightarrow> int \<Rightarrow> int" where
  "go_quot a b = sgn a * sgn b * (\<bar>a\<bar> div \<bar>b\<bar>)"

text \<open>Signed 64-bit arithmetic that stays in range is exact.\<close>

lemma sint_i64_of_int:
  "- (2 ^ 63) \<le> x \<Longrightarrow> x < 2 ^ 63 \<Longrightarrow> sint (word_of_int x :: i64) = x"
  by (simp add: sint_sbintrunc' signed_take_bit_int_eq_self)

lemma i64_range: "- (2 ^ 63) \<le> sint (a :: i64)" "sint (a :: i64) < 2 ^ 63"
  using sint_ge [of a] sint_lt [of a] by simp_all

lemma sint_i64_add:
  fixes a :: i64
  assumes "- (2 ^ 63) \<le> sint a + x" and "sint a + x < 2 ^ 63"
  shows "sint (a + word_of_int x) = sint a + x"
proof -
  have "a + word_of_int x = word_of_int (sint a + x)" by simp
  with assms show ?thesis by (simp only: sint_i64_of_int)
qed

fun bitlen :: "nat \<Rightarrow> nat" where
  "bitlen n = (if n = 0 then 0 else Suc (bitlen (n div 2)))"

declare bitlen.simps [simp del]

text \<open>
  Conversion of an integer to \<open>float64\<close>: 53 significant bits, round half to even. The value
  of the float is again an integer.
\<close>

definition rnd53 :: "nat \<Rightarrow> nat" where
  "rnd53 n = (let k = bitlen n - 53 in
     if k = 0 then n
     else let q = n div 2 ^ k; r = n mod 2 ^ k; h = 2 ^ (k - 1) in
       (if r < h \<or> (r = h \<and> even q) then q else q + 1) * 2 ^ k)"

definition f64_of_int :: "int \<Rightarrow> int" where
  "f64_of_int x = (if x < 0 then - int (rnd53 (nat (- x))) else int (rnd53 (nat x)))"

text \<open>\<open>math.Round\<close>: nearest integer, halves away from zero.\<close>

definition math_Round :: "rat \<Rightarrow> int" where
  "math_Round x = (if x < 0 then - \<lfloor>- x + 1 / 2\<rfloor> else \<lfloor>x + 1 / 2\<rfloor>)"

lemma bitlen_le_iff: "bitlen n \<le> k \<longleftrightarrow> n < 2 ^ k"
proof (induction k arbitrary: n)
  case 0
  then show ?case by (simp add: bitlen.simps)
next
  case (Suc k)
  show ?case
  proof (cases "n = 0")
    case True
    then show ?thesis by (simp add: bitlen.simps)
  next
    case False
    then have "bitlen n \<le> Suc k \<longleftrightarrow> bitlen (n div 2) \<le> k"
      by (subst bitlen.simps) simp
    also have "\<dots> \<longleftrightarrow> n div 2 < 2 ^ k" by (rule Suc.IH)
    also have "\<dots> \<longleftrightarrow> n < 2 ^ Suc k" by auto
    finally show ?thesis .
  qed
qed

lemma rnd53_exact: "n < 2 ^ 53 \<Longrightarrow> rnd53 n = n"
  using bitlen_le_iff [of n 53] by (simp add: rnd53_def)

lemma f64_of_int_exact [go_simps]: "\<bar>x\<bar> < 2 ^ 53 \<Longrightarrow> f64_of_int x = x"
  unfolding f64_of_int_def by (auto simp: rnd53_exact)

lemma trunc_i64_exact [go_simps]: "- (2 ^ 63) \<le> x \<Longrightarrow> x < 2 ^ 63 \<Longrightarrow> trunc_i64 x = x"
  by (simp add: trunc_i64_def)

lemma math_Round_of_int [go_simps]: "math_Round (of_int x) = x"
proof -
  have "\<lfloor>of_int y + 1 / 2 :: rat\<rfloor> = y" for y
    by (simp add: floor_unique)
  from this [of x] this [of "- x"] show ?thesis
    by (simp add: math_Round_def)
qed

section \<open>Strings\<close>

text \<open>\<open>strings.Cut(s, sep)\<close> for a one byte separator; \<open>None\<close> when it is absent.\<close>

fun str_cut :: "char \<Rightarrow> string \<Rightarrow> (string \<times> string) option" where
  "str_cut c [] = None"
| "str_cut c (x # xs) =
     (if x = c then Some ([], xs)
      else map_option (\<lambda>(a, b). (x # a, b)) (str_cut c xs))"

definition HasPrefix :: "string \<Rightarrow> string \<Rightarrow> bool" where
  "HasPrefix s p \<longleftrightarrow> take (length p) s = p"

definition HasSuffix :: "string \<Rightarrow> string \<Rightarrow> bool" where
  "HasSuffix s p \<longleftrightarrow> HasPrefix (rev s) (rev p)"

definition TrimPrefix :: "string \<Rightarrow> string \<Rightarrow> string" where
  "TrimPrefix s p = (if HasPrefix s p then drop (length p) s else s)"

definition TrimSuffix :: "string \<Rightarrow> string \<Rightarrow> string" where
  "TrimSuffix s p = (if HasSuffix s p then take (length s - length p) s else s)"

fun Contains :: "string \<Rightarrow> string \<Rightarrow> bool" where
  "Contains [] sub = (sub = [])"
| "Contains (x # xs) sub = (HasPrefix (x # xs) sub \<or> Contains xs sub)"

text \<open>
  The UTF-8 encodings of the code points for which \<open>unicode.IsSpace\<close> holds;
  \<open>strings.TrimSpace\<close> removes them at both ends.
\<close>

definition unicode_spaces :: "string list" where
  "unicode_spaces =
     map (map char_of)
       ([[9], [10], [11], [12], [13], [32], [194, 133], [194, 160], [225, 154, 128]] @
        map (\<lambda>i. [226, 128, 128 + i]) [0..<11] @
        [[226, 128, 168], [226, 128, 169], [226, 128, 175], [226, 129, 159],
         [227, 128, 128]] :: nat list list)"

function strip :: "string list \<Rightarrow> string \<Rightarrow> string" where
  "strip ws s =
     (case find (\<lambda>w. w \<noteq> [] \<and> HasPrefix s w) ws of
        None \<Rightarrow> s
      | Some w \<Rightarrow> strip ws (drop (length w) s))"
  by pat_completeness auto
termination
proof (relation "measure (\<lambda>(ws, s). length s)")
  show "wf (measure (\<lambda>(ws, s). length s))" by simp
next
  fix ws :: "string list" and s w
  assume "find (\<lambda>w. w \<noteq> [] \<and> HasPrefix s w) ws = Some w"
  then have "w \<noteq> []" and "HasPrefix s w" by (auto simp: find_Some_iff)
  then have "0 < length w" and "s \<noteq> []" by (auto simp: HasPrefix_def)
  then show "((ws, drop (length w) s), ws, s) \<in> measure (\<lambda>(ws, s). length s)"
    by simp
qed

declare strip.simps [simp del]

definition TrimSpace :: "string \<Rightarrow> string" where
  "TrimSpace s =
     rev (strip (map rev unicode_spaces) (rev (strip unicode_spaces s)))"

lemma str_cut_None_iff: "str_cut c s = None \<longleftrightarrow> c \<notin> set s"
  by (induction s) auto

lemma str_cut_Some_iff: "str_cut c s = Some (a, b) \<longleftrightarrow> s = a @ c # b \<and> c \<notin> set a"
proof (induction s arbitrary: a)
  case (Cons x xs)
  then show ?case
  proof (cases a)
    case (Cons y ys)
    with Cons.IH [of ys] show ?thesis by (cases "x = c") (auto split: prod.splits)
  qed auto
qed simp

lemma str_cut_append [go_simps]: "c \<notin> set a \<Longrightarrow> str_cut c (a @ c # b) = Some (a, b)"
  by (simp add: str_cut_Some_iff)

lemma HasPrefix_iff: "HasPrefix s p \<longleftrightarrow> (\<exists>t. s = p @ t)"
  by (metis HasPrefix_def append_eq_conv_conj append_take_drop_id)

lemma HasPrefix_append [go_simps]: "HasPrefix (p @ t) p"
  by (auto simp: HasPrefix_iff)

lemma TrimPrefix_append [go_simps]: "TrimPrefix (p @ t) p = t"
  by (simp add: TrimPrefix_def HasPrefix_append)

lemma HasSuffix_append [go_simps]: "HasSuffix (t @ p) p"
  by (simp add: HasSuffix_def HasPrefix_append)

lemma TrimSuffix_append [go_simps]: "TrimSuffix (t @ p) p = t"
  by (simp add: TrimSuffix_def HasSuffix_append)

lemma strip_id: "(\<And>w. w \<in> set ws \<Longrightarrow> w \<noteq> [] \<Longrightarrow> \<not> HasPrefix s w) \<Longrightarrow> strip ws s = s"
proof -
  assume "\<And>w. w \<in> set ws \<Longrightarrow> w \<noteq> [] \<Longrightarrow> \<not> HasPrefix s w"
  then have "find (\<lambda>w. w \<noteq> [] \<and> HasPrefix s w) ws = None"
    by (auto simp: find_None_iff)
  then show ?thesis by (subst strip.simps) simp
qed

section \<open>Decimal numerals\<close>

definition digit :: "nat \<Rightarrow> char" where
  "digit n = char_of (48 + n)"

definition digit_val :: "char \<Rightarrow> nat option" where
  "digit_val c =
     (let n = of_char c :: nat in if 48 \<le> n \<and> n \<le> 57 then Some (n - 48) else None)"

fun dec :: "nat \<Rightarrow> string" where
  "dec n = (if n < 10 then [digit n] else dec (n div 10) @ [digit (n mod 10)])"

declare dec.simps [simp del]

text \<open>The \<open>%0<w>d\<close> verb for a non-negative operand.\<close>

definition pad :: "nat \<Rightarrow> nat \<Rightarrow> string" where
  "pad w n = replicate (w - length (dec n)) (CHR ''0'') @ dec n"

definition itoa :: "int \<Rightarrow> string" where
  "itoa i = (if i < 0 then CHR ''-'' # dec (nat (- i)) else dec (nat i))"

fun parse_digits :: "nat \<Rightarrow> string \<Rightarrow> nat option" where
  "parse_digits acc [] = Some acc"
| "parse_digits acc (c # cs) =
     (case digit_val c of None \<Rightarrow> None | Some d \<Rightarrow> parse_digits (acc * 10 + d) cs)"

definition parse_nat :: "string \<Rightarrow> nat option" where
  "parse_nat s = (if s = [] then None else parse_digits 0 s)"

text \<open>
  \<open>strconv.ParseInt(s, 10, 64)\<close>, which is also \<open>strconv.Atoi\<close> on a 64 bit platform: an
  optional sign, at least one digit, and the value must fit.
\<close>

definition parse_int64 :: "string \<Rightarrow> int option" where
  "parse_int64 s =
     (let (neg, ds) =
        (case s of
           [] \<Rightarrow> (False, [])
         | c # cs \<Rightarrow>
             if c = CHR ''-'' then (True, cs)
             else if c = CHR ''+'' then (False, cs) else (False, s))
      in case parse_nat ds of
           None \<Rightarrow> None
         | Some n \<Rightarrow>
             (let v = (if neg then - int n else int n)
              in if - (2 ^ 63) \<le> v \<and> v < 2 ^ 63 then Some v else None))"

lemma of_char_digit: "n < 10 \<Longrightarrow> (of_char (digit n) :: nat) = 48 + n"
  unfolding digit_def of_char_of by (rule mod_less) simp

lemma digit_val_digit [go_simps]: "n < 10 \<Longrightarrow> digit_val (digit n) = Some n"
  by (simp add: digit_val_def of_char_digit)

lemma digit_inj: "a < 10 \<Longrightarrow> b < 10 \<Longrightarrow> digit a = digit b \<longleftrightarrow> a = b"
  by (metis digit_val_digit option.inject)

lemma digit_val_zero [simp]: "digit_val (CHR ''0'') = Some 0"
  by (simp add: digit_val_def)

lemma dec_nonempty [simp]: "dec n \<noteq> []"
  by (subst dec.simps) simp

lemma dec_digits: "c \<in> set (dec n) \<Longrightarrow> \<exists>d < 10. c = digit d"
proof (induction n rule: dec.induct)
  case (1 n)
  show ?case
  proof (cases "n < 10")
    case True
    with "1.prems" show ?thesis by (auto simp: dec.simps [of n])
  next
    case False
    with "1.prems" have "c \<in> set (dec (n div 10)) \<or> c = digit (n mod 10)"
      by (auto simp: dec.simps [of n])
    moreover have "n mod 10 < 10" by simp
    ultimately show ?thesis using "1.IH" [OF False] by blast
  qed
qed

lemma digit_neq:
  assumes "(of_char c :: nat) < 48 \<or> 57 < (of_char c :: nat)" and "d < 10"
  shows "digit d \<noteq> c"
  using assms of_char_digit [of d] by auto

lemma not_in_dec:
  assumes "(of_char c :: nat) < 48 \<or> 57 < (of_char c :: nat)"
  shows "c \<notin> set (dec n)"
  using dec_digits [of c n] digit_neq [OF assms] by blast

lemma not_in_pad:
  assumes "(of_char c :: nat) < 48 \<or> 57 < (of_char c :: nat)"
  shows "c \<notin> set (pad w n)"
  using not_in_dec [OF assms] assms by (auto simp: pad_def)

lemma parse_digits_append:
  "parse_digits acc (xs @ ys) =
     (case parse_digits acc xs of None \<Rightarrow> None | Some a \<Rightarrow> parse_digits a ys)"
  by (induction xs arbitrary: acc) (auto split: option.splits)

lemma parse_digits_dec: "parse_digits 0 (dec n) = Some n"
proof (induction n rule: dec.induct)
  case (1 n)
  then show ?case
    by (cases "n < 10")
       (simp_all add: dec.simps [of n] digit_val_digit parse_digits_append)
qed

lemma parse_digits_zeros: "parse_digits 0 (replicate k (CHR ''0'') @ xs) = parse_digits 0 xs"
  by (induction k) auto

lemma parse_nat_dec [go_simps]: "parse_nat (dec n) = Some n"
  by (simp add: parse_nat_def parse_digits_dec)

lemma parse_nat_pad [go_simps]: "parse_nat (pad w n) = Some n"
  by (simp add: parse_nat_def pad_def parse_digits_zeros parse_digits_dec)

lemma pad_inj: "pad w m = pad w n \<longleftrightarrow> m = n"
  by (metis option.inject parse_nat_pad)

lemma hd_dec_not_sign: "hd (dec n) \<noteq> CHR ''-'' \<and> hd (dec n) \<noteq> CHR ''+''"
proof -
  obtain d where "d < 10" and "hd (dec n) = digit d"
    using dec_digits [of "hd (dec n)" n] by auto
  then show ?thesis
    using digit_neq [of "CHR ''-''" d] digit_neq [of "CHR ''+''" d] by auto
qed

lemma parse_int64_dec:
  assumes "int n < 2 ^ 63"
  shows "parse_int64 (dec n) = Some (int n)"
proof -
  obtain c cs where d: "dec n = c # cs" by (cases "dec n") auto
  with hd_dec_not_sign [of n] have "c \<noteq> CHR ''-''" "c \<noteq> CHR ''+''" by auto
  with assms d parse_nat_dec [of n] show ?thesis
    by (simp add: parse_int64_def)
qed

lemma parse_int64_pad:
  assumes "int n < 2 ^ 63"
  shows "parse_int64 (pad w n) = Some (int n)"
proof (cases "w - length (dec n)")
  case 0
  with assms show ?thesis by (simp add: pad_def parse_int64_dec)
next
  case (Suc k)
  then have "pad w n = CHR ''0'' # replicate k (CHR ''0'') @ dec n"
    by (simp add: pad_def)
  with assms parse_nat_pad [of w n] show ?thesis
    by (simp add: parse_int64_def)
qed

lemma parse_int64_itoa [go_simps]:
  assumes "- (2 ^ 63) \<le> i" and "i < 2 ^ 63"
  shows "parse_int64 (itoa i) = Some i"
proof (cases "i < 0")
  case True
  with assms show ?thesis
    by (simp add: itoa_def parse_int64_def parse_nat_dec)
next
  case False
  with assms show ?thesis
    by (simp add: itoa_def parse_int64_dec)
qed

section \<open>Maps and map iteration\<close>

text \<open>
  A Go \<open>range\<close> over a map visits every key once, in an order the runtime picks. Operations
  that range over a map take that order as an argument; \<open>range_order\<close> says it is one.
\<close>

definition range_order :: "'k list \<Rightarrow> ('k \<rightharpoonup> 'v) \<Rightarrow> bool" where
  "range_order ks m \<longleftrightarrow> distinct ks \<and> set ks = dom m"

lemma range_orderD:
  "range_order ks m \<Longrightarrow> distinct ks"
  "range_order ks m \<Longrightarrow> k \<in> set ks \<longleftrightarrow> m k \<noteq> None"
  by (auto simp: range_order_def)

lemma fold_frame:
  assumes "\<And>x s. x \<in> set xs \<Longrightarrow> P s \<Longrightarrow> P (f x s)" and "P s"
  shows "P (fold f xs s)"
  using assms by (induction xs arbitrary: s) auto

section \<open>Reachable states and invariants\<close>

inductive reach :: "('s \<Rightarrow> bool) \<Rightarrow> ('s \<Rightarrow> 's \<Rightarrow> bool) \<Rightarrow> 's \<Rightarrow> bool"
  for init :: "'s \<Rightarrow> bool" and step :: "'s \<Rightarrow> 's \<Rightarrow> bool" where
  reach_init: "init s \<Longrightarrow> reach init step s"
| reach_step: "reach init step s \<Longrightarrow> step s t \<Longrightarrow> reach init step t"

text \<open>
  The contract of a state machine with an invariant: it holds at the start and every step
  keeps it. Each service interprets it on its own step relation.
\<close>

locale invariant_system =
  fixes init :: "'s \<Rightarrow> bool" and step :: "'s \<Rightarrow> 's \<Rightarrow> bool" and inv :: "'s \<Rightarrow> bool"
  assumes init_inv: "init s \<Longrightarrow> inv s"
    and step_inv: "inv s \<Longrightarrow> step s t \<Longrightarrow> inv t"
begin

lemma reach_inv: "reach init step s \<Longrightarrow> inv s"
  by (induction rule: reach.induct) (auto intro: init_inv step_inv)

lemma steps_inv: "step\<^sup>*\<^sup>* s t \<Longrightarrow> inv s \<Longrightarrow> inv t"
  by (induction rule: rtranclp_induct) (auto intro: step_inv)

end

end
