(* ===== verification/GoCrypto.thy ===== *)
theory GoCrypto
  imports Prelude
begin

text \<open>
  The parts of Go's \<open>encoding/base64\<close>, \<open>crypto/sha256\<close> and \<open>crypto/hmac\<close> that the administration
  interface uses, on byte strings: the unpadded URL alphabet with the decoder's tolerance for line
  breaks and trailing bits, SHA-256, and HMAC. The decoder inverts the encoder
  (\<open>b64_decode_encode\<close>), and an encoded text never contains a separator dot.
\<close>

unbundle bit_operations_syntax

definition bytes_of :: "string \<Rightarrow> nat list" where
  "bytes_of s = map of_char s"

definition string_of_bytes :: "nat list \<Rightarrow> string" where
  "string_of_bytes bs = map char_of bs"

section \<open>Base64\<close>

definition b64_alphabet :: string where
  "b64_alphabet = ''ABCDEFGHIJKLMNOPQRSTUVWXYZabcdefghijklmnopqrstuvwxyz0123456789-_''"

definition b64_value :: "char \<Rightarrow> nat option" where
  "b64_value c = map_of (zip b64_alphabet [0..<64]) c"

fun b64_groups :: "nat list \<Rightarrow> nat list" where
  "b64_groups [] = []"
| "b64_groups [a] = [a div 4, a mod 4 * 16]"
| "b64_groups [a, b] = [a div 4, a mod 4 * 16 + b div 16, b mod 16 * 4]"
| "b64_groups (a # b # c # rest) =
     a div 4 # (a mod 4 * 16 + b div 16) # (b mod 16 * 4 + c div 64) # c mod 64 # b64_groups rest"

definition b64_encode :: "string \<Rightarrow> string" where
  "b64_encode s = map (\<lambda>v. b64_alphabet ! v) (b64_groups (bytes_of s))"

text \<open>The bits of an incomplete last group that do not make up a byte are dropped.\<close>

fun b64_ungroup :: "nat list \<Rightarrow> nat list option" where
  "b64_ungroup [] = Some []"
| "b64_ungroup [w] = None"
| "b64_ungroup [w, x] = Some [w * 4 + x div 16]"
| "b64_ungroup [w, x, y] = Some [w * 4 + x div 16, x mod 16 * 16 + y div 4]"
| "b64_ungroup (w # x # y # z # rest) =
     map_option (\<lambda>bs. (w * 4 + x div 16) # (x mod 16 * 16 + y div 4) # (y mod 4 * 64 + z) # bs)
       (b64_ungroup rest)"

fun b64_values :: "string \<Rightarrow> nat list option" where
  "b64_values [] = Some []"
| "b64_values (c # cs) =
     (if c = CHR 0x0A \<or> c = CHR 0x0D then b64_values cs
      else case b64_value c of
        None \<Rightarrow> None
      | Some v \<Rightarrow> map_option (\<lambda>vs. v # vs) (b64_values cs))"

definition b64_decode :: "string \<Rightarrow> string option" where
  "b64_decode s =
     (case b64_values s of
        None \<Rightarrow> None
      | Some vs \<Rightarrow> map_option string_of_bytes (b64_ungroup vs))"

section \<open>SHA-256\<close>

type_synonym w32 = "32 word"

text \<open>
  The constants are the leading 32 bits of the fractional parts of the cube roots of the first
  64 primes, and of the square roots of the first 8 for the initial state. \<open>nth_root\<close> finds the integer
  part of a root bit by bit.
\<close>

fun nth_root :: "nat \<Rightarrow> nat \<Rightarrow> nat \<Rightarrow> nat \<Rightarrow> nat" where
  "nth_root k n r 0 = r"
| "nth_root k n r (Suc b) = nth_root k n (if (r + 2 ^ b) ^ k \<le> n then r + 2 ^ b else r) b"

definition small_primes :: "nat list" where
  "small_primes =
    [2, 3, 5, 7, 11, 13, 17, 19, 23, 29, 31, 37, 41, 43, 47, 53, 59, 61, 67, 71, 73, 79, 83, 89, 97,
     101, 103, 107, 109, 113, 127, 131, 137, 139, 149, 151, 157, 163, 167, 173, 179, 181, 191, 193,
     197, 199, 211, 223, 227, 229, 233, 239, 241, 251, 257, 263, 269, 271, 277, 281, 283, 293, 307, 311]"

definition sha256_K :: "w32 list" where
  "sha256_K = map (\<lambda>p. of_nat (nth_root 3 (p * 2 ^ 96) 0 36)) small_primes"

definition sha256_H :: "w32 list" where
  "sha256_H = map (\<lambda>p. of_nat (nth_root 2 (p * 2 ^ 64) 0 36)) (take 8 small_primes)"

definition sha_s0 :: "w32 \<Rightarrow> w32" where
  "sha_s0 x = word_rotr 7 x XOR word_rotr 18 x XOR drop_bit 3 x"

definition sha_s1 :: "w32 \<Rightarrow> w32" where
  "sha_s1 x = word_rotr 17 x XOR word_rotr 19 x XOR drop_bit 10 x"

definition sha_S0 :: "w32 \<Rightarrow> w32" where
  "sha_S0 x = word_rotr 2 x XOR word_rotr 13 x XOR word_rotr 22 x"

definition sha_S1 :: "w32 \<Rightarrow> w32" where
  "sha_S1 x = word_rotr 6 x XOR word_rotr 11 x XOR word_rotr 25 x"

text \<open>The message schedule, extended one word at a time.\<close>

definition schedule_next :: "w32 list \<Rightarrow> w32 list" where
  "schedule_next ws =
     (let n = length ws
      in ws @ [sha_s1 (ws ! (n - 2)) + ws ! (n - 7) + sha_s0 (ws ! (n - 15)) + ws ! (n - 16)])"

definition message_schedule :: "w32 list \<Rightarrow> w32 list" where
  "message_schedule block = (schedule_next ^^ 48) block"

fun sha_round :: "w32 \<times> w32 \<Rightarrow> w32 list \<Rightarrow> w32 list" where
  "sha_round (k, w) [a, b, c, d, e, f, g, h] =
     (let t1 = h + sha_S1 e + ((e AND f) XOR (NOT e AND g)) + k + w;
          t2 = sha_S0 a + ((a AND b) XOR (a AND c) XOR (b AND c))
      in [t1 + t2, a, b, c, d + t1, e, f, g])"
| "sha_round kw s = s"

definition sha_block :: "w32 list \<Rightarrow> w32 list \<Rightarrow> w32 list" where
  "sha_block block state =
     map2 (+) state (fold sha_round (zip sha256_K (message_schedule block)) state)"

definition be_word :: "nat list \<Rightarrow> w32" where
  "be_word bs = of_nat (foldl (\<lambda>n b. n * 256 + b) 0 bs)"

definition be_bytes :: "w32 \<Rightarrow> nat list" where
  "be_bytes w = (let n = unat w in [n div 2 ^ 24, n div 2 ^ 16 mod 256, n div 2 ^ 8 mod 256, n mod 256])"

fun chunks :: "nat \<Rightarrow> nat \<Rightarrow> 'a list \<Rightarrow> 'a list list" where
  "chunks 0 k xs = []"
| "chunks (Suc n) k xs = (if xs = [] then [] else take k xs # chunks n k (drop k xs))"

definition sha_pad :: "nat list \<Rightarrow> nat list" where
  "sha_pad bs =
     (let n = length bs; z = (119 - n mod 64) mod 64
      in bs @ [128] @ replicate z 0 @ replicate 4 0 @ be_bytes (of_nat (8 * n)))"

text \<open>Messages of fewer than \<open>2 ^ 29\<close> bytes, whose bit length fits the low word of the trailer.\<close>

definition sha256 :: "nat list \<Rightarrow> nat list" where
  "sha256 bs =
     (let padded = sha_pad bs;
          blocks = chunks (length padded) 64 padded;
          step = (\<lambda>blk s. sha_block (map be_word (chunks 16 4 blk)) s)
      in concat (map be_bytes (fold step blocks sha256_H)))"

definition hmac_key :: "nat list \<Rightarrow> nat list" where
  "hmac_key key =
     (let k = (if 64 < length key then sha256 key else key)
      in k @ replicate (64 - length k) 0)"

definition hmac_sha256 :: "string \<Rightarrow> string \<Rightarrow> string" where
  "hmac_sha256 key msg =
     (let k = hmac_key (bytes_of key);
          inner = sha256 (map (\<lambda>b. b XOR 0x36) k @ bytes_of msg)
      in string_of_bytes (sha256 (map (\<lambda>b. b XOR 0x5c) k @ inner)))"

section \<open>Facts\<close>

lemma nth_root_bounds:
  "r ^ k \<le> n \<Longrightarrow> n < (r + 2 ^ b) ^ k \<Longrightarrow> nth_root k n r b ^ k \<le> n \<and> n < Suc (nth_root k n r b) ^ k"
  by (induction b arbitrary: r) (simp_all add: not_le mult_2 add.assoc)

lemma length_sha256_H [simp]: "length sha256_H = 8"
  by (simp add: sha256_H_def small_primes_def)

lemma b64_distinct: "distinct b64_alphabet" and b64_length: "length b64_alphabet = 64"
  and b64_plain: "\<forall>c \<in> set b64_alphabet. c \<noteq> CHR ''.'' \<and> c \<noteq> CHR 0x0A \<and> c \<noteq> CHR 0x0D"
  by code_simp+

lemma b64_value_nth: "v < 64 \<Longrightarrow> b64_value (b64_alphabet ! v) = Some v"
  using map_of_zip_nth [of b64_alphabet "[0..<64]" v] by (simp add: b64_value_def b64_distinct b64_length)

lemma b64_values_map:
  assumes "\<forall>v \<in> set vs. v < 64"
  shows "b64_values (map (\<lambda>v. b64_alphabet ! v) vs) = Some vs"
  using assms
proof (induction vs)
  case Nil
  then show ?case by simp
next
  case (Cons v vs)
  then have "b64_alphabet ! v \<in> set b64_alphabet" by (simp add: b64_length)
  with Cons b64_plain show ?case by (simp add: b64_value_nth)
qed

lemma b64_groups_bound: "\<forall>b \<in> set bs. b < 256 \<Longrightarrow> v \<in> set (b64_groups bs) \<Longrightarrow> v < 64"
proof (induction bs rule: b64_groups.induct)
  case (2 a)
  then show ?case by auto
next
  case (3 a b)
  then have "a div 4 < 64" "b div 16 < 16" "b mod 16 < 16" "a mod 4 < 4" by auto
  with 3(2) show ?case by auto
next
  case (4 a b c rest)
  then have "a div 4 < 64" "b div 16 < 16" "c div 64 < 4" "b mod 16 < 16" "a mod 4 < 4" "c mod 64 < 64" by auto
  with 4 show ?case by auto
qed simp

lemma b64_ungroup_groups: "\<forall>b \<in> set bs. b < 256 \<Longrightarrow> b64_ungroup (b64_groups bs) = Some bs"
proof (induction bs rule: b64_groups.induct)
  case (3 a b)
  then have "b div 16 < 16" by auto
  with 3 show ?case by (simp add: mult.commute)
next
  case (4 a b c rest)
  then have "b div 16 < 16" "c div 64 < 4" by auto
  with 4 show ?case by (simp add: mult.commute)
qed (simp_all add: mult.commute)

lemma bytes_of_bound: "b \<in> set (bytes_of s) \<Longrightarrow> b < 256"
  by (auto simp: bytes_of_def nat_of_char_less_256)

lemma string_of_bytes_of [simp]: "string_of_bytes (bytes_of s) = s"
  by (simp add: string_of_bytes_def bytes_of_def comp_def)

lemma b64_decode_encode: "b64_decode (b64_encode s) = Some s"
proof -
  have "\<forall>v \<in> set (b64_groups (bytes_of s)). v < 64"
    using b64_groups_bound bytes_of_bound by blast
  then show ?thesis
    using b64_ungroup_groups [of "bytes_of s"] bytes_of_bound
    by (simp add: b64_decode_def b64_encode_def b64_values_map)
qed

lemma b64_encode_plain: "CHR ''.'' \<notin> set (b64_encode s)"
proof
  assume "CHR ''.'' \<in> set (b64_encode s)"
  then obtain v where "v \<in> set (b64_groups (bytes_of s))" "CHR ''.'' = b64_alphabet ! v"
    by (auto simp: b64_encode_def)
  then show False
    using b64_groups_bound bytes_of_bound b64_plain b64_length by (metis nth_mem)
qed

lemma b64_encode_nonempty: "b64_encode s = [] \<longleftrightarrow> s = []"
  by (cases "bytes_of s" rule: b64_groups.cases) (auto simp: b64_encode_def bytes_of_def)

lemma length_fold_round: "length s = 8 \<Longrightarrow> length (fold sha_round kws s) = 8"
proof (induction kws arbitrary: s)
  case (Cons kw kws)
  obtain a b c d e f g h where s: "s = [a, b, c, d, e, f, g, h]"
    using Cons.prems by (auto simp: length_Suc_conv eval_nat_numeral)
  obtain k w where kw: "kw = (k, w)" by (cases kw)
  show ?case using Cons.IH by (simp add: s kw Let_def)
qed simp

lemma length_sha256: "length (sha256 bs) = 32"
proof -
  have blk: "length s = 8 \<Longrightarrow> length (sha_block b s) = 8" for b s
    by (simp add: sha_block_def length_fold_round)
  have "length (fold (\<lambda>blk s. sha_block (map be_word (chunks 16 4 blk)) s) blocks s) = 8"
    if "length s = 8" for blocks s
    using that by (induction blocks arbitrary: s) (simp_all add: blk)
  then have "length (fold (\<lambda>blk s. sha_block (map be_word (chunks 16 4 blk)) s) blocks sha256_H) = 8" for blocks
    by simp
  moreover have "length (concat (map be_bytes ws)) = 4 * length ws" for ws
    by (induction ws) (simp_all add: be_bytes_def Let_def)
  ultimately show ?thesis by (simp add: sha256_def Let_def)
qed

lemma length_hmac_sha256: "length (hmac_sha256 key msg) = 32"
  by (simp add: hmac_sha256_def Let_def string_of_bytes_def length_sha256)

end
