(* ===== verification/AdminAuth.thy ===== *)
theory AdminAuth
  imports GoCrypto
begin

text \<open>
  Authentication of the administration interface (\<open>src/service/adminapi/auth.go\<close>): static tokens,
  signed login tokens and basic credentials.

  Instants are nanoseconds since the Unix epoch and are passed to the functions that call
  \<open>a.now()\<close>. How the claims are written as JSON is a parameter (\<open>claims_codec\<close>); that reading
  inverts writing is the hypothesis of the locale \<open>claims_json\<close>. A request carries the value of
  its \<open>Authorization\<close> header and what \<open>BasicAuth\<close> makes of it.
\<close>

section \<open>The authenticator\<close>

record AuthSubject =
  sub_Username :: string
  sub_StaticToken :: bool

record AdminCredential =
  ac_Username :: string
  ac_Password :: string

record AdminAPIServiceOptions =
  ao_Listen :: string
  ao_Path :: string
  ao_TokenSecret :: string
  ao_TokenTTL :: int
  ao_Tokens :: "string list"
  ao_Admins :: "AdminCredential list"

record Authenticator =
  admins :: "string \<rightharpoonup> string"
  staticTokens :: "string set"
  tokenSecret :: string
  tokenTTL :: int

record loginTokenClaims =
  lt_Username :: string
  lt_Expires :: int

definition errUnauthorized :: go_error where
  "errUnauthorized = ENew [''unauthorized'']"

definition errTokenExpired :: go_error where
  "errTokenExpired = ENew [''token expired'']"

definition errLoginDisabled :: go_error where
  "errLoginDisabled = ENew [''login disabled'']"

definition defaultTokenTTL :: int where
  "defaultTokenTTL = 12 * 3600 * 1000000000"

definition NewAuthenticator :: "AdminAPIServiceOptions \<Rightarrow> go_error + Authenticator" where
  "NewAuthenticator opts =
     (if ao_TokenTTL opts < 0 then Inl (ENew [''token TTL must not be negative''])
      else Inr
        \<lparr>admins = fold (\<lambda>a m. m(ac_Username a \<mapsto> ac_Password a)) (ao_Admins opts) Map.empty,
         staticTokens = set (filter (\<lambda>t. t \<noteq> '''') (ao_Tokens opts)),
         tokenSecret = ao_TokenSecret opts,
         tokenTTL = (if ao_TokenTTL opts = 0 then defaultTokenTTL else ao_TokenTTL opts)\<rparr>)"

section \<open>Login tokens\<close>

record claims_codec =
  claims_Marshal :: "loginTokenClaims \<Rightarrow> go_error + string"
  claims_Unmarshal :: "string \<Rightarrow> go_error + loginTokenClaims"

definition unix :: "int \<Rightarrow> int" where
  "unix t = t div 1000000000"

definition signToken :: "Authenticator \<Rightarrow> string \<Rightarrow> string" where
  "signToken a payload = hmac_sha256 (tokenSecret a) payload"

definition issueLoginTokenWithExpiry ::
  "claims_codec \<Rightarrow> int \<Rightarrow> Authenticator \<Rightarrow> string \<Rightarrow> go_error + (string \<times> int)" where
  "issueLoginTokenWithExpiry J t a username =
     (if length (tokenSecret a) = 0 \<or> tokenTTL a \<le> 0 then Inl errLoginDisabled
      else
        (let expiresAt = t + tokenTTL a
         in case claims_Marshal J \<lparr>lt_Username = username, lt_Expires = unix expiresAt\<rparr> of
              Inl e \<Rightarrow> Inl e
            | Inr payload \<Rightarrow>
                (let payloadEncoded = b64_encode payload;
                     signatureEncoded = b64_encode (signToken a payloadEncoded)
                 in Inr (payloadEncoded @ ''.'' @ signatureEncoded, expiresAt))))"

definition issueLoginToken :: "claims_codec \<Rightarrow> int \<Rightarrow> Authenticator \<Rightarrow> string \<Rightarrow> go_error + string" where
  "issueLoginToken J t a username = map_sum id fst (issueLoginTokenWithExpiry J t a username)"

definition validateBearerToken ::
  "claims_codec \<Rightarrow> int \<Rightarrow> Authenticator \<Rightarrow> string \<Rightarrow> go_error + AuthSubject" where
  "validateBearerToken J t a token =
     (if token = '''' then Inl errUnauthorized
      else if token \<in> staticTokens a then Inr \<lparr>sub_Username = '''', sub_StaticToken = True\<rparr>
      else if length (tokenSecret a) = 0 then Inl errUnauthorized
      else case str_cut (CHR ''.'') token of
        None \<Rightarrow> Inl errUnauthorized
      | Some (payloadEncoded, signatureEncoded) \<Rightarrow>
          if payloadEncoded = '''' \<or> signatureEncoded = '''' then Inl errUnauthorized
          else case b64_decode signatureEncoded of
            None \<Rightarrow> Inl errUnauthorized
          | Some signature \<Rightarrow>
              if signature \<noteq> signToken a payloadEncoded then Inl errUnauthorized
              else case b64_decode payloadEncoded of
                None \<Rightarrow> Inl errUnauthorized
              | Some payload \<Rightarrow>
                  (case claims_Unmarshal J payload of
                     Inl e \<Rightarrow> Inl errUnauthorized
                   | Inr claims \<Rightarrow>
                       if lt_Username claims = '''' \<or> unix t \<ge> lt_Expires claims then Inl errTokenExpired
                       else Inr \<lparr>sub_Username = lt_Username claims, sub_StaticToken = False\<rparr>))"

section \<open>Requests\<close>

record admin_request =
  rq_Method :: string
  rq_Authorization :: string
  rq_BasicAuth :: "(string \<times> string) option"
  rq_Body :: "string \<times> go_error option"

text \<open>
  \<open>strings.EqualFold\<close> against \<open>Bearer \<close> on seven bytes: none of its letters has a case variant
  outside ASCII.
\<close>

definition ascii_lower :: "char \<Rightarrow> char" where
  "ascii_lower c = (let n = of_char c :: nat in if 65 \<le> n \<and> n \<le> 90 then char_of (n + 32) else c)"

definition extractBearerToken :: "string \<Rightarrow> string" where
  "extractBearerToken authorization =
     (if length authorization < length ''Bearer '' \<or>
         map ascii_lower (take 7 authorization) \<noteq> map ascii_lower ''Bearer '' then ''''
      else TrimSpace (drop 7 authorization))"

definition validateBasicCredentials :: "Authenticator \<Rightarrow> string \<Rightarrow> string \<Rightarrow> go_error + AuthSubject" where
  "validateBasicCredentials a username password =
     (case admins a username of
        None \<Rightarrow> Inl errUnauthorized
      | Some expectedPassword \<Rightarrow>
          if expectedPassword \<noteq> password then Inl errUnauthorized
          else Inr \<lparr>sub_Username = username, sub_StaticToken = False\<rparr>)"

definition validateAuthorization ::
  "claims_codec \<Rightarrow> int \<Rightarrow> Authenticator \<Rightarrow> admin_request \<Rightarrow> go_error + AuthSubject" where
  "validateAuthorization J t a request =
     (let token = extractBearerToken (rq_Authorization request)
      in if token \<noteq> '''' then validateBearerToken J t a token
         else case rq_BasicAuth request of
           None \<Rightarrow> Inl errUnauthorized
         | Some (username, password) \<Rightarrow> validateBasicCredentials a username password)"

section \<open>Tokens are signed claims\<close>

text \<open>What a signed token says, independently of the order of the checks.\<close>

definition signed_claims :: "claims_codec \<Rightarrow> Authenticator \<Rightarrow> string \<Rightarrow> loginTokenClaims \<Rightarrow> bool" where
  "signed_claims J a token claims \<longleftrightarrow> tokenSecret a \<noteq> '''' \<and>
     (\<exists>p s payload. token = p @ CHR ''.'' # s \<and> CHR ''.'' \<notin> set p \<and>
        b64_decode s = Some (hmac_sha256 (tokenSecret a) p) \<and>
        b64_decode p = Some payload \<and> claims_Unmarshal J payload = Inr claims)"

lemma b64_decode_Nil: "b64_decode [] = Some []"
  by (simp add: b64_decode_def string_of_bytes_def)

lemma signed_not_empty:
  assumes "b64_decode s = Some (hmac_sha256 k p)"
  shows "s \<noteq> []"
  using assms length_hmac_sha256 [of k p] by (auto simp: b64_decode_Nil)

lemma validateBearerToken_ok_iff:
  "validateBearerToken J t a token = Inr subject \<longleftrightarrow>
     token \<noteq> '''' \<and>
     (if token \<in> staticTokens a then subject = \<lparr>sub_Username = '''', sub_StaticToken = True\<rparr>
      else sub_StaticToken subject = False \<and> CHR ''.'' \<noteq> hd token \<and> sub_Username subject \<noteq> '''' \<and>
        (\<exists>claims. signed_claims J a token claims \<and> lt_Username claims = sub_Username subject \<and> unix t < lt_Expires claims))"
proof (cases "token = '''' \<or> token \<in> staticTokens a \<or> tokenSecret a = '''' \<or> str_cut (CHR ''.'') token = None")
  case True
  then show ?thesis
    using str_cut_None_iff [of "CHR ''.''" token] by (auto simp: validateBearerToken_def signed_claims_def)
next
  case False
  then obtain p s where cut: "str_cut (CHR ''.'') token = Some (p, s)"
    by (metis option.exhaust prod.exhaust)
  then have token: "token = p @ CHR ''.'' # s" "CHR ''.'' \<notin> set p" by (simp_all add: str_cut_Some_iff)
  have uniq: "token = p' @ CHR ''.'' # s' \<and> CHR ''.'' \<notin> set p' \<longleftrightarrow> p' = p \<and> s' = s" for p' s'
    unfolding str_cut_Some_iff [symmetric] cut by auto
  have hd: "CHR ''.'' = hd token \<longleftrightarrow> p = ''''" using token by (cases p) auto
  have signed: "signed_claims J a token claims \<longleftrightarrow> b64_decode s = Some (hmac_sha256 (tokenSecret a) p) \<and>
      (\<exists>payload. b64_decode p = Some payload \<and> claims_Unmarshal J payload = Inr claims)" for claims
    using False uniq unfolding signed_claims_def by metis
  show ?thesis
  proof (cases "p = '''' \<or> s = '''' \<or> b64_decode s \<noteq> Some (signToken a p)")
    case True
    then have "\<not> (p \<noteq> '''' \<and> signed_claims J a token claims)" for claims
      using signed_not_empty by (auto simp: signed signToken_def)
    moreover have "validateBearerToken J t a token \<noteq> Inr subject"
      using True False cut by (auto simp: validateBearerToken_def split: option.splits)
    ultimately show ?thesis using False hd by auto
  next
    case ok: False
    have "validateBearerToken J t a token =
       (case b64_decode p of
          None \<Rightarrow> Inl errUnauthorized
        | Some payload \<Rightarrow>
            (case claims_Unmarshal J payload of
               Inl e \<Rightarrow> Inl errUnauthorized
             | Inr claims \<Rightarrow>
                 if lt_Username claims = '''' \<or> unix t \<ge> lt_Expires claims then Inl errTokenExpired
                 else Inr \<lparr>sub_Username = lt_Username claims, sub_StaticToken = False\<rparr>))"
      using ok False cut by (simp add: validateBearerToken_def)
    then show ?thesis
      using ok False hd
      by (cases subject) (auto simp: signed signToken_def split: option.splits sum.splits)
  qed
qed

section \<open>Logging in\<close>

text \<open>Reading the claims back gives what was written, and they are never written as nothing.\<close>

locale claims_json =
  fixes J :: claims_codec
  assumes unmarshal_marshal: "claims_Marshal J c = Inr payload \<Longrightarrow> claims_Unmarshal J payload = Inr c"
    and marshal_nonempty: "claims_Marshal J c = Inr payload \<Longrightarrow> payload \<noteq> ''''"
begin

lemma issued_token:
  assumes "issueLoginTokenWithExpiry J t a u = Inr (token, expiresAt)"
  shows "expiresAt = t + tokenTTL a" "0 < tokenTTL a" "tokenSecret a \<noteq> ''''" "token \<noteq> ''''" "CHR ''.'' \<noteq> hd token"
    "signed_claims J a token \<lparr>lt_Username = u, lt_Expires = unix expiresAt\<rparr>"
proof -
  let ?c = "\<lparr>lt_Username = u, lt_Expires = unix (t + tokenTTL a)\<rparr>"
  obtain payload where ok: "tokenSecret a \<noteq> ''''" "0 < tokenTTL a" and m: "claims_Marshal J ?c = Inr payload"
    and token: "token = b64_encode payload @ CHR ''.'' # b64_encode (signToken a (b64_encode payload))"
    and e: "expiresAt = t + tokenTTL a"
    using assms by (auto simp: issueLoginTokenWithExpiry_def Let_def split: if_splits sum.splits)
  show "expiresAt = t + tokenTTL a" "0 < tokenTTL a" "tokenSecret a \<noteq> ''''" by fact+
  have "b64_encode payload \<noteq> ''''" using marshal_nonempty [OF m] by (simp add: b64_encode_nonempty)
  then show "token \<noteq> ''''" "CHR ''.'' \<noteq> hd token"
    using b64_encode_plain [of payload] by (auto simp: token neq_Nil_conv)
  show "signed_claims J a token \<lparr>lt_Username = u, lt_Expires = unix expiresAt\<rparr>"
    unfolding signed_claims_def
    using ok(1) b64_encode_plain unmarshal_marshal [OF m] e
    by (intro conjI exI [of _ "b64_encode payload"] exI [of _ "b64_encode (signToken a (b64_encode payload))"]
        exI [of _ payload]) (simp_all add: token b64_decode_encode signToken_def)
qed

end

lemma signed_claims_unique: "signed_claims J a token c \<Longrightarrow> signed_claims J a token c' \<Longrightarrow> c = c'"
proof -
  assume "signed_claims J a token c" "signed_claims J a token c'"
  then obtain p s x p' s' x' where
    "token = p @ CHR ''.'' # s" "CHR ''.'' \<notin> set p" "b64_decode p = Some x" "claims_Unmarshal J x = Inr c"
    and "token = p' @ CHR ''.'' # s'" "CHR ''.'' \<notin> set p'" "b64_decode p' = Some x'" "claims_Unmarshal J x' = Inr c'"
    unfolding signed_claims_def by blast
  moreover from this have "p = p'" by (metis Pair_inject option.inject str_cut_Some_iff)
  ultimately show "c = c'" by simp
qed

lemma validate_signed:
  assumes "signed_claims J a token claims" "token \<notin> staticTokens a" "token \<noteq> ''''" "CHR ''.'' \<noteq> hd token"
  shows "validateBearerToken J t a token =
     (if lt_Username claims = '''' \<or> unix t \<ge> lt_Expires claims then Inl errTokenExpired
      else Inr \<lparr>sub_Username = lt_Username claims, sub_StaticToken = False\<rparr>)"
proof -
  obtain p s payload where s: "tokenSecret a \<noteq> ''''" "token = p @ CHR ''.'' # s" "CHR ''.'' \<notin> set p"
    "b64_decode s = Some (hmac_sha256 (tokenSecret a) p)" "b64_decode p = Some payload"
    "claims_Unmarshal J payload = Inr claims"
    using assms(1) by (auto simp: signed_claims_def)
  have "str_cut (CHR ''.'') token = Some (p, s)" using s(2,3) by (simp add: str_cut_Some_iff)
  moreover have "p \<noteq> ''''" using assms(4) s(2) by auto
  moreover have "s \<noteq> ''''" by (rule signed_not_empty [OF s(4)])
  ultimately show ?thesis using assms(2,3) s by (simp add: validateBearerToken_def signToken_def)
qed

definition demo_codec :: claims_codec where
  "demo_codec =
     \<lparr>claims_Marshal = \<lambda>c. Inr (itoa (lt_Expires c) @ CHR '':'' # lt_Username c),
      claims_Unmarshal = \<lambda>p. (case str_cut (CHR '':'') p of
          None \<Rightarrow> Inl (EDriver ''json'')
        | Some (e, u) \<Rightarrow>
            (if e = '''' then Inl (EDriver ''json'')
             else if hd e = CHR ''-''
             then (case parse_digits 0 (tl e) of None \<Rightarrow> Inl (EDriver ''json'')
                   | Some n \<Rightarrow> Inr \<lparr>lt_Username = u, lt_Expires = - int n\<rparr>)
             else (case parse_digits 0 e of None \<Rightarrow> Inl (EDriver ''json'')
                   | Some n \<Rightarrow> Inr \<lparr>lt_Username = u, lt_Expires = int n\<rparr>)))\<rparr>"

lemma demo_codec_roundtrip: "claims_Unmarshal demo_codec (itoa e @ CHR '':'' # u) = Inr \<lparr>lt_Username = u, lt_Expires = e\<rparr>"
proof -
  have colon: "CHR '':'' \<notin> set (itoa e)" using not_in_dec [of "CHR '':''"] by (simp add: itoa_def)
  show ?thesis
  proof (cases "e < 0")
    case True
    then show ?thesis using colon by (simp add: demo_codec_def str_cut_append itoa_def parse_digits_dec)
  next
    case False
    then show ?thesis using colon hd_dec_not_sign by (simp add: demo_codec_def str_cut_append itoa_def parse_digits_dec)
  qed
qed

interpretation demo_claims: claims_json demo_codec
  by unfold_locales (use demo_codec_roundtrip in \<open>auto simp: demo_codec_def\<close>)

text \<open>
  C37. A token issued at a login is accepted as that user from the moment it is issued until the
  second its claims name, and as expired from then on; only a static token that happens to be the
  same text is taken for a static token instead.
\<close>

theorem login_token_roundtrip:
  assumes "claims_json J" "issueLoginTokenWithExpiry J t a u = Inr (token, expiresAt)" "u \<noteq> ''''"
  shows "expiresAt = t + tokenTTL a \<and>
    validateBearerToken J t' a token =
     (if token \<in> staticTokens a then Inr \<lparr>sub_Username = '''', sub_StaticToken = True\<rparr>
      else if unix t' < unix expiresAt then Inr \<lparr>sub_Username = u, sub_StaticToken = False\<rparr>
      else Inl errTokenExpired)"
proof -
  note i = claims_json.issued_token [OF assms(1,2)]
  show ?thesis
    using i(1,4) validate_signed [OF i(6) _ i(4,5), of t'] assms(3)
    by (auto simp: validateBearerToken_def)
qed

definition demo_authenticator :: Authenticator where
  "demo_authenticator = \<lparr>admins = [''root'' \<mapsto> ''pw''], staticTokens = {''t0''}, tokenSecret = ''k'',
     tokenTTL = 3600 * 1000000000\<rparr>"

theorem login_token_roundtrip_witness:
  "\<exists>token e. issueLoginTokenWithExpiry demo_codec 0 demo_authenticator ''root'' = Inr (token, e) \<and>
     validateBearerToken demo_codec 3599000000000 demo_authenticator token = Inr \<lparr>sub_Username = ''root'', sub_StaticToken = False\<rparr> \<and>
     validateBearerToken demo_codec 3600000000000 demo_authenticator token = Inl errTokenExpired"
proof -
  obtain token e where i: "issueLoginTokenWithExpiry demo_codec 0 demo_authenticator ''root'' = Inr (token, e)"
    by (simp add: issueLoginTokenWithExpiry_def demo_authenticator_def demo_codec_def Let_def)
  have "CHR ''.'' \<in> set token"
    using i by (auto simp: issueLoginTokenWithExpiry_def demo_authenticator_def demo_codec_def Let_def)
  then have "token \<notin> staticTokens demo_authenticator" by (auto simp: demo_authenticator_def)
  with i login_token_roundtrip [OF demo_claims.claims_json_axioms i] show ?thesis
    by (intro exI [of _ token] exI [of _ e]) (simp add: demo_authenticator_def unix_def)
qed

end
