(* ===== verification/UserInbounds.thy ===== *)
theory UserInbounds
  imports Prelude
begin

text \<open>
  The inbounds that accept users from the user provider: \<open>ReplaceUsers\<close> of every
  \<open>adapter.ManagedUserServer\<close> under \<open>src/protocol\<close>, and \<open>UpdateUsers\<close> of
  \<open>src/transport/trojan/service.go\<close>.

  Most of them hand the users to a third-party protocol service. Such a service is represented
  by the users it holds, and what an update does to them is a parameter (\<open>inbound_libs\<close>) where
  the update can fail. An inbound finds the name of an authenticated connection by the
  index of the user in the list of the last \<open>ReplaceUsers\<close>; \<open>name_table\<close> is that list.

  The locale \<open>user_server\<close> is what the provider relies on and is interpreted on all of them.
\<close>

section \<open>Users\<close>

record adapter_user =
  au_Name :: string
  au_Password :: string
  au_UUID :: string
  au_AlterId :: int
  au_Flow :: string

section \<open>The Trojan service\<close>

text \<open>\<open>key\<close> is \<open>trojan.Key\<close>, the hexadecimal SHA-224 of a password.\<close>

record 'k trojan_service =
  ts_users :: "'k \<rightharpoonup> string"
  ts_keys :: "string \<rightharpoonup> 'k"

definition ErrUserExists :: go_error where
  "ErrUserExists = ENew [''user already exists'']"

fun trojan_collect ::
  "(string \<Rightarrow> string) \<Rightarrow> ('k \<Rightarrow> string) \<Rightarrow> ('k \<times> string) list \<Rightarrow> 'k trojan_service \<Rightarrow>
     go_error + 'k trojan_service" where
  "trojan_collect key show_user [] acc = Inr acc"
| "trojan_collect key show_user ((user, password) # rest) acc =
     (if ts_users acc user \<noteq> None then Inl ErrUserExists
      else case ts_keys acc (key password) of
        Some oldUser \<Rightarrow> Inl (EExtend ErrUserExists [''password used by '', show_user oldUser])
      | None \<Rightarrow>
          trojan_collect key show_user rest
            \<lparr>ts_users = (ts_users acc)(user \<mapsto> key password),
             ts_keys = (ts_keys acc)(key password \<mapsto> user)\<rparr>)"

definition trojan_UpdateUsers ::
  "(string \<Rightarrow> string) \<Rightarrow> ('k \<Rightarrow> string) \<Rightarrow> 'k list \<Rightarrow> string list \<Rightarrow> 'k trojan_service \<Rightarrow>
     go_error option \<times> 'k trojan_service" where
  "trojan_UpdateUsers key show_user userList passwordList s =
     (case trojan_collect key show_user (zip userList passwordList)
             \<lparr>ts_users = Map.empty, ts_keys = Map.empty\<rparr> of
        Inl e \<Rightarrow> (Some e, s)
      | Inr s' \<Rightarrow> (None, s'))"

section \<open>The inbounds\<close>

text \<open>
  \<open>vmess_UpdateUsers\<close> and \<open>ss_UpdateUsersWithPasswords\<close> take the users handed over and
  those the service held, and give the error and those it holds afterwards.
  \<open>shadowtls_NewService\<close> only says whether the service could be built.
\<close>

record inbound_libs =
  vmess_UpdateUsers ::
    "(nat \<times> string \<times> int) list \<Rightarrow> (nat \<times> string \<times> int) list \<Rightarrow>
       go_error option \<times> (nat \<times> string \<times> int) list"
  ss_UpdateUsersWithPasswords ::
    "(nat \<times> string) list \<Rightarrow> (nat \<times> string) list \<Rightarrow> go_error option \<times> (nat \<times> string) list"
  shadowtls_NewService :: "(string \<times> string) list \<Rightarrow> go_error option"
  uuid_FromString :: "string \<Rightarrow> go_error + string"
  trojan_key :: "string \<Rightarrow> string"

record vless_inbound =
  vl_users :: "(string \<times> string \<times> string) list"
  vl_service :: "(nat \<times> string \<times> string) list"

record vmess_inbound =
  vm_users :: "(string \<times> string \<times> int) list"
  vm_service :: "(nat \<times> string \<times> int) list"

record trojan_inbound =
  tr_users :: "(string \<times> string) list"
  tr_service :: "nat trojan_service"

record indexed_inbound =
  ix_names :: "string list"
  ix_service :: "(nat \<times> string) list"

record tuic_inbound =
  tu_names :: "string list"
  tu_server :: "(nat \<times> string \<times> string) list"

text \<open>
  HTTP, mixed, SOCKS and naive hold the names and passwords of their \<open>auth.Authenticator\<close>, AnyTLS
  those of its service; \<open>ShadowTLS\<close> is \<open>None\<close> before its service exists.
\<close>

datatype managed_inbound =
    VLESS vless_inbound
  | VMess vmess_inbound
  | Trojan trojan_inbound
  | Shadowsocks indexed_inbound
  | Hysteria indexed_inbound
  | Hysteria2 indexed_inbound
  | TUIC tuic_inbound
  | AnyTLS "(string \<times> string) list"
  | ShadowTLS "(string \<times> string) list option"
  | HTTP "(string \<times> string) list"
  | Mixed "(string \<times> string) list"
  | SOCKS "(string \<times> string) list"
  | Naive "(string \<times> string) list"

definition vless_ReplaceUsers :: "adapter_user list \<Rightarrow> vless_inbound \<Rightarrow> go_error option \<times> vless_inbound" where
  "vless_ReplaceUsers users h =
     (let vlessUsers = map (\<lambda>u. (au_Name u, au_UUID u, au_Flow u)) users
      in (None, h\<lparr>vl_service := zip [0..<length vlessUsers] (map snd vlessUsers), vl_users := vlessUsers\<rparr>))"

definition vmess_ReplaceUsers ::
  "inbound_libs \<Rightarrow> adapter_user list \<Rightarrow> vmess_inbound \<Rightarrow> go_error option \<times> vmess_inbound" where
  "vmess_ReplaceUsers L users h =
     (let vmessUsers = map (\<lambda>u. (au_Name u, au_UUID u, au_AlterId u)) users;
          args = zip [0..<length vmessUsers] (map snd vmessUsers)
      in case vmess_UpdateUsers L args (vm_service h) of
           (Some e, svc) \<Rightarrow> (Some e, h\<lparr>vm_service := svc\<rparr>)
         | (None, svc) \<Rightarrow> (None, h\<lparr>vm_service := svc, vm_users := vmessUsers\<rparr>))"

definition trojan_ReplaceUsers ::
  "inbound_libs \<Rightarrow> adapter_user list \<Rightarrow> trojan_inbound \<Rightarrow> go_error option \<times> trojan_inbound" where
  "trojan_ReplaceUsers L users h =
     (let trojanUsers = map (\<lambda>u. (au_Name u, au_Password u)) users
      in case trojan_UpdateUsers (trojan_key L) (\<lambda>i. dec i) [0..<length trojanUsers] (map snd trojanUsers)
                (tr_service h) of
           (Some e, svc) \<Rightarrow> (Some e, h\<lparr>tr_service := svc\<rparr>)
         | (None, svc) \<Rightarrow> (None, h\<lparr>tr_service := svc, tr_users := trojanUsers\<rparr>))"

definition ss_UpdateUsers ::
  "inbound_libs \<Rightarrow> string list \<Rightarrow> string list \<Rightarrow> indexed_inbound \<Rightarrow> go_error option \<times> indexed_inbound" where
  "ss_UpdateUsers L users uPSKs h =
     (case ss_UpdateUsersWithPasswords L (zip [0..<length users] uPSKs) (ix_service h) of
        (Some e, svc) \<Rightarrow> (Some e, h\<lparr>ix_service := svc\<rparr>)
      | (None, svc) \<Rightarrow> (None, h\<lparr>ix_service := svc, ix_names := users\<rparr>))"

definition ss_ReplaceUsers ::
  "inbound_libs \<Rightarrow> adapter_user list \<Rightarrow> indexed_inbound \<Rightarrow> go_error option \<times> indexed_inbound" where
  "ss_ReplaceUsers L users h = ss_UpdateUsers L (map au_Name users) (map au_Password users) h"

definition hysteria_ReplaceUsers ::
  "adapter_user list \<Rightarrow> indexed_inbound \<Rightarrow> go_error option \<times> indexed_inbound" where
  "hysteria_ReplaceUsers users h =
     (None, h\<lparr>ix_service := zip [0..<length users] (map au_Password users), ix_names := map au_Name users\<rparr>)"

definition hysteria2_ReplaceUsers ::
  "adapter_user list \<Rightarrow> indexed_inbound \<Rightarrow> go_error option \<times> indexed_inbound" where
  "hysteria2_ReplaceUsers users h =
     (None, h\<lparr>ix_service := zip [0..<length users] (map au_Password users), ix_names := map au_Name users\<rparr>)"

fun tuic_collect ::
  "inbound_libs \<Rightarrow> nat \<Rightarrow> adapter_user list \<Rightarrow> go_error + (nat \<times> string \<times> string) list" where
  "tuic_collect L i [] = Inr []"
| "tuic_collect L i (u # us) =
     (if au_UUID u = '''' then Inl (ENew [''missing uuid for user '', dec i])
      else case uuid_FromString L (au_UUID u) of
        Inl e \<Rightarrow> Inl (ECause e [''invalid uuid for user '', dec i])
      | Inr uuid \<Rightarrow>
          (case tuic_collect L (Suc i) us of
             Inl e \<Rightarrow> Inl e
           | Inr rest \<Rightarrow> Inr ((i, uuid, au_Password u) # rest)))"

definition tuic_ReplaceUsers ::
  "inbound_libs \<Rightarrow> adapter_user list \<Rightarrow> tuic_inbound \<Rightarrow> go_error option \<times> tuic_inbound" where
  "tuic_ReplaceUsers L users h =
     (case tuic_collect L 0 users of
        Inl e \<Rightarrow> (Some e, h)
      | Inr args \<Rightarrow> (None, h\<lparr>tu_server := args, tu_names := map au_Name users\<rparr>))"

definition name_and_password :: "adapter_user \<Rightarrow> string \<times> string" where
  "name_and_password u = (au_Name u, au_Password u)"

definition shadowtls_ReplaceUsers ::
  "inbound_libs \<Rightarrow> adapter_user list \<Rightarrow> (string \<times> string) list option \<Rightarrow>
     go_error option \<times> (string \<times> string) list option" where
  "shadowtls_ReplaceUsers L users service =
     (case shadowtls_NewService L (map name_and_password users) of
        Some e \<Rightarrow> (Some e, service)
      | None \<Rightarrow> (None, Some (map name_and_password users)))"

definition anytls_ReplaceUsers :: "adapter_user list \<Rightarrow> (string \<times> string) list \<Rightarrow> go_error option \<times> (string \<times> string) list" where
  "anytls_ReplaceUsers users credentials = (None, map name_and_password users)"

definition http_ReplaceUsers :: "adapter_user list \<Rightarrow> (string \<times> string) list \<Rightarrow> go_error option \<times> (string \<times> string) list" where
  "http_ReplaceUsers users credentials = (None, map name_and_password users)"

definition mixed_ReplaceUsers :: "adapter_user list \<Rightarrow> (string \<times> string) list \<Rightarrow> go_error option \<times> (string \<times> string) list" where
  "mixed_ReplaceUsers users credentials = (None, map name_and_password users)"

definition socks_ReplaceUsers :: "adapter_user list \<Rightarrow> (string \<times> string) list \<Rightarrow> go_error option \<times> (string \<times> string) list" where
  "socks_ReplaceUsers users credentials = (None, map name_and_password users)"

definition naive_ReplaceUsers :: "adapter_user list \<Rightarrow> (string \<times> string) list \<Rightarrow> go_error option \<times> (string \<times> string) list" where
  "naive_ReplaceUsers users credentials = (None, map name_and_password users)"

text \<open>Calling \<open>ReplaceUsers\<close> through the interface.\<close>

fun ReplaceUsers ::
  "inbound_libs \<Rightarrow> adapter_user list \<Rightarrow> managed_inbound \<Rightarrow> go_error option \<times> managed_inbound" where
  "ReplaceUsers L us (VLESS h) = map_prod id VLESS (vless_ReplaceUsers us h)"
| "ReplaceUsers L us (VMess h) = map_prod id VMess (vmess_ReplaceUsers L us h)"
| "ReplaceUsers L us (Trojan h) = map_prod id Trojan (trojan_ReplaceUsers L us h)"
| "ReplaceUsers L us (Shadowsocks h) = map_prod id Shadowsocks (ss_ReplaceUsers L us h)"
| "ReplaceUsers L us (Hysteria h) = map_prod id Hysteria (hysteria_ReplaceUsers us h)"
| "ReplaceUsers L us (TUIC h) = map_prod id TUIC (tuic_ReplaceUsers L us h)"
| "ReplaceUsers L us (Hysteria2 h) = map_prod id Hysteria2 (hysteria2_ReplaceUsers us h)"
| "ReplaceUsers L us (AnyTLS h) = map_prod id AnyTLS (anytls_ReplaceUsers us h)"
| "ReplaceUsers L us (ShadowTLS h) = map_prod id ShadowTLS (shadowtls_ReplaceUsers L us h)"
| "ReplaceUsers L us (HTTP h) = map_prod id HTTP (http_ReplaceUsers us h)"
| "ReplaceUsers L us (Mixed h) = map_prod id Mixed (mixed_ReplaceUsers us h)"
| "ReplaceUsers L us (SOCKS h) = map_prod id SOCKS (socks_ReplaceUsers us h)"
| "ReplaceUsers L us (Naive h) = map_prod id Naive (naive_ReplaceUsers us h)"

fun name_table :: "managed_inbound \<Rightarrow> string list" where
  "name_table (VLESS h) = map fst (vl_users h)"
| "name_table (VMess h) = map fst (vm_users h)"
| "name_table (Trojan h) = map fst (tr_users h)"
| "name_table (Shadowsocks h) = ix_names h"
| "name_table (Hysteria h) = ix_names h"
| "name_table (Hysteria2 h) = ix_names h"
| "name_table (TUIC h) = tu_names h"
| "name_table (AnyTLS h) = map fst h"
| "name_table (ShadowTLS h) = (case h of None \<Rightarrow> [] | Some us \<Rightarrow> map fst us)"
| "name_table (HTTP h) = map fst h"
| "name_table (Mixed h) = map fst h"
| "name_table (SOCKS h) = map fst h"
| "name_table (Naive h) = map fst h"

text \<open>
  The user name of a new stream on an authenticated session, as \<open>NewConnectionEx\<close> of the
  indexed inbounds computes it from the index the session carries.
\<close>

definition session_name :: "nat \<Rightarrow> managed_inbound \<Rightarrow> string go" where
  "session_name userID h =
     (if userID < length (name_table h) then Ret (name_table h ! userID)
      else Panic (EDriver ''index out of range''))"

section \<open>What an update leaves behind\<close>

text \<open>The interface the provider relies on.\<close>

locale user_server =
  fixes rep :: "adapter_user list \<Rightarrow> 'h \<Rightarrow> go_error option \<times> 'h"
    and names :: "'h \<Rightarrow> string list"
  assumes rep_accepted: "rep us h = (None, h') \<Longrightarrow> names h' = map au_Name us"
    and rep_refused: "rep us h = (Some e, h') \<Longrightarrow> names h' = names h"
begin

lemma names_rep:
  "names (snd (rep us h)) = (if fst (rep us h) = None then map au_Name us else names h)"
  by (cases "rep us h"; cases "fst (rep us h)") (auto dest: rep_accepted rep_refused)

end

lemmas ReplaceUsers_defs =
  vless_ReplaceUsers_def vmess_ReplaceUsers_def trojan_ReplaceUsers_def ss_ReplaceUsers_def
  ss_UpdateUsers_def hysteria_ReplaceUsers_def hysteria2_ReplaceUsers_def tuic_ReplaceUsers_def
  shadowtls_ReplaceUsers_def anytls_ReplaceUsers_def http_ReplaceUsers_def mixed_ReplaceUsers_def
  socks_ReplaceUsers_def naive_ReplaceUsers_def name_and_password_def

lemma ReplaceUsers_accepted:
  "ReplaceUsers L us h = (None, h') \<Longrightarrow> name_table h' = map au_Name us"
  by (cases h)
    (auto simp: ReplaceUsers_defs Let_def map_prod_def split: prod.splits option.splits sum.splits)

lemma ReplaceUsers_refused:
  "ReplaceUsers L us h = (Some e, h') \<Longrightarrow> name_table h' = name_table h"
  by (cases h)
    (auto simp: ReplaceUsers_defs Let_def map_prod_def split: prod.splits option.splits sum.splits)

interpretation inbounds: user_server "ReplaceUsers L" name_table for L
  by unfold_locales (fact ReplaceUsers_accepted, fact ReplaceUsers_refused)

text \<open>
  A session that was authenticated before an update keeps the index it was given, so the streams
  it opens afterwards are attributed to whoever has that index in the new list.
\<close>

lemma session_after_replace:
  assumes "ReplaceUsers L us h = (None, h')"
  shows "session_name i h' =
     (if i < length us then Ret (au_Name (us ! i)) else Panic (EDriver ''index out of range''))"
  using ReplaceUsers_accepted [OF assms] by (simp add: session_name_def)

definition demo_user :: "string \<Rightarrow> adapter_user" where
  "demo_user n = \<lparr>au_Name = n, au_Password = n, au_UUID = '''', au_AlterId = 0, au_Flow = ''''\<rparr>"

lemma removed_user_misattributed:
  fixes L h
  defines "h1 \<equiv> snd (ReplaceUsers L [demo_user ''alice'', demo_user ''bob''] (Hysteria2 h))"
  defines "h2 \<equiv> snd (ReplaceUsers L [demo_user ''bob''] h1)"
  shows "session_name 0 h1 = Ret ''alice''" and "session_name 0 h2 = Ret ''bob''"
    and "session_name 1 h1 = Ret ''bob''" and "session_name 1 h2 = Panic (EDriver ''index out of range'')"
  by (simp_all add: h1_def h2_def session_name_def hysteria2_ReplaceUsers_def demo_user_def)

section \<open>Trojan credentials\<close>

lemma trojan_collect_keys:
  assumes "trojan_collect key sh ups acc = Inr acc'"
  shows "distinct (map (key \<circ> snd) ups)" "distinct (map fst ups)"
    and "\<forall>p \<in> set ups. ts_keys acc (key (snd p)) = None \<and> ts_users acc (fst p) = None"
    and "ts_keys acc' = ts_keys acc ++ map_of (map (\<lambda>p. (key (snd p), fst p)) ups)"
    and "ts_users acc' = ts_users acc ++ map_of (map (\<lambda>p. (fst p, key (snd p))) ups)"
proof -
  have "distinct (map (key \<circ> snd) ups) \<and> distinct (map fst ups) \<and>
      (\<forall>p \<in> set ups. ts_keys acc (key (snd p)) = None \<and> ts_users acc (fst p) = None) \<and>
      ts_keys acc' = ts_keys acc ++ map_of (map (\<lambda>p. (key (snd p), fst p)) ups) \<and>
      ts_users acc' = ts_users acc ++ map_of (map (\<lambda>p. (fst p, key (snd p))) ups)"
    using assms
  proof (induction ups arbitrary: acc)
    case Nil
    then show ?case by simp
  next
    case (Cons p ups)
    obtain u w where p: "p = (u, w)" by (cases p)
    let ?acc = "\<lparr>ts_users = (ts_users acc)(u \<mapsto> key w), ts_keys = (ts_keys acc)(key w \<mapsto> u)\<rparr>"
    from Cons.prems have free: "ts_users acc u = None" "ts_keys acc (key w) = None"
      and rest: "trojan_collect key sh ups ?acc = Inr acc'"
      by (auto simp: p split: if_splits option.splits)
    note IH = Cons.IH [OF rest]
    have fresh: "\<forall>q \<in> set ups. key (snd q) \<noteq> key w \<and> fst q \<noteq> u \<and>
        ts_keys acc (key (snd q)) = None \<and> ts_users acc (fst q) = None"
      using IH by (auto split: if_splits)
    have "map_of (map (\<lambda>p. (key (snd p), fst p)) ups) (key w) = None"
      and "map_of (map (\<lambda>p. (fst p, key (snd p))) ups) u = None"
      using fresh by (auto simp: map_of_eq_None_iff)
    with IH fresh free show ?case
      by (auto simp: p map_add_def fun_eq_iff split: option.splits)
  qed
  then show "distinct (map (key \<circ> snd) ups)" "distinct (map fst ups)"
    "\<forall>p \<in> set ups. ts_keys acc (key (snd p)) = None \<and> ts_users acc (fst p) = None"
    "ts_keys acc' = ts_keys acc ++ map_of (map (\<lambda>p. (key (snd p), fst p)) ups)"
    "ts_users acc' = ts_users acc ++ map_of (map (\<lambda>p. (fst p, key (snd p))) ups)"
    by auto
qed

lemma trojan_collect_distinct:
  assumes "distinct (map (key \<circ> snd) ups)" "distinct (map fst ups)"
    and "\<forall>p \<in> set ups. ts_keys acc (key (snd p)) = None \<and> ts_users acc (fst p) = None"
  shows "\<exists>acc'. trojan_collect key sh ups acc = Inr acc'"
  using assms
proof (induction ups arbitrary: acc)
  case Nil
  then show ?case by simp
next
  case (Cons p ups)
  obtain u w where p: "p = (u, w)" by (cases p)
  let ?acc = "\<lparr>ts_users = (ts_users acc)(u \<mapsto> key w), ts_keys = (ts_keys acc)(key w \<mapsto> u)\<rparr>"
  have "\<forall>q \<in> set ups. ts_keys ?acc (key (snd q)) = None \<and> ts_users ?acc (fst q) = None"
    using Cons.prems by (force simp: p)
  with Cons have "\<exists>acc'. trojan_collect key sh ups ?acc = Inr acc'" by simp
  with Cons.prems show ?case by (simp add: p)
qed

text \<open>An update succeeds exactly when no two passwords have the same key.\<close>

lemma trojan_update_iff:
  assumes "distinct us" and "length us = length ws"
  shows "fst (trojan_UpdateUsers key sh us ws s) = None \<longleftrightarrow> distinct (map key ws)"
proof -
  let ?e = "\<lparr>ts_users = Map.empty, ts_keys = Map.empty\<rparr>"
  have m: "map (key \<circ> snd) (zip us ws) = map key ws" "map fst (zip us ws) = us"
    using assms(2) by (simp_all flip: map_map)
  have "fst (trojan_UpdateUsers key sh us ws s) = None \<longleftrightarrow>
      (\<exists>acc'. trojan_collect key sh (zip us ws) ?e = Inr acc')"
    by (simp add: trojan_UpdateUsers_def split: sum.splits)
  then show ?thesis
    using trojan_collect_keys(1) [of key sh "zip us ws" ?e]
      trojan_collect_distinct [of key "zip us ws" ?e sh] assms(1) by (auto simp: m)
qed

lemma trojan_update_keys:
  assumes "trojan_UpdateUsers key sh [0..<length ws] ws s = (None, s')"
  shows "ts_keys s' k = Some i \<longleftrightarrow> i < length ws \<and> key (ws ! i) = k"
proof -
  let ?z = "zip [0..<length ws] ws"
  from assms have c: "trojan_collect key sh ?z \<lparr>ts_users = Map.empty, ts_keys = Map.empty\<rparr> = Inr s'"
    by (simp add: trojan_UpdateUsers_def split: sum.splits)
  let ?kv = "map (\<lambda>p. (key (snd p), fst p)) ?z"
  have "distinct (map fst ?kv)" using trojan_collect_keys(1) [OF c] by (simp add: comp_def)
  then have "map_of ?kv k = Some i \<longleftrightarrow> (k, i) \<in> set ?kv" by simp
  also have "\<dots> \<longleftrightarrow> i < length ws \<and> key (ws ! i) = k"
    by (force simp: set_zip image_iff)
  finally show ?thesis using trojan_collect_keys(4) [OF c] by simp
qed

end
