(* ===== verification/Calendar.thy ===== *)
theory Calendar
  imports Prelude
begin

text \<open>
  Go's \<open>time\<close> package as far as the traffic quota service uses it, for instants in UTC: the
  proleptic Gregorian calendar (\<open>Date\<close>, \<open>Weekday\<close>, \<open>AddDate\<close> by days), the two layouts
  \<open>2006-01-02\<close> and \<open>2006-01\<close>, \<open>IsZero\<close> and the saturating \<open>Sub\<close>. The main facts are
  that a day number is recovered from its date, so formatted dates are injective, and that
  days in one month share a formatted month.

  An instant (\<open>time.Time\<close>) is its distance from the Unix epoch in nanoseconds; a day number
  counts days from 1970-01-01.
\<close>

type_synonym gotime = int

definition day_ns :: int where
  "day_ns = 86400 * 10 ^ 9"

definition unix_sec :: "gotime \<Rightarrow> int" where
  "unix_sec t = t div 10 ^ 9"

definition day_of :: "gotime \<Rightarrow> int" where
  "day_of t = t div day_ns"

definition zero_time :: gotime where
  "zero_time = - 62135596800 * 10 ^ 9"

definition IsZero :: "gotime \<Rightarrow> bool" where
  "IsZero t \<longleftrightarrow> t = zero_time"

text \<open>\<open>t.Sub(u)\<close> saturates at the bounds of \<open>time.Duration\<close>.\<close>

definition time_Sub :: "gotime \<Rightarrow> gotime \<Rightarrow> int" where
  "time_Sub t u = max (- (2 ^ 63)) (min (2 ^ 63 - 1) (t - u))"

section \<open>Dates\<close>

definition is_leap :: "int \<Rightarrow> bool" where
  "is_leap y \<longleftrightarrow> y mod 4 = 0 \<and> (y mod 100 \<noteq> 0 \<or> y mod 400 = 0)"

text \<open>
  Year and day of the year of a day number: cut off whole 400-year cycles, then centuries,
  four-year cycles and years. The last century of a cycle and the last year of a four-year
  cycle are one day longer, which the two \<open>min\<close> account for. 719162 days lie between
  0001-01-01 and 1970-01-01.
\<close>

definition year_yday :: "int \<Rightarrow> int \<times> int" where
  "year_yday z =
     (let d = z + 719162;
          n400 = d div 146097; d400 = d mod 146097;
          n100 = min 3 (d400 div 36524); d100 = d400 - 36524 * n100;
          n4 = d100 div 1461; d4 = d100 mod 1461;
          n1 = min 3 (d4 div 365); yday = d4 - 365 * n1
      in (400 * n400 + 100 * n100 + 4 * n4 + n1 + 1, yday))"

text \<open>Days of the year before the first of month \<open>m\<close>.\<close>

definition days_before :: "bool \<Rightarrow> nat \<Rightarrow> int" where
  "days_before leap m =
     [0, 31, 59, 90, 120, 151, 181, 212, 243, 273, 304, 334] ! (m - 1) +
     (if leap \<and> 2 < m then 1 else 0)"

text \<open>The month of a day of the year: the last month that starts at or before it.\<close>

function find_month :: "bool \<Rightarrow> int \<Rightarrow> nat \<Rightarrow> nat" where
  "find_month leap yday m =
     (if m < 12 \<and> days_before leap (Suc m) \<le> yday then find_month leap yday (Suc m) else m)"
  by pat_completeness auto
termination
  by (relation "measure (\<lambda>(leap, yday, m). 12 - m)") auto

declare find_month.simps [simp del]

definition month_of :: "bool \<Rightarrow> int \<Rightarrow> nat" where
  "month_of leap yday = find_month leap yday 1"

definition date :: "int \<Rightarrow> int \<times> nat \<times> int" where
  "date z =
     (let (y, yday) = year_yday z; m = month_of (is_leap y) yday
      in (y, m, yday - days_before (is_leap y) m + 1))"

definition days_of_date :: "int \<Rightarrow> nat \<Rightarrow> int \<Rightarrow> int" where
  "days_of_date y m d =
     (let p = y - 1 in 365 * p + p div 4 - p div 100 + p div 400) +
     days_before (is_leap y) m + d - 1 - 719162"

definition weekday :: "int \<Rightarrow> int" where
  "weekday z = (z + 4) mod 7"

lemma cycle_bounds:
  fixes x k :: int
  assumes "0 < k" and "0 \<le> x" and "x \<le> 4 * k"
  shows "0 \<le> min 3 (x div k)" and "0 \<le> x - k * min 3 (x div k)"
    and "x - k * min 3 (x div k) \<le> k"
proof -
  have e: "x = k * (x div k) + x mod k" and m: "0 \<le> x mod k" "x mod k < k"
    using assms(1) by simp_all
  have q0: "0 \<le> x div k" using assms by (simp add: pos_imp_zdiv_nonneg_iff)
  show "0 \<le> min 3 (x div k)" using q0 by simp
  have "0 \<le> x - k * min 3 (x div k) \<and> x - k * min 3 (x div k) \<le> k"
  proof (cases "x div k \<le> 3")
    case True
    then have "x - k * min 3 (x div k) = x mod k"
      by (simp add: min_absorb2 minus_mult_div_eq_mod)
    with m show ?thesis by linarith
  next
    case False
    then have "k * 4 \<le> k * (x div k)" using assms(1) by (intro mult_left_mono) simp_all
    moreover have min3: "min 3 (x div k) = 3" using False by simp
    ultimately show ?thesis unfolding min3 using e m assms by linarith
  qed
  then show "0 \<le> x - k * min 3 (x div k)" and "x - k * min 3 (x div k) \<le> k"
    by simp_all
qed

lemma div_cycles:
  fixes n1 n4 n100 n400 :: int
  assumes "0 \<le> n1" "n1 \<le> 3" "0 \<le> n4" "n4 \<le> 24" "0 \<le> n100" "n100 \<le> 3"
  shows "(400 * n400 + 100 * n100 + 4 * n4 + n1) div 4 = 100 * n400 + 25 * n100 + n4"
    and "(400 * n400 + 100 * n100 + 4 * n4 + n1) div 100 = 4 * n400 + n100"
    and "(400 * n400 + 100 * n100 + 4 * n4 + n1) div 400 = n400"
  using assms by linarith+

lemma year_yday_days:
  assumes "year_yday z = (y, yday)"
  shows "(let p = y - 1 in 365 * p + p div 4 - p div 100 + p div 400) + yday = z + 719162"
    and "0 \<le> yday" and "yday \<le> 365"
proof -
  define d where "d = z + 719162"
  define n400 where "n400 = d div 146097"
  define d400 where "d400 = d mod 146097"
  define n100 where "n100 = min 3 (d400 div 36524)"
  define d100 where "d100 = d400 - 36524 * n100"
  define n4 where "n4 = d100 div 1461"
  define d4 where "d4 = d100 mod 1461"
  define n1 where "n1 = min 3 (d4 div 365)"
  have "(400 * n400 + 100 * n100 + 4 * n4 + n1 + 1, d4 - 365 * n1) = (y, yday)"
    using assms unfolding year_yday_def Let_def d_def n400_def d400_def n100_def d100_def
      n4_def d4_def n1_def .
  then have y: "y - 1 = 400 * n400 + 100 * n100 + 4 * n4 + n1" and yd: "yday = d4 - 365 * n1"
    by simp_all
  have d: "d = 146097 * n400 + d400" unfolding n400_def d400_def by simp
  have b400: "0 \<le> d400" "d400 \<le> 4 * 36524" unfolding d400_def by simp_all
  have b100: "0 \<le> n100" "0 \<le> d100" "d100 \<le> 36524"
    using cycle_bounds [OF _ b400] unfolding d100_def n100_def by simp_all
  have c100: "n100 \<le> 3" unfolding n100_def by simp
  have e100: "d100 = 1461 * n4 + d4" unfolding n4_def d4_def by simp
  have bd4: "0 \<le> d4" "d4 \<le> 4 * 365" unfolding d4_def by simp_all
  have b4: "0 \<le> n4" "n4 \<le> 24" using b100 e100 bd4 unfolding n4_def by linarith+
  have b1: "0 \<le> n1" "0 \<le> yday" "yday \<le> 365"
    using cycle_bounds [OF _ bd4] unfolding yd n1_def by simp_all
  have c1: "n1 \<le> 3" unfolding n1_def by simp
  show "0 \<le> yday" and "yday \<le> 365" by fact+
  show "(let p = y - 1 in 365 * p + p div 4 - p div 100 + p div 400) + yday = z + 719162"
    unfolding Let_def y div_cycles [OF b1(1) c1 b4 b100(1) c100]
    using d e100 yd d_def d100_def by (simp add: algebra_simps)
qed

theorem days_of_date_date:
  assumes "date z = (y, m, d)"
  shows "days_of_date y m d = z"
proof -
  obtain yd where yy: "year_yday z = (y, yd)"
    and "m = month_of (is_leap y) yd" and "d = yd - days_before (is_leap y) m + 1"
    using assms by (auto simp: date_def Let_def split: prod.splits)
  with year_yday_days(1) [OF yy] show ?thesis
    by (simp add: days_of_date_def Let_def)
qed

lemma find_month_bounds:
  assumes "days_before leap m \<le> yday" and "m \<le> 12"
  shows "days_before leap (find_month leap yday m) \<le> yday"
    and "m \<le> find_month leap yday m" and "find_month leap yday m \<le> 12"
proof -
  have "days_before leap (find_month leap yday m) \<le> yday \<and>
        m \<le> find_month leap yday m \<and> find_month leap yday m \<le> 12"
    using assms
  proof (induction leap yday m rule: find_month.induct)
    case (1 leap yday m)
    show ?case
    proof (cases "m < 12 \<and> days_before leap (Suc m) \<le> yday")
      case True
      with "1.IH" show ?thesis by (auto simp: find_month.simps [of leap yday m])
    next
      case False
      then have "find_month leap yday m = m" by (subst find_month.simps) (simp only: if_not_P if_False)
      with "1.prems" show ?thesis by simp
    qed
  qed
  then show "days_before leap (find_month leap yday m) \<le> yday"
    and "m \<le> find_month leap yday m" and "find_month leap yday m \<le> 12"
    by simp_all
qed

lemma date_bounds:
  assumes "date z = (y, m, d)"
  shows "1 \<le> m" and "m \<le> 12" and "1 \<le> d"
proof -
  obtain yd where yy: "year_yday z = (y, yd)"
    and m: "m = find_month (is_leap y) yd 1" and d: "d = yd - days_before (is_leap y) m + 1"
    using assms by (auto simp: date_def month_of_def Let_def split: prod.splits)
  have "days_before (is_leap y) 1 \<le> yd"
    using year_yday_days(2) [OF yy] by (simp add: days_before_def)
  from find_month_bounds [OF this, folded m] show "1 \<le> m" and "m \<le> 12" and "1 \<le> d"
    by (simp_all add: d)
qed

section \<open>Formatting\<close>

definition append_int :: "nat \<Rightarrow> int \<Rightarrow> string" where
  "append_int w i = (if i < 0 then CHR ''-'' # pad w (nat (- i)) else pad w (nat i))"

text \<open>\<open>Format("2006-01-02")\<close> and \<open>Format("2006-01")\<close> of the day \<open>z\<close>.\<close>

definition format_date :: "int \<Rightarrow> string" where
  "format_date z =
     (case date z of (y, m, d) \<Rightarrow>
        append_int 4 y @ CHR ''-'' # pad 2 m @ CHR ''-'' # pad 2 (nat d))"

definition format_month :: "int \<Rightarrow> string" where
  "format_month z =
     (case date z of (y, m, d) \<Rightarrow> append_int 4 y @ CHR ''-'' # pad 2 m)"

lemma dash_not_in_pad: "CHR ''-'' \<notin> set (pad w n)"
  by (rule not_in_pad) simp

lemma pad_append_inj:
  "pad w m @ CHR ''-'' # xs = pad w n @ CHR ''-'' # ys \<longleftrightarrow> m = n \<and> xs = ys"
proof
  assume "pad w m @ CHR ''-'' # xs = pad w n @ CHR ''-'' # ys"
  then have "str_cut (CHR ''-'') (pad w m @ CHR ''-'' # xs) =
             str_cut (CHR ''-'') (pad w n @ CHR ''-'' # ys)" by simp
  then show "m = n \<and> xs = ys"
    by (simp add: str_cut_append dash_not_in_pad pad_inj)
qed simp

lemma hd_pad: "hd (pad w n @ zs) \<noteq> CHR ''-''"
proof -
  have "pad w n \<noteq> []" by (simp add: pad_def)
  then have "hd (pad w n @ zs) \<in> set (pad w n)" by simp
  then show ?thesis using dash_not_in_pad [of w n] by auto
qed

lemma append_int_inj:
  "append_int w i @ CHR ''-'' # xs = append_int w j @ CHR ''-'' # ys \<longleftrightarrow> i = j \<and> xs = ys"
proof -
  have neg: "CHR ''-'' # pad w a @ us \<noteq> pad w b @ vs" for a b us vs
    using hd_pad [of w b vs] by (metis list.sel(1))
  consider "i < 0" "j < 0" | "i < 0" "\<not> j < 0" | "\<not> i < 0" "j < 0" | "\<not> i < 0" "\<not> j < 0"
    by blast
  then show ?thesis
  proof cases
    case 2
    then show ?thesis using neg by (simp add: append_int_def)
  next
    case 3
    then show ?thesis using neg [symmetric] by (simp add: append_int_def)
  qed (simp_all add: append_int_def pad_append_inj eq_nat_nat_iff)
qed

theorem format_date_inj: "format_date a = format_date b \<longleftrightarrow> a = b"
proof
  assume eq: "format_date a = format_date b"
  obtain y m d where a: "date a = (y, m, d)" by (cases "date a")
  obtain y' m' d' where b: "date b = (y', m', d')" by (cases "date b")
  from eq have "append_int 4 y @ CHR ''-'' # pad 2 m @ CHR ''-'' # pad 2 (nat d) =
      append_int 4 y' @ CHR ''-'' # pad 2 m' @ CHR ''-'' # pad 2 (nat d')"
    by (simp only: format_date_def a b prod.case)
  then have "y = y'" and "m = m'" and "nat d = nat d'"
    by (simp_all only: append_int_inj pad_append_inj pad_inj)
  with date_bounds(3) [OF a] date_bounds(3) [OF b] have "date b = (y, m, d)"
    by (simp add: b eq_nat_nat_iff)
  then show "a = b"
    using days_of_date_date [OF a] days_of_date_date [of b y m d] by (simp only:)
qed simp

lemma format_month_iff:
  "format_month a = format_month b \<longleftrightarrow>
     fst (date a) = fst (date b) \<and> fst (snd (date a)) = fst (snd (date b))"
  unfolding format_month_def
  by (cases "date a"; cases "date b") (simp add: append_int_inj pad_inj)

lemma format_date_nonempty [simp]: "format_date z \<noteq> []"
  by (cases "date z") (simp add: format_date_def)

lemma format_month_nonempty [simp]: "format_month z \<noteq> []"
  by (cases "date z") (simp add: format_month_def)

lemma colon_not_in_append_int: "CHR '':'' \<notin> set (append_int w i)"
  unfolding append_int_def using not_in_pad [of "CHR '':''" w] by auto

lemma colon_not_in_format_date: "CHR '':'' \<notin> set (format_date z)"
  using not_in_pad [of "CHR '':''"] colon_not_in_append_int
  by (cases "date z") (simp add: format_date_def)

lemma colon_not_in_format_month: "CHR '':'' \<notin> set (format_month z)"
  using not_in_pad [of "CHR '':''"] colon_not_in_append_int
  by (cases "date z") (simp add: format_month_def)

end
