(* ===== verification/UserSources.thy ===== *)
theory UserSources
  imports UserInbounds Calendar
begin

text \<open>
  The sources of the user provider (\<open>src/service/userprovider/source_*.go\<close>): a watched file, an
  HTTP endpoint, a Redis key and a PostgreSQL table, each as a record of its fields with one
  definition per method.

  What lies outside is an argument: the results of \<open>os.ReadFile\<close> and \<open>os.Stat\<close> and the JSON
  decoder (\<open>source_env\<close>), the HTTP client's answer, the answers of Redis and PostgreSQL. A
  \<open>Run\<close> loop is its body: one tick, one notification.
\<close>

section \<open>Users\<close>

record option_user =
  ou_Name :: string
  ou_Password :: string
  ou_UUID :: string
  ou_AlterId :: int
  ou_Flow :: string

definition optionUserToAdapter :: "option_user \<Rightarrow> adapter_user" where
  "optionUserToAdapter u =
     \<lparr>au_Name = ou_Name u, au_Password = ou_Password u, au_UUID = ou_UUID u,
      au_AlterId = ou_AlterId u, au_Flow = ou_Flow u\<rparr>"

definition adapterUserToOption :: "adapter_user \<Rightarrow> option_user" where
  "adapterUserToOption user =
     \<lparr>ou_Name = au_Name user, ou_Password = au_Password user, ou_UUID = au_UUID user,
      ou_AlterId = au_AlterId user, ou_Flow = au_Flow user\<rparr>"

lemma user_conversions [simp]:
  "adapterUserToOption (optionUserToAdapter u) = u"
  "optionUserToAdapter (adapterUserToOption a) = a"
  "au_Name (optionUserToAdapter u) = ou_Name u"
  "ou_Name (adapterUserToOption a) = au_Name a"
  by (simp_all add: optionUserToAdapter_def adapterUserToOption_def)

text \<open>
  What one load sees: the file system, the JSON decoder, and the order in which a \<open>range\<close>
  visits the map of overlay users.
\<close>

record source_env =
  os_ReadFile :: "string \<Rightarrow> go_error + string"
  os_Stat :: "string \<Rightarrow> go_error + int"
  json_Unmarshal :: "string \<Rightarrow> go_error + option_user list"
  overlay_order :: "(string \<rightharpoonup> option_user) \<Rightarrow> string list"

section \<open>The file\<close>

text \<open>Times are nanoseconds since the Unix epoch; the zero \<open>time.Time\<close> is the year 1.\<close>

definition zero_time :: int where
  "zero_time = - 62135596800 * 1000000000"

record UserProviderFileOptions =
  fo_Path :: string
  fo_UpdateInterval :: int

record FileSource =
  fs_path :: string
  fs_updateInterval :: int
  lastModTime :: int

definition NewFileSource :: "UserProviderFileOptions \<Rightarrow> FileSource" where
  "NewFileSource opts =
     \<lparr>fs_path = fo_Path opts,
      fs_updateInterval = (if fo_UpdateInterval opts = 0 then 60 * 1000000000 else fo_UpdateInterval opts),
      lastModTime = zero_time\<rparr>"

definition file_Load :: "source_env \<Rightarrow> FileSource \<Rightarrow> (go_error + option_user list) \<times> FileSource" where
  "file_Load env s =
     (case os_ReadFile env (fs_path s) of
        Inl e \<Rightarrow> (Inl (ECause e [''read user file'']), s)
      | Inr content \<Rightarrow>
          (case json_Unmarshal env content of
             Inl e \<Rightarrow> (Inl (ECause e [''parse user file'']), s)
           | Inr users \<Rightarrow>
               (Inr users, case os_Stat env (fs_path s) of Inl _ \<Rightarrow> s | Inr t \<Rightarrow> s\<lparr>lastModTime := t\<rparr>)))"

text \<open>One tick of \<open>Run\<close>: whether it calls \<open>onUpdate\<close>.\<close>

definition file_tick :: "source_env \<Rightarrow> FileSource \<Rightarrow> bool \<times> FileSource" where
  "file_tick env s =
     (case os_Stat env (fs_path s) of
        Inl e \<Rightarrow> (False, s)
      | Inr t \<Rightarrow> if lastModTime s < t then (True, s\<lparr>lastModTime := t\<rparr>) else (False, s))"

section \<open>HTTP\<close>

definition errHTTPSourceClosed :: go_error where
  "errHTTPSourceClosed = ENew [''user-provider http source closed'']"

definition httpSourceMaxResponseBytes :: nat where
  "httpSourceMaxResponseBytes = 32 * 2 ^ 20"

record UserProviderHTTPOptions =
  ho_URL :: string
  ho_UpdateInterval :: int
  ho_DownloadDetour :: string

text \<open>
  A client is the process-wide default one, or one built on a dialer, with whether its idle
  connections have been released.
\<close>

datatype http_client = DefaultClient | DialerClient string bool

record HTTPSource =
  hs_url :: string
  hs_updateInterval :: int
  downloadDetour :: string
  lastEtag :: string
  hs_cachedUsers :: "option_user list"
  client :: "http_client option"
  closed :: bool

definition NewHTTPSource :: "UserProviderHTTPOptions \<Rightarrow> HTTPSource" where
  "NewHTTPSource opts =
     \<lparr>hs_url = ho_URL opts,
      hs_updateInterval = (if ho_UpdateInterval opts = 0 then 5 * 60 * 1000000000 else ho_UpdateInterval opts),
      downloadDetour = ho_DownloadDetour opts, lastEtag = '''', hs_cachedUsers = [], client = None,
      closed = False\<rparr>"

text \<open>The outbound manager: the outbounds by tag, named by their tags, and the default one.\<close>

record outbound_manager =
  om_Outbound :: "string \<Rightarrow> bool"
  om_Default :: "string option"

text \<open>\<open>None\<close>: there is no outbound manager in the context.\<close>

definition buildClientLocked :: "outbound_manager option \<Rightarrow> HTTPSource \<Rightarrow> go_error + http_client" where
  "buildClientLocked om s =
     (case om of
        None \<Rightarrow> Inr DefaultClient
      | Some m \<Rightarrow>
          if downloadDetour s \<noteq> '''' then
            (if om_Outbound m (downloadDetour s) then Inr (DialerClient (downloadDetour s) False)
             else Inl (ENew [''download detour not found: '', downloadDetour s]))
          else
            (case om_Default m of
               None \<Rightarrow> Inr DefaultClient
             | Some d \<Rightarrow> Inr (DialerClient d False)))"

definition ensureClient :: "outbound_manager option \<Rightarrow> HTTPSource \<Rightarrow> (go_error + http_client) \<times> HTTPSource" where
  "ensureClient om s =
     (if closed s then (Inl errHTTPSourceClosed, s)
      else case client s of
        Some c \<Rightarrow> (Inr c, s)
      | None \<Rightarrow>
          (case buildClientLocked om s of
             Inl e \<Rightarrow> (Inl e, s)
           | Inr c \<Rightarrow> (Inr c, s\<lparr>client := Some c\<rparr>)))"

text \<open>
  A response carries the bytes its body delivers before it ends, and the error it ends with if
  it does not end in EOF. \<open>http.MaxBytesReader\<close> fails once more than the limit has arrived.
\<close>

record http_response =
  StatusCode :: int
  StatusText :: string
  Etag :: string
  body :: string
  body_err :: "go_error option"

definition read_limited :: "nat \<Rightarrow> http_response \<Rightarrow> go_error + string" where
  "read_limited limit r =
     (if limit < length (body r) then Inl (ENew [''http: request body too large''])
      else case body_err r of Some e \<Rightarrow> Inl e | None \<Rightarrow> Inr (body r))"

text \<open>
  \<open>new_request\<close> is the error of \<open>http.NewRequestWithContext\<close> for the URL; \<open>do_request\<close> answers
  the client's request for a URL with the \<open>If-None-Match\<close> header, if it is set.
\<close>

record http_env =
  http_outbounds :: "outbound_manager option"
  new_request :: "string \<Rightarrow> go_error option"
  do_request :: "http_client \<Rightarrow> string \<Rightarrow> string option \<Rightarrow> go_error + http_response"
  http_Unmarshal :: "string \<Rightarrow> go_error + option_user list"

definition accept_response ::
  "nat \<Rightarrow> http_env \<Rightarrow> http_response \<Rightarrow> HTTPSource \<Rightarrow> go_error option \<times> HTTPSource" where
  "accept_response limit E r s =
     (if StatusCode r = 304 then (None, s)
      else if StatusCode r \<noteq> 200 then (Some (ENew [''unexpected status: '', StatusText r]), s)
      else case read_limited limit r of
        Inl e \<Rightarrow> (Some (ECause e [''read users response'']), s)
      | Inr content \<Rightarrow>
          (case http_Unmarshal E content of
             Inl e \<Rightarrow> (Some (ECause e [''parse users response'']), s)
           | Inr users \<Rightarrow>
               (None, s\<lparr>lastEtag := (if Etag r \<noteq> '''' then Etag r else lastEtag s), hs_cachedUsers := users\<rparr>)))"

definition http_fetch :: "nat \<Rightarrow> http_env \<Rightarrow> HTTPSource \<Rightarrow> go_error option \<times> HTTPSource" where
  "http_fetch limit E s =
     (case ensureClient (http_outbounds E) s of
        (Inl e, s') \<Rightarrow> (Some e, s')
      | (Inr c, s') \<Rightarrow>
          (case new_request E (hs_url s') of
             Some e \<Rightarrow> (Some e, s')
           | None \<Rightarrow>
               (case do_request E c (hs_url s') (if lastEtag s' \<noteq> '''' then Some (lastEtag s') else None) of
                  Inl e \<Rightarrow> (Some e, s')
                | Inr r \<Rightarrow> accept_response limit E r s')))"

definition http_Close :: "HTTPSource \<Rightarrow> HTTPSource" where
  "http_Close s =
     (if closed s then s
      else s\<lparr>closed := True,
             client := (case client s of Some (DialerClient d _) \<Rightarrow> Some (DialerClient d True) | c \<Rightarrow> c)\<rparr>)"

section \<open>Redis\<close>

record UserProviderRedisOptions =
  ro_Key :: string
  ro_Channel :: string
  ro_UpdateInterval :: int

record up_RedisSource =
  ur_key :: string
  ur_channel :: string
  ur_updateInterval :: int
  ur_cachedUsers :: "option_user list"

definition up_NewRedisSource :: "UserProviderRedisOptions \<Rightarrow> up_RedisSource" where
  "up_NewRedisSource opts =
     \<lparr>ur_key = ro_Key opts,
      ur_channel = (if ro_Channel opts = '''' then ro_Key opts @ '':notify'' else ro_Channel opts),
      ur_updateInterval = (if ro_UpdateInterval opts = 0 then 30 * 1000000000 else ro_UpdateInterval opts),
      ur_cachedUsers = []\<rparr>"

definition up_redis_fetch ::
  "(string \<Rightarrow> go_error + string) \<Rightarrow> (string \<Rightarrow> go_error + option_user list) \<Rightarrow> up_RedisSource \<Rightarrow>
     go_error option \<times> up_RedisSource" where
  "up_redis_fetch get unmarshal s =
     (case get (ur_key s) of
        Inl e \<Rightarrow> (Some (ECause e [''redis GET '', ur_key s]), s)
      | Inr result \<Rightarrow>
          (case unmarshal result of
             Inl e \<Rightarrow> (Some (ECause e [''parse redis users'']), s)
           | Inr users \<Rightarrow> (None, s\<lparr>ur_cachedUsers := users\<rparr>)))"

section \<open>PostgreSQL\<close>

record UserProviderPostgresOptions =
  po_Table :: string
  po_NotifyChannel :: string
  po_UpdateInterval :: int

text \<open>\<open>uq_pool\<close> says that there is a pool and that it is open.\<close>

record up_PostgresSource =
  uq_table :: string
  uq_notifyChannel :: string
  uq_updateInterval :: int
  uq_pool :: bool
  uq_cachedUsers :: "option_user list"

definition up_NewPostgresSource :: "UserProviderPostgresOptions \<Rightarrow> up_PostgresSource" where
  "up_NewPostgresSource opts =
     \<lparr>uq_table = (if po_Table opts = '''' then ''users'' else po_Table opts),
      uq_notifyChannel = (if po_NotifyChannel opts = '''' then ''user_changes'' else po_NotifyChannel opts),
      uq_updateInterval = (if po_UpdateInterval opts = 0 then 60 * 1000000000 else po_UpdateInterval opts),
      uq_pool = False, uq_cachedUsers = []\<rparr>"

definition up_pg_Start :: "go_error option \<Rightarrow> up_PostgresSource \<Rightarrow> go_error option \<times> up_PostgresSource" where
  "up_pg_Start connect s =
     (case connect of
        Some e \<Rightarrow> (Some (ECause e [''connect to PostgreSQL'']), s)
      | None \<Rightarrow> (None, s\<lparr>uq_pool := True\<rparr>))"

definition up_pg_Close :: "up_PostgresSource \<Rightarrow> up_PostgresSource" where
  "up_pg_Close s = s\<lparr>uq_pool := False\<rparr>"

definition sql_users :: "string \<Rightarrow> string" where
  "sql_users table =
     ''SELECT name, COALESCE(password, '' @ [CHR 0x27, CHR 0x27] @ ''), COALESCE(uuid, '' @ [CHR 0x27, CHR 0x27] @
     ''), COALESCE(alter_id, 0), COALESCE(flow, '' @ [CHR 0x27, CHR 0x27] @ '') FROM '' @ table"

text \<open>The rows of a query: what \<open>Scan\<close> gives for each, and the error of \<open>rows.Err\<close> at the end.\<close>

type_synonym user_rows = "(go_error + option_user) list \<times> go_error option"

fun scan_users :: "(go_error + option_user) list \<Rightarrow> go_error + option_user list" where
  "scan_users [] = Inr []"
| "scan_users (Inl e # rows) = Inl (ECause e [''scan user row''])"
| "scan_users (Inr u # rows) = (case scan_users rows of Inl e \<Rightarrow> Inl e | Inr us \<Rightarrow> Inr (u # us))"

definition up_pg_fetch :: "(string \<Rightarrow> go_error + user_rows) \<Rightarrow> up_PostgresSource \<Rightarrow> go_error option \<times> up_PostgresSource" where
  "up_pg_fetch query s =
     (case query (sql_users (uq_table s)) of
        Inl e \<Rightarrow> (Some (ECause e [''query users table'']), s)
      | Inr (rows, err) \<Rightarrow>
          (case scan_users rows of
             Inl e \<Rightarrow> (Some e, s)
           | Inr users \<Rightarrow>
               (case err of
                  Some e \<Rightarrow> (Some (ECause e [''iterate user rows'']), s)
                | None \<Rightarrow> (None, s\<lparr>uq_cachedUsers := users\<rparr>))))"

end
