(* ===== verification/UserProvider.thy ===== *)
theory UserProvider
  imports UserSources
begin

text \<open>
  The user provider service (\<open>src/service/userprovider/service.go\<close>): it merges the users of its
  sources with those edited through the administration interface and pushes the result to the
  inbounds it manages.

  The inbounds are objects of the inbound manager, found by tag: \<open>inbounds\<close> maps a tag to the
  type of the inbound and, if it is a \<open>ManagedUserServer\<close>, its state. \<open>servers\<close> holds the tags of
  the servers resolved by \<open>Start\<close>, so that a tag that is listed twice denotes one object. \<open>rep\<close> is
  \<open>ReplaceUsers\<close> of a managed inbound. A method that loads the sources several times takes one
  \<open>source_env\<close> for each load, in order.
\<close>

record 'h provider =
  inboundTags :: "string list"
  inbounds :: "string \<rightharpoonup> string \<times> 'h option"
  servers :: "string list"
  inlineUsers :: "option_user list"
  overlayUsers :: "string \<rightharpoonup> option_user"
  deletedUsers :: "string set"
  fileSource :: "FileSource option"
  httpSource :: "HTTPSource option"
  redisSource :: "up_RedisSource option"
  postgresSource :: "up_PostgresSource option"
  allUsers :: "adapter_user list"
  running :: bool

record UserPatch =
  pt_Password :: "string option"
  pt_UUID :: "string option"
  pt_AlterId :: "int option"
  pt_Flow :: "string option"

record UserProviderServiceOptions =
  so_Inbounds :: "string list"
  so_Users :: "option_user list"
  so_File :: "UserProviderFileOptions option"
  so_HTTP :: "UserProviderHTTPOptions option"
  so_Redis :: "UserProviderRedisOptions option"
  so_Postgres :: "UserProviderPostgresOptions option"

type_synonym 'h replace = "adapter_user list \<Rightarrow> 'h \<Rightarrow> go_error option \<times> 'h"

definition up_NewService ::
  "(string \<rightharpoonup> string \<times> 'h option) \<Rightarrow> UserProviderServiceOptions \<Rightarrow> go_error + 'h provider" where
  "up_NewService manager opts =
     (if so_Inbounds opts = [] then Inl (ENew [''missing inbounds''])
      else Inr \<lparr>inboundTags = so_Inbounds opts, inbounds = manager, servers = [],
                inlineUsers = so_Users opts, overlayUsers = Map.empty, deletedUsers = {},
                fileSource = map_option NewFileSource (so_File opts),
                httpSource = map_option NewHTTPSource (so_HTTP opts),
                redisSource = map_option up_NewRedisSource (so_Redis opts),
                postgresSource = map_option up_NewPostgresSource (so_Postgres opts),
                allUsers = [], running = False\<rparr>)"

section \<open>Merging the sources\<close>

definition cached_source_users :: "'h provider \<Rightarrow> option_user list" where
  "cached_source_users s =
     (case httpSource s of None \<Rightarrow> [] | Some h \<Rightarrow> hs_cachedUsers h) @
     (case redisSource s of None \<Rightarrow> [] | Some r \<Rightarrow> ur_cachedUsers r) @
     (case postgresSource s of None \<Rightarrow> [] | Some p \<Rightarrow> uq_cachedUsers p)"

definition sourceUsersLocked ::
  "source_env \<Rightarrow> 'h provider \<Rightarrow> (go_error + adapter_user list) \<times> 'h provider" where
  "sourceUsersLocked env s =
     (case fileSource s of
        None \<Rightarrow> (Inr (map optionUserToAdapter (inlineUsers s @ cached_source_users s)), s)
      | Some f \<Rightarrow>
          (case file_Load env f of
             (Inl e, f') \<Rightarrow> (Inl (ECause e [''load file source'']), s\<lparr>fileSource := Some f'\<rparr>)
           | (Inr fileUsers, f') \<Rightarrow>
               (Inr (map optionUserToAdapter (inlineUsers s @ fileUsers @ cached_source_users s)),
                s\<lparr>fileSource := Some f'\<rparr>)))"

fun merge_sources ::
  "string set \<Rightarrow> adapter_user list \<Rightarrow> (string \<rightharpoonup> adapter_user) \<times> string list \<Rightarrow>
     (string \<rightharpoonup> adapter_user) \<times> string list" where
  "merge_sources deleted [] acc = acc"
| "merge_sources deleted (user # users) (merged, userNames) =
     (if au_Name user \<in> deleted then merge_sources deleted users (merged, userNames)
      else merge_sources deleted users
        (merged(au_Name user \<mapsto> user),
         if merged (au_Name user) = None then userNames @ [au_Name user] else userNames))"

fun merge_overlay ::
  "(string \<rightharpoonup> option_user) \<Rightarrow> string list \<Rightarrow> (string \<rightharpoonup> adapter_user) \<times> string list \<Rightarrow>
     (string \<rightharpoonup> adapter_user) \<times> string list" where
  "merge_overlay overlay [] acc = acc"
| "merge_overlay overlay (name # order) (merged, overlayOnly) =
     (case overlay name of
        None \<Rightarrow> merge_overlay overlay order (merged, overlayOnly)
      | Some user \<Rightarrow>
          merge_overlay overlay order
            (merged(name \<mapsto> optionUserToAdapter user),
             if merged name = None then overlayOnly @ [name] else overlayOnly))"

definition zero_user :: adapter_user where
  "zero_user = \<lparr>au_Name = '''', au_Password = '''', au_UUID = '''', au_AlterId = 0, au_Flow = ''''\<rparr>"

definition merge_users ::
  "source_env \<Rightarrow> 'h provider \<Rightarrow> adapter_user list \<Rightarrow> adapter_user list" where
  "merge_users env s sourceUsers =
     (let (merged, userNames) = merge_sources (deletedUsers s) sourceUsers (Map.empty, []);
          (merged', overlayOnly) =
            merge_overlay (overlayUsers s) (overlay_order env (overlayUsers s)) (merged, [])
      in map (\<lambda>name. case merged' name of None \<Rightarrow> zero_user | Some u \<Rightarrow> u) (userNames @ sort overlayOnly))"

definition mergedUsersLocked ::
  "source_env \<Rightarrow> 'h provider \<Rightarrow> (go_error + adapter_user list) \<times> 'h provider" where
  "mergedUsersLocked env s =
     (case sourceUsersLocked env s of
        (Inl e, s') \<Rightarrow> (Inl e, s')
      | (Inr sourceUsers, s') \<Rightarrow> (Inr (merge_users env s' sourceUsers), s'))"

section \<open>Pushing to the inbounds\<close>

fun push_servers ::
  "'h replace \<Rightarrow> adapter_user list \<Rightarrow> string list \<Rightarrow> (string \<rightharpoonup> string \<times> 'h option) \<Rightarrow>
     go_error list \<times> (string \<rightharpoonup> string \<times> 'h option)" where
  "push_servers rep users [] inb = ([], inb)"
| "push_servers rep users (tag # tags) inb =
     (case inb tag of
        Some (ty, Some h) \<Rightarrow>
          (let (err, h') = rep users h;
               (errs, inb') = push_servers rep users tags (inb(tag \<mapsto> (ty, Some h')))
           in ((case err of
                  None \<Rightarrow> []
                | Some e \<Rightarrow> [ECause e [''push to inbound/'', ty, ''['', tag, '']'']]) @ errs, inb'))
      | _ \<Rightarrow> push_servers rep users tags inb)"

definition pushUsers ::
  "'h replace \<Rightarrow> adapter_user list \<Rightarrow> 'h provider \<Rightarrow> go_error option \<times> 'h provider" where
  "pushUsers rep users s =
     (let (errs, inb) = push_servers rep users (servers s) (inbounds s)
      in (errors_of errs, s\<lparr>inbounds := inb\<rparr>))"

definition loadAndPush :: "'h replace \<Rightarrow> source_env \<Rightarrow> 'h provider \<Rightarrow> go_error option \<times> 'h provider" where
  "loadAndPush rep env s =
     (case mergedUsersLocked env s of
        (Inl e, s') \<Rightarrow> (Some e, s')
      | (Inr users, s') \<Rightarrow> pushUsers rep users (s'\<lparr>allUsers := users\<rparr>))"

definition onSourceUpdate :: "'h replace \<Rightarrow> source_env \<Rightarrow> 'h provider \<Rightarrow> 'h provider" where
  "onSourceUpdate rep env s = snd (loadAndPush rep env s)"

section \<open>Starting and stopping\<close>

fun resolve_servers :: "string list \<Rightarrow> 'h provider \<Rightarrow> go_error option \<times> 'h provider" where
  "resolve_servers [] s = (None, s)"
| "resolve_servers (tag # tags) s =
     (case inbounds s tag of
        None \<Rightarrow> (Some (ENew [''inbound '', tag, '' not found'']), s)
      | Some (ty, None) \<Rightarrow>
          (Some (ENew [''inbound/'', ty, ''['', tag, ''] does not support user-provider'']), s)
      | Some (ty, Some h) \<Rightarrow> resolve_servers tags (s\<lparr>servers := servers s @ [tag]\<rparr>))"

definition up_Start ::
  "'h replace \<Rightarrow> source_env \<Rightarrow> go_error option \<Rightarrow> bool \<Rightarrow> 'h provider \<Rightarrow> go_error option \<times> 'h provider" where
  "up_Start rep env pg_connect stage_start s =
     (if \<not> stage_start then (None, s)
      else case resolve_servers (inboundTags s) s of
        (Some e, s1) \<Rightarrow> (Some e, s1)
      | (None, s1) \<Rightarrow>
          (case loadAndPush rep env s1 of
             (Some e, s2) \<Rightarrow> (Some (ECause e [''initial user load'']), s2)
           | (None, s2) \<Rightarrow>
               (case postgresSource s2 of
                  None \<Rightarrow> (None, s2\<lparr>running := True\<rparr>)
                | Some p \<Rightarrow>
                    (case up_pg_Start pg_connect p of
                       (Some e, p') \<Rightarrow>
                         (Some (ECause e [''start PostgreSQL source'']), s2\<lparr>postgresSource := Some p'\<rparr>)
                     | (None, p') \<Rightarrow> (None, s2\<lparr>postgresSource := Some p', running := True\<rparr>)))))"

definition up_Close :: "go_error option \<Rightarrow> 'h provider \<Rightarrow> go_error option \<times> 'h provider" where
  "up_Close redis_close s =
     ((if redisSource s = None then None else redis_close),
      s\<lparr>httpSource := map_option http_Close (httpSource s),
        postgresSource := map_option up_pg_Close (postgresSource s), running := False\<rparr>)"

section \<open>The bodies of the source loops\<close>

definition up_file_tick :: "'h replace \<Rightarrow> source_env \<Rightarrow> source_env \<Rightarrow> 'h provider \<Rightarrow> 'h provider" where
  "up_file_tick rep env env' s =
     (case fileSource s of
        None \<Rightarrow> s
      | Some f \<Rightarrow>
          (let (changed, f') = file_tick env f; s' = s\<lparr>fileSource := Some f'\<rparr>
           in if changed then onSourceUpdate rep env' s' else s'))"

definition up_http_tick ::
  "'h replace \<Rightarrow> http_env \<Rightarrow> source_env \<Rightarrow> 'h provider \<Rightarrow> 'h provider" where
  "up_http_tick rep E env s =
     (case httpSource s of
        None \<Rightarrow> s
      | Some h \<Rightarrow>
          (let (err, h') = http_fetch httpSourceMaxResponseBytes E h; s' = s\<lparr>httpSource := Some h'\<rparr>
           in if err = None then onSourceUpdate rep env s' else s'))"

definition up_redis_tick ::
  "'h replace \<Rightarrow> (string \<Rightarrow> go_error + string) \<Rightarrow> source_env \<Rightarrow> 'h provider \<Rightarrow> 'h provider" where
  "up_redis_tick rep get env s =
     (case redisSource s of
        None \<Rightarrow> s
      | Some r \<Rightarrow>
          (let (err, r') = up_redis_fetch get (json_Unmarshal env) r; s' = s\<lparr>redisSource := Some r'\<rparr>
           in if err = None then onSourceUpdate rep env s' else s'))"

definition up_pg_tick ::
  "'h replace \<Rightarrow> (string \<Rightarrow> go_error + user_rows) \<Rightarrow> source_env \<Rightarrow> 'h provider \<Rightarrow> 'h provider" where
  "up_pg_tick rep query env s =
     (case postgresSource s of
        None \<Rightarrow> s
      | Some p \<Rightarrow>
          (let (err, p') = up_pg_fetch query p; s' = s\<lparr>postgresSource := Some p'\<rparr>
           in if err = None then onSourceUpdate rep env s' else s'))"

section \<open>The methods of the administration interface\<close>

definition ListUsers :: "'h provider \<Rightarrow> adapter_user list" where
  "ListUsers s = allUsers s"

definition find_user :: "string \<Rightarrow> adapter_user list \<Rightarrow> adapter_user option" where
  "find_user name users = List.find (\<lambda>u. au_Name u = name) users"

definition GetUser :: "string \<Rightarrow> 'h provider \<Rightarrow> adapter_user option" where
  "GetUser name s = find_user name (allUsers s)"

definition CreateUser ::
  "'h replace \<Rightarrow> source_env \<Rightarrow> source_env \<Rightarrow> option_user \<Rightarrow> 'h provider \<Rightarrow> go_error option \<times> 'h provider" where
  "CreateUser rep env env' user s =
     (if ou_Name user = '''' then (Some (ENew [''missing name'']), s)
      else case mergedUsersLocked env s of
        (Inl e, s1) \<Rightarrow> (Some e, s1)
      | (Inr users, s1) \<Rightarrow>
          if find_user (ou_Name user) users \<noteq> None
          then (Some (ENew [''user '', ou_Name user, '' already exists'']), s1)
          else loadAndPush rep env'
            (s1\<lparr>deletedUsers := deletedUsers s1 - {ou_Name user},
                overlayUsers := (overlayUsers s1)(ou_Name user \<mapsto> user)\<rparr>))"

definition patch_user :: "UserPatch \<Rightarrow> option_user \<Rightarrow> option_user" where
  "patch_user patch u =
     u\<lparr>ou_Password := (case pt_Password patch of None \<Rightarrow> ou_Password u | Some v \<Rightarrow> v),
       ou_UUID := (case pt_UUID patch of None \<Rightarrow> ou_UUID u | Some v \<Rightarrow> v),
       ou_AlterId := (case pt_AlterId patch of None \<Rightarrow> ou_AlterId u | Some v \<Rightarrow> v),
       ou_Flow := (case pt_Flow patch of None \<Rightarrow> ou_Flow u | Some v \<Rightarrow> v)\<rparr>"

definition UpdateUser ::
  "'h replace \<Rightarrow> source_env \<Rightarrow> source_env \<Rightarrow> string \<Rightarrow> UserPatch \<Rightarrow> 'h provider \<Rightarrow>
     go_error option \<times> 'h provider" where
  "UpdateUser rep env env' name patch s =
     (case mergedUsersLocked env s of
        (Inl e, s1) \<Rightarrow> (Some e, s1)
      | (Inr users, s1) \<Rightarrow>
          (case find_user name users of
             None \<Rightarrow> (Some (ENew [''user '', name, '' not found'']), s1)
           | Some currentUser \<Rightarrow>
               loadAndPush rep env'
                 (s1\<lparr>deletedUsers := deletedUsers s1 - {name},
                     overlayUsers := (overlayUsers s1)(name \<mapsto> patch_user patch (adapterUserToOption currentUser))\<rparr>)))"

definition DeleteUser ::
  "'h replace \<Rightarrow> source_env \<Rightarrow> source_env \<Rightarrow> source_env \<Rightarrow> string \<Rightarrow> 'h provider \<Rightarrow>
     go_error option \<times> 'h provider" where
  "DeleteUser rep env env' env'' name s =
     (case mergedUsersLocked env s of
        (Inl e, s1) \<Rightarrow> (Some e, s1)
      | (Inr users, s1) \<Rightarrow>
          if find_user name users = None then (Some (ENew [''user '', name, '' not found'']), s1)
          else
            (case sourceUsersLocked env' s1 of
               (Inl e, s2) \<Rightarrow> (Some e, s2)
             | (Inr sourceUsers, s2) \<Rightarrow>
                 loadAndPush rep env''
                   (s2\<lparr>overlayUsers := (overlayUsers s2)(name := None),
                       deletedUsers :=
                         (if find_user name sourceUsers \<noteq> None then insert name (deletedUsers s2)
                          else deletedUsers s2 - {name})\<rparr>)))"

end
