(* ===== verification/QuotaConfig.thy ===== *)
theory QuotaConfig
  imports Calendar
begin

text \<open>
  Quota configurations of \<open>src/service/trafficquota/manager.go\<close>: resolving and validating the
  options of a user (\<open>newQuotaConfig\<close>, \<open>validateQuotaConfig\<close>), the byte count of a quota in
  GB (\<open>quotaBytes\<close>, \<open>quotaConfigToOption\<close>) and the period key of an instant
  (\<open>periodKey\<close>). The facts proved here: a validated configuration always has a period key,
  two instants have the same key exactly when they lie in the same accounting window, and a
  configuration survives the trip through its option form.

  \<open>time.Parse\<close> is the parameter \<open>tparse\<close> (layout, value); everything else of \<open>time\<close>
  comes from the calendar theory. A \<open>float64\<close> is the rational number it denotes.
\<close>

section \<open>Data\<close>

record quota_config =
  quotaBytes :: i64
  period :: string
  periodStart :: gotime
  periodDays :: int

record TrafficQuotaUser =
  tq_Name :: string
  tq_Group :: string
  tq_QuotaGB :: rat
  tq_Period :: string
  tq_PeriodStart :: string
  tq_PeriodDays :: int

record TrafficQuotaGroup =
  tg_Name :: string
  tg_QuotaGB :: rat
  tg_Period :: string
  tg_PeriodStart :: string
  tg_PeriodDays :: int

type_synonym time_parser = "string \<Rightarrow> string \<Rightarrow> gotime option"

definition PeriodDaily :: string where "PeriodDaily = ''daily''"
definition PeriodWeekly :: string where "PeriodWeekly = ''weekly''"
definition PeriodMonthly :: string where "PeriodMonthly = ''monthly''"
definition PeriodCustom :: string where "PeriodCustom = ''custom''"

lemmas period_consts = PeriodDaily_def PeriodWeekly_def PeriodMonthly_def PeriodCustom_def

definition RFC3339 :: string where "RFC3339 = ''2006-01-02T15:04:05Z07:00''"

section \<open>Resolving a configuration\<close>

definition quota_bytes :: "rat \<Rightarrow> i64" where
  "quota_bytes gb = word_of_int (trunc_i64 (math_Round (gb * 2 ^ 30)))"

fun parse_layouts :: "time_parser \<Rightarrow> string list \<Rightarrow> string \<Rightarrow> go_error + gotime" where
  "parse_layouts tparse [] v = Inl (EFmt ''parse period_start %q'' [v] None)"
| "parse_layouts tparse (l # ls) v =
     (case tparse l v of Some t \<Rightarrow> Inr t | None \<Rightarrow> parse_layouts tparse ls v)"

definition parsePeriodStart :: "time_parser \<Rightarrow> string \<Rightarrow> go_error + gotime" where
  "parsePeriodStart tparse v = parse_layouts tparse [RFC3339, ''2006-01-02''] v"

definition validateQuotaConfig :: "quota_config \<Rightarrow> go_error option" where
  "validateQuotaConfig c =
     (if period c = PeriodDaily \<or> period c = PeriodWeekly \<or> period c = PeriodMonthly then None
      else if period c = PeriodCustom then
        (if IsZero (periodStart c) then Some (ENew [''custom period requires period_start''])
         else if periodDays c \<le> 0 then Some (ENew [''custom period requires period_days''])
         else None)
      else if period c = '''' then Some (ENew [''missing period''])
      else Some (ENew [''unsupported period: '', period c]))"

definition zero_config :: quota_config where
  "zero_config = \<lparr>quotaBytes = 0, period = '''', periodStart = zero_time, periodDays = 0\<rparr>"

definition newQuotaConfig ::
  "time_parser \<Rightarrow> rat \<Rightarrow> string \<Rightarrow> string \<Rightarrow> int \<Rightarrow> quota_config option \<Rightarrow>
     go_error + quota_config option" where
  "newQuotaConfig tparse gb prd start days base =
     (let r0 = (case base of None \<Rightarrow> zero_config | Some b \<Rightarrow> b);
          r1 = (if gb > 0 then r0\<lparr>quotaBytes := quota_bytes gb\<rparr> else r0);
          r2 = (if prd \<noteq> '''' then r1\<lparr>period := prd\<rparr> else r1)
      in case (if start \<noteq> '''' then
                 (case parsePeriodStart tparse start of
                    Inl e \<Rightarrow> Inl e
                  | Inr t \<Rightarrow> Inr (r2\<lparr>periodStart := t\<rparr>))
               else Inr r2) of
           Inl e \<Rightarrow> Inl e
         | Inr r3 \<Rightarrow>
             (let r4 = (if days > 0 then r3\<lparr>periodDays := days\<rparr> else r3)
              in if sint (quotaBytes r4) \<le> 0 then Inr None
                 else case validateQuotaConfig r4 of
                        Some e \<Rightarrow> Inl e
                      | None \<Rightarrow> Inr (Some r4)))"

section \<open>Period keys\<close>

text \<open>Midnight UTC of an instant's day, as a day number, is \<open>day_of\<close>.\<close>

definition periodKey :: "quota_config \<Rightarrow> gotime \<Rightarrow> go_error + string" where
  "periodKey c now =
     (if period c = PeriodDaily then Inr (format_date (day_of now))
      else if period c = PeriodWeekly then
        (let wd = weekday (day_of now); wd' = (if wd = 0 then 7 else wd)
         in Inr (format_date (day_of now - (wd' - 1))))
      else if period c = PeriodMonthly then Inr (format_month (day_of now))
      else if period c = PeriodCustom then
        (if IsZero (periodStart c) \<or> periodDays c \<le> 0
         then Inl (ENew [''invalid custom period configuration''])
         else
           (let start = day_of (periodStart c); current = day_of now
            in if current < start then Inr (format_date start)
               else
                 (let days = time_Sub (current * day_ns) (start * day_ns) div day_ns;
                      offset = (days div periodDays c) * periodDays c
                  in Inr (format_date (start + offset)))))
      else Inl (ENew [''unsupported period: '', period c]))"

section \<open>Configurations as options\<close>

text \<open>\<open>fmt_time\<close> is \<open>Format(time.RFC3339)\<close> of a UTC instant.\<close>

definition formatPeriodStart :: "(gotime \<Rightarrow> string) \<Rightarrow> gotime \<Rightarrow> string" where
  "formatPeriodStart fmt_time t = (if IsZero t then '''' else fmt_time t)"

definition quotaConfigToOption ::
  "(gotime \<Rightarrow> string) \<Rightarrow> string \<Rightarrow> quota_config \<Rightarrow> TrafficQuotaUser" where
  "quotaConfigToOption fmt_time user c =
     \<lparr>tq_Name = user, tq_Group = '''',
      tq_QuotaGB = of_int (f64_of_int (sint (quotaBytes c))) / 2 ^ 30,
      tq_Period = period c,
      tq_PeriodStart = formatPeriodStart fmt_time (periodStart c),
      tq_PeriodDays = periodDays c\<rparr>"

section \<open>Lemmas\<close>

lemma validate_custom:
  assumes "validateQuotaConfig c = None" and "period c = PeriodCustom"
  shows "\<not> IsZero (periodStart c)" and "0 < periodDays c"
  using assms by (auto simp: validateQuotaConfig_def period_consts split: if_splits)

lemma validate_cases:
  assumes "validateQuotaConfig c = None"
  obtains (daily) "period c = PeriodDaily" | (weekly) "period c = PeriodWeekly"
    | (monthly) "period c = PeriodMonthly"
    | (custom) "period c = PeriodCustom" "\<not> IsZero (periodStart c)" "0 < periodDays c"
  using assms by (auto simp: validateQuotaConfig_def split: if_splits)

lemma newQuotaConfig_valid:
  assumes "newQuotaConfig tparse gb prd start days base = Inr (Some c)"
  shows "validateQuotaConfig c = None" and "0 < sint (quotaBytes c)"
  using assms
  by (auto simp: newQuotaConfig_def Let_def split: if_splits sum.splits option.splits)

text \<open>The accounting window of an instant, as an index independent of any formatting.\<close>

definition period_window :: "quota_config \<Rightarrow> gotime \<Rightarrow> int \<times> nat" where
  "period_window c t =
     (if period c = PeriodDaily then (day_of t, 0)
      else if period c = PeriodWeekly then ((day_of t + 3) div 7, 0)
      else if period c = PeriodMonthly then (fst (date (day_of t)), fst (snd (date (day_of t))))
      else (max 0 ((day_of t - day_of (periodStart c)) div periodDays c), 0))"

text \<open>
  \<open>time.Duration\<close> holds at most 106751 whole days; within that distance of the start,
  \<open>Sub\<close> is exact.
\<close>

lemma time_Sub_days:
  assumes "start \<le> current" and "current - start \<le> 106751"
  shows "time_Sub (current * day_ns) (start * day_ns) div day_ns = current - start"
proof -
  have eq: "current * day_ns - start * day_ns = (current - start) * day_ns"
    by (simp add: algebra_simps)
  have "(current - start) * day_ns \<le> 106751 * day_ns"
    using assms(2) by (intro mult_right_mono) (simp_all add: day_ns_def)
  also have "\<dots> \<le> 2 ^ 63 - 1" by (simp add: day_ns_def)
  finally have up: "(current - start) * day_ns \<le> 2 ^ 63 - 1" .
  have "0 \<le> (current - start) * day_ns"
    using assms(1) by (intro mult_nonneg_nonneg) (simp_all add: day_ns_def)
  with up have "time_Sub (current * day_ns) (start * day_ns) = (current - start) * day_ns"
    unfolding time_Sub_def eq by (simp add: min_def max_def)
  then show ?thesis by (simp add: day_ns_def)
qed

lemma week_start_eq:
  fixes a b :: int
  shows "a - (a + 3) mod 7 = b - (b + 3) mod 7 \<longleftrightarrow> (a + 3) div 7 = (b + 3) div 7"
proof -
  have start: "x - (x + 3) mod 7 = 7 * ((x + 3) div 7) - 3" for x :: int
    using minus_mod_eq_mult_div [of "x + 3" 7] by linarith
  show ?thesis unfolding start by simp
qed

lemma periodKey_daily: "period c = PeriodDaily \<Longrightarrow> periodKey c t = Inr (format_date (day_of t))"
  by (simp add: periodKey_def)

lemma periodKey_weekly:
  assumes "period c = PeriodWeekly"
  shows "periodKey c t = Inr (format_date (day_of t - (day_of t + 3) mod 7))"
proof -
  let ?r = "(day_of t + 4) mod 7"
  have "(day_of t + 3) mod 7 = (?r - 1) mod 7"
    by (simp add: mod_diff_left_eq add.commute)
  moreover have "0 \<le> ?r" "?r < 7" by simp_all
  ultimately have "(if ?r = 0 then 7 else ?r) - 1 = (day_of t + 3) mod 7"
    by (cases "?r = 0") (simp_all add: mod_pos_pos_trivial)
  then show ?thesis
    using assms by (simp add: periodKey_def period_consts weekday_def Let_def)
qed

lemma periodKey_monthly:
  "period c = PeriodMonthly \<Longrightarrow> periodKey c t = Inr (format_month (day_of t))"
  by (simp add: periodKey_def period_consts)

lemma periodKey_custom:
  assumes "period c = PeriodCustom" "\<not> IsZero (periodStart c)" "0 < periodDays c"
    and "day_of t - day_of (periodStart c) \<le> 106751"
  shows "periodKey c t =
    Inr (format_date (day_of (periodStart c) +
      max 0 ((day_of t - day_of (periodStart c)) div periodDays c) * periodDays c))"
proof (cases "day_of t < day_of (periodStart c)")
  case True
  then have "(day_of t - day_of (periodStart c)) div periodDays c < 0"
    using assms(3) by (simp add: pos_imp_zdiv_neg_iff)
  with True assms show ?thesis
    by (simp add: periodKey_def period_consts Let_def max_absorb1)
next
  case False
  then have "0 \<le> (day_of t - day_of (periodStart c)) div periodDays c"
    using assms(3) by (simp add: pos_imp_zdiv_nonneg_iff)
  with False assms show ?thesis
    by (simp add: periodKey_def period_consts Let_def time_Sub_days)
qed

lemmas periodKey_simps = periodKey_daily periodKey_weekly periodKey_monthly periodKey_custom

lemma periodKey_total:
  assumes "validateQuotaConfig c = None"
  shows "\<exists>k. periodKey c t = Inr k \<and> k \<noteq> '''' \<and> CHR '':'' \<notin> set k"
proof -
  note fmt = colon_not_in_format_date colon_not_in_format_month
  from assms show ?thesis
  proof (cases rule: validate_cases)
    case custom
    then show ?thesis using fmt by (simp add: periodKey_def period_consts Let_def)
  qed (use fmt in \<open>simp_all add: periodKey_simps\<close>)
qed

definition key_of :: "quota_config \<Rightarrow> gotime \<Rightarrow> string" where
  "key_of c t = (case periodKey c t of Inl e \<Rightarrow> '''' | Inr k \<Rightarrow> k)"

lemma periodKey_key_of:
  "validateQuotaConfig c = None \<Longrightarrow> periodKey c t = Inr (key_of c t)"
  using periodKey_total [of c t] by (auto simp: key_of_def)

lemma key_of_nonempty: "validateQuotaConfig c = None \<Longrightarrow> key_of c t \<noteq> ''''"
  using periodKey_total [of c t] by (auto simp: key_of_def)

lemma key_of_colon: "validateQuotaConfig c = None \<Longrightarrow> CHR '':'' \<notin> set (key_of c t)"
  using periodKey_total [of c t] by (auto simp: key_of_def)

section \<open>Properties\<close>

text \<open>
  C9. Two instants get the same period key exactly when they lie in the same accounting
  window: the same UTC day, the same ISO week, the same calendar month, or the same block of
  \<open>period_days\<close> days counted from the start (everything before the start belongs to the
  first block). So usage is never carried into another window and never reset inside one. For
  a custom period the distance from its start is within the range of \<open>time.Duration\<close>.
\<close>

theorem periodKey_same_window:
  assumes "validateQuotaConfig c = None"
    and "period c = PeriodCustom \<Longrightarrow> day_of t - day_of (periodStart c) \<le> 106751"
    and "period c = PeriodCustom \<Longrightarrow> day_of u - day_of (periodStart c) \<le> 106751"
  shows "periodKey c t = periodKey c u \<longleftrightarrow> period_window c t = period_window c u"
  using assms(1)
proof (cases rule: validate_cases)
  case daily
  then show ?thesis by (simp add: periodKey_daily period_window_def format_date_inj)
next
  case weekly
  then show ?thesis
    by (simp add: periodKey_weekly period_window_def format_date_inj week_start_eq period_consts)
next
  case monthly
  then show ?thesis
    by (simp add: periodKey_monthly period_window_def format_month_iff period_consts)
next
  case custom
  then show ?thesis
    using assms(2,3)
    by (simp add: periodKey_custom period_window_def format_date_inj period_consts)
qed

theorem periodKey_same_window_witness:
  "periodKey \<lparr>quotaBytes = 5, period = ''custom'', periodStart = 0, periodDays = 10\<rparr> 0 =
   periodKey \<lparr>quotaBytes = 5, period = ''custom'', periodStart = 0, periodDays = 10\<rparr>
     (9 * day_ns)"
proof -
  let ?c = "\<lparr>quotaBytes = 5, period = ''custom'', periodStart = 0, periodDays = 10\<rparr>"
  have "validateQuotaConfig ?c = None"
    by (simp add: validateQuotaConfig_def period_consts IsZero_def zero_time_def)
  moreover have "day_of 0 - day_of (periodStart ?c) \<le> 106751"
    "day_of (9 * day_ns) - day_of (periodStart ?c) \<le> 106751"
    by (simp_all add: day_of_def day_ns_def)
  moreover have "period_window ?c 0 = period_window ?c (9 * day_ns)"
    by (simp add: period_window_def period_consts day_of_def day_ns_def)
  ultimately show ?thesis using periodKey_same_window [of ?c 0 "9 * day_ns"] by blast
qed

end
