(* ===== verification/ConnList.thy ===== *)
theory ConnList
  imports Prelude
begin

text \<open>
  The list of tracked connections of one user, \<open>connList\<close> of
  \<open>src/service/trafficquota/manager.go\<close>: a slice with its capacity. Connections are
  identified by their address, a natural number. Proved here: \<open>remove\<close> takes exactly one
  occurrence out, keeps every other connection, and leaves no more spare capacity than the
  shrink thresholds allow.
\<close>

type_synonym conn_id = nat

record conn_list =
  conns :: "conn_id list"
  capacity :: nat

definition connListShrinkMinCap :: nat where "connListShrinkMinCap = 1024"
definition connListShrinkRatio :: nat where "connListShrinkRatio = 4"

definition empty_list :: conn_list where
  "empty_list = \<lparr>conns = [], capacity = 0\<rparr>"

text \<open>
  \<open>append\<close> keeps the backing array while it has room and otherwise asks the runtime for a
  new one: \<open>grow old need\<close> is the capacity the runtime picks.
\<close>

definition cl_add :: "(nat \<Rightarrow> nat \<Rightarrow> nat) \<Rightarrow> conn_id \<Rightarrow> conn_list \<Rightarrow> conn_list" where
  "cl_add grow c l =
     (let n = length (conns l)
      in \<lparr>conns = conns l @ [c],
          capacity = (if n < capacity l then capacity l else grow (capacity l) (Suc n))\<rparr>)"

text \<open>
  \<open>remove\<close> scans for the first slot that holds the connection, moves the last element into
  it, truncates, and reallocates when the backing array is far larger than the live set.
\<close>

fun find_slot :: "conn_id \<Rightarrow> conn_id list \<Rightarrow> nat \<Rightarrow> nat option" where
  "find_slot c [] i = None"
| "find_slot c (x # xs) i = (if x = c then Some i else find_slot c xs (Suc i))"

definition cl_remove :: "conn_id \<Rightarrow> conn_list \<Rightarrow> conn_list" where
  "cl_remove c l =
     (case find_slot c (conns l) 0 of
        None \<Rightarrow> l
      | Some i \<Rightarrow>
          (let lst = length (conns l) - 1;
               xs = (if i \<noteq> lst then (conns l)[i := conns l ! lst] else conns l);
               l' = l\<lparr>conns := take lst xs\<rparr>
           in if capacity l' > connListShrinkMinCap \<and>
                 length (conns l') < capacity l' div connListShrinkRatio
              then l'\<lparr>capacity := length (conns l') * 2 + 1\<rparr>
              else l'))"

definition cl_len :: "conn_list \<Rightarrow> nat" where
  "cl_len l = length (conns l)"

section \<open>Lemmas\<close>

lemma find_slot_None: "find_slot c xs i = None \<longleftrightarrow> c \<notin> set xs"
  by (induction xs arbitrary: i) auto

lemma find_slot_Some:
  "find_slot c xs i = Some j \<Longrightarrow> \<exists>k < length xs. j = i + k \<and> xs ! k = c"
proof (induction xs arbitrary: i)
  case (Cons x xs)
  show ?case
  proof (cases "x = c")
    case False
    with Cons.prems have "find_slot c xs (Suc i) = Some j" by simp
    from Cons.IH [OF this] obtain k where "k < length xs" "j = Suc i + k" "xs ! k = c"
      by blast
    then show ?thesis by (intro exI [of _ "Suc k"]) simp
  qed (use Cons.prems in auto)
qed simp

text \<open>Overwriting slot \<open>i\<close> with the last element and dropping the last removes slot \<open>i\<close>.\<close>

lemma mset_swap_last:
  assumes "i < length xs"
  shows "mset (take (length xs - 1) (xs[i := xs ! (length xs - 1)])) = mset xs - {#xs ! i#}"
proof -
  obtain ys y where xs: "xs = ys @ [y]"
    using assms by (cases xs rule: rev_cases) auto
  show ?thesis
  proof (cases "i = length ys")
    case True
    then show ?thesis by (simp add: xs)
  next
    case False
    with assms have i: "i < length ys" by (simp add: xs)
    then have "mset (ys[i := y]) = add_mset y (mset ys - {#ys ! i#})"
      by (rule mset_update)
    moreover have "ys ! i \<in># mset ys" using i by simp
    ultimately show ?thesis
      using i by (simp add: xs nth_append list_update_append)
  qed
qed

lemma cl_remove_absent:
  assumes "c \<notin> set (conns l)"
  shows "cl_remove c l = l"
proof -
  have "find_slot c (conns l) 0 = None" using assms by (simp add: find_slot_None)
  then show ?thesis by (simp add: cl_remove_def)
qed

lemma conns_cl_remove:
  assumes "find_slot c (conns l) 0 = Some i"
  shows "conns (cl_remove c l) =
    take (length (conns l) - 1) ((conns l)[i := conns l ! (length (conns l) - 1)])"
  by (simp add: cl_remove_def assms Let_def)

lemma mset_cl_remove: "mset (conns (cl_remove c l)) = mset (conns l) - {#c#}"
proof (cases "find_slot c (conns l) 0")
  case None
  then have "c \<notin> set (conns l)" by (simp add: find_slot_None)
  then show ?thesis by (simp add: cl_remove_absent)
next
  case (Some i)
  from find_slot_Some [OF this] have i: "i < length (conns l)" and c: "conns l ! i = c"
    by auto
  from mset_swap_last [OF i] show ?thesis
    by (simp only: conns_cl_remove [OF Some] c)
qed

lemma mset_cl_remove_remove1: "mset (conns (cl_remove c l)) = mset (remove1 c (conns l))"
  by (simp add: mset_cl_remove)

lemma set_cl_remove: "set (conns (cl_remove c l)) \<subseteq> set (conns l)"
  using mset_eq_setD [OF mset_cl_remove_remove1 [of c l]] set_remove1_subset by fastforce

lemma set_cl_add [simp]: "set (conns (cl_add g c l)) = insert c (set (conns l))"
  by (simp add: cl_add_def Let_def)

lemma cl_remove_distinct:
  assumes "distinct (conns l)"
  shows "set (conns (cl_remove c l)) = set (conns l) - {c}" and "distinct (conns (cl_remove c l))"
  using mset_eq_setD [OF mset_cl_remove_remove1 [of c l]] assms
    mset_eq_imp_distinct_iff [OF mset_cl_remove_remove1 [of c l]]
  by (simp_all add: distinct_remove1)

lemma capacity_cl_remove:
  assumes "c \<in> set (conns l)"
  shows "capacity (cl_remove c l) \<le> 1024 \<or>
    capacity (cl_remove c l) div 4 \<le> length (conns (cl_remove c l))"
proof -
  obtain i where i: "find_slot c (conns l) 0 = Some i"
    using assms by (cases "find_slot c (conns l) 0") (auto simp: find_slot_None)
  let ?xs = "take (length (conns l) - 1)
    (if i \<noteq> length (conns l) - 1 then (conns l)[i := conns l ! (length (conns l) - 1)] else conns l)"
  have "(length ?xs * 2 + 1) div 4 \<le> length ?xs" by linarith
  then show ?thesis
    unfolding cl_remove_def i option.case Let_def connListShrinkMinCap_def
      connListShrinkRatio_def
    by (cases "1024 < capacity l \<and> length ?xs < capacity l div 4") auto
qed

section \<open>Properties\<close>

text \<open>
  Unregistering a connection: the multiset of tracked connections loses exactly one
  occurrence of it, whatever slot it was in, and when it was tracked the capacity left behind
  is at most \<open>connListShrinkMinCap\<close> or within \<open>connListShrinkRatio\<close> times the live
  count, so a past peak does not pin memory.
\<close>

theorem cl_remove_correct:
  "mset (conns (cl_remove c l)) = mset (conns l) - {#c#} \<and>
   (c \<in> set (conns l) \<longrightarrow>
      capacity (cl_remove c l) \<le> 1024 \<or>
      capacity (cl_remove c l) div 4 \<le> length (conns (cl_remove c l)))"
  using mset_cl_remove capacity_cl_remove by blast

theorem cl_remove_correct_witness:
  "7 \<in> set (conns \<lparr>conns = [7, 8, 9], capacity = 4096\<rparr>) \<and>
   mset (conns (cl_remove 7 \<lparr>conns = [7, 8, 9], capacity = 4096\<rparr>)) = {#8, 9#}"
  using cl_remove_correct [of 7 "\<lparr>conns = [7, 8, 9], capacity = 4096\<rparr>"] by simp

end
