(* ===== verification/QuotaManager.thy ===== *)
theory QuotaManager
  imports QuotaConfig ConnList
begin

text \<open>
  The in-memory side of the traffic quota service, \<open>QuotaManager\<close> of
  \<open>src/service/trafficquota/manager.go\<close>, with the tracked connections it notifies
  (\<open>QuotaConn\<close> of \<open>conn.go\<close>). Each exported method is one definition that takes and
  returns the whole manager; a method that can reach \<open>mustPeriodKey\<close> returns a \<open>go\<close>
  value, because \<open>mustPeriodKey\<close> panics.

  \<open>connList\<close> objects are shared between \<open>activeConns\<close>, the \<open>onClose\<close> closures of
  connections and runtime snapshots, so they live in a store (\<open>listStore\<close>) and are passed
  around by address; the connections they notify live in the store \<open>qconns\<close>. The closures
  \<open>RegisterConn\<close> returns are represented by what they capture: the user for \<open>onBytes\<close>,
  the list for \<open>onClose\<close>. \<open>userState\<close> objects never escape a method, so they are values.

  The invariant \<open>quota_wf\<close> and its preservation by every method are in the next theory.
\<close>

section \<open>State\<close>

type_synonym list_id = nat

record user_state =
  usage :: i64
  pendingDelta :: i64
  exceeded :: bool
  stateKey :: string

record quota_conn =
  closed :: bool
  closeDone :: bool
  onBytes :: "string option"
  onClose :: "list_id option"

record quota_manager =
  userConfigs :: "string \<rightharpoonup> quota_config"
  activeConns :: "string \<rightharpoonup> list_id"
  states :: "string \<rightharpoonup> user_state"
  now :: gotime
  dirtySet :: "string set"
  dirtyQueue :: "string list"
  listStore :: "list_id \<Rightarrow> conn_list"
  nextList :: list_id
  qconns :: "conn_id \<Rightarrow> quota_conn"
  grow :: "nat \<Rightarrow> nat \<Rightarrow> nat"

record PeriodReset =
  pr_User :: string
  pr_PreviousKey :: string
  pr_CurrentPeriod :: string

record quota_status =
  st_UsageBytes :: i64
  st_QuotaBytes :: i64
  st_Exceeded :: bool

record pending_delta =
  pd_User :: string
  pd_PeriodKey :: string
  pd_Delta :: i64

record RuntimeState =
  rs_User :: TrafficQuotaUser
  rs_UsageBytes :: i64
  rs_PendingDelta :: i64
  rs_Exceeded :: bool
  rs_PeriodKey :: string
  rs_activeConns :: "list_id option"

definition zero_state :: user_state where
  "zero_state = \<lparr>usage = 0, pendingDelta = 0, exceeded = False, stateKey = ''''\<rparr>"

section \<open>Configuration map, user states and period keys\<close>

definition HasQuota :: "string \<Rightarrow> quota_manager \<Rightarrow> bool" where
  "HasQuota u m \<longleftrightarrow> userConfigs m u \<noteq> None"

definition storeConfig :: "string \<Rightarrow> quota_config \<Rightarrow> quota_manager \<Rightarrow> quota_manager" where
  "storeConfig u c m = m\<lparr>userConfigs := (userConfigs m)(u \<mapsto> c)\<rparr>"

definition deleteConfig :: "string \<Rightarrow> quota_manager \<Rightarrow> quota_manager" where
  "deleteConfig u m = m\<lparr>userConfigs := (userConfigs m)(u := None)\<rparr>"

text \<open>The state \<open>stateFor\<close> returns, and an update through the pointer it returns.\<close>

definition state_of :: "quota_manager \<Rightarrow> string \<Rightarrow> user_state" where
  "state_of m u = (case states m u of None \<Rightarrow> zero_state | Some s \<Rightarrow> s)"

definition upd_state :: "string \<Rightarrow> (user_state \<Rightarrow> user_state) \<Rightarrow> quota_manager \<Rightarrow> quota_manager"
  where "upd_state u f m = m\<lparr>states := (states m)(u \<mapsto> f (state_of m u))\<rparr>"

definition stateFor :: "string \<Rightarrow> quota_manager \<Rightarrow> quota_manager" where
  "stateFor u m = upd_state u (\<lambda>s. s) m"

definition setPeriodKeyIfEmpty :: "string \<Rightarrow> user_state \<Rightarrow> user_state" where
  "setPeriodKeyIfEmpty k s = (if stateKey s = '''' then s\<lparr>stateKey := k\<rparr> else s)"

definition GetCurrentPeriodKey :: "string \<Rightarrow> gotime \<Rightarrow> quota_manager \<Rightarrow> go_error + string" where
  "GetCurrentPeriodKey u t m =
     (case userConfigs m u of
        None \<Rightarrow> Inl (ENew [''traffic-quota user not configured: '', u])
      | Some c \<Rightarrow> periodKey c t)"

definition mustPeriodKey :: "string \<Rightarrow> gotime \<Rightarrow> quota_manager \<Rightarrow> string go" where
  "mustPeriodKey u t m =
     (case GetCurrentPeriodKey u t m of Inl e \<Rightarrow> Panic e | Inr k \<Rightarrow> Ret k)"

definition CurrentPeriodKey :: "string \<Rightarrow> quota_manager \<Rightarrow> (string \<times> quota_manager) go" where
  "CurrentPeriodKey u m =
     (let m1 = stateFor u m; k = stateKey (state_of m1 u)
      in if k \<noteq> '''' then Ret (k, m1)
         else case mustPeriodKey u (now m1) m1 of
                Panic e \<Rightarrow> Panic e
              | Ret k' \<Rightarrow> Ret (k', upd_state u (setPeriodKeyIfEmpty k') m1))"

section \<open>Tracked connections\<close>

definition markQuotaExceeded :: "conn_id \<Rightarrow> quota_manager \<Rightarrow> quota_manager" where
  "markQuotaExceeded c m = m\<lparr>qconns := (qconns m)(c := (qconns m c)\<lparr>closed := True\<rparr>)\<rparr>"

definition closeAll :: "list_id \<Rightarrow> quota_manager \<Rightarrow> quota_manager" where
  "closeAll l m = fold markQuotaExceeded (conns (listStore m l)) m"

definition closeAllAndClear :: "list_id \<Rightarrow> quota_manager \<Rightarrow> quota_manager" where
  "closeAllAndClear l m =
     (let snapshot = conns (listStore m l)
      in fold markQuotaExceeded snapshot (m\<lparr>listStore := (listStore m)(l := empty_list)\<rparr>))"

definition tripExceeded :: "string \<Rightarrow> quota_manager \<Rightarrow> quota_manager" where
  "tripExceeded u m =
     (if exceeded (state_of m u) then m
      else (let m1 = upd_state u (\<lambda>s. s\<lparr>exceeded := True\<rparr>) m
            in case activeConns m1 u of None \<Rightarrow> m1 | Some l \<Rightarrow> closeAll l m1))"

text \<open>\<open>activeConns.LoadOrStore(user, &connList{})\<close>.\<close>

definition loadOrStoreList :: "string \<Rightarrow> quota_manager \<Rightarrow> list_id \<times> quota_manager" where
  "loadOrStoreList u m =
     (case activeConns m u of
        Some l \<Rightarrow> (l, m)
      | None \<Rightarrow>
          (nextList m,
           m\<lparr>activeConns := (activeConns m)(u \<mapsto> nextList m),
             listStore := (listStore m)(nextList m := empty_list),
             nextList := Suc (nextList m)\<rparr>))"

definition RegisterConn ::
  "string \<Rightarrow> conn_id \<Rightarrow> quota_manager \<Rightarrow> (quota_manager \<times> (string \<times> list_id) option) go" where
  "RegisterConn u c m =
     (if \<not> HasQuota u m then Ret (m, None)
      else
        (let m1 = stateFor u m
         in case mustPeriodKey u (now m1) m1 of
              Panic e \<Rightarrow> Panic e
            | Ret k \<Rightarrow>
                (let m2 = upd_state u (setPeriodKeyIfEmpty k) m1;
                     (l, m3) = loadOrStoreList u m2;
                     m4 = m3\<lparr>listStore := (listStore m3)(l := cl_add (grow m3) c (listStore m3 l))\<rparr>;
                     m5 = (if exceeded (state_of m4 u) then markQuotaExceeded c m4 else m4)
                 in Ret (m5, Some (u, l)))))"

text \<open>The \<open>onClose\<close> closure: it captured the list, not the user.\<close>

definition removeConn :: "list_id \<Rightarrow> conn_id \<Rightarrow> quota_manager \<Rightarrow> quota_manager" where
  "removeConn l c m = m\<lparr>listStore := (listStore m)(l := cl_remove c (listStore m l))\<rparr>"

section \<open>Dirty users\<close>

definition markDirty :: "string \<Rightarrow> quota_manager \<Rightarrow> quota_manager" where
  "markDirty u m =
     (if u \<in> dirtySet m then m
      else m\<lparr>dirtySet := insert u (dirtySet m), dirtyQueue := dirtyQueue m @ [u]\<rparr>)"

fun drain_users :: "string list \<Rightarrow> quota_manager \<Rightarrow> pending_delta list \<times> quota_manager" where
  "drain_users [] m = ([], m)"
| "drain_users (u # us) m =
     (case states m u of
        None \<Rightarrow> drain_users us m
      | Some s \<Rightarrow>
          (let m1 = upd_state u (\<lambda>s. s\<lparr>pendingDelta := 0\<rparr>) m; (rest, m2) = drain_users us m1
           in if pendingDelta s = 0 then (rest, m2)
              else (\<lparr>pd_User = u, pd_PeriodKey = stateKey s, pd_Delta = pendingDelta s\<rparr> # rest,
                    m2)))"

definition ConsumePendingDeltas :: "quota_manager \<Rightarrow> pending_delta list \<times> quota_manager" where
  "ConsumePendingDeltas m = drain_users (dirtyQueue m) (m\<lparr>dirtyQueue := [], dirtySet := {}\<rparr>)"

definition RestorePendingDelta ::
  "string \<Rightarrow> string \<Rightarrow> i64 \<Rightarrow> quota_manager \<Rightarrow> quota_manager" where
  "RestorePendingDelta u k d m =
     (if d = 0 \<or> \<not> HasQuota u m then m
      else
        (let m1 = stateFor u m
         in if stateKey (state_of m1 u) = k
            then markDirty u (upd_state u (\<lambda>s. s\<lparr>pendingDelta := pendingDelta s + d\<rparr>) m1)
            else m1))"

definition ClearPendingDelta :: "string \<Rightarrow> quota_manager \<Rightarrow> quota_manager" where
  "ClearPendingDelta u m =
     (case states m u of
        None \<Rightarrow> m
      | Some s \<Rightarrow> upd_state u (\<lambda>s. s\<lparr>pendingDelta := 0\<rparr>) m)"

section \<open>Accounting\<close>

definition AddBytes :: "string \<Rightarrow> int \<Rightarrow> quota_manager \<Rightarrow> quota_manager" where
  "AddBytes u n m =
     (if n \<le> 0 then m
      else case userConfigs m u of
        None \<Rightarrow> m
      | Some c \<Rightarrow>
          (let m1 = stateFor u m
           in case (if stateKey (state_of m1 u) = '''' then GetCurrentPeriodKey u (now m1) m1
                    else Inr (stateKey (state_of m1 u))) of
                Inl e \<Rightarrow> m1
              | Inr k \<Rightarrow>
                  (let total = usage (state_of m1 u) + word_of_int n;
                       m2 = upd_state u
                         (\<lambda>s. s\<lparr>stateKey := k, usage := total,
                                pendingDelta := pendingDelta s + word_of_int n\<rparr>) m1;
                       m3 = markDirty u m2
                   in if sint total > sint (quotaBytes c) then tripExceeded u m3 else m3)))"

definition LoadUsage :: "string \<Rightarrow> i64 \<Rightarrow> quota_manager \<Rightarrow> quota_manager go" where
  "LoadUsage u bytes m =
     (case userConfigs m u of
        None \<Rightarrow> Ret m
      | Some c \<Rightarrow>
          (let m1 = stateFor u m
           in case mustPeriodKey u (now m1) m1 of
                Panic e \<Rightarrow> Panic e
              | Ret k \<Rightarrow>
                  (let m2 = upd_state u (\<lambda>s. (setPeriodKeyIfEmpty k s)\<lparr>usage := bytes\<rparr>) m1
                   in Ret (if sint bytes > sint (quotaBytes c) then tripExceeded u m2
                           else upd_state u (\<lambda>s. s\<lparr>exceeded := False\<rparr>) m2))))"

definition Usage :: "string \<Rightarrow> quota_manager \<Rightarrow> i64" where
  "Usage u m = (case states m u of None \<Rightarrow> 0 | Some s \<Rightarrow> usage s)"

definition IsExceeded :: "string \<Rightarrow> quota_manager \<Rightarrow> bool" where
  "IsExceeded u m \<longleftrightarrow> (case states m u of None \<Rightarrow> False | Some s \<Rightarrow> exceeded s)"

definition Status :: "string \<Rightarrow> quota_manager \<Rightarrow> quota_status option" where
  "Status u m =
     (case userConfigs m u of
        None \<Rightarrow> None
      | Some c \<Rightarrow>
          (case states m u of
             None \<Rightarrow> Some \<lparr>st_UsageBytes = 0, st_QuotaBytes = quotaBytes c, st_Exceeded = False\<rparr>
           | Some s \<Rightarrow> Some \<lparr>st_UsageBytes = usage s, st_QuotaBytes = quotaBytes c,
                             st_Exceeded = exceeded s\<rparr>))"

section \<open>Period resets\<close>

fun reset_users ::
  "string list \<Rightarrow> gotime \<Rightarrow> quota_manager \<Rightarrow> (PeriodReset list \<times> quota_manager) go" where
  "reset_users [] t m = Ret ([], m)"
| "reset_users (u # us) t m =
     (case states m u of
        None \<Rightarrow> reset_users us t m
      | Some s \<Rightarrow>
          (case mustPeriodKey u t m of
             Panic e \<Rightarrow> Panic e
           | Ret k \<Rightarrow>
               if stateKey s = '''' then
                 reset_users us t (upd_state u (\<lambda>s. s\<lparr>stateKey := k\<rparr>) m)
               else if k = stateKey s then reset_users us t m
               else
                 (case reset_users us t
                    (upd_state u (\<lambda>s. s\<lparr>pendingDelta := 0, usage := 0, exceeded := False,
                                        stateKey := k\<rparr>) m) of
                    Panic e \<Rightarrow> Panic e
                  | Ret (rs, m') \<Rightarrow>
                      Ret (\<lparr>pr_User = u, pr_PreviousKey = stateKey s, pr_CurrentPeriod = k\<rparr> # rs,
                           m'))))"

text \<open>\<open>order\<close> is the order in which \<open>userNames\<close> visits the configured users.\<close>

definition CheckPeriodReset ::
  "string list \<Rightarrow> gotime \<Rightarrow> quota_manager \<Rightarrow> (PeriodReset list \<times> quota_manager) go" where
  "CheckPeriodReset order t m = reset_users order t m"

section \<open>Runtime configuration\<close>

definition ApplyConfig ::
  "time_parser \<Rightarrow> TrafficQuotaUser \<Rightarrow> quota_manager \<Rightarrow> (go_error option \<times> quota_manager) go" where
  "ApplyConfig tparse user m =
     (if tq_Name user = '''' then Ret (Some (ENew [''traffic-quota user missing name'']), m)
      else
        (case newQuotaConfig tparse (tq_QuotaGB user) (tq_Period user) (tq_PeriodStart user)
                (tq_PeriodDays user) None of
           Inl e \<Rightarrow> Ret (Some (ECause e [''invalid traffic-quota user '', tq_Name user]), m)
         | Inr None \<Rightarrow> Ret (Some (ENew [''invalid traffic-quota user '', tq_Name user]), m)
         | Inr (Some c) \<Rightarrow>
             (let u = tq_Name user; m1 = stateFor u (storeConfig u c m)
              in case mustPeriodKey u (now m1) m1 of
                   Panic e \<Rightarrow> Panic e
                 | Ret k \<Rightarrow>
                     (let m2 = upd_state u (setPeriodKeyIfEmpty k) m1
                      in Ret (None,
                           if sint (usage (state_of m2 u)) > sint (quotaBytes c)
                           then tripExceeded u m2
                           else upd_state u (\<lambda>s. s\<lparr>exceeded := False\<rparr>) m2)))))"

definition RemoveConfig :: "string \<Rightarrow> quota_manager \<Rightarrow> go_error option \<times> quota_manager" where
  "RemoveConfig u m =
     (if u = '''' then (Some (ENew [''traffic-quota user missing name'']), m)
      else
        (let m1 = deleteConfig u m;
             cl = activeConns m1 u;
             m2 = m1\<lparr>activeConns := (activeConns m1)(u := None),
                     states := (states m1)(u := None)\<rparr>
         in (None, case cl of None \<Rightarrow> m2 | Some l \<Rightarrow> closeAllAndClear l m2)))"

definition GetConfig ::
  "(gotime \<Rightarrow> string) \<Rightarrow> string \<Rightarrow> quota_manager \<Rightarrow> TrafficQuotaUser option" where
  "GetConfig fmt_time u m = map_option (quotaConfigToOption fmt_time u) (userConfigs m u)"

definition SnapshotState ::
  "(gotime \<Rightarrow> string) \<Rightarrow> string \<Rightarrow> quota_manager \<Rightarrow> RuntimeState option" where
  "SnapshotState fmt_time u m =
     (case userConfigs m u of
        None \<Rightarrow> None
      | Some c \<Rightarrow>
          (let s = state_of m u
           in Some \<lparr>rs_User = quotaConfigToOption fmt_time u c, rs_UsageBytes = usage s,
                    rs_PendingDelta = pendingDelta s, rs_Exceeded = exceeded s,
                    rs_PeriodKey = stateKey s, rs_activeConns = activeConns m u\<rparr>))"

definition RestoreState ::
  "time_parser \<Rightarrow> RuntimeState \<Rightarrow> quota_manager \<Rightarrow> go_error option \<times> quota_manager" where
  "RestoreState tparse st m =
     (let opt = rs_User st
      in case newQuotaConfig tparse (tq_QuotaGB opt) (tq_Period opt) (tq_PeriodStart opt)
                (tq_PeriodDays opt) None of
           Inl e \<Rightarrow> (Some (ECause e [''invalid traffic-quota user '', tq_Name opt]), m)
         | Inr None \<Rightarrow> (Some (ENew [''invalid traffic-quota user '', tq_Name opt]), m)
         | Inr (Some c) \<Rightarrow>
             (let u = tq_Name opt;
                  m1 = upd_state u
                    (\<lambda>s. s\<lparr>usage := rs_UsageBytes st, pendingDelta := rs_PendingDelta st,
                           exceeded := rs_Exceeded st, stateKey := rs_PeriodKey st\<rparr>)
                    (storeConfig u c m)
              in (None, m1\<lparr>activeConns := (activeConns m1)(u := rs_activeConns st)\<rparr>)))"

section \<open>Construction\<close>

fun load_groups ::
  "time_parser \<Rightarrow> TrafficQuotaGroup list \<Rightarrow> (string \<rightharpoonup> quota_config option) \<Rightarrow>
     go_error + (string \<rightharpoonup> quota_config option)" where
  "load_groups tparse [] gs = Inr gs"
| "load_groups tparse (g # rest) gs =
     (if tg_Name g = '''' then Inl (ENew [''traffic-quota group missing name''])
      else
        (case newQuotaConfig tparse (tg_QuotaGB g) (tg_Period g) (tg_PeriodStart g)
                (tg_PeriodDays g) None of
           Inl e \<Rightarrow> Inl (ECause e [''invalid traffic-quota group '', tg_Name g])
         | Inr c \<Rightarrow> load_groups tparse rest (gs(tg_Name g \<mapsto> c))))"

text \<open>
  A group whose quota is not positive is stored as a nil pointer; dereferencing it for a
  member (\<open>groupCopy := *groupConfig\<close>) panics.
\<close>

definition nil_dereference :: go_error where
  "nil_dereference = ENew [''invalid memory address or nil pointer dereference'']"

fun load_users ::
  "time_parser \<Rightarrow> (string \<rightharpoonup> quota_config option) \<Rightarrow> TrafficQuotaUser list \<Rightarrow>
     (string \<rightharpoonup> quota_config) \<Rightarrow> (go_error + (string \<rightharpoonup> quota_config)) go" where
  "load_users tparse gs [] us = Ret (Inr us)"
| "load_users tparse gs (x # rest) us =
     (if tq_Name x = '''' then Ret (Inl (ENew [''traffic-quota user missing name'']))
      else
        (case (if tq_Group x = '''' then Ret (Inr None)
               else case gs (tq_Group x) of
                      None \<Rightarrow> Ret (Inl (ENew [''traffic-quota user '', tq_Name x,
                                             '' references unknown group '', tq_Group x]))
                    | Some None \<Rightarrow> Panic nil_dereference
                    | Some (Some g) \<Rightarrow> Ret (Inr (Some g))) of
           Panic e \<Rightarrow> Panic e
         | Ret (Inl e) \<Rightarrow> Ret (Inl e)
         | Ret (Inr base) \<Rightarrow>
             (case newQuotaConfig tparse (tq_QuotaGB x) (tq_Period x) (tq_PeriodStart x)
                     (tq_PeriodDays x) base of
                Inl e \<Rightarrow> Ret (Inl (ECause e [''invalid traffic-quota user '', tq_Name x]))
              | Inr None \<Rightarrow> load_users tparse gs rest us
              | Inr (Some c) \<Rightarrow> load_users tparse gs rest (us(tq_Name x \<mapsto> c)))))"

text \<open>\<open>heap\<close> supplies the clock and the stores of objects that outlive the manager.\<close>

definition NewQuotaManager ::
  "time_parser \<Rightarrow> TrafficQuotaGroup list \<Rightarrow> TrafficQuotaUser list \<Rightarrow> quota_manager \<Rightarrow>
     (go_error + quota_manager) go" where
  "NewQuotaManager tparse groups users heap =
     (case load_groups tparse groups Map.empty of
        Inl e \<Rightarrow> Ret (Inl e)
      | Inr gs \<Rightarrow>
          (case load_users tparse gs users Map.empty of
             Panic e \<Rightarrow> Panic e
           | Ret (Inl e) \<Rightarrow> Ret (Inl e)
           | Ret (Inr us) \<Rightarrow>
               Ret (Inr (heap\<lparr>userConfigs := us, activeConns := Map.empty, states := Map.empty,
                              dirtySet := {}, dirtyQueue := []\<rparr>))))"

section \<open>Connections\<close>

definition ErrQuotaExceeded :: go_error where
  "ErrQuotaExceeded = ENew [''traffic quota exceeded'']"

text \<open>
  \<open>QuotaConn.Read\<close> and \<open>Write\<close> have the same shape, as have \<open>QuotaPacketConn.ReadPacket\<close>
  and \<open>WritePacket\<close>. \<open>inner\<close> is what the wrapped connection would return: bytes and error.
\<close>

definition QuotaConn_io ::
  "conn_id \<Rightarrow> int \<times> go_error option \<Rightarrow> quota_manager \<Rightarrow>
     (int \<times> go_error option) \<times> quota_manager" where
  "QuotaConn_io c inner m =
     (if closed (qconns m c) then ((0, Some ErrQuotaExceeded), m)
      else (inner,
            if fst inner > 0 then
              (case onBytes (qconns m c) of None \<Rightarrow> m | Some u \<Rightarrow> AddBytes u (fst inner) m)
            else m))"

definition QuotaPacketConn_io ::
  "conn_id \<Rightarrow> int \<times> go_error option \<Rightarrow> quota_manager \<Rightarrow> go_error option \<times> quota_manager" where
  "QuotaPacketConn_io c inner m =
     (if closed (qconns m c) then (Some ErrQuotaExceeded, m)
      else (snd inner,
            if snd inner = None \<and> fst inner > 0 then
              (case onBytes (qconns m c) of None \<Rightarrow> m | Some u \<Rightarrow> AddBytes u (fst inner) m)
            else m))"

definition QuotaConn_Close :: "conn_id \<Rightarrow> quota_manager \<Rightarrow> quota_manager" where
  "QuotaConn_Close c m =
     (if closeDone (qconns m c) then m
      else
        (let m1 = m\<lparr>qconns := (qconns m)(c := (qconns m c)\<lparr>closeDone := True\<rparr>)\<rparr>
         in case onClose (qconns m c) of None \<Rightarrow> m1 | Some l \<Rightarrow> removeConn l c m1))"

end
