(* ===== verification/QuotaInvariant.thy ===== *)
theory QuotaInvariant
  imports QuotaManager
begin

text \<open>
  The invariant of the quota manager and its preservation by every method. \<open>quota_wf\<close> says:
  every stored configuration is valid; states and connection lists exist only for configured
  users; the dirty queue enumerates the dirty set without duplicates; no two users share a
  connection list; the connections of an exceeded user are all closed (\<open>enforced\<close>); and a
  user whose usage is above the quota is marked exceeded (\<open>flagged_at\<close>). The methods are
  collected in the step relation \<open>quota_step\<close>, so \<open>quota_wf\<close> holds in every reachable state.
\<close>

section \<open>Field lemmas\<close>

lemma state_of_upd_state [simp]:
  "state_of (upd_state u f m) v = (if v = u then f (state_of m u) else state_of m v)"
  by (simp add: upd_state_def state_of_def)

lemma upd_state_fields [simp]:
  "userConfigs (upd_state u f m) = userConfigs m"
  "activeConns (upd_state u f m) = activeConns m"
  "now (upd_state u f m) = now m"
  "dirtySet (upd_state u f m) = dirtySet m"
  "dirtyQueue (upd_state u f m) = dirtyQueue m"
  "listStore (upd_state u f m) = listStore m"
  "nextList (upd_state u f m) = nextList m"
  "qconns (upd_state u f m) = qconns m"
  "grow (upd_state u f m) = grow m"
  "states (upd_state u f m) = (states m)(u \<mapsto> f (state_of m u))"
  by (simp_all add: upd_state_def)

lemma state_of_simps [simp]:
  "state_of (m\<lparr>userConfigs := a\<rparr>) v = state_of m v"
  "state_of (m\<lparr>activeConns := b\<rparr>) v = state_of m v"
  "state_of (m\<lparr>dirtySet := d\<rparr>) v = state_of m v"
  "state_of (m\<lparr>dirtyQueue := e\<rparr>) v = state_of m v"
  "state_of (m\<lparr>listStore := f\<rparr>) v = state_of m v"
  "state_of (m\<lparr>nextList := g\<rparr>) v = state_of m v"
  "state_of (m\<lparr>qconns := h\<rparr>) v = state_of m v"
  "state_of (m\<lparr>now := t\<rparr>) v = state_of m v"
  by (simp_all add: state_of_def)

lemma IsExceeded_state_of: "IsExceeded u m \<longleftrightarrow> exceeded (state_of m u)"
  by (auto simp: IsExceeded_def state_of_def zero_state_def split: option.splits)

lemma Usage_state_of: "Usage u m = usage (state_of m u)"
  by (auto simp: Usage_def state_of_def zero_state_def split: option.splits)

lemma setPeriodKeyIfEmpty_fields [simp]:
  "usage (setPeriodKeyIfEmpty k s) = usage s"
  "pendingDelta (setPeriodKeyIfEmpty k s) = pendingDelta s"
  "exceeded (setPeriodKeyIfEmpty k s) = exceeded s"
  by (simp_all add: setPeriodKeyIfEmpty_def)

lemma fold_mark:
  "fold markQuotaExceeded cs m =
     m\<lparr>qconns := (\<lambda>c. if c \<in> set cs then (qconns m c)\<lparr>closed := True\<rparr> else qconns m c)\<rparr>"
proof (induction cs arbitrary: m)
  case (Cons c cs)
  show ?case
    unfolding fold_Cons comp_apply Cons.IH
    by (auto simp: markQuotaExceeded_def fun_eq_iff intro!: quota_manager.equality)
qed simp

lemma closeAll_eq:
  "closeAll l m = m\<lparr>qconns := (\<lambda>c. if c \<in> set (conns (listStore m l))
     then (qconns m c)\<lparr>closed := True\<rparr> else qconns m c)\<rparr>"
  by (simp add: closeAll_def fold_mark)

lemma closeAllAndClear_eq:
  "closeAllAndClear l m = m\<lparr>listStore := (listStore m)(l := empty_list),
     qconns := (\<lambda>c. if c \<in> set (conns (listStore m l))
       then (qconns m c)\<lparr>closed := True\<rparr> else qconns m c)\<rparr>"
  by (simp add: closeAllAndClear_def fold_mark Let_def cong: if_cong)

lemma conns_empty_list [simp]: "conns empty_list = []"
  by (simp add: empty_list_def)

section \<open>The invariant\<close>

definition cfg_ok :: "quota_manager \<Rightarrow> bool" where
  "cfg_ok m \<longleftrightarrow>
     (\<forall>u c. userConfigs m u = Some c \<longrightarrow>
        validateQuotaConfig c = None \<and> 0 < sint (quotaBytes c))"

definition dom_ok :: "quota_manager \<Rightarrow> bool" where
  "dom_ok m \<longleftrightarrow>
     dom (states m) \<subseteq> dom (userConfigs m) \<and> dom (activeConns m) \<subseteq> dom (userConfigs m)"

definition dirty_ok :: "quota_manager \<Rightarrow> bool" where
  "dirty_ok m \<longleftrightarrow> distinct (dirtyQueue m) \<and> set (dirtyQueue m) = dirtySet m"

definition lists_ok :: "quota_manager \<Rightarrow> bool" where
  "lists_ok m \<longleftrightarrow>
     (\<forall>u l. activeConns m u = Some l \<longrightarrow> l < nextList m) \<and>
     (\<forall>u v l. activeConns m u = Some l \<longrightarrow> activeConns m v = Some l \<longrightarrow> u = v)"

definition enforced :: "quota_manager \<Rightarrow> bool" where
  "enforced m \<longleftrightarrow>
     (\<forall>u l c. exceeded (state_of m u) \<longrightarrow> activeConns m u = Some l \<longrightarrow>
        c \<in> set (conns (listStore m l)) \<longrightarrow> closed (qconns m c))"

definition flagged_at :: "quota_manager \<Rightarrow> string \<Rightarrow> bool" where
  "flagged_at m u \<longleftrightarrow>
     (\<forall>c. userConfigs m u = Some c \<longrightarrow> sint (usage (state_of m u)) > sint (quotaBytes c) \<longrightarrow>
        exceeded (state_of m u))"

definition wf0 :: "quota_manager \<Rightarrow> bool" where
  "wf0 m \<longleftrightarrow> cfg_ok m \<and> dom_ok m \<and> dirty_ok m \<and> lists_ok m \<and> enforced m"

definition quota_wf :: "quota_manager \<Rightarrow> bool" where
  "quota_wf m \<longleftrightarrow> wf0 m \<and> (\<forall>u. flagged_at m u)"

lemmas inv_defs = quota_wf_def wf0_def cfg_ok_def dom_ok_def dirty_ok_def lists_ok_def enforced_def
  flagged_at_def

lemma wf_wf0: "quota_wf m \<Longrightarrow> wf0 m"
  by (simp add: quota_wf_def)

lemma wf_cfg:
  "wf0 m \<Longrightarrow> userConfigs m u = Some c \<Longrightarrow> validateQuotaConfig c = None"
  "wf0 m \<Longrightarrow> userConfigs m u = Some c \<Longrightarrow> 0 < sint (quotaBytes c)"
  by (auto simp: wf0_def cfg_ok_def)

lemma mustPeriodKey_eq:
  assumes "wf0 m" and "userConfigs m u = Some c"
  shows "mustPeriodKey u t m = Ret (key_of c t)"
  using wf_cfg(1) [OF assms] assms(2)
  by (simp add: mustPeriodKey_def GetCurrentPeriodKey_def periodKey_key_of)

section \<open>Preservation by the building blocks\<close>

lemma wf0_upd_state:
  assumes "wf0 m" and "HasQuota u m"
    and "exceeded (f (state_of m u)) \<Longrightarrow> exceeded (state_of m u)"
  shows "wf0 (upd_state u f m)"
  using assms by (auto simp: inv_defs HasQuota_def split: if_splits)

lemma wf_upd_state:
  assumes "quota_wf m" and "HasQuota u m"
    and "exceeded (f (state_of m u)) = exceeded (state_of m u)"
    and "usage (f (state_of m u)) = usage (state_of m u)"
  shows "quota_wf (upd_state u f m)"
  using assms wf0_upd_state [of m u f] by (auto simp: quota_wf_def flagged_at_def)

lemma wf_stateFor: "quota_wf m \<Longrightarrow> HasQuota u m \<Longrightarrow> quota_wf (stateFor u m)"
  unfolding stateFor_def by (rule wf_upd_state) simp_all

lemma markDirty_fields [simp]:
  "userConfigs (markDirty u m) = userConfigs m" "activeConns (markDirty u m) = activeConns m"
  "states (markDirty u m) = states m" "now (markDirty u m) = now m"
  "listStore (markDirty u m) = listStore m" "qconns (markDirty u m) = qconns m"
  "dirtySet (markDirty u m) = insert u (dirtySet m)" "state_of (markDirty u m) = state_of m"
  by (auto simp: markDirty_def state_of_def fun_eq_iff)

lemma wf0_markDirty: "wf0 m \<Longrightarrow> wf0 (markDirty u m)"
  by (auto simp: inv_defs markDirty_def)

lemma flagged_markDirty [simp]: "flagged_at (markDirty u m) v = flagged_at m v"
  by (auto simp: flagged_at_def markDirty_def)

lemma wf_markDirty: "quota_wf m \<Longrightarrow> quota_wf (markDirty u m)"
  by (simp add: quota_wf_def wf0_markDirty)

lemma wf_tripExceeded:
  assumes "wf0 m" and "HasQuota u m" and "\<And>v. v \<noteq> u \<Longrightarrow> flagged_at m v"
  shows "quota_wf (tripExceeded u m)"
proof (cases "exceeded (state_of m u)")
  case True
  then have "flagged_at m v" for v
    using assms(3) [of v] by (cases "v = u") (simp_all add: flagged_at_def)
  with assms True show ?thesis by (simp add: tripExceeded_def quota_wf_def)
next
  case False
  let ?m1 = "upd_state u (\<lambda>s. s\<lparr>exceeded := True\<rparr>) m"
  have fl: "flagged_at ?m1 v" for v
    using assms(3) [of v] by (auto simp: flagged_at_def)
  have base: "cfg_ok ?m1" "dom_ok ?m1" "dirty_ok ?m1" "lists_ok ?m1"
    using assms(1,2) by (auto simp: inv_defs HasQuota_def)
  show ?thesis
  proof (cases "activeConns m u")
    case None
    then have "enforced ?m1" using assms(1) by (auto simp: wf0_def enforced_def)
    with base fl False None show ?thesis by (simp add: tripExceeded_def quota_wf_def wf0_def)
  next
    case (Some l)
    have "enforced (closeAll l ?m1)"
      using assms(1) Some by (auto simp: closeAll_eq wf0_def enforced_def)
    moreover have "cfg_ok (closeAll l ?m1)" "dom_ok (closeAll l ?m1)"
      "dirty_ok (closeAll l ?m1)" "lists_ok (closeAll l ?m1)"
      using base by (auto simp: closeAll_eq cfg_ok_def dom_ok_def dirty_ok_def lists_ok_def)
    moreover have "flagged_at (closeAll l ?m1) v" for v
      using fl [of v] by (simp add: closeAll_eq flagged_at_def)
    ultimately show ?thesis using False Some by (simp add: tripExceeded_def quota_wf_def wf0_def)
  qed
qed

text \<open>
  Recording a usage figure and then either tripping or clearing the flag, the common tail of
  \<open>ApplyConfig\<close> and \<open>LoadUsage\<close>.
\<close>

lemma wf_settle:
  assumes "wf0 m" and "userConfigs m u = Some c" and "\<And>v. v \<noteq> u \<Longrightarrow> flagged_at m v"
    and "b \<longleftrightarrow> sint (usage (state_of m u)) > sint (quotaBytes c)"
  shows "quota_wf (if b then tripExceeded u m else upd_state u (\<lambda>s. s\<lparr>exceeded := False\<rparr>) m)"
proof (cases b)
  case True
  with assms show ?thesis by (simp add: wf_tripExceeded HasQuota_def)
next
  case False
  have "wf0 (upd_state u (\<lambda>s. s\<lparr>exceeded := False\<rparr>) m)"
    using assms(1,2) by (intro wf0_upd_state) (simp_all add: HasQuota_def)
  moreover have "flagged_at (upd_state u (\<lambda>s. s\<lparr>exceeded := False\<rparr>) m) v" for v
    using assms(2-4) False by (auto simp: flagged_at_def)
  ultimately show ?thesis using False by (simp add: quota_wf_def)
qed

section \<open>What the methods do in a well-formed manager\<close>

lemma upd_state_upd_state [simp]:
  "upd_state u f (upd_state u g m) = upd_state u (\<lambda>s. f (g s)) m"
  by (simp add: upd_state_def state_of_def)

lemma upd_stateFor [simp]: "upd_state u f (stateFor u m) = upd_state u f m"
  by (simp add: stateFor_def)

lemma stateFor_fields [simp]:
  "userConfigs (stateFor u m) = userConfigs m" "activeConns (stateFor u m) = activeConns m"
  "now (stateFor u m) = now m" "state_of (stateFor u m) = state_of m"
  "grow (stateFor u m) = grow m"
  by (auto simp: stateFor_def)

lemma mustPeriodKey_cong:
  "userConfigs m = userConfigs m' \<Longrightarrow> mustPeriodKey u t m = mustPeriodKey u t m'"
  by (simp add: mustPeriodKey_def GetCurrentPeriodKey_def)

lemma mustPeriodKey_stateFor:
  assumes "wf0 m" and "userConfigs m u = Some c"
  shows "mustPeriodKey u t (stateFor u m) = Ret (key_of c t)"
  using mustPeriodKey_eq [OF assms, of t] mustPeriodKey_cong [of "stateFor u m" m] by simp

definition add_usage :: "quota_config \<Rightarrow> gotime \<Rightarrow> i64 \<Rightarrow> user_state \<Rightarrow> user_state" where
  "add_usage c t n s =
     (setPeriodKeyIfEmpty (key_of c t) s)\<lparr>usage := usage s + n, pendingDelta := pendingDelta s + n\<rparr>"

lemma add_usage_fields [simp]:
  "usage (add_usage c t n s) = usage s + n"
  "pendingDelta (add_usage c t n s) = pendingDelta s + n"
  "exceeded (add_usage c t n s) = exceeded s"
  "stateKey (add_usage c t n s) = stateKey (setPeriodKeyIfEmpty (key_of c t) s)"
  by (simp_all add: add_usage_def)

lemma AddBytes_eq:
  assumes "wf0 m" and c: "userConfigs m u = Some c" and "0 < n"
  shows "AddBytes u n m =
    (let m' = markDirty u (upd_state u (add_usage c (now m) (word_of_int n)) m)
     in if sint (usage (state_of m u) + word_of_int n) > sint (quotaBytes c)
        then tripExceeded u m' else m')"
proof -
  let ?k = "stateKey (setPeriodKeyIfEmpty (key_of c (now m)) (state_of m u))"
  have key: "(if stateKey (state_of m u) = '''' then GetCurrentPeriodKey u (now m) (stateFor u m)
      else Inr (stateKey (state_of m u))) = Inr ?k"
    using wf_cfg(1) [OF assms(1) c] c
    by (simp add: GetCurrentPeriodKey_def periodKey_key_of setPeriodKeyIfEmpty_def)
  have upd: "upd_state u (\<lambda>s. s\<lparr>stateKey := ?k, usage := usage (state_of m u) + word_of_int n,
      pendingDelta := pendingDelta s + word_of_int n\<rparr>) m =
      upd_state u (add_usage c (now m) (word_of_int n)) m"
    by (simp add: upd_state_def add_usage_def setPeriodKeyIfEmpty_def)
  from assms(3) show ?thesis
    unfolding AddBytes_def c option.case Let_def stateFor_fields key sum.case upd_stateFor upd
    by simp
qed

lemma LoadUsage_eq:
  assumes "wf0 m" and c: "userConfigs m u = Some c"
  shows "LoadUsage u b m = Ret
    (let m' = upd_state u (\<lambda>s. (setPeriodKeyIfEmpty (key_of c (now m)) s)\<lparr>usage := b\<rparr>) m
     in if sint b > sint (quotaBytes c) then tripExceeded u m'
        else upd_state u (\<lambda>s. s\<lparr>exceeded := False\<rparr>) m')"
  using mustPeriodKey_stateFor [OF assms, of "now m"] c
  by (simp add: LoadUsage_def Let_def)

lemma wf0_storeConfig:
  assumes "wf0 m" and "validateQuotaConfig c = None" and "0 < sint (quotaBytes c)"
  shows "wf0 (storeConfig u c m)"
  using assms by (auto simp: inv_defs storeConfig_def split: if_splits)

lemma ApplyConfig_eq:
  assumes "wf0 m" and "tq_Name user \<noteq> ''''"
    and new: "newQuotaConfig tparse (tq_QuotaGB user) (tq_Period user) (tq_PeriodStart user)
           (tq_PeriodDays user) None = Inr (Some c)"
  shows "ApplyConfig tparse user m = Ret (None,
    (let u = tq_Name user;
         m' = upd_state u (setPeriodKeyIfEmpty (key_of c (now m))) (storeConfig u c m)
     in if sint (usage (state_of m u)) > sint (quotaBytes c) then tripExceeded u m'
        else upd_state u (\<lambda>s. s\<lparr>exceeded := False\<rparr>) m'))"
proof -
  let ?u = "tq_Name user" and ?m = "storeConfig (tq_Name user) c m"
  have "wf0 ?m" using assms(1) newQuotaConfig_valid [OF new] by (rule wf0_storeConfig)
  moreover have "userConfigs ?m ?u = Some c" by (simp add: storeConfig_def)
  ultimately have "mustPeriodKey ?u (now m) (stateFor ?u ?m) = Ret (key_of c (now m))"
    by (rule mustPeriodKey_stateFor)
  with assms(2) new show ?thesis
    by (simp add: ApplyConfig_def Let_def storeConfig_def)
qed

section \<open>Preservation by the methods\<close>

lemma wf_AddBytes:
  assumes "quota_wf m"
  shows "quota_wf (AddBytes u n m)"
proof (cases "0 < n \<and> HasQuota u m")
  case False
  with assms show ?thesis by (auto simp: AddBytes_def HasQuota_def)
next
  case True
  then obtain c where c: "userConfigs m u = Some c" by (auto simp: HasQuota_def)
  let ?m = "markDirty u (upd_state u (add_usage c (now m) (word_of_int n)) m)"
  have w0: "wf0 ?m"
    using assms True by (intro wf0_markDirty wf0_upd_state) (simp_all add: wf_wf0)
  have fl: "v \<noteq> u \<Longrightarrow> flagged_at ?m v" for v
    using assms by (simp add: quota_wf_def) (simp add: flagged_at_def)
  have q: "HasQuota u ?m" using True by (simp add: HasQuota_def markDirty_def)
  show ?thesis
  proof (cases "sint (usage (state_of m u) + word_of_int n) > sint (quotaBytes c)")
    case over: True
    with wf_tripExceeded [OF w0 q fl] True show ?thesis
      by (simp add: AddBytes_eq [OF wf_wf0 [OF assms] c])
  next
    case False
    then have "flagged_at ?m v" for v
      using fl [of v] c by (cases "v = u") (simp_all add: flagged_at_def)
    with w0 False True show ?thesis
      by (simp add: AddBytes_eq [OF wf_wf0 [OF assms] c] quota_wf_def)
  qed
qed

lemma wf_LoadUsage:
  assumes "quota_wf m" and "LoadUsage u b m = Ret m'"
  shows "quota_wf m'"
proof (cases "userConfigs m u")
  case None
  with assms show ?thesis by (simp add: LoadUsage_def)
next
  case (Some c)
  let ?m = "upd_state u (\<lambda>s. (setPeriodKeyIfEmpty (key_of c (now m)) s)\<lparr>usage := b\<rparr>) m"
  have w0: "wf0 ?m"
    using assms(1) Some by (intro wf0_upd_state) (simp_all add: wf_wf0 HasQuota_def)
  have c: "userConfigs ?m u = Some c" using Some by simp
  have fl: "v \<noteq> u \<Longrightarrow> flagged_at ?m v" for v
    using assms(1) by (simp add: quota_wf_def flagged_at_def)
  from wf_settle [OF w0 c fl, of "sint b > sint (quotaBytes c)"] assms(2) show ?thesis
    by (simp add: LoadUsage_eq [OF wf_wf0 [OF assms(1)] Some] Let_def del: upd_state_upd_state)
qed

lemma wf_ApplyConfig:
  assumes "quota_wf m" and "ApplyConfig tparse user m = Ret (r, m')"
  shows "quota_wf m'"
proof -
  let ?u = "tq_Name user"
  let ?new = "newQuotaConfig tparse (tq_QuotaGB user) (tq_Period user) (tq_PeriodStart user)
    (tq_PeriodDays user) None"
  consider (name) "?u = ''''" | (err) "?u \<noteq> ''''" "\<And>c. ?new \<noteq> Inr (Some c)"
    | (ok) c where "?u \<noteq> ''''" "?new = Inr (Some c)" by blast
  then show ?thesis
  proof cases
    case name
    with assms show ?thesis by (simp add: ApplyConfig_def)
  next
    case err
    then show ?thesis
      using assms by (cases ?new) (auto simp: ApplyConfig_def split: option.splits)
  next
    case (ok c)
    let ?m = "upd_state ?u (setPeriodKeyIfEmpty (key_of c (now m))) (storeConfig ?u c m)"
    have w0: "wf0 ?m"
      using wf0_storeConfig [OF wf_wf0 [OF assms(1)] newQuotaConfig_valid [OF ok(2)], of ?u]
      by (intro wf0_upd_state) (simp_all add: HasQuota_def storeConfig_def)
    have c: "userConfigs ?m ?u = Some c" by (simp add: storeConfig_def)
    have fl: "v \<noteq> ?u \<Longrightarrow> flagged_at ?m v" for v
      using assms(1) by (simp add: quota_wf_def flagged_at_def storeConfig_def)
    have us: "usage (state_of ?m ?u) = usage (state_of m ?u)" by (simp add: storeConfig_def)
    from wf_settle [OF w0 c fl refl] assms(2) show ?thesis
      unfolding ApplyConfig_eq [OF wf_wf0 [OF assms(1)] ok] us Let_def by simp
  qed
qed

lemma wf_RemoveConfig:
  assumes "quota_wf m"
  shows "quota_wf (snd (RemoveConfig u m))"
proof (cases "activeConns m u")
  case None
  with assms show ?thesis
    by (auto simp: RemoveConfig_def deleteConfig_def Let_def inv_defs state_of_def split: if_splits)
next
  case (Some l)
  have "v \<noteq> u \<Longrightarrow> activeConns m v \<noteq> Some l" for v
    using assms Some by (auto simp: quota_wf_def wf0_def lists_ok_def)
  with assms Some show ?thesis
    by (auto simp: RemoveConfig_def deleteConfig_def Let_def closeAllAndClear_eq inv_defs
        state_of_def zero_state_def split: if_splits)
qed

lemma lists_okD:
  "lists_ok m \<Longrightarrow> activeConns m u = Some l \<Longrightarrow> l < nextList m"
  "lists_ok m \<Longrightarrow> activeConns m u = Some l \<Longrightarrow> activeConns m v = Some l \<Longrightarrow> u = v"
  by (auto simp: lists_ok_def)

lemma loadOrStoreList_props:
  assumes "quota_wf m" and "HasQuota u m" and "loadOrStoreList u m = (l, m')"
  shows "quota_wf m'" and "activeConns m' u = Some l" and "state_of m' = state_of m"
    and "userConfigs m' = userConfigs m" and "qconns m' = qconns m"
proof -
  show "activeConns m' u = Some l" "state_of m' = state_of m" "userConfigs m' = userConfigs m"
    "qconns m' = qconns m"
    using assms(3) by (auto simp: loadOrStoreList_def fun_eq_iff split: option.splits)
  show "quota_wf m'"
  proof (cases "activeConns m u")
    case None
    have fresh: "activeConns m v = Some k \<Longrightarrow> k < nextList m" for v k
      using assms(1) by (auto simp: quota_wf_def wf0_def lists_ok_def)
    from None assms(3) have m': "m' = m\<lparr>activeConns := (activeConns m)(u \<mapsto> nextList m),
        listStore := (listStore m)(nextList m := empty_list), nextList := Suc (nextList m)\<rparr>"
      by (auto simp: loadOrStoreList_def)
    have "lists_ok m'"
      using assms(1) fresh unfolding m' quota_wf_def wf0_def lists_ok_def
      by (auto dest: less_SucI)
    moreover have "enforced m'"
      using assms(1) fresh unfolding m' quota_wf_def wf0_def enforced_def
      by (auto split: if_splits)
    ultimately show ?thesis
      using assms(1,2) unfolding m'
      by (auto simp: quota_wf_def wf0_def cfg_ok_def dom_ok_def dirty_ok_def flagged_at_def HasQuota_def)
  qed (use assms in \<open>auto simp: loadOrStoreList_def\<close>)
qed

text \<open>
  Adding a connection to a user's own list keeps the invariant, provided the connection is
  closed when the user is already over the quota.
\<close>

lemma wf_addConn:
  assumes "quota_wf m" and l: "activeConns m u = Some l"
    and "exceeded (state_of m u) \<Longrightarrow> closed (qconns m c)"
  shows "quota_wf (m\<lparr>listStore := (listStore m)(l := cl_add g c (listStore m l))\<rparr>)"
proof -
  have "enforced (m\<lparr>listStore := (listStore m)(l := cl_add g c (listStore m l))\<rparr>)"
    unfolding enforced_def
  proof (intro allI impI)
    fix v k d
    assume e: "exceeded (state_of (m\<lparr>listStore := (listStore m)(l := cl_add g c (listStore m l))\<rparr>) v)"
      and k: "activeConns (m\<lparr>listStore := (listStore m)(l := cl_add g c (listStore m l))\<rparr>) v = Some k"
      and d: "d \<in> set (conns (listStore (m\<lparr>listStore := (listStore m)(l := cl_add g c (listStore m l))\<rparr>) k))"
    have "v = u" if "k = l"
      using that k l lists_okD(2) [of m v l u] assms(1) by (simp add: quota_wf_def wf0_def)
    then show "closed (qconns (m\<lparr>listStore := (listStore m)(l := cl_add g c (listStore m l))\<rparr>) d)"
      using assms(1,3) e k d by (auto simp: quota_wf_def wf0_def enforced_def split: if_splits)
  qed
  with assms(1) show ?thesis
    by (auto simp: quota_wf_def wf0_def cfg_ok_def dom_ok_def dirty_ok_def lists_ok_def flagged_at_def)
qed

lemma wf_markQuotaExceeded: "quota_wf m \<Longrightarrow> quota_wf (markQuotaExceeded c m)"
  by (auto simp: markQuotaExceeded_def inv_defs)

lemma RegisterConn_eq:
  assumes "quota_wf m" and c: "userConfigs m u = Some cf"
    and "loadOrStoreList u (upd_state u (setPeriodKeyIfEmpty (key_of cf (now m))) m) = (l, m1)"
  shows "RegisterConn u c m = Ret
    (let m2 = m1\<lparr>listStore := (listStore m1)(l := cl_add (grow m1) c (listStore m1 l))\<rparr>
     in (if exceeded (state_of m u) then markQuotaExceeded c m2 else m2, Some (u, l)))"
proof -
  have "exceeded (state_of m1 u) = exceeded (state_of m u)"
    using loadOrStoreList_props(3) [OF _ _ assms(3)] wf_upd_state [OF assms(1)] c
    by (simp add: HasQuota_def)
  with assms(3) c mustPeriodKey_stateFor [OF wf_wf0 [OF assms(1)] c, of "now m"] show ?thesis
    by (simp add: RegisterConn_def HasQuota_def Let_def)
qed

lemma wf_RegisterConn:
  assumes "quota_wf m" and "RegisterConn u c m = Ret (m', r)"
  shows "quota_wf m'"
proof (cases "userConfigs m u")
  case None
  with assms show ?thesis by (simp add: RegisterConn_def HasQuota_def)
next
  case (Some cf)
  let ?m = "upd_state u (setPeriodKeyIfEmpty (key_of cf (now m))) m"
  obtain l m1 where lm: "loadOrStoreList u ?m = (l, m1)" by (cases "loadOrStoreList u ?m")
  have q: "HasQuota u ?m" and w: "quota_wf ?m"
    using assms(1) Some by (auto simp: HasQuota_def intro!: wf_upd_state)
  note p = loadOrStoreList_props [OF w q lm]
  let ?add = "\<lambda>m. m\<lparr>listStore := (listStore m)(l := cl_add (grow m1) c (listStore m l))\<rparr>"
  have comm: "markQuotaExceeded c (?add m1) = ?add (markQuotaExceeded c m1)"
    by (simp add: markQuotaExceeded_def)
  have ex: "exceeded (state_of m1 u) = exceeded (state_of m u)" using p(3) by simp
  show ?thesis
  proof (cases "exceeded (state_of m u)")
    case True
    have "quota_wf (?add (markQuotaExceeded c m1))"
      using wf_markQuotaExceeded [OF p(1)] p(2)
      by (intro wf_addConn [where u = u]) (simp_all add: markQuotaExceeded_def)
    with True assms(2) comm show ?thesis
      by (simp add: RegisterConn_eq [OF assms(1) Some lm] Let_def)
  next
    case False
    have "quota_wf (?add m1)" using p(1,2) ex False by (intro wf_addConn [where u = u]) simp_all
    with False assms(2) show ?thesis
      by (simp add: RegisterConn_eq [OF assms(1) Some lm] Let_def)
  qed
qed

lemma wf_removeConn: "quota_wf m \<Longrightarrow> quota_wf (removeConn l c m)"
  using set_cl_remove [of c "listStore m l"]
  by (auto simp: removeConn_def inv_defs subset_iff split: if_splits)

lemma wf_RestorePendingDelta: "quota_wf m \<Longrightarrow> quota_wf (RestorePendingDelta u k d m)"
  by (auto simp: RestorePendingDelta_def Let_def intro!: wf_markDirty wf_upd_state wf_stateFor)

lemma dom_okD: "quota_wf m \<Longrightarrow> states m u = Some s \<Longrightarrow> HasQuota u m"
  by (auto simp: quota_wf_def wf0_def dom_ok_def HasQuota_def)

lemma wf_ClearPendingDelta: "quota_wf m \<Longrightarrow> quota_wf (ClearPendingDelta u m)"
  by (auto simp: ClearPendingDelta_def dom_okD intro!: wf_upd_state split: option.splits)

lemma wf_drain_users: "quota_wf m \<Longrightarrow> drain_users us m = (ps, m') \<Longrightarrow> quota_wf m'"
proof (induction us arbitrary: m ps)
  case (Cons u us)
  show ?case
  proof (cases "states m u")
    case None
    with Cons show ?thesis by simp
  next
    case (Some s)
    let ?m = "upd_state u (\<lambda>s. s\<lparr>pendingDelta := 0\<rparr>) m"
    obtain rest where "drain_users us ?m = (rest, m')"
      using Cons.prems(2) Some by (auto split: prod.splits if_splits simp: Let_def)
    moreover have "quota_wf ?m" using Cons.prems(1) Some by (intro wf_upd_state) (simp_all add: dom_okD)
    ultimately show ?thesis by (rule Cons.IH [rotated])
  qed
qed simp

lemma wf_ConsumePendingDeltas: "quota_wf m \<Longrightarrow> ConsumePendingDeltas m = (ps, m') \<Longrightarrow> quota_wf m'"
  unfolding ConsumePendingDeltas_def
  by (rule wf_drain_users) (auto simp: inv_defs)

lemma wf_CurrentPeriodKey:
  assumes "quota_wf m" and "CurrentPeriodKey u m = Ret (k, m')"
  shows "quota_wf m'"
proof (cases "HasQuota u m")
  case True
  with assms show ?thesis
    by (auto simp: CurrentPeriodKey_def Let_def wf_stateFor split: if_splits go.splits
        intro!: wf_upd_state)
next
  case False
  then have "states m u = None"
    using dom_okD [OF assms(1), of u] by (cases "states m u") auto
  then have "stateKey (state_of m u) = ''''" by (simp add: state_of_def zero_state_def)
  with False assms(2) show ?thesis
    by (simp add: CurrentPeriodKey_def Let_def mustPeriodKey_def GetCurrentPeriodKey_def
        HasQuota_def)
qed

section \<open>Period resets\<close>

text \<open>What a reset at time \<open>t\<close> makes of a state, and whether it counts as a reset.\<close>

definition rolls_over :: "quota_config \<Rightarrow> gotime \<Rightarrow> user_state \<Rightarrow> bool" where
  "rolls_over c t s \<longleftrightarrow> stateKey s \<noteq> '''' \<and> stateKey s \<noteq> key_of c t"

definition reset_state :: "quota_config \<Rightarrow> gotime \<Rightarrow> user_state \<Rightarrow> user_state" where
  "reset_state c t s =
     (if rolls_over c t s
      then \<lparr>usage = 0, pendingDelta = 0, exceeded = False, stateKey = key_of c t\<rparr>
      else s\<lparr>stateKey := key_of c t\<rparr>)"

definition resets_of :: "string list \<Rightarrow> gotime \<Rightarrow> quota_manager \<Rightarrow> PeriodReset list" where
  "resets_of us t m =
     concat (map (\<lambda>u. case (userConfigs m u, states m u) of
         (Some c, Some s) \<Rightarrow>
           if rolls_over c t s
           then [\<lparr>pr_User = u, pr_PreviousKey = stateKey s, pr_CurrentPeriod = key_of c t\<rparr>]
           else []
       | _ \<Rightarrow> []) us)"

definition reset_map :: "string list \<Rightarrow> gotime \<Rightarrow> quota_manager \<Rightarrow> quota_manager" where
  "reset_map us t m =
     m\<lparr>states := (\<lambda>u. if u \<in> set us
        then (case userConfigs m u of
                None \<Rightarrow> states m u
              | Some c \<Rightarrow> map_option (reset_state c t) (states m u))
        else states m u)\<rparr>"

lemma resets_of_upd:
  "u \<notin> set us \<Longrightarrow> resets_of us t (upd_state u f m) = resets_of us t m"
  unfolding resets_of_def by (intro arg_cong [where f = concat] map_cong) auto

lemma reset_map_upd:
  assumes "u \<notin> set us" and "states m u = Some s" and "userConfigs m u = Some c"
    and "f s = reset_state c t s"
  shows "reset_map us t (upd_state u f m) = reset_map (u # us) t m"
  using assms
  by (auto simp: reset_map_def upd_state_def state_of_def fun_eq_iff
      intro!: quota_manager.equality split: option.splits)

lemma cfg_okD: "cfg_ok m \<Longrightarrow> userConfigs m u = Some c \<Longrightarrow> validateQuotaConfig c = None"
  by (simp add: cfg_ok_def)

lemma reset_users_eq:
  assumes "cfg_ok m" and "distinct us" and "\<And>u. u \<in> set us \<Longrightarrow> HasQuota u m"
  shows "reset_users us t m = Ret (resets_of us t m, reset_map us t m)"
  using assms
proof (induction us arbitrary: m)
  case Nil
  then show ?case by (simp add: resets_of_def reset_map_def)
next
  case (Cons u us)
  obtain c where c: "userConfigs m u = Some c"
    using Cons.prems(3) [of u] by (auto simp: HasQuota_def)
  have key: "mustPeriodKey u t m = Ret (key_of c t)"
    using c cfg_okD [OF Cons.prems(1) c]
    by (simp add: mustPeriodKey_def GetCurrentPeriodKey_def periodKey_key_of)
  have IH: "reset_users us t (upd_state u f m) =
      Ret (resets_of us t m, reset_map us t (upd_state u f m))" for f
    using Cons.IH [of "upd_state u f m"] Cons.prems
    by (simp add: resets_of_upd cfg_ok_def HasQuota_def)
  have IH0: "reset_users us t m = Ret (resets_of us t m, reset_map us t m)"
    using Cons.IH [of m] Cons.prems by simp
  show ?case
  proof (cases "states m u")
    case None
    have "reset_map (u # us) t m = reset_map us t m"
      using None c by (auto simp: reset_map_def fun_eq_iff intro!: quota_manager.equality)
    with None IH0 c show ?thesis by (simp add: resets_of_def)
  next
    case (Some s)
    have same: "reset_map (u # us) t m = reset_map us t m" if "stateKey s = key_of c t"
      using Some c that
      by (auto simp: reset_map_def reset_state_def rolls_over_def fun_eq_iff
          intro!: quota_manager.equality)
    note rm = reset_map_upd [OF _ Some c, of us _ t]
    show ?thesis
      using Cons.prems(2) Some c key IH IH0 same
      by (simp add: resets_of_def rolls_over_def reset_state_def rm)
  qed
qed

lemma state_of_reset_map:
  assumes "dom_ok m"
  shows "state_of (reset_map us t m) u =
    (if u \<in> set us \<and> states m u \<noteq> None
     then (case userConfigs m u of None \<Rightarrow> state_of m u | Some c \<Rightarrow> reset_state c t (state_of m u))
     else state_of m u)"
  using assms
  by (auto simp: reset_map_def state_of_def dom_ok_def split: option.splits)

lemma wf_reset_map:
  assumes "quota_wf m"
  shows "quota_wf (reset_map us t m)"
proof -
  have d: "dom_ok m" using assms by (simp add: quota_wf_def wf0_def)
  have pos: "userConfigs m u = Some c \<Longrightarrow> 0 < sint (quotaBytes c)" for u c
    using assms by (simp add: quota_wf_def wf0_def cfg_ok_def)
  have ex: "exceeded (state_of (reset_map us t m) u) \<Longrightarrow> exceeded (state_of m u)" for u
    unfolding state_of_reset_map [OF d]
    by (auto simp: reset_state_def split: if_splits option.splits)
  have "enforced (reset_map us t m)"
    using assms ex by (auto simp: quota_wf_def wf0_def enforced_def reset_map_def)
  moreover have "flagged_at (reset_map us t m) u" for u
  proof -
    have "flagged_at m u" using assms by (simp add: quota_wf_def)
    then show ?thesis
      using pos [of u] unfolding flagged_at_def state_of_reset_map [OF d]
      by (auto simp: reset_state_def reset_map_def split: if_splits option.splits)
  qed
  moreover have "dom (states (reset_map us t m)) = dom (states m)"
    by (auto simp: reset_map_def split: if_splits option.splits)
  ultimately show ?thesis
    using assms
    by (auto simp: quota_wf_def wf0_def cfg_ok_def dom_ok_def dirty_ok_def lists_ok_def
        reset_map_def)
qed

lemma CheckPeriodReset_eq:
  assumes "quota_wf m" and "range_order order (userConfigs m)"
  shows "CheckPeriodReset order t m = Ret (resets_of order t m, reset_map order t m)"
  unfolding CheckPeriodReset_def
  using assms by (intro reset_users_eq) (auto simp: quota_wf_def wf0_def range_order_def HasQuota_def)

lemma wf_CheckPeriodReset:
  assumes "quota_wf m" and "range_order order (userConfigs m)"
    and "CheckPeriodReset order t m = Ret (rs, m')"
  shows "quota_wf m'"
  using assms wf_reset_map [OF assms(1)] by (auto simp: CheckPeriodReset_eq)

section \<open>Snapshots\<close>

text \<open>
  A snapshot can be restored safely when the list it points to belongs to nobody else, holds
  only closed connections if the snapshot is over the quota, and its flag agrees with its
  usage.
\<close>

definition restorable :: "RuntimeState \<Rightarrow> quota_manager \<Rightarrow> bool" where
  "restorable st m \<longleftrightarrow>
     (\<forall>l. rs_activeConns st = Some l \<longrightarrow>
        l < nextList m \<and>
        (\<forall>v. v \<noteq> tq_Name (rs_User st) \<longrightarrow> activeConns m v \<noteq> Some l) \<and>
        (rs_Exceeded st \<longrightarrow> (\<forall>c \<in> set (conns (listStore m l)). closed (qconns m c)))) \<and>
     (sint (rs_UsageBytes st) > sint (quota_bytes (tq_QuotaGB (rs_User st))) \<longrightarrow> rs_Exceeded st)"

lemma newQuotaConfig_bytes:
  assumes "newQuotaConfig tparse gb prd start days None = Inr (Some c)"
  shows "quotaBytes c = quota_bytes gb"
  using assms
  by (auto simp: newQuotaConfig_def Let_def zero_config_def split: if_splits sum.splits option.splits)

lemma wf_RestoreState:
  assumes "quota_wf m" and "restorable st m"
  shows "quota_wf (snd (RestoreState tparse st m))"
proof -
  let ?o = "rs_User st"
  let ?new = "newQuotaConfig tparse (tq_QuotaGB ?o) (tq_Period ?o) (tq_PeriodStart ?o)
    (tq_PeriodDays ?o) None"
  consider (err) "\<And>c. ?new \<noteq> Inr (Some c)" | (ok) c where "?new = Inr (Some c)" by blast
  then show ?thesis
  proof cases
    case err
    then show ?thesis
      using assms(1) by (cases ?new) (auto simp: RestoreState_def Let_def split: option.splits)
  next
    case (ok c)
    note valid = newQuotaConfig_valid [OF ok] newQuotaConfig_bytes [OF ok]
    let ?u = "tq_Name ?o"
    let ?m = "(upd_state ?u (\<lambda>s. s\<lparr>usage := rs_UsageBytes st, pendingDelta := rs_PendingDelta st,
        exceeded := rs_Exceeded st, stateKey := rs_PeriodKey st\<rparr>) (storeConfig ?u c m))
        \<lparr>activeConns := (activeConns m)(?u := rs_activeConns st)\<rparr>"
    have eq: "snd (RestoreState tparse st m) = ?m"
      by (simp add: RestoreState_def ok Let_def storeConfig_def)
    have "lists_ok ?m"
      using assms unfolding lists_ok_def restorable_def quota_wf_def wf0_def
      by (auto simp: storeConfig_def split: if_splits)
    moreover have "enforced ?m"
      using assms unfolding enforced_def restorable_def quota_wf_def wf0_def
      by (auto simp: storeConfig_def split: if_splits)
    moreover have "flagged_at ?m v" for v
      using assms valid unfolding flagged_at_def restorable_def quota_wf_def
      by (auto simp: storeConfig_def)
    moreover have "cfg_ok ?m" "dom_ok ?m" "dirty_ok ?m"
      using assms(1) valid unfolding quota_wf_def wf0_def cfg_ok_def dom_ok_def dirty_ok_def
      by (auto simp: storeConfig_def)
    ultimately show ?thesis unfolding eq by (simp add: quota_wf_def wf0_def)
  qed
qed

section \<open>Construction\<close>

definition configs_valid :: "(string \<rightharpoonup> quota_config) \<Rightarrow> bool" where
  "configs_valid us \<longleftrightarrow>
     (\<forall>u c. us u = Some c \<longrightarrow> validateQuotaConfig c = None \<and> 0 < sint (quotaBytes c))"

lemma load_users_valid:
  assumes "load_users tparse gs xs us = Ret (Inr us')" and "configs_valid us"
  shows "configs_valid us'"
  using assms
proof (induction xs arbitrary: us)
  case (Cons x xs)
  from Cons.prems(1) obtain base where
    rest: "(case newQuotaConfig tparse (tq_QuotaGB x) (tq_Period x) (tq_PeriodStart x)
        (tq_PeriodDays x) base of
          Inl e \<Rightarrow> Ret (Inl (ECause e [''invalid traffic-quota user '', tq_Name x]))
        | Inr None \<Rightarrow> load_users tparse gs xs us
        | Inr (Some c) \<Rightarrow> load_users tparse gs xs (us(tq_Name x \<mapsto> c))) = Ret (Inr us')"
    by (auto split: if_splits option.splits)
  show ?case
  proof (cases "newQuotaConfig tparse (tq_QuotaGB x) (tq_Period x) (tq_PeriodStart x)
      (tq_PeriodDays x) base")
    case (Inr oc)
    show ?thesis
    proof (cases oc)
      case None
      with Inr rest Cons show ?thesis by simp
    next
      case (Some c)
      with Inr have "newQuotaConfig tparse (tq_QuotaGB x) (tq_Period x) (tq_PeriodStart x)
        (tq_PeriodDays x) base = Inr (Some c)" by simp
      from newQuotaConfig_valid [OF this] Cons.prems(2)
      have "configs_valid (us(tq_Name x \<mapsto> c))" by (simp add: configs_valid_def)
      with Inr Some rest Cons.IH show ?thesis by simp
    qed
  qed (use rest in simp)
qed simp

lemma wf_NewQuotaManager:
  assumes "NewQuotaManager tparse groups users heap = Ret (Inr m)"
  shows "quota_wf m"
proof -
  obtain gs us where us: "load_users tparse gs users Map.empty = Ret (Inr us)"
    and m: "m = heap\<lparr>userConfigs := us, activeConns := Map.empty, states := Map.empty,
                     dirtySet := {}, dirtyQueue := []\<rparr>"
    using assms by (auto simp: NewQuotaManager_def split: sum.splits go.splits)
  have "configs_valid us" using load_users_valid [OF us] by (simp add: configs_valid_def)
  then show ?thesis
    by (auto simp: m inv_defs configs_valid_def state_of_def zero_state_def dest: less_asym)
qed

section \<open>The step relation\<close>

text \<open>
  One rule per method. \<open>Alloc\<close> is the router wrapping a new connection: an address that no
  list holds gets a fresh \<open>QuotaConn\<close>. \<open>Tick\<close> is the passage of time. \<open>RestoreState\<close>,
  which brings back a snapshot, is kept apart: \<open>quota_step\<close> adds it to the other methods.
\<close>

inductive core_step :: "quota_manager \<Rightarrow> quota_manager \<Rightarrow> bool" where
  Add: "core_step m (AddBytes u n m)"
| Load: "LoadUsage u b m = Ret m' \<Longrightarrow> core_step m m'"
| Register: "RegisterConn u c m = Ret (m', r) \<Longrightarrow> core_step m m'"
| IO: "core_step m (snd (QuotaConn_io c inner m))"
| PacketIO: "core_step m (snd (QuotaPacketConn_io c inner m))"
| Close: "core_step m (QuotaConn_Close c m)"
| Alloc: "(\<And>l. c \<notin> set (conns (listStore m l))) \<Longrightarrow>
    core_step m (m\<lparr>qconns := (qconns m)(c := q)\<rparr>)"
| Apply: "ApplyConfig tparse user m = Ret (r, m') \<Longrightarrow> core_step m m'"
| Remove: "core_step m (snd (RemoveConfig u m))"
| Reset: "range_order order (userConfigs m) \<Longrightarrow> CheckPeriodReset order t m = Ret (rs, m') \<Longrightarrow>
    core_step m m'"
| Consume: "core_step m (snd (ConsumePendingDeltas m))"
| RestoreDelta: "core_step m (RestorePendingDelta u k d m)"
| ClearDelta: "core_step m (ClearPendingDelta u m)"
| CurrentKey: "CurrentPeriodKey u m = Ret (k, m') \<Longrightarrow> core_step m m'"
| Tick: "core_step m (m\<lparr>now := t\<rparr>)"

inductive quota_step :: "quota_manager \<Rightarrow> quota_manager \<Rightarrow> bool" where
  Core: "core_step m m' \<Longrightarrow> quota_step m m'"
| Restore: "restorable st m \<Longrightarrow> quota_step m (snd (RestoreState tparse st m))"

inductive quota_init :: "quota_manager \<Rightarrow> bool" where
  New: "NewQuotaManager tparse groups users heap = Ret (Inr m) \<Longrightarrow> quota_init m"

lemma wf_qconns:
  assumes "quota_wf m" and "\<And>d l. d \<in> set (conns (listStore m l)) \<Longrightarrow>
    closed (qconns m d) \<Longrightarrow> closed (q d)"
  shows "quota_wf (m\<lparr>qconns := q\<rparr>)"
  using assms by (auto simp: inv_defs)

lemma wf_core_step:
  assumes "quota_wf m" and "core_step m m'"
  shows "quota_wf m'"
  using assms(2,1)
proof (induction rule: core_step.induct)
  case (IO m c inner)
  then show ?case by (auto simp: QuotaConn_io_def wf_AddBytes split: option.splits)
next
  case (PacketIO m c inner)
  then show ?case by (auto simp: QuotaPacketConn_io_def wf_AddBytes split: option.splits)
next
  case (Close m c)
  let ?m = "m\<lparr>qconns := (qconns m)(c := (qconns m c)\<lparr>closeDone := True\<rparr>)\<rparr>"
  have "quota_wf ?m" using Close by (rule wf_qconns) auto
  with Close show ?case
    by (auto simp: QuotaConn_Close_def Let_def wf_removeConn split: option.splits)
next
  case (Alloc c m q)
  then show ?case by (intro wf_qconns) auto
next
  case (Consume m)
  then show ?case by (cases "ConsumePendingDeltas m") (auto intro: wf_ConsumePendingDeltas)
next
  case (Tick m t)
  then show ?case by (auto simp: inv_defs)
qed (auto intro: wf_AddBytes wf_LoadUsage wf_RegisterConn wf_ApplyConfig wf_RemoveConfig
    wf_CheckPeriodReset wf_RestorePendingDelta wf_ClearPendingDelta wf_CurrentPeriodKey)

lemma wf_quota_step:
  assumes "quota_wf m" and "quota_step m m'"
  shows "quota_wf m'"
  using assms by (auto elim: quota_step.cases intro: wf_core_step wf_RestoreState)

interpretation quota: invariant_system quota_init quota_step quota_wf
proof
  show "quota_init s \<Longrightarrow> quota_wf s" for s
    by (auto elim: quota_init.cases intro: wf_NewQuotaManager)
qed (rule wf_quota_step)

end
