(* ===== verification/QuotaSafety.thy ===== *)
theory QuotaSafety
  imports QuotaInvariant
begin

text \<open>
  What the quota manager promises, in every state its methods can reach: no method panics for
  a configured user, a user over the quota is cut off, accounting touches exactly one user,
  a period reset clears exactly the users whose window ended, a removed user leaves nothing
  behind, a flush collects every pending byte, and configurations and snapshots survive being
  exported and read back.
\<close>

section \<open>Reachable managers\<close>

definition demo_user :: TrafficQuotaUser where
  "demo_user = \<lparr>tq_Name = ''alice'', tq_Group = '''', tq_QuotaGB = 1, tq_Period = ''daily'',
                tq_PeriodStart = '''', tq_PeriodDays = 0\<rparr>"

definition demo_config :: quota_config where
  "demo_config = \<lparr>quotaBytes = 2 ^ 30, period = ''daily'', periodStart = zero_time, periodDays = 0\<rparr>"

definition demo_conn :: quota_conn where
  "demo_conn = \<lparr>closed = False, closeDone = False, onBytes = None, onClose = None\<rparr>"

definition demo_manager :: quota_manager where
  "demo_manager =
     \<lparr>userConfigs = [''alice'' \<mapsto> demo_config], activeConns = Map.empty, states = Map.empty, now = 0,
      dirtySet = {}, dirtyQueue = [], listStore = (\<lambda>_. empty_list), nextList = 0,
      qconns = (\<lambda>_. demo_conn), grow = (\<lambda>_ n. n)\<rparr>"

text \<open>The manager a configuration with one user produces; the examples below start from it.\<close>

lemma quota_bytes_1: "quota_bytes 1 = 2 ^ 30"
proof -
  have "\<lfloor>2147483649 / 2 :: rat\<rfloor> = 1073741824" by (rule floor_unique) simp_all
  then show ?thesis by (simp add: quota_bytes_def trunc_i64_def math_Round_def)
qed

lemma demo_new:
  "NewQuotaManager tparse [] [demo_user] (demo_manager\<lparr>userConfigs := Map.empty\<rparr>) =
     Ret (Inr demo_manager)"
  by (simp add: NewQuotaManager_def demo_user_def newQuotaConfig_def quota_bytes_1 zero_config_def
      validateQuotaConfig_def period_consts demo_manager_def demo_config_def)

lemma demo_init: "quota_init demo_manager"
  using demo_new by (rule quota_init.New)

lemma demo_reach: "reach quota_init quota_step demo_manager"
  using demo_init by (rule reach.intros)

lemma demo_wf: "quota_wf demo_manager"
  using demo_reach by (rule quota.reach_inv)

lemma reach_add:
  "reach quota_init quota_step m \<Longrightarrow> reach quota_init quota_step (AddBytes u n m)"
  by (rule reach.intros(2)) (auto intro: quota_step.Core core_step.Add)

lemma reach_register:
  "reach quota_init quota_step m \<Longrightarrow> RegisterConn u c m = Ret (m', r) \<Longrightarrow>
     reach quota_init quota_step m'"
  by (rule reach.intros(2)) (auto intro: quota_step.Core core_step.Register)

lemma reach_wf: "reach quota_init quota_step m \<Longrightarrow> quota_wf m"
  by (rule quota.reach_inv)

section \<open>No panics\<close>

lemma LoadUsage_total: "quota_wf m \<Longrightarrow> \<exists>m'. LoadUsage u b m = Ret m'"
proof (cases "userConfigs m u")
  case (Some c)
  assume "quota_wf m"
  from LoadUsage_eq [OF wf_wf0 [OF this] Some] show ?thesis by blast
qed (simp add: LoadUsage_def)

lemma RegisterConn_total: "quota_wf m \<Longrightarrow> \<exists>m' r. RegisterConn u c m = Ret (m', r)"
proof (cases "userConfigs m u")
  case None
  then show ?thesis by (simp add: RegisterConn_def HasQuota_def)
next
  case (Some cf)
  assume w: "quota_wf m"
  obtain l m1 where "loadOrStoreList u (upd_state u (setPeriodKeyIfEmpty (key_of cf (now m))) m) = (l, m1)"
    by fastforce
  from RegisterConn_eq [OF w Some this] show ?thesis by (simp add: Let_def)
qed

lemma ApplyConfig_total: "quota_wf m \<Longrightarrow> \<exists>r m'. ApplyConfig tparse user m = Ret (r, m')"
proof -
  assume w: "quota_wf m"
  let ?new = "newQuotaConfig tparse (tq_QuotaGB user) (tq_Period user) (tq_PeriodStart user)
    (tq_PeriodDays user) None"
  show ?thesis
  proof (cases "tq_Name user = '''' \<or> (\<forall>c. ?new \<noteq> Inr (Some c))")
    case True
    then show ?thesis
      by (cases ?new) (auto simp: ApplyConfig_def split: option.splits)
  next
    case False
    then obtain c where "tq_Name user \<noteq> ''''" "?new = Inr (Some c)" by blast
    from ApplyConfig_eq [OF wf_wf0 [OF w] this] show ?thesis by blast
  qed
qed

lemma upd_state_cong: "f (state_of m u) = g (state_of m u) \<Longrightarrow> upd_state u f m = upd_state u g m"
  by (simp add: upd_state_def)

lemma CurrentPeriodKey_eq:
  assumes "wf0 m" and "userConfigs m u = Some c"
  shows "CurrentPeriodKey u m =
    Ret (stateKey (setPeriodKeyIfEmpty (key_of c (now m)) (state_of m u)),
         upd_state u (setPeriodKeyIfEmpty (key_of c (now m))) m)"
proof (cases "stateKey (state_of m u) = ''''")
  case True
  with mustPeriodKey_stateFor [OF assms, of "now m"] show ?thesis
    by (simp add: CurrentPeriodKey_def setPeriodKeyIfEmpty_def)
next
  case False
  then have "stateFor u m = upd_state u (setPeriodKeyIfEmpty (key_of c (now m))) m"
    unfolding stateFor_def by (intro upd_state_cong) (simp add: setPeriodKeyIfEmpty_def)
  with False show ?thesis by (simp add: CurrentPeriodKey_def setPeriodKeyIfEmpty_def)
qed



section \<open>Enforcement\<close>

text \<open>
  C1. Enforcement. In every reachable manager, a user whose usage is above the quota is marked
  exceeded, every connection tracked for the user is cut off in both directions (stream and
  packet reads and writes return \<open>ErrQuotaExceeded\<close> and count nothing), and a connection
  registered now is cut off from the start.
\<close>

theorem over_quota_is_cut_off:
  assumes "reach quota_init quota_step m" and "userConfigs m u = Some c"
    and "sint (Usage u m) > sint (quotaBytes c)"
  shows "IsExceeded u m \<and>
    (\<forall>l d inner. activeConns m u = Some l \<and> d \<in> set (conns (listStore m l)) \<longrightarrow>
       QuotaConn_io d inner m = ((0, Some ErrQuotaExceeded), m) \<and>
       QuotaPacketConn_io d inner m = (Some ErrQuotaExceeded, m)) \<and>
    (\<forall>d. \<exists>m' r. RegisterConn u d m = Ret (m', r) \<and> closed (qconns m' d))"
proof -
  note w = reach_wf [OF assms(1)]
  from w assms(2,3) have ex: "exceeded (state_of m u)"
    by (simp add: quota_wf_def flagged_at_def Usage_state_of)
  with w have "closed (qconns m d)"
    if "activeConns m u = Some l" "d \<in> set (conns (listStore m l))" for l d
    using that by (auto simp: quota_wf_def wf0_def enforced_def)
  moreover have "\<exists>m' r. RegisterConn u d m = Ret (m', r) \<and> closed (qconns m' d)" for d
  proof -
    obtain l m1 where
      "loadOrStoreList u (upd_state u (setPeriodKeyIfEmpty (key_of c (now m))) m) = (l, m1)"
      by fastforce
    from RegisterConn_eq [OF w assms(2) this] ex show ?thesis
      by (simp add: Let_def markQuotaExceeded_def)
  qed
  ultimately show ?thesis
    using ex by (simp add: IsExceeded_state_of QuotaConn_io_def QuotaPacketConn_io_def)
qed

text \<open>Alice opens a connection and moves one byte more than the quota through it.\<close>

definition demo_open :: quota_manager where
  "demo_open = (case RegisterConn ''alice'' 7 demo_manager of Panic e \<Rightarrow> demo_manager | Ret (m, r) \<Rightarrow> m)"

definition demo_over :: quota_manager where
  "demo_over = AddBytes ''alice'' (2 ^ 30 + 1) demo_open"

lemma demo_cfg: "userConfigs demo_manager ''alice'' = Some demo_config"
  by (simp add: demo_manager_def)

lemma demo_open_eq:
  "RegisterConn ''alice'' 7 demo_manager = Ret (demo_open, Some (''alice'', 0))"
  "userConfigs demo_open = userConfigs demo_manager" "activeConns demo_open = [''alice'' \<mapsto> 0]"
  "conns (listStore demo_open 0) = [7]"
  "state_of demo_open ''alice'' = zero_state\<lparr>stateKey := key_of demo_config 0\<rparr>"
proof -
  let ?m = "upd_state ''alice'' (setPeriodKeyIfEmpty (key_of demo_config (now demo_manager))) demo_manager"
  have l: "loadOrStoreList ''alice'' ?m =
    (0, ?m\<lparr>activeConns := [''alice'' \<mapsto> 0], listStore := (\<lambda>_. empty_list), nextList := 1\<rparr>)"
    by (auto simp: loadOrStoreList_def demo_manager_def intro!: quota_manager.equality)
  have ex: "\<not> exceeded (state_of demo_manager ''alice'')" "now demo_manager = 0"
    "state_of demo_manager ''alice'' = zero_state"
    by (simp_all add: demo_manager_def state_of_def zero_state_def)
  note R = RegisterConn_eq [OF demo_wf demo_cfg l, of 7, unfolded Let_def, simplified ex, simplified]
  have o: "demo_open =
    ?m\<lparr>activeConns := [''alice'' \<mapsto> 0],
       listStore := (\<lambda>_. empty_list)(0 := cl_add (grow demo_manager) 7 empty_list), nextList := 1\<rparr>"
    unfolding demo_open_def R using ex by simp
  show "RegisterConn ''alice'' 7 demo_manager = Ret (demo_open, Some (''alice'', 0))"
    unfolding o R using ex by simp
  show "userConfigs demo_open = userConfigs demo_manager" "activeConns demo_open = [''alice'' \<mapsto> 0]"
    "conns (listStore demo_open 0) = [7]"
    "state_of demo_open ''alice'' = zero_state\<lparr>stateKey := key_of demo_config 0\<rparr>"
    using ex by (simp_all add: o cl_add_def setPeriodKeyIfEmpty_def zero_state_def)
qed

lemma demo_open_reach: "reach quota_init quota_step demo_open"
  by (rule reach_register [OF demo_reach demo_open_eq(1)])

lemma tripExceeded_fields [simp]:
  "userConfigs (tripExceeded u m) = userConfigs m"
  "activeConns (tripExceeded u m) = activeConns m"
  "listStore (tripExceeded u m) = listStore m"
  "dirtySet (tripExceeded u m) = dirtySet m"
  "now (tripExceeded u m) = now m"
  by (simp_all add: tripExceeded_def Let_def closeAll_eq split: option.split)

lemma state_of_tripExceeded [simp]:
  "state_of (tripExceeded u m) v =
     (if v = u then (state_of m u)\<lparr>exceeded := True\<rparr> else state_of m v)"
  by (auto simp: tripExceeded_def Let_def closeAll_eq intro!: user_state.equality
      split: option.split)

lemma states_tripExceeded: "v \<noteq> u \<Longrightarrow> states (tripExceeded u m) v = states m v"
  by (simp add: tripExceeded_def Let_def closeAll_eq split: option.split)

lemma qconns_tripExceeded:
  "\<forall>l. activeConns m u = Some l \<longrightarrow> d \<notin> set (conns (listStore m l)) \<Longrightarrow>
     qconns (tripExceeded u m) d = qconns m d"
  by (simp add: tripExceeded_def Let_def closeAll_eq split: option.split)

theorem over_quota_is_cut_off_witness:
  "IsExceeded ''alice'' demo_over \<and>
   QuotaConn_io 7 (1500, None) demo_over = ((0, Some ErrQuotaExceeded), demo_over)"
proof -
  have cfg: "userConfigs demo_open ''alice'' = Some demo_config"
    by (simp add: demo_open_eq demo_cfg)
  have over: "sint (usage (state_of demo_open ''alice'') + word_of_int (2 ^ 30 + 1)) >
      sint (quotaBytes demo_config)"
    by (simp add: demo_open_eq zero_state_def demo_config_def)
  note A = AddBytes_eq [OF wf_wf0 [OF reach_wf [OF demo_open_reach]] cfg, of "2 ^ 30 + 1",
      unfolded Let_def if_P [OF over], folded demo_over_def, simplified]
  have "sint (Usage ''alice'' demo_over) > sint (quotaBytes demo_config)"
    using over by (simp add: Usage_state_of A)
  moreover have "userConfigs demo_over ''alice'' = Some demo_config"
    "activeConns demo_over ''alice'' = Some 0" "7 \<in> set (conns (listStore demo_over 0))"
    using cfg by (simp_all add: A demo_open_eq)
  moreover have "reach quota_init quota_step demo_over"
    unfolding demo_over_def using demo_open_reach by (rule reach_add)
  ultimately show ?thesis using over_quota_is_cut_off by blast
qed

section \<open>Accounting\<close>

text \<open>
  C5. Accounting. \<open>AddBytes\<close> adds exactly the transferred bytes to the usage and to the
  pending delta of its user, keeps or fills in the period key, queues the user for the next
  flush, and marks the user exceeded exactly when the new total passes the quota or the mark
  was already set. Nothing of another user changes, and no connection outside the user's list
  is cut off. The counter does not overflow an \<open>int64\<close>.
\<close>

theorem AddBytes_accounting:
  assumes "reach quota_init quota_step m" and c: "userConfigs m u = Some c"
    and "0 < n" and "0 \<le> sint (Usage u m)" and "sint (Usage u m) + n < 2 ^ 63"
  shows "let m' = AddBytes u n m in
    sint (Usage u m') = sint (Usage u m) + n \<and>
    pendingDelta (state_of m' u) = pendingDelta (state_of m u) + word_of_int n \<and>
    stateKey (state_of m' u) =
      (if stateKey (state_of m u) = '''' then key_of c (now m) else stateKey (state_of m u)) \<and>
    u \<in> dirtySet m' \<and>
    (IsExceeded u m' \<longleftrightarrow> IsExceeded u m \<or> sint (Usage u m) + n > sint (quotaBytes c)) \<and>
    (\<forall>v. v \<noteq> u \<longrightarrow> states m' v = states m v) \<and>
    (\<forall>d. (\<forall>l. activeConns m u = Some l \<longrightarrow> d \<notin> set (conns (listStore m l))) \<longrightarrow>
         qconns m' d = qconns m d) \<and>
    userConfigs m' = userConfigs m \<and> activeConns m' = activeConns m \<and> listStore m' = listStore m"
proof -
  have total: "sint (usage (state_of m u) + word_of_int n) = sint (Usage u m) + n"
    using assms(3-5) unfolding Usage_state_of by (intro sint_i64_add) simp_all
  note A = AddBytes_eq [OF wf_wf0 [OF reach_wf [OF assms(1)]] c assms(3), unfolded Let_def total]
  show ?thesis
    unfolding A Let_def
    using total
    by (auto simp: Usage_state_of IsExceeded_state_of setPeriodKeyIfEmpty_def
        states_tripExceeded qconns_tripExceeded)
qed

theorem AddBytes_accounting_witness:
  "sint (Usage ''alice'' (AddBytes ''alice'' 1500 demo_manager)) = 1500 \<and>
   \<not> IsExceeded ''alice'' (AddBytes ''alice'' 1500 demo_manager)"
proof -
  have "Usage ''alice'' demo_manager = 0" "\<not> IsExceeded ''alice'' demo_manager"
    by (simp_all add: Usage_def IsExceeded_def demo_manager_def)
  with AddBytes_accounting [OF demo_reach demo_cfg, of 1500] show ?thesis
    by (simp add: Let_def demo_config_def)
qed

section \<open>Period resets\<close>

lemma set_resets_of:
  "r \<in> set (resets_of us t m) \<longleftrightarrow>
     (\<exists>u c s. u \<in> set us \<and> userConfigs m u = Some c \<and> states m u = Some s \<and> rolls_over c t s \<and>
        r = \<lparr>pr_User = u, pr_PreviousKey = stateKey s, pr_CurrentPeriod = key_of c t\<rparr>)"
proof -
  have "r \<in> set (resets_of us t m) \<longleftrightarrow> (\<exists>u \<in> set us. r \<in> set (resets_of [u] t m))"
    by (simp add: resets_of_def)
  moreover have "r \<in> set (resets_of [u] t m) \<longleftrightarrow>
      (\<exists>c s. userConfigs m u = Some c \<and> states m u = Some s \<and> rolls_over c t s \<and>
        r = \<lparr>pr_User = u, pr_PreviousKey = stateKey s, pr_CurrentPeriod = key_of c t\<rparr>)" for u
    by (cases "userConfigs m u"; cases "states m u") (auto simp: resets_of_def)
  ultimately show ?thesis by blast
qed

lemma distinct_resets_of:
  assumes "distinct us"
  shows "distinct (map pr_User (resets_of us t m))"
  using assms
proof (induction us)
  case (Cons u us)
  have "pr_User r \<noteq> u" if "r \<in> set (resets_of us t m)" for r
    using that Cons.prems by (auto simp: set_resets_of)
  with Cons show ?case
    by (auto simp: resets_of_def split: option.splits)
qed (simp add: resets_of_def)

text \<open>
  C8. Period resets. Whatever order the map of users is visited in, \<open>CheckPeriodReset\<close>
  reports each user whose accounting window has ended exactly once, with the old and the new
  period key, and no other user. Afterwards every user with a state carries the key of the
  current window; usage, pending delta and the exceeded mark are cleared for the reported
  users and unchanged for the others. Configurations and connection lists do not change.
\<close>

theorem CheckPeriodReset_correct:
  assumes "reach quota_init quota_step m" and "range_order order (userConfigs m)"
  shows "\<exists>rs m'. CheckPeriodReset order t m = Ret (rs, m') \<and>
    distinct (map pr_User rs) \<and>
    (\<forall>r. r \<in> set rs \<longleftrightarrow>
       (\<exists>u c s. userConfigs m u = Some c \<and> states m u = Some s \<and> rolls_over c t s \<and>
          r = \<lparr>pr_User = u, pr_PreviousKey = stateKey s, pr_CurrentPeriod = key_of c t\<rparr>)) \<and>
    (\<forall>u c s. userConfigs m u = Some c \<and> states m u = Some s \<longrightarrow>
       states m' u = Some (if rolls_over c t s
         then \<lparr>usage = 0, pendingDelta = 0, exceeded = False, stateKey = key_of c t\<rparr>
         else s\<lparr>stateKey := key_of c t\<rparr>)) \<and>
    (\<forall>u. states m u = None \<longrightarrow> states m' u = None) \<and>
    userConfigs m' = userConfigs m \<and> activeConns m' = activeConns m \<and>
    listStore m' = listStore m \<and> qconns m' = qconns m"
proof -
  have ord: "u \<in> set order \<longleftrightarrow> userConfigs m u \<noteq> None" for u
    using assms(2) by (auto simp: range_order_def)
  have dist: "distinct order" using assms(2) by (simp add: range_order_def)
  have "\<forall>r. r \<in> set (resets_of order t m) \<longleftrightarrow>
       (\<exists>u c s. userConfigs m u = Some c \<and> states m u = Some s \<and> rolls_over c t s \<and>
          r = \<lparr>pr_User = u, pr_PreviousKey = stateKey s, pr_CurrentPeriod = key_of c t\<rparr>)"
    unfolding set_resets_of ord by auto
  moreover have "\<forall>u c s. userConfigs m u = Some c \<and> states m u = Some s \<longrightarrow>
       states (reset_map order t m) u = Some (reset_state c t s)"
    by (auto simp: reset_map_def ord)
  moreover have "\<forall>u. states m u = None \<longrightarrow> states (reset_map order t m) u = None"
    by (auto simp: reset_map_def split: option.split)
  moreover have "userConfigs (reset_map order t m) = userConfigs m"
    "activeConns (reset_map order t m) = activeConns m"
    "listStore (reset_map order t m) = listStore m" "qconns (reset_map order t m) = qconns m"
    by (simp_all add: reset_map_def)
  ultimately show ?thesis
    using distinct_resets_of [OF dist] CheckPeriodReset_eq [OF reach_wf [OF assms(1)] assms(2)]
    unfolding reset_state_def by blast
qed

lemma demo_config_valid: "validateQuotaConfig demo_config = None"
  by (simp add: validateQuotaConfig_def demo_config_def period_consts)

lemma demo_open_state:
  "states demo_open ''alice'' = Some (zero_state\<lparr>stateKey := key_of demo_config 0\<rparr>)"
  using demo_open_eq(5) key_of_nonempty [OF demo_config_valid, of 0]
  by (auto simp: state_of_def zero_state_def split: option.splits)

lemma demo_rolls_over:
  "rolls_over demo_config day_ns (zero_state\<lparr>stateKey := key_of demo_config 0\<rparr>)"
proof -
  have "period demo_config = PeriodDaily" by (simp add: demo_config_def period_consts)
  moreover have "day_of 0 \<noteq> day_of day_ns" by (simp add: day_of_def day_ns_def)
  ultimately have "key_of demo_config 0 \<noteq> key_of demo_config day_ns"
    by (simp add: key_of_def periodKey_daily format_date_inj)
  then show ?thesis using key_of_nonempty [OF demo_config_valid] by (simp add: rolls_over_def)
qed

theorem CheckPeriodReset_correct_witness:
  "range_order [''alice''] (userConfigs demo_open) \<and>
   (\<exists>rs m'. CheckPeriodReset [''alice''] day_ns demo_open = Ret (rs, m') \<and>
      (\<exists>r. r \<in> set rs \<and> pr_User r = ''alice'') \<and> Usage ''alice'' m' = 0)"
proof -
  have cfg: "userConfigs demo_open ''alice'' = Some demo_config"
    by (simp add: demo_open_eq demo_cfg)
  have ord: "range_order [''alice''] (userConfigs demo_open)"
    by (simp add: range_order_def demo_open_eq demo_manager_def)
  from CheckPeriodReset_correct [OF demo_open_reach ord, of day_ns] obtain rs m' where
    eq: "CheckPeriodReset [''alice''] day_ns demo_open = Ret (rs, m')" and
    rs: "\<forall>r. r \<in> set rs \<longleftrightarrow>
       (\<exists>u c s. userConfigs demo_open u = Some c \<and> states demo_open u = Some s \<and>
          rolls_over c day_ns s \<and>
          r = \<lparr>pr_User = u, pr_PreviousKey = stateKey s, pr_CurrentPeriod = key_of c day_ns\<rparr>)" and
    st: "states m' ''alice'' =
      Some \<lparr>usage = 0, pendingDelta = 0, exceeded = False, stateKey = key_of demo_config day_ns\<rparr>"
    using cfg demo_open_state demo_rolls_over by fastforce
  from rs cfg demo_open_state demo_rolls_over have "\<exists>r. r \<in> set rs \<and> pr_User r = ''alice''"
    by fastforce
  with eq st ord show ?thesis by (auto simp: Usage_def)
qed

section \<open>Removing a user\<close>

definition tracked :: "string \<Rightarrow> quota_manager \<Rightarrow> conn_id set" where
  "tracked u m = (case activeConns m u of None \<Rightarrow> {} | Some l \<Rightarrow> set (conns (listStore m l)))"

lemma RemoveConfig_fields:
  fixes m :: quota_manager
  assumes "u \<noteq> ''''"
  defines "m' \<equiv> snd (RemoveConfig u m)"
  shows "RemoveConfig u m = (None, m')"
    and "userConfigs m' = (userConfigs m)(u := None)" and "states m' = (states m)(u := None)"
    and "activeConns m' = (activeConns m)(u := None)"
    and "listStore m' = (case activeConns m u of None \<Rightarrow> listStore m
           | Some l \<Rightarrow> (listStore m)(l := empty_list))"
    and "qconns m' = (\<lambda>d. if d \<in> tracked u m then (qconns m d)\<lparr>closed := True\<rparr> else qconns m d)"
  using assms(1)
  by (auto simp: m'_def RemoveConfig_def deleteConfig_def Let_def closeAllAndClear_eq tracked_def
      cong: if_cong split: option.split)

text \<open>
  C10. Removal. After \<open>RemoveConfig\<close> the user has no configuration, no usage and no connection
  list, every connection that was tracked for the user is cut off, and closing such a
  connection later changes no list: its \<open>onClose\<close> finds the emptied one. Other users keep
  their configuration, state, list, and connections.
\<close>

theorem RemoveConfig_correct:
  assumes "reach quota_init quota_step m" and "u \<noteq> ''''"
  shows "\<exists>m'. RemoveConfig u m = (None, m') \<and>
    \<not> HasQuota u m' \<and> Status u m' = None \<and> Usage u m' = 0 \<and> activeConns m' u = None \<and>
    (\<forall>l d. activeConns m u = Some l \<and> d \<in> set (conns (listStore m l)) \<longrightarrow>
       closed (qconns m' d) \<and> listStore (removeConn l d m') = listStore m') \<and>
    (\<forall>v. v \<noteq> u \<longrightarrow> userConfigs m' v = userConfigs m v \<and> states m' v = states m v \<and>
       activeConns m' v = activeConns m v \<and>
       (\<forall>l. activeConns m v = Some l \<longrightarrow> listStore m' l = listStore m l)) \<and>
    (\<forall>d. (\<forall>l. activeConns m u = Some l \<longrightarrow> d \<notin> set (conns (listStore m l))) \<longrightarrow>
       qconns m' d = qconns m d)"
proof (intro exI conjI)
  note F = RemoveConfig_fields [OF assms(2), of m]
  from reach_wf [OF assms(1)] have l: "lists_ok m" by (simp add: quota_wf_def wf0_def)
  let ?m = "snd (RemoveConfig u m)"
  show "RemoveConfig u m = (None, ?m)" by (rule F(1))
  show "\<not> HasQuota u ?m" "Status u ?m = None" "Usage u ?m = 0" "activeConns ?m u = None"
    by (simp_all add: F(2-) HasQuota_def Status_def Usage_def)
  have "closed (qconns ?m d)" "listStore (removeConn l d ?m) = listStore ?m"
    if "activeConns m u = Some l" "d \<in> set (conns (listStore m l))" for l d
  proof -
    from that show "closed (qconns ?m d)" by (simp add: F(2-) tracked_def)
    have "cl_remove d (listStore ?m l) = listStore ?m l"
      using that by (intro cl_remove_absent) (simp add: F(2-))
    then show "listStore (removeConn l d ?m) = listStore ?m" by (simp add: removeConn_def)
  qed
  then show "\<forall>l d. activeConns m u = Some l \<and> d \<in> set (conns (listStore m l)) \<longrightarrow>
       closed (qconns ?m d) \<and> listStore (removeConn l d ?m) = listStore ?m" by blast
  show "\<forall>v. v \<noteq> u \<longrightarrow> userConfigs ?m v = userConfigs m v \<and> states ?m v = states m v \<and>
       activeConns ?m v = activeConns m v \<and>
       (\<forall>l. activeConns m v = Some l \<longrightarrow> listStore ?m l = listStore m l)"
    using lists_okD(2) [OF l] by (auto simp: F(2-) split: option.split)
  show "\<forall>d. (\<forall>l. activeConns m u = Some l \<longrightarrow> d \<notin> set (conns (listStore m l))) \<longrightarrow>
       qconns ?m d = qconns m d"
    by (auto simp: F(2-) tracked_def split: option.splits)
qed

theorem RemoveConfig_correct_witness:
  "\<exists>m'. RemoveConfig ''alice'' demo_open = (None, m') \<and> \<not> HasQuota ''alice'' m' \<and>
     closed (qconns m' 7)"
proof -
  from RemoveConfig_correct [OF demo_open_reach, of "''alice''"] obtain m' where
    m': "RemoveConfig ''alice'' demo_open = (None, m')" "\<not> HasQuota ''alice'' m'" and
    cut_off: "\<forall>l d. activeConns demo_open ''alice'' = Some l \<and> d \<in> set (conns (listStore demo_open l)) \<longrightarrow>
       closed (qconns m' d) \<and> listStore (removeConn l d m') = listStore m'"
    by auto
  have "activeConns demo_open ''alice'' = Some 0 \<and> 7 \<in> set (conns (listStore demo_open 0))"
    by (simp add: demo_open_eq)
  with cut_off have "closed (qconns m' 7)" by blast
  with m' show ?thesis by blast
qed

section \<open>Pending deltas\<close>

definition deltas_of :: "string list \<Rightarrow> quota_manager \<Rightarrow> pending_delta list" where
  "deltas_of us m =
     concat (map (\<lambda>u. case states m u of
         None \<Rightarrow> []
       | Some s \<Rightarrow> if pendingDelta s = 0 then []
                   else [\<lparr>pd_User = u, pd_PeriodKey = stateKey s, pd_Delta = pendingDelta s\<rparr>]) us)"

definition drained :: "string set \<Rightarrow> quota_manager \<Rightarrow> quota_manager" where
  "drained U m =
     m\<lparr>states := (\<lambda>u. if u \<in> U then map_option (\<lambda>s. s\<lparr>pendingDelta := 0\<rparr>) (states m u)
                        else states m u)\<rparr>"

lemma deltas_of_upd: "u \<notin> set us \<Longrightarrow> deltas_of us (upd_state u f m) = deltas_of us m"
  unfolding deltas_of_def by (intro arg_cong [where f = concat] map_cong) auto

lemma drained_upd:
  "states m u = Some s \<Longrightarrow>
     drained U (upd_state u (\<lambda>s. s\<lparr>pendingDelta := 0\<rparr>) m) = drained (insert u U) m"
  by (auto simp: drained_def upd_state_def state_of_def fun_eq_iff intro!: quota_manager.equality)

lemma drain_users_eq:
  "distinct us \<Longrightarrow> drain_users us m = (deltas_of us m, drained (set us) m)"
proof (induction us arbitrary: m)
  case Nil
  then show ?case by (simp add: deltas_of_def drained_def)
next
  case (Cons u us)
  show ?case
  proof (cases "states m u")
    case None
    then have "drained (insert u (set us)) m = drained (set us) m"
      by (auto simp: drained_def fun_eq_iff intro!: quota_manager.equality)
    with None Cons show ?thesis by (simp add: deltas_of_def)
  next
    case (Some s)
    have "deltas_of (u # us) m = deltas_of [u] m @ deltas_of us m"
      by (simp add: deltas_of_def)
    moreover have "deltas_of [u] m = (if pendingDelta s = 0 then []
        else [\<lparr>pd_User = u, pd_PeriodKey = stateKey s, pd_Delta = pendingDelta s\<rparr>])"
      using Some by (simp add: deltas_of_def)
    ultimately show ?thesis
      using Cons Some drained_upd [OF Some] deltas_of_upd [of u us] by simp
  qed
qed

lemma set_deltas_of:
  "d \<in> set (deltas_of us m) \<longleftrightarrow>
     (\<exists>u s. u \<in> set us \<and> states m u = Some s \<and> pendingDelta s \<noteq> 0 \<and>
        d = \<lparr>pd_User = u, pd_PeriodKey = stateKey s, pd_Delta = pendingDelta s\<rparr>)"
proof -
  have "d \<in> set (deltas_of us m) \<longleftrightarrow> (\<exists>u \<in> set us. d \<in> set (deltas_of [u] m))"
    by (simp add: deltas_of_def)
  moreover have "d \<in> set (deltas_of [u] m) \<longleftrightarrow>
      (\<exists>s. states m u = Some s \<and> pendingDelta s \<noteq> 0 \<and>
        d = \<lparr>pd_User = u, pd_PeriodKey = stateKey s, pd_Delta = pendingDelta s\<rparr>)" for u
    by (cases "states m u") (auto simp: deltas_of_def)
  ultimately show ?thesis by blast
qed

lemma distinct_deltas_of: "distinct us \<Longrightarrow> distinct (map pd_User (deltas_of us m))"
proof (induction us)
  case (Cons u us)
  have "pd_User d \<noteq> u" if "d \<in> set (deltas_of us m)" for d
    using that Cons.prems by (auto simp: set_deltas_of)
  with Cons show ?case by (auto simp: deltas_of_def split: option.splits)
qed (simp add: deltas_of_def)

lemma ConsumePendingDeltas_eq:
  assumes "dirty_ok m"
  shows "ConsumePendingDeltas m =
    (deltas_of (dirtyQueue m) m, (drained (dirtySet m) m)\<lparr>dirtyQueue := [], dirtySet := {}\<rparr>)"
  using assms unfolding ConsumePendingDeltas_def dirty_ok_def
  by (simp add: drain_users_eq)
     (auto simp: deltas_of_def drained_def intro!: quota_manager.equality)

lemma state_of_drained:
  "state_of (drained U m) u =
     (if u \<in> U then (state_of m u)\<lparr>pendingDelta := 0\<rparr> else state_of m u)"
  by (auto simp: drained_def state_of_def zero_state_def split: option.split)

text \<open>Every user with unflushed bytes is queued.\<close>

definition pending_ok :: "quota_manager \<Rightarrow> bool" where
  "pending_ok m \<longleftrightarrow> (\<forall>u. pendingDelta (state_of m u) \<noteq> 0 \<longrightarrow> u \<in> dirtySet m)"

lemma pending_upd:
  "pending_ok m \<Longrightarrow> pendingDelta (f (state_of m u)) \<noteq> 0 \<Longrightarrow> u \<in> dirtySet m \<Longrightarrow>
     pending_ok (upd_state u f m)"
  by (auto simp: pending_ok_def)

lemma pending_upd_same:
  "pending_ok m \<Longrightarrow> pendingDelta (f (state_of m u)) = pendingDelta (state_of m u) \<Longrightarrow>
     pending_ok (upd_state u f m)"
  by (auto simp: pending_ok_def)

lemma pending_trip: "pending_ok m \<Longrightarrow> pending_ok (tripExceeded u m)"
  by (auto simp: pending_ok_def)

lemma pending_AddBytes:
  assumes "wf0 m" and "pending_ok m"
  shows "pending_ok (AddBytes u n m)"
proof (cases "0 < n \<and> userConfigs m u \<noteq> None")
  case True
  then obtain c where "userConfigs m u = Some c" "0 < n" by blast
  from AddBytes_eq [OF assms(1) this] assms(2) show ?thesis
    by (auto simp: Let_def pending_ok_def)
qed (use assms in \<open>auto simp: AddBytes_def\<close>)

lemma pending_LoadUsage:
  assumes "wf0 m" and "pending_ok m" and "LoadUsage u b m = Ret m'"
  shows "pending_ok m'"
proof (cases "userConfigs m u")
  case (Some c)
  from LoadUsage_eq [OF assms(1) this] assms(2,3) show ?thesis
    by (auto simp: Let_def intro!: pending_trip pending_upd_same)
qed (use assms in \<open>simp add: LoadUsage_def\<close>)

lemma pending_ApplyConfig:
  assumes "wf0 m" and "pending_ok m" and "ApplyConfig tparse user m = Ret (r, m')"
  shows "pending_ok m'"
proof (cases "m' = m")
  case False
  let ?new = "newQuotaConfig tparse (tq_QuotaGB user) (tq_Period user) (tq_PeriodStart user)
    (tq_PeriodDays user) None"
  from False assms(3) obtain c where "tq_Name user \<noteq> ''''" "?new = Inr (Some c)"
    by (cases ?new) (auto simp: ApplyConfig_def split: if_splits option.splits)
  from ApplyConfig_eq [OF assms(1) this] assms(3)
  have eq: "m' = (let u = tq_Name user;
         m' = upd_state u (setPeriodKeyIfEmpty (key_of c (now m))) (storeConfig u c m)
     in if sint (usage (state_of m u)) > sint (quotaBytes c) then tripExceeded u m'
        else upd_state u (\<lambda>s. s\<lparr>exceeded := False\<rparr>) m')" by simp
  have "pending_ok (storeConfig (tq_Name user) c m)"
    using assms(2) by (simp add: pending_ok_def storeConfig_def)
  then show ?thesis unfolding eq Let_def by (auto intro!: pending_trip pending_upd_same)
qed (use assms in simp)

lemma pending_RegisterConn:
  assumes "quota_wf m" and "pending_ok m" and "RegisterConn u c m = Ret (m', r)"
  shows "pending_ok m'"
proof (cases "userConfigs m u")
  case (Some cf)
  let ?m = "upd_state u (setPeriodKeyIfEmpty (key_of cf (now m))) m"
  obtain l m1 where l: "loadOrStoreList u ?m = (l, m1)" by fastforce
  have "pending_ok ?m" using assms(2) by (intro pending_upd_same) simp_all
  then have "pending_ok m1"
    using l by (auto simp: loadOrStoreList_def pending_ok_def split: option.splits)
  moreover have "m' = (let m2 = m1\<lparr>listStore := (listStore m1)(l := cl_add (grow m1) c (listStore m1 l))\<rparr>
     in if exceeded (state_of m u) then markQuotaExceeded c m2 else m2)"
    using RegisterConn_eq [OF assms(1) Some l] assms(3) by (simp add: Let_def)
  ultimately show ?thesis by (auto simp: pending_ok_def Let_def markQuotaExceeded_def)
qed (use assms in \<open>simp add: RegisterConn_def HasQuota_def\<close>)

lemma pending_core_step:
  assumes "quota_wf m" and "pending_ok m" and "core_step m m'"
  shows "pending_ok m'"
  using assms(3,1,2)
proof (induction rule: core_step.induct)
  case (IO m c inner)
  then show ?case by (auto simp: QuotaConn_io_def intro: pending_AddBytes wf_wf0 split: option.splits)
next
  case (PacketIO m c inner)
  then show ?case
    by (auto simp: QuotaPacketConn_io_def intro: pending_AddBytes wf_wf0 split: option.splits)
next
  case (Remove m u)
  then show ?case
    by (cases "u = ''''")
       (auto simp: RemoveConfig_def deleteConfig_def closeAllAndClear_eq Let_def pending_ok_def
         state_of_def zero_state_def split: option.splits if_splits)
next
  case (Reset order m t rs m')
  then have m': "m' = reset_map order t m" by (simp add: CheckPeriodReset_eq)
  have "dom_ok m" using Reset by (simp add: quota_wf_def wf0_def)
  from state_of_reset_map [OF this] Reset.prems(2) show ?case
    by (auto simp: m' pending_ok_def reset_state_def split: if_splits option.splits)
       (auto simp: reset_map_def)
next
  case (Consume m)
  then have "dirty_ok m" by (simp add: quota_wf_def wf0_def)
  with Consume show ?case
    by (auto simp: ConsumePendingDeltas_eq pending_ok_def state_of_drained)
next
  case (RestoreDelta m u k d)
  then show ?case by (auto simp: RestorePendingDelta_def Let_def pending_ok_def stateFor_def)
next
  case (ClearDelta m u)
  then show ?case by (auto simp: ClearPendingDelta_def pending_ok_def split: option.splits)
next
  case (CurrentKey u m k m')
  then show ?case
    by (auto simp: CurrentPeriodKey_def Let_def pending_ok_def stateFor_def
        split: if_splits go.splits)
next
  case (Close m c)
  then show ?case
    by (auto simp: QuotaConn_Close_def removeConn_def Let_def pending_ok_def split: option.splits)
next
  case (Alloc c m q)
  then show ?case by (simp add: pending_ok_def)
next
  case (Tick m t)
  then show ?case by (simp add: pending_ok_def)
qed (auto intro: pending_AddBytes pending_LoadUsage pending_RegisterConn pending_ApplyConfig wf_wf0)

lemma drained_dirtySet [simp]: "dirtySet (drained U m) = dirtySet m"
  by (simp add: drained_def)

interpretation pending: invariant_system quota_init core_step "\<lambda>m. quota_wf m \<and> pending_ok m"
proof
  show "quota_wf m \<and> pending_ok m" if "quota_init m" for m
    using that
  proof (cases rule: quota_init.cases)
    case (New tparse groups users heap)
    then have "pending_ok m"
      by (auto simp: NewQuotaManager_def pending_ok_def state_of_def zero_state_def
          split: sum.splits go.splits)
    with New show ?thesis by (auto intro: wf_NewQuotaManager)
  qed
qed (auto intro: wf_core_step pending_core_step)

text \<open>
  Flushing misses nothing. In every manager reached without restoring a snapshot,
  \<open>ConsumePendingDeltas\<close> returns one entry for each user with unflushed bytes, with exactly
  that user's bytes and period key, and none for anybody else; afterwards no user has
  unflushed bytes, the queue is empty, and usage, marks and keys are unchanged.
\<close>

theorem ConsumePendingDeltas_complete:
  assumes "reach quota_init core_step m"
  shows "\<exists>ps m'. ConsumePendingDeltas m = (ps, m') \<and>
    distinct (map pd_User ps) \<and>
    (\<forall>d. d \<in> set ps \<longleftrightarrow>
       (\<exists>u s. states m u = Some s \<and> pendingDelta s \<noteq> 0 \<and>
          d = \<lparr>pd_User = u, pd_PeriodKey = stateKey s, pd_Delta = pendingDelta s\<rparr>)) \<and>
    (\<forall>u. state_of m' u = (state_of m u)\<lparr>pendingDelta := 0\<rparr>) \<and>
    dirtyQueue m' = [] \<and> dirtySet m' = {} \<and> userConfigs m' = userConfigs m"
proof -
  from pending.reach_inv [OF assms] have d: "dirty_ok m" and p: "pending_ok m"
    by (simp_all add: quota_wf_def wf0_def)
  let ?m = "(drained (dirtySet m) m)\<lparr>dirtyQueue := [], dirtySet := {}\<rparr>"
  have "\<forall>d. d \<in> set (deltas_of (dirtyQueue m) m) \<longleftrightarrow>
       (\<exists>u s. states m u = Some s \<and> pendingDelta s \<noteq> 0 \<and>
          d = \<lparr>pd_User = u, pd_PeriodKey = stateKey s, pd_Delta = pendingDelta s\<rparr>)"
  proof -
    have "u \<in> set (dirtyQueue m)" if "states m u = Some s" "pendingDelta s \<noteq> 0" for u s
    proof -
      from that have "pendingDelta (state_of m u) \<noteq> 0" by (simp add: state_of_def)
      with d p show ?thesis by (simp add: dirty_ok_def pending_ok_def)
    qed
    then show ?thesis unfolding set_deltas_of by blast
  qed
  moreover have "\<forall>u. state_of ?m u = (state_of m u)\<lparr>pendingDelta := 0\<rparr>"
    using p by (auto simp: state_of_drained pending_ok_def intro!: user_state.equality)
  moreover have "distinct (map pd_User (deltas_of (dirtyQueue m) m))"
    using d by (intro distinct_deltas_of) (simp add: dirty_ok_def)
  moreover have "userConfigs ?m = userConfigs m" "dirtyQueue ?m = []" "dirtySet ?m = {}"
    by (simp_all add: drained_def)
  ultimately show ?thesis using ConsumePendingDeltas_eq [OF d] by blast
qed

theorem ConsumePendingDeltas_complete_witness:
  "\<exists>ps m'. ConsumePendingDeltas (AddBytes ''alice'' 1500 demo_manager) = (ps, m') \<and>
     (\<exists>d. d \<in> set ps \<and> pd_User d = ''alice'' \<and> pd_Delta d = 1500) \<and>
     pendingDelta (state_of m' ''alice'') = 0"
proof -
  let ?m = "AddBytes ''alice'' 1500 demo_manager"
  have r: "reach quota_init core_step ?m"
    by (rule reach_step [of _ _ demo_manager]) (auto intro: reach_init demo_init core_step.Add)
  have "\<exists>s. states ?m ''alice'' = Some s \<and> pendingDelta s = 1500"
    using AddBytes_eq [OF wf_wf0 [OF demo_wf] demo_cfg, of 1500]
    by (auto simp: demo_manager_def state_of_def zero_state_def demo_config_def)
  then obtain s where s: "states ?m ''alice'' = Some s" "pendingDelta s = 1500" by blast
  from ConsumePendingDeltas_complete [OF r] obtain ps m' where
    eq: "ConsumePendingDeltas ?m = (ps, m')" and
    ps: "\<forall>d. d \<in> set ps \<longleftrightarrow>
       (\<exists>u s. states ?m u = Some s \<and> pendingDelta s \<noteq> 0 \<and>
          d = \<lparr>pd_User = u, pd_PeriodKey = stateKey s, pd_Delta = pendingDelta s\<rparr>)" and
    st: "\<forall>u. state_of m' u = (state_of ?m u)\<lparr>pendingDelta := 0\<rparr>"
    by (elim exE conjE) (rule that)
  from ps s have "\<lparr>pd_User = ''alice'', pd_PeriodKey = stateKey s, pd_Delta = 1500\<rparr> \<in> set ps"
    by fastforce
  then have "\<exists>d. d \<in> set ps \<and> pd_User d = ''alice'' \<and> pd_Delta d = 1500" by fastforce
  moreover have "pendingDelta (state_of m' ''alice'') = 0" using st by simp
  ultimately show ?thesis using eq by blast
qed

section \<open>Configurations and snapshots read back\<close>

text \<open>
  The configurations whose option form is exact: a byte count below \<open>2^53\<close>, which a
  \<open>float64\<close> holds exactly, no negative number of days, and a start that RFC 3339 prints and
  reads back.
\<close>

definition exportable :: "time_parser \<Rightarrow> (gotime \<Rightarrow> string) \<Rightarrow> quota_config \<Rightarrow> bool" where
  "exportable tparse fmt_time c \<longleftrightarrow>
     sint (quotaBytes c) < 2 ^ 53 \<and> 0 \<le> periodDays c \<and>
     (\<not> IsZero (periodStart c) \<longrightarrow>
        fmt_time (periodStart c) \<noteq> '''' \<and>
        tparse RFC3339 (fmt_time (periodStart c)) = Some (periodStart c))"

lemma quota_bytes_roundtrip:
  assumes "0 < x" and "x < 2 ^ 53"
  shows "quota_bytes (of_int (f64_of_int x) / 2 ^ 30) = word_of_int x"
    and "0 < (of_int (f64_of_int x) / 2 ^ 30 :: rat)"
  using assms
  by (simp_all add: quota_bytes_def trunc_i64_exact f64_of_int_exact math_Round_of_int)

lemma option_roundtrip:
  fixes u :: string
  assumes "validateQuotaConfig c = None" and "0 < sint (quotaBytes c)"
    and "exportable tparse fmt_time c"
  defines "opt \<equiv> quotaConfigToOption fmt_time u c"
  shows "newQuotaConfig tparse (tq_QuotaGB opt) (tq_Period opt) (tq_PeriodStart opt)
    (tq_PeriodDays opt) None = Inr (Some c)"
proof -
  have ex: "sint (quotaBytes c) < 2 ^ 53" "0 \<le> periodDays c" using assms(3) by (simp_all add: exportable_def)
  have gb: "tq_QuotaGB opt > 0" "quota_bytes (tq_QuotaGB opt) = quotaBytes c"
    unfolding opt_def quotaConfigToOption_def TrafficQuotaUser.simps
    using quota_bytes_roundtrip [OF assms(2) ex(1)] by simp_all
  have prd: "period c \<noteq> ''''"
    using assms(1) by (auto simp: validateQuotaConfig_def period_consts split: if_splits)
  have "(if tq_PeriodStart opt \<noteq> '''' then
      (case parsePeriodStart tparse (tq_PeriodStart opt) of Inl e \<Rightarrow> Inl e
       | Inr t \<Rightarrow> Inr (r\<lparr>periodStart := t\<rparr>)) else Inr r) = Inr (r\<lparr>periodStart := periodStart c\<rparr>)"
    if "periodStart r = zero_time" for r :: quota_config
    using assms(3) that
    by (auto simp: opt_def quotaConfigToOption_def formatPeriodStart_def exportable_def
        parsePeriodStart_def IsZero_def intro!: quota_config.equality)
  note start = this
  have days: "tq_PeriodDays opt = periodDays c" "tq_Period opt = period c"
    by (simp_all add: opt_def quotaConfigToOption_def)
  have c: "\<lparr>quotaBytes = quotaBytes c, period = period c, periodStart = periodStart c,
      periodDays = d\<rparr> = c" if "d = periodDays c" for d
    using that by (cases c) simp
  show ?thesis
    unfolding newQuotaConfig_def Let_def option.case if_P [OF gb(1)] gb(2) days
    using assms(1,2) prd ex by (subst start) (auto simp: zero_config_def c split: option.splits)
qed

text \<open>
  Export and re-apply. What \<open>GetConfig\<close> returns for a user, applied again, is accepted
  and leaves the configuration of every user as it was.
\<close>

theorem GetConfig_ApplyConfig:
  assumes "reach quota_init quota_step m" and "userConfigs m u = Some c" and "u \<noteq> ''''"
    and "exportable tparse fmt_time c"
  shows "\<exists>opt m'. GetConfig fmt_time u m = Some opt \<and>
    ApplyConfig tparse opt m = Ret (None, m') \<and> userConfigs m' = userConfigs m"
proof -
  note w = wf_wf0 [OF reach_wf [OF assms(1)]]
  let ?opt = "quotaConfigToOption fmt_time u c"
  have "tq_Name ?opt = u" by (simp add: quotaConfigToOption_def)
  with ApplyConfig_eq [OF w _ option_roundtrip [OF wf_cfg [OF w assms(2)] assms(4), of u]] assms(2,3)
  show ?thesis by (auto simp: GetConfig_def Let_def storeConfig_def)
qed

lemma demo_exportable: "exportable tparse fmt_time demo_config"
  by (simp add: exportable_def demo_config_def IsZero_def)

theorem GetConfig_ApplyConfig_witness:
  "\<exists>opt m'. GetConfig (\<lambda>_. ''t'') ''alice'' demo_manager = Some opt \<and>
     ApplyConfig (\<lambda>_ _. None) opt demo_manager = Ret (None, m') \<and>
     userConfigs m' = userConfigs demo_manager"
  using GetConfig_ApplyConfig [OF demo_reach demo_cfg _ demo_exportable] by simp

text \<open>
  C11. Snapshots. The administrator's delete takes a snapshot, removes the user, and restores
  the snapshot if a later step fails. Restoring brings back the configuration, the usage, the
  pending delta, the mark, the period key and the (emptied) connection list of the user, and
  the manager satisfies its invariant again.
\<close>

theorem snapshot_restore:
  assumes "reach quota_init quota_step m" and "userConfigs m u = Some c" and "u \<noteq> ''''"
    and "exportable tparse fmt_time c"
  shows "\<exists>st m'. SnapshotState fmt_time u m = Some st \<and>
    RestoreState tparse st (snd (RemoveConfig u m)) = (None, m') \<and>
    userConfigs m' = userConfigs m \<and> activeConns m' = activeConns m \<and>
    (\<forall>v. state_of m' v = state_of m v) \<and>
    (\<forall>l. activeConns m u = Some l \<longrightarrow> conns (listStore m' l) = []) \<and> quota_wf m'"
proof -
  note w = reach_wf [OF assms(1)] and w0 = wf_wf0 [OF reach_wf [OF assms(1)]]
  note F = RemoveConfig_fields [OF assms(3), of m]
  let ?m1 = "snd (RemoveConfig u m)" and ?s = "state_of m u" and ?o = "quotaConfigToOption fmt_time u c"
  define st where "st = \<lparr>rs_User = ?o, rs_UsageBytes = usage ?s, rs_PendingDelta = pendingDelta ?s,
    rs_Exceeded = exceeded ?s, rs_PeriodKey = stateKey ?s, rs_activeConns = activeConns m u\<rparr>"
  have snap: "SnapshotState fmt_time u m = Some st"
    using assms(2) by (simp add: SnapshotState_def st_def Let_def)
  have name: "tq_Name (rs_User st) = u" by (simp add: st_def quotaConfigToOption_def)
  note new = option_roundtrip [OF wf_cfg [OF w0 assms(2)] assms(4), of u]
  obtain m' where m': "RestoreState tparse st ?m1 = (None, m')"
    and fields: "userConfigs m' = (userConfigs ?m1)(u \<mapsto> c)"
      "activeConns m' = (activeConns ?m1)(u := activeConns m u)" "listStore m' = listStore ?m1"
      "\<And>v. state_of m' v = (if v = u then ?s else state_of ?m1 v)"
    using new name by (auto simp: RestoreState_def Let_def st_def storeConfig_def
        quotaConfigToOption_def intro!: user_state.equality)
  have st_eq: "state_of m' v = state_of m v" for v
  proof -
    have "v \<noteq> u \<Longrightarrow> state_of ?m1 v = state_of m v" by (simp add: state_of_def F(2-))
    then show ?thesis by (simp add: fields(4))
  qed
  have "restorable st ?m1"
  proof -
    have "v \<noteq> u \<Longrightarrow> activeConns m v \<noteq> Some l" "l < nextList m" if "activeConns m u = Some l" for v l
      using that w by (auto simp: quota_wf_def wf0_def lists_ok_def)
    moreover have "nextList ?m1 = nextList m"
      by (simp add: RemoveConfig_def deleteConfig_def Let_def closeAllAndClear_eq split: option.split)
    moreover have "sint (usage ?s) > sint (quotaBytes c) \<Longrightarrow> exceeded ?s"
      using w assms(2) by (simp add: quota_wf_def flagged_at_def)
    moreover have "quota_bytes (tq_QuotaGB ?o) = quotaBytes c"
      using newQuotaConfig_bytes [OF new] by simp
    ultimately show ?thesis
      unfolding restorable_def name by (auto simp: st_def F(2-))
  qed
  from wf_RestoreState [OF wf_RemoveConfig [OF w] this, of tparse] m' have "quota_wf m'" by simp
  moreover have "userConfigs m' = userConfigs m" "activeConns m' = activeConns m"
    using assms(2) by (auto simp: fields F(2-))
  moreover have "\<forall>l. activeConns m u = Some l \<longrightarrow> conns (listStore m' l) = []"
    by (simp add: fields F(2-))
  ultimately show ?thesis using snap m' st_eq by blast
qed

theorem snapshot_restore_witness:
  "\<exists>st m'. SnapshotState (\<lambda>_. ''t'') ''alice'' demo_open = Some st \<and>
     RestoreState (\<lambda>_ _. None) st (snd (RemoveConfig ''alice'' demo_open)) = (None, m') \<and>
     userConfigs m' = userConfigs demo_open \<and> conns (listStore m' 0) = []"
proof -
  have cfg: "userConfigs demo_open ''alice'' = Some demo_config"
    by (simp add: demo_open_eq demo_cfg)
  have "activeConns demo_open ''alice'' = Some 0" by (simp add: demo_open_eq)
  with snapshot_restore [OF demo_open_reach cfg _ demo_exportable, of "\<lambda>_. ''t''" "\<lambda>_ _. None"]
  show ?thesis by auto
qed

text \<open>
  \<open>RestoreState\<close> stores a pending delta without queueing the user, so \<open>pending_ok\<close> does not
  survive it: if a flush ran between the removal and the restoration, the restored bytes wait
  for the user's next transfer.
\<close>

lemma restore_not_queued:
  assumes "quota_wf m" and "userConfigs m u = Some c" and "u \<noteq> ''''"
    and "exportable tparse fmt_time c" and "pendingDelta (state_of m u) \<noteq> 0"
    and "SnapshotState fmt_time u m = Some st"
  defines "m1 \<equiv> snd (ConsumePendingDeltas (snd (RemoveConfig u m)))"
  shows "\<not> pending_ok (snd (RestoreState tparse st m1))"
proof -
  note w0 = wf_wf0 [OF assms(1)]
  note new = option_roundtrip [OF wf_cfg [OF w0 assms(2)] assms(4), of u]
  have "dirty_ok (snd (RemoveConfig u m))"
    using wf_RemoveConfig [OF assms(1)] by (simp add: quota_wf_def wf0_def)
  then have "dirtySet m1 = {}" by (simp add: m1_def ConsumePendingDeltas_eq)
  with new assms(2,5,6) show ?thesis
    by (auto simp: RestoreState_def SnapshotState_def Let_def pending_ok_def storeConfig_def
        quotaConfigToOption_def)
qed

section \<open>Groups without a quota\<close>

text \<open>
  A group without a quota. \<open>newQuotaConfig\<close> answers nil, without an error, for a group
  whose \<open>quota_gb\<close> is not positive, and the constructor stores that nil. The first user that
  names the group makes the constructor dereference it, so loading such a configuration
  panics instead of returning an error.
\<close>

lemma quota_less_group_panics:
  assumes "tg_Name g \<noteq> ''''" and "tg_QuotaGB g \<le> 0" and "tg_PeriodStart g = ''''"
    and "tq_Name x \<noteq> ''''" and "tq_Group x = tg_Name g"
  shows "NewQuotaManager tparse [g] (x # xs) heap = Panic nil_dereference"
proof -
  have "newQuotaConfig tparse (tg_QuotaGB g) (tg_Period g) (tg_PeriodStart g) (tg_PeriodDays g) None =
      Inr None"
    using assms(2,3) by (simp add: newQuotaConfig_def zero_config_def Let_def)
  with assms show ?thesis by (simp add: NewQuotaManager_def)
qed

end
