(* ===== verification/QuotaPersist.thy ===== *)
theory QuotaPersist
  imports QuotaConfig
begin

text \<open>
  Where quota usage is kept between restarts: the \<open>Persister\<close> interface of
  \<open>src/service/trafficquota/persist.go\<close> and its implementations (\<open>NoopPersister\<close>, the Redis
  one of \<open>persist_redis.go\<close>, the PostgreSQL one of \<open>persist_postgres.go\<close>).

  The interface is a record of operations on a backend state; its contract is the locale
  \<open>quota_backend\<close> (reads report what is stored) and its extension \<open>durable_backend\<close> (writes
  change exactly one counter, or nothing when they fail). The Redis client and the PostgreSQL
  pool are libraries: they are records of operations, and the locales \<open>redis_server\<close> and
  \<open>postgres_server\<close> state the documented behaviour of the commands and statements the code
  sends. Inside them the persisters are shown to be durable backends; both are interpreted on
  servers that execute those commands and may fail at any time.
\<close>

section \<open>The interface and its contract\<close>

record 'p persister =
  p_Load :: "string \<Rightarrow> string \<Rightarrow> 'p \<Rightarrow> (go_error + i64) \<times> 'p"
  p_LoadMany :: "string \<Rightarrow> string list \<Rightarrow> 'p \<Rightarrow> (go_error + (string \<rightharpoonup> i64)) \<times> 'p"
  p_Save :: "string \<Rightarrow> string \<Rightarrow> i64 \<Rightarrow> 'p \<Rightarrow> go_error option \<times> 'p"
  p_IncrBy :: "string \<Rightarrow> string \<Rightarrow> i64 \<Rightarrow> 'p \<Rightarrow> go_error option \<times> 'p"
  p_Delete :: "string \<Rightarrow> string \<Rightarrow> 'p \<Rightarrow> go_error option \<times> 'p"
  p_Close :: "'p \<Rightarrow> go_error option \<times> 'p"

text \<open>
  \<open>stored\<close> is the counter of a user in a period (zero when there is none); \<open>good_key\<close> are the
  period keys the backend keeps apart.
\<close>

locale quota_backend =
  fixes P :: "'p persister" and stored :: "'p \<Rightarrow> string \<Rightarrow> string \<Rightarrow> i64"
  assumes Load: "p_Load P u k p = (r, p') \<Longrightarrow>
      stored p' = stored p \<and> (\<forall>v. r = Inr v \<longrightarrow> v = stored p u k)"
    and LoadMany: "p_LoadMany P k us p = (rs, p') \<Longrightarrow>
      stored p' = stored p \<and>
      (\<forall>res. rs = Inr res \<longrightarrow> dom res \<subseteq> set us \<and> (\<forall>u v. res u = Some v \<longrightarrow> v = stored p u k))"

locale durable_backend = quota_backend P stored
  for P :: "'p persister" and stored :: "'p \<Rightarrow> string \<Rightarrow> string \<Rightarrow> i64" +
  fixes good_key :: "string \<Rightarrow> bool"
  assumes LoadMany_absent: "p_LoadMany P k us p = (Inr res, p') \<Longrightarrow> u \<in> set us \<Longrightarrow> res u = None \<Longrightarrow>
      stored p u k = 0"
    and Save: "good_key k \<Longrightarrow> p_Save P u k b p = (r, p') \<Longrightarrow> good_key k' \<Longrightarrow>
      stored p' u' k' = (if r = None \<and> u' = u \<and> k' = k then b else stored p u' k')"
    and IncrBy: "good_key k \<Longrightarrow> p_IncrBy P u k d p = (r, p') \<Longrightarrow> good_key k' \<Longrightarrow>
      stored p' u' k' = (if r = None \<and> u' = u \<and> k' = k then stored p u k + d else stored p u' k')"
    and Delete: "good_key k \<Longrightarrow> p_Delete P u k p = (r, p') \<Longrightarrow> good_key k' \<Longrightarrow>
      stored p' u' k' = (if r = None \<and> u' = u \<and> k' = k then 0 else stored p u' k')"

section \<open>NoopPersister\<close>

definition NoopPersister :: "'p persister" where
  "NoopPersister =
     \<lparr>p_Load = (\<lambda>u k p. (Inr 0, p)), p_LoadMany = (\<lambda>k us p. (Inr Map.empty, p)),
      p_Save = (\<lambda>u k b p. (None, p)), p_IncrBy = (\<lambda>u k d p. (None, p)),
      p_Delete = (\<lambda>u k p. (None, p)), p_Close = (\<lambda>p. (None, p))\<rparr>"

interpretation noop: quota_backend NoopPersister "\<lambda>p u k. 0"
  by unfold_locales (auto simp: NoopPersister_def)

section \<open>Batches\<close>

definition loadManyBatchSize :: nat where "loadManyBatchSize = 512"

text \<open>
  The loop both persisters share: \<open>load\<close> asks for one batch and adds it to the result. The
  loop ends because a batch is never empty.
\<close>

function load_batches ::
  "(string list \<Rightarrow> (string \<rightharpoonup> i64) \<Rightarrow> 's \<Rightarrow> (go_error + (string \<rightharpoonup> i64)) \<times> 's) \<Rightarrow>
     string list \<Rightarrow> (string \<rightharpoonup> i64) \<Rightarrow> 's \<Rightarrow> (go_error + (string \<rightharpoonup> i64)) \<times> 's" where
  "load_batches load us res s =
     (if us = [] then (Inr res, s)
      else
        (case load (take loadManyBatchSize us) res s of
           (Inl e, s') \<Rightarrow> (Inl e, s')
         | (Inr res', s') \<Rightarrow> load_batches load (drop loadManyBatchSize us) res' s'))"
  by pat_completeness auto
termination
  by (relation "measure (\<lambda>(load, us, res, s). length us)") (auto simp: loadManyBatchSize_def)

declare load_batches.simps [simp del]

text \<open>
  What one batch does, each user looked up in \<open>view\<close>; the loop then does the same for the
  whole list.
\<close>

definition merge_view :: "(string \<rightharpoonup> i64) \<Rightarrow> string list \<Rightarrow> (string \<rightharpoonup> i64) \<Rightarrow> (string \<rightharpoonup> i64)" where
  "merge_view view us res = (\<lambda>u. if u \<in> set us \<and> view u \<noteq> None then view u else res u)"

lemma merge_view_append:
  "merge_view view (xs @ ys) res = merge_view view ys (merge_view view xs res)"
  by (auto simp: merge_view_def fun_eq_iff)

lemma load_batches_correct:
  assumes step: "\<And>batch res s r s'. I s \<Longrightarrow> load batch res s = (r, s') \<Longrightarrow>
      I s' \<and> (\<forall>res'. r = Inr res' \<longrightarrow> res' = merge_view view batch res)"
    and "I s" and "load_batches load us res s = (r, s')"
  shows "I s' \<and> (\<forall>res'. r = Inr res' \<longrightarrow> res' = merge_view view us res)"
  using assms(2,3)
proof (induction "length us" arbitrary: us res s rule: less_induct)
  case less
  show ?case
  proof (cases "us = []")
    case True
    with less.prems show ?thesis by (auto simp: load_batches.simps merge_view_def)
  next
    case False
    obtain r1 s1 where ld: "load (take loadManyBatchSize us) res s = (r1, s1)" by fastforce
    note L = step [OF less.prems(1) ld]
    show ?thesis
    proof (cases r1)
      case (Inl e)
      with False ld less.prems(2) have "s' = s1" "r = Inl e"
        by (subst (asm) load_batches.simps, simp)+
      with L show ?thesis by simp
    next
      case (Inr res1)
      with False ld less.prems(2)
      have "load_batches load (drop loadManyBatchSize us) res1 s1 = (r, s')"
        by (subst (asm) load_batches.simps) simp
      moreover have "length (drop loadManyBatchSize us) < length us"
        using False by (simp add: loadManyBatchSize_def)
      ultimately have "I s' \<and> (\<forall>res'. r = Inr res' \<longrightarrow>
          res' = merge_view view (drop loadManyBatchSize us) res1)"
        using less.hyps L by blast
      moreover have "res1 = merge_view view (take loadManyBatchSize us) res"
        using L Inr by simp
      ultimately show ?thesis
        using merge_view_append [of view "take loadManyBatchSize us" "drop loadManyBatchSize us" res]
        by simp
    qed
  qed
qed

section \<open>RedisPersister\<close>

text \<open>The replies of the client library: \<open>redis.Nil\<close> is an error value of its own.\<close>

datatype redis_error = RedisNil | RedisErr go_error

datatype mget_value = MGetNil | MGetString string | MGetOther

record 'r redis_client =
  rc_Ping :: "'r \<Rightarrow> go_error option \<times> 'r"
  rc_Get :: "string \<Rightarrow> 'r \<Rightarrow> (redis_error + string) \<times> 'r"
  rc_Scan :: "nat \<Rightarrow> string \<Rightarrow> nat \<Rightarrow> 'r \<Rightarrow> (go_error + string list \<times> nat) \<times> 'r"
  rc_MGet :: "string list \<Rightarrow> 'r \<Rightarrow> (go_error + mget_value list) \<times> 'r"
  rc_Set :: "string \<Rightarrow> i64 \<Rightarrow> 'r \<Rightarrow> go_error option \<times> 'r"
  rc_IncrBy :: "string \<Rightarrow> i64 \<Rightarrow> 'r \<Rightarrow> go_error option \<times> 'r"
  rc_Del :: "string \<Rightarrow> 'r \<Rightarrow> go_error option \<times> 'r"
  rc_Close :: "'r \<Rightarrow> go_error option \<times> 'r"

record TrafficQuotaRedisOptions =
  tr_KeyPrefix :: string

definition normalizeRedisPrefix :: "string \<Rightarrow> string" where
  "normalizeRedisPrefix prefix =
     (if prefix = '''' then ''traffic-quota'' else TrimSuffix prefix '':'')"

definition redis_key :: "string \<Rightarrow> string \<Rightarrow> string \<Rightarrow> string" where
  "redis_key keyPrefix user prdKey = keyPrefix @ '':'' @ user @ '':'' @ prdKey"

definition userFromKey :: "string \<Rightarrow> string \<Rightarrow> string \<Rightarrow> string" where
  "userFromKey keyPrefix key prdKey =
     TrimSuffix (TrimPrefix key (keyPrefix @ '':'')) ('':'' @ prdKey)"

definition num_error :: "string \<Rightarrow> go_error" where
  "num_error v = EFmt ''strconv.ParseInt: parsing %q'' [v] None"

definition redis_Load ::
  "'r redis_client \<Rightarrow> string \<Rightarrow> string \<Rightarrow> string \<Rightarrow> 'r \<Rightarrow> (go_error + i64) \<times> 'r" where
  "redis_Load c pre u k r =
     (case rc_Get c (redis_key pre u k) r of
        (Inl RedisNil, r') \<Rightarrow> (Inr 0, r')
      | (Inl (RedisErr e), r') \<Rightarrow> (Inl (ECause e [''redis GET '', redis_key pre u k]), r')
      | (Inr v, r') \<Rightarrow>
          (case parse_int64 v of
             None \<Rightarrow> (Inl (ECause (num_error v) [''parse redis quota value'']), r')
           | Some n \<Rightarrow> (Inr (word_of_int n), r')))"

text \<open>\<open>LoadAll\<close>: the keys of one \<open>SCAN\<close> page, then the loop over the cursor.\<close>

fun load_page ::
  "'r redis_client \<Rightarrow> string \<Rightarrow> string \<Rightarrow> string list \<Rightarrow> (string \<rightharpoonup> i64) \<Rightarrow> 'r \<Rightarrow>
     (go_error + (string \<rightharpoonup> i64)) \<times> 'r" where
  "load_page c pre k [] res r = (Inr res, r)"
| "load_page c pre k (key # keys) res r =
     (case rc_Get c key r of
        (Inl RedisNil, r') \<Rightarrow> load_page c pre k keys res r'
      | (Inl (RedisErr e), r') \<Rightarrow> (Inl (ECause e [''redis GET '', key]), r')
      | (Inr v, r') \<Rightarrow>
          (case parse_int64 v of
             None \<Rightarrow> (Inl (ECause (num_error v) [''parse redis quota value'']), r')
           | Some n \<Rightarrow> load_page c pre k keys (res(userFromKey pre key k \<mapsto> word_of_int n)) r'))"

partial_function (option) scan_loop ::
  "'r redis_client \<Rightarrow> string \<Rightarrow> string \<Rightarrow> nat \<Rightarrow> (string \<rightharpoonup> i64) \<Rightarrow> 'r \<Rightarrow>
     ((go_error + (string \<rightharpoonup> i64)) \<times> 'r) option" where
  "scan_loop c pre k cursor res r =
     (case rc_Scan c cursor (pre @ '':*:'' @ k) 100 r of
        (Inl e, r') \<Rightarrow> Some (Inl (ECause e [''redis SCAN '', pre @ '':*:'' @ k]), r')
      | (Inr (keys, next_cursor), r') \<Rightarrow>
          (case load_page c pre k keys res r' of
             (Inl e, r'') \<Rightarrow> Some (Inl e, r'')
           | (Inr res', r'') \<Rightarrow>
               if next_cursor = 0 then Some (Inr res', r'')
               else scan_loop c pre k next_cursor res' r''))"

definition redis_LoadAll ::
  "'r redis_client \<Rightarrow> string \<Rightarrow> string \<Rightarrow> 'r \<Rightarrow> ((go_error + (string \<rightharpoonup> i64)) \<times> 'r) option" where
  "redis_LoadAll c pre k r = scan_loop c pre k 0 Map.empty r"

text \<open>\<open>MGET\<close> answers one value per requested key, in order.\<close>

fun mget_collect ::
  "(string \<times> mget_value) list \<Rightarrow> (string \<rightharpoonup> i64) \<Rightarrow> go_error + (string \<rightharpoonup> i64)" where
  "mget_collect [] res = Inr res"
| "mget_collect ((u, MGetNil) # rest) res = mget_collect rest res"
| "mget_collect ((u, MGetOther) # rest) res = Inl (ENew [''unexpected redis MGET value type for '', u])"
| "mget_collect ((u, MGetString v) # rest) res =
     (case parse_int64 v of
        None \<Rightarrow> Inl (ECause (num_error v) [''parse redis quota value for '', u])
      | Some n \<Rightarrow> mget_collect rest (res(u \<mapsto> word_of_int n)))"

definition redis_batch ::
  "'r redis_client \<Rightarrow> string \<Rightarrow> string \<Rightarrow> string list \<Rightarrow> (string \<rightharpoonup> i64) \<Rightarrow> 'r \<Rightarrow>
     (go_error + (string \<rightharpoonup> i64)) \<times> 'r" where
  "redis_batch c pre k batch res r =
     (case rc_MGet c (map (\<lambda>u. redis_key pre u k) batch) r of
        (Inl e, r') \<Rightarrow> (Inl (ECause e [''redis MGET traffic quota batch'']), r')
      | (Inr values, r') \<Rightarrow> (mget_collect (zip batch values) res, r'))"

definition redis_LoadMany ::
  "'r redis_client \<Rightarrow> string \<Rightarrow> string \<Rightarrow> string list \<Rightarrow> 'r \<Rightarrow> (go_error + (string \<rightharpoonup> i64)) \<times> 'r"
  where
  "redis_LoadMany c pre k us r =
     (if us = [] then (Inr Map.empty, r) else load_batches (redis_batch c pre k) us Map.empty r)"

definition RedisPersister :: "'r redis_client \<Rightarrow> string \<Rightarrow> 'r persister" where
  "RedisPersister c pre =
     \<lparr>p_Load = redis_Load c pre, p_LoadMany = redis_LoadMany c pre,
      p_Save = (\<lambda>u k b. rc_Set c (redis_key pre u k) b),
      p_IncrBy = (\<lambda>u k d. rc_IncrBy c (redis_key pre u k) d),
      p_Delete = (\<lambda>u k. rc_Del c (redis_key pre u k)), p_Close = rc_Close c\<rparr>"

definition NewRedisPersister ::
  "'r redis_client \<Rightarrow> TrafficQuotaRedisOptions option \<Rightarrow> 'r \<Rightarrow> (go_error + 'r persister) \<times> 'r" where
  "NewRedisPersister c opts r =
     (case opts of
        None \<Rightarrow> (Inl (ENew [''missing redis options'']), r)
      | Some o' \<Rightarrow>
          (case rc_Ping c r of
             (Some e, r') \<Rightarrow> (Inl (ECause e [''ping redis'']), snd (rc_Close c r'))
           | (None, r') \<Rightarrow> (Inr (RedisPersister c (normalizeRedisPrefix (tr_KeyPrefix o'))), r')))"

definition colon_free :: "string \<Rightarrow> bool" where
  "colon_free k \<longleftrightarrow> CHR '':'' \<notin> set k"

text \<open>
  The documented behaviour of the Redis commands: \<open>GET\<close> and \<open>MGET\<close> only read, \<open>SET\<close> writes
  the decimal text, \<open>INCRBY\<close> treats a missing key as zero and refuses a text that is not a
  64 bit integer or a sum out of range, \<open>DEL\<close> removes. A command that fails has no effect.
\<close>

locale redis_server =
  fixes c :: "'r redis_client" and db :: "'r \<Rightarrow> (string \<rightharpoonup> string)" and pre :: string
  assumes Get: "rc_Get c key r = (x, r') \<Longrightarrow>
      db r' = db r \<and> (x = Inl RedisNil \<longrightarrow> db r key = None) \<and> (\<forall>v. x = Inr v \<longrightarrow> db r key = Some v)"
    and MGet: "rc_MGet c keys r = (xs, r') \<Longrightarrow>
      db r' = db r \<and>
      (\<forall>vs. xs = Inr vs \<longrightarrow>
         vs = map (\<lambda>k. case db r k of None \<Rightarrow> MGetNil | Some v \<Rightarrow> MGetString v) keys)"
    and Set: "rc_Set c key b r = (e, r') \<Longrightarrow>
      db r' = (if e = None then (db r)(key \<mapsto> itoa (sint b)) else db r)"
    and Incr: "rc_IncrBy c key d r = (e, r') \<Longrightarrow>
      (e \<noteq> None \<longrightarrow> db r' = db r) \<and>
      (e = None \<longrightarrow>
         (\<exists>n. (case db r key of None \<Rightarrow> n = 0 | Some v \<Rightarrow> parse_int64 v = Some n) \<and>
            - (2 ^ 63) \<le> n + sint d \<and> n + sint d < 2 ^ 63 \<and>
            db r' = (db r)(key \<mapsto> itoa (n + sint d))))"
    and Del: "rc_Del c key r = (e, r') \<Longrightarrow>
      db r' = (if e = None then (db r)(key := None) else db r)"

definition redis_value :: "string option \<Rightarrow> i64" where
  "redis_value v =
     (case v of
        None \<Rightarrow> 0
      | Some s \<Rightarrow> (case parse_int64 s of None \<Rightarrow> 0 | Some n \<Rightarrow> word_of_int n))"

definition redis_stored :: "('r \<Rightarrow> string \<rightharpoonup> string) \<Rightarrow> string \<Rightarrow> 'r \<Rightarrow> string \<Rightarrow> string \<Rightarrow> i64" where
  "redis_stored db pre r u k = redis_value (db r (redis_key pre u k))"

lemma redis_key_inj:
  assumes "colon_free k" and "colon_free k'"
  shows "redis_key pre u k = redis_key pre u' k' \<longleftrightarrow> u = u' \<and> k = k'"
proof
  assume "redis_key pre u k = redis_key pre u' k'"
  then have "rev (u @ CHR '':'' # k) = rev (u' @ CHR '':'' # k')" by (simp add: redis_key_def)
  then have "rev k @ CHR '':'' # rev u = rev k' @ CHR '':'' # rev u'" by simp
  then have "str_cut CHR '':'' (rev k @ CHR '':'' # rev u) = str_cut CHR '':'' (rev k' @ CHR '':'' # rev u')"
    by simp
  with assms show "u = u' \<and> k = k'" by (simp add: str_cut_append colon_free_def)
qed simp

lemma redis_value_itoa:
  "- (2 ^ 63) \<le> n \<Longrightarrow> n < 2 ^ 63 \<Longrightarrow> redis_value (Some (itoa n)) = word_of_int n"
  by (simp add: redis_value_def parse_int64_itoa)

text \<open>One batch of \<open>MGET\<close> replies, seen as a view of the database.\<close>

definition redis_view :: "(string \<rightharpoonup> string) \<Rightarrow> string \<Rightarrow> string \<Rightarrow> string \<rightharpoonup> i64" where
  "redis_view m pre k u =
     (case m (redis_key pre u k) of
        None \<Rightarrow> None
      | Some v \<Rightarrow> map_option word_of_int (parse_int64 v))"

lemma mget_collect_view:
  assumes "mget_collect (zip us (map (\<lambda>u. case m (redis_key pre u k) of
      None \<Rightarrow> MGetNil | Some v \<Rightarrow> MGetString v) us)) res = Inr res'"
  shows "res' = merge_view (redis_view m pre k) us res"
  using assms
proof (induction us arbitrary: res)
  case (Cons w us)
  then show ?case
    by (cases "m (redis_key pre w k)")
       (auto simp: merge_view_def redis_view_def fun_eq_iff split: option.splits)
qed (simp add: merge_view_def)

lemma redis_view_stored:
  "redis_view (db r) pre k u = Some v \<Longrightarrow> v = redis_stored db pre r u k"
  "redis_view (db r) pre k u = None \<Longrightarrow> redis_stored db pre r u k = 0"
  by (auto simp: redis_view_def redis_stored_def redis_value_def split: option.splits)

lemma redis_stored_cong: "db r' = db r \<Longrightarrow> redis_stored db pre r' = redis_stored db pre r"
  by (simp add: redis_stored_def fun_eq_iff)

lemma redis_stored_update:
  assumes "colon_free k" and "colon_free k'" and "db r' = (db r)(redis_key pre u k := v)"
  shows "redis_stored db pre r' u' k' =
    (if u' = u \<and> k' = k then redis_value v else redis_stored db pre r u' k')"
  using redis_key_inj [OF assms(2,1), of pre u' u] assms(3) by (simp add: redis_stored_def)

lemma merge_view_empty:
  "merge_view view us Map.empty u = Some v \<longleftrightarrow> u \<in> set us \<and> view u = Some v"
  "merge_view view us Map.empty u = None \<longleftrightarrow> u \<notin> set us \<or> view u = None"
  by (auto simp: merge_view_def)

context redis_server
begin

lemma load_ok:
  assumes "redis_Load c pre u k r = (x, r')"
  shows "db r' = db r \<and> (\<forall>v. x = Inr v \<longrightarrow> v = redis_stored db pre r u k)"
proof -
  obtain y r1 where g: "rc_Get c (redis_key pre u k) r = (y, r1)" by fastforce
  from Get [OF g] assms g show ?thesis
    by (auto simp: redis_Load_def redis_stored_def redis_value_def
        split: sum.splits redis_error.splits option.splits)
qed

lemma load_many_ok:
  assumes "redis_LoadMany c pre k us r = (x, r')"
  shows "db r' = db r \<and> (\<forall>res. x = Inr res \<longrightarrow> res = merge_view (redis_view (db r) pre k) us Map.empty)"
proof (cases "us = []")
  case True
  with assms show ?thesis by (auto simp: redis_LoadMany_def merge_view_def)
next
  case False
  have "db s' = db r \<and> (\<forall>res'. y = Inr res' \<longrightarrow> res' = merge_view (redis_view (db r) pre k) batch res)"
    if "db s = db r" "redis_batch c pre k batch res s = (y, s')" for batch res s y s'
  proof -
    obtain z s1 where g: "rc_MGet c (map (\<lambda>u. redis_key pre u k) batch) s = (z, s1)" by fastforce
    from MGet [OF g] g that show ?thesis
      by (auto simp: redis_batch_def comp_def dest!: mget_collect_view split: sum.splits)
  qed
  note step = this
  have "load_batches (redis_batch c pre k) us Map.empty r = (x, r')"
    using assms False by (simp add: redis_LoadMany_def)
  from load_batches_correct [of "\<lambda>s. db s = db r", OF step refl this] show ?thesis .
qed

end

sublocale redis_server \<subseteq> counters: durable_backend "RedisPersister c pre" "redis_stored db pre" colon_free
proof
  fix u k p r p'
  assume "p_Load (RedisPersister c pre) u k p = (r, p')"
  from load_ok [OF this [unfolded RedisPersister_def persister.simps]]
  show "redis_stored db pre p' = redis_stored db pre p \<and> (\<forall>v. r = Inr v \<longrightarrow> v = redis_stored db pre p u k)"
    using redis_stored_cong [of db p' p pre] by simp
next
  fix k us p rs p'
  assume "p_LoadMany (RedisPersister c pre) k us p = (rs, p')"
  from load_many_ok [OF this [unfolded RedisPersister_def persister.simps]]
  show "redis_stored db pre p' = redis_stored db pre p \<and>
    (\<forall>res. rs = Inr res \<longrightarrow> dom res \<subseteq> set us \<and> (\<forall>u v. res u = Some v \<longrightarrow> v = redis_stored db pre p u k))"
    using redis_stored_cong [of db p' p pre] redis_view_stored(1) [of db p pre k]
    by (cases rs) (simp_all add: merge_view_empty subset_iff dom_def)
next
  fix k us p res p' u
  assume "p_LoadMany (RedisPersister c pre) k us p = (Inr res, p')" "u \<in> set us" "res u = None"
  with load_many_ok [of k us p "Inr res" p'] show "redis_stored db pre p u k = 0"
    by (auto simp: RedisPersister_def merge_view_empty intro!: redis_view_stored(2))
next
  fix k u b p r p' k' u'
  assume k: "colon_free k" "colon_free k'" and "p_Save (RedisPersister c pre) u k b p = (r, p')"
  then have "db p' = (if r = None then (db p)(redis_key pre u k \<mapsto> itoa (sint b)) else db p)"
    using Set by (simp add: RedisPersister_def)
  then show "redis_stored db pre p' u' k' =
      (if r = None \<and> u' = u \<and> k' = k then b else redis_stored db pre p u' k')"
    using redis_stored_cong [of db p' p pre]
      redis_stored_update [OF k, of db p' p pre u "Some (itoa (sint b))" u']
      redis_value_itoa [OF i64_range, of b]
    by (cases r) simp_all
next
  fix k u d p r p' k' u'
  assume k: "colon_free k" "colon_free k'" and "p_IncrBy (RedisPersister c pre) u k d p = (r, p')"
  then have i: "rc_IncrBy c (redis_key pre u k) d p = (r, p')" by (simp add: RedisPersister_def)
  show "redis_stored db pre p' u' k' =
      (if r = None \<and> u' = u \<and> k' = k then redis_stored db pre p u k + d else redis_stored db pre p u' k')"
  proof (cases r)
    case None
    with Incr [OF i] obtain n where
      n: "case db p (redis_key pre u k) of None \<Rightarrow> n = 0 | Some v \<Rightarrow> parse_int64 v = Some n"
        "- (2 ^ 63) \<le> n + sint d" "n + sint d < 2 ^ 63"
        "db p' = (db p)(redis_key pre u k \<mapsto> itoa (n + sint d))" by blast
    from n(1) have "redis_stored db pre p u k = word_of_int n"
      by (auto simp: redis_stored_def redis_value_def split: option.splits)
    then show ?thesis
      using redis_stored_update [OF k n(4)] redis_value_itoa [OF n(2,3)] None by simp
  next
    case (Some e)
    with Incr [OF i] redis_stored_cong [of db p' p pre] show ?thesis by simp
  qed
next
  fix k u p r p' k' u'
  assume k: "colon_free k" "colon_free k'" and "p_Delete (RedisPersister c pre) u k p = (r, p')"
  then have "db p' = (if r = None then (db p)(redis_key pre u k := None) else db p)"
    using Del by (simp add: RedisPersister_def)
  then show "redis_stored db pre p' u' k' =
      (if r = None \<and> u' = u \<and> k' = k then 0 else redis_stored db pre p u' k')"
    using redis_stored_update [OF k, of db p' p pre u None u']
      redis_stored_cong [of db p' p pre]
    by (cases r) (simp_all add: redis_value_def)
qed

subsection \<open>A Redis server\<close>

text \<open>
  A server that executes the commands on a key-value table. \<open>faults\<close> schedules failures: each
  command consumes one entry and fails without effect if it is \<open>True\<close>. \<open>SCAN\<close> answers
  everything in one page; its patterns use no other wildcard than the asterisk.
\<close>

record 'd faulty =
  content :: 'd
  faults :: "bool list"

definition with_fault :: "('d faulty \<Rightarrow> 'a \<times> 'd faulty) \<Rightarrow> 'a \<Rightarrow> 'd faulty \<Rightarrow> 'a \<times> 'd faulty" where
  "with_fault f err s =
     (case faults s of
        [] \<Rightarrow> f s
      | b # bs \<Rightarrow> if b then (err, s\<lparr>faults := bs\<rparr>) else f (s\<lparr>faults := bs\<rparr>))"

fun put :: "'k \<Rightarrow> 'v \<Rightarrow> ('k \<times> 'v) list \<Rightarrow> ('k \<times> 'v) list" where
  "put k v [] = [(k, v)]"
| "put k v ((k', v') # kvs) = (if k' = k then (k, v) # kvs else (k', v') # put k v kvs)"

definition del :: "'k \<Rightarrow> ('k \<times> 'v) list \<Rightarrow> ('k \<times> 'v) list" where
  "del k kvs = filter (\<lambda>(k', v). k' \<noteq> k) kvs"

lemma map_of_put [simp]: "map_of (put k v kvs) = (map_of kvs)(k \<mapsto> v)"
  by (induction kvs) auto

lemma map_of_del [simp]: "map_of (del k kvs) = (map_of kvs)(k := None)"
  by (induction kvs) (auto simp: del_def)

fun glob :: "string \<Rightarrow> string \<Rightarrow> bool" where
  "glob [] s = (s = [])"
| "glob (p # ps) [] = (p = CHR ''*'' \<and> glob ps [])"
| "glob (p # ps) (c # cs) =
     (if p = CHR ''*'' then glob ps (c # cs) \<or> glob (p # ps) cs else p = c \<and> glob ps cs)"

definition conn_refused :: go_error where
  "conn_refused = EDriver ''connection refused''"

definition mem_redis :: "(string \<times> string) list faulty redis_client" where
  "mem_redis =
     \<lparr>rc_Ping = with_fault (\<lambda>s. (None, s)) (Some conn_refused),
      rc_Get = (\<lambda>k. with_fault
        (\<lambda>s. (case map_of (content s) k of None \<Rightarrow> Inl RedisNil | Some v \<Rightarrow> Inr v, s))
        (Inl (RedisErr conn_refused))),
      rc_Scan = (\<lambda>cursor pat n. with_fault
        (\<lambda>s. (Inr (filter (glob pat) (remdups (map fst (content s))), 0), s)) (Inl conn_refused)),
      rc_MGet = (\<lambda>ks. with_fault
        (\<lambda>s. (Inr (map (\<lambda>k. case map_of (content s) k of None \<Rightarrow> MGetNil | Some v \<Rightarrow> MGetString v) ks), s))
        (Inl conn_refused)),
      rc_Set = (\<lambda>k b. with_fault
        (\<lambda>s. (None, s\<lparr>content := put k (itoa (sint b)) (content s)\<rparr>)) (Some conn_refused)),
      rc_IncrBy = (\<lambda>k d. with_fault
        (\<lambda>s. case (case map_of (content s) k of None \<Rightarrow> Some 0 | Some v \<Rightarrow> parse_int64 v) of
           None \<Rightarrow> (Some (EDriver ''value is not an integer or out of range''), s)
         | Some n \<Rightarrow>
             if - (2 ^ 63) \<le> n + sint d \<and> n + sint d < 2 ^ 63
             then (None, s\<lparr>content := put k (itoa (n + sint d)) (content s)\<rparr>)
             else (Some (EDriver ''increment or decrement would overflow''), s))
        (Some conn_refused)),
      rc_Del = (\<lambda>k. with_fault (\<lambda>s. (None, s\<lparr>content := del k (content s)\<rparr>)) (Some conn_refused)),
      rc_Close = (\<lambda>s. (None, s))\<rparr>"

lemma with_fault_cases:
  assumes "with_fault f err s = (x, s')"
  obtains (ok) s1 where "content s1 = content s" "f s1 = (x, s')"
    | (fail) "x = err" "content s' = content s"
proof (cases "faults s")
  case Nil
  with assms show ?thesis by (intro ok [of s]) (simp_all add: with_fault_def)
next
  case (Cons b bs)
  with assms show ?thesis
    by (cases b) (auto simp: with_fault_def intro: fail ok [of "s\<lparr>faults := bs\<rparr>"])
qed

interpretation redis: redis_server mem_redis "\<lambda>s. map_of (content s)" pre for pre
proof
  fix key r x r'
  assume "rc_Get mem_redis key r = (x, r')"
  then show "map_of (content r') = map_of (content r) \<and>
    (x = Inl RedisNil \<longrightarrow> map_of (content r) key = None) \<and>
    (\<forall>v. x = Inr v \<longrightarrow> map_of (content r) key = Some v)"
    by (auto simp: mem_redis_def elim!: with_fault_cases split: option.splits)
next
  fix keys r xs r'
  assume "rc_MGet mem_redis keys r = (xs, r')"
  then show "map_of (content r') = map_of (content r) \<and> (\<forall>vs. xs = Inr vs \<longrightarrow>
    vs = map (\<lambda>k. case map_of (content r) k of None \<Rightarrow> MGetNil | Some v \<Rightarrow> MGetString v) keys)"
    by (auto simp: mem_redis_def elim!: with_fault_cases)
next
  fix key d r e r'
  assume "rc_IncrBy mem_redis key d r = (e, r')"
  then show "(e \<noteq> None \<longrightarrow> map_of (content r') = map_of (content r)) \<and>
    (e = None \<longrightarrow>
       (\<exists>n. (case map_of (content r) key of None \<Rightarrow> n = 0 | Some v \<Rightarrow> parse_int64 v = Some n) \<and>
          - (2 ^ 63) \<le> n + sint d \<and> n + sint d < 2 ^ 63 \<and>
          map_of (content r') = (map_of (content r))(key \<mapsto> itoa (n + sint d))))"
    by (auto simp: mem_redis_def elim!: with_fault_cases split: option.splits if_splits)
qed (auto simp: mem_redis_def elim!: with_fault_cases)

section \<open>PostgresPersister\<close>

datatype pg_arg = PgText string | PgTexts "string list" | PgInt i64

datatype pg_error = PgNoRows | PgErr go_error

text \<open>
  A query answers its rows, each of which scans or fails to, and the error left by the
  iteration.
\<close>

record 'g pg_pool =
  pg_QueryRow :: "string \<Rightarrow> pg_arg list \<Rightarrow> 'g \<Rightarrow> (pg_error + i64) \<times> 'g"
  pg_Query :: "string \<Rightarrow> pg_arg list \<Rightarrow> 'g \<Rightarrow>
    (go_error + (go_error + string \<times> i64) list \<times> go_error option) \<times> 'g"
  pg_Exec :: "string \<Rightarrow> pg_arg list \<Rightarrow> 'g \<Rightarrow> go_error option \<times> 'g"
  pg_Close :: "'g \<Rightarrow> 'g"

record TrafficQuotaPostgresOptions =
  tp_ConnectionString :: string
  tp_Table :: string

definition ident_start :: "char \<Rightarrow> bool" where
  "ident_start ch \<longleftrightarrow> (CHR ''A'' \<le> ch \<and> ch \<le> CHR ''Z'') \<or> (CHR ''a'' \<le> ch \<and> ch \<le> CHR ''z'') \<or> ch = CHR ''_''"

definition ident_char :: "char \<Rightarrow> bool" where
  "ident_char ch \<longleftrightarrow> ident_start ch \<or> (CHR ''0'' \<le> ch \<and> ch \<le> CHR ''9'')"

text \<open>The pattern \<open>^[A-Za-z_][A-Za-z0-9_]*$\<close>.\<close>

definition postgresTablePattern :: "string \<Rightarrow> bool" where
  "postgresTablePattern s = (case s of [] \<Rightarrow> False | ch # cs \<Rightarrow> ident_start ch \<and> list_all ident_char cs)"

definition sql_load :: "string \<Rightarrow> string" where
  "sql_load t = ''SELECT bytes_used FROM '' @ t @ '' WHERE user_name = $1 AND period_key = $2''"

definition sql_load_all :: "string \<Rightarrow> string" where
  "sql_load_all t = ''SELECT user_name, bytes_used FROM '' @ t @ '' WHERE period_key = $1''"

definition sql_load_many :: "string \<Rightarrow> string" where
  "sql_load_many t =
     ''SELECT user_name, bytes_used FROM '' @ t @ '' WHERE period_key = $1 AND user_name = ANY($2)''"

definition sql_save :: "string \<Rightarrow> string" where
  "sql_save t = ''INSERT INTO '' @ t @
     '' (user_name, period_key, bytes_used, updated_at) VALUES ($1, $2, $3, NOW()) '' @
     ''ON CONFLICT (user_name, period_key) DO UPDATE SET bytes_used = EXCLUDED.bytes_used, updated_at = NOW()''"

definition sql_incr :: "string \<Rightarrow> string" where
  "sql_incr t = ''INSERT INTO '' @ t @
     '' (user_name, period_key, bytes_used, updated_at) VALUES ($1, $2, $3, NOW()) '' @
     ''ON CONFLICT (user_name, period_key) DO UPDATE SET bytes_used = '' @ t @
     ''.bytes_used + EXCLUDED.bytes_used, updated_at = NOW()''"

definition sql_delete :: "string \<Rightarrow> string" where
  "sql_delete t = ''DELETE FROM '' @ t @ '' WHERE user_name = $1 AND period_key = $2''"

definition sql_create :: "string \<Rightarrow> string" where
  "sql_create t = ''CREATE TABLE IF NOT EXISTS '' @ t @ '' ('' @
     ''user_name TEXT NOT NULL,'' @ ''period_key TEXT NOT NULL,'' @ ''bytes_used BIGINT NOT NULL,'' @
     ''updated_at TIMESTAMPTZ NOT NULL,'' @ ''PRIMARY KEY (user_name, period_key))''"

definition pg_Load ::
  "'g pg_pool \<Rightarrow> string \<Rightarrow> string \<Rightarrow> string \<Rightarrow> 'g \<Rightarrow> (go_error + i64) \<times> 'g" where
  "pg_Load pool t u k g =
     (case pg_QueryRow pool (sql_load t) [PgText u, PgText k] g of
        (Inl PgNoRows, g') \<Rightarrow> (Inr 0, g')
      | (Inl (PgErr e), g') \<Rightarrow> (Inl (ECause e [''query PostgreSQL traffic quota row'']), g')
      | (Inr b, g') \<Rightarrow> (Inr b, g'))"

text \<open>The loop over the rows of a query; \<open>what\<close> is appended to its error texts.\<close>

fun scan_rows ::
  "string \<Rightarrow> (go_error + string \<times> i64) list \<Rightarrow> go_error option \<Rightarrow> (string \<rightharpoonup> i64) \<Rightarrow>
     go_error + (string \<rightharpoonup> i64)" where
  "scan_rows what [] rows_err res =
     (case rows_err of
        Some e \<Rightarrow> Inl (ECause e [''iterate PostgreSQL traffic quota rows'' @ what])
      | None \<Rightarrow> Inr res)"
| "scan_rows what (Inl e # rows) rows_err res =
     Inl (ECause e [''scan PostgreSQL traffic quota row'' @ what])"
| "scan_rows what (Inr (u, b) # rows) rows_err res = scan_rows what rows rows_err (res(u \<mapsto> b))"

definition pg_LoadAll ::
  "'g pg_pool \<Rightarrow> string \<Rightarrow> string \<Rightarrow> 'g \<Rightarrow> (go_error + (string \<rightharpoonup> i64)) \<times> 'g" where
  "pg_LoadAll pool t k g =
     (case pg_Query pool (sql_load_all t) [PgText k] g of
        (Inl e, g') \<Rightarrow> (Inl (ECause e [''query PostgreSQL traffic quota rows'']), g')
      | (Inr (rows, rows_err), g') \<Rightarrow> (scan_rows '''' rows rows_err Map.empty, g'))"

definition loadManyBatch ::
  "'g pg_pool \<Rightarrow> string \<Rightarrow> string \<Rightarrow> string list \<Rightarrow> (string \<rightharpoonup> i64) \<Rightarrow> 'g \<Rightarrow>
     (go_error + (string \<rightharpoonup> i64)) \<times> 'g" where
  "loadManyBatch pool t k batch res g =
     (case pg_Query pool (sql_load_many t) [PgText k, PgTexts batch] g of
        (Inl e, g') \<Rightarrow> (Inl (ECause e [''query PostgreSQL traffic quota rows (batch)'']), g')
      | (Inr (rows, rows_err), g') \<Rightarrow> (scan_rows '' (batch)'' rows rows_err res, g'))"

definition pg_LoadMany ::
  "'g pg_pool \<Rightarrow> string \<Rightarrow> string \<Rightarrow> string list \<Rightarrow> 'g \<Rightarrow> (go_error + (string \<rightharpoonup> i64)) \<times> 'g" where
  "pg_LoadMany pool t k us g =
     (if us = [] then (Inr Map.empty, g) else load_batches (loadManyBatch pool t k) us Map.empty g)"

definition pg_exec ::
  "'g pg_pool \<Rightarrow> string \<Rightarrow> string \<Rightarrow> pg_arg list \<Rightarrow> 'g \<Rightarrow> go_error option \<times> 'g" where
  "pg_exec pool q what args g =
     (case pg_Exec pool q args g of
        (Some e, g') \<Rightarrow> (Some (ECause e [what]), g')
      | (None, g') \<Rightarrow> (None, g'))"

definition PostgresPersister :: "'g pg_pool \<Rightarrow> string \<Rightarrow> 'g persister" where
  "PostgresPersister pool t =
     \<lparr>p_Load = pg_Load pool t, p_LoadMany = pg_LoadMany pool t,
      p_Save = (\<lambda>u k b. pg_exec pool (sql_save t) ''save PostgreSQL traffic quota row''
        [PgText u, PgText k, PgInt b]),
      p_IncrBy = (\<lambda>u k d. pg_exec pool (sql_incr t) ''increment PostgreSQL traffic quota row''
        [PgText u, PgText k, PgInt d]),
      p_Delete = (\<lambda>u k. pg_exec pool (sql_delete t) ''delete PostgreSQL traffic quota row''
        [PgText u, PgText k]),
      p_Close = (\<lambda>g. (None, pg_Close pool g))\<rparr>"

definition ensureTable :: "'g pg_pool \<Rightarrow> string \<Rightarrow> 'g \<Rightarrow> go_error option \<times> 'g" where
  "ensureTable pool t = pg_exec pool (sql_create t) ''ensure PostgreSQL traffic quota table'' []"

text \<open>\<open>open_pool\<close> is \<open>pgxpool.New\<close>.\<close>

definition NewPostgresPersister ::
  "(string \<Rightarrow> go_error + 'g pg_pool) \<Rightarrow> TrafficQuotaPostgresOptions option \<Rightarrow> 'g \<Rightarrow>
     (go_error + 'g persister) \<times> 'g" where
  "NewPostgresPersister open_pool opts g =
     (case opts of
        None \<Rightarrow> (Inl (ENew [''missing postgres options'']), g)
      | Some o' \<Rightarrow>
          (let t = (if tp_Table o' = '''' then ''traffic_quota'' else tp_Table o')
           in if \<not> postgresTablePattern t then (Inl (ENew [''invalid postgres table name: '', t]), g)
              else case open_pool (tp_ConnectionString o') of
                Inl e \<Rightarrow> (Inl (ECause e [''connect to PostgreSQL'']), g)
              | Inr pool \<Rightarrow>
                  (case ensureTable pool t g of
                     (Some e, g') \<Rightarrow> (Inl e, pg_Close pool g')
                   | (None, g') \<Rightarrow> (Inr (PostgresPersister pool t), g'))))"

text \<open>
  The documented behaviour of the statements: \<open>SELECT\<close> reads the matching rows, the upserts
  replace or add to the value of one row, \<open>DELETE\<close> removes it, and a statement that fails has
  no effect.
\<close>

locale postgres_server =
  fixes pool :: "'g pg_pool" and t :: string and tbl :: "'g \<Rightarrow> (string \<times> string \<rightharpoonup> i64)"
  assumes QueryRow: "pg_QueryRow pool (sql_load t) [PgText u, PgText k] g = (x, g') \<Longrightarrow>
      tbl g' = tbl g \<and> (x = Inl PgNoRows \<longrightarrow> tbl g (u, k) = None) \<and>
      (\<forall>v. x = Inr v \<longrightarrow> tbl g (u, k) = Some v)"
    and Query: "pg_Query pool (sql_load_many t) [PgText k, PgTexts us] g = (xs, g') \<Longrightarrow>
      tbl g' = tbl g \<and>
      (\<forall>rows. xs = Inr (rows, None) \<and> (\<forall>e. Inl e \<notin> set rows) \<longrightarrow>
         (\<forall>u v. Inr (u, v) \<in> set rows \<longleftrightarrow> u \<in> set us \<and> tbl g (u, k) = Some v))"
    and Exec_save: "pg_Exec pool (sql_save t) [PgText u, PgText k, PgInt b] g = (e, g') \<Longrightarrow>
      tbl g' = (if e = None then (tbl g)((u, k) \<mapsto> b) else tbl g)"
    and Exec_incr: "pg_Exec pool (sql_incr t) [PgText u, PgText k, PgInt d] g = (e, g') \<Longrightarrow>
      tbl g' = (if e = None
        then (tbl g)((u, k) \<mapsto> (case tbl g (u, k) of None \<Rightarrow> d | Some v \<Rightarrow> v + d)) else tbl g)"
    and Exec_delete: "pg_Exec pool (sql_delete t) [PgText u, PgText k] g = (e, g') \<Longrightarrow>
      tbl g' = (if e = None then (tbl g)((u, k) := None) else tbl g)"

definition pg_stored :: "('g \<Rightarrow> string \<times> string \<rightharpoonup> i64) \<Rightarrow> 'g \<Rightarrow> string \<Rightarrow> string \<Rightarrow> i64" where
  "pg_stored tbl g u k = (case tbl g (u, k) of None \<Rightarrow> 0 | Some v \<Rightarrow> v)"

lemma scan_rows_Inr:
  assumes "scan_rows what rows rows_err res = Inr res'"
  shows "rows_err = None \<and> (\<forall>e. Inl e \<notin> set rows) \<and>
    (\<forall>u. (\<exists>v. Inr (u, v) \<in> set rows) \<longrightarrow> (\<exists>v. Inr (u, v) \<in> set rows \<and> res' u = Some v)) \<and>
    (\<forall>u. (\<nexists>v. Inr (u, v) \<in> set rows) \<longrightarrow> res' u = res u)"
  using assms
proof (induction what rows rows_err res rule: scan_rows.induct)
  case (3 what u b rows rows_err res)
  have "scan_rows what rows rows_err (res(u \<mapsto> b)) = Inr res'"
    using 3(2) by (simp del: fun_upd_apply)
  note ih = 3(1) [OF this]
  then have IH: "rows_err = None" "\<forall>e. Inl e \<notin> set rows"
    "\<And>w. \<exists>v. Inr (w, v) \<in> set rows \<Longrightarrow> \<exists>v. Inr (w, v) \<in> set rows \<and> res' w = Some v"
    "\<And>w. \<nexists>v. Inr (w, v) \<in> set rows \<Longrightarrow> res' w = (res(u \<mapsto> b)) w" by blast+
  have "\<exists>v. Inr (w, v) \<in> set (Inr (u, b) # rows) \<and> res' w = Some v"
    if "\<exists>v. Inr (w, v) \<in> set (Inr (u, b) # rows)" for w
    using that IH(3,4) [of w] by (cases "\<exists>v. Inr (w, v) \<in> set rows") auto
  moreover have "res' w = res w" if "\<nexists>v. Inr (w, v) \<in> set (Inr (u, b) # rows)" for w
    using that IH(4) [of w] by auto
  ultimately show ?case using IH(1,2) by auto
qed (auto split: option.splits)

context postgres_server
begin

lemma batch_ok:
  assumes "loadManyBatch pool t k batch res g = (x, g')"
  shows "tbl g' = tbl g \<and>
    (\<forall>res'. x = Inr res' \<longrightarrow> res' = merge_view (\<lambda>u. tbl g (u, k)) batch res)"
proof -
  obtain y g1 where q: "pg_Query pool (sql_load_many t) [PgText k, PgTexts batch] g = (y, g1)"
    by fastforce
  have "tbl g' = tbl g" using Query [OF q] assms q by (auto simp: loadManyBatch_def split: sum.splits)
  moreover have "res' = merge_view (\<lambda>u. tbl g (u, k)) batch res" if "x = Inr res'" for res'
  proof -
    from that assms q obtain rows err where y: "y = Inr (rows, err)"
      and s: "scan_rows '' (batch)'' rows err res = Inr res'"
      by (auto simp: loadManyBatch_def split: sum.splits)
    note S = scan_rows_Inr [OF s]
    with Query [OF q] y have rows: "\<And>u v. Inr (u, v) \<in> set rows \<longleftrightarrow> u \<in> set batch \<and> tbl g (u, k) = Some v"
      by simp
    have "res' u = merge_view (\<lambda>u. tbl g (u, k)) batch res u" for u
      using S unfolding rows merge_view_def by (cases "u \<in> set batch \<and> tbl g (u, k) \<noteq> None") auto
    then show ?thesis by blast
  qed
  ultimately show ?thesis by blast
qed

lemma pg_load_many_ok:
  assumes "pg_LoadMany pool t k us g = (x, g')"
  shows "tbl g' = tbl g \<and> (\<forall>res. x = Inr res \<longrightarrow> res = merge_view (\<lambda>u. tbl g (u, k)) us Map.empty)"
proof (cases "us = []")
  case True
  with assms show ?thesis by (auto simp: pg_LoadMany_def merge_view_def)
next
  case False
  have step: "tbl s' = tbl g \<and> (\<forall>res'. y = Inr res' \<longrightarrow> res' = merge_view (\<lambda>u. tbl g (u, k)) batch res)"
    if "tbl s = tbl g" "loadManyBatch pool t k batch res s = (y, s')" for batch res s y s'
    using batch_ok [OF that(2)] that(1) by simp
  have "load_batches (loadManyBatch pool t k) us Map.empty g = (x, g')"
    using assms False by (simp add: pg_LoadMany_def)
  from load_batches_correct [of "\<lambda>s. tbl s = tbl g", OF step refl this] show ?thesis .
qed

end

lemma pg_stored_cong: "tbl g' = tbl g \<Longrightarrow> pg_stored tbl g' = pg_stored tbl g"
  by (simp add: pg_stored_def fun_eq_iff)

lemma pg_exec_cases:
  assumes "pg_exec pool q what args g = (r, g')"
  obtains e where "pg_Exec pool q args g = (e, g')" "r = None \<longleftrightarrow> e = None"
  using assms by (auto simp: pg_exec_def split: prod.splits option.splits)

sublocale postgres_server \<subseteq> counters: durable_backend "PostgresPersister pool t" "pg_stored tbl" "\<lambda>_. True"
proof
  fix u k p r p'
  assume L: "p_Load (PostgresPersister pool t) u k p = (r, p')"
  obtain x g1 where q: "pg_QueryRow pool (sql_load t) [PgText u, PgText k] p = (x, g1)" by fastforce
  from QueryRow [OF q] q L pg_stored_cong [of tbl p' p]
  show "pg_stored tbl p' = pg_stored tbl p \<and> (\<forall>v. r = Inr v \<longrightarrow> v = pg_stored tbl p u k)"
    by (auto simp: PostgresPersister_def pg_Load_def pg_stored_def split: sum.splits pg_error.splits)
next
  fix k us p rs p'
  assume "p_LoadMany (PostgresPersister pool t) k us p = (rs, p')"
  from pg_load_many_ok [OF this [unfolded PostgresPersister_def persister.simps]]
  show "pg_stored tbl p' = pg_stored tbl p \<and>
    (\<forall>res. rs = Inr res \<longrightarrow> dom res \<subseteq> set us \<and> (\<forall>u v. res u = Some v \<longrightarrow> v = pg_stored tbl p u k))"
    using pg_stored_cong [of tbl p' p]
    by (cases rs) (simp_all add: merge_view_empty subset_iff dom_def pg_stored_def)
next
  fix k us p res p' u
  assume "p_LoadMany (PostgresPersister pool t) k us p = (Inr res, p')" "u \<in> set us" "res u = None"
  with pg_load_many_ok [of k us p "Inr res" p'] show "pg_stored tbl p u k = 0"
    by (auto simp: PostgresPersister_def merge_view_empty pg_stored_def)
next
  fix k u b p r p' k' u'
  assume "p_Save (PostgresPersister pool t) u k b p = (r, p')"
  then obtain e where "pg_Exec pool (sql_save t) [PgText u, PgText k, PgInt b] p = (e, p')"
    "r = None \<longleftrightarrow> e = None" by (auto simp: PostgresPersister_def elim: pg_exec_cases)
  with Exec_save [OF this(1)]
  show "pg_stored tbl p' u' k' = (if r = None \<and> u' = u \<and> k' = k then b else pg_stored tbl p u' k')"
    by (auto simp: pg_stored_def)
next
  fix k u d p r p' k' u'
  assume "p_IncrBy (PostgresPersister pool t) u k d p = (r, p')"
  then obtain e where "pg_Exec pool (sql_incr t) [PgText u, PgText k, PgInt d] p = (e, p')"
    "r = None \<longleftrightarrow> e = None" by (auto simp: PostgresPersister_def elim: pg_exec_cases)
  with Exec_incr [OF this(1)]
  show "pg_stored tbl p' u' k' =
      (if r = None \<and> u' = u \<and> k' = k then pg_stored tbl p u k + d else pg_stored tbl p u' k')"
    by (auto simp: pg_stored_def split: option.splits)
next
  fix k u p r p' k' u'
  assume "p_Delete (PostgresPersister pool t) u k p = (r, p')"
  then obtain e where "pg_Exec pool (sql_delete t) [PgText u, PgText k] p = (e, p')"
    "r = None \<longleftrightarrow> e = None" by (auto simp: PostgresPersister_def elim: pg_exec_cases)
  with Exec_delete [OF this(1)]
  show "pg_stored tbl p' u' k' = (if r = None \<and> u' = u \<and> k' = k then 0 else pg_stored tbl p u' k')"
    by (auto simp: pg_stored_def)
qed

subsection \<open>A PostgreSQL server\<close>

text \<open>A server that holds the one table and executes exactly the statements above on it.\<close>

definition pg_down :: go_error where
  "pg_down = EDriver ''server closed the connection unexpectedly''"

definition exec_stmt ::
  "string \<Rightarrow> string \<Rightarrow> pg_arg list \<Rightarrow> ((string \<times> string) \<times> i64) list faulty \<Rightarrow>
     go_error option \<times> ((string \<times> string) \<times> i64) list faulty" where
  "exec_stmt t q args s =
     (case args of
        [PgText u, PgText k, PgInt b] \<Rightarrow>
          if q = sql_save t then (None, s\<lparr>content := put (u, k) b (content s)\<rparr>)
          else if q = sql_incr t then
            (let v = (case map_of (content s) (u, k) of None \<Rightarrow> 0 | Some v \<Rightarrow> v)
             in if - (2 ^ 63) \<le> sint v + sint b \<and> sint v + sint b < 2 ^ 63
                then (None, s\<lparr>content := put (u, k) (v + b) (content s)\<rparr>)
                else (Some (EDriver ''bigint out of range''), s))
          else (Some (EDriver ''syntax error''), s)
      | [PgText u, PgText k] \<Rightarrow>
          if q = sql_delete t then (None, s\<lparr>content := del (u, k) (content s)\<rparr>)
          else (Some (EDriver ''syntax error''), s)
      | [] \<Rightarrow> if q = sql_create t then (None, s) else (Some (EDriver ''syntax error''), s)
      | _ \<Rightarrow> (Some (EDriver ''syntax error''), s))"

definition query_stmt ::
  "string \<Rightarrow> string \<Rightarrow> pg_arg list \<Rightarrow> ((string \<times> string) \<times> i64) list faulty \<Rightarrow>
     (go_error + (go_error + string \<times> i64) list \<times> go_error option)" where
  "query_stmt t q args s =
     (case args of
        [PgText k, PgTexts us] \<Rightarrow>
          if q = sql_load_many t then
            Inr (concat (map (\<lambda>u. case map_of (content s) (u, k) of
                None \<Rightarrow> [] | Some v \<Rightarrow> [Inr (u, v)]) (remdups us)), None)
          else Inl (EDriver ''syntax error'')
      | [PgText k] \<Rightarrow>
          if q = sql_load_all t then
            Inr (map (\<lambda>((u, k'), v). Inr (u, v)) (filter (\<lambda>((u, k'), v). k' = k) (content s)), None)
          else Inl (EDriver ''syntax error'')
      | _ \<Rightarrow> Inl (EDriver ''syntax error''))"

definition mem_pg :: "string \<Rightarrow> ((string \<times> string) \<times> i64) list faulty pg_pool" where
  "mem_pg t =
     \<lparr>pg_QueryRow = (\<lambda>q args. with_fault
        (\<lambda>s. (case args of
            [PgText u, PgText k] \<Rightarrow>
              if q = sql_load t
              then (case map_of (content s) (u, k) of None \<Rightarrow> Inl PgNoRows | Some v \<Rightarrow> Inr v)
              else Inl (PgErr (EDriver ''syntax error''))
          | _ \<Rightarrow> Inl (PgErr (EDriver ''syntax error'')), s))
        (Inl (PgErr pg_down))),
      pg_Query = (\<lambda>q args. with_fault (\<lambda>s. (query_stmt t q args s, s)) (Inl pg_down)),
      pg_Exec = (\<lambda>q args. with_fault (exec_stmt t q args) (Some pg_down)),
      pg_Close = (\<lambda>s. s)\<rparr>"

lemma sql_incr_not_save: "sql_incr t \<noteq> sql_save t"
  by (simp add: sql_incr_def sql_save_def)

interpretation pg: postgres_server "mem_pg t" t "\<lambda>s. map_of (content s)" for t
proof
  fix u k g x g'
  assume "pg_QueryRow (mem_pg t) (sql_load t) [PgText u, PgText k] g = (x, g')"
  then show "map_of (content g') = map_of (content g) \<and>
    (x = Inl PgNoRows \<longrightarrow> map_of (content g) (u, k) = None) \<and>
    (\<forall>v. x = Inr v \<longrightarrow> map_of (content g) (u, k) = Some v)"
    by (auto simp: mem_pg_def elim!: with_fault_cases split: option.splits)
next
  fix k us g xs g'
  assume "pg_Query (mem_pg t) (sql_load_many t) [PgText k, PgTexts us] g = (xs, g')"
  then show "map_of (content g') = map_of (content g) \<and>
    (\<forall>rows. xs = Inr (rows, None) \<and> (\<forall>e. Inl e \<notin> set rows) \<longrightarrow>
       (\<forall>u v. (Inr (u, v) \<in> set rows) = (u \<in> set us \<and> map_of (content g) (u, k) = Some v)))"
    by (auto simp: mem_pg_def query_stmt_def elim!: with_fault_cases split: option.splits)
next
  fix u k d g e g'
  assume "pg_Exec (mem_pg t) (sql_incr t) [PgText u, PgText k, PgInt d] g = (e, g')"
  then show "map_of (content g') = (if e = None
      then (map_of (content g))((u, k) \<mapsto> (case map_of (content g) (u, k) of None \<Rightarrow> d | Some v \<Rightarrow> v + d))
      else map_of (content g))"
    by (auto simp: mem_pg_def exec_stmt_def sql_incr_not_save Let_def elim!: with_fault_cases
        split: option.splits if_splits)
qed (auto simp: mem_pg_def exec_stmt_def elim!: with_fault_cases)

section \<open>Properties\<close>

context durable_backend
begin

lemma load_many_matches:
  assumes "p_LoadMany P k us p = (Inr res, p1)"
  shows "dom res \<subseteq> set us \<and>
    (\<forall>u v p2. u \<in> set us \<and> p_Load P u k p = (Inr v, p2) \<longrightarrow>
       v = (case res u of None \<Rightarrow> 0 | Some x \<Rightarrow> x))"
proof -
  note many = LoadMany [OF assms]
  have "v = (case res u of None \<Rightarrow> 0 | Some x \<Rightarrow> x)"
    if "u \<in> set us" "p_Load P u k p = (Inr v, p2)" for u v p2
    using Load [OF that(2)] many LoadMany_absent [OF assms that(1)] by (cases "res u") auto
  with many show ?thesis by blast
qed

end

context redis_server
begin

lemma redis_durable: "durable_backend (RedisPersister c pre) (redis_stored db pre) colon_free"
  by (rule counters.durable_backend_axioms)

end

context postgres_server
begin

lemma pg_durable: "durable_backend (PostgresPersister pool t) (pg_stored tbl) (\<lambda>_. True)"
  by (rule counters.durable_backend_axioms)

end

text \<open>
  Redis counters do not interfere. A successful \<open>IncrBy\<close> of a user in a period changes
  the counter of that user and period by the delta, as a following \<open>Load\<close> reports, and no
  counter of another user or another period, even when user names contain the separator of
  the key. Period keys never contain it.
\<close>

theorem redis_counters_separate:
  assumes "redis_server c db" and "colon_free k"
    and "p_IncrBy (RedisPersister c pre) u k d r = (None, r1)"
    and "p_Load (RedisPersister c pre) u k r1 = (Inr v, r2)"
  shows "v = redis_stored db pre r u k + d \<and>
    (\<forall>u' k'. colon_free k' \<and> (u', k') \<noteq> (u, k) \<longrightarrow>
       redis_stored db pre r1 u' k' = redis_stored db pre r u' k')"
proof -
  note dur = redis_server.redis_durable [OF assms(1), of pre]
  note incr = durable_backend.IncrBy [OF dur assms(2,3)]
  have "v = redis_stored db pre r1 u k"
    using quota_backend.Load [OF durable_backend.axioms(1) [OF dur] assms(4)] by blast
  with incr [OF assms(2), of u] have "v = redis_stored db pre r u k + d" by simp
  moreover have "redis_stored db pre r1 u' k' = redis_stored db pre r u' k'"
    if "colon_free k' \<and> (u', k') \<noteq> (u, k)" for u' k'
  proof -
    from that have "colon_free k'" "\<not> (u' = u \<and> k' = k)" by auto
    from incr [OF this(1), of u'] this(2) show ?thesis by (simp only: if_False simp_thms)
  qed
  ultimately show ?thesis by (intro conjI allI impI)
qed

definition demo_redis :: "(string \<times> string) list faulty" where
  "demo_redis = \<lparr>content = [(''tq:bob:2024-01-01'', ''40'')], faults = []\<rparr>"

lemma parse_40: "parse_int64 ''40'' = Some 40"
  by (simp add: parse_int64_def parse_nat_def digit_val_def)

lemma demo_redis_incr:
  "p_IncrBy (RedisPersister mem_redis ''tq'') ''bob'' ''2024-01-01'' 2 demo_redis =
     (None, \<lparr>content = [(''tq:bob:2024-01-01'', itoa 42)], faults = []\<rparr>)"
  by (simp add: RedisPersister_def mem_redis_def with_fault_def demo_redis_def redis_key_def parse_40)

lemma demo_redis_load:
  "p_Load (RedisPersister mem_redis ''tq'') ''bob'' ''2024-01-01''
     \<lparr>content = [(''tq:bob:2024-01-01'', itoa 42)], faults = []\<rparr> =
     (Inr 42, \<lparr>content = [(''tq:bob:2024-01-01'', itoa 42)], faults = []\<rparr>)"
  by (simp add: RedisPersister_def redis_Load_def mem_redis_def with_fault_def redis_key_def
      parse_int64_itoa)

theorem redis_counters_separate_witness:
  "redis_stored (\<lambda>s. map_of (content s)) ''tq'' demo_redis ''bob'' ''2024-01-01'' + 2 = 42"
  using redis_counters_separate [OF redis.redis_server_axioms _ demo_redis_incr demo_redis_load]
  by (simp add: colon_free_def)

text \<open>
  Bulk loads agree with single loads. When \<open>LoadMany\<close> of the Redis persister succeeds,
  every requested user has the value a single \<open>Load\<close> reports, a user without an entry
  counting as zero, and no other user is in the result, however the requests were batched.
\<close>

theorem redis_LoadMany_matches_Load:
  assumes "redis_server c db"
    and "p_LoadMany (RedisPersister c pre) k us r = (Inr res, r1)"
  shows "dom res \<subseteq> set us \<and>
    (\<forall>u v r2. u \<in> set us \<and> p_Load (RedisPersister c pre) u k r = (Inr v, r2) \<longrightarrow>
       v = (case res u of None \<Rightarrow> 0 | Some x \<Rightarrow> x))"
  using redis_server.redis_durable [OF assms(1)] assms(2) by (rule durable_backend.load_many_matches)

theorem redis_LoadMany_matches_Load_witness:
  "\<exists>res r1. p_LoadMany (RedisPersister mem_redis ''tq'') ''2024-01-01'' [''bob'', ''eve''] demo_redis =
      (Inr res, r1) \<and> res ''bob'' = Some 40 \<and> dom res \<subseteq> {''bob'', ''eve''}"
proof -
  let ?k = "''2024-01-01''" and ?us = "[''bob'', ''eve'']"
  have "p_LoadMany (RedisPersister mem_redis ''tq'') ?k ?us demo_redis = (Inr [''bob'' \<mapsto> 40], demo_redis)"
    by (simp add: RedisPersister_def redis_LoadMany_def load_batches.simps loadManyBatchSize_def
        redis_batch_def mem_redis_def with_fault_def demo_redis_def redis_key_def parse_40)
  with redis_LoadMany_matches_Load [OF redis.redis_server_axioms this] show ?thesis by simp
qed

text \<open>
  Bulk loads of the PostgreSQL persister agree with its single loads in the same way.
\<close>

theorem pg_LoadMany_matches_Load:
  assumes "postgres_server pool t tbl"
    and "p_LoadMany (PostgresPersister pool t) k us g = (Inr res, g1)"
  shows "dom res \<subseteq> set us \<and>
    (\<forall>u v g2. u \<in> set us \<and> p_Load (PostgresPersister pool t) u k g = (Inr v, g2) \<longrightarrow>
       v = (case res u of None \<Rightarrow> 0 | Some x \<Rightarrow> x))"
  using postgres_server.pg_durable [OF assms(1)] assms(2) by (rule durable_backend.load_many_matches)

definition demo_pg :: "((string \<times> string) \<times> i64) list faulty" where
  "demo_pg = \<lparr>content = [((''bob'', ''2024-01''), 40)], faults = []\<rparr>"

theorem pg_LoadMany_matches_Load_witness:
  "\<exists>res g1. p_LoadMany (PostgresPersister (mem_pg ''tq'') ''tq'') ''2024-01'' [''bob'', ''eve''] demo_pg =
      (Inr res, g1) \<and> res ''bob'' = Some 40 \<and> dom res \<subseteq> {''bob'', ''eve''}"
proof -
  let ?k = "''2024-01''" and ?us = "[''bob'', ''eve'']"
  have "p_LoadMany (PostgresPersister (mem_pg ''tq'') ''tq'') ?k ?us demo_pg =
      (Inr [''bob'' \<mapsto> 40], demo_pg)"
    by (simp add: PostgresPersister_def pg_LoadMany_def load_batches.simps loadManyBatchSize_def
        loadManyBatch_def mem_pg_def query_stmt_def with_fault_def demo_pg_def)
  with pg_LoadMany_matches_Load [OF pg.postgres_server_axioms this] show ?thesis by simp
qed

text \<open>
  Batching. The loop of \<open>LoadMany\<close> asks for every user exactly once, in order, in
  requests of between one and 512 users (shown with a backend that records its requests).
\<close>

theorem load_batches_bounded:
  assumes "load_batches (\<lambda>batch res log. (Inr res, log @ [batch])) us res [] = (r, batches)"
  shows "r = Inr res \<and> concat batches = us \<and>
    (\<forall>b \<in> set batches. b \<noteq> [] \<and> length b \<le> 512)"
proof -
  have "r = Inr res \<and> (\<exists>bs. batches = log @ bs \<and> concat bs = us \<and>
      (\<forall>b \<in> set bs. b \<noteq> [] \<and> length b \<le> 512))"
    if "load_batches (\<lambda>batch res log. (Inr res, log @ [batch])) us res log = (r, batches)" for log
    using that
  proof (induction "length us" arbitrary: us log rule: less_induct)
    case less
    show ?case
    proof (cases "us = []")
      case True
      with less.prems show ?thesis by (simp add: load_batches.simps)
    next
      case False
      let ?b = "take 512 us"
      have "load_batches (\<lambda>batch res log. (Inr res, log @ [batch])) (drop 512 us) res (log @ [?b]) = (r, batches)"
        using less.prems False by (subst (asm) load_batches.simps) (simp add: loadManyBatchSize_def)
      from less.hyps [OF _ this] False obtain bs where
        "r = Inr res" "batches = (log @ [?b]) @ bs" "concat bs = drop 512 us"
        "\<forall>b \<in> set bs. b \<noteq> [] \<and> length b \<le> 512" by auto
      then show ?thesis using False by (intro conjI exI [of _ "?b # bs"]) auto
    qed
  qed
  from this [OF assms] show ?thesis by auto
qed

theorem load_batches_bounded_witness:
  "\<exists>batches. load_batches (\<lambda>batch res log. (Inr res, log @ [batch])) (replicate 700 ''u'') Map.empty [] =
      (Inr Map.empty, batches) \<and> concat batches = replicate 700 ''u'' \<and>
      (\<forall>b \<in> set batches. b \<noteq> [] \<and> length b \<le> 512)"
  using load_batches_bounded [of "replicate 700 ''u''" Map.empty]
  by (metis surj_pair)

end
