(* ===== verification/DynamicRow.thy ===== *)
theory DynamicRow
  imports Prelude
begin

text \<open>
  What the dynamic sources hand to the services, \<open>src/service/dynamicconfig/receiver.go\<close>: a
  row of per-user settings and the pair of callbacks that takes it. A pointer to a boolean is
  an option.
\<close>

record ConfigRow =
  cr_User :: string
  cr_UploadMbps :: int
  cr_DownloadMbps :: int
  cr_PerClient :: "bool option"
  cr_QuotaGB :: rat
  cr_Period :: string
  cr_PeriodStart :: string
  cr_PeriodDays :: int
  cr_Authoritative :: bool

text \<open>The callbacks act on the state \<open>'s\<close> of the service that receives the rows.\<close>

record 's Receiver =
  rv_Apply :: "ConfigRow \<Rightarrow> 's \<Rightarrow> (go_error option \<times> 's) go"
  rv_Remove :: "string \<Rightarrow> 's \<Rightarrow> (go_error option \<times> 's) go"

end
