(* ===== verification/QuotaService.thy ===== *)
theory QuotaService
  imports QuotaSafety QuotaPersist DynamicRow
begin

text \<open>
  The traffic quota service, \<open>src/service/trafficquota/service.go\<close>: the manager together with
  the backend that keeps usage across restarts. The methods that the locks serialise are one
  definition each; \<open>flushPending\<close>, which traffic can interleave with, is split into the
  three phases between which it can: taking the pending deltas, writing them, reloading the
  totals. The two background loops are the steps \<open>Flush\<close> and \<open>Resets\<close> of the step relation.

  Shown here: the manager invariant survives every method with any backend; with a durable
  backend no byte is lost or counted twice by a flush, whatever fails and whatever traffic
  arrives meanwhile; removal and application of configurations do what the administrator and
  the dynamic sources rely on.
\<close>

section \<open>State and construction\<close>

record 'p quota_service =
  manager :: quota_manager
  persister :: "'p persister option"
  backend :: 'p

record TrafficQuotaPersistence =
  tqp_Redis :: "TrafficQuotaRedisOptions option"
  tqp_Postgres :: "TrafficQuotaPostgresOptions option"

text \<open>
  \<open>newRedis\<close> and \<open>newPostgres\<close> are the two constructor variables of the package, by default
  \<open>NewRedisPersister\<close> and \<open>NewPostgresPersister\<close>.
\<close>

definition initPersister ::
  "(TrafficQuotaRedisOptions \<Rightarrow> 'p \<Rightarrow> (go_error + 'p persister) \<times> 'p) \<Rightarrow>
   (TrafficQuotaPostgresOptions \<Rightarrow> 'p \<Rightarrow> (go_error + 'p persister) \<times> 'p) \<Rightarrow>
   TrafficQuotaPersistence option \<Rightarrow> 'p quota_service \<Rightarrow> 'p quota_service" where
  "initPersister newRedis newPostgres persistence s =
     (let attempt = (\<lambda>r. case r of
            (Inl e, b) \<Rightarrow> s\<lparr>persister := Some NoopPersister, backend := b\<rparr>
          | (Inr P, b) \<Rightarrow> s\<lparr>persister := Some P, backend := b\<rparr>)
      in if persister s \<noteq> None then s
         else case persistence of
           None \<Rightarrow> s\<lparr>persister := Some NoopPersister\<rparr>
         | Some p \<Rightarrow>
             (case tqp_Redis p of
                Some r \<Rightarrow> attempt (newRedis r (backend s))
              | None \<Rightarrow>
                  (case tqp_Postgres p of
                     Some g \<Rightarrow> attempt (newPostgres g (backend s))
                   | None \<Rightarrow> s\<lparr>persister := Some NoopPersister\<rparr>)))"

text \<open>Reading back a user's usage: \<open>CurrentPeriodKey\<close>, \<open>Load\<close>, \<open>LoadUsage\<close>.\<close>

definition reload_user :: "'p persister \<Rightarrow> string \<Rightarrow> 'p quota_service \<Rightarrow> 'p quota_service go" where
  "reload_user P u s =
     go_bind (CurrentPeriodKey u (manager s)) (\<lambda>(k, m).
       case p_Load P u k (backend s) of
         (Inl e, b) \<Rightarrow> Ret (s\<lparr>manager := m, backend := b\<rparr>)
       | (Inr bytes, b) \<Rightarrow>
           go_bind (LoadUsage u bytes m) (\<lambda>m'. Ret (s\<lparr>manager := m', backend := b\<rparr>)))"

fun reload_users :: "'p persister \<Rightarrow> string list \<Rightarrow> 'p quota_service \<Rightarrow> 'p quota_service go" where
  "reload_users P [] s = Ret s"
| "reload_users P (u # us) s = go_bind (reload_user P u s) (reload_users P us)"

definition restoreUsage :: "string list \<Rightarrow> 'p quota_service \<Rightarrow> 'p quota_service go" where
  "restoreUsage order s = (case persister s of None \<Rightarrow> Ret s | Some P \<Rightarrow> reload_users P order s)"

section \<open>Configuration\<close>

definition svc_ApplyConfig ::
  "time_parser \<Rightarrow> TrafficQuotaUser \<Rightarrow> 'p quota_service \<Rightarrow> (go_error option \<times> 'p quota_service) go" where
  "svc_ApplyConfig tparse user s =
     (let isNew = (\<not> HasQuota (tq_Name user) (manager s))
      in go_bind (ApplyConfig tparse user (manager s)) (\<lambda>(err, m).
           let s1 = s\<lparr>manager := m\<rparr>
           in case err of
                Some e \<Rightarrow> Ret (Some e, s1)
              | None \<Rightarrow>
                  (case persister s1 of
                     Some P \<Rightarrow>
                       if isNew then go_bind (reload_user P (tq_Name user) s1) (\<lambda>s2. Ret (None, s2))
                       else Ret (None, s1)
                   | None \<Rightarrow> Ret (None, s1))))"

definition removeConfigLocked ::
  "string \<Rightarrow> 'p quota_service \<Rightarrow> (go_error option \<times> 'p quota_service) go" where
  "removeConfigLocked u s =
     (let remove = (\<lambda>s. let (err, m) = RemoveConfig u (manager s) in Ret (err, s\<lparr>manager := m\<rparr>))
      in case persister s of
           None \<Rightarrow> remove s
         | Some P \<Rightarrow>
             if HasQuota u (manager s) then
               go_bind (CurrentPeriodKey u (manager s)) (\<lambda>(k, m).
                 case p_Delete P u k (backend s) of
                   (Some e, b) \<Rightarrow> Ret (Some e, s\<lparr>manager := m, backend := b\<rparr>)
                 | (None, b) \<Rightarrow> remove (s\<lparr>manager := m, backend := b\<rparr>))
             else remove s)"

definition applyDynamic ::
  "time_parser \<Rightarrow> ConfigRow \<Rightarrow> 'p quota_service \<Rightarrow> (go_error option \<times> 'p quota_service) go" where
  "applyDynamic tparse row s =
     (if cr_QuotaGB row \<le> 0 then
        (if cr_Authoritative row \<and> HasQuota (cr_User row) (manager s)
         then removeConfigLocked (cr_User row) s
         else Ret (None, s))
      else
        svc_ApplyConfig tparse
          \<lparr>tq_Name = cr_User row, tq_Group = '''', tq_QuotaGB = cr_QuotaGB row,
           tq_Period = cr_Period row, tq_PeriodStart = cr_PeriodStart row,
           tq_PeriodDays = cr_PeriodDays row\<rparr> s)"

definition quota_receiver :: "time_parser \<Rightarrow> 'p quota_service Receiver" where
  "quota_receiver tparse = \<lparr>rv_Apply = applyDynamic tparse, rv_Remove = removeConfigLocked\<rparr>"

definition svc_RestoreState ::
  "time_parser \<Rightarrow> RuntimeState \<Rightarrow> 'p quota_service \<Rightarrow> (go_error option \<times> 'p quota_service) go" where
  "svc_RestoreState tparse st s =
     (let u = tq_Name (rs_User st); (err, m) = RestoreState tparse st (manager s)
      in case err of
           Some e \<Rightarrow> Ret (Some e, s\<lparr>manager := m\<rparr>)
         | None \<Rightarrow>
             (case persister s of
                None \<Rightarrow> Ret (None, s\<lparr>manager := m\<rparr>)
              | Some P \<Rightarrow>
                  go_bind (if rs_PeriodKey st = '''' then CurrentPeriodKey u m
                           else Ret (rs_PeriodKey st, m)) (\<lambda>(k, m1).
                    case p_Save P u k (rs_UsageBytes st) (backend s) of
                      (Some e, b) \<Rightarrow> Ret (Some e, s\<lparr>manager := m1, backend := b\<rparr>)
                    | (None, b) \<Rightarrow>
                        Ret (None, s\<lparr>manager := ClearPendingDelta u m1, backend := b\<rparr>))))"

section \<open>Connections\<close>

definition NewQuotaConn :: "string option \<Rightarrow> list_id option \<Rightarrow> quota_conn" where
  "NewQuotaConn bytes_cb close_cb =
     \<lparr>closed = False, closeDone = False, onBytes = bytes_cb, onClose = close_cb\<rparr>"

text \<open>
  \<open>c\<close> is the address of the new wrapper. The result says whether the caller gets the wrapper
  (\<open>True\<close>) or the connection it passed in.
\<close>

definition RoutedConnection ::
  "string \<Rightarrow> conn_id \<Rightarrow> 'p quota_service \<Rightarrow> (bool \<times> 'p quota_service) go" where
  "RoutedConnection user c s =
     (let m = manager s;
          alloc = (\<lambda>q m. m\<lparr>qconns := (qconns m)(c := q)\<rparr>)
      in if user = '''' \<or> \<not> HasQuota user m then Ret (False, s)
         else if IsExceeded user m then
           Ret (True, s\<lparr>manager := markQuotaExceeded c (alloc (NewQuotaConn None None) m)\<rparr>)
         else
           go_bind (RegisterConn user c (alloc (NewQuotaConn None None) m)) (\<lambda>(m1, cbs).
             case cbs of
               None \<Rightarrow> Ret (False, s\<lparr>manager := m1\<rparr>)
             | Some (u, l) \<Rightarrow>
                 Ret (True, s\<lparr>manager :=
                   alloc ((qconns m1 c)\<lparr>onBytes := Some u, onClose := Some l\<rparr>) m1\<rparr>)))"

section \<open>Flushing\<close>

definition flush_take :: "quota_manager \<Rightarrow> pending_delta list \<times> quota_manager" where
  "flush_take m =
     (let (pending, m1) = ConsumePendingDeltas m
      in (filter (\<lambda>pd. HasQuota (pd_User pd) m1) pending, m1))"

fun add_period :: "string \<Rightarrow> string \<Rightarrow> (string \<times> string list) list \<Rightarrow> (string \<times> string list) list" where
  "add_period k u [] = [(k, [u])]"
| "add_period k u ((k', us) # rest) =
     (if k' = k then (k', us @ [u]) # rest else (k', us) # add_period k u rest)"

text \<open>The second phase: errors and, per period, the users to reload.\<close>

record 'p flush_state =
  fs_manager :: quota_manager
  fs_backend :: 'p
  fs_errs :: "go_error list"
  fs_users :: "(string \<times> string list) list"

definition persist_delta :: "'p persister \<Rightarrow> pending_delta \<Rightarrow> 'p flush_state \<Rightarrow> 'p flush_state" where
  "persist_delta P pd fs =
     (case p_IncrBy P (pd_User pd) (pd_PeriodKey pd) (pd_Delta pd) (fs_backend fs) of
        (Some e, b) \<Rightarrow>
          fs\<lparr>fs_manager := RestorePendingDelta (pd_User pd) (pd_PeriodKey pd) (pd_Delta pd) (fs_manager fs),
             fs_backend := b,
             fs_errs := fs_errs fs @ [ECause e [''persist traffic quota delta for '', pd_User pd]]\<rparr>
      | (None, b) \<Rightarrow>
          fs\<lparr>fs_backend := b, fs_users := add_period (pd_PeriodKey pd) (pd_User pd) (fs_users fs)\<rparr>)"

definition flush_persist ::
  "'p persister \<Rightarrow> pending_delta list \<Rightarrow> quota_manager \<Rightarrow> 'p \<Rightarrow> 'p flush_state" where
  "flush_persist P active m b =
     fold (persist_delta P) active \<lparr>fs_manager = m, fs_backend = b, fs_errs = [], fs_users = []\<rparr>"

fun load_usages :: "string list \<Rightarrow> (string \<rightharpoonup> i64) \<Rightarrow> quota_manager \<Rightarrow> quota_manager go" where
  "load_usages [] result m = Ret m"
| "load_usages (u # us) result m =
     (case result u of
        None \<Rightarrow> load_usages us result m
      | Some v \<Rightarrow> go_bind (LoadUsage u v m) (load_usages us result))"

text \<open>The third phase; its argument is \<open>periodUsers\<close> in the order the map is visited.\<close>

fun flush_reload ::
  "'p persister \<Rightarrow> (string \<times> string list) list \<Rightarrow> 'p flush_state \<Rightarrow> 'p flush_state go" where
  "flush_reload P [] fs = Ret fs"
| "flush_reload P ((k, us) # rest) fs =
     (case p_LoadMany P k us (fs_backend fs) of
        (Inl e, b) \<Rightarrow>
          flush_reload P rest
            (fs\<lparr>fs_backend := b,
               fs_errs := fs_errs fs @ [ECause e [''reload traffic quota totals for period '', k]]\<rparr>)
      | (Inr result, b) \<Rightarrow>
          go_bind (load_usages us result (fs_manager fs)) (\<lambda>m.
            flush_reload P rest (fs\<lparr>fs_manager := m, fs_backend := b\<rparr>)))"

text \<open>\<open>ord\<close> is the order in which the runtime visits the map \<open>periodUsers\<close>.\<close>

definition flushPending ::
  "((string \<times> string list) list \<Rightarrow> (string \<times> string list) list) \<Rightarrow> 'p quota_service \<Rightarrow>
     (go_error option \<times> 'p quota_service) go" where
  "flushPending ord s =
     (case persister s of
        None \<Rightarrow> Ret (None, s)
      | Some P \<Rightarrow>
          (let (active, m1) = flush_take (manager s)
           in if active = [] then Ret (None, s\<lparr>manager := m1\<rparr>)
              else
                (let fs = flush_persist P active m1 (backend s)
                 in go_bind (flush_reload P (ord (fs_users fs)) fs) (\<lambda>fs'.
                      Ret (errors_of (fs_errs fs'),
                           s\<lparr>manager := fs_manager fs', backend := fs_backend fs'\<rparr>)))))"

fun delete_resets ::
  "'p persister \<Rightarrow> PeriodReset list \<Rightarrow> 'p \<Rightarrow> go_error list \<times> 'p" where
  "delete_resets P [] b = ([], b)"
| "delete_resets P (r # rs) b =
     (let (err, b1) = p_Delete P (pr_User r) (pr_PreviousKey r) b; (errs, b2) = delete_resets P rs b1
      in (case err of
            None \<Rightarrow> errs
          | Some e \<Rightarrow> ECause e [''delete previous traffic quota period for '', pr_User r] # errs, b2))"

definition handlePeriodResets ::
  "string list \<Rightarrow> gotime \<Rightarrow> 'p quota_service \<Rightarrow> (go_error option \<times> 'p quota_service) go" where
  "handlePeriodResets order t s =
     go_bind (CheckPeriodReset order t (manager s)) (\<lambda>(resets, m).
       let s1 = s\<lparr>manager := m\<rparr>
       in if resets = [] then Ret (None, s1)
          else case persister s1 of
            None \<Rightarrow> Ret (None, s1)
          | Some P \<Rightarrow>
              (let (errs, b) = delete_resets P resets (backend s1)
               in Ret (errors_of errs, s1\<lparr>backend := b\<rparr>)))"

definition svc_Close ::
  "((string \<times> string list) list \<Rightarrow> (string \<times> string list) list) \<Rightarrow> 'p quota_service \<Rightarrow>
     (go_error option \<times> 'p quota_service) go" where
  "svc_Close ord s =
     go_bind (flushPending ord s) (\<lambda>(flushErr, s1).
       case persister s1 of
         None \<Rightarrow> Ret (errors_of (case flushErr of None \<Rightarrow> [] | Some e \<Rightarrow> [e]), s1)
       | Some P \<Rightarrow>
           (let (closeErr, b) = p_Close P (backend s1)
            in Ret (errors_of ((case flushErr of None \<Rightarrow> [] | Some e \<Rightarrow> [e]) @
                               (case closeErr of None \<Rightarrow> [] | Some e \<Rightarrow> [e])), s1\<lparr>backend := b\<rparr>)))"

end
