(* ===== verification/SpeedConfig.thy ===== *)
theory SpeedConfig
  imports Prelude
begin

text \<open>
  The configuration side of the speed limiter, the first part of
  \<open>src/service/speedlimiter/manager.go\<close>: parsing and printing schedules, matching a time of day
  against them, and resolving the speed of a user from default, group, override and schedules.
  Times of day come from \<open>hm\<close>, the hour and minute of a Unix time in the local time zone,
  which is a parameter. The set of groups of a schedule is kept as a list, of which only
  emptiness and membership matter.
\<close>

section \<open>Data\<close>

record UserSchedule =
  us_TimeRange :: string
  us_UploadMbps :: int
  us_DownloadMbps :: int

record speedConfig =
  UploadMbps :: int
  DownloadMbps :: int
  PerClient :: bool

record scheduleEntry =
  startHour :: int
  startMin :: int
  endHour :: int
  endMin :: int
  se_uploadMbps :: int
  se_downloadMbps :: int
  se_groups :: "string list"

record SpeedLimiterDefault =
  sd_UploadMbps :: int
  sd_DownloadMbps :: int
  sd_PerClient :: bool
  sd_ClientTTLMinutes :: int

record SpeedLimiterGroup =
  sg_Name :: string
  sg_UploadMbps :: int
  sg_DownloadMbps :: int
  sg_PerClient :: "bool option"

record SpeedLimiterUser =
  su_Name :: string
  su_Group :: string
  su_UploadMbps :: int
  su_DownloadMbps :: int
  su_PerClient :: "bool option"

record SpeedLimiterSchedule =
  ss_TimeRange :: string
  ss_UploadMbps :: int
  ss_DownloadMbps :: int
  ss_Groups :: "string list"

record configSnapshot =
  defaultConfig :: "speedConfig option"
  groups :: "string \<rightharpoonup> speedConfig"
  userGroups :: "string \<rightharpoonup> string"
  userOverrides :: "string \<rightharpoonup> speedConfig"
  userRawConfig :: "string \<rightharpoonup> SpeedLimiterUser"
  schedules :: "scheduleEntry list"
  userSchedules :: "string \<rightharpoonup> scheduleEntry list"
  clientTTL :: int

text \<open>\<open>clientTTL\<close> is in nanoseconds, as \<open>time.Duration\<close> is.\<close>

definition second_ns :: int where "second_ns = 1000000000"
definition minute_ns :: int where "minute_ns = 60000000000"
definition defaultClientTTLMinutes :: int where "defaultClientTTLMinutes = 10"

definition zero_speed :: speedConfig where
  "zero_speed = \<lparr>UploadMbps = 0, DownloadMbps = 0, PerClient = False\<rparr>"

section \<open>Schedules\<close>

definition parseTime :: "string \<Rightarrow> go_error + int \<times> int" where
  "parseTime s0 =
     (let s = TrimSpace s0
      in case str_cut (CHR '':'') s of
           None \<Rightarrow> Inl (EFmt ''expected HH:MM format'' [] None)
         | Some (h, mn) \<Rightarrow>
             (case parse_int64 h of
                None \<Rightarrow> Inl (EFmt ''invalid hour %q'' [h] None)
              | Some hour \<Rightarrow>
                  if hour < 0 \<or> hour > 23 then Inl (EFmt ''invalid hour %q'' [h] None)
                  else
                    (case parse_int64 mn of
                       None \<Rightarrow> Inl (EFmt ''invalid minute %q'' [mn] None)
                     | Some m \<Rightarrow>
                         if m < 0 \<or> m > 59 then Inl (EFmt ''invalid minute %q'' [mn] None)
                         else Inr (hour, m))))"

definition parse_range ::
  "string \<Rightarrow> int \<Rightarrow> int \<Rightarrow> string list \<Rightarrow> go_error + scheduleEntry" where
  "parse_range rng up down gs =
     (case str_cut (CHR ''-'') rng of
        None \<Rightarrow> Inl (EFmt ''invalid time_range format %q, expected HH:MM-HH:MM'' [rng] None)
      | Some (a, b) \<Rightarrow>
          (case parseTime a of
             Inl e \<Rightarrow> Inl (EFmt ''invalid time_range start %q: %w'' [a] (Some e))
           | Inr (sh, sm) \<Rightarrow>
               (case parseTime b of
                  Inl e \<Rightarrow> Inl (EFmt ''invalid time_range end %q: %w'' [b] (Some e))
                | Inr (eh, em) \<Rightarrow>
                    Inr \<lparr>startHour = sh, startMin = sm, endHour = eh, endMin = em,
                         se_uploadMbps = up, se_downloadMbps = down, se_groups = gs\<rparr>)))"

definition parseSchedule :: "SpeedLimiterSchedule \<Rightarrow> go_error + scheduleEntry" where
  "parseSchedule s = parse_range (ss_TimeRange s) (ss_UploadMbps s) (ss_DownloadMbps s) (ss_Groups s)"

definition parseUserSchedule :: "UserSchedule \<Rightarrow> go_error + scheduleEntry" where
  "parseUserSchedule s = parse_range (us_TimeRange s) (us_UploadMbps s) (us_DownloadMbps s) []"

definition matchesTime :: "scheduleEntry \<Rightarrow> int \<Rightarrow> int \<Rightarrow> bool" where
  "matchesTime e hour mn =
     (let t = hour * 60 + mn; start = startHour e * 60 + startMin e; fin = endHour e * 60 + endMin e
      in if start \<le> fin then t \<ge> start \<and> t < fin else t \<ge> start \<or> t < fin)"

text \<open>The \<open>%02d\<close> verb; a negative operand takes its sign from the width.\<close>

definition pad2 :: "int \<Rightarrow> string" where
  "pad2 i = (if i < 0 then CHR ''-'' # pad 1 (nat (- i)) else pad 2 (nat i))"

definition toUserSchedule :: "scheduleEntry \<Rightarrow> UserSchedule" where
  "toUserSchedule e =
     \<lparr>us_TimeRange = pad2 (startHour e) @ '':'' @ pad2 (startMin e) @ ''-'' @
        pad2 (endHour e) @ '':'' @ pad2 (endMin e),
      us_UploadMbps = se_uploadMbps e, us_DownloadMbps = se_downloadMbps e\<rparr>"

section \<open>Resolving the speed of a user\<close>

definition over_group :: "speedConfig option \<Rightarrow> speedConfig \<Rightarrow> speedConfig" where
  "over_group base g =
     (let b = (case base of None \<Rightarrow> zero_speed | Some b \<Rightarrow> b)
      in \<lparr>UploadMbps = (if UploadMbps g > 0 then UploadMbps g else UploadMbps b),
          DownloadMbps = (if DownloadMbps g > 0 then DownloadMbps g else DownloadMbps b),
          PerClient = PerClient g\<rparr>)"

definition over_user :: "speedConfig option \<Rightarrow> speedConfig \<Rightarrow> speedConfig" where
  "over_user base v =
     (let b = (case base of None \<Rightarrow> zero_speed | Some b \<Rightarrow> b)
      in b\<lparr>UploadMbps := (if UploadMbps v > 0 then UploadMbps v else UploadMbps b),
           DownloadMbps := (if DownloadMbps v > 0 then DownloadMbps v else DownloadMbps b)\<rparr>)"

definition resolveConfig :: "configSnapshot \<Rightarrow> string \<Rightarrow> speedConfig option" where
  "resolveConfig s u =
     (let b0 = defaultConfig s;
          b1 = (case userGroups s u of
                  None \<Rightarrow> b0
                | Some gn \<Rightarrow>
                    (case groups s gn of None \<Rightarrow> b0 | Some g \<Rightarrow> Some (over_group b0 g)));
          b2 = (case userOverrides s u of None \<Rightarrow> b1 | Some v \<Rightarrow> Some (over_user b1 v))
      in case userRawConfig s u of
           None \<Rightarrow> b2
         | Some raw \<Rightarrow>
             (case su_PerClient raw of
                None \<Rightarrow> b2
              | Some pc \<Rightarrow>
                  Some ((case b2 of None \<Rightarrow> zero_speed | Some b \<Rightarrow> b)\<lparr>PerClient := pc\<rparr>)))"

definition hasFixedUserUploadOverride :: "configSnapshot \<Rightarrow> string \<Rightarrow> bool" where
  "hasFixedUserUploadOverride s u \<longleftrightarrow>
     (case userRawConfig s u of None \<Rightarrow> False | Some raw \<Rightarrow> su_UploadMbps raw > 0)"

definition hasFixedUserDownloadOverride :: "configSnapshot \<Rightarrow> string \<Rightarrow> bool" where
  "hasFixedUserDownloadOverride s u \<longleftrightarrow>
     (case userRawConfig s u of None \<Rightarrow> False | Some raw \<Rightarrow> su_DownloadMbps raw > 0)"

text \<open>The last element of a list that satisfies a predicate, as the loops over schedules keep it.\<close>

definition last_match :: "('a \<Rightarrow> bool) \<Rightarrow> 'a list \<Rightarrow> 'a option" where
  "last_match P xs = fold (\<lambda>x acc. if P x then Some x else acc) xs None"

type_synonym local_clock = "int \<Rightarrow> int \<times> int"

definition activeGlobalSchedule ::
  "local_clock \<Rightarrow> configSnapshot \<Rightarrow> string \<Rightarrow> int \<Rightarrow> scheduleEntry option" where
  "activeGlobalSchedule hm s u t =
     last_match (\<lambda>e. matchesTime e (fst (hm t)) (snd (hm t)) \<and>
         (se_groups e = [] \<or>
          (case userGroups s u of None \<Rightarrow> False | Some g \<Rightarrow> g \<in> set (se_groups e))))
       (schedules s)"

definition activeUserSchedule ::
  "local_clock \<Rightarrow> configSnapshot \<Rightarrow> string \<Rightarrow> int \<Rightarrow> scheduleEntry option" where
  "activeUserSchedule hm s u t =
     last_match (\<lambda>e. matchesTime e (fst (hm t)) (snd (hm t)))
       (case userSchedules s u of None \<Rightarrow> [] | Some es \<Rightarrow> es)"

definition over_schedule ::
  "configSnapshot \<Rightarrow> string \<Rightarrow> scheduleEntry option \<Rightarrow> speedConfig \<Rightarrow> speedConfig" where
  "over_schedule s u active b =
     (case active of
        None \<Rightarrow> b
      | Some e \<Rightarrow>
          b\<lparr>UploadMbps :=
              (if \<not> hasFixedUserUploadOverride s u \<and> se_uploadMbps e > 0 then se_uploadMbps e
               else UploadMbps b),
            DownloadMbps :=
              (if \<not> hasFixedUserDownloadOverride s u \<and> se_downloadMbps e > 0 then se_downloadMbps e
               else DownloadMbps b)\<rparr>)"

definition effectiveSpeed ::
  "local_clock \<Rightarrow> configSnapshot \<Rightarrow> string \<Rightarrow> int \<Rightarrow> speedConfig option" where
  "effectiveSpeed hm s u t =
     (case (case resolveConfig s u of
              Some b \<Rightarrow> Some b
            | None \<Rightarrow> (case activeUserSchedule hm s u t of None \<Rightarrow> None | Some e \<Rightarrow> Some zero_speed)) of
        None \<Rightarrow> None
      | Some b \<Rightarrow>
          Some (over_schedule s u (activeUserSchedule hm s u t)
                 (over_schedule s u (activeGlobalSchedule hm s u t) b)))"

section \<open>Construction\<close>

fun add_groups ::
  "SpeedLimiterGroup list \<Rightarrow> (string \<rightharpoonup> speedConfig) \<Rightarrow> go_error + (string \<rightharpoonup> speedConfig)" where
  "add_groups [] m = Inr m"
| "add_groups (g # gs) m =
     (if sg_Name g = '''' then Inl (EFmt ''speed-limiter group missing name'' [] None)
      else add_groups gs (m(sg_Name g \<mapsto>
        \<lparr>UploadMbps = sg_UploadMbps g, DownloadMbps = sg_DownloadMbps g,
         PerClient = (case sg_PerClient g of None \<Rightarrow> False | Some b \<Rightarrow> b)\<rparr>)))"

definition put_user :: "SpeedLimiterUser \<Rightarrow> configSnapshot \<Rightarrow> configSnapshot" where
  "put_user u s =
     s\<lparr>userGroups := (if su_Group u = '''' then userGroups s else (userGroups s)(su_Name u \<mapsto> su_Group u)),
       userOverrides :=
         (if su_UploadMbps u > 0 \<or> su_DownloadMbps u > 0
          then (userOverrides s)(su_Name u \<mapsto>
            \<lparr>UploadMbps = su_UploadMbps u, DownloadMbps = su_DownloadMbps u, PerClient = False\<rparr>)
          else userOverrides s),
       userRawConfig := (userRawConfig s)(su_Name u \<mapsto> u)\<rparr>"

fun add_users :: "SpeedLimiterUser list \<Rightarrow> configSnapshot \<Rightarrow> go_error + configSnapshot" where
  "add_users [] s = Inr s"
| "add_users (u # us) s =
     (if su_Name u = '''' then Inl (EFmt ''speed-limiter user missing name'' [] None)
      else if su_Group u \<noteq> '''' \<and> groups s (su_Group u) = None then
        Inl (EFmt ''speed-limiter user %q references unknown group %q'' [su_Name u, su_Group u] None)
      else add_users us (put_user u s))"

fun parse_all :: "('a \<Rightarrow> go_error + scheduleEntry) \<Rightarrow> 'a list \<Rightarrow> go_error + scheduleEntry list" where
  "parse_all f [] = Inr []"
| "parse_all f (x # xs) =
     (case f x of
        Inl e \<Rightarrow> Inl e
      | Inr y \<Rightarrow> (case parse_all f xs of Inl e \<Rightarrow> Inl e | Inr ys \<Rightarrow> Inr (y # ys)))"

record SpeedLimiterServiceOptions =
  so_Default :: "SpeedLimiterDefault option"
  so_Groups :: "SpeedLimiterGroup list"
  so_Users :: "SpeedLimiterUser list"
  so_Schedules :: "SpeedLimiterSchedule list"

definition new_snapshot :: "SpeedLimiterServiceOptions \<Rightarrow> go_error + configSnapshot" where
  "new_snapshot opts =
     (let ttl = (case so_Default opts of
                   Some d \<Rightarrow> if sd_ClientTTLMinutes d > 0 then wrap_i64 (sd_ClientTTLMinutes d * minute_ns) else 0
                 | None \<Rightarrow> 0);
          s0 = \<lparr>defaultConfig = map_option (\<lambda>d. \<lparr>UploadMbps = sd_UploadMbps d,
                   DownloadMbps = sd_DownloadMbps d, PerClient = sd_PerClient d\<rparr>) (so_Default opts),
                groups = Map.empty, userGroups = Map.empty, userOverrides = Map.empty,
                userRawConfig = Map.empty, schedules = [], userSchedules = Map.empty,
                clientTTL = (if ttl = 0 then defaultClientTTLMinutes * minute_ns else ttl)\<rparr>
      in case add_groups (so_Groups opts) Map.empty of
           Inl e \<Rightarrow> Inl e
         | Inr gs \<Rightarrow>
             (case add_users (so_Users opts) (s0\<lparr>groups := gs\<rparr>) of
                Inl e \<Rightarrow> Inl e
              | Inr s1 \<Rightarrow>
                  (case parse_all parseSchedule (so_Schedules opts) of
                     Inl e \<Rightarrow> Inl e
                   | Inr es \<Rightarrow> Inr (s1\<lparr>schedules := es\<rparr>))))"

section \<open>Printing and parsing schedules\<close>

definition valid_entry :: "scheduleEntry \<Rightarrow> bool" where
  "valid_entry e \<longleftrightarrow>
     0 \<le> startHour e \<and> startHour e \<le> 23 \<and> 0 \<le> startMin e \<and> startMin e \<le> 59 \<and>
     0 \<le> endHour e \<and> endHour e \<le> 23 \<and> 0 \<le> endMin e \<and> endMin e \<le> 59"

lemma space_ends:
  assumes "w \<in> set unicode_spaces"
  shows "w \<noteq> []"
    and "(of_char (hd w) :: nat) < 48 \<or> 57 < (of_char (hd w) :: nat)"
    and "(of_char (last w) :: nat) < 48 \<or> 57 < (of_char (last w) :: nat)"
  using assms unfolding unicode_spaces_def by auto

lemma TrimSpace_id:
  assumes "s \<noteq> []"
    and "48 \<le> (of_char (hd s) :: nat)" and "(of_char (hd s) :: nat) \<le> 57"
    and "48 \<le> (of_char (last s) :: nat)" and "(of_char (last s) :: nat) \<le> 57"
  shows "TrimSpace s = s"
proof -
  have "strip unicode_spaces s = s"
  proof (rule strip_id)
    fix w assume "w \<in> set unicode_spaces" and "w \<noteq> []"
    with space_ends(2) [of w] assms(2,3) have "hd w \<noteq> hd s" by auto
    with \<open>w \<noteq> []\<close> show "\<not> HasPrefix s w" by (auto simp: HasPrefix_iff)
  qed
  moreover have "strip (map rev unicode_spaces) (rev s) = rev s"
  proof (rule strip_id)
    fix w assume w: "w \<in> set (map rev unicode_spaces)" and "w \<noteq> []"
    then have "rev w \<in> set unicode_spaces" by auto
    with space_ends(3) [of "rev w"] assms(4,5) \<open>w \<noteq> []\<close> have "hd w \<noteq> last s"
      by (auto simp: last_rev)
    with \<open>w \<noteq> []\<close> assms(1) show "\<not> HasPrefix (rev s) w"
      by (auto simp: HasPrefix_iff hd_rev [symmetric])
  qed
  ultimately show ?thesis by (simp add: TrimSpace_def)
qed

lemma pad_digits: "c \<in> set (pad w n) \<Longrightarrow> 48 \<le> (of_char c :: nat) \<and> (of_char c :: nat) \<le> 57"
  using not_in_pad [of c w n] by (cases "(of_char c :: nat) < 48 \<or> 57 < (of_char c :: nat)") auto

lemma pad_nonempty [simp]: "pad w n \<noteq> []"
  by (simp add: pad_def)

lemma colon_hyphen_not_in_pad: "CHR '':'' \<notin> set (pad w n)" "CHR ''-'' \<notin> set (pad w n)"
  by (rule not_in_pad, simp)+

lemma parseTime_printed:
  assumes "0 \<le> h" "h \<le> 23" "0 \<le> m" "m \<le> 59"
  shows "parseTime (pad2 h @ CHR '':'' # pad2 m) = Inr (h, m)"
proof -
  have p: "pad2 h = pad 2 (nat h)" "pad2 m = pad 2 (nat m)"
    using assms by (simp_all add: pad2_def)
  have t: "TrimSpace (pad2 h @ CHR '':'' # pad2 m) = pad2 h @ CHR '':'' # pad2 m"
  proof (rule TrimSpace_id)
    have "hd (pad2 h @ CHR '':'' # pad2 m) \<in> set (pad 2 (nat h))"
      and "last (pad2 h @ CHR '':'' # pad2 m) \<in> set (pad 2 (nat m))"
      by (simp_all add: p)
    note pad_digits [OF this(1)] pad_digits [OF this(2)]
    then show "48 \<le> (of_char (hd (pad2 h @ CHR '':'' # pad2 m)) :: nat)"
      and "(of_char (hd (pad2 h @ CHR '':'' # pad2 m)) :: nat) \<le> 57"
      and "48 \<le> (of_char (last (pad2 h @ CHR '':'' # pad2 m)) :: nat)"
      and "(of_char (last (pad2 h @ CHR '':'' # pad2 m)) :: nat) \<le> 57" by blast+
  qed simp
  have "parse_int64 (pad 2 (nat h)) = Some h" "parse_int64 (pad 2 (nat m)) = Some m"
    using assms by (simp_all add: parse_int64_pad)
  with assms t show ?thesis
    by (simp add: parseTime_def p str_cut_append colon_hyphen_not_in_pad)
qed

lemma parse_range_printed:
  assumes "valid_entry e"
  shows "parse_range (us_TimeRange (toUserSchedule e)) up down gs =
    Inr (e\<lparr>se_uploadMbps := up, se_downloadMbps := down, se_groups := gs\<rparr>)"
proof -
  have v: "0 \<le> startHour e" "startHour e \<le> 23" "0 \<le> startMin e" "startMin e \<le> 59"
    "0 \<le> endHour e" "endHour e \<le> 23" "0 \<le> endMin e" "endMin e \<le> 59"
    using assms by (simp_all add: valid_entry_def)
  have "CHR ''-'' \<notin> set (pad2 (startHour e) @ CHR '':'' # pad2 (startMin e))"
    using v by (simp add: pad2_def colon_hyphen_not_in_pad)
  from str_cut_append [OF this, of "pad2 (endHour e) @ CHR '':'' # pad2 (endMin e)"]
  have c: "str_cut (CHR ''-'') (us_TimeRange (toUserSchedule e)) =
      Some (pad2 (startHour e) @ CHR '':'' # pad2 (startMin e),
            pad2 (endHour e) @ CHR '':'' # pad2 (endMin e))"
    by (simp add: toUserSchedule_def)
  show ?thesis
    unfolding parse_range_def c using v by (cases e) (simp add: parseTime_printed)
qed

lemma parseTime_bounds:
  "parseTime s = Inr (h, m) \<Longrightarrow> 0 \<le> h \<and> h \<le> 23 \<and> 0 \<le> m \<and> m \<le> 59"
  by (auto simp: parseTime_def Let_def split: option.splits if_splits)

lemma parse_range_valid:
  "parse_range rng up down gs = Inr e \<Longrightarrow>
     valid_entry e \<and> se_uploadMbps e = up \<and> se_downloadMbps e = down \<and> se_groups e = gs"
  by (auto simp: parse_range_def valid_entry_def dest!: parseTime_bounds
      split: option.splits sum.splits)

text \<open>
  A schedule that parses denotes times of day within 00:00 and 23:59 and keeps its speeds,
  and printing it with \<open>toUserSchedule\<close> and parsing the result again gives the same entry.
\<close>
theorem schedule_roundtrip:
  assumes "parseUserSchedule s = Inr e"
  shows "valid_entry e \<and> se_uploadMbps e = us_UploadMbps s \<and> se_downloadMbps e = us_DownloadMbps s \<and>
    parseUserSchedule (toUserSchedule e) = Inr e"
proof -
  have p: "parse_range (us_TimeRange s) (us_UploadMbps s) (us_DownloadMbps s) [] = Inr e"
    using assms by (simp add: parseUserSchedule_def)
  note v = parse_range_valid [OF p]
  moreover have "parseUserSchedule (toUserSchedule e) = Inr e"
    using v by (simp add: parseUserSchedule_def parse_range_printed, simp add: toUserSchedule_def)
  ultimately show ?thesis by blast
qed

theorem schedule_roundtrip_witness:
  "\<exists>e. parseUserSchedule \<lparr>us_TimeRange = ''07:05-23:09'', us_UploadMbps = 4, us_DownloadMbps = 0\<rparr> = Inr e \<and>
     endHour e = 23 \<and> parseUserSchedule (toUserSchedule e) = Inr e"
proof -
  let ?e = "\<lparr>startHour = 7, startMin = 5, endHour = 23, endMin = 9,
    se_uploadMbps = 4, se_downloadMbps = 0, se_groups = []\<rparr>"
  have "us_TimeRange (toUserSchedule ?e) = ''07:05-23:09''" by code_simp
  with parse_range_printed [of ?e 4 0 "[]"]
  have p: "parseUserSchedule \<lparr>us_TimeRange = ''07:05-23:09'', us_UploadMbps = 4, us_DownloadMbps = 0\<rparr> = Inr ?e"
    by (simp add: parseUserSchedule_def valid_entry_def)
  with schedule_roundtrip [OF p] show ?thesis by (intro exI [of _ ?e]) simp
qed

section \<open>Matching a time of day\<close>

text \<open>
  A schedule is a half-open arc of the daily clock: it matches exactly the times whose
  distance from its start, going round midnight, is less than its length. In particular a
  range with equal ends matches nothing.
\<close>
theorem matchesTime_circular:
  assumes "valid_entry e" and "0 \<le> h" "h \<le> 23" "0 \<le> m" "m \<le> 59"
  shows "matchesTime e h m \<longleftrightarrow>
    ((h * 60 + m) - (startHour e * 60 + startMin e)) mod 1440 <
    ((endHour e * 60 + endMin e) - (startHour e * 60 + startMin e)) mod 1440"
proof -
  define t s f where "t = h * 60 + m" and "s = startHour e * 60 + startMin e"
    and "f = endHour e * 60 + endMin e"
  have b: "0 \<le> t" "t < 1440" "0 \<le> s" "s < 1440" "0 \<le> f" "f < 1440"
    using assms by (auto simp: t_def s_def f_def valid_entry_def)
  have d: "(x - s) mod 1440 = (if s \<le> x then x - s else x - s + 1440)"
    if "0 \<le> x" "x < 1440" for x
  proof (cases "s \<le> x")
    case False
    have "(x - s) mod 1440 = (x - s + 1440) mod 1440" by simp
    also have "\<dots> = x - s + 1440" using False that b by (intro mod_pos_pos_trivial) auto
    finally show ?thesis using False by simp
  qed (use that b in \<open>auto intro: mod_pos_pos_trivial\<close>)
  show ?thesis
    using b unfolding matchesTime_def Let_def t_def [symmetric] s_def [symmetric] f_def [symmetric]
      d [OF b(1,2)] d [OF b(5,6)] by auto
qed

theorem matchesTime_circular_witness:
  "let e = \<lparr>startHour = 23, startMin = 0, endHour = 6, endMin = 0,
     se_uploadMbps = 1, se_downloadMbps = 1, se_groups = []\<rparr>
   in matchesTime e 2 30 \<and> (2 * 60 + 30 - 23 * 60) mod 1440 < (6 * 60 - 23 * 60) mod (1440 :: int)"
  unfolding Let_def
  by (subst matchesTime_circular) (simp_all add: valid_entry_def)

section \<open>Priority of the sources of a speed\<close>

text \<open>
  The specification of a speed: the first positive candidate, else a fallback. The candidates
  of a user are the schedules, unless the user's own configuration fixes the direction, then
  the user's override and the group; the fallback is the default configuration.
\<close>

fun first_positive :: "int list \<Rightarrow> int \<Rightarrow> int" where
  "first_positive [] d = d"
| "first_positive (x # xs) d = (if x > 0 then x else first_positive xs d)"

definition opt_field :: "('a \<Rightarrow> int) \<Rightarrow> 'a option \<Rightarrow> int" where
  "opt_field f x = (case x of None \<Rightarrow> 0 | Some a \<Rightarrow> f a)"

definition group_config :: "configSnapshot \<Rightarrow> string \<Rightarrow> speedConfig option" where
  "group_config s u = Option.bind (userGroups s u) (groups s)"

definition candidates ::
  "local_clock \<Rightarrow> configSnapshot \<Rightarrow> string \<Rightarrow> int \<Rightarrow> bool \<Rightarrow>
     (scheduleEntry \<Rightarrow> int) \<Rightarrow> (speedConfig \<Rightarrow> int) \<Rightarrow> int list" where
  "candidates hm s u t fixed sched speed =
     (if fixed then []
      else [opt_field sched (activeUserSchedule hm s u t), opt_field sched (activeGlobalSchedule hm s u t)]) @
     [opt_field speed (userOverrides s u), opt_field speed (group_config s u)]"

lemmas priority_defs = opt_field_def group_config_def zero_speed_def Let_def

lemma resolve_speeds:
  "opt_field UploadMbps (resolveConfig s u) = first_positive
     [opt_field UploadMbps (userOverrides s u), opt_field UploadMbps (group_config s u)]
     (opt_field UploadMbps (defaultConfig s))"
  "opt_field DownloadMbps (resolveConfig s u) = first_positive
     [opt_field DownloadMbps (userOverrides s u), opt_field DownloadMbps (group_config s u)]
     (opt_field DownloadMbps (defaultConfig s))"
proof -
  define b1 where "b1 = (case userGroups s u of None \<Rightarrow> defaultConfig s
    | Some gn \<Rightarrow> (case groups s gn of None \<Rightarrow> defaultConfig s | Some g \<Rightarrow> Some (over_group (defaultConfig s) g)))"
  define b2 where "b2 = (case userOverrides s u of None \<Rightarrow> b1 | Some v \<Rightarrow> Some (over_user b1 v))"
  have 1: "opt_field UploadMbps b1 = first_positive [opt_field UploadMbps (group_config s u)]
      (opt_field UploadMbps (defaultConfig s))"
    "opt_field DownloadMbps b1 = first_positive [opt_field DownloadMbps (group_config s u)]
      (opt_field DownloadMbps (defaultConfig s))"
    unfolding b1_def by (simp_all add: priority_defs over_group_def split: option.splits)
  have 2: "opt_field UploadMbps b2 = first_positive [opt_field UploadMbps (userOverrides s u)]
      (opt_field UploadMbps b1)"
    "opt_field DownloadMbps b2 = first_positive [opt_field DownloadMbps (userOverrides s u)]
      (opt_field DownloadMbps b1)"
    unfolding b2_def by (simp_all add: priority_defs over_user_def split: option.splits)
  have 3: "resolveConfig s u = (case userRawConfig s u of None \<Rightarrow> b2 | Some raw \<Rightarrow>
      (case su_PerClient raw of None \<Rightarrow> b2
       | Some pc \<Rightarrow> Some ((case b2 of None \<Rightarrow> zero_speed | Some b \<Rightarrow> b)\<lparr>PerClient := pc\<rparr>)))"
    unfolding resolveConfig_def Let_def b1_def [symmetric] b2_def [symmetric] ..
  have 4: "opt_field UploadMbps (resolveConfig s u) = opt_field UploadMbps b2"
    "opt_field DownloadMbps (resolveConfig s u) = opt_field DownloadMbps b2"
    unfolding 3 by (simp_all add: opt_field_def zero_speed_def split: option.splits)
  show "opt_field UploadMbps (resolveConfig s u) = first_positive
     [opt_field UploadMbps (userOverrides s u), opt_field UploadMbps (group_config s u)]
     (opt_field UploadMbps (defaultConfig s))" by (simp add: 4 2 1)
  show "opt_field DownloadMbps (resolveConfig s u) = first_positive
     [opt_field DownloadMbps (userOverrides s u), opt_field DownloadMbps (group_config s u)]
     (opt_field DownloadMbps (defaultConfig s))" by (simp add: 4 2 1)
qed

lemma effective_None_iff:
  "effectiveSpeed hm s u t = None \<longleftrightarrow>
     resolveConfig s u = None \<and> activeUserSchedule hm s u t = None"
  by (auto simp: effectiveSpeed_def split: option.splits)

lemma effective_Some:
  "effectiveSpeed hm s u t = Some c \<Longrightarrow>
     c = over_schedule s u (activeUserSchedule hm s u t) (over_schedule s u (activeGlobalSchedule hm s u t)
           (case resolveConfig s u of None \<Rightarrow> zero_speed | Some b \<Rightarrow> b))"
  by (auto simp: effectiveSpeed_def split: option.splits)

lemma over_schedule_speeds:
  "UploadMbps (over_schedule s u a b) =
     (if hasFixedUserUploadOverride s u then UploadMbps b
      else first_positive [opt_field se_uploadMbps a] (UploadMbps b))"
  "DownloadMbps (over_schedule s u a b) =
     (if hasFixedUserDownloadOverride s u then DownloadMbps b
      else first_positive [opt_field se_downloadMbps a] (DownloadMbps b))"
  "PerClient (over_schedule s u a b) = PerClient b"
  by (simp_all add: over_schedule_def opt_field_def split: option.splits)

lemma opt_base:
  "UploadMbps (case r of None \<Rightarrow> zero_speed | Some b \<Rightarrow> b) = opt_field UploadMbps r"
  "DownloadMbps (case r of None \<Rightarrow> zero_speed | Some b \<Rightarrow> b) = opt_field DownloadMbps r"
  by (simp_all add: opt_field_def zero_speed_def split: option.splits)

lemma effective_upload:
  assumes "effectiveSpeed hm s u t = Some c"
  shows "UploadMbps c = first_positive
    (candidates hm s u t (hasFixedUserUploadOverride s u) se_uploadMbps UploadMbps)
    (opt_field UploadMbps (defaultConfig s))"
  unfolding effective_Some [OF assms] over_schedule_speeds opt_base resolve_speeds candidates_def by simp

lemma effective_download:
  assumes "effectiveSpeed hm s u t = Some c"
  shows "DownloadMbps c = first_positive
    (candidates hm s u t (hasFixedUserDownloadOverride s u) se_downloadMbps DownloadMbps)
    (opt_field DownloadMbps (defaultConfig s))"
  unfolding effective_Some [OF assms] over_schedule_speeds opt_base resolve_speeds candidates_def by simp

lemma resolve_per_client:
  "PerClient (case resolveConfig s u of None \<Rightarrow> zero_speed | Some b \<Rightarrow> b) =
    (case Option.bind (userRawConfig s u) su_PerClient of
       Some b \<Rightarrow> b
     | None \<Rightarrow> (case group_config s u of
                  Some g \<Rightarrow> PerClient g
                | None \<Rightarrow> (case defaultConfig s of Some d \<Rightarrow> PerClient d | None \<Rightarrow> False)))"
  by (cases "userGroups s u"; cases "userOverrides s u")
     (simp_all add: resolveConfig_def over_group_def over_user_def priority_defs split: option.splits)

lemma effective_per_client:
  assumes "effectiveSpeed hm s u t = Some c"
  shows "PerClient c \<longleftrightarrow>
    (case Option.bind (userRawConfig s u) su_PerClient of
       Some b \<Rightarrow> b
     | None \<Rightarrow> (case group_config s u of
                  Some g \<Rightarrow> PerClient g
                | None \<Rightarrow> (case defaultConfig s of Some d \<Rightarrow> PerClient d | None \<Rightarrow> False)))"
  unfolding effective_Some [OF assms] over_schedule_speeds resolve_per_client ..

lemma resolve_None_iff:
  "resolveConfig s u = None \<longleftrightarrow>
     defaultConfig s = None \<and> group_config s u = None \<and> userOverrides s u = None \<and>
     Option.bind (userRawConfig s u) su_PerClient = None"
  by (cases "defaultConfig s"; cases "userGroups s u")
     (auto simp: resolveConfig_def group_config_def Let_def split: option.splits)

lemma matching_snoc:
  "fold (\<lambda>x acc. if P x then Some x else acc) xs a =
     (case filter P xs of [] \<Rightarrow> a | ys \<Rightarrow> Some (last ys))"
  by (induction xs arbitrary: a) (auto split: list.splits)

lemma last_match_eq: "last_match P xs = (if filter P xs = [] then None else Some (last (filter P xs)))"
  by (auto simp: last_match_def matching_snoc split: list.splits)

text \<open>
  \<open>effectiveSpeed\<close> implements the documented priority: a user is unlimited exactly when
  neither default, group, override nor an own schedule in force applies; otherwise each
  direction is the first positive of the user's schedule, the global schedule, the override
  and the group, the schedules being skipped for a direction the user's configuration fixes,
  and the default when none is positive. Per-client mode comes from the user, else the group,
  else the default; of several schedules in force the last listed wins.
\<close>
theorem effectiveSpeed_priority:
  "case effectiveSpeed hm s u t of
     None \<Rightarrow> defaultConfig s = None \<and> group_config s u = None \<and> userOverrides s u = None \<and>
       Option.bind (userRawConfig s u) su_PerClient = None \<and> activeUserSchedule hm s u t = None
   | Some c \<Rightarrow>
       UploadMbps c = first_positive
         (candidates hm s u t (hasFixedUserUploadOverride s u) se_uploadMbps UploadMbps)
         (opt_field UploadMbps (defaultConfig s)) \<and>
       DownloadMbps c = first_positive
         (candidates hm s u t (hasFixedUserDownloadOverride s u) se_downloadMbps DownloadMbps)
         (opt_field DownloadMbps (defaultConfig s)) \<and>
       PerClient c =
         (case Option.bind (userRawConfig s u) su_PerClient of
            Some b \<Rightarrow> b
          | None \<Rightarrow> (case group_config s u of
                       Some g \<Rightarrow> PerClient g
                     | None \<Rightarrow> (case defaultConfig s of Some d \<Rightarrow> PerClient d | None \<Rightarrow> False))) \<and>
       activeUserSchedule hm s u t =
         (let es = filter (\<lambda>e. matchesTime e (fst (hm t)) (snd (hm t)))
                     (case userSchedules s u of None \<Rightarrow> [] | Some es \<Rightarrow> es)
          in if es = [] then None else Some (last es))"
proof (cases "effectiveSpeed hm s u t")
  case None
  then have "resolveConfig s u = None" and "activeUserSchedule hm s u t = None"
    by (simp_all add: effective_None_iff)
  with None show ?thesis by (simp add: resolve_None_iff)
next
  case (Some c)
  show ?thesis
    unfolding Some option.case effective_upload [OF Some] effective_download [OF Some]
      effective_per_client [OF Some] activeUserSchedule_def last_match_eq Let_def
    by (intro conjI refl)
qed

end
