(* ===== verification/SpeedManager.thy ===== *)
theory SpeedManager
  imports SpeedConfig
begin

text \<open>
  The limiter manager and the throttled connections of the speed limiter:
  \<open>src/service/speedlimiter/manager.go\<close> from \<open>LimiterManager\<close> on, and
  \<open>src/service/speedlimiter/conn.go\<close>.

  \<open>golang.org/x/time/rate\<close> is a third-party package: a record of its operations on the state
  \<open>'l\<close> of one limiter, with the documented laws as the locale \<open>rate_limiters\<close>. A
  \<open>*rate.Limiter\<close> is an index into the list \<open>lims\<close> of all limiters ever made, since the
  map of limiters and the connections that captured a pointer at setup share the object.
  A \<open>*UserLimiter\<close> is reachable from the map alone, so the map holds it by value.
\<close>

section \<open>The rate package\<close>

datatype rate_limit = RateInf | Rate int

record ('c, 'l) rate_pkg =
  rl_NewLimiter :: "rate_limit \<Rightarrow> int \<Rightarrow> 'l"
  rl_SetLimit :: "rate_limit \<Rightarrow> 'l \<Rightarrow> 'l"
  rl_SetBurst :: "int \<Rightarrow> 'l \<Rightarrow> 'l"
  rl_Burst :: "'l \<Rightarrow> int"
  rl_WaitN :: "'c \<Rightarrow> int \<Rightarrow> 'l \<Rightarrow> go_error option \<times> 'l"

section \<open>Limiters and throttled connections\<close>

type_synonym lim_id = nat

definition MbpsToBps :: int where "MbpsToBps = 125000"

text \<open>\<open>float64(mbps) * float64(MbpsToBps)\<close>, which is integral, and its truncation to \<open>int\<close>.\<close>

definition bps_of :: "int \<Rightarrow> int" where
  "bps_of mbps = f64_of_int (f64_of_int mbps * MbpsToBps)"

definition burst_of :: "int \<Rightarrow> int" where
  "burst_of mbps = (let burst = trunc_i64 (bps_of mbps) in if burst \<le> 0 then 1 else burst)"

definition NewLimiter :: "('c, 'l) rate_pkg \<Rightarrow> int \<Rightarrow> 'l list \<Rightarrow> lim_id option \<times> 'l list" where
  "NewLimiter R mbps h =
     (if mbps \<le> 0 then (None, h)
      else (Some (length h), h @ [rl_NewLimiter R (Rate (bps_of mbps)) (burst_of mbps)]))"

definition SetLimiterRate :: "('c, 'l) rate_pkg \<Rightarrow> lim_id option \<Rightarrow> int \<Rightarrow> 'l list \<Rightarrow> 'l list" where
  "SetLimiterRate R p mbps h =
     (case p of
        None \<Rightarrow> h
      | Some i \<Rightarrow>
          (let h1 = h[i := rl_SetLimit R (Rate (bps_of mbps)) (h ! i)]
           in h1[i := rl_SetBurst R (burst_of mbps) (h1 ! i)]))"

definition neutralizeLimiter :: "('c, 'l) rate_pkg \<Rightarrow> lim_id option \<Rightarrow> 'l list \<Rightarrow> 'l list" where
  "neutralizeLimiter R p h =
     (case p of None \<Rightarrow> h | Some i \<Rightarrow> h[i := rl_SetLimit R RateInf (h ! i)])"

definition reconcileLimiterDirection ::
  "('c, 'l) rate_pkg \<Rightarrow> lim_id option \<Rightarrow> int \<Rightarrow> 'l list \<Rightarrow> lim_id option \<times> 'l list" where
  "reconcileLimiterDirection R p mbps h =
     (if mbps > 0 \<and> p = None then NewLimiter R mbps h
      else if mbps > 0 then (p, SetLimiterRate R p mbps h)
      else (None, neutralizeLimiter R p h))"

text \<open>The loop of \<open>waitN\<close>; not returning is \<open>None\<close>.\<close>

partial_function (option) wait_loop ::
  "('c, 'l) rate_pkg \<Rightarrow> 'c \<Rightarrow> int \<Rightarrow> int \<Rightarrow> 'l \<Rightarrow> (go_error option \<times> 'l) option" where
  "wait_loop R ctx burst n l =
     (if n > 0 then
        (let chunk = (if n > burst then burst else n)
         in case rl_WaitN R ctx chunk l of
              (Some e, l') \<Rightarrow> Some (Some e, l')
            | (None, l') \<Rightarrow> wait_loop R ctx burst (n - chunk) l')
      else Some (None, l))"

definition waitN ::
  "('c, 'l) rate_pkg \<Rightarrow> 'c \<Rightarrow> lim_id \<Rightarrow> int \<Rightarrow> 'l list \<Rightarrow> (go_error option \<times> 'l list) option" where
  "waitN R ctx i n h =
     (let burst = rl_Burst R (h ! i); burst = (if burst \<le> 0 then 1 else burst)
      in case wait_loop R ctx burst n (h ! i) of
           None \<Rightarrow> None
         | Some (err, l) \<Rightarrow> Some (err, h[i := l]))"

record throttled_conn =
  tc_upload :: "lim_id option"
  tc_download :: "lim_id option"

text \<open>\<open>None\<close>: the caller gets back the connection it passed in.\<close>

definition NewThrottledConn :: "lim_id option \<Rightarrow> lim_id option \<Rightarrow> throttled_conn option" where
  "NewThrottledConn up down =
     (if up = None \<and> down = None then None else Some \<lparr>tc_upload = up, tc_download = down\<rparr>)"

text \<open>\<open>inner\<close> is what the wrapped connection's \<open>Read\<close> returns.\<close>

definition ThrottledConn_Read ::
  "('c, 'l) rate_pkg \<Rightarrow> 'c \<Rightarrow> int \<times> go_error option \<Rightarrow> throttled_conn \<Rightarrow> 'l list \<Rightarrow>
     ((int \<times> go_error option) \<times> 'l list) option" where
  "ThrottledConn_Read R ctx inner c h =
     (let (n, err) = inner
      in case tc_upload c of
           None \<Rightarrow> Some ((n, err), h)
         | Some i \<Rightarrow>
             if n > 0 then
               (case waitN R ctx i n h of
                  None \<Rightarrow> None
                | Some (Some waitErr, h') \<Rightarrow> Some ((n, Some waitErr), h')
                | Some (None, h') \<Rightarrow> Some ((n, err), h'))
             else Some ((n, err), h))"

text \<open>\<open>inner\<close> is what the wrapped \<open>Write\<close> would return; the flag says whether it was called.\<close>

definition ThrottledConn_Write ::
  "('c, 'l) rate_pkg \<Rightarrow> 'c \<Rightarrow> int \<Rightarrow> int \<times> go_error option \<Rightarrow> throttled_conn \<Rightarrow> 'l list \<Rightarrow>
     (bool \<times> (int \<times> go_error option) \<times> 'l list) option" where
  "ThrottledConn_Write R ctx len inner c h =
     (case tc_download c of
        None \<Rightarrow> Some (True, inner, h)
      | Some i \<Rightarrow>
          if len > 0 then
            (case waitN R ctx i len h of
               None \<Rightarrow> None
             | Some (Some waitErr, h') \<Rightarrow> Some (False, (0, Some waitErr), h')
             | Some (None, h') \<Rightarrow> Some (True, inner, h'))
          else Some (True, inner, h))"

definition ReadPacket ::
  "('c, 'l) rate_pkg \<Rightarrow> 'c \<Rightarrow> int \<times> go_error option \<Rightarrow> throttled_conn \<Rightarrow> 'l list \<Rightarrow>
     (go_error option \<times> 'l list) option" where
  "ReadPacket R ctx inner c h =
     (let (n, err) = inner
      in case tc_upload c of
           None \<Rightarrow> Some (err, h)
         | Some i \<Rightarrow>
             if err = None \<and> n > 0 then
               (case waitN R ctx i n h of
                  None \<Rightarrow> None
                | Some (Some waitErr, h') \<Rightarrow> Some (Some waitErr, h')
                | Some (None, h') \<Rightarrow> Some (err, h'))
             else Some (err, h))"

definition WritePacket ::
  "('c, 'l) rate_pkg \<Rightarrow> 'c \<Rightarrow> int \<Rightarrow> go_error option \<Rightarrow> throttled_conn \<Rightarrow> 'l list \<Rightarrow>
     (bool \<times> go_error option \<times> 'l list) option" where
  "WritePacket R ctx len inner c h =
     (case tc_download c of
        None \<Rightarrow> Some (True, inner, h)
      | Some i \<Rightarrow>
          if len > 0 then
            (case waitN R ctx i len h of
               None \<Rightarrow> None
             | Some (Some waitErr, h') \<Rightarrow> Some (False, Some waitErr, h')
             | Some (None, h') \<Rightarrow> Some (True, inner, h'))
          else Some (True, inner, h))"

section \<open>The limiter manager\<close>

record UserLimiter =
  ul_Upload :: "lim_id option"
  ul_Download :: "lim_id option"
  lastActive :: int

definition clientLimiterKeySep :: string where "clientLimiterKeySep = ''|''"

record 'l limiter_manager =
  config :: configSnapshot
  limiters :: "string \<rightharpoonup> UserLimiter"
  lastCheckTime :: int
  hasChecked :: bool
  lims :: "'l list"

definition NewLimiterManager :: "SpeedLimiterServiceOptions \<Rightarrow> go_error + 'l limiter_manager" where
  "NewLimiterManager opts =
     (case new_snapshot opts of
        Inl e \<Rightarrow> Inl e
      | Inr snap \<Rightarrow>
          Inr \<lparr>config = snap, limiters = Map.empty, lastCheckTime = 0, hasChecked = False, lims = []\<rparr>)"

text \<open>The speed a new connection gets: as of the last check, or the static one before any.\<close>

definition current_config :: "local_clock \<Rightarrow> 'l limiter_manager \<Rightarrow> string \<Rightarrow> speedConfig option" where
  "current_config hm m u =
     (if hasChecked m then effectiveSpeed hm (config m) u (lastCheckTime m)
      else resolveConfig (config m) u)"

text \<open>
  A source address is its printed form, or \<open>None\<close> for the zero \<open>netip.Addr\<close>. The result of
  \<open>m.now().Unix()\<close> is \<open>nowUnix\<close>.
\<close>

definition limiter_key :: "string \<Rightarrow> speedConfig \<Rightarrow> string option \<Rightarrow> string" where
  "limiter_key u cfg addr =
     (case addr of
        Some a \<Rightarrow> if PerClient cfg then u @ clientLimiterKeySep @ a else u
      | None \<Rightarrow> u)"

definition GetOrCreateLimiterForClient ::
  "('c, 'l) rate_pkg \<Rightarrow> local_clock \<Rightarrow> string \<Rightarrow> string option \<Rightarrow> int \<Rightarrow> 'l limiter_manager \<Rightarrow>
     UserLimiter option \<times> 'l limiter_manager" where
  "GetOrCreateLimiterForClient R hm u addr nowUnix m =
     (case current_config hm m u of
        None \<Rightarrow> (None, m)
      | Some cfg \<Rightarrow>
          (let key = limiter_key u cfg addr
           in case limiters m key of
                Some ul \<Rightarrow>
                  (let ul' = ul\<lparr>lastActive := nowUnix\<rparr>
                   in (Some ul', m\<lparr>limiters := (limiters m)(key \<mapsto> ul')\<rparr>))
              | None \<Rightarrow>
                  (let (up, h1) = NewLimiter R (UploadMbps cfg) (lims m);
                       (down, h2) = NewLimiter R (DownloadMbps cfg) h1
                   in if up = None \<and> down = None then (None, m\<lparr>lims := h2\<rparr>)
                      else
                        (let ul = \<lparr>ul_Upload = up, ul_Download = down, lastActive = nowUnix\<rparr>
                         in (Some ul, m\<lparr>lims := h2, limiters := (limiters m)(key \<mapsto> ul)\<rparr>)))))"

definition GetOrCreateLimiter ::
  "('c, 'l) rate_pkg \<Rightarrow> local_clock \<Rightarrow> string \<Rightarrow> int \<Rightarrow> 'l limiter_manager \<Rightarrow>
     UserLimiter option \<times> 'l limiter_manager" where
  "GetOrCreateLimiter R hm u nowUnix m = GetOrCreateLimiterForClient R hm u None nowUnix m"

definition CurrentSpeed :: "local_clock \<Rightarrow> string \<Rightarrow> 'l limiter_manager \<Rightarrow> (int \<times> int) option" where
  "CurrentSpeed hm u m =
     map_option (\<lambda>cfg. (UploadMbps cfg, DownloadMbps cfg)) (current_config hm m u)"

definition extractUserName :: "string \<Rightarrow> string" where
  "extractUserName key = (case str_cut (CHR ''|'') key of Some (name, rest) \<Rightarrow> name | None \<Rightarrow> key)"

text \<open>One visit of \<open>updateLimiterRates\<close>; \<open>order\<close> is the order the runtime visits the map in.\<close>

definition update_key ::
  "('c, 'l) rate_pkg \<Rightarrow> local_clock \<Rightarrow> int \<Rightarrow> string \<Rightarrow> 'l limiter_manager \<Rightarrow> 'l limiter_manager" where
  "update_key R hm t key m =
     (case limiters m key of
        None \<Rightarrow> m
      | Some ul \<Rightarrow>
          (case effectiveSpeed hm (config m) (extractUserName key) t of
             None \<Rightarrow>
               m\<lparr>lims := neutralizeLimiter R (ul_Download ul) (neutralizeLimiter R (ul_Upload ul) (lims m)),
                 limiters := (limiters m)(key := None)\<rparr>
           | Some cfg \<Rightarrow>
               (let (up, h1) = reconcileLimiterDirection R (ul_Upload ul) (UploadMbps cfg) (lims m);
                    (down, h2) = reconcileLimiterDirection R (ul_Download ul) (DownloadMbps cfg) h1
                in m\<lparr>lims := h2,
                     limiters := (limiters m)(key :=
                       (if up = None \<and> down = None then None
                        else Some (ul\<lparr>ul_Upload := up, ul_Download := down\<rparr>)))\<rparr>)))"

definition updateLimiterRates ::
  "('c, 'l) rate_pkg \<Rightarrow> local_clock \<Rightarrow> string list \<Rightarrow> int \<Rightarrow> 'l limiter_manager \<Rightarrow> 'l limiter_manager" where
  "updateLimiterRates R hm order t m = fold (update_key R hm t) order m"

definition applyRuntimeState ::
  "('c, 'l) rate_pkg \<Rightarrow> local_clock \<Rightarrow> string list \<Rightarrow> int \<Rightarrow> 'l limiter_manager \<Rightarrow> 'l limiter_manager" where
  "applyRuntimeState R hm order t m =
     updateLimiterRates R hm order t (m\<lparr>lastCheckTime := t, hasChecked := True\<rparr>)"

definition clean_key :: "int \<Rightarrow> string \<Rightarrow> 'l limiter_manager \<Rightarrow> 'l limiter_manager" where
  "clean_key nowUnix key m =
     (case limiters m key of
        None \<Rightarrow> m
      | Some ul \<Rightarrow>
          if \<not> Contains key clientLimiterKeySep then m
          else if lastActive ul > 0 \<and> nowUnix - lastActive ul > go_quot (clientTTL (config m)) second_ns
          then m\<lparr>limiters := (limiters m)(key := None)\<rparr>
          else m)"

definition cleanExpiredClientLimiters ::
  "string list \<Rightarrow> int \<Rightarrow> 'l limiter_manager \<Rightarrow> 'l limiter_manager" where
  "cleanExpiredClientLimiters order nowUnix m = fold (clean_key nowUnix) order m"

text \<open>\<open>order\<close> and \<open>order'\<close> are the visiting orders of the two passes.\<close>

definition CheckSchedules ::
  "('c, 'l) rate_pkg \<Rightarrow> local_clock \<Rightarrow> string list \<Rightarrow> string list \<Rightarrow> int \<Rightarrow>
     'l limiter_manager \<Rightarrow> 'l limiter_manager" where
  "CheckSchedules R hm order order' t m =
     cleanExpiredClientLimiters order' t
       (updateLimiterRates R hm order t (m\<lparr>lastCheckTime := t, hasChecked := True\<rparr>))"

definition speed_ApplyConfig ::
  "('c, 'l) rate_pkg \<Rightarrow> local_clock \<Rightarrow> string list \<Rightarrow> int \<Rightarrow> SpeedLimiterUser \<Rightarrow>
     'l limiter_manager \<Rightarrow> go_error option \<times> 'l limiter_manager" where
  "speed_ApplyConfig R hm order t user m =
     (let name = su_Name user; snap = config m
      in if name = '''' then (Some (EFmt ''speed-limiter user missing name'' [] None), m)
         else if su_Group user \<noteq> '''' \<and> groups snap (su_Group user) = None then
           (Some (EFmt ''speed-limiter user %q references unknown group %q'' [name, su_Group user] None), m)
         else if su_Group user = '''' \<and> su_UploadMbps user \<le> 0 \<and> su_DownloadMbps user \<le> 0 then
           (Some (EFmt ''speed-limiter user %q missing runtime speed'' [name] None), m)
         else
           (let snap1 = snap\<lparr>userGroups := (userGroups snap)(name :=
                  (if su_Group user = '''' then None else Some (su_Group user)))\<rparr>;
                snap2 = snap1\<lparr>userOverrides := (userOverrides snap1)(name :=
                  (if su_UploadMbps user > 0 \<or> su_DownloadMbps user > 0
                   then Some \<lparr>UploadMbps = su_UploadMbps user, DownloadMbps = su_DownloadMbps user,
                              PerClient = False\<rparr>
                   else None))\<rparr>;
                snap3 = snap2\<lparr>userRawConfig := (userRawConfig snap2)(name \<mapsto> user)\<rparr>
            in (None, applyRuntimeState R hm order t (m\<lparr>config := snap3\<rparr>))))"

definition remove_key ::
  "('c, 'l) rate_pkg \<Rightarrow> string \<Rightarrow> string \<Rightarrow> 'l limiter_manager \<Rightarrow> 'l limiter_manager" where
  "remove_key R user key m =
     (case limiters m key of
        None \<Rightarrow> m
      | Some ul \<Rightarrow>
          if key = user \<or> HasPrefix key (user @ clientLimiterKeySep) then
            m\<lparr>lims := neutralizeLimiter R (ul_Download ul) (neutralizeLimiter R (ul_Upload ul) (lims m)),
              limiters := (limiters m)(key := None)\<rparr>
          else m)"

definition speed_RemoveConfig ::
  "('c, 'l) rate_pkg \<Rightarrow> string list \<Rightarrow> string \<Rightarrow> 'l limiter_manager \<Rightarrow>
     go_error option \<times> 'l limiter_manager" where
  "speed_RemoveConfig R order user m =
     (if user = '''' then (Some (EFmt ''speed-limiter user missing name'' [] None), m)
      else
        (let snap = config m;
             snap' = snap\<lparr>userGroups := (userGroups snap)(user := None),
                          userOverrides := (userOverrides snap)(user := None),
                          userRawConfig := (userRawConfig snap)(user := None)\<rparr>
         in (None, fold (remove_key R user) order (m\<lparr>config := snap'\<rparr>))))"

definition speed_GetConfig :: "string \<Rightarrow> 'l limiter_manager \<Rightarrow> SpeedLimiterUser option" where
  "speed_GetConfig user m = userRawConfig (config m) user"

definition ReplaceUserSchedules ::
  "('c, 'l) rate_pkg \<Rightarrow> local_clock \<Rightarrow> string list \<Rightarrow> int \<Rightarrow> string \<Rightarrow> UserSchedule list \<Rightarrow>
     'l limiter_manager \<Rightarrow> go_error option \<times> 'l limiter_manager" where
  "ReplaceUserSchedules R hm order t user scheds m =
     (if user = '''' then (Some (EFmt ''speed-limiter user missing name'' [] None), m)
      else case parse_all parseUserSchedule scheds of
        Inl e \<Rightarrow> (Some e, m)
      | Inr parsed \<Rightarrow>
          (let snap = config m;
               snap' = snap\<lparr>userSchedules := (userSchedules snap)(user :=
                 (if parsed = [] then None else Some parsed))\<rparr>
           in (None, applyRuntimeState R hm order t (m\<lparr>config := snap'\<rparr>))))"

definition RemoveUserSchedules ::
  "('c, 'l) rate_pkg \<Rightarrow> local_clock \<Rightarrow> string list \<Rightarrow> int \<Rightarrow> string \<Rightarrow>
     'l limiter_manager \<Rightarrow> go_error option \<times> 'l limiter_manager" where
  "RemoveUserSchedules R hm order t user m =
     (if user = '''' then (Some (EFmt ''speed-limiter user missing name'' [] None), m)
      else
        (let snap = config m;
             snap' = snap\<lparr>userSchedules := (userSchedules snap)(user := None)\<rparr>
         in (None, applyRuntimeState R hm order t (m\<lparr>config := snap'\<rparr>))))"

definition GetUserSchedules :: "string \<Rightarrow> 'l limiter_manager \<Rightarrow> UserSchedule list option" where
  "GetUserSchedules user m =
     (case userSchedules (config m) user of
        None \<Rightarrow> None
      | Some es \<Rightarrow> if es = [] then None else Some (map toUserSchedule es))"

end
