(* ===== verification/AdminApi.thy ===== *)
theory AdminApi
  imports AdminAuth UserProvider QuotaService SpeedManager
begin

text \<open>
  The administration interface (\<open>src/service/adminapi\<close>): the interfaces of the three services it
  controls as records of operations, its handlers with every status they answer with, the
  middlewares, and the routes.

  A handler takes the request and the states of the three services and gives the reply and the
  states afterwards, or panics if a controller does. Decoding JSON bodies and rendering errors as
  text are parameters (\<open>admin_libs\<close>); a body is the bytes it delivers and the error it ends with.
  The router is third-party code: \<open>endpoint\<close> lists the routes the service registers, and
  \<open>serve\<close> is the chain of handlers it registers for each.
\<close>

section \<open>The controlled services\<close>

record 'p UserProvider =
  up_ListUsers :: "'p \<Rightarrow> adapter_user list"
  up_GetUser :: "string \<Rightarrow> 'p \<Rightarrow> adapter_user option"
  up_CreateUser :: "option_user \<Rightarrow> 'p \<Rightarrow> go_error option \<times> 'p"
  up_UpdateUser :: "string \<Rightarrow> UserPatch \<Rightarrow> 'p \<Rightarrow> go_error option \<times> 'p"
  up_DeleteUser :: "string \<Rightarrow> 'p \<Rightarrow> go_error option \<times> 'p"

record 'q QuotaController =
  qc_ApplyConfig :: "TrafficQuotaUser \<Rightarrow> 'q \<Rightarrow> (go_error option \<times> 'q) go"
  qc_RemoveConfig :: "string \<Rightarrow> 'q \<Rightarrow> (go_error option \<times> 'q) go"
  qc_SnapshotState :: "string \<Rightarrow> 'q \<Rightarrow> RuntimeState option"
  qc_RestoreState :: "RuntimeState \<Rightarrow> 'q \<Rightarrow> (go_error option \<times> 'q) go"
  qc_QuotaStatus :: "string \<Rightarrow> 'q \<Rightarrow> quota_status option"

record 's SpeedController =
  sc_ApplyConfig :: "SpeedLimiterUser \<Rightarrow> 's \<Rightarrow> go_error option \<times> 's"
  sc_RemoveConfig :: "string \<Rightarrow> 's \<Rightarrow> go_error option \<times> 's"
  sc_GetConfig :: "string \<Rightarrow> 's \<Rightarrow> SpeedLimiterUser option"
  sc_ReplaceUserSchedules :: "string \<Rightarrow> UserSchedule list \<Rightarrow> 's \<Rightarrow> go_error option \<times> 's"
  sc_GetUserSchedules :: "string \<Rightarrow> 's \<Rightarrow> UserSchedule list option"
  sc_RemoveUserSchedules :: "string \<Rightarrow> 's \<Rightarrow> go_error option \<times> 's"

record ('p, 'q, 's) admin_world =
  provider_of :: 'p
  quota_of :: 'q
  speed_of :: 's

record ('p, 'q, 's) AdminService =
  authenticator :: Authenticator
  userProvider :: "'p UserProvider option"
  quotaController :: "'q QuotaController option"
  speedController :: "'s SpeedController option"
  basePath :: string
  listenAddr :: string

text \<open>A service of the service manager: whether it is the administration service itself, and the interfaces it implements.\<close>

record ('p, 'q, 's) managed_service =
  ms_self :: bool
  ms_user :: "'p UserProvider option"
  ms_quota :: "'q QuotaController option"
  ms_speed :: "'s SpeedController option"

definition first_some :: "'a option \<Rightarrow> 'a option \<Rightarrow> 'a option" where
  "first_some a b = (case a of None \<Rightarrow> b | Some x \<Rightarrow> Some x)"

fun resolveManagedServices ::
  "('p, 'q, 's) managed_service list \<Rightarrow>
     'p UserProvider option \<times> 'q QuotaController option \<times> 's SpeedController option \<Rightarrow>
     'p UserProvider option \<times> 'q QuotaController option \<times> 's SpeedController option" where
  "resolveManagedServices [] acc = acc"
| "resolveManagedServices (m # ms) (u, q, s) =
     (if ms_self m then resolveManagedServices ms (u, q, s)
      else resolveManagedServices ms (first_some u (ms_user m), first_some q (ms_quota m), first_some s (ms_speed m)))"

section \<open>Replies and errors\<close>

datatype admin_payload =
    NoPayload
  | TokenPayload string int
  | UsersPayload "adapter_user list"
  | UserPayload adapter_user
  | QuotaPayload quota_status
  | SpeedPayload int int
  | SchedulesPayload "UserSchedule list"

type_synonym reply = "int \<times> admin_payload"

type_synonym req_body = "string \<times> go_error option"

record loginRequest =
  lr_Username :: string
  lr_Password :: string

record putQuotaRequest =
  pq_QuotaGB :: rat
  pq_Period :: string
  pq_PeriodStart :: string
  pq_PeriodDays :: int

record createUserRequest =
  cu_User :: option_user
  cu_Quota :: "TrafficQuotaUser option"
  cu_Speed :: "SpeedLimiterUser option"
  cu_SpeedSchedules :: "UserSchedule list"

record updateUserRequest =
  uu_Name :: string
  uu_Patch :: UserPatch

record deleteUserRequest =
  du_Name :: string
  du_User :: string

text \<open>
  \<open>error_text\<close> is the lower-case text of an error, \<open>is_context_error\<close> says that it is or wraps a
  cancelled or expired context. The decoders of a request body give \<open>None\<close> on an error.
\<close>

record admin_libs =
  error_text :: "go_error \<Rightarrow> string"
  is_context_error :: "go_error \<Rightarrow> bool"
  decode_login :: "req_body \<Rightarrow> loginRequest option"
  decode_named :: "req_body \<Rightarrow> string option"
  decode_update :: "req_body \<Rightarrow> updateUserRequest option"
  decode_delete :: "req_body \<Rightarrow> deleteUserRequest option"
  decode_quota :: "req_body \<Rightarrow> putQuotaRequest option"
  decode_speed :: "req_body \<Rightarrow> SpeedLimiterUser option"
  decode_schedules :: "req_body \<Rightarrow> UserSchedule list option"
  unmarshal_create :: "string \<Rightarrow> createUserRequest option"
  unmarshal_user :: "string \<Rightarrow> option_user option"

definition isUserProviderValidationError :: "admin_libs \<Rightarrow> go_error \<Rightarrow> bool" where
  "isUserProviderValidationError B e =
     (let message = error_text B e
      in Contains message ''missing '' \<or> Contains message ''already exists'' \<or> Contains message ''invalid '')"

definition isUserProviderNotFoundError :: "admin_libs \<Rightarrow> go_error \<Rightarrow> bool" where
  "isUserProviderNotFoundError B e = Contains (error_text B e) ''not found''"

definition isRuntimeControlValidationError :: "admin_libs \<Rightarrow> go_error \<Rightarrow> bool" where
  "isRuntimeControlValidationError B e =
     (let message = error_text B e
      in Contains message ''missing '' \<or> Contains message ''invalid '' \<or>
         Contains message ''unsupported '' \<or> Contains message ''parse '')"

definition userProviderErrorStatus :: "admin_libs \<Rightarrow> go_error option \<Rightarrow> int" where
  "userProviderErrorStatus B err =
     (case err of
        None \<Rightarrow> 204
      | Some e \<Rightarrow>
          if is_context_error B e then 503
          else if isUserProviderNotFoundError B e then 404
          else if isUserProviderValidationError B e then 400
          else 500)"

definition runtimeControlErrorStatus :: "admin_libs \<Rightarrow> go_error option \<Rightarrow> int" where
  "runtimeControlErrorStatus B err =
     (case err of
        None \<Rightarrow> 204
      | Some e \<Rightarrow>
          if is_context_error B e then 503
          else if isRuntimeControlValidationError B e then 400
          else 500)"

type_synonym ('p, 'q, 's) answer = "(reply \<times> ('p, 'q, 's) admin_world) go"

definition write_header :: "int \<Rightarrow> ('p, 'q, 's) admin_world \<Rightarrow> ('p, 'q, 's) answer" where
  "write_header code w = Ret ((code, NoPayload), w)"

section \<open>Login\<close>

definition LoginHandler ::
  "claims_codec \<Rightarrow> admin_libs \<Rightarrow> int \<Rightarrow> Authenticator \<Rightarrow> admin_request \<Rightarrow>
     ('p, 'q, 's) admin_world \<Rightarrow> ('p, 'q, 's) answer" where
  "LoginHandler J B t a request w =
     (if rq_Method request \<noteq> ''POST'' then write_header 405 w
      else case decode_login B (rq_Body request) of
        None \<Rightarrow> write_header 400 w
      | Some login \<Rightarrow>
          (case admins a (lr_Username login) of
             None \<Rightarrow> write_header 401 w
           | Some expectedPassword \<Rightarrow>
               if expectedPassword \<noteq> lr_Password login then write_header 401 w
               else case issueLoginTokenWithExpiry J t a (lr_Username login) of
                 Inl e \<Rightarrow> if e = errLoginDisabled then write_header 503 w else write_header 500 w
               | Inr (token, expiresAt) \<Rightarrow> Ret ((200, TokenPayload token expiresAt), w)))"

section \<open>Quota handlers\<close>

definition GetQuotaStatusHandler ::
  "('p, 'q, 's) AdminService \<Rightarrow> string \<Rightarrow> ('p, 'q, 's) admin_world \<Rightarrow> ('p, 'q, 's) answer" where
  "GetQuotaStatusHandler S user w =
     (case quotaController S of
        None \<Rightarrow> write_header 503 w
      | Some Q \<Rightarrow>
          if user = '''' then write_header 400 w
          else case qc_QuotaStatus Q user (quota_of w) of
            None \<Rightarrow> write_header 404 w
          | Some status \<Rightarrow> Ret ((200, QuotaPayload status), w))"

definition PutQuotaHandler ::
  "admin_libs \<Rightarrow> ('p, 'q, 's) AdminService \<Rightarrow> string \<Rightarrow> admin_request \<Rightarrow> ('p, 'q, 's) admin_world \<Rightarrow>
     ('p, 'q, 's) answer" where
  "PutQuotaHandler B S user request w =
     (case quotaController S of
        None \<Rightarrow> write_header 503 w
      | Some Q \<Rightarrow>
          if user = '''' then write_header 400 w
          else case decode_quota B (rq_Body request) of
            None \<Rightarrow> write_header 400 w
          | Some req \<Rightarrow>
              go_bind (qc_ApplyConfig Q
                \<lparr>tq_Name = user, tq_Group = '''', tq_QuotaGB = pq_QuotaGB req, tq_Period = pq_Period req,
                 tq_PeriodStart = pq_PeriodStart req, tq_PeriodDays = pq_PeriodDays req\<rparr> (quota_of w))
              (\<lambda>(err, q). write_header (runtimeControlErrorStatus B err) (w\<lparr>quota_of := q\<rparr>)))"

definition DeleteQuotaHandler ::
  "admin_libs \<Rightarrow> ('p, 'q, 's) AdminService \<Rightarrow> string \<Rightarrow> ('p, 'q, 's) admin_world \<Rightarrow> ('p, 'q, 's) answer" where
  "DeleteQuotaHandler B S user w =
     (case quotaController S of
        None \<Rightarrow> write_header 503 w
      | Some Q \<Rightarrow>
          if user = '''' then write_header 400 w
          else go_bind (qc_RemoveConfig Q user (quota_of w))
            (\<lambda>(err, q). write_header (runtimeControlErrorStatus B err) (w\<lparr>quota_of := q\<rparr>)))"

section \<open>Speed handlers\<close>

definition GetSpeedHandler ::
  "('p, 'q, 's) AdminService \<Rightarrow> string \<Rightarrow> ('p, 'q, 's) admin_world \<Rightarrow> ('p, 'q, 's) answer" where
  "GetSpeedHandler S user w =
     (case speedController S of
        None \<Rightarrow> write_header 503 w
      | Some C \<Rightarrow>
          if user = '''' then write_header 400 w
          else case sc_GetConfig C user (speed_of w) of
            None \<Rightarrow> write_header 404 w
          | Some cfg \<Rightarrow> Ret ((200, SpeedPayload (su_UploadMbps cfg) (su_DownloadMbps cfg)), w))"

definition PutSpeedHandler ::
  "admin_libs \<Rightarrow> ('p, 'q, 's) AdminService \<Rightarrow> string \<Rightarrow> admin_request \<Rightarrow> ('p, 'q, 's) admin_world \<Rightarrow>
     ('p, 'q, 's) answer" where
  "PutSpeedHandler B S user request w =
     (case speedController S of
        None \<Rightarrow> write_header 503 w
      | Some C \<Rightarrow>
          if user = '''' then write_header 400 w
          else case decode_speed B (rq_Body request) of
            None \<Rightarrow> write_header 400 w
          | Some req \<Rightarrow>
              (let (err, s) = sc_ApplyConfig C (req\<lparr>su_Name := user\<rparr>) (speed_of w)
               in write_header (runtimeControlErrorStatus B err) (w\<lparr>speed_of := s\<rparr>)))"

definition DeleteSpeedHandler ::
  "admin_libs \<Rightarrow> ('p, 'q, 's) AdminService \<Rightarrow> string \<Rightarrow> ('p, 'q, 's) admin_world \<Rightarrow> ('p, 'q, 's) answer" where
  "DeleteSpeedHandler B S user w =
     (case speedController S of
        None \<Rightarrow> write_header 503 w
      | Some C \<Rightarrow>
          if user = '''' then write_header 400 w
          else
            (let (err, s) = sc_RemoveConfig C user (speed_of w)
             in write_header (runtimeControlErrorStatus B err) (w\<lparr>speed_of := s\<rparr>)))"

definition GetSpeedSchedulesHandler ::
  "('p, 'q, 's) AdminService \<Rightarrow> string \<Rightarrow> ('p, 'q, 's) admin_world \<Rightarrow> ('p, 'q, 's) answer" where
  "GetSpeedSchedulesHandler S user w =
     (case speedController S of
        None \<Rightarrow> write_header 503 w
      | Some C \<Rightarrow>
          if user = '''' then write_header 400 w
          else case sc_GetUserSchedules C user (speed_of w) of
            None \<Rightarrow> write_header 404 w
          | Some scheds \<Rightarrow> Ret ((200, SchedulesPayload scheds), w))"

definition PutSpeedSchedulesHandler ::
  "admin_libs \<Rightarrow> ('p, 'q, 's) AdminService \<Rightarrow> string \<Rightarrow> admin_request \<Rightarrow> ('p, 'q, 's) admin_world \<Rightarrow>
     ('p, 'q, 's) answer" where
  "PutSpeedSchedulesHandler B S user request w =
     (case speedController S of
        None \<Rightarrow> write_header 503 w
      | Some C \<Rightarrow>
          if user = '''' then write_header 400 w
          else case decode_schedules B (rq_Body request) of
            None \<Rightarrow> write_header 400 w
          | Some scheds \<Rightarrow>
              (let (err, s) = sc_ReplaceUserSchedules C user scheds (speed_of w)
               in write_header (runtimeControlErrorStatus B err) (w\<lparr>speed_of := s\<rparr>)))"

definition DeleteSpeedSchedulesHandler ::
  "admin_libs \<Rightarrow> ('p, 'q, 's) AdminService \<Rightarrow> string \<Rightarrow> ('p, 'q, 's) admin_world \<Rightarrow> ('p, 'q, 's) answer" where
  "DeleteSpeedSchedulesHandler B S user w =
     (case speedController S of
        None \<Rightarrow> write_header 503 w
      | Some C \<Rightarrow>
          if user = '''' then write_header 400 w
          else
            (let (err, s) = sc_RemoveUserSchedules C user (speed_of w)
             in write_header (runtimeControlErrorStatus B err) (w\<lparr>speed_of := s\<rparr>)))"

section \<open>User handlers\<close>

definition userName :: "deleteUserRequest \<Rightarrow> string" where
  "userName r = (if du_User r \<noteq> '''' then du_User r else du_Name r)"

definition ListUsersHandler :: "('p, 'q, 's) AdminService \<Rightarrow> ('p, 'q, 's) admin_world \<Rightarrow> ('p, 'q, 's) answer" where
  "ListUsersHandler S w =
     (case userProvider S of
        None \<Rightarrow> write_header 503 w
      | Some P \<Rightarrow> Ret ((200, UsersPayload (up_ListUsers P (provider_of w))), w))"

definition GetUserHandler ::
  "admin_libs \<Rightarrow> ('p, 'q, 's) AdminService \<Rightarrow> admin_request \<Rightarrow> ('p, 'q, 's) admin_world \<Rightarrow> ('p, 'q, 's) answer" where
  "GetUserHandler B S request w =
     (case userProvider S of
        None \<Rightarrow> write_header 503 w
      | Some P \<Rightarrow>
          (case decode_named B (rq_Body request) of
             None \<Rightarrow> write_header 400 w
           | Some name \<Rightarrow>
               if name = '''' then write_header 400 w
               else case up_GetUser P name (provider_of w) of
                 None \<Rightarrow> write_header 404 w
               | Some user \<Rightarrow> Ret ((200, UserPayload user), w)))"

definition readRequestBody :: "admin_request \<Rightarrow> string option" where
  "readRequestBody request = (case rq_Body request of (bytes, None) \<Rightarrow> Some bytes | (bytes, Some e) \<Rightarrow> None)"

definition decodeCreateUserRequest :: "admin_libs \<Rightarrow> admin_request \<Rightarrow> createUserRequest option" where
  "decodeCreateUserRequest B request =
     (case readRequestBody request of
        None \<Rightarrow> None
      | Some bytes \<Rightarrow>
          (case unmarshal_create B bytes of
             None \<Rightarrow> None
           | Some req \<Rightarrow>
               if ou_Name (cu_User req) \<noteq> '''' then Some req
               else case unmarshal_user B bytes of
                 None \<Rightarrow> None
               | Some flatUser \<Rightarrow> Some (req\<lparr>cu_User := flatUser\<rparr>)))"

text \<open>Collecting the error of a call that is made in any case.\<close>

definition cause_of :: "string \<Rightarrow> go_error option \<Rightarrow> go_error list" where
  "cause_of msg err = (case err of None \<Rightarrow> [] | Some e \<Rightarrow> [ECause e [msg]])"

definition rollback_speed ::
  "('p, 'q, 's) AdminService \<Rightarrow> string \<Rightarrow> bool \<Rightarrow> ('p, 'q, 's) admin_world \<Rightarrow> go_error list \<times> ('p, 'q, 's) admin_world" where
  "rollback_speed S name speedApplied w =
     (case speedController S of
        Some C \<Rightarrow>
          if speedApplied then
            (let (e1, s1) = sc_RemoveConfig C name (speed_of w);
                 (e2, s2) = sc_RemoveUserSchedules C name s1
             in (cause_of ''remove speed config'' e1 @ cause_of ''remove speed schedules'' e2, w\<lparr>speed_of := s2\<rparr>))
          else ([], w)
      | None \<Rightarrow> ([], w))"

definition rollback_quota ::
  "('p, 'q, 's) AdminService \<Rightarrow> string \<Rightarrow> bool \<Rightarrow> ('p, 'q, 's) admin_world \<Rightarrow> (go_error list \<times> ('p, 'q, 's) admin_world) go" where
  "rollback_quota S name quotaApplied w =
     (case quotaController S of
        Some Q \<Rightarrow>
          if quotaApplied then
            go_bind (qc_RemoveConfig Q name (quota_of w))
              (\<lambda>(e, q). Ret (cause_of ''remove quota config'' e, w\<lparr>quota_of := q\<rparr>))
          else Ret ([], w)
      | None \<Rightarrow> Ret ([], w))"

definition rollbackCreatedUser ::
  "'p UserProvider \<Rightarrow> ('p, 'q, 's) AdminService \<Rightarrow> string \<Rightarrow> bool \<Rightarrow> bool \<Rightarrow> ('p, 'q, 's) admin_world \<Rightarrow>
     (go_error option \<times> ('p, 'q, 's) admin_world) go" where
  "rollbackCreatedUser P S name quotaApplied speedApplied w =
     (let (errs1, w1) = rollback_speed S name speedApplied w
      in go_bind (rollback_quota S name quotaApplied w1) (\<lambda>(errs2, w2).
           let (e, p) = up_DeleteUser P name (provider_of w2)
           in Ret (errors_of (errs1 @ errs2 @ cause_of ''delete created user'' e), w2\<lparr>provider_of := p\<rparr>)))"

definition handleCreateRollbackError ::
  "admin_libs \<Rightarrow> 'p UserProvider \<Rightarrow> ('p, 'q, 's) AdminService \<Rightarrow> string \<Rightarrow> bool \<Rightarrow> bool \<Rightarrow> go_error \<Rightarrow>
     ('p, 'q, 's) admin_world \<Rightarrow> ('p, 'q, 's) answer" where
  "handleCreateRollbackError B P S name quotaApplied speedApplied createErr w =
     go_bind (rollbackCreatedUser P S name quotaApplied speedApplied w) (\<lambda>(rollbackErr, w').
       let err = (case rollbackErr of
                    None \<Rightarrow> createErr
                  | Some e \<Rightarrow> EErrors [createErr, ECause e [''rollback create user lifecycle'']])
       in write_header (runtimeControlErrorStatus B (Some err)) w')"

text \<open>The three optional parts of a new user, in order; the flags say what to undo on an error.\<close>

definition create_schedules ::
  "admin_libs \<Rightarrow> 'p UserProvider \<Rightarrow> ('p, 'q, 's) AdminService \<Rightarrow> createUserRequest \<Rightarrow> bool \<Rightarrow> bool \<Rightarrow>
     ('p, 'q, 's) admin_world \<Rightarrow> ('p, 'q, 's) answer" where
  "create_schedules B P S req quotaApplied speedApplied w =
     (let name = ou_Name (cu_User req)
      in if cu_SpeedSchedules req = [] then write_header 204 w
         else case speedController S of
           None \<Rightarrow> Panic nil_dereference
         | Some C \<Rightarrow>
             (case sc_ReplaceUserSchedules C name (cu_SpeedSchedules req) (speed_of w) of
                (Some e, s) \<Rightarrow> handleCreateRollbackError B P S name quotaApplied speedApplied e (w\<lparr>speed_of := s\<rparr>)
              | (None, s) \<Rightarrow> write_header 204 (w\<lparr>speed_of := s\<rparr>)))"

definition create_speed ::
  "admin_libs \<Rightarrow> 'p UserProvider \<Rightarrow> ('p, 'q, 's) AdminService \<Rightarrow> createUserRequest \<Rightarrow> bool \<Rightarrow>
     ('p, 'q, 's) admin_world \<Rightarrow> ('p, 'q, 's) answer" where
  "create_speed B P S req quotaApplied w =
     (let name = ou_Name (cu_User req)
      in case cu_Speed req of
           None \<Rightarrow> create_schedules B P S req quotaApplied False w
         | Some cfg \<Rightarrow>
             (case speedController S of
                None \<Rightarrow> Panic nil_dereference
              | Some C \<Rightarrow>
                  (case sc_ApplyConfig C (cfg\<lparr>su_Name := name\<rparr>) (speed_of w) of
                     (Some e, s) \<Rightarrow> handleCreateRollbackError B P S name quotaApplied False e (w\<lparr>speed_of := s\<rparr>)
                   | (None, s) \<Rightarrow> create_schedules B P S req quotaApplied True (w\<lparr>speed_of := s\<rparr>))))"

definition create_quota ::
  "admin_libs \<Rightarrow> 'p UserProvider \<Rightarrow> ('p, 'q, 's) AdminService \<Rightarrow> createUserRequest \<Rightarrow>
     ('p, 'q, 's) admin_world \<Rightarrow> ('p, 'q, 's) answer" where
  "create_quota B P S req w =
     (let name = ou_Name (cu_User req)
      in case cu_Quota req of
           None \<Rightarrow> create_speed B P S req False w
         | Some cfg \<Rightarrow>
             (case quotaController S of
                None \<Rightarrow> Panic nil_dereference
              | Some Q \<Rightarrow>
                  go_bind (qc_ApplyConfig Q (cfg\<lparr>tq_Name := name\<rparr>) (quota_of w)) (\<lambda>(err, q).
                    case err of
                      Some e \<Rightarrow> handleCreateRollbackError B P S name False False e (w\<lparr>quota_of := q\<rparr>)
                    | None \<Rightarrow> create_speed B P S req True (w\<lparr>quota_of := q\<rparr>))))"

definition CreateUserHandler ::
  "admin_libs \<Rightarrow> ('p, 'q, 's) AdminService \<Rightarrow> admin_request \<Rightarrow> ('p, 'q, 's) admin_world \<Rightarrow> ('p, 'q, 's) answer" where
  "CreateUserHandler B S request w =
     (case userProvider S of
        None \<Rightarrow> write_header 503 w
      | Some P \<Rightarrow>
          (case decodeCreateUserRequest B request of
             None \<Rightarrow> write_header 400 w
           | Some req \<Rightarrow>
               if ou_Name (cu_User req) = '''' then write_header 400 w
               else if cu_Quota req \<noteq> None \<and> quotaController S = None then write_header 503 w
               else if (cu_Speed req \<noteq> None \<or> cu_SpeedSchedules req \<noteq> []) \<and> speedController S = None
               then write_header 503 w
               else case up_CreateUser P (cu_User req) (provider_of w) of
                 (Some e, p) \<Rightarrow> write_header (userProviderErrorStatus B (Some e)) (w\<lparr>provider_of := p\<rparr>)
               | (None, p) \<Rightarrow> create_quota B P S req (w\<lparr>provider_of := p\<rparr>)))"

definition UpdateUserHandler ::
  "admin_libs \<Rightarrow> ('p, 'q, 's) AdminService \<Rightarrow> admin_request \<Rightarrow> ('p, 'q, 's) admin_world \<Rightarrow> ('p, 'q, 's) answer" where
  "UpdateUserHandler B S request w =
     (case userProvider S of
        None \<Rightarrow> write_header 503 w
      | Some P \<Rightarrow>
          (case decode_update B (rq_Body request) of
             None \<Rightarrow> write_header 400 w
           | Some req \<Rightarrow>
               if uu_Name req = '''' then write_header 400 w
               else
                 (let (err, p) = up_UpdateUser P (uu_Name req) (uu_Patch req) (provider_of w)
                  in write_header (userProviderErrorStatus B err) (w\<lparr>provider_of := p\<rparr>))))"

record deleteRuntimeState =
  ds_user :: "option_user option"
  ds_quota :: "RuntimeState option"
  ds_speed :: "SpeedLimiterUser option"
  ds_schedules :: "UserSchedule list option"

definition snapshotDeleteRuntimeState ::
  "'p UserProvider \<Rightarrow> ('p, 'q, 's) AdminService \<Rightarrow> string \<Rightarrow> ('p, 'q, 's) admin_world \<Rightarrow> deleteRuntimeState" where
  "snapshotDeleteRuntimeState P S name w =
     \<lparr>ds_user = map_option adapterUserToOption (up_GetUser P name (provider_of w)),
      ds_quota = (case quotaController S of None \<Rightarrow> None | Some Q \<Rightarrow> qc_SnapshotState Q name (quota_of w)),
      ds_speed = (case speedController S of None \<Rightarrow> None | Some C \<Rightarrow> sc_GetConfig C name (speed_of w)),
      ds_schedules = (case speedController S of None \<Rightarrow> None | Some C \<Rightarrow> sc_GetUserSchedules C name (speed_of w))\<rparr>"

definition cleanup_speed ::
  "('p, 'q, 's) AdminService \<Rightarrow> string \<Rightarrow> ('p, 'q, 's) admin_world \<Rightarrow> go_error option \<times> ('p, 'q, 's) admin_world" where
  "cleanup_speed S name w =
     (case speedController S of
        None \<Rightarrow> (None, w)
      | Some C \<Rightarrow>
          (case sc_RemoveUserSchedules C name (speed_of w) of
             (Some e, s) \<Rightarrow> (Some e, w\<lparr>speed_of := s\<rparr>)
           | (None, s) \<Rightarrow> (let (err, s') = sc_RemoveConfig C name s in (err, w\<lparr>speed_of := s'\<rparr>))))"

definition cleanupDeleteRuntimeState ::
  "('p, 'q, 's) AdminService \<Rightarrow> string \<Rightarrow> ('p, 'q, 's) admin_world \<Rightarrow>
     (go_error option \<times> ('p, 'q, 's) admin_world) go" where
  "cleanupDeleteRuntimeState S name w =
     (case cleanup_speed S name w of
        (Some e, w1) \<Rightarrow> Ret (Some e, w1)
      | (None, w1) \<Rightarrow>
          (case quotaController S of
             None \<Rightarrow> Ret (None, w1)
           | Some Q \<Rightarrow>
               go_bind (qc_RemoveConfig Q name (quota_of w1)) (\<lambda>(err, q). Ret (err, w1\<lparr>quota_of := q\<rparr>))))"

text \<open>The four parts of a restore; each is attempted whatever the others did.\<close>

definition restore_user ::
  "'p UserProvider \<Rightarrow> deleteRuntimeState \<Rightarrow> ('p, 'q, 's) admin_world \<Rightarrow> go_error option \<times> ('p, 'q, 's) admin_world" where
  "restore_user P state w =
     (case ds_user state of
        None \<Rightarrow> (None, w)
      | Some u \<Rightarrow> (let (e, p) = up_CreateUser P u (provider_of w) in (e, w\<lparr>provider_of := p\<rparr>)))"

definition restore_quota ::
  "('p, 'q, 's) AdminService \<Rightarrow> deleteRuntimeState \<Rightarrow> ('p, 'q, 's) admin_world \<Rightarrow>
     (go_error option \<times> ('p, 'q, 's) admin_world) go" where
  "restore_quota S state w =
     (case (quotaController S, ds_quota state) of
        (Some Q, Some st) \<Rightarrow>
          go_bind (qc_RestoreState Q st (quota_of w)) (\<lambda>(e, q). Ret (e, w\<lparr>quota_of := q\<rparr>))
      | _ \<Rightarrow> Ret (None, w))"

definition restore_speed ::
  "('p, 'q, 's) AdminService \<Rightarrow> deleteRuntimeState \<Rightarrow> ('p, 'q, 's) admin_world \<Rightarrow> go_error option \<times> ('p, 'q, 's) admin_world" where
  "restore_speed S state w =
     (case (speedController S, ds_speed state) of
        (Some C, Some cfg) \<Rightarrow> (let (e, s) = sc_ApplyConfig C cfg (speed_of w) in (e, w\<lparr>speed_of := s\<rparr>))
      | _ \<Rightarrow> (None, w))"

definition restore_schedules ::
  "('p, 'q, 's) AdminService \<Rightarrow> deleteRuntimeState \<Rightarrow> ('p, 'q, 's) admin_world \<Rightarrow> go_error option \<times> ('p, 'q, 's) admin_world" where
  "restore_schedules S state w =
     (case (speedController S, ds_schedules state) of
        (Some C, Some us) \<Rightarrow>
          (let (e, s) = sc_ReplaceUserSchedules C
                 (case ds_user state of None \<Rightarrow> '''' | Some u \<Rightarrow> ou_Name u) us (speed_of w)
           in (e, w\<lparr>speed_of := s\<rparr>))
      | _ \<Rightarrow> (None, w))"

definition restoreDeleteRuntimeState ::
  "'p UserProvider \<Rightarrow> ('p, 'q, 's) AdminService \<Rightarrow> deleteRuntimeState \<Rightarrow> ('p, 'q, 's) admin_world \<Rightarrow>
     (go_error option \<times> ('p, 'q, 's) admin_world) go" where
  "restoreDeleteRuntimeState P S state w =
     (let (e1, w1) = restore_user P state w
      in go_bind (restore_quota S state w1) (\<lambda>(e2, w2).
           let (e3, w3) = restore_speed S state w2; (e4, w4) = restore_schedules S state w3
           in Ret (errors_of (cause_of ''restore deleted user'' e1 @ cause_of ''restore quota runtime state'' e2 @
                     cause_of ''restore speed config'' e3 @ cause_of ''restore speed schedules'' e4), w4)))"

definition DeleteUserHandler ::
  "admin_libs \<Rightarrow> ('p, 'q, 's) AdminService \<Rightarrow> admin_request \<Rightarrow> ('p, 'q, 's) admin_world \<Rightarrow> ('p, 'q, 's) answer" where
  "DeleteUserHandler B S request w =
     (case userProvider S of
        None \<Rightarrow> write_header 503 w
      | Some P \<Rightarrow>
          (case decode_delete B (rq_Body request) of
             None \<Rightarrow> write_header 400 w
           | Some req \<Rightarrow>
               if userName req = '''' then write_header 400 w
               else
                 (let name = userName req; state = snapshotDeleteRuntimeState P S name w
                  in if ds_user state = None then write_header 404 w
                     else case up_DeleteUser P name (provider_of w) of
                       (Some e, p) \<Rightarrow> write_header (userProviderErrorStatus B (Some e)) (w\<lparr>provider_of := p\<rparr>)
                     | (None, p) \<Rightarrow>
                         go_bind (cleanupDeleteRuntimeState S name (w\<lparr>provider_of := p\<rparr>)) (\<lambda>(err, w1).
                           case err of
                             None \<Rightarrow> write_header 204 w1
                           | Some e \<Rightarrow>
                               go_bind (restoreDeleteRuntimeState P S state w1) (\<lambda>(restoreErr, w2).
                                 let e' = (case restoreErr of
                                             None \<Rightarrow> e
                                           | Some r \<Rightarrow> EErrors [e, ECause r [''restore delete runtime state'']])
                                 in write_header (runtimeControlErrorStatus B (Some e')) w2)))))"

section \<open>Middlewares and routes\<close>

type_synonym ('p, 'q, 's) handler = "admin_request \<Rightarrow> ('p, 'q, 's) admin_world \<Rightarrow> ('p, 'q, 's) answer"

definition Middleware ::
  "claims_codec \<Rightarrow> int \<Rightarrow> Authenticator \<Rightarrow> ('p, 'q, 's) handler \<Rightarrow> ('p, 'q, 's) handler" where
  "Middleware J t a next_handler request w =
     (case validateAuthorization J t a request of
        Inl e \<Rightarrow> write_header 401 w
      | Inr subject \<Rightarrow> next_handler request w)"

definition postOnly :: "('p, 'q, 's) handler \<Rightarrow> ('p, 'q, 's) handler" where
  "postOnly next_handler request w =
     (if rq_Method request \<noteq> ''POST'' then write_header 405 w else next_handler request w)"

definition authenticatedPost ::
  "claims_codec \<Rightarrow> int \<Rightarrow> ('p, 'q, 's) AdminService \<Rightarrow> ('p, 'q, 's) handler \<Rightarrow> ('p, 'q, 's) handler" where
  "authenticatedPost J t S handler = postOnly (Middleware J t (authenticator S) handler)"

definition adminAPIMaxRequestBytes :: nat where
  "adminAPIMaxRequestBytes = 2 ^ 20"

text \<open>\<open>http.MaxBytesReader\<close> delivers at most \<open>limit\<close> bytes and fails if there are more.\<close>

definition max_bytes :: "nat \<Rightarrow> req_body \<Rightarrow> req_body" where
  "max_bytes limit b =
     (if limit < length (fst b) then (take limit (fst b), Some (ENew [''http: request body too large''])) else b)"

definition bodyLimitMiddleware :: "('p, 'q, 's) handler \<Rightarrow> ('p, 'q, 's) handler" where
  "bodyLimitMiddleware next_handler request =
     next_handler (request\<lparr>rq_Body := max_bytes adminAPIMaxRequestBytes (rq_Body request)\<rparr>)"

text \<open>The registered routes; those under \<open>quota\<close> and \<open>speed\<close> are matched by method and carry the \<open>user\<close> parameter.\<close>

datatype endpoint =
    Login | UserList | UserGet | UserCreate | UserUpdate | UserDelete
  | GetQuota string | PutQuota string | DeleteQuota string
  | GetSpeed string | PutSpeed string | DeleteSpeed string
  | GetSchedules string | PutSchedules string | DeleteSchedules string

fun endpoint_handler ::
  "claims_codec \<Rightarrow> admin_libs \<Rightarrow> int \<Rightarrow> ('p, 'q, 's) AdminService \<Rightarrow> endpoint \<Rightarrow> ('p, 'q, 's) handler" where
  "endpoint_handler J B t S Login = postOnly (LoginHandler J B t (authenticator S))"
| "endpoint_handler J B t S UserList = authenticatedPost J t S (\<lambda>_. ListUsersHandler S)"
| "endpoint_handler J B t S UserGet = authenticatedPost J t S (GetUserHandler B S)"
| "endpoint_handler J B t S UserCreate = authenticatedPost J t S (CreateUserHandler B S)"
| "endpoint_handler J B t S UserUpdate = authenticatedPost J t S (UpdateUserHandler B S)"
| "endpoint_handler J B t S UserDelete = authenticatedPost J t S (DeleteUserHandler B S)"
| "endpoint_handler J B t S (GetQuota u) = Middleware J t (authenticator S) (\<lambda>_. GetQuotaStatusHandler S u)"
| "endpoint_handler J B t S (PutQuota u) = Middleware J t (authenticator S) (PutQuotaHandler B S u)"
| "endpoint_handler J B t S (DeleteQuota u) = Middleware J t (authenticator S) (\<lambda>_. DeleteQuotaHandler B S u)"
| "endpoint_handler J B t S (GetSpeed u) = Middleware J t (authenticator S) (\<lambda>_. GetSpeedHandler S u)"
| "endpoint_handler J B t S (PutSpeed u) = Middleware J t (authenticator S) (PutSpeedHandler B S u)"
| "endpoint_handler J B t S (DeleteSpeed u) = Middleware J t (authenticator S) (\<lambda>_. DeleteSpeedHandler B S u)"
| "endpoint_handler J B t S (GetSchedules u) = Middleware J t (authenticator S) (\<lambda>_. GetSpeedSchedulesHandler S u)"
| "endpoint_handler J B t S (PutSchedules u) = Middleware J t (authenticator S) (PutSpeedSchedulesHandler B S u)"
| "endpoint_handler J B t S (DeleteSchedules u) = Middleware J t (authenticator S) (\<lambda>_. DeleteSpeedSchedulesHandler B S u)"

definition serve ::
  "claims_codec \<Rightarrow> admin_libs \<Rightarrow> int \<Rightarrow> ('p, 'q, 's) AdminService \<Rightarrow> endpoint \<Rightarrow> ('p, 'q, 's) handler" where
  "serve J B t S e = bodyLimitMiddleware (endpoint_handler J B t S e)"

section \<open>Construction\<close>

definition defaultBasePath :: string where
  "defaultBasePath = ''/admin/v1''"

text \<open>\<open>path.Clean\<close> of a rooted path: the elements between slashes, with dots resolved.\<close>

fun path_elements :: "string \<Rightarrow> string \<Rightarrow> string list" where
  "path_elements cur [] = [cur]"
| "path_elements cur (c # cs) = (if c = CHR ''/'' then cur # path_elements '''' cs else path_elements (cur @ [c]) cs)"

fun clean_elements :: "string list \<Rightarrow> string list \<Rightarrow> string list" where
  "clean_elements done_rev [] = rev done_rev"
| "clean_elements done_rev (e # es) =
     (if e = '''' \<or> e = ''.'' then clean_elements done_rev es
      else if e = ''..'' then clean_elements (tl done_rev) es
      else clean_elements (e # done_rev) es)"

definition path_Clean_rooted :: "string \<Rightarrow> string" where
  "path_Clean_rooted p =
     (let es = clean_elements [] (path_elements '''' p)
      in if es = [] then ''/'' else concat (map (\<lambda>e. CHR ''/'' # e) es))"

definition normalizeBasePath :: "string \<Rightarrow> string" where
  "normalizeBasePath rawPath =
     (let trimmedPath = TrimSpace rawPath
      in if trimmedPath = '''' \<or> trimmedPath = ''/'' then defaultBasePath
         else
           (let rooted = (if \<not> HasPrefix trimmedPath ''/'' then ''/'' @ trimmedPath else trimmedPath);
                cleanedPath = path_Clean_rooted rooted
            in if cleanedPath = ''.'' \<or> cleanedPath = ''/'' then defaultBasePath else cleanedPath))"

definition admin_NewService :: "AdminAPIServiceOptions \<Rightarrow> go_error + ('p, 'q, 's) AdminService" where
  "admin_NewService opts =
     (case NewAuthenticator opts of
        Inl e \<Rightarrow> Inl e
      | Inr a \<Rightarrow>
          Inr \<lparr>authenticator = a, userProvider = None, quotaController = None, speedController = None,
               basePath = normalizeBasePath (ao_Path opts), listenAddr = ao_Listen opts\<rparr>)"

text \<open>\<open>listen\<close> is the error of \<open>net.Listen\<close>; the services are those of the service manager, if there is one.\<close>

definition admin_Start ::
  "('p, 'q, 's) managed_service list option \<Rightarrow> (string \<Rightarrow> go_error option) \<Rightarrow> bool \<Rightarrow> ('p, 'q, 's) AdminService \<Rightarrow>
     go_error option \<times> ('p, 'q, 's) AdminService" where
  "admin_Start services listen stage_start S =
     (if \<not> stage_start then (None, S)
      else
        (let (u, q, s) = (case services of
                            None \<Rightarrow> (None, None, None)
                          | Some ms \<Rightarrow> resolveManagedServices ms (None, None, None));
             S' = S\<lparr>userProvider := u, quotaController := q, speedController := s\<rparr>
         in if listenAddr S = '''' then (None, S')
            else case listen (listenAddr S) of
              Some e \<Rightarrow> (Some (ECause e [''admin-api listen'']), S')
            | None \<Rightarrow> (None, S')))"

end
