(* ===== verification/UserProviderSafety.thy ===== *)
theory UserProviderSafety
  imports UserProvider
begin

text \<open>
  The merged list of the user provider is the one a specification without map iteration gives
  (\<open>merge_users_spec\<close>). The machine of \<open>provider_step\<close> collects the methods and the source loops;
  \<open>provider_inv\<close> is its invariant: the edited users are filed under their own names and are never
  also marked deleted, the list of users has no duplicates, and every server is a managed inbound.
\<close>

section \<open>Specification of the merge\<close>

text \<open>The elements of a list, each at its first occurrence.\<close>

fun firsts :: "'a list \<Rightarrow> 'a list" where
  "firsts [] = []"
| "firsts (x # xs) = x # filter (\<lambda>y. y \<noteq> x) (firsts xs)"

lemma set_firsts [simp]: "set (firsts xs) = set xs"
  by (induction xs) auto

lemma distinct_firsts [simp]: "distinct (firsts xs)"
  by (induction xs) auto

definition kept_users :: "string set \<Rightarrow> adapter_user list \<Rightarrow> adapter_user list" where
  "kept_users deleted src = filter (\<lambda>u. au_Name u \<notin> deleted) src"

definition named :: "adapter_user list \<Rightarrow> (string \<times> adapter_user) list" where
  "named us = map (\<lambda>u. (au_Name u, u)) us"

text \<open>Who is served: an edited user as edited, otherwise the last source that has the user.\<close>

definition directory ::
  "string set \<Rightarrow> adapter_user list \<Rightarrow> (string \<rightharpoonup> option_user) \<Rightarrow> string \<rightharpoonup> adapter_user" where
  "directory deleted src overlay =
     map_of (rev (named (kept_users deleted src))) ++ (\<lambda>n. map_option optionUserToAdapter (overlay n))"

definition directory_names ::
  "string set \<Rightarrow> adapter_user list \<Rightarrow> (string \<rightharpoonup> option_user) \<Rightarrow> string list" where
  "directory_names deleted src overlay =
     (let names = map au_Name (kept_users deleted src)
      in firsts names @ sorted_list_of_set (dom overlay - set names))"

lemma merge_sources_eq:
  assumes "dom m = set ns"
  shows "merge_sources deleted us (m, ns) =
     (m ++ map_of (rev (named (kept_users deleted us))),
      ns @ filter (\<lambda>n. n \<notin> set ns) (firsts (map au_Name (kept_users deleted us))))"
  using assms
proof (induction us arbitrary: m ns)
  case Nil
  then show ?case by (simp add: kept_users_def named_def)
next
  case (Cons u us)
  show ?case
  proof (cases "au_Name u \<in> deleted")
    case True
    with Cons show ?thesis by (simp add: kept_users_def)
  next
    case False
    let ?n = "au_Name u"
    have maps: "m(?n \<mapsto> u) ++ map_of (rev (named (kept_users deleted us))) =
        m ++ map_of (rev (named (kept_users deleted (u # us))))"
      using False by (simp add: kept_users_def named_def)
    let ?fs = "firsts (map au_Name (kept_users deleted us))"
    have kept: "kept_users deleted (u # us) = u # kept_users deleted us"
      using False by (simp add: kept_users_def)
    show ?thesis
    proof (cases "m ?n")
      case None
      then have notin: "?n \<notin> set ns" using Cons.prems by auto
      have names: "filter (\<lambda>k. k \<notin> set (ns @ [?n])) ?fs = filter (\<lambda>k. k \<notin> set ns) (filter (\<lambda>k. k \<noteq> ?n) ?fs)"
        unfolding filter_filter by (intro filter_cong) auto
      have "merge_sources deleted (u # us) (m, ns) = merge_sources deleted us (m(?n \<mapsto> u), ns @ [?n])"
        using None False by simp
      also have "\<dots> = (m(?n \<mapsto> u) ++ map_of (rev (named (kept_users deleted us))),
          (ns @ [?n]) @ filter (\<lambda>k. k \<notin> set (ns @ [?n])) ?fs)"
        by (rule Cons.IH) (use Cons.prems in \<open>simp only: dom_fun_upd, auto\<close>)
      finally show ?thesis unfolding maps names using notin by (simp add: kept)
    next
      case (Some v)
      then have isin: "?n \<in> set ns" using Cons.prems by auto
      have names: "filter (\<lambda>k. k \<notin> set ns) ?fs = filter (\<lambda>k. k \<notin> set ns) (filter (\<lambda>k. k \<noteq> ?n) ?fs)"
        unfolding filter_filter using isin by (intro filter_cong) auto
      have "merge_sources deleted (u # us) (m, ns) = merge_sources deleted us (m(?n \<mapsto> u), ns)"
        using Some False by simp
      also have "\<dots> = (m(?n \<mapsto> u) ++ map_of (rev (named (kept_users deleted us))),
          ns @ filter (\<lambda>k. k \<notin> set ns) ?fs)"
        by (rule Cons.IH) (use Cons.prems isin in \<open>simp only: dom_fun_upd, auto\<close>)
      finally show ?thesis unfolding maps names using isin by (simp add: kept)
    qed
  qed
qed

lemma merge_overlay_eq:
  assumes "distinct order" and "\<forall>n \<in> set order. overlay n \<noteq> None"
  shows "merge_overlay overlay order (m, only) =
     (m ++ (\<lambda>n. if n \<in> set order then map_option optionUserToAdapter (overlay n) else None),
      only @ filter (\<lambda>n. m n = None) order)"
  using assms
proof (induction order arbitrary: m only)
  case Nil
  then show ?case by simp
next
  case (Cons n order)
  then obtain u where u: "overlay n = Some u" by auto
  have f: "filter (\<lambda>k. (m(n \<mapsto> optionUserToAdapter u)) k = None) order = filter (\<lambda>k. m k = None) order"
    using Cons.prems(1) by (auto intro: filter_cong)
  have g: "m(n \<mapsto> optionUserToAdapter u) ++
        (\<lambda>k. if k \<in> set order then map_option optionUserToAdapter (overlay k) else None) =
      m ++ (\<lambda>k. if k \<in> set (n # order) then map_option optionUserToAdapter (overlay k) else None)"
    using Cons.prems(1) u by (auto simp: map_add_def fun_eq_iff split: option.splits)
  let ?only = "if m n = None then only @ [n] else only"
  have "merge_overlay overlay (n # order) (m, only) =
      merge_overlay overlay order (m(n \<mapsto> optionUserToAdapter u), ?only)"
    using u by simp
  also have "\<dots> = (m(n \<mapsto> optionUserToAdapter u) ++
        (\<lambda>k. if k \<in> set order then map_option optionUserToAdapter (overlay k) else None),
      ?only @ filter (\<lambda>k. (m(n \<mapsto> optionUserToAdapter u)) k = None) order)"
    using Cons.prems by (intro Cons.IH) simp_all
  finally show ?case unfolding f g by simp
qed

lemma sort_filter_dom:
  assumes "range_order order overlay"
  shows "sort (filter P order) = sorted_list_of_set {n \<in> dom overlay. P n}"
proof -
  have "{n \<in> dom overlay. P n} = set (filter P order)" using assms by (auto simp: range_order_def)
  moreover have "sort (remdups (filter P order)) = sort (filter P order)"
    using assms by (metis distinct_filter distinct_remdups_id range_order_def)
  ultimately show ?thesis using sorted_list_of_set_sort_remdups [of "filter P order"] by simp
qed

definition merged_spec ::
  "string set \<Rightarrow> adapter_user list \<Rightarrow> (string \<rightharpoonup> option_user) \<Rightarrow> adapter_user list" where
  "merged_spec deleted src overlay =
     map (the \<circ> directory deleted src overlay) (directory_names deleted src overlay)"

lemma dom_named [simp]: "dom (map_of (rev (named us))) = au_Name ` set us"
  by (simp add: named_def dom_map_of_conv_image_fst image_image)

lemma dom_directory: "dom (directory deleted src overlay) = au_Name ` set (kept_users deleted src) \<union> dom overlay"
  by (auto simp: directory_def dom_def map_add_def split: option.splits)
    (use dom_named [of "kept_users deleted src"] in \<open>auto simp: dom_def\<close>)

lemma set_directory_names:
  "finite (dom overlay) \<Longrightarrow> set (directory_names deleted src overlay) = dom (directory deleted src overlay)"
  by (auto simp: directory_names_def Let_def dom_directory)

lemma distinct_directory_names: "distinct (directory_names deleted src overlay)"
  by (cases "finite (dom overlay)") (auto simp: directory_names_def Let_def)

lemma merge_users_spec:
  assumes "range_order (overlay_order env (overlayUsers s)) (overlayUsers s)"
  shows "merge_users env s src = merged_spec (deletedUsers s) src (overlayUsers s)"
proof -
  let ?o = "overlay_order env (overlayUsers s)" and ?D = "deletedUsers s" and ?O = "overlayUsers s"
  let ?kept = "kept_users ?D src" and ?conv = "\<lambda>n. map_option optionUserToAdapter (?O n)"
  let ?m = "map_of (rev (named ?kept))"
  have fin: "finite (dom ?O)" using assms unfolding range_order_def by (metis List.finite_set)
  have src: "merge_sources ?D src (Map.empty, []) = (?m, firsts (map au_Name ?kept))"
    using merge_sources_eq [of Map.empty "[]" ?D src] by simp
  have "(\<lambda>n. if n \<in> set ?o then ?conv n else None) = ?conv"
    using assms by (auto simp: range_order_def fun_eq_iff)
  then have ovl: "merge_overlay ?O ?o (?m, []) = (directory ?D src ?O, filter (\<lambda>n. ?m n = None) ?o)"
    using merge_overlay_eq [of ?o ?O ?m "[]"] assms by (auto simp: range_order_def directory_def)
  have "?m n = None \<longleftrightarrow> n \<notin> set (map au_Name ?kept)" for n
    using dom_named [of ?kept] by (metis domIff list.set_map)
  then have "{n \<in> dom ?O. ?m n = None} = dom ?O - set (map au_Name ?kept)" by blast
  then have names: "firsts (map au_Name ?kept) @ sort (filter (\<lambda>n. ?m n = None) ?o) = directory_names ?D src ?O"
    by (simp add: sort_filter_dom [OF assms] directory_names_def)
  have "\<forall>n \<in> set (directory_names ?D src ?O). \<exists>u. directory ?D src ?O n = Some u"
    using set_directory_names [OF fin] by (auto simp: dom_def)
  then show ?thesis
    unfolding merge_users_def merged_spec_def src ovl Let_def prod.case names by (intro map_cong) auto
qed

definition keyed_by_name :: "(string \<rightharpoonup> option_user) \<Rightarrow> bool" where
  "keyed_by_name overlay \<longleftrightarrow> (\<forall>n u. overlay n = Some u \<longrightarrow> ou_Name u = n)"

lemma directory_name:
  assumes "keyed_by_name overlay" and "directory deleted src overlay n = Some u"
  shows "au_Name u = n"
proof -
  have "map_of (rev (named (kept_users deleted src))) n = Some u \<Longrightarrow> au_Name u = n"
    by (drule map_of_SomeD) (auto simp: named_def)
  with assms show ?thesis by (auto simp: directory_def keyed_by_name_def map_add_Some_iff)
qed

lemma merged_names:
  assumes key: "keyed_by_name overlay" and fin: "finite (dom overlay)"
  shows "map au_Name (merged_spec deleted src overlay) = directory_names deleted src overlay"
proof -
  have "\<forall>n \<in> set (directory_names deleted src overlay). au_Name (the (directory deleted src overlay n)) = n"
    using set_directory_names [OF fin] directory_name [OF key] by (auto simp: dom_def)
  then show ?thesis by (simp add: merged_spec_def map_idI)
qed

lemma merged_distinct:
  assumes "keyed_by_name overlay" and "finite (dom overlay)"
  shows "distinct (map au_Name (merged_spec deleted src overlay))"
  by (simp add: merged_names [OF assms] distinct_directory_names)

lemma find_merged:
  assumes key: "keyed_by_name overlay" and fin: "finite (dom overlay)"
  shows "find_user n (merged_spec deleted src overlay) = directory deleted src overlay n"
proof (cases "directory deleted src overlay n")
  case None
  then have "n \<notin> set (map au_Name (merged_spec deleted src overlay))"
    unfolding merged_names [OF assms] set_directory_names [OF fin] by auto
  then show ?thesis using None by (auto simp: find_user_def find_None_iff)
next
  case (Some u)
  then have "n \<in> set (directory_names deleted src overlay)" using set_directory_names [OF fin] by auto
  then have "u \<in> set (merged_spec deleted src overlay)" using Some by (force simp: merged_spec_def)
  then obtain v where v: "find_user n (merged_spec deleted src overlay) = Some v"
    using directory_name [OF key Some]
    by (cases "find_user n (merged_spec deleted src overlay)") (auto simp: find_user_def find_None_iff)
  then have "v \<in> set (merged_spec deleted src overlay)" "au_Name v = n"
    by (auto simp: find_user_def find_Some_iff)
  then have "v = u"
    using merged_distinct [OF assms] directory_name [OF key Some] \<open>u \<in> _\<close> by (metis distinct_map inj_onD)
  with v Some show ?thesis by simp
qed

section \<open>Pushing\<close>

lemma push_servers_frame:
  "push_servers rep us tags inb = (errs, inb') \<Longrightarrow> tag \<notin> set tags \<Longrightarrow> inb' tag = inb tag"
  by (induction tags arbitrary: inb errs)
    (auto simp: Let_def split: option.splits prod.splits)

text \<open>The type of an inbound and whether it is managed do not change.\<close>

definition managed_as :: "(string \<rightharpoonup> string \<times> 'h option) \<Rightarrow> string \<Rightarrow> (string \<times> bool) option" where
  "managed_as inb tag = map_option (map_prod id (\<lambda>h. h \<noteq> None)) (inb tag)"

lemma push_servers_shape:
  "push_servers rep us tags inb = (errs, inb') \<Longrightarrow> managed_as inb' = managed_as inb"
proof (induction tags arbitrary: inb errs)
  case Nil
  then show ?case by simp
next
  case (Cons tag tags)
  show ?case
  proof (cases "\<exists>ty h. inb tag = Some (ty, Some h)")
    case True
    then obtain ty h where h: "inb tag = Some (ty, Some h)" by blast
    obtain err h' where r: "rep us h = (err, h')" by (cases "rep us h")
    obtain errs' where p: "push_servers rep us tags (inb(tag \<mapsto> (ty, Some h'))) = (errs', inb')"
      using Cons.prems h r by (auto simp: Let_def split: prod.splits)
    have "managed_as (inb(tag \<mapsto> (ty, Some h'))) = managed_as inb"
      by (auto simp: managed_as_def fun_eq_iff h)
    with Cons.IH [OF p] show ?thesis by (rule trans)
  next
    case False
    with Cons show ?thesis by (auto split: option.splits prod.splits)
  qed
qed

context user_server begin

lemma push_servers_names:
  assumes "push_servers rep us tags inb = (errs, inb')" and "inb tag = Some (ty, Some h)"
  shows "\<exists>h'. inb' tag = Some (ty, Some h') \<and> (names h' = names h \<or> names h' = map au_Name us) \<and>
     (errs = [] \<longrightarrow> tag \<in> set tags \<or> names h = map au_Name us \<longrightarrow> names h' = map au_Name us)"
  using assms
proof (induction tags arbitrary: inb errs h)
  case Nil
  then show ?case by simp
next
  case (Cons t tags)
  show ?case
  proof (cases "\<exists>ty h. inb t = Some (ty, Some h)")
    case True
    then obtain ty' g where g: "inb t = Some (ty', Some g)" by blast
    obtain err g' where r: "rep us g = (err, g')" by (cases "rep us g")
    obtain errs' where p: "push_servers rep us tags (inb(t \<mapsto> (ty', Some g'))) = (errs', inb')"
      and e: "errs = [] \<longleftrightarrow> err = None \<and> errs' = []"
      using Cons.prems(1) g r by (auto simp: Let_def split: prod.splits option.splits)
    have n: "names g' = (if err = None then map au_Name us else names g)"
      using names_rep [of us g] r by simp
    show ?thesis
    proof (cases "tag = t")
      case True
      with Cons.IH [OF p, of g'] Cons.prems(2) g n e show ?thesis by (auto split: if_splits)
    next
      case False
      with Cons.IH [OF p, of h] Cons.prems(2) e show ?thesis by auto
    qed
  next
    case False
    with Cons.prems have "push_servers rep us tags inb = (errs, inb')" "tag \<noteq> t"
      by (auto split: option.splits prod.splits)
    with Cons.IH [of inb errs h] Cons.prems(2) show ?thesis by simp
  qed
qed

end

section \<open>State changes of a load\<close>

lemma sourceUsersLocked_cases:
  obtains f where "snd (sourceUsersLocked env s) = s\<lparr>fileSource := f\<rparr>"
    "map_option fs_path f = map_option fs_path (fileSource s)"
proof -
  have "\<exists>f. snd (sourceUsersLocked env s) = s\<lparr>fileSource := f\<rparr> \<and>
      map_option fs_path f = map_option fs_path (fileSource s)"
    by (auto simp: sourceUsersLocked_def file_Load_def split: option.splits sum.splits prod.splits)
  then show ?thesis using that by blast
qed

lemma sourceUsersLocked_result:
  assumes "map_option fs_path (fileSource t) = map_option fs_path (fileSource s)"
    and "inlineUsers t = inlineUsers s" and "cached_source_users t = cached_source_users s"
  shows "fst (sourceUsersLocked env t) = fst (sourceUsersLocked env s)"
proof (cases "fileSource s")
  case None
  with assms show ?thesis by (simp add: sourceUsersLocked_def)
next
  case (Some f)
  with assms(1) obtain g where "fileSource t = Some g" "fs_path g = fs_path f" by auto
  with Some assms(2,3) show ?thesis
    by (simp add: sourceUsersLocked_def file_Load_def split: sum.splits)
qed

lemma cached_source_users_update [simp]:
  "cached_source_users (s\<lparr>fileSource := f\<rparr>) = cached_source_users s"
  "cached_source_users (s\<lparr>overlayUsers := ov\<rparr>) = cached_source_users s"
  "cached_source_users (s\<lparr>deletedUsers := d\<rparr>) = cached_source_users s"
  by (simp_all add: cached_source_users_def)

text \<open>The environments that visit the overlay in some order.\<close>

definition visits_overlay :: "source_env \<Rightarrow> bool" where
  "visits_overlay env \<longleftrightarrow> (\<forall>m. finite (dom m) \<longrightarrow> range_order (overlay_order env m) m)"

definition overlay_ok :: "'h provider \<Rightarrow> bool" where
  "overlay_ok s \<longleftrightarrow> finite (dom (overlayUsers s)) \<and> keyed_by_name (overlayUsers s) \<and>
     dom (overlayUsers s) \<inter> deletedUsers s = {}"

definition provider_inv :: "'h provider \<Rightarrow> bool" where
  "provider_inv s \<longleftrightarrow> overlay_ok s \<and> distinct (map au_Name (allUsers s)) \<and>
     (\<forall>tag \<in> set (servers s). \<exists>ty. managed_as (inbounds s) tag = Some (ty, True))"

text \<open>The directory of users a provider serves when its sources hold \<open>src\<close>.\<close>

definition served :: "adapter_user list \<Rightarrow> 'h provider \<Rightarrow> string \<rightharpoonup> adapter_user" where
  "served src s = directory (deletedUsers s) src (overlayUsers s)"

lemma mergedUsersLocked_ok:
  assumes "visits_overlay env" "finite (dom (overlayUsers s))" "fst (sourceUsersLocked env s) = Inr src"
  shows "\<exists>f. mergedUsersLocked env s =
      (Inr (merged_spec (deletedUsers s) src (overlayUsers s)), s\<lparr>fileSource := f\<rparr>) \<and>
      map_option fs_path f = map_option fs_path (fileSource s)"
proof -
  obtain f where f: "snd (sourceUsersLocked env s) = s\<lparr>fileSource := f\<rparr>"
      "map_option fs_path f = map_option fs_path (fileSource s)"
    by (rule sourceUsersLocked_cases)
  then have "sourceUsersLocked env s = (Inr src, s\<lparr>fileSource := f\<rparr>)" using assms(3) by (metis prod.collapse)
  moreover have "merge_users env (s\<lparr>fileSource := f\<rparr>) src = merged_spec (deletedUsers s) src (overlayUsers s)"
    using merge_users_spec [of env "s\<lparr>fileSource := f\<rparr>" src] assms(1,2) by (simp add: visits_overlay_def)
  ultimately show ?thesis using f(2) by (auto simp: mergedUsersLocked_def)
qed

lemma mergedUsersLocked_err:
  assumes "fst (sourceUsersLocked env s) = Inl e"
  shows "\<exists>f. mergedUsersLocked env s = (Inl e, s\<lparr>fileSource := f\<rparr>) \<and>
      map_option fs_path f = map_option fs_path (fileSource s)"
proof -
  obtain f where "snd (sourceUsersLocked env s) = s\<lparr>fileSource := f\<rparr>"
      "map_option fs_path f = map_option fs_path (fileSource s)"
    by (rule sourceUsersLocked_cases)
  then show ?thesis using assms by (auto simp: mergedUsersLocked_def split: prod.splits)
qed

lemma loadAndPush_ok:
  assumes "visits_overlay env" "finite (dom (overlayUsers s))" "fst (sourceUsersLocked env s) = Inr src"
  defines "us \<equiv> merged_spec (deletedUsers s) src (overlayUsers s)"
  shows "\<exists>f errs inb. push_servers rep us (servers s) (inbounds s) = (errs, inb) \<and>
     loadAndPush rep env s = (errors_of errs, s\<lparr>fileSource := f, allUsers := us, inbounds := inb\<rparr>)"
proof -
  obtain errs inb where p: "push_servers rep us (servers s) (inbounds s) = (errs, inb)"
    by (cases "push_servers rep us (servers s) (inbounds s)")
  obtain f where "mergedUsersLocked env s = (Inr us, s\<lparr>fileSource := f\<rparr>)"
    using mergedUsersLocked_ok [OF assms(1-3)] by (auto simp: us_def)
  then have "loadAndPush rep env s = (errors_of errs, s\<lparr>fileSource := f, allUsers := us, inbounds := inb\<rparr>)"
    using p by (simp add: loadAndPush_def pushUsers_def)
  with p show ?thesis by blast
qed

lemma loadAndPush_err:
  assumes "fst (sourceUsersLocked env s) = Inl e"
  shows "\<exists>f. loadAndPush rep env s = (Some e, s\<lparr>fileSource := f\<rparr>)"
  using mergedUsersLocked_err [OF assms] by (auto simp: loadAndPush_def)

section \<open>The provider as a machine\<close>

definition provider_init :: "'h replace \<Rightarrow> 'h provider \<Rightarrow> bool" where
  "provider_init rep s \<longleftrightarrow> (\<exists>manager opts s0 env pg. visits_overlay env \<and>
     up_NewService manager opts = Inr s0 \<and> up_Start rep env pg True s0 = (None, s))"

text \<open>The steps after \<open>Start\<close>; \<open>P\<close> says which users may be created.\<close>

inductive provider_step :: "'h replace \<Rightarrow> (string \<Rightarrow> bool) \<Rightarrow> 'h provider \<Rightarrow> 'h provider \<Rightarrow> bool"
  for rep P where
  file_tick: "visits_overlay env' \<Longrightarrow> provider_step rep P s (up_file_tick rep env env' s)"
| http_tick: "visits_overlay env \<Longrightarrow> provider_step rep P s (up_http_tick rep E env s)"
| redis_tick: "visits_overlay env \<Longrightarrow> provider_step rep P s (up_redis_tick rep get env s)"
| postgres_tick: "visits_overlay env \<Longrightarrow> provider_step rep P s (up_pg_tick rep query env s)"
| create_user: "visits_overlay env \<Longrightarrow> visits_overlay env' \<Longrightarrow> P (ou_Name u) \<Longrightarrow>
    provider_step rep P s (snd (CreateUser rep env env' u s))"
| update_user: "visits_overlay env \<Longrightarrow> visits_overlay env' \<Longrightarrow>
    provider_step rep P s (snd (UpdateUser rep env env' name patch s))"
| delete_user: "visits_overlay env \<Longrightarrow> visits_overlay env' \<Longrightarrow> visits_overlay env'' \<Longrightarrow>
    provider_step rep P s (snd (DeleteUser rep env env' env'' name s))"
| close_service: "provider_step rep P s (snd (up_Close redis_close s))"

text \<open>
  What a step may change besides the sources: nothing, or the list of all users and the inbounds
  by a push of the merged users.
\<close>

definition pushed :: "'h replace \<Rightarrow> 'h provider \<Rightarrow> 'h provider \<Rightarrow> bool" where
  "pushed rep s t \<longleftrightarrow> overlayUsers t = overlayUsers s \<and> deletedUsers t = deletedUsers s \<and>
     servers t = servers s \<and>
     (allUsers t = allUsers s \<and> inbounds t = inbounds s \<or>
      (\<exists>src errs. allUsers t = merged_spec (deletedUsers s) src (overlayUsers s) \<and>
         push_servers rep (allUsers t) (servers s) (inbounds s) = (errs, inbounds t)))"

lemma pushed_refl: "overlayUsers t = overlayUsers s \<Longrightarrow> deletedUsers t = deletedUsers s \<Longrightarrow>
    servers t = servers s \<Longrightarrow> allUsers t = allUsers s \<Longrightarrow> inbounds t = inbounds s \<Longrightarrow> pushed rep s t"
  by (simp add: pushed_def)

lemma pushed_loadAndPush:
  assumes "visits_overlay env" "finite (dom (overlayUsers s))"
  shows "pushed rep s (snd (loadAndPush rep env s))"
proof (cases "fst (sourceUsersLocked env s)")
  case (Inl e)
  then show ?thesis using loadAndPush_err [of env s e rep] by (auto simp: pushed_def)
next
  case (Inr src)
  then obtain f errs inb where
    "push_servers rep (merged_spec (deletedUsers s) src (overlayUsers s)) (servers s) (inbounds s) = (errs, inb)"
    "snd (loadAndPush rep env s) =
       s\<lparr>fileSource := f, allUsers := merged_spec (deletedUsers s) src (overlayUsers s), inbounds := inb\<rparr>"
    using loadAndPush_ok [OF assms Inr, of rep] by auto
  then show ?thesis by (auto simp: pushed_def)
qed

lemma pushed_onSourceUpdate:
  assumes "visits_overlay env" "finite (dom (overlayUsers s))"
    and "overlayUsers s' = overlayUsers s" "deletedUsers s' = deletedUsers s" "servers s' = servers s"
      "allUsers s' = allUsers s" "inbounds s' = inbounds s"
  shows "pushed rep s (onSourceUpdate rep env s')"
  using pushed_loadAndPush [of env s' rep] assms by (simp add: onSourceUpdate_def pushed_def)

lemma pushed_ticks:
  assumes "visits_overlay env" "finite (dom (overlayUsers s))"
  shows "pushed rep s (up_file_tick rep env0 env s)" and "pushed rep s (up_http_tick rep E env s)"
    and "pushed rep s (up_redis_tick rep get env s)" and "pushed rep s (up_pg_tick rep query env s)"
    and "pushed rep s (snd (up_Close redis_close s))"
  using assms
  by (auto simp: up_file_tick_def up_http_tick_def up_redis_tick_def up_pg_tick_def up_Close_def Let_def
      pushed_refl split: option.splits prod.splits intro!: pushed_onSourceUpdate)

text \<open>
  An administration method pushes after it has edited the two maps: \<open>edited\<close> relates the states
  before and after for a given edit.
\<close>

definition edited ::
  "'h replace \<Rightarrow> (string \<rightharpoonup> option_user) \<Rightarrow> string set \<Rightarrow> 'h provider \<Rightarrow> 'h provider \<Rightarrow> bool" where
  "edited rep ov del s t \<longleftrightarrow> pushed rep (s\<lparr>overlayUsers := ov, deletedUsers := del\<rparr>) t"

lemma merged_fst:
  assumes "visits_overlay env" "finite (dom (overlayUsers s))" "mergedUsersLocked env s = (Inr us, s1)"
  shows "\<exists>src f. us = merged_spec (deletedUsers s) src (overlayUsers s) \<and> s1 = s\<lparr>fileSource := f\<rparr>"
proof (cases "fst (sourceUsersLocked env s)")
  case (Inl e)
  then show ?thesis using mergedUsersLocked_err [OF Inl] assms(3) by auto
next
  case (Inr src)
  then show ?thesis using mergedUsersLocked_ok [OF assms(1,2) Inr] assms(3) by auto
qed

lemma merged_snd: "\<exists>f. snd (mergedUsersLocked env s) = s\<lparr>fileSource := f\<rparr>"
proof -
  obtain f where "snd (sourceUsersLocked env s) = s\<lparr>fileSource := f\<rparr>" by (rule sourceUsersLocked_cases)
  moreover have "snd (mergedUsersLocked env s) = snd (sourceUsersLocked env s)"
    by (simp add: mergedUsersLocked_def split: prod.split sum.split)
  ultimately show ?thesis by auto
qed

lemma edited_loadAndPush:
  assumes "visits_overlay env" "finite (dom (overlayUsers t))" "overlayUsers t = ov" "deletedUsers t = del"
    "servers t = servers s" "allUsers t = allUsers s" "inbounds t = inbounds s"
  shows "edited rep ov del s (snd (loadAndPush rep env t))"
  using pushed_loadAndPush [of env t rep] assms by (simp add: edited_def pushed_def)

lemma patch_user_name [simp]: "ou_Name (patch_user patch u) = ou_Name u"
  by (simp add: patch_user_def)

text \<open>The three methods: refused with at most the file's time changed, or an edit of known kind.\<close>

lemma create_effect:
  assumes "visits_overlay env" "visits_overlay env'" "overlay_ok s"
  shows "pushed rep s (snd (CreateUser rep env env' u s)) \<or>
     (\<exists>src. served src s (ou_Name u) = None \<and>
        edited rep ((overlayUsers s)(ou_Name u \<mapsto> u)) (deletedUsers s - {ou_Name u}) s
          (snd (CreateUser rep env env' u s)))"
proof -
  have fin: "finite (dom (overlayUsers s))" and key: "keyed_by_name (overlayUsers s)"
    using assms(3) by (auto simp: overlay_ok_def)
  obtain r s1 where m: "mergedUsersLocked env s = (r, s1)" by (cases "mergedUsersLocked env s")
  obtain f where s1: "s1 = s\<lparr>fileSource := f\<rparr>" using merged_snd [of env s] m by auto
  show ?thesis
  proof (cases r)
    case (Inl e)
    then show ?thesis using m by (simp add: CreateUser_def s1 pushed_refl)
  next
    case (Inr us)
    then obtain src where us: "us = merged_spec (deletedUsers s) src (overlayUsers s)"
      using merged_fst [OF assms(1) fin] m by blast
    have find: "find_user (ou_Name u) us = served src s (ou_Name u)"
      using find_merged [OF key fin] by (simp add: us served_def)
    show ?thesis
    proof (cases "ou_Name u = '''' \<or> served src s (ou_Name u) \<noteq> None")
      case True
      then show ?thesis using m Inr by (auto simp: CreateUser_def find s1 pushed_refl)
    next
      case False
      then have "edited rep ((overlayUsers s)(ou_Name u \<mapsto> u)) (deletedUsers s - {ou_Name u}) s
          (snd (CreateUser rep env env' u s))"
        using m Inr fin by (simp add: CreateUser_def find s1 edited_loadAndPush [OF assms(2)])
      with False show ?thesis by (intro disjI2 exI [of _ src]) simp
    qed
  qed
qed

lemma update_effect:
  assumes "visits_overlay env" "visits_overlay env'" "overlay_ok s"
  shows "pushed rep s (snd (UpdateUser rep env env' name patch s)) \<or>
     (\<exists>src cur. served src s name = Some cur \<and>
        edited rep ((overlayUsers s)(name \<mapsto> patch_user patch (adapterUserToOption cur)))
          (deletedUsers s - {name}) s (snd (UpdateUser rep env env' name patch s)))"
proof -
  have fin: "finite (dom (overlayUsers s))" and key: "keyed_by_name (overlayUsers s)"
    using assms(3) by (auto simp: overlay_ok_def)
  obtain r s1 where m: "mergedUsersLocked env s = (r, s1)" by (cases "mergedUsersLocked env s")
  obtain f where s1: "s1 = s\<lparr>fileSource := f\<rparr>" using merged_snd [of env s] m by auto
  show ?thesis
  proof (cases r)
    case (Inl e)
    then show ?thesis using m by (simp add: UpdateUser_def s1 pushed_refl)
  next
    case (Inr us)
    then obtain src where us: "us = merged_spec (deletedUsers s) src (overlayUsers s)"
      using merged_fst [OF assms(1) fin] m by blast
    have find: "find_user name us = served src s name"
      using find_merged [OF key fin] by (simp add: us served_def)
    show ?thesis
    proof (cases "served src s name")
      case None
      then show ?thesis using m Inr by (simp add: UpdateUser_def find s1 pushed_refl)
    next
      case (Some cur)
      then have "edited rep ((overlayUsers s)(name \<mapsto> patch_user patch (adapterUserToOption cur)))
          (deletedUsers s - {name}) s (snd (UpdateUser rep env env' name patch s))"
        using m Inr fin by (simp add: UpdateUser_def find s1 edited_loadAndPush [OF assms(2)])
      with Some show ?thesis by (intro disjI2 exI [of _ src] exI [of _ cur]) simp
    qed
  qed
qed

lemma delete_effect:
  assumes "visits_overlay env" "visits_overlay env''" "overlay_ok s"
  shows "pushed rep s (snd (DeleteUser rep env env' env'' name s)) \<or>
     (\<exists>src del. served src s name \<noteq> None \<and> (del = insert name (deletedUsers s) \<or> del = deletedUsers s - {name}) \<and>
        edited rep ((overlayUsers s)(name := None)) del s (snd (DeleteUser rep env env' env'' name s)))"
proof -
  have fin: "finite (dom (overlayUsers s))" and key: "keyed_by_name (overlayUsers s)"
    using assms(3) by (auto simp: overlay_ok_def)
  obtain r s1 where m: "mergedUsersLocked env s = (r, s1)" by (cases "mergedUsersLocked env s")
  obtain f where s1: "s1 = s\<lparr>fileSource := f\<rparr>" using merged_snd [of env s] m by auto
  obtain q s2 where q: "sourceUsersLocked env' s1 = (q, s2)" by (cases "sourceUsersLocked env' s1")
  obtain g where s2: "s2 = s\<lparr>fileSource := g\<rparr>" using sourceUsersLocked_cases [of env' s1] q s1 by auto
  show ?thesis
  proof (cases r)
    case (Inl e)
    then show ?thesis using m by (simp add: DeleteUser_def s1 pushed_refl)
  next
    case (Inr us)
    then obtain src where us: "us = merged_spec (deletedUsers s) src (overlayUsers s)"
      using merged_fst [OF assms(1) fin] m by blast
    have find: "find_user name us = served src s name"
      using find_merged [OF key fin] by (simp add: us served_def)
    show ?thesis
    proof (cases "served src s name = None \<or> (\<exists>e. q = Inl e)")
      case True
      then have h: "snd (DeleteUser rep env env' env'' name s) =
          s\<lparr>fileSource := if served src s name = None then f else g\<rparr>"
        using m q Inr by (auto simp: DeleteUser_def find s1 s2)
      show ?thesis unfolding h by (simp add: pushed_refl)
    next
      case False
      then obtain src' where src': "q = Inr src'" and ne: "served src s name \<noteq> None" by (cases q) auto
      let ?del = "if find_user name src' \<noteq> None then insert name (deletedUsers s) else deletedUsers s - {name}"
      have "snd (DeleteUser rep env env' env'' name s) =
          snd (loadAndPush rep env'' (s2\<lparr>overlayUsers := (overlayUsers s2)(name := None), deletedUsers := ?del\<rparr>))"
        using m q Inr src' ne by (auto simp: DeleteUser_def find s2)
      also have "edited rep ((overlayUsers s)(name := None)) ?del s \<dots>"
        using fin by (intro edited_loadAndPush [OF assms(2)]) (simp_all add: s2)
      finally have "edited rep ((overlayUsers s)(name := None)) ?del s (snd (DeleteUser rep env env' env'' name s))" .
      moreover have "?del = insert name (deletedUsers s) \<or> ?del = deletedUsers s - {name}" by simp
      ultimately show ?thesis using ne by blast
    qed
  qed
qed

section \<open>Invariants\<close>

lemma provider_inv_pushed:
  assumes "provider_inv s" "pushed rep s t"
  shows "provider_inv t"
proof -
  have ok: "overlay_ok s" and d: "distinct (map au_Name (allUsers s))"
    and srv: "\<forall>tag \<in> set (servers s). \<exists>ty. managed_as (inbounds s) tag = Some (ty, True)"
    using assms(1) by (auto simp: provider_inv_def)
  have "managed_as (inbounds t) = managed_as (inbounds s) \<and> distinct (map au_Name (allUsers t))"
    using assms(2) d merged_distinct ok push_servers_shape
    unfolding pushed_def overlay_ok_def by metis
  with ok srv assms(2) show ?thesis by (auto simp: provider_inv_def overlay_ok_def pushed_def)
qed

lemma provider_inv_edited:
  assumes "provider_inv s" "edited rep ov del s t"
    and "finite (dom ov)" "keyed_by_name ov" "dom ov \<inter> del = {}"
  shows "provider_inv t"
proof -
  have "provider_inv (s\<lparr>overlayUsers := ov, deletedUsers := del\<rparr>)"
    using assms by (simp add: provider_inv_def overlay_ok_def)
  then show ?thesis using assms(2) provider_inv_pushed unfolding edited_def by blast
qed

lemma provider_inv_step:
  assumes "provider_step rep P s t" "provider_inv s"
  shows "provider_inv t"
  using assms(1)
proof cases
  have ok: "overlay_ok s" and fin: "finite (dom (overlayUsers s))" and key: "keyed_by_name (overlayUsers s)"
    and disj: "dom (overlayUsers s) \<inter> deletedUsers s = {}"
    using assms(2) by (auto simp: provider_inv_def overlay_ok_def)
  note push = provider_inv_pushed [OF assms(2)] and edit = provider_inv_edited [OF assms(2)]
  {
    case file_tick then show ?thesis using push pushed_ticks(1) fin by blast
  next
    case http_tick then show ?thesis using push pushed_ticks(2) fin by blast
  next
    case redis_tick then show ?thesis using push pushed_ticks(3) fin by blast
  next
    case postgres_tick then show ?thesis using push pushed_ticks(4) fin by blast
  next
    case (close_service rc)
    have "overlayUsers t = overlayUsers s" "deletedUsers t = deletedUsers s" "servers t = servers s"
      "allUsers t = allUsers s" "inbounds t = inbounds s"
      using close_service by (simp_all add: up_Close_def)
    then show ?thesis using push pushed_refl by metis
  next
    case (create_user env env' u)
    let ?ov = "(overlayUsers s)(ou_Name u \<mapsto> u)"
    have "keyed_by_name ?ov" "finite (dom ?ov)" "dom ?ov \<inter> (deletedUsers s - {ou_Name u}) = {}"
      using key fin disj by (auto simp: keyed_by_name_def)
    with create_effect [OF create_user(2,3) ok, of rep u] create_user(1) show ?thesis
      using push edit by blast
  next
    case (update_user env env' name patch)
    have edit': "provider_inv t"
      if "served src s name = Some cur" and
        "edited rep ((overlayUsers s)(name \<mapsto> patch_user patch (adapterUserToOption cur))) (deletedUsers s - {name}) s t"
      for src cur
    proof (rule edit [OF that(2)])
      show "keyed_by_name ((overlayUsers s)(name \<mapsto> patch_user patch (adapterUserToOption cur)))"
        using key directory_name [OF key] that(1) by (simp add: keyed_by_name_def served_def)
    qed (use fin disj in auto)
    show ?thesis
      using update_effect [OF update_user(2,3) ok, of rep name patch] push [of rep t] edit'
      unfolding update_user(1) by metis
  next
    case (delete_user env env' env'' name)
    let ?ov = "(overlayUsers s)(name := None)"
    have "keyed_by_name ?ov" "finite (dom ?ov)" "dom ?ov \<inter> insert name (deletedUsers s) = {}"
      "dom ?ov \<inter> (deletedUsers s - {name}) = {}"
      using key fin disj by (auto simp: keyed_by_name_def)
    then have "edited rep ?ov del s t \<Longrightarrow> del = insert name (deletedUsers s) \<or> del = deletedUsers s - {name} \<Longrightarrow>
        provider_inv t" for del
      using edit [of rep ?ov del t] by (elim disjE) simp_all
    then show ?thesis
      using delete_effect [OF delete_user(2,4) ok, of rep env' name] push [of rep t]
      unfolding delete_user(1) by metis
  }
qed

end
