(* ===== verification/UserProviderContracts.thy ===== *)
theory UserProviderContracts
  imports UserProviderSafety
begin

text \<open>
  What the user provider promises. Its administration methods refine the operations of a directory
  of users (\<open>directory_op\<close>); a start or a push that reports no error leaves every managed inbound
  with the names of the merged list; a deleted user stays out of the list and out of the inbounds;
  the HTTP source keeps the last good answer.
\<close>

section \<open>Lookup in the directory\<close>

lemma map_of_rev_filter:
  "map_of (rev (named (filter (\<lambda>u. P (au_Name u)) us))) k = (if P k then map_of (rev (named us)) k else None)"
  by (induction us) (auto simp: named_def map_add_def split: option.splits)

lemma directory_lookup:
  "directory deleted src overlay k =
     (case overlay k of
        Some u \<Rightarrow> Some (optionUserToAdapter u)
      | None \<Rightarrow> if k \<in> deleted then None else map_of (rev (named src)) k)"
  using map_of_rev_filter [of "\<lambda>n. n \<notin> deleted" src k]
  by (simp add: directory_def kept_users_def map_add_def split: option.splits)

lemma named_lookup_None: "map_of (rev (named src)) n = None \<longleftrightarrow> find_user n src = None"
  by (auto simp: map_of_eq_None_iff find_user_def find_None_iff named_def image_image)

section \<open>Starting\<close>

lemma resolve_servers_ok:
  assumes "resolve_servers tags s = (None, t)"
  shows "t = s\<lparr>servers := servers s @ tags\<rparr> \<and>
     (\<forall>tag \<in> set tags. \<exists>ty. managed_as (inbounds s) tag = Some (ty, True))"
  using assms
proof (induction tags arbitrary: s)
  case Nil
  then show ?case by simp
next
  case (Cons tag tags)
  then obtain ty h where h: "inbounds s tag = Some (ty, Some h)"
    and r: "resolve_servers tags (s\<lparr>servers := servers s @ [tag]\<rparr>) = (None, t)"
    by (auto split: option.splits)
  with Cons.IH [OF r] show ?case by (auto simp: managed_as_def)
qed

lemma up_Start_ok:
  assumes "up_Start rep env pg True s = (None, t)"
  shows "\<exists>s1 s2. resolve_servers (inboundTags s) s = (None, s1) \<and> loadAndPush rep env s1 = (None, s2) \<and>
     overlayUsers t = overlayUsers s2 \<and> deletedUsers t = deletedUsers s2 \<and> servers t = servers s2 \<and>
     allUsers t = allUsers s2 \<and> inbounds t = inbounds s2"
proof -
  obtain s1 where s1: "resolve_servers (inboundTags s) s = (None, s1)"
    using assms by (auto simp: up_Start_def split: prod.splits option.splits)
  obtain s2 where s2: "loadAndPush rep env s1 = (None, s2)"
    using assms s1 by (auto simp: up_Start_def split: prod.splits option.splits)
  show ?thesis
  proof (cases "postgresSource s2")
    case None
    with assms s1 s2 have "t = s2\<lparr>running := True\<rparr>" by (simp add: up_Start_def)
    with s1 s2 show ?thesis by simp
  next
    case (Some p)
    with assms s1 s2 obtain p' where "t = s2\<lparr>postgresSource := Some p', running := True\<rparr>"
      by (auto simp: up_Start_def split: prod.splits option.splits)
    with s1 s2 show ?thesis by simp
  qed
qed

lemma up_NewService_ok:
  assumes "up_NewService manager opts = Inr s"
  shows "inboundTags s = so_Inbounds opts" "servers s = []" "overlayUsers s = Map.empty"
    "deletedUsers s = {}" "allUsers s = []" "inbounds s = manager" "inlineUsers s = so_Users opts"
  using assms by (auto simp: up_NewService_def split: if_splits)

lemma provider_init_inv:
  assumes "provider_init rep s"
  shows "provider_inv s"
proof -
  obtain manager opts s0 env pg where env: "visits_overlay env" and new: "up_NewService manager opts = Inr s0"
    and start: "up_Start rep env pg True s0 = (None, s)"
    using assms by (auto simp: provider_init_def)
  obtain s1 s2 where r: "resolve_servers (inboundTags s0) s0 = (None, s1)"
    and l: "loadAndPush rep env s1 = (None, s2)"
    and s: "overlayUsers s = overlayUsers s2" "deletedUsers s = deletedUsers s2" "servers s = servers s2"
      "allUsers s = allUsers s2" "inbounds s = inbounds s2"
    using up_Start_ok [OF start] by blast
  have "provider_inv s1"
    using resolve_servers_ok [OF r] up_NewService_ok [OF new]
    by (auto simp: provider_inv_def overlay_ok_def keyed_by_name_def)
  moreover from this have "pushed rep s1 s2"
    using pushed_loadAndPush [OF env, of s1 rep] l by (simp add: provider_inv_def overlay_ok_def)
  ultimately have "provider_inv s2" by (rule provider_inv_pushed)
  with s show ?thesis by (simp add: provider_inv_def overlay_ok_def)
qed

interpretation provider: invariant_system "provider_init rep" "provider_step rep P" provider_inv for rep P
  by unfold_locales (fact provider_init_inv, rule provider_inv_step)

context user_server begin

text \<open>After a load that reports no error every server lists the users of \<open>allUsers\<close>.\<close>

lemma loadAndPush_serves:
  assumes "visits_overlay env" "provider_inv s" "loadAndPush rep env s = (None, t)" "tag \<in> set (servers s)"
  shows "\<exists>ty h. inbounds t tag = Some (ty, Some h) \<and> names h = map au_Name (allUsers t)"
proof -
  have fin: "finite (dom (overlayUsers s))" using assms(2) by (simp add: provider_inv_def overlay_ok_def)
  obtain ty h where h: "inbounds s tag = Some (ty, Some h)"
    using assms(2,4) by (fastforce simp: provider_inv_def managed_as_def)
  show ?thesis
  proof (cases "fst (sourceUsersLocked env s)")
    case (Inl e)
    then show ?thesis using loadAndPush_err [OF Inl, of rep] assms(3) by auto
  next
    case (Inr src)
    then obtain f errs inb us where p: "push_servers rep us (servers s) (inbounds s) = (errs, inb)"
      and l: "loadAndPush rep env s = (errors_of errs, s\<lparr>fileSource := f, allUsers := us, inbounds := inb\<rparr>)"
      using loadAndPush_ok [OF assms(1) fin Inr, of rep] by blast
    have "errs = []" using l assms(3) by (metis errors_of_None_iff fst_conv)
    then show ?thesis using push_servers_names [OF p h] l assms(3,4) by auto
  qed
qed

end

section \<open>Deleted users\<close>

definition away :: "('h \<Rightarrow> string list) \<Rightarrow> string \<Rightarrow> 'h provider \<Rightarrow> bool" where
  "away names n s \<longleftrightarrow> n \<in> deletedUsers s \<and> n \<notin> au_Name ` set (allUsers s) \<and>
     (\<forall>tag \<in> set (servers s). \<forall>ty h. inbounds s tag = Some (ty, Some h) \<longrightarrow> n \<notin> set (names h))"

lemma deleted_not_served: "overlay_ok s \<Longrightarrow> n \<in> deletedUsers s \<Longrightarrow> served src s n = None"
  by (auto simp: served_def directory_lookup overlay_ok_def split: option.splits)

lemma deleted_not_merged:
  assumes "overlay_ok s" "n \<in> deletedUsers s"
  shows "n \<notin> au_Name ` set (merged_spec (deletedUsers s) src (overlayUsers s))"
proof -
  have "set (map au_Name (merged_spec (deletedUsers s) src (overlayUsers s))) = dom (served src s)"
    using assms(1) by (simp only: merged_names set_directory_names overlay_ok_def served_def)
  with deleted_not_served [OF assms, of src] show ?thesis by auto
qed

context user_server begin

lemma away_pushed:
  assumes "provider_inv s" "away names n s" "pushed rep s t"
  shows "away names n t"
proof -
  have ok: "overlay_ok s" and del: "n \<in> deletedUsers s"
    using assms(1,2) by (simp_all add: provider_inv_def away_def)
  from assms(3) consider (same) "allUsers t = allUsers s" "inbounds t = inbounds s"
    | (new) src errs where "allUsers t = merged_spec (deletedUsers s) src (overlayUsers s)"
        "push_servers rep (allUsers t) (servers s) (inbounds s) = (errs, inbounds t)"
    by (auto simp: pushed_def)
  then show ?thesis
  proof cases
    case same
    with assms(2,3) show ?thesis by (simp add: away_def pushed_def)
  next
    case (new src errs)
    have gone: "n \<notin> au_Name ` set (allUsers t)" using deleted_not_merged [OF ok del] new(1) by simp
    have "n \<notin> set (names h)" if srv: "tag \<in> set (servers s)" and h: "inbounds t tag = Some (ty, Some h)" for tag ty h
    proof -
      obtain ty0 h0 where h0: "inbounds s tag = Some (ty0, Some h0)"
        using assms(1) srv by (fastforce simp: provider_inv_def managed_as_def)
      then have "n \<notin> set (names h0)" using assms(2) srv by (auto simp: away_def)
      with push_servers_names [OF new(2) h0] h gone show ?thesis by auto
    qed
    with gone del assms(3) show ?thesis by (simp add: away_def pushed_def)
  qed
qed

lemma away_edited:
  assumes "provider_inv s" "away names n s" "edited rep ov del s t"
    and "n \<in> del" "finite (dom ov)" "keyed_by_name ov" "dom ov \<inter> del = {}"
  shows "away names n t"
proof -
  have "provider_inv (s\<lparr>overlayUsers := ov, deletedUsers := del\<rparr>)"
    using assms by (simp add: provider_inv_def overlay_ok_def)
  moreover have "away names n (s\<lparr>overlayUsers := ov, deletedUsers := del\<rparr>)"
    using assms by (simp add: away_def)
  ultimately show ?thesis using assms(3) unfolding edited_def by (rule away_pushed)
qed

lemma away_step:
  assumes "provider_step rep (\<lambda>m. m \<noteq> n) s t" "provider_inv s" "away names n s"
  shows "away names n t"
  using assms(1)
proof cases
  have ok: "overlay_ok s" and fin: "finite (dom (overlayUsers s))" and key: "keyed_by_name (overlayUsers s)"
    and disj: "dom (overlayUsers s) \<inter> deletedUsers s = {}" and del: "n \<in> deletedUsers s"
    using assms(2,3) by (auto simp: provider_inv_def overlay_ok_def away_def)
  note push = away_pushed [OF assms(2,3)] and edit = away_edited [OF assms(2,3)]
  {
    case file_tick then show ?thesis using push pushed_ticks(1) fin by blast
  next
    case http_tick then show ?thesis using push pushed_ticks(2) fin by blast
  next
    case redis_tick then show ?thesis using push pushed_ticks(3) fin by blast
  next
    case postgres_tick then show ?thesis using push pushed_ticks(4) fin by blast
  next
    case (close_service rc)
    then show ?thesis using assms(3) by (simp add: up_Close_def away_def)
  next
    case (create_user env env' u)
    have edit': "away names n t" if
      "edited rep ((overlayUsers s)(ou_Name u \<mapsto> u)) (deletedUsers s - {ou_Name u}) s t"
      by (rule edit [OF that]) (use key fin disj del create_user(4) in \<open>auto simp: keyed_by_name_def\<close>)
    show ?thesis
      using create_effect [OF create_user(2,3) ok, of rep u] push [of t] edit'
      unfolding create_user(1) by metis
  next
    case (update_user env env' name patch)
    have edit': "away names n t" if "served src s name = Some cur" and
      e: "edited rep ((overlayUsers s)(name \<mapsto> patch_user patch (adapterUserToOption cur))) (deletedUsers s - {name}) s t"
      for src cur
    proof (rule edit [OF e])
      show "keyed_by_name ((overlayUsers s)(name \<mapsto> patch_user patch (adapterUserToOption cur)))"
        using key directory_name [OF key] that(1) by (simp add: keyed_by_name_def served_def)
      show "n \<in> deletedUsers s - {name}" using deleted_not_served [OF ok del, of src] that(1) del by auto
    qed (use fin disj in auto)
    show ?thesis
      using update_effect [OF update_user(2,3) ok, of rep name patch] push [of t] edit'
      unfolding update_user(1) by metis
  next
    case (delete_user env env' env'' name)
    have edit': "away names n t" if "served src s name \<noteq> None" and
      d: "d = insert name (deletedUsers s) \<or> d = deletedUsers s - {name}" and
      e: "edited rep ((overlayUsers s)(name := None)) d s t" for src d
    proof (rule edit [OF e])
      show "n \<in> d" using deleted_not_served [OF ok del, of src] that(1) del d by auto
      show "keyed_by_name ((overlayUsers s)(name := None))" using key by (simp add: keyed_by_name_def)
    qed (use fin disj d in auto)
    show ?thesis
      using delete_effect [OF delete_user(2,4) ok, of rep env' name] push [of t] edit'
      unfolding delete_user(1) by metis
  }
qed

end

lemma merged_snd_source: "snd (mergedUsersLocked env s) = snd (sourceUsersLocked env s)"
  by (simp add: mergedUsersLocked_def split: prod.split sum.split)

lemma DeleteUser_ok:
  assumes "DeleteUser rep env env' env'' n s = (None, t)" "fst (sourceUsersLocked env' s) = Inr src"
  obtains f where "loadAndPush rep env''
     (s\<lparr>fileSource := f, overlayUsers := (overlayUsers s)(n := None),
        deletedUsers := if find_user n src \<noteq> None then insert n (deletedUsers s) else deletedUsers s - {n}\<rparr>) = (None, t)"
proof -
  obtain us s1 where m: "mergedUsersLocked env s = (Inr us, s1)"
    using assms(1) by (auto simp: DeleteUser_def split: prod.splits sum.splits)
  obtain f where f: "snd (sourceUsersLocked env s) = s\<lparr>fileSource := f\<rparr>"
      "map_option fs_path f = map_option fs_path (fileSource s)"
    by (rule sourceUsersLocked_cases)
  then have s1: "s1 = s\<lparr>fileSource := f\<rparr>" using merged_snd_source [of env s] m by simp
  have "fst (sourceUsersLocked env' s1) = Inr src"
    using sourceUsersLocked_result [of s1 s env'] assms(2) s1 f(2) by simp
  moreover obtain g where "snd (sourceUsersLocked env' s1) = s1\<lparr>fileSource := g\<rparr>"
    by (rule sourceUsersLocked_cases)
  ultimately have "sourceUsersLocked env' s1 = (Inr src, s\<lparr>fileSource := g\<rparr>)"
    by (simp add: prod_eq_iff s1)
  with assms(1) m show ?thesis using that [of g] by (auto simp: DeleteUser_def split: if_splits)
qed

context user_server begin

lemma delete_away:
  assumes "provider_inv s" "visits_overlay env''" "DeleteUser rep env env' env'' n s = (None, t)"
    and "fst (sourceUsersLocked env' s) = Inr src" "n \<in> au_Name ` set src"
  shows "away names n t \<and> provider_inv t"
proof -
  have found: "find_user n src \<noteq> None" using assms(5) by (auto simp: find_user_def find_None_iff)
  obtain f where l: "loadAndPush rep env'' (s\<lparr>fileSource := f, overlayUsers := (overlayUsers s)(n := None),
      deletedUsers := insert n (deletedUsers s)\<rparr>) = (None, t)" (is "loadAndPush _ _ ?u = _")
    by (rule DeleteUser_ok [OF assms(3,4), unfolded if_P [OF found]])
  have inv: "provider_inv ?u" using assms(1) by (auto simp: provider_inv_def overlay_ok_def keyed_by_name_def)
  then have fin: "finite (dom (overlayUsers ?u))" by (simp add: provider_inv_def overlay_ok_def)
  have p: "pushed rep ?u t" using pushed_loadAndPush [OF assms(2) fin, of rep] l by simp
  have ok: "overlay_ok ?u" "n \<in> deletedUsers ?u" using inv by (simp_all add: provider_inv_def)
  have "\<exists>src. allUsers t = merged_spec (deletedUsers ?u) src (overlayUsers ?u)"
  proof (cases "fst (sourceUsersLocked env'' ?u)")
    case (Inl e)
    with loadAndPush_err [OF Inl, of rep] l show ?thesis by auto
  next
    case (Inr src')
    then obtain g errs inb where "loadAndPush rep env'' ?u = (errors_of errs,
        ?u\<lparr>fileSource := g, allUsers := merged_spec (deletedUsers ?u) src' (overlayUsers ?u), inbounds := inb\<rparr>)"
      using loadAndPush_ok [OF assms(2) fin Inr, of rep] by blast
    then have "t = ?u\<lparr>fileSource := g, allUsers := merged_spec (deletedUsers ?u) src' (overlayUsers ?u), inbounds := inb\<rparr>"
      using l by (metis snd_conv)
    then show ?thesis by (intro exI [of _ src']) simp
  qed
  then have gone: "n \<notin> au_Name ` set (allUsers t)" using deleted_not_merged [OF ok] by metis
  have "\<forall>tag \<in> set (servers t). \<forall>ty h. inbounds t tag = Some (ty, Some h) \<longrightarrow> n \<notin> set (names h)"
    using loadAndPush_serves [OF assms(2) inv l] gone p unfolding pushed_def by fastforce
  with gone p show ?thesis using provider_inv_pushed [OF inv p] by (simp add: away_def pushed_def)
qed

end

sublocale user_server \<subseteq> gone: invariant_system
  "\<lambda>s. provider_inv s \<and> away names n s" "provider_step rep (\<lambda>m. m \<noteq> n)" "\<lambda>s. provider_inv s \<and> away names n s" for n
  by unfold_locales (auto intro: provider_inv_step away_step)

section \<open>The directory of users\<close>

datatype admin_op = Create option_user | Update string UserPatch | Delete string

fun run_admin ::
  "'h replace \<Rightarrow> source_env \<Rightarrow> source_env \<Rightarrow> source_env \<Rightarrow> admin_op \<Rightarrow> 'h provider \<Rightarrow>
     go_error option \<times> 'h provider" where
  "run_admin rep e1 e2 e3 (Create u) s = CreateUser rep e1 e2 u s"
| "run_admin rep e1 e2 e3 (Update n p) s = UpdateUser rep e1 e2 n p s"
| "run_admin rep e1 e2 e3 (Delete n) s = DeleteUser rep e1 e2 e3 n s"

text \<open>The operations on the directory; \<open>None\<close> is a refusal.\<close>

fun directory_op :: "admin_op \<Rightarrow> (string \<rightharpoonup> adapter_user) \<Rightarrow> (string \<rightharpoonup> adapter_user) option" where
  "directory_op (Create u) d =
     (if ou_Name u = '''' \<or> d (ou_Name u) \<noteq> None then None else Some (d(ou_Name u \<mapsto> optionUserToAdapter u)))"
| "directory_op (Update n p) d =
     (case d n of
        None \<Rightarrow> None
      | Some u \<Rightarrow> Some (d(n \<mapsto> optionUserToAdapter (patch_user p (adapterUserToOption u)))))"
| "directory_op (Delete n) d = (if d n = None then None else Some (d(n := None)))"

text \<open>What an operation that the directory accepts as \<open>d\<close> leaves behind, and a refused one.\<close>

definition carried_out ::
  "'h replace \<Rightarrow> adapter_user list \<Rightarrow> (string \<rightharpoonup> adapter_user) \<Rightarrow> 'h provider \<Rightarrow> go_error option \<times> 'h provider \<Rightarrow> bool" where
  "carried_out rep src d s r \<longleftrightarrow> (\<exists>errs t. r = (errors_of errs, t) \<and> served src t = d \<and>
     (\<forall>n. GetUser n t = d n) \<and> push_servers rep (ListUsers t) (servers s) (inbounds s) = (errs, inbounds t))"

definition refused :: "adapter_user list \<Rightarrow> 'h provider \<Rightarrow> go_error option \<times> 'h provider \<Rightarrow> bool" where
  "refused src s r \<longleftrightarrow> (\<exists>e t. r = (Some e, t) \<and> served src t = served src s \<and>
     ListUsers t = ListUsers s \<and> inbounds t = inbounds s)"

lemma load_carried_out:
  assumes "visits_overlay env" "finite (dom (overlayUsers u))" "keyed_by_name (overlayUsers u)"
    and "fst (sourceUsersLocked env u) = Inr src"
    and "served src u = d" "servers u = servers s" "inbounds u = inbounds s"
  shows "carried_out rep src d s (loadAndPush rep env u)"
proof -
  obtain f errs inb where
    p: "push_servers rep (merged_spec (deletedUsers u) src (overlayUsers u)) (servers u) (inbounds u) = (errs, inb)"
    and l: "loadAndPush rep env u = (errors_of errs,
      u\<lparr>fileSource := f, allUsers := merged_spec (deletedUsers u) src (overlayUsers u), inbounds := inb\<rparr>)"
      (is "_ = (_, ?t)")
    using loadAndPush_ok [OF assms(1,2,4), of rep] by blast
  have "served src ?t = d" "\<forall>n. GetUser n ?t = d n"
    using find_merged [OF assms(3,2)] assms(5) by (simp_all add: served_def GetUser_def)
  moreover have "push_servers rep (ListUsers ?t) (servers s) (inbounds s) = (errs, inbounds ?t)"
    using p assms(6,7) by (simp add: ListUsers_def)
  ultimately show ?thesis unfolding carried_out_def l by blast
qed


lemma directory_set:
  "directory (del - {n}) src (ov(n \<mapsto> u)) = (directory del src ov)(n \<mapsto> optionUserToAdapter u)"
  by (auto simp: directory_lookup fun_eq_iff split: option.splits)

lemma directory_unset:
  "directory (if find_user n src \<noteq> None then insert n del else del - {n}) src (ov(n := None)) = (directory del src ov)(n := None)"
  using named_lookup_None [of src n] by (auto simp: directory_lookup fun_eq_iff split: option.splits)

lemma merged_reads:
  assumes "visits_overlay env" "overlay_ok s" "fst (sourceUsersLocked env s) = Inr src"
  obtains us f where "mergedUsersLocked env s = (Inr us, s\<lparr>fileSource := f\<rparr>)"
    "\<And>n. find_user n us = served src s n" "map_option fs_path f = map_option fs_path (fileSource s)"
proof -
  have fin: "finite (dom (overlayUsers s))" and key: "keyed_by_name (overlayUsers s)"
    using assms(2) by (auto simp: overlay_ok_def)
  show ?thesis
    using mergedUsersLocked_ok [OF assms(1) fin assms(3)] find_merged [OF key fin] that
    by (auto simp: served_def)
qed

lemma served_file [simp]: "served src (s\<lparr>fileSource := f\<rparr>) = served src s"
  by (simp add: served_def)

lemma refusedI: "refused src s (Some e, s\<lparr>fileSource := f\<rparr>)"
  by (simp add: refused_def ListUsers_def)

lemma create_refines:
  assumes "visits_overlay e1" "visits_overlay e2" "overlay_ok s"
    and "fst (sourceUsersLocked e1 s) = Inr src" "fst (sourceUsersLocked e2 s) = Inr src"
  shows "case directory_op (Create u) (served src s) of
      None \<Rightarrow> refused src s (CreateUser rep e1 e2 u s)
    | Some d \<Rightarrow> carried_out rep src d s (CreateUser rep e1 e2 u s)"
proof -
  obtain us f where m: "mergedUsersLocked e1 s = (Inr us, s\<lparr>fileSource := f\<rparr>)"
    and find: "\<And>n. find_user n us = served src s n"
    and path: "map_option fs_path f = map_option fs_path (fileSource s)"
    by (rule merged_reads [OF assms(1,3,4)]) blast
  show ?thesis
  proof (cases "ou_Name u = '''' \<or> served src s (ou_Name u) \<noteq> None")
    case True
    then show ?thesis
      using m refusedI [of src s _ "fileSource s"] refusedI [of src s _ f]
      by (auto simp: CreateUser_def find)
  next
    case False
    let ?t = "s\<lparr>fileSource := f, deletedUsers := deletedUsers s - {ou_Name u},
        overlayUsers := (overlayUsers s)(ou_Name u \<mapsto> u)\<rparr>"
    have "fst (sourceUsersLocked e2 ?t) = Inr src"
      using sourceUsersLocked_result [of ?t s e2] path assms(5) by simp
    moreover have "served src ?t = (served src s)(ou_Name u \<mapsto> optionUserToAdapter u)"
      by (simp add: served_def directory_set)
    ultimately have "carried_out rep src ((served src s)(ou_Name u \<mapsto> optionUserToAdapter u)) s (loadAndPush rep e2 ?t)"
      using assms(3) by (intro load_carried_out [OF assms(2)]) (auto simp: overlay_ok_def keyed_by_name_def)
    then show ?thesis using False m by (simp add: CreateUser_def find)
  qed
qed

lemma update_refines:
  assumes "visits_overlay e1" "visits_overlay e2" "overlay_ok s"
    and "fst (sourceUsersLocked e1 s) = Inr src" "fst (sourceUsersLocked e2 s) = Inr src"
  shows "case directory_op (Update n p) (served src s) of
      None \<Rightarrow> refused src s (UpdateUser rep e1 e2 n p s)
    | Some d \<Rightarrow> carried_out rep src d s (UpdateUser rep e1 e2 n p s)"
proof -
  obtain us f where m: "mergedUsersLocked e1 s = (Inr us, s\<lparr>fileSource := f\<rparr>)"
    and find: "\<And>n. find_user n us = served src s n"
    and path: "map_option fs_path f = map_option fs_path (fileSource s)"
    by (rule merged_reads [OF assms(1,3,4)]) blast
  show ?thesis
  proof (cases "served src s n")
    case None
    then show ?thesis using m refusedI [of src s _ f] by (simp add: UpdateUser_def find)
  next
    case (Some cur)
    let ?u = "patch_user p (adapterUserToOption cur)"
    let ?t = "s\<lparr>fileSource := f, deletedUsers := deletedUsers s - {n},
        overlayUsers := (overlayUsers s)(n \<mapsto> ?u)\<rparr>"
    have "au_Name cur = n"
      using Some directory_name assms(3) unfolding served_def overlay_ok_def by blast
    then have "keyed_by_name (overlayUsers ?t)" "finite (dom (overlayUsers ?t))"
      using assms(3) by (auto simp: overlay_ok_def keyed_by_name_def)
    moreover have "fst (sourceUsersLocked e2 ?t) = Inr src"
      using sourceUsersLocked_result [of ?t s e2] path assms(5) by simp
    moreover have "served src ?t = (served src s)(n \<mapsto> optionUserToAdapter ?u)"
      by (simp add: served_def directory_set)
    ultimately have "carried_out rep src ((served src s)(n \<mapsto> optionUserToAdapter ?u)) s (loadAndPush rep e2 ?t)"
      by (intro load_carried_out [OF assms(2)]) simp_all
    then show ?thesis using Some m by (simp add: UpdateUser_def find)
  qed
qed

lemma delete_refines:
  assumes "visits_overlay e1" "visits_overlay e3" "overlay_ok s"
    and "fst (sourceUsersLocked e1 s) = Inr src" "fst (sourceUsersLocked e2 s) = Inr src"
      "fst (sourceUsersLocked e3 s) = Inr src"
  shows "case directory_op (Delete n) (served src s) of
      None \<Rightarrow> refused src s (DeleteUser rep e1 e2 e3 n s)
    | Some d \<Rightarrow> carried_out rep src d s (DeleteUser rep e1 e2 e3 n s)"
proof -
  obtain us f where m: "mergedUsersLocked e1 s = (Inr us, s\<lparr>fileSource := f\<rparr>)"
    and find: "\<And>n. find_user n us = served src s n"
    and path: "map_option fs_path f = map_option fs_path (fileSource s)"
    by (rule merged_reads [OF assms(1,3,4)]) blast
  obtain g where g: "snd (sourceUsersLocked e2 (s\<lparr>fileSource := f\<rparr>)) = s\<lparr>fileSource := f\<rparr>\<lparr>fileSource := g\<rparr>"
      "map_option fs_path g = map_option fs_path (fileSource (s\<lparr>fileSource := f\<rparr>))"
    by (rule sourceUsersLocked_cases)
  have "fst (sourceUsersLocked e2 (s\<lparr>fileSource := f\<rparr>)) = Inr src"
    using sourceUsersLocked_result [of "s\<lparr>fileSource := f\<rparr>" s e2] path assms(5) by simp
  with g(1) have q: "sourceUsersLocked e2 (s\<lparr>fileSource := f\<rparr>) = (Inr src, s\<lparr>fileSource := g\<rparr>)"
    by (simp add: prod_eq_iff)
  show ?thesis
  proof (cases "served src s n = None")
    case True
    then show ?thesis using m refusedI [of src s _ f] by (simp add: DeleteUser_def find)
  next
    case False
    let ?del = "if find_user n src \<noteq> None then insert n (deletedUsers s) else deletedUsers s - {n}"
    let ?t = "s\<lparr>fileSource := g, overlayUsers := (overlayUsers s)(n := None), deletedUsers := ?del\<rparr>"
    have "keyed_by_name (overlayUsers ?t)" "finite (dom (overlayUsers ?t))"
      using assms(3) by (auto simp: overlay_ok_def keyed_by_name_def)
    moreover have "fst (sourceUsersLocked e3 ?t) = Inr src"
      using sourceUsersLocked_result [of ?t s e3] path g(2) assms(6) by simp
    moreover have "served src ?t = (served src s)(n := None)"
      unfolding served_def directory_unset [symmetric] by simp
    ultimately have "carried_out rep src ((served src s)(n := None)) s (loadAndPush rep e3 ?t)"
      by (intro load_carried_out [OF assms(2)]) simp_all
    moreover have "DeleteUser rep e1 e2 e3 n s = loadAndPush rep e3 ?t"
      using False m q by (auto simp: DeleteUser_def find)
    moreover have "directory_op (Delete n) (served src s) = Some ((served src s)(n := None))"
      using False by simp
    ultimately show ?thesis by (simp only: option.case)
  qed
qed

section \<open>The HTTP source\<close>

lemma ensureClient_frame:
  assumes "ensureClient om s = (r, s')"
  shows "lastEtag s' = lastEtag s \<and> hs_cachedUsers s' = hs_cachedUsers s \<and> closed s' = closed s"
  using assms by (auto simp: ensureClient_def split: if_splits option.splits sum.splits)

lemma accept_response_cases:
  assumes "accept_response limit E r s = (err, t)"
  shows "hs_cachedUsers t = hs_cachedUsers s \<and> lastEtag t = lastEtag s \<and> (err = None \<longrightarrow> StatusCode r = 304) \<or>
     err = None \<and> StatusCode r = 200 \<and> length (body r) \<le> limit \<and> body_err r = None \<and>
     http_Unmarshal E (body r) = Inr (hs_cachedUsers t)"
  using assms
  by (auto simp: accept_response_def read_limited_def split: if_splits sum.splits option.splits)

lemma accept_response_closed: "closed (snd (accept_response limit E r s)) = closed s"
  by (auto simp: accept_response_def split: sum.split)

section \<open>A concrete provider\<close>

definition demo_alice :: option_user where
  "demo_alice = \<lparr>ou_Name = ''alice'', ou_Password = ''a'', ou_UUID = '''', ou_AlterId = 0, ou_Flow = ''''\<rparr>"

definition demo_bob :: option_user where
  "demo_bob = \<lparr>ou_Name = ''bob'', ou_Password = ''b'', ou_UUID = '''', ou_AlterId = 0, ou_Flow = ''''\<rparr>"

definition demo_env :: source_env where
  "demo_env = \<lparr>os_ReadFile = \<lambda>_. Inl (EDriver ''no file''), os_Stat = \<lambda>_. Inl (EDriver ''no file''),
     json_Unmarshal = \<lambda>_. Inl (EDriver ''no json''), overlay_order = \<lambda>m. sorted_list_of_set (dom m)\<rparr>"

definition demo_libs :: inbound_libs where
  "demo_libs = \<lparr>vmess_UpdateUsers = \<lambda>new old. (None, new), ss_UpdateUsersWithPasswords = \<lambda>new old. (None, new),
     shadowtls_NewService = \<lambda>_. None, uuid_FromString = Inr, trojan_key = id\<rparr>"

definition demo_inbounds :: "string \<rightharpoonup> string \<times> managed_inbound option" where
  "demo_inbounds = [''in'' \<mapsto> (''http'', Some (HTTP []))]"

definition demo_options :: UserProviderServiceOptions where
  "demo_options = \<lparr>so_Inbounds = [''in''], so_Users = [demo_alice], so_File = None, so_HTTP = None,
     so_Redis = None, so_Postgres = None\<rparr>"

definition demo_provider :: "(string \<rightharpoonup> string \<times> managed_inbound option) \<Rightarrow> string list \<Rightarrow>
  adapter_user list \<Rightarrow> string set \<Rightarrow> bool \<Rightarrow> managed_inbound provider" where
  "demo_provider inb srv us del run = \<lparr>inboundTags = [''in''], inbounds = inb, servers = srv, inlineUsers = [demo_alice],
     overlayUsers = Map.empty, deletedUsers = del, fileSource = None, httpSource = None,
     redisSource = None, postgresSource = None, allUsers = us, running = run\<rparr>"

definition demo_started :: "managed_inbound provider" where
  "demo_started = demo_provider [''in'' \<mapsto> (''http'', Some (HTTP [(''alice'', ''a'')]))] [''in'']
     [optionUserToAdapter demo_alice] {} True"

definition demo_deleted :: "managed_inbound provider" where
  "demo_deleted = demo_provider [''in'' \<mapsto> (''http'', Some (HTTP []))] [''in''] [] {''alice''} True"

lemma demo_visits: "visits_overlay demo_env"
  by (simp add: visits_overlay_def demo_env_def range_order_def)

lemma demo_provider_new: "up_NewService demo_inbounds demo_options = Inr (demo_provider demo_inbounds [] [] {} False)"
  by (simp add: up_NewService_def demo_options_def demo_provider_def)

lemma demo_sources: "sourceUsersLocked e (demo_provider i sv us d r) = (Inr [optionUserToAdapter demo_alice], demo_provider i sv us d r)"
  by (simp add: sourceUsersLocked_def demo_provider_def cached_source_users_def)

lemma demo_merged: "mergedUsersLocked demo_env (demo_provider i sv us d r) =
    (Inr (if ''alice'' \<in> d then [] else [optionUserToAdapter demo_alice]), demo_provider i sv us d r)"
  unfolding mergedUsersLocked_def demo_sources
  by (simp add: merge_users_def demo_provider_def demo_env_def demo_alice_def)

lemma demo_start: "up_Start (ReplaceUsers demo_libs) demo_env None True (demo_provider demo_inbounds [] [] {} False) = (None, demo_started)"
proof -
  have r: "resolve_servers [''in''] (demo_provider demo_inbounds [] [] {} False) = (None, demo_provider demo_inbounds [''in''] [] {} False)"
    by (simp add: demo_provider_def demo_inbounds_def)
  have "loadAndPush (ReplaceUsers demo_libs) demo_env (demo_provider demo_inbounds [''in''] [] {} False) =
      (None, demo_started\<lparr>running := False\<rparr>)"
    unfolding loadAndPush_def demo_merged
    by (simp add: pushUsers_def demo_provider_def demo_started_def demo_inbounds_def name_and_password_def
        http_ReplaceUsers_def optionUserToAdapter_def demo_alice_def errors_of_def)
  with r show ?thesis
    by (simp add: up_Start_def demo_provider_def demo_started_def)
qed

lemma demo_provider_init: "provider_init (ReplaceUsers demo_libs) demo_started"
  unfolding provider_init_def using demo_visits demo_provider_new demo_start by blast

lemma demo_provider_reach: "reach (provider_init (ReplaceUsers demo_libs)) (provider_step (ReplaceUsers demo_libs) (\<lambda>_. True)) demo_started"
  using demo_provider_init by (rule reach_init)

lemma demo_delete: "DeleteUser (ReplaceUsers demo_libs) demo_env demo_env demo_env ''alice'' demo_started = (None, demo_deleted)"
proof -
  have m: "mergedUsersLocked demo_env demo_started = (Inr [optionUserToAdapter demo_alice], demo_started)"
    "sourceUsersLocked demo_env demo_started = (Inr [optionUserToAdapter demo_alice], demo_started)"
    unfolding demo_started_def demo_merged demo_sources by simp_all
  have "loadAndPush (ReplaceUsers demo_libs) demo_env (demo_provider (inbounds demo_started) [''in''] (allUsers demo_started) {''alice''} True) =
      (None, demo_deleted)"
    unfolding loadAndPush_def demo_merged
    by (simp add: pushUsers_def demo_provider_def demo_started_def demo_deleted_def http_ReplaceUsers_def errors_of_def)
  then show ?thesis
    by (simp add: DeleteUser_def m find_user_def demo_alice_def)
      (simp add: demo_started_def demo_provider_def)
qed

section \<open>Properties\<close>

text \<open>
  The merged list does not depend on the order in which the overlay map is visited: the names
  of the source users that are not deleted come first, each at its first occurrence, then the
  sorted names of the users that exist in the overlay only; an edited user is taken from the
  overlay, any other from the last source that has it.
\<close>

theorem mergedUsers_order_independent:
  assumes "range_order (overlay_order env (overlayUsers s)) (overlayUsers s)"
    and "sourceUsersLocked env s = (Inr src, s')"
  shows "fst (mergedUsersLocked env s) = Inr (merged_spec (deletedUsers s) src (overlayUsers s))"
proof -
  obtain f where "s' = s\<lparr>fileSource := f\<rparr>" using sourceUsersLocked_cases [of env s] assms(2) by auto
  then show ?thesis
    using assms merge_users_spec [of env s' src] by (simp add: mergedUsersLocked_def)
qed

text \<open>
  C40. In every reachable state, as long as the sources deliver the same users during the call,
  creating, updating and deleting a user are the operations of a directory: a missing name, a user
  that exists already or one that does not exist is refused and changes nothing; otherwise the
  directory changes in that entry only, \<open>GetUser\<close> answers from the new directory, and the new list
  is pushed to every server, whose errors are the result.
\<close>

theorem admin_refines_directory:
  assumes "reach (provider_init rep) (provider_step rep (\<lambda>_. True)) s"
    and "visits_overlay e1" "visits_overlay e2" "visits_overlay e3"
    and "fst (sourceUsersLocked e1 s) = Inr src" "fst (sourceUsersLocked e2 s) = Inr src"
      "fst (sourceUsersLocked e3 s) = Inr src"
  shows "case directory_op op (served src s) of
      None \<Rightarrow> refused src s (run_admin rep e1 e2 e3 op s)
    | Some d \<Rightarrow> carried_out rep src d s (run_admin rep e1 e2 e3 op s)"
proof -
  have ok: "overlay_ok s" using provider.reach_inv [OF assms(1)] by (simp add: provider_inv_def)
  show ?thesis
    using create_refines [OF assms(2,3) ok assms(5,6)] update_refines [OF assms(2,3) ok assms(5,6)]
      delete_refines [OF assms(2,4) ok assms(5-7)]
    by (cases op) (simp_all only: run_admin.simps)
qed

text \<open>
  C39. Once \<open>DeleteUser\<close> has succeeded for a user that a source provides, the user stays away: after
  any sequence of source updates and administration calls other than creating that user again,
  \<open>GetUser\<close> does not find it and no managed inbound lists it.
\<close>

theorem deleted_user_stays_away:
  assumes "reach (provider_init (ReplaceUsers L)) (provider_step (ReplaceUsers L) (\<lambda>_. True)) s"
    and "visits_overlay e3" "DeleteUser (ReplaceUsers L) e1 e2 e3 n s = (None, s')"
    and "fst (sourceUsersLocked e2 s) = Inr src" "n \<in> au_Name ` set src"
    and "(provider_step (ReplaceUsers L) (\<lambda>m. m \<noteq> n))\<^sup>*\<^sup>* s' t"
  shows "GetUser n t = None \<and>
     (\<forall>tag \<in> set (servers t). \<forall>ty h. inbounds t tag = Some (ty, Some h) \<longrightarrow> n \<notin> set (name_table h))"
proof -
  have "provider_inv s" by (rule provider.reach_inv [OF assms(1)])
  then have "provider_inv s' \<and> away name_table n s'"
    using inbounds.delete_away [OF _ assms(2-5)] by blast
  then have "away name_table n t" using inbounds.gone.steps_inv [OF assms(6)] by blast
  then show ?thesis by (auto simp: away_def GetUser_def find_user_def find_None_iff)
qed

text \<open>
  If \<open>Start\<close> succeeds, every configured tag names a managed inbound, and the names it
  authenticates are those of the users the service lists, in the same order.
\<close>

theorem Start_serves_listed_users:
  assumes "visits_overlay env" "up_NewService manager opts = Inr s0"
    and "up_Start (ReplaceUsers L) env pg True s0 = (None, s)" "tag \<in> set (so_Inbounds opts)"
  shows "\<exists>ty h. inbounds s tag = Some (ty, Some h) \<and> name_table h = map au_Name (ListUsers s)"
proof -
  obtain s1 s2 where r: "resolve_servers (inboundTags s0) s0 = (None, s1)"
    and l: "loadAndPush (ReplaceUsers L) env s1 = (None, s2)"
    and s: "allUsers s = allUsers s2" "inbounds s = inbounds s2"
    using up_Start_ok [OF assms(3)] by blast
  have "provider_inv s1" "servers s1 = so_Inbounds opts"
    using resolve_servers_ok [OF r] up_NewService_ok [OF assms(2)]
    by (auto simp: provider_inv_def overlay_ok_def keyed_by_name_def)
  then show ?thesis using inbounds.loadAndPush_serves [OF assms(1) _ l] assms(4) s by (simp add: ListUsers_def)
qed

text \<open>
  The HTTP source keeps the last good answer: a fetch changes the cached users only on a
  complete \<open>200\<close> response within the size limit whose body decodes, and then to the decoded users.
  Any error and a \<open>304\<close> leave them alone, and a closed source refuses to fetch.
\<close>

theorem http_fetch_keeps_last_good:
  assumes "http_fetch limit E s = (err, t)"
  shows "(closed s \<longrightarrow> err = Some errHTTPSourceClosed \<and> t = s) \<and>
    (err \<noteq> None \<longrightarrow> hs_cachedUsers t = hs_cachedUsers s \<and> lastEtag t = lastEtag s) \<and>
    (hs_cachedUsers t \<noteq> hs_cachedUsers s \<longrightarrow>
      (\<exists>c inm r. do_request E c (hs_url s) inm = Inr r \<and> StatusCode r = 200 \<and> length (body r) \<le> limit \<and>
        body_err r = None \<and> http_Unmarshal E (body r) = Inr (hs_cachedUsers t)))"
proof -
  have shut: "closed s \<longrightarrow> err = Some errHTTPSourceClosed \<and> t = s"
    using assms by (auto simp: http_fetch_def ensureClient_def)
  obtain r0 s' where e: "ensureClient (http_outbounds E) s = (r0, s')" by (cases "ensureClient (http_outbounds E) s")
  have url: "hs_url s' = hs_url s"
    using e by (auto simp: ensureClient_def split: if_splits option.splits sum.splits)
  note frame = ensureClient_frame [OF e]
  have "(err \<noteq> None \<longrightarrow> hs_cachedUsers t = hs_cachedUsers s \<and> lastEtag t = lastEtag s) \<and>
      (hs_cachedUsers t \<noteq> hs_cachedUsers s \<longrightarrow>
        (\<exists>c inm r. do_request E c (hs_url s) inm = Inr r \<and> StatusCode r = 200 \<and> length (body r) \<le> limit \<and>
           body_err r = None \<and> http_Unmarshal E (body r) = Inr (hs_cachedUsers t)))"
  proof (cases "\<exists>c r. r0 = Inr c \<and> new_request E (hs_url s') = None \<and>
      do_request E c (hs_url s') (if lastEtag s' \<noteq> '''' then Some (lastEtag s') else None) = Inr r")
    case True
    then obtain c r where c: "r0 = Inr c" "new_request E (hs_url s') = None"
      and r: "do_request E c (hs_url s') (if lastEtag s' \<noteq> '''' then Some (lastEtag s') else None) = Inr r" by blast
    have "accept_response limit E r s' = (err, t)" using assms e c r by (simp add: http_fetch_def)
    from accept_response_cases [OF this] frame r url show ?thesis by metis
  next
    case False
    then have "t = s'" using assms e by (auto simp: http_fetch_def split: sum.splits option.splits)
    with frame show ?thesis by simp
  qed
  with shut show ?thesis by blast
qed

section \<open>Witnesses\<close>

theorem mergedUsers_order_independent_witness:
  "fst (mergedUsersLocked demo_env (demo_started\<lparr>overlayUsers := [''bob'' \<mapsto> demo_bob]\<rparr>)) =
     Inr (merged_spec {} [optionUserToAdapter demo_alice] [''bob'' \<mapsto> demo_bob])"
proof -
  let ?s = "demo_started\<lparr>overlayUsers := [''bob'' \<mapsto> demo_bob]\<rparr>"
  have "range_order (overlay_order demo_env (overlayUsers ?s)) (overlayUsers ?s)"
    using demo_visits by (simp add: visits_overlay_def)
  moreover have "sourceUsersLocked demo_env ?s = (Inr [optionUserToAdapter demo_alice], ?s)"
    by (simp add: sourceUsersLocked_def demo_started_def demo_provider_def cached_source_users_def)
  ultimately have "fst (mergedUsersLocked demo_env ?s) =
      Inr (merged_spec (deletedUsers ?s) [optionUserToAdapter demo_alice] (overlayUsers ?s))"
    by (rule mergedUsers_order_independent)
  then show ?thesis by (simp add: demo_started_def demo_provider_def)
qed

theorem admin_refines_directory_witness:
  "\<exists>t. UpdateUser (ReplaceUsers demo_libs) demo_env demo_env ''alice''
      \<lparr>pt_Password = Some ''new'', pt_UUID = None, pt_AlterId = None, pt_Flow = None\<rparr> demo_started = t \<and>
     carried_out (ReplaceUsers demo_libs) [optionUserToAdapter demo_alice]
       [''alice'' \<mapsto> optionUserToAdapter (demo_alice\<lparr>ou_Password := ''new''\<rparr>)] demo_started t"
proof -
  let ?p = "\<lparr>pt_Password = Some ''new'', pt_UUID = None, pt_AlterId = None, pt_Flow = None\<rparr>"
  have src: "fst (sourceUsersLocked demo_env demo_started) = Inr [optionUserToAdapter demo_alice]"
    by (simp add: demo_started_def demo_sources)
  have served: "served [optionUserToAdapter demo_alice] demo_started = [''alice'' \<mapsto> optionUserToAdapter demo_alice]"
    by (simp add: served_def demo_started_def demo_provider_def directory_def kept_users_def named_def
        demo_alice_def optionUserToAdapter_def map_add_def fun_eq_iff)
  from admin_refines_directory [OF demo_provider_reach demo_visits demo_visits demo_visits src src src,
      of "Update ''alice'' ?p"]
  show ?thesis by (simp add: served patch_user_def)
qed

theorem deleted_user_stays_away_witness:
  "GetUser ''alice'' (snd (CreateUser (ReplaceUsers demo_libs) demo_env demo_env demo_bob demo_deleted)) = None"
proof -
  let ?R = "ReplaceUsers demo_libs"
  have step: "(provider_step ?R (\<lambda>m. m \<noteq> ''alice''))\<^sup>*\<^sup>* demo_deleted (snd (CreateUser ?R demo_env demo_env demo_bob demo_deleted))"
    by (intro r_into_rtranclp provider_step.create_user [OF demo_visits demo_visits]) (simp add: demo_bob_def)
  have src: "fst (sourceUsersLocked demo_env demo_started) = Inr [optionUserToAdapter demo_alice]"
    by (simp add: demo_started_def demo_sources)
  have "''alice'' \<in> au_Name ` set [optionUserToAdapter demo_alice]" by (simp add: demo_alice_def)
  from deleted_user_stays_away [OF demo_provider_reach demo_visits demo_delete src this step] show ?thesis by blast
qed

theorem Start_serves_listed_users_witness:
  "\<exists>ty h. inbounds demo_started ''in'' = Some (ty, Some h) \<and> name_table h = map au_Name (ListUsers demo_started)"
  by (rule Start_serves_listed_users [OF demo_visits demo_provider_new demo_start]) (simp add: demo_options_def)

definition demo_http :: HTTPSource where
  "demo_http = NewHTTPSource \<lparr>ho_URL = ''http://users'', ho_UpdateInterval = 0, ho_DownloadDetour = ''''\<rparr>"

definition demo_response :: "string \<Rightarrow> string \<Rightarrow> http_response" where
  "demo_response etag content = \<lparr>StatusCode = 200, StatusText = ''200 OK'', Etag = etag, body = content, body_err = None\<rparr>"

text \<open>A server that answers every request with \<open>r\<close>; the bodies \<open>A\<close> and \<open>B\<close> are its user lists.\<close>

definition demo_server :: "http_response \<Rightarrow> http_env" where
  "demo_server r = \<lparr>http_outbounds = None, new_request = \<lambda>_. None, do_request = \<lambda>_ _ _. Inr r,
     http_Unmarshal = \<lambda>c. if c = ''A'' then Inr [demo_alice] else if c = ''B'' then Inr [demo_bob]
       else Inl (EDriver ''json'')\<rparr>"

theorem http_fetch_keeps_last_good_witness:
  "\<exists>err t. http_fetch 0 (demo_server (demo_response '''' ''A'')) demo_http = (err, t) \<and> err \<noteq> None \<and>
     hs_cachedUsers t = hs_cachedUsers demo_http"
proof -
  obtain err t where f: "http_fetch 0 (demo_server (demo_response '''' ''A'')) demo_http = (err, t)"
    by (cases "http_fetch 0 (demo_server (demo_response '''' ''A'')) demo_http")
  then have "err \<noteq> None"
    by (auto simp: http_fetch_def ensureClient_def buildClientLocked_def demo_server_def demo_http_def
        NewHTTPSource_def demo_response_def accept_response_def read_limited_def)
  with http_fetch_keeps_last_good [OF f] f show ?thesis by blast
qed

text \<open>
  A \<open>200\<close> response without an \<open>Etag\<close> replaces the users but keeps the tag of the previous answer.
  When the endpoint then serves the first list again, it may answer \<open>304\<close> to that tag, and the
  source keeps the second list.
\<close>

lemma etag_kept_from_older_answer:
  fixes s
  defines "s1 \<equiv> snd (http_fetch 10 (demo_server (demo_response ''v1'' ''A'')) demo_http)"
  defines "s2 \<equiv> snd (http_fetch 10 (demo_server (demo_response '''' ''B'')) s1)"
  defines "s3 \<equiv> snd (http_fetch 10
    ((demo_server (demo_response '''' ''''))
       \<lparr>do_request := \<lambda>_ _ inm. Inr (if inm = Some ''v1'' then (demo_response '''' '''')\<lparr>StatusCode := 304\<rparr>
                                  else demo_response ''v1'' ''A'')\<rparr>) s2)"
  shows "hs_cachedUsers s1 = [demo_alice]" and "hs_cachedUsers s2 = [demo_bob]" and "lastEtag s2 = ''v1''"
    and "hs_cachedUsers s3 = [demo_bob]"
  by (simp_all add: s3_def s2_def s1_def http_fetch_def ensureClient_def buildClientLocked_def demo_server_def demo_http_def
      NewHTTPSource_def demo_response_def accept_response_def read_limited_def)

text \<open>
  A user whose creation is reported as failed because an inbound refuses the list stays in the
  directory, and every later push fails the same way.
\<close>

lemma failed_create_stays:
  fixes L
  assumes "L = demo_libs\<lparr>shadowtls_NewService := \<lambda>us. if length us < 2 then None else Some (EDriver ''refused'')\<rparr>"
  defines "s \<equiv> demo_started\<lparr>inbounds := [''in'' \<mapsto> (''shadowtls'', Some (ShadowTLS (Some [(''alice'', ''a'')])))]\<rparr>"
  defines "t \<equiv> snd (CreateUser (ReplaceUsers L) demo_env demo_env demo_bob s)"
  shows "fst (CreateUser (ReplaceUsers L) demo_env demo_env demo_bob s) \<noteq> None"
    and "overlayUsers t ''bob'' = Some demo_bob" and "GetUser ''bob'' t \<noteq> None"
proof -
  have m: "mergedUsersLocked demo_env s = (Inr [optionUserToAdapter demo_alice], s)"
    unfolding s_def demo_started_def
    by (simp add: mergedUsersLocked_def sourceUsersLocked_def cached_source_users_def demo_provider_def
        merge_users_def demo_env_def demo_alice_def)
  have m2: "mergedUsersLocked demo_env (s\<lparr>overlayUsers := [''bob'' \<mapsto> demo_bob]\<rparr>) =
      (Inr [optionUserToAdapter demo_alice, optionUserToAdapter demo_bob], s\<lparr>overlayUsers := [''bob'' \<mapsto> demo_bob]\<rparr>)"
    unfolding s_def demo_started_def
    by (simp add: mergedUsersLocked_def sourceUsersLocked_def cached_source_users_def demo_provider_def
        merge_users_def demo_env_def demo_alice_def demo_bob_def)
  have c: "CreateUser (ReplaceUsers L) demo_env demo_env demo_bob s =
      loadAndPush (ReplaceUsers L) demo_env (s\<lparr>overlayUsers := [''bob'' \<mapsto> demo_bob]\<rparr>)"
    by (simp add: CreateUser_def m find_user_def demo_alice_def demo_bob_def)
      (simp add: s_def demo_started_def demo_provider_def)
  obtain e inb where l: "loadAndPush (ReplaceUsers L) demo_env (s\<lparr>overlayUsers := [''bob'' \<mapsto> demo_bob]\<rparr>) =
      (Some e, s\<lparr>overlayUsers := [''bob'' \<mapsto> demo_bob],
        allUsers := [optionUserToAdapter demo_alice, optionUserToAdapter demo_bob], inbounds := inb\<rparr>)"
    unfolding loadAndPush_def m2
    by (simp add: pushUsers_def s_def demo_started_def demo_provider_def assms(1) shadowtls_ReplaceUsers_def errors_of_def)
  show "fst (CreateUser (ReplaceUsers L) demo_env demo_env demo_bob s) \<noteq> None"
    and "overlayUsers t ''bob'' = Some demo_bob" and "GetUser ''bob'' t \<noteq> None"
    unfolding t_def c l by (simp_all add: GetUser_def find_user_def demo_alice_def demo_bob_def)
qed

end
