(* ===== verification/QuotaLedger.thy ===== *)
theory QuotaLedger
  imports QuotaService
begin

text \<open>
  The service invariant and the ledger of the quota service. \<open>mgr_inv\<close> joins the manager
  invariant with two facts about unflushed bytes: their user is queued (\<open>pending_ok\<close>), and
  they carry a period key without the separator of the Redis keys (\<open>keys_ok\<close>). Every service
  method keeps it, so every service method returns. The ledger \<open>total\<close> of a user and period is
  what the backend stores plus what is pending; a flush conserves it.
\<close>

section \<open>Period keys of pending bytes\<close>

definition keys_ok :: "quota_manager \<Rightarrow> bool" where
  "keys_ok m \<longleftrightarrow>
     (\<forall>u. colon_free (stateKey (state_of m u)) \<and>
        (pendingDelta (state_of m u) \<noteq> 0 \<longrightarrow> stateKey (state_of m u) \<noteq> ''''))"

definition mgr_inv :: "quota_manager \<Rightarrow> bool" where
  "mgr_inv m \<longleftrightarrow> quota_wf m \<and> pending_ok m \<and> keys_ok m"

lemma keys_upd:
  "keys_ok m \<Longrightarrow> colon_free (stateKey (f (state_of m u))) \<Longrightarrow>
     (pendingDelta (f (state_of m u)) \<noteq> 0 \<Longrightarrow> stateKey (f (state_of m u)) \<noteq> '''') \<Longrightarrow>
     keys_ok (upd_state u f m)"
  by (auto simp: keys_ok_def)

lemma keys_frame:
  "keys_ok m \<Longrightarrow> state_of m' = state_of m \<Longrightarrow> keys_ok m'"
  by (simp add: keys_ok_def)

lemma keys_trip: "keys_ok m \<Longrightarrow> keys_ok (tripExceeded u m)"
  by (auto simp: keys_ok_def)

lemma keys_settle:
  "keys_ok m \<Longrightarrow>
     keys_ok (if b then tripExceeded u m else upd_state u (\<lambda>s. s\<lparr>exceeded := False\<rparr>) m)"
  by (auto simp: keys_trip keys_ok_def)

lemma keyed:
  assumes "keys_ok m" and "wf0 m" and "userConfigs m u = Some c"
  shows "colon_free (stateKey (setPeriodKeyIfEmpty (key_of c t) (state_of m u)))"
    and "stateKey (setPeriodKeyIfEmpty (key_of c t) (state_of m u)) \<noteq> ''''"
  using assms key_of_nonempty [OF wf_cfg(1) [OF assms(2,3)]]
    key_of_colon [OF wf_cfg(1) [OF assms(2,3)]]
  by (auto simp: setPeriodKeyIfEmpty_def keys_ok_def colon_free_def)

lemma keys_AddBytes:
  assumes "wf0 m" and "keys_ok m"
  shows "keys_ok (AddBytes u n m)"
proof (cases "0 < n \<and> userConfigs m u \<noteq> None")
  case True
  then obtain c where c: "userConfigs m u = Some c" and n: "0 < n" by blast
  have "keys_ok (upd_state u (add_usage c (now m) (word_of_int n)) m)"
    using keyed [OF assms(2,1) c] assms(2) by (intro keys_upd) simp_all
  then have "keys_ok (markDirty u (upd_state u (add_usage c (now m) (word_of_int n)) m))"
    by (rule keys_frame) simp
  then show ?thesis unfolding AddBytes_eq [OF assms(1) c n] Let_def by (simp add: keys_trip)
qed (use assms in \<open>auto simp: AddBytes_def\<close>)

lemma keys_LoadUsage:
  assumes "wf0 m" and "keys_ok m" and "LoadUsage u b m = Ret m'"
  shows "keys_ok m'"
proof (cases "userConfigs m u")
  case (Some c)
  have "keys_ok (upd_state u (\<lambda>s. (setPeriodKeyIfEmpty (key_of c (now m)) s)\<lparr>usage := b\<rparr>) m)"
    using keyed [OF assms(2,1) Some] assms(2) by (intro keys_upd) simp_all
  from keys_settle [OF this, of "sint b > sint (quotaBytes c)" u]
  show ?thesis using assms(3) unfolding LoadUsage_eq [OF assms(1) Some] Let_def go.inject by simp
qed (use assms in \<open>simp add: LoadUsage_def\<close>)

lemma keys_setKey:
  assumes "wf0 m" and "keys_ok m" and "userConfigs m u = Some c"
  shows "keys_ok (upd_state u (setPeriodKeyIfEmpty (key_of c t)) m)"
  using keyed [OF assms(2,1,3)] assms(2) by (intro keys_upd) simp_all

lemma keys_ApplyConfig:
  assumes "wf0 m" and "keys_ok m" and "ApplyConfig tparse user m = Ret (r, m')"
  shows "keys_ok m'"
proof (cases "m' = m")
  case False
  let ?new = "newQuotaConfig tparse (tq_QuotaGB user) (tq_Period user) (tq_PeriodStart user)
    (tq_PeriodDays user) None" and ?u = "tq_Name user"
  from False assms(3) obtain c where c: "?u \<noteq> ''''" "?new = Inr (Some c)"
    by (cases ?new) (auto simp: ApplyConfig_def split: if_splits option.splits)
  let ?m1 = "storeConfig ?u c m"
  have "wf0 ?m1" using assms(1) newQuotaConfig_valid [OF c(2)] by (intro wf0_storeConfig)
  moreover have "keys_ok ?m1" by (rule keys_frame [OF assms(2)]) (simp add: storeConfig_def fun_eq_iff)
  ultimately have "keys_ok (upd_state ?u (setPeriodKeyIfEmpty (key_of c (now m))) ?m1)"
    by (rule keys_setKey) (simp add: storeConfig_def)
  from keys_settle [OF this, of "sint (usage (state_of m ?u)) > sint (quotaBytes c)" ?u]
  show ?thesis
    using assms(3) unfolding ApplyConfig_eq [OF assms(1) c] Let_def go.inject prod.inject by simp
qed (use assms in simp)

lemma keys_RegisterConn:
  assumes "quota_wf m" and "keys_ok m" and "RegisterConn u c m = Ret (m', r)"
  shows "keys_ok m'"
proof (cases "userConfigs m u")
  case (Some cf)
  let ?m = "upd_state u (setPeriodKeyIfEmpty (key_of cf (now m))) m"
  obtain l m1 where l: "loadOrStoreList u ?m = (l, m1)" by fastforce
  have "keys_ok ?m" using wf_wf0 [OF assms(1)] assms(2) Some by (rule keys_setKey)
  moreover have "state_of m1 = state_of ?m"
    using l by (auto simp: loadOrStoreList_def fun_eq_iff split: option.splits)
  moreover have "m' = (let m2 = m1\<lparr>listStore := (listStore m1)(l := cl_add (grow m1) c (listStore m1 l))\<rparr>
     in if exceeded (state_of m u) then markQuotaExceeded c m2 else m2)"
    using RegisterConn_eq [OF assms(1) Some l] assms(3) by (simp add: Let_def)
  ultimately show ?thesis by (auto simp: keys_ok_def Let_def markQuotaExceeded_def)
qed (use assms in \<open>simp add: RegisterConn_def HasQuota_def\<close>)

lemma keys_CurrentPeriodKey:
  assumes "wf0 m" and "keys_ok m" and "userConfigs m u = Some c" and "CurrentPeriodKey u m = Ret (k, m')"
  shows "keys_ok m'" and "colon_free k" and "k \<noteq> ''''" and "stateKey (state_of m' u) = k"
    and "userConfigs m' = userConfigs m"
  using assms(4) keyed [OF assms(2,1,3)] keys_setKey [OF assms(1-3)]
  by (auto simp: CurrentPeriodKey_eq [OF assms(1,3)])

lemma keys_Remove: "keys_ok m \<Longrightarrow> keys_ok (snd (RemoveConfig u m))"
proof (cases "u = ''''")
  case False
  assume "keys_ok m"
  moreover have "state_of (snd (RemoveConfig u m)) v = (if v = u then zero_state else state_of m v)" for v
    by (simp add: state_of_def RemoveConfig_fields(3) [OF False])
  ultimately show ?thesis by (simp add: keys_ok_def zero_state_def colon_free_def)
qed (simp add: RemoveConfig_def)

lemma keys_reset:
  assumes "quota_wf m" and "keys_ok m"
  shows "keys_ok (reset_map us t m)"
proof -
  have d: "dom_ok m" and w: "wf0 m" using assms(1) by (simp_all add: quota_wf_def wf0_def)
  have "colon_free (key_of c t)" "key_of c t \<noteq> ''''" if "userConfigs m u = Some c" for u c
    using key_of_colon key_of_nonempty wf_cfg(1) [OF w that] by (auto simp: colon_free_def)
  with assms(2) show ?thesis
    unfolding keys_ok_def state_of_reset_map [OF d]
    by (auto simp: reset_state_def split: option.splits)
qed

lemma keys_consume: "dirty_ok m \<Longrightarrow> keys_ok m \<Longrightarrow> keys_ok (snd (ConsumePendingDeltas m))"
  by (auto simp: ConsumePendingDeltas_eq keys_ok_def state_of_drained)

lemma keys_RestorePendingDelta:
  "keys_ok m \<Longrightarrow> k \<noteq> '''' \<Longrightarrow> keys_ok (RestorePendingDelta u k d m)"
  by (auto simp: RestorePendingDelta_def Let_def keys_ok_def stateFor_def)

section \<open>The manager operations under the joint invariant\<close>

lemma mgr_invD: "mgr_inv m \<Longrightarrow> quota_wf m" "mgr_inv m \<Longrightarrow> wf0 m" "mgr_inv m \<Longrightarrow> keys_ok m"
    "mgr_inv m \<Longrightarrow> dirty_ok m" "mgr_inv m \<Longrightarrow> pending_ok m"
  by (simp_all add: mgr_inv_def quota_wf_def wf0_def)

lemma mgr_core: "mgr_inv m \<Longrightarrow> core_step m m' \<Longrightarrow> keys_ok m' \<Longrightarrow> mgr_inv m'"
  unfolding mgr_inv_def using wf_core_step pending_core_step by blast

lemma mgr_AddBytes: "mgr_inv m \<Longrightarrow> mgr_inv (AddBytes u n m)"
  by (rule mgr_core [OF _ core_step.Add]) (simp_all add: keys_AddBytes mgr_invD)

lemma mgr_LoadUsage:
  assumes "mgr_inv m"
  obtains m' where "LoadUsage u b m = Ret m'" "mgr_inv m'" "userConfigs m' = userConfigs m"
proof -
  obtain m' where m': "LoadUsage u b m = Ret m'" using LoadUsage_total assms mgr_invD(1) by blast
  have "mgr_inv m'"
    by (rule mgr_core [OF assms core_step.Load [OF m']])
       (rule keys_LoadUsage [OF mgr_invD(2,3) [OF assms] m'])
  moreover have "userConfigs m' = userConfigs m"
  proof (cases "userConfigs m u")
    case (Some c)
    from m' show ?thesis
      unfolding LoadUsage_eq [OF mgr_invD(2) [OF assms] Some] Let_def go.inject by auto
  qed (use m' in \<open>auto simp: LoadUsage_def\<close>)
  ultimately show ?thesis using m' that by blast
qed

lemma mgr_CurrentPeriodKey:
  assumes "mgr_inv m" and "HasQuota u m"
  obtains k m' where "CurrentPeriodKey u m = Ret (k, m')" "mgr_inv m'" "userConfigs m' = userConfigs m"
    "colon_free k" "k \<noteq> ''''" "stateKey (state_of m' u) = k"
proof -
  from assms(2) obtain c where c: "userConfigs m u = Some c" by (auto simp: HasQuota_def)
  obtain k m' where k: "CurrentPeriodKey u m = Ret (k, m')"
    using CurrentPeriodKey_eq [OF mgr_invD(2) [OF assms(1)] c] by blast
  note K = keys_CurrentPeriodKey [OF mgr_invD(2,3) [OF assms(1)] c k]
  have "mgr_inv m'" by (rule mgr_core [OF assms(1) core_step.CurrentKey [OF k] K(1)])
  with k K that show ?thesis by blast
qed

lemma mgr_ApplyConfig:
  assumes "mgr_inv m"
  obtains r m' where "ApplyConfig tparse user m = Ret (r, m')" "mgr_inv m'"
    "r = None \<Longrightarrow> HasQuota (tq_Name user) m'" "r \<noteq> None \<Longrightarrow> m' = m"
proof -
  obtain r m' where a: "ApplyConfig tparse user m = Ret (r, m')"
    using ApplyConfig_total mgr_invD(1) [OF assms] by blast
  have "mgr_inv m'"
    by (rule mgr_core [OF assms core_step.Apply [OF a]])
       (rule keys_ApplyConfig [OF mgr_invD(2,3) [OF assms] a])
  moreover have "(r = None \<longrightarrow> HasQuota (tq_Name user) m') \<and> (r \<noteq> None \<longrightarrow> m' = m)"
  proof -
    let ?new = "newQuotaConfig tparse (tq_QuotaGB user) (tq_Period user) (tq_PeriodStart user)
      (tq_PeriodDays user) None"
    consider (err) "r \<noteq> None" "m' = m" | (ok) c where "tq_Name user \<noteq> ''''" "?new = Inr (Some c)" "r = None"
      using a by (cases ?new)
        (auto simp: ApplyConfig_def Let_def split: if_splits option.splits go.splits)
    then show ?thesis
    proof cases
      case (ok c)
      then show ?thesis
        using a unfolding ApplyConfig_eq [OF mgr_invD(2) [OF assms] ok(1,2)] Let_def go.inject
        by (auto simp: HasQuota_def storeConfig_def)
    qed auto
  qed
  ultimately show ?thesis using a that by blast
qed

lemma mgr_RemoveConfig: "mgr_inv m \<Longrightarrow> mgr_inv (snd (RemoveConfig u m))"
  by (rule mgr_core [OF _ core_step.Remove]) (simp_all add: keys_Remove mgr_invD)

lemma mgr_RegisterConn:
  assumes "mgr_inv m"
  obtains m' r where "RegisterConn u c m = Ret (m', r)" "mgr_inv m'"
proof -
  obtain m' r where a: "RegisterConn u c m = Ret (m', r)"
    using RegisterConn_total mgr_invD(1) [OF assms] by blast
  have "mgr_inv m'"
    by (rule mgr_core [OF assms core_step.Register [OF a]])
       (rule keys_RegisterConn [OF mgr_invD(1,3) [OF assms] a])
  with a that show ?thesis by blast
qed

lemma mgr_qconns:
  assumes "mgr_inv m"
    and "\<And>d l. d \<in> set (conns (listStore m l)) \<Longrightarrow> closed (qconns m d) \<Longrightarrow> closed (q d)"
  shows "mgr_inv (m\<lparr>qconns := q\<rparr>)"
  using assms wf_qconns [of m q] by (simp add: mgr_inv_def pending_ok_def keys_ok_def)

lemma mgr_reset:
  assumes "mgr_inv m" and "range_order order (userConfigs m)"
  shows "mgr_inv (reset_map order t m)"
  by (rule mgr_core [OF assms(1) core_step.Reset [OF assms(2) CheckPeriodReset_eq]])
     (use assms in \<open>auto simp: mgr_invD intro: keys_reset\<close>)

lemma mgr_consume: "mgr_inv m \<Longrightarrow> mgr_inv (snd (ConsumePendingDeltas m))"
  by (rule mgr_core [OF _ core_step.Consume]) (simp_all add: keys_consume mgr_invD)

lemma mgr_restore_delta: "mgr_inv m \<Longrightarrow> k \<noteq> '''' \<Longrightarrow> mgr_inv (RestorePendingDelta u k d m)"
  by (rule mgr_core [OF _ core_step.RestoreDelta]) (simp_all add: keys_RestorePendingDelta mgr_invD)

section \<open>The service operations\<close>

lemma reload_user_ok:
  assumes "mgr_inv (manager s)" and "HasQuota u (manager s)"
  obtains s' where "reload_user P u s = Ret s'" "mgr_inv (manager s')"
    "userConfigs (manager s') = userConfigs (manager s)" "persister s' = persister s"
proof -
  obtain k m where k: "CurrentPeriodKey u (manager s) = Ret (k, m)" "mgr_inv m"
    "userConfigs m = userConfigs (manager s)"
    using mgr_CurrentPeriodKey [OF assms] by metis
  obtain x b where l: "p_Load P u k (backend s) = (x, b)" by fastforce
  show ?thesis
  proof (cases x)
    case (Inl e)
    with k l that [of "s\<lparr>manager := m, backend := b\<rparr>"] show ?thesis by (simp add: reload_user_def)
  next
    case (Inr bytes)
    obtain m' where "LoadUsage u bytes m = Ret m'" "mgr_inv m'" "userConfigs m' = userConfigs m"
      using mgr_LoadUsage [OF k(2)] by metis
    with Inr k l that [of "s\<lparr>manager := m', backend := b\<rparr>"] show ?thesis
      by (simp add: reload_user_def)
  qed
qed

lemma reload_users_ok:
  assumes "mgr_inv (manager s)" and "\<And>u. u \<in> set us \<Longrightarrow> HasQuota u (manager s)"
  shows "\<exists>s'. reload_users P us s = Ret s' \<and> mgr_inv (manager s') \<and>
    userConfigs (manager s') = userConfigs (manager s)"
  using assms
proof (induction us arbitrary: s)
  case (Cons u us)
  obtain s1 where s1: "reload_user P u s = Ret s1" "mgr_inv (manager s1)"
    "userConfigs (manager s1) = userConfigs (manager s)"
    using reload_user_ok [OF Cons.prems(1)] Cons.prems(2) by (metis list.set_intros(1))
  have "HasQuota v (manager s1)" if "v \<in> set us" for v
    using Cons.prems(2) [of v] that s1(3) by (simp add: HasQuota_def)
  from Cons.IH [OF s1(2) this] s1 show ?case by auto
qed simp

lemma svc_ApplyConfig_ok:
  assumes "mgr_inv (manager s)"
  obtains r s' where "svc_ApplyConfig tparse user s = Ret (r, s')" "mgr_inv (manager s')"
proof -
  obtain r m where a: "ApplyConfig tparse user (manager s) = Ret (r, m)" "mgr_inv m"
    "r = None \<Longrightarrow> HasQuota (tq_Name user) m"
    using mgr_ApplyConfig [OF assms] by metis
  show ?thesis
  proof (cases "r = None \<and> persister s \<noteq> None \<and> \<not> HasQuota (tq_Name user) (manager s)")
    case True
    then obtain P where P: "persister s = Some P" by blast
    have "mgr_inv (manager (s\<lparr>manager := m\<rparr>))" "HasQuota (tq_Name user) (manager (s\<lparr>manager := m\<rparr>))"
      using a True by auto
    then obtain s' where "reload_user P (tq_Name user) (s\<lparr>manager := m\<rparr>) = Ret s'" "mgr_inv (manager s')"
      using reload_user_ok by metis
    with a P True that show ?thesis by (simp add: svc_ApplyConfig_def)
  next
    case False
    with a that [of r "s\<lparr>manager := m\<rparr>"] show ?thesis
      by (auto simp: svc_ApplyConfig_def Let_def split: option.splits)
  qed
qed

lemma removeConfigLocked_ok:
  assumes "mgr_inv (manager s)"
  obtains r s' where "removeConfigLocked u s = Ret (r, s')" "mgr_inv (manager s')"
proof (cases "persister s \<noteq> None \<and> HasQuota u (manager s)")
  case False
  have "removeConfigLocked u s = Ret (fst (RemoveConfig u (manager s)),
      s\<lparr>manager := snd (RemoveConfig u (manager s))\<rparr>)"
    using False by (auto simp: removeConfigLocked_def case_prod_beta split: option.splits)
  with that mgr_RemoveConfig [OF assms] show ?thesis by simp
next
  case True
  then obtain P where P: "persister s = Some P" by blast
  obtain k m where k: "CurrentPeriodKey u (manager s) = Ret (k, m)" "mgr_inv m"
    using mgr_CurrentPeriodKey [OF assms] True by metis
  obtain e b where d: "p_Delete P u k (backend s) = (e, b)" by fastforce
  show ?thesis
  proof (cases e)
    case None
    have "removeConfigLocked u s = Ret (fst (RemoveConfig u m),
        s\<lparr>manager := snd (RemoveConfig u m), backend := b\<rparr>)"
      using None P k d True by (simp add: removeConfigLocked_def case_prod_beta)
    with that mgr_RemoveConfig [OF k(2)] show ?thesis by simp
  next
    case (Some err)
    with P k d True that show ?thesis by (simp add: removeConfigLocked_def)
  qed
qed

lemma applyDynamic_ok:
  assumes "mgr_inv (manager s)"
  obtains r s' where "applyDynamic tparse row s = Ret (r, s')" "mgr_inv (manager s')"
  using svc_ApplyConfig_ok [OF assms] removeConfigLocked_ok [OF assms] assms
  unfolding applyDynamic_def by (metis (full_types))

lemma RoutedConnection_ok:
  assumes "mgr_inv (manager s)" and fresh: "\<And>l. c \<notin> set (conns (listStore (manager s) l))"
  obtains r s' where "RoutedConnection user c s = Ret (r, s')" "mgr_inv (manager s')"
proof -
  let ?m = "(manager s)\<lparr>qconns := (qconns (manager s))(c := NewQuotaConn None None)\<rparr>"
  have m: "mgr_inv ?m" using assms by (intro mgr_qconns) auto
  consider "user = '''' \<or> \<not> HasQuota user (manager s)"
    | "user \<noteq> ''''" "HasQuota user (manager s)" "IsExceeded user (manager s)"
    | "user \<noteq> ''''" "HasQuota user (manager s)" "\<not> IsExceeded user (manager s)" by blast
  then show ?thesis
  proof cases
    case 2
    have "mgr_inv (markQuotaExceeded c ?m)"
      unfolding markQuotaExceeded_def by (rule mgr_qconns [OF m]) auto
    with 2 that show ?thesis by (simp add: RoutedConnection_def Let_def)
  next
    case 3
    obtain m1 r where r: "RegisterConn user c ?m = Ret (m1, r)" "mgr_inv m1"
      using mgr_RegisterConn [OF m] by metis
    have "mgr_inv (m1\<lparr>qconns := (qconns m1)(c := (qconns m1 c)\<lparr>onBytes := x, onClose := y\<rparr>)\<rparr>)" for x y
      by (rule mgr_qconns [OF r(2)]) auto
    with 3 r that show ?thesis by (cases r) (auto simp: RoutedConnection_def Let_def)
  qed (use assms that in \<open>auto simp: RoutedConnection_def\<close>)
qed

lemma flush_take_eq:
  assumes "mgr_inv m"
  shows "flush_take m = (deltas_of (dirtyQueue m) m, snd (ConsumePendingDeltas m))"
proof -
  have "HasQuota (pd_User d) m" if "d \<in> set (deltas_of (dirtyQueue m) m)" for d
    using that dom_okD [OF mgr_invD(1) [OF assms]] by (auto simp: set_deltas_of)
  then have "filter (\<lambda>pd. HasQuota (pd_User pd) m) (deltas_of (dirtyQueue m) m) =
      deltas_of (dirtyQueue m) m"
    by (simp add: filter_id_conv)
  then show ?thesis
    using ConsumePendingDeltas_eq [OF mgr_invD(4) [OF assms]]
    by (simp add: flush_take_def HasQuota_def drained_def)
qed

lemma flush_take_entry:
  assumes "mgr_inv m" and "flush_take m = (active, m1)" and "pd \<in> set active"
  shows "pd_PeriodKey pd = stateKey (state_of m (pd_User pd))"
    and "pd_Delta pd = pendingDelta (state_of m (pd_User pd))"
    and "pd_PeriodKey pd \<noteq> ''''" and "colon_free (pd_PeriodKey pd)" and "HasQuota (pd_User pd) m"
proof -
  from assms obtain s where s: "states m (pd_User pd) = Some s" "pendingDelta s \<noteq> 0"
    "pd = \<lparr>pd_User = pd_User pd, pd_PeriodKey = stateKey s, pd_Delta = pendingDelta s\<rparr>"
    by (auto simp: flush_take_eq set_deltas_of)
  then have st: "state_of m (pd_User pd) = s" by (simp add: state_of_def)
  show "pd_PeriodKey pd = stateKey (state_of m (pd_User pd))"
    "pd_Delta pd = pendingDelta (state_of m (pd_User pd))"
    using s(3) st by (metis pending_delta.select_convs(2,3))+
  then show "pd_PeriodKey pd \<noteq> ''''" "colon_free (pd_PeriodKey pd)"
    using mgr_invD(3) [OF assms(1), unfolded keys_ok_def, rule_format, of "pd_User pd"] s(2) st
    by simp_all
  show "HasQuota (pd_User pd) m" using dom_okD [OF mgr_invD(1) [OF assms(1)] s(1)] .
qed

lemma persist_delta_inv:
  assumes "mgr_inv (fs_manager fs)" and "pd_PeriodKey pd \<noteq> ''''"
  shows "mgr_inv (fs_manager (persist_delta P pd fs))"
    and "userConfigs (fs_manager (persist_delta P pd fs)) = userConfigs (fs_manager fs)"
  using mgr_restore_delta [OF assms]
  by (auto simp: persist_delta_def assms(1) RestorePendingDelta_def Let_def stateFor_def
      split: prod.splits option.splits)

lemma fold_persist_inv:
  assumes "mgr_inv (fs_manager fs)" and "\<And>pd. pd \<in> set active \<Longrightarrow> pd_PeriodKey pd \<noteq> ''''"
  shows "mgr_inv (fs_manager (fold (persist_delta P) active fs)) \<and>
    userConfigs (fs_manager (fold (persist_delta P) active fs)) = userConfigs (fs_manager fs)"
  using assms by (induction active arbitrary: fs) (simp_all add: persist_delta_inv)

lemma load_usages_ok:
  assumes "mgr_inv m"
  shows "\<exists>m'. load_usages us result m = Ret m' \<and> mgr_inv m' \<and> userConfigs m' = userConfigs m"
  using assms
proof (induction us arbitrary: m)
  case (Cons u us)
  show ?case
  proof (cases "result u")
    case (Some v)
    obtain m1 where "LoadUsage u v m = Ret m1" "mgr_inv m1" "userConfigs m1 = userConfigs m"
      using mgr_LoadUsage [OF Cons.prems] by metis
    with Cons.IH [of m1] Some show ?thesis by auto
  qed (use Cons in simp)
qed simp

lemma flush_reload_ok:
  assumes "mgr_inv (fs_manager fs)"
  shows "\<exists>fs'. flush_reload P xs fs = Ret fs' \<and> mgr_inv (fs_manager fs') \<and>
    userConfigs (fs_manager fs') = userConfigs (fs_manager fs)"
  using assms
proof (induction xs arbitrary: fs)
  case (Cons x xs)
  obtain k us where x: "x = (k, us)" by fastforce
  obtain y b where l: "p_LoadMany P k us (fs_backend fs) = (y, b)" by fastforce
  show ?case
  proof (cases y)
    case (Inl e)
    let ?fs = "fs\<lparr>fs_backend := b,
      fs_errs := fs_errs fs @ [ECause e [''reload traffic quota totals for period '', k]]\<rparr>"
    from Inl x l Cons.IH [of ?fs] Cons.prems show ?thesis by simp
  next
    case (Inr result)
    obtain m where "load_usages us result (fs_manager fs) = Ret m" "mgr_inv m"
      "userConfigs m = userConfigs (fs_manager fs)"
      using load_usages_ok [OF Cons.prems] by metis
    with Inr x l Cons.IH [of "fs\<lparr>fs_manager := m, fs_backend := b\<rparr>"] show ?thesis by simp
  qed
qed simp

lemma flushPending_ok:
  assumes "mgr_inv (manager s)"
  obtains r s' where "flushPending ord s = Ret (r, s')" "mgr_inv (manager s')" "persister s' = persister s"
proof (cases "persister s")
  case None
  with assms that show ?thesis by (simp add: flushPending_def)
next
  case (Some P)
  obtain active m1 where t: "flush_take (manager s) = (active, m1)" by fastforce
  then have m1: "mgr_inv m1" using mgr_consume [OF assms] by (simp add: flush_take_eq [OF assms])
  let ?fs = "flush_persist P active m1 (backend s)"
  have fs: "mgr_inv (fs_manager ?fs)"
    unfolding flush_persist_def using fold_persist_inv [of _ active P] m1 flush_take_entry(3) [OF assms t]
    by simp
  obtain fs' where "flush_reload P (ord (fs_users ?fs)) ?fs = Ret fs'" "mgr_inv (fs_manager fs')"
    using flush_reload_ok [OF fs] by metis
  with Some t m1 that show ?thesis
    by (cases "active = []") (simp_all add: flushPending_def Let_def)
qed

lemma handlePeriodResets_ok:
  assumes "mgr_inv (manager s)" and "range_order order (userConfigs (manager s))"
  obtains r s' where "handlePeriodResets order t s = Ret (r, s')" "mgr_inv (manager s')"
proof -
  let ?rs = "resets_of order t (manager s)" and ?m = "reset_map order t (manager s)"
  have c: "CheckPeriodReset order t (manager s) = Ret (?rs, ?m)"
    using assms by (intro CheckPeriodReset_eq) (simp_all add: mgr_invD)
  have m: "mgr_inv ?m" using assms by (rule mgr_reset)
  show ?thesis
  proof (cases "persister s = None \<or> ?rs = []")
    case True
    with c m that show ?thesis
      by (auto simp: handlePeriodResets_def Let_def split: option.splits)
  next
    case False
    then obtain P where "persister s = Some P" "?rs \<noteq> []" by auto
    with c m that show ?thesis
      by (simp add: handlePeriodResets_def Let_def case_prod_beta)
  qed
qed

lemma svc_Close_ok:
  assumes "mgr_inv (manager s)"
  obtains r s' where "svc_Close ord s = Ret (r, s')" "mgr_inv (manager s')"
proof -
  obtain r s1 where f: "flushPending ord s = Ret (r, s1)" "mgr_inv (manager s1)"
    using flushPending_ok [OF assms] by metis
  then show ?thesis
    using that by (cases "persister s1") (simp_all add: svc_Close_def case_prod_beta Let_def)
qed

section \<open>The step relation of the service\<close>

inductive svc_step :: "'p quota_service \<Rightarrow> 'p quota_service \<Rightarrow> bool" where
  Init: "svc_step s (initPersister newRedis newPostgres persistence s)"
| Restore: "range_order order (userConfigs (manager s)) \<Longrightarrow> restoreUsage order s = Ret s' \<Longrightarrow>
    svc_step s s'"
| Route: "(\<And>l. c \<notin> set (conns (listStore (manager s) l))) \<Longrightarrow>
    RoutedConnection u c s = Ret (r, s') \<Longrightarrow> svc_step s s'"
| IO: "svc_step s (s\<lparr>manager := snd (QuotaConn_io c inner (manager s))\<rparr>)"
| PacketIO: "svc_step s (s\<lparr>manager := snd (QuotaPacketConn_io c inner (manager s))\<rparr>)"
| CloseConn: "svc_step s (s\<lparr>manager := QuotaConn_Close c (manager s)\<rparr>)"
| Apply: "svc_ApplyConfig tparse user s = Ret (r, s') \<Longrightarrow> svc_step s s'"
| Dynamic: "applyDynamic tparse row s = Ret (r, s') \<Longrightarrow> svc_step s s'"
| Remove: "removeConfigLocked u s = Ret (r, s') \<Longrightarrow> svc_step s s'"
| Flush: "flushPending ord s = Ret (r, s') \<Longrightarrow> svc_step s s'"
| Resets: "range_order order (userConfigs (manager s)) \<Longrightarrow>
    handlePeriodResets order t s = Ret (r, s') \<Longrightarrow> svc_step s s'"
| Close: "svc_Close ord s = Ret (r, s') \<Longrightarrow> svc_step s s'"
| Tick: "svc_step s (s\<lparr>manager := (manager s)\<lparr>now := t\<rparr>\<rparr>)"

inductive svc_init :: "'p quota_service \<Rightarrow> bool" where
  New: "NewQuotaManager tparse groups users heap = Ret (Inr m) \<Longrightarrow>
    svc_init \<lparr>manager = m, persister = None, backend = b\<rparr>"

lemma restoreUsage_ok:
  assumes "mgr_inv (manager s)" and "range_order order (userConfigs (manager s))"
  obtains s' where "restoreUsage order s = Ret s'" "mgr_inv (manager s')"
proof (cases "persister s")
  case None
  with assms that show ?thesis by (simp add: restoreUsage_def)
next
  case (Some P)
  have "HasQuota u (manager s)" if "u \<in> set order" for u
    using that assms(2) by (auto simp: range_order_def HasQuota_def)
  from reload_users_ok [OF assms(1) this, of order P] Some that show ?thesis
    by (auto simp: restoreUsage_def)
qed

lemma mgr_io:
  assumes "mgr_inv m"
  shows "mgr_inv (snd (QuotaConn_io c inner m))" and "mgr_inv (snd (QuotaPacketConn_io c inner m))"
  using assms mgr_AddBytes [OF assms]
  by (auto simp: QuotaConn_io_def QuotaPacketConn_io_def split: option.splits)

lemma mgr_close:
  assumes "mgr_inv m"
  shows "mgr_inv (QuotaConn_Close c m)"
proof (rule mgr_core [OF assms core_step.Close])
  show "keys_ok (QuotaConn_Close c m)"
    using mgr_invD(3) [OF assms]
    by (auto simp: QuotaConn_Close_def removeConn_def Let_def keys_ok_def split: option.splits)
qed

lemma svc_step_inv:
  assumes "mgr_inv (manager s)" and "svc_step s s'"
  shows "mgr_inv (manager s')"
  using assms(2,1)
proof (induction rule: svc_step.induct)
  case (Init s newRedis newPostgres persistence)
  then show ?case
    by (auto simp: initPersister_def Let_def split: option.splits prod.splits sum.splits)
next
  case (Restore order s s')
  then show ?case using restoreUsage_ok [of s order] by auto
next
  case (Route c s u r s')
  then show ?case using RoutedConnection_ok [of s c u] by auto
next
  case (Apply tparse user s r s')
  then show ?case using svc_ApplyConfig_ok [of s tparse user] by auto
next
  case (Dynamic tparse row s r s')
  then show ?case using applyDynamic_ok [of s tparse row] by auto
next
  case (Remove u s r s')
  then show ?case using removeConfigLocked_ok [of s u] by auto
next
  case (Flush ord s r s')
  then show ?case using flushPending_ok [of s ord] by auto
next
  case (Resets order s t r s')
  then show ?case using handlePeriodResets_ok [of s order t] by auto
next
  case (Close ord s r s')
  then show ?case using svc_Close_ok [of s ord] by auto
next
  case (Tick s t)
  have "mgr_inv ((manager s)\<lparr>now := t\<rparr>)"
    by (rule mgr_core [OF Tick core_step.Tick]) (use mgr_invD(3) [OF Tick] in \<open>simp add: keys_ok_def\<close>)
  then show ?case by simp
qed (simp_all add: mgr_io mgr_close)

interpretation service: invariant_system svc_init svc_step "\<lambda>s. mgr_inv (manager s)"
proof
  fix s :: "'p quota_service"
  assume "svc_init s"
  then obtain tparse groups users heap m b where
    n: "NewQuotaManager tparse groups users heap = Ret (Inr m)"
    and s: "s = \<lparr>manager = m, persister = None, backend = b\<rparr>" by (auto elim: svc_init.cases)
  have "quota_init m" using n by (rule quota_init.New)
  then have "quota_wf m \<and> pending_ok m" by (rule pending.init_inv)
  moreover have "keys_ok m"
    using n by (auto simp: NewQuotaManager_def keys_ok_def state_of_def zero_state_def colon_free_def
        split: sum.splits go.splits)
  ultimately show "mgr_inv (manager s)" by (simp add: s mgr_inv_def)
qed (rule svc_step_inv)


section \<open>The ledger\<close>

definition total ::
  "('p \<Rightarrow> string \<Rightarrow> string \<Rightarrow> i64) \<Rightarrow> 'p \<Rightarrow> quota_manager \<Rightarrow> string \<Rightarrow> string \<Rightarrow> i64" where
  "total stored b m u k =
     stored b u k + (if stateKey (state_of m u) = k then pendingDelta (state_of m u) else 0)"

definition in_flight :: "pending_delta list \<Rightarrow> string \<Rightarrow> string \<Rightarrow> i64" where
  "in_flight ds u k =
     sum_list (map (\<lambda>d. if pd_User d = u \<and> pd_PeriodKey d = k then pd_Delta d else 0) ds)"

text \<open>Traffic that arrives while a flush is running, and the bytes of it that count for a user.\<close>

definition traffic :: "(string \<times> int) list \<Rightarrow> quota_manager \<Rightarrow> quota_manager" where
  "traffic tr m = fold (\<lambda>(u, n). AddBytes u n) tr m"

definition counted :: "(string \<times> int) list \<Rightarrow> quota_manager \<Rightarrow> string \<Rightarrow> i64" where
  "counted tr m u =
     (if HasQuota u m
      then sum_list (map (\<lambda>(v, n). if v = u \<and> 0 < n then word_of_int n else 0) tr) else 0)"

lemma in_flight_append: "in_flight (xs @ ys) u k = in_flight xs u k + in_flight ys u k"
  by (simp add: in_flight_def)

lemma in_flight_deltas:
  "distinct us \<Longrightarrow> in_flight (deltas_of us m) u k =
     (if u \<in> set us \<and> stateKey (state_of m u) = k then pendingDelta (state_of m u) else 0)"
proof (induction us)
  case Nil
  then show ?case by (simp add: in_flight_def deltas_of_def)
next
  case (Cons w us)
  have "deltas_of (w # us) m = deltas_of [w] m @ deltas_of us m" by (simp add: deltas_of_def)
  moreover have "in_flight (deltas_of [w] m) u k =
      (if u = w \<and> stateKey (state_of m u) = k then pendingDelta (state_of m u) else 0)"
    by (auto simp: in_flight_def deltas_of_def state_of_def zero_state_def split: option.splits)
  ultimately show ?case using Cons by (auto simp: in_flight_append)
qed

lemma take_ledger:
  assumes "mgr_inv m" and "flush_take m = (active, m1)"
  shows "total stored b m1 u k + in_flight active u k = total stored b m u k"
    and "stateKey (state_of m1 u) = stateKey (state_of m u)" and "userConfigs m1 = userConfigs m"
    and "mgr_inv m1"
proof -
  note D = mgr_invD(4,5) [OF assms(1)]
  have st: "state_of m1 u = (if u \<in> dirtySet m then (state_of m u)\<lparr>pendingDelta := 0\<rparr> else state_of m u)"
    and act: "active = deltas_of (dirtyQueue m) m" for u
    using assms by (auto simp: flush_take_eq ConsumePendingDeltas_eq [OF D(1)] state_of_drained)
  have "in_flight active u k =
      (if u \<in> dirtySet m \<and> stateKey (state_of m u) = k then pendingDelta (state_of m u) else 0)"
    unfolding act using D(1) by (subst in_flight_deltas) (auto simp: dirty_ok_def)
  with D(2) show "total stored b m1 u k + in_flight active u k = total stored b m u k"
    by (auto simp: total_def st pending_ok_def)
  show "stateKey (state_of m1 u) = stateKey (state_of m u)" by (simp add: st)
  show "userConfigs m1 = userConfigs m" "mgr_inv m1"
    using assms mgr_consume [OF assms(1)]
    by (auto simp: flush_take_eq ConsumePendingDeltas_eq [OF D(1)] drained_def)
qed

lemma AddBytes_fields:
  assumes "wf0 m" and "userConfigs m u = Some c" and "0 < n"
  shows "pendingDelta (state_of (AddBytes u n m) v) =
      pendingDelta (state_of m v) + (if v = u then word_of_int n else 0)"
    and "stateKey (state_of (AddBytes u n m) v) =
      (if v = u then stateKey (setPeriodKeyIfEmpty (key_of c (now m)) (state_of m v))
       else stateKey (state_of m v))"
    and "userConfigs (AddBytes u n m) = userConfigs m"
  unfolding AddBytes_eq [OF assms] Let_def by auto

lemma AddBytes_skip: "\<not> (0 < n \<and> HasQuota u m) \<Longrightarrow> AddBytes u n m = m"
  by (auto simp: AddBytes_def HasQuota_def)

lemma AddBytes_ledger:
  assumes "mgr_inv m"
  shows "total stored b (AddBytes u n m) v k = total stored b m v k +
      (if stateKey (state_of (AddBytes u n m) v) = k then counted [(u, n)] m v else 0)"
    and "stateKey (state_of m v) \<noteq> '''' \<Longrightarrow>
      stateKey (state_of (AddBytes u n m) v) = stateKey (state_of m v)"
    and "counted [(u, n)] m v \<noteq> 0 \<Longrightarrow> stateKey (state_of (AddBytes u n m) v) \<noteq> ''''"
    and "userConfigs (AddBytes u n m) = userConfigs m"
proof -
  have "total stored b (AddBytes u n m) v k = total stored b m v k +
      (if stateKey (state_of (AddBytes u n m) v) = k then counted [(u, n)] m v else 0) \<and>
    (stateKey (state_of m v) \<noteq> '''' \<longrightarrow>
      stateKey (state_of (AddBytes u n m) v) = stateKey (state_of m v)) \<and>
    (counted [(u, n)] m v \<noteq> 0 \<longrightarrow> stateKey (state_of (AddBytes u n m) v) \<noteq> '''') \<and>
    userConfigs (AddBytes u n m) = userConfigs m"
  proof (cases "0 < n \<and> HasQuota u m")
    case False
    then show ?thesis by (auto simp: AddBytes_skip counted_def)
  next
    case True
    then obtain c where c: "userConfigs m u = Some c" "0 < n" by (auto simp: HasQuota_def)
    note F = AddBytes_fields [OF mgr_invD(2) [OF assms] c]
    have "counted [(u, n)] m v = (if v = u then word_of_int n else 0)"
      using True by (auto simp: counted_def)
    moreover have "stateKey (state_of m u) = '''' \<Longrightarrow> pendingDelta (state_of m u) = 0"
      using mgr_invD(3) [OF assms] by (auto simp: keys_ok_def)
    ultimately show ?thesis
      using keyed(2) [OF mgr_invD(3,2) [OF assms] c(1), of "now m"]
      by (auto simp: F total_def setPeriodKeyIfEmpty_def)
  qed
  then show "total stored b (AddBytes u n m) v k = total stored b m v k +
      (if stateKey (state_of (AddBytes u n m) v) = k then counted [(u, n)] m v else 0)"
    "stateKey (state_of m v) \<noteq> '''' \<Longrightarrow>
      stateKey (state_of (AddBytes u n m) v) = stateKey (state_of m v)"
    "counted [(u, n)] m v \<noteq> 0 \<Longrightarrow> stateKey (state_of (AddBytes u n m) v) \<noteq> ''''"
    "userConfigs (AddBytes u n m) = userConfigs m" by auto
qed

lemma counted_Cons:
  "counted ((u, n) # tr) m v = counted [(u, n)] m v + counted tr m v"
  by (simp add: counted_def)

lemma counted_append: "counted (xs @ ys) m v = counted xs m v + counted ys m v"
  by (simp add: counted_def)

lemma counted_cong: "userConfigs m' = userConfigs m \<Longrightarrow> counted tr m' v = counted tr m v"
  by (simp add: counted_def HasQuota_def)

text \<open>
  What a phase of a flush may do to the manager for the ledger to add up: it keeps the
  invariant, the configurations and every period key that is set.
\<close>

definition keeps_keys :: "quota_manager \<Rightarrow> quota_manager \<Rightarrow> bool" where
  "keeps_keys m m' \<longleftrightarrow> mgr_inv m' \<and> userConfigs m' = userConfigs m \<and>
     (\<forall>v. stateKey (state_of m v) \<noteq> '''' \<longrightarrow> stateKey (state_of m' v) = stateKey (state_of m v))"

lemma keeps_keys_trans: "keeps_keys m m' \<Longrightarrow> keeps_keys m' m'' \<Longrightarrow> keeps_keys m m''"
  by (simp add: keeps_keys_def)

lemma traffic_ledger:
  assumes "mgr_inv m"
  shows "total stored b (traffic tr m) v k = total stored b m v k +
      (if stateKey (state_of (traffic tr m) v) = k then counted tr m v else 0) \<and>
    (counted tr m v \<noteq> 0 \<longrightarrow> stateKey (state_of (traffic tr m) v) \<noteq> '''') \<and>
    keeps_keys m (traffic tr m)"
  using assms
proof (induction tr arbitrary: m)
  case Nil
  then show ?case by (simp add: traffic_def counted_def keeps_keys_def)
next
  case (Cons x tr)
  obtain u n where x: "x = (u, n)" by fastforce
  let ?m = "AddBytes u n m"
  have eq: "traffic (x # tr) m = traffic tr ?m" by (simp add: traffic_def x)
  note A = AddBytes_ledger [OF Cons.prems, where u = u and n = n]
  have inv: "mgr_inv ?m" using Cons.prems by (rule mgr_AddBytes)
  note IH = Cons.IH [OF inv]
  have keep: "stateKey (state_of (traffic tr ?m) w) = stateKey (state_of ?m w)"
    if "stateKey (state_of ?m w) \<noteq> ''''" for w
    using IH that by (simp add: keeps_keys_def)
  have ctd: "counted (x # tr) m v = counted [(u, n)] m v + counted tr ?m v"
    using counted_Cons [of u n tr m v] counted_cong [OF A(4), of tr v] by (simp only: x)
  have "total stored b (traffic tr ?m) v k = total stored b m v k +
      (if stateKey (state_of (traffic tr ?m) v) = k then counted (x # tr) m v else 0)"
  proof (cases "counted [(u, n)] m v = 0")
    case True
    with IH A(1) [of stored b v k] ctd show ?thesis by simp
  next
    case False
    with A(3) keep have "stateKey (state_of (traffic tr ?m) v) = stateKey (state_of ?m v)" by blast
    with IH A(1) [of stored b v k] ctd show ?thesis by simp
  qed
  moreover have "counted (x # tr) m v \<noteq> 0 \<longrightarrow> stateKey (state_of (traffic tr ?m) v) \<noteq> ''''"
  proof (cases "counted [(u, n)] m v = 0")
    case True
    with IH ctd show ?thesis by simp
  next
    case False
    with A(3) keep show ?thesis by metis
  qed
  moreover have "keeps_keys m (traffic tr ?m)"
    using IH A(2,4) inv by (auto simp: keeps_keys_def)
  ultimately show ?case unfolding eq by blast
qed

lemma total_cong: "stored b' = stored b \<Longrightarrow> total stored b' m u k = total stored b m u k"
  by (simp add: total_def)

lemma LoadUsage_keeps:
  assumes "mgr_inv m" and "LoadUsage u v m = Ret m'"
  shows "keeps_keys m m'" and "total stored b m' w k = total stored b m w k"
    and "counted tr m w \<noteq> 0 \<Longrightarrow> stateKey (state_of m w) \<noteq> '''' \<Longrightarrow>
      stateKey (state_of m' w) = stateKey (state_of m w)"
proof -
  have inv: "mgr_inv m'" "userConfigs m' = userConfigs m"
    using mgr_LoadUsage [OF assms(1), of u v] assms(2) by (metis go.inject(2))+
  have st: "pendingDelta (state_of m' w) = pendingDelta (state_of m w) \<and>
      (stateKey (state_of m w) \<noteq> '''' \<longrightarrow> stateKey (state_of m' w) = stateKey (state_of m w))" for w
  proof (cases "userConfigs m u")
    case None
    with assms(2) show ?thesis by (simp add: LoadUsage_def)
  next
    case (Some c)
    from assms(2) show ?thesis
      unfolding LoadUsage_eq [OF mgr_invD(2) [OF assms(1)] Some] Let_def go.inject
      by (auto simp: setPeriodKeyIfEmpty_def)
  qed
  then show "keeps_keys m m'" using inv by (simp add: keeps_keys_def)
  have "stateKey (state_of m w) = '''' \<Longrightarrow> pendingDelta (state_of m w) = 0"
    using mgr_invD(3) [OF assms(1)] by (auto simp: keys_ok_def)
  with st [of w] show "total stored b m' w k = total stored b m w k"
    by (cases "stateKey (state_of m w) = ''''") (auto simp: total_def)
  show "counted tr m w \<noteq> 0 \<Longrightarrow> stateKey (state_of m w) \<noteq> '''' \<Longrightarrow>
      stateKey (state_of m' w) = stateKey (state_of m w)" using st by blast
qed

lemma load_usages_keeps:
  assumes "mgr_inv m" and "load_usages us result m = Ret m'"
  shows "keeps_keys m m' \<and> total stored b m' w k = total stored b m w k"
  using assms
proof (induction us arbitrary: m)
  case Nil
  then show ?case by (simp add: keeps_keys_def)
next
  case (Cons u us)
  show ?case
  proof (cases "result u")
    case (Some v)
    with Cons.prems obtain m1 where m1: "LoadUsage u v m = Ret m1" "load_usages us result m1 = Ret m'"
      by (auto simp: go_bind_Ret_iff)
    note L = LoadUsage_keeps [OF Cons.prems(1) m1(1)]
    have "mgr_inv m1" using L(1) by (simp add: keeps_keys_def)
    from Cons.IH [OF this m1(2)] L(1,2) show ?thesis by (auto intro: keeps_keys_trans)
  qed (use Cons in simp)
qed

context quota_backend
begin

lemma reload_ledger:
  assumes "mgr_inv (fs_manager fs)" and "flush_reload P xs fs = Ret fs'"
  shows "keeps_keys (fs_manager fs) (fs_manager fs') \<and> stored (fs_backend fs') = stored (fs_backend fs) \<and>
    total stored (fs_backend fs') (fs_manager fs') u k = total stored (fs_backend fs) (fs_manager fs) u k"
  using assms
proof (induction xs arbitrary: fs)
  case Nil
  then show ?case by (simp add: keeps_keys_def)
next
  case (Cons x xs)
  obtain k' us where x: "x = (k', us)" by fastforce
  obtain y b where l: "p_LoadMany P k' us (fs_backend fs) = (y, b)" by fastforce
  note st = LoadMany [OF l]
  show ?case
  proof (cases y)
    case (Inl e)
    let ?fs = "fs\<lparr>fs_backend := b,
      fs_errs := fs_errs fs @ [ECause e [''reload traffic quota totals for period '', k']]\<rparr>"
    from Inl x l Cons.prems Cons.IH [of ?fs] st total_cong [of stored b "fs_backend fs"]
    show ?thesis by simp
  next
    case (Inr result)
    with Cons.prems x l obtain m1 where
      m1: "load_usages us result (fs_manager fs) = Ret m1"
        "flush_reload P xs (fs\<lparr>fs_manager := m1, fs_backend := b\<rparr>) = Ret fs'"
      by (auto simp: go_bind_Ret_iff)
    note L = load_usages_keeps [OF Cons.prems(1) m1(1), of stored b u k]
    have "mgr_inv (fs_manager (fs\<lparr>fs_manager := m1, fs_backend := b\<rparr>))"
      using L by (simp add: keeps_keys_def)
    from Cons.IH [OF this m1(2)] L st total_cong [of stored b "fs_backend fs"] show ?thesis
      by (auto intro: keeps_keys_trans)
  qed
qed

end

context durable_backend
begin

lemma persist_one:
  assumes "mgr_inv (fs_manager fs)" and "HasQuota (pd_User pd) (fs_manager fs)"
    and "stateKey (state_of (fs_manager fs) (pd_User pd)) = pd_PeriodKey pd"
    and "pd_PeriodKey pd \<noteq> ''''" and "good_key (pd_PeriodKey pd)" and "good_key k"
  defines "fs' \<equiv> persist_delta P pd fs"
  shows "total stored (fs_backend fs') (fs_manager fs') u k =
      total stored (fs_backend fs) (fs_manager fs) u k + in_flight [pd] u k \<and>
    mgr_inv (fs_manager fs') \<and> userConfigs (fs_manager fs') = userConfigs (fs_manager fs) \<and>
    (\<forall>v. stateKey (state_of (fs_manager fs') v) = stateKey (state_of (fs_manager fs) v))"
proof -
  obtain e b where i: "p_IncrBy P (pd_User pd) (pd_PeriodKey pd) (pd_Delta pd) (fs_backend fs) = (e, b)"
    by fastforce
  note I = IncrBy [OF assms(5) i assms(6), of u]
  note inv = persist_delta_inv [OF assms(1,4), of P, folded fs'_def]
  show ?thesis
  proof (cases e)
    case None
    then have fs': "fs_manager fs' = fs_manager fs" "fs_backend fs' = b"
      using i by (simp_all add: fs'_def persist_delta_def)
    with I None inv show ?thesis
      by (auto simp: total_def in_flight_def)
  next
    case (Some err)
    let ?m = "RestorePendingDelta (pd_User pd) (pd_PeriodKey pd) (pd_Delta pd) (fs_manager fs)"
    from Some i have fs': "fs_manager fs' = ?m" "fs_backend fs' = b"
      by (simp_all add: fs'_def persist_delta_def)
    have pend: "pendingDelta (state_of ?m v) = pendingDelta (state_of (fs_manager fs) v) +
        (if v = pd_User pd then pd_Delta pd else 0)"
      and key: "stateKey (state_of ?m v) = stateKey (state_of (fs_manager fs) v)" for v
      using assms(2,3) by (auto simp: RestorePendingDelta_def Let_def)
    from I Some inv show ?thesis
      unfolding fs' total_def by (auto simp: pend key in_flight_def assms(3))
  qed
qed

lemma persist_ledger:
  assumes "mgr_inv (fs_manager fs)" and "good_key k"
    and "\<And>pd. pd \<in> set active \<Longrightarrow> HasQuota (pd_User pd) (fs_manager fs) \<and>
      stateKey (state_of (fs_manager fs) (pd_User pd)) = pd_PeriodKey pd \<and>
      pd_PeriodKey pd \<noteq> '''' \<and> good_key (pd_PeriodKey pd)"
  defines "fs' \<equiv> fold (persist_delta P) active fs"
  shows "total stored (fs_backend fs') (fs_manager fs') u k =
      total stored (fs_backend fs) (fs_manager fs) u k + in_flight active u k \<and>
    keeps_keys (fs_manager fs) (fs_manager fs')"
  using assms(1,3) unfolding fs'_def
proof (induction active arbitrary: fs)
  case Nil
  then show ?case by (simp add: in_flight_def keeps_keys_def)
next
  case (Cons pd active)
  have pd: "HasQuota (pd_User pd) (fs_manager fs)"
    "stateKey (state_of (fs_manager fs) (pd_User pd)) = pd_PeriodKey pd"
    "pd_PeriodKey pd \<noteq> ''''" "good_key (pd_PeriodKey pd)"
    using Cons.prems(2) [of pd] by simp_all
  note S = persist_one [OF Cons.prems(1) pd assms(2), of u]
  let ?fs = "persist_delta P pd fs"
  have "HasQuota (pd_User d) (fs_manager ?fs) \<and>
      stateKey (state_of (fs_manager ?fs) (pd_User d)) = pd_PeriodKey d \<and>
      pd_PeriodKey d \<noteq> '''' \<and> good_key (pd_PeriodKey d)" if "d \<in> set active" for d
    using Cons.prems(2) [of d] that S by (auto simp: HasQuota_def)
  with Cons.IH [of ?fs] S
  have IH: "total stored (fs_backend (fold (persist_delta P) active ?fs))
        (fs_manager (fold (persist_delta P) active ?fs)) u k =
      total stored (fs_backend ?fs) (fs_manager ?fs) u k + in_flight active u k"
    "keeps_keys (fs_manager ?fs) (fs_manager (fold (persist_delta P) active ?fs))" by blast+
  have "in_flight (pd # active) u k = in_flight [pd] u k + in_flight active u k"
    by (simp add: in_flight_def)
  moreover have "keeps_keys (fs_manager fs) (fs_manager ?fs)"
    using S by (simp add: keeps_keys_def)
  ultimately show ?case using IH S keeps_keys_trans by auto
qed

end

context durable_backend
begin

lemma flush_ledger:
  assumes "mgr_inv m" and "\<And>k. colon_free k \<Longrightarrow> good_key k" and "good_key k"
    and "flush_take m = (active, m1)"
    and "fs = flush_persist P active (traffic tr1 m1) b"
    and "flush_reload P xs (fs\<lparr>fs_manager := traffic tr2 (fs_manager fs)\<rparr>) = Ret fs'"
  shows "total stored (fs_backend fs') (fs_manager fs') u k =
    total stored b m u k +
    (if stateKey (state_of (fs_manager fs') u) = k then counted (tr1 @ tr2) m u else 0)"
proof -
  let ?m2 = "traffic tr1 m1" and ?m3 = "fs_manager fs" and ?m4 = "traffic tr2 (fs_manager fs)"
  note T = take_ledger [OF assms(1,4)]
  note T1 = traffic_ledger [OF T(4), of stored b tr1 u k]
  have inv2: "mgr_inv ?m2" and cfg2: "userConfigs ?m2 = userConfigs m"
    using T1 T(3) by (simp_all add: keeps_keys_def)
  have "HasQuota (pd_User pd) ?m2 \<and> stateKey (state_of ?m2 (pd_User pd)) = pd_PeriodKey pd \<and>
      pd_PeriodKey pd \<noteq> '''' \<and> good_key (pd_PeriodKey pd)" if "pd \<in> set active" for pd
    using flush_take_entry [OF assms(1,4) that] T(2) [of "pd_User pd"] T1 cfg2 assms(2)
    by (auto simp: HasQuota_def keeps_keys_def)
  with persist_ledger [OF _ assms(3), of "\<lparr>fs_manager = ?m2, fs_backend = b, fs_errs = [], fs_users = []\<rparr>" active u]
  have L: "total stored (fs_backend fs) ?m3 u k = total stored b ?m2 u k + in_flight active u k"
    "keeps_keys ?m2 ?m3" using inv2 by (simp_all add: assms(5) flush_persist_def)
  then have inv3: "mgr_inv ?m3" by (simp add: keeps_keys_def)
  note T2 = traffic_ledger [OF inv3, of stored "fs_backend fs" tr2 u k]
  have inv4: "mgr_inv (fs_manager (fs\<lparr>fs_manager := ?m4\<rparr>))" using T2 by (simp add: keeps_keys_def)
  note R = reload_ledger [OF inv4 assms(6), of u k, simplified]
  have keys: "keeps_keys ?m2 ?m4" "keeps_keys ?m4 (fs_manager fs')"
    using L(2) T2 R keeps_keys_trans by blast+
  have cnt: "counted tr2 ?m3 u = counted tr2 m u" "counted tr1 m1 u = counted tr1 m u"
    using L(2) cfg2 T(3) by (auto intro!: counted_cong simp: keeps_keys_def)
  have key1: "counted tr1 m u \<noteq> 0 \<Longrightarrow> stateKey (state_of (fs_manager fs') u) = stateKey (state_of ?m2 u)"
    using T1 cnt(2) keeps_keys_trans [OF keys] by (simp add: keeps_keys_def)
  have key2: "counted tr2 m u \<noteq> 0 \<Longrightarrow> stateKey (state_of (fs_manager fs') u) = stateKey (state_of ?m4 u)"
    using T2 cnt(1) keys(2) by (simp add: keeps_keys_def)
  have "total stored (fs_backend fs') (fs_manager fs') u k = total stored b m u k +
      (if stateKey (state_of ?m2 u) = k then counted tr1 m u else 0) +
      (if stateKey (state_of ?m4 u) = k then counted tr2 m u else 0)"
    using R T2 L(1) T1 T(1) [of stored b u k] cnt by (simp add: algebra_simps)
  then show ?thesis
    using key1 key2 unfolding counted_append
    by (cases "counted tr1 m u = 0"; cases "counted tr2 m u = 0") auto
qed

end


section \<open>Routing a connection\<close>

lemma RoutedConnection_tracked:
  assumes "mgr_inv (manager s)" and "user \<noteq> ''''" and "HasQuota user (manager s)"
    and "\<not> IsExceeded user (manager s)"
  obtains s' l where "RoutedConnection user c s = Ret (True, s')"
    "activeConns (manager s') user = Some l" "c \<in> set (conns (listStore (manager s') l))"
    "qconns (manager s') c =
       \<lparr>closed = False, closeDone = False, onBytes = Some user, onClose = Some l\<rparr>"
    "userConfigs (manager s') = userConfigs (manager s)"
    "\<forall>v. pendingDelta (state_of (manager s') v) = pendingDelta (state_of (manager s) v)"
    "persister s' = persister s" "backend s' = backend s"
proof -
  let ?m0 = "(manager s)\<lparr>qconns := (qconns (manager s))(c := NewQuotaConn None None)\<rparr>"
  obtain cf where cf: "userConfigs ?m0 user = Some cf"
    using assms(3) by (auto simp: HasQuota_def)
  let ?m1 = "upd_state user (setPeriodKeyIfEmpty (key_of cf (now ?m0))) ?m0"
  obtain l m2 where lm: "loadOrStoreList user ?m1 = (l, m2)" by fastforce
  have key: "mustPeriodKey user (now ?m0) (stateFor user ?m0) = Ret (key_of cf (now ?m0))"
    using wf_cfg(1) [OF mgr_invD(2) [OF assms(1)]] cf
    by (simp add: mustPeriodKey_def GetCurrentPeriodKey_def periodKey_key_of)
  have m2: "activeConns m2 user = Some l" "state_of m2 = state_of ?m1" "qconns m2 = qconns ?m0"
    "userConfigs m2 = userConfigs ?m0"
    using lm by (auto simp: loadOrStoreList_def fun_eq_iff split: option.splits)
  have nex: "\<not> exceeded (state_of ?m1 user)"
    using assms(4) by (simp add: IsExceeded_state_of)
  let ?m3 = "m2\<lparr>listStore := (listStore m2)(l := cl_add (grow m2) c (listStore m2 l))\<rparr>"
  have "RegisterConn user c ?m0 = Ret (?m3, Some (user, l))"
    using cf key lm nex m2(2) by (simp add: RegisterConn_def HasQuota_def Let_def)
  then have eq: "RoutedConnection user c s = Ret (True, s\<lparr>manager := ?m3\<lparr>qconns :=
      (qconns ?m3)(c := (qconns ?m3 c)\<lparr>onBytes := Some user, onClose := Some l\<rparr>)\<rparr>\<rparr>)"
    using assms(2-4) by (simp add: RoutedConnection_def Let_def)
  show ?thesis
    by (rule that [OF eq]) (use m2 in \<open>auto simp: NewQuotaConn_def cl_add_def Let_def\<close>)
qed

text \<open>
  Routing. A connection of a user without a quota is handed back as it is. For a user with
  a quota that is not exceeded, the caller gets a wrapper that is tracked for the user and
  through which every transferred byte is added to the user's usage. For a user whose usage
  is above the quota, the caller gets a wrapper that refuses every read and write.
\<close>

theorem RoutedConnection_correct:
  assumes "reach svc_init svc_step s"
  shows "(user = '''' \<or> \<not> HasQuota user (manager s) \<longrightarrow> RoutedConnection user c s = Ret (False, s)) \<and>
    (user \<noteq> '''' \<and> HasQuota user (manager s) \<and> \<not> IsExceeded user (manager s) \<longrightarrow>
       (\<exists>s' l. RoutedConnection user c s = Ret (True, s') \<and>
          activeConns (manager s') user = Some l \<and> c \<in> set (conns (listStore (manager s') l)) \<and>
          (\<forall>n err. 0 < n \<longrightarrow>
             QuotaConn_io c (n, err) (manager s') = ((n, err), AddBytes user n (manager s'))))) \<and>
    (\<forall>cf. user \<noteq> '''' \<and> userConfigs (manager s) user = Some cf \<and>
       sint (Usage user (manager s)) > sint (quotaBytes cf) \<longrightarrow>
       (\<exists>s'. RoutedConnection user c s = Ret (True, s') \<and>
          (\<forall>inner. QuotaConn_io c inner (manager s') = ((0, Some ErrQuotaExceeded), manager s'))))"
proof (intro conjI impI allI)
  note i = service.reach_inv [OF assms]
  show "RoutedConnection user c s = Ret (False, s)" if "user = '''' \<or> \<not> HasQuota user (manager s)"
    using that by (auto simp: RoutedConnection_def)
  show "\<exists>s' l. RoutedConnection user c s = Ret (True, s') \<and>
      activeConns (manager s') user = Some l \<and> c \<in> set (conns (listStore (manager s') l)) \<and>
      (\<forall>n err. 0 < n \<longrightarrow>
         QuotaConn_io c (n, err) (manager s') = ((n, err), AddBytes user n (manager s')))"
    if "user \<noteq> '''' \<and> HasQuota user (manager s) \<and> \<not> IsExceeded user (manager s)"
  proof -
    from that have "user \<noteq> ''''" "HasQuota user (manager s)" "\<not> IsExceeded user (manager s)" by auto
    from RoutedConnection_tracked [OF i this, of c] obtain s' l where
      r: "RoutedConnection user c s = Ret (True, s')" "activeConns (manager s') user = Some l"
        "c \<in> set (conns (listStore (manager s') l))" and
      q: "qconns (manager s') c =
        \<lparr>closed = False, closeDone = False, onBytes = Some user, onClose = Some l\<rparr>" .
    have "QuotaConn_io c (n, err) (manager s') = ((n, err), AddBytes user n (manager s'))"
      if "0 < n" for n err using that q by (simp add: QuotaConn_io_def)
    with r show ?thesis by blast
  qed
  show "\<exists>s'. RoutedConnection user c s = Ret (True, s') \<and>
      (\<forall>inner. QuotaConn_io c inner (manager s') = ((0, Some ErrQuotaExceeded), manager s'))"
    if "user \<noteq> '''' \<and> userConfigs (manager s) user = Some cf \<and>
       sint (Usage user (manager s)) > sint (quotaBytes cf)" for cf
  proof -
    have "IsExceeded user (manager s)"
      using that mgr_invD(1) [OF i] by (simp add: quota_wf_def flagged_at_def Usage_state_of IsExceeded_state_of)
    with that show ?thesis
      by (auto simp: RoutedConnection_def HasQuota_def Let_def markQuotaExceeded_def QuotaConn_io_def)
  qed
qed

section \<open>A running service\<close>

definition demo_service :: "bool list \<Rightarrow> (string \<times> string) list faulty quota_service" where
  "demo_service fl = \<lparr>manager = demo_manager, persister = Some (RedisPersister mem_redis ''tq''),
     backend = \<lparr>content = [], faults = fl\<rparr>\<rparr>"

lemma demo_service_reach: "reach svc_init svc_step (demo_service fl)"
proof -
  let ?s0 = "\<lparr>manager = demo_manager, persister = None, backend = \<lparr>content = [], faults = fl\<rparr>\<rparr>
    :: (string \<times> string) list faulty quota_service"
  have "reach svc_init svc_step ?s0" by (intro reach_init svc_init.New) (rule demo_new)
  moreover have "svc_step ?s0 (demo_service fl)"
    using svc_step.Init [of ?s0 "\<lambda>_ b. (Inr (RedisPersister mem_redis ''tq''), b)"
        "\<lambda>_ b. (Inr NoopPersister, b)" "Some \<lparr>tqp_Redis = Some \<lparr>tr_KeyPrefix = ''tq''\<rparr>, tqp_Postgres = None\<rparr>"]
    by (simp add: initPersister_def demo_service_def)
  ultimately show ?thesis by (rule reach_step)
qed

theorem RoutedConnection_correct_witness:
  "\<exists>s'. RoutedConnection ''alice'' 7 (demo_service []) = Ret (True, s') \<and>
     QuotaConn_io 7 (1500, None) (manager s') = ((1500, None), AddBytes ''alice'' 1500 (manager s'))"
proof -
  have "HasQuota ''alice'' (manager (demo_service [])) \<and> \<not> IsExceeded ''alice'' (manager (demo_service []))"
    by (simp add: demo_service_def HasQuota_def demo_cfg IsExceeded_def demo_manager_def)
  with RoutedConnection_correct [OF demo_service_reach [of "[]"], of "''alice''" 7] show ?thesis by fastforce
qed

text \<open>Alice opens a connection and transfers 1500 bytes; \<open>fl\<close> schedules the failures of
  the backend.\<close>

definition demo_busy :: "bool list \<Rightarrow> (string \<times> string) list faulty quota_service" where
  "demo_busy fl =
     (case RoutedConnection ''alice'' 7 (demo_service fl) of
        Panic e \<Rightarrow> demo_service fl
      | Ret (r, s) \<Rightarrow> s\<lparr>manager := snd (QuotaConn_io 7 (1500, None) (manager s))\<rparr>)"

lemma demo_busy_props:
  "reach svc_init svc_step (demo_busy fl)" "backend (demo_busy fl) = \<lparr>content = [], faults = fl\<rparr>"
  "persister (demo_busy fl) = Some (RedisPersister mem_redis ''tq'')"
  "pendingDelta (state_of (manager (demo_busy fl)) ''alice'') = 1500"
  "HasQuota ''alice'' (manager (demo_busy fl))"
proof -
  note i = service.reach_inv [OF demo_service_reach [of fl]]
  have h: "''alice'' \<noteq> ''''" "HasQuota ''alice'' (manager (demo_service fl))"
    "\<not> IsExceeded ''alice'' (manager (demo_service fl))"
    by (simp_all add: demo_service_def HasQuota_def demo_cfg IsExceeded_def demo_manager_def)
  from RoutedConnection_tracked [OF i h, of 7] obtain s' l where
    r: "RoutedConnection ''alice'' 7 (demo_service fl) = Ret (True, s')"
      "userConfigs (manager s') = userConfigs (manager (demo_service fl))"
      "\<forall>v. pendingDelta (state_of (manager s') v) = pendingDelta (state_of (manager (demo_service fl)) v)"
      "persister s' = persister (demo_service fl)" "backend s' = backend (demo_service fl)" and
    q: "qconns (manager s') 7 =
      \<lparr>closed = False, closeDone = False, onBytes = Some ''alice'', onClose = Some l\<rparr>"
    by metis
  have fresh: "7 \<notin> set (conns (listStore (manager (demo_service fl)) l))" for l
    by (simp add: demo_service_def demo_manager_def)
  have s': "reach svc_init svc_step s'"
    using demo_service_reach svc_step.Route [OF fresh r(1)] by (rule reach_step)
  have eq: "demo_busy fl = s'\<lparr>manager := AddBytes ''alice'' 1500 (manager s')\<rparr>"
    by (simp add: demo_busy_def r(1) QuotaConn_io_def q)
  have "demo_busy fl = s'\<lparr>manager := snd (QuotaConn_io 7 (1500, None) (manager s'))\<rparr>"
    by (simp add: demo_busy_def r(1))
  then show "reach svc_init svc_step (demo_busy fl)"
    using reach_step [OF s' svc_step.IO [of s' 7 "(1500, None)"]] by simp
  show "backend (demo_busy fl) = \<lparr>content = [], faults = fl\<rparr>"
    "persister (demo_busy fl) = Some (RedisPersister mem_redis ''tq'')"
    using r(4,5) by (simp_all add: eq demo_service_def)
  have c: "userConfigs (manager s') ''alice'' = Some demo_config"
    by (simp add: r(2) demo_service_def demo_cfg)
  note F = AddBytes_fields [OF mgr_invD(2) [OF service.reach_inv [OF s']] c, of 1500]
  show "pendingDelta (state_of (manager (demo_busy fl)) ''alice'') = 1500"
    using F(1) [of "''alice''"] r(3)
    by (simp add: eq demo_service_def demo_manager_def state_of_def zero_state_def)
  show "HasQuota ''alice'' (manager (demo_busy fl))"
    using c F(3) by (simp add: eq HasQuota_def)
qed



end
