(* ===== verification/QuotaContracts.thy ===== *)
theory QuotaContracts
  imports QuotaLedger
begin

text \<open>
  What the callers of the quota service rely on: a flush that reports no error has written
  everything and left usage equal to the stored totals; removing a user deletes the stored
  counter first and changes nothing if that fails; a row of a dynamic source changes the
  quota, clears it or leaves it alone; restored usage survives a restart. A last section
  records an interleaving of traffic and flush after which usage is under-reported.
\<close>

section \<open>A flush without errors\<close>

definition listed :: "(string \<times> string list) list \<Rightarrow> string \<Rightarrow> string \<Rightarrow> bool" where
  "listed xs u k \<longleftrightarrow> (\<exists>us. (k, us) \<in> set xs \<and> u \<in> set us)"

lemma listed_simps [simp]:
  "\<not> listed [] u k"
  "listed ((k', us) # xs) u k \<longleftrightarrow> (k' = k \<and> u \<in> set us) \<or> listed xs u k"
  by (auto simp: listed_def)

lemma listed_add_period [simp]:
  "listed (add_period k u xs) u' k' \<longleftrightarrow> listed xs u' k' \<or> (u' = u \<and> k' = k)"
  by (induction k u xs rule: add_period.induct) auto

lemma listed_mset: "mset ys = mset xs \<Longrightarrow> listed ys u k \<longleftrightarrow> listed xs u k"
  by (simp add: listed_def flip: set_mset_mset)

lemma persist_delta_errs: "length (fs_errs fs) \<le> length (fs_errs (persist_delta P pd fs))"
  by (auto simp: persist_delta_def split: prod.splits option.splits)

lemma fold_persist_errs: "length (fs_errs fs) \<le> length (fs_errs (fold (persist_delta P) active fs))"
  by (induction active arbitrary: fs) (auto intro: order_trans persist_delta_errs)

lemma persist_clean:
  assumes "length (fs_errs (fold (persist_delta P) active fs)) = length (fs_errs fs)"
  shows "fs_manager (fold (persist_delta P) active fs) = fs_manager fs \<and>
    (\<forall>u k. listed (fs_users (fold (persist_delta P) active fs)) u k \<longleftrightarrow>
       listed (fs_users fs) u k \<or> (\<exists>pd \<in> set active. pd_User pd = u \<and> pd_PeriodKey pd = k))"
  using assms
proof (induction active arbitrary: fs)
  case (Cons pd active)
  let ?fs = "persist_delta P pd fs"
  have len: "length (fs_errs ?fs) = length (fs_errs fs)"
    "length (fs_errs (fold (persist_delta P) active ?fs)) = length (fs_errs ?fs)"
    using Cons.prems fold_persist_errs [of ?fs P active] persist_delta_errs [of fs P pd] by simp_all
  have "fs_manager ?fs = fs_manager fs"
    "fs_users ?fs = add_period (pd_PeriodKey pd) (pd_User pd) (fs_users fs)"
    using len(1) by (auto simp: persist_delta_def split: prod.splits option.splits)
  with Cons.IH [OF len(2)] show ?case by auto
qed simp

lemma reload_errs:
  "flush_reload P xs fs = Ret fs' \<Longrightarrow> length (fs_errs fs) \<le> length (fs_errs fs')"
proof (induction xs arbitrary: fs)
  case (Cons x xs)
  obtain k us where x: "x = (k, us)" by fastforce
  obtain y b where l: "p_LoadMany P k us (fs_backend fs) = (y, b)" by fastforce
  show ?case
  proof (cases y)
    case (Inl e)
    with Cons.IH [of "fs\<lparr>fs_backend := b,
      fs_errs := fs_errs fs @ [ECause e [''reload traffic quota totals for period '', k]]\<rparr>"] Cons.prems x l
    show ?thesis by simp
  next
    case (Inr result)
    with Cons.prems x l obtain m where
      "flush_reload P xs (fs\<lparr>fs_manager := m, fs_backend := b\<rparr>) = Ret fs'"
      by (auto simp: go_bind_Ret_iff)
    from Cons.IH [OF this] show ?thesis by simp
  qed
qed simp

text \<open>The usage and the mark of a user agree with a stored total \<open>S\<close>; a zero total says nothing.\<close>

definition settled :: "i64 \<Rightarrow> quota_config \<Rightarrow> string \<Rightarrow> quota_manager \<Rightarrow> bool" where
  "settled S c u m \<longleftrightarrow>
     (S \<noteq> 0 \<longrightarrow> usage (state_of m u) = S \<and> (exceeded (state_of m u) \<longleftrightarrow> sint S > sint (quotaBytes c)))"

lemma LoadUsage_state:
  assumes "wf0 m" and "LoadUsage w v m = Ret m'"
  shows "pendingDelta (state_of m' u) = pendingDelta (state_of m u)"
    and "u \<noteq> w \<Longrightarrow> state_of m' u = state_of m u"
    and "userConfigs m w = Some c \<Longrightarrow> settled v c w m'"
proof -
  have "pendingDelta (state_of m' u) = pendingDelta (state_of m u) \<and>
    (u \<noteq> w \<longrightarrow> state_of m' u = state_of m u) \<and> (userConfigs m w = Some c \<longrightarrow> settled v c w m')"
  proof (cases "userConfigs m w")
    case None
    with assms(2) show ?thesis by (simp add: LoadUsage_def)
  next
    case (Some cf)
    from assms(2) show ?thesis
      unfolding LoadUsage_eq [OF assms(1) Some] Let_def go.inject
      by (auto simp: settled_def Some split: if_splits)
  qed
  then show "pendingDelta (state_of m' u) = pendingDelta (state_of m u)"
    "u \<noteq> w \<Longrightarrow> state_of m' u = state_of m u" "userConfigs m w = Some c \<Longrightarrow> settled v c w m'" by blast+
qed

lemma load_usages_settled:
  assumes "mgr_inv m" and "load_usages us result m = Ret m'" and "userConfigs m u = Some c"
    and "\<And>v. u \<in> set us \<Longrightarrow> result u = Some v \<Longrightarrow> v = S"
    and "(u \<in> set us \<and> result u \<noteq> None) \<or> settled S c u m"
  shows "settled S c u m' \<and> (\<forall>w. pendingDelta (state_of m' w) = pendingDelta (state_of m w))"
  using assms
proof (induction us arbitrary: m)
  case (Cons w us)
  show ?case
  proof (cases "result w")
    case None
    with Cons.prems Cons.IH [of m] show ?thesis by (auto split: if_splits)
  next
    case (Some v)
    with Cons.prems(2) obtain m1 where m1: "LoadUsage w v m = Ret m1" "load_usages us result m1 = Ret m'"
      by (auto simp: go_bind_Ret_iff)
    have k: "keeps_keys m m1" using LoadUsage_keeps(1) [OF Cons.prems(1) m1(1)] .
    then have inv: "mgr_inv m1" "userConfigs m1 u = Some c" using Cons.prems(3) by (simp_all add: keeps_keys_def)
    note L = LoadUsage_state [OF mgr_invD(2) [OF Cons.prems(1)] m1(1)]
    have "(u \<in> set us \<and> result u \<noteq> None) \<or> settled S c u m1"
    proof (cases "u = w")
      case True
      with Some Cons.prems(4) [of v] have "v = S" by simp
      with L(3) [of c] True Cons.prems(3) show ?thesis by simp
    next
      case False
      with Cons.prems(5) L(2) [of u] show ?thesis by (auto simp: settled_def)
    qed
    from Cons.IH [OF inv(1) m1(2) inv(2) _ this] Cons.prems(4) L(1) show ?thesis by simp
  qed
qed simp

lemma load_usages_keys: "mgr_inv m \<Longrightarrow> load_usages us result m = Ret m' \<Longrightarrow> keeps_keys m m'"
  by (rule load_usages_keeps [THEN conjunct1])

lemma load_usages_pending:
  assumes "mgr_inv m" and "load_usages us result m = Ret m'"
  shows "pendingDelta (state_of m' w) = pendingDelta (state_of m w)"
  using assms
proof (induction us arbitrary: m)
  case (Cons u us)
  show ?case
  proof (cases "result u")
    case (Some v)
    with Cons.prems(2) obtain m1 where m1: "LoadUsage u v m = Ret m1" "load_usages us result m1 = Ret m'"
      by (auto simp: go_bind_Ret_iff)
    have "mgr_inv m1" using LoadUsage_keeps(1) [OF Cons.prems(1) m1(1)] by (simp add: keeps_keys_def)
    from Cons.IH [OF this m1(2)] LoadUsage_state(1) [OF mgr_invD(2) [OF Cons.prems(1)] m1(1)]
    show ?thesis by simp
  qed (use Cons in simp)
qed simp

lemma reload_pending:
  assumes "mgr_inv (fs_manager fs)" and "flush_reload P xs fs = Ret fs'"
  shows "pendingDelta (state_of (fs_manager fs') w) = pendingDelta (state_of (fs_manager fs) w)"
  using assms
proof (induction xs arbitrary: fs)
  case (Cons x xs)
  obtain k us where x: "x = (k, us)" by fastforce
  obtain y b where l: "p_LoadMany P k us (fs_backend fs) = (y, b)" by fastforce
  show ?case
  proof (cases y)
    case (Inl e)
    let ?fs = "fs\<lparr>fs_backend := b,
      fs_errs := fs_errs fs @ [ECause e [''reload traffic quota totals for period '', k]]\<rparr>"
    from Inl Cons.IH [of ?fs] Cons.prems x l show ?thesis by simp
  next
    case (Inr result)
    with Cons.prems x l obtain m where m: "load_usages us result (fs_manager fs) = Ret m"
      "flush_reload P xs (fs\<lparr>fs_manager := m, fs_backend := b\<rparr>) = Ret fs'"
      by (auto simp: go_bind_Ret_iff)
    have "mgr_inv m" using load_usages_keys [OF Cons.prems(1) m(1)] by (simp add: keeps_keys_def)
    with Cons.IH [OF _ m(2)] load_usages_pending [OF Cons.prems(1) m(1)] show ?thesis by simp
  qed
qed simp

context durable_backend
begin

lemma reload_settled:
  assumes "mgr_inv (fs_manager fs)" and "flush_reload P xs fs = Ret fs'"
    and "length (fs_errs fs') = length (fs_errs fs)" and "userConfigs (fs_manager fs) u = Some c"
    and "\<And>k'. listed xs u k' \<Longrightarrow> k' = k" and "S = stored (fs_backend fs) u k"
    and "listed xs u k \<or> settled S c u (fs_manager fs)"
  shows "settled S c u (fs_manager fs')"
  using assms
proof (induction xs arbitrary: fs)
  case (Cons x xs)
  obtain k' us where x: "x = (k', us)" by fastforce
  obtain y b where l: "p_LoadMany P k' us (fs_backend fs) = (y, b)" by fastforce
  show ?case
  proof (cases y)
    case (Inl e)
    let ?fs = "fs\<lparr>fs_backend := b,
      fs_errs := fs_errs fs @ [ECause e [''reload traffic quota totals for period '', k']]\<rparr>"
    from Inl Cons.prems(2,3) x l reload_errs [of P xs ?fs fs'] show ?thesis by simp
  next
    case (Inr result)
    with Cons.prems(2) x l obtain m where m: "load_usages us result (fs_manager fs) = Ret m"
      "flush_reload P xs (fs\<lparr>fs_manager := m, fs_backend := b\<rparr>) = Ret fs'"
      by (auto simp: go_bind_Ret_iff)
    note many = LoadMany [OF l]
    have keep: "mgr_inv m" "userConfigs m u = Some c"
      using load_usages_keys [OF Cons.prems(1) m(1)] Cons.prems(4) by (simp_all add: keeps_keys_def)
    have here: "k' = k" if "u \<in> set us" using Cons.prems(5) [of k'] that by (simp add: x)
    have val: "v = S" if "u \<in> set us" "result u = Some v" for v
      using here [OF that(1)] many Inr that(2) Cons.prems(6) by simp
    have "S = 0" if "u \<in> set us" "result u = None"
      using here [OF that(1)] LoadMany_absent [of k' us "fs_backend fs" result b u] l Inr that Cons.prems(6)
      by simp
    then have "settled S c u m \<or> listed xs u k"
      using load_usages_settled [OF Cons.prems(1) m(1) Cons.prems(4) val] Cons.prems(7)
      by (cases "u \<in> set us"; cases "result u") (auto simp: x settled_def)
    moreover have "k'' = k" if "listed xs u k''" for k'' using Cons.prems(5) [of k''] that by (simp add: x)
    ultimately show ?thesis
      using Cons.IH [OF _ m(2)] keep Cons.prems(3,6) many by auto
  qed
qed simp

lemma flush_settles_user:
  assumes "mgr_inv m" and "\<And>k. colon_free k \<Longrightarrow> good_key k"
    and "flush_take m = (active, m1)" and "fs = flush_persist P active m1 b"
    and "\<And>xs. mset (ord xs) = mset xs"
    and "flush_reload P (ord (fs_users fs)) fs = Ret fs'" and "fs_errs fs' = []"
    and "userConfigs m u = Some c" and "k = stateKey (state_of m u)" and "pendingDelta (state_of m u) \<noteq> 0"
  shows "stored (fs_backend fs') u k = stored b u k + pendingDelta (state_of m u) \<and>
    settled (stored (fs_backend fs') u k) c u (fs_manager fs') \<and>
    pendingDelta (state_of (fs_manager fs') u) = 0"
proof -
  note T = take_ledger [OF assms(1,3)] and E = flush_take_entry [OF assms(1,3)]
  have act: "active = deltas_of (dirtyQueue m) m"
    using assms(3) flush_take_eq [OF assms(1)] by simp
  have pend1: "pendingDelta (state_of m1 w) = 0" for w
    using assms(3) mgr_invD(4,5) [OF assms(1)] flush_take_eq [OF assms(1)]
    by (auto simp: ConsumePendingDeltas_eq state_of_drained pending_ok_def)
  let ?fs0 = "\<lparr>fs_manager = m1, fs_backend = b, fs_errs = [], fs_users = []\<rparr>"
  have "length (fs_errs fs) = 0" using reload_errs [OF assms(6)] assms(7) by simp
  with persist_clean [of P active ?fs0] assms(4)
  have clean: "fs_manager fs = m1" "fs_errs fs = []"
    "\<And>w k. listed (fs_users fs) w k \<longleftrightarrow> (\<exists>pd \<in> set active. pd_User pd = w \<and> pd_PeriodKey pd = k)"
    by (auto simp: flush_persist_def)
  have inv: "mgr_inv (fs_manager fs)" using clean T(4) by simp
  have lst: "listed (ord (fs_users fs)) w k' \<longleftrightarrow> (\<exists>pd \<in> set active. pd_User pd = w \<and> pd_PeriodKey pd = k')" for w k'
    using clean(3) listed_mset [OF assms(5)] by simp
  have only: "k' = k" if "listed (ord (fs_users fs)) u k'" for k'
    using that E(1) unfolding lst assms(9) by auto
  have "states m u \<noteq> None"
    using assms(10) by (cases "states m u") (simp_all add: state_of_def zero_state_def)
  moreover have "u \<in> dirtySet m" using assms(10) mgr_invD(5) [OF assms(1)] by (simp add: pending_ok_def)
  ultimately have "\<exists>pd \<in> set active. pd_User pd = u \<and> pd_PeriodKey pd = k"
    using mgr_invD(4) [OF assms(1)] assms(9,10)
    by (force simp: act Bex_def set_deltas_of dirty_ok_def state_of_def)
  then have here: "listed (ord (fs_users fs)) u k" unfolding lst .
  have cfg: "userConfigs (fs_manager fs) u = Some c" using clean(1) T(3) assms(8) by simp
  note R = reload_ledger [OF inv assms(6), of u k]
  have "settled (stored (fs_backend fs) u k) c u (fs_manager fs')"
    by (rule reload_settled [OF inv assms(6) _ cfg only]) (use here clean assms(7) in simp_all)
  moreover have p': "pendingDelta (state_of (fs_manager fs') u) = 0"
    using reload_pending [OF inv assms(6)] pend1 clean(1) by simp
  moreover have "stored (fs_backend fs') u k = stored b u k + pendingDelta (state_of m u)"
  proof -
    have gk: "good_key k" using mgr_invD(3) [OF assms(1)] assms(2,9) by (simp add: keys_ok_def)
    from assms(4,6) have "fs = flush_persist P active (traffic [] m1) b"
      "flush_reload P (ord (fs_users fs)) (fs\<lparr>fs_manager := traffic [] (fs_manager fs)\<rparr>) = Ret fs'"
      by (simp_all add: traffic_def)
    note L = flush_ledger [OF assms(1,2) gk assms(3) this, of u]
    have "counted ([] @ []) m u = 0" by (simp add: counted_def)
    from L [unfolded this total_def] p' show ?thesis by (simp add: assms(9) split: if_splits)
  qed
  ultimately show ?thesis using R by simp
qed

end

text \<open>
  A flush that reports no error. With a durable backend, if \<open>flushPending\<close> of a reachable
  service returns nil, then for every user that had unflushed bytes the stored total has grown
  by exactly those bytes, nothing is pending any more, and (unless the total is zero, which
  backends may not report) the usage is the stored total and the user is marked exceeded
  exactly when the total is above the quota. The order in which the periods are reloaded does
  not matter.
\<close>

theorem flush_without_error:
  assumes "durable_backend P stored good_key" and "\<And>k. colon_free k \<Longrightarrow> good_key k"
    and "reach svc_init svc_step s" and "persister s = Some P"
    and "\<And>xs. mset (ord xs) = mset xs" and "flushPending ord s = Ret (None, s')"
    and "userConfigs (manager s) u = Some c" and "pendingDelta (state_of (manager s) u) \<noteq> 0"
    and "k = stateKey (state_of (manager s) u)"
  shows "stored (backend s') u k = stored (backend s) u k + pendingDelta (state_of (manager s) u) \<and>
    pendingDelta (state_of (manager s') u) = 0 \<and>
    (stored (backend s') u k \<noteq> 0 \<longrightarrow>
       Usage u (manager s') = stored (backend s') u k \<and>
       (IsExceeded u (manager s') \<longleftrightarrow> sint (stored (backend s') u k) > sint (quotaBytes c)))"
proof -
  note i = service.reach_inv [OF assms(3)]
  obtain active m1 where t: "flush_take (manager s) = (active, m1)" by fastforce
  have "active \<noteq> []"
  proof
    assume "active = []"
    then have "total (\<lambda>_ _ _. 0) () m1 u k = total (\<lambda>_ _ _. 0) () (manager s) u k"
      using take_ledger(1) [OF i t, of "\<lambda>_ _ _. 0" "()" u k] by (simp add: in_flight_def)
    moreover have "pendingDelta (state_of m1 u) = 0"
      using t mgr_invD(4,5) [OF i] flush_take_eq [OF i]
      by (auto simp: ConsumePendingDeltas_eq state_of_drained pending_ok_def)
    ultimately show False using assms(8,9) by (simp add: total_def split: if_splits)
  qed
  moreover define fs where "fs = flush_persist P active m1 (backend s)"
  ultimately obtain fs' where r: "flush_reload P (ord (fs_users fs)) fs = Ret fs'"
    "fs_errs fs' = []" "manager s' = fs_manager fs'" "backend s' = fs_backend fs'"
    using assms(4,6) t by (auto simp: flushPending_def Let_def go_bind_Ret_iff)
  from durable_backend.flush_settles_user [OF assms(1) i assms(2) t fs_def assms(5) r(1,2) assms(7,9,8)]
  show ?thesis by (simp add: r settled_def Usage_state_of IsExceeded_state_of)
qed

lemma demo_busy_only:
  "userConfigs (manager (demo_busy fl)) = userConfigs demo_manager"
proof -
  note i = service.reach_inv [OF demo_service_reach [of fl]]
  have h: "''alice'' \<noteq> ''''" "HasQuota ''alice'' (manager (demo_service fl))"
    "\<not> IsExceeded ''alice'' (manager (demo_service fl))"
    by (simp_all add: demo_service_def HasQuota_def demo_cfg IsExceeded_def demo_manager_def)
  from RoutedConnection_tracked [OF i h, of 7] obtain s' l where
    r: "RoutedConnection ''alice'' 7 (demo_service fl) = Ret (True, s')"
      "userConfigs (manager s') = userConfigs (manager (demo_service fl))" and
    q: "qconns (manager s') 7 =
      \<lparr>closed = False, closeDone = False, onBytes = Some ''alice'', onClose = Some l\<rparr>"
    by metis
  have fresh: "7 \<notin> set (conns (listStore (manager (demo_service fl)) l))" for l
    by (simp add: demo_service_def demo_manager_def)
  have "mgr_inv (manager s')" using svc_step_inv [OF i svc_step.Route [OF fresh r(1)]] .
  then have "userConfigs (AddBytes ''alice'' 1500 (manager s')) = userConfigs (manager s')"
    by (rule AddBytes_ledger(4))
  then have "userConfigs (manager (demo_busy fl)) = userConfigs (manager (demo_service fl))"
    by (simp add: demo_busy_def r QuotaConn_io_def q)
  then show ?thesis by (simp add: demo_service_def)
qed

lemma demo_busy_active:
  "fst (flush_take (manager (demo_busy fl))) =
     [\<lparr>pd_User = ''alice'', pd_PeriodKey = stateKey (state_of (manager (demo_busy fl)) ''alice''),
       pd_Delta = 1500\<rparr>]"
proof -
  let ?m = "manager (demo_busy fl)"
  note i = service.reach_inv [OF demo_busy_props(1) [of fl]]
  obtain active m1 where t: "flush_take ?m = (active, m1)" by fastforce
  have act: "active = deltas_of (dirtyQueue ?m) ?m" using t flush_take_eq [OF i] by simp
  let ?pd = "\<lparr>pd_User = ''alice'', pd_PeriodKey = stateKey (state_of ?m ''alice''), pd_Delta = 1500\<rparr>"
  have "pd = ?pd" if "pd \<in> set active" for pd
  proof -
    have "pd_User pd = ''alice''"
      using flush_take_entry(5) [OF i t that]
      by (simp add: HasQuota_def demo_busy_only demo_manager_def split: if_splits)
    then show ?thesis
      using flush_take_entry(1,2) [OF i t that] demo_busy_props(4) by simp
  qed
  moreover have "distinct active"
    using distinct_deltas_of [of "dirtyQueue ?m" ?m] mgr_invD(4) [OF i]
    by (simp add: act dirty_ok_def distinct_map)
  moreover have "active \<noteq> []"
  proof
    assume "active = []"
    then have "total (\<lambda>_ _ _. 0) () m1 ''alice'' (stateKey (state_of ?m ''alice'')) = 1500"
      using take_ledger(1) [OF i t, of "\<lambda>_ _ _. 0" "()" "''alice''" "stateKey (state_of ?m ''alice'')"]
        demo_busy_props(4) by (simp add: in_flight_def total_def)
    moreover have "pendingDelta (state_of m1 ''alice'') = 0"
      using t mgr_invD(4,5) [OF i] flush_take_eq [OF i]
      by (auto simp: ConsumePendingDeltas_eq state_of_drained pending_ok_def)
    ultimately show False by (simp add: total_def split: if_splits)
  qed
  ultimately have "active = [?pd]" by (cases active; cases "tl active") auto
  then show ?thesis using t by simp
qed

lemma demo_flush: "\<exists>s'. flushPending id (demo_busy []) = Ret (None, s')"
proof -
  let ?s = "demo_busy []" and ?P = "RedisPersister mem_redis ''tq''"
  let ?k = "stateKey (state_of (manager ?s) ''alice'')"
  let ?key = "redis_key ''tq'' ''alice'' ?k"
  obtain active m1 where t: "flush_take (manager ?s) = (active, m1)" by fastforce
  have act: "active = [\<lparr>pd_User = ''alice'', pd_PeriodKey = ?k, pd_Delta = 1500\<rparr>]"
    using demo_busy_active [of "[]"] t by simp
  have m1: "mgr_inv m1" using take_ledger(4) [OF service.reach_inv [OF demo_busy_props(1)] t] .
  let ?db = "\<lparr>content = [(?key, itoa 1500)], faults = []\<rparr>"
  have fs: "flush_persist ?P active m1 (backend ?s) =
      \<lparr>fs_manager = m1, fs_backend = ?db, fs_errs = [], fs_users = [(?k, [''alice''])]\<rparr>"
    by (simp add: act flush_persist_def persist_delta_def demo_busy_props RedisPersister_def
        mem_redis_def with_fault_def)
  have "p_LoadMany ?P ?k [''alice''] ?db = (Inr [''alice'' \<mapsto> 1500], ?db)"
    by (simp add: RedisPersister_def redis_LoadMany_def load_batches.simps loadManyBatchSize_def
        redis_batch_def mem_redis_def with_fault_def parse_int64_itoa)
  moreover obtain m2 where "LoadUsage ''alice'' 1500 m1 = Ret m2" using mgr_LoadUsage [OF m1] by metis
  moreover have "active \<noteq> []" by (simp add: act)
  ultimately show ?thesis
    by (simp add: flushPending_def demo_busy_props(3) t fs Let_def errors_of_def)
qed

theorem flush_without_error_witness:
  "\<exists>s'. flushPending id (demo_busy []) = Ret (None, s') \<and>
     redis_stored (\<lambda>s. map_of (content s)) ''tq'' (backend s') ''alice''
       (stateKey (state_of (manager (demo_busy [])) ''alice'')) = 1500 \<and>
     Usage ''alice'' (manager s') = 1500 \<and> \<not> IsExceeded ''alice'' (manager s')"
proof -
  obtain s' where s': "flushPending id (demo_busy []) = Ret (None, s')" using demo_flush by blast
  let ?st = "redis_stored (\<lambda>s. map_of (content s)) ''tq''"
  let ?k = "stateKey (state_of (manager (demo_busy [])) ''alice'')"
  have c: "userConfigs (manager (demo_busy [])) ''alice'' = Some demo_config"
    by (simp add: demo_busy_only demo_cfg)
  have "?st (backend s') ''alice'' ?k = ?st (backend (demo_busy [])) ''alice'' ?k + 1500 \<and>
    pendingDelta (state_of (manager s') ''alice'') = 0 \<and>
    (?st (backend s') ''alice'' ?k \<noteq> 0 \<longrightarrow>
       Usage ''alice'' (manager s') = ?st (backend s') ''alice'' ?k \<and>
       (IsExceeded ''alice'' (manager s') \<longleftrightarrow>
          sint (?st (backend s') ''alice'' ?k) > sint (quotaBytes demo_config)))"
    using flush_without_error [OF redis.redis_durable [of "''tq''"] _ demo_busy_props(1)
        demo_busy_props(3) _ s' c _ refl] demo_busy_props(4) by simp
  moreover have "?st (backend (demo_busy [])) ''alice'' ?k = 0"
    by (simp add: demo_busy_props redis_stored_def redis_value_def)
  ultimately show ?thesis using s' by (simp add: demo_config_def)
qed

section \<open>Removing a user\<close>

lemma setKey_fields:
  "usage (state_of (upd_state u (setPeriodKeyIfEmpty k) m) v) = usage (state_of m v)"
  "pendingDelta (state_of (upd_state u (setPeriodKeyIfEmpty k) m) v) = pendingDelta (state_of m v)"
  "exceeded (state_of (upd_state u (setPeriodKeyIfEmpty k) m) v) = exceeded (state_of m v)"
  by auto

text \<open>
  Removing a user through the service. The stored counter of the user's current period is
  deleted before the manager forgets the user. If the backend refuses, the error is returned,
  nothing is stored differently, and every user keeps configuration, usage, unflushed bytes
  and mark. Otherwise the user is gone from the manager, the counter reads zero, and every
  other counter is as it was.
\<close>

theorem removeConfigLocked_correct:
  assumes "durable_backend P stored good_key" and "\<And>k. colon_free k \<Longrightarrow> good_key k"
    and "reach svc_init svc_step s" and "persister s = Some P"
    and "userConfigs (manager s) u = Some c" and "u \<noteq> ''''"
  shows "\<exists>r s' k. removeConfigLocked u s = Ret (r, s') \<and>
    k = (if stateKey (state_of (manager s) u) = '''' then key_of c (now (manager s))
         else stateKey (state_of (manager s) u)) \<and>
    (r \<noteq> None \<longrightarrow>
       userConfigs (manager s') = userConfigs (manager s) \<and>
       (\<forall>v. Usage v (manager s') = Usage v (manager s) \<and>
          IsExceeded v (manager s') = IsExceeded v (manager s) \<and>
          pendingDelta (state_of (manager s') v) = pendingDelta (state_of (manager s) v)) \<and>
       (\<forall>v k'. good_key k' \<longrightarrow> stored (backend s') v k' = stored (backend s) v k')) \<and>
    (r = None \<longrightarrow>
       \<not> HasQuota u (manager s') \<and> Status u (manager s') = None \<and>
       stored (backend s') u k = 0 \<and>
       (\<forall>v k'. good_key k' \<and> (v, k') \<noteq> (u, k) \<longrightarrow> stored (backend s') v k' = stored (backend s) v k'))"
proof -
  note i = service.reach_inv [OF assms(3)]
  let ?m = "manager s" and ?f = "setPeriodKeyIfEmpty (key_of c (now (manager s)))"
  define k where "k = stateKey (?f (state_of ?m u))"
  define m where "m = upd_state u ?f ?m"
  have cur: "CurrentPeriodKey u ?m = Ret (k, m)"
    unfolding k_def m_def using CurrentPeriodKey_eq [OF mgr_invD(2) [OF i] assms(5)] .
  have gk: "good_key k" using keyed(1) [OF mgr_invD(3,2) [OF i] assms(5)] assms(2) by (simp add: k_def)
  have keq: "k = (if stateKey (state_of ?m u) = '''' then key_of c (now ?m) else stateKey (state_of ?m u))"
    by (simp add: k_def setPeriodKeyIfEmpty_def)
  have same: "userConfigs m = userConfigs ?m"
    "Usage v m = Usage v ?m \<and> IsExceeded v m = IsExceeded v ?m \<and>
     pendingDelta (state_of m v) = pendingDelta (state_of ?m v)" for v
    unfolding m_def Usage_state_of IsExceeded_state_of by (simp_all only: setKey_fields upd_state_fields)
  obtain e b where d: "p_Delete P u k (backend s) = (e, b)" by fastforce
  note D = durable_backend.Delete [OF assms(1) gk d]
  have has: "HasQuota u ?m" using assms(5) by (simp add: HasQuota_def)
  show ?thesis
  proof (cases e)
    case (Some err)
    then have "removeConfigLocked u s = Ret (Some err, s\<lparr>manager := m, backend := b\<rparr>)"
      using assms(4) has cur d by (simp add: removeConfigLocked_def)
    moreover have "\<forall>v k'. good_key k' \<longrightarrow> stored b v k' = stored (backend s) v k'"
      using D Some by simp
    ultimately show ?thesis
      by (intro exI [of _ "Some err"] exI [of _ "s\<lparr>manager := m, backend := b\<rparr>"] exI [of _ k] conjI keq)
         (use same in simp_all)
  next
    case None
    obtain m' where m': "RemoveConfig u m = (None, m')" "userConfigs m' = (userConfigs m)(u := None)"
      using RemoveConfig_fields(1,2) [OF assms(6)] by metis
    have "removeConfigLocked u s = Ret (None, s\<lparr>manager := m', backend := b\<rparr>)"
      using assms(4) has cur d None m' by (simp add: removeConfigLocked_def)
    moreover have "stored b u k = 0" using D [OF gk, of u] None by simp
    moreover have "\<forall>v k'. good_key k' \<and> (v, k') \<noteq> (u, k) \<longrightarrow> stored b v k' = stored (backend s) v k'"
      using D None by auto
    ultimately show ?thesis
      by (intro exI [of _ None] exI [of _ "s\<lparr>manager := m', backend := b\<rparr>"] exI [of _ k] conjI keq)
         (use m'(2) in \<open>simp_all add: HasQuota_def Status_def\<close>)
  qed
qed

theorem removeConfigLocked_correct_witness:
  "\<exists>r s'. removeConfigLocked ''alice'' (demo_busy [True]) = Ret (r, s') \<and>
     (r \<noteq> None \<longrightarrow> Usage ''alice'' (manager s') = Usage ''alice'' (manager (demo_busy [True]))) \<and>
     (r = None \<longrightarrow> \<not> HasQuota ''alice'' (manager s'))"
proof -
  have c: "userConfigs (manager (demo_busy [True])) ''alice'' = Some demo_config"
    by (simp add: demo_busy_only demo_cfg)
  from removeConfigLocked_correct [OF redis.redis_durable [of "''tq''"] _ demo_busy_props(1)
      demo_busy_props(3) c] show ?thesis by fastforce
qed

section \<open>Restarting\<close>

definition healthy :: "'p persister \<Rightarrow> 'p \<Rightarrow> bool" where
  "healthy P b \<longleftrightarrow> (\<forall>u k. \<exists>v. p_Load P u k b = (Inr v, b))"

definition current_key :: "quota_config \<Rightarrow> quota_manager \<Rightarrow> string \<Rightarrow> string" where
  "current_key c m u = (if stateKey (state_of m u) = '''' then key_of c (now m) else stateKey (state_of m u))"

lemma LoadUsage_exact:
  assumes "wf0 m" and "userConfigs m u = Some c" and "LoadUsage u v m = Ret m'"
  shows "Usage u m' = v" and "IsExceeded u m' \<longleftrightarrow> sint v > sint (quotaBytes c)" and "now m' = now m"
  using assms(3) unfolding LoadUsage_eq [OF assms(1,2)] Let_def go.inject
  by (auto simp: Usage_state_of IsExceeded_state_of split: if_splits)

context quota_backend
begin

lemma reload_user_exact:
  assumes "mgr_inv (manager s)" and "userConfigs (manager s) u = Some c" and "healthy P (backend s)"
  obtains s' where "reload_user P u s = Ret s'" "mgr_inv (manager s')" "backend s' = backend s"
    "userConfigs (manager s') = userConfigs (manager s)" "now (manager s') = now (manager s)"
    "Usage u (manager s') = stored (backend s) u (current_key c (manager s) u)"
    "IsExceeded u (manager s') \<longleftrightarrow> sint (Usage u (manager s')) > sint (quotaBytes c)"
    "\<And>v. v \<noteq> u \<Longrightarrow> state_of (manager s') v = state_of (manager s) v"
proof -
  let ?m = "manager s" and ?k = "current_key c (manager s) u"
  let ?m1 = "upd_state u (setPeriodKeyIfEmpty (key_of c (now ?m))) ?m"
  have cur: "CurrentPeriodKey u ?m = Ret (?k, ?m1)"
    using CurrentPeriodKey_eq [OF mgr_invD(2) [OF assms(1)] assms(2)]
    by (simp add: current_key_def setPeriodKeyIfEmpty_def)
  have "HasQuota u ?m" using assms(2) by (simp add: HasQuota_def)
  then have m1: "mgr_inv ?m1" using mgr_CurrentPeriodKey [OF assms(1)] cur by (metis go.inject(2) prod.inject)
  obtain v where v: "p_Load P u ?k (backend s) = (Inr v, backend s)" using assms(3) by (auto simp: healthy_def)
  then have vs: "v = stored (backend s) u ?k" using Load by blast
  obtain m' where l: "LoadUsage u v ?m1 = Ret m'" "mgr_inv m'" "userConfigs m' = userConfigs ?m1"
    using mgr_LoadUsage [OF m1] by metis
  have cfg1: "userConfigs ?m1 u = Some c" using assms(2) by simp
  note E = LoadUsage_exact [OF mgr_invD(2) [OF m1] cfg1 l(1)]
  have "reload_user P u s = Ret (s\<lparr>manager := m', backend := backend s\<rparr>)"
    using cur v l(1) by (simp add: reload_user_def)
  then show ?thesis
    by (rule that) (use l E vs LoadUsage_state(2) [OF mgr_invD(2) [OF m1] l(1)] in simp_all)
qed

lemma reload_users_exact:
  assumes "mgr_inv (manager s)" and "distinct us" and "healthy P (backend s)"
    and "\<And>u. u \<in> set us \<Longrightarrow> HasQuota u (manager s)"
  shows "\<exists>s'. reload_users P us s = Ret s' \<and> backend s' = backend s \<and>
    (\<forall>u. u \<notin> set us \<longrightarrow> state_of (manager s') u = state_of (manager s) u) \<and>
    (\<forall>u c. u \<in> set us \<and> userConfigs (manager s) u = Some c \<longrightarrow>
       Usage u (manager s') = stored (backend s) u (current_key c (manager s) u) \<and>
       (IsExceeded u (manager s') \<longleftrightarrow> sint (Usage u (manager s')) > sint (quotaBytes c)))"
  using assms
proof (induction us arbitrary: s)
  case (Cons w us)
  obtain cw where cw: "userConfigs (manager s) w = Some cw"
    using Cons.prems(4) [of w] by (auto simp: HasQuota_def)
  obtain s1 where s1: "reload_user P w s = Ret s1" "mgr_inv (manager s1)" "backend s1 = backend s"
    "userConfigs (manager s1) = userConfigs (manager s)" "now (manager s1) = now (manager s)"
    "Usage w (manager s1) = stored (backend s) w (current_key cw (manager s) w)"
    "IsExceeded w (manager s1) \<longleftrightarrow> sint (Usage w (manager s1)) > sint (quotaBytes cw)"
    "\<forall>v. v \<noteq> w \<longrightarrow> state_of (manager s1) v = state_of (manager s) v"
    using reload_user_exact [OF Cons.prems(1) cw Cons.prems(3)] by metis
  have "HasQuota v (manager s1)" if "v \<in> set us" for v
    using Cons.prems(4) [of v] that s1(4) by (simp add: HasQuota_def)
  with Cons.IH [OF s1(2)] Cons.prems(2,3) s1(3) obtain s' where
    s': "reload_users P us s1 = Ret s'" "backend s' = backend s"
      "\<forall>u. u \<notin> set us \<longrightarrow> state_of (manager s') u = state_of (manager s1) u"
      "\<forall>u c. u \<in> set us \<and> userConfigs (manager s1) u = Some c \<longrightarrow>
         Usage u (manager s') = stored (backend s) u (current_key c (manager s1) u) \<and>
         (IsExceeded u (manager s') \<longleftrightarrow> sint (Usage u (manager s')) > sint (quotaBytes c))"
    by auto
  have w: "state_of (manager s') w = state_of (manager s1) w" using s'(3) Cons.prems(2) by simp
  have k: "u \<in> set us \<Longrightarrow> current_key c (manager s1) u = current_key c (manager s) u" for u c
    using s1(5,8) Cons.prems(2) by (auto simp: current_key_def)
  show ?case
  proof (intro exI [of _ s'] conjI)
    show "reload_users P (w # us) s = Ret s'" using s1(1) s'(1) by simp
    show "\<forall>u. u \<notin> set (w # us) \<longrightarrow> state_of (manager s') u = state_of (manager s) u"
      using s'(3) s1(8) by simp
    show "\<forall>u c. u \<in> set (w # us) \<and> userConfigs (manager s) u = Some c \<longrightarrow>
       Usage u (manager s') = stored (backend s) u (current_key c (manager s) u) \<and>
       (IsExceeded u (manager s') \<longleftrightarrow> sint (Usage u (manager s')) > sint (quotaBytes c))"
      using s'(4) s1(4,6,7) k w cw by (auto simp: Usage_state_of IsExceeded_state_of)
  qed (rule s'(2))
qed simp

end

text \<open>
  C24. Restart. When the backend answers, \<open>restoreUsage\<close> gives every configured user the usage
  that is stored for the user's current period and marks the user exceeded exactly when that
  is above the quota, whatever order the users are visited in; nothing stored changes. So a
  restart neither forgets usage nor lifts a block.
\<close>

theorem restart_restores_usage:
  assumes "quota_backend P stored" and "healthy P (backend s)"
    and "reach svc_init svc_step s" and "persister s = Some P"
    and "range_order order (userConfigs (manager s))"
  shows "\<exists>s'. restoreUsage order s = Ret s' \<and> backend s' = backend s \<and>
    (\<forall>u c. userConfigs (manager s) u = Some c \<longrightarrow>
       Usage u (manager s') = stored (backend s) u (current_key c (manager s) u) \<and>
       (IsExceeded u (manager s') \<longleftrightarrow> sint (Usage u (manager s')) > sint (quotaBytes c)))"
proof -
  have ord: "u \<in> set order \<longleftrightarrow> HasQuota u (manager s)" for u
    using assms(5) by (auto simp: range_order_def HasQuota_def)
  from quota_backend.reload_users_exact [OF assms(1) service.reach_inv [OF assms(3)] _ assms(2), of order]
    range_orderD(1) [OF assms(5)] ord
  show ?thesis using assms(4) by (auto simp: restoreUsage_def HasQuota_def)
qed

theorem restart_restores_usage_witness:
  "\<exists>s'. restoreUsage [''alice''] (demo_service []) = Ret s' \<and> Usage ''alice'' (manager s') = 0"
proof -
  let ?P = "RedisPersister mem_redis ''tq''" and ?st = "redis_stored (\<lambda>s. map_of (content s)) ''tq''"
  have h: "healthy ?P (backend (demo_service []))"
    by (simp add: healthy_def demo_service_def RedisPersister_def redis_Load_def mem_redis_def with_fault_def)
  have o': "range_order [''alice''] (userConfigs (manager (demo_service [])))"
    by (simp add: range_order_def demo_service_def demo_manager_def)
  have b: "quota_backend ?P ?st" using redis.redis_durable by (rule durable_backend.axioms(1))
  have p: "persister (demo_service []) = Some ?P" by (simp add: demo_service_def)
  have c: "userConfigs (manager (demo_service [])) ''alice'' = Some demo_config"
    by (simp add: demo_service_def demo_cfg)
  from restart_restores_usage [OF b h demo_service_reach p o'] c show ?thesis
    by (fastforce simp: demo_service_def redis_stored_def redis_value_def)
qed

section \<open>Traffic between writing and reloading\<close>

text \<open>
  The reload phase replaces the usage by the stored total without regard to bytes that
  arrived after the write. If those bytes took the user over the quota, the reload lifts the
  mark again although stored and pending bytes together exceed the quota; the next flush
  restores it.
\<close>

lemma reload_lifts_mark:
  assumes "mgr_inv m" and "userConfigs m u = Some c" and "0 < n"
    and "0 \<le> sint (Usage u m)" and "sint (Usage u m) + n < 2 ^ 63" and "pendingDelta (state_of m u) = 0"
    and "sint (Usage u m) \<le> sint (quotaBytes c)" and "sint (Usage u m) + n > sint (quotaBytes c)"
    and "LoadUsage u (Usage u m) (AddBytes u n m) = Ret m'"
  shows "IsExceeded u (AddBytes u n m) \<and> \<not> IsExceeded u m' \<and> Usage u m' = Usage u m \<and>
    pendingDelta (state_of m' u) = word_of_int n"
proof -
  have total: "sint (usage (state_of m u) + word_of_int n) = sint (Usage u m) + n"
    using assms(3-5) unfolding Usage_state_of by (intro sint_i64_add) simp_all
  note A = AddBytes_eq [OF mgr_invD(2) [OF assms(1)] assms(2,3), unfolded Let_def total if_P [OF assms(8)]]
  have w: "mgr_inv (AddBytes u n m)" using assms(1) by (rule mgr_AddBytes)
  have c: "userConfigs (AddBytes u n m) u = Some c" using assms(2) AddBytes_ledger(4) [OF assms(1)] by simp
  note E = LoadUsage_exact [OF mgr_invD(2) [OF w] c assms(9)]
  have "pendingDelta (state_of (AddBytes u n m) u) = word_of_int n"
    using AddBytes_fields(1) [OF mgr_invD(2) [OF assms(1)] assms(2,3)] assms(6) by simp
  with E LoadUsage_state(1) [OF mgr_invD(2) [OF w] assms(9), of u] assms(7)
  show ?thesis by (simp add: A IsExceeded_state_of)
qed

end
