(* ===== verification/SpeedInvariant.thy ===== *)
theory SpeedInvariant
  imports SpeedManager
begin

text \<open>
  What the limiter manager keeps true. The locale \<open>rate_limiters\<close> states what
  \<open>golang.org/x/time/rate\<close> documents; under it every operation of the manager keeps the
  invariant \<open>speed_inv\<close>: each limiter in the map runs at exactly the speed that is in force
  for its user, and no two entries or directions share a limiter. The package is instantiated
  by \<open>bucket_pkg\<close>, on which the locale is interpreted.
\<close>

section \<open>The documented contract of the rate package\<close>

text \<open>
  \<open>limit_of\<close> is \<open>Limit()\<close>, \<open>granted\<close> the number of events the limiter has let happen, and
  \<open>live\<close> a context that is neither cancelled nor past its deadline.
\<close>

locale rate_limiters =
  fixes R :: "('c, 'l) rate_pkg" and limit_of :: "'l \<Rightarrow> rate_limit"
    and granted :: "'l \<Rightarrow> int" and live :: "'c \<Rightarrow> bool"
  assumes new_limiter: "limit_of (rl_NewLimiter R r b) = r" "rl_Burst R (rl_NewLimiter R r b) = b"
    and set_limit: "limit_of (rl_SetLimit R r l) = r" "rl_Burst R (rl_SetLimit R r l) = rl_Burst R l"
    and set_burst: "limit_of (rl_SetBurst R b l) = limit_of l" "rl_Burst R (rl_SetBurst R b l) = b"
    and wait_keeps: "rl_WaitN R c n l = (e, l') \<Longrightarrow> limit_of l' = limit_of l \<and> rl_Burst R l' = rl_Burst R l"
    and wait_grants: "rl_WaitN R c n l = (None, l') \<Longrightarrow> granted l' = granted l + n"
    and wait_refuses: "rl_WaitN R c n l = (Some err, l') \<Longrightarrow> granted l' = granted l"
    and wait_succeeds: "live c \<Longrightarrow> n \<le> rl_Burst R l \<or> limit_of l = RateInf \<Longrightarrow>
      fst (rl_WaitN R c n l) = None"

section \<open>The invariant\<close>

text \<open>A direction runs at \<open>mbps\<close>: no limiter when not positive, else one set to that rate.\<close>

definition at_speed ::
  "('c, 'l) rate_pkg \<Rightarrow> ('l \<Rightarrow> rate_limit) \<Rightarrow> 'l list \<Rightarrow> lim_id option \<Rightarrow> int \<Rightarrow> bool" where
  "at_speed R limit_of h p mbps \<longleftrightarrow>
     (case p of
        None \<Rightarrow> mbps \<le> 0
      | Some i \<Rightarrow> mbps > 0 \<and> i < length h \<and> limit_of (h ! i) = Rate (bps_of mbps) \<and>
          rl_Burst R (h ! i) = burst_of mbps)"

definition ul_ptr :: "UserLimiter \<Rightarrow> bool \<Rightarrow> lim_id option" where
  "ul_ptr ul d = (if d then ul_Upload ul else ul_Download ul)"

definition ptr :: "'l limiter_manager \<Rightarrow> string \<Rightarrow> bool \<Rightarrow> lim_id option" where
  "ptr m k d = (case limiters m k of None \<Rightarrow> None | Some ul \<Rightarrow> ul_ptr ul d)"

definition ptrs_ok :: "'l limiter_manager \<Rightarrow> bool" where
  "ptrs_ok m \<longleftrightarrow>
     (\<forall>k d i. ptr m k d = Some i \<longrightarrow> i < length (lims m)) \<and>
     (\<forall>k d k' d' i. ptr m k d = Some i \<longrightarrow> ptr m k' d' = Some i \<longrightarrow> k = k' \<and> d = d')"

definition synced ::
  "('c, 'l) rate_pkg \<Rightarrow> ('l \<Rightarrow> rate_limit) \<Rightarrow> local_clock \<Rightarrow> 'l limiter_manager \<Rightarrow> string \<Rightarrow>
     UserLimiter \<Rightarrow> bool" where
  "synced R limit_of hm m k ul \<longleftrightarrow>
     (\<exists>cfg. current_config hm m (extractUserName k) = Some cfg \<and>
        at_speed R limit_of (lims m) (ul_Upload ul) (UploadMbps cfg) \<and>
        at_speed R limit_of (lims m) (ul_Download ul) (DownloadMbps cfg) \<and>
        (ul_Upload ul \<noteq> None \<or> ul_Download ul \<noteq> None))"

text \<open>The invariant during a pass over the map: the keys in \<open>todo\<close> may lag behind.\<close>

definition synced_but ::
  "('c, 'l) rate_pkg \<Rightarrow> ('l \<Rightarrow> rate_limit) \<Rightarrow> local_clock \<Rightarrow> string set \<Rightarrow> 'l limiter_manager \<Rightarrow> bool" where
  "synced_but R limit_of hm todo m \<longleftrightarrow>
     ptrs_ok m \<and> (\<forall>k ul. limiters m k = Some ul \<longrightarrow> k \<notin> todo \<longrightarrow> synced R limit_of hm m k ul)"

definition speed_inv ::
  "('c, 'l) rate_pkg \<Rightarrow> ('l \<Rightarrow> rate_limit) \<Rightarrow> local_clock \<Rightarrow> 'l limiter_manager \<Rightarrow> bool" where
  "speed_inv R limit_of hm m \<longleftrightarrow> synced_but R limit_of hm {} m"

lemma ptrs_okD:
  "ptrs_ok m \<Longrightarrow> ptr m k d = Some i \<Longrightarrow> i < length (lims m)"
  "ptrs_ok m \<Longrightarrow> ptr m k d = Some i \<Longrightarrow> ptr m k' d' = Some i \<Longrightarrow> k = k' \<and> d = d'"
  unfolding ptrs_ok_def by blast+

lemma ptr_entry: "limiters m k = Some ul \<Longrightarrow> ptr m k d = ul_ptr ul d"
  by (simp add: ptr_def)

lemma at_speed_frame:
  assumes "at_speed R limit_of h p s" and "\<And>i. p = Some i \<Longrightarrow> i < length h \<Longrightarrow> h' ! i = h ! i"
    and "length h \<le> length h'"
  shows "at_speed R limit_of h' p s"
  using assms by (auto simp: at_speed_def split: option.splits)

lemma extract_key:
  assumes "CHR ''|'' \<notin> set u"
  shows "extractUserName (limiter_key u cfg addr) = u"
  using assms
  by (auto simp: extractUserName_def limiter_key_def clientLimiterKeySep_def str_cut_append
      str_cut_None_iff [symmetric] split: option.splits)

lemma limiter_key_inj:
  assumes "CHR ''|'' \<notin> set u" and "CHR ''|'' \<notin> set v"
  shows "limiter_key u c a = limiter_key v d b \<longleftrightarrow>
    u = v \<and> (if PerClient c then a else None) = (if PerClient d then b else None)"
proof
  assume eq: "limiter_key u c a = limiter_key v d b"
  with extract_key [OF assms(1), of c a] extract_key [OF assms(2), of d b] have "u = v" by simp
  with eq show "u = v \<and> (if PerClient c then a else None) = (if PerClient d then b else None)"
    by (auto simp: limiter_key_def clientLimiterKeySep_def split: option.splits if_splits)
qed (auto simp: limiter_key_def split: option.splits if_splits)

lemma unmatched_key:
  assumes "\<not> (k = u \<or> HasPrefix k (u @ clientLimiterKeySep))"
  shows "extractUserName k \<noteq> u"
proof
  assume x: "extractUserName k = u"
  show False
  proof (cases "str_cut (CHR ''|'') k")
    case None
    with x assms show False by (simp add: extractUserName_def)
  next
    case (Some p)
    with x obtain rest where "k = u @ CHR ''|'' # rest"
      by (cases p) (auto simp: extractUserName_def str_cut_Some_iff)
    with assms show False by (auto simp: HasPrefix_iff clientLimiterKeySep_def)
  qed
qed

section \<open>One entry of the map\<close>

definition opt_ptr :: "UserLimiter option \<Rightarrow> bool \<Rightarrow> lim_id option" where
  "opt_ptr e d = (case e of None \<Rightarrow> None | Some ul \<Rightarrow> ul_ptr ul d)"

text \<open>What a step on one key may do: change the limiters of that entry only, or make new ones.\<close>

definition entry_change ::
  "'l limiter_manager \<Rightarrow> string \<Rightarrow> UserLimiter option \<Rightarrow> 'l list \<Rightarrow> bool" where
  "entry_change m k e h \<longleftrightarrow>
     length (lims m) \<le> length h \<and>
     (\<forall>i < length (lims m). (\<forall>d. ptr m k d \<noteq> Some i) \<longrightarrow> h ! i = lims m ! i) \<and>
     (\<forall>d i. opt_ptr e d = Some i \<longrightarrow> i < length h \<and> (ptr m k d = Some i \<or> length (lims m) \<le> i)) \<and>
     (\<forall>i. opt_ptr e True = Some i \<longrightarrow> opt_ptr e False \<noteq> Some i)"

lemma entry_change_same:
  assumes "ptrs_ok m" and "\<And>d. opt_ptr e d = ptr m k d"
  shows "entry_change m k e (lims m)"
  using ptrs_okD [OF assms(1), of k] unfolding entry_change_def assms(2) by blast

lemma ptr_update:
  "ptr (m\<lparr>lims := h, limiters := (limiters m)(k := e)\<rparr>) k' d = (if k' = k then opt_ptr e d else ptr m k' d)"
  by (simp add: ptr_def opt_ptr_def)

lemma current_config_update [simp]:
  "current_config hm (m\<lparr>lims := h, limiters := l\<rparr>) = current_config hm m"
  "current_config hm (m\<lparr>limiters := l\<rparr>) = current_config hm m"
  "current_config hm (m\<lparr>lims := h\<rparr>) = current_config hm m"
  by (auto simp: current_config_def)

lemma entry_change_ptrs:
  assumes "ptrs_ok m" and "entry_change m k e h"
  shows "ptrs_ok (m\<lparr>lims := h, limiters := (limiters m)(k := e)\<rparr>)" (is "ptrs_ok ?m")
  unfolding ptrs_ok_def
proof (intro conjI allI impI)
  note c = assms(2) [unfolded entry_change_def]
  fix k1 d1 i assume p1: "ptr ?m k1 d1 = Some i"
  have new: "i < length h \<and> (ptr m k d = Some i \<or> length (lims m) \<le> i)" if "opt_ptr e d = Some i" for d
    using c that by blast
  have old: "i < length (lims m)" if "ptr m k' d = Some i" for k' d
    using ptrs_okD(1) [OF assms(1) that] .
  have len: "length (lims m) \<le> length h" using c by blast
  show "i < length (lims ?m)"
    using p1 new [of d1] order.strict_trans2 [OF old [of k1 d1] len]
    by (simp add: ptr_update split: if_splits)
  fix k2 d2 assume p2: "ptr ?m k2 d2 = Some i"
  have cross: False if "opt_ptr e d = Some i" and "ptr m k' d' = Some i" and "k' \<noteq> k" for d k' d'
    using new [OF that(1)] old [OF that(2)] ptrs_okD(2) [OF assms(1) that(2), of k d] that(3) by auto
  have same: "d = d'" if "opt_ptr e d = Some i" and "opt_ptr e d' = Some i" for d d'
    using c that by (cases d; cases d') auto
  have k: "k1 = k2"
    using p1 p2 cross ptrs_okD(2) [OF assms(1), of k1 d1 i k2 d2] by (auto simp: ptr_update split: if_splits)
  show "k1 = k2" by (rule k)
  show "d1 = d2"
    using p1 p2 k same ptrs_okD(2) [OF assms(1), of k1 d1 i k2 d2] by (auto simp: ptr_update split: if_splits)
qed

lemma synced_frame:
  assumes "synced R limit_of hm m k' ul" and "limiters m k' = Some ul" and "k' \<noteq> k"
    and "ptrs_ok m" and "entry_change m k e h"
  shows "synced R limit_of hm (m\<lparr>lims := h, limiters := (limiters m)(k := e)\<rparr>) k' ul"
proof -
  obtain cfg where cfg: "current_config hm m (extractUserName k') = Some cfg"
    and up: "at_speed R limit_of (lims m) (ul_Upload ul) (UploadMbps cfg)"
    and down: "at_speed R limit_of (lims m) (ul_Download ul) (DownloadMbps cfg)"
    and ne: "ul_Upload ul \<noteq> None \<or> ul_Download ul \<noteq> None"
    using assms(1) by (auto simp: synced_def)
  have keep: "h ! i = lims m ! i" if "ul_ptr ul d = Some i" for d i
  proof -
    have "ptr m k' d = Some i" using that assms(2) by (simp add: ptr_entry)
    then have "i < length (lims m)" and "\<And>d'. ptr m k d' \<noteq> Some i"
      using ptrs_okD [OF assms(4)] assms(3) by blast+
    with assms(5) show ?thesis by (auto simp: entry_change_def)
  qed
  have len: "length (lims m) \<le> length h" using assms(5) by (simp add: entry_change_def)
  have "at_speed R limit_of h (ul_Upload ul) (UploadMbps cfg)"
    by (rule at_speed_frame [OF up _ len]) (use keep [of True] in \<open>simp add: ul_ptr_def\<close>)
  moreover have "at_speed R limit_of h (ul_Download ul) (DownloadMbps cfg)"
    by (rule at_speed_frame [OF down _ len]) (use keep [of False] in \<open>simp add: ul_ptr_def\<close>)
  ultimately show ?thesis using cfg ne by (auto simp: synced_def)
qed

lemma entry_change_synced:
  assumes "synced_but R limit_of hm (insert k todo) m" and "entry_change m k e h"
    and "\<And>ul. e = Some ul \<Longrightarrow>
      synced R limit_of hm (m\<lparr>lims := h, limiters := (limiters m)(k := e)\<rparr>) k ul"
  shows "synced_but R limit_of hm todo (m\<lparr>lims := h, limiters := (limiters m)(k := e)\<rparr>)"
  unfolding synced_but_def
proof (intro conjI allI impI)
  have ok: "ptrs_ok m" using assms(1) by (simp add: synced_but_def)
  show "ptrs_ok (m\<lparr>lims := h, limiters := (limiters m)(k := e)\<rparr>)"
    by (rule entry_change_ptrs [OF ok assms(2)])
  fix k' ul
  assume l: "limiters (m\<lparr>lims := h, limiters := (limiters m)(k := e)\<rparr>) k' = Some ul" and "k' \<notin> todo"
  show "synced R limit_of hm (m\<lparr>lims := h, limiters := (limiters m)(k := e)\<rparr>) k' ul"
  proof (cases "k' = k")
    case True
    with l assms(3) show ?thesis by simp
  next
    case False
    with l have l': "limiters m k' = Some ul" by simp
    with False \<open>k' \<notin> todo\<close> assms(1) have "synced R limit_of hm m k' ul"
      by (simp add: synced_but_def)
    then show ?thesis by (rule synced_frame [OF _ l' False ok assms(2)])
  qed
qed

lemma synced_but_mono: "synced_but R limit_of hm S m \<Longrightarrow> S \<subseteq> T \<Longrightarrow> synced_but R limit_of hm T m"
  by (auto simp: synced_but_def)

lemma synced_but_absent:
  "synced_but R limit_of hm (insert k S) m \<Longrightarrow> limiters m k = None \<Longrightarrow> synced_but R limit_of hm S m"
  by (fastforce simp: synced_but_def)

section \<open>The operations keep the invariant\<close>

lemma neutralize_frame [simp]:
  "length (neutralizeLimiter R p h) = length h"
  "p \<noteq> Some i \<Longrightarrow> neutralizeLimiter R p h ! i = h ! i"
  by (cases p; simp add: neutralizeLimiter_def)+

lemma synced_but_config:
  assumes "synced_but R limit_of hm S m"
    and "\<And>u. u \<notin> U \<Longrightarrow> current_config hm (m\<lparr>config := snap\<rparr>) u = current_config hm m u"
  shows "synced_but R limit_of hm (S \<union> {k. extractUserName k \<in> U}) (m\<lparr>config := snap\<rparr>)"
proof -
  have "ptrs_ok (m\<lparr>config := snap\<rparr>)"
    using assms(1) by (simp add: synced_but_def ptrs_ok_def ptr_def)
  with assms show ?thesis by (auto simp: synced_but_def synced_def)
qed

lemma remove_key_entry_change:
  assumes "limiters m k = Some ul"
  shows "entry_change m k None
    (neutralizeLimiter R (ul_Download ul) (neutralizeLimiter R (ul_Upload ul) (lims m)))"
proof -
  have p: "ptr m k d = ul_ptr ul d" for d
    using assms by (rule ptr_entry)
  have "ul_Upload ul \<noteq> Some i \<and> ul_Download ul \<noteq> Some i" if "\<And>d. ptr m k d \<noteq> Some i" for i
    using that [of True] that [of False] by (simp add: p ul_ptr_def)
  then show ?thesis by (auto simp: entry_change_def opt_ptr_def)
qed

lemma delete_key_synced:
  assumes "synced_but R limit_of hm (insert k S) m" and "limiters m k = Some ul"
  shows "synced_but R limit_of hm S
    (m\<lparr>lims := neutralizeLimiter R (ul_Download ul) (neutralizeLimiter R (ul_Upload ul) (lims m)),
       limiters := (limiters m)(k := None)\<rparr>)"
  using assms(1) remove_key_entry_change [OF assms(2)] by (rule entry_change_synced) simp

lemma clean_key_synced:
  assumes "synced_but R limit_of hm S m"
  shows "synced_but R limit_of hm S (clean_key t k m)"
proof -
  have "entry_change m k None (lims m)" by (simp add: entry_change_def opt_ptr_def)
  from entry_change_synced [OF synced_but_mono [OF assms, of "insert k S"] this]
  have "synced_but R limit_of hm S (m\<lparr>lims := lims m, limiters := (limiters m)(k := None)\<rparr>)" by auto
  then have "synced_but R limit_of hm S (m\<lparr>limiters := (limiters m)(k := None)\<rparr>)" by simp
  with assms show ?thesis by (simp add: clean_key_def split: option.splits)
qed

lemma fold_clean_synced:
  "synced_but R limit_of hm S m \<Longrightarrow> synced_but R limit_of hm S (cleanExpiredClientLimiters order t m)"
  unfolding cleanExpiredClientLimiters_def by (rule fold_frame) (simp_all add: clean_key_synced)

lemma fold_remove_synced:
  assumes "synced_but R limit_of hm {k \<in> set order. k = u \<or> HasPrefix k (u @ clientLimiterKeySep)} m"
  shows "synced_but R limit_of hm {} (fold (remove_key R u) order m)"
  using assms
proof (induction order arbitrary: m)
  case (Cons k ks)
  let ?S = "\<lambda>ks. {k \<in> set ks. k = u \<or> HasPrefix k (u @ clientLimiterKeySep)}"
  have "synced_but R limit_of hm (?S ks) (remove_key R u k m)"
  proof (cases "k = u \<or> HasPrefix k (u @ clientLimiterKeySep)")
    case False
    then have "?S (k # ks) = ?S ks" by auto
    with Cons.prems False show ?thesis by (simp add: remove_key_def split: option.splits)
  next
    case True
    then have "?S (k # ks) = insert k (?S ks)" by auto
    with Cons.prems have s: "synced_but R limit_of hm (insert k (?S ks)) m" by simp
    show ?thesis
    proof (cases "limiters m k")
      case None
      with synced_but_absent [OF s] show ?thesis by (simp add: remove_key_def)
    next
      case (Some ul)
      with True delete_key_synced [OF s Some] show ?thesis by (simp add: remove_key_def)
    qed
  qed
  then show ?case by (simp add: Cons.IH)
qed simp

context rate_limiters
begin

lemma neutralize_inf: "p = Some i \<Longrightarrow> i < length h \<Longrightarrow> limit_of (neutralizeLimiter R p h ! i) = RateInf"
  by (simp add: neutralizeLimiter_def set_limit)

lemma neutralize_keeps_inf:
  "i < length h \<Longrightarrow> limit_of (h ! i) = RateInf \<Longrightarrow> limit_of (neutralizeLimiter R p h ! i) = RateInf"
  by (cases "p = Some i") (simp_all add: neutralize_inf)

lemma NewLimiter_speed:
  assumes "NewLimiter R s h = (p, h')"
  shows "at_speed R limit_of h' p s" and "length h \<le> length h'"
    and "i < length h \<Longrightarrow> h' ! i = h ! i"
    and "p = Some i \<Longrightarrow> i = length h \<and> i < length h'"
  using assms
  by (auto simp: NewLimiter_def at_speed_def new_limiter nth_append split: if_splits)

lemma reconcile_speed:
  assumes "reconcileLimiterDirection R p s h = (p', h')" and "\<forall>i. p = Some i \<longrightarrow> i < length h"
  shows "at_speed R limit_of h' p' s" and "length h \<le> length h'"
    and "i < length h \<Longrightarrow> p \<noteq> Some i \<Longrightarrow> h' ! i = h ! i"
    and "p' = Some i \<Longrightarrow> i < length h' \<and> (p = Some i \<or> length h \<le> i)"
proof -
  consider (new) "s > 0" "p = None" | (set) j where "s > 0" "p = Some j" | (off) "s \<le> 0"
    by (cases p) fastforce+
  then have "at_speed R limit_of h' p' s \<and> length h \<le> length h' \<and>
      (\<forall>i < length h. p \<noteq> Some i \<longrightarrow> h' ! i = h ! i) \<and>
      (\<forall>i. p' = Some i \<longrightarrow> i < length h' \<and> (p = Some i \<or> length h \<le> i))"
  proof cases
    case new
    with assms(1) have n: "NewLimiter R s h = (p', h')" by (simp add: reconcileLimiterDirection_def)
    show ?thesis using NewLimiter_speed [OF n] by auto
  next
    case (set j)
    with assms have "p' = Some j" "h' = SetLimiterRate R (Some j) s h" "j < length h"
      by (auto simp: reconcileLimiterDirection_def)
    with set show ?thesis
      by (auto simp: SetLimiterRate_def at_speed_def set_limit set_burst)
  next
    case off
    with assms(1) show ?thesis
      by (auto simp: reconcileLimiterDirection_def at_speed_def)
  qed
  then show "at_speed R limit_of h' p' s" and "length h \<le> length h'"
    and "i < length h \<Longrightarrow> p \<noteq> Some i \<Longrightarrow> h' ! i = h ! i"
    and "p' = Some i \<Longrightarrow> i < length h' \<and> (p = Some i \<or> length h \<le> i)" by blast+
qed

end

lemma update_key_same [simp]:
  "config (update_key R hm t k m) = config m"
  "hasChecked (update_key R hm t k m) = hasChecked m"
  "lastCheckTime (update_key R hm t k m) = lastCheckTime m"
  by (simp_all add: update_key_def split: option.splits prod.splits)

context rate_limiters
begin

lemma reconcile_pair:
  assumes "reconcileLimiterDirection R (ul_Upload ul) su (lims m) = (up, h1)"
    and "reconcileLimiterDirection R (ul_Download ul) sd h1 = (down, h2)"
    and "ptrs_ok m" and "limiters m k = Some ul"
  shows "at_speed R limit_of h2 up su" and "at_speed R limit_of h2 down sd"
    and "entry_change m k (Some (ul\<lparr>ul_Upload := up, ul_Download := down\<rparr>)) h2"
proof -
  let ?h = "lims m"
  have pU: "ptr m k True = ul_Upload ul" and pD: "ptr m k False = ul_Download ul"
    using assms(4) by (simp_all add: ptr_entry ul_ptr_def)
  have bU: "\<forall>i. ul_Upload ul = Some i \<longrightarrow> i < length ?h"
    using ptrs_okD(1) [OF assms(3), of k True] pU by simp
  have bD: "\<forall>i. ul_Download ul = Some i \<longrightarrow> i < length ?h"
    using ptrs_okD(1) [OF assms(3), of k False] pD by simp
  have apart: "ul_Download ul \<noteq> Some i" if "ul_Upload ul = Some i" for i
    using ptrs_okD(2) [OF assms(3), of k True i k False] that pU pD by auto
  note U = reconcile_speed [OF assms(1) bU]
  have bD1: "\<forall>i. ul_Download ul = Some i \<longrightarrow> i < length h1"
    using bD U(2) by auto
  note D = reconcile_speed [OF assms(2) bD1]
  have diff: "ul_Download ul \<noteq> Some i" if "up = Some i" for i
    using U(4) [OF that] apart [of i] bD by auto
  show "at_speed R limit_of h2 up su"
    using U(1) by (rule at_speed_frame) (use diff D(2,3) in auto)
  show "at_speed R limit_of h2 down sd" by (rule D(1))
  have "up \<noteq> down \<or> up = None"
    using U(4) D(4) diff by (cases up; cases down) fastforce+
  moreover have "h2 ! i = ?h ! i"
    if "i < length ?h" and "ul_Upload ul \<noteq> Some i" and "ul_Download ul \<noteq> Some i" for i
    using that U(2) U(3) [of i] D(3) [of i] by simp
  moreover have "i < length h2 \<and> (ul_Upload ul = Some i \<or> length ?h \<le> i)" if "up = Some i" for i
    using U(4) [OF that] D(2) by auto
  moreover have "i < length h2 \<and> (ul_Download ul = Some i \<or> length ?h \<le> i)" if "down = Some i" for i
    using D(4) [OF that] U(2) by auto
  ultimately show "entry_change m k (Some (ul\<lparr>ul_Upload := up, ul_Download := down\<rparr>)) h2"
    using U(2) D(2) by (auto simp: entry_change_def opt_ptr_def ul_ptr_def pU pD all_bool_eq)
qed

lemma update_key_synced:
  assumes s: "synced_but R limit_of hm (insert k S) m" and "hasChecked m" and "lastCheckTime m = t"
  shows "synced_but R limit_of hm S (update_key R hm t k m)"
proof (cases "limiters m k")
  case None
  with synced_but_absent [OF s] show ?thesis by (simp add: update_key_def)
next
  case (Some ul)
  have cur: "current_config hm m u = effectiveSpeed hm (config m) u t" for u
    using assms by (simp add: current_config_def)
  show ?thesis
  proof (cases "effectiveSpeed hm (config m) (extractUserName k) t")
    case None
    with delete_key_synced [OF s Some] Some show ?thesis by (simp add: update_key_def)
  next
    case cfg: (Some cfg)
    obtain up h1 where r1: "reconcileLimiterDirection R (ul_Upload ul) (UploadMbps cfg) (lims m) = (up, h1)"
      by fastforce
    obtain down h2 where r2: "reconcileLimiterDirection R (ul_Download ul) (DownloadMbps cfg) h1 = (down, h2)"
      by fastforce
    let ?e = "if up = None \<and> down = None then None else Some (ul\<lparr>ul_Upload := up, ul_Download := down\<rparr>)"
    have ok: "ptrs_ok m" using s by (simp add: synced_but_def)
    note pair = reconcile_pair [OF r1 r2 ok Some]
    have "entry_change m k ?e h2"
      using pair(3) by (auto simp: entry_change_def opt_ptr_def)
    with s have "synced_but R limit_of hm S (m\<lparr>lims := h2, limiters := (limiters m)(k := ?e)\<rparr>)"
      by (rule entry_change_synced) (use pair(1,2) cfg cur in \<open>auto simp: synced_def split: if_splits\<close>)
    with cfg Some r1 r2 show ?thesis by (simp add: update_key_def)
  qed
qed

lemma updateLimiterRates_synced:
  assumes "synced_but R limit_of hm (set order) m" and "hasChecked m" and "lastCheckTime m = t"
  shows "synced_but R limit_of hm {} (updateLimiterRates R hm order t m)"
  using assms unfolding updateLimiterRates_def
  by (induction order arbitrary: m) (simp_all add: update_key_synced)

lemma refresh_synced:
  assumes "ptrs_ok m" and "range_order order (limiters m)"
  shows "speed_inv R limit_of hm
    (updateLimiterRates R hm order t (m\<lparr>lastCheckTime := t, hasChecked := True\<rparr>))"
  unfolding speed_inv_def
proof (rule updateLimiterRates_synced)
  have "k \<in> set order" if "limiters m k = Some ul" for k ul
    using that assms(2) by (simp add: range_orderD(2))
  moreover have "ptrs_ok (m\<lparr>lastCheckTime := t, hasChecked := True\<rparr>)"
    using assms(1) by (simp add: ptrs_ok_def ptr_def)
  ultimately show "synced_but R limit_of hm (set order) (m\<lparr>lastCheckTime := t, hasChecked := True\<rparr>)"
    by (auto simp: synced_but_def)
qed simp_all

lemma applyRuntimeState_inv:
  "ptrs_ok m \<Longrightarrow> range_order order (limiters m) \<Longrightarrow> speed_inv R limit_of hm (applyRuntimeState R hm order t m)"
  unfolding applyRuntimeState_def by (rule refresh_synced)

lemma inv_ptrs: "speed_inv R limit_of hm m \<Longrightarrow> ptrs_ok (m\<lparr>config := snap\<rparr>)"
  by (simp add: speed_inv_def synced_but_def ptrs_ok_def ptr_def)

lemma reconfigure_inv:
  assumes "speed_inv R limit_of hm m" and "range_order order (limiters m)"
  shows "speed_inv R limit_of hm (applyRuntimeState R hm order t (m\<lparr>config := snap\<rparr>))"
  by (rule applyRuntimeState_inv [OF inv_ptrs [OF assms(1)]]) (simp add: assms(2))

lemma CheckSchedules_inv:
  assumes "speed_inv R limit_of hm m" and "range_order order (limiters m)"
  shows "speed_inv R limit_of hm (CheckSchedules R hm order order' t m)"
proof -
  have "ptrs_ok m" using assms(1) by (simp add: speed_inv_def synced_but_def)
  from refresh_synced [OF this assms(2)] show ?thesis
    unfolding CheckSchedules_def speed_inv_def by (rule fold_clean_synced)
qed

lemma ApplyConfig_inv:
  assumes "speed_inv R limit_of hm m" and "range_order order (limiters m)"
  shows "speed_inv R limit_of hm (snd (speed_ApplyConfig R hm order t user m))"
  using assms by (simp add: speed_ApplyConfig_def Let_def reconfigure_inv)

lemma ReplaceUserSchedules_inv:
  assumes "speed_inv R limit_of hm m" and "range_order order (limiters m)"
  shows "speed_inv R limit_of hm (snd (ReplaceUserSchedules R hm order t user scheds m))"
  using assms by (simp add: ReplaceUserSchedules_def Let_def reconfigure_inv split: sum.splits)

lemma RemoveUserSchedules_inv:
  assumes "speed_inv R limit_of hm m" and "range_order order (limiters m)"
  shows "speed_inv R limit_of hm (snd (RemoveUserSchedules R hm order t user m))"
  using assms by (simp add: RemoveUserSchedules_def Let_def reconfigure_inv)

end

lemma resolveConfig_frame:
  assumes "v \<noteq> u"
  shows "resolveConfig (s\<lparr>userGroups := (userGroups s)(u := a), userOverrides := (userOverrides s)(u := b),
      userRawConfig := (userRawConfig s)(u := c)\<rparr>) v = resolveConfig s v"
    and "effectiveSpeed hm (s\<lparr>userGroups := (userGroups s)(u := a), userOverrides := (userOverrides s)(u := b),
      userRawConfig := (userRawConfig s)(u := c)\<rparr>) v t = effectiveSpeed hm s v t"
  using assms
  by (simp_all add: resolveConfig_def effectiveSpeed_def activeGlobalSchedule_def
      activeUserSchedule_def over_schedule_def hasFixedUserUploadOverride_def
      hasFixedUserDownloadOverride_def cong: option.case_cong)

lemma RemoveConfig_inv:
  assumes "speed_inv R limit_of hm m" and "range_order order (limiters m)"
  shows "speed_inv R limit_of hm (snd (speed_RemoveConfig R order u m))"
proof (cases "u = ''''")
  case True
  with assms show ?thesis by (simp add: speed_RemoveConfig_def)
next
  case False
  let ?snap = "(config m)\<lparr>userGroups := (userGroups (config m))(u := None),
    userOverrides := (userOverrides (config m))(u := None),
    userRawConfig := (userRawConfig (config m))(u := None)\<rparr>"
  let ?S = "{k \<in> set order. k = u \<or> HasPrefix k (u @ clientLimiterKeySep)}"
  have "synced_but R limit_of hm ({} \<union> {k. extractUserName k \<in> {u}}) (m\<lparr>config := ?snap\<rparr>)"
    using assms(1) unfolding speed_inv_def
    by (rule synced_but_config) (simp add: current_config_def resolveConfig_frame)
  moreover have "k \<in> set order" if "limiters m k = Some ul" for k ul
    using that assms(2) by (simp add: range_orderD(2))
  ultimately have "synced_but R limit_of hm ?S (m\<lparr>config := ?snap\<rparr>)"
    using unmatched_key [of _ u] by (fastforce simp: synced_but_def)
  from fold_remove_synced [OF this] False show ?thesis
    by (simp add: speed_RemoveConfig_def speed_inv_def Let_def)
qed

context rate_limiters
begin

lemma new_pair:
  assumes "NewLimiter R su (lims m) = (up, h1)" and "NewLimiter R sd h1 = (down, h2)"
  shows "at_speed R limit_of h2 up su" and "at_speed R limit_of h2 down sd"
    and "entry_change m k (Some \<lparr>ul_Upload = up, ul_Download = down, lastActive = t\<rparr>) h2"
proof -
  note U = NewLimiter_speed [OF assms(1)] and D = NewLimiter_speed [OF assms(2)]
  show "at_speed R limit_of h2 up su"
    using U(1) by (rule at_speed_frame) (use U(4) D(2,3) in auto)
  show "at_speed R limit_of h2 down sd" by (rule D(1))
  have "\<not> (up = Some i \<and> down = Some i)" for i
    using U(4) [of i] D(4) [of i] by auto
  then show "entry_change m k (Some \<lparr>ul_Upload = up, ul_Download = down, lastActive = t\<rparr>) h2"
    using U(2-4) D(2-4) by (fastforce simp: entry_change_def opt_ptr_def ul_ptr_def split: if_splits)
qed

lemma NewLimiter_None: "NewLimiter R s h = (None, h') \<Longrightarrow> h' = h"
  by (auto simp: NewLimiter_def split: if_splits)

lemma GetOrCreate_inv:
  assumes inv: "speed_inv R limit_of hm m" and u: "CHR ''|'' \<notin> set u"
  shows "speed_inv R limit_of hm (snd (GetOrCreateLimiterForClient R hm u addr t m))"
proof (cases "current_config hm m u")
  case None
  with inv show ?thesis by (simp add: GetOrCreateLimiterForClient_def)
next
  case (Some cfg)
  let ?k = "limiter_key u cfg addr"
  have s: "synced_but R limit_of hm (insert ?k {}) m"
    using inv by (auto simp: speed_inv_def synced_but_def)
  show ?thesis
  proof (cases "limiters m ?k")
    case None
    obtain up h1 where n1: "NewLimiter R (UploadMbps cfg) (lims m) = (up, h1)" by fastforce
    obtain down h2 where n2: "NewLimiter R (DownloadMbps cfg) h1 = (down, h2)" by fastforce
    let ?e = "Some \<lparr>ul_Upload = up, ul_Download = down, lastActive = t\<rparr>"
    note pair = new_pair [OF n1 n2]
    show ?thesis
    proof (cases "up = None \<and> down = None")
      case True
      with n1 n2 have "h2 = lims m" by (auto dest!: NewLimiter_None)
      with True None Some n1 n2 inv show ?thesis by (simp add: GetOrCreateLimiterForClient_def)
    next
      case False
      have "synced_but R limit_of hm {} (m\<lparr>lims := h2, limiters := (limiters m)(?k := ?e)\<rparr>)"
        using s pair(3)
        by (rule entry_change_synced) (use pair(1,2) Some False u in \<open>auto simp: synced_def extract_key\<close>)
      then show ?thesis
        using False None Some n1 n2
        by (auto simp: GetOrCreateLimiterForClient_def speed_inv_def Let_def)
    qed
  next
    case l: (Some ul)
    have "synced R limit_of hm m ?k ul" using inv l by (simp add: speed_inv_def synced_but_def)
    then have sy: "synced R limit_of hm m' ?k (ul\<lparr>lastActive := t\<rparr>)"
      if "lims m' = lims m" "current_config hm m' = current_config hm m" for m'
      using that by (simp add: synced_def)
    have "entry_change m ?k (Some (ul\<lparr>lastActive := t\<rparr>)) (lims m)"
    proof (rule entry_change_same)
      show "ptrs_ok m" using inv by (simp add: speed_inv_def synced_but_def)
    qed (simp add: opt_ptr_def ptr_entry [OF l] ul_ptr_def)
    with s have "synced_but R limit_of hm {} (m\<lparr>lims := lims m, limiters := (limiters m)(?k := Some (ul\<lparr>lastActive := t\<rparr>))\<rparr>)"
      by (rule entry_change_synced) (use sy in auto)
    with Some l show ?thesis
      by (simp add: GetOrCreateLimiterForClient_def speed_inv_def Let_def)
  qed
qed

end

section \<open>Waiting and connection traffic\<close>

text \<open>Waiting never touches the rates.\<close>

definition same_rates ::
  "('c, 'l) rate_pkg \<Rightarrow> ('l \<Rightarrow> rate_limit) \<Rightarrow> 'l list \<Rightarrow> 'l list \<Rightarrow> bool" where
  "same_rates R limit_of h h' \<longleftrightarrow> length h' = length h \<and>
     (\<forall>i < length h. limit_of (h' ! i) = limit_of (h ! i) \<and> rl_Burst R (h' ! i) = rl_Burst R (h ! i))"

context rate_limiters
begin

lemma wait_loop_returns:
  assumes "0 < burst"
  shows "\<exists>err l'. wait_loop R c burst n l = Some (err, l') \<and>
    limit_of l' = limit_of l \<and> rl_Burst R l' = rl_Burst R l \<and>
    (case err of None \<Rightarrow> granted l' = granted l + max 0 n
               | Some e \<Rightarrow> granted l \<le> granted l' \<and> granted l' < granted l + n) \<and>
    (live c \<and> (burst \<le> rl_Burst R l \<or> limit_of l = RateInf) \<longrightarrow> err = None)"
proof (induction "nat n" arbitrary: n l rule: less_induct)
  case less
  show ?case
  proof (cases "n > 0")
    case False
    then show ?thesis by (simp add: wait_loop.simps)
  next
    case True
    define chunk where "chunk = (if n > burst then burst else n)"
    have ch: "0 < chunk" "chunk \<le> n" "chunk \<le> burst"
      using True assms by (auto simp: chunk_def)
    obtain e l1 where w: "rl_WaitN R c chunk l = (e, l1)" by fastforce
    have step: "wait_loop R c burst n l =
        (case e of Some err \<Rightarrow> Some (Some err, l1) | None \<Rightarrow> wait_loop R c burst (n - chunk) l1)"
      using True w by (subst wait_loop.simps) (simp add: chunk_def Let_def split: option.splits)
    note keep = wait_keeps [OF w]
    show ?thesis
    proof (cases e)
      case (Some err)
      have "\<not> (live c \<and> (burst \<le> rl_Burst R l \<or> limit_of l = RateInf))"
        using wait_succeeds [of c chunk l] w Some ch by auto
      with Some step keep wait_refuses [of c chunk l err l1] w True show ?thesis by auto
    next
      case None
      have "nat (n - chunk) < nat n" using ch by simp
      from less [OF this, of l1] obtain err l2 where IH:
        "wait_loop R c burst (n - chunk) l1 = Some (err, l2)"
        "limit_of l2 = limit_of l1" "rl_Burst R l2 = rl_Burst R l1"
        "case err of None \<Rightarrow> granted l2 = granted l1 + max 0 (n - chunk)
           | Some e \<Rightarrow> granted l1 \<le> granted l2 \<and> granted l2 < granted l1 + (n - chunk)"
        "live c \<and> (burst \<le> rl_Burst R l1 \<or> limit_of l1 = RateInf) \<longrightarrow> err = None"
        by blast
      have g: "granted l1 = granted l + chunk" using wait_grants w None by simp
      with IH(4) ch have "case err of None \<Rightarrow> granted l2 = granted l + max 0 n
           | Some e \<Rightarrow> granted l \<le> granted l2 \<and> granted l2 < granted l + n"
        by (auto split: option.splits)
      with IH(1-3,5) keep step None show ?thesis by auto
    qed
  qed
qed

text \<open>What one call of \<open>waitN\<close> does to the list of limiters.\<close>

lemma waitN_returns:
  assumes "i < length h"
  shows "\<exists>err l'. waitN R c i n h = Some (err, h[i := l']) \<and>
    limit_of l' = limit_of (h ! i) \<and> rl_Burst R l' = rl_Burst R (h ! i) \<and>
    (case err of None \<Rightarrow> granted l' = granted (h ! i) + max 0 n
               | Some e \<Rightarrow> granted (h ! i) \<le> granted l' \<and> granted l' < granted (h ! i) + n) \<and>
    (live c \<and> (0 < rl_Burst R (h ! i) \<or> limit_of (h ! i) = RateInf) \<longrightarrow> err = None)"
proof -
  let ?b = "if rl_Burst R (h ! i) \<le> 0 then 1 else rl_Burst R (h ! i)"
  have pos: "0 < ?b" by simp
  obtain err l' where w: "wait_loop R c ?b n (h ! i) = Some (err, l')"
    "limit_of l' = limit_of (h ! i)" "rl_Burst R l' = rl_Burst R (h ! i)"
    "case err of None \<Rightarrow> granted l' = granted (h ! i) + max 0 n
       | Some e \<Rightarrow> granted (h ! i) \<le> granted l' \<and> granted l' < granted (h ! i) + n"
    "live c \<and> (?b \<le> rl_Burst R (h ! i) \<or> limit_of (h ! i) = RateInf) \<longrightarrow> err = None"
    using wait_loop_returns [of ?b c n "h ! i", OF pos] by (elim exE conjE)
  then show ?thesis by (intro exI [of _ err] exI [of _ l']) (auto simp: waitN_def Let_def)
qed

lemma waitN_same_rates: "i < length h \<Longrightarrow> waitN R c i n h = Some (err, h') \<Longrightarrow> same_rates R limit_of h h'"
  using waitN_returns [of i h c n] by (auto simp: same_rates_def nth_list_update)

lemma same_rates_refl [simp]: "same_rates R limit_of h h"
  by (simp add: same_rates_def)

lemma at_speed_same_rates: "same_rates R limit_of h h' \<Longrightarrow> at_speed R limit_of h p s \<Longrightarrow> at_speed R limit_of h' p s"
  by (auto simp: same_rates_def at_speed_def split: option.splits)

lemma same_rates_inv:
  assumes "speed_inv R limit_of hm m" and "same_rates R limit_of (lims m) h"
  shows "speed_inv R limit_of hm (m\<lparr>lims := h\<rparr>)"
proof -
  have "ptrs_ok (m\<lparr>lims := h\<rparr>)"
    using assms by (simp add: speed_inv_def synced_but_def ptrs_ok_def ptr_def same_rates_def)
  moreover have "synced R limit_of hm (m\<lparr>lims := h\<rparr>) k ul" if "limiters m k = Some ul" for k ul
  proof -
    have "synced R limit_of hm m k ul" using assms(1) that by (simp add: speed_inv_def synced_but_def)
    with at_speed_same_rates [OF assms(2)] show ?thesis by (fastforce simp: synced_def)
  qed
  ultimately show ?thesis by (simp add: speed_inv_def synced_but_def)
qed

end

definition conn_ok :: "throttled_conn \<Rightarrow> 'l list \<Rightarrow> bool" where
  "conn_ok c h \<longleftrightarrow>
     (\<forall>i. tc_upload c = Some i \<longrightarrow> i < length h) \<and> (\<forall>i. tc_download c = Some i \<longrightarrow> i < length h)"

context rate_limiters
begin

lemma conn_io_same_rates:
  assumes "conn_ok c h"
  shows "ThrottledConn_Read R ctx inner c h = Some (r, h') \<Longrightarrow> same_rates R limit_of h h'"
    and "ThrottledConn_Write R ctx len inner c h = Some (w, r, h') \<Longrightarrow> same_rates R limit_of h h'"
    and "ReadPacket R ctx inner c h = Some (r', h') \<Longrightarrow> same_rates R limit_of h h'"
    and "WritePacket R ctx len inner' c h = Some (w, r', h') \<Longrightarrow> same_rates R limit_of h h'"
  using assms waitN_same_rates
  by (fastforce simp: ThrottledConn_Read_def ThrottledConn_Write_def ReadPacket_def WritePacket_def
      conn_ok_def split: option.splits if_splits prod.splits)+

end

end
