(* ===== verification/SpeedService.thy ===== *)
theory SpeedService
  imports SpeedInvariant DynamicRow
begin

text \<open>
  The speed limiter service, \<open>src/service/speedlimiter/service.go\<close>, whose state is the
  limiter manager, and the properties of the speed limiter. Methods run one at a time in the
  step relation \<open>speed_step\<close>; \<open>Check\<close> is a tick of \<open>StartScheduleLoop\<close>. The contract of the rate
  package is a hypothesis of the properties and is met by \<open>bucket_pkg\<close>.
\<close>

section \<open>The service\<close>

definition speed_NewService :: "SpeedLimiterServiceOptions \<Rightarrow> go_error + 'l limiter_manager" where
  "speed_NewService opts = NewLimiterManager opts"

text \<open>\<open>StartScheduleLoop\<close> checks the schedules once before the first tick; \<open>router\<close> says whether there is one.\<close>

definition speed_Start ::
  "('c, 'l) rate_pkg \<Rightarrow> local_clock \<Rightarrow> bool \<Rightarrow> bool \<Rightarrow> string list \<Rightarrow> string list \<Rightarrow> int \<Rightarrow>
     'l limiter_manager \<Rightarrow> go_error option \<times> 'l limiter_manager" where
  "speed_Start R hm stage_start router order order' t m =
     (if \<not> stage_start then (None, m)
      else if \<not> router then (Some (ENew [''missing router in context'']), m)
      else (None, CheckSchedules R hm order order' t m))"

definition speed_applyDynamic ::
  "('c, 'l) rate_pkg \<Rightarrow> local_clock \<Rightarrow> string list \<Rightarrow> int \<Rightarrow> ConfigRow \<Rightarrow>
     'l limiter_manager \<Rightarrow> go_error option \<times> 'l limiter_manager" where
  "speed_applyDynamic R hm order t row m =
     (if cr_UploadMbps row \<le> 0 \<and> cr_DownloadMbps row \<le> 0 then
        (if \<not> cr_Authoritative row then (None, m)
         else if speed_GetConfig (cr_User row) m = None then (None, m)
         else speed_RemoveConfig R order (cr_User row) m)
      else
        speed_ApplyConfig R hm order t
          \<lparr>su_Name = cr_User row, su_Group = '''', su_UploadMbps = cr_UploadMbps row,
           su_DownloadMbps = cr_DownloadMbps row, su_PerClient = cr_PerClient row\<rparr> m)"

definition speed_removeDynamic ::
  "('c, 'l) rate_pkg \<Rightarrow> string list \<Rightarrow> string \<Rightarrow> 'l limiter_manager \<Rightarrow> go_error option \<times> 'l limiter_manager" where
  "speed_removeDynamic R order user m = speed_RemoveConfig R order user m"

text \<open>\<open>None\<close>: the router keeps the connection it passed in.\<close>

definition speed_RoutedConnection ::
  "('c, 'l) rate_pkg \<Rightarrow> local_clock \<Rightarrow> string \<Rightarrow> string option \<Rightarrow> int \<Rightarrow> 'l limiter_manager \<Rightarrow>
     throttled_conn option \<times> 'l limiter_manager" where
  "speed_RoutedConnection R hm user addr t m =
     (if user = '''' then (None, m)
      else case GetOrCreateLimiterForClient R hm user addr t m of
        (None, m1) \<Rightarrow> (None, m1)
      | (Some ul, m1) \<Rightarrow> (NewThrottledConn (ul_Upload ul) (ul_Download ul), m1))"

text \<open>
  The limiters' part of the state machine: one rule per method, and \<open>Io\<close> for traffic on a
  connection that holds limiters of this manager, whether or not the map still holds them.
\<close>

inductive speed_step ::
  "('c, 'l) rate_pkg \<Rightarrow> local_clock \<Rightarrow> 'l limiter_manager \<Rightarrow> 'l limiter_manager \<Rightarrow> bool"
  for R :: "('c, 'l) rate_pkg" and hm :: local_clock where
  Route: "CHR ''|'' \<notin> set user \<Longrightarrow> speed_step R hm m (snd (speed_RoutedConnection R hm user addr t m))"
| Check: "range_order order (limiters m) \<Longrightarrow> speed_step R hm m (CheckSchedules R hm order order' t m)"
| Apply: "range_order order (limiters m) \<Longrightarrow>
    speed_step R hm m (snd (speed_ApplyConfig R hm order t user m))"
| Remove: "range_order order (limiters m) \<Longrightarrow> speed_step R hm m (snd (speed_RemoveConfig R order u m))"
| Dynamic: "range_order order (limiters m) \<Longrightarrow>
    speed_step R hm m (snd (speed_applyDynamic R hm order t row m))"
| Replace: "range_order order (limiters m) \<Longrightarrow>
    speed_step R hm m (snd (ReplaceUserSchedules R hm order t u scheds m))"
| Unschedule: "range_order order (limiters m) \<Longrightarrow>
    speed_step R hm m (snd (RemoveUserSchedules R hm order t u m))"
| Io_Read: "conn_ok c (lims m) \<Longrightarrow> ThrottledConn_Read R ctx inner c (lims m) = Some (r, h) \<Longrightarrow>
    speed_step R hm m (m\<lparr>lims := h\<rparr>)"
| Io_Write: "conn_ok c (lims m) \<Longrightarrow> ThrottledConn_Write R ctx len inner c (lims m) = Some (w, r, h) \<Longrightarrow>
    speed_step R hm m (m\<lparr>lims := h\<rparr>)"
| Io_ReadPacket: "conn_ok c (lims m) \<Longrightarrow> ReadPacket R ctx inner c (lims m) = Some (err, h) \<Longrightarrow>
    speed_step R hm m (m\<lparr>lims := h\<rparr>)"
| Io_WritePacket: "conn_ok c (lims m) \<Longrightarrow> WritePacket R ctx len err c (lims m) = Some (w, err', h) \<Longrightarrow>
    speed_step R hm m (m\<lparr>lims := h\<rparr>)"

definition speed_init :: "'l limiter_manager \<Rightarrow> bool" where
  "speed_init m \<longleftrightarrow> (\<exists>opts. speed_NewService opts = Inr m)"

lemma speed_init_inv:
  assumes "speed_init m"
  shows "speed_inv R limit_of hm m"
proof -
  obtain opts where o: "NewLimiterManager opts = Inr m"
    using assms by (auto simp: speed_init_def speed_NewService_def)
  then have "limiters m = Map.empty"
    by (cases "new_snapshot opts") (auto simp: NewLimiterManager_def)
  then show ?thesis by (simp add: speed_inv_def synced_but_def ptrs_ok_def ptr_def)
qed

locale speed_limiter = rate_limiters R limit_of granted live
  for R :: "('c, 'l) rate_pkg" and limit_of granted live +
  fixes hm :: local_clock
begin

lemma Routed_inv:
  assumes "speed_inv R limit_of hm m" and "CHR ''|'' \<notin> set user"
  shows "speed_inv R limit_of hm (snd (speed_RoutedConnection R hm user addr t m))"
  using assms GetOrCreate_inv [OF assms, of addr t]
  by (cases "GetOrCreateLimiterForClient R hm user addr t m")
     (simp add: speed_RoutedConnection_def split: option.splits)

lemma applyDynamic_inv:
  assumes "speed_inv R limit_of hm m" and "range_order order (limiters m)"
  shows "speed_inv R limit_of hm (snd (speed_applyDynamic R hm order t row m))"
  using assms by (simp add: speed_applyDynamic_def ApplyConfig_inv RemoveConfig_inv)

lemma speed_step_inv: "speed_step R hm m m' \<Longrightarrow> speed_inv R limit_of hm m \<Longrightarrow> speed_inv R limit_of hm m'"
  by (induction rule: speed_step.induct)
     (blast intro: Routed_inv CheckSchedules_inv ApplyConfig_inv RemoveConfig_inv applyDynamic_inv
        ReplaceUserSchedules_inv RemoveUserSchedules_inv same_rates_inv conn_io_same_rates)+

end

sublocale speed_limiter \<subseteq> machine: invariant_system speed_init "speed_step R hm" "speed_inv R limit_of hm"
  by unfold_locales (auto intro: speed_init_inv speed_step_inv)

context speed_limiter
begin

lemma reachable_inv: "reach speed_init (speed_step R hm) m \<Longrightarrow> speed_inv R limit_of hm m"
  by (rule machine.reach_inv)

end

end
