(* ===== verification/SpeedSafety.thy ===== *)
theory SpeedSafety
  imports SpeedService
begin

text \<open>
  The properties of the speed limiter: limiters follow the configuration in force, clients
  share or do not share limiters as configured, removing a configuration stops throttling at
  once, and a throttled connection charges every byte to the right limiter and never waits
  for more than a burst. \<open>bucket_pkg\<close> is a minimal limiter that meets the contract.
\<close>

section \<open>A limiter that meets the contract\<close>

record bucket =
  bk_limit :: rate_limit
  bk_burst :: int
  bk_granted :: int

text \<open>The context is whether it is still alive.\<close>

definition bucket_pkg :: "(bool, bucket) rate_pkg" where
  "bucket_pkg = \<lparr>
     rl_NewLimiter = (\<lambda>r b. \<lparr>bk_limit = r, bk_burst = b, bk_granted = 0\<rparr>),
     rl_SetLimit = (\<lambda>r l. l\<lparr>bk_limit := r\<rparr>),
     rl_SetBurst = (\<lambda>b l. l\<lparr>bk_burst := b\<rparr>),
     rl_Burst = bk_burst,
     rl_WaitN = (\<lambda>alive n l.
       if \<not> alive then (Some (EDriver ''context canceled''), l)
       else if n > bk_burst l \<and> bk_limit l \<noteq> RateInf
       then (Some (EDriver ''rate: Wait exceeds limiter's burst''), l)
       else (None, l\<lparr>bk_granted := bk_granted l + n\<rparr>))\<rparr>"

interpretation buckets: speed_limiter bucket_pkg bk_limit bk_granted "\<lambda>alive. alive" hm for hm
  by unfold_locales (auto simp: bucket_pkg_def split: if_splits)

lemma bucket_rates: "rate_limiters bucket_pkg bk_limit bk_granted (\<lambda>alive. alive)"
  by unfold_locales

definition demo_clock :: local_clock where
  "demo_clock t = ((t div 3600) mod 24, (t div 60) mod 60)"

definition demo_options :: "bool \<Rightarrow> SpeedLimiterServiceOptions" where
  "demo_options pc =
     \<lparr>so_Default = Some \<lparr>sd_UploadMbps = 8, sd_DownloadMbps = 0, sd_PerClient = pc, sd_ClientTTLMinutes = 0\<rparr>,
      so_Groups = [], so_Users = [], so_Schedules = []\<rparr>"

definition demo_limits :: "bool \<Rightarrow> bucket limiter_manager" where
  "demo_limits pc =
     (case speed_NewService (demo_options pc) of Inr m \<Rightarrow> m | Inl e \<Rightarrow> undefined)"

definition demo_routed :: "bool \<Rightarrow> bucket limiter_manager" where
  "demo_routed pc =
     snd (speed_RoutedConnection bucket_pkg demo_clock ''ann'' (Some ''10.0.0.1'') 100 (demo_limits pc))"

lemmas demo_defs = demo_options_def speed_NewService_def NewLimiterManager_def new_snapshot_def

lemma demo_limits_eq:
  "demo_limits pc = \<lparr>config = \<lparr>defaultConfig = Some \<lparr>UploadMbps = 8, DownloadMbps = 0, PerClient = pc\<rparr>,
       groups = Map.empty, userGroups = Map.empty, userOverrides = Map.empty, userRawConfig = Map.empty,
       schedules = [], userSchedules = Map.empty, clientTTL = 600000000000\<rparr>,
     limiters = Map.empty, lastCheckTime = 0, hasChecked = False, lims = []\<rparr>"
  by (simp add: demo_limits_def demo_defs Let_def defaultClientTTLMinutes_def minute_ns_def)

lemma demo_limits_reach: "reach speed_init (speed_step bucket_pkg hm) (demo_limits pc)"
proof (rule reach_init)
  have "speed_NewService (demo_options pc) = Inr (demo_limits pc)"
    by (simp add: demo_limits_def demo_defs Let_def)
  then show "speed_init (demo_limits pc)" unfolding speed_init_def by blast
qed

lemma demo_routed_reach: "reach speed_init (speed_step bucket_pkg demo_clock) (demo_routed pc)"
  unfolding demo_routed_def by (rule reach_step [OF demo_limits_reach Route]) simp

definition demo_bucket :: bucket where
  "demo_bucket = \<lparr>bk_limit = Rate 1000000, bk_burst = 1000000, bk_granted = 0\<rparr>"

lemma demo_bps: "bps_of 8 = 1000000" "burst_of 8 = 1000000"
  by (simp_all add: bps_of_def burst_of_def MbpsToBps_def f64_of_int_exact trunc_i64_exact)

lemma demo_get:
  "GetOrCreateLimiterForClient bucket_pkg demo_clock ''ann'' (Some ''10.0.0.1'') 100 (demo_limits pc) =
     (Some \<lparr>ul_Upload = Some 0, ul_Download = None, lastActive = 100\<rparr>,
      (demo_limits pc)\<lparr>lims := [demo_bucket],
        limiters := [(if pc then ''ann|10.0.0.1'' else ''ann'') \<mapsto>
          \<lparr>ul_Upload = Some 0, ul_Download = None, lastActive = 100\<rparr>]\<rparr>)"
  by (simp add: GetOrCreateLimiterForClient_def current_config_def resolveConfig_def demo_limits_eq
      limiter_key_def clientLimiterKeySep_def NewLimiter_def demo_bps demo_bucket_def bucket_pkg_def Let_def)

lemma demo_routed_eq:
  "demo_routed pc = (demo_limits pc)\<lparr>lims := [demo_bucket],
     limiters := [(if pc then ''ann|10.0.0.1'' else ''ann'') \<mapsto>
       \<lparr>ul_Upload = Some 0, ul_Download = None, lastActive = 100\<rparr>]\<rparr>"
  by (simp add: demo_routed_def speed_RoutedConnection_def demo_get)

lemma demo_current:
  "current_config demo_clock (demo_routed pc) u = Some \<lparr>UploadMbps = 8, DownloadMbps = 0, PerClient = pc\<rparr>"
  "current_config demo_clock (demo_limits pc) u = Some \<lparr>UploadMbps = 8, DownloadMbps = 0, PerClient = pc\<rparr>"
  by (simp_all add: demo_routed_eq demo_limits_eq current_config_def resolveConfig_def)

section \<open>Limiters follow the configuration\<close>

lemma reach_speed_inv:
  assumes "rate_limiters R limit_of granted live" and "reach speed_init (speed_step R hm) m"
  shows "speed_inv R limit_of hm m"
  by (rule speed_limiter.reachable_inv [OF speed_limiter.intro [OF assms(1)] assms(2)])

lemma inv_entry:
  assumes "speed_inv R limit_of hm m" and "limiters m k = Some ul"
  obtains cfg where "current_config hm m (extractUserName k) = Some cfg"
    and "at_speed R limit_of (lims m) (ul_Upload ul) (UploadMbps cfg)"
    and "at_speed R limit_of (lims m) (ul_Download ul) (DownloadMbps cfg)"
    and "ul_Upload ul \<noteq> None \<or> ul_Download ul \<noteq> None"
proof -
  have "synced R limit_of hm m k ul"
    using assms by (simp add: speed_inv_def synced_but_def)
  then show thesis unfolding synced_def by (elim exE conjE) (rule that)
qed

lemma inv_ptrs_ok: "speed_inv R limit_of hm m \<Longrightarrow> ptrs_ok m"
  by (simp add: speed_inv_def synced_but_def)

text \<open>
  C25. In every reachable limiter manager each entry of the limiter map belongs to a user that
  has a speed in force, its upload and download limiters run at exactly that speed (absent for
  a speed that is not positive, but never both absent), and no other entry or direction uses
  the same limiter.
\<close>
theorem limiters_follow_config:
  assumes "rate_limiters R limit_of granted live" and "reach speed_init (speed_step R hm) m"
    and "limiters m k = Some ul"
  shows "(\<exists>cfg. current_config hm m (extractUserName k) = Some cfg \<and>
      at_speed R limit_of (lims m) (ul_Upload ul) (UploadMbps cfg) \<and>
      at_speed R limit_of (lims m) (ul_Download ul) (DownloadMbps cfg) \<and>
      (UploadMbps cfg > 0 \<or> DownloadMbps cfg > 0)) \<and>
    (\<forall>k' ul' d d'. limiters m k' = Some ul' \<longrightarrow> ul_ptr ul d \<noteq> None \<longrightarrow> ul_ptr ul d = ul_ptr ul' d' \<longrightarrow>
       k' = k \<and> d' = d)"
proof (rule conjI)
  note inv = reach_speed_inv [OF assms(1,2)]
  show "\<exists>cfg. current_config hm m (extractUserName k) = Some cfg \<and>
      at_speed R limit_of (lims m) (ul_Upload ul) (UploadMbps cfg) \<and>
      at_speed R limit_of (lims m) (ul_Download ul) (DownloadMbps cfg) \<and>
      (UploadMbps cfg > 0 \<or> DownloadMbps cfg > 0)"
    by (rule inv_entry [OF inv assms(3)]) (auto simp: at_speed_def split: option.splits)
  show "\<forall>k' ul' d d'. limiters m k' = Some ul' \<longrightarrow> ul_ptr ul d \<noteq> None \<longrightarrow> ul_ptr ul d = ul_ptr ul' d' \<longrightarrow>
       k' = k \<and> d' = d"
  proof (intro allI impI)
    fix k' ul' d d'
    assume l: "limiters m k' = Some ul'" and "ul_ptr ul d \<noteq> None" and e: "ul_ptr ul d = ul_ptr ul' d'"
    then obtain i where "ul_ptr ul d = Some i" by blast
    with e have "ptr m k d = Some i" and "ptr m k' d' = Some i"
      by (simp_all add: ptr_entry [OF assms(3)] ptr_entry [OF l])
    from ptrs_okD(2) [OF inv_ptrs_ok [OF inv] this] show "k' = k \<and> d' = d" by simp
  qed
qed

theorem limiters_follow_config_witness:
  "\<exists>cfg. current_config demo_clock (demo_routed True) (extractUserName ''ann|10.0.0.1'') = Some cfg \<and>
     limiters (demo_routed True) ''ann|10.0.0.1'' \<noteq> None \<and> UploadMbps cfg = 8"
proof -
  let ?ul = "\<lparr>ul_Upload = Some 0, ul_Download = None, lastActive = 100\<rparr>"
  have l: "limiters (demo_routed True) ''ann|10.0.0.1'' = Some ?ul"
    by (simp add: demo_routed_eq)
  from limiters_follow_config [OF bucket_rates demo_routed_reach l] l
  show ?thesis by (simp add: demo_current)
qed

section \<open>Handing out limiters\<close>

lemma GetOrCreate_cases:
  assumes "rate_limiters R limit_of granted live" and inv: "speed_inv R limit_of hm m"
    and u: "CHR ''|'' \<notin> set u" and get: "GetOrCreateLimiterForClient R hm u addr t m = (r, m')"
  shows "case r of
      None \<Rightarrow> m' = m \<and> (case current_config hm m u of
          None \<Rightarrow> True | Some cfg \<Rightarrow> UploadMbps cfg \<le> 0 \<and> DownloadMbps cfg \<le> 0)
    | Some ul \<Rightarrow> lastActive ul = t \<and> (\<exists>cfg. current_config hm m u = Some cfg \<and>
        limiters m' = (limiters m)(limiter_key u cfg addr \<mapsto> ul) \<and> config m' = config m \<and>
        current_config hm m' = current_config hm m \<and>
        (\<forall>old. limiters m (limiter_key u cfg addr) = Some old \<longrightarrow> ul = old\<lparr>lastActive := t\<rparr>))"
proof (cases "current_config hm m u")
  case None
  with get show ?thesis by (auto simp: GetOrCreateLimiterForClient_def)
next
  case (Some cfg)
  let ?k = "limiter_key u cfg addr"
  show ?thesis
  proof (cases "limiters m ?k")
    case None
    obtain up h1 where n1: "NewLimiter R (UploadMbps cfg) (lims m) = (up, h1)" by fastforce
    obtain down h2 where n2: "NewLimiter R (DownloadMbps cfg) h1 = (down, h2)" by fastforce
    have "h2 = lims m \<and> UploadMbps cfg \<le> 0 \<and> DownloadMbps cfg \<le> 0" if "up = None" "down = None"
      using n1 n2 that by (auto simp: NewLimiter_def split: if_splits)
    with get Some None n1 n2 show ?thesis
      by (auto simp: GetOrCreateLimiterForClient_def Let_def split: if_splits)
  next
    case (Some ul)
    with get \<open>current_config hm m u = Some cfg\<close> show ?thesis
      by (auto simp: GetOrCreateLimiterForClient_def Let_def)
  qed
qed

text \<open>
  In every reachable manager, asking for the limiters of a user (whose name is free of the
  key separator) gives none exactly when the speed in force leaves both directions unlimited,
  and otherwise limiters that run at exactly that speed, entered in the map under the key of
  the user or of the user and client address and stamped with the current time.
\<close>
theorem GetOrCreate_speed:
  assumes "rate_limiters R limit_of granted live" and "reach speed_init (speed_step R hm) m"
    and "CHR ''|'' \<notin> set u"
  shows "case GetOrCreateLimiterForClient R hm u addr t m of (r, m') \<Rightarrow>
    (r = None \<longleftrightarrow> (case current_config hm m u of
        None \<Rightarrow> True | Some cfg \<Rightarrow> UploadMbps cfg \<le> 0 \<and> DownloadMbps cfg \<le> 0)) \<and>
    (\<forall>ul. r = Some ul \<longrightarrow> lastActive ul = t \<and> (\<exists>cfg. current_config hm m u = Some cfg \<and>
        at_speed R limit_of (lims m') (ul_Upload ul) (UploadMbps cfg) \<and>
        at_speed R limit_of (lims m') (ul_Download ul) (DownloadMbps cfg) \<and>
        limiters m' = (limiters m)(limiter_key u cfg addr \<mapsto> ul)))"
proof -
  note inv = reach_speed_inv [OF assms(1,2)]
  obtain r m' where get: "GetOrCreateLimiterForClient R hm u addr t m = (r, m')" by fastforce
  have inv': "speed_inv R limit_of hm m'"
    using rate_limiters.GetOrCreate_inv [OF assms(1) inv assms(3), of addr t] get by simp
  note c = GetOrCreate_cases [OF assms(1) inv assms(3) get]
  show ?thesis
  proof (cases r)
    case None
    with c get show ?thesis by auto
  next
    case (Some ul)
    with c obtain cfg where cfg: "current_config hm m u = Some cfg" "lastActive ul = t"
      and l: "limiters m' = (limiters m)(limiter_key u cfg addr \<mapsto> ul)"
      and same: "current_config hm m' = current_config hm m"
      by auto
    from l have "limiters m' (limiter_key u cfg addr) = Some ul" by simp
    from inv_entry [OF inv' this] cfg same extract_key [OF assms(3)]
    have sp: "at_speed R limit_of (lims m') (ul_Upload ul) (UploadMbps cfg)"
      "at_speed R limit_of (lims m') (ul_Download ul) (DownloadMbps cfg)"
      "ul_Upload ul \<noteq> None \<or> ul_Download ul \<noteq> None" by auto
    then have "UploadMbps cfg > 0 \<or> DownloadMbps cfg > 0" by (auto simp: at_speed_def)
    with sp(1,2) cfg l Some get show ?thesis by auto
  qed
qed

theorem GetOrCreate_speed_witness:
  "\<exists>ul m'. GetOrCreateLimiterForClient bucket_pkg demo_clock ''ann'' (Some ''10.0.0.1'') 100 (demo_limits False) =
     (Some ul, m') \<and> at_speed bucket_pkg bk_limit (lims m') (ul_Upload ul) 8 \<and> ul_Download ul = None"
proof -
  have "CHR ''|'' \<notin> set ''ann''" by simp
  from GetOrCreate_speed [OF bucket_rates demo_limits_reach [of demo_clock False] this, where addr = "Some ''10.0.0.1''" and t = 100]
  show ?thesis by (simp add: demo_get demo_current)
qed



section \<open>Removing a configuration\<close>

definition key_of_user :: "string \<Rightarrow> string \<Rightarrow> bool" where
  "key_of_user u k \<longleftrightarrow> k = u \<or> HasPrefix k (u @ clientLimiterKeySep)"

lemma key_of_user_iff:
  assumes "CHR ''|'' \<notin> set u"
  shows "key_of_user u k \<longleftrightarrow> extractUserName k = u"
proof
  assume "key_of_user u k"
  then consider "k = u" | rest where "k = u @ CHR ''|'' # rest"
    by (auto simp: key_of_user_def HasPrefix_iff clientLimiterKeySep_def)
  then show "extractUserName k = u"
    using assms by cases (simp_all add: extractUserName_def str_cut_append str_cut_None_iff [THEN iffD2])
next
  assume "extractUserName k = u"
  then show "key_of_user u k" using unmatched_key [of k u] by (auto simp: key_of_user_def)
qed

lemma remove_key_eq:
  "remove_key R u k m =
     (if key_of_user u k \<and> limiters m k \<noteq> None
      then m\<lparr>lims := neutralizeLimiter R (ptr m k False) (neutralizeLimiter R (ptr m k True) (lims m)),
             limiters := (limiters m)(k := None)\<rparr>
      else m)"
  by (auto simp: remove_key_def key_of_user_def ptr_def ul_ptr_def split: option.splits)

lemma remove_key_same [simp]:
  "config (remove_key R u k m) = config m"
  "length (lims (remove_key R u k m)) = length (lims m)"
  "limiters (remove_key R u k m) = (\<lambda>k'. if k' = k \<and> key_of_user u k then None else limiters m k')"
  by (auto simp: remove_key_eq)

lemma ptr_remove_key:
  "ptr (remove_key R u k m) k' d = (if k' = k \<and> key_of_user u k then None else ptr m k' d)"
  by (simp add: ptr_def)

lemma remove_key_other:
  "(\<And>d. key_of_user u k \<Longrightarrow> ptr m k d \<noteq> Some i) \<Longrightarrow> lims (remove_key R u k m) ! i = lims m ! i"
  by (auto simp: remove_key_eq)

lemma fold_remove_same:
  "config (fold (remove_key R u) order m) = config m"
  "length (lims (fold (remove_key R u) order m)) = length (lims m)"
  "limiters (fold (remove_key R u) order m) =
     (\<lambda>k. if k \<in> set order \<and> key_of_user u k then None else limiters m k)"
  by (induction order arbitrary: m) (auto simp: fun_eq_iff)

lemma fold_remove_other:
  assumes "\<And>k d. k \<in> set order \<Longrightarrow> key_of_user u k \<Longrightarrow> ptr m k d \<noteq> Some i"
  shows "lims (fold (remove_key R u) order m) ! i = lims m ! i"
  using assms
  by (induction order arbitrary: m) (auto simp: ptr_remove_key remove_key_other split: if_splits)

context rate_limiters
begin

lemma remove_key_keeps_inf:
  "i < length (lims m) \<Longrightarrow> limit_of (lims m ! i) = RateInf \<Longrightarrow>
     limit_of (lims (remove_key R u k m) ! i) = RateInf"
  by (simp add: remove_key_eq neutralize_keeps_inf)

lemma remove_key_inf:
  assumes "key_of_user u k" and "ptr m k d = Some i" and "i < length (lims m)"
  shows "limit_of (lims (remove_key R u k m) ! i) = RateInf"
proof -
  have "limiters m k \<noteq> None" using assms(2) by (auto simp: ptr_def split: option.splits)
  with assms show ?thesis
    by (cases d) (simp_all add: remove_key_eq neutralize_keeps_inf neutralize_inf)
qed

lemma fold_remove_keeps_inf:
  "i < length (lims m) \<Longrightarrow> limit_of (lims m ! i) = RateInf \<Longrightarrow>
     limit_of (lims (fold (remove_key R u) order m) ! i) = RateInf"
  by (induction order arbitrary: m) (simp_all add: remove_key_keeps_inf)

lemma fold_remove_inf:
  assumes "k \<in> set order" and "key_of_user u k" and "ptr m k d = Some i" and "i < length (lims m)"
  shows "limit_of (lims (fold (remove_key R u) order m) ! i) = RateInf"
  using assms
proof (induction order arbitrary: m)
  case (Cons k' ks)
  show ?case
  proof (cases "k' = k")
    case True
    with Cons.prems show ?thesis
      by (simp add: fold_remove_keeps_inf remove_key_inf)
  next
    case False
    then have "ptr (remove_key R u k' m) k d = Some i"
      using Cons.prems by (simp add: ptr_remove_key)
    with False Cons show ?thesis by simp
  qed
qed simp

end

text \<open>
  Removing the configuration of a user (whose name is free of the key separator) forgets
  the configuration, drops every limiter of the user and of all its clients from the map and
  no other, and lifts the rate of each dropped limiter, so that connections which captured it
  stop throttling at once; every other limiter is left exactly as it was.
\<close>
theorem RemoveConfig_lifts_limits:
  assumes "rate_limiters R limit_of granted live" and "reach speed_init (speed_step R hm) m"
    and "range_order order (limiters m)" and "CHR ''|'' \<notin> set u" and "u \<noteq> ''''"
  shows "case speed_RemoveConfig R order u m of (err, m') \<Rightarrow>
    err = None \<and> speed_GetConfig u m' = None \<and> resolveConfig (config m') u = defaultConfig (config m) \<and>
    limiters m' = (\<lambda>k. if extractUserName k = u then None else limiters m k) \<and>
    (\<forall>k ul d i. limiters m k = Some ul \<longrightarrow> ul_ptr ul d = Some i \<longrightarrow>
       (if extractUserName k = u then limit_of (lims m' ! i) = RateInf else lims m' ! i = lims m ! i))"
proof -
  let ?snap = "(config m)\<lparr>userGroups := (userGroups (config m))(u := None),
    userOverrides := (userOverrides (config m))(u := None),
    userRawConfig := (userRawConfig (config m))(u := None)\<rparr>"
  let ?m0 = "m\<lparr>config := ?snap\<rparr>"
  let ?m' = "fold (remove_key R u) order ?m0"
  have eq: "speed_RemoveConfig R order u m = (None, ?m')"
    using assms(5) by (simp add: speed_RemoveConfig_def Let_def)
  note ok = inv_ptrs_ok [OF reach_speed_inv [OF assms(1,2)]]
  have ptr0: "ptr ?m0 = ptr m" by (simp add: ptr_def fun_eq_iff)
  have l: "limiters ?m' = (\<lambda>k. if extractUserName k = u then None else limiters m k)"
    using assms(3) by (auto simp: fold_remove_same key_of_user_iff [OF assms(4)] range_orderD fun_eq_iff)
  have "if extractUserName k = u then limit_of (lims ?m' ! i) = RateInf else lims ?m' ! i = lims m ! i"
    if e: "limiters m k = Some ul" and p: "ul_ptr ul d = Some i" for k ul d i
  proof -
    have pt: "ptr m k d = Some i" using p by (simp add: ptr_entry [OF e])
    have k: "k \<in> set order" using e assms(3) by (simp add: range_orderD(2))
    show ?thesis
    proof (cases "extractUserName k = u")
      case True
      then have "key_of_user u k" by (simp add: key_of_user_iff [OF assms(4)])
      from rate_limiters.fold_remove_inf [OF assms(1) k this, of ?m0 d i] True
      show ?thesis using pt ptrs_okD(1) [OF ok pt] by (simp add: ptr0)
    next
      case False
      have "ptr ?m0 k' d' \<noteq> Some i" if "key_of_user u k'" for k' d'
        using ptrs_okD(2) [OF ok pt, of k' d'] that False
        by (auto simp: ptr0 key_of_user_iff [OF assms(4)])
      with False show ?thesis by (simp add: fold_remove_other)
    qed
  qed
  moreover have "speed_GetConfig u ?m' = None" "resolveConfig (config ?m') u = defaultConfig (config m)"
    by (simp_all add: speed_GetConfig_def fold_remove_same resolveConfig_def)
  ultimately show ?thesis using l unfolding eq by blast
qed

theorem RemoveConfig_lifts_limits_witness:
  "\<exists>m'. speed_RemoveConfig bucket_pkg [''ann|10.0.0.1''] ''ann'' (demo_routed True) = (None, m') \<and>
     limiters (demo_routed True) ''ann|10.0.0.1'' \<noteq> None \<and> limiters m' ''ann|10.0.0.1'' = None \<and>
     bk_limit (lims (demo_routed True) ! 0) = Rate 1000000 \<and> bk_limit (lims m' ! 0) = RateInf"
proof -
  have o: "range_order [''ann|10.0.0.1''] (limiters (demo_routed True))"
    by (simp add: range_order_def demo_routed_eq)
  have n: "CHR ''|'' \<notin> set ''ann''" "''ann'' \<noteq> ''''" by simp_all
  have x: "extractUserName ''ann|10.0.0.1'' = ''ann''" by code_simp
  obtain err m' where r: "speed_RemoveConfig bucket_pkg [''ann|10.0.0.1''] ''ann'' (demo_routed True) = (err, m')"
    by fastforce
  have l: "limiters (demo_routed True) ''ann|10.0.0.1'' = Some \<lparr>ul_Upload = Some 0, ul_Download = None, lastActive = 100\<rparr>"
    by (simp add: demo_routed_eq)
  from RemoveConfig_lifts_limits [OF bucket_rates demo_routed_reach o n, unfolded r prod.case]
  have "err = None" and "limiters m' ''ann|10.0.0.1'' = None"
    and "bk_limit (lims m' ! 0) = RateInf"
    using l x by (auto simp: ul_ptr_def all_bool_eq)
  with r l show ?thesis by (simp add: demo_routed_eq demo_bucket_def)
qed

section \<open>Throttled connections\<close>

text \<open>
  C31. \<open>waitN\<close> returns for every limiter, context and byte count. It changes no other limiter
  and no rate; when it succeeds the limiter has granted exactly the requested events, when it
  fails fewer; and while the context lives it cannot fail on a limiter whose burst is
  positive, however large the request, because no chunk exceeds the burst.
\<close>
theorem waitN_terminates:
  assumes "rate_limiters R limit_of granted live" and "i < length h"
  shows "\<exists>err l. waitN R ctx i n h = Some (err, h[i := l]) \<and>
    limit_of l = limit_of (h ! i) \<and> rl_Burst R l = rl_Burst R (h ! i) \<and>
    (case err of None \<Rightarrow> granted l = granted (h ! i) + max 0 n
               | Some e \<Rightarrow> granted (h ! i) \<le> granted l \<and> granted l < granted (h ! i) + n) \<and>
    (live ctx \<and> 0 < rl_Burst R (h ! i) \<longrightarrow> err = None)"
  using rate_limiters.waitN_returns [OF assms, of ctx n] by blast

theorem waitN_terminates_witness:
  "\<exists>l. waitN bucket_pkg True 0 2500000 [demo_bucket] = Some (None, [l]) \<and> bk_granted l = 2500000"
proof -
  have "0 < length [demo_bucket]" by simp
  from waitN_terminates [OF bucket_rates this, of True 2500000] obtain err l where
    w: "waitN bucket_pkg True 0 2500000 [demo_bucket] = Some (err, [l])"
    and g: "case err of None \<Rightarrow> bk_granted l = 2500000 | Some e \<Rightarrow> True"
    and "0 < bk_burst demo_bucket \<longrightarrow> err = None"
    by (auto simp: demo_bucket_def bucket_pkg_def split: option.splits)
  then have "err = None" by (simp add: demo_bucket_def)
  with w g show ?thesis by simp
qed

lemma burst_pos: "0 < burst_of mbps"
  by (simp add: burst_of_def Let_def)

text \<open>The limiter of one direction after \<open>n\<close> bytes have passed.\<close>

definition charged ::
  "('l \<Rightarrow> int) \<Rightarrow> lim_id option \<Rightarrow> int \<Rightarrow> 'l list \<Rightarrow> 'l list \<Rightarrow> bool" where
  "charged granted p n h h' \<longleftrightarrow>
     (case p of
        None \<Rightarrow> h' = h
      | Some i \<Rightarrow> (\<exists>l. h' = h[i := l] \<and> granted l = granted (h ! i) + n))"

lemma at_speed_wait:
  assumes "rate_limiters R limit_of granted live" and "at_speed R limit_of h (Some i) s"
    and "live ctx" and "0 < n"
  shows "\<exists>h'. waitN R ctx i n h = Some (None, h') \<and> charged granted (Some i) n h h'"
proof -
  have i: "i < length h" and b: "0 < rl_Burst R (h ! i)"
    using assms(2) burst_pos [of s] by (auto simp: at_speed_def)
  from rate_limiters.waitN_returns [OF assms(1) i, of ctx n] b assms(3,4)
  show ?thesis by (auto simp: charged_def max_def)
qed

lemma charged_zero: "charged granted p 0 h h"
  by (auto simp: charged_def split: option.splits intro!: exI [of _ "h ! i" for i])



section \<open>What the manager does not keep\<close>

text \<open>
  A per-client limiter is stamped only when a connection is routed. When its only connection
  outlives the TTL, the cleaning pass drops the entry but not the rate: the connection keeps
  its old limiter, and the next connection of the same client gets a second one of full speed.
\<close>

lemma expired_limiter_duplicated:
  fixes m :: "bucket limiter_manager"
  defines "m \<equiv> CheckSchedules bucket_pkg demo_clock [''ann|10.0.0.1''] [''ann|10.0.0.1''] 701 (demo_routed True)"
  shows "limiters m ''ann|10.0.0.1'' = None \<and> bk_limit (lims m ! 0) = Rate 1000000 \<and>
    (case GetOrCreateLimiterForClient bucket_pkg demo_clock ''ann'' (Some ''10.0.0.1'') 702 m of
       (Some ul, m') \<Rightarrow> ul_Upload ul = Some 1 \<and> bk_limit (lims m' ! 0) = Rate 1000000 \<and>
         bk_limit (lims m' ! 1) = Rate 1000000
     | (None, m') \<Rightarrow> False)"
proof -
  have x: "extractUserName ''ann|10.0.0.1'' = ''ann''" "Contains ''ann|10.0.0.1'' ''|''" by code_simp+
  have eff: "effectiveSpeed hm (config (demo_limits True)) u t =
      Some \<lparr>UploadMbps = 8, DownloadMbps = 0, PerClient = True\<rparr>" for hm u t
    by (simp add: effectiveSpeed_def resolveConfig_def demo_limits_eq activeUserSchedule_def
        activeGlobalSchedule_def last_match_def over_schedule_def)
  have q: "go_quot (clientTTL (config (demo_limits True))) second_ns = 600"
    by (simp add: demo_limits_eq go_quot_def second_ns_def)
  have m: "m = (demo_limits True)\<lparr>lastCheckTime := 701, hasChecked := True, lims := [demo_bucket],
      limiters := Map.empty\<rparr>"
    unfolding m_def
    by (simp add: CheckSchedules_def updateLimiterRates_def update_key_def demo_routed_eq x eff q
        reconcileLimiterDirection_def SetLimiterRate_def neutralizeLimiter_def demo_bps demo_bucket_def
        bucket_pkg_def cleanExpiredClientLimiters_def clean_key_def clientLimiterKeySep_def
        Let_def del: Contains.simps)
  show ?thesis
    unfolding m
    by (simp add: GetOrCreateLimiterForClient_def current_config_def eff limiter_key_def
        clientLimiterKeySep_def NewLimiter_def demo_bps demo_bucket_def bucket_pkg_def Let_def)
qed

end
