(* ===== verification/DynamicSources.thy ===== *)
theory DynamicSources
  imports QuotaLedger SpeedSafety
begin

text \<open>
  The dynamic configuration sources, \<open>src/service/dynamicconfig/source_redis.go\<close> and
  \<open>source_postgres.go\<close>, and what they do to the two services that receive from them.

  A source hands rows to a receiver. The locale \<open>config_receiver\<close> is the contract between the
  two: a receiver never panics, keeps its invariant, and changes the configuration of the
  addressed user alone, all or nothing. What a batch of rows does is proved once in the locale,
  which is interpreted on the receivers of the traffic quota service and the speed limiter.

  JSON decoding and the answers of Redis and PostgreSQL are parameters. A failed callback is
  only logged by the sources; the functions return the logged errors.
\<close>

section \<open>Redis\<close>

record redisMessage =
  rm_User :: string
  rm_UploadMbps :: int
  rm_DownloadMbps :: int
  rm_PerClient :: "bool option"
  rm_QuotaGB :: rat
  rm_Period :: string
  rm_PeriodStart :: string
  rm_PeriodDays :: int
  rm_Delete :: bool

type_synonym message_decoder = "string \<Rightarrow> go_error + redisMessage"

definition row_of_message :: "redisMessage \<Rightarrow> ConfigRow" where
  "row_of_message msg =
     \<lparr>cr_User = rm_User msg, cr_UploadMbps = rm_UploadMbps msg, cr_DownloadMbps = rm_DownloadMbps msg,
      cr_PerClient = rm_PerClient msg, cr_QuotaGB = rm_QuotaGB msg, cr_Period = rm_Period msg,
      cr_PeriodStart = rm_PeriodStart msg, cr_PeriodDays = rm_PeriodDays msg, cr_Authoritative = False\<rparr>"

definition logged :: "(go_error option \<times> 's) go \<Rightarrow> (go_error list \<times> 's) go" where
  "logged r = go_bind r (\<lambda>(err, s). Ret (case err of None \<Rightarrow> [] | Some e \<Rightarrow> [e], s))"

text \<open>
  The body of the receive loop; \<open>nameless\<close> is what is logged for a message without a user,
  nothing when the hash is polled.
\<close>

definition handle_message ::
  "message_decoder \<Rightarrow> go_error list \<Rightarrow> 's Receiver \<Rightarrow> string \<Rightarrow> 's \<Rightarrow> (go_error list \<times> 's) go" where
  "handle_message decode nameless rcv payload s =
     (case decode payload of
        Inl e \<Rightarrow> Ret ([e], s)
      | Inr msg \<Rightarrow>
          if rm_User msg = '''' then Ret (nameless, s)
          else if rm_Delete msg then logged (rv_Remove rcv (rm_User msg) s)
          else logged (rv_Apply rcv (row_of_message msg) s))"

fun handle_messages ::
  "message_decoder \<Rightarrow> go_error list \<Rightarrow> 's Receiver \<Rightarrow> string list \<Rightarrow> 's \<Rightarrow> (go_error list \<times> 's) go" where
  "handle_messages decode nameless rcv [] s = Ret ([], s)"
| "handle_messages decode nameless rcv (v # vs) s =
     go_bind (handle_message decode nameless rcv v s) (\<lambda>(log1, s1).
       go_bind (handle_messages decode nameless rcv vs s1) (\<lambda>(log2, s2). Ret (log1 @ log2, s2)))"

record DynamicRedisOptions =
  dr_Channel :: string
  dr_HashKey :: string
  dr_UpdateInterval :: int

record RedisSource =
  channel :: string
  hashKey :: string
  rs_updateInterval :: int

definition NewRedisSource :: "DynamicRedisOptions \<Rightarrow> RedisSource" where
  "NewRedisSource opts =
     \<lparr>channel = (if dr_Channel opts = '''' then ''sing-box:config:updates'' else dr_Channel opts),
      hashKey = dr_HashKey opts,
      rs_updateInterval =
        (if dr_UpdateInterval opts = 0 then 30 * second_ns else dr_UpdateInterval opts)\<rparr>"

text \<open>
  \<open>hgetall\<close> is the answer of \<open>HGETALL\<close>: the values of the hash in the order in which the
  map that holds them is visited.
\<close>

definition pollHash ::
  "message_decoder \<Rightarrow> (string \<Rightarrow> go_error + string list) \<Rightarrow> RedisSource \<Rightarrow> 's Receiver \<Rightarrow> 's \<Rightarrow>
     (go_error option \<times> go_error list \<times> 's) go" where
  "pollHash decode hgetall src rcv s =
     (case hgetall (hashKey src) of
        Inl e \<Rightarrow> Ret (Some (ECause e [''HGETALL '', hashKey src]), [], s)
      | Inr values \<Rightarrow>
          go_bind (handle_messages decode [] rcv values s) (\<lambda>(log, s'). Ret (None, log, s')))"

text \<open>
  \<open>doSubscribe\<close> on the messages its channel delivers before it is closed (\<open>closed\<close>) or, with
  \<open>closed\<close> false, before the context ends with \<open>ctx_err\<close>.
\<close>

definition doSubscribe ::
  "message_decoder \<Rightarrow> 's Receiver \<Rightarrow> string list \<Rightarrow> bool \<Rightarrow> go_error \<Rightarrow> 's \<Rightarrow>
     (go_error \<times> go_error list \<times> 's) go" where
  "doSubscribe decode rcv msgs chan_closed ctx_err s =
     go_bind (handle_messages decode [ENew [''dynamic-config redis: missing user in payload'']] rcv msgs s)
       (\<lambda>(log, s'). Ret (if chan_closed then ENew [''Redis Pub/Sub channel closed''] else ctx_err, log, s'))"

text \<open>The wait before the next attempt, in both sources.\<close>

definition next_backoff :: "int \<Rightarrow> int" where
  "next_backoff b = (if b < 60 * second_ns then b * 2 else b)"

definition backoff :: "nat \<Rightarrow> int" where
  "backoff n = (next_backoff ^^ n) second_ns"

section \<open>PostgreSQL\<close>

definition identifierRe :: "string \<Rightarrow> bool" where
  "identifierRe s = (case s of [] \<Rightarrow> False | c # cs \<Rightarrow> ident_start c \<and> list_all ident_char cs)"

definition validateIdentifier :: "string \<Rightarrow> go_error option" where
  "validateIdentifier name =
     (if \<not> identifierRe name then Some (ENew [''invalid identifier: '', name]) else None)"

definition quoteIdentifier :: "string \<Rightarrow> string" where
  "quoteIdentifier name =
     ''\"'' @ concat (map (\<lambda>c. if c = CHR ''\"'' then ''\"\"'' else [c]) name) @ ''\"''"

record DynamicPostgresOptions =
  dp_Table :: string
  dp_NotifyChannel :: string
  dp_UpdateInterval :: int

record PostgresSource =
  quotedTable :: string
  notifyChannel :: string
  quotedChannel :: string
  ps_updateInterval :: int

text \<open>\<open>connect\<close> is the answer of \<open>pgxpool.New\<close>.\<close>

definition NewPostgresSource ::
  "go_error option \<Rightarrow> DynamicPostgresOptions \<Rightarrow> go_error + PostgresSource" where
  "NewPostgresSource connect opts =
     (let table = (if dp_Table opts = '''' then ''users'' else dp_Table opts);
          chan = (if dp_NotifyChannel opts = '''' then ''user_changes'' else dp_NotifyChannel opts)
      in case validateIdentifier table of
           Some e \<Rightarrow> Inl (ECause e [''dynamic-config postgres: invalid table name''])
         | None \<Rightarrow>
             (case validateIdentifier chan of
                Some e \<Rightarrow> Inl (ECause e [''dynamic-config postgres: invalid notify channel name''])
              | None \<Rightarrow>
                  (case connect of
                     Some e \<Rightarrow> Inl (ECause e [''dynamic-config postgres: connect''])
                   | None \<Rightarrow>
                       Inr \<lparr>quotedTable = quoteIdentifier table, notifyChannel = chan,
                            quotedChannel = quoteIdentifier chan,
                            ps_updateInterval =
                              (if dp_UpdateInterval opts = 0 then minute_ns else dp_UpdateInterval opts)\<rparr>)))"

text \<open>The columns of a row, NULLs replaced as the query does.\<close>

record config_columns =
  cc_upload :: int
  cc_download :: int
  cc_per_client :: "bool option"
  cc_quota :: rat
  cc_period :: string
  cc_start :: string
  cc_days :: int

definition authoritative_row :: "string \<Rightarrow> config_columns \<Rightarrow> ConfigRow" where
  "authoritative_row user c =
     \<lparr>cr_User = user, cr_UploadMbps = cc_upload c, cr_DownloadMbps = cc_download c,
      cr_PerClient = cc_per_client c, cr_QuotaGB = cc_quota c, cr_Period = cc_period c,
      cr_PeriodStart = cc_start c, cr_PeriodDays = cc_days c, cr_Authoritative = True\<rparr>"

definition newline :: string where "newline = [CHR 0x0A]"
definition tab :: string where "tab = [CHR 0x09]"
definition empty_literal :: string where "empty_literal = [CHR 0x27, CHR 0x27]"

text \<open>The query texts, with the layout of the raw string literals.\<close>

definition config_select :: string where
  "config_select =
     ''COALESCE(upload_mbps,0), COALESCE(download_mbps,0),'' @ newline @
     tab @ ''                 per_client,'' @ newline @
     tab @ ''                 COALESCE(quota_gb,0), COALESCE(quota_period,'' @ empty_literal @ ''),'' @ newline @
     tab @ ''                 COALESCE(quota_period_start,'' @ empty_literal @ ''), COALESCE(quota_period_days,0)'' @ newline @
     tab @ ''          FROM ''"

definition sql_fetch_all :: "PostgresSource \<Rightarrow> string" where
  "sql_fetch_all src = ''SELECT name, '' @ config_select @ quotedTable src @ newline @
     tab @ ''          WHERE upload_mbps > 0 OR download_mbps > 0 OR quota_gb > 0''"

definition sql_fetch_user :: "PostgresSource \<Rightarrow> string" where
  "sql_fetch_user src = ''SELECT '' @ config_select @ quotedTable src @ '' WHERE name = $1''"

text \<open>
  The database as the source sees it during one call: the rows a query yields, each scanned or
  failing to scan, with the error that ended the iteration; and the row of one user.
\<close>

record config_db =
  db_query :: "string \<Rightarrow> go_error + (go_error + string \<times> config_columns) list \<times> go_error option"
  db_query_row :: "string \<Rightarrow> string \<Rightarrow> pg_error + config_columns"

fun apply_rows ::
  "'s Receiver \<Rightarrow> (go_error + string \<times> config_columns) list \<Rightarrow> 's \<Rightarrow>
     (go_error option \<times> go_error list \<times> 's) go" where
  "apply_rows rcv [] s = Ret (None, [], s)"
| "apply_rows rcv (Inl e # rows) s =
     Ret (Some (ECause e [''dynamic-config postgres scan row'']), [], s)"
| "apply_rows rcv (Inr (user, cols) # rows) s =
     go_bind (logged (rv_Apply rcv (authoritative_row user cols) s)) (\<lambda>(log1, s1).
       go_bind (apply_rows rcv rows s1) (\<lambda>(err, log2, s2). Ret (err, log1 @ log2, s2)))"

definition fetchAll ::
  "PostgresSource \<Rightarrow> config_db \<Rightarrow> 's Receiver \<Rightarrow> 's \<Rightarrow> (go_error option \<times> go_error list \<times> 's) go" where
  "fetchAll src db rcv s =
     (case db_query db (sql_fetch_all src) of
        Inl e \<Rightarrow> Ret (Some (ECause e [''dynamic-config postgres fetchAll query'']), [], s)
      | Inr (rows, rows_err) \<Rightarrow>
          go_bind (apply_rows rcv rows s) (\<lambda>(err, log, s').
            Ret (case err of Some e \<Rightarrow> Some e | None \<Rightarrow> rows_err, log, s')))"

definition fetchUser ::
  "PostgresSource \<Rightarrow> config_db \<Rightarrow> 's Receiver \<Rightarrow> string \<Rightarrow> 's \<Rightarrow> (go_error option \<times> 's) go" where
  "fetchUser src db rcv user s =
     (case db_query_row db (sql_fetch_user src) user of
        Inl PgNoRows \<Rightarrow> rv_Remove rcv user s
      | Inl (PgErr e) \<Rightarrow> Ret (Some (ECause e [''dynamic-config postgres fetchUser '', user]), s)
      | Inr cols \<Rightarrow> rv_Apply rcv (authoritative_row user cols) s)"

text \<open>One notification of \<open>doListen\<close>.\<close>

definition handle_notification ::
  "PostgresSource \<Rightarrow> config_db \<Rightarrow> 's Receiver \<Rightarrow> string \<Rightarrow> 's \<Rightarrow> (go_error list \<times> 's) go" where
  "handle_notification src db rcv payload s =
     (if HasPrefix payload ''del:'' then
        (let user = TrimPrefix payload ''del:''
         in if user = '''' then Ret ([ENew [''dynamic-config postgres: received del: with empty user, ignoring'']], s)
            else logged (rv_Remove rcv user s))
      else if payload = '''' then
        go_bind (fetchAll src db rcv s) (\<lambda>(err, log, s').
          Ret (log @ (case err of None \<Rightarrow> [] | Some e \<Rightarrow> [e]), s'))
      else logged (fetchUser src db rcv payload s))"

text \<open>
  \<open>doListen\<close> on the events of the connection: notifications, each with the database at that
  time, until waiting fails. \<open>None\<close> as the first component: still listening.
\<close>

fun listen_loop ::
  "PostgresSource \<Rightarrow> 's Receiver \<Rightarrow> (go_error + config_db \<times> string) list \<Rightarrow> 's \<Rightarrow>
     (go_error option \<times> go_error list \<times> 's) go" where
  "listen_loop src rcv [] s = Ret (None, [], s)"
| "listen_loop src rcv (Inl e # evs) s = Ret (Some (ECause e [''wait for notification'']), [], s)"
| "listen_loop src rcv (Inr (db, payload) # evs) s =
     go_bind (handle_notification src db rcv payload s) (\<lambda>(log1, s1).
       go_bind (listen_loop src rcv evs s1) (\<lambda>(err, log2, s2). Ret (err, log1 @ log2, s2)))"

definition doListen ::
  "PostgresSource \<Rightarrow> go_error option \<Rightarrow> (string \<Rightarrow> go_error option) \<Rightarrow> 's Receiver \<Rightarrow>
     (go_error + config_db \<times> string) list \<Rightarrow> 's \<Rightarrow> (go_error option \<times> go_error list \<times> 's) go" where
  "doListen src acquire exec rcv evs s =
     (case acquire of
        Some e \<Rightarrow> Ret (Some (ECause e [''acquire LISTEN connection'']), [], s)
      | None \<Rightarrow>
          (case exec (''LISTEN '' @ quotedChannel src) of
             Some e \<Rightarrow> Ret (Some (ECause e [''LISTEN '', notifyChannel src]), [], s)
           | None \<Rightarrow> listen_loop src rcv evs s))"

section \<open>The receiver of the speed limiter\<close>

text \<open>
  \<open>ordf\<close> gives the order in which the runtime visits the limiter map, \<open>t\<close> the current time.
\<close>

definition speed_receiver ::
  "('c, 'l) rate_pkg \<Rightarrow> local_clock \<Rightarrow> ('l limiter_manager \<Rightarrow> string list) \<Rightarrow> int \<Rightarrow>
     'l limiter_manager Receiver" where
  "speed_receiver R hm ordf t =
     \<lparr>rv_Apply = (\<lambda>row m. Ret (speed_applyDynamic R hm (ordf m) t row m)),
      rv_Remove = (\<lambda>u m. Ret (speed_removeDynamic R (ordf m) u m))\<rparr>"

end
