(* ===== verification/DynamicContracts.thy ===== *)
theory DynamicContracts
  imports DynamicSources
begin

text \<open>
  The contract between a dynamic source and a service, what the sources achieve under it, and
  its interpretation on the receivers of the traffic quota service and the speed limiter.
\<close>

section \<open>The contract\<close>

text \<open>
  \<open>view\<close> is the configuration per user and \<open>update\<close> what a row does to the configuration of
  its user when the callback reports no error.
\<close>

locale config_receiver =
  fixes rcv :: "'s Receiver" and inv :: "'s \<Rightarrow> bool" and view :: "'s \<Rightarrow> string \<rightharpoonup> 'v"
    and update :: "ConfigRow \<Rightarrow> 'v option \<Rightarrow> 'v option"
  assumes apply_law: "inv s \<Longrightarrow> \<exists>err s'. rv_Apply rcv row s = Ret (err, s') \<and> inv s' \<and>
      view s' = (if err = None then (view s)(cr_User row := update row (view s (cr_User row))) else view s)"
    and remove_law: "inv s \<Longrightarrow> \<exists>err s'. rv_Remove rcv u s = Ret (err, s') \<and> inv s' \<and>
      view s' = (if err = None then (view s)(u := None) else view s)"

text \<open>The effect of one Redis message, and the messages for one user, in order.\<close>

definition message_effect ::
  "(ConfigRow \<Rightarrow> 'v option \<Rightarrow> 'v option) \<Rightarrow> redisMessage \<Rightarrow> 'v option \<Rightarrow> 'v option" where
  "message_effect update msg old = (if rm_Delete msg then None else update (row_of_message msg) old)"

definition messages_for :: "message_decoder \<Rightarrow> string \<Rightarrow> string list \<Rightarrow> redisMessage list" where
  "messages_for decode u vs =
     concat (map (\<lambda>v. case decode v of
        Inl e \<Rightarrow> [] | Inr msg \<Rightarrow> if rm_User msg = u \<and> u \<noteq> '''' then [msg] else []) vs)"

definition row_effect ::
  "(ConfigRow \<Rightarrow> 'v option \<Rightarrow> 'v option) \<Rightarrow> string \<Rightarrow> pg_error + config_columns \<Rightarrow> 'v option \<Rightarrow> 'v option" where
  "row_effect update u answer old =
     (case answer of
        Inl e \<Rightarrow> None
      | Inr cols \<Rightarrow> update (authoritative_row u cols) old)"

lemma logged_Ret: "logged (Ret (err, s)) = Ret (case err of None \<Rightarrow> [] | Some e \<Rightarrow> [e], s)"
  by (simp add: logged_def)

lemma messages_for_simps [simp]:
  "messages_for decode u [] = []"
  "messages_for decode u (v # vs) =
     (case decode v of Inl e \<Rightarrow> [] | Inr msg \<Rightarrow> if rm_User msg = u \<and> u \<noteq> '''' then [msg] else [])
       @ messages_for decode u vs"
  by (simp_all add: messages_for_def)

context config_receiver
begin

lemma handle_message_ok:
  assumes "inv s"
  shows "\<exists>log s'. handle_message decode nameless rcv v s = Ret (log, s') \<and> inv s' \<and>
    (\<forall>u. messages_for decode u [v] = [] \<longrightarrow> view s' u = view s u) \<and>
    (log = [] \<longrightarrow> (\<forall>u. view s' u = fold (message_effect update) (messages_for decode u [v]) (view s u)))"
proof (cases "decode v")
  case (Inl e)
  with assms show ?thesis by (simp add: handle_message_def)
next
  case (Inr msg)
  show ?thesis
  proof (cases "rm_User msg = ''''")
    case True
    with Inr assms show ?thesis by (auto simp: handle_message_def)
  next
    case named: False
    show ?thesis
    proof (cases "rm_Delete msg")
      case True
      obtain err s' where r: "rv_Remove rcv (rm_User msg) s = Ret (err, s')" "inv s'"
        "view s' = (if err = None then (view s)(rm_User msg := None) else view s)"
        using remove_law [OF assms] by blast
      with Inr named True show ?thesis
        by (auto simp: handle_message_def logged_Ret message_effect_def split: option.splits)
    next
      case False
      obtain err s' where r: "rv_Apply rcv (row_of_message msg) s = Ret (err, s')" "inv s'"
        "view s' = (if err = None then (view s)(cr_User (row_of_message msg) :=
           update (row_of_message msg) (view s (cr_User (row_of_message msg)))) else view s)"
        using apply_law [OF assms] by blast
      moreover have "cr_User (row_of_message msg) = rm_User msg" by (simp add: row_of_message_def)
      ultimately show ?thesis using Inr named False
        by (auto simp: handle_message_def logged_Ret message_effect_def split: option.splits)
    qed
  qed
qed

lemma handle_messages_ok:
  assumes "inv s"
  shows "\<exists>log s'. handle_messages decode nameless rcv vs s = Ret (log, s') \<and> inv s' \<and>
    (\<forall>u. messages_for decode u vs = [] \<longrightarrow> view s' u = view s u) \<and>
    (log = [] \<longrightarrow> (\<forall>u. view s' u = fold (message_effect update) (messages_for decode u vs) (view s u)))"
  using assms
proof (induction vs arbitrary: s)
  case (Cons v vs)
  obtain log1 s1 where 1: "handle_message decode nameless rcv v s = Ret (log1, s1)" "inv s1"
    "\<forall>u. messages_for decode u [v] = [] \<longrightarrow> view s1 u = view s u"
    "log1 = [] \<longrightarrow> (\<forall>u. view s1 u = fold (message_effect update) (messages_for decode u [v]) (view s u))"
    using handle_message_ok [OF Cons.prems] by blast
  obtain log2 s2 where 2: "handle_messages decode nameless rcv vs s1 = Ret (log2, s2)" "inv s2"
    "\<forall>u. messages_for decode u vs = [] \<longrightarrow> view s2 u = view s1 u"
    "log2 = [] \<longrightarrow> (\<forall>u. view s2 u = fold (message_effect update) (messages_for decode u vs) (view s1 u))"
    using Cons.IH [OF 1(2)] by blast
  have split: "messages_for decode u (v # vs) = messages_for decode u [v] @ messages_for decode u vs" for u
    by simp
  have "\<forall>u. messages_for decode u (v # vs) = [] \<longrightarrow> view s2 u = view s u"
    using 1(3) 2(3) unfolding split by simp
  moreover have "log1 @ log2 = [] \<longrightarrow>
      (\<forall>u. view s2 u = fold (message_effect update) (messages_for decode u (v # vs)) (view s u))"
    using 1(4) 2(4) unfolding split by simp
  ultimately show ?case
    using 1(1) 2(1,2) by (intro exI [of _ "log1 @ log2"] exI [of _ s2]) simp
qed simp

lemma pollHash_ok:
  assumes "inv s"
  shows "\<exists>err log s'. pollHash decode hgetall src rcv s = Ret (err, log, s') \<and> inv s' \<and>
    (err = None \<longleftrightarrow> (\<exists>vs. hgetall (hashKey src) = Inr vs)) \<and>
    (\<forall>vs u. hgetall (hashKey src) = Inr vs \<longrightarrow> messages_for decode u vs = [] \<longrightarrow> view s' u = view s u) \<and>
    (\<forall>vs u. hgetall (hashKey src) = Inr vs \<longrightarrow> log = [] \<longrightarrow>
       view s' u = fold (message_effect update) (messages_for decode u vs) (view s u))"
proof (cases "hgetall (hashKey src)")
  case (Inl e)
  with assms show ?thesis by (simp add: pollHash_def)
next
  case (Inr vs)
  with handle_messages_ok [OF assms, of decode "[]" vs] show ?thesis by (auto simp: pollHash_def)
qed

lemma fetchUser_ok:
  assumes "inv s"
  shows "\<exists>err s'. fetchUser src db rcv user s = Ret (err, s') \<and> inv s' \<and>
    (\<forall>v. v \<noteq> user \<longrightarrow> view s' v = view s v) \<and>
    (err = None \<longrightarrow> view s' user = row_effect update user (db_query_row db (sql_fetch_user src) user) (view s user)) \<and>
    (err \<noteq> None \<longrightarrow> view s' = view s)"
proof (cases "db_query_row db (sql_fetch_user src) user")
  case (Inl e)
  show ?thesis
  proof (cases e)
    case PgNoRows
    with Inl remove_law [OF assms, of user] show ?thesis
      by (auto simp: fetchUser_def row_effect_def)
  next
    case (PgErr e')
    with Inl assms show ?thesis by (simp add: fetchUser_def)
  qed
next
  case (Inr cols)
  moreover have "cr_User (authoritative_row user cols) = user" by (simp add: authoritative_row_def)
  ultimately show ?thesis
    using apply_law [OF assms, of "authoritative_row user cols"]
    by (auto simp: fetchUser_def row_effect_def)
qed

lemma apply_rows_ok:
  assumes "inv s"
  shows "\<exists>err log s'. apply_rows rcv rows s = Ret (err, log, s') \<and> inv s' \<and>
    (\<forall>u. u \<notin> {v. \<exists>cols. Inr (v, cols) \<in> set rows} \<longrightarrow> view s' u = view s u)"
  using assms
proof (induction rows arbitrary: s)
  case (Cons row rows)
  show ?case
  proof (cases row)
    case (Inl e)
    with Cons.prems show ?thesis by simp
  next
    case (Inr p)
    then obtain user cols where row: "row = Inr (user, cols)" by (cases p) simp
    obtain err s1 where 1: "rv_Apply rcv (authoritative_row user cols) s = Ret (err, s1)" "inv s1"
      and v: "\<And>u. u \<noteq> user \<Longrightarrow> view s1 u = view s u"
      using apply_law [OF Cons.prems, of "authoritative_row user cols"]
      by (auto simp: authoritative_row_def split: if_splits)
    from Cons.IH [OF 1(2)] obtain err2 log2 s2 where 2: "apply_rows rcv rows s1 = Ret (err2, log2, s2)"
      "inv s2" "\<forall>u. u \<notin> {v. \<exists>cols. Inr (v, cols) \<in> set rows} \<longrightarrow> view s2 u = view s1 u" by blast
    have "\<forall>u. u \<notin> {v. \<exists>cols. Inr (v, cols) \<in> set (row # rows)} \<longrightarrow> view s2 u = view s u"
      using v 2(3) row by auto
    with 1(1) 2(1,2) row show ?thesis by (auto simp: logged_Ret)
  qed
qed auto

lemma fetchAll_ok:
  assumes "inv s"
  shows "\<exists>err log s'. fetchAll src db rcv s = Ret (err, log, s') \<and> inv s' \<and>
    (\<forall>u. (\<forall>rows e cols. db_query db (sql_fetch_all src) = Inr (rows, e) \<longrightarrow> Inr (u, cols) \<notin> set rows) \<longrightarrow>
       view s' u = view s u)"
proof (cases "db_query db (sql_fetch_all src)")
  case (Inl e)
  with assms show ?thesis by (simp add: fetchAll_def)
next
  case (Inr p)
  then obtain rows e where q: "db_query db (sql_fetch_all src) = Inr (rows, e)" by (cases p) simp
  obtain err log s' where r: "apply_rows rcv rows s = Ret (err, log, s')" "inv s'"
    "\<forall>u. u \<notin> {v. \<exists>cols. Inr (v, cols) \<in> set rows} \<longrightarrow> view s' u = view s u"
    using apply_rows_ok [OF assms] by blast
  with q show ?thesis by (auto simp: fetchAll_def)
qed

lemma handle_notification_ok:
  assumes "inv s"
  shows "\<exists>log s'. handle_notification src db rcv payload s = Ret (log, s') \<and> inv s' \<and>
    (payload \<noteq> '''' \<and> \<not> HasPrefix payload ''del:'' \<longrightarrow>
       (\<forall>v. v \<noteq> payload \<longrightarrow> view s' v = view s v) \<and>
       (if log = []
        then view s' payload = row_effect update payload (db_query_row db (sql_fetch_user src) payload) (view s payload)
        else view s' = view s)) \<and>
    (\<forall>u. payload = ''del:'' @ u \<longrightarrow> u \<noteq> '''' \<longrightarrow>
       view s' = (if log = [] then (view s)(u := None) else view s))"
proof -
  consider (del) u where "payload = ''del:'' @ u" | (all) "payload = ''''"
    | (user) "payload \<noteq> ''''" "\<not> HasPrefix payload ''del:''"
    by (auto simp: HasPrefix_iff)
  then show ?thesis
  proof cases
    case (del u)
    have p: "HasPrefix payload ''del:''" "TrimPrefix payload ''del:'' = u"
      unfolding del by (rule HasPrefix_append, rule TrimPrefix_append)
    show ?thesis
    proof (cases "u = ''''")
      case True
      with assms p del show ?thesis by (simp add: handle_notification_def)
    next
      case False
      obtain err s' where "rv_Remove rcv u s = Ret (err, s')" "inv s'"
        "view s' = (if err = None then (view s)(u := None) else view s)"
        using remove_law [OF assms, of u] by blast
      with p del False show ?thesis
        by (cases err) (simp_all add: handle_notification_def logged_Ret)
    qed
  next
    case all
    then have "\<not> HasPrefix payload ''del:''" by (simp add: HasPrefix_def)
    moreover obtain err log s' where "fetchAll src db rcv s = Ret (err, log, s')" "inv s'"
      using fetchAll_ok [OF assms, of src db] by blast
    ultimately show ?thesis using all by (simp add: handle_notification_def)
  next
    case user
    then have "\<forall>u. payload \<noteq> ''del:'' @ u" using HasPrefix_append [of "''del:''"] by metis
    moreover obtain err s' where "fetchUser src db rcv payload s = Ret (err, s')" "inv s'"
      "\<forall>v. v \<noteq> payload \<longrightarrow> view s' v = view s v"
      "err = None \<longrightarrow> view s' payload =
         row_effect update payload (db_query_row db (sql_fetch_user src) payload) (view s payload)"
      "err \<noteq> None \<longrightarrow> view s' = view s"
      using fetchUser_ok [OF assms, of src db payload] by blast
    ultimately show ?thesis using user
      by (cases err) (simp_all add: handle_notification_def logged_Ret)
  qed
qed

end

section \<open>The traffic quota service as a receiver\<close>

definition quota_update :: "time_parser \<Rightarrow> ConfigRow \<Rightarrow> quota_config option \<Rightarrow> quota_config option" where
  "quota_update tparse row old =
     (if cr_QuotaGB row \<le> 0 then (if cr_Authoritative row then None else old)
      else case newQuotaConfig tparse (cr_QuotaGB row) (cr_Period row) (cr_PeriodStart row)
                  (cr_PeriodDays row) None of
        Inr (Some c) \<Rightarrow> Some c
      | _ \<Rightarrow> old)"

lemma removeConfigLocked_view:
  assumes "mgr_inv (manager s)" and "removeConfigLocked u s = Ret (err, s')"
  shows "userConfigs (manager s') =
    (if err = None then (userConfigs (manager s))(u := None) else userConfigs (manager s))"
proof -
  have rm: "userConfigs (snd (RemoveConfig u m)) =
      (if fst (RemoveConfig u m) = None then (userConfigs m)(u := None) else userConfigs m)" for m
  proof (cases "u = ''''")
    case False
    from arg_cong [OF RemoveConfig_fields(1) [OF False, of m], of fst] RemoveConfig_fields(2) [OF False, of m]
    show ?thesis by simp
  qed (simp add: RemoveConfig_def)
  show ?thesis
  proof (cases "persister s \<noteq> None \<and> HasQuota u (manager s)")
    case False
    with assms(2) rm [of "manager s"] show ?thesis
      by (auto simp: removeConfigLocked_def Let_def case_prod_beta split: option.splits)
  next
    case True
    then obtain P where P: "persister s = Some P" by auto
    obtain k m where k: "CurrentPeriodKey u (manager s) = Ret (k, m)"
      "userConfigs m = userConfigs (manager s)"
      using mgr_CurrentPeriodKey [OF assms(1)] True by metis
    obtain e b where "p_Delete P u k (backend s) = (e, b)" by fastforce
    with assms(2) P True k rm [of m] show ?thesis
      by (cases e) (auto simp: removeConfigLocked_def Let_def case_prod_beta)
  qed
qed

lemma ApplyConfig_view:
  assumes "ApplyConfig tparse user m = Ret (err, m')"
  shows "userConfigs m' =
    (if err = None
     then (userConfigs m)(tq_Name user :=
       (case newQuotaConfig tparse (tq_QuotaGB user) (tq_Period user) (tq_PeriodStart user) (tq_PeriodDays user) None of
          Inr (Some c) \<Rightarrow> Some c | _ \<Rightarrow> userConfigs m (tq_Name user)))
     else userConfigs m)"
  using assms
  by (auto simp: ApplyConfig_def Let_def storeConfig_def split: if_splits sum.splits option.splits go.splits)

lemma svc_ApplyConfig_view:
  assumes "mgr_inv (manager s)" and "svc_ApplyConfig tparse user s = Ret (err, s')"
  shows "userConfigs (manager s') =
    (if err = None
     then (userConfigs (manager s))(tq_Name user :=
       (case newQuotaConfig tparse (tq_QuotaGB user) (tq_Period user) (tq_PeriodStart user) (tq_PeriodDays user) None of
          Inr (Some c) \<Rightarrow> Some c | _ \<Rightarrow> userConfigs (manager s) (tq_Name user)))
     else userConfigs (manager s))"
proof -
  obtain r m where a: "ApplyConfig tparse user (manager s) = Ret (r, m)" "mgr_inv m"
    "r = None \<Longrightarrow> HasQuota (tq_Name user) m"
    using mgr_ApplyConfig [OF assms(1)] by metis
  note v = ApplyConfig_view [OF a(1)]
  show ?thesis
  proof (cases "r = None \<and> persister s \<noteq> None \<and> \<not> HasQuota (tq_Name user) (manager s)")
    case False
    with assms(2) a(1) have "err = r \<and> s' = s\<lparr>manager := m\<rparr>"
      by (auto simp: svc_ApplyConfig_def Let_def split: option.splits if_splits)
    with v show ?thesis by simp
  next
    case True
    then obtain P where P: "persister s = Some P" by auto
    have "mgr_inv (manager (s\<lparr>manager := m\<rparr>))" "HasQuota (tq_Name user) (manager (s\<lparr>manager := m\<rparr>))"
      using a True by simp_all
    from reload_user_ok [OF this, of P] obtain s2 where
      "reload_user P (tq_Name user) (s\<lparr>manager := m\<rparr>) = Ret s2" "userConfigs (manager s2) = userConfigs m"
      by auto
    with assms(2) a(1) True P have "err = None \<and> s' = s2"
      by (simp add: svc_ApplyConfig_def Let_def)
    with v True \<open>userConfigs (manager s2) = userConfigs m\<close> show ?thesis by simp
  qed
qed

lemma applyDynamic_view:
  assumes "mgr_inv (manager s)" and "applyDynamic tparse row s = Ret (err, s')"
  shows "userConfigs (manager s') =
    (if err = None
     then (userConfigs (manager s))(cr_User row := quota_update tparse row (userConfigs (manager s) (cr_User row)))
     else userConfigs (manager s))"
proof (cases "cr_QuotaGB row \<le> 0")
  case True
  with assms removeConfigLocked_view [OF assms(1), of "cr_User row"] show ?thesis
    by (auto simp: applyDynamic_def quota_update_def HasQuota_def fun_eq_iff split: if_splits)
next
  case False
  with assms(2) have "svc_ApplyConfig tparse
      \<lparr>tq_Name = cr_User row, tq_Group = '''', tq_QuotaGB = cr_QuotaGB row, tq_Period = cr_Period row,
       tq_PeriodStart = cr_PeriodStart row, tq_PeriodDays = cr_PeriodDays row\<rparr> s = Ret (err, s')"
    by (simp add: applyDynamic_def)
  from svc_ApplyConfig_view [OF assms(1) this] False show ?thesis
    unfolding TrafficQuotaUser.simps by (simp add: quota_update_def)
qed

interpretation quota_rows: config_receiver "quota_receiver tparse" "\<lambda>s. mgr_inv (manager s)"
  "\<lambda>s. userConfigs (manager s)" "quota_update tparse" for tparse
proof
  fix s :: "'p quota_service" and row u
  assume inv: "mgr_inv (manager s)"
  obtain err s' where "applyDynamic tparse row s = Ret (err, s')" "mgr_inv (manager s')"
    using applyDynamic_ok [OF inv] by metis
  with applyDynamic_view [OF inv]
  show "\<exists>err s'. rv_Apply (quota_receiver tparse) row s = Ret (err, s') \<and> mgr_inv (manager s') \<and>
      userConfigs (manager s') =
        (if err = None
         then (userConfigs (manager s))(cr_User row := quota_update tparse row (userConfigs (manager s) (cr_User row)))
         else userConfigs (manager s))"
    by (simp add: quota_receiver_def)
  obtain err s' where "removeConfigLocked u s = Ret (err, s')" "mgr_inv (manager s')"
    using removeConfigLocked_ok [OF inv] by metis
  with removeConfigLocked_view [OF inv]
  show "\<exists>err s'. rv_Remove (quota_receiver tparse) u s = Ret (err, s') \<and> mgr_inv (manager s') \<and>
      userConfigs (manager s') =
        (if err = None then (userConfigs (manager s))(u := None) else userConfigs (manager s))"
    by (simp add: quota_receiver_def)
qed

section \<open>The speed limiter as a receiver\<close>

definition speed_update :: "ConfigRow \<Rightarrow> SpeedLimiterUser option \<Rightarrow> SpeedLimiterUser option" where
  "speed_update row old =
     (if cr_UploadMbps row \<le> 0 \<and> cr_DownloadMbps row \<le> 0
      then (if cr_Authoritative row then None else old)
      else Some \<lparr>su_Name = cr_User row, su_Group = '''', su_UploadMbps = cr_UploadMbps row,
                 su_DownloadMbps = cr_DownloadMbps row, su_PerClient = cr_PerClient row\<rparr>)"

definition speed_ok ::
  "('c, 'l) rate_pkg \<Rightarrow> ('l \<Rightarrow> rate_limit) \<Rightarrow> local_clock \<Rightarrow> 'l limiter_manager \<Rightarrow> bool" where
  "speed_ok R limit_of hm m \<longleftrightarrow> speed_inv R limit_of hm m \<and> finite (dom (limiters m))"

lemma dom_update_key: "dom (limiters (update_key R hm t k m)) \<subseteq> dom (limiters m)"
  by (auto simp: update_key_def split: option.splits prod.splits if_splits)

lemma finite_applyRuntimeState:
  "finite (dom (limiters m)) \<Longrightarrow> finite (dom (limiters (applyRuntimeState R hm order t m)))"
  unfolding applyRuntimeState_def updateLimiterRates_def
  by (rule fold_frame [where P = "\<lambda>m. finite (dom (limiters m))"])
     (auto intro: finite_subset [OF dom_update_key])

lemma config_applyRuntimeState [simp]: "config (applyRuntimeState R hm order t m) = config m"
proof -
  have "config (fold (update_key R hm t) order m) = config m" for m
    by (induction order arbitrary: m) simp_all
  then show ?thesis by (simp add: applyRuntimeState_def updateLimiterRates_def)
qed

lemma finite_dom_speed:
  assumes "finite (dom (limiters m))"
  shows "finite (dom (limiters (snd (speed_ApplyConfig R hm order t user m))))"
    and "finite (dom (limiters (snd (speed_RemoveConfig R order u m))))"
proof -
  show "finite (dom (limiters (snd (speed_ApplyConfig R hm order t user m))))"
    using assms by (simp add: speed_ApplyConfig_def Let_def finite_applyRuntimeState)
  have "dom (limiters (snd (speed_RemoveConfig R order u m))) \<subseteq> dom (limiters m)"
    by (auto simp: speed_RemoveConfig_def Let_def fold_remove_same split: if_splits)
  then show "finite (dom (limiters (snd (speed_RemoveConfig R order u m))))"
    using assms by (rule finite_subset)
qed

lemma speed_ApplyConfig_view:
  assumes "speed_ApplyConfig R hm order t user m = (err, m')"
  shows "userRawConfig (config m') =
    (if err = None then (userRawConfig (config m))(su_Name user \<mapsto> user) else userRawConfig (config m))"
  using assms by (auto simp: speed_ApplyConfig_def Let_def split: if_splits)

lemma speed_RemoveConfig_view:
  assumes "speed_RemoveConfig R order u m = (err, m')"
  shows "userRawConfig (config m') =
    (if err = None then (userRawConfig (config m))(u := None) else userRawConfig (config m))"
  using assms by (auto simp: speed_RemoveConfig_def Let_def fold_remove_same split: if_splits)

lemma speed_applyDynamic_view:
  assumes "speed_applyDynamic R hm order t row m = (err, m')"
  shows "userRawConfig (config m') =
    (if err = None
     then (userRawConfig (config m))(cr_User row := speed_update row (userRawConfig (config m) (cr_User row)))
     else userRawConfig (config m))"
proof (cases "cr_UploadMbps row \<le> 0 \<and> cr_DownloadMbps row \<le> 0")
  case True
  then show ?thesis
  proof (cases "cr_Authoritative row \<and> userRawConfig (config m) (cr_User row) \<noteq> None")
    case False
    with True assms show ?thesis
      by (auto simp: speed_applyDynamic_def speed_update_def speed_GetConfig_def)
  next
    case del: True
    with True assms have "speed_RemoveConfig R order (cr_User row) m = (err, m')"
      by (simp add: speed_applyDynamic_def speed_GetConfig_def)
    from speed_RemoveConfig_view [OF this] True del show ?thesis by (simp add: speed_update_def)
  qed
next
  case False
  with assms have "speed_ApplyConfig R hm order t
      \<lparr>su_Name = cr_User row, su_Group = '''', su_UploadMbps = cr_UploadMbps row,
       su_DownloadMbps = cr_DownloadMbps row, su_PerClient = cr_PerClient row\<rparr> m = (err, m')"
    by (simp only: speed_applyDynamic_def if_False)
  from speed_ApplyConfig_view [OF this] False show ?thesis
    unfolding SpeedLimiterUser.simps by (auto simp: speed_update_def)
qed

text \<open>The order function stands for the runtime's choice; any choice that visits every key once will do.\<close>

locale speed_rows = speed_limiter R limit_of granted live hm
  for R :: "('c, 'l) rate_pkg" and limit_of granted live hm +
  fixes ordf :: "'l limiter_manager \<Rightarrow> string list" and t :: int
  assumes ordf: "finite (dom (limiters m)) \<Longrightarrow> range_order (ordf m) (limiters m)"

sublocale speed_rows \<subseteq> rows: config_receiver "speed_receiver R hm ordf t" "speed_ok R limit_of hm"
  "\<lambda>m. userRawConfig (config m)" speed_update
proof
  fix m row u
  assume "speed_ok R limit_of hm m"
  then have inv: "speed_inv R limit_of hm m" and o: "range_order (ordf m) (limiters m)"
    and fin: "finite (dom (limiters m))" using ordf by (simp_all add: speed_ok_def)
  obtain err m' where a: "speed_applyDynamic R hm (ordf m) t row m = (err, m')" by fastforce
  have "finite (dom (limiters (snd (speed_applyDynamic R hm (ordf m) t row m))))"
    using fin by (simp add: speed_applyDynamic_def finite_dom_speed)
  with applyDynamic_inv [OF inv o, of t row] a have "speed_ok R limit_of hm m'"
    by (simp add: speed_ok_def)
  with a speed_applyDynamic_view [OF a]
  show "\<exists>err s'. rv_Apply (speed_receiver R hm ordf t) row m = Ret (err, s') \<and> speed_ok R limit_of hm s' \<and>
      userRawConfig (config s') =
        (if err = None
         then (userRawConfig (config m))(cr_User row := speed_update row (userRawConfig (config m) (cr_User row)))
         else userRawConfig (config m))"
    by (auto simp: speed_receiver_def)
  obtain err' m1 where r: "speed_RemoveConfig R (ordf m) u m = (err', m1)" by fastforce
  have "speed_ok R limit_of hm m1"
    using RemoveConfig_inv [OF inv o, of u] finite_dom_speed(2) [OF fin, of R "ordf m" u] r
    by (simp add: speed_ok_def)
  with r speed_RemoveConfig_view [OF r]
  show "\<exists>err s'. rv_Remove (speed_receiver R hm ordf t) u m = Ret (err, s') \<and> speed_ok R limit_of hm s' \<and>
      userRawConfig (config s') =
        (if err = None then (userRawConfig (config m))(u := None) else userRawConfig (config m))"
    by (auto simp: speed_receiver_def speed_removeDynamic_def)
qed

definition sorted_keys :: "'l limiter_manager \<Rightarrow> string list" where
  "sorted_keys m = sorted_list_of_set (dom (limiters m))"

interpretation bucket_rows: speed_rows bucket_pkg bk_limit bk_granted "\<lambda>alive. alive" hm sorted_keys t for hm t
  by unfold_locales (simp add: sorted_keys_def range_order_def)

section \<open>What the sources achieve\<close>

lemma messages_for_perm:
  assumes "mset vs' = mset vs" and "length (messages_for decode u vs) \<le> 1"
  shows "messages_for decode u vs' = messages_for decode u vs"
proof -
  have "mset (messages_for decode u vs') = mset (messages_for decode u vs)"
  proof -
    have m: "mset (messages_for decode u ws) = sum_mset (image_mset (\<lambda>v. mset (case decode v of
        Inl e \<Rightarrow> [] | Inr msg \<Rightarrow> if rm_User msg = u \<and> u \<noteq> '''' then [msg] else [])) (mset ws))" for ws
      by (induction ws) (auto split: sum.splits)
    show ?thesis unfolding m assms(1) ..
  qed
  with assms(2) show ?thesis
    by (cases "messages_for decode u vs" rule: list.exhaust) auto
qed

text \<open>
  Polling the Redis hash from any reachable traffic quota service returns without a panic
  and leaves the manager invariant intact. The values may be visited in any order \<open>vs'\<close>: users
  without a message keep their configuration, and when nothing was logged and no user has two
  messages, every user's configuration is what its message asks for: gone for a deletion,
  untouched for a row without quota, else the configuration of the row.
\<close>
theorem hash_poll_quota:
  assumes "reach svc_init svc_step s" and "hgetall (hashKey src) = Inr vs'" and "mset vs' = mset vs"
    and "\<forall>u. length (messages_for decode u vs) \<le> 1"
  shows "\<exists>log s'. pollHash decode hgetall src (quota_receiver tparse) s = Ret (None, log, s') \<and>
    quota_wf (manager s') \<and>
    (\<forall>u. messages_for decode u vs = [] \<longrightarrow> userConfigs (manager s') u = userConfigs (manager s) u) \<and>
    (log = [] \<longrightarrow> (\<forall>u msg. messages_for decode u vs = [msg] \<longrightarrow>
       userConfigs (manager s') u =
         (if rm_Delete msg then None
          else if rm_QuotaGB msg \<le> 0 then userConfigs (manager s) u
          else quota_update tparse (row_of_message msg) (userConfigs (manager s) u))))"
proof -
  note i = service.reach_inv [OF assms(1)]
  have p: "messages_for decode u vs' = messages_for decode u vs" for u
    by (rule messages_for_perm [OF assms(3) assms(4) [rule_format]])
  obtain err log s' where r: "pollHash decode hgetall src (quota_receiver tparse) s = Ret (err, log, s')"
    "mgr_inv (manager s')" "err = None \<longleftrightarrow> (\<exists>vs. hgetall (hashKey src) = Inr vs)"
    "\<forall>vs u. hgetall (hashKey src) = Inr vs \<longrightarrow> messages_for decode u vs = [] \<longrightarrow>
       userConfigs (manager s') u = userConfigs (manager s) u"
    "\<forall>vs u. hgetall (hashKey src) = Inr vs \<longrightarrow> log = [] \<longrightarrow> userConfigs (manager s') u =
       fold (message_effect (quota_update tparse)) (messages_for decode u vs) (userConfigs (manager s) u)"
    using quota_rows.pollHash_ok [OF i] by blast
  have "err = None" using r(3) assms(2) by blast
  moreover have "userConfigs (manager s') u = userConfigs (manager s) u" if "messages_for decode u vs = []" for u
    using r(4) assms(2) that by (simp add: p)
  moreover have "userConfigs (manager s') u =
         (if rm_Delete msg then None
          else if rm_QuotaGB msg \<le> 0 then userConfigs (manager s) u
          else quota_update tparse (row_of_message msg) (userConfigs (manager s) u))"
    if "log = []" "messages_for decode u vs = [msg]" for u msg
    using r(5) assms(2) that p [of u]
    by (simp add: message_effect_def quota_update_def row_of_message_def)
  ultimately show ?thesis
    using r(1) mgr_invD(1) [OF r(2)]
    by (intro exI [of _ log] exI [of _ s'] conjI allI impI) simp_all
qed

definition demo_decode :: message_decoder where
  "demo_decode v =
     (if v = ''del'' then Inr \<lparr>rm_User = ''alice'', rm_UploadMbps = 0, rm_DownloadMbps = 0,
        rm_PerClient = None, rm_QuotaGB = 0, rm_Period = '''', rm_PeriodStart = '''', rm_PeriodDays = 0,
        rm_Delete = True\<rparr>
      else Inl (EDriver ''unexpected end of JSON input''))"

theorem hash_poll_quota_witness:
  "\<exists>log s'. pollHash demo_decode (\<lambda>k. Inr [''del''])
     (NewRedisSource \<lparr>dr_Channel = '''', dr_HashKey = ''cfg'', dr_UpdateInterval = 0\<rparr>)
     (quota_receiver (\<lambda>l v. None)) (demo_service []) = Ret (None, log, s') \<and>
     (log = [] \<longrightarrow> userConfigs (manager s') ''alice'' = None)"
proof -
  have m: "messages_for demo_decode u [''del''] =
      (if u = ''alice'' then [\<lparr>rm_User = ''alice'', rm_UploadMbps = 0, rm_DownloadMbps = 0,
        rm_PerClient = None, rm_QuotaGB = 0, rm_Period = '''', rm_PeriodStart = '''', rm_PeriodDays = 0,
        rm_Delete = True\<rparr>] else [])" for u
    by (auto simp: demo_decode_def)
  then have l: "\<forall>u. length (messages_for demo_decode u [''del'']) \<le> 1" by simp
  from hash_poll_quota [where s = "demo_service []" and hgetall = "\<lambda>k. Inr [''del'']"
      and vs' = "[''del'']" and vs = "[''del'']" and decode = demo_decode and tparse = "\<lambda>l v. None"
      and src = "NewRedisSource \<lparr>dr_Channel = '''', dr_HashKey = ''cfg'', dr_UpdateInterval = 0\<rparr>",
      OF demo_service_reach refl refl l] m
  show ?thesis by force
qed

lemma finite_updateRates:
  "finite (dom (limiters m)) \<Longrightarrow> finite (dom (limiters (updateLimiterRates R hm order t m)))"
  unfolding updateLimiterRates_def
  by (rule fold_frame [where P = "\<lambda>m. finite (dom (limiters m))"])
     (auto intro: finite_subset [OF dom_update_key])

lemma finite_clean:
  "finite (dom (limiters m)) \<Longrightarrow> finite (dom (limiters (cleanExpiredClientLimiters order t m)))"
  unfolding cleanExpiredClientLimiters_def
  by (rule fold_frame [where P = "\<lambda>m. finite (dom (limiters m))"])
     (auto simp: clean_key_def split: option.splits)

lemma finite_GetOrCreate:
  "finite (dom (limiters m)) \<Longrightarrow> finite (dom (limiters (snd (GetOrCreateLimiterForClient R hm u addr t m))))"
  by (auto simp: GetOrCreateLimiterForClient_def Let_def split: option.splits prod.splits)

lemma finite_Routed:
  assumes "finite (dom (limiters m))"
  shows "finite (dom (limiters (snd (speed_RoutedConnection R hm u addr t m))))"
  using assms finite_GetOrCreate [OF assms, of R hm u addr t]
  by (cases "GetOrCreateLimiterForClient R hm u addr t m")
     (simp add: speed_RoutedConnection_def split: option.splits)

lemma finite_step: "speed_step R hm m m' \<Longrightarrow> finite (dom (limiters m)) \<Longrightarrow> finite (dom (limiters m'))"
proof (induction rule: speed_step.induct)
  case (Replace order m t u scheds)
  then show ?case
    by (simp add: ReplaceUserSchedules_def Let_def finite_applyRuntimeState split: sum.splits)
qed (simp_all add: finite_Routed CheckSchedules_def finite_clean finite_updateRates finite_dom_speed
      speed_applyDynamic_def RemoveUserSchedules_def Let_def finite_applyRuntimeState)

lemma finite_reach: "reach speed_init (speed_step R hm) m \<Longrightarrow> finite (dom (limiters m))"
proof (induction rule: reach.induct)
  case (reach_init m)
  then obtain opts where "NewLimiterManager opts = Inr m"
    by (auto simp: speed_init_def speed_NewService_def)
  then show ?case by (cases "new_snapshot opts") (auto simp: NewLimiterManager_def)
qed (rule finite_step)

lemma reach_speed_ok:
  "rate_limiters R limit_of granted live \<Longrightarrow> reach speed_init (speed_step R hm) m \<Longrightarrow> speed_ok R limit_of hm m"
  by (simp add: speed_ok_def reach_speed_inv finite_reach)

lemma speed_rowsI:
  assumes "rate_limiters R limit_of granted live"
    and "\<And>m. finite (dom (limiters m)) \<Longrightarrow> range_order (ordf m) (limiters m)"
  shows "speed_rows R limit_of granted live ordf"
  by (intro speed_rows.intro speed_limiter.intro speed_rows_axioms.intro assms)

context speed_rows
begin

lemma notification_ok:
  assumes "speed_ok R limit_of hm m"
  shows "\<exists>log m'. handle_notification src db (speed_receiver R hm ordf t) payload m = Ret (log, m') \<and>
    speed_ok R limit_of hm m' \<and>
    (payload \<noteq> '''' \<and> \<not> HasPrefix payload ''del:'' \<longrightarrow>
       (\<forall>v. v \<noteq> payload \<longrightarrow> userRawConfig (config m') v = userRawConfig (config m) v) \<and>
       (if log = []
        then userRawConfig (config m') payload =
          row_effect speed_update payload (db_query_row db (sql_fetch_user src) payload)
            (userRawConfig (config m) payload)
        else userRawConfig (config m') = userRawConfig (config m))) \<and>
    (\<forall>u. payload = ''del:'' @ u \<longrightarrow> u \<noteq> '''' \<longrightarrow>
       userRawConfig (config m') = (if log = [] then (userRawConfig (config m))(u := None) else userRawConfig (config m)))"
  using assms by (rule rows.handle_notification_ok)

lemma poll_unlisted:
  assumes "speed_ok R limit_of hm m" and "db_query db (sql_fetch_all src) = Inr (rows, e)"
    and "\<And>cols. Inr (u, cols) \<notin> set rows"
  shows "\<exists>err log m'. fetchAll src db (speed_receiver R hm ordf t) m = Ret (err, log, m') \<and>
    userRawConfig (config m') u = userRawConfig (config m) u"
  using rows.fetchAll_ok [OF assms(1), of src db] assms(2,3) by fastforce

end

text \<open>
  A PostgreSQL notification that names a user makes the speed limiter agree with the
  user's row: handling it never panics, keeps every limiter at the speed in force, leaves all
  other users alone, and unless an error was logged the user's configuration is gone when the
  row is, cleared when the row has no speed, and the row's speeds otherwise. An error leaves
  the configuration unchanged.
\<close>
theorem notification_speed:
  assumes "rate_limiters R limit_of granted live" and "reach speed_init (speed_step R hm) m"
    and "\<And>m. finite (dom (limiters m)) \<Longrightarrow> range_order (ordf m) (limiters m)"
    and "payload \<noteq> ''''" and "\<not> HasPrefix payload ''del:''"
  shows "\<exists>log m'. handle_notification src db (speed_receiver R hm ordf t) payload m = Ret (log, m') \<and>
    speed_inv R limit_of hm m' \<and>
    (\<forall>v. v \<noteq> payload \<longrightarrow> speed_GetConfig v m' = speed_GetConfig v m) \<and>
    speed_GetConfig payload m' =
      (if log \<noteq> [] then speed_GetConfig payload m
       else case db_query_row db (sql_fetch_user src) payload of
         Inl e \<Rightarrow> None
       | Inr cols \<Rightarrow>
           if cc_upload cols \<le> 0 \<and> cc_download cols \<le> 0 then None
           else Some \<lparr>su_Name = payload, su_Group = '''', su_UploadMbps = cc_upload cols,
                      su_DownloadMbps = cc_download cols, su_PerClient = cc_per_client cols\<rparr>)"
proof -
  note n = speed_rows.notification_ok [OF speed_rowsI [OF assms(1,3)] reach_speed_ok [OF assms(1,2)],
      where payload = payload and src = src and db = db and t = t]
  then obtain log m' where r: "handle_notification src db (speed_receiver R hm ordf t) payload m = Ret (log, m')"
    "speed_ok R limit_of hm m'"
    and same: "\<forall>v. v \<noteq> payload \<longrightarrow> userRawConfig (config m') v = userRawConfig (config m) v"
    and upd: "if log = []
        then userRawConfig (config m') payload =
          row_effect speed_update payload (db_query_row db (sql_fetch_user src) payload)
            (userRawConfig (config m) payload)
        else userRawConfig (config m') = userRawConfig (config m)"
    using assms(4,5) by blast
  have "speed_GetConfig payload m' =
      (if log \<noteq> [] then speed_GetConfig payload m
       else case db_query_row db (sql_fetch_user src) payload of
         Inl e \<Rightarrow> None
       | Inr cols \<Rightarrow>
           if cc_upload cols \<le> 0 \<and> cc_download cols \<le> 0 then None
           else Some \<lparr>su_Name = payload, su_Group = '''', su_UploadMbps = cc_upload cols,
                      su_DownloadMbps = cc_download cols, su_PerClient = cc_per_client cols\<rparr>)"
    using upd
    by (auto simp: speed_GetConfig_def row_effect_def speed_update_def authoritative_row_def split: sum.splits)
  with r same show ?thesis
    by (intro exI [of _ log] exI [of _ m'] conjI) (simp_all add: speed_ok_def speed_GetConfig_def)
qed

definition demo_columns :: config_columns where
  "demo_columns = \<lparr>cc_upload = 4, cc_download = 2, cc_per_client = None, cc_quota = 0, cc_period = '''',
     cc_start = '''', cc_days = 0\<rparr>"

definition demo_db :: config_db where
  "demo_db = \<lparr>db_query = (\<lambda>q. Inr ([], None)), db_query_row = (\<lambda>q u. Inr demo_columns)\<rparr>"

definition demo_source :: PostgresSource where
  "demo_source = \<lparr>quotedTable = ''\"users\"'', notifyChannel = ''user_changes'',
     quotedChannel = ''\"user_changes\"'', ps_updateInterval = minute_ns\<rparr>"

lemma sorted_keys_order: "finite (dom (limiters m)) \<Longrightarrow> range_order (sorted_keys m) (limiters m)"
  by (simp add: sorted_keys_def range_order_def)

theorem notification_speed_witness:
  "\<exists>log m'. handle_notification demo_source demo_db (speed_receiver bucket_pkg demo_clock sorted_keys 200)
     ''ann'' (demo_routed False) = Ret (log, m') \<and>
     (log = [] \<longrightarrow> map_option su_UploadMbps (speed_GetConfig ''ann'' m') = Some 4)"
proof -
  have n: "''ann'' \<noteq> ''''" "\<not> HasPrefix ''ann'' ''del:''" by (simp_all add: HasPrefix_def)
  from notification_speed [OF bucket_rates demo_routed_reach sorted_keys_order n,
      where src = demo_source and db = demo_db and t = 200]
  show ?thesis by (force simp: demo_db_def demo_columns_def)
qed

text \<open>
  Polling misses cleared limits: the query of \<open>fetchAll\<close> selects only rows with a positive
  column, so a user whose columns were all set to zero is not listed, and polling leaves the
  old configuration in force although the row is authoritative.
\<close>

lemma poll_misses_cleared_user:
  assumes "speed_ok bucket_pkg bk_limit hm m" and "db_query db (sql_fetch_all src) = Inr (rows, e)"
    and "\<And>cols. Inr (u, cols) \<notin> set rows"
  shows "\<exists>err log m'. fetchAll src db (speed_receiver bucket_pkg hm sorted_keys t) m = Ret (err, log, m') \<and>
    speed_GetConfig u m' = speed_GetConfig u m"
  unfolding speed_GetConfig_def by (rule bucket_rows.poll_unlisted [OF assms])

section \<open>Identifiers and back-off\<close>

lemma quote_valid:
  assumes "identifierRe name"
  shows "quoteIdentifier name = ''\"'' @ name @ ''\"'' \<and> CHR ''\"'' \<notin> set name"
proof -
  have ne: "\<not> ident_char (CHR ''\"'')" "\<not> ident_start (CHR ''\"'')"
    by (simp_all add: ident_char_def ident_start_def)
  have "c \<noteq> CHR ''\"''" if "c \<in> set name" for c
    using assms that ne by (cases name) (auto simp: identifierRe_def list_all_iff)
  moreover from this have "concat (map (\<lambda>c. if c = CHR ''\"'' then ''\"\"'' else [c]) name) = name"
    by (induction name) auto
  ultimately show ?thesis by (auto simp: quoteIdentifier_def)
qed

lemma source_identifiers_safe:
  assumes "NewPostgresSource connect opts = Inr src"
  shows "\<exists>t. identifierRe t \<and> quotedTable src = ''\"'' @ t @ ''\"'' \<and> CHR ''\"'' \<notin> set t"
    and "identifierRe (notifyChannel src)" and "quotedChannel src = ''\"'' @ notifyChannel src @ ''\"''"
  using assms quote_valid
  by (auto simp: NewPostgresSource_def validateIdentifier_def Let_def split: if_splits option.splits)

lemma backoff_bounded: "second_ns \<le> backoff n \<and> backoff n \<le> 64 * second_ns"
proof -
  have "\<exists>k \<le> 6. backoff n = 2 ^ k * second_ns"
  proof (induction n)
    case 0
    then show ?case by (intro exI [of _ 0]) (simp add: backoff_def)
  next
    case (Suc n)
    then obtain k where k: "k \<le> 6" "backoff n = 2 ^ k * second_ns" by blast
    have s: "backoff (Suc n) = next_backoff (backoff n)" by (simp add: backoff_def)
    have "k \<in> {0, 1, 2, 3, 4, 5, 6}" using k(1) by auto
    then show ?case
      unfolding s next_backoff_def k(2)
      by (auto simp: second_ns_def intro: exI [of _ "Suc k"] exI [of _ k])
  qed
  then obtain k where "k \<le> 6" "backoff n = 2 ^ k * second_ns" by blast
  moreover from this have "(1 :: int) \<le> 2 ^ k \<and> 2 ^ k \<le> (64 :: int)"
    using power_increasing [of k 6 "2 :: int"] by simp
  ultimately show ?thesis by (simp add: second_ns_def)
qed

end
