(* ===== verification/AdminContracts.thy ===== *)
theory AdminContracts
  imports AdminApi UserProviderContracts QuotaContracts DynamicContracts
begin

text \<open>
  What the administration interface promises on top of the services it controls. Each service is
  an interface with laws: \<open>user_directory\<close> (interpreted on the user provider), \<open>quota_control\<close>
  (on the traffic quota service) and \<open>speed_control\<close> (on the speed limiter); \<open>admin_services\<close>
  joins them and holds the lemmas about the handlers. Creating and deleting a user are atomic in
  the directory of users, and no request without valid credentials reaches a handler.
\<close>

section \<open>The interfaces\<close>

definition world_inv :: "('p \<Rightarrow> bool) \<Rightarrow> ('q \<Rightarrow> bool) \<Rightarrow> ('p, 'q, 's) admin_world \<Rightarrow> bool" where
  "world_inv pinv qinv w \<longleftrightarrow> pinv (provider_of w) \<and> qinv (quota_of w)"

locale user_directory =
  fixes P :: "'p UserProvider" and pinv :: "'p \<Rightarrow> bool" and pview :: "'p \<Rightarrow> string \<rightharpoonup> adapter_user"
  assumes get_law: "pinv p \<Longrightarrow> up_GetUser P n p = pview p n"
    and name_law: "pinv p \<Longrightarrow> pview p n = Some a \<Longrightarrow> au_Name a = n"
    and create_law: "pinv p \<Longrightarrow> \<exists>err p'. up_CreateUser P u p = (err, p') \<and> pinv p' \<and>
      (if ou_Name u = '''' \<or> pview p (ou_Name u) \<noteq> None then err \<noteq> None \<and> pview p' = pview p
       else err = None \<and> pview p' = (pview p)(ou_Name u \<mapsto> optionUserToAdapter u))"
    and delete_law: "pinv p \<Longrightarrow> \<exists>err p'. up_DeleteUser P n p = (err, p') \<and> pinv p' \<and>
      (if pview p n = None then err \<noteq> None \<and> pview p' = pview p
       else err = None \<and> pview p' = (pview p)(n := None))"

locale quota_control =
  fixes Q :: "'q QuotaController" and qinv :: "'q \<Rightarrow> bool" and qview :: "'q \<Rightarrow> string \<rightharpoonup> 'c"
    and conf :: "TrafficQuotaUser \<Rightarrow> 'c option"
  assumes apply_law: "qinv q \<Longrightarrow> \<exists>err q'. qc_ApplyConfig Q cfg q = Ret (err, q') \<and> qinv q' \<and>
      (if err = None then conf cfg \<noteq> None \<and> qview q' = (qview q)(tq_Name cfg := conf cfg) else qview q' = qview q)"
    and remove_law: "qinv q \<Longrightarrow> \<exists>err q'. qc_RemoveConfig Q n q = Ret (err, q') \<and> qinv q' \<and>
      (if err = None then qview q' = (qview q)(n := None) else qview q' = qview q)"
    and restore_law: "\<exists>err q'. qc_RestoreState Q st q = Ret (err, q')"

locale speed_control =
  fixes C :: "'s SpeedController" and raw :: "'s \<Rightarrow> string \<rightharpoonup> SpeedLimiterUser"
    and scheds :: "'s \<Rightarrow> string \<rightharpoonup> UserSchedule list"
  assumes speed_law: "sc_ApplyConfig C cfg s = (err, s') \<Longrightarrow> scheds s' = scheds s \<and>
      raw s' = (if err = None then (raw s)(su_Name cfg \<mapsto> cfg) else raw s)"
    and unspeed_law: "sc_RemoveConfig C n s = (err, s') \<Longrightarrow> scheds s' = scheds s \<and>
      raw s' = (if err = None then (raw s)(n := None) else raw s)"
    and replace_law: "sc_ReplaceUserSchedules C n us s = (err, s') \<Longrightarrow> raw s' = raw s \<and>
      (err = None \<longrightarrow> (scheds s' n = None \<longleftrightarrow> us = []))"
    and unschedule_law: "sc_RemoveUserSchedules C n s = (err, s') \<Longrightarrow> raw s' = raw s \<and>
      scheds s' = (if err = None then (scheds s)(n := None) else scheds s)"

locale admin_services =
  user_directory P pinv pview + quota_control Q qinv qview conf + speed_control C raw scheds
  for P :: "'p UserProvider" and pinv pview and Q :: "'q QuotaController" and qinv
    and qview :: "'q \<Rightarrow> string \<rightharpoonup> 'c" and conf and C :: "'s SpeedController" and raw scheds +
  fixes S :: "('p, 'q, 's) AdminService"
  assumes wired: "userProvider S = Some P" "quotaController S = Some Q" "speedController S = Some C"
begin

text \<open>A rollback takes the created user out of the directory again.\<close>

lemma rollback_speed_frame: "\<exists>errs s. rollback_speed S n sa w = (errs, w\<lparr>speed_of := s\<rparr>)"
proof (cases sa)
  case True
  obtain e1 s1 where "sc_RemoveConfig C n (speed_of w) = (e1, s1)" by fastforce
  moreover obtain e2 s2 where "sc_RemoveUserSchedules C n s1 = (e2, s2)" by fastforce
  ultimately show ?thesis using True by (auto simp: rollback_speed_def wired)
next
  case False
  then show ?thesis by (simp add: rollback_speed_def wired) (metis admin_world.surjective admin_world.update_convs(3))
qed

lemma rollback_quota_frame:
  assumes "qinv (quota_of w)"
  shows "\<exists>errs q. rollback_quota S n qa w = Ret (errs, w\<lparr>quota_of := q\<rparr>) \<and> qinv q"
proof (cases qa)
  case True
  obtain err q' where "qc_RemoveConfig Q n (quota_of w) = Ret (err, q')" "qinv q'"
    using remove_law assms by blast
  with True show ?thesis by (auto simp: rollback_quota_def wired)
next
  case False
  with assms show ?thesis
    by (simp add: rollback_quota_def wired) (metis admin_world.surjective admin_world.update_convs(2))
qed

lemma rollback_users:
  assumes "world_inv pinv qinv w" "pview (provider_of w) n \<noteq> None"
  shows "\<exists>err w'. rollbackCreatedUser P S n qa sa w = Ret (err, w') \<and> world_inv pinv qinv w' \<and>
     pview (provider_of w') = (pview (provider_of w))(n := None)"
proof -
  obtain errs1 s where first: "rollback_speed S n sa w = (errs1, w\<lparr>speed_of := s\<rparr>)"
    using rollback_speed_frame by blast
  obtain errs2 q where second: "rollback_quota S n qa (w\<lparr>speed_of := s\<rparr>) = Ret (errs2, w\<lparr>speed_of := s, quota_of := q\<rparr>)"
    and q: "qinv q"
    using rollback_quota_frame [of "w\<lparr>speed_of := s\<rparr>" n qa] assms(1) by (auto simp: world_inv_def)
  obtain p' where d: "up_DeleteUser P n (provider_of w) = (None, p')" "pinv p'"
    "pview p' = (pview (provider_of w))(n := None)"
    using delete_law [of "provider_of w" n] assms unfolding world_inv_def by auto
  have "rollbackCreatedUser P S n qa sa w =
      Ret (errors_of (errs1 @ errs2), w\<lparr>speed_of := s, quota_of := q, provider_of := p'\<rparr>)"
    by (simp add: rollbackCreatedUser_def first second d(1) cause_of_def)
  with q d(2,3) show ?thesis by (simp add: world_inv_def)
qed

lemma status_of_error:
  "runtimeControlErrorStatus B (Some e) \<noteq> 204" "userProviderErrorStatus B (Some e) \<noteq> 204"
  by (simp_all add: runtimeControlErrorStatus_def userProviderErrorStatus_def)

text \<open>A handler that answers with an error after rolling back.\<close>

lemma rollback_error:
  assumes "world_inv pinv qinv w" "pview (provider_of w) n \<noteq> None"
  shows "\<exists>code w'. handleCreateRollbackError B P S n qa sa e w = Ret ((code, NoPayload), w') \<and> code \<noteq> 204 \<and>
     world_inv pinv qinv w' \<and> pview (provider_of w') = (pview (provider_of w))(n := None)"
proof -
  obtain err w' where "rollbackCreatedUser P S n qa sa w = Ret (err, w')" "world_inv pinv qinv w'"
    "pview (provider_of w') = (pview (provider_of w))(n := None)"
    using rollback_users [OF assms] by blast
  then show ?thesis
    by (simp add: handleCreateRollbackError_def write_header_def status_of_error)
qed

lemma create_schedules_ok:
  assumes "world_inv pinv qinv w" "pview (provider_of w) (ou_Name (cu_User req)) \<noteq> None"
  shows "\<exists>code w'. create_schedules B P S req qa sa w = Ret ((code, NoPayload), w') \<and> world_inv pinv qinv w' \<and>
     (if code = 204
      then provider_of w' = provider_of w \<and> quota_of w' = quota_of w \<and> raw (speed_of w') = raw (speed_of w) \<and>
        (cu_SpeedSchedules req \<noteq> [] \<longrightarrow> scheds (speed_of w') (ou_Name (cu_User req)) \<noteq> None)
      else pview (provider_of w') = (pview (provider_of w))(ou_Name (cu_User req) := None))"
proof (cases "cu_SpeedSchedules req = []")
  case True
  with assms(1) show ?thesis by (simp add: create_schedules_def write_header_def)
next
  case False
  let ?n = "ou_Name (cu_User req)"
  obtain err s where r: "sc_ReplaceUserSchedules C ?n (cu_SpeedSchedules req) (speed_of w) = (err, s)" by fastforce
  show ?thesis
  proof (cases err)
    case None
    with r False replace_law [OF r] assms(1) show ?thesis
      by (simp add: create_schedules_def write_header_def wired world_inv_def)
  next
    case (Some e)
    have "create_schedules B P S req qa sa w = handleCreateRollbackError B P S ?n qa sa e (w\<lparr>speed_of := s\<rparr>)"
      using r Some False by (simp add: create_schedules_def wired)
    then show ?thesis
      using rollback_error [of "w\<lparr>speed_of := s\<rparr>" ?n B qa sa e] assms by (auto simp: world_inv_def)
  qed
qed

lemma create_speed_ok:
  assumes "world_inv pinv qinv w" "pview (provider_of w) (ou_Name (cu_User req)) \<noteq> None"
  shows "\<exists>code w'. create_speed B P S req qa w = Ret ((code, NoPayload), w') \<and> world_inv pinv qinv w' \<and>
     (if code = 204
      then provider_of w' = provider_of w \<and> quota_of w' = quota_of w \<and>
        (\<forall>cfg. cu_Speed req = Some cfg \<longrightarrow>
           raw (speed_of w') (ou_Name (cu_User req)) = Some (cfg\<lparr>su_Name := ou_Name (cu_User req)\<rparr>)) \<and>
        (cu_SpeedSchedules req \<noteq> [] \<longrightarrow> scheds (speed_of w') (ou_Name (cu_User req)) \<noteq> None)
      else pview (provider_of w') = (pview (provider_of w))(ou_Name (cu_User req) := None))"
proof (cases "cu_Speed req")
  case None
  then have "create_speed B P S req qa w = create_schedules B P S req qa False w" by (simp add: create_speed_def)
  with create_schedules_ok [OF assms, of B qa False] obtain code w' where
    "create_speed B P S req qa w = Ret ((code, NoPayload), w')" "world_inv pinv qinv w'"
    "if code = 204
     then provider_of w' = provider_of w \<and> quota_of w' = quota_of w \<and> raw (speed_of w') = raw (speed_of w) \<and>
       (cu_SpeedSchedules req \<noteq> [] \<longrightarrow> scheds (speed_of w') (ou_Name (cu_User req)) \<noteq> None)
     else pview (provider_of w') = (pview (provider_of w))(ou_Name (cu_User req) := None)"
    by auto
  with None show ?thesis by (intro exI [of _ code] exI [of _ w']) (auto split: if_splits)
next
  case (Some cfg)
  let ?n = "ou_Name (cu_User req)"
  obtain err s where r: "sc_ApplyConfig C (cfg\<lparr>su_Name := ?n\<rparr>) (speed_of w) = (err, s)" by fastforce
  have w: "world_inv pinv qinv (w\<lparr>speed_of := s\<rparr>)" using assms(1) by (simp add: world_inv_def)
  show ?thesis
  proof (cases err)
    case None
    then have "create_speed B P S req qa w = create_schedules B P S req qa True (w\<lparr>speed_of := s\<rparr>)"
      using r Some by (simp add: create_speed_def wired)
    moreover obtain code w' where
      "create_schedules B P S req qa True (w\<lparr>speed_of := s\<rparr>) = Ret ((code, NoPayload), w')" "world_inv pinv qinv w'"
      "if code = 204
       then provider_of w' = provider_of w \<and> quota_of w' = quota_of w \<and> raw (speed_of w') = raw s \<and>
         (cu_SpeedSchedules req \<noteq> [] \<longrightarrow> scheds (speed_of w') ?n \<noteq> None)
       else pview (provider_of w') = (pview (provider_of w))(?n := None)"
      using create_schedules_ok [OF w, of req B qa True] assms(2) by auto
    moreover have "raw s ?n = Some (cfg\<lparr>su_Name := ?n\<rparr>)" using speed_law [OF r] None by simp
    ultimately show ?thesis using Some by (intro exI [of _ code] exI [of _ w']) (auto split: if_splits)
  next
    case (Some e)
    then have "create_speed B P S req qa w = handleCreateRollbackError B P S ?n qa False e (w\<lparr>speed_of := s\<rparr>)"
      using r \<open>cu_Speed req = Some cfg\<close> by (simp add: create_speed_def wired)
    then show ?thesis using rollback_error [OF w, of ?n B qa False e] assms(2) by auto
  qed
qed

lemma create_quota_ok:
  assumes "world_inv pinv qinv w" "pview (provider_of w) (ou_Name (cu_User req)) \<noteq> None"
  shows "\<exists>code w'. create_quota B P S req w = Ret ((code, NoPayload), w') \<and> world_inv pinv qinv w' \<and>
     (if code = 204
      then provider_of w' = provider_of w \<and>
        (\<forall>cfg. cu_Quota req = Some cfg \<longrightarrow> qview (quota_of w') (ou_Name (cu_User req)) \<noteq> None \<and>
           qview (quota_of w') (ou_Name (cu_User req)) = conf (cfg\<lparr>tq_Name := ou_Name (cu_User req)\<rparr>)) \<and>
        (\<forall>cfg. cu_Speed req = Some cfg \<longrightarrow>
           raw (speed_of w') (ou_Name (cu_User req)) = Some (cfg\<lparr>su_Name := ou_Name (cu_User req)\<rparr>)) \<and>
        (cu_SpeedSchedules req \<noteq> [] \<longrightarrow> scheds (speed_of w') (ou_Name (cu_User req)) \<noteq> None)
      else pview (provider_of w') = (pview (provider_of w))(ou_Name (cu_User req) := None))"
proof (cases "cu_Quota req")
  case None
  then have "create_quota B P S req w = create_speed B P S req False w" by (simp add: create_quota_def)
  with create_speed_ok [OF assms, of B False] obtain code w' where
    "create_quota B P S req w = Ret ((code, NoPayload), w')" "world_inv pinv qinv w'"
    "if code = 204
     then provider_of w' = provider_of w \<and> quota_of w' = quota_of w \<and>
       (\<forall>cfg. cu_Speed req = Some cfg \<longrightarrow>
          raw (speed_of w') (ou_Name (cu_User req)) = Some (cfg\<lparr>su_Name := ou_Name (cu_User req)\<rparr>)) \<and>
       (cu_SpeedSchedules req \<noteq> [] \<longrightarrow> scheds (speed_of w') (ou_Name (cu_User req)) \<noteq> None)
     else pview (provider_of w') = (pview (provider_of w))(ou_Name (cu_User req) := None)"
    by auto
  with None show ?thesis by (intro exI [of _ code] exI [of _ w']) (auto split: if_splits)
next
  case (Some cfg)
  let ?n = "ou_Name (cu_User req)"
  obtain err q where r: "qc_ApplyConfig Q (cfg\<lparr>tq_Name := ?n\<rparr>) (quota_of w) = Ret (err, q)" "qinv q"
    and v: "if err = None then conf (cfg\<lparr>tq_Name := ?n\<rparr>) \<noteq> None \<and> qview q = (qview (quota_of w))(?n := conf (cfg\<lparr>tq_Name := ?n\<rparr>))
        else qview q = qview (quota_of w)"
    using apply_law [of "quota_of w" "cfg\<lparr>tq_Name := ?n\<rparr>"] assms(1) by (auto simp: world_inv_def)
  have w: "world_inv pinv qinv (w\<lparr>quota_of := q\<rparr>)" using assms(1) r(2) by (simp add: world_inv_def)
  show ?thesis
  proof (cases err)
    case None
    then have "create_quota B P S req w = create_speed B P S req True (w\<lparr>quota_of := q\<rparr>)"
      using r Some by (simp add: create_quota_def wired)
    moreover obtain code w' where
      "create_speed B P S req True (w\<lparr>quota_of := q\<rparr>) = Ret ((code, NoPayload), w')" "world_inv pinv qinv w'"
      "if code = 204
       then provider_of w' = provider_of w \<and> quota_of w' = q \<and>
         (\<forall>cfg. cu_Speed req = Some cfg \<longrightarrow> raw (speed_of w') ?n = Some (cfg\<lparr>su_Name := ?n\<rparr>)) \<and>
         (cu_SpeedSchedules req \<noteq> [] \<longrightarrow> scheds (speed_of w') ?n \<noteq> None)
       else pview (provider_of w') = (pview (provider_of w))(?n := None)"
      using create_speed_ok [OF w, of req B True] assms(2) by auto
    ultimately show ?thesis using Some v None by (intro exI [of _ code] exI [of _ w']) (auto split: if_splits)
  next
    case (Some e)
    then have "create_quota B P S req w = handleCreateRollbackError B P S ?n False False e (w\<lparr>quota_of := q\<rparr>)"
      using r \<open>cu_Quota req = Some cfg\<close> by (simp add: create_quota_def wired)
    then show ?thesis using rollback_error [OF w, of ?n B False False e] assms(2) by auto
  qed
qed

theorem create_atomic:
  assumes "world_inv pinv qinv w"
  shows "\<exists>code w'. CreateUserHandler B S request w = Ret ((code, NoPayload), w') \<and> world_inv pinv qinv w' \<and>
     (if code = 204
      then \<exists>req. decodeCreateUserRequest B request = Some req \<and> pview (provider_of w) (ou_Name (cu_User req)) = None \<and>
        pview (provider_of w') = (pview (provider_of w))(ou_Name (cu_User req) \<mapsto> optionUserToAdapter (cu_User req)) \<and>
        (\<forall>cfg. cu_Quota req = Some cfg \<longrightarrow> qview (quota_of w') (ou_Name (cu_User req)) \<noteq> None \<and>
           qview (quota_of w') (ou_Name (cu_User req)) = conf (cfg\<lparr>tq_Name := ou_Name (cu_User req)\<rparr>)) \<and>
        (\<forall>cfg. cu_Speed req = Some cfg \<longrightarrow>
           raw (speed_of w') (ou_Name (cu_User req)) = Some (cfg\<lparr>su_Name := ou_Name (cu_User req)\<rparr>)) \<and>
        (cu_SpeedSchedules req \<noteq> [] \<longrightarrow> scheds (speed_of w') (ou_Name (cu_User req)) \<noteq> None)
      else pview (provider_of w') = pview (provider_of w))"
proof (cases "decodeCreateUserRequest B request")
  case None
  with assms show ?thesis by (simp add: CreateUserHandler_def write_header_def wired)
next
  case (Some req)
  let ?n = "ou_Name (cu_User req)"
  obtain err p where c: "up_CreateUser P (cu_User req) (provider_of w) = (err, p)" "pinv p"
    "if ?n = '''' \<or> pview (provider_of w) ?n \<noteq> None then err \<noteq> None \<and> pview p = pview (provider_of w)
     else err = None \<and> pview p = (pview (provider_of w))(?n \<mapsto> optionUserToAdapter (cu_User req))"
    using create_law [of "provider_of w" "cu_User req"] assms unfolding world_inv_def by auto
  have w: "world_inv pinv qinv (w\<lparr>provider_of := p\<rparr>)" using assms c(2) by (simp add: world_inv_def)
  show ?thesis
  proof (cases "?n = '''' \<or> pview (provider_of w) ?n \<noteq> None")
    case True
    then obtain e where e: "err = Some e" "pview p = pview (provider_of w)" using c(3) by auto
    have "CreateUserHandler B S request w =
        (if ?n = '''' then Ret ((400, NoPayload), w)
         else Ret ((userProviderErrorStatus B (Some e), NoPayload), w\<lparr>provider_of := p\<rparr>))"
      using c(1) Some e(1) by (simp add: CreateUserHandler_def write_header_def wired)
    with assms w e(2) status_of_error(2) [of B e] show ?thesis by (cases "?n = ''''") simp_all
  next
    case False
    then have "CreateUserHandler B S request w = create_quota B P S req (w\<lparr>provider_of := p\<rparr>)"
      and v: "pview p = (pview (provider_of w))(?n \<mapsto> optionUserToAdapter (cu_User req))"
      using c Some by (simp_all add: CreateUserHandler_def wired)
    moreover from v have "pview p ?n \<noteq> None" "(pview p)(?n := None) = pview (provider_of w)"
      using False by auto
    moreover obtain code w' where "create_quota B P S req (w\<lparr>provider_of := p\<rparr>) = Ret ((code, NoPayload), w')"
      "world_inv pinv qinv w'"
      "if code = 204
       then provider_of w' = p \<and>
         (\<forall>cfg. cu_Quota req = Some cfg \<longrightarrow> qview (quota_of w') ?n \<noteq> None \<and>
            qview (quota_of w') ?n = conf (cfg\<lparr>tq_Name := ?n\<rparr>)) \<and>
         (\<forall>cfg. cu_Speed req = Some cfg \<longrightarrow> raw (speed_of w') ?n = Some (cfg\<lparr>su_Name := ?n\<rparr>)) \<and>
         (cu_SpeedSchedules req \<noteq> [] \<longrightarrow> scheds (speed_of w') ?n \<noteq> None)
       else pview (provider_of w') = (pview p)(?n := None)"
      using create_quota_ok [OF w, of req B] \<open>pview p ?n \<noteq> None\<close> by (auto cong: if_cong)
    ultimately show ?thesis using Some False v
      by (intro exI [of _ code] exI [of _ w']) (cases "code = 204", simp, metis, simp)
  qed
qed

section \<open>Deleting a user\<close>

lemma cleanup_speed_frame: "\<exists>err s. cleanup_speed S n w = (err, w\<lparr>speed_of := s\<rparr>) \<and>
    (err = None \<longrightarrow> raw s n = None \<and> scheds s n = None)"
proof -
  obtain e1 s1 where r1: "sc_RemoveUserSchedules C n (speed_of w) = (e1, s1)" by fastforce
  obtain e2 s2 where r2: "sc_RemoveConfig C n s1 = (e2, s2)" by fastforce
  show ?thesis
    using r1 r2 unschedule_law [OF r1] unspeed_law [OF r2] by (cases e1) (auto simp: cleanup_speed_def wired)
qed

lemma cleanup_frame:
  assumes "qinv (quota_of w)"
  shows "\<exists>err s q. cleanupDeleteRuntimeState S n w = Ret (err, w\<lparr>speed_of := s, quota_of := q\<rparr>) \<and> qinv q \<and>
    (err = None \<longrightarrow> raw s n = None \<and> scheds s n = None \<and> qview q n = None)"
proof -
  obtain err s where c: "cleanup_speed S n w = (err, w\<lparr>speed_of := s\<rparr>)"
    "err = None \<longrightarrow> raw s n = None \<and> scheds s n = None"
    using cleanup_speed_frame by blast
  obtain e q where r: "qc_RemoveConfig Q n (quota_of w) = Ret (e, q)" "qinv q"
    "if e = None then qview q = (qview (quota_of w))(n := None) else qview q = qview (quota_of w)"
    using remove_law assms by blast
  show ?thesis
  proof (cases err)
    case None
    with c r(1) have "cleanupDeleteRuntimeState S n w = Ret (e, w\<lparr>speed_of := s, quota_of := q\<rparr>)"
      by (simp add: cleanupDeleteRuntimeState_def wired)
    with c(2) None r(2,3) show ?thesis by (intro exI [of _ e] exI [of _ s] exI [of _ q]) simp
  next
    case (Some e)
    then have "cleanupDeleteRuntimeState S n w = Ret (Some e, w\<lparr>speed_of := s, quota_of := quota_of w\<rparr>)"
      using c by (simp add: cleanupDeleteRuntimeState_def)
    with assms show ?thesis by blast
  qed
qed

lemma restore_quota_frame: "\<exists>err q. restore_quota S st w = Ret (err, w\<lparr>quota_of := q\<rparr>)"
proof (cases "ds_quota st")
  case (Some x)
  with restore_law [of x "quota_of w"] show ?thesis by (auto simp: restore_quota_def wired)
qed (simp add: restore_quota_def wired, metis admin_world.surjective admin_world.update_convs(2))

lemma restore_speed_frame: "\<exists>err s. restore_speed S st w = (err, w\<lparr>speed_of := s\<rparr>)"
  by (cases "ds_speed st")
    (auto simp: restore_speed_def wired split: prod.splits, metis admin_world.surjective admin_world.update_convs(3))

lemma restore_schedules_frame: "\<exists>err s. restore_schedules S st w = (err, w\<lparr>speed_of := s\<rparr>)"
  by (cases "ds_schedules st")
    (auto simp: restore_schedules_def wired split: prod.splits, metis admin_world.surjective admin_world.update_convs(3))

lemma restore_frame:
  assumes "restore_user P st w = (e, w1)"
  shows "\<exists>err w'. restoreDeleteRuntimeState P S st w = Ret (err, w') \<and> provider_of w' = provider_of w1"
proof -
  obtain e2 q where 2: "restore_quota S st w1 = Ret (e2, w1\<lparr>quota_of := q\<rparr>)" using restore_quota_frame by blast
  obtain e3 s where 3: "restore_speed S st (w1\<lparr>quota_of := q\<rparr>) = (e3, w1\<lparr>quota_of := q\<rparr>\<lparr>speed_of := s\<rparr>)"
    using restore_speed_frame by blast
  obtain e4 s' where "restore_schedules S st (w1\<lparr>quota_of := q\<rparr>\<lparr>speed_of := s\<rparr>) =
      (e4, w1\<lparr>quota_of := q\<rparr>\<lparr>speed_of := s\<rparr>\<lparr>speed_of := s'\<rparr>)"
    using restore_schedules_frame by blast
  with assms 2 3 show ?thesis by (simp add: restoreDeleteRuntimeState_def)
qed

lemma restored_directory:
  assumes "pinv p" "pview p = d(n := None)" "d n = Some a" "au_Name a = n" "n \<noteq> ''''"
  shows "\<exists>e p'. up_CreateUser P (adapterUserToOption a) p = (e, p') \<and> pinv p' \<and> pview p' = d"
proof -
  have a: "ou_Name (adapterUserToOption a) = n" "optionUserToAdapter (adapterUserToOption a) = a"
    using assms(4) by (simp_all add: adapterUserToOption_def optionUserToAdapter_def)
  then obtain e p' where "up_CreateUser P (adapterUserToOption a) p = (e, p')" "pinv p'"
    "pview p' = (pview p)(n \<mapsto> a)"
    using create_law [of p "adapterUserToOption a"] assms by auto
  moreover have "(pview p)(n \<mapsto> a) = d" using assms(2,3) by (auto simp: fun_eq_iff)
  ultimately show ?thesis by auto
qed

theorem delete_atomic:
  assumes "world_inv pinv qinv w"
  shows "\<exists>code w'. DeleteUserHandler B S request w = Ret ((code, NoPayload), w') \<and>
     (if code = 204
      then world_inv pinv qinv w' \<and> (\<exists>req. decode_delete B (rq_Body request) = Some req \<and>
        pview (provider_of w) (userName req) \<noteq> None \<and>
        pview (provider_of w') = (pview (provider_of w))(userName req := None) \<and>
        qview (quota_of w') (userName req) = None \<and> raw (speed_of w') (userName req) = None \<and>
        scheds (speed_of w') (userName req) = None)
      else pview (provider_of w') = pview (provider_of w))"
proof (cases "decode_delete B (rq_Body request)")
  case None
  then show ?thesis by (simp add: DeleteUserHandler_def write_header_def wired)
next
  case (Some req)
  let ?n = "userName req"
  let ?st = "snapshotDeleteRuntimeState P S ?n w"
  have inv: "pinv (provider_of w)" "qinv (quota_of w)" using assms by (simp_all add: world_inv_def)
  show ?thesis
  proof (cases "?n = '''' \<or> pview (provider_of w) ?n = None")
    case True
    then show ?thesis using Some get_law [OF inv(1)]
      by (cases "?n = ''''") (simp_all add: DeleteUserHandler_def write_header_def wired snapshotDeleteRuntimeState_def)
  next
    case False
    then obtain a where a: "pview (provider_of w) ?n = Some a" "au_Name a = ?n" using name_law [OF inv(1)] by blast
    then have st: "ds_user ?st = Some (adapterUserToOption a)"
      using get_law [OF inv(1)] by (simp add: snapshotDeleteRuntimeState_def)
    obtain p where d: "up_DeleteUser P ?n (provider_of w) = (None, p)" "pinv p"
      "pview p = (pview (provider_of w))(?n := None)"
      using delete_law [OF inv(1), of ?n] a by auto
    obtain err s q where c: "cleanupDeleteRuntimeState S ?n (w\<lparr>provider_of := p\<rparr>) =
        Ret (err, w\<lparr>provider_of := p\<rparr>\<lparr>speed_of := s, quota_of := q\<rparr>)" "qinv q"
      "err = None \<longrightarrow> raw s ?n = None \<and> scheds s ?n = None \<and> qview q ?n = None"
      using cleanup_frame [of "w\<lparr>provider_of := p\<rparr>" ?n] inv(2) by auto
    show ?thesis
    proof (cases err)
      case None
      have "DeleteUserHandler B S request w = Ret ((204, NoPayload), w\<lparr>provider_of := p\<rparr>\<lparr>speed_of := s, quota_of := q\<rparr>)"
        using False Some st d(1) c(1) None by (simp add: DeleteUserHandler_def write_header_def wired)
      with None Some False c(2,3) d(2,3) show ?thesis by (simp add: world_inv_def)
    next
      case (Some e)
      obtain e1 p1 where "up_CreateUser P (adapterUserToOption a) p = (e1, p1)" "pview p1 = pview (provider_of w)"
        using restored_directory [OF d(2,3) a] False by auto
      then obtain r w' where r: "restoreDeleteRuntimeState P S ?st (w\<lparr>provider_of := p\<rparr>\<lparr>speed_of := s, quota_of := q\<rparr>) = Ret (r, w')"
        "pview (provider_of w') = pview (provider_of w)"
        using restore_frame [of ?st "w\<lparr>provider_of := p\<rparr>\<lparr>speed_of := s, quota_of := q\<rparr>"]
        by (auto simp: restore_user_def st)
      then obtain e' where "DeleteUserHandler B S request w = Ret ((runtimeControlErrorStatus B (Some e'), NoPayload), w')"
        using False \<open>decode_delete B (rq_Body request) = Some req\<close> st d(1) c(1) Some
        by (simp add: DeleteUserHandler_def write_header_def wired)
      with r(2) status_of_error(1) show ?thesis by simp
    qed
  qed
qed

end

section \<open>The quota service as a controller\<close>

definition quota_controller :: "time_parser \<Rightarrow> (gotime \<Rightarrow> string) \<Rightarrow> 'p quota_service QuotaController" where
  "quota_controller tparse fmt_time =
     \<lparr>qc_ApplyConfig = svc_ApplyConfig tparse, qc_RemoveConfig = removeConfigLocked,
      qc_SnapshotState = (\<lambda>u s. SnapshotState fmt_time u (manager s)),
      qc_RestoreState = svc_RestoreState tparse, qc_QuotaStatus = (\<lambda>u s. Status u (manager s))\<rparr>"

definition quota_conf :: "time_parser \<Rightarrow> TrafficQuotaUser \<Rightarrow> quota_config option" where
  "quota_conf tparse user =
     (case newQuotaConfig tparse (tq_QuotaGB user) (tq_Period user) (tq_PeriodStart user) (tq_PeriodDays user) None of
        Inr (Some c) \<Rightarrow> Some c | _ \<Rightarrow> None)"

lemma CurrentPeriodKey_returns:
  assumes "userConfigs m u = Some c" "validateQuotaConfig c = None"
  shows "\<exists>k m'. CurrentPeriodKey u m = Ret (k, m')"
proof -
  obtain k where "periodKey c (now m) = Inr k" using periodKey_total [OF assms(2)] by blast
  with assms(1) show ?thesis
    by (simp add: CurrentPeriodKey_def mustPeriodKey_def GetCurrentPeriodKey_def stateFor_def upd_state_def Let_def)
qed

lemma svc_RestoreState_returns: "\<exists>err s'. svc_RestoreState tparse st s = Ret (err, s')"
proof (cases "RestoreState tparse st (manager s)")
  case (Pair err m)
  show ?thesis
  proof (cases "err = None \<and> persister s \<noteq> None \<and> rs_PeriodKey st = ''''")
    case True
    then obtain c where "userConfigs m (tq_Name (rs_User st)) = Some c" "validateQuotaConfig c = None"
      using Pair newQuotaConfig_valid
      by (fastforce simp: RestoreState_def Let_def storeConfig_def upd_state_def split: sum.splits option.splits)
    then obtain k m' where "CurrentPeriodKey (tq_Name (rs_User st)) m = Ret (k, m')"
      using CurrentPeriodKey_returns by blast
    with True Pair show ?thesis
      by (auto simp: svc_RestoreState_def Let_def split: option.splits prod.splits)
  next
    case False
    with Pair show ?thesis
      by (auto simp: svc_RestoreState_def Let_def split: option.splits prod.splits)
  qed
qed

lemma svc_ApplyConfig_accepts:
  assumes "mgr_inv (manager s)" "svc_ApplyConfig tparse cfg s = Ret (None, s')"
  shows "quota_conf tparse cfg \<noteq> None"
proof -
  obtain r m where a: "ApplyConfig tparse cfg (manager s) = Ret (r, m)"
    using mgr_ApplyConfig [OF assms(1)] by metis
  with assms(2) have "r = None"
    by (auto simp: svc_ApplyConfig_def Let_def go_bind_def split: option.splits if_splits go.splits)
  with a show ?thesis
    by (auto simp: ApplyConfig_def Let_def quota_conf_def split: if_splits sum.splits option.splits go.splits)
qed

interpretation quota_admin: quota_control "quota_controller tparse fmt_time" "\<lambda>s. mgr_inv (manager s)"
  "\<lambda>s. userConfigs (manager s)" "quota_conf tparse" for tparse fmt_time
proof unfold_locales
  fix s :: "'p quota_service" and cfg n st
  assume inv: "mgr_inv (manager s)"
  obtain err s' where a: "svc_ApplyConfig tparse cfg s = Ret (err, s')" "mgr_inv (manager s')"
    using svc_ApplyConfig_ok [OF inv] by metis
  have "err = None \<Longrightarrow> quota_conf tparse cfg \<noteq> None" using svc_ApplyConfig_accepts [OF inv] a(1) by simp
  with a svc_ApplyConfig_view [OF inv a(1)]
  show "\<exists>err s'. qc_ApplyConfig (quota_controller tparse fmt_time) cfg s = Ret (err, s') \<and> mgr_inv (manager s') \<and>
      (if err = None then quota_conf tparse cfg \<noteq> None \<and>
         userConfigs (manager s') = (userConfigs (manager s))(tq_Name cfg := quota_conf tparse cfg)
       else userConfigs (manager s') = userConfigs (manager s))"
    by (auto simp: quota_controller_def quota_conf_def split: sum.splits option.splits)
  obtain err s' where r: "removeConfigLocked n s = Ret (err, s')" "mgr_inv (manager s')"
    using removeConfigLocked_ok [OF inv] by metis
  with removeConfigLocked_view [OF inv r(1)]
  show "\<exists>err s'. qc_RemoveConfig (quota_controller tparse fmt_time) n s = Ret (err, s') \<and> mgr_inv (manager s') \<and>
      (if err = None then userConfigs (manager s') = (userConfigs (manager s))(n := None)
       else userConfigs (manager s') = userConfigs (manager s))"
    by (auto simp: quota_controller_def)
next
  fix s :: "'p quota_service" and st
  show "\<exists>err s'. qc_RestoreState (quota_controller tparse fmt_time) st s = Ret (err, s')"
    using svc_RestoreState_returns by (simp add: quota_controller_def)
qed

section \<open>The speed limiter as a controller\<close>

text \<open>\<open>ord\<close> is the order in which the limiters are visited.\<close>

definition speed_controller ::
  "('c, 'l) rate_pkg \<Rightarrow> local_clock \<Rightarrow> ('l limiter_manager \<Rightarrow> string list) \<Rightarrow> int \<Rightarrow> 'l limiter_manager SpeedController" where
  "speed_controller R hm ord t =
     \<lparr>sc_ApplyConfig = (\<lambda>cfg m. speed_ApplyConfig R hm (ord m) t cfg m),
      sc_RemoveConfig = (\<lambda>u m. speed_RemoveConfig R (ord m) u m), sc_GetConfig = speed_GetConfig,
      sc_ReplaceUserSchedules = (\<lambda>u us m. ReplaceUserSchedules R hm (ord m) t u us m),
      sc_GetUserSchedules = GetUserSchedules,
      sc_RemoveUserSchedules = (\<lambda>u m. RemoveUserSchedules R hm (ord m) t u m)\<rparr>"

lemma GetUserSchedules_cong: "userSchedules (config m') = userSchedules (config m) \<Longrightarrow>
    (\<lambda>u. GetUserSchedules u m') = (\<lambda>u. GetUserSchedules u m)"
  by (simp add: GetUserSchedules_def fun_eq_iff)

lemma parse_all_empty: "parse_all f us = Inr xs \<Longrightarrow> xs = [] \<longleftrightarrow> us = []"
  by (cases us) (auto split: sum.splits)

interpretation speed_admin: speed_control "speed_controller R hm ord t"
  "\<lambda>m. userRawConfig (config m)" "\<lambda>m u. GetUserSchedules u m" for R hm ord t
proof unfold_locales
  fix cfg m err m'
  assume "sc_ApplyConfig (speed_controller R hm ord t) cfg m = (err, m')"
  then have a: "speed_ApplyConfig R hm (ord m) t cfg m = (err, m')" by (simp add: speed_controller_def)
  then have "userSchedules (config m') = userSchedules (config m)"
    by (auto simp: speed_ApplyConfig_def Let_def split: if_splits)
  with speed_ApplyConfig_view [OF a] GetUserSchedules_cong
  show "(\<lambda>u. GetUserSchedules u m') = (\<lambda>u. GetUserSchedules u m) \<and>
      userRawConfig (config m') =
        (if err = None then (userRawConfig (config m))(su_Name cfg \<mapsto> cfg) else userRawConfig (config m))"
    by blast
next
  fix n m err m'
  assume "sc_RemoveConfig (speed_controller R hm ord t) n m = (err, m')"
  then have a: "speed_RemoveConfig R (ord m) n m = (err, m')" by (simp add: speed_controller_def)
  then have "userSchedules (config m') = userSchedules (config m)"
    by (auto simp: speed_RemoveConfig_def Let_def fold_remove_same split: if_splits)
  with speed_RemoveConfig_view [OF a] GetUserSchedules_cong
  show "(\<lambda>u. GetUserSchedules u m') = (\<lambda>u. GetUserSchedules u m) \<and>
      userRawConfig (config m') = (if err = None then (userRawConfig (config m))(n := None) else userRawConfig (config m))"
    by blast
next
  fix n us m err m'
  assume "sc_ReplaceUserSchedules (speed_controller R hm ord t) n us m = (err, m')"
  then show "userRawConfig (config m') = userRawConfig (config m) \<and>
      (err = None \<longrightarrow> (GetUserSchedules n m' = None \<longleftrightarrow> us = []))"
    using parse_all_empty
    by (auto simp: speed_controller_def ReplaceUserSchedules_def Let_def GetUserSchedules_def split: if_splits sum.splits)
next
  fix n m err m'
  assume "sc_RemoveUserSchedules (speed_controller R hm ord t) n m = (err, m')"
  then show "userRawConfig (config m') = userRawConfig (config m) \<and>
      (\<lambda>u. GetUserSchedules u m') =
        (if err = None then (\<lambda>u. GetUserSchedules u m)(n := None) else (\<lambda>u. GetUserSchedules u m))"
    by (auto simp: speed_controller_def RemoveUserSchedules_def Let_def GetUserSchedules_def fun_eq_iff split: if_splits)
qed

section \<open>The user provider as a directory\<close>

definition provider_controller :: "'h replace \<Rightarrow> source_env \<Rightarrow> 'h provider UserProvider" where
  "provider_controller rep env =
     \<lparr>up_ListUsers = ListUsers, up_GetUser = GetUser, up_CreateUser = CreateUser rep env env,
      up_UpdateUser = UpdateUser rep env env, up_DeleteUser = DeleteUser rep env env env\<rparr>"

text \<open>The inbounds whose \<open>ReplaceUsers\<close> has no error result.\<close>

fun accepts_all :: "managed_inbound \<Rightarrow> bool" where
  "accepts_all (VLESS h) = True"
| "accepts_all (Hysteria h) = True"
| "accepts_all (Hysteria2 h) = True"
| "accepts_all (AnyTLS h) = True"
| "accepts_all (HTTP h) = True"
| "accepts_all (Mixed h) = True"
| "accepts_all (SOCKS h) = True"
| "accepts_all (Naive h) = True"
| "accepts_all h = False"

definition all_accepting :: "(string \<rightharpoonup> string \<times> managed_inbound option) \<Rightarrow> bool" where
  "all_accepting inb \<longleftrightarrow> (\<forall>tag ty h. inb tag = Some (ty, Some h) \<longrightarrow> accepts_all h)"

lemma accepts_all_ReplaceUsers:
  "accepts_all h \<Longrightarrow> \<exists>h'. ReplaceUsers L us h = (None, h') \<and> accepts_all h'"
  by (cases h) (simp_all add: ReplaceUsers_defs Let_def)

lemma push_accepting:
  "all_accepting inb \<Longrightarrow> push_servers (ReplaceUsers L) us tags inb = (errs, inb') \<Longrightarrow> errs = [] \<and> all_accepting inb'"
proof (induction tags arbitrary: inb errs)
  case (Cons tag tags)
  show ?case
  proof (cases "\<exists>ty h. inb tag = Some (ty, Some h)")
    case True
    then obtain ty h where h: "inb tag = Some (ty, Some h)" by blast
    then obtain h' where h': "ReplaceUsers L us h = (None, h')" "accepts_all h'"
      using Cons.prems(1) accepts_all_ReplaceUsers by (metis all_accepting_def)
    then have "all_accepting (inb(tag \<mapsto> (ty, Some h')))" using Cons.prems(1) by (auto simp: all_accepting_def)
    moreover have "push_servers (ReplaceUsers L) us tags (inb(tag \<mapsto> (ty, Some h'))) = (errs, inb')"
      using Cons.prems(2) h h' by (simp split: prod.splits)
    ultimately show ?thesis by (rule Cons.IH)
  next
    case False
    then have "push_servers (ReplaceUsers L) us (tag # tags) inb = push_servers (ReplaceUsers L) us tags inb"
      by (auto split: option.splits)
    with Cons.prems(2) have "push_servers (ReplaceUsers L) us tags inb = (errs, inb')" by (simp only:)
    with Cons.prems(1) show ?thesis by (rule Cons.IH)
  qed
qed simp

definition same_sources :: "'h provider \<Rightarrow> 'h provider \<Rightarrow> bool" where
  "same_sources s t \<longleftrightarrow> map_option fs_path (fileSource t) = map_option fs_path (fileSource s) \<and>
     inlineUsers t = inlineUsers s \<and> cached_source_users t = cached_source_users s"

lemma same_sources_read: "same_sources s t \<Longrightarrow> fst (sourceUsersLocked env t) = fst (sourceUsersLocked env s)"
  unfolding same_sources_def by (rule sourceUsersLocked_result) simp_all

lemma same_sources_trans: "same_sources s t \<Longrightarrow> same_sources t u \<Longrightarrow> same_sources s u"
  by (simp add: same_sources_def)

lemma same_sources_edit:
  "same_sources s (t\<lparr>overlayUsers := ov, deletedUsers := d\<rparr>) = same_sources s t"
  "same_sources s (t\<lparr>deletedUsers := d, overlayUsers := ov\<rparr>) = same_sources s t"
  "same_sources s (t\<lparr>allUsers := us\<rparr>) = same_sources s t"
  "same_sources s (t\<lparr>inbounds := inb\<rparr>) = same_sources s t"
  "same_sources s s"
  by (simp_all add: same_sources_def cached_source_users_def)

lemma sourceUsersLocked_same:
  assumes "sourceUsersLocked env s = (r, t)"
  shows "same_sources s t"
proof -
  obtain f where "snd (sourceUsersLocked env s) = s\<lparr>fileSource := f\<rparr>"
      "map_option fs_path f = map_option fs_path (fileSource s)"
    by (rule sourceUsersLocked_cases)
  with assms show ?thesis by (simp add: same_sources_def)
qed

lemma mergedUsersLocked_same: "mergedUsersLocked env s = (r, t) \<Longrightarrow> same_sources s t"
  using merged_snd_source [of env s] sourceUsersLocked_same [of env s] by (metis prod.collapse snd_conv)

lemma loadAndPush_same:
  assumes "same_sources s u"
  shows "same_sources s (snd (loadAndPush rep env u))"
proof -
  have "same_sources u (snd (loadAndPush rep env u))"
    by (auto simp: loadAndPush_def pushUsers_def same_sources_edit split: prod.split sum.split
        dest: mergedUsersLocked_same)
  with assms show ?thesis by (rule same_sources_trans)
qed

lemma CreateUser_same: "same_sources s (snd (CreateUser rep e1 e2 u s))"
  by (auto simp: CreateUser_def same_sources_edit split: prod.split sum.split
      dest: mergedUsersLocked_same intro!: loadAndPush_same)

lemma DeleteUser_same: "same_sources s (snd (DeleteUser rep e1 e2 e3 n s))"
  by (auto simp: DeleteUser_def same_sources_edit split: prod.split sum.split
      dest!: mergedUsersLocked_same sourceUsersLocked_same dest: same_sources_trans intro!: loadAndPush_same)

definition directory_inv :: "source_env \<Rightarrow> adapter_user list \<Rightarrow> managed_inbound provider \<Rightarrow> bool" where
  "directory_inv env src s \<longleftrightarrow> provider_inv s \<and> fst (sourceUsersLocked env s) = Inr src \<and>
     (\<forall>n. GetUser n s = served src s n) \<and> all_accepting (inbounds s)"

text \<open>
  With accepting inbounds and unchanged sources, an edit of the directory either is refused and
  changes nothing, or succeeds.
\<close>

lemma directory_edit:
  assumes "directory_inv env src s" "provider_inv t" "same_sources s t" "r = (err, t)"
    and "case op of None \<Rightarrow> refused src s r | Some d \<Rightarrow> carried_out (ReplaceUsers L) src d s r"
  shows "directory_inv env src t \<and>
    (case op of None \<Rightarrow> err \<noteq> None \<and> served src t = served src s | Some d \<Rightarrow> err = None \<and> served src t = d)"
proof (cases op)
  case None
  with assms show ?thesis
    by (auto simp: refused_def directory_inv_def same_sources_read ListUsers_def GetUser_def)
next
  case (Some d)
  with assms(4,5) obtain errs where "err = errors_of errs" "served src t = d" "\<forall>n. GetUser n t = d n"
    "push_servers (ReplaceUsers L) (ListUsers t) (servers s) (inbounds s) = (errs, inbounds t)"
    by (auto simp: carried_out_def)
  with push_accepting [of "inbounds s" L "ListUsers t" "servers s" errs "inbounds t"] assms(1-3) Some show ?thesis
    by (auto simp: directory_inv_def same_sources_read errors_of_def)
qed

locale accepting_provider =
  fixes env :: source_env
  assumes visits: "visits_overlay env"
begin

lemma create_accepted:
  assumes "directory_inv env src s"
  shows "\<exists>err t. CreateUser (ReplaceUsers L) env env u s = (err, t) \<and> directory_inv env src t \<and>
    (if ou_Name u = '''' \<or> served src s (ou_Name u) \<noteq> None then err \<noteq> None \<and> served src t = served src s
     else err = None \<and> served src t = (served src s)(ou_Name u \<mapsto> optionUserToAdapter u))"
proof -
  obtain err t where r: "CreateUser (ReplaceUsers L) env env u s = (err, t)" by fastforce
  have inv: "provider_inv s" "overlay_ok s" "fst (sourceUsersLocked env s) = Inr src"
    using assms by (simp_all add: directory_inv_def provider_inv_def)
  have "provider_step (ReplaceUsers L) (\<lambda>_. True) s (snd (CreateUser (ReplaceUsers L) env env u s))"
    by (rule provider_step.create_user [OF visits visits]) simp
  with provider_inv_step inv(1) r have "provider_inv t" by fastforce
  moreover have "same_sources s t" using CreateUser_same [of s "ReplaceUsers L" env env u] r by simp
  ultimately have "directory_inv env src t \<and>
      (case directory_op (Create u) (served src s) of
         None \<Rightarrow> err \<noteq> None \<and> served src t = served src s | Some d \<Rightarrow> err = None \<and> served src t = d)"
    using create_refines [OF visits visits inv(2,3,3)] by (intro directory_edit [OF assms _ _ r])
  with r show ?thesis by auto
qed

lemma delete_accepted:
  assumes "directory_inv env src s"
  shows "\<exists>err t. DeleteUser (ReplaceUsers L) env env env n s = (err, t) \<and> directory_inv env src t \<and>
    (if served src s n = None then err \<noteq> None \<and> served src t = served src s
     else err = None \<and> served src t = (served src s)(n := None))"
proof -
  obtain err t where r: "DeleteUser (ReplaceUsers L) env env env n s = (err, t)" by fastforce
  have inv: "provider_inv s" "overlay_ok s" "fst (sourceUsersLocked env s) = Inr src"
    using assms by (simp_all add: directory_inv_def provider_inv_def)
  have "provider_step (ReplaceUsers L) (\<lambda>_. True) s (snd (DeleteUser (ReplaceUsers L) env env env n s))"
    by (rule provider_step.delete_user [OF visits visits visits])
  with provider_inv_step inv(1) r have "provider_inv t" by fastforce
  moreover have "same_sources s t" using DeleteUser_same [of s "ReplaceUsers L" env env env n] r by simp
  ultimately have "directory_inv env src t \<and>
      (case directory_op (Delete n) (served src s) of
         None \<Rightarrow> err \<noteq> None \<and> served src t = served src s | Some d \<Rightarrow> err = None \<and> served src t = d)"
    using delete_refines [OF visits visits inv(2,3,3,3)] by (intro directory_edit [OF assms _ _ r])
  with r show ?thesis by (cases "served src s n") (auto simp del: fun_upd_apply)
qed

end

sublocale accepting_provider \<subseteq> directory: user_directory "provider_controller (ReplaceUsers L) env" "directory_inv env src" "served src" for L src
proof unfold_locales
  fix s n u a
  assume inv: "directory_inv env src s"
  show "up_GetUser (provider_controller (ReplaceUsers L) env) n s = served src s n"
    using inv by (simp add: provider_controller_def directory_inv_def)
  have "keyed_by_name (overlayUsers s)" using inv by (simp add: directory_inv_def provider_inv_def overlay_ok_def)
  then show "served src s n = Some a \<Longrightarrow> au_Name a = n" unfolding served_def by (rule directory_name)
  show "\<exists>err t. up_CreateUser (provider_controller (ReplaceUsers L) env) u s = (err, t) \<and> directory_inv env src t \<and>
    (if ou_Name u = '''' \<or> served src s (ou_Name u) \<noteq> None then err \<noteq> None \<and> served src t = served src s
     else err = None \<and> served src t = (served src s)(ou_Name u \<mapsto> optionUserToAdapter u))"
    using create_accepted [OF inv] by (simp add: provider_controller_def)
  show "\<exists>err t. up_DeleteUser (provider_controller (ReplaceUsers L) env) n s = (err, t) \<and> directory_inv env src t \<and>
    (if served src s n = None then err \<noteq> None \<and> served src t = served src s
     else err = None \<and> served src t = (served src s)(n := None))"
    using delete_accepted [OF inv] by (simp add: provider_controller_def)
qed

section \<open>The administration service over the three services\<close>

definition controlled_by ::
  "inbound_libs \<Rightarrow> source_env \<Rightarrow> time_parser \<Rightarrow> (gotime \<Rightarrow> string) \<Rightarrow> ('c, 'l) rate_pkg \<Rightarrow> local_clock \<Rightarrow>
     ('l limiter_manager \<Rightarrow> string list) \<Rightarrow> int \<Rightarrow>
     (managed_inbound provider, 'p quota_service, 'l limiter_manager) AdminService \<Rightarrow> bool" where
  "controlled_by L env tparse fmt_time R hm ord t S \<longleftrightarrow>
     userProvider S = Some (provider_controller (ReplaceUsers L) env) \<and>
     quotaController S = Some (quota_controller tparse fmt_time) \<and>
     speedController S = Some (speed_controller R hm ord t)"

abbreviation admin_inv ::
  "source_env \<Rightarrow> adapter_user list \<Rightarrow> (managed_inbound provider, 'p quota_service, 'l limiter_manager) admin_world \<Rightarrow> bool" where
  "admin_inv env src \<equiv> world_inv (directory_inv env src) (\<lambda>s. mgr_inv (manager s))"

context accepting_provider begin

lemma wired_services:
  assumes "controlled_by L env tparse fmt_time R hm ord t S"
  shows "admin_services (provider_controller (ReplaceUsers L) env) (directory_inv env src) (served src)
    (quota_controller tparse fmt_time) (\<lambda>s. mgr_inv (manager s)) (\<lambda>s. userConfigs (manager s)) (quota_conf tparse)
    (speed_controller R hm ord t) (\<lambda>m. userRawConfig (config m)) (\<lambda>m u. GetUserSchedules u m) S"
  using assms directory.user_directory_axioms quota_admin.quota_control_axioms speed_admin.speed_control_axioms
  unfolding controlled_by_def by (intro admin_services.intro admin_services_axioms.intro) auto

end

interpretation sorted_overlay: accepting_provider demo_env
  by unfold_locales (rule demo_visits)

definition demo_admin :: "(managed_inbound provider, (string \<times> string) list faulty quota_service, bucket limiter_manager) AdminService" where
  "demo_admin = \<lparr>authenticator = demo_authenticator,
     userProvider = Some (provider_controller (ReplaceUsers demo_libs) demo_env),
     quotaController = Some (quota_controller (\<lambda>_ _. None) (\<lambda>_. '''')),
     speedController = Some (speed_controller bucket_pkg demo_clock (\<lambda>m. sorted_list_of_set (dom (limiters m))) 0),
     basePath = defaultBasePath, listenAddr = ''''\<rparr>"

lemma demo_admin_controlled: "controlled_by demo_libs demo_env (\<lambda>_ _. None) (\<lambda>_. '''') bucket_pkg demo_clock
    (\<lambda>m. sorted_list_of_set (dom (limiters m))) 0 demo_admin"
  by (simp add: controlled_by_def demo_admin_def)

interpretation demo_administration: admin_services
  "provider_controller (ReplaceUsers demo_libs) demo_env" "directory_inv demo_env src" "served src"
  "quota_controller (\<lambda>_ _. None) (\<lambda>_. '''')" "\<lambda>s. mgr_inv (manager s)" "\<lambda>s. userConfigs (manager s)" "quota_conf (\<lambda>_ _. None)"
  "speed_controller bucket_pkg demo_clock (\<lambda>m. sorted_list_of_set (dom (limiters m))) 0"
  "\<lambda>m. userRawConfig (config m)" "\<lambda>m u. GetUserSchedules u m" demo_admin for src
  by (rule sorted_overlay.wired_services [OF demo_admin_controlled])

definition demo_world :: "(managed_inbound provider, (string \<times> string) list faulty quota_service, bucket limiter_manager) admin_world" where
  "demo_world = \<lparr>provider_of = demo_started, quota_of = demo_service [], speed_of = demo_limits True\<rparr>"

lemma demo_served: "served [optionUserToAdapter demo_alice] demo_started = [''alice'' \<mapsto> optionUserToAdapter demo_alice]"
  by (auto simp: served_def demo_started_def demo_provider_def directory_lookup named_def demo_alice_def
      optionUserToAdapter_def fun_eq_iff)

lemma demo_world_inv: "admin_inv demo_env [optionUserToAdapter demo_alice] demo_world"
proof -
  have "provider_inv demo_started" by (rule provider.reach_inv [OF demo_provider_reach])
  moreover have "fst (sourceUsersLocked demo_env demo_started) = Inr [optionUserToAdapter demo_alice]"
    by (simp add: demo_started_def demo_sources)
  moreover have "GetUser n demo_started = served [optionUserToAdapter demo_alice] demo_started n" for n
    unfolding demo_served by (simp add: GetUser_def find_user_def demo_started_def demo_provider_def demo_alice_def
        optionUserToAdapter_def)
  moreover have "all_accepting (inbounds demo_started)"
    by (simp add: all_accepting_def demo_started_def demo_provider_def)
  moreover have "mgr_inv (manager (demo_service []))" by (rule service.reach_inv [OF demo_service_reach])
  ultimately show ?thesis by (simp add: world_inv_def directory_inv_def demo_world_def)
qed

section \<open>Properties\<close>

definition demo_requests :: admin_libs where
  "demo_requests = \<lparr>error_text = (\<lambda>_. ''''), is_context_error = (\<lambda>_. False),
     decode_login = (\<lambda>_. Some \<lparr>lr_Username = ''root'', lr_Password = ''pw''\<rparr>),
     decode_named = (\<lambda>_. Some ''alice''), decode_update = (\<lambda>_. None),
     decode_delete = (\<lambda>_. Some \<lparr>du_Name = ''alice'', du_User = ''''\<rparr>), decode_quota = (\<lambda>_. None),
     decode_speed = (\<lambda>_. None), decode_schedules = (\<lambda>_. None),
     unmarshal_create = (\<lambda>_. Some \<lparr>cu_User = demo_bob, cu_Quota = None, cu_Speed = None, cu_SpeedSchedules = []\<rparr>),
     unmarshal_user = (\<lambda>_. None)\<rparr>"

definition demo_request :: admin_request where
  "demo_request = \<lparr>rq_Method = ''POST'', rq_Authorization = '''', rq_BasicAuth = None, rq_Body = ('''', None)\<rparr>"

lemma validateAuthorization_body [simp]:
  "validateAuthorization J t a (request\<lparr>rq_Body := b\<rparr>) = validateAuthorization J t a request"
  by (simp add: validateAuthorization_def Let_def)

text \<open>
  C32. A request without valid credentials is answered 401, or 405 on a method mismatch, by every
  endpoint but the login, and no controlled service changes; the login endpoint changes no
  service either, and hands out a token only for the configured password of an administrator.
\<close>

theorem protected_endpoints:
  "(e \<noteq> Login \<longrightarrow> validateAuthorization J t (authenticator S) request = Inl err \<longrightarrow>
      (\<exists>code. (code = 401 \<or> code = 405) \<and> serve J B t S e request w = Ret ((code, NoPayload), w))) \<and>
   (\<exists>reply. serve J B t S Login request w = Ret (reply, w) \<and>
      (snd reply \<noteq> NoPayload \<longrightarrow> (\<exists>login token expires. fst reply = 200 \<and> snd reply = TokenPayload token expires \<and>
         decode_login B (max_bytes adminAPIMaxRequestBytes (rq_Body request)) = Some login \<and>
         admins (authenticator S) (lr_Username login) = Some (lr_Password login) \<and>
         issueLoginTokenWithExpiry J t (authenticator S) (lr_Username login) = Inr (token, expires))))"
proof -
  have "\<exists>code. (code = 401 \<or> code = 405) \<and> serve J B t S e request w = Ret ((code, NoPayload), w)"
    if "e \<noteq> Login" "validateAuthorization J t (authenticator S) request = Inl err"
    using that by (cases e)
      (simp_all add: serve_def bodyLimitMiddleware_def authenticatedPost_def postOnly_def Middleware_def write_header_def)
  moreover have "\<exists>reply. serve J B t S Login request w = Ret (reply, w) \<and>
      (snd reply \<noteq> NoPayload \<longrightarrow> (\<exists>login token expires. fst reply = 200 \<and> snd reply = TokenPayload token expires \<and>
         decode_login B (max_bytes adminAPIMaxRequestBytes (rq_Body request)) = Some login \<and>
         admins (authenticator S) (lr_Username login) = Some (lr_Password login) \<and>
         issueLoginTokenWithExpiry J t (authenticator S) (lr_Username login) = Inr (token, expires)))"
    by (auto simp: serve_def bodyLimitMiddleware_def postOnly_def LoginHandler_def write_header_def
        split: option.split sum.split)
  ultimately show ?thesis by blast
qed

theorem protected_endpoints_witness:
  "validateAuthorization demo_codec 0 (authenticator demo_admin) demo_request = Inl errUnauthorized \<and>
   (\<exists>code. (code = 401 \<or> code = 405) \<and>
      serve demo_codec demo_requests 0 demo_admin UserDelete demo_request demo_world = Ret ((code, NoPayload), demo_world))"
proof -
  have "validateAuthorization demo_codec 0 (authenticator demo_admin) demo_request = Inl errUnauthorized"
    by (simp add: validateAuthorization_def extractBearerToken_def demo_request_def)
  with protected_endpoints [of UserDelete demo_codec 0 demo_admin demo_request errUnauthorized demo_requests demo_world]
  show ?thesis by simp
qed



text \<open>
  Deleting a user through the interface is atomic in the directory: on 204 the user, the
  quota, the speed and the schedules are gone and the invariants hold; otherwise the directory is
  what it was, since a user that was taken out is created again when a later part fails.
\<close>

theorem delete_user_atomic:
  assumes "visits_overlay env" "controlled_by L env tparse fmt_time R hm ord t S" "admin_inv env src w"
  shows "\<exists>code w'. DeleteUserHandler B S request w = Ret ((code, NoPayload), w') \<and>
     (if code = 204
      then admin_inv env src w' \<and> (\<exists>req. decode_delete B (rq_Body request) = Some req \<and>
        served src (provider_of w) (userName req) \<noteq> None \<and>
        served src (provider_of w') = (served src (provider_of w))(userName req := None) \<and>
        userConfigs (manager (quota_of w')) (userName req) = None \<and>
        userRawConfig (config (speed_of w')) (userName req) = None \<and>
        GetUserSchedules (userName req) (speed_of w') = None)
      else served src (provider_of w') = served src (provider_of w))"
  by (rule admin_services.delete_atomic
      [OF accepting_provider.wired_services [OF accepting_provider.intro [OF assms(1)] assms(2)] assms(3)])

theorem delete_user_atomic_witness:
  "\<exists>code w'. DeleteUserHandler demo_requests demo_admin demo_request demo_world = Ret ((code, NoPayload), w') \<and>
     (code = 204 \<longrightarrow> served [optionUserToAdapter demo_alice] (provider_of w') ''alice'' = None)"
proof -
  have dec: "decode_delete demo_requests (rq_Body demo_request) = Some \<lparr>du_Name = ''alice'', du_User = ''''\<rparr>"
    by (simp add: demo_requests_def)
  obtain code w' where r: "DeleteUserHandler demo_requests demo_admin demo_request demo_world = Ret ((code, NoPayload), w')"
    and d: "code = 204 \<longrightarrow> (\<exists>req. decode_delete demo_requests (rq_Body demo_request) = Some req \<and>
      served [optionUserToAdapter demo_alice] (provider_of w') =
        (served [optionUserToAdapter demo_alice] (provider_of demo_world))(userName req := None))"
    using delete_user_atomic [OF demo_visits demo_admin_controlled demo_world_inv, of demo_requests demo_request]
    by (elim exE conjE) (auto split: if_splits)
  from d have "code = 204 \<longrightarrow> served [optionUserToAdapter demo_alice] (provider_of w') ''alice'' = None"
    by (auto simp: dec userName_def)
  with r show ?thesis by blast
qed

end
