(* ===== verification/RuleContext.thy ===== *)
theory RuleContext
  imports Prelude
begin

text \<open>
  What a routing decision is made on: addresses and prefixes of \<open>net/netip\<close>, DNS messages as far
  as rules look at them, and \<open>adapter.InboundContext\<close> with the operations of
  \<open>src/adapter/inbound.go\<close> that rules use.

  A \<open>Socksaddr\<close> is its three fields; its predicates \<open>IsIP\<close>, \<open>IsIPv4\<close>, \<open>IsIPv6\<close>, \<open>IsDomain\<close> and
  \<open>IsValid\<close> belong to a library and are parameters of the code that uses them. Fields that only
  transports and dialers read are left out of the context.
\<close>

unbundle bit_operations_syntax

section \<open>Addresses\<close>

text \<open>\<open>netip.Addr\<close>: the zero value, an IPv4 address, or an IPv6 address with its zone.\<close>

datatype addr = NoAddr | IPv4 "32 word" | IPv6 "128 word" string

fun Is4 :: "addr \<Rightarrow> bool" where
  "Is4 (IPv4 a) = True"
| "Is4 _ = False"

fun Is6 :: "addr \<Rightarrow> bool" where
  "Is6 (IPv6 a z) = True"
| "Is6 _ = False"

definition addr_IsValid :: "addr \<Rightarrow> bool" where
  "addr_IsValid a \<longleftrightarrow> a \<noteq> NoAddr"

text \<open>\<open>Unmap\<close> turns an IPv4 address mapped into IPv6 back into an IPv4 address.\<close>

fun Unmap :: "addr \<Rightarrow> addr" where
  "Unmap (IPv6 a z) = (if drop_bit 32 a = 0xFFFF then IPv4 (ucast a) else IPv6 a z)"
| "Unmap a = a"

text \<open>A prefix: an address and a number of leading bits. \<open>Overlaps\<close> compares the shorter prefix.\<close>

type_synonym prefix = "addr \<times> nat"

fun prefix_Overlaps :: "prefix \<Rightarrow> prefix \<Rightarrow> bool" where
  "prefix_Overlaps (IPv4 a, m) (IPv4 b, n) \<longleftrightarrow> m \<le> 32 \<and> n \<le> 32 \<and> drop_bit (32 - min m n) a = drop_bit (32 - min m n) b"
| "prefix_Overlaps (IPv6 a y, m) (IPv6 b z, n) \<longleftrightarrow> m \<le> 128 \<and> n \<le> 128 \<and> drop_bit (128 - min m n) a = drop_bit (128 - min m n) b"
| "prefix_Overlaps _ _ \<longleftrightarrow> False"

record Socksaddr =
  sa_Addr :: addr
  sa_Port :: "16 word"
  sa_Fqdn :: string

definition no_Socksaddr :: Socksaddr where
  "no_Socksaddr = \<lparr>sa_Addr = NoAddr, sa_Port = 0, sa_Fqdn = ''''\<rparr>"

section \<open>DNS messages\<close>

text \<open>
  Resource records of \<open>miekg/dns\<close>: the kinds the program tells apart, with the byte strings of the
  addresses they carry, and every other kind with its data as text. A record has the four fields of
  its header; what it says of its type is not tied to its kind. In the header of an \<open>OPT\<close> record
  the class is a size and the time to live holds flags.
\<close>

datatype svcb_value =
    SVCBIPv4Hint "nat list list"
  | SVCBIPv6Hint "nat list list"
  | SVCBOther "16 word" string

datatype edns_option =
    EDNS0_SUBNET (es_Family: "16 word") (es_SourceNetmask: "8 word") (es_SourceScope: "8 word") (es_Address: "nat list")
  | EDNS0_Other "16 word" string

datatype rdata =
    RR_A "nat list"
  | RR_AAAA "nat list"
  | RR_HTTPS "svcb_value list"
  | RR_SOA (soa_Minttl: "32 word") string
  | RR_CNAME string
  | RR_TXT "string list"
  | RR_MX "16 word" string
  | RR_OPT "edns_option list"
  | RR_Other string

record dns_RR =
  rr_Name :: string
  rr_Rrtype :: "16 word"
  rr_Class :: "16 word"
  rr_Ttl :: "32 word"
  rr_Data :: rdata

record dns_Msg =
  msg_Id :: "16 word"
  msg_Response :: bool
  msg_Authoritative :: bool
  msg_RecursionDesired :: bool
  msg_RecursionAvailable :: bool
  msg_Rcode :: int
  msg_Question :: "(string \<times> 16 word \<times> 16 word) list"
  msg_Answer :: "dns_RR list"
  msg_Ns :: "dns_RR list"
  msg_Extra :: "dns_RR list"

text \<open>
  \<open>M.AddrFromIP\<close> is \<open>netip.AddrFromSlice\<close> without its flag: four bytes, sixteen bytes, or no
  address.
\<close>

definition be_nat :: "nat list \<Rightarrow> nat" where
  "be_nat bs = foldl (\<lambda>n b. n * 256 + b) 0 bs"

definition AddrFromIP :: "nat list \<Rightarrow> addr" where
  "AddrFromIP bs =
     (if length bs = 4 then IPv4 (word_of_nat (be_nat bs))
      else if length bs = 16 then IPv6 (word_of_nat (be_nat bs)) ''''
      else NoAddr)"

fun hint_addresses :: "svcb_value \<Rightarrow> addr list" where
  "hint_addresses (SVCBIPv4Hint ips) = filter addr_IsValid (map (\<lambda>ip. Unmap (AddrFromIP ip)) ips)"
| "hint_addresses (SVCBIPv6Hint ips) = filter addr_IsValid (map AddrFromIP ips)"
| "hint_addresses (SVCBOther k t) = []"

fun record_addresses :: "rdata \<Rightarrow> addr list" where
  "record_addresses (RR_A ip) = filter addr_IsValid [AddrFromIP ip]"
| "record_addresses (RR_AAAA ip) = filter addr_IsValid [AddrFromIP ip]"
| "record_addresses (RR_HTTPS values) = concat (map hint_addresses values)"
| "record_addresses _ = []"

definition DNSResponseAddresses :: "dns_Msg option \<Rightarrow> addr list" where
  "DNSResponseAddresses response =
     (case response of
        None \<Rightarrow> []
      | Some msg \<Rightarrow> if msg_Rcode msg \<noteq> 0 then [] else concat (map (\<lambda>r. record_addresses (rr_Data r)) (msg_Answer msg)))"

section \<open>The context of a connection\<close>

record ConnectionOwner =
  co_UserId :: int
  co_UserName :: string
  co_ProcessPath :: string
  co_AndroidPackageNames :: "string list"

record InboundContext =
  ic_Inbound :: string
  ic_IPVersion :: int
  ic_Network :: string
  ic_Source :: Socksaddr
  ic_Destination :: Socksaddr
  ic_User :: string
  ic_Outbound :: string
  ic_Protocol :: string
  ic_Domain :: string
  ic_Client :: string
  ic_SnifferNames :: "string list"
  ic_SniffError :: "go_error option"
  ic_InboundDetour :: string
  ic_LastInbound :: string
  ic_OriginDestination :: Socksaddr
  ic_RouteOriginalDestination :: Socksaddr
  ic_UDPDisableDomainUnmapping :: bool
  ic_UDPConnect :: bool
  ic_UDPTimeout :: int
  ic_TLSFragment :: bool
  ic_TLSFragmentFallbackDelay :: int
  ic_TLSRecordFragment :: bool
  ic_NetworkStrategy :: "int option"
  ic_NetworkType :: "int list"
  ic_FallbackNetworkType :: "int list"
  ic_FallbackDelay :: int
  ic_DestinationAddresses :: "addr list"
  ic_DNSResponse :: "dns_Msg option"
  ic_DestinationAddressMatchFromResponse :: bool
  ic_ProcessInfo :: "ConnectionOwner option"
  ic_SourceMACAddress :: "nat list option"
  ic_SourceHostname :: string
  ic_QueryType :: "16 word"
  ic_FakeIP :: bool
  ic_IPCIDRMatchSource :: bool
  ic_IPCIDRAcceptEmpty :: bool
  ic_DidMatch :: bool
  ic_IgnoreDestinationIPCIDRMatch :: bool

text \<open>The four match flags the two resets also clear are written nowhere else and read nowhere.\<close>

definition ResetRuleMatchCache :: "InboundContext \<Rightarrow> InboundContext" where
  "ResetRuleMatchCache m = m\<lparr>ic_DidMatch := False\<rparr>"

definition ResetRuleCache :: "InboundContext \<Rightarrow> InboundContext" where
  "ResetRuleCache m = ResetRuleMatchCache (m\<lparr>ic_IPCIDRMatchSource := False, ic_IPCIDRAcceptEmpty := False\<rparr>)"

definition DNSResponseAddressesForMatch :: "InboundContext \<Rightarrow> addr list" where
  "DNSResponseAddressesForMatch m = DNSResponseAddresses (ic_DNSResponse m)"

text \<open>A context with nothing known.\<close>

definition no_context :: InboundContext where
  "no_context =
     \<lparr>ic_Inbound = '''', ic_IPVersion = 0, ic_Network = '''', ic_Source = no_Socksaddr, ic_Destination = no_Socksaddr,
      ic_User = '''', ic_Outbound = '''', ic_Protocol = '''', ic_Domain = '''', ic_Client = '''', ic_SnifferNames = [],
      ic_SniffError = None, ic_InboundDetour = '''', ic_LastInbound = '''', ic_OriginDestination = no_Socksaddr,
      ic_RouteOriginalDestination = no_Socksaddr, ic_UDPDisableDomainUnmapping = False, ic_UDPConnect = False,
      ic_UDPTimeout = 0, ic_TLSFragment = False, ic_TLSFragmentFallbackDelay = 0, ic_TLSRecordFragment = False,
      ic_NetworkStrategy = None, ic_NetworkType = [], ic_FallbackNetworkType = [], ic_FallbackDelay = 0,
      ic_DestinationAddresses = [], ic_DNSResponse = None, ic_DestinationAddressMatchFromResponse = False,
      ic_ProcessInfo = None, ic_SourceMACAddress = None, ic_SourceHostname = '''', ic_QueryType = 0, ic_FakeIP = False,
      ic_IPCIDRMatchSource = False, ic_IPCIDRAcceptEmpty = False, ic_DidMatch = False,
      ic_IgnoreDestinationIPCIDRMatch = False\<rparr>"

end
