(* ===== verification/RuleItems.thy ===== *)
theory RuleItems
  imports RuleContext
begin

text \<open>
  The conditions of rules (\<open>src/route/rule/rule_item_*.go\<close> and the three interface address items).
  Each item has the definition of its \<open>Match\<close> method; the \<open>map[string]bool\<close> an item builds from
  its list is membership in the list. Rule sets are not items here, they are part of the rules.

  An IP set, a domain matcher and a compiled expression are represented by the predicate that
  their \<open>Contains\<close>, \<open>Match\<close> or \<open>MatchString\<close> computes; how they are built from text is in
  \<open>rule_libs\<close>. \<open>rule_env\<close> holds the library predicates items call and what the network manager and
  the Clash server report at the time of the match.
\<close>

section \<open>Strings\<close>

text \<open>
  \<open>strings.ToLower\<close>: byte-wise on ASCII text; \<open>unicode_lower\<close> is its result on other text.
\<close>

definition is_ascii :: "string \<Rightarrow> bool" where
  "is_ascii s \<longleftrightarrow> (\<forall>c \<in> set s. of_char c < (128 :: nat))"

definition lower_char :: "char \<Rightarrow> char" where
  "lower_char c = (let n = of_char c :: nat in if 65 \<le> n \<and> n \<le> 90 then char_of (n + 32) else c)"

definition ToLower :: "(string \<Rightarrow> string) \<Rightarrow> string \<Rightarrow> string" where
  "ToLower unicode_lower s = (if is_ascii s then map lower_char s else unicode_lower s)"

text \<open>\<open>strings.EqualFold\<close>: ASCII texts are compared in lower case, \<open>unicode_fold\<close> decides the others.\<close>

definition EqualFold :: "(string \<Rightarrow> string \<Rightarrow> bool) \<Rightarrow> string \<Rightarrow> string \<Rightarrow> bool" where
  "EqualFold unicode_fold s t =
     (if is_ascii s \<and> is_ascii t then map lower_char s = map lower_char t else unicode_fold s t)"

text \<open>\<open>filepath.Base\<close> on Unix.\<close>

definition path_Base :: "string \<Rightarrow> string" where
  "path_Base p =
     (if p = '''' then ''.''
      else
        (let q = rev (dropWhile (\<lambda>c. c = CHR ''/'') (rev p))
         in if q = '''' then ''/'' else rev (takeWhile (\<lambda>c. c \<noteq> CHR ''/'') (rev q))))"

text \<open>\<open>net.HardwareAddr.String\<close>: lower-case hexadecimal bytes joined by colons.\<close>

definition hex_digit :: "nat \<Rightarrow> char" where
  "hex_digit n = ''0123456789abcdef'' ! (n mod 16)"

fun mac_String :: "nat list \<Rightarrow> string" where
  "mac_String [] = ''''"
| "mac_String [b] = [hex_digit (b div 16), hex_digit b]"
| "mac_String (b # bs) = hex_digit (b div 16) # hex_digit b # CHR '':'' # mac_String bs"

section \<open>Items\<close>

record NetworkInterface =
  ni_Name :: string
  ni_Addresses :: "prefix list"
  ni_Type :: int
  ni_Expensive :: bool
  ni_Constrained :: bool

record preferred_outbound =
  po_PreferredDomain :: "string \<Rightarrow> bool"
  po_PreferredAddress :: "addr \<Rightarrow> bool"

datatype rr_section = ResponseAnswer | ResponseNs | ResponseExtra

datatype rule_item =
    InboundItem "string list"
  | IPVersionItem bool
  | QueryTypeItem "16 word list"
  | NetworkItem "string list"
  | AuthUserItem "string list"
  | ProtocolItem "string list"
  | ClientItem "string list"
  | DomainItem "string \<Rightarrow> bool"
  | DomainKeywordItem "string list"
  | DomainRegexItem "(string \<Rightarrow> bool) list"
  | AdGuardDomainItem "string \<Rightarrow> bool"
  | IPCIDRItem bool "addr \<Rightarrow> bool"
  | IPIsPrivateItem bool
  | IPAcceptAnyItem
  | PortItem bool "16 word list"
  | PortRangeItem bool "(16 word \<times> 16 word) list"
  | ProcessItem "string list"
  | ProcessPathItem "string list"
  | ProcessPathRegexItem "(string \<Rightarrow> bool) list"
  | PackageNameItem "string list"
  | UserItem "string list"
  | UserIdItem "int list"
  | OutboundItem "string list"
  | ClashModeItem string
  | NetworkTypeItem "int list"
  | NetworkIsExpensiveItem
  | NetworkIsConstrainedItem
  | WIFISSIDItem "string list"
  | WIFIBSSIDItem "string list"
  | InterfaceAddressItem "(string \<times> prefix list) list"
  | NetworkInterfaceAddressItem "(int \<times> prefix list) list"
  | DefaultInterfaceAddressItem "prefix list"
  | SourceMACAddressItem "string list"
  | SourceHostnameItem "string list"
  | PreferredByItem "string list" "preferred_outbound list"
  | DNSResponseRCodeItem int
  | DNSResponseRecordItem rr_section "dns_RR option list"

text \<open>
  \<open>DNSRecordOptions\<close> is a record that may be nil; its \<open>Match\<close> asks \<open>dns.IsDuplicate\<close>, which is
  \<open>rr_IsDuplicate\<close> here.
\<close>

record rule_env =
  IsIP :: "Socksaddr \<Rightarrow> bool"
  IsIPv6 :: "Socksaddr \<Rightarrow> bool"
  IsPublicAddr :: "addr \<Rightarrow> bool"
  unicode_lower :: "string \<Rightarrow> string"
  unicode_fold :: "string \<Rightarrow> string \<Rightarrow> bool"
  rr_IsDuplicate :: "dns_RR \<Rightarrow> dns_RR \<Rightarrow> bool"
  clash_Mode :: "string option"
  DefaultNetworkInterface :: "NetworkInterface option"
  NetworkInterfaces :: "NetworkInterface list"
  finder_Interfaces :: "(string \<times> prefix list) list"
  monitor_DefaultInterface :: "prefix list option"
  wifi_SSID :: string
  wifi_BSSID :: string
  IsAndroid :: bool

section \<open>Matching\<close>

text \<open>The name a domain condition looks at.\<close>

definition domain_host :: "InboundContext \<Rightarrow> string" where
  "domain_host m = (if ic_Domain m \<noteq> '''' then ic_Domain m else sa_Fqdn (ic_Destination m))"

definition InboundItem_Match :: "string list \<Rightarrow> InboundContext \<Rightarrow> bool" where
  "InboundItem_Match inbounds m \<longleftrightarrow> ic_Inbound m \<in> set inbounds"

definition IPVersionItem_Match :: "rule_env \<Rightarrow> bool \<Rightarrow> InboundContext \<Rightarrow> bool" where
  "IPVersionItem_Match E isIPv6 m \<longleftrightarrow>
     ic_IPVersion m \<noteq> 0 \<and> (ic_IPVersion m = 6) = isIPv6 \<or>
     IsIP E (ic_Destination m) \<and> IsIPv6 E (ic_Destination m) = isIPv6"

definition QueryTypeItem_Match :: "16 word list \<Rightarrow> InboundContext \<Rightarrow> bool" where
  "QueryTypeItem_Match typeList m \<longleftrightarrow> ic_QueryType m \<noteq> 0 \<and> ic_QueryType m \<in> set typeList"

definition NetworkItem_Match :: "string list \<Rightarrow> InboundContext \<Rightarrow> bool" where
  "NetworkItem_Match networks m \<longleftrightarrow> ic_Network m \<in> set networks"

definition AuthUserItem_Match :: "string list \<Rightarrow> InboundContext \<Rightarrow> bool" where
  "AuthUserItem_Match users m \<longleftrightarrow> ic_User m \<in> set users"

definition ProtocolItem_Match :: "string list \<Rightarrow> InboundContext \<Rightarrow> bool" where
  "ProtocolItem_Match protocols m \<longleftrightarrow> ic_Protocol m \<in> set protocols"

definition ClientItem_Match :: "string list \<Rightarrow> InboundContext \<Rightarrow> bool" where
  "ClientItem_Match clients m \<longleftrightarrow> ic_Client m \<in> set clients"

definition DomainItem_Match :: "rule_env \<Rightarrow> (string \<Rightarrow> bool) \<Rightarrow> InboundContext \<Rightarrow> bool" where
  "DomainItem_Match E matcher m \<longleftrightarrow>
     domain_host m \<noteq> '''' \<and> matcher (ToLower (unicode_lower E) (domain_host m))"

definition DomainKeywordItem_Match :: "rule_env \<Rightarrow> string list \<Rightarrow> InboundContext \<Rightarrow> bool" where
  "DomainKeywordItem_Match E keywords m \<longleftrightarrow>
     domain_host m \<noteq> '''' \<and> (\<exists>keyword \<in> set keywords. Contains (ToLower (unicode_lower E) (domain_host m)) keyword)"

definition DomainRegexItem_Match :: "rule_env \<Rightarrow> (string \<Rightarrow> bool) list \<Rightarrow> InboundContext \<Rightarrow> bool" where
  "DomainRegexItem_Match E matchers m \<longleftrightarrow>
     domain_host m \<noteq> '''' \<and> (\<exists>matcher \<in> set matchers. matcher (ToLower (unicode_lower E) (domain_host m)))"

definition AdGuardDomainItem_Match :: "rule_env \<Rightarrow> (string \<Rightarrow> bool) \<Rightarrow> InboundContext \<Rightarrow> bool" where
  "AdGuardDomainItem_Match E matcher m \<longleftrightarrow>
     domain_host m \<noteq> '''' \<and> matcher (ToLower (unicode_lower E) (domain_host m))"

definition IPCIDRItem_Match :: "rule_env \<Rightarrow> bool \<Rightarrow> (addr \<Rightarrow> bool) \<Rightarrow> InboundContext \<Rightarrow> bool" where
  "IPCIDRItem_Match E isSource ipSet m =
     (if isSource \<or> ic_IPCIDRMatchSource m then ipSet (sa_Addr (ic_Source m))
      else if ic_DestinationAddressMatchFromResponse m then
        (let addresses = DNSResponseAddressesForMatch m
         in if addresses = [] then ic_IPCIDRAcceptEmpty m else (\<exists>a \<in> set addresses. ipSet a))
      else if IsIP E (ic_Destination m) then ipSet (sa_Addr (ic_Destination m))
      else if ic_DestinationAddresses m \<noteq> [] then (\<exists>a \<in> set (ic_DestinationAddresses m). ipSet a)
      else ic_IPCIDRAcceptEmpty m)"

definition IPIsPrivateItem_Match :: "rule_env \<Rightarrow> bool \<Rightarrow> InboundContext \<Rightarrow> bool" where
  "IPIsPrivateItem_Match E isSource m =
     (if isSource then \<not> IsPublicAddr E (sa_Addr (ic_Source m))
      else if ic_DestinationAddressMatchFromResponse m then
        (\<exists>a \<in> set (DNSResponseAddressesForMatch m). \<not> IsPublicAddr E a)
      else if addr_IsValid (sa_Addr (ic_Destination m)) then \<not> IsPublicAddr E (sa_Addr (ic_Destination m))
      else (\<exists>a \<in> set (ic_DestinationAddresses m). \<not> IsPublicAddr E a))"

definition IPAcceptAnyItem_Match :: "InboundContext \<Rightarrow> bool" where
  "IPAcceptAnyItem_Match m =
     (if ic_DestinationAddressMatchFromResponse m then DNSResponseAddressesForMatch m \<noteq> []
      else ic_DestinationAddresses m \<noteq> [])"

definition PortItem_Match :: "bool \<Rightarrow> 16 word list \<Rightarrow> InboundContext \<Rightarrow> bool" where
  "PortItem_Match isSource ports m \<longleftrightarrow>
     (if isSource then sa_Port (ic_Source m) else sa_Port (ic_Destination m)) \<in> set ports"

definition PortRangeItem_Match :: "bool \<Rightarrow> (16 word \<times> 16 word) list \<Rightarrow> InboundContext \<Rightarrow> bool" where
  "PortRangeItem_Match isSource portRangeList m =
     (let port = (if isSource then sa_Port (ic_Source m) else sa_Port (ic_Destination m))
      in \<exists>r \<in> set portRangeList. port \<ge> fst r \<and> port \<le> snd r)"

definition ProcessItem_Match :: "string list \<Rightarrow> InboundContext \<Rightarrow> bool" where
  "ProcessItem_Match processes m =
     (case ic_ProcessInfo m of
        None \<Rightarrow> False
      | Some p \<Rightarrow> co_ProcessPath p \<noteq> '''' \<and> path_Base (co_ProcessPath p) \<in> set processes)"

definition ProcessPathItem_Match :: "rule_env \<Rightarrow> string list \<Rightarrow> InboundContext \<Rightarrow> bool" where
  "ProcessPathItem_Match E processes m =
     (case ic_ProcessInfo m of
        None \<Rightarrow> False
      | Some p \<Rightarrow>
          co_ProcessPath p \<noteq> '''' \<and> co_ProcessPath p \<in> set processes \<or>
          IsAndroid E \<and> (\<exists>n \<in> set (co_AndroidPackageNames p). n \<in> set processes))"

definition ProcessPathRegexItem_Match :: "(string \<Rightarrow> bool) list \<Rightarrow> InboundContext \<Rightarrow> bool" where
  "ProcessPathRegexItem_Match matchers m =
     (case ic_ProcessInfo m of
        None \<Rightarrow> False
      | Some p \<Rightarrow> co_ProcessPath p \<noteq> '''' \<and> (\<exists>matcher \<in> set matchers. matcher (co_ProcessPath p)))"

definition PackageNameItem_Match :: "string list \<Rightarrow> InboundContext \<Rightarrow> bool" where
  "PackageNameItem_Match packageNames m =
     (case ic_ProcessInfo m of
        None \<Rightarrow> False
      | Some p \<Rightarrow> (\<exists>n \<in> set (co_AndroidPackageNames p). n \<in> set packageNames))"

definition UserItem_Match :: "string list \<Rightarrow> InboundContext \<Rightarrow> bool" where
  "UserItem_Match users m =
     (case ic_ProcessInfo m of
        None \<Rightarrow> False
      | Some p \<Rightarrow> co_UserName p \<noteq> '''' \<and> co_UserName p \<in> set users)"

definition UserIdItem_Match :: "int list \<Rightarrow> InboundContext \<Rightarrow> bool" where
  "UserIdItem_Match userIds m =
     (case ic_ProcessInfo m of
        None \<Rightarrow> False
      | Some p \<Rightarrow> co_UserId p \<noteq> -1 \<and> co_UserId p \<in> set userIds)"

definition OutboundItem_Match :: "string list \<Rightarrow> InboundContext \<Rightarrow> bool" where
  "OutboundItem_Match outbounds m =
     (if ''any'' \<in> set outbounds then ic_Outbound m \<noteq> '''' else ic_Outbound m \<in> set outbounds)"

definition ClashModeItem_Match :: "rule_env \<Rightarrow> string \<Rightarrow> bool" where
  "ClashModeItem_Match E mode = (case clash_Mode E of None \<Rightarrow> False | Some current \<Rightarrow> EqualFold (unicode_fold E) current mode)"

definition NetworkTypeItem_Match :: "rule_env \<Rightarrow> int list \<Rightarrow> bool" where
  "NetworkTypeItem_Match E networkType =
     (case DefaultNetworkInterface E of None \<Rightarrow> False | Some i \<Rightarrow> ni_Type i \<in> set networkType)"

definition NetworkIsExpensiveItem_Match :: "rule_env \<Rightarrow> bool" where
  "NetworkIsExpensiveItem_Match E = (case DefaultNetworkInterface E of None \<Rightarrow> False | Some i \<Rightarrow> ni_Expensive i)"

definition NetworkIsConstrainedItem_Match :: "rule_env \<Rightarrow> bool" where
  "NetworkIsConstrainedItem_Match E = (case DefaultNetworkInterface E of None \<Rightarrow> False | Some i \<Rightarrow> ni_Constrained i)"

definition WIFISSIDItem_Match :: "rule_env \<Rightarrow> string list \<Rightarrow> bool" where
  "WIFISSIDItem_Match E ssidList \<longleftrightarrow> wifi_SSID E \<in> set ssidList"

definition WIFIBSSIDItem_Match :: "rule_env \<Rightarrow> string list \<Rightarrow> bool" where
  "WIFIBSSIDItem_Match E bssidList \<longleftrightarrow> wifi_BSSID E \<in> set bssidList"

text \<open>
  A Go map built from an association list keeps the last value of a key. \<open>common.Find\<close> gives the
  zero interface, whose name is empty, when there is none.
\<close>

definition go_map_of :: "('k \<times> 'v) list \<Rightarrow> ('k \<times> 'v) list" where
  "go_map_of kvs = filter (\<lambda>(k, v). map_of (rev kvs) k = Some v) kvs"

definition find_interface :: "string \<Rightarrow> (string \<times> prefix list) list \<Rightarrow> string \<times> prefix list" where
  "find_interface name ifs = (case List.find (\<lambda>i. fst i = name) ifs of None \<Rightarrow> ('''', []) | Some i \<Rightarrow> i)"

definition InterfaceAddressItem_Match :: "rule_env \<Rightarrow> (string \<times> prefix list) list \<Rightarrow> bool" where
  "InterfaceAddressItem_Match E interfaceAddresses \<longleftrightarrow>
     (\<forall>(ifName, addresses) \<in> set (go_map_of interfaceAddresses).
        let iface = find_interface ifName (finder_Interfaces E)
        in fst iface \<noteq> '''' \<and>
           \<not> (\<forall>a \<in> set addresses. \<forall>it \<in> set (snd iface). \<not> prefix_Overlaps a it))"

definition NetworkInterfaceAddressItem_Match :: "rule_env \<Rightarrow> (int \<times> prefix list) list \<Rightarrow> bool" where
  "NetworkInterfaceAddressItem_Match E interfaceAddresses \<longleftrightarrow>
     (\<forall>(ifType, addresses) \<in> set (go_map_of interfaceAddresses).
        \<exists>i \<in> set (NetworkInterfaces E). ni_Type i = ifType \<and>
          (\<exists>it \<in> set (ni_Addresses i). \<exists>p \<in> set addresses. prefix_Overlaps p it))"

definition DefaultInterfaceAddressItem_Match :: "rule_env \<Rightarrow> prefix list \<Rightarrow> bool" where
  "DefaultInterfaceAddressItem_Match E interfaceAddresses =
     (case monitor_DefaultInterface E of
        None \<Rightarrow> False
      | Some addresses \<Rightarrow> (\<forall>a \<in> set interfaceAddresses. \<not> (\<forall>it \<in> set addresses. \<not> prefix_Overlaps a it)))"

definition SourceMACAddressItem_Match :: "string list \<Rightarrow> InboundContext \<Rightarrow> bool" where
  "SourceMACAddressItem_Match addressMap m =
     (case ic_SourceMACAddress m of None \<Rightarrow> False | Some mac \<Rightarrow> mac_String mac \<in> set addressMap)"

definition SourceHostnameItem_Match :: "string list \<Rightarrow> InboundContext \<Rightarrow> bool" where
  "SourceHostnameItem_Match hostnames m \<longleftrightarrow> ic_SourceHostname m \<noteq> '''' \<and> ic_SourceHostname m \<in> set hostnames"

definition PreferredByItem_Match :: "rule_env \<Rightarrow> preferred_outbound list \<Rightarrow> InboundContext \<Rightarrow> bool" where
  "PreferredByItem_Match E outbounds m \<longleftrightarrow>
     domain_host m \<noteq> '''' \<and> (\<exists>o' \<in> set outbounds. po_PreferredDomain o' (domain_host m)) \<or>
     IsIP E (ic_Destination m) \<and> (\<exists>o' \<in> set outbounds. po_PreferredAddress o' (sa_Addr (ic_Destination m))) \<or>
     (\<exists>a \<in> set (ic_DestinationAddresses m). \<exists>o' \<in> set outbounds. po_PreferredAddress o' a)"

definition DNSResponseRCodeItem_Match :: "int \<Rightarrow> InboundContext \<Rightarrow> bool" where
  "DNSResponseRCodeItem_Match rcode m = (case ic_DNSResponse m of None \<Rightarrow> False | Some msg \<Rightarrow> msg_Rcode msg = rcode)"

fun rr_selector :: "rr_section \<Rightarrow> dns_Msg \<Rightarrow> dns_RR list" where
  "rr_selector ResponseAnswer msg = msg_Answer msg"
| "rr_selector ResponseNs msg = msg_Ns msg"
| "rr_selector ResponseExtra msg = msg_Extra msg"

definition record_Match :: "rule_env \<Rightarrow> dns_RR option \<Rightarrow> dns_RR \<Rightarrow> bool" where
  "record_Match E expected r = (case expected of None \<Rightarrow> False | Some x \<Rightarrow> rr_IsDuplicate E x r)"

definition DNSResponseRecordItem_Match ::
    "rule_env \<Rightarrow> rr_section \<Rightarrow> dns_RR option list \<Rightarrow> InboundContext \<Rightarrow> bool" where
  "DNSResponseRecordItem_Match E sel records m =
     (case ic_DNSResponse m of
        None \<Rightarrow> False
      | Some msg \<Rightarrow> (\<exists>expected \<in> set records. \<exists>r \<in> set (rr_selector sel msg). record_Match E expected r))"

text \<open>Calling \<open>Match\<close> through the interface \<open>RuleItem\<close>.\<close>

primrec item_Match :: "rule_env \<Rightarrow> rule_item \<Rightarrow> InboundContext \<Rightarrow> bool" where
  "item_Match E (InboundItem xs) m = InboundItem_Match xs m"
| "item_Match E (IPVersionItem v6) m = IPVersionItem_Match E v6 m"
| "item_Match E (QueryTypeItem ts) m = QueryTypeItem_Match ts m"
| "item_Match E (NetworkItem xs) m = NetworkItem_Match xs m"
| "item_Match E (AuthUserItem xs) m = AuthUserItem_Match xs m"
| "item_Match E (ProtocolItem xs) m = ProtocolItem_Match xs m"
| "item_Match E (ClientItem xs) m = ClientItem_Match xs m"
| "item_Match E (DomainItem d) m = DomainItem_Match E d m"
| "item_Match E (DomainKeywordItem ks) m = DomainKeywordItem_Match E ks m"
| "item_Match E (DomainRegexItem rs) m = DomainRegexItem_Match E rs m"
| "item_Match E (AdGuardDomainItem d) m = AdGuardDomainItem_Match E d m"
| "item_Match E (IPCIDRItem src s) m = IPCIDRItem_Match E src s m"
| "item_Match E (IPIsPrivateItem src) m = IPIsPrivateItem_Match E src m"
| "item_Match E IPAcceptAnyItem m = IPAcceptAnyItem_Match m"
| "item_Match E (PortItem src ps) m = PortItem_Match src ps m"
| "item_Match E (PortRangeItem src rs) m = PortRangeItem_Match src rs m"
| "item_Match E (ProcessItem xs) m = ProcessItem_Match xs m"
| "item_Match E (ProcessPathItem xs) m = ProcessPathItem_Match E xs m"
| "item_Match E (ProcessPathRegexItem rs) m = ProcessPathRegexItem_Match rs m"
| "item_Match E (PackageNameItem xs) m = PackageNameItem_Match xs m"
| "item_Match E (UserItem xs) m = UserItem_Match xs m"
| "item_Match E (UserIdItem is) m = UserIdItem_Match is m"
| "item_Match E (OutboundItem xs) m = OutboundItem_Match xs m"
| "item_Match E (ClashModeItem mode) m = ClashModeItem_Match E mode"
| "item_Match E (NetworkTypeItem ts) m = NetworkTypeItem_Match E ts"
| "item_Match E NetworkIsExpensiveItem m = NetworkIsExpensiveItem_Match E"
| "item_Match E NetworkIsConstrainedItem m = NetworkIsConstrainedItem_Match E"
| "item_Match E (WIFISSIDItem xs) m = WIFISSIDItem_Match E xs"
| "item_Match E (WIFIBSSIDItem xs) m = WIFIBSSIDItem_Match E xs"
| "item_Match E (InterfaceAddressItem as) m = InterfaceAddressItem_Match E as"
| "item_Match E (NetworkInterfaceAddressItem as) m = NetworkInterfaceAddressItem_Match E as"
| "item_Match E (DefaultInterfaceAddressItem as) m = DefaultInterfaceAddressItem_Match E as"
| "item_Match E (SourceMACAddressItem as) m = SourceMACAddressItem_Match as m"
| "item_Match E (SourceHostnameItem xs) m = SourceHostnameItem_Match xs m"
| "item_Match E (PreferredByItem tags os) m = PreferredByItem_Match E os m"
| "item_Match E (DNSResponseRCodeItem c) m = DNSResponseRCodeItem_Match c m"
| "item_Match E (DNSResponseRecordItem sel rs) m = DNSResponseRecordItem_Match E sel rs m"

section \<open>Building items\<close>

text \<open>
  What building an item asks of the libraries: the parsers of \<open>net/netip\<close>, the builder of \<open>netipx\<close>
  (\<open>Inl\<close> is an added prefix, \<open>Inr\<close> an added address), the domain matchers and \<open>regexp\<close>; building
  an action asks for the parser of addresses and for a dialer from its options.
\<close>

record rule_libs =
  ParsePrefix :: "string \<Rightarrow> go_error + prefix"
  ParseAddr :: "string \<Rightarrow> go_error + addr"
  builder_IPSet :: "(prefix + addr) list \<Rightarrow> go_error + (addr \<Rightarrow> bool)"
  NewMatcher :: "string list \<Rightarrow> string list \<Rightarrow> bool \<Rightarrow> string \<Rightarrow> bool"
  NewAdGuardMatcher :: "string list \<Rightarrow> string \<Rightarrow> bool"
  regexp_Compile :: "string \<Rightarrow> go_error + (string \<Rightarrow> bool)"
  ParseSocksaddrHostPort :: "string \<Rightarrow> 16 word \<Rightarrow> Socksaddr"
  dialer_New :: "string \<Rightarrow> go_error option"

text \<open>A loop over a list that stops at the first error, with the index of the element.\<close>

fun try_map :: "nat \<Rightarrow> (nat \<Rightarrow> 'a \<Rightarrow> go_error + 'b) \<Rightarrow> 'a list \<Rightarrow> go_error + 'b list" where
  "try_map i f [] = Inr []"
| "try_map i f (x # xs) =
     (case f i x of
        Inl e \<Rightarrow> Inl e
      | Inr y \<Rightarrow> (case try_map (Suc i) f xs of Inl e \<Rightarrow> Inl e | Inr ys \<Rightarrow> Inr (y # ys)))"

definition NewDomainItem :: "rule_libs \<Rightarrow> string list \<Rightarrow> string list \<Rightarrow> go_error + rule_item" where
  "NewDomainItem L domains domainSuffixes =
     (if '''' \<in> set domains then Inl (ENew [''domain: empty item is not allowed''])
      else if '''' \<in> set domainSuffixes then Inl (ENew [''domain_suffix: empty item is not allowed''])
      else Inr (DomainItem (NewMatcher L domains domainSuffixes False)))"

definition compile_all :: "rule_libs \<Rightarrow> string list \<Rightarrow> go_error + (string \<Rightarrow> bool) list" where
  "compile_all L expressions =
     try_map 0
       (\<lambda>i regex. case regexp_Compile L regex of
          Inl e \<Rightarrow> Inl (ECause e [''parse expression '', dec i])
        | Inr matcher \<Rightarrow> Inr matcher)
       expressions"

definition NewDomainRegexItem :: "rule_libs \<Rightarrow> string list \<Rightarrow> go_error + rule_item" where
  "NewDomainRegexItem L expressions = map_sum id DomainRegexItem (compile_all L expressions)"

definition NewProcessPathRegexItem :: "rule_libs \<Rightarrow> string list \<Rightarrow> go_error + rule_item" where
  "NewProcessPathRegexItem L expressions = map_sum id ProcessPathRegexItem (compile_all L expressions)"

definition NewIPCIDRItem :: "rule_libs \<Rightarrow> bool \<Rightarrow> string list \<Rightarrow> go_error + rule_item" where
  "NewIPCIDRItem L isSource prefixStrings =
     (case try_map 0
             (\<lambda>i s. case ParsePrefix L s of
                Inr p \<Rightarrow> Inr (Inl p)
              | Inl e \<Rightarrow>
                  (case ParseAddr L s of
                     Inr a \<Rightarrow> Inr (Inr a)
                   | Inl e' \<Rightarrow> Inl (ECause e [''parse ['', dec i, '']''])))
             prefixStrings of
        Inl e \<Rightarrow> Inl e
      | Inr parts \<Rightarrow>
          (case builder_IPSet L parts of Inl e \<Rightarrow> Inl e | Inr ipSet \<Rightarrow> Inr (IPCIDRItem isSource ipSet)))"

text \<open>\<open>strconv.ParseUint(s, 10, 16)\<close>.\<close>

definition uint_error :: "string \<Rightarrow> go_error" where
  "uint_error s = EFmt ''strconv.ParseUint: parsing %q'' [s] None"

definition parse_uint16 :: "string \<Rightarrow> go_error + 16 word" where
  "parse_uint16 s =
     (case parse_nat s of
        None \<Rightarrow> Inl (uint_error s)
      | Some n \<Rightarrow> if n < 2 ^ 16 then Inr (word_of_nat n) else Inl (uint_error s))"

definition ErrBadPortRange :: go_error where
  "ErrBadPortRange = ENew [''bad port range'']"

definition parse_port_range :: "string \<Rightarrow> go_error + (16 word \<times> 16 word)" where
  "parse_port_range portRange =
     (case str_cut (CHR '':'') portRange of
        None \<Rightarrow> Inl (EExtend ErrBadPortRange [portRange])
      | Some (l, r) \<Rightarrow>
          (case (if l \<noteq> '''' then parse_uint16 l else Inr 0) of
             Inl e \<Rightarrow> Inl (ECause e [''bad port range: '', portRange])
           | Inr start \<Rightarrow>
               (case (if r = '''' then Inr 0xFFFF else parse_uint16 r) of
                  Inl e \<Rightarrow> Inl (ECause e [''bad port range: '', portRange])
                | Inr end' \<Rightarrow> Inr (start, end'))))"

definition NewPortRangeItem :: "bool \<Rightarrow> string list \<Rightarrow> go_error + rule_item" where
  "NewPortRangeItem isSource rangeList =
     map_sum id (PortRangeItem isSource) (try_map 0 (\<lambda>i. parse_port_range) rangeList)"

text \<open>
  \<open>net.ParseMAC\<close>: six, eight or twenty bytes, in groups of two digits joined by colons or hyphens or
  in groups of four joined by dots.
\<close>

definition hex_val :: "char \<Rightarrow> nat option" where
  "hex_val c =
     (let n = of_char c :: nat
      in if 48 \<le> n \<and> n \<le> 57 then Some (n - 48)
         else if 97 \<le> n \<and> n \<le> 102 then Some (n - 87)
         else if 65 \<le> n \<and> n \<le> 70 then Some (n - 55)
         else None)"

definition hex_byte :: "char \<Rightarrow> char \<Rightarrow> nat option" where
  "hex_byte a b =
     (case (hex_val a, hex_val b) of (Some x, Some y) \<Rightarrow> Some (16 * x + y) | _ \<Rightarrow> None)"

fun mac_pairs :: "char \<Rightarrow> string \<Rightarrow> nat list option" where
  "mac_pairs sep [a, b] = map_option (\<lambda>x. [x]) (hex_byte a b)"
| "mac_pairs sep (a # b # c # rest) =
     (case hex_byte a b of
        Some x \<Rightarrow> if c = sep then map_option (\<lambda>xs. x # xs) (mac_pairs sep rest) else None
      | None \<Rightarrow> None)"
| "mac_pairs sep _ = None"

fun mac_quads :: "string \<Rightarrow> nat list option" where
  "mac_quads [a, b, c, d] =
     (case (hex_byte a b, hex_byte c d) of (Some x, Some y) \<Rightarrow> Some [x, y] | _ \<Rightarrow> None)"
| "mac_quads (a # b # c # d # e # rest) =
     (case (hex_byte a b, hex_byte c d) of
        (Some x, Some y) \<Rightarrow> if e = CHR ''.'' then map_option (\<lambda>xs. x # y # xs) (mac_quads rest) else None
      | _ \<Rightarrow> None)"
| "mac_quads _ = None"

definition ParseMAC :: "string \<Rightarrow> nat list option" where
  "ParseMAC s =
     (if length s < 14 then None
      else
        (let bytes =
           (if s ! 2 = CHR '':'' \<or> s ! 2 = CHR ''-'' then mac_pairs (s ! 2) s
            else if s ! 4 = CHR ''.'' then mac_quads s
            else None)
         in case bytes of
              None \<Rightarrow> None
            | Some bs \<Rightarrow> if length bs \<in> {6, 8, 20} then Some bs else None))"

definition NewSourceMACAddressItem :: "string list \<Rightarrow> rule_item" where
  "NewSourceMACAddressItem addressList =
     SourceMACAddressItem
       (map (\<lambda>a. case ParseMAC a of Some parsed \<Rightarrow> mac_String parsed | None \<Rightarrow> a) addressList)"

text \<open>
  Starting items. A \<open>preferred_by\<close> item adds the outbounds of its tags: \<open>outbounds tag\<close> is the outbound
  of that name, with its preferred routes if its type has them, else its type. The other items have
  nothing to start here: what a \<open>clash_mode\<close> item asks is part of \<open>rule_env\<close>.
\<close>

definition PreferredByItem_Start ::
    "(string \<Rightarrow> (string + preferred_outbound) option) \<Rightarrow> string list \<Rightarrow> go_error + preferred_outbound list" where
  "PreferredByItem_Start outbounds outboundTags =
     try_map 0
       (\<lambda>i tag. case outbounds tag of
          None \<Rightarrow> Inl (ENew [''outbound not found: '', tag])
        | Some (Inl ty) \<Rightarrow> Inl (ENew [''outbound type does not support preferred routes: '', ty])
        | Some (Inr p) \<Rightarrow> Inr p)
       outboundTags"

fun item_Start :: "(string \<Rightarrow> (string + preferred_outbound) option) \<Rightarrow> rule_item \<Rightarrow> go_error + rule_item" where
  "item_Start outbounds (PreferredByItem tags os) =
     map_sum id (\<lambda>ps. PreferredByItem tags (os @ ps)) (PreferredByItem_Start outbounds tags)"
| "item_Start outbounds it = Inr it"

section \<open>What the parsers accept\<close>

lemma hex_val_digit [simp]: "hex_val (hex_digit n) = Some (n mod 16)"
proof -
  have "n mod 16 \<in> {0, 1, 2, 3, 4, 5, 6, 7, 8, 9, 10, 11, 12, 13, 14, 15}" by (simp, presburger)
  then show ?thesis by (auto simp: hex_val_def hex_digit_def)
qed

lemma hex_byte_digits [simp]: "b < 256 \<Longrightarrow> hex_byte (hex_digit (b div 16)) (hex_digit b) = Some b"
  by (simp add: hex_byte_def)

lemma mac_pairs_String: "bs \<noteq> [] \<Longrightarrow> \<forall>b \<in> set bs. b < 256 \<Longrightarrow> mac_pairs (CHR '':'') (mac_String bs) = Some bs"
  by (induction bs rule: mac_String.induct) simp_all

lemma length_mac_String: "bs \<noteq> [] \<Longrightarrow> Suc (length (mac_String bs)) = 3 * length bs"
  by (induction bs rule: mac_String.induct) simp_all

lemma mac_String_nth_2: "1 < length bs \<Longrightarrow> mac_String bs ! 2 = CHR '':''"
  by (cases bs rule: mac_String.cases) simp_all

lemma ParseMAC_String:
  assumes "length bs \<in> {6, 8, 20}" "\<forall>b \<in> set bs. b < 256"
  shows "ParseMAC (mac_String bs) = Some bs"
proof -
  have ne: "bs \<noteq> []" "1 < length bs" using assms(1) by auto
  have "\<not> length (mac_String bs) < 14" using assms(1) length_mac_String [OF ne(1)] by auto
  then show ?thesis
    using assms ne by (simp add: ParseMAC_def mac_pairs_String mac_String_nth_2)
qed

end
