(* ===== verification/RuleAction.thy ===== *)
theory RuleAction
  imports Calendar RuleItems
begin

text \<open>
  What a matched rule does (\<open>src/route/rule/rule_action.go\<close>, \<open>src/option/rule_action.go\<close>): the options
  of an action, the action built from them, the flood counter of \<open>reject\<close>, the sniffers of \<open>sniff\<close>
  and the answer of a predefined DNS action. The text an action is logged with is not modelled, nor
  is the decoding of options from JSON.
\<close>

section \<open>Options\<close>

record RouteActionOptions =
  ra_Outbound :: string
  ra_OverrideAddress :: string
  ra_OverridePort :: "16 word"
  ra_NetworkStrategy :: "int option"
  ra_FallbackDelay :: int
  ra_UDPDisableDomainUnmapping :: bool
  ra_UDPConnect :: bool
  ra_UDPTimeout :: int
  ra_TLSFragment :: bool
  ra_TLSFragmentFallbackDelay :: int
  ra_TLSRecordFragment :: bool

text \<open>
  \<open>RouteOptionsOptions\<close> has no outbound; the one of its record is ignored. The options of \<open>direct\<close> are
  those of a dialer, kept as text.
\<close>

record RejectActionOptions =
  rj_Method :: string
  rj_NoDrop :: bool

record RouteActionSniff =
  sn_Sniffer :: "string list"
  sn_Timeout :: int

record DNSOptions =
  do_Server :: string
  do_Strategy :: int
  do_DisableCache :: bool
  do_RewriteTTL :: "32 word option"
  do_ClientSubnet :: "prefix option"

record rule_action_options =
  Action :: string
  RouteOptions :: RouteActionOptions
  RouteOptionsOptions :: RouteActionOptions
  DirectOptions :: string
  BypassOptions :: RouteActionOptions
  RejectOptions :: RejectActionOptions
  SniffOptions :: RouteActionSniff
  ResolveOptions :: DNSOptions

record DNSRouteActionPredefined =
  pd_Rcode :: "int option"
  pd_Answer :: "dns_RR list"
  pd_Ns :: "dns_RR list"
  pd_Extra :: "dns_RR list"

record dns_rule_action_options =
  dns_Action :: string
  dns_RouteOptions :: DNSOptions
  dns_RouteOptionsOptions :: DNSOptions
  dns_RejectOptions :: RejectActionOptions
  dns_PredefinedOptions :: DNSRouteActionPredefined

section \<open>Actions\<close>

record route_options =
  OverrideAddress :: Socksaddr
  OverridePort :: "16 word"
  NetworkStrategy :: "int option"
  NetworkType :: "int list"
  FallbackNetworkType :: "int list"
  FallbackDelay :: int
  UDPDisableDomainUnmapping :: bool
  UDPConnect :: bool
  UDPTimeout :: int
  TLSFragment :: bool
  TLSFragmentFallbackDelay :: int
  TLSRecordFragment :: bool

text \<open>A subnet that was not given is the zero prefix.\<close>

record dns_route_options =
  Strategy :: int
  DisableCache :: bool
  RewriteTTL :: "32 word option"
  ClientSubnet :: prefix

datatype stream_sniffer = TLSClientHello | HTTPHost | StreamDomainNameQuery | StreamBitTorrent | SSH | RDP

datatype packet_sniffer = QUICClientHello | DomainNameQuery | STUNMessage | UTP | UDPTracker | DTLSRecord | NTP

record RuleActionSniff =
  SnifferNames :: "string list"
  StreamSniffers :: "stream_sniffer list"
  PacketSniffers :: "packet_sniffer list"
  sniff_Timeout :: int
  OverrideDestination :: bool

record RuleActionReject =
  Method :: string
  NoDrop :: bool

record RuleActionPredefined =
  pre_Rcode :: int
  pre_Answer :: "dns_RR list"
  pre_Ns :: "dns_RR list"
  pre_Extra :: "dns_RR list"

datatype rule_action =
    RuleActionRoute string route_options
  | RuleActionBypass string route_options
  | RuleActionRouteOptions route_options
  | RuleActionDirect string
  | RuleActionReject RuleActionReject
  | RuleActionHijackDNS
  | RuleActionSniff RuleActionSniff
  | RuleActionResolve string dns_route_options
  | RuleActionDNSRoute string dns_route_options
  | RuleActionEvaluate string dns_route_options
  | RuleActionRespond
  | RuleActionDNSRouteOptions dns_route_options
  | RuleActionPredefined RuleActionPredefined

fun action_Type :: "rule_action \<Rightarrow> string" where
  "action_Type (RuleActionRoute t r) = ''route''"
| "action_Type (RuleActionBypass t r) = ''bypass''"
| "action_Type (RuleActionRouteOptions r) = ''route-options''"
| "action_Type (RuleActionDirect d) = ''direct''"
| "action_Type (RuleActionReject r) = ''reject''"
| "action_Type RuleActionHijackDNS = ''hijack-dns''"
| "action_Type (RuleActionSniff s) = ''sniff''"
| "action_Type (RuleActionResolve s d) = ''resolve''"
| "action_Type (RuleActionDNSRoute s d) = ''route''"
| "action_Type (RuleActionEvaluate s d) = ''evaluate''"
| "action_Type RuleActionRespond = ''respond''"
| "action_Type (RuleActionDNSRouteOptions d) = ''route-options''"
| "action_Type (RuleActionPredefined p) = ''predefined''"

section \<open>Building an action\<close>

text \<open>
  The three actions that carry route options copy the same fields; only \<open>route-options\<close> copies the
  UDP timeout. \<open>NetworkType\<close> and \<open>FallbackNetworkType\<close> are never set.
\<close>

definition build_route_options :: "rule_libs \<Rightarrow> bool \<Rightarrow> RouteActionOptions \<Rightarrow> route_options" where
  "build_route_options L udpTimeout opts =
     \<lparr>OverrideAddress = ParseSocksaddrHostPort L (ra_OverrideAddress opts) 0, OverridePort = ra_OverridePort opts,
      NetworkStrategy = ra_NetworkStrategy opts, NetworkType = [], FallbackNetworkType = [],
      FallbackDelay = ra_FallbackDelay opts, UDPDisableDomainUnmapping = ra_UDPDisableDomainUnmapping opts,
      UDPConnect = ra_UDPConnect opts, UDPTimeout = (if udpTimeout then ra_UDPTimeout opts else 0),
      TLSFragment = ra_TLSFragment opts, TLSFragmentFallbackDelay = ra_TLSFragmentFallbackDelay opts,
      TLSRecordFragment = ra_TLSRecordFragment opts\<rparr>"

definition build_dns_options :: "DNSOptions \<Rightarrow> dns_route_options" where
  "build_dns_options opts =
     \<lparr>Strategy = do_Strategy opts, DisableCache = do_DisableCache opts, RewriteTTL = do_RewriteTTL opts,
      ClientSubnet = (case do_ClientSubnet opts of None \<Rightarrow> (NoAddr, 0) | Some p \<Rightarrow> p)\<rparr>"

text \<open>\<open>RuleActionSniff.build\<close>: the sniffers of the names, in order, up to an unknown name.\<close>

fun sniffers_of :: "string \<Rightarrow> (stream_sniffer list \<times> packet_sniffer list) option" where
  "sniffers_of name =
     (if name = ''tls'' then Some ([TLSClientHello], [])
      else if name = ''http'' then Some ([HTTPHost], [])
      else if name = ''quic'' then Some ([], [QUICClientHello])
      else if name = ''dns'' then Some ([StreamDomainNameQuery], [DomainNameQuery])
      else if name = ''stun'' then Some ([], [STUNMessage])
      else if name = ''bittorrent'' then Some ([StreamBitTorrent], [UTP, UDPTracker])
      else if name = ''dtls'' then Some ([], [DTLSRecord])
      else if name = ''ssh'' then Some ([SSH], [])
      else if name = ''rdp'' then Some ([RDP], [])
      else if name = ''ntp'' then Some ([], [NTP])
      else None)"

fun sniff_build :: "string list \<Rightarrow> RuleActionSniff \<Rightarrow> go_error + RuleActionSniff" where
  "sniff_build [] a = Inr a"
| "sniff_build (name # names) a =
     (case sniffers_of name of
        None \<Rightarrow> Inl (ENew [''unknown sniffer: '', name])
      | Some (ss, ps) \<Rightarrow>
          sniff_build names (a\<lparr>StreamSniffers := StreamSniffers a @ ss, PacketSniffers := PacketSniffers a @ ps\<rparr>))"

definition unknown_action :: "string \<Rightarrow> 'a go" where
  "unknown_action name = Panic (ENew [''unknown rule action: '', name])"

definition NewRuleAction :: "rule_libs \<Rightarrow> rule_action_options \<Rightarrow> (go_error + rule_action option) go" where
  "NewRuleAction L a =
     (if Action a = '''' then Ret (Inr None)
      else if Action a = ''route'' then
        Ret (Inr (Some (RuleActionRoute (ra_Outbound (RouteOptions a)) (build_route_options L False (RouteOptions a)))))
      else if Action a = ''route-options'' then
        Ret (Inr (Some (RuleActionRouteOptions (build_route_options L True (RouteOptionsOptions a)))))
      else if Action a = ''bypass'' then
        Ret (Inr (Some (RuleActionBypass (ra_Outbound (BypassOptions a)) (build_route_options L False (BypassOptions a)))))
      else if Action a = ''direct'' then
        (case dialer_New L (DirectOptions a) of
           Some e \<Rightarrow> Ret (Inl e)
         | None \<Rightarrow> Ret (Inr (Some (RuleActionDirect (DirectOptions a)))))
      else if Action a = ''reject'' then
        Ret (Inr (Some (RuleActionReject \<lparr>Method = rj_Method (RejectOptions a), NoDrop = rj_NoDrop (RejectOptions a)\<rparr>)))
      else if Action a = ''hijack-dns'' then Ret (Inr (Some RuleActionHijackDNS))
      else if Action a = ''sniff'' then
        Ret (map_sum id (\<lambda>s. Some (RuleActionSniff s))
          (sniff_build (sn_Sniffer (SniffOptions a))
             \<lparr>SnifferNames = sn_Sniffer (SniffOptions a), StreamSniffers = [], PacketSniffers = [],
              sniff_Timeout = sn_Timeout (SniffOptions a), OverrideDestination = False\<rparr>))
      else if Action a = ''resolve'' then
        Ret (Inr (Some (RuleActionResolve (do_Server (ResolveOptions a)) (build_dns_options (ResolveOptions a)))))
      else unknown_action (Action a))"

definition NewDNSRuleAction :: "dns_rule_action_options \<Rightarrow> rule_action option go" where
  "NewDNSRuleAction a =
     (if dns_Action a = '''' then Ret None
      else if dns_Action a = ''route'' then
        Ret (Some (RuleActionDNSRoute (do_Server (dns_RouteOptions a)) (build_dns_options (dns_RouteOptions a))))
      else if dns_Action a = ''evaluate'' then
        Ret (Some (RuleActionEvaluate (do_Server (dns_RouteOptions a)) (build_dns_options (dns_RouteOptions a))))
      else if dns_Action a = ''respond'' then Ret (Some RuleActionRespond)
      else if dns_Action a = ''route-options'' then
        Ret (Some (RuleActionDNSRouteOptions (build_dns_options (dns_RouteOptionsOptions a))))
      else if dns_Action a = ''reject'' then
        Ret (Some (RuleActionReject
          \<lparr>Method = rj_Method (dns_RejectOptions a), NoDrop = rj_NoDrop (dns_RejectOptions a)\<rparr>))
      else if dns_Action a = ''predefined'' then
        Ret (Some (RuleActionPredefined
          \<lparr>pre_Rcode = (case pd_Rcode (dns_PredefinedOptions a) of None \<Rightarrow> 0 | Some c \<Rightarrow> c),
           pre_Answer = pd_Answer (dns_PredefinedOptions a), pre_Ns = pd_Ns (dns_PredefinedOptions a),
           pre_Extra = pd_Extra (dns_PredefinedOptions a)\<rparr>))
      else unknown_action (dns_Action a))"

section \<open>Reject\<close>

text \<open>\<open>RejectedError\<close> and \<open>BypassedError\<close> wrap a cause; \<open>errors.As\<close> looks for them along the causes.\<close>

definition RejectedError :: "go_error \<Rightarrow> go_error" where
  "RejectedError cause = EFmt ''rejected'' [] (Some cause)"

definition BypassedError :: "go_error \<Rightarrow> go_error" where
  "BypassedError cause = EFmt ''bypassed'' [] (Some cause)"

definition ErrReset :: go_error where
  "ErrReset = EDriver ''tun.ErrReset''"

definition ErrDrop :: go_error where
  "ErrDrop = EDriver ''tun.ErrDrop''"

fun error_as :: "string \<Rightarrow> go_error \<Rightarrow> bool" where
  "error_as ty (EFmt f args (Some cause)) \<longleftrightarrow> f = ty \<and> args = [] \<or> error_as ty cause"
| "error_as ty (ECause cause msg) \<longleftrightarrow> error_as ty cause"
| "error_as ty (EExtend cause msg) \<longleftrightarrow> error_as ty cause"
| "error_as ty (EErrors es) \<longleftrightarrow> (\<exists>e \<in> set es. error_as ty e)"
| "error_as ty _ \<longleftrightarrow> False"

definition IsRejected :: "go_error \<Rightarrow> bool" where
  "IsRejected e = error_as ''rejected'' e"

definition IsBypassed :: "go_error \<Rightarrow> bool" where
  "IsBypassed e = error_as ''bypassed'' e"

text \<open>
  \<open>RuleActionReject.Error\<close> at the instant \<open>timeNow\<close>, with the instants of the triggers it remembers:
  the error, if any, and what it remembers then.
\<close>

definition flood_window :: int where
  "flood_window = 30 * 10 ^ 9"

definition flood_limit :: nat where
  "flood_limit = 50"

definition reject_Error ::
    "RuleActionReject \<Rightarrow> gotime \<Rightarrow> gotime list \<Rightarrow> (go_error option \<times> gotime list) go" where
  "reject_Error r timeNow dropCounter =
     (if Method r = ''drop'' then Ret (Some (RejectedError ErrDrop), dropCounter)
      else if Method r = ''reply'' then Ret (None, dropCounter)
      else if Method r \<noteq> ''default'' then Panic (ENew [''unknown reject method: '', Method r])
      else if NoDrop r then Ret (Some (RejectedError ErrReset), dropCounter)
      else
        (let dropCounter = filter (\<lambda>t. time_Sub timeNow t \<le> flood_window) dropCounter @ [timeNow]
         in if length dropCounter > flood_limit then Ret (Some (RejectedError ErrDrop), dropCounter)
            else Ret (Some (RejectedError ErrReset), dropCounter)))"

text \<open>Triggers one after the other: the errors and what is remembered in the end.\<close>

fun reject_all ::
    "RuleActionReject \<Rightarrow> gotime list \<Rightarrow> gotime list \<Rightarrow> (go_error option list \<times> gotime list) go" where
  "reject_all r [] counter = Ret ([], counter)"
| "reject_all r (t # ts) counter =
     go_bind (reject_Error r t counter) (\<lambda>(e, counter').
       go_bind (reject_all r ts counter') (\<lambda>(es, counter''). Ret (e # es, counter'')))"

section \<open>Predefined answers\<close>

text \<open>A record whose name starts with a star takes the name of a question that ends like it.\<close>

definition rewriteRecords :: "dns_RR list \<Rightarrow> string \<Rightarrow> dns_RR list" where
  "rewriteRecords records question =
     map (\<lambda>it. if HasPrefix (rr_Name it) ''*'' \<and> HasSuffix question (drop 1 (rr_Name it))
               then it\<lparr>rr_Name := question\<rparr> else it) records"

definition predefined_Response :: "RuleActionPredefined \<Rightarrow> dns_Msg \<Rightarrow> dns_Msg go" where
  "predefined_Response r request =
     (case msg_Question request of
        [] \<Rightarrow> Panic (EDriver ''index out of range'')
      | (name, _) # _ \<Rightarrow>
          Ret \<lparr>msg_Id = msg_Id request, msg_Response = True, msg_Authoritative = True, msg_RecursionDesired = True,
               msg_RecursionAvailable = True, msg_Rcode = pre_Rcode r, msg_Question = msg_Question request,
               msg_Answer = rewriteRecords (pre_Answer r) name, msg_Ns = rewriteRecords (pre_Ns r) name,
               msg_Extra = rewriteRecords (pre_Extra r) name\<rparr>)"

section \<open>Floods\<close>

lemma time_Sub_window: "time_Sub t u \<le> flood_window \<longleftrightarrow> t - u \<le> flood_window"
  by (auto simp: time_Sub_def flood_window_def)

text \<open>The triggers of a history that are still in the window.\<close>

definition recent :: "gotime \<Rightarrow> gotime list \<Rightarrow> gotime list" where
  "recent timeNow h = filter (\<lambda>t. timeNow - t \<le> flood_window) h"

text \<open>What is remembered tells the same about the window as the whole history, now and later.\<close>

definition remembers :: "gotime list \<Rightarrow> gotime list \<Rightarrow> bool" where
  "remembers counter h \<longleftrightarrow> (\<forall>t. (\<forall>u \<in> set h. u \<le> t) \<longrightarrow> recent t counter = recent t h)"

lemma recent_recent: "t \<le> t' \<Longrightarrow> recent t' (recent t h) = recent t' h"
  unfolding recent_def filter_filter by (rule filter_cong) auto

lemma recent_append: "recent t (xs @ ys) = recent t xs @ recent t ys"
  by (simp add: recent_def)

lemma remembers_step:
  assumes "remembers counter h" "\<forall>u \<in> set h. u \<le> t"
  shows "remembers (recent t counter @ [t]) (h @ [t])"
proof -
  have "recent t counter = recent t h" using assms by (simp add: remembers_def)
  then show ?thesis by (simp add: remembers_def recent_append recent_recent)
qed

lemma reject_step:
  assumes "Method r = ''default''" "\<not> NoDrop r" "remembers counter h" "\<forall>u \<in> set h. u \<le> t"
  shows "\<exists>counter'. remembers counter' (h @ [t]) \<and>
    reject_Error r t counter =
      Ret (Some (RejectedError (if flood_limit \<le> length (recent t h) then ErrDrop else ErrReset)), counter')"
proof (intro exI conjI)
  show "remembers (recent t counter @ [t]) (h @ [t])" by (rule remembers_step) fact+
  have "recent t counter = recent t h" using assms(3,4) by (simp add: remembers_def)
  then show "reject_Error r t counter =
      Ret (Some (RejectedError (if flood_limit \<le> length (recent t h) then ErrDrop else ErrReset)), recent t counter @ [t])"
    using assms(1,2) by (simp add: reject_Error_def Let_def time_Sub_window recent_def [symmetric])
qed

lemma reject_run:
  assumes "Method r = ''default''" "\<not> NoDrop r" "remembers counter h" "sorted (h @ ts)"
  shows "\<exists>counter'. reject_all r ts counter =
    Ret (map (\<lambda>i. Some (RejectedError
      (if flood_limit \<le> length (recent (ts ! i) (h @ take i ts)) then ErrDrop else ErrReset))) [0..<length ts], counter')"
  using assms
proof (induction ts arbitrary: counter h)
  case (Cons t ts)
  have "\<forall>u \<in> set h. u \<le> t" using Cons.prems(4) by (auto simp: sorted_append)
  then obtain c where c: "remembers c (h @ [t])"
    "reject_Error r t counter =
      Ret (Some (RejectedError (if flood_limit \<le> length (recent t h) then ErrDrop else ErrReset)), c)"
    using reject_step [OF Cons.prems(1-3)] by blast
  with Cons.IH [OF Cons.prems(1,2) c(1)] Cons.prems(4) show ?case
    by (auto simp: upt_conv_Cons map_Suc_upt [symmetric] simp del: upt_Suc)
qed simp

end
