(* ===== verification/RuleState.thy ===== *)
theory RuleState
  imports Prelude
begin

text \<open>
  Sets of match states (\<open>src/route/rule/match_state.go\<close>). A match state is a set of four flags,
  one per kind of address or port condition that is already satisfied; a \<open>ruleMatchStateSet\<close> is
  a set of such states, packed as a bit mask. \<open>states_of\<close> reads a mask as a set, and the lemmas
  say that the operations on masks are the operations on sets.
\<close>

unbundle bit_operations_syntax

section \<open>The operations\<close>

type_synonym ruleMatchState = "8 word"
type_synonym ruleMatchStateSet = "16 word"

definition ruleMatchSourceAddress :: ruleMatchState where
  "ruleMatchSourceAddress = 1"

definition ruleMatchSourcePort :: ruleMatchState where
  "ruleMatchSourcePort = 2"

definition ruleMatchDestinationAddress :: ruleMatchState where
  "ruleMatchDestinationAddress = 4"

definition ruleMatchDestinationPort :: ruleMatchState where
  "ruleMatchDestinationPort = 8"

definition singleRuleMatchState :: "ruleMatchState \<Rightarrow> ruleMatchStateSet" where
  "singleRuleMatchState state = push_bit (unat state) 1"

definition emptyRuleMatchState :: ruleMatchStateSet where
  "emptyRuleMatchState = singleRuleMatchState 0"

definition set_isEmpty :: "ruleMatchStateSet \<Rightarrow> bool" where
  "set_isEmpty s \<longleftrightarrow> s = 0"

definition set_contains :: "ruleMatchStateSet \<Rightarrow> ruleMatchState \<Rightarrow> bool" where
  "set_contains s state \<longleftrightarrow> s AND push_bit (unat state) 1 \<noteq> 0"

definition set_add :: "ruleMatchStateSet \<Rightarrow> ruleMatchState \<Rightarrow> ruleMatchStateSet" where
  "set_add s state = s OR singleRuleMatchState state"

definition set_merge :: "ruleMatchStateSet \<Rightarrow> ruleMatchStateSet \<Rightarrow> ruleMatchStateSet" where
  "set_merge s other = s OR other"

text \<open>The loop \<open>for state := 0; state < 16; state++\<close>.\<close>

definition all_states :: "ruleMatchState list" where
  "all_states = map word_of_nat [0..<16]"

definition set_combine :: "ruleMatchStateSet \<Rightarrow> ruleMatchStateSet \<Rightarrow> ruleMatchStateSet" where
  "set_combine s other =
     (if set_isEmpty s \<or> set_isEmpty other then 0
      else fold (\<lambda>left combined.
             if \<not> set_contains s left then combined
             else fold (\<lambda>right combined.
               if \<not> set_contains other right then combined else set_add combined (left OR right)) all_states combined)
           all_states 0)"

definition set_withBase :: "ruleMatchState \<Rightarrow> ruleMatchStateSet \<Rightarrow> ruleMatchStateSet" where
  "set_withBase base s =
     (if set_isEmpty s then 0
      else fold (\<lambda>state acc. if \<not> set_contains s state then acc else set_add acc (state OR base)) all_states 0)"

definition set_filter :: "(ruleMatchState \<Rightarrow> bool) \<Rightarrow> ruleMatchStateSet \<Rightarrow> ruleMatchStateSet" where
  "set_filter allowed s =
     fold (\<lambda>state acc. if \<not> set_contains s state then acc else if allowed state then set_add acc state else acc)
       all_states 0"

definition state_has :: "ruleMatchState \<Rightarrow> ruleMatchState \<Rightarrow> bool" where
  "state_has s target \<longleftrightarrow> s AND target \<noteq> 0"

section \<open>Masks as sets\<close>

definition states_of :: "ruleMatchStateSet \<Rightarrow> ruleMatchState set" where
  "states_of s = {state. set_contains s state}"

abbreviation proper :: "ruleMatchState \<Rightarrow> bool" where
  "proper b \<equiv> unat b < 16"

lemma set_contains_bit: "set_contains s b \<longleftrightarrow> bit s (unat b)"
  by (simp add: set_contains_def push_bit_of_1 and_exp_eq_0_iff_not_bit)

lemma mem_states_of: "b \<in> states_of s \<longleftrightarrow> bit s (unat b)"
  by (simp add: states_of_def set_contains_bit)

lemma states_of_proper: "b \<in> states_of s \<Longrightarrow> proper b"
  using bit_imp_le_length [of s "unat b"] by (simp add: mem_states_of)

lemma unat_word_of_nat_small: "n < 16 \<Longrightarrow> unat (word_of_nat n :: 8 word) = n"
  by (simp add: unsigned_of_nat take_bit_nat_eq_self)

lemma set_all_states: "set all_states = {b. proper b}"
proof -
  have "b \<in> word_of_nat ` {0..<16}" if "proper b" for b :: "8 word"
    using that by (intro image_eqI [of _ _ "unat b"]) simp_all
  then show ?thesis by (auto simp: all_states_def unat_word_of_nat_small)
qed

lemma states_of_inject [simp]: "states_of s = states_of t \<longleftrightarrow> s = t"
proof
  assume eq: "states_of s = states_of t"
  show "s = t"
  proof (rule bit_eqI)
    fix n
    assume "possible_bit TYPE(16 word) n"
    then have "n < 16" by (simp add: possible_bit_word)
    then show "bit s n = bit t n"
      using eq mem_states_of [of "word_of_nat n" s] mem_states_of [of "word_of_nat n" t]
      by (simp add: unat_word_of_nat_small)
  qed
qed simp

lemma states_of_0 [simp]: "states_of 0 = {}"
  by (auto simp: mem_states_of)

lemma states_of_empty_iff [simp]: "states_of s = {} \<longleftrightarrow> s = 0"
  using states_of_inject [of s 0] by simp

lemma states_of_single [simp]: "proper b \<Longrightarrow> states_of (singleRuleMatchState b) = {b}"
  by (auto simp: mem_states_of singleRuleMatchState_def bit_exp_iff word_unat_eq_iff possible_bit_word push_bit_of_1)

lemma states_of_empty_state [simp]: "states_of emptyRuleMatchState = {0}"
  by (simp add: emptyRuleMatchState_def)

lemma states_of_merge [simp]: "states_of (set_merge s t) = states_of s \<union> states_of t"
  by (auto simp: mem_states_of set_merge_def bit_simps)

lemma states_of_add [simp]: "proper b \<Longrightarrow> states_of (set_add s b) = insert b (states_of s)"
  using states_of_merge [of s "singleRuleMatchState b"] by (simp add: set_add_def set_merge_def)

lemma set_isEmpty_iff [simp]: "set_isEmpty s \<longleftrightarrow> states_of s = {}"
  by (simp add: set_isEmpty_def)

lemma proper_or: "proper a \<Longrightarrow> proper b \<Longrightarrow> proper (a OR b)"
proof -
  assume "proper a" "proper b"
  then have "take_bit 4 (unat a OR unat b) = unat a OR unat b"
    by (simp add: take_bit_or take_bit_nat_eq_self)
  then show ?thesis using take_bit_nat_less_exp [of 4 "unat a OR unat b"] by (simp add: unsigned_or_eq)
qed

text \<open>A loop over all states that adds a set of states for each member of a set.\<close>

lemma fold_states:
  assumes "\<And>b acc. b \<in> set bs \<Longrightarrow> P b \<Longrightarrow> states_of (g b acc) = states_of acc \<union> G b"
  shows "states_of (fold (\<lambda>b acc. if \<not> P b then acc else g b acc) bs acc) =
     states_of acc \<union> \<Union> (G ` {b \<in> set bs. P b})"
  using assms by (induction bs arbitrary: acc) auto

lemma loop_states:
  assumes "\<And>b acc. b \<in> states_of s \<Longrightarrow> states_of (g b acc) = states_of acc \<union> G b"
  shows "states_of (fold (\<lambda>b acc. if \<not> set_contains s b then acc else g b acc) all_states acc) =
     states_of acc \<union> \<Union> (G ` states_of s)"
proof -
  have "{b \<in> set all_states. set_contains s b} = states_of s"
    using states_of_proper by (auto simp: set_all_states states_of_def)
  with assms fold_states [of all_states "set_contains s" g G acc] show ?thesis
    by (simp add: states_of_def)
qed

lemma states_of_withBase [simp]:
  assumes "proper base"
  shows "states_of (set_withBase base s) = (\<lambda>b. b OR base) ` states_of s"
proof -
  have "states_of (fold (\<lambda>b acc. if \<not> set_contains s b then acc else set_add acc (b OR base)) all_states 0) =
      states_of 0 \<union> (\<Union>b \<in> states_of s. {b OR base})"
    by (rule loop_states) (use assms states_of_proper proper_or in auto)
  then show ?thesis by (auto simp: set_withBase_def)
qed

lemma states_of_filter [simp]: "states_of (set_filter allowed s) = {b \<in> states_of s. allowed b}"
proof -
  have "states_of (set_filter allowed s) = states_of 0 \<union> (\<Union>b \<in> states_of s. if allowed b then {b} else {})"
    unfolding set_filter_def by (rule loop_states) (use states_of_proper in auto)
  then show ?thesis by (auto split: if_splits)
qed

lemma states_of_combine [simp]:
  "states_of (set_combine s t) = {l OR r | l r. l \<in> states_of s \<and> r \<in> states_of t}"
proof -
  have inner: "states_of (fold (\<lambda>r acc. if \<not> set_contains t r then acc else set_add acc (l OR r)) all_states acc) =
      states_of acc \<union> (\<Union>r \<in> states_of t. {l OR r})" if "l \<in> states_of s" for l acc
    by (rule loop_states) (use that states_of_proper proper_or in auto)
  have "states_of (fold (\<lambda>l acc. if \<not> set_contains s l then acc
        else fold (\<lambda>r acc. if \<not> set_contains t r then acc else set_add acc (l OR r)) all_states acc) all_states 0) =
      states_of 0 \<union> (\<Union>l \<in> states_of s. \<Union>r \<in> states_of t. {l OR r})"
    by (rule loop_states) (use inner in auto)
  then show ?thesis by (auto simp: set_combine_def)
qed

end
