(* ===== verification/RuleEngine.thy ===== *)
theory RuleEngine
  imports RuleState RuleItems
begin

text \<open>
  Matching of rules (\<open>src/route/rule/rule_abstract.go\<close>, the \<open>matchStates\<close> family of
  \<open>match_state.go\<close>, \<open>rule_item_rule_set.go\<close>, \<open>rule_set_local.go\<close>, \<open>rule_set_remote.go\<close> and
  \<open>rule_dns.go\<close>). A rule is a default rule, with its items in six groups and perhaps a rule-set
  item, or a logical rule. Evaluating it gives a set of match states: which of the four address and
  port conditions a branch has met, so that a condition of an outer rule can be met inside a rule set.

  The theorems say what the bit sets compute: without rule sets a rule is a Boolean combination of
  its items; a rule with rule sets is the disjunction of its branches, each merged into the rule.
\<close>

section \<open>Rules\<close>

record abstractDefaultRule =
  items :: "rule_item list"
  sourceAddressItems :: "rule_item list"
  sourcePortItems :: "rule_item list"
  destinationAddressItems :: "rule_item list"
  destinationIPCIDRItems :: "rule_item list"
  destinationPortItems :: "rule_item list"
  allItems :: "rule_item list"
  invert :: bool

text \<open>
  \<open>allItems\<close> leaves the rule-set item out, which is the second argument of \<open>DefaultRule\<close>; the third is
  \<open>matchResponse\<close> of \<open>DefaultDNSRule\<close>, \<open>False\<close> for every other default rule. The rules of a rule set
  are headless: they have no rule-set item. A rule-set item holds the tags it was written with and
  the rule sets it found when it was started, by their tags.
\<close>

datatype 'rs rule =
    DefaultRule abstractDefaultRule "'rs option" bool
  | LogicalRule string "'rs rule list" bool

type_synonym headless_rule = "unit rule"

record ruleSetItem =
  tagList :: "string list"
  setList :: "string list"
  ipCidrMatchSource :: bool
  ipCidrAcceptEmpty :: bool

type_synonym routing_rule = "ruleSetItem rule"

definition LogicalTypeAnd :: string where
  "LogicalTypeAnd = ''and''"

definition LogicalTypeOr :: string where
  "LogicalTypeOr = ''or''"

section \<open>Match states of a rule\<close>

definition matchAnyItem :: "rule_env \<Rightarrow> rule_item list \<Rightarrow> InboundContext \<Rightarrow> bool" where
  "matchAnyItem E its m \<longleftrightarrow> (\<exists>it \<in> set its. item_Match E it m)"

definition destinationIPCIDRMatchesSource :: "abstractDefaultRule \<Rightarrow> InboundContext \<Rightarrow> bool" where
  "destinationIPCIDRMatchesSource r m \<longleftrightarrow>
     \<not> ic_IgnoreDestinationIPCIDRMatch m \<and> ic_IPCIDRMatchSource m \<and> destinationIPCIDRItems r \<noteq> []"

definition destinationIPCIDRMatchesDestination :: "abstractDefaultRule \<Rightarrow> InboundContext \<Rightarrow> bool" where
  "destinationIPCIDRMatchesDestination r m \<longleftrightarrow>
     \<not> ic_IgnoreDestinationIPCIDRMatch m \<and> \<not> ic_IPCIDRMatchSource m \<and> destinationIPCIDRItems r \<noteq> []"

definition requiresSourceAddressMatch :: "abstractDefaultRule \<Rightarrow> InboundContext \<Rightarrow> bool" where
  "requiresSourceAddressMatch r m \<longleftrightarrow> sourceAddressItems r \<noteq> [] \<or> destinationIPCIDRMatchesSource r m"

definition requiresDestinationAddressMatch :: "abstractDefaultRule \<Rightarrow> InboundContext \<Rightarrow> bool" where
  "requiresDestinationAddressMatch r m \<longleftrightarrow>
     destinationAddressItems r \<noteq> [] \<or> destinationIPCIDRMatchesDestination r m"

definition invertedFailure :: "abstractDefaultRule \<Rightarrow> ruleMatchState \<Rightarrow> ruleMatchStateSet" where
  "invertedFailure r b = (if invert r then set_withBase b emptyRuleMatchState else 0)"

text \<open>
  One group of a default rule: a group that is asked marks the context and adds its flag when one of
  its items matches. A group of destination addresses is asked only while its flag is missing.
\<close>

type_synonym group_state = "InboundContext \<times> ruleMatchState"

definition ask_group :: "rule_env \<Rightarrow> bool \<Rightarrow> rule_item list \<Rightarrow> ruleMatchState \<Rightarrow> group_state \<Rightarrow> group_state" where
  "ask_group E present its flag = (\<lambda>(m, st).
     if present
     then (let m' = m\<lparr>ic_DidMatch := True\<rparr> in (m', if matchAnyItem E its m' then st OR flag else st))
     else (m, st))"

definition ask_missing :: "rule_env \<Rightarrow> bool \<Rightarrow> rule_item list \<Rightarrow> ruleMatchState \<Rightarrow> group_state \<Rightarrow> group_state" where
  "ask_missing E present its flag = (\<lambda>(m, st).
     if present \<and> \<not> state_has st flag then ask_group E True its flag (m, st)
     else if present then (m\<lparr>ic_DidMatch := True\<rparr>, st)
     else (m, st))"

definition base_state :: "rule_env \<Rightarrow> abstractDefaultRule \<Rightarrow> InboundContext \<Rightarrow> ruleMatchState \<Rightarrow> group_state" where
  "base_state E r m st =
     (let g = ask_group E (sourceAddressItems r \<noteq> []) (sourceAddressItems r) ruleMatchSourceAddress (m, st);
          g = ask_missing E (destinationIPCIDRMatchesSource r m) (destinationIPCIDRItems r) ruleMatchSourceAddress g;
          g = ask_group E (sourcePortItems r \<noteq> []) (sourcePortItems r) ruleMatchSourcePort g;
          g = ask_group E (destinationAddressItems r \<noteq> []) (destinationAddressItems r) ruleMatchDestinationAddress g;
          g = ask_missing E (destinationIPCIDRMatchesDestination r m) (destinationIPCIDRItems r) ruleMatchDestinationAddress g
      in ask_group E (destinationPortItems r \<noteq> []) (destinationPortItems r) ruleMatchDestinationPort g)"

text \<open>The states a default rule lets through.\<close>

definition allowed_state :: "abstractDefaultRule \<Rightarrow> InboundContext \<Rightarrow> ruleMatchState \<Rightarrow> bool" where
  "allowed_state r m st \<longleftrightarrow>
     \<not> (requiresSourceAddressMatch r m \<and> \<not> state_has st ruleMatchSourceAddress) \<and>
     \<not> (sourcePortItems r \<noteq> [] \<and> \<not> state_has st ruleMatchSourcePort) \<and>
     \<not> (requiresDestinationAddressMatch r m \<and> \<not> state_has st ruleMatchDestinationAddress) \<and>
     \<not> (destinationPortItems r \<noteq> [] \<and> \<not> state_has st ruleMatchDestinationPort)"

text \<open>
  \<open>abstractDefaultRule.matchStatesWithBase\<close>. \<open>sets\<close> is \<open>matchRuleItemStatesWithBase\<close> of the rule-set
  item, if there is one. The remaining items are asked in order up to the first that fails; each
  marks the context.
\<close>

definition default_states ::
    "rule_env \<Rightarrow> abstractDefaultRule \<Rightarrow> (InboundContext \<Rightarrow> ruleMatchState \<Rightarrow> ruleMatchStateSet) option \<Rightarrow>
     InboundContext \<Rightarrow> ruleMatchState \<Rightarrow> ruleMatchStateSet" where
  "default_states E r sets m inheritedBase =
     (if allItems r = [] \<and> sets = None then set_withBase inheritedBase emptyRuleMatchState
      else
        (let (m1, baseState) = base_state E r m (if invert r then 0 else inheritedBase);
             m2 = (if items r \<noteq> [] then m1\<lparr>ic_DidMatch := True\<rparr> else m1)
         in if \<not> (\<forall>it \<in> set (items r). item_Match E it m2) then invertedFailure r inheritedBase
            else
              (let (m3, stateSet) =
                 (case sets of
                    Some f \<Rightarrow> (let m' = m2\<lparr>ic_DidMatch := True\<rparr> in (m', f m' baseState))
                  | None \<Rightarrow> (m2, singleRuleMatchState baseState));
                   stateSet = set_filter (allowed_state r m3) stateSet
               in if set_isEmpty stateSet then invertedFailure r inheritedBase
                  else if invert r then
                    (if ic_IgnoreDestinationIPCIDRMatch m3 \<and> stateSet = emptyRuleMatchState \<and>
                        \<not> ic_DidMatch m3 \<and> destinationIPCIDRItems r \<noteq> []
                     then set_withBase inheritedBase emptyRuleMatchState
                     else 0)
                  else stateSet)))"

text \<open>
  The two loops of a logical rule, on the states of its sub-rules: \<open>and\<close> stops at the first that is
  empty, \<open>or\<close> merges all.
\<close>

fun combine_all :: "ruleMatchStateSet \<Rightarrow> ruleMatchStateSet list \<Rightarrow> ruleMatchStateSet option" where
  "combine_all stateSet [] = Some stateSet"
| "combine_all stateSet (n # ns) = (if set_isEmpty n then None else combine_all (set_combine stateSet n) ns)"

definition merge_all :: "ruleMatchStateSet list \<Rightarrow> ruleMatchStateSet" where
  "merge_all ns = foldl set_merge 0 ns"

definition logical_states :: "string \<Rightarrow> bool \<Rightarrow> ruleMatchState \<Rightarrow> ruleMatchStateSet list \<Rightarrow> ruleMatchStateSet" where
  "logical_states mode neg b nested =
     (let failure = (if neg then set_withBase b emptyRuleMatchState else 0)
      in if mode = LogicalTypeAnd then
           (case combine_all (set_withBase (if neg then 0 else b) emptyRuleMatchState) nested of
              None \<Rightarrow> failure
            | Some stateSet \<Rightarrow> if neg then 0 else stateSet)
         else if set_isEmpty (merge_all nested) then failure
         else if neg then 0
         else merge_all nested)"

text \<open>
  \<open>matchStatesWithBase\<close> of a rule, over that of its rule-set items. Sub-rules see a copy of the context
  without what an outer rule set put there.
\<close>

fun states_with ::
    "('rs \<Rightarrow> InboundContext \<Rightarrow> ruleMatchState \<Rightarrow> ruleMatchStateSet) \<Rightarrow> rule_env \<Rightarrow> 'rs rule \<Rightarrow>
     InboundContext \<Rightarrow> ruleMatchState \<Rightarrow> ruleMatchStateSet" where
  "states_with f E (DefaultRule r rs mr) m b = default_states E r (map_option f rs) m b"
| "states_with f E (LogicalRule mode rules neg) m b =
     logical_states mode neg b
       (map (\<lambda>r. states_with f E r (ResetRuleCache m) (if neg then 0 else b)) rules)"

definition headless_states ::
    "rule_env \<Rightarrow> headless_rule \<Rightarrow> InboundContext \<Rightarrow> ruleMatchState \<Rightarrow> ruleMatchStateSet" where
  "headless_states E h m b = states_with (\<lambda>_ _ _. 0) E h m b"

text \<open>\<open>matchStatesWithBase\<close> of a local and of a remote rule set with the given rules.\<close>

definition ruleSet_states ::
    "rule_env \<Rightarrow> headless_rule list \<Rightarrow> InboundContext \<Rightarrow> ruleMatchState \<Rightarrow> ruleMatchStateSet" where
  "ruleSet_states E rules m b = merge_all (map (\<lambda>h. headless_states E h (ResetRuleMatchCache m) b) rules)"

text \<open>
  \<open>RuleSetItem.matchStatesWithBase\<close>. \<open>S tag\<close> are the rules the rule set \<open>tag\<close> has at the moment; they
  see what the item asks of addresses.
\<close>

definition ruleSetItem_states ::
    "(string \<Rightarrow> headless_rule list) \<Rightarrow> rule_env \<Rightarrow> ruleSetItem \<Rightarrow> InboundContext \<Rightarrow> ruleMatchState \<Rightarrow>
     ruleMatchStateSet" where
  "ruleSetItem_states S E it m b =
     merge_all
       (map (\<lambda>tag.
          let nestedMetadata = (ResetRuleMatchCache m)
                \<lparr>ic_IPCIDRMatchSource := ipCidrMatchSource it, ic_IPCIDRAcceptEmpty := ipCidrAcceptEmpty it\<rparr>
          in ruleSet_states E (S tag) nestedMetadata b) (setList it))"

definition matchStatesWithBase ::
    "(string \<Rightarrow> headless_rule list) \<Rightarrow> rule_env \<Rightarrow> routing_rule \<Rightarrow> InboundContext \<Rightarrow> ruleMatchState \<Rightarrow>
     ruleMatchStateSet" where
  "matchStatesWithBase S E r m b = states_with (ruleSetItem_states S E) E r m b"

text \<open>\<open>Match\<close> of a rule: a state is left.\<close>

definition rule_Match :: "(string \<Rightarrow> headless_rule list) \<Rightarrow> rule_env \<Rightarrow> routing_rule \<Rightarrow> InboundContext \<Rightarrow> bool" where
  "rule_Match S E r m \<longleftrightarrow> \<not> set_isEmpty (matchStatesWithBase S E r m 0)"

section \<open>Rules of the DNS router\<close>

text \<open>
  \<open>matchStatesForMatch\<close>: a default rule with \<open>matchResponse\<close> looks at the addresses of the response and
  fails without one; a logical rule asks its sub-rules the same way.
\<close>

fun matchStatesForMatch ::
    "(string \<Rightarrow> headless_rule list) \<Rightarrow> rule_env \<Rightarrow> routing_rule \<Rightarrow> InboundContext \<Rightarrow> ruleMatchStateSet" where
  "matchStatesForMatch S E (DefaultRule r rs mr) m =
     (if mr then
        (if ic_DNSResponse m = None then invertedFailure r 0
         else matchStatesWithBase S E (DefaultRule r rs mr) (m\<lparr>ic_DestinationAddressMatchFromResponse := True\<rparr>) 0)
      else matchStatesWithBase S E (DefaultRule r rs mr) m 0)"
| "matchStatesForMatch S E (LogicalRule mode rules neg) m =
     logical_states mode neg 0 (map (\<lambda>r. matchStatesForMatch S E r (ResetRuleCache m)) rules)"

definition dns_Match :: "(string \<Rightarrow> headless_rule list) \<Rightarrow> rule_env \<Rightarrow> routing_rule \<Rightarrow> InboundContext \<Rightarrow> bool" where
  "dns_Match S E r m \<longleftrightarrow> \<not> set_isEmpty (matchStatesForMatch S E r m)"

definition LegacyPreMatch :: "(string \<Rightarrow> headless_rule list) \<Rightarrow> rule_env \<Rightarrow> routing_rule \<Rightarrow> InboundContext \<Rightarrow> bool" where
  "LegacyPreMatch S E r m =
     (case r of
        DefaultRule d rs mr \<Rightarrow> \<not> mr \<and> rule_Match S E r (m\<lparr>ic_IgnoreDestinationIPCIDRMatch := True\<rparr>)
      | LogicalRule mode rules neg \<Rightarrow> rule_Match S E r (m\<lparr>ic_IgnoreDestinationIPCIDRMatch := True\<rparr>))"

definition MatchAddressLimit ::
    "(string \<Rightarrow> headless_rule list) \<Rightarrow> rule_env \<Rightarrow> routing_rule \<Rightarrow> InboundContext \<Rightarrow> dns_Msg option \<Rightarrow> bool" where
  "MatchAddressLimit S E r m response =
     rule_Match S E r (m\<lparr>ic_DNSResponse := response, ic_DestinationAddressMatchFromResponse := True\<rparr>)"

text \<open>
  \<open>WithAddressLimit\<close>: the rule asks for destination addresses itself or through a rule set, whose
  metadata says whether it has \<open>ip_cidr\<close> rules.
\<close>

definition ContainsDestinationIPCIDRRule :: "(string \<Rightarrow> bool) \<Rightarrow> ruleSetItem \<Rightarrow> bool" where
  "ContainsDestinationIPCIDRRule containsIPCIDR it \<longleftrightarrow>
     \<not> ipCidrMatchSource it \<and> (\<exists>tag \<in> set (setList it). containsIPCIDR tag)"

fun WithAddressLimit :: "(string \<Rightarrow> bool) \<Rightarrow> routing_rule \<Rightarrow> bool" where
  "WithAddressLimit containsIPCIDR (DefaultRule r rs mr) \<longleftrightarrow>
     destinationIPCIDRItems r \<noteq> [] \<or>
     (case rs of None \<Rightarrow> False | Some it \<Rightarrow> ContainsDestinationIPCIDRRule containsIPCIDR it)"
| "WithAddressLimit containsIPCIDR (LogicalRule mode rules neg) \<longleftrightarrow>
     (\<exists>r \<in> set rules. WithAddressLimit containsIPCIDR r)"

end
