(* ===== verification/RuleBuild.thy ===== *)
theory RuleBuild
  imports RuleAction RuleEngine
begin

text \<open>
  Building rules from their options (\<open>src/route/rule/rule_default.go\<close>, \<open>rule_dns.go\<close>,
  \<open>rule_headless.go\<close>, \<open>rule_nested_action.go\<close> and the option types of \<open>src/option/rule.go\<close>,
  \<open>rule_dns.go\<close> and \<open>rule_set.go\<close>). A list option that is absent and one that is empty are the same
  here. The services a constructor finds in its context are present.
\<close>

section \<open>Options\<close>

text \<open>The conditions all three kinds of rules have, those of rules with actions, and the rest of each kind.\<close>

record match_options =
  o_Network :: "string list"
  o_Domain :: "string list"
  o_DomainSuffix :: "string list"
  o_DomainKeyword :: "string list"
  o_DomainRegex :: "string list"
  o_SourceIPCIDR :: "string list"
  o_IPCIDR :: "string list"
  o_SourcePort :: "16 word list"
  o_SourcePortRange :: "string list"
  o_Port :: "16 word list"
  o_PortRange :: "string list"
  o_ProcessName :: "string list"
  o_ProcessPath :: "string list"
  o_ProcessPathRegex :: "string list"
  o_PackageName :: "string list"
  o_NetworkType :: "int list"
  o_NetworkIsExpensive :: bool
  o_NetworkIsConstrained :: bool
  o_WIFISSID :: "string list"
  o_WIFIBSSID :: "string list"
  o_NetworkInterfaceAddress :: "(int \<times> prefix list) list"
  o_DefaultInterfaceAddress :: "prefix list"
  o_Invert :: bool

record action_match_options = match_options +
  o_Inbound :: "string list"
  o_IPVersion :: int
  o_AuthUser :: "string list"
  o_Protocol :: "string list"
  o_Geosite :: "string list"
  o_SourceGeoIP :: "string list"
  o_GeoIP :: "string list"
  o_SourceIPIsPrivate :: bool
  o_IPIsPrivate :: bool
  o_User :: "string list"
  o_UserID :: "int list"
  o_ClashMode :: string
  o_InterfaceAddress :: "(string \<times> prefix list) list"
  o_SourceMACAddress :: "string list"
  o_SourceHostname :: "string list"
  o_RuleSet :: "string list"
  o_RuleSetIPCIDRMatchSource :: bool
  o_RulesetIPCIDRMatchSource :: bool

record RawDefaultRule = action_match_options +
  o_Client :: "string list"
  o_PreferredBy :: "string list"

record RawDefaultDNSRule = action_match_options +
  o_QueryType :: "16 word list"
  o_Outbound :: "string list"
  o_MatchResponse :: bool
  o_ResponseRcode :: "int option"
  o_ResponseAnswer :: "dns_RR option list"
  o_ResponseNs :: "dns_RR option list"
  o_ResponseExtra :: "dns_RR option list"
  o_IPAcceptAny :: bool
  o_RuleSetIPCIDRAcceptEmpty :: bool

record DefaultHeadlessRule = match_options +
  h_QueryType :: "16 word list"
  h_DomainMatcher :: "(string \<Rightarrow> bool) option"
  h_SourceIPSet :: "(addr \<Rightarrow> bool) option"
  h_IPSet :: "(addr \<Rightarrow> bool) option"
  h_AdGuardDomain :: "string list"
  h_AdGuardDomainMatcher :: "(string \<Rightarrow> bool) option"

text \<open>
  The struct of a rule of any kind: its type, the options and action of a default rule, and the mode,
  sub-rules, inversion and action of a logical rule. Headless rules have no actions.
\<close>

datatype ('d, 'a) rule_options =
  RuleOptions (ro_Type: string) (ro_Default: 'd) (ro_Action: 'a)
    (ro_Mode: string) (ro_Rules: "('d, 'a) rule_options list") (ro_Invert: bool) (ro_LogicalAction: 'a)

definition RuleTypeDefault :: string where
  "RuleTypeDefault = ''default''"

definition RuleTypeLogical :: string where
  "RuleTypeLogical = ''logical''"

text \<open>Options in which nothing is set.\<close>

definition no_match_options :: match_options where
  "no_match_options =
     \<lparr>o_Network = [], o_Domain = [], o_DomainSuffix = [], o_DomainKeyword = [], o_DomainRegex = [],
      o_SourceIPCIDR = [], o_IPCIDR = [], o_SourcePort = [], o_SourcePortRange = [], o_Port = [], o_PortRange = [],
      o_ProcessName = [], o_ProcessPath = [], o_ProcessPathRegex = [], o_PackageName = [], o_NetworkType = [],
      o_NetworkIsExpensive = False, o_NetworkIsConstrained = False, o_WIFISSID = [], o_WIFIBSSID = [],
      o_NetworkInterfaceAddress = [], o_DefaultInterfaceAddress = [], o_Invert = False\<rparr>"

definition no_action_match_options :: action_match_options where
  "no_action_match_options =
     match_options.extend no_match_options
       (action_match_options.fields [] 0 [] [] [] [] [] False False [] [] '''' [] [] [] [] False False)"

definition no_RawDefaultRule :: RawDefaultRule where
  "no_RawDefaultRule = action_match_options.extend no_action_match_options (RawDefaultRule.fields [] [])"

definition no_RawDefaultDNSRule :: RawDefaultDNSRule where
  "no_RawDefaultDNSRule =
     action_match_options.extend no_action_match_options (RawDefaultDNSRule.fields [] [] False None [] [] [] False False)"

definition no_DefaultHeadlessRule :: DefaultHeadlessRule where
  "no_DefaultHeadlessRule =
     match_options.extend no_match_options (DefaultHeadlessRule.fields [] None None None [] None)"

definition no_RouteActionOptions :: RouteActionOptions where
  "no_RouteActionOptions =
     \<lparr>ra_Outbound = '''', ra_OverrideAddress = '''', ra_OverridePort = 0, ra_NetworkStrategy = None, ra_FallbackDelay = 0,
      ra_UDPDisableDomainUnmapping = False, ra_UDPConnect = False, ra_UDPTimeout = 0, ra_TLSFragment = False,
      ra_TLSFragmentFallbackDelay = 0, ra_TLSRecordFragment = False\<rparr>"

definition no_DNSOptions :: DNSOptions where
  "no_DNSOptions =
     \<lparr>do_Server = '''', do_Strategy = 0, do_DisableCache = False, do_RewriteTTL = None, do_ClientSubnet = None\<rparr>"

definition no_RejectActionOptions :: RejectActionOptions where
  "no_RejectActionOptions = \<lparr>rj_Method = '''', rj_NoDrop = False\<rparr>"

definition no_rule_action :: rule_action_options where
  "no_rule_action =
     \<lparr>Action = '''', RouteOptions = no_RouteActionOptions, RouteOptionsOptions = no_RouteActionOptions,
      DirectOptions = '''', BypassOptions = no_RouteActionOptions, RejectOptions = no_RejectActionOptions,
      SniffOptions = \<lparr>sn_Sniffer = [], sn_Timeout = 0\<rparr>, ResolveOptions = no_DNSOptions\<rparr>"

definition no_dns_rule_action :: dns_rule_action_options where
  "no_dns_rule_action =
     \<lparr>dns_Action = '''', dns_RouteOptions = no_DNSOptions, dns_RouteOptionsOptions = no_DNSOptions,
      dns_RejectOptions = no_RejectActionOptions,
      dns_PredefinedOptions = \<lparr>pd_Rcode = None, pd_Answer = [], pd_Ns = [], pd_Extra = []\<rparr>\<rparr>"

section \<open>Checks\<close>

definition default_IsValid :: "RawDefaultRule \<Rightarrow> rule_action_options \<Rightarrow> bool" where
  "default_IsValid r a \<longleftrightarrow> \<not> (r = no_RawDefaultRule\<lparr>o_Invert := o_Invert r\<rparr> \<and> a = no_rule_action)"

definition default_dns_IsValid :: "RawDefaultDNSRule \<Rightarrow> dns_rule_action_options \<Rightarrow> bool" where
  "default_dns_IsValid r a \<longleftrightarrow> \<not> (r = no_RawDefaultDNSRule\<lparr>o_Invert := o_Invert r\<rparr> \<and> a = no_dns_rule_action)"

definition default_headless_IsValid :: "DefaultHeadlessRule \<Rightarrow> unit \<Rightarrow> bool" where
  "default_headless_IsValid r a \<longleftrightarrow> \<not> (r = no_DefaultHeadlessRule\<lparr>o_Invert := o_Invert r\<rparr>)"

text \<open>
  \<open>IsValid\<close> of a logical rule asks its sub-rules in order and stops at the first that is not valid;
  asking a rule of a type that is not in \<open>types\<close> or logical panics.
\<close>

fun all_go :: "('x \<Rightarrow> bool go) \<Rightarrow> 'x list \<Rightarrow> bool go" where
  "all_go f [] = Ret True"
| "all_go f (x # xs) = go_bind (f x) (\<lambda>ok. if ok then all_go f xs else Ret False)"

lemma all_go_cong [fundef_cong]: "xs = ys \<Longrightarrow> (\<And>x. x \<in> set ys \<Longrightarrow> f x = g x) \<Longrightarrow> all_go f xs = all_go g ys"
  by (induction ys arbitrary: xs) (auto cong: if_cong)

fun options_IsValid :: "string list \<Rightarrow> ('d \<Rightarrow> 'a \<Rightarrow> bool) \<Rightarrow> ('d, 'a) rule_options \<Rightarrow> bool go" where
  "options_IsValid types valid (RuleOptions ty d a mode rules neg la) =
     (if ty \<in> set types then Ret (valid d a)
      else if ty = RuleTypeLogical then
        (if rules = [] then Ret False else all_go (options_IsValid types valid) rules)
      else Panic (ENew [''unknown rule type: '', ty]))"

definition logical_IsValid ::
    "string list \<Rightarrow> ('d \<Rightarrow> 'a \<Rightarrow> bool) \<Rightarrow> ('d, 'a) rule_options list \<Rightarrow> bool go" where
  "logical_IsValid types valid rules =
     (if rules = [] then Ret False else all_go (options_IsValid types valid) rules)"

text \<open>A sub-rule has no action of its own: \<open>none\<close> is the action in which nothing is set.\<close>

definition ruleHasConfiguredAction :: "'a \<Rightarrow> ('d, 'a) rule_options \<Rightarrow> bool" where
  "ruleHasConfiguredAction none r \<longleftrightarrow>
     (if ro_Type r = '''' \<or> ro_Type r = RuleTypeDefault then ro_Action r \<noteq> none
      else ro_Type r = RuleTypeLogical \<and> ro_LogicalAction r \<noteq> none)"

definition sub_rule :: "nat \<Rightarrow> go_error \<Rightarrow> go_error" where
  "sub_rule i e = ECause e [''sub rule['', dec i, '']'']"

text \<open>The first error of a loop over sub-rules.\<close>

fun first_error :: "nat \<Rightarrow> ('x \<Rightarrow> go_error option) \<Rightarrow> 'x list \<Rightarrow> go_error option" where
  "first_error i f [] = None"
| "first_error i f (x # xs) =
     (case f x of Some e \<Rightarrow> Some (sub_rule i e) | None \<Rightarrow> first_error (Suc i) f xs)"

lemma first_error_cong [fundef_cong]:
  "i = j \<Longrightarrow> xs = ys \<Longrightarrow> (\<And>x. x \<in> set ys \<Longrightarrow> f x = g x) \<Longrightarrow> first_error i f xs = first_error j g ys"
proof (induction ys arbitrary: xs i j)
  case (Cons y ys)
  then have "first_error (Suc j) f ys = first_error (Suc j) g ys" by simp
  with Cons show ?case by (auto split: option.split)
qed simp

fun validateNoNestedRuleActions :: "'a \<Rightarrow> go_error \<Rightarrow> bool \<Rightarrow> ('d, 'a) rule_options \<Rightarrow> go_error option" where
  "validateNoNestedRuleActions none unsupported nested (RuleOptions ty d a mode rules neg la) =
     (if nested \<and> ruleHasConfiguredAction none (RuleOptions ty d a mode rules neg la) then Some unsupported
      else if ty \<noteq> RuleTypeLogical then None
      else first_error 0 (validateNoNestedRuleActions none unsupported True) rules)"

definition RouteRuleActionNestedUnsupported :: go_error where
  "RouteRuleActionNestedUnsupported = ENew [''rule action is not supported in nested rules'']"

definition DNSRuleActionNestedUnsupported :: go_error where
  "DNSRuleActionNestedUnsupported = ENew [''DNS rule action is not supported in nested rules'']"

section \<open>Default rules\<close>

datatype item_group =
    InItems | InSourceAddress | InSourcePort | InDestinationAddress | InDestinationIPCIDR | InDestinationPort

fun add_item :: "item_group \<Rightarrow> rule_item \<Rightarrow> abstractDefaultRule \<Rightarrow> abstractDefaultRule" where
  "add_item InItems it r = r\<lparr>items := items r @ [it], allItems := allItems r @ [it]\<rparr>"
| "add_item InSourceAddress it r = r\<lparr>sourceAddressItems := sourceAddressItems r @ [it], allItems := allItems r @ [it]\<rparr>"
| "add_item InSourcePort it r = r\<lparr>sourcePortItems := sourcePortItems r @ [it], allItems := allItems r @ [it]\<rparr>"
| "add_item InDestinationAddress it r =
     r\<lparr>destinationAddressItems := destinationAddressItems r @ [it], allItems := allItems r @ [it]\<rparr>"
| "add_item InDestinationIPCIDR it r =
     r\<lparr>destinationIPCIDRItems := destinationIPCIDRItems r @ [it], allItems := allItems r @ [it]\<rparr>"
| "add_item InDestinationPort it r =
     r\<lparr>destinationPortItems := destinationPortItems r @ [it], allItems := allItems r @ [it]\<rparr>"

text \<open>
  A constructor is a sequence of steps, each under the condition that its option is set: adding an
  item, adding an item whose construction may fail, or refusing the option.
\<close>

datatype build_step =
    Put bool item_group rule_item
  | Try bool item_group "go_error + rule_item"
  | Refuse bool go_error

fun build_steps :: "build_step list \<Rightarrow> abstractDefaultRule \<Rightarrow> go_error + abstractDefaultRule" where
  "build_steps [] r = Inr r"
| "build_steps (Put c g it # ss) r = build_steps ss (if c then add_item g it r else r)"
| "build_steps (Try c g x # ss) r =
     (if c then (case x of Inl e \<Rightarrow> Inl e | Inr it \<Rightarrow> build_steps ss (add_item g it r)) else build_steps ss r)"
| "build_steps (Refuse c e # ss) r = (if c then Inl e else build_steps ss r)"

definition empty_rule :: "bool \<Rightarrow> abstractDefaultRule" where
  "empty_rule neg =
     \<lparr>items = [], sourceAddressItems = [], sourcePortItems = [], destinationAddressItems = [],
      destinationIPCIDRItems = [], destinationPortItems = [], allItems = [], invert = neg\<rparr>"

definition cause :: "string \<Rightarrow> go_error + 'x \<Rightarrow> go_error + 'x" where
  "cause msg x = map_sum (\<lambda>e. ECause e [msg]) id x"

definition removed_database :: "string \<Rightarrow> go_error" where
  "removed_database name =
     ENew [name, '' database is deprecated in sing-box 1.8.0 and removed in sing-box 1.12.0'']"

text \<open>The rule-set item of options that name rule sets, or the error of the option that was renamed.\<close>

definition rule_set_of :: "bool \<Rightarrow> 'x action_match_options_scheme \<Rightarrow> go_error + ruleSetItem option" where
  "rule_set_of acceptEmpty opts =
     (if o_RuleSet opts = [] then Inr None
      else if o_RulesetIPCIDRMatchSource opts then
        Inl (ENew [''rule_set_ipcidr_match_source is deprecated in sing-box 1.10.0 and removed in sing-box 1.11.0''])
      else
        Inr (Some \<lparr>tagList = o_RuleSet opts, setList = [], ipCidrMatchSource = o_RuleSetIPCIDRMatchSource opts,
          ipCidrAcceptEmpty = acceptEmpty\<rparr>))"

definition port_steps :: "'x match_options_scheme \<Rightarrow> build_step list" where
  "port_steps opts =
     [Put (o_SourcePort opts \<noteq> []) InSourcePort (PortItem True (o_SourcePort opts)),
      Try (o_SourcePortRange opts \<noteq> []) InSourcePort
        (cause ''source_port_range'' (NewPortRangeItem True (o_SourcePortRange opts))),
      Put (o_Port opts \<noteq> []) InDestinationPort (PortItem False (o_Port opts)),
      Try (o_PortRange opts \<noteq> []) InDestinationPort (cause ''port_range'' (NewPortRangeItem False (o_PortRange opts)))]"

definition process_steps :: "rule_libs \<Rightarrow> 'x match_options_scheme \<Rightarrow> build_step list" where
  "process_steps L opts =
     [Put (o_ProcessName opts \<noteq> []) InItems (ProcessItem (o_ProcessName opts)),
      Put (o_ProcessPath opts \<noteq> []) InItems (ProcessPathItem (o_ProcessPath opts)),
      Try (o_ProcessPathRegex opts \<noteq> []) InItems
        (cause ''process_path_regex'' (NewProcessPathRegexItem L (o_ProcessPathRegex opts))),
      Put (o_PackageName opts \<noteq> []) InItems (PackageNameItem (o_PackageName opts))]"

definition network_steps :: "'x match_options_scheme \<Rightarrow> build_step list" where
  "network_steps opts =
     [Put (o_NetworkType opts \<noteq> []) InItems (NetworkTypeItem (o_NetworkType opts)),
      Put (o_NetworkIsExpensive opts) InItems NetworkIsExpensiveItem,
      Put (o_NetworkIsConstrained opts) InItems NetworkIsConstrainedItem,
      Put (o_WIFISSID opts \<noteq> []) InItems (WIFISSIDItem (o_WIFISSID opts)),
      Put (o_WIFIBSSID opts \<noteq> []) InItems (WIFIBSSIDItem (o_WIFIBSSID opts))]"

definition interface_steps :: "'x match_options_scheme \<Rightarrow> build_step list" where
  "interface_steps opts =
     [Put (o_NetworkInterfaceAddress opts \<noteq> []) InItems (NetworkInterfaceAddressItem (o_NetworkInterfaceAddress opts)),
      Put (o_DefaultInterfaceAddress opts \<noteq> []) InItems (DefaultInterfaceAddressItem (o_DefaultInterfaceAddress opts))]"

definition ip_version_steps :: "int \<Rightarrow> build_step list" where
  "ip_version_steps v =
     [Put (v = 4 \<or> v = 6) InItems (IPVersionItem (v = 6)),
      Refuse (v > 0 \<and> v \<noteq> 4 \<and> v \<noteq> 6) (ENew [''invalid ip version: '', itoa v])]"

definition geo_steps :: "'x action_match_options_scheme \<Rightarrow> build_step list" where
  "geo_steps opts =
     [Refuse (o_Geosite opts \<noteq> []) (removed_database ''geosite''),
      Refuse (o_SourceGeoIP opts \<noteq> []) (removed_database ''geoip''),
      Refuse (o_GeoIP opts \<noteq> []) (removed_database ''geoip'')]"

text \<open>The steps of \<open>NewDefaultRule\<close>, in its order.\<close>

definition default_rule_steps :: "rule_libs \<Rightarrow> RawDefaultRule \<Rightarrow> build_step list" where
  "default_rule_steps L opts =
     [Put (o_Inbound opts \<noteq> []) InItems (InboundItem (o_Inbound opts))] @
     ip_version_steps (o_IPVersion opts) @
     [Put (o_Network opts \<noteq> []) InItems (NetworkItem (o_Network opts)),
      Put (o_AuthUser opts \<noteq> []) InItems (AuthUserItem (o_AuthUser opts)),
      Put (o_Protocol opts \<noteq> []) InItems (ProtocolItem (o_Protocol opts)),
      Put (o_Client opts \<noteq> []) InItems (ClientItem (o_Client opts)),
      Try (o_Domain opts \<noteq> [] \<or> o_DomainSuffix opts \<noteq> []) InDestinationAddress
        (NewDomainItem L (o_Domain opts) (o_DomainSuffix opts)),
      Put (o_DomainKeyword opts \<noteq> []) InDestinationAddress (DomainKeywordItem (o_DomainKeyword opts)),
      Try (o_DomainRegex opts \<noteq> []) InDestinationAddress (NewDomainRegexItem L (o_DomainRegex opts))] @
     geo_steps opts @
     [Try (o_SourceIPCIDR opts \<noteq> []) InSourceAddress (cause ''source_ip_cidr'' (NewIPCIDRItem L True (o_SourceIPCIDR opts))),
      Put (o_SourceIPIsPrivate opts) InSourceAddress (IPIsPrivateItem True),
      Try (o_IPCIDR opts \<noteq> []) InDestinationIPCIDR (cause ''ipcidr'' (NewIPCIDRItem L False (o_IPCIDR opts))),
      Put (o_IPIsPrivate opts) InDestinationIPCIDR (IPIsPrivateItem False)] @
     port_steps opts @ process_steps L opts @
     [Put (o_User opts \<noteq> []) InItems (UserItem (o_User opts)),
      Put (o_UserID opts \<noteq> []) InItems (UserIdItem (o_UserID opts)),
      Put (o_ClashMode opts \<noteq> '''') InItems (ClashModeItem (o_ClashMode opts))] @
     network_steps opts @
     [Put (o_InterfaceAddress opts \<noteq> []) InItems (InterfaceAddressItem (o_InterfaceAddress opts))] @
     interface_steps opts @
     [Put (o_SourceMACAddress opts \<noteq> []) InItems (NewSourceMACAddressItem (o_SourceMACAddress opts)),
      Put (o_SourceHostname opts \<noteq> []) InItems (SourceHostnameItem (o_SourceHostname opts)),
      Put (o_PreferredBy opts \<noteq> []) InItems (PreferredByItem (o_PreferredBy opts) [])]"

text \<open>The steps of \<open>NewDefaultDNSRule\<close>, in its order.\<close>

definition deprecated_option :: "string \<Rightarrow> go_error" where
  "deprecated_option name = ENew [''deprecated option: '', name]"

definition default_dns_rule_steps :: "rule_libs \<Rightarrow> bool \<Rightarrow> RawDefaultDNSRule \<Rightarrow> build_step list" where
  "default_dns_rule_steps L legacyDNSMode opts =
     [Put (o_Inbound opts \<noteq> []) InItems (InboundItem (o_Inbound opts))] @
     ip_version_steps (o_IPVersion opts) @
     [Put (o_QueryType opts \<noteq> []) InItems (QueryTypeItem (o_QueryType opts)),
      Put (o_Network opts \<noteq> []) InItems (NetworkItem (o_Network opts)),
      Put (o_AuthUser opts \<noteq> []) InItems (AuthUserItem (o_AuthUser opts)),
      Put (o_Protocol opts \<noteq> []) InItems (ProtocolItem (o_Protocol opts)),
      Try (o_Domain opts \<noteq> [] \<or> o_DomainSuffix opts \<noteq> []) InDestinationAddress
        (NewDomainItem L (o_Domain opts) (o_DomainSuffix opts)),
      Put (o_DomainKeyword opts \<noteq> []) InDestinationAddress (DomainKeywordItem (o_DomainKeyword opts)),
      Try (o_DomainRegex opts \<noteq> []) InDestinationAddress
        (cause ''domain_regex'' (NewDomainRegexItem L (o_DomainRegex opts)))] @
     geo_steps opts @
     [Try (o_SourceIPCIDR opts \<noteq> []) InSourceAddress (cause ''source_ip_cidr'' (NewIPCIDRItem L True (o_SourceIPCIDR opts))),
      Try (o_IPCIDR opts \<noteq> []) InDestinationIPCIDR (cause ''ip_cidr'' (NewIPCIDRItem L False (o_IPCIDR opts))),
      Put (o_SourceIPIsPrivate opts) InSourceAddress (IPIsPrivateItem True),
      Put (o_IPIsPrivate opts) InDestinationIPCIDR (IPIsPrivateItem False),
      Refuse (o_IPAcceptAny opts \<and> \<not> legacyDNSMode) (deprecated_option ''ip_accept_any''),
      Put (o_IPAcceptAny opts) InDestinationIPCIDR IPAcceptAnyItem,
      Put (o_ResponseRcode opts \<noteq> None) InItems
        (DNSResponseRCodeItem (case o_ResponseRcode opts of Some c \<Rightarrow> c | None \<Rightarrow> 0)),
      Put (o_ResponseAnswer opts \<noteq> []) InItems (DNSResponseRecordItem ResponseAnswer (o_ResponseAnswer opts)),
      Put (o_ResponseNs opts \<noteq> []) InItems (DNSResponseRecordItem ResponseNs (o_ResponseNs opts)),
      Put (o_ResponseExtra opts \<noteq> []) InItems (DNSResponseRecordItem ResponseExtra (o_ResponseExtra opts))] @
     port_steps opts @ process_steps L opts @
     [Put (o_User opts \<noteq> []) InItems (UserItem (o_User opts)),
      Put (o_UserID opts \<noteq> []) InItems (UserIdItem (o_UserID opts)),
      Put (o_Outbound opts \<noteq> []) InItems (OutboundItem (o_Outbound opts)),
      Put (o_ClashMode opts \<noteq> '''') InItems (ClashModeItem (o_ClashMode opts))] @
     network_steps opts @
     [Put (o_InterfaceAddress opts \<noteq> []) InItems (InterfaceAddressItem (o_InterfaceAddress opts))] @
     interface_steps opts @
     [Put (o_SourceMACAddress opts \<noteq> []) InItems (NewSourceMACAddressItem (o_SourceMACAddress opts)),
      Put (o_SourceHostname opts \<noteq> []) InItems (SourceHostnameItem (o_SourceHostname opts)),
      Refuse (o_RuleSetIPCIDRAcceptEmpty opts \<and> \<not> legacyDNSMode) (deprecated_option ''rule_set_ip_cidr_accept_empty'')]"

text \<open>The steps of \<open>NewDefaultHeadlessRule\<close>, in its order.\<close>

definition default_headless_rule_steps :: "rule_libs \<Rightarrow> DefaultHeadlessRule \<Rightarrow> build_step list" where
  "default_headless_rule_steps L opts =
     [Put (h_QueryType opts \<noteq> []) InItems (QueryTypeItem (h_QueryType opts)),
      Put (o_Network opts \<noteq> []) InItems (NetworkItem (o_Network opts)),
      (if o_Domain opts \<noteq> [] \<or> o_DomainSuffix opts \<noteq> []
       then Try True InDestinationAddress (NewDomainItem L (o_Domain opts) (o_DomainSuffix opts))
       else Put (h_DomainMatcher opts \<noteq> None) InDestinationAddress (DomainItem (the (h_DomainMatcher opts)))),
      Put (o_DomainKeyword opts \<noteq> []) InDestinationAddress (DomainKeywordItem (o_DomainKeyword opts)),
      Try (o_DomainRegex opts \<noteq> []) InDestinationAddress
        (cause ''domain_regex'' (NewDomainRegexItem L (o_DomainRegex opts))),
      (if o_SourceIPCIDR opts \<noteq> []
       then Try True InSourceAddress (cause ''source_ip_cidr'' (NewIPCIDRItem L True (o_SourceIPCIDR opts)))
       else Put (h_SourceIPSet opts \<noteq> None) InSourceAddress (IPCIDRItem True (the (h_SourceIPSet opts)))),
      (if o_IPCIDR opts \<noteq> []
       then Try True InDestinationIPCIDR (cause ''ipcidr'' (NewIPCIDRItem L False (o_IPCIDR opts)))
       else Put (h_IPSet opts \<noteq> None) InDestinationIPCIDR (IPCIDRItem False (the (h_IPSet opts))))] @
     port_steps opts @ process_steps L opts @ network_steps opts @ interface_steps opts @
     [(if h_AdGuardDomain opts \<noteq> []
       then Put True InDestinationAddress (AdGuardDomainItem (NewAdGuardMatcher L (h_AdGuardDomain opts)))
       else Put (h_AdGuardDomainMatcher opts \<noteq> None) InDestinationAddress
         (AdGuardDomainItem (the (h_AdGuardDomainMatcher opts))))]"

text \<open>
  \<open>NewDefaultRule\<close>, \<open>NewDefaultDNSRule\<close> and \<open>NewDefaultHeadlessRule\<close>. A rule with an action is the
  action beside the conditions; an action may be nil.
\<close>

type_synonym action_rule = "rule_action option \<times> routing_rule"

definition NewDefaultRule :: "rule_libs \<Rightarrow> RawDefaultRule \<Rightarrow> rule_action_options \<Rightarrow> (go_error + action_rule) go" where
  "NewDefaultRule L opts a =
     go_bind (NewRuleAction L a) (\<lambda>action. Ret
       (case action of
          Inl e \<Rightarrow> Inl (ECause e [''action''])
        | Inr act \<Rightarrow>
            (case build_steps (default_rule_steps L opts) (empty_rule (o_Invert opts)) of
               Inl e \<Rightarrow> Inl e
             | Inr r \<Rightarrow>
                 (case rule_set_of False opts of
                    Inl e \<Rightarrow> Inl e
                  | Inr rs \<Rightarrow> Inr (act, DefaultRule r rs False)))))"

definition NewDefaultDNSRule ::
    "rule_libs \<Rightarrow> RawDefaultDNSRule \<Rightarrow> dns_rule_action_options \<Rightarrow> bool \<Rightarrow> (go_error + action_rule) go" where
  "NewDefaultDNSRule L opts a legacyDNSMode =
     go_bind (NewDNSRuleAction a) (\<lambda>act. Ret
       (case build_steps (default_dns_rule_steps L legacyDNSMode opts) (empty_rule (o_Invert opts)) of
          Inl e \<Rightarrow> Inl e
        | Inr r \<Rightarrow>
            (case rule_set_of (o_RuleSetIPCIDRAcceptEmpty opts) opts of
               Inl e \<Rightarrow> Inl e
             | Inr rs \<Rightarrow> Inr (act, DefaultRule r rs (o_MatchResponse opts)))))"

definition NewDefaultHeadlessRule :: "rule_libs \<Rightarrow> DefaultHeadlessRule \<Rightarrow> go_error + headless_rule" where
  "NewDefaultHeadlessRule L opts =
     map_sum id (\<lambda>r. DefaultRule r None False)
       (build_steps (default_headless_rule_steps L opts) (empty_rule (o_Invert opts)))"

section \<open>Rules\<close>

text \<open>A loop over the sub-rules of a logical rule, which wraps an error with the index.\<close>

fun sub_rules :: "nat \<Rightarrow> ('x \<Rightarrow> (go_error + 'y) go) \<Rightarrow> 'x list \<Rightarrow> (go_error + 'y list) go" where
  "sub_rules i f [] = Ret (Inr [])"
| "sub_rules i f (x # xs) =
     go_bind (f x) (\<lambda>y. case y of
         Inl e \<Rightarrow> Ret (Inl (sub_rule i e))
       | Inr y \<Rightarrow> go_bind (sub_rules (Suc i) f xs) (\<lambda>ys. Ret (map_sum id (\<lambda>ys. y # ys) ys)))"

lemma sub_rules_cong [fundef_cong]:
  "i = j \<Longrightarrow> xs = ys \<Longrightarrow> (\<And>x. x \<in> set ys \<Longrightarrow> f x = g x) \<Longrightarrow> sub_rules i f xs = sub_rules j g ys"
proof (induction ys arbitrary: xs i j)
  case (Cons y ys)
  then have "sub_rules (Suc j) f ys = sub_rules (Suc j) g ys" by simp
  with Cons show ?case by simp
qed simp

definition known_mode :: "string \<Rightarrow> bool" where
  "known_mode mode \<longleftrightarrow> mode = LogicalTypeAnd \<or> mode = LogicalTypeOr"

definition missing_conditions :: go_error where
  "missing_conditions = ENew [''missing conditions'']"

text \<open>
  \<open>NewRule\<close> with \<open>NewLogicalRule\<close>: the action is built before the mode is looked at, each sub-rule is
  checked for actions before it is built.
\<close>

fun NewRule :: "rule_libs \<Rightarrow> bool \<Rightarrow> (RawDefaultRule, rule_action_options) rule_options \<Rightarrow> (go_error + action_rule) go" where
  "NewRule L checkOutbound (RuleOptions ty d a mode rules neg la) =
     (if ty = '''' \<or> ty = RuleTypeDefault then
        (if \<not> default_IsValid d a then Ret (Inl missing_conditions)
         else if (Action a = '''' \<or> Action a = ''route'') \<and> ra_Outbound (RouteOptions a) = '''' \<and> checkOutbound
         then Ret (Inl (ENew [''missing outbound field'']))
         else NewDefaultRule L d a)
      else if ty = RuleTypeLogical then
        go_bind (logical_IsValid [RuleTypeDefault] default_IsValid rules) (\<lambda>ok.
          if \<not> ok then Ret (Inl missing_conditions)
          else if (Action la = '''' \<or> Action la = ''route'') \<and> ra_Outbound (RouteOptions la) = '''' \<and> checkOutbound
          then Ret (Inl (ENew [''missing outbound field'']))
          else
            go_bind (NewRuleAction L la) (\<lambda>action.
              case action of
                Inl e \<Rightarrow> Ret (Inl (ECause e [''action'']))
              | Inr act \<Rightarrow>
                  if \<not> known_mode mode then Ret (Inl (ENew [''unknown logical mode: '', mode]))
                  else
                    go_bind
                      (sub_rules 0
                        (\<lambda>r. case validateNoNestedRuleActions no_rule_action RouteRuleActionNestedUnsupported True r of
                               Some e \<Rightarrow> Ret (Inl e)
                             | None \<Rightarrow> NewRule L False r) rules)
                      (\<lambda>rs. Ret (map_sum id (\<lambda>rs. (act, LogicalRule mode (map snd rs) neg)) rs))))
      else Ret (Inl (ENew [''unknown rule type: '', ty])))"

text \<open>\<open>NewDNSRule\<close> with \<open>NewLogicalDNSRule\<close>.\<close>

definition validateDNSRuleAction :: "dns_rule_action_options \<Rightarrow> go_error option" where
  "validateDNSRuleAction a =
     (if dns_Action a = ''reject'' \<and> rj_Method (dns_RejectOptions a) = ''reply''
      then Some (ENew [''reject method `reply` is not supported for DNS rules'']) else None)"

text \<open>The checks on the action both kinds of DNS rules start with.\<close>

definition check_dns_action :: "bool \<Rightarrow> dns_rule_action_options \<Rightarrow> go_error option" where
  "check_dns_action checkServer a =
     (if \<not> checkServer \<and> dns_Action a = ''evaluate''
      then Some (ENew [dns_Action a, '' is only allowed on top-level DNS rules''])
      else
        (case validateDNSRuleAction a of
           Some e \<Rightarrow> Some e
         | None \<Rightarrow>
             if dns_Action a \<in> {'''', ''route'', ''evaluate''} \<and> do_Server (dns_RouteOptions a) = '''' \<and> checkServer
             then Some (ENew [''missing server field'']) else None))"

fun NewDNSRule ::
    "rule_libs \<Rightarrow> bool \<Rightarrow> bool \<Rightarrow> (RawDefaultDNSRule, dns_rule_action_options) rule_options \<Rightarrow> (go_error + action_rule) go" where
  "NewDNSRule L legacyDNSMode checkServer (RuleOptions ty d a mode rules neg la) =
     (if ty = '''' \<or> ty = RuleTypeDefault then
        (if \<not> default_dns_IsValid d a then Ret (Inl missing_conditions)
         else
           (case check_dns_action checkServer a of
              Some e \<Rightarrow> Ret (Inl e)
            | None \<Rightarrow> NewDefaultDNSRule L d a legacyDNSMode))
      else if ty = RuleTypeLogical then
        go_bind (logical_IsValid [RuleTypeDefault] default_dns_IsValid rules) (\<lambda>ok.
          if \<not> ok then Ret (Inl missing_conditions)
          else
            (case check_dns_action checkServer la of
               Some e \<Rightarrow> Ret (Inl e)
             | None \<Rightarrow>
                 go_bind (NewDNSRuleAction la) (\<lambda>act.
                   if \<not> known_mode mode then Ret (Inl (ENew [''unknown logical mode: '', mode]))
                   else
                     go_bind
                       (sub_rules 0
                         (\<lambda>r. case validateNoNestedRuleActions no_dns_rule_action DNSRuleActionNestedUnsupported True r of
                                Some e \<Rightarrow> Ret (Inl e)
                              | None \<Rightarrow> NewDNSRule L legacyDNSMode False r) rules)
                       (\<lambda>rs. Ret (map_sum id (\<lambda>rs. (act, LogicalRule mode (map snd rs) neg)) rs)))))
      else Ret (Inl (ENew [''unknown rule type: '', ty])))"

text \<open>\<open>NewHeadlessRule\<close> with \<open>NewLogicalHeadlessRule\<close>.\<close>

fun NewHeadlessRule :: "rule_libs \<Rightarrow> (DefaultHeadlessRule, unit) rule_options \<Rightarrow> (go_error + headless_rule) go" where
  "NewHeadlessRule L (RuleOptions ty d a mode rules neg la) =
     (if ty = '''' \<or> ty = RuleTypeDefault then
        (if \<not> default_headless_IsValid d a then Ret (Inl missing_conditions)
         else Ret (NewDefaultHeadlessRule L d))
      else if ty = RuleTypeLogical then
        go_bind (logical_IsValid ['''', RuleTypeDefault] default_headless_IsValid rules) (\<lambda>ok.
          if \<not> ok then Ret (Inl missing_conditions)
          else if \<not> known_mode mode then Ret (Inl (ENew [''unknown logical mode: '', mode]))
          else go_bind (sub_rules 0 (NewHeadlessRule L) rules) (\<lambda>rs. Ret (map_sum id (\<lambda>rs. LogicalRule mode rs neg) rs)))
      else Ret (Inl (ENew [''unknown rule type: '', ty])))"

end
