(* ===== verification/RuleSemantics.thy ===== *)
theory RuleSemantics
  imports RuleEngine
begin

text \<open>
  What the matching of rules computes. \<open>rule_sat\<close> is the documented logic of a rule without rule
  sets, \<open>branches\<close> the branches of a rule set, and \<open>merge_rules\<close> a branch merged into the rule that
  includes the rule set.
\<close>

section \<open>Flags\<close>

definition flags :: "ruleMatchState set" where
  "flags = {ruleMatchSourceAddress, ruleMatchSourcePort, ruleMatchDestinationAddress, ruleMatchDestinationPort}"

lemmas flag_defs =
  ruleMatchSourceAddress_def ruleMatchSourcePort_def ruleMatchDestinationAddress_def ruleMatchDestinationPort_def

lemma state_has_or [simp]: "state_has (a OR b) f \<longleftrightarrow> state_has a f \<or> state_has b f"
proof -
  have "(a OR b) AND f = (a AND f) OR (b AND f)" by (simp add: bit_eq_iff bit_simps) blast
  then show ?thesis by (simp add: state_has_def or_eq_0_iff)
qed

lemma state_has_0 [simp]: "\<not> state_has 0 f"
  by (simp add: state_has_def)

lemma state_has_flag [simp]: "f \<in> flags \<Longrightarrow> g \<in> flags \<Longrightarrow> state_has f g \<longleftrightarrow> f = g"
  by (auto simp: flags_def flag_defs state_has_def)

lemma proper_flag [simp]: "f \<in> flags \<Longrightarrow> proper f"
  by (auto simp: flags_def flag_defs)

lemma flags_mem [simp]:
  "ruleMatchSourceAddress \<in> flags" "ruleMatchSourcePort \<in> flags"
  "ruleMatchDestinationAddress \<in> flags" "ruleMatchDestinationPort \<in> flags"
  by (simp_all add: flags_def)

lemma flags_distinct [simp]:
  "ruleMatchSourceAddress \<noteq> ruleMatchSourcePort" "ruleMatchSourceAddress \<noteq> ruleMatchDestinationAddress"
  "ruleMatchSourceAddress \<noteq> ruleMatchDestinationPort" "ruleMatchSourcePort \<noteq> ruleMatchDestinationAddress"
  "ruleMatchSourcePort \<noteq> ruleMatchDestinationPort" "ruleMatchDestinationAddress \<noteq> ruleMatchDestinationPort"
  by (simp_all add: flag_defs)

lemmas flags_distinct_sym [simp] = flags_distinct [symmetric]

section \<open>The marks of a context\<close>

lemmas item_match_defs =
  InboundItem_Match_def IPVersionItem_Match_def QueryTypeItem_Match_def NetworkItem_Match_def AuthUserItem_Match_def
  ProtocolItem_Match_def ClientItem_Match_def DomainItem_Match_def DomainKeywordItem_Match_def
  DomainRegexItem_Match_def AdGuardDomainItem_Match_def IPCIDRItem_Match_def IPIsPrivateItem_Match_def
  IPAcceptAnyItem_Match_def PortItem_Match_def PortRangeItem_Match_def ProcessItem_Match_def
  ProcessPathItem_Match_def ProcessPathRegexItem_Match_def PackageNameItem_Match_def UserItem_Match_def
  UserIdItem_Match_def OutboundItem_Match_def SourceMACAddressItem_Match_def SourceHostnameItem_Match_def
  PreferredByItem_Match_def DNSResponseRCodeItem_Match_def DNSResponseRecordItem_Match_def domain_host_def
  DNSResponseAddressesForMatch_def

lemma item_Match_DidMatch [simp]: "item_Match E it (m\<lparr>ic_DidMatch := d\<rparr>) = item_Match E it m"
  by (cases it) (simp_all add: item_match_defs)

lemma matchAnyItem_DidMatch [simp]: "matchAnyItem E its (m\<lparr>ic_DidMatch := d\<rparr>) = matchAnyItem E its m"
  by (simp add: matchAnyItem_def)

lemma matchAnyItem_append [simp]: "matchAnyItem E (xs @ ys) m \<longleftrightarrow> matchAnyItem E xs m \<or> matchAnyItem E ys m"
  by (auto simp: matchAnyItem_def)

lemma matchAnyItem_Nil [simp]: "\<not> matchAnyItem E [] m"
  by (simp add: matchAnyItem_def)

text \<open>The items a rule has for a condition in a context.\<close>

definition flag_items :: "abstractDefaultRule \<Rightarrow> InboundContext \<Rightarrow> ruleMatchState \<Rightarrow> rule_item list" where
  "flag_items r m f =
     (if f = ruleMatchSourceAddress then
        sourceAddressItems r @ (if destinationIPCIDRMatchesSource r m then destinationIPCIDRItems r else [])
      else if f = ruleMatchSourcePort then sourcePortItems r
      else if f = ruleMatchDestinationAddress then
        destinationAddressItems r @ (if destinationIPCIDRMatchesDestination r m then destinationIPCIDRItems r else [])
      else destinationPortItems r)"

lemma matches_DidMatch [simp]:
  "destinationIPCIDRMatchesSource r (m\<lparr>ic_DidMatch := d\<rparr>) = destinationIPCIDRMatchesSource r m"
  "destinationIPCIDRMatchesDestination r (m\<lparr>ic_DidMatch := d\<rparr>) = destinationIPCIDRMatchesDestination r m"
  by (simp_all add: destinationIPCIDRMatchesSource_def destinationIPCIDRMatchesDestination_def)

lemma flag_items_DidMatch [simp]: "flag_items r (m\<lparr>ic_DidMatch := d\<rparr>) f = flag_items r m f"
  by (simp add: flag_items_def)

lemma allowed_state_flags: "allowed_state r m st \<longleftrightarrow> (\<forall>f \<in> flags. flag_items r m f = [] \<or> state_has st f)"
proof -
  have dip: "destinationIPCIDRItems r \<noteq> []" if "destinationIPCIDRMatchesSource r m \<or> destinationIPCIDRMatchesDestination r m"
    using that by (auto simp: destinationIPCIDRMatchesSource_def destinationIPCIDRMatchesDestination_def)
  have "requiresSourceAddressMatch r m \<longleftrightarrow> flag_items r m ruleMatchSourceAddress \<noteq> []"
    "requiresDestinationAddressMatch r m \<longleftrightarrow> flag_items r m ruleMatchDestinationAddress \<noteq> []"
    "sourcePortItems r = flag_items r m ruleMatchSourcePort"
    "destinationPortItems r = flag_items r m ruleMatchDestinationPort"
    using dip by (simp_all add: requiresSourceAddressMatch_def requiresDestinationAddressMatch_def flag_items_def)
  then show ?thesis by (simp add: allowed_state_def flags_def)
qed

lemma allowed_state_DidMatch [simp]: "allowed_state r (m\<lparr>ic_DidMatch := d\<rparr>) = allowed_state r m"
  by (rule ext) (simp add: allowed_state_flags)

section \<open>Groups\<close>

text \<open>
  What a step over the groups does to the context and the state: it may only mark the context, and it
  adds the flags whose condition holds.
\<close>

definition groups_step :: "(group_state \<Rightarrow> group_state) \<Rightarrow> bool \<Rightarrow> (InboundContext \<Rightarrow> ruleMatchState \<Rightarrow> bool) \<Rightarrow> bool" where
  "groups_step g present P \<longleftrightarrow>
     (\<forall>m st. fst (g (m, st)) = m\<lparr>ic_DidMatch := ic_DidMatch m \<or> present\<rparr> \<and>
        (proper st \<longrightarrow> proper (snd (g (m, st)))) \<and>
        (\<forall>f \<in> flags. state_has (snd (g (m, st))) f \<longleftrightarrow> state_has st f \<or> P m f))"

lemma ask_group_step:
  assumes "f \<in> flags"
  shows "groups_step (ask_group E present its f) present (\<lambda>m f'. f' = f \<and> present \<and> matchAnyItem E its m)"
  using assms by (auto simp: groups_step_def ask_group_def Let_def intro: proper_or)

lemma ask_missing_step:
  assumes "f \<in> flags"
  shows "groups_step (ask_missing E present its f) present (\<lambda>m f'. f' = f \<and> present \<and> matchAnyItem E its m)"
  using assms by (auto simp: groups_step_def ask_missing_def ask_group_def Let_def intro: proper_or)

lemma groups_step_comp:
  assumes "groups_step g p P" "groups_step h q Q" "\<And>m d f. Q (m\<lparr>ic_DidMatch := d\<rparr>) f = Q m f"
  shows "groups_step (\<lambda>s. h (g s)) (p \<or> q) (\<lambda>m f. P m f \<or> Q m f)"
  unfolding groups_step_def
proof (intro allI)
  fix m st
  obtain m1 st1 where g: "g (m, st) = (m1, st1)" by fastforce
  with assms(1) [unfolded groups_step_def, rule_format, of m st]
    assms(2) [unfolded groups_step_def, rule_format, of m1 st1]
  show "fst (h (g (m, st))) = m\<lparr>ic_DidMatch := ic_DidMatch m \<or> (p \<or> q)\<rparr> \<and>
     (proper st \<longrightarrow> proper (snd (h (g (m, st))))) \<and>
     (\<forall>f \<in> flags. state_has (snd (h (g (m, st)))) f \<longleftrightarrow> state_has st f \<or> (P m f \<or> Q m f))"
    by (auto simp: assms(3))
qed

lemma group_condition:
  assumes "f \<in> flags"
  shows "matchAnyItem E (flag_items r m f) m \<longleftrightarrow>
    ((((f = ruleMatchSourceAddress \<and> sourceAddressItems r \<noteq> [] \<and> matchAnyItem E (sourceAddressItems r) m \<or>
       f = ruleMatchSourceAddress \<and> destinationIPCIDRMatchesSource r m \<and> matchAnyItem E (destinationIPCIDRItems r) m) \<or>
       f = ruleMatchSourcePort \<and> sourcePortItems r \<noteq> [] \<and> matchAnyItem E (sourcePortItems r) m) \<or>
       f = ruleMatchDestinationAddress \<and> destinationAddressItems r \<noteq> [] \<and> matchAnyItem E (destinationAddressItems r) m) \<or>
       f = ruleMatchDestinationAddress \<and> destinationIPCIDRMatchesDestination r m \<and>
         matchAnyItem E (destinationIPCIDRItems r) m) \<or>
       f = ruleMatchDestinationPort \<and> destinationPortItems r \<noteq> [] \<and> matchAnyItem E (destinationPortItems r) m"
  using assms by (auto simp: flags_def flag_items_def)

text \<open>The groups of a default rule together: every flag whose items match is added.\<close>

lemma base_state_step:
  assumes "base_state E r m st = (m', st')"
  shows "\<exists>d. m' = m\<lparr>ic_DidMatch := d\<rparr>" "proper st \<Longrightarrow> proper st'"
    "f \<in> flags \<Longrightarrow> state_has st' f \<longleftrightarrow> state_has st f \<or> matchAnyItem E (flag_items r m f) m"
proof -
  note steps = groups_step_comp [OF groups_step_comp [OF groups_step_comp [OF groups_step_comp [OF groups_step_comp]]]]
  have "\<exists>d. groups_step (\<lambda>s.
      ask_group E (destinationPortItems r \<noteq> []) (destinationPortItems r) ruleMatchDestinationPort
       (ask_missing E (destinationIPCIDRMatchesDestination r m) (destinationIPCIDRItems r) ruleMatchDestinationAddress
       (ask_group E (destinationAddressItems r \<noteq> []) (destinationAddressItems r) ruleMatchDestinationAddress
       (ask_group E (sourcePortItems r \<noteq> []) (sourcePortItems r) ruleMatchSourcePort
       (ask_missing E (destinationIPCIDRMatchesSource r m) (destinationIPCIDRItems r) ruleMatchSourceAddress
       (ask_group E (sourceAddressItems r \<noteq> []) (sourceAddressItems r) ruleMatchSourceAddress s)))))) d
    (\<lambda>m' f. ((((f = ruleMatchSourceAddress \<and> sourceAddressItems r \<noteq> [] \<and> matchAnyItem E (sourceAddressItems r) m' \<or>
       f = ruleMatchSourceAddress \<and> destinationIPCIDRMatchesSource r m \<and> matchAnyItem E (destinationIPCIDRItems r) m') \<or>
       f = ruleMatchSourcePort \<and> sourcePortItems r \<noteq> [] \<and> matchAnyItem E (sourcePortItems r) m') \<or>
       f = ruleMatchDestinationAddress \<and> destinationAddressItems r \<noteq> [] \<and> matchAnyItem E (destinationAddressItems r) m') \<or>
       f = ruleMatchDestinationAddress \<and> destinationIPCIDRMatchesDestination r m \<and>
         matchAnyItem E (destinationIPCIDRItems r) m') \<or>
       f = ruleMatchDestinationPort \<and> destinationPortItems r \<noteq> [] \<and> matchAnyItem E (destinationPortItems r) m')"
    (is "\<exists>d. groups_step ?g d ?P")
    by (rule exI, rule steps, (rule ask_group_step ask_missing_step flags_mem | simp)+)
  then obtain d where "groups_step ?g d ?P" ..
  from this [unfolded groups_step_def, rule_format, of m st] assms
  have "m' = m\<lparr>ic_DidMatch := ic_DidMatch m \<or> d\<rparr> \<and> (proper st \<longrightarrow> proper st') \<and>
     (\<forall>f \<in> flags. state_has st' f \<longleftrightarrow> state_has st f \<or> matchAnyItem E (flag_items r m f) m)"
    unfolding base_state_def Let_def by (simp add: group_condition)
  then show "\<exists>d. m' = m\<lparr>ic_DidMatch := d\<rparr>" "proper st \<Longrightarrow> proper st'"
    "f \<in> flags \<Longrightarrow> state_has st' f \<longleftrightarrow> state_has st f \<or> matchAnyItem E (flag_items r m f) m"
    by blast+
qed

section \<open>Default rules\<close>

text \<open>
  The documented logic of a default rule: each group of conditions that is present has a member that
  matches, and all the others match. \<open>ip_cidr\<close> conditions belong to the group of the address they
  are asked about.
\<close>

definition group_sat :: "rule_env \<Rightarrow> rule_item list \<Rightarrow> InboundContext \<Rightarrow> bool" where
  "group_sat E its m \<longleftrightarrow> its = [] \<or> (\<exists>it \<in> set its. item_Match E it m)"

definition default_sat :: "rule_env \<Rightarrow> abstractDefaultRule \<Rightarrow> InboundContext \<Rightarrow> bool" where
  "default_sat E r m \<longleftrightarrow>
     group_sat E (destinationAddressItems r @ (if ic_IPCIDRMatchSource m then [] else destinationIPCIDRItems r)) m \<and>
     group_sat E (destinationPortItems r) m \<and>
     group_sat E (sourceAddressItems r @ (if ic_IPCIDRMatchSource m then destinationIPCIDRItems r else [])) m \<and>
     group_sat E (sourcePortItems r) m \<and>
     (\<forall>it \<in> set (items r). item_Match E it m)"

text \<open>The groups of a rule are what \<open>allItems\<close> lists.\<close>

definition wf_default :: "abstractDefaultRule \<Rightarrow> bool" where
  "wf_default r \<longleftrightarrow>
     set (allItems r) = set (items r) \<union> set (sourceAddressItems r) \<union> set (sourcePortItems r) \<union>
       set (destinationAddressItems r) \<union> set (destinationIPCIDRItems r) \<union> set (destinationPortItems r)"

lemma default_sat_flags:
  assumes "\<not> ic_IgnoreDestinationIPCIDRMatch m"
  shows "default_sat E r m \<longleftrightarrow>
    (\<forall>f \<in> flags. flag_items r m f = [] \<or> matchAnyItem E (flag_items r m f) m) \<and>
    (\<forall>it \<in> set (items r). item_Match E it m)"
proof -
  have "flag_items r m ruleMatchSourceAddress =
      sourceAddressItems r @ (if ic_IPCIDRMatchSource m then destinationIPCIDRItems r else [])"
    "flag_items r m ruleMatchDestinationAddress =
      destinationAddressItems r @ (if ic_IPCIDRMatchSource m then [] else destinationIPCIDRItems r)"
    "flag_items r m ruleMatchSourcePort = sourcePortItems r"
    "flag_items r m ruleMatchDestinationPort = destinationPortItems r"
    using assms
    by (simp_all add: flag_items_def destinationIPCIDRMatchesSource_def destinationIPCIDRMatchesDestination_def)
  then show ?thesis
    unfolding default_sat_def group_sat_def flags_def matchAnyItem_def [symmetric] by auto
qed

lemma base_state_no_items:
  assumes "wf_default r" "allItems r = []"
  shows "base_state E r m st = (m, st)" "flag_items r m f = []" "items r = []"
  using assms
  by (simp_all add: wf_default_def base_state_def ask_group_def ask_missing_def flag_items_def
      destinationIPCIDRMatchesSource_def destinationIPCIDRMatchesDestination_def)

lemma set_filter_0 [simp]: "set_filter P s = 0 \<longleftrightarrow> (\<forall>b \<in> states_of s. \<not> P b)"
proof -
  have "set_filter P s = 0 \<longleftrightarrow> states_of (set_filter P s) = {}" by (simp only: states_of_empty_iff)
  then show ?thesis by (simp only: states_of_filter) blast
qed

text \<open>
  The states of a default rule in a context that does not ignore destination addresses, and of one
  that is not inverted in every context: those of \<open>reached\<close>, or the base when an inverted rule has none.
\<close>

definition reached ::
    "rule_env \<Rightarrow> abstractDefaultRule \<Rightarrow> (InboundContext \<Rightarrow> ruleMatchState \<Rightarrow> ruleMatchStateSet) option \<Rightarrow>
     InboundContext \<Rightarrow> ruleMatchState \<Rightarrow> ruleMatchState set" where
  "reached E r sets m st =
     (let st' = snd (base_state E r m st)
      in {s \<in> (case sets of None \<Rightarrow> {st'} | Some f \<Rightarrow> states_of (f (m\<lparr>ic_DidMatch := True\<rparr>) st')).
          allowed_state r m s \<and> (\<forall>it \<in> set (items r). item_Match E it m)})"

lemma default_states_reached:
  assumes "allItems r \<noteq> [] \<or> sets \<noteq> None" "proper b" "\<not> ic_IgnoreDestinationIPCIDRMatch m \<or> \<not> invert r"
  shows "states_of (default_states E r sets m b) =
    (if invert r then (if reached E r sets m 0 = {} then {b} else {}) else reached E r sets m b)"
proof -
  define st where "st = (if invert r then 0 else b)"
  have st: "proper st" using assms(2) by (simp add: st_def)
  obtain m' st' where b: "base_state E r m st = (m', st')" by fastforce
  obtain d where m': "m' = m\<lparr>ic_DidMatch := d\<rparr>" using base_state_step(1) [OF b] by blast
  have st': "proper st'" using base_state_step(2) [OF b st] .
  have fail: "states_of (invertedFailure r b) = (if invert r then {b} else {})"
    using assms(2) by (simp add: invertedFailure_def)
  show ?thesis
  proof (cases "\<forall>it \<in> set (items r). item_Match E it m")
    case False
    then have "states_of (default_states E r sets m b) = states_of (invertedFailure r b)"
      using assms(1) b m' by (auto simp: default_states_def Let_def st_def [symmetric])
    with False show ?thesis by (auto simp: fail reached_def Let_def)
  next
    case True
    show ?thesis
      using assms b m' True st' unfolding reached_def
      by (cases sets; cases "invert r")
        (auto simp: default_states_def Let_def fail st_def [symmetric] simp: st_def)
  qed
qed

lemma reached_flags:
  "reached E r None m b \<noteq> {} \<longleftrightarrow>
    (\<forall>f \<in> flags. flag_items r m f = [] \<or> state_has b f \<or> matchAnyItem E (flag_items r m f) m) \<and>
    (\<forall>it \<in> set (items r). item_Match E it m)"
proof -
  obtain m' st' where b: "base_state E r m b = (m', st')" by fastforce
  then show ?thesis
    using base_state_step(3) [OF b] by (auto simp: reached_def allowed_state_flags)
qed

lemma reached_default_sat:
  "\<not> ic_IgnoreDestinationIPCIDRMatch m \<Longrightarrow> reached E r None m 0 = {} \<longleftrightarrow> \<not> default_sat E r m"
  using reached_flags [of E r m 0] unfolding default_sat_flags by simp blast

section \<open>Logical rules\<close>

lemma combine_all_None: "combine_all s ns = None \<longleftrightarrow> 0 \<in> set ns"
  by (induction ns arbitrary: s) auto

lemma set_combine_0 [simp]: "set_combine s t = 0 \<longleftrightarrow> s = 0 \<or> t = 0"
proof -
  have "set_combine s t = 0 \<longleftrightarrow> states_of (set_combine s t) = {}" by (simp only: states_of_empty_iff)
  also have "\<dots> \<longleftrightarrow> states_of s = {} \<or> states_of t = {}" by (simp only: states_of_combine) blast
  finally show ?thesis by simp
qed

lemma combine_all_Some: "combine_all s ns = Some t \<Longrightarrow> s \<noteq> 0 \<Longrightarrow> t \<noteq> 0"
  by (induction ns arbitrary: s) (auto split: if_splits)

lemma set_merge_0 [simp]: "set_merge s t = 0 \<longleftrightarrow> s = 0 \<and> t = 0"
proof -
  have "set_merge s t = 0 \<longleftrightarrow> states_of (set_merge s t) = {}" by (simp only: states_of_empty_iff)
  also have "\<dots> \<longleftrightarrow> states_of s = {} \<and> states_of t = {}" by (simp only: states_of_merge) blast
  finally show ?thesis by simp
qed

lemma states_of_merge_all [simp]: "states_of (merge_all ns) = (\<Union>n \<in> set ns. states_of n)"
proof -
  have "states_of (foldl set_merge s ns) = states_of s \<union> (\<Union>n \<in> set ns. states_of n)" for s
    by (induction ns arbitrary: s) auto
  then show ?thesis by (simp add: merge_all_def)
qed

lemma merge_all_0 [simp]: "merge_all ns = 0 \<longleftrightarrow> (\<forall>n \<in> set ns. n = 0)"
proof -
  have "merge_all ns = 0 \<longleftrightarrow> states_of (merge_all ns) = {}" by (simp only: states_of_empty_iff)
  then show ?thesis by (simp only: states_of_merge_all) simp
qed

lemma empty_state_base: "proper b \<Longrightarrow> states_of (set_withBase b emptyRuleMatchState) = {b}"
  by simp

lemma empty_state_base_not_0 [simp]: "proper b \<Longrightarrow> set_withBase b emptyRuleMatchState \<noteq> 0"
  using empty_state_base [of b] states_of_empty_iff by fastforce

lemma logical_states_0:
  assumes "proper b"
  shows "logical_states mode neg b ns \<noteq> 0 \<longleftrightarrow>
    (if mode = LogicalTypeAnd then (\<forall>n \<in> set ns. n \<noteq> 0) else (\<exists>n \<in> set ns. n \<noteq> 0)) \<noteq> neg"
proof -
  define s where "s = set_withBase (if neg then 0 else b) emptyRuleMatchState"
  have s: "s \<noteq> 0" using assms by (simp add: s_def)
  show ?thesis
  proof (cases "combine_all s ns")
    case None
    then show ?thesis
      using assms combine_all_None [of s ns] by (auto simp: logical_states_def Let_def s_def [symmetric])
  next
    case (Some t)
    then have "t \<noteq> 0" "0 \<notin> set ns" using combine_all_Some s combine_all_None [of s ns] by auto
    with Some assms show ?thesis by (cases ns) (auto simp: logical_states_def Let_def s_def [symmetric])
  qed
qed

section \<open>Rules without rule sets\<close>

fun no_rule_sets :: "'rs rule \<Rightarrow> bool" where
  "no_rule_sets (DefaultRule r rs mr) \<longleftrightarrow> rs = None \<and> allItems r \<noteq> []"
| "no_rule_sets (LogicalRule mode rules neg) \<longleftrightarrow> (\<forall>r \<in> set rules. no_rule_sets r)"

fun rule_sat :: "rule_env \<Rightarrow> 'rs rule \<Rightarrow> InboundContext \<Rightarrow> bool" where
  "rule_sat E (DefaultRule r rs mr) m \<longleftrightarrow> default_sat E r m \<noteq> invert r"
| "rule_sat E (LogicalRule mode rules neg) m \<longleftrightarrow>
     (if mode = LogicalTypeAnd then (\<forall>r \<in> set rules. rule_sat E r (ResetRuleCache m))
      else (\<exists>r \<in> set rules. rule_sat E r (ResetRuleCache m))) \<noteq> neg"

lemma reset_ignore [simp]:
  "ic_IgnoreDestinationIPCIDRMatch (ResetRuleCache m) = ic_IgnoreDestinationIPCIDRMatch m"
  "ic_IgnoreDestinationIPCIDRMatch (ResetRuleMatchCache m) = ic_IgnoreDestinationIPCIDRMatch m"
  by (simp_all add: ResetRuleCache_def ResetRuleMatchCache_def)

lemma rule_sat_states:
  assumes "no_rule_sets r" "\<not> ic_IgnoreDestinationIPCIDRMatch m"
  shows "states_with f E r m 0 \<noteq> 0 \<longleftrightarrow> rule_sat E r m"
  using assms
proof (induction r arbitrary: m rule: no_rule_sets.induct)
  case (1 r rs mr)
  then have "states_of (default_states E r None m 0) = {} \<longleftrightarrow> \<not> (default_sat E r m \<noteq> invert r)"
    by (auto simp: default_states_reached reached_default_sat simp del: states_of_empty_iff)
  with 1 show ?case by simp
next
  case (2 mode rules neg)
  then have "states_with f E r (ResetRuleCache m) 0 \<noteq> 0 \<longleftrightarrow> rule_sat E r (ResetRuleCache m)"
    if "r \<in> set rules" for r
    using that by simp
  then show ?case by (simp add: logical_states_0 del: not_all)
qed

section \<open>Rule sets\<close>

text \<open>A state is determined by its flags.\<close>

lemma state_has_bit:
  "state_has st ruleMatchSourceAddress = bit st 0" "state_has st ruleMatchSourcePort = bit st 1"
  "state_has st ruleMatchDestinationAddress = bit st 2" "state_has st ruleMatchDestinationPort = bit st 3"
  using and_exp_eq_0_iff_not_bit [of st 0] and_exp_eq_0_iff_not_bit [of st 1]
    and_exp_eq_0_iff_not_bit [of st 2] and_exp_eq_0_iff_not_bit [of st 3]
  by (simp_all add: state_has_def flag_defs)

lemma proper_high_bit: "proper st \<Longrightarrow> 4 \<le> n \<Longrightarrow> \<not> bit st n"
proof -
  assume "proper st" "4 \<le> n"
  then have "unat st < 2 ^ n" using power_increasing [of 4 n "2 :: nat"] by simp
  then have "\<not> bit (unat st) n" by (simp add: bit_iff_odd)
  then show ?thesis by (simp add: bit_unsigned_iff)
qed

lemma state_eqI:
  assumes "proper a" "proper b" "\<And>f. f \<in> flags \<Longrightarrow> state_has a f = state_has b f"
  shows "a = b"
proof (rule bit_eqI)
  fix n
  have low: "bit a n = bit b n" if "n < 4"
  proof -
    have "n = 0 \<or> n = 1 \<or> n = 2 \<or> n = 3" using that by auto
    then show ?thesis
      using assms(3) [OF flags_mem(1)] assms(3) [OF flags_mem(2)] assms(3) [OF flags_mem(3)] assms(3) [OF flags_mem(4)]
      unfolding state_has_bit by auto
  qed
  show "bit a n = bit b n"
    using low proper_high_bit [OF assms(1), of n] proper_high_bit [OF assms(2), of n] by (cases "n < 4") auto
qed

lemma reached_DidMatch [simp]:
  assumes "proper b"
  shows "reached E r None (m\<lparr>ic_DidMatch := d\<rparr>) b = reached E r None m b"
proof -
  obtain m1 st1 where b1: "base_state E r (m\<lparr>ic_DidMatch := d\<rparr>) b = (m1, st1)" by fastforce
  obtain m2 st2 where b2: "base_state E r m b = (m2, st2)" by fastforce
  have "st1 = st2"
    using base_state_step(2) [OF b1 assms] base_state_step(2) [OF b2 assms]
      base_state_step(3) [OF b1] base_state_step(3) [OF b2]
    by (intro state_eqI) simp_all
  then show ?thesis by (simp add: reached_def b1 b2)
qed

text \<open>The branches of the rules of a rule set that are built from default rules with \<open>or\<close>.\<close>

fun or_tree :: "'rs rule \<Rightarrow> bool" where
  "or_tree (DefaultRule d rs mr) \<longleftrightarrow> rs = None \<and> \<not> invert d \<and> wf_default d"
| "or_tree (LogicalRule mode rules neg) \<longleftrightarrow> mode \<noteq> LogicalTypeAnd \<and> \<not> neg \<and> (\<forall>r \<in> set rules. or_tree r)"

fun branches :: "'rs rule \<Rightarrow> abstractDefaultRule list" where
  "branches (DefaultRule d rs mr) = [d]"
| "branches (LogicalRule mode rules neg) = concat (map branches rules)"

definition merge_rules :: "abstractDefaultRule \<Rightarrow> abstractDefaultRule \<Rightarrow> abstractDefaultRule" where
  "merge_rules r d =
     \<lparr>items = items r @ items d, sourceAddressItems = sourceAddressItems r @ sourceAddressItems d,
      sourcePortItems = sourcePortItems r @ sourcePortItems d,
      destinationAddressItems = destinationAddressItems r @ destinationAddressItems d,
      destinationIPCIDRItems = destinationIPCIDRItems r @ destinationIPCIDRItems d,
      destinationPortItems = destinationPortItems r @ destinationPortItems d,
      allItems = allItems r @ allItems d, invert = invert r\<rparr>"

lemma default_reached:
  assumes "wf_default d" "\<not> invert d" "proper b"
  shows "states_of (default_states E d None m b) = reached E d None m b"
proof (cases "allItems d = []")
  case True
  with assms base_state_no_items [OF assms(1) True] show ?thesis
    by (simp add: default_states_def reached_def allowed_state_flags)
next
  case False
  with assms show ?thesis by (simp add: default_states_reached)
qed

definition plain_context :: "InboundContext \<Rightarrow> bool" where
  "plain_context m \<longleftrightarrow>
     \<not> ic_IPCIDRMatchSource m \<and> \<not> ic_IPCIDRAcceptEmpty m \<and> \<not> ic_IgnoreDestinationIPCIDRMatch m"

lemma reset_plain:
  assumes "plain_context m"
  shows "ResetRuleCache m = m\<lparr>ic_DidMatch := False\<rparr>"
    "(ResetRuleMatchCache m)\<lparr>ic_IPCIDRMatchSource := False, ic_IPCIDRAcceptEmpty := False\<rparr> = m\<lparr>ic_DidMatch := False\<rparr>"
  using assms by (simp_all add: plain_context_def ResetRuleCache_def ResetRuleMatchCache_def)

lemma plain_DidMatch [simp]: "plain_context (m\<lparr>ic_DidMatch := d\<rparr>) = plain_context m"
  by (simp add: plain_context_def)

lemma or_tree_states:
  assumes "or_tree r" "plain_context m" "proper b"
  shows "states_of (states_with f E r m b) = (\<Union>d \<in> set (branches r). reached E d None m b)"
  using assms
proof (induction r arbitrary: m rule: or_tree.induct)
  case (1 d rs mr)
  then show ?case by (simp add: default_reached)
next
  case (2 mode rules neg)
  then have "states_of (states_with f E r (ResetRuleCache m) b) = (\<Union>d \<in> set (branches r). reached E d None m b)"
    if "r \<in> set rules" for r
    using that by (simp add: reset_plain)
  with 2 show ?case by (auto simp: logical_states_def Let_def)
qed

lemma flag_items_merge:
  assumes "f \<in> flags"
  shows "flag_items (merge_rules r d) m f = [] \<longleftrightarrow> flag_items r m f = [] \<and> flag_items d m f = []"
    "matchAnyItem E (flag_items (merge_rules r d) m f) m \<longleftrightarrow>
      matchAnyItem E (flag_items r m f) m \<or> matchAnyItem E (flag_items d m f) m"
  using assms
  by (auto simp: flags_def flag_items_def merge_rules_def destinationIPCIDRMatchesSource_def
      destinationIPCIDRMatchesDestination_def)

definition set_branches :: "(string \<Rightarrow> headless_rule list) \<Rightarrow> string list \<Rightarrow> abstractDefaultRule list" where
  "set_branches S tags = concat (map (\<lambda>tag. concat (map branches (S tag))) tags)"

lemma ruleSet_branches:
  assumes "\<forall>tag \<in> set (setList it). \<forall>h \<in> set (S tag). or_tree h" "plain_context m" "proper b"
    "\<not> ipCidrMatchSource it" "\<not> ipCidrAcceptEmpty it"
  shows "states_of (ruleSetItem_states S E it m b) = (\<Union>d \<in> set (set_branches S (setList it)). reached E d None m b)"
proof -
  have "states_of (headless_states E h (ResetRuleMatchCache (m\<lparr>ic_DidMatch := False\<rparr>)) b) =
      (\<Union>d \<in> set (branches h). reached E d None m b)" if "tag \<in> set (setList it)" "h \<in> set (S tag)" for tag h
    using that assms or_tree_states [of h "ResetRuleMatchCache (m\<lparr>ic_DidMatch := False\<rparr>)" b _ E]
    by (simp add: ResetRuleMatchCache_def headless_states_def)
  then show ?thesis
    using assms by (simp add: reset_plain set_branches_def ruleSetItem_states_def ruleSet_states_def)
qed

lemma merged_branch:
  "(\<exists>s \<in> reached E d None m (snd (base_state E r m 0)).
      allowed_state r m s \<and> (\<forall>it \<in> set (items r). item_Match E it m)) \<longleftrightarrow>
    reached E (merge_rules r d) None m 0 \<noteq> {}"
proof -
  obtain m1 st1 where b1: "base_state E r m 0 = (m1, st1)" by fastforce
  obtain m2 st2 where b2: "base_state E d m st1 = (m2, st2)" by fastforce
  have "state_has st2 f \<longleftrightarrow> matchAnyItem E (flag_items r m f) m \<or> matchAnyItem E (flag_items d m f) m" if "f \<in> flags" for f
    using that base_state_step(3) [OF b1] base_state_step(3) [OF b2] by simp
  then have "(allowed_state d m st2 \<and> allowed_state r m st2) \<longleftrightarrow>
      (\<forall>f \<in> flags. flag_items (merge_rules r d) m f = [] \<or> matchAnyItem E (flag_items (merge_rules r d) m f) m)"
    by (auto simp: allowed_state_flags flag_items_merge)
  moreover have "(\<forall>it \<in> set (items (merge_rules r d)). item_Match E it m) \<longleftrightarrow>
      (\<forall>it \<in> set (items r). item_Match E it m) \<and> (\<forall>it \<in> set (items d). item_Match E it m)"
    by (auto simp: merge_rules_def)
  ultimately show ?thesis
    unfolding reached_flags by (auto simp: reached_def b1 b2)
qed

lemma rule_set_merged:
  assumes "\<forall>tag \<in> set (setList it). \<forall>h \<in> set (S tag). or_tree h" "plain_context m"
    "\<not> ipCidrMatchSource it" "\<not> ipCidrAcceptEmpty it"
  shows "rule_Match S E (DefaultRule r (Some it) mr) m \<longleftrightarrow>
    (\<exists>d \<in> set (set_branches S (setList it)). default_sat E (merge_rules r d) m) \<noteq> invert r"
proof -
  let ?f = "ruleSetItem_states S E it" and ?D = "set (set_branches S (setList it))"
  have ig: "\<not> ic_IgnoreDestinationIPCIDRMatch m" using assms(2) by (simp add: plain_context_def)
  obtain m1 st1 where b: "base_state E r m 0 = (m1, st1)" by fastforce
  have "proper st1" using base_state_step(2) [OF b] by simp
  then have "states_of (?f (m\<lparr>ic_DidMatch := True\<rparr>) st1) = (\<Union>d \<in> ?D. reached E d None m st1)"
    using assms ruleSet_branches [OF assms(1), of "m\<lparr>ic_DidMatch := True\<rparr>" st1 E] by simp
  then have "reached E r (Some ?f) m 0 =
      {s \<in> (\<Union>d \<in> ?D. reached E d None m st1). allowed_state r m s \<and> (\<forall>it \<in> set (items r). item_Match E it m)}"
    unfolding reached_def [of E r "Some ?f"] Let_def b option.case snd_conv by (simp only:)
  then have "reached E r (Some ?f) m 0 = {} \<longleftrightarrow> \<not> (\<exists>d \<in> ?D. reached E (merge_rules r d) None m 0 \<noteq> {})"
    unfolding merged_branch [symmetric] b snd_conv by blast
  moreover have "rule_Match S E (DefaultRule r (Some it) mr) m \<longleftrightarrow> (reached E r (Some ?f) m 0 \<noteq> {}) \<noteq> invert r"
    using ig default_states_reached [of r "Some ?f" 0 m E]
    by (auto simp: rule_Match_def matchStatesWithBase_def simp del: states_of_empty_iff)
  ultimately show ?thesis using ig by (simp add: reached_default_sat)
qed

section \<open>Asking before the lookup\<close>

text \<open>Items that look neither at a DNS response nor at destination addresses.\<close>

fun response_free :: "rule_item \<Rightarrow> bool" where
  "response_free (IPCIDRItem src s) = src"
| "response_free (IPIsPrivateItem src) = src"
| "response_free IPAcceptAnyItem = False"
| "response_free (DNSResponseRCodeItem c) = False"
| "response_free (DNSResponseRecordItem sel rs) = False"
| "response_free _ = True"

text \<open>
  Rules whose address conditions are left to the response: nothing is inverted, no destination name is
  asked beside an address, and rule sets match destinations.
\<close>

definition deferrable_default :: "abstractDefaultRule \<Rightarrow> bool" where
  "deferrable_default r \<longleftrightarrow>
     wf_default r \<and> \<not> invert r \<and> destinationAddressItems r = [] \<and>
     (\<forall>it \<in> set (items r @ sourceAddressItems r @ sourcePortItems r @ destinationPortItems r). response_free it)"

fun deferrable_with :: "('rs \<Rightarrow> bool) \<Rightarrow> 'rs rule \<Rightarrow> bool" where
  "deferrable_with ok (DefaultRule r rs mr) \<longleftrightarrow> deferrable_default r \<and> pred_option ok rs"
| "deferrable_with ok (LogicalRule mode rules neg) \<longleftrightarrow> \<not> neg \<and> (\<forall>r \<in> set rules. deferrable_with ok r)"

definition deferrable :: "(string \<Rightarrow> headless_rule list) \<Rightarrow> routing_rule \<Rightarrow> bool" where
  "deferrable S =
     deferrable_with (\<lambda>it. \<not> ipCidrMatchSource it \<and>
       (\<forall>tag \<in> set (setList it). \<forall>h \<in> set (S tag). deferrable_with (\<lambda>_. True) h))"

lemma item_Match_response_free:
  assumes "response_free it"
  shows "item_Match E it (m\<lparr>ic_DNSResponse := x\<rparr>) = item_Match E it m"
    "item_Match E it (m\<lparr>ic_DestinationAddressMatchFromResponse := y\<rparr>) = item_Match E it m"
    "item_Match E it (m\<lparr>ic_IPCIDRMatchSource := y\<rparr>) = item_Match E it m"
    "item_Match E it (m\<lparr>ic_IPCIDRAcceptEmpty := y\<rparr>) = item_Match E it m"
    "item_Match E it (m\<lparr>ic_IgnoreDestinationIPCIDRMatch := y\<rparr>) = item_Match E it m"
  using assms by (cases it; simp add: item_match_defs)+

text \<open>
  The context of the response check \<open>m\<close> beside that of the check before the lookup \<open>m'\<close>, and their
  states, which agree but for the flag of the destination address.
\<close>

definition before :: "rule_env \<Rightarrow> InboundContext \<Rightarrow> InboundContext \<Rightarrow> bool" where
  "before E m m' \<longleftrightarrow>
     \<not> ic_IPCIDRMatchSource m \<and> \<not> ic_IPCIDRMatchSource m' \<and> ic_IgnoreDestinationIPCIDRMatch m' \<and>
     (\<forall>it. response_free it \<longrightarrow> item_Match E it m = item_Match E it m')"

definition like_state :: "ruleMatchState \<Rightarrow> ruleMatchState \<Rightarrow> bool" where
  "like_state s s' \<longleftrightarrow>
     proper s \<and> proper s' \<and> (\<forall>f \<in> flags - {ruleMatchDestinationAddress}. state_has s f = state_has s' f)"

lemma before_update:
  assumes "before E m m'"
  shows "before E (m\<lparr>ic_DidMatch := d\<rparr>) (m'\<lparr>ic_DidMatch := d'\<rparr>)"
    "before E (ResetRuleCache m) (ResetRuleCache m')"
    "before E ((ResetRuleMatchCache m)\<lparr>ic_IPCIDRMatchSource := False, ic_IPCIDRAcceptEmpty := e\<rparr>)
       ((ResetRuleMatchCache m')\<lparr>ic_IPCIDRMatchSource := False, ic_IPCIDRAcceptEmpty := e\<rparr>)"
    "before E (ResetRuleMatchCache m) (ResetRuleMatchCache m')"
  using assms
  by (simp_all add: before_def ResetRuleCache_def ResetRuleMatchCache_def item_Match_response_free)

lemma before_flag_items:
  assumes "before E m m'" "deferrable_default r" "f \<in> flags - {ruleMatchDestinationAddress}"
  shows "flag_items r m f = flag_items r m' f"
    "matchAnyItem E (flag_items r m f) m = matchAnyItem E (flag_items r m' f) m'"
proof -
  show eq: "flag_items r m f = flag_items r m' f"
    using assms by (auto simp: before_def flag_items_def destinationIPCIDRMatchesSource_def)
  have "response_free it" if "it \<in> set (flag_items r m' f)" for it
    using that assms
    by (auto simp: flags_def before_def deferrable_default_def flag_items_def destinationIPCIDRMatchesSource_def)
  then show "matchAnyItem E (flag_items r m f) m = matchAnyItem E (flag_items r m' f) m'"
    using assms(1) by (auto simp: eq matchAnyItem_def before_def)
qed

lemma before_base_state:
  assumes "before E m m'" "deferrable_default r" "like_state st st'"
  shows "like_state (snd (base_state E r m st)) (snd (base_state E r m' st'))"
proof -
  obtain m1 s1 where b1: "base_state E r m st = (m1, s1)" by fastforce
  obtain m2 s2 where b2: "base_state E r m' st' = (m2, s2)" by fastforce
  show ?thesis
    using assms before_flag_items [OF assms(1,2)] base_state_step(2,3) [OF b1] base_state_step(2,3) [OF b2]
    by (simp add: like_state_def b1 b2)
qed

lemma before_allowed:
  assumes "before E m m'" "deferrable_default r" "like_state s s'" "allowed_state r m s"
  shows "allowed_state r m' s'"
proof -
  have "flag_items r m' ruleMatchDestinationAddress = []"
    using assms(1,2)
    by (simp add: before_def deferrable_default_def flag_items_def destinationIPCIDRMatchesDestination_def)
  then have "flag_items r m' f = [] \<or> state_has s' f" if "f \<in> flags" for f
    using that assms(3,4) before_flag_items(1) [OF assms(1,2), of f]
    by (cases "f = ruleMatchDestinationAddress") (auto simp: allowed_state_flags like_state_def)
  then show ?thesis by (simp add: allowed_state_flags)
qed

lemma before_items:
  assumes "before E m m'" "deferrable_default r" "\<forall>it \<in> set (items r). item_Match E it m"
  shows "\<forall>it \<in> set (items r). item_Match E it m'"
  using assms by (auto simp: before_def deferrable_default_def)

definition covers :: "ruleMatchStateSet \<Rightarrow> ruleMatchStateSet \<Rightarrow> bool" where
  "covers S S' \<longleftrightarrow> (\<forall>s \<in> states_of S. \<exists>s' \<in> states_of S'. like_state s s')"

lemma covers_0 [simp]: "covers 0 S'"
  by (simp add: covers_def)

lemma covers_not_0: "covers S S' \<Longrightarrow> S \<noteq> 0 \<Longrightarrow> S' \<noteq> 0"
  unfolding states_of_empty_iff [symmetric] covers_def by blast

lemma like_state_or: "like_state a a' \<Longrightarrow> like_state b b' \<Longrightarrow> like_state (a OR b) (a' OR b')"
  by (simp add: like_state_def proper_or)

lemma covers_combine:
  assumes "covers S S'" "covers T T'"
  shows "covers (set_combine S T) (set_combine S' T')"
  unfolding covers_def states_of_combine
proof
  fix s assume "s \<in> {l OR r |l r. l \<in> states_of S \<and> r \<in> states_of T}"
  then obtain l r where s: "s = l OR r" "l \<in> states_of S" "r \<in> states_of T" by blast
  then obtain l' r' where "l' \<in> states_of S'" "r' \<in> states_of T'" "like_state l l'" "like_state r r'"
    using assms unfolding covers_def by blast
  then show "\<exists>s' \<in> {l OR r |l r. l \<in> states_of S' \<and> r \<in> states_of T'}. like_state s s'"
    using s like_state_or by blast
qed

lemma covers_merge_all:
  assumes "list_all2 covers ns ns'"
  shows "covers (merge_all ns) (merge_all ns')"
proof -
  have "\<exists>s' \<in> \<Union> (states_of ` set ns'). like_state s s'" if "n \<in> set ns" "s \<in> states_of n" for n s
    using assms that by (induction rule: list_all2_induct) (auto simp: covers_def)
  then show ?thesis by (simp add: covers_def)
qed

lemma covers_combine_all:
  assumes "list_all2 covers ns ns'" "covers s s'" "combine_all s ns = Some t"
  shows "\<exists>t'. combine_all s' ns' = Some t' \<and> covers t t'"
  using assms
proof (induction arbitrary: s s' rule: list_all2_induct)
  case (Cons n ns n' ns')
  then have "n \<noteq> 0" by (auto split: if_splits)
  moreover have "n' \<noteq> 0" using Cons.hyps(1) calculation by (rule covers_not_0)
  ultimately show ?case
    using Cons.IH [OF covers_combine [OF Cons.prems(1) Cons.hyps(1)]] Cons.prems(2) by simp
qed simp

lemma covers_logical:
  assumes "list_all2 covers ns ns'" "like_state b b'"
  shows "covers (logical_states mode False b ns) (logical_states mode False b' ns')"
proof (cases "mode = LogicalTypeAnd")
  case True
  have b: "proper b" "proper b'" using assms(2) by (simp_all add: like_state_def)
  then have c: "covers (set_withBase b emptyRuleMatchState) (set_withBase b' emptyRuleMatchState)"
    using assms(2) by (simp add: covers_def)
  show ?thesis
  proof (cases "combine_all (set_withBase b emptyRuleMatchState) ns")
    case None
    then show ?thesis using True by (simp add: logical_states_def)
  next
    case (Some t)
    with covers_combine_all [OF assms(1) c] True show ?thesis by (auto simp: logical_states_def)
  qed
next
  case False
  with covers_merge_all [OF assms(1)] covers_not_0 [of "merge_all ns" "merge_all ns'"] show ?thesis
    by (auto simp: logical_states_def Let_def)
qed

lemma covers_default:
  assumes "before E m m'" "deferrable_default r" "like_state b b'" "(sets = None) = (sets' = None)"
    "\<And>f f' st st' d. sets = Some f \<Longrightarrow> sets' = Some f' \<Longrightarrow> like_state st st' \<Longrightarrow>
       covers (f (m\<lparr>ic_DidMatch := d\<rparr>) st) (f' (m'\<lparr>ic_DidMatch := d\<rparr>) st')"
  shows "covers (default_states E r sets m b) (default_states E r sets' m' b')"
proof -
  have r: "wf_default r" "\<not> invert r" and b: "proper b" "proper b'"
    using assms(2,3) by (simp_all add: deferrable_default_def like_state_def)
  have states: "states_of (default_states E r S n c) = reached E r S n c" if "proper c" for S n c
  proof (cases S)
    case None
    then show ?thesis using default_reached [OF r that] by simp
  next
    case (Some f)
    then show ?thesis using that r by (simp add: default_states_reached)
  qed
  have base: "like_state (snd (base_state E r m b)) (snd (base_state E r m' b'))"
    by (rule before_base_state) fact+
  have "\<exists>s' \<in> reached E r sets' m' b'. like_state s s'" if s: "s \<in> reached E r sets m b" for s
  proof -
    have al: "allowed_state r m s" and its: "\<forall>it \<in> set (items r). item_Match E it m"
      using s by (simp_all add: reached_def Let_def)
    obtain s' where s': "like_state s s'"
      "s' \<in> (case sets' of None \<Rightarrow> {snd (base_state E r m' b')}
        | Some f \<Rightarrow> states_of (f (m'\<lparr>ic_DidMatch := True\<rparr>) (snd (base_state E r m' b'))))"
    proof (cases sets)
      case None
      with s base assms(4) that show ?thesis by (simp add: reached_def)
    next
      case (Some f)
      then obtain f' where f': "sets' = Some f'" using assms(4) by auto
      with assms(5) [OF Some f' base, of True] s Some that show ?thesis
        by (auto simp: reached_def covers_def Let_def)
    qed
    have "allowed_state r m' s'" by (rule before_allowed [OF assms(1,2) s'(1) al])
    moreover have "\<forall>it \<in> set (items r). item_Match E it m'" by (rule before_items [OF assms(1,2) its])
    ultimately show ?thesis using s' by (auto simp: reached_def Let_def)
  qed
  then show ?thesis using b by (simp add: covers_def states)
qed

text \<open>The same for rules, given it for their rule-set items.\<close>

lemma covers_rule:
  assumes "deferrable_with ok r" "before E m m'" "like_state b b'"
    "\<And>rs m m' b b'. ok rs \<Longrightarrow> before E m m' \<Longrightarrow> like_state b b' \<Longrightarrow> covers (f rs m b) (f rs m' b')"
  shows "covers (states_with f E r m b) (states_with f E r m' b')"
  using assms(1-3)
proof (induction r arbitrary: m m' b b')
  case (DefaultRule r rs mr)
  then show ?case
    by (cases rs) (auto intro!: covers_default assms(4) before_update(1))
next
  case (LogicalRule mode rules neg)
  have "covers (states_with f E z (ResetRuleCache m) b) (states_with f E z (ResetRuleCache m') b')"
    if "z \<in> set rules" for z
    by (rule LogicalRule.IH) (use LogicalRule.prems that before_update(2) in auto)
  with LogicalRule.prems show ?case
    by (auto simp: list_all2_map1 list_all2_map2 intro!: covers_logical list.rel_refl_strong)
qed

lemma covers_rule_sets:
  assumes "\<not> ipCidrMatchSource it" "\<forall>tag \<in> set (setList it). \<forall>h \<in> set (S tag). deferrable_with (\<lambda>_. True) h"
    "before E m m'" "like_state b b'"
  shows "covers (ruleSetItem_states S E it m b) (ruleSetItem_states S E it m' b')"
proof -
  let ?n = "\<lambda>m. ResetRuleMatchCache ((ResetRuleMatchCache m)
    \<lparr>ic_IPCIDRMatchSource := False, ic_IPCIDRAcceptEmpty := ipCidrAcceptEmpty it\<rparr>)"
  have "covers (headless_states E h (?n m) b) (headless_states E h (?n m') b')"
    if "tag \<in> set (setList it)" "h \<in> set (S tag)" for tag h
    unfolding headless_states_def by (rule covers_rule) (use assms that before_update(3,4) in auto)
  then show ?thesis
    using assms(1)
    by (auto simp: ruleSetItem_states_def ruleSet_states_def list_all2_map1 list_all2_map2
        intro!: covers_merge_all list.rel_refl_strong)
qed

lemma pre_match_defers:
  assumes "deferrable S r" "\<not> ic_IPCIDRMatchSource m" "\<forall>d rs mr. r = DefaultRule d rs mr \<longrightarrow> \<not> mr"
    "MatchAddressLimit S E r m response"
  shows "LegacyPreMatch S E r m"
proof -
  let ?full = "m\<lparr>ic_DNSResponse := response, ic_DestinationAddressMatchFromResponse := True\<rparr>"
  let ?pre = "m\<lparr>ic_IgnoreDestinationIPCIDRMatch := True\<rparr>"
  have "before E ?full ?pre" using assms(2) by (simp add: before_def item_Match_response_free)
  then have "covers (matchStatesWithBase S E r ?full 0) (matchStatesWithBase S E r ?pre 0)"
    unfolding matchStatesWithBase_def
    by (rule covers_rule [OF assms(1) [unfolded deferrable_def]]) (auto simp: like_state_def intro!: covers_rule_sets)
  then have "rule_Match S E r ?pre"
    using assms(4) covers_not_0 by (simp add: MatchAddressLimit_def rule_Match_def)
  then show ?thesis using assms(3) by (cases r) (simp_all add: LegacyPreMatch_def)
qed

text \<open>
  Beside a name condition the address conditions of a rule are not a filter: a response that
  \<open>ip_cidr\<close> would reject is accepted when the name matches, because both are in one group.
\<close>

lemma name_condition_overrides_filter:
  assumes "allItems r \<noteq> []" "\<not> invert r" "\<not> ic_IgnoreDestinationIPCIDRMatch m" "\<not> ic_IPCIDRMatchSource m"
    "it \<in> set (destinationAddressItems r)" "response_free it" "item_Match E it m"
    "default_sat E (r\<lparr>destinationAddressItems := [], destinationIPCIDRItems := []\<rparr>)
      (m\<lparr>ic_DNSResponse := response, ic_DestinationAddressMatchFromResponse := True\<rparr>)"
  shows "MatchAddressLimit S E (DefaultRule r None mr) m response"
proof -
  let ?m = "m\<lparr>ic_DNSResponse := response, ic_DestinationAddressMatchFromResponse := True\<rparr>"
  have "item_Match E it ?m" using assms(6,7) by (simp add: item_Match_response_free)
  then have "default_sat E r ?m"
    using assms(4,5,8) by (auto simp: default_sat_def group_sat_def)
  then show ?thesis
    using assms rule_sat_states [of "DefaultRule r None mr" ?m _ E]
    by (simp add: MatchAddressLimit_def rule_Match_def matchStatesWithBase_def)
qed

text \<open>
  An inverted rule with another condition beside its addresses is dropped before the lookup when
  that condition holds, although a response could make the rule match.
\<close>

lemma inverted_filter_is_dropped:
  assumes "item_Match E p m" "response_free p" "\<not> ic_IPCIDRMatchSource m" "\<not> ic_IgnoreDestinationIPCIDRMatch m"
    "\<not> item_Match E ip (m\<lparr>ic_DNSResponse := response, ic_DestinationAddressMatchFromResponse := True\<rparr>)"
    "r = \<lparr>items = [], sourceAddressItems = [], sourcePortItems = [], destinationAddressItems = [],
      destinationIPCIDRItems = [ip], destinationPortItems = [p], allItems = [ip, p], invert = True\<rparr>"
  shows "MatchAddressLimit S E (DefaultRule r None mr) m response \<and> \<not> LegacyPreMatch S E (DefaultRule r None mr) m"
proof
  let ?m = "m\<lparr>ic_DNSResponse := response, ic_DestinationAddressMatchFromResponse := True\<rparr>"
  have "\<not> default_sat E r ?m" using assms by (simp add: default_sat_def group_sat_def)
  then show "MatchAddressLimit S E (DefaultRule r None mr) m response"
    using assms rule_sat_states [of "DefaultRule r None mr" ?m _ E]
    by (simp add: MatchAddressLimit_def rule_Match_def matchStatesWithBase_def)
  have "default_states E r None (m\<lparr>ic_IgnoreDestinationIPCIDRMatch := True\<rparr>) 0 = 0"
    using assms
    by (simp add: default_states_def base_state_def ask_group_def ask_missing_def Let_def matchAnyItem_def
        destinationIPCIDRMatchesSource_def destinationIPCIDRMatchesDestination_def item_Match_response_free
        allowed_state_def requiresSourceAddressMatch_def requiresDestinationAddressMatch_def)
  then show "\<not> LegacyPreMatch S E (DefaultRule r None mr) m"
    by (simp add: LegacyPreMatch_def rule_Match_def matchStatesWithBase_def)
qed

end
