(* ===== verification/RuleBuildSafety.thy ===== *)
theory RuleBuildSafety
  imports RuleBuild RuleSemantics
begin

text \<open>
  What the constructors of rules guarantee: every item stands in the group of its kind, and the six
  groups are the partition of \<open>allItems\<close>.
\<close>

fun group_of :: "rule_item \<Rightarrow> item_group" where
  "group_of (DomainItem d) = InDestinationAddress"
| "group_of (DomainKeywordItem ks) = InDestinationAddress"
| "group_of (DomainRegexItem rs) = InDestinationAddress"
| "group_of (AdGuardDomainItem d) = InDestinationAddress"
| "group_of (IPCIDRItem src s) = (if src then InSourceAddress else InDestinationIPCIDR)"
| "group_of (IPIsPrivateItem src) = (if src then InSourceAddress else InDestinationIPCIDR)"
| "group_of IPAcceptAnyItem = InDestinationIPCIDR"
| "group_of (PortItem src ps) = (if src then InSourcePort else InDestinationPort)"
| "group_of (PortRangeItem src rs) = (if src then InSourcePort else InDestinationPort)"
| "group_of _ = InItems"

fun group_items :: "item_group \<Rightarrow> abstractDefaultRule \<Rightarrow> rule_item list" where
  "group_items InItems r = items r"
| "group_items InSourceAddress r = sourceAddressItems r"
| "group_items InSourcePort r = sourcePortItems r"
| "group_items InDestinationAddress r = destinationAddressItems r"
| "group_items InDestinationIPCIDR r = destinationIPCIDRItems r"
| "group_items InDestinationPort r = destinationPortItems r"

definition partitioned :: "abstractDefaultRule \<Rightarrow> bool" where
  "partitioned r \<longleftrightarrow> (\<forall>g. group_items g r = filter (\<lambda>it. group_of it = g) (allItems r))"

text \<open>When a computation that may fail or panic returns a value.\<close>

lemma result_iffs:
  "(case x of Inl e \<Rightarrow> Inl (g e) | Inr a \<Rightarrow> f a) = Inr b \<longleftrightarrow> (\<exists>a. x = Inr a \<and> f a = Inr b)"
  "(case x of Inl e \<Rightarrow> Ret (Inl (g e)) | Inr a \<Rightarrow> h a) = Ret (Inr b) \<longleftrightarrow> (\<exists>a. x = Inr a \<and> h a = Ret (Inr b))"
  "map_sum id k y = Inr c \<longleftrightarrow> (\<exists>a. y = Inr a \<and> c = k a)"
  by (auto simp: map_sum_def split: sum.split)

lemma partitioned_empty [simp]: "partitioned (empty_rule neg)"
proof -
  have "group_items g (empty_rule neg) = []" for g by (cases g) (simp_all add: empty_rule_def)
  then show ?thesis by (simp add: partitioned_def empty_rule_def)
qed

lemma add_item_fields:
  "allItems (add_item g it r) = allItems r @ [it]"
  "group_items g' (add_item g it r) = (if g' = g then group_items g r @ [it] else group_items g' r)"
  by (cases g; simp) (cases g; cases g'; simp)

lemma partitioned_add: "partitioned r \<Longrightarrow> group_of it = g \<Longrightarrow> partitioned (add_item g it r)"
  by (auto simp: partitioned_def add_item_fields)

text \<open>A step that puts only items of the right kind into a group.\<close>

fun step_ok :: "build_step \<Rightarrow> bool" where
  "step_ok (Put c g it) \<longleftrightarrow> (c \<longrightarrow> group_of it = g)"
| "step_ok (Try c g x) \<longleftrightarrow> (\<forall>it. x = Inr it \<longrightarrow> group_of it = g)"
| "step_ok (Refuse c e) \<longleftrightarrow> True"

lemma build_steps_partitioned:
  assumes "list_all step_ok ss" "partitioned r" "build_steps ss r = Inr r'"
  shows "partitioned r'"
  using assms
  by (induction ss r rule: build_steps.induct) (auto intro: partitioned_add split: if_splits sum.splits)

lemma new_item_group:
  "NewDomainItem L ds ss = Inr it \<Longrightarrow> group_of it = InDestinationAddress"
  "NewDomainRegexItem L es = Inr it \<Longrightarrow> group_of it = InDestinationAddress"
  "NewProcessPathRegexItem L es = Inr it \<Longrightarrow> group_of it = InItems"
  "NewIPCIDRItem L src ps = Inr it \<Longrightarrow> group_of it = (if src then InSourceAddress else InDestinationIPCIDR)"
  "NewPortRangeItem src rs = Inr it \<Longrightarrow> group_of it = (if src then InSourcePort else InDestinationPort)"
  "group_of (NewSourceMACAddressItem as) = InItems"
  by (auto simp: NewDomainItem_def NewDomainRegexItem_def NewProcessPathRegexItem_def NewIPCIDRItem_def
      NewPortRangeItem_def NewSourceMACAddressItem_def map_sum_def split: if_splits sum.splits)

lemma cause_Inr: "cause msg x = Inr it \<longleftrightarrow> x = Inr it"
  by (cases x) (simp_all add: cause_def)

lemma shared_steps_ok:
  "list_all step_ok (port_steps opts)" "list_all step_ok (process_steps L opts)" "list_all step_ok (network_steps opts)"
  "list_all step_ok (interface_steps opts)" "list_all step_ok (ip_version_steps v)" "list_all step_ok (geo_steps opts')"
  using new_item_group
  by (auto simp: port_steps_def process_steps_def network_steps_def interface_steps_def ip_version_steps_def
      geo_steps_def cause_Inr)

lemma constructor_steps_ok:
  "list_all step_ok (default_rule_steps L opts)"
  "list_all step_ok (default_dns_rule_steps L legacy dns_opts)"
  "list_all step_ok (default_headless_rule_steps L headless_opts)"
  using new_item_group
  by (auto simp: default_rule_steps_def default_dns_rule_steps_def default_headless_rule_steps_def
      shared_steps_ok cause_Inr)

lemma build_steps_invert: "build_steps ss r = Inr r' \<Longrightarrow> invert r' = invert r"
proof (induction ss r rule: build_steps.induct)
  case (2 c g it ss r)
  then show ?case by (cases g) (auto split: if_splits)
next
  case (3 c g x ss r)
  then show ?case by (cases g) (auto split: if_splits sum.splits)
qed (auto split: if_splits)

text \<open>
  Every default rule of a rule is partitioned, every rule-set item is not started yet and names rule
  sets, and every logical rule has a known mode.
\<close>

fun well_built :: "('rs \<Rightarrow> bool) \<Rightarrow> 'rs rule \<Rightarrow> bool" where
  "well_built ok (DefaultRule r rs mr) \<longleftrightarrow> partitioned r \<and> pred_option ok rs"
| "well_built ok (LogicalRule mode rules neg) \<longleftrightarrow> known_mode mode \<and> (\<forall>r \<in> set rules. well_built ok r)"

definition fresh_item :: "ruleSetItem \<Rightarrow> bool" where
  "fresh_item it \<longleftrightarrow> tagList it \<noteq> [] \<and> setList it = []"

lemma rule_set_of_fresh: "rule_set_of e opts = Inr rs \<Longrightarrow> pred_option fresh_item rs"
  by (auto simp: rule_set_of_def fresh_item_def split: if_splits)

lemma NewDefaultRule_well_built:
  assumes "NewDefaultRule L opts a = Ret (Inr (act, r))"
  shows "well_built fresh_item r"
proof -
  from assms obtain d rs where "build_steps (default_rule_steps L opts) (empty_rule (o_Invert opts)) = Inr d"
    "rule_set_of False opts = Inr rs" "r = DefaultRule d rs False"
    by (auto simp: NewDefaultRule_def go_bind_Ret_iff result_iffs)
  then show ?thesis
    using build_steps_partitioned [OF constructor_steps_ok(1) partitioned_empty] rule_set_of_fresh by auto
qed

lemma NewDefaultDNSRule_well_built:
  assumes "NewDefaultDNSRule L opts a legacy = Ret (Inr (act, r))"
  shows "well_built fresh_item r"
proof -
  from assms obtain d rs where "build_steps (default_dns_rule_steps L legacy opts) (empty_rule (o_Invert opts)) = Inr d"
    "rule_set_of (o_RuleSetIPCIDRAcceptEmpty opts) opts = Inr rs" "r = DefaultRule d rs (o_MatchResponse opts)"
    by (auto simp: NewDefaultDNSRule_def go_bind_Ret_iff result_iffs)
  then show ?thesis
    using build_steps_partitioned [OF constructor_steps_ok(2) partitioned_empty] rule_set_of_fresh by auto
qed

lemma NewDefaultHeadlessRule_well_built:
  assumes "NewDefaultHeadlessRule L opts = Inr r"
  shows "well_built ok r"
  using assms build_steps_partitioned [OF constructor_steps_ok(3) partitioned_empty]
  by (auto simp: NewDefaultHeadlessRule_def map_sum_def split: sum.splits)

lemma sub_rules_all:
  assumes "sub_rules i f xs = Ret (Inr ys)" "\<And>x y. x \<in> set xs \<Longrightarrow> f x = Ret (Inr y) \<Longrightarrow> P y"
  shows "\<forall>y \<in> set ys. P y"
  using assms
proof (induction xs arbitrary: i ys)
  case (Cons x xs)
  then obtain y zs where "f x = Ret (Inr y)" "sub_rules (Suc i) f xs = Ret (Inr zs)" "ys = y # zs"
    by (auto simp: go_bind_Ret_iff result_iffs)
  with Cons.IH Cons.prems(2) show ?case by fastforce
qed simp

lemma NewRule_logical:
  assumes "NewRule L check (RuleOptions ty d a mode rules neg la) = Ret (Inr (act, r))" "ty \<noteq> []" "ty \<noteq> RuleTypeDefault"
  shows "ty = RuleTypeLogical \<and> known_mode mode \<and>
    (\<exists>rs. r = LogicalRule mode (map snd rs) neg \<and>
      sub_rules 0 (\<lambda>r. case validateNoNestedRuleActions no_rule_action RouteRuleActionNestedUnsupported True r of
        Some e \<Rightarrow> Ret (Inl e) | None \<Rightarrow> NewRule L False r) rules = Ret (Inr rs))"
  using assms by (auto simp: go_bind_Ret_iff result_iffs split: if_split_asm)

lemma NewRule_well_built: "NewRule L check opts = Ret (Inr (act, r)) \<Longrightarrow> well_built fresh_item r"
proof (induction opts arbitrary: check act r)
  case (RuleOptions ty d a mode rules neg la)
  show ?case
  proof (cases "ty = [] \<or> ty = RuleTypeDefault")
    case True
    with RuleOptions.prems show ?thesis by (auto intro: NewDefaultRule_well_built split: if_splits)
  next
    case False
    then obtain rs where rs: "known_mode mode" "r = LogicalRule mode (map snd rs) neg"
      "sub_rules 0 (\<lambda>r. case validateNoNestedRuleActions no_rule_action RouteRuleActionNestedUnsupported True r of
        Some e \<Rightarrow> Ret (Inl e) | None \<Rightarrow> NewRule L False r) rules = Ret (Inr rs)"
      using NewRule_logical [OF RuleOptions.prems] by blast
    have "\<forall>y \<in> set rs. well_built fresh_item (snd y)"
      by (rule sub_rules_all [OF rs(3)]) (auto intro: RuleOptions.IH split: option.split_asm)
    with rs show ?thesis by simp
  qed
qed

lemma NewDNSRule_logical:
  assumes "NewDNSRule L legacy check (RuleOptions ty d a mode rules neg la) = Ret (Inr (act, r))"
    "ty \<noteq> []" "ty \<noteq> RuleTypeDefault"
  shows "ty = RuleTypeLogical \<and> known_mode mode \<and>
    (\<exists>rs. r = LogicalRule mode (map snd rs) neg \<and>
      sub_rules 0 (\<lambda>r. case validateNoNestedRuleActions no_dns_rule_action DNSRuleActionNestedUnsupported True r of
        Some e \<Rightarrow> Ret (Inl e) | None \<Rightarrow> NewDNSRule L legacy False r) rules = Ret (Inr rs))"
  using assms by (auto simp: go_bind_Ret_iff result_iffs split: if_split_asm option.split_asm)

lemma NewDNSRule_well_built: "NewDNSRule L legacy check opts = Ret (Inr (act, r)) \<Longrightarrow> well_built fresh_item r"
proof (induction opts arbitrary: check act r)
  case (RuleOptions ty d a mode rules neg la)
  show ?case
  proof (cases "ty = [] \<or> ty = RuleTypeDefault")
    case True
    with RuleOptions.prems show ?thesis
      by (auto intro: NewDefaultDNSRule_well_built split: if_splits option.split_asm)
  next
    case False
    then obtain rs where rs: "known_mode mode" "r = LogicalRule mode (map snd rs) neg"
      "sub_rules 0 (\<lambda>r. case validateNoNestedRuleActions no_dns_rule_action DNSRuleActionNestedUnsupported True r of
        Some e \<Rightarrow> Ret (Inl e) | None \<Rightarrow> NewDNSRule L legacy False r) rules = Ret (Inr rs)"
      using NewDNSRule_logical [OF RuleOptions.prems] by blast
    have "\<forall>y \<in> set rs. well_built fresh_item (snd y)"
      by (rule sub_rules_all [OF rs(3)]) (auto intro: RuleOptions.IH split: option.split_asm)
    with rs show ?thesis by simp
  qed
qed

lemma NewHeadlessRule_well_built: "NewHeadlessRule L opts = Ret (Inr r) \<Longrightarrow> well_built ok r"
proof (induction opts arbitrary: r)
  case (RuleOptions ty d a mode rules neg la)
  show ?case
  proof (cases "ty = [] \<or> ty = RuleTypeDefault")
    case True
    with RuleOptions.prems show ?thesis by (auto intro: NewDefaultHeadlessRule_well_built split: if_splits)
  next
    case False
    with RuleOptions.prems obtain rs where rs: "known_mode mode" "r = LogicalRule mode rs neg"
      "sub_rules 0 (NewHeadlessRule L) rules = Ret (Inr rs)"
      by (auto simp: go_bind_Ret_iff result_iffs split: if_split_asm)
    have "\<forall>y \<in> set rs. well_built ok y"
      by (rule sub_rules_all [OF rs(3)]) (rule RuleOptions.IH)
    with rs show ?thesis by simp
  qed
qed

text \<open>Consequences for the semantics: what the theorems about matching ask of a default rule.\<close>

lemma partitioned_wf: "partitioned r \<Longrightarrow> wf_default r"
proof -
  assume p: "partitioned r"
  then have "set (group_items g r) = {it \<in> set (allItems r). group_of it = g}" for g
    by (simp add: partitioned_def)
  note groups = this [of InItems] this [of InSourceAddress] this [of InSourcePort] this [of InDestinationAddress]
    this [of InDestinationIPCIDR] this [of InDestinationPort]
  have "group_of it \<in> {InItems, InSourceAddress, InSourcePort, InDestinationAddress, InDestinationIPCIDR,
      InDestinationPort}" for it
    by (cases "group_of it") simp_all
  with groups show ?thesis unfolding wf_default_def by simp blast
qed

end
