(* ===== verification/RuleSets.thy ===== *)
theory RuleSets
  imports RuleBuildSafety
begin

text \<open>
  Rule sets (\<open>src/route/rule/rule_set.go\<close>, \<open>rule_set_local.go\<close>, \<open>rule_set_remote.go\<close>, and \<open>Start\<close> and
  \<open>Close\<close> of \<open>rule_item_rule_set.go\<close>): loading their rules, what their metadata says of them, updating a
  remote one, and counting the items that use them. The decoders of rule-set files, the HTTP
  exchange and the cache file are arguments. The goroutine that waits for the ticker is not modelled, its
  body \<open>updateOnce\<close> is.
\<close>

section \<open>Metadata\<close>

type_synonym headless_options = "(DefaultHeadlessRule, unit) rule_options"

fun HasHeadlessRule1 :: "(DefaultHeadlessRule \<Rightarrow> bool) \<Rightarrow> headless_options \<Rightarrow> bool" where
  "HasHeadlessRule1 cond (RuleOptions ty d a mode rules neg la) \<longleftrightarrow>
     (if ty = RuleTypeDefault then cond d
      else ty = RuleTypeLogical \<and> (\<exists>r \<in> set rules. HasHeadlessRule1 cond r))"

definition HasHeadlessRule :: "headless_options list \<Rightarrow> (DefaultHeadlessRule \<Rightarrow> bool) \<Rightarrow> bool" where
  "HasHeadlessRule rules cond \<longleftrightarrow> (\<exists>r \<in> set rules. HasHeadlessRule1 cond r)"

definition isProcessHeadlessRule :: "DefaultHeadlessRule \<Rightarrow> bool" where
  "isProcessHeadlessRule r \<longleftrightarrow>
     o_ProcessName r \<noteq> [] \<or> o_ProcessPath r \<noteq> [] \<or> o_ProcessPathRegex r \<noteq> [] \<or> o_PackageName r \<noteq> []"

definition isWIFIHeadlessRule :: "DefaultHeadlessRule \<Rightarrow> bool" where
  "isWIFIHeadlessRule r \<longleftrightarrow> o_WIFISSID r \<noteq> [] \<or> o_WIFIBSSID r \<noteq> []"

definition isIPCIDRHeadlessRule :: "DefaultHeadlessRule \<Rightarrow> bool" where
  "isIPCIDRHeadlessRule r \<longleftrightarrow> o_IPCIDR r \<noteq> [] \<or> h_IPSet r \<noteq> None"

definition isDNSQueryTypeHeadlessRule :: "DefaultHeadlessRule \<Rightarrow> bool" where
  "isDNSQueryTypeHeadlessRule r \<longleftrightarrow> h_QueryType r \<noteq> []"

record RuleSetMetadata =
  ContainsProcessRule :: bool
  ContainsWIFIRule :: bool
  ContainsIPCIDRRule :: bool
  ContainsDNSQueryTypeRule :: bool

definition buildRuleSetMetadata :: "headless_options list \<Rightarrow> RuleSetMetadata" where
  "buildRuleSetMetadata headlessRules =
     \<lparr>ContainsProcessRule = HasHeadlessRule headlessRules isProcessHeadlessRule,
      ContainsWIFIRule = HasHeadlessRule headlessRules isWIFIHeadlessRule,
      ContainsIPCIDRRule = HasHeadlessRule headlessRules isIPCIDRHeadlessRule,
      ContainsDNSQueryTypeRule = HasHeadlessRule headlessRules isDNSQueryTypeHeadlessRule\<rparr>"

section \<open>A rule set\<close>

text \<open>
  \<open>rs_refs\<close> is the number of items that use the set, \<open>rs_callbacks\<close> the callbacks by the order of their
  registration; the last two fields are those of a remote rule set.
\<close>

record rule_set =
  rs_tag :: string
  rs_rules :: "headless_rule list"
  rs_metadata :: RuleSetMetadata
  rs_format :: string
  rs_refs :: int
  rs_callbacks :: "nat list"
  rs_lastUpdated :: gotime
  rs_lastEtag :: string

record rule_set_libs =
  UnmarshalExtended :: "string \<Rightarrow> go_error + int \<times> headless_options list"
  srs_Read :: "string \<Rightarrow> go_error + int \<times> headless_options list"
  validator :: "(string \<Rightarrow> RuleSetMetadata \<Rightarrow> go_error option) option"

definition validateRuleSetMetadataUpdate :: "rule_set_libs \<Rightarrow> string \<Rightarrow> RuleSetMetadata \<Rightarrow> go_error option" where
  "validateRuleSetMetadataUpdate R tag md = (case validator R of None \<Rightarrow> None | Some v \<Rightarrow> v tag md)"

text \<open>\<open>PlainRuleSetCompat.Upgrade\<close>: the rules of a version that is known.\<close>

definition Upgrade :: "int \<times> headless_options list \<Rightarrow> go_error + headless_options list" where
  "Upgrade f =
     (if fst f \<in> {1, 2, 3, 4} then Inr (snd f) else Inl (ENew [''unknown rule-set version: '', itoa (fst f)]))"

fun build_rules :: "nat \<Rightarrow> rule_libs \<Rightarrow> headless_options list \<Rightarrow> (go_error + headless_rule list) go" where
  "build_rules i L [] = Ret (Inr [])"
| "build_rules i L (opts # rest) =
     go_bind (NewHeadlessRule L opts) (\<lambda>r. case r of
         Inl e \<Rightarrow> Ret (Inl (ECause e [''parse rule_set.rules.['', dec i, '']'']))
       | Inr r \<Rightarrow> go_bind (build_rules (Suc i) L rest) (\<lambda>rs. Ret (map_sum id (\<lambda>rs. r # rs) rs)))"

text \<open>
  \<open>reloadRules\<close>: the new rules and their metadata are in place before the callbacks run. The result
  is the error, the rule set and the callbacks that were called.
\<close>

type_synonym load_result = "go_error option \<times> rule_set \<times> nat list"

definition reloadRules :: "rule_libs \<Rightarrow> rule_set_libs \<Rightarrow> headless_options list \<Rightarrow> rule_set \<Rightarrow> load_result go" where
  "reloadRules L R headlessRules s =
     go_bind (build_rules 0 L headlessRules) (\<lambda>rules.
       case rules of
         Inl e \<Rightarrow> Ret (Some e, s, [])
       | Inr rules \<Rightarrow>
           (let md = buildRuleSetMetadata headlessRules
            in case validateRuleSetMetadataUpdate R (rs_tag s) md of
                 Some e \<Rightarrow> Ret (Some e, s, [])
               | None \<Rightarrow> Ret (None, s\<lparr>rs_rules := rules, rs_metadata := md\<rparr>, rs_callbacks s)))"

text \<open>
  \<open>LocalRuleSet.reloadFile\<close> and \<open>RemoteRuleSet.loadBytes\<close> decode by the format and go on the same way;
  a local set may leave the format out. Reading a local file may fail.
\<close>

definition load_decoded ::
    "rule_libs \<Rightarrow> rule_set_libs \<Rightarrow> go_error + int \<times> headless_options list \<Rightarrow> rule_set \<Rightarrow> load_result go" where
  "load_decoded L R decoded s =
     (case decoded of
        Inl e \<Rightarrow> Ret (Some e, s, [])
      | Inr f \<Rightarrow>
          (case Upgrade f of
             Inl e \<Rightarrow> Ret (Some e, s, [])
           | Inr rules \<Rightarrow> reloadRules L R rules s))"

definition unknown_format :: "string \<Rightarrow> go_error" where
  "unknown_format fmt = ENew [''unknown rule-set format: '', fmt]"

definition reloadFile :: "rule_libs \<Rightarrow> rule_set_libs \<Rightarrow> go_error + string \<Rightarrow> rule_set \<Rightarrow> load_result go" where
  "reloadFile L R file s =
     (if rs_format s = ''source'' \<or> rs_format s = '''' then
        (case file of Inl e \<Rightarrow> Ret (Some e, s, []) | Inr content \<Rightarrow> load_decoded L R (UnmarshalExtended R content) s)
      else if rs_format s = ''binary'' then
        (case file of Inl e \<Rightarrow> Ret (Some e, s, []) | Inr content \<Rightarrow> load_decoded L R (srs_Read R content) s)
      else Ret (Some (unknown_format (rs_format s)), s, []))"

definition loadBytes :: "rule_libs \<Rightarrow> rule_set_libs \<Rightarrow> string \<Rightarrow> rule_set \<Rightarrow> load_result go" where
  "loadBytes L R content s =
     (if rs_format s = ''source'' then load_decoded L R (UnmarshalExtended R content) s
      else if rs_format s = ''binary'' then load_decoded L R (srs_Read R content) s
      else Ret (Some (unknown_format (rs_format s)), s, []))"

definition IncRef :: "rule_set \<Rightarrow> rule_set" where
  "IncRef s = s\<lparr>rs_refs := rs_refs s + 1\<rparr>"

definition DecRef :: "rule_set \<Rightarrow> rule_set go" where
  "DecRef s =
     (if rs_refs s - 1 < 0 then Panic (ENew [''rule-set: negative refs'']) else Ret (s\<lparr>rs_refs := rs_refs s - 1\<rparr>))"

definition Cleanup :: "rule_set \<Rightarrow> rule_set" where
  "Cleanup s = (if rs_refs s = 0 then s\<lparr>rs_rules := []\<rparr> else s)"

text \<open>The IP sets of the destination conditions of a rule, also inside logical rules.\<close>

fun item_ip_set :: "rule_item \<Rightarrow> (addr \<Rightarrow> bool) list" where
  "item_ip_set (IPCIDRItem src s) = [s]"
| "item_ip_set _ = []"

fun extractIPSetFromRule :: "headless_rule \<Rightarrow> (addr \<Rightarrow> bool) list" where
  "extractIPSetFromRule (DefaultRule r rs mr) = concat (map item_ip_set (destinationIPCIDRItems r))"
| "extractIPSetFromRule (LogicalRule mode rules neg) = concat (map extractIPSetFromRule rules)"

definition ExtractIPSet :: "rule_set \<Rightarrow> (addr \<Rightarrow> bool) list" where
  "ExtractIPSet s = concat (map extractIPSetFromRule (rs_rules s))"

section \<open>Updating a remote rule set\<close>

text \<open>
  The answer of the server to the request, which carries the last tag: an error of the exchange, or
  a status, the \<open>Etag\<close> header and the body, which may fail to arrive. The cache is what it holds for
  this rule set, if there is a cache file; \<open>save\<close> says whether a write fails.
\<close>

record http_answer =
  ans_StatusCode :: int
  ans_Status :: string
  ans_Etag :: string
  ans_Body :: "go_error + string"

record saved_set =
  sv_Content :: string
  sv_LastUpdated :: gotime
  sv_LastEtag :: string

record cache_file =
  cf_Saved :: "saved_set option"
  cf_SaveFails :: bool

definition SaveRuleSet :: "saved_set \<Rightarrow> cache_file \<Rightarrow> cache_file" where
  "SaveRuleSet sv c = (if cf_SaveFails c then c else c\<lparr>cf_Saved := Some sv\<rparr>)"

definition fetch ::
    "rule_libs \<Rightarrow> rule_set_libs \<Rightarrow> (string \<Rightarrow> go_error + http_answer) \<Rightarrow> gotime \<Rightarrow> rule_set \<Rightarrow> cache_file option \<Rightarrow>
     (go_error option \<times> rule_set \<times> cache_file option \<times> nat list) go" where
  "fetch L R do_request timeNow s cache =
     (case do_request (rs_lastEtag s) of
        Inl e \<Rightarrow> Ret (Some e, s, cache, [])
      | Inr answer \<Rightarrow>
          if ans_StatusCode answer = 304 then
            Ret (None, s\<lparr>rs_lastUpdated := timeNow\<rparr>,
              map_option (\<lambda>c. case cf_Saved c of
                  None \<Rightarrow> c
                | Some sv \<Rightarrow> SaveRuleSet (sv\<lparr>sv_LastUpdated := timeNow\<rparr>) c) cache, [])
          else if ans_StatusCode answer \<noteq> 200 then
            Ret (Some (ENew [''unexpected status: '', ans_Status answer]), s, cache, [])
          else
            (case ans_Body answer of
               Inl e \<Rightarrow> Ret (Some e, s, cache, [])
             | Inr content \<Rightarrow>
                 go_bind (loadBytes L R content s) (\<lambda>(err, s', called).
                   case err of
                     Some e \<Rightarrow> Ret (Some e, s', cache, called)
                   | None \<Rightarrow>
                       (let s'' = s'\<lparr>rs_lastEtag := (if ans_Etag answer \<noteq> '''' then ans_Etag answer else rs_lastEtag s'),
                              rs_lastUpdated := timeNow\<rparr>
                        in Ret (None, s'',
                             map_option (SaveRuleSet \<lparr>sv_Content = content, sv_LastUpdated = timeNow,
                               sv_LastEtag = rs_lastEtag s''\<rparr>) cache, called)))))"

definition updateOnce ::
    "rule_libs \<Rightarrow> rule_set_libs \<Rightarrow> (string \<Rightarrow> go_error + http_answer) \<Rightarrow> gotime \<Rightarrow> rule_set \<Rightarrow> cache_file option \<Rightarrow>
     (rule_set \<times> cache_file option \<times> nat list) go" where
  "updateOnce L R do_request timeNow s cache =
     go_bind (fetch L R do_request timeNow s cache) (\<lambda>(err, s', cache', called).
       Ret (if err = None \<and> rs_refs s' = 0 then s'\<lparr>rs_rules := []\<rparr> else s', cache', called))"

text \<open>\<open>StartContext\<close>: what the cache file has, or a first fetch.\<close>

definition StartContext ::
    "rule_libs \<Rightarrow> rule_set_libs \<Rightarrow> (string \<Rightarrow> go_error + http_answer) \<Rightarrow> gotime \<Rightarrow> rule_set \<Rightarrow> cache_file option \<Rightarrow>
     (go_error option \<times> rule_set \<times> cache_file option \<times> nat list) go" where
  "StartContext L R do_request timeNow s cache =
     go_bind
       (case Option.bind cache cf_Saved of
          None \<Rightarrow> Ret (None, s, [])
        | Some sv \<Rightarrow>
            go_bind (loadBytes L R (sv_Content sv) s) (\<lambda>(err, s', called).
              case err of
                Some e \<Rightarrow> Ret (Some (ECause e [''restore cached rule-set'']), s', called)
              | None \<Rightarrow> Ret (None, s'\<lparr>rs_lastUpdated := sv_LastUpdated sv, rs_lastEtag := sv_LastEtag sv\<rparr>, called)))
       (\<lambda>(err, s', called).
         if err \<noteq> None then Ret (err, s', cache, called)
         else if IsZero (rs_lastUpdated s') then
           go_bind (fetch L R do_request timeNow s' cache) (\<lambda>(err, s'', cache', called').
             Ret (map_option (\<lambda>e. ECause e [''initial rule-set: '', rs_tag s]) err, s'', cache', called @ called'))
         else Ret (None, s', cache, called))"

section \<open>Items that use rule sets\<close>

text \<open>The rule sets of the router by their tags. \<open>Close\<close> of an item gives back what it holds.\<close>

type_synonym rule_sets = "string \<rightharpoonup> rule_set"

fun release :: "string list \<Rightarrow> rule_sets \<Rightarrow> rule_sets go" where
  "release [] \<Sigma> = Ret \<Sigma>"
| "release (tag # tags) \<Sigma> =
     (case \<Sigma> tag of
        None \<Rightarrow> release tags \<Sigma>
      | Some s \<Rightarrow> go_bind (DecRef s) (\<lambda>s'. release tags (\<Sigma>(tag \<mapsto> s'))))"

definition RuleSetItem_Close :: "ruleSetItem \<Rightarrow> rule_sets \<Rightarrow> (ruleSetItem \<times> rule_sets) go" where
  "RuleSetItem_Close it \<Sigma> = go_bind (release (setList it) \<Sigma>) (\<lambda>\<Sigma>'. Ret (it\<lparr>setList := []\<rparr>, \<Sigma>'))"

fun acquire :: "string list \<Rightarrow> ruleSetItem \<Rightarrow> rule_sets \<Rightarrow> (go_error option \<times> ruleSetItem \<times> rule_sets) go" where
  "acquire [] it \<Sigma> = Ret (None, it, \<Sigma>)"
| "acquire (tag # tags) it \<Sigma> =
     (case \<Sigma> tag of
        None \<Rightarrow>
          go_bind (RuleSetItem_Close it \<Sigma>) (\<lambda>(it', \<Sigma>'). Ret (Some (ENew [''rule-set not found: '', tag]), it', \<Sigma>'))
      | Some s \<Rightarrow> acquire tags (it\<lparr>setList := setList it @ [tag]\<rparr>) (\<Sigma>(tag \<mapsto> IncRef s)))"

definition RuleSetItem_Start :: "ruleSetItem \<Rightarrow> rule_sets \<Rightarrow> (go_error option \<times> ruleSetItem \<times> rule_sets) go" where
  "RuleSetItem_Start it \<Sigma> = go_bind (RuleSetItem_Close it \<Sigma>) (\<lambda>(it', \<Sigma>'). acquire (tagList it') it' \<Sigma>')"

section \<open>What the metadata says\<close>

text \<open>The items the steps of a constructor put into a group.\<close>

fun step_items :: "item_group \<Rightarrow> build_step \<Rightarrow> rule_item list" where
  "step_items g (Put c g' it) = (if c \<and> g' = g then [it] else [])"
| "step_items g (Try c g' x) = (if c \<and> g' = g then (case x of Inr it \<Rightarrow> [it] | Inl e \<Rightarrow> []) else [])"
| "step_items g (Refuse c e) = []"

lemma build_steps_items:
  "build_steps ss r = Inr r' \<Longrightarrow> group_items g r' = group_items g r @ concat (map (step_items g) ss)"
  by (induction ss r rule: build_steps.induct) (auto simp: add_item_fields split: if_splits sum.splits)

lemma shared_steps_no_addresses:
  "concat (map (step_items InDestinationIPCIDR) (port_steps opts)) = []"
  "concat (map (step_items InDestinationIPCIDR) (process_steps L opts)) = []"
  "concat (map (step_items InDestinationIPCIDR) (network_steps opts)) = []"
  "concat (map (step_items InDestinationIPCIDR) (interface_steps opts)) = []"
  by (simp_all add: port_steps_def process_steps_def network_steps_def interface_steps_def)

lemma headless_addresses:
  assumes "build_steps (default_headless_rule_steps L opts) (empty_rule neg) = Inr r"
  shows "destinationIPCIDRItems r \<noteq> [] \<longleftrightarrow> isIPCIDRHeadlessRule opts"
proof -
  have ok: "NewIPCIDRItem L False (o_IPCIDR opts) \<noteq> Inl e" if "o_IPCIDR opts \<noteq> []" for e
  proof
    assume "NewIPCIDRItem L False (o_IPCIDR opts) = Inl e"
    then have "Try True InDestinationIPCIDR (Inl (ECause e [''ipcidr''])) \<in> set (default_headless_rule_steps L opts)"
      using that by (simp add: default_headless_rule_steps_def cause_def)
    moreover have "build_steps ss s \<noteq> Inr t" if "Try True g (Inl e) \<in> set ss" for g e ss s t
      using that by (induction ss s rule: build_steps.induct) (auto split: sum.split)
    ultimately show False using assms by blast
  qed
  have "destinationIPCIDRItems r =
      concat (map (step_items InDestinationIPCIDR) (default_headless_rule_steps L opts))"
    using build_steps_items [OF assms, of InDestinationIPCIDR] by (simp add: empty_rule_def)
  then show ?thesis
  proof (cases "o_IPCIDR opts = []")
    case False
    then obtain it where "NewIPCIDRItem L False (o_IPCIDR opts) = Inr it" using ok by (metis sum.exhaust)
    then show ?thesis using False \<open>destinationIPCIDRItems r = _\<close>
      by (simp add: default_headless_rule_steps_def isIPCIDRHeadlessRule_def cause_def)
  qed (simp add: default_headless_rule_steps_def shared_steps_no_addresses isIPCIDRHeadlessRule_def)
qed

fun asks_addresses :: "'rs rule \<Rightarrow> bool" where
  "asks_addresses (DefaultRule r rs mr) \<longleftrightarrow> destinationIPCIDRItems r \<noteq> []"
| "asks_addresses (LogicalRule mode rules neg) \<longleftrightarrow> (\<exists>r \<in> set rules. asks_addresses r)"

text \<open>Options as decoding leaves them: every type is written out.\<close>

fun typed :: "('d, 'a) rule_options \<Rightarrow> bool" where
  "typed (RuleOptions ty d a mode rules neg la) \<longleftrightarrow>
     ty = RuleTypeDefault \<or> ty = RuleTypeLogical \<and> (\<forall>r \<in> set rules. typed r)"

lemma type_names [simp]:
  "RuleTypeDefault \<noteq> []" "RuleTypeLogical \<noteq> []" "RuleTypeDefault \<noteq> RuleTypeLogical" "RuleTypeLogical \<noteq> RuleTypeDefault"
  by (simp_all add: RuleTypeDefault_def RuleTypeLogical_def)

lemma sub_rules_list_all2:
  "sub_rules i f xs = Ret (Inr ys) \<Longrightarrow> list_all2 (\<lambda>x y. f x = Ret (Inr y)) xs ys"
proof (induction xs arbitrary: i ys)
  case (Cons x xs)
  then obtain y zs where "f x = Ret (Inr y)" "sub_rules (Suc i) f xs = Ret (Inr zs)" "ys = y # zs"
    by (auto simp: go_bind_Ret_iff result_iffs)
  with Cons.IH show ?case by auto
qed simp

lemma list_all2_bex:
  assumes "list_all2 P xs ys" "\<And>x y. x \<in> set xs \<Longrightarrow> P x y \<Longrightarrow> Q x \<longleftrightarrow> R y"
  shows "(\<exists>x \<in> set xs. Q x) \<longleftrightarrow> (\<exists>y \<in> set ys. R y)"
  using assms by (induction rule: list_all2_induct) auto

lemma headless_asks_addresses:
  "NewHeadlessRule L opts = Ret (Inr r) \<Longrightarrow> typed opts \<Longrightarrow>
    asks_addresses r \<longleftrightarrow> HasHeadlessRule1 isIPCIDRHeadlessRule opts"
proof (induction opts arbitrary: r)
  case (RuleOptions ty d a mode rules neg la)
  show ?case
  proof (cases "ty = RuleTypeDefault")
    case True
    then obtain b where "build_steps (default_headless_rule_steps L d) (empty_rule (o_Invert d)) = Inr b"
      "r = DefaultRule b None False"
      using RuleOptions.prems(1) by (auto simp: NewDefaultHeadlessRule_def result_iffs split: if_splits)
    with headless_addresses True show ?thesis by simp
  next
    case False
    then have ty: "ty = RuleTypeLogical" "\<forall>r \<in> set rules. typed r" using RuleOptions.prems(2) by auto
    with RuleOptions.prems(1) obtain rs where rs: "r = LogicalRule mode rs neg"
      "sub_rules 0 (NewHeadlessRule L) rules = Ret (Inr rs)"
      by (auto simp: go_bind_Ret_iff result_iffs split: if_split_asm)
    have "(\<exists>x \<in> set rules. HasHeadlessRule1 isIPCIDRHeadlessRule x) \<longleftrightarrow> (\<exists>y \<in> set rs. asks_addresses y)"
      by (rule list_all2_bex [OF sub_rules_list_all2 [OF rs(2)]]) (use RuleOptions.IH ty in auto)
    with rs ty show ?thesis by simp
  qed
qed

lemma build_rules_addresses:
  "build_rules i L opts = Ret (Inr rules) \<Longrightarrow> \<forall>x \<in> set opts. typed x \<Longrightarrow>
    (\<exists>r \<in> set rules. asks_addresses r) \<longleftrightarrow> HasHeadlessRule opts isIPCIDRHeadlessRule"
proof (induction opts arbitrary: i rules)
  case (Cons x opts)
  then obtain r rs where "NewHeadlessRule L x = Ret (Inr r)" "build_rules (Suc i) L opts = Ret (Inr rs)" "rules = r # rs"
    by (auto simp: go_bind_Ret_iff result_iffs)
  with Cons headless_asks_addresses show ?case by (auto simp: HasHeadlessRule_def)
qed (simp add: HasHeadlessRule_def)

text \<open>
  A rule set whose metadata admits every address condition of its rules; the decoders give typed
  options.
\<close>

definition described :: "rule_set \<Rightarrow> bool" where
  "described s \<longleftrightarrow> ((\<exists>r \<in> set (rs_rules s). asks_addresses r) \<longrightarrow> ContainsIPCIDRRule (rs_metadata s))"

definition typed_decoders :: "rule_set_libs \<Rightarrow> bool" where
  "typed_decoders R \<longleftrightarrow>
     (\<forall>content v opts. UnmarshalExtended R content = Inr (v, opts) \<or> srs_Read R content = Inr (v, opts) \<longrightarrow>
        (\<forall>x \<in> set opts. typed x))"

lemma reloadRules_result:
  assumes "reloadRules L R opts s = Ret (err, s', called)"
  shows "err \<noteq> None \<and> s' = s \<and> called = [] \<or>
    err = None \<and> called = rs_callbacks s \<and>
      (\<exists>rules. build_rules 0 L opts = Ret (Inr rules) \<and>
        s' = s\<lparr>rs_rules := rules, rs_metadata := buildRuleSetMetadata opts\<rparr>)"
proof -
  obtain rules where rules: "build_rules 0 L opts = Ret rules"
    using assms by (auto simp: reloadRules_def go_bind_Ret_iff)
  with assms show ?thesis
    by (cases rules; cases "validateRuleSetMetadataUpdate R (rs_tag s) (buildRuleSetMetadata opts)")
      (auto simp: reloadRules_def)
qed

lemma load_decoded_result:
  assumes "load_decoded L R decoded s = Ret (err, s', called)"
  shows "err \<noteq> None \<and> s' = s \<and> called = [] \<or>
    err = None \<and> called = rs_callbacks s \<and>
      (\<exists>v opts rules. decoded = Inr (v, opts) \<and> build_rules 0 L opts = Ret (Inr rules) \<and>
        s' = s\<lparr>rs_rules := rules, rs_metadata := buildRuleSetMetadata opts\<rparr>)"
proof (cases decoded)
  case (Inr f)
  show ?thesis
  proof (cases "Upgrade f")
    case (Inr rules)
    then have "rules = snd f" by (simp add: Upgrade_def split: if_splits)
    with Inr \<open>decoded = Inr f\<close> assms show ?thesis
      using reloadRules_result [of L R rules s err s' called] by (cases f) (auto simp: load_decoded_def)
  qed (use assms \<open>decoded = Inr f\<close> in \<open>auto simp: load_decoded_def\<close>)
qed (use assms in \<open>auto simp: load_decoded_def\<close>)

lemma loadBytes_result:
  assumes "loadBytes L R content s = Ret (err, s', called)"
  shows "err \<noteq> None \<and> s' = s \<and> called = [] \<or>
    err = None \<and> called = rs_callbacks s \<and>
      (\<exists>v opts rules. (UnmarshalExtended R content = Inr (v, opts) \<or> srs_Read R content = Inr (v, opts)) \<and>
        build_rules 0 L opts = Ret (Inr rules) \<and>
        s' = s\<lparr>rs_rules := rules, rs_metadata := buildRuleSetMetadata opts\<rparr>)"
proof -
  consider "rs_format s = ''source''" | "rs_format s = ''binary''" | "rs_format s \<noteq> ''source''" "rs_format s \<noteq> ''binary''"
    by blast
  then show ?thesis
  proof cases
    case 1
    then show ?thesis using assms load_decoded_result [of L R "UnmarshalExtended R content" s err s' called]
      by (simp add: loadBytes_def) blast
  next
    case 2
    then show ?thesis using assms load_decoded_result [of L R "srs_Read R content" s err s' called]
      by (simp add: loadBytes_def) blast
  qed (use assms in \<open>auto simp: loadBytes_def\<close>)
qed

lemma loadBytes_described:
  assumes "loadBytes L R content s = Ret (err, s', called)" "typed_decoders R" "described s"
  shows "described s'"
proof (cases "err = None")
  case True
  then obtain v opts rules where
    "UnmarshalExtended R content = Inr (v, opts) \<or> srs_Read R content = Inr (v, opts)"
    "build_rules 0 L opts = Ret (Inr rules)" "s' = s\<lparr>rs_rules := rules, rs_metadata := buildRuleSetMetadata opts\<rparr>"
    using loadBytes_result [OF assms(1)] by auto
  moreover then have "\<forall>x \<in> set opts. typed x" using assms(2) unfolding typed_decoders_def by blast
  ultimately show ?thesis
    using build_rules_addresses by (simp add: described_def buildRuleSetMetadata_def)
qed (use loadBytes_result [OF assms(1)] assms(3) in auto)

text \<open>Updates are atomic: an error leaves the rule set, the cache and the callbacks alone.\<close>

lemma fetch_error:
  assumes "fetch L R do_request timeNow s cache = Ret (Some e, s', cache', called)"
  shows "s' = s \<and> cache' = cache \<and> called = []"
proof (cases "do_request (rs_lastEtag s)")
  case (Inr answer)
  show ?thesis
  proof (cases "ans_StatusCode answer = 200")
    case True
    show ?thesis
    proof (cases "ans_Body answer")
      case (Inr content)
      from assms \<open>do_request _ = _\<close> True Inr obtain l where l: "loadBytes L R content s = Ret l"
        by (auto simp: fetch_def go_bind_Ret_iff)
      obtain err s1 c1 where "l = (err, s1, c1)" by (cases l)
      with assms \<open>do_request _ = _\<close> True Inr l show ?thesis
        using loadBytes_result [of L R content s err s1 c1] by (cases err) (auto simp: fetch_def Let_def)
    qed (use assms Inr True in \<open>auto simp: fetch_def\<close>)
  qed (use assms Inr in \<open>auto simp: fetch_def split: if_splits\<close>)
qed (use assms in \<open>auto simp: fetch_def\<close>)

lemma fetch_described:
  assumes "fetch L R do_request timeNow s cache = Ret (err, s', cache', called)" "typed_decoders R" "described s"
  shows "described s' \<and> rs_refs s' = rs_refs s"
proof (cases err)
  case (Some e)
  then show ?thesis using fetch_error assms by blast
next
  case None
  with assms(1) obtain answer where a: "do_request (rs_lastEtag s) = Inr answer"
    by (cases "do_request (rs_lastEtag s)") (auto simp: fetch_def)
  show ?thesis
  proof (cases "ans_StatusCode answer = 304")
    case True
    with assms a None show ?thesis by (auto simp: fetch_def described_def)
  next
    case False
    with assms(1) a None obtain content where c: "ans_StatusCode answer = 200" "ans_Body answer = Inr content"
      by (cases "ans_Body answer") (auto simp: fetch_def split: if_splits)
    with assms(1) a None False obtain l where l: "loadBytes L R content s = Ret l"
      by (auto simp: fetch_def go_bind_Ret_iff)
    obtain err' s1 c1 where l': "l = (err', s1, c1)" by (cases l)
    with assms(1) a None False c l have "err' = None" by (cases err') (auto simp: fetch_def)
    with assms(1) a None False c l l' loadBytes_described [of L R content s err' s1 c1] assms(2,3)
      loadBytes_result [of L R content s err' s1 c1]
    show ?thesis by (auto simp: fetch_def Let_def described_def)
  qed
qed

section \<open>Counting users\<close>

definition refs_of :: "rule_sets \<Rightarrow> string \<Rightarrow> int" where
  "refs_of \<Sigma> tag = (case \<Sigma> tag of None \<Rightarrow> 0 | Some s \<Rightarrow> rs_refs s)"

lemma refs_of_upd [simp]: "refs_of (\<Sigma>(t \<mapsto> s)) tag = (if tag = t then rs_refs s else refs_of \<Sigma> tag)"
  by (simp add: refs_of_def)

lemma release_ok:
  assumes "set tags \<subseteq> dom \<Sigma>" "\<And>tag. int (count_list tags tag) \<le> refs_of \<Sigma> tag"
  shows "\<exists>\<Sigma>'. release tags \<Sigma> = Ret \<Sigma>' \<and> dom \<Sigma>' = dom \<Sigma> \<and>
    (\<forall>tag. refs_of \<Sigma>' tag = refs_of \<Sigma> tag - int (count_list tags tag))"
  using assms
proof (induction tags arbitrary: \<Sigma>)
  case (Cons t tags)
  then obtain s where s: "\<Sigma> t = Some s" by auto
  have "1 \<le> rs_refs s" using Cons.prems(2) [of t] s by (simp add: refs_of_def)
  then have d: "DecRef s = Ret (s\<lparr>rs_refs := rs_refs s - 1\<rparr>)" by (simp add: DecRef_def)
  let ?\<Sigma> = "\<Sigma>(t \<mapsto> s\<lparr>rs_refs := rs_refs s - 1\<rparr>)"
  have "int (count_list tags tag) \<le> refs_of ?\<Sigma> tag" for tag
    using Cons.prems(2) [of tag] s by (auto simp: refs_of_def split: if_splits)
  moreover have "set tags \<subseteq> dom ?\<Sigma>" using Cons.prems(1) by auto
  ultimately obtain \<Sigma>' where \<Sigma>': "release tags ?\<Sigma> = Ret \<Sigma>'" "dom \<Sigma>' = dom ?\<Sigma>"
    "\<forall>tag. refs_of \<Sigma>' tag = refs_of ?\<Sigma> tag - int (count_list tags tag)"
    using Cons.IH by blast
  moreover have "dom ?\<Sigma> = dom \<Sigma>" using s by auto
  moreover have "refs_of \<Sigma> t = rs_refs s" using s by (simp add: refs_of_def)
  ultimately show ?case using s d by (intro exI [of _ \<Sigma>']) auto
qed simp

lemma RuleSetItem_Close_ok:
  assumes "set (setList it) \<subseteq> dom \<Sigma>" "\<And>tag. int (count_list (setList it) tag) \<le> refs_of \<Sigma> tag"
  shows "\<exists>\<Sigma>'. RuleSetItem_Close it \<Sigma> = Ret (it\<lparr>setList := []\<rparr>, \<Sigma>') \<and> dom \<Sigma>' = dom \<Sigma> \<and>
    (\<forall>tag. refs_of \<Sigma>' tag = refs_of \<Sigma> tag - int (count_list (setList it) tag))"
  using release_ok [OF assms] by (auto simp: RuleSetItem_Close_def)

lemma acquire_ok:
  assumes "set (setList it) \<subseteq> dom \<Sigma>" "\<And>tag. int (count_list (setList it) tag) \<le> refs_of \<Sigma> tag"
  shows "\<exists>err it' \<Sigma>'. acquire tags it \<Sigma> = Ret (err, it', \<Sigma>') \<and> dom \<Sigma>' = dom \<Sigma> \<and> set (setList it') \<subseteq> dom \<Sigma> \<and>
    (err \<noteq> None \<longrightarrow> setList it' = []) \<and>
    (\<forall>tag. refs_of \<Sigma>' tag - int (count_list (setList it') tag) = refs_of \<Sigma> tag - int (count_list (setList it) tag))"
  using assms
proof (induction tags arbitrary: it \<Sigma>)
  case (Cons t tags)
  show ?case
  proof (cases "\<Sigma> t")
    case None
    with RuleSetItem_Close_ok [OF Cons.prems] show ?thesis by auto
  next
    case (Some s)
    let ?it = "it\<lparr>setList := setList it @ [t]\<rparr>" and ?\<Sigma> = "\<Sigma>(t \<mapsto> IncRef s)"
    have refs: "refs_of ?\<Sigma> tag = refs_of \<Sigma> tag + (if tag = t then 1 else 0)" for tag
      using Some by (simp add: IncRef_def refs_of_def)
    have "set (setList ?it) \<subseteq> dom ?\<Sigma>" using Cons.prems(1) by auto
    moreover have "int (count_list (setList ?it) tag) \<le> refs_of ?\<Sigma> tag" for tag
      using Cons.prems(2) [of tag] refs [of tag] by (auto simp: count_list_append)
    ultimately obtain err it' \<Sigma>' where "acquire tags ?it ?\<Sigma> = Ret (err, it', \<Sigma>')" "dom \<Sigma>' = dom ?\<Sigma>"
      "set (setList it') \<subseteq> dom ?\<Sigma>" "err \<noteq> None \<longrightarrow> setList it' = []"
      "\<forall>tag. refs_of \<Sigma>' tag - int (count_list (setList it') tag) =
        refs_of ?\<Sigma> tag - int (count_list (setList ?it) tag)"
      using Cons.IH [of ?it ?\<Sigma>] by blast
    moreover have "dom ?\<Sigma> = dom \<Sigma>" using Some by auto
    moreover have "refs_of ?\<Sigma> tag - int (count_list (setList ?it) tag) = refs_of \<Sigma> tag - int (count_list (setList it) tag)" for tag
      using refs [of tag] by (simp add: count_list_append)
    ultimately show ?thesis using Some by (intro exI [of _ err] exI [of _ it'] exI [of _ \<Sigma>']) simp
  qed
qed simp

lemma RuleSetItem_Start_ok:
  assumes "set (setList it) \<subseteq> dom \<Sigma>" "\<And>tag. int (count_list (setList it) tag) \<le> refs_of \<Sigma> tag"
  shows "\<exists>err it' \<Sigma>'. RuleSetItem_Start it \<Sigma> = Ret (err, it', \<Sigma>') \<and> dom \<Sigma>' = dom \<Sigma> \<and> set (setList it') \<subseteq> dom \<Sigma> \<and>
    (err \<noteq> None \<longrightarrow> setList it' = []) \<and>
    (\<forall>tag. refs_of \<Sigma>' tag - int (count_list (setList it') tag) = refs_of \<Sigma> tag - int (count_list (setList it) tag))"
proof -
  from RuleSetItem_Close_ok [OF assms] obtain \<Sigma>1 where c: "RuleSetItem_Close it \<Sigma> = Ret (it\<lparr>setList := []\<rparr>, \<Sigma>1)"
    "dom \<Sigma>1 = dom \<Sigma>" "\<forall>tag. refs_of \<Sigma>1 tag = refs_of \<Sigma> tag - int (count_list (setList it) tag)"
    by blast
  have "int (count_list (setList (it\<lparr>setList := []\<rparr>)) tag) \<le> refs_of \<Sigma>1 tag" for tag
    using c(3) assms(2) [of tag] by simp
  with acquire_ok [of "it\<lparr>setList := []\<rparr>" \<Sigma>1 "tagList it"] c show ?thesis
    by (auto simp: RuleSetItem_Start_def)
qed

text \<open>
  The items of all rules beside the rule sets of the router: every rule set counts exactly the items
  that hold it. Items are started and closed in any order.
\<close>

type_synonym users = "rule_sets \<times> ruleSetItem list"

definition held :: "string \<Rightarrow> ruleSetItem list \<Rightarrow> int" where
  "held tag its = (\<Sum>it \<leftarrow> its. int (count_list (setList it) tag))"

definition users_inv :: "users \<Rightarrow> bool" where
  "users_inv u \<longleftrightarrow>
     (\<forall>it \<in> set (snd u). set (setList it) \<subseteq> dom (fst u)) \<and> (\<forall>tag. refs_of (fst u) tag = held tag (snd u))"

definition users_init :: "users \<Rightarrow> bool" where
  "users_init u \<longleftrightarrow> (\<forall>tag. refs_of (fst u) tag = 0) \<and> (\<forall>it \<in> set (snd u). setList it = [])"

inductive users_step :: "users \<Rightarrow> users \<Rightarrow> bool" where
  start: "i < length its \<Longrightarrow> RuleSetItem_Start (its ! i) \<Sigma> = Ret (err, it, \<Sigma>') \<Longrightarrow>
    users_step (\<Sigma>, its) (\<Sigma>', its[i := it])"
| close: "i < length its \<Longrightarrow> RuleSetItem_Close (its ! i) \<Sigma> = Ret (it, \<Sigma>') \<Longrightarrow>
    users_step (\<Sigma>, its) (\<Sigma>', its[i := it])"
| load: "\<Sigma> tag = Some s \<Longrightarrow> rs_refs s' = rs_refs s \<Longrightarrow> users_step (\<Sigma>, its) (\<Sigma>(tag \<mapsto> s'), its)"

lemma held_update:
  "i < length its \<Longrightarrow>
    held tag (its[i := it]) = held tag its - int (count_list (setList (its ! i)) tag) + int (count_list (setList it) tag)"
  unfolding held_def by (induction its arbitrary: i) (auto split: nat.split simp: less_Suc_eq_0_disj)

lemma held_bound: "i < length its \<Longrightarrow> int (count_list (setList (its ! i)) tag) \<le> held tag its"
proof -
  assume i: "i < length its"
  have "0 \<le> held tag (its[i := it])" for it
    unfolding held_def by (rule sum_list_nonneg) auto
  from this [of "(its ! i)\<lparr>setList := []\<rparr>"] held_update [OF i] show ?thesis by simp
qed

lemma users_inv_item:
  assumes "users_inv (\<Sigma>, its)" "i < length its"
  shows "set (setList (its ! i)) \<subseteq> dom \<Sigma>" "int (count_list (setList (its ! i)) tag) \<le> refs_of \<Sigma> tag"
  using assms held_bound by (auto simp: users_inv_def)

lemma users_inv_update:
  assumes "users_inv (\<Sigma>, its)" "i < length its" "dom \<Sigma>' = dom \<Sigma>" "set (setList it) \<subseteq> dom \<Sigma>"
    "\<forall>tag. refs_of \<Sigma>' tag - int (count_list (setList it) tag) = refs_of \<Sigma> tag - int (count_list (setList (its ! i)) tag)"
  shows "users_inv (\<Sigma>', its[i := it])"
proof -
  have "refs_of \<Sigma>' tag = held tag (its[i := it])" for tag
    using assms(1) spec [OF assms(5), of tag] held_update [OF assms(2), of tag it] by (simp add: users_inv_def)
  moreover have "set (setList x) \<subseteq> dom \<Sigma>'" if "x \<in> set (its[i := it])" for x
  proof -
    have "x = it \<or> x \<in> set its" using that set_update_subset_insert [of its i it] by blast
    then show ?thesis using assms(1,3,4) by (auto simp: users_inv_def)
  qed
  ultimately show ?thesis by (simp add: users_inv_def)
qed

lemma users_step_inv: "users_step u v \<Longrightarrow> users_inv u \<Longrightarrow> users_inv v"
proof (induction rule: users_step.induct)
  case (start i its \<Sigma> err it \<Sigma>')
  with RuleSetItem_Start_ok [OF users_inv_item [OF start(3,1)]] users_inv_update [OF start(3,1)] show ?case
    by auto
next
  case (close i its \<Sigma> it \<Sigma>')
  with RuleSetItem_Close_ok [OF users_inv_item [OF close(3,1)]] users_inv_update [OF close(3,1)] show ?case
    by auto
next
  case (load \<Sigma> tag s s' its)
  then have "refs_of (\<Sigma>(tag \<mapsto> s')) t = refs_of \<Sigma> t" for t by (simp add: refs_of_def)
  with load show ?case by (auto simp: users_inv_def)
qed

interpretation rule_set_users: invariant_system users_init users_step users_inv
proof
  show "users_inv u" if "users_init u" for u
    using that by (auto simp: users_init_def users_inv_def held_def sum_list_0 cong: map_cong)
  show "users_inv v" if "users_inv u" "users_step u v" for u v
    using that users_step_inv by blast
qed

end
