(* ===== verification/Sniffing.thy ===== *)
theory Sniffing
  imports RuleAction
begin

text \<open>
  The \<open>sniff\<close> action (\<open>Router.actionSniff\<close> of \<open>src/route/route.go\<close> and \<open>src/common/sniff/sniff.go\<close>): when it is
  skipped, which sniffers are asked, how much is read for them, and what is kept of it. A sniffer itself is
  an argument: what it finds in the bytes and whether it fails. What a connection delivers before the
  deadline is a list of reads; when the list is at its end, the deadline has passed.
\<close>

section \<open>Peeking\<close>

definition ErrNeedMoreData :: go_error where
  "ErrNeedMoreData = ENew [''need more data'']"

text \<open>\<open>errors.Is(err, target)\<close> follows the causes of an error and the members of an aggregate.\<close>

fun error_is :: "go_error \<Rightarrow> go_error \<Rightarrow> bool" where
  "error_is target (EErrors es) \<longleftrightarrow> EErrors es = target \<or> (\<exists>e \<in> set es. error_is target e)"
| "error_is target (ECause e msg) \<longleftrightarrow> ECause e msg = target \<or> error_is target e"
| "error_is target (EExtend e msg) \<longleftrightarrow> EExtend e msg = target \<or> error_is target e"
| "error_is target (EFmt f args (Some e)) \<longleftrightarrow> EFmt f args (Some e) = target \<or> error_is target e"
| "error_is target e \<longleftrightarrow> e = target"

abbreviation needs_more_data :: "go_error \<Rightarrow> bool" where
  "needs_more_data e \<equiv> error_is ErrNeedMoreData e"

text \<open>A read that meets its deadline fails with this error.\<close>

definition DeadlineExceeded :: go_error where
  "DeadlineExceeded = EDriver ''context deadline exceeded''"

type_synonym 's sniffer_run = "'s \<Rightarrow> InboundContext \<Rightarrow> string \<Rightarrow> InboundContext \<times> go_error option"

text \<open>Sniffers one after the other, up to the first that finds its protocol; the errors of the others.\<close>

fun run_sniffers ::
    "'s sniffer_run \<Rightarrow> 's list \<Rightarrow> InboundContext \<Rightarrow> string \<Rightarrow> go_error list \<Rightarrow> InboundContext \<times> go_error option" where
  "run_sniffers run [] m content errs = (m, errors_of errs)"
| "run_sniffers run (s # ss) m content errs =
     (case run s m content of
        (m', None) \<Rightarrow> (m', None)
      | (m', Some e) \<Rightarrow> run_sniffers run ss m' content (errs @ [e]))"

text \<open>
  The loop of \<open>PeekStream\<close>, after \<open>i\<close> reads: \<open>before\<close> is what earlier actions read, \<open>buffer\<close> what this one
  did. It gives the context, the error, the buffer and the reads that are left.
\<close>

fun peek_loop ::
    "'s sniffer_run \<Rightarrow> 's list \<Rightarrow> string \<Rightarrow> (go_error + string) list \<Rightarrow> nat \<Rightarrow> InboundContext \<Rightarrow> string \<Rightarrow> go_error option \<Rightarrow>
     InboundContext \<times> go_error option \<times> string \<times> (go_error + string) list" where
  "peek_loop run sniffers earlier [] i m buffer sniffError =
     (if i > 0 then (m, sniffError, buffer, []) else (m, Some (ECause DeadlineExceeded [''read payload'']), buffer, []))"
| "peek_loop run sniffers earlier (Inl e # reads) i m buffer sniffError =
     (if i > 0 then (m, sniffError, buffer, reads) else (m, Some (ECause e [''read payload'']), buffer, reads))"
| "peek_loop run sniffers earlier (Inr chunk # reads) i m buffer sniffError =
     (let buffer' = buffer @ chunk;
          (m', err) = run_sniffers run sniffers m (earlier @ buffer') []
      in case err of
           None \<Rightarrow> (m', None, buffer', reads)
         | Some e \<Rightarrow>
             if needs_more_data e then peek_loop run sniffers earlier reads (Suc i) m' buffer' (Some e)
             else (m', Some e, buffer', reads))"

definition PeekStream ::
    "'s sniffer_run \<Rightarrow> 's list \<Rightarrow> string list \<Rightarrow> (go_error + string) list \<Rightarrow> InboundContext \<Rightarrow>
     InboundContext \<times> go_error option \<times> string \<times> (go_error + string) list" where
  "PeekStream run sniffers buffers reads m = peek_loop run sniffers (concat buffers) reads 0 m [] None"

definition PeekPacket ::
    "'s sniffer_run \<Rightarrow> 's list \<Rightarrow> string \<Rightarrow> InboundContext \<Rightarrow> InboundContext \<times> go_error option" where
  "PeekPacket run sniffers packet m = run_sniffers run sniffers m packet []"

definition sniff_Skip :: "InboundContext \<Rightarrow> bool" where
  "sniff_Skip m \<longleftrightarrow> sa_Port (ic_Destination m) \<in> {25, 465, 587, 143, 993, 110, 995}"

section \<open>The action\<close>

definition default_stream_sniffers :: "stream_sniffer list" where
  "default_stream_sniffers = [TLSClientHello, HTTPHost, StreamDomainNameQuery, StreamBitTorrent, SSH, RDP]"

definition default_packet_sniffers :: "packet_sniffer list" where
  "default_packet_sniffers = [DomainNameQuery, QUICClientHello, STUNMessage, UTP, UDPTracker, DTLSRecord, NTP]"

text \<open>A sniff with the same sniffers has failed for good before.\<close>

definition failed_before :: "RuleActionSniff \<Rightarrow> InboundContext \<Rightarrow> bool" where
  "failed_before a m \<longleftrightarrow>
     ic_SnifferNames m = SnifferNames a \<and>
     (case ic_SniffError m of None \<Rightarrow> False | Some e \<Rightarrow> \<not> needs_more_data e)"

definition sniffed :: "(string \<Rightarrow> bool) \<Rightarrow> RuleActionSniff \<Rightarrow> go_error option \<Rightarrow> InboundContext \<Rightarrow> InboundContext" where
  "sniffed IsDomainName a err m =
     (if err = None \<and> OverrideDestination a \<and> IsDomainName (ic_Domain m)
      then m\<lparr>ic_Destination := \<lparr>sa_Addr = NoAddr, sa_Port = sa_Port (ic_Destination m), sa_Fqdn = ic_Domain m\<rparr>\<rparr>
      else m)"

text \<open>On a stream: the context, a new buffer if anything was read, and the reads that are left.\<close>

definition sniff_stream ::
    "(string \<Rightarrow> bool) \<Rightarrow> stream_sniffer sniffer_run \<Rightarrow> RuleActionSniff \<Rightarrow> string list \<Rightarrow> (go_error + string) list \<Rightarrow>
     InboundContext \<Rightarrow> InboundContext \<times> string option \<times> (go_error + string) list" where
  "sniff_stream IsDomainName run a buffers reads m =
     (if sniff_Skip m \<or> ic_Protocol m \<noteq> '''' then (m, None, reads)
      else if StreamSniffers a = [] \<and> PacketSniffers a \<noteq> [] then (m, None, reads)
      else if failed_before a m then (m, None, reads)
      else
        (let (m', err, buffer, reads') =
           PeekStream run (if StreamSniffers a \<noteq> [] then StreamSniffers a else default_stream_sniffers) buffers reads m
         in (sniffed IsDomainName a err (m'\<lparr>ic_SnifferNames := SnifferNames a, ic_SniffError := err\<rparr>),
             if buffer = '''' then None else Some buffer, reads')))"

text \<open>
  On packets: packets an earlier action read are asked first, then packets are read until a sniffer has
  enough. While a fragmented QUIC client hello is collected, only its sniffer is asked.
\<close>

datatype packet_read = PacketRead string Socksaddr | ReadFailed go_error | ContextDone go_error

definition quicMoreData :: "RuleActionSniff \<Rightarrow> InboundContext \<Rightarrow> bool" where
  "quicMoreData a m \<longleftrightarrow>
     ic_SnifferNames m = SnifferNames a \<and> (case ic_SniffError m of None \<Rightarrow> False | Some e \<Rightarrow> needs_more_data e)"

definition peek_packet ::
    "packet_sniffer sniffer_run \<Rightarrow> RuleActionSniff \<Rightarrow> string \<Rightarrow> InboundContext \<Rightarrow> InboundContext \<times> go_error option" where
  "peek_packet run a packet m =
     (let sniffers =
        (if quicMoreData a m then [QUICClientHello]
         else if PacketSniffers a \<noteq> [] then PacketSniffers a else default_packet_sniffers);
          (m', err) = PeekPacket run sniffers packet m
      in (m'\<lparr>ic_SnifferNames := SnifferNames a, ic_SniffError := err\<rparr>, err))"

text \<open>The packets that are already there: \<open>Some err\<close> when the action is done with them.\<close>

fun peek_known ::
    "packet_sniffer sniffer_run \<Rightarrow> RuleActionSniff \<Rightarrow> string list \<Rightarrow> InboundContext \<Rightarrow>
     InboundContext \<times> go_error option option" where
  "peek_known run a [] m = (m, None)"
| "peek_known run a (p # ps) m =
     (case peek_packet run a p m of
        (m', Some e) \<Rightarrow> if needs_more_data e then peek_known run a ps m' else (m', Some (Some e))
      | (m', None) \<Rightarrow> (m', Some None))"

text \<open>
  Reading more: the context, the packets read, the error of the last sniff, an error that ends the
  connection, and the reads that are left. A deadline that passes is not such an error; then the action
  ends without a result.
\<close>

fun peek_reads ::
    "packet_sniffer sniffer_run \<Rightarrow> RuleActionSniff \<Rightarrow> packet_read list \<Rightarrow> InboundContext \<Rightarrow> (string \<times> Socksaddr) list \<Rightarrow>
     InboundContext \<times> (string \<times> Socksaddr) list \<times> go_error option \<times> go_error option \<times> packet_read list" where
  "peek_reads run a [] m acc = (m, acc, Some DeadlineExceeded, None, [])"
| "peek_reads run a (ReadFailed e # reads) m acc =
     (m, acc, Some e, if error_is DeadlineExceeded e then None else Some e, reads)"
| "peek_reads run a (ContextDone e # reads) m acc = (m, acc, Some e, Some e, reads)"
| "peek_reads run a (PacketRead p dest # reads) m acc =
     (case peek_packet run a p m of
        (m', Some e) \<Rightarrow>
          if needs_more_data e then peek_reads run a reads m' (acc @ [(p, dest)])
          else (m', acc @ [(p, dest)], Some e, None, reads)
      | (m', None) \<Rightarrow> (m', acc @ [(p, dest)], None, None, reads))"

text \<open>
  The packets the action hands back are appended to those of earlier actions by its caller. They
  start with the earlier ones when it went on to read.
\<close>

definition sniff_packets ::
    "(string \<Rightarrow> bool) \<Rightarrow> packet_sniffer sniffer_run \<Rightarrow> RuleActionSniff \<Rightarrow> (string \<times> Socksaddr) list \<Rightarrow> packet_read list \<Rightarrow>
     InboundContext \<Rightarrow> InboundContext \<times> (string \<times> Socksaddr) list \<times> go_error option \<times> packet_read list" where
  "sniff_packets IsDomainName run a buffers reads m =
     (if sniff_Skip m \<or> ic_Protocol m \<noteq> '''' then (m, [], None, reads)
      else if PacketSniffers a = [] \<and> StreamSniffers a \<noteq> [] then (m, [], None, reads)
      else if failed_before a m then (m, [], None, reads)
      else
        (case peek_known run a (map fst buffers) m of
           (m', Some err) \<Rightarrow> (sniffed IsDomainName a err m', [], None, reads)
         | (m', None) \<Rightarrow>
             (case peek_reads run a reads m' buffers of
                (m'', packets, err, Some fatal, reads') \<Rightarrow> (m'', packets, Some fatal, reads')
              | (m'', packets, err, None, reads') \<Rightarrow> (sniffed IsDomainName a err m'', packets, None, reads'))))"

section \<open>Nothing is lost\<close>

text \<open>The bytes of a list of reads up to its first failure.\<close>

fun chunks :: "(go_error + string) list \<Rightarrow> string list" where
  "chunks [] = []"
| "chunks (Inl e # reads) = []"
| "chunks (Inr chunk # reads) = chunk # chunks reads"

text \<open>What is peeked and what is left to read are together what the connection delivers.\<close>

lemma peek_loop_keeps:
  assumes "peek_loop run sniffers earlier reads i m buffer err = (m', err', buffer', reads')"
    and "\<forall>e. Inl e \<notin> set reads"
  shows "buffer' @ concat (chunks reads') = buffer @ concat (chunks reads) \<and> (\<forall>e. Inl e \<notin> set reads')"
  using assms
  by (induction run sniffers earlier reads i m buffer err rule: peek_loop.induct)
     (auto simp: Let_def split: prod.splits option.splits if_splits)

lemma sniff_stream_keeps:
  assumes "sniff_stream D run a buffers reads m = (m', buffer, reads')"
    and "\<forall>e. Inl e \<notin> set reads"
  shows "(case buffer of None \<Rightarrow> '''' | Some b \<Rightarrow> b) @ concat (chunks reads') = concat (chunks reads)
           \<and> (\<forall>e. Inl e \<notin> set reads')"
  using assms
  by (auto simp: sniff_stream_def PeekStream_def dest: peek_loop_keeps split: prod.splits if_splits)

text \<open>The packets a sniff hands back are the known ones and those it read, in order, or none.\<close>

fun packets_read :: "packet_read list \<Rightarrow> (string \<times> Socksaddr) list" where
  "packets_read [] = []"
| "packets_read (PacketRead p dest # reads) = (p, dest) # packets_read reads"
| "packets_read (_ # reads) = []"

definition only_packets :: "packet_read list \<Rightarrow> bool" where
  "only_packets reads \<longleftrightarrow> (\<forall>r \<in> set reads. \<exists>p dest. r = PacketRead p dest)"

lemma peek_reads_keeps:
  assumes "peek_reads run a reads m acc = (m', acc', err, fatal, reads')" and "only_packets reads"
  shows "acc' @ packets_read reads' = acc @ packets_read reads \<and> only_packets reads'"
  using assms
  by (induction run a reads m acc rule: peek_reads.induct)
     (auto simp: only_packets_def split: prod.splits option.splits if_splits)

lemma peek_reads_extends:
  "peek_reads run a reads m acc = (m', acc', err, fatal, reads') \<Longrightarrow> \<exists>more. acc' = acc @ more"
  by (induction run a reads m acc rule: peek_reads.induct) (fastforce split: prod.splits option.splits if_splits)+

lemma peek_reads_buffers:
  assumes "peek_reads run a reads m acc = (m', acc', err, fatal, reads')" and "only_packets reads"
  shows "(if acc' = [] then acc @ packets_read reads' else acc' @ packets_read reads') = acc @ packets_read reads"
  using peek_reads_keeps [OF assms] peek_reads_extends [OF assms(1)] by auto

lemma sniff_packets_keeps:
  assumes "sniff_packets D run a buffers reads m = (m', packets, fatal, reads')" and "only_packets reads"
  shows "(if packets = [] then buffers @ packets_read reads' else packets @ packets_read reads') =
         buffers @ packets_read reads"
  using assms
  by (auto simp: sniff_packets_def dest!: peek_reads_buffers split: prod.splits if_splits option.splits)

end
