(* ===== verification/Router.thy ===== *)
theory Router
  imports RuleSets Sniffing
begin

text \<open>
  The router (\<open>src/route/route.go\<close>, \<open>src/route/router.go\<close>, \<open>src/route/rule_conds.go\<close>): what is found out
  about a connection before its rules, the loop over the rules with the actions that do not end it, and
  the three users of the loop: streams, packet connections and the pre-match of a TUN interface.

  DNS, the process searcher, the neighbor resolver, the inbounds and the outbounds are fields of
  \<open>router\<close>. A connection is kept as the expression that built it, so a statement can say what is
  wrapped around what; what a connection of a library does when it is read is a parameter. Releasing
  buffers and logging are not modelled.
\<close>

section \<open>The router and its parts\<close>

record inbound =
  ib_TCPInjectable :: bool
  ib_UDPInjectable :: bool

record outbound =
  ob_Tag :: string
  ob_Network :: "string list"
  ob_ConnectionHandlerEx :: bool
  ob_PacketConnectionHandlerEx :: bool
  ob_DirectRoute :: bool

datatype stream_conn =
    InboundConn nat
  | DeadlineConn stream_conn
  | CachedConn stream_conn string
  | TrackerConn string nat stream_conn

datatype packet_conn =
    InboundPacketConn nat
  | CachedPacketConn packet_conn string Socksaddr
  | TrackerPacketConn string nat packet_conn
  | NATPacketConn packet_conn Socksaddr Socksaddr

text \<open>A tracker is asked with the context, the selected rule and the selected outbound; \<open>'w\<close> is the state of the trackers.\<close>

record 'w tracker =
  tr_RoutedConnection ::
    "stream_conn \<Rightarrow> InboundContext \<Rightarrow> nat option \<Rightarrow> outbound option \<Rightarrow> 'w \<Rightarrow> (stream_conn \<times> 'w) go"
  tr_RoutedPacketConnection ::
    "packet_conn \<Rightarrow> InboundContext \<Rightarrow> nat option \<Rightarrow> outbound option \<Rightarrow> 'w \<Rightarrow> (packet_conn \<times> 'w) go"

record 'w router =
  rt_rules :: "action_rule list"
  rt_rule_sets :: "string \<Rightarrow> headless_rule list"
  rt_env :: rule_env
  rt_inbound :: "string \<Rightarrow> inbound option"
  rt_outbound :: "string \<Rightarrow> outbound option"
  rt_Default :: outbound
  rt_trackers :: "'w tracker list"
  rt_findProcess :: "(string \<Rightarrow> addr \<times> 16 word \<Rightarrow> addr \<times> 16 word \<Rightarrow> go_error + ConnectionOwner) option"
  rt_neighbor :: "((addr \<Rightarrow> nat list option) \<times> (addr \<Rightarrow> string option)) option"
  rt_FakeIP :: "((addr \<Rightarrow> bool) \<times> (addr \<Rightarrow> string option)) option"
  rt_LookupReverseMapping :: "addr \<Rightarrow> string option"
  rt_Transport :: "string \<Rightarrow> bool"
  rt_Lookup :: "string \<Rightarrow> string \<Rightarrow> dns_route_options \<Rightarrow> InboundContext \<Rightarrow> go_error + addr list"
  rt_IsValid :: "Socksaddr \<Rightarrow> bool"
  rt_IsIPv4 :: "Socksaddr \<Rightarrow> bool"
  rt_IsDomain :: "Socksaddr \<Rightarrow> bool"
  rt_IsDomainName :: "string \<Rightarrow> bool"
  rt_stream_sniffer :: "stream_sniffer sniffer_run"
  rt_packet_sniffer :: "packet_sniffer sniffer_run"
  rt_NeedDeadline :: "stream_conn \<Rightarrow> bool"
  rt_mux_Destination :: string
  rt_vmess_MuxDestination :: string
  rt_uot_MagicAddress :: string
  rt_uot_LegacyMagicAddress :: string

section \<open>What rules ask for\<close>

text \<open>\<open>hasRule\<close> and \<open>hasDNSRule\<close> are one function of the kind of rule.\<close>

fun hasRule :: "('d \<Rightarrow> bool) \<Rightarrow> ('d, 'a) rule_options \<Rightarrow> bool" where
  "hasRule cond (RuleOptions ty d a mode rules neg la) \<longleftrightarrow>
     ty = RuleTypeDefault \<and> cond d \<or> ty = RuleTypeLogical \<and> (\<exists>r \<in> set rules. hasRule cond r)"

definition isProcessRule :: "'a action_match_options_scheme \<Rightarrow> bool" where
  "isProcessRule rule \<longleftrightarrow>
     o_ProcessName rule \<noteq> [] \<or> o_ProcessPath rule \<noteq> [] \<or> o_ProcessPathRegex rule \<noteq> [] \<or> o_PackageName rule \<noteq> [] \<or>
     o_User rule \<noteq> [] \<or> o_UserID rule \<noteq> []"

definition isNeighborRule :: "'a action_match_options_scheme \<Rightarrow> bool" where
  "isNeighborRule rule \<longleftrightarrow> o_SourceMACAddress rule \<noteq> [] \<or> o_SourceHostname rule \<noteq> []"

definition isWIFIRule :: "'a action_match_options_scheme \<Rightarrow> bool" where
  "isWIFIRule rule \<longleftrightarrow> o_WIFISSID rule \<noteq> [] \<or> o_WIFIBSSID rule \<noteq> []"

text \<open>The two needs \<open>NewRouter\<close> derives from the options of the routing and of the DNS rules.\<close>

definition needFindProcess ::
    "(RawDefaultRule, rule_action_options) rule_options list \<Rightarrow> (RawDefaultDNSRule, dns_rule_action_options) rule_options list \<Rightarrow>
     bool \<Rightarrow> bool" where
  "needFindProcess rules dnsRules FindProcess \<longleftrightarrow>
     (\<exists>r \<in> set rules. hasRule isProcessRule r) \<or> (\<exists>r \<in> set dnsRules. hasRule isProcessRule r) \<or> FindProcess"

definition needFindNeighbor ::
    "(RawDefaultRule, rule_action_options) rule_options list \<Rightarrow> (RawDefaultDNSRule, dns_rule_action_options) rule_options list \<Rightarrow>
     bool \<Rightarrow> bool" where
  "needFindNeighbor rules dnsRules FindNeighbor \<longleftrightarrow>
     (\<exists>r \<in> set rules. hasRule isNeighborRule r) \<or> (\<exists>r \<in> set dnsRules. hasRule isNeighborRule r) \<or> FindNeighbor"

text \<open>The part of \<open>Initialize\<close> that builds the rules, from the rule of index \<open>i\<close> on.\<close>

fun Initialize_rules ::
    "rule_libs \<Rightarrow> nat \<Rightarrow> (RawDefaultRule, rule_action_options) rule_options list \<Rightarrow> (go_error + action_rule list) go" where
  "Initialize_rules L i [] = Ret (Inr [])"
| "Initialize_rules L i (r # rs) =
     (case validateNoNestedRuleActions no_rule_action RouteRuleActionNestedUnsupported False r of
        Some e \<Rightarrow> Ret (Inl (ECause e [''parse rule['', dec i, '']'']))
      | None \<Rightarrow>
          go_bind (NewRule L False r) (\<lambda>rule.
            case rule of
              Inl e \<Rightarrow> Ret (Inl (ECause e [''parse rule['', dec i, '']'']))
            | Inr rule \<Rightarrow> go_bind (Initialize_rules L (Suc i) rs) (\<lambda>rules. Ret (map_sum id (\<lambda>rules. rule # rules) rules))))"

section \<open>Before the rules\<close>

definition find_process :: "'w router \<Rightarrow> InboundContext \<Rightarrow> InboundContext" where
  "find_process R m =
     (case rt_findProcess R of
        None \<Rightarrow> m
      | Some search \<Rightarrow>
          if ic_ProcessInfo m \<noteq> None then m
          else
            (let AddrPort = (\<lambda>a. (sa_Addr a, sa_Port a));
                 originDestination =
                   (if rt_IsValid R (ic_OriginDestination m) then AddrPort (ic_OriginDestination m)
                    else if IsIP (rt_env R) (ic_Destination m) then AddrPort (ic_Destination m)
                    else (NoAddr, 0))
             in case search (ic_Network m) (AddrPort (ic_Source m)) originDestination of
                  Inl e \<Rightarrow> m
                | Inr owner \<Rightarrow> m\<lparr>ic_ProcessInfo := Some owner\<rparr>))"

definition find_neighbor :: "'w router \<Rightarrow> InboundContext \<Rightarrow> InboundContext" where
  "find_neighbor R m =
     (case rt_neighbor R of
        None \<Rightarrow> m
      | Some (LookupMAC, LookupHostname) \<Rightarrow>
          if ic_SourceMACAddress m \<noteq> None \<or> \<not> addr_IsValid (sa_Addr (ic_Source m)) then m
          else
            (let m1 = (case LookupMAC (sa_Addr (ic_Source m)) of
                         None \<Rightarrow> m | Some mac \<Rightarrow> m\<lparr>ic_SourceMACAddress := Some mac\<rparr>)
             in case LookupHostname (sa_Addr (ic_Source m)) of
                  None \<Rightarrow> m1 | Some hostname \<Rightarrow> m1\<lparr>ic_SourceHostname := hostname\<rparr>))"

definition fakeip_Contains :: "'w router \<Rightarrow> addr \<Rightarrow> bool" where
  "fakeip_Contains R a = (case rt_FakeIP R of None \<Rightarrow> False | Some (has, lookup) \<Rightarrow> addr_IsValid a \<and> has a)"

definition fakeip_Lookup :: "'w router \<Rightarrow> addr \<Rightarrow> string option" where
  "fakeip_Lookup R a = (case rt_FakeIP R of None \<Rightarrow> None | Some (has, lookup) \<Rightarrow> lookup a)"

definition find_domain :: "'w router \<Rightarrow> InboundContext \<Rightarrow> go_error + InboundContext" where
  "find_domain R m =
     (if fakeip_Contains R (sa_Addr (ic_Destination m)) then
        (case fakeip_Lookup R (sa_Addr (ic_Destination m)) of
           None \<Rightarrow> Inl (ENew [''missing fakeip record, try enable `experimental.cache_file`''])
         | Some domain \<Rightarrow>
             if domain = '''' then Inr m
             else Inr (m\<lparr>ic_OriginDestination := ic_Destination m,
                         ic_Destination := \<lparr>sa_Addr = NoAddr, sa_Port = sa_Port (ic_Destination m), sa_Fqdn = domain\<rparr>,
                         ic_FakeIP := True\<rparr>))
      else if ic_Domain m = '''' then
        (case rt_LookupReverseMapping R (sa_Addr (ic_Destination m)) of
           None \<Rightarrow> Inr m
         | Some domain \<Rightarrow> Inr (m\<lparr>ic_Domain := domain\<rparr>))
      else Inr m)"

definition set_ip_version :: "'w router \<Rightarrow> InboundContext \<Rightarrow> InboundContext" where
  "set_ip_version R m =
     (if rt_IsIPv4 R (ic_Destination m) then m\<lparr>ic_IPVersion := 4\<rparr>
      else if IsIPv6 (rt_env R) (ic_Destination m) then m\<lparr>ic_IPVersion := 6\<rparr>
      else m)"

definition before_rules :: "'w router \<Rightarrow> InboundContext \<Rightarrow> go_error + InboundContext" where
  "before_rules R m = map_sum id (set_ip_version R) (find_domain R (find_neighbor R (find_process R m)))"

section \<open>Actions that do not end the loop\<close>

definition action_options :: "rule_action \<Rightarrow> route_options option" where
  "action_options a =
     (case a of RuleActionRoute tag opts \<Rightarrow> Some opts | RuleActionRouteOptions opts \<Rightarrow> Some opts | _ \<Rightarrow> None)"

definition override_destination :: "'w router \<Rightarrow> route_options \<Rightarrow> InboundContext \<Rightarrow> InboundContext" where
  "override_destination R opts m =
     (let m1 = (if (rt_IsValid R (OverrideAddress opts) \<or> OverridePort opts > 0)
                    \<and> \<not> rt_IsValid R (ic_RouteOriginalDestination m)
                then m\<lparr>ic_RouteOriginalDestination := ic_Destination m\<rparr> else m);
          m2 = (if rt_IsValid R (OverrideAddress opts)
                then m1\<lparr>ic_Destination := (OverrideAddress opts)\<lparr>sa_Port := sa_Port (ic_Destination m1)\<rparr>,
                        ic_DestinationAddresses := []\<rparr> else m1)
      in if OverridePort opts > 0
         then m2\<lparr>ic_Destination := (ic_Destination m2)\<lparr>sa_Port := OverridePort opts\<rparr>\<rparr> else m2)"

definition set_dialer_options :: "route_options \<Rightarrow> InboundContext \<Rightarrow> InboundContext" where
  "set_dialer_options opts m =
     m\<lparr>ic_NetworkStrategy := (if NetworkStrategy opts \<noteq> None then NetworkStrategy opts else ic_NetworkStrategy m),
       ic_NetworkType := (if NetworkType opts \<noteq> [] then NetworkType opts else ic_NetworkType m),
       ic_FallbackNetworkType :=
         (if FallbackNetworkType opts \<noteq> [] then FallbackNetworkType opts else ic_FallbackNetworkType m),
       ic_FallbackDelay := (if FallbackDelay opts \<noteq> 0 then FallbackDelay opts else ic_FallbackDelay m),
       ic_UDPDisableDomainUnmapping := (ic_UDPDisableDomainUnmapping m \<or> UDPDisableDomainUnmapping opts),
       ic_UDPConnect := (ic_UDPConnect m \<or> UDPConnect opts),
       ic_UDPTimeout := (if UDPTimeout opts > 0 then UDPTimeout opts else ic_UDPTimeout m),
       ic_TLSFragment := (ic_TLSFragment m \<or> TLSFragment opts),
       ic_TLSFragmentFallbackDelay :=
         (if TLSFragment opts then TLSFragmentFallbackDelay opts else ic_TLSFragmentFallbackDelay m),
       ic_TLSRecordFragment := (ic_TLSRecordFragment m \<or> TLSRecordFragment opts)\<rparr>"

definition apply_route_options :: "'w router \<Rightarrow> rule_action \<Rightarrow> InboundContext \<Rightarrow> InboundContext" where
  "apply_route_options R a m =
     (case action_options a of None \<Rightarrow> m | Some opts \<Rightarrow> set_dialer_options opts (override_destination R opts m))"

definition actionResolve ::
    "'w router \<Rightarrow> string \<Rightarrow> dns_route_options \<Rightarrow> InboundContext \<Rightarrow> go_error + InboundContext" where
  "actionResolve R server opts m =
     (if \<not> rt_IsDomain R (ic_Destination m) then Inr m
      else if server \<noteq> '''' \<and> \<not> rt_Transport R server then Inl (ENew [''DNS server not found: '', server])
      else
        (case rt_Lookup R (sa_Fqdn (ic_Destination m)) server opts m of
           Inl e \<Rightarrow> Inl e
         | Inr addresses \<Rightarrow> Inr (m\<lparr>ic_DestinationAddresses := addresses\<rparr>)))"

text \<open>
  What is read while rules are matched: nothing in a pre-match, a stream or packets otherwise, and the
  buffers and packets that were read.
\<close>

datatype match_input = NoInput | StreamInput "(go_error + string) list" | PacketInput "packet_read list"

record match_state =
  ms_metadata :: InboundContext
  ms_input :: match_input
  ms_buffers :: "string list"
  ms_packets :: "(string \<times> Socksaddr) list"

definition actionSniff :: "'w router \<Rightarrow> RuleActionSniff \<Rightarrow> match_state \<Rightarrow> match_state \<times> go_error option" where
  "actionSniff R a st =
     (case ms_input st of
        NoInput \<Rightarrow> (st, None)
      | StreamInput reads \<Rightarrow>
          (let (m, buffer, reads') =
             sniff_stream (rt_IsDomainName R) (rt_stream_sniffer R) a (ms_buffers st) reads (ms_metadata st)
           in (st\<lparr>ms_metadata := m, ms_input := StreamInput reads',
                  ms_buffers := (case buffer of None \<Rightarrow> ms_buffers st | Some b \<Rightarrow> ms_buffers st @ [b])\<rparr>, None))
      | PacketInput reads \<Rightarrow>
          (let (m, packets, fatal, reads') =
             sniff_packets (rt_IsDomainName R) (rt_packet_sniffer R) a (ms_packets st) reads (ms_metadata st)
           in (st\<lparr>ms_metadata := m, ms_input := PacketInput reads', ms_packets := ms_packets st @ packets\<rparr>, fatal)))"

section \<open>The loop over the rules\<close>

text \<open>
  What a matched action does to the loop: go on, select the rule, or fail. The mark a match leaves in
  the context is cleared before it is looked at again and is left out.
\<close>

datatype verdict = Continue | Select | Fail go_error

definition perform :: "'w router \<Rightarrow> bool \<Rightarrow> bool \<Rightarrow> rule_action \<Rightarrow> match_state \<Rightarrow> verdict \<times> match_state" where
  "perform R preMatch supportBypass a st =
     (let st = st\<lparr>ms_metadata := apply_route_options R a (ms_metadata st)\<rparr> in
      case a of
        RuleActionSniff s \<Rightarrow>
          if \<not> preMatch then
            (case actionSniff R s st of (st', None) \<Rightarrow> (Continue, st') | (st', Some e) \<Rightarrow> (Fail e, st'))
          else if ic_Network (ms_metadata st) \<noteq> ''icmp'' then (Select, st)
          else (Continue, st)
      | RuleActionResolve server opts \<Rightarrow>
          (case actionResolve R server opts (ms_metadata st) of
             Inl e \<Rightarrow> (Fail e, st)
           | Inr m \<Rightarrow> (Continue, st\<lparr>ms_metadata := m\<rparr>))
      | RuleActionBypass tag opts \<Rightarrow> if \<not> supportBypass \<and> tag = '''' then (Continue, st) else (Select, st)
      | _ \<Rightarrow> if action_Type a \<in> {''route'', ''reject'', ''hijack-dns''} then (Select, st) else (Continue, st))"

fun match_rules ::
    "'w router \<Rightarrow> bool \<Rightarrow> bool \<Rightarrow> nat \<Rightarrow> action_rule list \<Rightarrow> match_state \<Rightarrow> (go_error option \<times> nat option \<times> match_state) go" where
  "match_rules R preMatch supportBypass i [] st = Ret (None, None, st)"
| "match_rules R preMatch supportBypass i ((action, r) # rules) st =
     (let st = st\<lparr>ms_metadata := ResetRuleCache (ms_metadata st)\<rparr> in
      if \<not> rule_Match (rt_rule_sets R) (rt_env R) r (ms_metadata st)
      then match_rules R preMatch supportBypass (Suc i) rules st
      else
        (case action of
           None \<Rightarrow> Panic (EDriver ''nil pointer dereference'')
         | Some a \<Rightarrow>
             (case perform R preMatch supportBypass a st of
                (Continue, st') \<Rightarrow> match_rules R preMatch supportBypass (Suc i) rules st'
              | (Select, st') \<Rightarrow> Ret (None, Some i, st')
              | (Fail e, st') \<Rightarrow> Ret (Some e, None, st'))))"

definition matchRule ::
    "'w router \<Rightarrow> bool \<Rightarrow> bool \<Rightarrow> match_input \<Rightarrow> InboundContext \<Rightarrow> (go_error option \<times> nat option \<times> match_state) go" where
  "matchRule R preMatch supportBypass input m =
     (case before_rules R m of
        Inl e \<Rightarrow> Ret (Some e, None, \<lparr>ms_metadata = m, ms_input = input, ms_buffers = [], ms_packets = []\<rparr>)
      | Inr m' \<Rightarrow>
          match_rules R preMatch supportBypass 0 (rt_rules R)
            \<lparr>ms_metadata = m', ms_input = input, ms_buffers = [], ms_packets = []\<rparr>)"

section \<open>Streams and packet connections\<close>

text \<open>
  What becomes of a connection: an error or nothing is returned, or it is handed to an inbound, to the
  DNS of the router (with the packets already read), to an outbound that handles connections, or to the connection manager with the
  outbound to dial.
\<close>

datatype 'c routed =
    Returned "go_error option"
  | Injected string 'c InboundContext
  | Hijacked 'c "(string \<times> Socksaddr) list" InboundContext
  | OutboundHandler outbound 'c InboundContext
  | ConnectionManager "outbound option" 'c InboundContext

text \<open>The state routing changes: that of the trackers, and the triggers the reject action of each rule remembers.\<close>

record 'w route_state =
  rs_trackers :: 'w
  rs_triggers :: "nat \<Rightarrow> gotime list"

text \<open>The detour of an inbound, for either kind of connection.\<close>

definition detour :: "'w router \<Rightarrow> (inbound \<Rightarrow> bool) \<Rightarrow> string \<Rightarrow> 'c \<Rightarrow> InboundContext \<Rightarrow> 'c routed" where
  "detour R injectable kind conn m =
     (if ic_LastInbound m = ic_InboundDetour m then
        Returned (Some (ENew [''routing loop on detour: '', ic_InboundDetour m]))
      else
        (case rt_inbound R (ic_InboundDetour m) of
           None \<Rightarrow> Returned (Some (ENew [''inbound detour not found: '', ic_InboundDetour m]))
         | Some ib \<Rightarrow>
             if \<not> injectable ib
             then Returned (Some (ENew [''inbound detour is not '' @ kind @ '' injectable: '', ic_InboundDetour m]))
             else Injected (ic_InboundDetour m) conn
                    (m\<lparr>ic_LastInbound := ic_Inbound m, ic_Inbound := ic_InboundDetour m, ic_InboundDetour := ''''\<rparr>)))"

text \<open>
  The selection of an outbound that \<open>routeConnection\<close> and \<open>routePacketConnection\<close> write out twice: the
  outbound of the rule, nothing for a bypass without one, or the default outbound when no rule was
  selected. \<open>what\<close> is how the error names a default outbound.
\<close>

definition find_outbound :: "'w router \<Rightarrow> string \<Rightarrow> string \<Rightarrow> string \<Rightarrow> go_error + outbound option" where
  "find_outbound R network kind tag =
     (case rt_outbound R tag of
        None \<Rightarrow> Inl (ENew [''outbound not found: '', tag])
      | Some ob \<Rightarrow>
          if network \<in> set (ob_Network ob) then Inr (Some ob)
          else Inl (ENew [kind @ '' is not supported by outbound: '', ob_Tag ob]))"

definition default_outbound :: "'w router \<Rightarrow> string \<Rightarrow> string \<Rightarrow> go_error + outbound option" where
  "default_outbound R network msg =
     (if network \<in> set (ob_Network (rt_Default R)) then Inr (Some (rt_Default R))
      else Inl (ENew [msg, ob_Tag (rt_Default R)]))"

definition select_outbound :: "'w router \<Rightarrow> string \<Rightarrow> string \<Rightarrow> string \<Rightarrow> nat option \<Rightarrow> go_error + outbound option" where
  "select_outbound R network kind msg selected =
     (case selected of
        None \<Rightarrow> default_outbound R network msg
      | Some i \<Rightarrow>
          (case fst (rt_rules R ! i) of
             Some (RuleActionRoute tag opts) \<Rightarrow> find_outbound R network kind tag
           | Some (RuleActionBypass tag opts) \<Rightarrow> if tag = '''' then Inr None else find_outbound R network kind tag
           | _ \<Rightarrow> Inr None))"

fun run_trackers ::
    "('t \<Rightarrow> 'c \<Rightarrow> InboundContext \<Rightarrow> nat option \<Rightarrow> outbound option \<Rightarrow> 'w \<Rightarrow> ('c \<times> 'w) go) \<Rightarrow> 't list \<Rightarrow>
     'c \<Rightarrow> InboundContext \<Rightarrow> nat option \<Rightarrow> outbound option \<Rightarrow> 'w \<Rightarrow> ('c \<times> 'w) go" where
  "run_trackers f [] conn m selected ob w = Ret (conn, w)"
| "run_trackers f (t # ts) conn m selected ob w =
     go_bind (f t conn m selected ob w) (\<lambda>(conn', w'). run_trackers f ts conn' m selected ob w')"

definition hand_over :: "(outbound \<Rightarrow> bool) \<Rightarrow> outbound option \<Rightarrow> 'c \<Rightarrow> InboundContext \<Rightarrow> 'c routed" where
  "hand_over isHandler selected conn m =
     (case selected of
        Some ob \<Rightarrow> if isHandler ob then OutboundHandler ob conn m else ConnectionManager (Some ob) conn m
      | None \<Rightarrow> ConnectionManager None conn m)"

definition selected_reject :: "'w router \<Rightarrow> nat option \<Rightarrow> RuleActionReject option" where
  "selected_reject R selected =
     (case selected of
        None \<Rightarrow> None
      | Some i \<Rightarrow> (case fst (rt_rules R ! i) of Some (RuleActionReject r) \<Rightarrow> Some r | _ \<Rightarrow> None))"

definition selected_hijack :: "'w router \<Rightarrow> nat option \<Rightarrow> bool" where
  "selected_hijack R selected \<longleftrightarrow> (\<exists>i. selected = Some i \<and> fst (rt_rules R ! i) = Some RuleActionHijackDNS)"

definition reject ::
    "string \<Rightarrow> gotime \<Rightarrow> nat option \<Rightarrow> RuleActionReject \<Rightarrow> 'w route_state \<Rightarrow> (go_error option \<times> 'w route_state) go" where
  "reject kind timeNow selected r s =
     (if Method r = ''reply''
      then Ret (Some (ENew [''reject method `reply` is not supported for '' @ kind @ '' connections'']), s)
      else
        go_bind (reject_Error r timeNow (rs_triggers s (the selected))) (\<lambda>(e, triggers).
          Ret (e, s\<lparr>rs_triggers := (rs_triggers s)(the selected := triggers)\<rparr>)))"

definition legacy_destination :: "'w router \<Rightarrow> string \<Rightarrow> go_error option" where
  "legacy_destination R fqdn =
     (if fqdn = rt_mux_Destination R then
        Some (ENew [''global multiplex is deprecated since sing-box v1.7.0, enable multiplex in Inbound fields instead.''])
      else if fqdn = rt_vmess_MuxDestination R then
        Some (ENew [''global multiplex (v2ray legacy) not supported since sing-box v1.7.0.''])
      else if fqdn = rt_uot_MagicAddress R then Some (ENew [''global UoT not supported since sing-box v1.7.0.''])
      else if fqdn = rt_uot_LegacyMagicAddress R then
        Some (ENew [''global UoT (legacy) not supported since sing-box v1.7.0.''])
      else None)"

text \<open>
  The common part of \<open>routeConnection\<close> and \<open>routePacketConnection\<close>: match the rules, then return an error, or
  go on with the selected rule, the state of the match and the outbound.
\<close>

definition decide ::
    "'w router \<Rightarrow> gotime \<Rightarrow> string \<Rightarrow> string \<Rightarrow> string \<Rightarrow> match_input \<Rightarrow> InboundContext \<Rightarrow> 'w route_state \<Rightarrow>
     (go_error option \<times> 'w route_state + nat option \<times> match_state \<times> outbound option) go" where
  "decide R timeNow network kind msg input m s =
     go_bind (matchRule R False False input (m\<lparr>ic_Network := network\<rparr>)) (\<lambda>(err, selected, st).
       if err \<noteq> None then Ret (Inl (err, s))
       else
         (case selected_reject R selected of
            Some r \<Rightarrow> go_bind (reject kind timeNow selected r s) (\<lambda>x. Ret (Inl x))
          | None \<Rightarrow>
              (case select_outbound R network kind msg selected of
                 Inl e \<Rightarrow> Ret (Inl (Some e, s))
               | Inr ob \<Rightarrow> Ret (Inr (selected, st, ob)))))"

text \<open>The stream an outbound is given: what was read is put back in front, one buffer at a time.\<close>

definition cached_stream :: "'w router \<Rightarrow> stream_conn \<Rightarrow> match_state \<Rightarrow> stream_conn" where
  "cached_stream R conn st =
     foldl CachedConn (if rt_NeedDeadline R conn then DeadlineConn conn else conn) (ms_buffers st)"

definition cached_packets :: "packet_conn \<Rightarrow> match_state \<Rightarrow> packet_conn" where
  "cached_packets conn st = foldl (\<lambda>c (p, dest). CachedPacketConn c p dest) conn (ms_packets st)"

definition routeConnection ::
    "'w router \<Rightarrow> gotime \<Rightarrow> (go_error + string) list \<Rightarrow> stream_conn \<Rightarrow> InboundContext \<Rightarrow> 'w route_state \<Rightarrow>
     (stream_conn routed \<times> 'w route_state) go" where
  "routeConnection R timeNow reads conn m s =
     (if ic_InboundDetour m \<noteq> '''' then Ret (detour R ib_TCPInjectable ''TCP'' conn m, s)
      else if legacy_destination R (sa_Fqdn (ic_Destination m)) \<noteq> None then
        Ret (Returned (legacy_destination R (sa_Fqdn (ic_Destination m))), s)
      else
        go_bind (decide R timeNow ''tcp'' ''TCP'' ''TCP is not supported by default outbound: '' (StreamInput reads) m s)
          (\<lambda>decision. case decision of
             Inl (e, s') \<Rightarrow> Ret (Returned e, s')
           | Inr (selected, st, ob) \<Rightarrow>
               (let conn = cached_stream R conn st
                in if selected_hijack R selected then Ret (Hijacked conn [] (ms_metadata st), s)
                   else
                     go_bind
                       (run_trackers tr_RoutedConnection (rt_trackers R) conn (ms_metadata st) selected ob (rs_trackers s))
                       (\<lambda>(conn, w). Ret (hand_over ob_ConnectionHandlerEx ob conn (ms_metadata st), s\<lparr>rs_trackers := w\<rparr>)))))"

definition routePacketConnection ::
    "'w router \<Rightarrow> gotime \<Rightarrow> packet_read list \<Rightarrow> packet_conn \<Rightarrow> InboundContext \<Rightarrow> 'w route_state \<Rightarrow>
     (packet_conn routed \<times> 'w route_state) go" where
  "routePacketConnection R timeNow reads conn m s =
     (if ic_InboundDetour m \<noteq> '''' then Ret (detour R ib_UDPInjectable ''UDP'' conn m, s)
      else
        go_bind (decide R timeNow ''udp'' ''UDP'' ''UDP is not supported by outbound: '' (PacketInput reads) m s)
          (\<lambda>decision. case decision of
             Inl (e, s') \<Rightarrow> Ret (Returned e, s')
           | Inr (selected, st, ob) \<Rightarrow>
               if selected_hijack R selected then Ret (Hijacked conn (ms_packets st) (ms_metadata st), s)
               else
                 (let conn = cached_packets conn st in
                  go_bind
                    (run_trackers tr_RoutedPacketConnection (rt_trackers R) conn (ms_metadata st) selected ob (rs_trackers s))
                    (\<lambda>(conn, w).
                      let conn = (if ic_FakeIP (ms_metadata st)
                                  then NATPacketConn conn (ic_OriginDestination (ms_metadata st)) (ic_Destination (ms_metadata st))
                                  else conn)
                      in Ret (hand_over ob_PacketConnectionHandlerEx ob conn (ms_metadata st), s\<lparr>rs_trackers := w\<rparr>)))))"

section \<open>Pre-match\<close>

text \<open>
  What a TUN interface learns about a connection that is not established yet: an error, nothing, or
  the outbound that carries it directly, with the context, and the address a domain was resolved to.
\<close>

datatype pre_matched = PM_Error go_error | PM_None | PM_Direct outbound InboundContext "addr option"

definition direct_outbound :: "outbound \<Rightarrow> outbound go" where
  "direct_outbound ob = (if ob_DirectRoute ob then Ret ob else Panic (EDriver ''interface conversion''))"

text \<open>\<open>routeContext\<close> tells whether there is a context to route directly in.\<close>

definition find_direct :: "'w router \<Rightarrow> string \<Rightarrow> string \<Rightarrow> (go_error + outbound) go" where
  "find_direct R network tag =
     (case rt_outbound R tag of
        None \<Rightarrow> Ret (Inl (ENew [''outbound not found: '', tag]))
      | Some ob \<Rightarrow>
          if network \<notin> set (ob_Network ob) then Ret (Inl (ENew [network, '' is not supported by outbound: '', tag]))
          else go_bind (direct_outbound ob) (\<lambda>ob. Ret (Inr ob)))"

definition ErrBypass :: go_error where
  "ErrBypass = EDriver ''tun.ErrBypass''"

text \<open>The destination of a direct route: \<open>DomainStrategyIPv4Only\<close> is 3 and \<open>DomainStrategyIPv6Only\<close> is 4.\<close>

definition direct_destination :: "'w router \<Rightarrow> InboundContext \<Rightarrow> go_error + addr \<times> InboundContext" where
  "direct_destination R m =
     (let v4 = rt_IsIPv4 R (ic_Source m);
          resolved = (if ic_DestinationAddresses m \<noteq> [] then Inr m
                      else actionResolve R '''' \<lparr>Strategy = (if v4 then 3 else 4), DisableCache = False,
                             RewriteTTL = None, ClientSubnet = (NoAddr, 0)\<rparr> m)
      in case resolved of
           Inl e \<Rightarrow> Inl e
         | Inr m' \<Rightarrow>
             (case List.find (if v4 then Is4 else Is6) (ic_DestinationAddresses m') of
                None \<Rightarrow>
                  Inl (ENew [if v4 then ''no IPv4 address found for domain: '' else ''no IPv6 address found for domain: '',
                             sa_Fqdn (ic_Destination m')])
              | Some a \<Rightarrow> Inr (a, m'\<lparr>ic_Destination := \<lparr>sa_Addr = a, sa_Port = 0, sa_Fqdn = ''''\<rparr>\<rparr>)))"

definition direct_route :: "'w router \<Rightarrow> outbound \<Rightarrow> InboundContext \<Rightarrow> pre_matched" where
  "direct_route R ob m =
     (if rt_IsDomain R (ic_Destination m) then
        (case direct_destination R m of
           Inl e \<Rightarrow> PM_Error e
         | Inr (a, m') \<Rightarrow> PM_Direct ob m' (Some a))
      else PM_Direct ob m None)"

definition PreMatch ::
    "'w router \<Rightarrow> gotime \<Rightarrow> bool \<Rightarrow> bool \<Rightarrow> InboundContext \<Rightarrow> 'w route_state \<Rightarrow> (pre_matched \<times> 'w route_state) go" where
  "PreMatch R timeNow routeContext supportBypass m s =
     go_bind (matchRule R True supportBypass NoInput m) (\<lambda>(err, selected, st).
       let m = ms_metadata st;
           finish = (\<lambda>found. case found of Inl e \<Rightarrow> (PM_Error e, s) | Inr ob \<Rightarrow> (direct_route R ob m, s))
       in case err of
            Some e \<Rightarrow> Ret (PM_Error e, s)
          | None \<Rightarrow>
              (case selected of
                 None \<Rightarrow>
                   if ic_Network m \<noteq> ''icmp'' then Ret (PM_None, s)
                   else if ic_Network m \<notin> set (ob_Network (rt_Default R)) then
                     Ret (PM_Error (ENew [ic_Network m, '' is not supported by default outbound: '', ob_Tag (rt_Default R)]), s)
                   else go_bind (direct_outbound (rt_Default R)) (\<lambda>ob. Ret (direct_route R ob m, s))
               | Some i \<Rightarrow>
                   (case fst (rt_rules R ! i) of
                      Some (RuleActionReject r) \<Rightarrow>
                        if Method r = ''reply'' \<and> ic_Network m = ''tcp'' then
                          Ret (PM_Error (ENew [''reject method `reply` is not supported for TCP connections'']), s)
                        else if Method r = ''reply'' \<and> ic_Network m = ''udp'' then
                          Ret (PM_Error (ENew [''reject method `reply` is not supported for UDP connections'']), s)
                        else
                          go_bind (reject_Error r timeNow (rs_triggers s i)) (\<lambda>(e, triggers).
                            Ret (case e of None \<Rightarrow> PM_None | Some e \<Rightarrow> PM_Error e,
                                 s\<lparr>rs_triggers := (rs_triggers s)(i := triggers)\<rparr>))
                    | Some (RuleActionBypass tag opts) \<Rightarrow>
                        if supportBypass then Ret (PM_Error (BypassedError ErrBypass), s)
                        else if \<not> routeContext then Ret (PM_None, s)
                        else go_bind (find_direct R (ic_Network m) tag) (\<lambda>found. Ret (finish found))
                    | Some (RuleActionRoute tag opts) \<Rightarrow>
                        if \<not> routeContext then Ret (PM_None, s)
                        else go_bind (find_direct R (ic_Network m) tag) (\<lambda>found. Ret (finish found))
                    | _ \<Rightarrow> Ret (PM_None, s))))"

end
