(* ===== verification/RouterSafety.thy ===== *)
theory RouterSafety
  imports Router
begin

text \<open>
  What the router guarantees: which rule is selected, that a connection handed to an outbound has one,
  passed every tracker and still delivers what was read from it, that a refused connection reaches no
  tracker, and that routing does not panic.
\<close>

section \<open>Selecting a rule\<close>

text \<open>The actions the loop stops at, with the network of the connection.\<close>

fun stops :: "bool \<Rightarrow> bool \<Rightarrow> string \<Rightarrow> rule_action \<Rightarrow> bool" where
  "stops preMatch supportBypass network (RuleActionSniff s) \<longleftrightarrow> preMatch \<and> network \<noteq> ''icmp''"
| "stops preMatch supportBypass network (RuleActionBypass tag opts) \<longleftrightarrow> supportBypass \<or> tag \<noteq> ''''"
| "stops preMatch supportBypass network a \<longleftrightarrow> action_Type a \<in> {''route'', ''reject'', ''hijack-dns''}"

lemma network_of_set_dialer_options [simp]: "ic_Network (set_dialer_options opts m) = ic_Network m"
  by (simp add: set_dialer_options_def)

lemma network_of_override_destination [simp]: "ic_Network (override_destination R opts m) = ic_Network m"
  by (simp add: override_destination_def Let_def)

lemma network_kept [simp]:
  "ic_Network (apply_route_options R a m) = ic_Network m" "ic_Network (ResetRuleCache m) = ic_Network m"
  by (simp_all add: apply_route_options_def ResetRuleCache_def ResetRuleMatchCache_def split: option.split)

lemma network_of_find [simp]:
  "ic_Network (find_process R m) = ic_Network m" "ic_Network (find_neighbor R m) = ic_Network m"
  "ic_Network (set_ip_version R m) = ic_Network m"
  by (simp_all add: find_process_def find_neighbor_def set_ip_version_def Let_def split: option.split sum.split)

lemma network_of_find_domain: "find_domain R m = Inr m' \<Longrightarrow> ic_Network m' = ic_Network m"
  by (auto simp: find_domain_def split: if_splits option.splits)

lemma before_rules_network: "before_rules R m = Inr m' \<Longrightarrow> ic_Network m' = ic_Network m"
  by (cases "find_domain R (find_neighbor R (find_process R m))") (auto simp: before_rules_def dest: network_of_find_domain)

lemma perform_Select:
  "perform R preMatch supportBypass a st = (Select, st') \<Longrightarrow>
     stops preMatch supportBypass (ic_Network (ms_metadata st)) a \<and>
     st' = st\<lparr>ms_metadata := apply_route_options R a (ms_metadata st)\<rparr>"
  by (cases a) (auto simp: perform_def Let_def split: if_splits prod.splits option.splits sum.splits)

lemma perform_stops:
  "stops preMatch supportBypass (ic_Network (ms_metadata st)) a \<Longrightarrow>
     perform R preMatch supportBypass a st = (Select, st\<lparr>ms_metadata := apply_route_options R a (ms_metadata st)\<rparr>)"
  by (cases a) (auto simp: perform_def Let_def)

lemma match_rules_selects:
  assumes "match_rules R preMatch supportBypass i rules st = Ret (err, Some j, st')"
  shows "err = None \<and> i \<le> j \<and> j < i + length rules \<and>
         (\<exists>a r network. rules ! (j - i) = (Some a, r) \<and> stops preMatch supportBypass network a)"
  using assms
proof (induction rules arbitrary: i st)
  case (Cons p rules)
  obtain action r where p: "p = (action, r)" by fastforce
  note step = Cons.prems [unfolded p match_rules.simps Let_def]
  from step consider
      (rest) st1 where "match_rules R preMatch supportBypass (Suc i) rules st1 = Ret (err, Some j, st')"
    | (this) a st1 where "action = Some a" "j = i" "err = None" "perform R preMatch supportBypass a st1 = (Select, st')"
    by (auto split: if_splits option.splits prod.splits verdict.splits)
  then show ?case
  proof cases
    case rest
    from Cons.IH [OF this] show ?thesis
      by (auto simp: nth_Cons' Suc_le_eq diff_diff_left)
  next
    case this
    then show ?thesis using p perform_Select by fastforce
  qed
qed simp

lemma matchRule_selects:
  assumes "matchRule R preMatch supportBypass input m = Ret (err, Some j, st)"
  shows "err = None \<and> (\<exists>a r network. j < length (rt_rules R) \<and> rt_rules R ! j = (Some a, r) \<and>
           stops preMatch supportBypass network a)"
  using assms match_rules_selects [where i = 0]
  by (fastforce simp: matchRule_def split: sum.splits)

text \<open>When every action stops the loop, the first rule that matches is selected.\<close>

lemma match_rules_first:
  assumes "\<forall>(action, r) \<in> set rules. \<exists>a. action = Some a \<and> stops preMatch supportBypass (ic_Network (ms_metadata st)) a"
    and "ResetRuleCache (ms_metadata st) = ms_metadata st"
  shows "match_rules R preMatch supportBypass i rules st =
     (let j = length (takeWhile (\<lambda>(action, r). \<not> rule_Match (rt_rule_sets R) (rt_env R) r (ms_metadata st)) rules)
      in if j = length rules then Ret (None, None, st)
         else Ret (None, Some (i + j),
           st\<lparr>ms_metadata := apply_route_options R (the (fst (rules ! j))) (ms_metadata st)\<rparr>))"
  using assms
proof (induction rules arbitrary: i)
  case (Cons p rules)
  obtain a r where p: "p = (Some a, r)"
    and stop: "stops preMatch supportBypass (ic_Network (ms_metadata st)) a" using Cons.prems by fastforce
  have "st\<lparr>ms_metadata := ms_metadata st\<rparr> = st" by simp
  with Cons p perform_stops [OF stop, of R] show ?case by (simp add: Let_def)
qed simp

section \<open>The actions of the rules\<close>

text \<open>The actions routing rules are built with, and those decoding lets through: an action and a known way to reject.\<close>

fun routing_action :: "rule_action \<Rightarrow> bool" where
  "routing_action (RuleActionDNSRoute s d) = False"
| "routing_action (RuleActionEvaluate s d) = False"
| "routing_action RuleActionRespond = False"
| "routing_action (RuleActionDNSRouteOptions d) = False"
| "routing_action (RuleActionPredefined p) = False"
| "routing_action a = True"

definition decoded_action :: "rule_action_options \<Rightarrow> bool" where
  "decoded_action a \<longleftrightarrow> Action a \<noteq> '''' \<and> rj_Method (RejectOptions a) \<in> {''default'', ''drop'', ''reply''}"

fun known_reject :: "rule_action \<Rightarrow> bool" where
  "known_reject (RuleActionReject r) \<longleftrightarrow> Method r \<in> {''default'', ''drop'', ''reply''}"
| "known_reject a = True"

definition options_action :: "('d, 'a) rule_options \<Rightarrow> 'a" where
  "options_action opts = (if ro_Type opts = RuleTypeLogical then ro_LogicalAction opts else ro_Action opts)"

lemma NewRuleAction_routing: "NewRuleAction L a = Ret (Inr (Some act)) \<Longrightarrow> routing_action act"
  by (auto simp: NewRuleAction_def unknown_action_def map_sum_def split: if_splits option.splits sum.splits)

lemma NewRuleAction_decoded:
  "NewRuleAction L a = Ret (Inr act) \<Longrightarrow> decoded_action a \<Longrightarrow> \<exists>act'. act = Some act' \<and> known_reject act'"
  by (auto simp: NewRuleAction_def decoded_action_def unknown_action_def map_sum_def
      split: if_splits option.splits sum.splits)

lemma RuleTypes_differ [simp]: "RuleTypeDefault \<noteq> RuleTypeLogical" "RuleTypeLogical \<noteq> ''''" "'''' \<noteq> RuleTypeLogical"
  by (simp_all add: RuleTypeDefault_def RuleTypeLogical_def)

lemma NewRule_action:
  assumes "NewRule L check opts = Ret (Inr (act, r))"
  shows "NewRuleAction L (options_action opts) = Ret (Inr act)"
proof (cases opts)
  case (RuleOptions ty d a mode rules neg la)
  with assms show ?thesis
    by (auto simp: options_action_def NewDefaultRule_def go_bind_Ret_iff result_iffs split: if_split_asm)
qed

lemma Initialize_rules_NewRule:
  "Initialize_rules L i opts = Ret (Inr rules) \<Longrightarrow>
     list_all2 (\<lambda>opts rule. NewRule L False opts = Ret (Inr rule)) opts rules"
  by (induction opts arbitrary: i rules) (auto simp: go_bind_Ret_iff result_iffs split: option.splits)

lemma Initialize_rules_routing:
  assumes "Initialize_rules L i opts = Ret (Inr rules)" and "j < length rules" and "fst (rules ! j) = Some a"
  shows "routing_action a"
proof -
  obtain r where "rules ! j = (Some a, r)" using assms(3) by (cases "rules ! j") auto
  with list_all2_nthD2 [OF Initialize_rules_NewRule [OF assms(1)] assms(2)] show ?thesis
    by (auto dest!: NewRule_action NewRuleAction_routing)
qed

definition decoded_rules :: "action_rule list \<Rightarrow> bool" where
  "decoded_rules rules \<longleftrightarrow> (\<forall>(action, r) \<in> set rules. \<exists>a. action = Some a \<and> known_reject a)"

lemma Initialize_rules_decoded:
  assumes "Initialize_rules L i opts = Ret (Inr rules)" and "\<forall>opt \<in> set opts. decoded_action (options_action opt)"
  shows "decoded_rules rules"
proof -
  have "\<exists>a. fst rule = Some a \<and> known_reject a" if elem: "rule \<in> set rules" for rule
  proof -
    obtain j where j: "j < length rules" "rules ! j = rule" using elem unfolding in_set_conv_nth by blast
    have all2: "list_all2 (\<lambda>opts rule. NewRule L False opts = Ret (Inr rule)) opts rules"
      by (rule Initialize_rules_NewRule [OF assms(1)])
    have "NewRule L False (opts ! j) = Ret (Inr (fst rule, snd rule))"
      using list_all2_nthD2 [OF all2 j(1)] j(2) by simp
    moreover have "opts ! j \<in> set opts" using all2 j by (simp add: list_all2_lengthD)
    ultimately show ?thesis using assms(2) NewRule_action NewRuleAction_decoded by blast
  qed
  then show ?thesis by (fastforce simp: decoded_rules_def)
qed

section \<open>Handing over\<close>

lemma find_outbound_Inr:
  "find_outbound R network kind tag = Inr ob \<Longrightarrow>
     \<exists>o'. ob = Some o' \<and> network \<in> set (ob_Network o') \<and> rt_outbound R tag = Some o'"
  by (cases "rt_outbound R tag") (auto simp: find_outbound_def split: if_splits)

lemma selected_outbound:
  assumes "matchRule R False False input m = Ret (None, selected, st)"
    and "\<And>j a. j < length (rt_rules R) \<Longrightarrow> fst (rt_rules R ! j) = Some a \<Longrightarrow> routing_action a"
    and "selected_reject R selected = None" and "\<not> selected_hijack R selected"
    and "select_outbound R network kind msg selected = Inr ob"
  shows "\<exists>o'. ob = Some o' \<and> network \<in> set (ob_Network o') \<and> (o' = rt_Default R \<or> (\<exists>tag. rt_outbound R tag = Some o'))"
proof (cases selected)
  case None
  with assms(5) show ?thesis by (auto simp: select_outbound_def default_outbound_def split: if_splits)
next
  case (Some j)
  from matchRule_selects [OF assms(1) [unfolded Some]]
  obtain a r net where j: "j < length (rt_rules R)" "rt_rules R ! j = (Some a, r)" "stops False False net a" by blast
  then have "routing_action a" using assms(2) by simp
  with assms(3-5) Some j show ?thesis
    by (cases a) (auto simp: select_outbound_def selected_reject_def selected_hijack_def
        dest!: find_outbound_Inr split: if_splits)
qed

text \<open>
  What the caller of \<open>routeConnection\<close> and \<open>routePacketConnection\<close> can rely on, for a network: an
  outbound that supports it, behind every tracker; and trackers that know nothing of any other connection.
\<close>

definition passed_trackers ::
    "('w tracker \<Rightarrow> 'c \<Rightarrow> InboundContext \<Rightarrow> nat option \<Rightarrow> outbound option \<Rightarrow> 'w \<Rightarrow> ('c \<times> 'w) go) \<Rightarrow> 'w router \<Rightarrow>
     InboundContext \<Rightarrow> outbound \<Rightarrow> 'c \<Rightarrow> 'w route_state \<Rightarrow> 'w route_state \<Rightarrow> bool" where
  "passed_trackers f R m ob conn s s' \<longleftrightarrow>
     (\<exists>conn0 selected. run_trackers f (rt_trackers R) conn0 m selected (Some ob) (rs_trackers s) = Ret (conn, rs_trackers s'))"

lemma passed_trackersI:
  "run_trackers f (rt_trackers R) conn0 m selected (Some ob) (rs_trackers s) = Ret (conn, rs_trackers s') \<Longrightarrow>
     passed_trackers f R m ob conn s s'"
  unfolding passed_trackers_def by blast

definition served :: "'w router \<Rightarrow> string \<Rightarrow> outbound \<Rightarrow> bool" where
  "served R network ob \<longleftrightarrow>
     network \<in> set (ob_Network ob) \<and> (ob = rt_Default R \<or> (\<exists>tag. rt_outbound R tag = Some ob))"

lemma hand_over_iffs:
  "hand_over h ob c m = OutboundHandler o' c' m' \<longleftrightarrow> ob = Some o' \<and> h o' \<and> c' = c \<and> m' = m"
  "hand_over h ob c m = ConnectionManager ob' c' m' \<longleftrightarrow> ob' = ob \<and> (\<forall>o'. ob = Some o' \<longrightarrow> \<not> h o') \<and> c' = c \<and> m' = m"
  by (auto simp: hand_over_def split: option.splits)

text \<open>A decision, taken apart.\<close>

lemma decide_Inl:
  "decide R t network kind msg input m s = Ret (Inl (e, s')) \<Longrightarrow> rs_trackers s' = rs_trackers s"
  by (auto simp: decide_def reject_def go_bind_Ret_iff split: if_splits option.splits sum.splits)

lemma decide_Inr:
  assumes "decide R t network kind msg input m s = Ret (Inr (selected, st, ob))"
  shows "matchRule R False False input (m\<lparr>ic_Network := network\<rparr>) = Ret (None, selected, st) \<and>
         selected_reject R selected = None \<and> select_outbound R network kind msg selected = Inr ob"
  using assms by (auto simp: decide_def reject_def go_bind_Ret_iff split: if_splits option.splits sum.splits)

lemma decide_outbound:
  assumes "decide R t network kind msg input m s = Ret (Inr (selected, st, ob))"
    and "Initialize_rules L 0 opts = Ret (Inr (rt_rules R))" and "\<not> selected_hijack R selected"
  shows "\<exists>o'. ob = Some o' \<and> served R network o'"
  unfolding served_def using decide_Inr [OF assms(1)] assms(3)
  by (intro selected_outbound [OF _ Initialize_rules_routing [OF assms(2)]]) auto

text \<open>The outcome of routing a connection, for either kind.\<close>

definition properly_routed ::
    "('w tracker \<Rightarrow> 'c \<Rightarrow> InboundContext \<Rightarrow> nat option \<Rightarrow> outbound option \<Rightarrow> 'w \<Rightarrow> ('c \<times> 'w) go) \<Rightarrow> (InboundContext \<Rightarrow> 'c \<Rightarrow> 'c) \<Rightarrow>
     'w router \<Rightarrow> string \<Rightarrow> 'w route_state \<Rightarrow> 'c routed \<Rightarrow> 'w route_state \<Rightarrow> bool" where
  "properly_routed f outer R network s out s' \<longleftrightarrow>
     (case out of
        OutboundHandler ob conn m \<Rightarrow> served R network ob \<and> (\<exists>c. conn = outer m c \<and> passed_trackers f R m ob c s s')
      | ConnectionManager (Some ob) conn m \<Rightarrow> served R network ob \<and> (\<exists>c. conn = outer m c \<and> passed_trackers f R m ob c s s')
      | ConnectionManager None conn m \<Rightarrow> False
      | _ \<Rightarrow> rs_trackers s' = rs_trackers s)"

definition nat_conn :: "InboundContext \<Rightarrow> packet_conn \<Rightarrow> packet_conn" where
  "nat_conn m conn = (if ic_FakeIP m then NATPacketConn conn (ic_OriginDestination m) (ic_Destination m) else conn)"

lemma detour_untracked: "properly_routed f outer R network s (detour R injectable kind conn m) s"
  by (auto simp: detour_def properly_routed_def split: option.split)

lemma hand_over_routed:
  assumes "served R network ob" and "passed_trackers f R m ob c s s'"
  shows "properly_routed f outer R network s (hand_over h (Some ob) (outer m c) m) s'"
  using assms by (auto simp: hand_over_def properly_routed_def)

lemma routeConnection_routed:
  assumes "Initialize_rules L 0 opts = Ret (Inr (rt_rules R))"
    and "routeConnection R t reads conn m s = Ret (out, s')"
  shows "properly_routed tr_RoutedConnection (\<lambda>m c. c) R ''tcp'' s out s'"
proof (cases "ic_InboundDetour m = '''' \<and> legacy_destination R (sa_Fqdn (ic_Destination m)) = None")
  case False
  with assms(2) show ?thesis
    by (auto simp: routeConnection_def detour_untracked properly_routed_def [where out = "Returned _"] split: if_splits)
next
  case True
  with assms(2) obtain d where
    d: "decide R t ''tcp'' ''TCP'' ''TCP is not supported by default outbound: '' (StreamInput reads) m s = Ret d"
    by (auto simp: routeConnection_def go_bind_Ret_iff)
  show ?thesis
  proof (cases d)
    case (Inl x)
    with assms(2) True d show ?thesis
      by (cases x) (auto simp: routeConnection_def properly_routed_def dest: decide_Inl)
  next
    case (Inr x)
    then obtain selected st ob where x: "d = Inr (selected, st, ob)" by (cases x) auto
    show ?thesis
    proof (cases "selected_hijack R selected")
      case True
      with assms(2) \<open>_ \<and> _\<close> d x show ?thesis by (auto simp: routeConnection_def properly_routed_def Let_def)
    next
      case False
      obtain o' where o': "ob = Some o'" "served R ''tcp'' o'"
        using decide_outbound [OF d [unfolded x] assms(1) False] by blast
      with assms(2) \<open>_ \<and> _\<close> d x False show ?thesis
        by (auto simp: routeConnection_def Let_def go_bind_Ret_iff
            intro!: hand_over_routed [where outer = "\<lambda>m c. c"] passed_trackersI)
    qed
  qed
qed

lemma routePacketConnection_routed:
  assumes "Initialize_rules L 0 opts = Ret (Inr (rt_rules R))"
    and "routePacketConnection R t reads conn m s = Ret (out, s')"
  shows "properly_routed tr_RoutedPacketConnection nat_conn R ''udp'' s out s'"
proof (cases "ic_InboundDetour m = ''''")
  case False
  with assms(2) show ?thesis by (auto simp: routePacketConnection_def detour_untracked)
next
  case True
  with assms(2) obtain d where
    d: "decide R t ''udp'' ''UDP'' ''UDP is not supported by outbound: '' (PacketInput reads) m s = Ret d"
    by (auto simp: routePacketConnection_def go_bind_Ret_iff)
  show ?thesis
  proof (cases d)
    case (Inl x)
    with assms(2) True d show ?thesis
      by (cases x) (auto simp: routePacketConnection_def properly_routed_def dest: decide_Inl)
  next
    case (Inr x)
    then obtain selected st ob where x: "d = Inr (selected, st, ob)" by (cases x) auto
    show ?thesis
    proof (cases "selected_hijack R selected")
      case hijack: True
      with assms(2) True d x show ?thesis by (auto simp: routePacketConnection_def properly_routed_def)
    next
      case False
      obtain o' where o': "ob = Some o'" "served R ''udp'' o'"
        using decide_outbound [OF d [unfolded x] assms(1) False] by blast
      with assms(2) True d x False show ?thesis
        by (auto simp: routePacketConnection_def Let_def go_bind_Ret_iff nat_conn_def [symmetric]
            intro!: hand_over_routed [where outer = nat_conn] passed_trackersI)
    qed
  qed
qed

section \<open>Routing returns\<close>

lemma match_rules_returns: "decoded_rules rules \<Longrightarrow> returns (match_rules R preMatch supportBypass i rules st)"
proof (induction rules arbitrary: i st)
  case (Cons p rules)
  obtain a r where p: "p = (Some a, r)" using Cons.prems by (fastforce simp: decoded_rules_def)
  have rest: "returns (match_rules R preMatch supportBypass (Suc i) rules st')" for st'
    using Cons by (simp add: decoded_rules_def)
  show ?case
    by (cases "perform R preMatch supportBypass a (st\<lparr>ms_metadata := ResetRuleCache (ms_metadata st)\<rparr>)")
       (simp add: p Let_def rest split: verdict.split)
qed simp

lemma matchRule_returns: "decoded_rules (rt_rules R) \<Longrightarrow> returns (matchRule R preMatch supportBypass input m)"
  by (simp add: matchRule_def match_rules_returns split: sum.split)

lemma reject_Error_returns: "known_reject (RuleActionReject r) \<Longrightarrow> returns (reject_Error r t triggers)"
  by (auto simp: reject_Error_def Let_def)

lemma reject_returns: "known_reject (RuleActionReject r) \<Longrightarrow> returns (reject kind t selected r s)"
  using reject_Error_returns [of r] by (simp add: reject_def returns_go_bind split: prod.split)

lemma selected_reject_known:
  assumes "matchRule R preMatch supportBypass input m = Ret (err, Some j, st)" and "decoded_rules (rt_rules R)"
  shows "\<exists>a. fst (rt_rules R ! j) = Some a \<and> known_reject a"
proof -
  from matchRule_selects [OF assms(1)] obtain a r where j: "j < length (rt_rules R)" "rt_rules R ! j = (Some a, r)"
    by blast
  have "rt_rules R ! j \<in> set (rt_rules R)" by (rule nth_mem [OF j(1)])
  with assms(2) j(2) show ?thesis by (fastforce simp: decoded_rules_def)
qed

lemma decide_returns:
  assumes "decoded_rules (rt_rules R)"
  shows "returns (decide R t network kind msg input m s)"
proof -
  have "returns (reject kind t selected r s)"
    if "matchRule R False False input (m\<lparr>ic_Network := network\<rparr>) = Ret (None, selected, st)"
      and "selected_reject R selected = Some r" for selected st r
    using that selected_reject_known [OF _ assms]
    by (intro reject_returns) (fastforce simp: selected_reject_def split: option.splits rule_action.splits)
  then show ?thesis
    by (auto simp: decide_def returns_go_bind matchRule_returns [OF assms] split: option.split sum.split)
qed

lemma run_trackers_returns:
  assumes "\<forall>t \<in> set ts. \<forall>c m sel ob w. returns (f t c m sel ob w)"
  shows "returns (run_trackers f ts conn m selected ob w)"
  using assms by (induction ts arbitrary: conn w) (auto simp: returns_go_bind)

lemma routeConnection_returns:
  assumes "decoded_rules (rt_rules R)"
    and "\<forall>tr \<in> set (rt_trackers R). \<forall>c m sel ob w. returns (tr_RoutedConnection tr c m sel ob w)"
  shows "returns (routeConnection R t reads conn m s)"
  by (auto simp: routeConnection_def returns_go_bind decide_returns [OF assms(1)] Let_def
      run_trackers_returns [OF assms(2)] split: sum.split)

lemma routePacketConnection_returns:
  assumes "decoded_rules (rt_rules R)"
    and "\<forall>tr \<in> set (rt_trackers R). \<forall>c m sel ob w. returns (tr_RoutedPacketConnection tr c m sel ob w)"
  shows "returns (routePacketConnection R t reads conn m s)"
  by (auto simp: routePacketConnection_def returns_go_bind decide_returns [OF assms(1)] Let_def
      run_trackers_returns [OF assms(2)] split: sum.split)

text \<open>A pre-match returns when every outbound that carries ICMP can route directly.\<close>

definition icmp_direct :: "'w router \<Rightarrow> bool" where
  "icmp_direct R \<longleftrightarrow>
     (''icmp'' \<in> set (ob_Network (rt_Default R)) \<longrightarrow> ob_DirectRoute (rt_Default R)) \<and>
     (\<forall>tag ob. rt_outbound R tag = Some ob \<and> ''icmp'' \<in> set (ob_Network ob) \<longrightarrow> ob_DirectRoute ob)"

lemma find_direct_returns: "icmp_direct R \<Longrightarrow> returns (find_direct R ''icmp'' tag)"
  by (auto simp: find_direct_def icmp_direct_def direct_outbound_def returns_go_bind split: option.split)

lemma actionResolve_network: "actionResolve R server opts m = Inr m' \<Longrightarrow> ic_Network m' = ic_Network m"
  by (auto simp: actionResolve_def split: if_splits sum.splits)

lemma perform_network:
  "perform R True supportBypass a st = (v, st') \<Longrightarrow> ic_Network (ms_metadata st') = ic_Network (ms_metadata st)"
  by (cases a) (auto simp: perform_def Let_def dest: actionResolve_network split: if_splits sum.splits)

lemma match_rules_network:
  "match_rules R True supportBypass i rules st = Ret (err, selected, st') \<Longrightarrow>
     ic_Network (ms_metadata st') = ic_Network (ms_metadata st)"
proof (induction rules arbitrary: i st)
  case (Cons p rules)
  obtain action r where p: "p = (action, r)" by fastforce
  note step = Cons.prems [unfolded p match_rules.simps Let_def]
  show ?case
    using step Cons.IH perform_network
    by (fastforce split: if_splits option.splits prod.splits verdict.splits)
qed simp

lemma matchRule_network:
  "matchRule R True supportBypass input m = Ret (None, selected, st) \<Longrightarrow> ic_Network (ms_metadata st) = ic_Network m"
  by (auto simp: matchRule_def dest!: match_rules_network before_rules_network split: sum.splits)

lemma PreMatch_returns:
  assumes "decoded_rules (rt_rules R)" and "icmp_direct R" and "routeContext \<Longrightarrow> ic_Network m = ''icmp''"
  shows "returns (PreMatch R t routeContext supportBypass m s)"
proof -
  obtain err selected st where M: "matchRule R True supportBypass NoInput m = Ret (err, selected, st)"
    using matchRule_returns [OF assms(1)] unfolding returns_iff by (metis prod_cases3)
  have direct: "returns (direct_outbound (rt_Default R))" if "''icmp'' \<in> set (ob_Network (rt_Default R))"
    using that assms(2) by (simp add: icmp_direct_def direct_outbound_def)
  show ?thesis
  proof (cases "err = None")
    case True
    with M have net: "ic_Network (ms_metadata st) = ic_Network m" using matchRule_network by blast
    show ?thesis
    proof (cases selected)
      case None
      with M True net direct show ?thesis by (auto simp: PreMatch_def Let_def returns_go_bind)
    next
      case (Some j)
      then obtain a where "fst (rt_rules R ! j) = Some a" "known_reject a"
        using selected_reject_known [OF _ assms(1)] M by blast
      with M True Some net assms(3) find_direct_returns [OF assms(2)] show ?thesis
        by (cases a) (auto simp: PreMatch_def Let_def returns_go_bind intro: reject_Error_returns)
    qed
  qed (auto simp: PreMatch_def M)
qed

section \<open>What was read is delivered\<close>

definition sniff_count :: "action_rule list \<Rightarrow> nat" where
  "sniff_count rules = length (filter (\<lambda>(action, r). \<exists>s. action = Some (RuleActionSniff s)) rules)"

definition stream_kept :: "match_state \<Rightarrow> string \<Rightarrow> bool" where
  "stream_kept st sent \<longleftrightarrow>
     (\<exists>reads. ms_input st = StreamInput reads \<and> (\<forall>e. Inl e \<notin> set reads) \<and>
        concat (ms_buffers st) @ concat (chunks reads) = sent)"

lemma stream_kept_metadata [simp]: "stream_kept (st\<lparr>ms_metadata := m\<rparr>) sent = stream_kept st sent"
  by (simp add: stream_kept_def)

lemma actionSniff_stream:
  assumes "stream_kept st sent" and "actionSniff R a st = (st', e)"
  shows "stream_kept st' sent \<and> length (ms_buffers st') \<le> Suc (length (ms_buffers st))"
proof -
  obtain reads where r: "ms_input st = StreamInput reads" "\<forall>e. Inl e \<notin> set reads"
    "concat (ms_buffers st) @ concat (chunks reads) = sent" using assms(1) by (auto simp: stream_kept_def)
  obtain m b reads' where S: "sniff_stream (rt_IsDomainName R) (rt_stream_sniffer R) a (ms_buffers st) reads (ms_metadata st)
      = (m, b, reads')" by (metis prod_cases3)
  from sniff_stream_keeps [OF S r(2)] r assms(2) S show ?thesis
    by (cases b) (auto simp: actionSniff_def stream_kept_def)
qed

lemma perform_stream:
  assumes "stream_kept st sent" and "perform R False False a st = (v, st')"
  shows "stream_kept st' sent \<and> length (ms_buffers st') \<le> length (ms_buffers st) + sniff_count [(Some a, r)]"
  using assms
  by (cases a) (auto simp: perform_def Let_def sniff_count_def dest: actionSniff_stream [rotated]
      split: if_splits sum.splits prod.splits option.splits)

lemma match_rules_stream:
  assumes "stream_kept st sent" and "match_rules R False False i rules st = Ret (err, selected, st')"
  shows "stream_kept st' sent \<and> length (ms_buffers st') \<le> length (ms_buffers st) + sniff_count rules"
  using assms
proof (induction rules arbitrary: i st)
  case (Cons p rules)
  obtain action r where p: "p = (action, r)" by fastforce
  let ?st = "st\<lparr>ms_metadata := ResetRuleCache (ms_metadata st)\<rparr>"
  have kept: "stream_kept ?st sent" using Cons.prems by simp
  have count: "sniff_count (p # rules) = sniff_count [p] + sniff_count rules" by (simp add: sniff_count_def)
  note step = Cons.prems(2) [unfolded p match_rules.simps Let_def]
  show ?case
  proof (cases "rule_Match (rt_rule_sets R) (rt_env R) r (ms_metadata ?st)")
    case False
    with step Cons.IH [OF kept] count show ?thesis by fastforce
  next
    case True
    with step obtain a where a: "action = Some a" by (cases action) auto
    obtain v st1 where P: "perform R False False a ?st = (v, st1)" by fastforce
    note one = perform_stream [OF kept P, of r]
    from step True a P one Cons.IH [of st1 "Suc i"] count p show ?thesis
      by (cases v) fastforce+
  qed
qed (simp add: sniff_count_def)

lemma matchRule_stream:
  assumes "matchRule R False False (StreamInput reads) m = Ret (err, selected, st)" and "\<forall>e. Inl e \<notin> set reads"
  shows "stream_kept st (concat (chunks reads)) \<and> length (ms_buffers st) \<le> sniff_count (rt_rules R)"
proof -
  have start: "stream_kept \<lparr>ms_metadata = m', ms_input = StreamInput reads, ms_buffers = [], ms_packets = []\<rparr>
      (concat (chunks reads))" for m'
    using assms(2) by (simp add: stream_kept_def)
  show ?thesis
  proof (cases "before_rules R m")
    case (Inl e)
    with assms(1) start show ?thesis by (auto simp: matchRule_def)
  next
    case (Inr m')
    with assms(1) match_rules_stream [OF start] show ?thesis by (fastforce simp: matchRule_def)
  qed
qed

text \<open>
  The documented behaviour of the library's connections, for a reader of what is left of the stream: a
  cached connection delivers its buffer first, a connection with a deadline what it wraps.
\<close>

definition buffered_reader :: "(stream_conn \<Rightarrow> string \<Rightarrow> string) \<Rightarrow> bool" where
  "buffered_reader delivers \<longleftrightarrow>
     (\<forall>c b rest. delivers (CachedConn c b) rest = b @ delivers c rest) \<and>
     (\<forall>c rest. delivers (DeadlineConn c) rest = delivers c rest) \<and>
     (\<forall>i rest. delivers (InboundConn i) rest = rest)"

lemma foldl_cached:
  "buffered_reader delivers \<Longrightarrow> delivers (foldl CachedConn c bs) rest = concat (rev bs) @ delivers c rest"
  by (induction bs arbitrary: c) (auto simp: buffered_reader_def)

lemma cached_stream_delivers:
  "buffered_reader delivers \<Longrightarrow>
     delivers (cached_stream R (InboundConn i) st) rest = concat (rev (ms_buffers st)) @ rest"
  by (simp add: cached_stream_def foldl_cached) (simp add: buffered_reader_def)

lemma concat_rev_single: "length bs \<le> 1 \<Longrightarrow> concat (rev bs) = concat bs"
  by (cases bs) auto

end
