(* ===== verification/RouteContracts.thy ===== *)
theory RouteContracts
  imports RouterSafety
begin

text \<open>
  The properties of rules, rule sets and the router, each with an example: what a rule matches, how
  rules are built, how rule sets are shared and replaced, and what becomes of a connection.
\<close>

section \<open>Examples\<close>

definition demo_env :: rule_env where
  "demo_env =
     \<lparr>IsIP = (\<lambda>a. sa_Addr a \<noteq> NoAddr), IsIPv6 = (\<lambda>a. Is6 (sa_Addr a)), IsPublicAddr = (\<lambda>a. True),
      unicode_lower = id, unicode_fold = (=), rr_IsDuplicate = (=), clash_Mode = None, DefaultNetworkInterface = None,
      NetworkInterfaces = [], finder_Interfaces = [], monitor_DefaultInterface = None, wifi_SSID = '''',
      wifi_BSSID = '''', IsAndroid = False\<rparr>"

definition demo_libs :: rule_libs where
  "demo_libs =
     \<lparr>ParsePrefix = (\<lambda>s. Inl (ENew [s])), ParseAddr = (\<lambda>s. Inl (ENew [s])), builder_IPSet = (\<lambda>xs. Inr (\<lambda>a. False)),
      NewMatcher = (\<lambda>ds ss legacy host. host \<in> set ds), NewAdGuardMatcher = (\<lambda>ls host. False),
      regexp_Compile = (\<lambda>s. Inl (ENew [s])),
      ParseSocksaddrHostPort = (\<lambda>s p. no_Socksaddr), dialer_New = (\<lambda>d. None)\<rparr>"

definition to_port :: "16 word \<Rightarrow> InboundContext" where
  "to_port p = no_context\<lparr>ic_Destination := \<lparr>sa_Addr = IPv4 0x01010101, sa_Port = p, sa_Fqdn = ''''\<rparr>\<rparr>"

lemma to_port_simps [simp]:
  "sa_Port (ic_Destination (to_port p)) = p" "\<not> ic_IgnoreDestinationIPCIDRMatch (to_port p)"
  by (simp_all add: to_port_def no_context_def)

definition port_rule :: "16 word \<Rightarrow> bool \<Rightarrow> abstractDefaultRule" where
  "port_rule p neg =
     \<lparr>items = [], sourceAddressItems = [], sourcePortItems = [], destinationAddressItems = [],
      destinationIPCIDRItems = [], destinationPortItems = [PortItem False [p]], allItems = [PortItem False [p]],
      invert = neg\<rparr>"

definition route_to :: "string \<Rightarrow> rule_action_options" where
  "route_to tag =
     no_rule_action\<lparr>Action := ''route'', RouteOptions := no_RouteActionOptions\<lparr>ra_Outbound := tag\<rparr>,
                    RejectOptions := \<lparr>rj_Method = ''default'', rj_NoDrop = False\<rparr>\<rparr>"

definition port_options :: "16 word \<Rightarrow> rule_action_options \<Rightarrow> (RawDefaultRule, rule_action_options) rule_options" where
  "port_options p a = RuleOptions ''default'' (no_RawDefaultRule\<lparr>o_Port := [p]\<rparr>) a '''' [] False no_rule_action"

lemma port_options_build:
  "NewRule demo_libs check (port_options p (route_to ''proxy'')) =
     Ret (Inr (Some (RuleActionRoute ''proxy'' (build_route_options demo_libs False (no_RouteActionOptions\<lparr>ra_Outbound := ''proxy''\<rparr>))),
               DefaultRule (port_rule p False) None False))"
  by (simp add: port_options_def RuleTypeDefault_def default_IsValid_def no_RawDefaultRule_def no_action_match_options_def
      no_match_options_def action_match_options.defs match_options.defs RawDefaultRule.defs route_to_def no_rule_action_def
      NewDefaultRule_def NewRuleAction_def default_rule_steps_def port_steps_def process_steps_def network_steps_def
      interface_steps_def ip_version_steps_def geo_steps_def rule_set_of_def empty_rule_def port_rule_def)

lemma port_rule_sat: "default_sat E (port_rule p neg) m \<longleftrightarrow> sa_Port (ic_Destination m) = p"
  by (simp add: default_sat_def group_sat_def port_rule_def item_match_defs)

lemma port_rule_Match:
  assumes "\<not> ic_IgnoreDestinationIPCIDRMatch m"
  shows "rule_Match S E (DefaultRule (port_rule p neg) None mr) m \<longleftrightarrow> (sa_Port (ic_Destination m) = p) \<noteq> neg"
proof -
  have "invert (port_rule p neg) = neg" "allItems (port_rule p neg) \<noteq> []" by (simp_all add: port_rule_def)
  with rule_sat_states [of "DefaultRule (port_rule p neg) None mr" m _ E] assms show ?thesis
    by (simp add: rule_Match_def matchStatesWithBase_def port_rule_sat)
qed

definition demo_outbound :: "string \<Rightarrow> outbound" where
  "demo_outbound tag = \<lparr>ob_Tag = tag, ob_Network = [''tcp'', ''udp''], ob_ConnectionHandlerEx = False,
     ob_PacketConnectionHandlerEx = False, ob_DirectRoute = False\<rparr>"

text \<open>A router with one rule, for port 443, and a tracker that counts what it wraps.\<close>

definition counting :: "nat tracker" where
  "counting = \<lparr>tr_RoutedConnection = (\<lambda>c m sel ob n. Ret (TrackerConn ''count'' n c, Suc n)),
               tr_RoutedPacketConnection = (\<lambda>c m sel ob n. Ret (TrackerPacketConn ''count'' n c, Suc n))\<rparr>"

definition example_router :: "'w tracker list \<Rightarrow> action_rule list \<Rightarrow> 'w router" where
  "example_router trackers rules =
     \<lparr>rt_rules = rules, rt_rule_sets = (\<lambda>tag. []), rt_env = demo_env, rt_inbound = (\<lambda>tag. None),
      rt_outbound = (\<lambda>tag. if tag = ''proxy'' then Some (demo_outbound tag) else None),
      rt_Default = demo_outbound ''direct'', rt_trackers = trackers, rt_findProcess = None, rt_neighbor = None,
      rt_FakeIP = None, rt_LookupReverseMapping = (\<lambda>a. None), rt_Transport = (\<lambda>tag. False),
      rt_Lookup = (\<lambda>name server opts m. Inr []), rt_IsValid = (\<lambda>a. sa_Addr a \<noteq> NoAddr \<or> sa_Fqdn a \<noteq> ''''),
      rt_IsIPv4 = (\<lambda>a. Is4 (sa_Addr a)), rt_IsDomain = (\<lambda>a. sa_Addr a = NoAddr \<and> sa_Fqdn a \<noteq> ''''),
      rt_IsDomainName = (\<lambda>s. s \<noteq> ''''),
      rt_stream_sniffer = (\<lambda>s m content. (m, Some (ENew [''not recognized'']))),
      rt_packet_sniffer = (\<lambda>s m content. (m, Some (ENew [''not recognized'']))),
      rt_NeedDeadline = (\<lambda>c. False), rt_mux_Destination = ''sp.mux.sing-box.arpa'',
      rt_vmess_MuxDestination = ''v1.mux.cool'', rt_uot_MagicAddress = ''sp.v2.udp-over-tcp.arpa'',
      rt_uot_LegacyMagicAddress = ''sp.udp-over-tcp.arpa''\<rparr>"

lemma example_router_rules [simp]: "rt_rules (example_router trackers rules) = rules"
  by (simp add: example_router_def)

abbreviation demo_router :: "action_rule list \<Rightarrow> nat router" where
  "demo_router \<equiv> example_router [counting]"

definition demo_rules :: "action_rule list" where
  "demo_rules =
     [(Some (RuleActionRoute ''proxy''
         (build_route_options demo_libs False (no_RouteActionOptions\<lparr>ra_Outbound := ''proxy''\<rparr>))),
       DefaultRule (port_rule 443 False) None False)]"

lemma demo_rules_nth:
  "demo_rules ! 0 = (Some (RuleActionRoute ''proxy''
     (build_route_options demo_libs False (no_RouteActionOptions\<lparr>ra_Outbound := ''proxy''\<rparr>))),
   DefaultRule (port_rule 443 False) None False)"
  by (simp add: demo_rules_def)

lemma demo_rules_built:
  "Initialize_rules demo_libs 0 [port_options 443 (route_to ''proxy'')] = Ret (Inr demo_rules)"
proof -
  have "validateNoNestedRuleActions no_rule_action RouteRuleActionNestedUnsupported False (port_options p a) = None" for p a
    by (simp add: port_options_def RuleTypeLogical_def)
  then show ?thesis by (simp add: port_options_build demo_rules_def)
qed

section \<open>Matching\<close>

text \<open>
  C6. Rules mean what the documentation says. A rule without rule sets matches exactly when its
  destination conditions (one of domain, address), its destination ports, its source addresses, its
  source ports and each of its other conditions hold, negated when inverted; a logical rule is the
  conjunction or disjunction of its rules. The state sets of the implementation compute this.
\<close>

theorem rule_Match_documented:
  assumes "no_rule_sets r" and "\<not> ic_IgnoreDestinationIPCIDRMatch m"
  shows "rule_Match S E r m \<longleftrightarrow> rule_sat E r m"
  using rule_sat_states [OF assms] by (simp add: rule_Match_def matchStatesWithBase_def)

theorem rule_Match_documented_witness:
  "rule_Match (\<lambda>tag. []) demo_env
     (LogicalRule LogicalTypeAnd [DefaultRule (port_rule 443 False) None False, DefaultRule (port_rule 80 True) None False] False)
     (to_port 443)"
  by (subst rule_Match_documented)
     (simp_all add: port_rule_sat ResetRuleCache_def ResetRuleMatchCache_def, simp_all add: port_rule_def to_port_def no_context_def)



text \<open>
  C19. A DNS rule is not skipped too early. For rules whose address conditions can be left to the
  response, a rule that would accept a response also passes the check before the lookup, so asking
  before the lookup loses no rule.
\<close>

theorem legacy_pre_match_complete:
  assumes "deferrable S r" and "\<not> ic_IPCIDRMatchSource m" and "\<forall>d rs mr. r = DefaultRule d rs mr \<longrightarrow> \<not> mr"
    and "MatchAddressLimit S E r m response"
  shows "LegacyPreMatch S E r m"
  using assms by (rule pre_match_defers)

theorem legacy_pre_match_complete_witness:
  "LegacyPreMatch (\<lambda>tag. []) demo_env (DefaultRule (port_rule 53 False) None False) (to_port 53)"
proof (rule legacy_pre_match_complete)
  show "deferrable (\<lambda>tag. []) (DefaultRule (port_rule 53 False) None False)"
    by (simp add: deferrable_def deferrable_default_def port_rule_def wf_default_def)
  show "MatchAddressLimit (\<lambda>tag. []) demo_env (DefaultRule (port_rule 53 False) None False) (to_port 53) None"
    by (simp add: MatchAddressLimit_def port_rule_Match to_port_def no_context_def)
qed (simp_all add: to_port_def no_context_def)

section \<open>Building\<close>

text \<open>
  C20. Built rules are well formed. Whatever the options, when \<open>NewRule\<close>, \<open>NewDNSRule\<close> or
  \<open>NewHeadlessRule\<close> returns a rule, every item of each of its default rules stands in the group of its
  kind and in no other, logical rules have a known mode, and rule-set items name rule sets and hold none.
\<close>

theorem built_rules_well_formed:
  "(NewRule L check opts = Ret (Inr (act, r)) \<longrightarrow> well_built fresh_item r) \<and>
   (NewDNSRule L legacy check dns_opts = Ret (Inr (dns_act, dns_r)) \<longrightarrow> well_built fresh_item dns_r) \<and>
   (NewHeadlessRule L headless_opts = Ret (Inr headless_r) \<longrightarrow> well_built (\<lambda>_. True) headless_r)"
  using NewRule_well_built NewDNSRule_well_built NewHeadlessRule_well_built by blast

theorem built_rules_well_formed_witness:
  "NewRule demo_libs True (port_options 443 (route_to ''proxy'')) =
     Ret (Inr (Some (RuleActionRoute ''proxy'' (build_route_options demo_libs False (no_RouteActionOptions\<lparr>ra_Outbound := ''proxy''\<rparr>))),
               DefaultRule (port_rule 443 False) None False)) \<and>
   well_built fresh_item (DefaultRule (port_rule 443 False) None False)"
  using built_rules_well_formed [THEN conjunct1] port_options_build by blast

section \<open>Rejecting\<close>

text \<open>
  Floods are dropped. With method \<open>default\<close> and without \<open>no_drop\<close>, a trigger of a reject action is
  answered with a reset, except when fifty triggers came in the thirty seconds before it; then it is
  dropped. The action never panics and always returns an error that counts as a rejection.
\<close>

theorem reject_drops_floods:
  assumes "Method r = ''default''" and "\<not> NoDrop r" and "sorted ts"
  shows "\<exists>counter. reject_all r ts [] =
    Ret (map (\<lambda>i. Some (RejectedError
      (if flood_limit \<le> length (recent (ts ! i) (take i ts)) then ErrDrop else ErrReset))) [0..<length ts], counter) \<and>
    (\<forall>e. IsRejected (RejectedError e))"
  using reject_run [of r "[]" "[]" ts] assms
  by (simp add: remembers_def IsRejected_def RejectedError_def)

theorem reject_drops_floods_witness:
  "\<exists>counter. reject_all \<lparr>Method = ''default'', NoDrop = False\<rparr> [0, 1, 5 * 10 ^ 10] [] =
     Ret ([Some (RejectedError ErrReset), Some (RejectedError ErrReset), Some (RejectedError ErrReset)], counter)"
  using reject_drops_floods [of "\<lparr>Method = ''default'', NoDrop = False\<rparr>" "[0, 1, 5 * 10 ^ 10]"]
  by (simp add: flood_limit_def recent_def flood_window_def upt_rec del: reject_all.simps)

section \<open>Rule sets\<close>

text \<open>
  C21. An update of a remote rule set is all or nothing. When fetching fails, at the request, at the
  status, at the body, in decoding, in building a rule or in the check of the new metadata, the rule
  set, its ETag and time, and the cache file stay as they were and nobody is told; when it succeeds
  and the rules ask for addresses, the metadata say so.
\<close>

theorem rule_set_update_atomic:
  assumes "fetch L R do_request timeNow s cache = Ret (err, s', cache', called)"
    and "typed_decoders R" and "described s"
  shows "(err \<noteq> None \<longrightarrow> s' = s \<and> cache' = cache \<and> called = []) \<and> described s' \<and> rs_refs s' = rs_refs s"
  using fetch_error [of L R do_request timeNow s cache _ s' cache' called] fetch_described [OF assms] assms(1)
  by (cases err) auto

definition demo_set :: rule_set where
  "demo_set = \<lparr>rs_tag = ''web'', rs_rules = [], rs_metadata = buildRuleSetMetadata [], rs_format = ''source'',
     rs_refs = 1, rs_callbacks = [7], rs_lastUpdated = 0, rs_lastEtag = ''''\<rparr>"

definition demo_decoders :: rule_set_libs where
  "demo_decoders = \<lparr>UnmarshalExtended = (\<lambda>content. if content = ''[]'' then Inr (1, []) else Inl (EDriver ''bad JSON'')),
     srs_Read = (\<lambda>content. Inl (EDriver ''bad rule set'')), validator = None\<rparr>"

theorem rule_set_update_atomic_witness:
  "fetch demo_libs demo_decoders (\<lambda>etag. Inr \<lparr>ans_StatusCode = 200, ans_Status = '''', ans_Etag = ''x'', ans_Body = Inr ''?''\<rparr>)
     5 demo_set None = Ret (Some (EDriver ''bad JSON''), demo_set, None, []) \<and> described demo_set"
proof -
  have run: "fetch demo_libs demo_decoders
      (\<lambda>etag. Inr \<lparr>ans_StatusCode = 200, ans_Status = '''', ans_Etag = ''x'', ans_Body = Inr ''?''\<rparr>) 5 demo_set None =
      Ret (Some (EDriver ''bad JSON''), demo_set, None, [])"
    by (simp add: fetch_def loadBytes_def load_decoded_def demo_set_def demo_decoders_def)
  have "typed_decoders demo_decoders" "described demo_set"
    by (auto simp: typed_decoders_def demo_decoders_def described_def demo_set_def)
  from rule_set_update_atomic [OF run this] run show ?thesis by simp
qed

text \<open>
  C22. Rule sets count their users. However rules are started and closed, again or after a failed
  start, and rule sets are reloaded in between: every rule set counts exactly the rule-set items that
  hold it, and the next start or close of an item neither panics on a count below zero nor misses a rule set.
\<close>

theorem rule_sets_count_users:
  assumes "reach users_init users_step (\<Sigma>, its)" and "i < length its"
  shows "(\<forall>tag. refs_of \<Sigma> tag = held tag its) \<and>
    (\<exists>err it \<Sigma>'. RuleSetItem_Start (its ! i) \<Sigma> = Ret (err, it, \<Sigma>')) \<and>
    (\<exists>it \<Sigma>'. RuleSetItem_Close (its ! i) \<Sigma> = Ret (it, \<Sigma>'))"
proof -
  have inv: "users_inv (\<Sigma>, its)" using assms(1) by (rule rule_set_users.reach_inv)
  show ?thesis
    using RuleSetItem_Start_ok [OF users_inv_item [OF inv assms(2)]]
      RuleSetItem_Close_ok [OF users_inv_item [OF inv assms(2)]] inv
    by (auto simp: users_inv_def)
qed

theorem rule_sets_count_users_witness:
  "\<exists>err it \<Sigma>'. RuleSetItem_Start \<lparr>tagList = [''web''], setList = [], ipCidrMatchSource = False, ipCidrAcceptEmpty = False\<rparr>
     [''web'' \<mapsto> demo_set\<lparr>rs_refs := 0\<rparr>] = Ret (err, it, \<Sigma>')"
  using rule_sets_count_users [of "[''web'' \<mapsto> demo_set\<lparr>rs_refs := 0\<rparr>]"
      "[\<lparr>tagList = [''web''], setList = [], ipCidrMatchSource = False, ipCidrAcceptEmpty = False\<rparr>]" 0]
  by (simp add: reach_init users_init_def refs_of_def)

section \<open>Routing\<close>

text \<open>
  C13. The first matching rule decides. When every action is one the loop stops at, the rule that
  \<open>matchRule\<close> selects is the first in the configured order whose conditions hold, and none is
  selected exactly when none holds; this goes for connections and for the pre-match.
\<close>

theorem first_matching_rule_decides:
  assumes "\<forall>(action, r) \<in> set (rt_rules R). \<exists>a. action = Some a \<and> stops preMatch supportBypass (ic_Network m) a"
    and "before_rules R m = Inr m'" and "ResetRuleCache m' = m'"
  shows "\<exists>st. matchRule R preMatch supportBypass input m =
    Ret (None,
      let j = length (takeWhile (\<lambda>(action, r). \<not> rule_Match (rt_rule_sets R) (rt_env R) r m') (rt_rules R))
      in if j = length (rt_rules R) then None else Some j, st)"
proof -
  let ?st = "\<lparr>ms_metadata = m', ms_input = input, ms_buffers = [], ms_packets = []\<rparr>"
  have "\<forall>(action, r) \<in> set (rt_rules R).
      \<exists>a. action = Some a \<and> stops preMatch supportBypass (ic_Network (ms_metadata ?st)) a"
    using assms(1) before_rules_network [OF assms(2)] by simp
  from match_rules_first [OF this, of R 0] assms(2,3) show ?thesis
    by (simp add: matchRule_def Let_def)
qed

lemma demo_before_rules: "before_rules (example_router trackers rules) (to_port p) = Inr ((to_port p)\<lparr>ic_IPVersion := 4\<rparr>)"
  by (simp add: before_rules_def find_process_def find_neighbor_def find_domain_def fakeip_Contains_def set_ip_version_def
      example_router_def to_port_def no_context_def)

theorem first_matching_rule_decides_witness:
  "\<exists>st. matchRule (demo_router demo_rules) False False (StreamInput []) (to_port 443) = Ret (None, Some 0, st) \<and>
   (\<exists>st. matchRule (demo_router demo_rules) False False (StreamInput []) (to_port 80) = Ret (None, None, st))"
proof -
  have stop: "\<forall>(action, r) \<in> set (rt_rules (demo_router demo_rules)).
      \<exists>a. action = Some a \<and> stops False False (ic_Network (to_port p)) a" for p
    by (simp add: demo_rules_def)
  have reset: "ResetRuleCache ((to_port p)\<lparr>ic_IPVersion := 4\<rparr>) = (to_port p)\<lparr>ic_IPVersion := 4\<rparr>" for p
    by (simp add: ResetRuleCache_def ResetRuleMatchCache_def to_port_def no_context_def)
  show ?thesis
    using first_matching_rule_decides [OF stop demo_before_rules reset, of "StreamInput []" 443]
      first_matching_rule_decides [OF stop demo_before_rules reset, of "StreamInput []" 80]
    by (simp add: demo_rules_def port_rule_Match)
qed

text \<open>
  C3. A connection is never handed over without an outbound or past a tracker. With rules built from
  a configuration, a stream or packet connection that is handed over goes to an outbound that exists
  and supports its network, and what the outbound gets has passed every tracker, in order, with the
  final context. A connection that is refused, detoured or hijacked is seen by no tracker.
\<close>

theorem connections_pass_trackers:
  assumes "Initialize_rules L 0 opts = Ret (Inr (rt_rules R))"
  shows "(routeConnection R t reads conn m s = Ret (out, s') \<longrightarrow>
            properly_routed tr_RoutedConnection (\<lambda>m c. c) R ''tcp'' s out s') \<and>
         (routePacketConnection R t packets pconn m s = Ret (pout, s') \<longrightarrow>
            properly_routed tr_RoutedPacketConnection nat_conn R ''udp'' s pout s')"
  using routeConnection_routed [OF assms] routePacketConnection_routed [OF assms] by blast

definition demo_state :: "nat route_state" where
  "demo_state = \<lparr>rs_trackers = 0, rs_triggers = (\<lambda>i. [])\<rparr>"

lemma example_decide:
  "\<exists>st. ms_buffers st = [] \<and>
     decide (example_router trackers demo_rules) t ''tcp'' ''TCP'' ''TCP is not supported by default outbound: ''
       (StreamInput []) ((to_port 443)\<lparr>ic_User := u\<rparr>) s = Ret (Inr (Some 0, st, Some (demo_outbound ''proxy'')))"
proof -
  let ?R = "example_router trackers demo_rules" and ?m = "(to_port 443)\<lparr>ic_User := u, ic_Network := ''tcp''\<rparr>"
  have before: "before_rules ?R ?m = Inr (?m\<lparr>ic_IPVersion := 4\<rparr>)"
    by (simp add: before_rules_def find_process_def find_neighbor_def find_domain_def fakeip_Contains_def
        set_ip_version_def example_router_def to_port_def no_context_def)
  have match: "rule_Match (rt_rule_sets ?R) (rt_env ?R) (DefaultRule (port_rule 443 False) None False)
      (ResetRuleCache (?m\<lparr>ic_IPVersion := 4\<rparr>))"
    by (subst port_rule_Match) (simp_all add: ResetRuleCache_def ResetRuleMatchCache_def to_port_def no_context_def)
  have rules: "match_rules ?R False False 0 demo_rules st = match_rules ?R False False 0 [demo_rules ! 0] st" for st
    by (simp add: demo_rules_def)
  have "\<exists>st. ms_buffers st = [] \<and> matchRule ?R False False (StreamInput []) ?m = Ret (None, Some 0, st)"
    using match by (simp add: matchRule_def before rules demo_rules_nth perform_def Let_def)
  then show ?thesis
    by (auto simp: decide_def selected_reject_def select_outbound_def find_outbound_def demo_rules_nth)
       (auto simp: example_router_def demo_outbound_def)
qed

lemma demo_routed:
  "\<exists>m'. routeConnection (demo_router demo_rules) 0 [] (InboundConn 5) (to_port 443) demo_state =
     Ret (ConnectionManager (Some (demo_outbound ''proxy'')) (TrackerConn ''count'' 0 (InboundConn 5)) m',
          demo_state\<lparr>rs_trackers := 1\<rparr>)"
proof -
  have user: "(to_port 443)\<lparr>ic_User := ''''\<rparr> = to_port 443" by (simp add: to_port_def no_context_def)
  obtain st where "ms_buffers st = []"
     "decide (demo_router demo_rules) 0 ''tcp'' ''TCP'' ''TCP is not supported by default outbound: ''
       (StreamInput []) (to_port 443) demo_state = Ret (Inr (Some 0, st, Some (demo_outbound ''proxy'')))"
    using example_decide [of "[counting]" 0 "''''" demo_state] user by auto
  then show ?thesis
    by (simp add: routeConnection_def selected_hijack_def demo_rules_nth cached_stream_def)
       (simp add: example_router_def legacy_destination_def to_port_def no_context_def demo_state_def counting_def
          hand_over_def demo_outbound_def)
qed

theorem connections_pass_trackers_witness:
  "\<exists>m'. routeConnection (demo_router demo_rules) 0 [] (InboundConn 5) (to_port 443) demo_state =
     Ret (ConnectionManager (Some (demo_outbound ''proxy'')) (TrackerConn ''count'' 0 (InboundConn 5)) m',
          demo_state\<lparr>rs_trackers := 1\<rparr>) \<and>
   passed_trackers tr_RoutedConnection (demo_router demo_rules) m' (demo_outbound ''proxy'')
     (TrackerConn ''count'' 0 (InboundConn 5)) demo_state (demo_state\<lparr>rs_trackers := 1\<rparr>)"
proof -
  obtain m' where run: "routeConnection (demo_router demo_rules) 0 [] (InboundConn 5) (to_port 443) demo_state =
     Ret (ConnectionManager (Some (demo_outbound ''proxy'')) (TrackerConn ''count'' 0 (InboundConn 5)) m',
          demo_state\<lparr>rs_trackers := 1\<rparr>)" using demo_routed by blast
  have "Initialize_rules demo_libs 0 [port_options 443 (route_to ''proxy'')] = Ret (Inr (rt_rules (demo_router demo_rules)))"
    using demo_rules_built by simp
  from connections_pass_trackers [OF this, THEN conjunct1, rule_format, OF run] run show ?thesis
    by (auto simp: properly_routed_def)
qed



text \<open>
  C18. Sniffing loses nothing. If at most one rule sniffs and no read fails, the stream that is handed
  over delivers exactly the bytes the client sent, in order, however many reads the sniffers needed.
\<close>

theorem sniffed_stream_intact:
  assumes "buffered_reader delivers"
    and "matchRule R False False (StreamInput reads) m = Ret (err, selected, st)"
    and "\<forall>e. Inl e \<notin> set reads" and "sniff_count (rt_rules R) \<le> 1"
  shows "\<exists>left. ms_input st = StreamInput left \<and>
    delivers (cached_stream R (InboundConn i) st) (concat (chunks left)) = concat (chunks reads)"
proof -
  have "length (ms_buffers st) \<le> 1" using matchRule_stream [OF assms(2,3)] assms(4) by simp
  with matchRule_stream [OF assms(2,3)] show ?thesis
    by (auto simp: stream_kept_def cached_stream_delivers [OF assms(1)] concat_rev_single)
qed

text \<open>A reader for the examples, and a rule that sniffs everything with the sniffers of a name.\<close>

primrec read_all :: "stream_conn \<Rightarrow> string \<Rightarrow> string" where
  "read_all (InboundConn i) rest = rest"
| "read_all (DeadlineConn c) rest = read_all c rest"
| "read_all (CachedConn c b) rest = b @ read_all c rest"
| "read_all (TrackerConn n i c) rest = read_all c rest"

lemma read_all_buffered: "buffered_reader read_all"
  by (simp add: buffered_reader_def)

definition sniff_rule :: "string \<Rightarrow> stream_sniffer \<Rightarrow> packet_sniffer list \<Rightarrow> action_rule" where
  "sniff_rule name s ps =
     (Some (RuleActionSniff \<lparr>SnifferNames = [name], StreamSniffers = [s], PacketSniffers = ps, sniff_Timeout = 0,
                             OverrideDestination = False\<rparr>),
      DefaultRule (port_rule 443 False) None False)"

definition secure_context :: InboundContext where
  "secure_context = (to_port 443)\<lparr>ic_IPVersion := 4\<rparr>"

lemma secure_context_matches:
  "rule_Match S E (DefaultRule (port_rule 443 False) None False)
     (secure_context\<lparr>ic_SnifferNames := ns, ic_SniffError := e\<rparr>)"
  "rule_Match S E (DefaultRule (port_rule 443 False) None False) secure_context"
  by (simp_all add: port_rule_Match secure_context_def)

lemma secure_context_reset [simp]:
  "ResetRuleCache (secure_context\<lparr>ic_SnifferNames := ns, ic_SniffError := e\<rparr>) =
     secure_context\<lparr>ic_SnifferNames := ns, ic_SniffError := e\<rparr>"
  "ResetRuleCache secure_context = secure_context"
  by (simp_all add: secure_context_def ResetRuleCache_def ResetRuleMatchCache_def to_port_def no_context_def)

text \<open>A sniff that reads one chunk and recognizes nothing, when another set of sniffers ran before or none did.\<close>

lemma demo_sniff:
  assumes "m = secure_context \<or> m = secure_context\<lparr>ic_SnifferNames := [other], ic_SniffError := e\<rparr>" and "other \<noteq> name"
    and "chunk \<noteq> ''''"
  shows "perform (demo_router rules) False False (the (fst (sniff_rule name s ps)))
      \<lparr>ms_metadata = m, ms_input = StreamInput (Inr chunk # reads), ms_buffers = bs, ms_packets = []\<rparr> =
    (Continue, \<lparr>ms_metadata = secure_context\<lparr>ic_SnifferNames := [name], ic_SniffError := Some (EErrors [ENew [''not recognized'']])\<rparr>,
       ms_input = StreamInput reads, ms_buffers = bs @ [chunk], ms_packets = []\<rparr>)"
proof -
  have "\<not> sniff_Skip m" "ic_Protocol m = ''''" "ic_SniffError m = None \<or> ic_SnifferNames m \<noteq> [name]"
    "m\<lparr>ic_SnifferNames := x, ic_SniffError := y\<rparr> = secure_context\<lparr>ic_SnifferNames := x, ic_SniffError := y\<rparr>" for x y
    using assms(1,2) by (auto simp: sniff_Skip_def secure_context_def to_port_def no_context_def)
  then show ?thesis
    using assms(3)
    by (auto simp: perform_def sniff_rule_def apply_route_options_def action_options_def actionSniff_def sniff_stream_def
        failed_before_def PeekStream_def example_router_def errors_of_def ErrNeedMoreData_def sniffed_def Let_def)
qed

theorem sniffed_stream_intact_witness:
  "\<exists>err selected st left.
     matchRule (demo_router [sniff_rule ''tls'' TLSClientHello []]) False False (StreamInput [Inr ''ab'', Inr ''cd'']) (to_port 443) =
       Ret (err, selected, st) \<and> ms_buffers st = [''ab''] \<and> ms_input st = StreamInput left \<and>
     read_all (cached_stream (demo_router [sniff_rule ''tls'' TLSClientHello []]) (InboundConn 5) st) (concat (chunks left)) = ''abcd''"
proof -
  let ?R = "demo_router [sniff_rule ''tls'' TLSClientHello []]"
  have run: "\<exists>st. matchRule ?R False False (StreamInput [Inr ''ab'', Inr ''cd'']) (to_port 443) = Ret (None, None, st) \<and>
      ms_buffers st = [''ab'']"
    using demo_sniff [where m = secure_context and other = "''x''" and e = None and name = "''tls''" and chunk = "''ab''"]
    by (simp add: matchRule_def demo_before_rules secure_context_def [symmetric] sniff_rule_def secure_context_matches Let_def)
  then obtain st where st: "matchRule ?R False False (StreamInput [Inr ''ab'', Inr ''cd'']) (to_port 443) = Ret (None, None, st)"
    "ms_buffers st = [''ab'']" by blast
  have "sniff_count (rt_rules ?R) \<le> 1" by (simp add: sniff_count_def sniff_rule_def)
  from sniffed_stream_intact [OF read_all_buffered st(1) _ this] st show ?thesis by auto
qed

text \<open>
  With two rules that sniff, each reading a chunk, the chunks are put back in the wrong order: the last
  one is wrapped around the first and is delivered before it.
\<close>

lemma two_sniffs_reverse_stream:
  "\<exists>st. matchRule (demo_router [sniff_rule ''ssh'' SSH [], sniff_rule ''tls'' TLSClientHello []]) False False
      (StreamInput [Inr ''ab'', Inr ''cd'']) (to_port 443) = Ret (None, None, st) \<and> ms_input st = StreamInput [] \<and>
    read_all (cached_stream (demo_router rules) (InboundConn 5) st) '''' = ''cdab''"
proof -
  let ?R = "demo_router [sniff_rule ''ssh'' SSH [], sniff_rule ''tls'' TLSClientHello []]"
  have "\<exists>st. matchRule ?R False False (StreamInput [Inr ''ab'', Inr ''cd'']) (to_port 443) = Ret (None, None, st) \<and>
      ms_input st = StreamInput [] \<and> ms_buffers st = [''ab'', ''cd'']"
    using demo_sniff [where m = secure_context and other = "''x''" and e = None and name = "''ssh''" and chunk = "''ab''"]
      demo_sniff [where m = "secure_context\<lparr>ic_SnifferNames := [''ssh''],
          ic_SniffError := Some (EErrors [ENew [''not recognized'']])\<rparr>" and other = "''ssh''"
        and e = "Some (EErrors [ENew [''not recognized'']])" and name = "''tls''" and chunk = "''cd''" ]
    by (simp add: matchRule_def demo_before_rules secure_context_def [symmetric] sniff_rule_def secure_context_matches Let_def)
  then show ?thesis
    by (auto simp: cached_stream_delivers [OF read_all_buffered])
qed

text \<open>
  A packet that an earlier sniff read and that the next one needs more data after is handed back by the
  next one, and appended again: it is delivered twice.
\<close>

lemma two_sniffs_duplicate_packet:
  assumes "\<not> sniff_Skip (ms_metadata st)" and "ic_Protocol (ms_metadata st) = ''''" and "PacketSniffers a \<noteq> []"
    and "\<not> failed_before a (ms_metadata st)" and "ms_input st = PacketInput [PacketRead q dest]" and "ms_packets st = [(p, d)]"
    and "\<And>m. \<exists>m' e. peek_packet (rt_packet_sniffer R) a p m = (m', Some e) \<and> needs_more_data e"
  shows "ms_packets (fst (actionSniff R a st)) = [(p, d), (p, d), (q, dest)]"
proof -
  obtain m' e where "peek_packet (rt_packet_sniffer R) a p (ms_metadata st) = (m', Some e)" "needs_more_data e"
    using assms(7) by blast
  then have known: "peek_known (rt_packet_sniffer R) a [p] (ms_metadata st) = (m', None)" by simp
  obtain m'' packets err fatal left where
    reads: "peek_reads (rt_packet_sniffer R) a [PacketRead q dest] m' [(p, d)] = (m'', packets, err, fatal, left)"
    by (metis prod_cases5)
  then have "packets = [(p, d), (q, dest)]"
    by (auto split: prod.splits option.splits if_splits)
  with assms known reads show ?thesis
    by (cases fatal) (simp_all add: actionSniff_def sniff_packets_def)
qed

end
