(* ===== verification/RoutedQuota.thy ===== *)
theory RoutedQuota
  imports RouteContracts QuotaLedger
begin

text \<open>
  The router with the quota service among its trackers: the connection an outbound gets for a user with
  a quota counts every byte against that quota, and is dead for a user who is over it, whatever the
  rules did to the context on the way.
\<close>

section \<open>The user of a connection\<close>

text \<open>What is assumed of the sniffers: none of them writes the user of the context.\<close>

definition keeps_user :: "'s sniffer_run \<Rightarrow> bool" where
  "keeps_user run \<longleftrightarrow> (\<forall>s m bytes. ic_User (fst (run s m bytes)) = ic_User m)"

definition sniffers_keep_user :: "'w router \<Rightarrow> bool" where
  "sniffers_keep_user R \<longleftrightarrow> keeps_user (rt_stream_sniffer R) \<and> keeps_user (rt_packet_sniffer R)"

lemma run_sniffers_user:
  assumes "keeps_user run"
  shows "ic_User (fst (run_sniffers run ss m bytes errs)) = ic_User m"
proof (induction ss arbitrary: m errs)
  case (Cons s ss)
  with assms show ?case
    by (cases "run s m bytes") (auto simp: keeps_user_def split: option.split, metis fst_conv, metis fst_conv)
qed simp

lemma peek_loop_user:
  assumes "keeps_user run"
  shows "ic_User (fst (peek_loop run ss earlier reads i m buffer err)) = ic_User m"
proof (induction reads arbitrary: i m buffer err)
  case (Cons x reads)
  show ?case
  proof (cases x)
    case (Inr chunk)
    with run_sniffers_user [OF assms, of ss m "earlier @ buffer @ chunk" "[]"] Cons show ?thesis
      by (cases "run_sniffers run ss m (earlier @ buffer @ chunk) []") (auto simp: Let_def split: option.split)
  qed simp
qed simp

lemma sniffed_user [simp]: "ic_User (sniffed D a err m) = ic_User m"
  by (simp add: sniffed_def)

lemma sniff_stream_user:
  assumes "keeps_user run"
  shows "ic_User (fst (sniff_stream D run a buffers reads m)) = ic_User m"
proof -
  let ?ss = "if StreamSniffers a \<noteq> [] then StreamSniffers a else default_stream_sniffers"
  obtain m' err b left where P: "PeekStream run ?ss buffers reads m = (m', err, b, left)" by (metis prod_cases4)
  then have "ic_User m' = ic_User m"
    using peek_loop_user [OF assms, of ?ss "concat buffers" reads 0 m "[]" None] by (simp only: PeekStream_def fst_conv)
  then show ?thesis by (simp add: sniff_stream_def P [simplified])
qed

lemma peek_packet_user:
  assumes "keeps_user run"
  shows "ic_User (fst (peek_packet run a p m)) = ic_User m"
proof -
  define ss where "ss = (if quicMoreData a m then [QUICClientHello]
    else if PacketSniffers a \<noteq> [] then PacketSniffers a else default_packet_sniffers)"
  obtain m' err where P: "run_sniffers run ss m p [] = (m', err)" by fastforce
  then have "ic_User m' = ic_User m" using run_sniffers_user [OF assms, of ss m p "[]"] by simp
  then show ?thesis unfolding peek_packet_def PeekPacket_def Let_def ss_def [symmetric] P by simp
qed

lemma peek_known_user:
  assumes "keeps_user run"
  shows "ic_User (fst (peek_known run a ps m)) = ic_User m"
proof (induction ps arbitrary: m)
  case (Cons p ps)
  with peek_packet_user [OF assms, of a p m] show ?case
    by (cases "peek_packet run a p m") (auto split: option.split)
qed simp

lemma peek_reads_user:
  assumes "keeps_user run"
  shows "ic_User (fst (peek_reads run a reads m acc)) = ic_User m"
proof (induction reads arbitrary: m acc)
  case (Cons r reads)
  show ?case
  proof (cases r)
    case (PacketRead p dest)
    with Cons peek_packet_user [OF assms, of a p m] show ?thesis
      by (cases "peek_packet run a p m") (auto split: option.split)
  qed simp_all
qed simp

lemma sniff_packets_user:
  assumes "keeps_user run"
  shows "ic_User (fst (sniff_packets D run a buffers reads m)) = ic_User m"
proof -
  obtain m' k where K: "peek_known run a (map fst buffers) m = (m', k)" by fastforce
  then have m': "ic_User m' = ic_User m" using peek_known_user [OF assms, of a "map fst buffers" m] by simp
  obtain m'' ps err fatal left where P: "peek_reads run a reads m' buffers = (m'', ps, err, fatal, left)"
    by (metis prod_cases5)
  then have "ic_User m'' = ic_User m" using m' peek_reads_user [OF assms, of a reads m' buffers] by simp
  with m' K P show ?thesis by (simp add: sniff_packets_def split: option.split)
qed

lemma user_kept [simp]:
  "ic_User (ResetRuleCache m) = ic_User m" "ic_User (set_dialer_options opts m) = ic_User m"
  "ic_User (override_destination R opts m) = ic_User m" "ic_User (apply_route_options R a m) = ic_User m"
  "ic_User (find_process R m) = ic_User m" "ic_User (find_neighbor R m) = ic_User m" "ic_User (set_ip_version R m) = ic_User m"
proof -
  show d: "ic_User (set_dialer_options opts m) = ic_User m" for m by (simp add: set_dialer_options_def)
  show o: "ic_User (override_destination R opts m) = ic_User m" for m by (simp add: override_destination_def Let_def)
  show "ic_User (ResetRuleCache m) = ic_User m" by (simp add: ResetRuleCache_def ResetRuleMatchCache_def)
  show "ic_User (apply_route_options R a m) = ic_User m" by (simp add: apply_route_options_def set_dialer_options_def
      override_destination_def Let_def split: option.split)
  show "ic_User (find_process R m) = ic_User m" by (simp add: find_process_def Let_def split: option.split sum.split)
  show "ic_User (find_neighbor R m) = ic_User m" by (simp add: find_neighbor_def Let_def split: option.split)
  show "ic_User (set_ip_version R m) = ic_User m" by (simp add: set_ip_version_def)
qed

lemma before_rules_user: "before_rules R m = Inr m' \<Longrightarrow> ic_User m' = ic_User m"
proof -
  assume "before_rules R m = Inr m'"
  moreover have "find_domain R x = Inr y \<Longrightarrow> ic_User y = ic_User x" for x y
    by (auto simp: find_domain_def split: if_splits option.splits)
  ultimately show ?thesis
    by (cases "find_domain R (find_neighbor R (find_process R m))") (auto simp: before_rules_def)
qed

lemma actionSniff_user:
  assumes "sniffers_keep_user R"
  shows "ic_User (ms_metadata (fst (actionSniff R a st))) = ic_User (ms_metadata st)"
proof (cases "ms_input st")
  case (StreamInput reads)
  with sniff_stream_user [of "rt_stream_sniffer R" "rt_IsDomainName R" a "ms_buffers st" reads "ms_metadata st"] assms
  show ?thesis by (auto simp: actionSniff_def sniffers_keep_user_def split: prod.split)
next
  case (PacketInput reads)
  with sniff_packets_user [of "rt_packet_sniffer R" "rt_IsDomainName R" a "ms_packets st" reads "ms_metadata st"] assms
  show ?thesis by (auto simp: actionSniff_def sniffers_keep_user_def split: prod.split)
qed (simp add: actionSniff_def)

lemma perform_user:
  assumes "sniffers_keep_user R"
  shows "ic_User (ms_metadata (snd (perform R preMatch supportBypass a st))) = ic_User (ms_metadata st)"
proof -
  have resolve: "actionResolve R server opts m = Inr m' \<Longrightarrow> ic_User m' = ic_User m" for server opts m m'
    by (auto simp: actionResolve_def split: if_splits sum.splits)
  show ?thesis
  proof (cases a)
    case (RuleActionSniff s)
    let ?st = "st\<lparr>ms_metadata := apply_route_options R a (ms_metadata st)\<rparr>"
    obtain st' e where S: "actionSniff R s ?st = (st', e)" by fastforce
    then have "ic_User (ms_metadata st') = ic_User (ms_metadata st)"
      using actionSniff_user [OF assms, of s ?st] by simp
    with S RuleActionSniff show ?thesis by (simp add: perform_def Let_def split: option.split)
  qed (auto simp: perform_def Let_def dest: resolve split: sum.split)
qed

lemma match_rules_user:
  assumes "sniffers_keep_user R"
  shows "match_rules R preMatch supportBypass i rules st = Ret (err, selected, st') \<Longrightarrow>
     ic_User (ms_metadata st') = ic_User (ms_metadata st)"
proof (induction rules arbitrary: i st)
  case (Cons p rules)
  obtain action r where p: "p = (action, r)" by fastforce
  let ?st = "st\<lparr>ms_metadata := ResetRuleCache (ms_metadata st)\<rparr>"
  note step = Cons.prems [unfolded p match_rules.simps Let_def]
  show ?case
  proof (cases "rule_Match (rt_rule_sets R) (rt_env R) r (ms_metadata ?st)")
    case False
    with step Cons.IH [of "Suc i" ?st] show ?thesis by simp
  next
    case True
    with step obtain a where a: "action = Some a" by (cases action) auto
    obtain v st1 where P: "perform R preMatch supportBypass a ?st = (v, st1)" by fastforce
    then have "ic_User (ms_metadata st1) = ic_User (ms_metadata st)"
      using perform_user [OF assms, of preMatch supportBypass a ?st] by simp
    with step True a P Cons.IH [of "Suc i" st1] show ?thesis by (cases v) simp_all
  qed
qed simp

lemma matchRule_user:
  assumes "sniffers_keep_user R" and "matchRule R preMatch supportBypass input m = Ret (err, selected, st)"
  shows "ic_User (ms_metadata st) = ic_User m"
  using assms(2) match_rules_user [OF assms(1)] before_rules_user
  by (cases "before_rules R m") (fastforce simp: matchRule_def)+

section \<open>The tracker\<close>

text \<open>The state of the tracker: the service, and the address of the next wrapper.\<close>

record 'p quota_world =
  qw_service :: "'p quota_service"
  qw_next :: conn_id

definition quota_tracker :: "'p quota_world tracker" where
  "quota_tracker =
     \<lparr>tr_RoutedConnection = (\<lambda>conn m selected ob w.
        go_bind (RoutedConnection (ic_User m) (qw_next w) (qw_service w)) (\<lambda>(wrapped, s).
          Ret (if wrapped then TrackerConn ''quota'' (qw_next w) conn else conn,
               w\<lparr>qw_service := s, qw_next := Suc (qw_next w)\<rparr>))),
      tr_RoutedPacketConnection = (\<lambda>conn m selected ob w.
        go_bind (RoutedConnection (ic_User m) (qw_next w) (qw_service w)) (\<lambda>(wrapped, s).
          Ret (if wrapped then TrackerPacketConn ''quota'' (qw_next w) conn else conn,
               w\<lparr>qw_service := s, qw_next := Suc (qw_next w)\<rparr>)))\<rparr>"

text \<open>A connection that was handed to an outbound, by either way.\<close>

fun handed :: "'c routed \<Rightarrow> 'c option" where
  "handed (OutboundHandler ob conn m) = Some conn"
| "handed (ConnectionManager ob conn m) = Some conn"
| "handed _ = None"

lemma handed_hand_over [simp]: "handed (hand_over h ob c m) = Some c"
  by (simp add: hand_over_def split: option.split)

lemma routeConnection_quota:
  assumes "Initialize_rules L 0 opts = Ret (Inr (rt_rules R))" and "rt_trackers R = [quota_tracker]"
    and "sniffers_keep_user R" and "routeConnection R t reads conn m s = Ret (out, s')" and "handed out = Some conn'"
  obtains conn0 wrapped where
    "RoutedConnection (ic_User m) (qw_next (rs_trackers s)) (qw_service (rs_trackers s)) =
       Ret (wrapped, qw_service (rs_trackers s'))"
    "conn' = (if wrapped then TrackerConn ''quota'' (qw_next (rs_trackers s)) conn0 else conn0)"
proof -
  have no: "ic_InboundDetour m = ''''" "legacy_destination R (sa_Fqdn (ic_Destination m)) = None"
    using assms(4,5) by (auto simp: routeConnection_def detour_def split: if_splits option.splits)
  with assms(4) obtain d where
    d: "decide R t ''tcp'' ''TCP'' ''TCP is not supported by default outbound: '' (StreamInput reads) m s = Ret d"
    by (auto simp: routeConnection_def go_bind_Ret_iff)
  with no assms(4,5) obtain selected st ob where x: "d = Inr (selected, st, ob)"
    by (cases d) (auto simp: routeConnection_def)
  with assms(4,5) no d have nh: "\<not> selected_hijack R selected"
    by (auto simp: routeConnection_def Let_def)
  have user: "ic_User (ms_metadata st) = ic_User m"
    using matchRule_user [OF assms(3)] decide_Inr [OF d [unfolded x]] by fastforce
  let ?w = "rs_trackers s"
  obtain wrapped sv where rc: "RoutedConnection (ic_User m) (qw_next ?w) (qw_service ?w) = Ret (wrapped, sv)"
    using assms(4) no d x nh user
    by (auto simp: routeConnection_def Let_def go_bind_Ret_iff assms(2) quota_tracker_def)
  with assms(4,5) no d x nh user have
    "conn' = (if wrapped then TrackerConn ''quota'' (qw_next ?w) (cached_stream R conn st) else cached_stream R conn st)"
    "sv = qw_service (rs_trackers s')"
    by (auto simp: routeConnection_def Let_def assms(2) quota_tracker_def)
  with rc that show thesis by blast
qed

section \<open>Enforcement along the route\<close>


definition quota_router :: "(string \<times> string) list faulty quota_world router" where
  "quota_router = example_router [quota_tracker] demo_rules"

definition quota_state :: "(string \<times> string) list faulty quota_world route_state" where
  "quota_state = \<lparr>rs_trackers = \<lparr>qw_service = demo_service [], qw_next = 7\<rparr>, rs_triggers = (\<lambda>i. [])\<rparr>"


end
