(* ===== verification/Managers.thy ===== *)
theory Managers
  imports Prelude "HOL-Library.AList"
begin

text \<open>
  The managers that hold the parts of an instance by their tags: inbounds, endpoints, services,
  certificate providers (\<open>src/adapter/{inbound,endpoint,service,certificate}/manager.go\<close>), outbounds
  (\<open>src/adapter/outbound/manager.go\<close>) and DNS transports (\<open>src/dns/transport_manager.go\<close>), with the
  stages of \<open>src/adapter/lifecycle.go\<close>. The six files repeat one another; what they share is one
  function here, and what differs is in the functions named after the manager.

  A part is what a manager sees of it: an identity (pointers are compared), a type, a tag, the tags
  it depends on, and what starting and closing it does to the world \<open>'w\<close>. A part without a \<open>Start\<close> or
  \<open>Close\<close> leaves the world alone. What a registry creates is an argument.
\<close>

section \<open>Parts and managers\<close>

record 'w part =
  pt_Id :: nat
  pt_Type :: string
  pt_Tag :: string
  pt_Dependencies :: "string list"
  pt_Start :: "nat \<Rightarrow> 'w \<Rightarrow> go_error option \<times> 'w"
  pt_Close :: "'w \<Rightarrow> go_error option \<times> 'w"

definition StartStateInitialize :: nat where "StartStateInitialize = 0"
definition StartStateStart :: nat where "StartStateStart = 1"
definition StartStatePostStart :: nat where "StartStatePostStart = 2"
definition StartStateStarted :: nat where "StartStateStarted = 3"

definition ListStartStages :: "nat list" where
  "ListStartStages = [StartStateInitialize, StartStateStart, StartStatePostStart, StartStateStarted]"

definition stage_String :: "nat \<Rightarrow> string" where
  "stage_String s =
     (if s = StartStateInitialize then ''initialize''
      else if s = StartStateStart then ''start''
      else if s = StartStatePostStart then ''post-start''
      else ''finish-start'')"

record 'p manager =
  mg_started :: bool
  mg_stage :: nat
  mg_parts :: "'p list"
  mg_byTag :: "(string \<times> 'p) list"

text \<open>Outbounds and transports have a default and know who depends on a tag; nobody is the empty list.\<close>

record 'p dep_manager = "'p manager" +
  mg_defaultTag :: string
  mg_default :: "'p option"
  mg_dependBy :: "string \<Rightarrow> string list"

record 'p transport_manager = "'p dep_manager" +
  mg_fakeIP :: "'p option"

definition mg_Get :: "('p, 'x) manager_scheme \<Rightarrow> string \<Rightarrow> 'p option" where
  "mg_Get m tag = map_of (mg_byTag m) tag"

definition part_name :: "string \<Rightarrow> ('w, 'x) part_scheme \<Rightarrow> string list" where
  "part_name kind p = [kind, pt_Type p, ''['', pt_Tag p, '']'']"

definition ErrInvalid :: go_error where
  "ErrInvalid = EDriver ''os.ErrInvalid''"

section \<open>Starting and closing\<close>

definition mg_begin :: "nat \<Rightarrow> ('p, 'x) manager_scheme \<Rightarrow> ('p, 'x) manager_scheme go" where
  "mg_begin stage m =
     (if mg_started m \<and> mg_stage m \<ge> stage then Panic (ENew [''already started''])
      else Ret (m\<lparr>mg_started := True, mg_stage := stage\<rparr>))"

text \<open>Parts one after the other, up to the first that fails.\<close>

fun start_all :: "string \<Rightarrow> nat \<Rightarrow> ('w, 'x) part_scheme list \<Rightarrow> 'w \<Rightarrow> go_error option \<times> 'w" where
  "start_all kind stage [] w = (None, w)"
| "start_all kind stage (p # ps) w =
     (case pt_Start p stage w of
        (Some e, w') \<Rightarrow> (Some (ECause e (stage_String stage # '' '' # part_name kind p)), w')
      | (None, w') \<Rightarrow> start_all kind stage ps w')"

text \<open>One part through the given stages, as a part that joins a running manager goes through all.\<close>

fun start_stages :: "string \<Rightarrow> nat list \<Rightarrow> ('w, 'x) part_scheme \<Rightarrow> 'w \<Rightarrow> go_error option \<times> 'w" where
  "start_stages kind [] p w = (None, w)"
| "start_stages kind (s # ss) p w =
     (case pt_Start p s w of
        (Some e, w') \<Rightarrow> (Some (ECause e (stage_String s # '' '' # part_name kind p)), w')
      | (None, w') \<Rightarrow> start_stages kind ss p w')"

text \<open>All parts are closed; the errors are collected with \<open>E.Append\<close>.\<close>

definition append_error :: "go_error option \<Rightarrow> go_error option \<Rightarrow> go_error option" where
  "append_error err other =
     (case other of None \<Rightarrow> err | Some e \<Rightarrow> errors_of ((case err of None \<Rightarrow> [] | Some e' \<Rightarrow> [e']) @ [e]))"

fun close_all ::
    "string \<Rightarrow> ('w, 'x) part_scheme list \<Rightarrow> go_error option \<Rightarrow> 'w \<Rightarrow> go_error option \<times> 'w" where
  "close_all kind [] err w = (err, w)"
| "close_all kind (p # ps) err w =
     (case pt_Close p w of
        (e, w') \<Rightarrow> close_all kind ps (append_error err (map_option (\<lambda>e. ECause e (''close '' # part_name kind p)) e)) w')"

definition mg_Close ::
    "string \<Rightarrow> (('w, 'x) part_scheme, 'y) manager_scheme \<Rightarrow> 'w \<Rightarrow>
     go_error option \<times> (('w, 'x) part_scheme, 'y) manager_scheme \<times> 'w" where
  "mg_Close kind m w =
     (if \<not> mg_started m then (None, m, w)
      else
        (case close_all kind (mg_parts m) None w of
           (err, w') \<Rightarrow> (err, m\<lparr>mg_started := False, mg_parts := []\<rparr>, w')))"

text \<open>Only the manager of certificate providers gives the collected error back.\<close>

definition certificate_Close where "certificate_Close = mg_Close ''certificate-provider/''"

definition quiet_Close ::
    "string \<Rightarrow> (('w, 'x) part_scheme, 'y) manager_scheme \<Rightarrow> 'w \<Rightarrow>
     go_error option \<times> (('w, 'x) part_scheme, 'y) manager_scheme \<times> 'w" where
  "quiet_Close kind m w = (case mg_Close kind m w of (err, m', w') \<Rightarrow> (None, m', w'))"

definition inbound_Close where "inbound_Close = quiet_Close ''inbound/''"
definition endpoint_Close where "endpoint_Close = quiet_Close ''endpoint/''"
definition service_Close where "service_Close = quiet_Close ''service/''"
definition outbound_Close where "outbound_Close = quiet_Close ''outbound/''"
definition transport_Close where "transport_Close = quiet_Close ''server/''"

section \<open>Registering\<close>

fun remove_id :: "nat \<Rightarrow> ('w, 'x) part_scheme list \<Rightarrow> ('w, 'x) part_scheme list" where
  "remove_id i [] = []"
| "remove_id i (p # ps) = (if pt_Id p = i then ps else p # remove_id i ps)"

definition drop_part :: "string \<Rightarrow> ('w, 'x) part_scheme \<Rightarrow> ('w, 'x) part_scheme list \<Rightarrow> ('w, 'x) part_scheme list go" where
  "drop_part what p ps =
     (if pt_Id p \<in> set (map pt_Id ps) then Ret (remove_id (pt_Id p) ps)
      else Panic (ENew [''invalid '', what, '' index'']))"

type_synonym ('m, 'w) mg_result = "(go_error option \<times> 'm \<times> 'w) go"

text \<open>What every \<open>Create\<close> does with the part \<open>created\<close>; the error of the registry otherwise.\<close>

definition mg_replace ::
    "string \<Rightarrow> string \<Rightarrow> string \<Rightarrow> (('w, 'x) part_scheme, 'y) manager_scheme \<Rightarrow> 'w \<Rightarrow>
     ((('w, 'x) part_scheme, 'y) manager_scheme, 'w) mg_result" where
  "mg_replace kind what tag m w =
     (case mg_Get m tag of
        None \<Rightarrow> Ret (None, m, w)
      | Some old \<Rightarrow>
          (case (if mg_started m then pt_Close old w else (None, w)) of
             (Some e, w') \<Rightarrow> Ret (Some (ECause e (''close '' # part_name kind old)), m, w')
           | (None, w') \<Rightarrow>
               go_bind (drop_part what old (mg_parts m)) (\<lambda>ps. Ret (None, m\<lparr>mg_parts := ps\<rparr>, w'))))"

definition mg_Create ::
    "string \<Rightarrow> string \<Rightarrow> string \<Rightarrow> go_error + ('w, 'x) part_scheme \<Rightarrow> (('w, 'x) part_scheme, 'y) manager_scheme \<Rightarrow> 'w \<Rightarrow>
     ((('w, 'x) part_scheme, 'y) manager_scheme, 'w) mg_result" where
  "mg_Create kind what tag created m w =
     (case created of
        Inl e \<Rightarrow> Ret (Some e, m, w)
      | Inr p \<Rightarrow>
          (case (if mg_started m then start_stages kind ListStartStages p w else (None, w)) of
             (Some e, w') \<Rightarrow> Ret (Some e, m, w')
           | (None, w') \<Rightarrow>
               go_bind (mg_replace kind what tag m w') (\<lambda>(e, m', w'').
                 if e \<noteq> None then Ret (e, m', w'')
                 else Ret (None, m'\<lparr>mg_parts := mg_parts m' @ [p], mg_byTag := AList.update tag p (mg_byTag m')\<rparr>, w''))))"

text \<open>The entry of a tag leaves the table and its part the list.\<close>

definition mg_take ::
    "string \<Rightarrow> string \<Rightarrow> (('w, 'x) part_scheme, 'y) manager_scheme \<Rightarrow>
     (('w, 'x) part_scheme option \<times> (('w, 'x) part_scheme, 'y) manager_scheme) go" where
  "mg_take what tag m =
     (case mg_Get m tag of
        None \<Rightarrow> Ret (None, m)
      | Some p \<Rightarrow>
          go_bind (drop_part what p (mg_parts m)) (\<lambda>ps.
            Ret (Some p, m\<lparr>mg_byTag := AList.delete tag (mg_byTag m), mg_parts := ps\<rparr>)))"

definition close_if ::
    "bool \<Rightarrow> ('w, 'x) part_scheme \<Rightarrow> 'w \<Rightarrow> go_error option \<times> 'w" where
  "close_if started p w = (if started then pt_Close p w else (None, w))"

definition mg_Remove ::
    "string \<Rightarrow> string \<Rightarrow> (('w, 'x) part_scheme, 'y) manager_scheme \<Rightarrow> 'w \<Rightarrow>
     ((('w, 'x) part_scheme, 'y) manager_scheme, 'w) mg_result" where
  "mg_Remove what tag m w =
     go_bind (mg_take what tag m) (\<lambda>(taken, m').
       Ret (case taken of
              None \<Rightarrow> (Some ErrInvalid, m', w)
            | Some p \<Rightarrow> (case close_if (mg_started m') p w of (e, w') \<Rightarrow> (e, m', w'))))"

section \<open>Inbounds, endpoints, services, certificate providers\<close>

definition mg_Start ::
    "string \<Rightarrow> nat \<Rightarrow> (('w, 'x) part_scheme, 'y) manager_scheme \<Rightarrow> 'w \<Rightarrow>
     ((('w, 'x) part_scheme, 'y) manager_scheme, 'w) mg_result" where
  "mg_Start kind stage m w =
     go_bind (mg_begin stage m) (\<lambda>m'. Ret (case start_all kind stage (mg_parts m') w of (e, w') \<Rightarrow> (e, m', w')))"

definition inbound_Start where "inbound_Start = mg_Start ''inbound/''"
definition service_Start where "service_Start = mg_Start ''service/''"
definition certificate_Start where "certificate_Start = mg_Start ''certificate-provider/''"

text \<open>Endpoints pass the stage \<open>start\<close> with the outbounds.\<close>

definition endpoint_Start ::
    "nat \<Rightarrow> (('w, 'x) part_scheme, 'y) manager_scheme \<Rightarrow> 'w \<Rightarrow> ((('w, 'x) part_scheme, 'y) manager_scheme, 'w) mg_result" where
  "endpoint_Start stage m w =
     (if stage = StartStateStart then go_bind (mg_begin stage m) (\<lambda>m'. Ret (None, m', w))
      else mg_Start ''endpoint/'' stage m w)"

definition inbound_Create where "inbound_Create = mg_Create ''inbound/'' ''inbound''"
definition endpoint_Create where "endpoint_Create = mg_Create ''endpoint/'' ''endpoint''"
definition service_Create where "service_Create = mg_Create ''service/'' ''service''"
definition certificate_Create where "certificate_Create = mg_Create ''certificate-provider/'' ''certificate provider''"

definition inbound_Remove where "inbound_Remove = mg_Remove ''inbound''"
definition endpoint_Remove where "endpoint_Remove = mg_Remove ''endpoint''"
definition service_Remove where "service_Remove = mg_Remove ''service''"
definition certificate_Remove where "certificate_Remove = mg_Remove ''certificate provider''"

text \<open>A tag that is no inbound may be an endpoint; the same holds for outbounds.\<close>

definition get_or_endpoint ::
    "('p, 'x) manager_scheme \<Rightarrow> ('p, 'y) manager_scheme \<Rightarrow> string \<Rightarrow> 'p option" where
  "get_or_endpoint m endpoints tag =
     (case mg_Get m tag of Some p \<Rightarrow> Some p | None \<Rightarrow> mg_Get endpoints tag)"

section \<open>Starting in the order of dependencies\<close>

text \<open>
  One round of \<open>startOutbounds\<close> and \<open>startTransports\<close> over all parts: a part that has not been started
  and whose dependencies have starts. \<open>started\<close> has the tags in the order of their start.
\<close>

fun start_round ::
    "string \<Rightarrow> ('w, 'x) part_scheme list \<Rightarrow> string list \<Rightarrow> bool \<Rightarrow> 'w \<Rightarrow> go_error option \<times> string list \<times> bool \<times> 'w" where
  "start_round kind [] started canContinue w = (None, started, canContinue, w)"
| "start_round kind (p # ps) started canContinue w =
     (if pt_Tag p \<in> set started \<or> \<not> set (pt_Dependencies p) \<subseteq> set started
      then start_round kind ps started canContinue w
      else
        (case pt_Start p StartStateStart w of
           (Some e, w') \<Rightarrow> (Some (ECause e (''start '' # part_name kind p)), started @ [pt_Tag p], True, w')
         | (None, w') \<Rightarrow> start_round kind ps (started @ [pt_Tag p]) True w'))"

text \<open>
  What holds a part back: \<open>lintOutbound\<close> and \<open>lintTransport\<close> follow the first dependency that has not
  been started until it is on the path already or unknown. \<open>common.Find\<close> gives the empty string when
  there is none.
\<close>

definition first_missing :: "string list \<Rightarrow> ('w, 'x) part_scheme \<Rightarrow> string" where
  "first_missing started p =
     (case find (\<lambda>it. it \<notin> set started) (pt_Dependencies p) of Some t \<Rightarrow> t | None \<Rightarrow> '''')"

lemma path_grows:
  assumes "map_of byTag x = Some p" and "x \<notin> set oTree"
  shows "card (set (map fst byTag) - set (oTree @ [x])) < card (set (map fst byTag) - set oTree)"
proof (rule psubset_card_mono)
  have "x \<in> set (map fst byTag)" using assms(1) by (force dest: map_of_SomeD)
  then show "set (map fst byTag) - set (oTree @ [x]) \<subset> set (map fst byTag) - set oTree" using assms(2) by auto
qed simp

function lint ::
    "string \<Rightarrow> (string \<times> ('w, 'x) part_scheme) list \<Rightarrow> string list \<Rightarrow> string list \<Rightarrow> ('w, 'x) part_scheme \<Rightarrow> go_error" where
  "lint what byTag started oTree oCurrent =
     (let problemTag = first_missing started oCurrent
      in if problemTag \<in> set oTree then
           ENew ([''circular '', what, '' dependency: ''] @ oTree @ [problemTag])
         else
           (case map_of byTag problemTag of
              None \<Rightarrow> ENew [''dependency['', problemTag, ''] not found for '', what, ''['', pt_Tag oCurrent, '']'']
            | Some problem \<Rightarrow> lint what byTag started (oTree @ [problemTag]) problem))"
  by pat_completeness auto
termination
  by (relation "measure (\<lambda>(what, byTag, started, oTree, oCurrent). card (set (map fst byTag) - set oTree))")
     (auto simp del: set_map set_append intro: path_grows)

declare lint.simps [simp del]

lemma start_round_subset: "start_round kind ps started c w = (e, started', c', w') \<Longrightarrow> set started \<subseteq> set started'"
  by (induction kind ps started c w rule: start_round.induct) (auto split: if_splits prod.splits option.splits)

lemma start_round_tags:
  "start_round kind ps started c w = (e, started', c', w') \<Longrightarrow> set started' \<subseteq> set started \<union> pt_Tag ` set ps"
proof (induction kind ps started c w rule: start_round.induct)
  case (2 kind p ps started c w)
  then show ?case by (cases "pt_Start p StartStateStart w") (auto split: if_splits option.splits)
qed simp

lemma start_round_grows:
  "start_round kind ps started c w = (e, started', c', w') \<Longrightarrow> c' \<Longrightarrow> c \<or> set started \<subset> set started'"
proof (induction kind ps started c w rule: start_round.induct)
  case (2 kind p ps started c w)
  show ?case
  proof (cases "pt_Tag p \<in> set started \<or> \<not> set (pt_Dependencies p) \<subseteq> set started")
    case True
    with 2 show ?thesis by simp
  next
    case False
    then have "set (started @ [pt_Tag p]) \<subseteq> set started'"
      using 2(3) start_round_subset [of kind ps "started @ [pt_Tag p]"] by (auto split: prod.splits option.splits)
    with False show ?thesis by auto
  qed
qed simp

lemma start_round_decreases:
  assumes "start_round kind ps started False w = (e, started', True, w')"
  shows "card (pt_Tag ` set ps - set started') < card (pt_Tag ` set ps - set started)"
proof (rule psubset_card_mono)
  show "pt_Tag ` set ps - set started' \<subset> pt_Tag ` set ps - set started"
    using start_round_grows [OF assms] start_round_tags [OF assms] by blast
qed simp

text \<open>
  The loop over the rounds. With two parts of one tag it ends without a part to blame, and the method
  call on the missing part panics.
\<close>

function start_parts ::
    "string \<Rightarrow> string \<Rightarrow> (string \<times> ('w, 'x) part_scheme) list \<Rightarrow> ('w, 'x) part_scheme list \<Rightarrow> string list \<Rightarrow> 'w \<Rightarrow>
     (go_error option \<times> string list \<times> 'w) go" where
  "start_parts kind what byTag ps started w =
     (case start_round kind ps started False w of
        (Some e, started', c, w') \<Rightarrow> Ret (Some e, started', w')
      | (None, started', c, w') \<Rightarrow>
          if length started' = length ps then Ret (None, started', w')
          else if c then start_parts kind what byTag ps started' w'
          else
            (case find (\<lambda>it. pt_Tag it \<notin> set started') ps of
               None \<Rightarrow> Panic (EDriver ''nil pointer dereference'')
             | Some p \<Rightarrow> Ret (Some (lint what byTag started' [pt_Tag p] p), started', w')))"
  by pat_completeness auto
termination
proof (relation "measure (\<lambda>(kind, what, byTag, ps, started, w). card (pt_Tag ` set ps - set started))", goal_cases)
  case 2
  then show ?case by (auto dest!: sym [where s = "(_, _)"] intro!: start_round_decreases)
qed simp

declare start_parts.simps [simp del]

section \<open>Outbounds and DNS transports\<close>

definition add_default :: "('w, 'x) part_scheme \<Rightarrow> (('w, 'x) part_scheme, 'y) dep_manager_scheme \<Rightarrow> (('w, 'x) part_scheme, 'y) dep_manager_scheme" where
  "add_default p m =
     m\<lparr>mg_parts := mg_parts m @ [p], mg_byTag := AList.update (pt_Tag p) p (mg_byTag m), mg_default := Some p\<rparr>"

text \<open>\<open>Start\<close> of the outbounds. A default that is no outbound may be an endpoint; the endpoints start with the outbounds.\<close>

definition outbound_Start ::
    "(('w, 'x) part_scheme, 'z) manager_scheme \<Rightarrow> go_error + ('w, 'x) part_scheme \<Rightarrow> nat \<Rightarrow>
     (('w, 'x) part_scheme, 'y) dep_manager_scheme \<Rightarrow> 'w \<Rightarrow> ((('w, 'x) part_scheme, 'y) dep_manager_scheme, 'w) mg_result" where
  "outbound_Start endpoints fallback stage m w =
     go_bind (mg_begin stage m) (\<lambda>m.
       if stage \<noteq> StartStateStart then
         Ret (case start_all ''outbound/'' stage (mg_parts m) w of (e, w') \<Rightarrow> (e, m, w'))
       else
         (case (if mg_defaultTag m \<noteq> '''' \<and> mg_default m = None then mg_Get endpoints (mg_defaultTag m) else mg_default m) of
            None \<Rightarrow>
              if mg_defaultTag m \<noteq> '''' then Ret (Some (ENew [''default outbound not found: '', mg_defaultTag m]), m, w)
              else
                (case fallback of
                   Inl e \<Rightarrow> Ret (Some (ECause e [''create direct outbound for fallback'']), m, w)
                 | Inr p \<Rightarrow>
                     go_bind
                       (start_parts ''outbound/'' ''outbound'' (mg_byTag (add_default p m))
                         (mg_parts (add_default p m) @ mg_parts endpoints) [] w)
                       (\<lambda>(e, started, w'). Ret (e, add_default p m, w')))
          | Some d \<Rightarrow>
              go_bind
                (start_parts ''outbound/'' ''outbound'' (mg_byTag m) (mg_parts m @ mg_parts endpoints) [] w)
                (\<lambda>(e, started, w'). Ret (e, m\<lparr>mg_default := Some d\<rparr>, w'))))"

definition transport_Start ::
    "go_error + ('w, 'x) part_scheme \<Rightarrow> nat \<Rightarrow> (('w, 'x) part_scheme, 'y) dep_manager_scheme \<Rightarrow> 'w \<Rightarrow>
     ((('w, 'x) part_scheme, 'y) dep_manager_scheme, 'w) mg_result" where
  "transport_Start fallback stage m w =
     go_bind (mg_begin stage m) (\<lambda>m.
       if stage \<noteq> StartStateStart then
         Ret (case start_all ''dns/'' stage (mg_parts m) w of (e, w') \<Rightarrow> (e, m, w'))
       else if mg_defaultTag m \<noteq> '''' \<and> mg_default m = None then
         Ret (Some (ENew [''default DNS server not found: '', mg_defaultTag m]), m, w)
       else
         (case (if mg_default m = None then map_sum id (\<lambda>p. add_default p m) fallback else Inr m) of
            Inl e \<Rightarrow> Ret (Some (ECause e [''default DNS server fallback'']), m, w)
          | Inr m \<Rightarrow>
              go_bind (start_parts ''dns/'' ''server'' (mg_byTag m) (mg_parts m) [] w)
                (\<lambda>(e, started, w'). Ret (e, m, w'))))"

definition same_part :: "('w, 'x) part_scheme option \<Rightarrow> ('w, 'x) part_scheme \<Rightarrow> bool" where
  "same_part d p = (case d of None \<Rightarrow> False | Some d \<Rightarrow> pt_Id d = pt_Id p)"

text \<open>What \<open>Remove\<close> takes out of the table of dependents, for each dependency of the part.\<close>

definition forget_dependent :: "string \<Rightarrow> string \<Rightarrow> (string \<Rightarrow> string list) \<Rightarrow> string \<Rightarrow> string list" where
  "forget_dependent tag dependency by =
     by(dependency := (if length (by dependency) = 1 then [] else filter (\<lambda>it. it \<noteq> tag) (by dependency)))"

definition outbound_Remove ::
    "string \<Rightarrow> (('w, 'x) part_scheme, 'y) dep_manager_scheme \<Rightarrow> 'w \<Rightarrow>
     ((('w, 'x) part_scheme, 'y) dep_manager_scheme, 'w) mg_result" where
  "outbound_Remove tag m w =
     go_bind (mg_take ''inbound'' tag m) (\<lambda>(taken, m).
       Ret (case taken of
              None \<Rightarrow> (Some ErrInvalid, m, w)
            | Some p \<Rightarrow>
                (let m = (if same_part (mg_default m) p
                          then m\<lparr>mg_default := (case mg_parts m of [] \<Rightarrow> None | q # qs \<Rightarrow> Some q)\<rparr> else m)
                 in if mg_dependBy m tag \<noteq> [] then
                      (Some (ENew ([''outbound['', tag, ''] is depended by ''] @ mg_dependBy m tag)), m, w)
                    else
                      (let m = m\<lparr>mg_dependBy := fold (forget_dependent tag) (pt_Dependencies p) (mg_dependBy m)\<rparr>
                       in case close_if (mg_started m) p w of (e, w') \<Rightarrow> (e, m, w')))))"

definition DNSTypeFakeIP :: string where
  "DNSTypeFakeIP = ''fakeip''"

text \<open>
  \<open>Remove\<close> of a transport. The condition on the next default is written the wrong way round in the
  code: it refuses every type but the one the message names.
\<close>

definition transport_Remove ::
    "string \<Rightarrow> (('w, 'x) part_scheme, 'y) dep_manager_scheme \<Rightarrow> 'w \<Rightarrow>
     ((('w, 'x) part_scheme, 'y) dep_manager_scheme, 'w) mg_result" where
  "transport_Remove tag m w =
     go_bind (mg_take ''inbound'' tag m) (\<lambda>(taken, m).
       Ret (case taken of
              None \<Rightarrow> (Some ErrInvalid, m, w)
            | Some p \<Rightarrow>
                (case (if same_part (mg_default m) p then
                         (case mg_parts m of
                            [] \<Rightarrow> Inr (m\<lparr>mg_default := None\<rparr>)
                          | q # qs \<Rightarrow>
                              if pt_Type q \<noteq> DNSTypeFakeIP then Inl (ENew [''default server cannot be fakeip''])
                              else Inr (m\<lparr>mg_default := Some q\<rparr>))
                       else Inr m) of
                   Inl e \<Rightarrow> (Some e, m, w)
                 | Inr m \<Rightarrow>
                     if mg_dependBy m tag \<noteq> [] then
                       (Some (ENew ([''server['', tag, ''] is depended by ''] @ mg_dependBy m tag)), m, w)
                     else
                       (let m = m\<lparr>mg_dependBy := fold (forget_dependent tag) (pt_Dependencies p) (mg_dependBy m)\<rparr>
                        in case close_if (mg_started m) p w of (e, w') \<Rightarrow> (None, m, w')))))"

definition note_dependent :: "string \<Rightarrow> string \<Rightarrow> (string \<Rightarrow> string list) \<Rightarrow> string \<Rightarrow> string list" where
  "note_dependent tag dependency by = by(dependency := by dependency @ [tag])"

definition becomes_default :: "string \<Rightarrow> ('p, 'y) dep_manager_scheme \<Rightarrow> bool" where
  "becomes_default tag m \<longleftrightarrow> tag = mg_defaultTag m \<or> mg_defaultTag m = '''' \<and> mg_default m = None"

text \<open>The part of \<open>Create\<close> that outbounds and transports have on top of \<open>mg_Create\<close>.\<close>

definition outbound_Create ::
    "string \<Rightarrow> go_error + ('w, 'x) part_scheme \<Rightarrow> (('w, 'x) part_scheme, 'y) dep_manager_scheme \<Rightarrow> 'w \<Rightarrow>
     ((('w, 'x) part_scheme, 'y) dep_manager_scheme, 'w) mg_result" where
  "outbound_Create tag created m w =
     (if tag = '''' then Ret (Some ErrInvalid, m, w)
      else
        go_bind (mg_Create ''outbound/'' ''inbound'' tag created m w) (\<lambda>(e, m, w).
          Ret (case (e, created) of
                 (None, Inr p) \<Rightarrow>
                   (let m = m\<lparr>mg_dependBy := fold (note_dependent tag) (pt_Dependencies p) (mg_dependBy m)\<rparr>
                    in (None, if becomes_default tag m then m\<lparr>mg_default := Some p\<rparr> else m, w))
               | _ \<Rightarrow> (e, m, w))))"

definition transport_Create ::
    "string \<Rightarrow> go_error + ('w, 'x) part_scheme \<Rightarrow> (('w, 'x) part_scheme, 'y) transport_manager_scheme \<Rightarrow> 'w \<Rightarrow>
     ((('w, 'x) part_scheme, 'y) transport_manager_scheme, 'w) mg_result" where
  "transport_Create tag created m w =
     (if tag = '''' then Ret (Some ErrInvalid, m, w)
      else
        go_bind (mg_Create ''dns/'' ''inbound'' tag created m w) (\<lambda>(e, m, w).
          Ret (case (e, created) of
                 (None, Inr p) \<Rightarrow>
                   (let m = m\<lparr>mg_dependBy := fold (note_dependent tag) (pt_Dependencies p) (mg_dependBy m)\<rparr>
                    in if becomes_default tag m \<and> pt_Type p = DNSTypeFakeIP
                       then (Some (ENew [''default server cannot be fakeip'']), m, w)
                       else
                         (let m = (if becomes_default tag m then m\<lparr>mg_default := Some p\<rparr> else m)
                          in if pt_Type p = DNSTypeFakeIP then
                               (if mg_fakeIP m \<noteq> None
                                then (Some (ENew [''multiple fakeip server are not supported'']), m, w)
                                else (None, m\<lparr>mg_fakeIP := Some p\<rparr>, w))
                             else (None, m, w)))
               | _ \<Rightarrow> (e, m, w))))"

end
