(* ===== verification/ManagerSafety.thy ===== *)
theory ManagerSafety
  imports Managers "HOL-Library.Sublist"
begin

text \<open>
  What the managers promise. The interface \<open>named_parts\<close> says what creating and removing do to the
  table of tags; it is proved for the inbounds, endpoints, services, certificate providers, outbounds
  and DNS transports, and what follows for a sequence of operations is proved once. The second part
  is about the start in the order of dependencies.
\<close>

section \<open>The interface of a manager\<close>

text \<open>One manager operation, and several in a row; an error does not end the sequence.\<close>

datatype 'p mg_op = MCreate string "go_error + 'p" | MRemove string

fun op_tag :: "'p mg_op \<Rightarrow> string" where
  "op_tag (MCreate t c) = t"
| "op_tag (MRemove t) = t"

fun op_part :: "'p mg_op \<Rightarrow> 'p list" where
  "op_part (MCreate t (Inr p)) = [p]"
| "op_part _ = []"

fun run_ops ::
    "(string \<Rightarrow> go_error + 'p \<Rightarrow> 'm \<Rightarrow> 'w \<Rightarrow> ('m, 'w) mg_result) \<Rightarrow> (string \<Rightarrow> 'm \<Rightarrow> 'w \<Rightarrow> ('m, 'w) mg_result) \<Rightarrow>
     'p mg_op list \<Rightarrow> 'm \<Rightarrow> 'w \<Rightarrow> ('m \<times> 'w) go" where
  "run_ops create remove [] m w = Ret (m, w)"
| "run_ops create remove (MCreate t c # ops) m w =
     go_bind (create t c m w) (\<lambda>(e, m', w'). run_ops create remove ops m' w')"
| "run_ops create remove (MRemove t # ops) m w =
     go_bind (remove t m w) (\<lambda>(e, m', w'). run_ops create remove ops m' w')"

text \<open>What an operation may do to the table.\<close>

fun effect :: "'p mg_op \<Rightarrow> (string \<rightharpoonup> 'p) \<Rightarrow> (string \<rightharpoonup> 'p) \<Rightarrow> bool" where
  "effect (MRemove t) g g' \<longleftrightarrow> g' = g(t := None)"
| "effect (MCreate t (Inl e)) g g' \<longleftrightarrow> g' = g"
| "effect (MCreate t (Inr p)) g g' \<longleftrightarrow> g' = g \<or> g' = g(t \<mapsto> p)"

lemma effect_other: "effect x g g' \<Longrightarrow> t \<noteq> op_tag x \<Longrightarrow> g' t = g t"
  by (cases "(x, g, g')" rule: effect.cases) auto

lemma effect_Some: "effect x g g' \<Longrightarrow> g' t = Some p \<Longrightarrow> g t = Some p \<or> x = MCreate t (Inr p)"
  by (cases "(x, g, g')" rule: effect.cases) (auto split: if_splits)

text \<open>Parts of a sequence that are new to the manager and to each other.\<close>

definition new_parts :: "('p \<Rightarrow> nat) \<Rightarrow> ('m \<Rightarrow> nat set) \<Rightarrow> 'p mg_op list \<Rightarrow> 'm \<Rightarrow> bool" where
  "new_parts ident ids ops m \<longleftrightarrow>
     distinct (map ident (concat (map op_part ops))) \<and> (\<forall>p \<in> set (concat (map op_part ops)). ident p \<notin> ids m)"

locale named_parts =
  fixes create :: "string \<Rightarrow> go_error + 'p \<Rightarrow> 'm \<Rightarrow> 'w \<Rightarrow> ('m, 'w) mg_result"
    and remove :: "string \<Rightarrow> 'm \<Rightarrow> 'w \<Rightarrow> ('m, 'w) mg_result"
    and get :: "'m \<Rightarrow> string \<Rightarrow> 'p option"
    and good :: "'m \<Rightarrow> bool"
    and ids :: "'m \<Rightarrow> nat set"
    and ident :: "'p \<Rightarrow> nat"
  assumes create_law:
      "good m \<Longrightarrow> ident p \<notin> ids m \<Longrightarrow>
       \<exists>e m' w'. create t (Inr p) m w = Ret (e, m', w') \<and> good m' \<and> ids m' \<subseteq> insert (ident p) (ids m) \<and>
         (get m' = (get m)(t \<mapsto> p) \<or> e \<noteq> None \<and> get m' = get m)"
    and create_failed: "\<exists>e'. create t (Inl e) m w = Ret (Some e', m, w)"
    and remove_law:
      "good m \<Longrightarrow>
       \<exists>e m' w'. remove t m w = Ret (e, m', w') \<and> good m' \<and> ids m' \<subseteq> ids m \<and> get m' = (get m)(t := None)"
begin

lemma step_op:
  assumes "good m" and "new_parts ident ids (x # ops) m"
  shows "\<exists>m1 w1. run_ops create remove (x # ops) m w = run_ops create remove ops m1 w1 \<and> good m1 \<and> new_parts ident ids ops m1 \<and>
    effect x (get m) (get m1)"
proof (cases "(x, get m, get m)" rule: effect.cases)
  case (1 t g g')
  obtain e m' w' where "remove t m w = Ret (e, m', w')" "good m'" "ids m' \<subseteq> ids m" "get m' = (get m)(t := None)"
    using remove_law [OF assms(1)] by blast
  moreover from this have "new_parts ident ids ops m'" using assms(2) 1 by (auto simp: new_parts_def)
  ultimately show ?thesis using 1 by (intro exI [of _ m'] exI [of _ w']) simp
next
  case (2 t e g g')
  obtain e' where "create t (Inl e) m w = Ret (Some e', m, w)" using create_failed by blast
  moreover have "new_parts ident ids ops m" using assms(2) 2 by (simp add: new_parts_def)
  ultimately show ?thesis using assms(1) 2 by (intro exI [of _ m] exI [of _ w]) simp
next
  case (3 t p g g')
  have "ident p \<notin> ids m" using assms(2) 3 by (simp add: new_parts_def)
  then obtain e m' w' where c: "create t (Inr p) m w = Ret (e, m', w')" "good m'" "ids m' \<subseteq> insert (ident p) (ids m)"
    "get m' = (get m)(t \<mapsto> p) \<or> get m' = get m"
    using create_law [OF assms(1)] by blast
  have "new_parts ident ids ops m'" using assms(2) 3 c(3) by (auto simp: new_parts_def image_iff) (metis insert_iff subset_iff)
  then show ?thesis using 3 c by (intro exI [of _ m'] exI [of _ w']) auto
qed

lemma ops_return: "good m \<Longrightarrow> new_parts ident ids ops m \<Longrightarrow> returns (run_ops create remove ops m w)"
proof (induction ops arbitrary: m w)
  case (Cons x ops)
  from step_op [OF Cons.prems] Cons.IH show ?case by metis
qed simp

lemma ops_get:
  "good m \<Longrightarrow> new_parts ident ids ops m \<Longrightarrow> run_ops create remove ops m w = Ret (m', w') \<Longrightarrow>
   get m' t = Some p \<Longrightarrow> get m t = Some p \<or> MCreate t (Inr p) \<in> set ops"
proof (induction ops arbitrary: m w)
  case (Cons x ops)
  obtain m1 w1 where s: "run_ops create remove (x # ops) m w = run_ops create remove ops m1 w1" "good m1" "new_parts ident ids ops m1"
    and g: "effect x (get m) (get m1)"
    using step_op [OF Cons.prems(1,2)] by blast
  have "get m1 t = Some p \<or> MCreate t (Inr p) \<in> set ops" using Cons.IH [OF s(2,3)] Cons.prems(3,4) s(1) by simp
  with effect_Some [OF g] show ?case by auto
qed simp

lemma ops_untouched:
  "good m \<Longrightarrow> new_parts ident ids ops m \<Longrightarrow> run_ops create remove ops m w = Ret (m', w') \<Longrightarrow>
   t \<notin> op_tag ` set ops \<Longrightarrow> get m' t = get m t"
proof (induction ops arbitrary: m w)
  case (Cons x ops)
  obtain m1 w1 where s: "run_ops create remove (x # ops) m w = run_ops create remove ops m1 w1" "good m1" "new_parts ident ids ops m1"
    and g: "effect x (get m) (get m1)"
    using step_op [OF Cons.prems(1,2)] by blast
  have "get m' t = get m1 t" using Cons.IH [OF s(2,3)] Cons.prems(3,4) s(1) by simp
  with effect_other [OF g] Cons.prems(4) show ?case by auto
qed simp

lemma ops_removed:
  "good m \<Longrightarrow> new_parts ident ids (xs @ MRemove t # ys) m \<Longrightarrow> run_ops create remove (xs @ MRemove t # ys) m w = Ret (m', w') \<Longrightarrow>
   t \<notin> op_tag ` set ys \<Longrightarrow> get m' t = None"
proof (induction xs arbitrary: m w)
  case Nil
  obtain m1 w1 where s: "run_ops create remove (MRemove t # ys) m w = run_ops create remove ys m1 w1" "good m1" "new_parts ident ids ys m1"
    and g: "effect (MRemove t) (get m) (get m1)"
    using step_op [of m "MRemove t" ys w] Nil.prems(1,2) by auto
  have "run_ops create remove ys m1 w1 = Ret (m', w')" using Nil.prems(3) s(1) by (simp only: append_Nil)
  with ops_untouched [OF s(2,3)] Nil.prems(4) have "get m' t = get m1 t" by blast
  with g show ?case by simp
next
  case (Cons x xs)
  obtain m1 w1 where s: "run_ops create remove (x # xs @ MRemove t # ys) m w = run_ops create remove (xs @ MRemove t # ys) m1 w1"
    "good m1" "new_parts ident ids (xs @ MRemove t # ys) m1"
    using step_op [of m x "xs @ MRemove t # ys" w] Cons.prems(1,2) by auto
  with Cons.IH Cons.prems(3,4) show ?case by simp
qed

end

section \<open>The table and the list of a manager\<close>

text \<open>The table has the parts of the list, and no part twice.\<close>

definition mg_good :: "(('w, 'x) part_scheme, 'y) manager_scheme \<Rightarrow> bool" where
  "mg_good m \<longleftrightarrow>
     distinct (map fst (mg_byTag m)) \<and> distinct (map pt_Id (mg_parts m)) \<and>
     inj_on pt_Id (snd ` set (mg_byTag m)) \<and> inj_on snd (set (mg_byTag m)) \<and> snd ` set (mg_byTag m) = set (mg_parts m)"

definition mg_ids :: "(('w, 'x) part_scheme, 'y) manager_scheme \<Rightarrow> nat set" where
  "mg_ids m = pt_Id ` set (mg_parts m)"

lemma remove_id_set: "distinct (map pt_Id ps) \<Longrightarrow> set (remove_id i ps) = {p \<in> set ps. pt_Id p \<noteq> i}"
  by (induction ps) (auto simp: image_iff)

lemma remove_id_distinct: "distinct (map pt_Id ps) \<Longrightarrow> distinct (map pt_Id (remove_id i ps))"
  by (induction ps) (auto simp: remove_id_set)

lemma distinct_ids_inj: "distinct (map pt_Id ps) \<Longrightarrow> p \<in> set ps \<Longrightarrow> q \<in> set ps \<Longrightarrow> pt_Id p = pt_Id q \<Longrightarrow> p = q"
  by (auto simp: distinct_map dest: inj_onD)

lemma byTag_delete:
  assumes "mg_good m" and "mg_Get m tag = Some p"
  shows "set (AList.delete tag (mg_byTag m)) = set (mg_byTag m) - {(tag, p)}"
    and "snd ` set (AList.delete tag (mg_byTag m)) = set (mg_parts m) - {p}"
proof -
  have mem: "(tag, p) \<in> set (mg_byTag m)" using assms(2) by (simp add: mg_Get_def map_of_SomeD)
  have d: "distinct (map fst (mg_byTag m))" using assms(1) by (simp add: mg_good_def)
  show del: "set (AList.delete tag (mg_byTag m)) = set (mg_byTag m) - {(tag, p)}"
    using mem d by (auto simp: AList.delete_eq dest: eq_key_imp_eq_value)
  have "inj_on snd (set (mg_byTag m))" "snd ` set (mg_byTag m) = set (mg_parts m)" using assms(1) by (simp_all add: mg_good_def)
  then show "snd ` set (AList.delete tag (mg_byTag m)) = set (mg_parts m) - {p}"
    unfolding del using mem by (simp add: inj_on_image_set_diff [of snd "set (mg_byTag m)"])
qed

lemma good_drop:
  assumes "mg_good m" and "mg_Get m tag = Some p"
  shows "drop_part what p (mg_parts m) = Ret (remove_id (pt_Id p) (mg_parts m))"
    and "set (remove_id (pt_Id p) (mg_parts m)) = set (mg_parts m) - {p}"
    and "distinct (map pt_Id (remove_id (pt_Id p) (mg_parts m)))"
proof -
  have p: "p \<in> set (mg_parts m)" and d: "distinct (map pt_Id (mg_parts m))"
    using assms by (force simp: mg_good_def mg_Get_def dest!: map_of_SomeD)+
  then show "drop_part what p (mg_parts m) = Ret (remove_id (pt_Id p) (mg_parts m))" by (simp add: drop_part_def)
  show "set (remove_id (pt_Id p) (mg_parts m)) = set (mg_parts m) - {p}"
    using p distinct_ids_inj [OF d p] by (auto simp: remove_id_set [OF d]) metis
  show "distinct (map pt_Id (remove_id (pt_Id p) (mg_parts m)))" by (rule remove_id_distinct [OF d])
qed

lemma mg_take_good:
  assumes "mg_good m"
  shows "\<exists>taken m'. mg_take what tag m = Ret (taken, m') \<and> mg_good m' \<and> mg_ids m' \<subseteq> mg_ids m \<and>
    mg_Get m' = (mg_Get m)(tag := None) \<and> (taken = None \<longleftrightarrow> mg_Get m tag = None)"
proof (cases "mg_Get m tag")
  case None
  then show ?thesis using assms by (auto simp: mg_take_def fun_eq_iff)
next
  case (Some p)
  let ?m = "m\<lparr>mg_byTag := AList.delete tag (mg_byTag m), mg_parts := remove_id (pt_Id p) (mg_parts m)\<rparr>"
  have "mg_take what tag m = Ret (Some p, ?m)" using Some good_drop [OF assms Some] by (simp add: mg_take_def)
  moreover have "mg_good ?m"
    using assms good_drop [OF assms Some] byTag_delete [OF assms Some]
    by (auto simp: mg_good_def distinct_delete intro: inj_on_subset)
  moreover have "mg_ids ?m \<subseteq> mg_ids m" using good_drop [OF assms Some] by (auto simp: mg_ids_def)
  moreover have "mg_Get ?m = (mg_Get m)(tag := None)" by (simp add: mg_Get_def fun_eq_iff delete_conv)
  ultimately show ?thesis using Some by (intro exI [of _ "Some p"] exI [of _ ?m]) simp
qed

lemma mg_replace_good:
  assumes "mg_good m"
  shows "\<exists>e m' w'. mg_replace kind what tag m w = Ret (e, m', w') \<and> mg_ids m' \<subseteq> mg_ids m \<and>
    (e \<noteq> None \<and> m' = m \<or>
     e = None \<and> mg_byTag m' = mg_byTag m \<and> distinct (map pt_Id (mg_parts m')) \<and>
     set (mg_parts m') = snd ` set (AList.delete tag (mg_byTag m)))"
proof (cases "mg_Get m tag")
  case None
  then have "AList.delete tag (mg_byTag m) = mg_byTag m"
    by (force simp: mg_Get_def AList.delete_eq map_of_eq_None_iff intro!: filter_True)
  then show ?thesis using None assms by (auto simp: mg_replace_def mg_good_def)
next
  case (Some old)
  let ?m = "m\<lparr>mg_parts := remove_id (pt_Id old) (mg_parts m)\<rparr>"
  have r: "mg_replace kind what tag m w =
      (case (if mg_started m then pt_Close old w else (None, w)) of
         (Some e, w') \<Rightarrow> Ret (Some (ECause e (''close '' # part_name kind old)), m, w')
       | (None, w') \<Rightarrow> Ret (None, ?m, w'))"
    using Some good_drop(1) [OF assms Some] by (simp add: mg_replace_def cong: prod.case_cong option.case_cong)
  have "mg_ids ?m \<subseteq> mg_ids m" "distinct (map pt_Id (mg_parts ?m))"
    "set (mg_parts ?m) = snd ` set (AList.delete tag (mg_byTag m))"
    using good_drop [OF assms Some] byTag_delete [OF assms Some] by (auto simp: mg_ids_def)
  then show ?thesis unfolding r by (cases "if mg_started m then pt_Close old w else (None, w)") (auto split: option.split)
qed

lemma set_update_alist:
  "distinct (map fst al) \<Longrightarrow> set (AList.update k v al) = insert (k, v) (set (AList.delete k al))"
  by (induction al) (force simp: AList.delete_eq)+

lemma good_register:
  assumes good: "mg_good m" and m': "mg_byTag m' = mg_byTag m" "distinct (map pt_Id (mg_parts m'))"
    "set (mg_parts m') = snd ` set (AList.delete tag (mg_byTag m))" and p: "pt_Id p \<notin> mg_ids m"
  shows "mg_good (m'\<lparr>mg_parts := mg_parts m' @ [p], mg_byTag := AList.update tag p (mg_byTag m')\<rparr>)"
proof -
  let ?del = "set (AList.delete tag (mg_byTag m))"
  have d: "distinct (map fst (mg_byTag m))" and inj: "inj_on pt_Id (snd ` set (mg_byTag m))"
    and inj': "inj_on snd (set (mg_byTag m))" and eq: "snd ` set (mg_byTag m) = set (mg_parts m)"
    using good unfolding mg_good_def by blast+
  have sub: "?del \<subseteq> set (mg_byTag m)" by (auto simp: AList.delete_eq)
  have upd: "set (AList.update tag p (mg_byTag m)) = insert (tag, p) ?del"
    by (rule set_update_alist [OF d])
  have new: "pt_Id p \<notin> pt_Id ` snd ` set (mg_byTag m)" using p eq by (simp add: mg_ids_def)
  then have "p \<notin> snd ` ?del" "pt_Id p \<notin> pt_Id ` snd ` ?del" using sub by blast+
  moreover have "inj_on pt_Id (snd ` ?del)" "inj_on snd ?del" using inj inj' sub by (meson image_mono inj_on_subset)+
  ultimately show ?thesis
    using m' d by (auto simp: mg_good_def upd distinct_update)
qed

lemma mg_Create_good:
  assumes "mg_good m" and "pt_Id p \<notin> mg_ids m"
  shows "\<exists>e m' w'. mg_Create kind what tag (Inr p) m w = Ret (e, m', w') \<and> mg_good m' \<and>
    mg_ids m' \<subseteq> insert (pt_Id p) (mg_ids m) \<and>
    (e = None \<and> mg_Get m' = (mg_Get m)(tag \<mapsto> p) \<or> e \<noteq> None \<and> m' = m)"
proof (cases "if mg_started m then start_stages kind ListStartStages p w else (None, w)")
  case (Pair e1 w1)
  show ?thesis
  proof (cases e1)
    case (Some e)
    then show ?thesis using Pair assms(1) by (auto simp: mg_Create_def)
  next
    case None
    from mg_replace_good [OF assms(1), of kind what tag w1] obtain e m' w' where
      "mg_replace kind what tag m w1 = Ret (e, m', w') \<and> mg_ids m' \<subseteq> mg_ids m \<and>
      (e \<noteq> None \<and> m' = m \<or> e = None \<and> mg_byTag m' = mg_byTag m \<and> distinct (map pt_Id (mg_parts m')) \<and>
        set (mg_parts m') = snd ` set (AList.delete tag (mg_byTag m)))"
      by (elim exE) (rule that)
    note r = this [THEN conjunct1] this [THEN conjunct2, THEN conjunct1] this [THEN conjunct2, THEN conjunct2]
    let ?m = "m'\<lparr>mg_parts := mg_parts m' @ [p], mg_byTag := AList.update tag p (mg_byTag m')\<rparr>"
    have c: "mg_Create kind what tag (Inr p) m w = Ret (if e \<noteq> None then (e, m', w') else (None, ?m, w'))"
      using None Pair r(1) by (simp add: mg_Create_def)
    show ?thesis
    proof (cases "e = None")
      case True
      then have "mg_good ?m" using r(3) by (intro good_register [OF assms(1) _ _ _ assms(2)]) auto
      moreover have "mg_Get ?m = (mg_Get m)(tag \<mapsto> p)" using True r(3) by (simp add: mg_Get_def fun_eq_iff update_conv)
      moreover have "mg_ids ?m \<subseteq> insert (pt_Id p) (mg_ids m)" using r(2) by (auto simp: mg_ids_def)
      ultimately show ?thesis using True c by simp
    next
      case False
      then show ?thesis using c r(3) assms(1) by auto
    qed
  qed
qed

lemma mg_Create_goodE:
  assumes "mg_good m" and "pt_Id p \<notin> mg_ids m"
  obtains e m' w' where "mg_Create kind what tag (Inr p) m w = Ret (e, m', w')" "mg_good m'"
    "mg_ids m' \<subseteq> insert (pt_Id p) (mg_ids m)" "e = None \<and> mg_Get m' = (mg_Get m)(tag \<mapsto> p) \<or> e \<noteq> None \<and> m' = m"
proof -
  from mg_Create_good [OF assms, of kind what tag w] obtain e m' w' where
    c: "mg_Create kind what tag (Inr p) m w = Ret (e, m', w') \<and> mg_good m' \<and> mg_ids m' \<subseteq> insert (pt_Id p) (mg_ids m) \<and>
      (e = None \<and> mg_Get m' = (mg_Get m)(tag \<mapsto> p) \<or> e \<noteq> None \<and> m' = m)"
    by (elim exE) (rule that)
  show thesis by (rule that [of e m' w']) (simp_all only: c)
qed

lemma mg_Remove_good:
  assumes "mg_good m"
  shows "\<exists>e m' w'. mg_Remove what tag m w = Ret (e, m', w') \<and> mg_good m' \<and> mg_ids m' \<subseteq> mg_ids m \<and>
    mg_Get m' = (mg_Get m)(tag := None)"
proof -
  obtain taken m' where t: "mg_take what tag m = Ret (taken, m')" "mg_good m'" "mg_ids m' \<subseteq> mg_ids m"
    "mg_Get m' = (mg_Get m)(tag := None)"
    using mg_take_good [OF assms] by blast
  then show ?thesis by (auto simp: mg_Remove_def split: option.split prod.split)
qed

lemma named_parts_simple: "named_parts (mg_Create kind what) (mg_Remove what) mg_Get mg_good mg_ids pt_Id"
proof (unfold_locales, goal_cases)
  case (1 m p t w)
  from mg_Create_good [OF this] show ?case by metis
next
  case (2 t e m w)
  show ?case by (simp add: mg_Create_def)
next
  case (3 m t w)
  from mg_Remove_good [OF this] show ?case by blast
qed

interpretation inbounds: named_parts inbound_Create inbound_Remove mg_Get mg_good mg_ids pt_Id
  unfolding inbound_Create_def inbound_Remove_def by (rule named_parts_simple)

interpretation endpoints: named_parts endpoint_Create endpoint_Remove mg_Get mg_good mg_ids pt_Id
  unfolding endpoint_Create_def endpoint_Remove_def by (rule named_parts_simple)

interpretation services: named_parts service_Create service_Remove mg_Get mg_good mg_ids pt_Id
  unfolding service_Create_def service_Remove_def by (rule named_parts_simple)

interpretation certificates: named_parts certificate_Create certificate_Remove mg_Get mg_good mg_ids pt_Id
  unfolding certificate_Create_def certificate_Remove_def by (rule named_parts_simple)

text \<open>The fields that outbounds and transports have on top do not matter for the table.\<close>

lemma dep_fields [simp]:
  "mg_good (m\<lparr>mg_dependBy := f\<rparr>) = mg_good m" "mg_good (m\<lparr>mg_default := d\<rparr>) = mg_good m"
  "mg_ids (m\<lparr>mg_dependBy := f\<rparr>) = mg_ids m" "mg_ids (m\<lparr>mg_default := d\<rparr>) = mg_ids m"
  "mg_Get (m\<lparr>mg_dependBy := f\<rparr>) = mg_Get m" "mg_Get (m\<lparr>mg_default := d\<rparr>) = mg_Get m"
  "mg_good (m'\<lparr>mg_fakeIP := d\<rparr>) = mg_good m'" "mg_ids (m'\<lparr>mg_fakeIP := d\<rparr>) = mg_ids m'"
  "mg_Get (m'\<lparr>mg_fakeIP := d\<rparr>) = mg_Get m'"
  by (simp_all add: mg_good_def mg_ids_def mg_Get_def fun_eq_iff)

lemma outbound_Create_good:
  assumes "mg_good m" and "pt_Id p \<notin> mg_ids m"
  shows "\<exists>e m' w'. outbound_Create tag (Inr p) m w = Ret (e, m', w') \<and> mg_good m' \<and>
    mg_ids m' \<subseteq> insert (pt_Id p) (mg_ids m) \<and> (mg_Get m' = (mg_Get m)(tag \<mapsto> p) \<or> e \<noteq> None \<and> mg_Get m' = mg_Get m)"
proof -
  obtain e m' w' where c: "mg_Create ''outbound/'' ''inbound'' tag (Inr p) m w = Ret (e, m', w')" "mg_good m'"
    "mg_ids m' \<subseteq> insert (pt_Id p) (mg_ids m)" "e = None \<and> mg_Get m' = (mg_Get m)(tag \<mapsto> p) \<or> e \<noteq> None \<and> m' = m"
    by (rule mg_Create_goodE [OF assms])
  show ?thesis
  proof (cases "tag = ''''")
    case True
    then show ?thesis using assms(1) by (auto simp: outbound_Create_def)
  next
    case False
    show ?thesis
    proof (cases e)
      case None
      with c False show ?thesis by (simp add: outbound_Create_def Let_def)
    next
      case (Some e1)
      with c False show ?thesis by (simp add: outbound_Create_def)
    qed
  qed
qed

lemma outbound_Remove_good:
  assumes "mg_good m"
  shows "\<exists>e m' w'. outbound_Remove tag m w = Ret (e, m', w') \<and> mg_good m' \<and> mg_ids m' \<subseteq> mg_ids m \<and>
    mg_Get m' = (mg_Get m)(tag := None)"
proof -
  obtain taken m' where t: "mg_take ''inbound'' tag m = Ret (taken, m')" "mg_good m'" "mg_ids m' \<subseteq> mg_ids m"
    "mg_Get m' = (mg_Get m)(tag := None)"
    using mg_take_good [OF assms] by blast
  then show ?thesis by (cases taken) (auto simp: outbound_Remove_def Let_def split: prod.split)
qed

lemma transport_Create_good:
  assumes "mg_good m" and "pt_Id p \<notin> mg_ids m"
  shows "\<exists>e m' w'. transport_Create tag (Inr p) m w = Ret (e, m', w') \<and> mg_good m' \<and>
    mg_ids m' \<subseteq> insert (pt_Id p) (mg_ids m) \<and> (mg_Get m' = (mg_Get m)(tag \<mapsto> p) \<or> e \<noteq> None \<and> mg_Get m' = mg_Get m)"
proof -
  obtain e m' w' where c: "mg_Create ''dns/'' ''inbound'' tag (Inr p) m w = Ret (e, m', w')" "mg_good m'"
    "mg_ids m' \<subseteq> insert (pt_Id p) (mg_ids m)" "e = None \<and> mg_Get m' = (mg_Get m)(tag \<mapsto> p) \<or> e \<noteq> None \<and> m' = m"
    by (rule mg_Create_goodE [OF assms])
  show ?thesis
  proof (cases "tag = ''''")
    case True
    then show ?thesis using assms(1) by (auto simp: transport_Create_def)
  next
    case False
    show ?thesis
    proof (cases e)
      case None
      with c False show ?thesis by (simp add: transport_Create_def Let_def)
    next
      case (Some e1)
      with c False show ?thesis by (simp add: transport_Create_def)
    qed
  qed
qed

lemma transport_Remove_good:
  assumes "mg_good m"
  shows "\<exists>e m' w'. transport_Remove tag m w = Ret (e, m', w') \<and> mg_good m' \<and> mg_ids m' \<subseteq> mg_ids m \<and>
    mg_Get m' = (mg_Get m)(tag := None)"
proof -
  obtain taken m' where t: "mg_take ''inbound'' tag m = Ret (taken, m')" "mg_good m'" "mg_ids m' \<subseteq> mg_ids m"
    "mg_Get m' = (mg_Get m)(tag := None)"
    using mg_take_good [OF assms] by blast
  then show ?thesis by (cases taken) (auto simp: transport_Remove_def Let_def split: prod.split list.split)
qed

interpretation outbounds: named_parts outbound_Create outbound_Remove mg_Get mg_good mg_ids pt_Id
proof (unfold_locales, goal_cases)
  case (1 m p t w)
  from outbound_Create_good [OF this] show ?case by blast
next
  case (2 t e m w)
  show ?case by (simp add: outbound_Create_def mg_Create_def)
next
  case (3 m t w)
  from outbound_Remove_good [OF this] show ?case by blast
qed

interpretation transports: named_parts transport_Create transport_Remove mg_Get mg_good mg_ids pt_Id
proof (unfold_locales, goal_cases)
  case (1 m p t w)
  from transport_Create_good [OF this] show ?case by blast
next
  case (2 t e m w)
  show ?case by (simp add: transport_Create_def mg_Create_def)
next
  case (3 m t w)
  from transport_Remove_good [OF this] show ?case by blast
qed

section \<open>The order of starting\<close>

text \<open>Every tag of the list belongs to a part whose dependencies stand before it.\<close>

definition dependencies_first :: "('w, 'x) part_scheme list \<Rightarrow> string list \<Rightarrow> bool" where
  "dependencies_first ps started \<longleftrightarrow>
     distinct started \<and>
     (\<forall>i < length started. \<exists>p \<in> set ps. pt_Tag p = started ! i \<and> set (pt_Dependencies p) \<subseteq> set (take i started))"

text \<open>The parts with these tags started one after the other.\<close>

fun start_tags :: "('w, 'x) part_scheme list \<Rightarrow> string list \<Rightarrow> 'w \<Rightarrow> 'w option" where
  "start_tags ps [] w = Some w"
| "start_tags ps (t # ts) w =
     (case find (\<lambda>p. pt_Tag p = t) ps of
        None \<Rightarrow> None
      | Some p \<Rightarrow> (case pt_Start p StartStateStart w of (None, w') \<Rightarrow> start_tags ps ts w' | (Some e, w') \<Rightarrow> None))"

definition starts_succeed :: "('w, 'x) part_scheme list \<Rightarrow> bool" where
  "starts_succeed ps \<longleftrightarrow> (\<forall>p \<in> set ps. \<forall>w. fst (pt_Start p StartStateStart w) = None)"

text \<open>Every dependency is a tag of a part, and the dependencies have no cycle.\<close>

definition startable :: "('w, 'x) part_scheme list \<Rightarrow> bool" where
  "startable ps \<longleftrightarrow>
     (\<exists>rank :: string \<Rightarrow> nat. \<forall>p \<in> set ps. \<forall>d \<in> set (pt_Dependencies p). d \<in> pt_Tag ` set ps \<and> rank d < rank (pt_Tag p))"

lemma dependencies_first_append:
  assumes "dependencies_first ps started" "p \<in> set ps" "pt_Tag p \<notin> set started" "set (pt_Dependencies p) \<subseteq> set started"
  shows "dependencies_first ps (started @ [pt_Tag p])"
  using assms by (auto simp: dependencies_first_def nth_append less_Suc_eq)

lemma start_round_ordered:
  "set qs \<subseteq> set ps \<Longrightarrow> dependencies_first ps started \<Longrightarrow> start_round kind qs started c w = (e, started', c', w') \<Longrightarrow>
   dependencies_first ps started'"
proof (induction kind qs started c w rule: start_round.induct)
  case (2 kind p qs started c w)
  show ?case
  proof (cases "pt_Tag p \<in> set started \<or> \<not> set (pt_Dependencies p) \<subseteq> set started")
    case True
    with 2 show ?thesis by simp
  next
    case False
    then have d: "dependencies_first ps (started @ [pt_Tag p])" using 2(3,4) by (intro dependencies_first_append) auto
    obtain e1 w1 where s: "pt_Start p StartStateStart w = (e1, w1)" by force
    show ?thesis
    proof (cases e1)
      case None
      with 2(2) [OF False s [symmetric]] 2(3,5) d False s show ?thesis by simp
    next
      case (Some e)
      with 2(5) d False s show ?thesis by simp
    qed
  qed
qed simp

lemma find_tag: "distinct (map pt_Tag ps) \<Longrightarrow> p \<in> set ps \<Longrightarrow> find (\<lambda>q. pt_Tag q = pt_Tag p) ps = Some p"
  by (induction ps) (auto simp: image_iff)

lemma start_round_log:
  assumes "distinct (map pt_Tag ps)"
  shows "set qs \<subseteq> set ps \<Longrightarrow> start_round kind qs started c w = (None, started', c', w') \<Longrightarrow>
    \<exists>new. started' = started @ new \<and> start_tags ps new w = Some w'"
proof (induction kind qs started c w rule: start_round.induct)
  case (2 kind p qs started c w)
  show ?case
  proof (cases "pt_Tag p \<in> set started \<or> \<not> set (pt_Dependencies p) \<subseteq> set started")
    case True
    with 2 show ?thesis by simp
  next
    case False
    obtain w1 where s: "pt_Start p StartStateStart w = (None, w1)"
      using 2(4) False by (cases "pt_Start p StartStateStart w") (auto split: option.splits)
    then obtain new where new: "started' = (started @ [pt_Tag p]) @ new" "start_tags ps new w1 = Some w'"
      using 2(2) [OF False s [symmetric]] 2(3,4) False by auto
    have "find (\<lambda>q. pt_Tag q = pt_Tag p) ps = Some p" using find_tag [OF assms] 2(3) by simp
    with new s show ?thesis by (intro exI [of _ "pt_Tag p # new"]) simp
  qed
qed simp

lemma start_tags_append: "start_tags ps ts w = Some w1 \<Longrightarrow> start_tags ps (ts @ us) w = start_tags ps us w1"
  by (induction ts arbitrary: w) (auto split: option.splits prod.splits)

lemma start_round_continues: "start_round kind ps started True w = (e, started', c', w') \<Longrightarrow> c'"
proof (induction ps arbitrary: started w)
  case (Cons p ps)
  then show ?case by (cases "pt_Start p StartStateStart w") (auto split: if_splits option.splits)
qed simp

lemma start_round_stuck:
  "start_round kind ps started c w = (e, started', False, w') \<Longrightarrow>
   started' = started \<and> e = None \<and> (\<forall>p \<in> set ps. pt_Tag p \<in> set started \<or> \<not> set (pt_Dependencies p) \<subseteq> set started)"
proof (induction kind ps started c w rule: start_round.induct)
  case (2 kind p ps started c w)
  show ?case
  proof (cases "pt_Tag p \<in> set started \<or> \<not> set (pt_Dependencies p) \<subseteq> set started")
    case True
    with 2 show ?thesis by auto
  next
    case False
    obtain e1 w1 where s: "pt_Start p StartStateStart w = (e1, w1)" by force
    from False 2(3) s obtain "e1 = None" "start_round kind ps (started @ [pt_Tag p]) True w1 = (e, started', False, w')"
      by (cases e1) auto
    then show ?thesis using start_round_continues [of kind ps "started @ [pt_Tag p]" w1 e started' False w'] by simp
  qed
qed simp

lemma starts_succeed_round:
  "starts_succeed ps \<Longrightarrow> set qs \<subseteq> set ps \<Longrightarrow> start_round kind qs started c w = (e, started', c', w') \<Longrightarrow> e = None"
proof (induction kind qs started c w rule: start_round.induct)
  case (2 kind p qs started c w)
  then have "fst (pt_Start p StartStateStart w) = None" by (simp add: starts_succeed_def)
  then obtain w1 where s: "pt_Start p StartStateStart w = (None, w1)" by (metis prod.collapse)
  with 2 show ?case by (auto split: if_splits)
qed simp

text \<open>A round that starts nothing leaves only parts behind that cannot start.\<close>

lemma stuck_not_startable:
  assumes stuck: "\<forall>p \<in> set ps. pt_Tag p \<in> set started \<or> \<not> set (pt_Dependencies p) \<subseteq> set started"
    and startable: "startable ps"
  shows "pt_Tag ` set ps \<subseteq> set started"
proof -
  obtain rank :: "string \<Rightarrow> nat" where
    rank: "\<And>p d. p \<in> set ps \<Longrightarrow> d \<in> set (pt_Dependencies p) \<Longrightarrow> d \<in> pt_Tag ` set ps \<and> rank d < rank (pt_Tag p)"
    using startable by (auto simp: startable_def)
  have "pt_Tag p \<in> set started" if "p \<in> set ps" for p
    using that
  proof (induction "rank (pt_Tag p)" arbitrary: p rule: less_induct)
    case less
    have "set (pt_Dependencies p) \<subseteq> set started"
    proof
      fix d assume "d \<in> set (pt_Dependencies p)"
      from rank [OF less.prems this] obtain q where "q \<in> set ps" "d = pt_Tag q" "rank (pt_Tag q) < rank (pt_Tag p)" by auto
      with less.hyps show "d \<in> set started" by simp
    qed
    with stuck less.prems show ?case by blast
  qed
  then show ?thesis by blast
qed

lemma ordered_startable:
  assumes "dependencies_first ps started" and "distinct (map pt_Tag ps)" and "length started = length ps"
  shows "startable ps" and "mset started = mset (map pt_Tag ps)"
    and "\<forall>p \<in> set ps. \<exists>before after. started = before @ pt_Tag p # after \<and> set (pt_Dependencies p) \<subseteq> set before"
proof -
  have sub: "set started \<subseteq> set (map pt_Tag ps)"
    using assms(1) by (auto simp: dependencies_first_def in_set_conv_nth image_iff) metis
  have d: "distinct started" using assms(1) by (simp add: dependencies_first_def)
  have eq: "set started = set (map pt_Tag ps)"
    using assms(2,3) d distinct_card [of started] distinct_card [of "map pt_Tag ps"]
    by (intro card_subset_eq [OF _ sub]) simp_all
  show "mset started = mset (map pt_Tag ps)" using eq d assms(2) by (simp only: set_eq_iff_mset_eq_distinct [symmetric])
  have split: "\<exists>before after. started = before @ pt_Tag p # after \<and> set (pt_Dependencies p) \<subseteq> set before"
    if p: "p \<in> set ps" for p
  proof -
    have "pt_Tag p \<in> set started" using eq p by auto
    then obtain i where i: "i < length started" "started ! i = pt_Tag p" by (auto simp: in_set_conv_nth)
    then obtain q where "q \<in> set ps" "pt_Tag q = pt_Tag p" "set (pt_Dependencies q) \<subseteq> set (take i started)"
      using assms(1) by (auto simp: dependencies_first_def)
    moreover from this have "q = p" using assms(2) p by (auto simp: distinct_map dest: inj_onD)
    ultimately show ?thesis using id_take_nth_drop [OF i(1)] i(2) by metis
  qed
  then show "\<forall>p \<in> set ps. \<exists>before after. started = before @ pt_Tag p # after \<and> set (pt_Dependencies p) \<subseteq> set before" by blast
  define rank where "rank t = length (takeWhile (\<lambda>s. s \<noteq> t) started)" for t
  have rank: "rank t = length before" if "started = before @ t # after" for t before after
  proof -
    have "t \<notin> set before" using d that by auto
    then have "takeWhile (\<lambda>s. s \<noteq> t) (before @ t # after) = before"
      by (subst takeWhile_append2) auto
    then show ?thesis by (simp add: rank_def that)
  qed
  have "dep \<in> pt_Tag ` set ps \<and> rank dep < rank (pt_Tag p)" if p: "p \<in> set ps" and dep: "dep \<in> set (pt_Dependencies p)" for p dep
  proof -
    obtain before after where b: "started = before @ pt_Tag p # after" "set (pt_Dependencies p) \<subseteq> set before"
      using split [OF p] by blast
    then obtain b1 b2 where b1: "before = b1 @ dep # b2" using dep by (meson in_mono split_list)
    have "rank dep < rank (pt_Tag p)" using rank [of b1 dep "b2 @ pt_Tag p # after"] rank [OF b(1)] b(1) b1 by simp
    moreover have "dep \<in> set started" using b(1) b1 by simp
    ultimately show ?thesis using eq by simp
  qed
  then show "startable ps" unfolding startable_def by blast
qed

text \<open>The loop over the rounds, from what it has started.\<close>

lemma start_parts_ordered:
  assumes "distinct (map pt_Tag ps)" "starts_succeed ps"
  shows "dependencies_first ps started \<Longrightarrow> start_tags ps started w0 = Some w \<Longrightarrow>
    \<exists>e started' w'. start_parts kind what byTag ps started w = Ret (e, started', w') \<and>
      (e = None \<longrightarrow> dependencies_first ps started' \<and> length started' = length ps \<and> start_tags ps started' w0 = Some w') \<and>
      (startable ps \<longrightarrow> e = None)"
proof (induction "card (pt_Tag ` set ps - set started)" arbitrary: started w rule: less_induct)
  case less
  obtain e started1 c w1 where r: "start_round kind ps started False w = (e, started1, c, w1)"
    using prod_cases4 by blast
  have e: "e = None" using starts_succeed_round [OF assms(2) subset_refl r] .
  have ord: "dependencies_first ps started1" using start_round_ordered [OF subset_refl less.prems(1) r] .
  obtain new where "started1 = started @ new" "start_tags ps new w = Some w1"
    using start_round_log [OF assms(1) subset_refl] r e by blast
  then have log: "start_tags ps started1 w0 = Some w1" using start_tags_append [OF less.prems(2)] by simp
  note unfold = start_parts.simps [of kind what byTag ps started w]
  show ?case
  proof (cases "length started1 = length ps")
    case True
    then show ?thesis using unfold r e ord log by simp
  next
    case False
    show ?thesis
    proof (cases c)
      case True
      then have "card (pt_Tag ` set ps - set started1) < card (pt_Tag ` set ps - set started)"
        using start_round_decreases [of kind ps started w e started1 w1] r by simp
      from less.hyps [OF this ord log] show ?thesis using unfold r e False True by simp
    next
      case stuck: False
      have same: "started1 = started" "\<forall>p \<in> set ps. pt_Tag p \<in> set started \<or> \<not> set (pt_Dependencies p) \<subseteq> set started"
        using start_round_stuck [of kind ps started False w e started1 w1] r stuck by simp_all
      have d: "distinct started1" using ord by (simp add: dependencies_first_def)
      have "\<not> pt_Tag ` set ps \<subseteq> set started1"
      proof
        assume "pt_Tag ` set ps \<subseteq> set started1"
        moreover have "set started1 \<subseteq> pt_Tag ` set ps"
          using ord by (auto simp: dependencies_first_def in_set_conv_nth image_iff) metis
        ultimately have "set started1 = set (map pt_Tag ps)" by simp
        then show False using False d assms(1) by (metis distinct_card length_map)
      qed
      moreover from this have "\<not> startable ps" using stuck_not_startable same by blast
      moreover from calculation(1) obtain p where "find (\<lambda>it. pt_Tag it \<notin> set started1) ps = Some p"
        by (cases "find (\<lambda>it. pt_Tag it \<notin> set started1) ps") (auto simp: find_None_iff)
      ultimately show ?thesis using unfold r e False stuck by simp
    qed
  qed
qed

section \<open>Properties\<close>

text \<open>
  C35. Outbounds, and DNS transports, start in the order of their dependencies. When no start fails, the
  loop ends, and it ends without an error exactly if every dependency exists and none is circular. Then
  every part has been started exactly once, and after all the parts it depends on.
\<close>

theorem parts_start_in_order:
  assumes "distinct (map pt_Tag ps)" "starts_succeed ps"
  shows "\<exists>e started w'. start_parts kind what byTag ps [] w = Ret (e, started, w') \<and>
    (e = None \<longleftrightarrow> startable ps) \<and>
    (e = None \<longrightarrow> start_tags ps started w = Some w' \<and> mset started = mset (map pt_Tag ps) \<and>
       (\<forall>p \<in> set ps. \<exists>before after. started = before @ pt_Tag p # after \<and> set (pt_Dependencies p) \<subseteq> set before))"
proof -
  have "dependencies_first ps []" "start_tags ps [] w = Some w" by (simp_all add: dependencies_first_def)
  from start_parts_ordered [OF assms this] obtain e started w' where
    r: "start_parts kind what byTag ps [] w = Ret (e, started, w')"
    and ok: "e = None \<Longrightarrow> dependencies_first ps started \<and> length started = length ps \<and> start_tags ps started w = Some w'"
    and none: "startable ps \<Longrightarrow> e = None"
    by blast
  show ?thesis
  proof (cases "e = None")
    case True
    with ordered_startable [of ps started] ok assms(1) r show ?thesis by auto
  next
    case False
    with r none show ?thesis by auto
  qed
qed

definition demo_part :: "nat \<Rightarrow> string \<Rightarrow> string list \<Rightarrow> string list part" where
  "demo_part i tag deps =
     \<lparr>pt_Id = i, pt_Type = ''direct'', pt_Tag = tag, pt_Dependencies = deps, pt_Start = (\<lambda>stage w. (None, w @ [tag])),
      pt_Close = (\<lambda>w. (None, w))\<rparr>"

definition demo_parts :: "string list part list" where
  "demo_parts = [demo_part 1 ''chain'' [''hop''], demo_part 2 ''hop'' []]"

theorem parts_start_in_order_witness:
  "\<exists>e started w'. start_parts ''outbound/'' ''outbound'' [] demo_parts [] [] = Ret (e, started, w') \<and>
     (e = None \<longleftrightarrow> startable demo_parts) \<and>
     (e = None \<longrightarrow> start_tags demo_parts started [] = Some w' \<and> mset started = {#''chain'', ''hop''#})"
proof -
  have d: "distinct (map pt_Tag demo_parts)" "starts_succeed demo_parts" "mset (map pt_Tag demo_parts) = {#''chain'', ''hop''#}"
    by (simp_all add: demo_parts_def demo_part_def starts_succeed_def)
  from parts_start_in_order [OF d(1,2), of "''outbound/''" "''outbound''" "[]" "[]"] d(3) show ?thesis by (elim exE) auto
qed

lemma empty_manager: "mg_parts m = [] \<Longrightarrow> mg_byTag m = [] \<Longrightarrow> mg_good m \<and> mg_ids m = {} \<and> mg_Get m t = None"
  by (simp add: mg_good_def mg_ids_def mg_Get_def)

text \<open>
  C36. A manager of outbounds that starts out empty never panics, whichever outbounds are created and
  removed, as long as each created one is a new object; errors of a start, of a close and of a
  dependency included. A tag leads to an outbound only if that one was created under the tag, and to
  none when it was removed last.
\<close>

theorem outbound_table:
  assumes "mg_parts m = []" "mg_byTag m = []" and "distinct (map pt_Id (concat (map op_part ops)))"
  shows "\<exists>m' w'. run_ops outbound_Create outbound_Remove ops m w = Ret (m', w') \<and>
    (\<forall>t p. mg_Get m' t = Some p \<longrightarrow> MCreate t (Inr p) \<in> set ops) \<and>
    (\<forall>t xs ys. ops = xs @ MRemove t # ys \<and> t \<notin> op_tag ` set ys \<longrightarrow> mg_Get m' t = None)"
proof -
  have good: "mg_good m" and new: "new_parts pt_Id mg_ids ops m" and none: "mg_Get m t = None" for t
    using empty_manager [OF assms(1,2)] assms(3) by (simp_all add: new_parts_def)
  obtain m' w' where r: "run_ops outbound_Create outbound_Remove ops m w = Ret (m', w')"
    using outbounds.ops_return [OF good new, of w] by (auto simp: returns_iff)
  have "MCreate t (Inr p) \<in> set ops" if "mg_Get m' t = Some p" for t p
    using outbounds.ops_get [OF good new r that] none by simp
  moreover have "mg_Get m' t = None" if "ops = xs @ MRemove t # ys" "t \<notin> op_tag ` set ys" for t xs ys
    using outbounds.ops_removed [of m xs t ys w m' w'] good new r that by simp
  ultimately show ?thesis using r by blast
qed

definition empty_outbounds :: "string list part dep_manager" where
  "empty_outbounds =
     \<lparr>mg_started = True, mg_stage = 3, mg_parts = [], mg_byTag = [], mg_defaultTag = '''', mg_default = None,
      mg_dependBy = (\<lambda>t. [])\<rparr>"

theorem outbound_table_witness:
  "\<exists>m' w'. run_ops outbound_Create outbound_Remove
      [MCreate ''hop'' (Inr (demo_part 1 ''hop'' [])), MCreate ''hop'' (Inr (demo_part 2 ''hop'' [])), MRemove ''hop''] empty_outbounds [] =
      Ret (m', w') \<and> mg_Get m' ''hop'' = None"
proof -
  let ?ops = "[MCreate ''hop'' (Inr (demo_part 1 ''hop'' [])), MCreate ''hop'' (Inr (demo_part 2 ''hop'' [])), MRemove ''hop'']"
  have "distinct (map pt_Id (concat (map op_part ?ops)))" by (simp add: demo_part_def)
  from outbound_table [OF _ _ this, of empty_outbounds "[]"] obtain m' w' where
    r: "run_ops outbound_Create outbound_Remove ?ops empty_outbounds [] = Ret (m', w')"
    and none: "\<forall>t xs ys. ?ops = xs @ MRemove t # ys \<and> t \<notin> op_tag ` set ys \<longrightarrow> mg_Get m' t = None"
    by (auto simp: empty_outbounds_def)
  from none [rule_format, of "take 2 ?ops" "''hop''" "[]"] r show ?thesis by auto
qed

end
