(* ===== verification/DnsClient.thy ===== *)
theory DnsClient
  imports Managers Sniffing
begin

text \<open>
  The DNS client (\<open>src/dns/client.go\<close>, \<open>extension_edns0_subnet.go\<close>, \<open>rcode.go\<close>, and
  \<open>FqdnToDomain\<close> of \<open>client_log.go\<close>) and the store of rejected answers of the cache file
  (\<open>src/experimental/cachefile/rdrc.go\<close>).

  What belongs to other packages is in \<open>dns_libs\<close>: the names, the EDNS record and its fields, the
  cache, the error a group of tasks gives, and the clock. A transport is any exchange of messages
  that acts on the world \<open>'w\<close>. An \<open>Exchange\<close> runs to its end before the next one starts: the locks
  that make a second request for a question wait for the first are then never held.
\<close>

section \<open>Constants and errors\<close>

definition DomainStrategyAsIS :: int where "DomainStrategyAsIS = 0"
definition DomainStrategyPreferIPv4 :: int where "DomainStrategyPreferIPv4 = 1"
definition DomainStrategyPreferIPv6 :: int where "DomainStrategyPreferIPv6 = 2"
definition DomainStrategyIPv4Only :: int where "DomainStrategyIPv4Only = 3"
definition DomainStrategyIPv6Only :: int where "DomainStrategyIPv6Only = 4"

text \<open>The numbers of record types, classes, response codes and options are those of the protocol.\<close>

definition TypeA :: "16 word" where "TypeA = 1"
definition TypeCNAME :: "16 word" where "TypeCNAME = 5"
definition TypeAAAA :: "16 word" where "TypeAAAA = 28"
definition TypeOPT :: "16 word" where "TypeOPT = 41"
definition TypeHTTPS :: "16 word" where "TypeHTTPS = 65"
definition ClassINET :: "16 word" where "ClassINET = 1"
definition RcodeSuccess :: int where "RcodeSuccess = 0"
definition RcodeFormatError :: int where "RcodeFormatError = 1"
definition RcodeNameError :: int where "RcodeNameError = 3"
definition RcodeRefused :: int where "RcodeRefused = 5"

lemmas strategy_defs =
  DomainStrategyAsIS_def DomainStrategyPreferIPv4_def DomainStrategyPreferIPv6_def
  DomainStrategyIPv4Only_def DomainStrategyIPv6Only_def

lemmas dns_type_defs = TypeA_def TypeCNAME_def TypeAAAA_def TypeOPT_def TypeHTTPS_def ClassINET_def

lemmas rcode_defs = RcodeSuccess_def RcodeFormatError_def RcodeNameError_def RcodeRefused_def

definition ErrNotCached :: go_error where
  "ErrNotCached = ENew [''not cached'']"

definition ErrResponseRejected :: go_error where
  "ErrResponseRejected = ENew [''response rejected'']"

definition ErrResponseRejectedCached :: go_error where
  "ErrResponseRejectedCached = EExtend ErrResponseRejected [''cached'']"

text \<open>\<open>errors.As\<close> for an \<open>RcodeError\<close>: the first one along the causes.\<close>

fun as_rcode :: "go_error \<Rightarrow> int option" where
  "as_rcode (ERcode c) = Some c"
| "as_rcode (EFmt f args (Some e)) = as_rcode e"
| "as_rcode (ECause e msg) = as_rcode e"
| "as_rcode (EExtend e msg) = as_rcode e"
| "as_rcode (EErrors es) = List.find (\<lambda>_. True) (List.map_filter id (map as_rcode es))"
| "as_rcode _ = None"

section \<open>Seconds of a duration\<close>

text \<open>
  \<open>int(d.Seconds())\<close>: the sum of two \<open>float64\<close> numbers, the whole seconds and the quotient of the
  rest, truncated. \<open>f64_round\<close> rounds a number between \<open>2^-64\<close> and \<open>2^64\<close> to 53 significant bits,
  halves to even.
\<close>

definition f64_unit :: "rat \<Rightarrow> rat" where
  "f64_unit x = (let b = bitlen (nat \<lfloor>x * 2 ^ 64\<rfloor>) in if b \<le> 117 then 1 / 2 ^ (117 - b) else 2 ^ (b - 117))"

definition round_half_even :: "rat \<Rightarrow> int" where
  "round_half_even x =
     (let f = \<lfloor>x\<rfloor>; r = x - of_int f in if r < 1 / 2 \<or> (r = 1 / 2 \<and> even f) then f else f + 1)"

definition f64_round :: "rat \<Rightarrow> rat" where
  "f64_round x = of_int (round_half_even (x / f64_unit x)) * f64_unit x"

definition int_Seconds :: "int \<Rightarrow> int" where
  "int_Seconds d =
     sgn d * \<lfloor>f64_round (of_int (\<bar>d\<bar> div 10 ^ 9) + f64_round (of_int (\<bar>d\<bar> mod 10 ^ 9) / 10 ^ 9))\<rfloor>"

section \<open>Data\<close>

type_synonym question = "string \<times> 16 word \<times> 16 word"

text \<open>
  A cache keyed by question, or by question and transport; both are \<open>freelru\<close> caches. The operations
  that look at the time get it. \<open>Get\<close> may reorder the entries.
\<close>

datatype cache_key = QuestionKey question | transportCacheKey question string

record ('k, 'v, 's) lru =
  lru_Add :: "'k \<Rightarrow> 'v \<Rightarrow> 's \<Rightarrow> 's"
  lru_AddWithLifetime :: "gotime \<Rightarrow> 'k \<Rightarrow> 'v \<Rightarrow> int \<Rightarrow> 's \<Rightarrow> 's"
  lru_Get :: "gotime \<Rightarrow> 'k \<Rightarrow> 's \<Rightarrow> 'v option \<times> 's"
  lru_GetWithLifetime :: "gotime \<Rightarrow> 'k \<Rightarrow> 's \<Rightarrow> ('v \<times> gotime) option \<times> 's"
  lru_Remove :: "'k \<Rightarrow> 's \<Rightarrow> 's"
  lru_Purge :: "'s \<Rightarrow> 's"

record ('s, 'w) dns_libs =
  IsFqdn :: "string \<Rightarrow> bool"
  Fqdn :: "string \<Rightarrow> string"
  msg_IsEdns0 :: "dns_Msg \<Rightarrow> dns_RR option"
  opt_Version :: "dns_RR \<Rightarrow> 8 word"
  opt_UDPSize :: "dns_RR \<Rightarrow> 16 word"
  opt_Do :: "dns_RR \<Rightarrow> bool"
  msg_SetEdns0 :: "16 word \<Rightarrow> bool \<Rightarrow> dns_Msg \<Rightarrow> dns_Msg"
  group_error :: "go_error option \<Rightarrow> go_error option \<Rightarrow> go_error option"
  message_cache :: "(cache_key, dns_Msg, 's) lru"
  world_Now :: "'w \<Rightarrow> gotime"

text \<open>A transport is a part that answers messages.\<close>

record 'w dns_transport = "'w part" +
  tp_Reset :: "'w \<Rightarrow> 'w"
  tp_Exchange :: "dns_Msg \<Rightarrow> 'w \<Rightarrow> (go_error + dns_Msg) \<times> 'w"

record 'w DNSQueryOptions =
  qo_Transport :: "'w dns_transport option"
  qo_Strategy :: int
  qo_LookupStrategy :: int
  qo_DisableCache :: bool
  qo_RewriteTTL :: "32 word option"
  qo_ClientSubnet :: prefix

definition prefix_IsValid :: "prefix \<Rightarrow> bool" where
  "prefix_IsValid p \<longleftrightarrow> addr_IsValid (fst p)"

record dns_client =
  cl_disableCache :: bool
  cl_disableExpire :: bool
  cl_independentCache :: bool
  cl_clientSubnet :: prefix

text \<open>
  The store of rejected answers: the ones whose save is under way, and the bucket with the second
  at which each expires. Keys are transport, name and type of a question.
\<close>

type_synonym rdrc_key = "string \<times> string \<times> 16 word"

record rdrc_store =
  saveRDRC :: "rdrc_key set"
  bucketRDRC :: "rdrc_key \<rightharpoonup> int"
  rdrcTimeout :: int

definition LoadRDRC :: "gotime \<Rightarrow> rdrc_key \<Rightarrow> rdrc_store \<Rightarrow> bool \<times> rdrc_store" where
  "LoadRDRC timeNow k r =
     (if k \<in> saveRDRC r then (True, r)
      else
        (case bucketRDRC r k of
           None \<Rightarrow> (False, r)
         | Some expiresAt \<Rightarrow>
             if timeNow > expiresAt * 10 ^ 9 then (False, r\<lparr>bucketRDRC := (bucketRDRC r)(k := None)\<rparr>) else (True, r)))"

definition SaveRDRC :: "gotime \<Rightarrow> rdrc_key \<Rightarrow> rdrc_store \<Rightarrow> rdrc_store" where
  "SaveRDRC timeNow k r = r\<lparr>bucketRDRC := (bucketRDRC r)(k \<mapsto> unix_sec (timeNow + rdrcTimeout r))\<rparr>"

text \<open>
  \<open>SaveRDRCAsync\<close> marks the key and leaves the rest to a goroutine, \<open>finish_SaveRDRC\<close>; its save may
  fail.
\<close>

definition SaveRDRCAsync :: "rdrc_key \<Rightarrow> rdrc_store \<Rightarrow> rdrc_store" where
  "SaveRDRCAsync k r = r\<lparr>saveRDRC := insert k (saveRDRC r)\<rparr>"

definition finish_SaveRDRC :: "gotime \<Rightarrow> bool \<Rightarrow> rdrc_key \<Rightarrow> rdrc_store \<Rightarrow> rdrc_store" where
  "finish_SaveRDRC timeNow fails k r =
     (let r = (if fails then r else SaveRDRC timeNow k r) in r\<lparr>saveRDRC := saveRDRC r - {k}\<rparr>)"

record ('s, 'w) dns_state =
  ds_cache :: 's
  ds_rdrc :: "rdrc_store option"
  ds_world :: 'w

section \<open>Messages\<close>

definition FqdnToDomain :: "('s, 'w) dns_libs \<Rightarrow> string \<Rightarrow> string" where
  "FqdnToDomain L fqdn = (if IsFqdn L fqdn then butlast fqdn else fqdn)"

definition FixedResponseStatus :: "dns_Msg \<Rightarrow> int \<Rightarrow> dns_Msg" where
  "FixedResponseStatus message rcode =
     \<lparr>msg_Id = msg_Id message, msg_Response = True, msg_Authoritative = True, msg_RecursionDesired = True,
      msg_RecursionAvailable = True, msg_Rcode = rcode, msg_Question = msg_Question message,
      msg_Answer = [], msg_Ns = [], msg_Extra = []\<rparr>"

definition MessageToAddresses :: "dns_Msg \<Rightarrow> addr list" where
  "MessageToAddresses response = DNSResponseAddresses (Some response)"

fun word_bytes :: "nat \<Rightarrow> nat \<Rightarrow> nat list" where
  "word_bytes 0 n = []"
| "word_bytes (Suc k) n = word_bytes k (n div 256) @ [n mod 256]"

fun AsSlice :: "addr \<Rightarrow> nat list" where
  "AsSlice NoAddr = []"
| "AsSlice (IPv4 a) = word_bytes 4 (unat a)"
| "AsSlice (IPv6 a z) = word_bytes 16 (unat a)"

text \<open>\<open>FixedResponse\<close>: an address answers a question of its own family.\<close>

definition fixed_record :: "question \<Rightarrow> 32 word \<Rightarrow> addr \<Rightarrow> dns_RR list" where
  "fixed_record q timeToLive address =
     (case q of (name, qtype, qclass) \<Rightarrow>
        if Is4 address \<and> qtype = TypeA then
          [\<lparr>rr_Name = name, rr_Rrtype = TypeA, rr_Class = ClassINET, rr_Ttl = timeToLive, rr_Data = RR_A (AsSlice address)\<rparr>]
        else if Is6 address \<and> qtype = TypeAAAA then
          [\<lparr>rr_Name = name, rr_Rrtype = TypeAAAA, rr_Class = ClassINET, rr_Ttl = timeToLive, rr_Data = RR_AAAA (AsSlice address)\<rparr>]
        else [])"

definition fixed_answer :: "16 word \<Rightarrow> question \<Rightarrow> dns_RR list \<Rightarrow> dns_Msg" where
  "fixed_answer i q answer =
     \<lparr>msg_Id = i, msg_Response = True, msg_Authoritative = True, msg_RecursionDesired = True,
      msg_RecursionAvailable = True, msg_Rcode = RcodeSuccess, msg_Question = [q],
      msg_Answer = answer, msg_Ns = [], msg_Extra = []\<rparr>"

definition FixedResponse :: "16 word \<Rightarrow> question \<Rightarrow> addr list \<Rightarrow> 32 word \<Rightarrow> dns_Msg" where
  "FixedResponse i q addresses timeToLive = fixed_answer i q (concat (map (fixed_record q timeToLive) addresses))"

text \<open>The answers with a name, with texts and with mail servers; the last two have the type of an address.\<close>

definition FixedResponseCNAME :: "16 word \<Rightarrow> question \<Rightarrow> string \<Rightarrow> 32 word \<Rightarrow> dns_Msg" where
  "FixedResponseCNAME i q target timeToLive =
     fixed_answer i q
       [\<lparr>rr_Name = fst q, rr_Rrtype = TypeCNAME, rr_Class = ClassINET, rr_Ttl = timeToLive, rr_Data = RR_CNAME target\<rparr>]"

definition FixedResponseTXT :: "16 word \<Rightarrow> question \<Rightarrow> string list \<Rightarrow> 32 word \<Rightarrow> dns_Msg" where
  "FixedResponseTXT i q records timeToLive =
     fixed_answer i q
       [\<lparr>rr_Name = fst q, rr_Rrtype = TypeA, rr_Class = ClassINET, rr_Ttl = timeToLive, rr_Data = RR_TXT records\<rparr>]"

definition FixedResponseMX :: "16 word \<Rightarrow> question \<Rightarrow> (16 word \<times> string) list \<Rightarrow> 32 word \<Rightarrow> dns_Msg" where
  "FixedResponseMX i q records timeToLive =
     fixed_answer i q
       (map (\<lambda>(pref, host).
          \<lparr>rr_Name = fst q, rr_Rrtype = TypeA, rr_Class = ClassINET, rr_Ttl = timeToLive, rr_Data = RR_MX pref host\<rparr>) records)"

section \<open>The client subnet\<close>

text \<open>
  \<open>setClientSubnet\<close>. The loop looks for a subnet option in the \<open>OPT\<close> records and stops at the first;
  without one it ends with the last record if that is an \<open>OPT\<close>, and with none otherwise, because a
  failed type assertion clears the variable. The message is copied before it is changed.
\<close>

definition is_subnet :: "edns_option \<Rightarrow> bool" where
  "is_subnet o1 = (case o1 of EDNS0_SUBNET f n s a \<Rightarrow> True | EDNS0_Other c t \<Rightarrow> False)"

definition opt_Option :: "dns_RR \<Rightarrow> edns_option list option" where
  "opt_Option r = (case rr_Data r of RR_OPT opts \<Rightarrow> Some opts | _ \<Rightarrow> None)"

definition has_subnet :: "dns_RR \<Rightarrow> bool" where
  "has_subnet r = (case opt_Option r of Some opts \<Rightarrow> (\<exists>x \<in> set opts. is_subnet x) | None \<Rightarrow> False)"

text \<open>What is written into the option; the scope of an option that was there stays.\<close>

definition subnet_option :: "prefix \<Rightarrow> 8 word \<Rightarrow> edns_option" where
  "subnet_option clientSubnet scope =
     EDNS0_SUBNET (if Is4 (fst clientSubnet) then 1 else 2) (of_nat (snd clientSubnet)) scope (AsSlice (fst clientSubnet))"

fun write_option :: "prefix \<Rightarrow> edns_option list \<Rightarrow> edns_option list" where
  "write_option p [] = [subnet_option p 0]"
| "write_option p (EDNS0_SUBNET f n s a # opts) = subnet_option p s # opts"
| "write_option p (EDNS0_Other c t # opts) = EDNS0_Other c t # write_option p opts"

definition write_subnet :: "prefix \<Rightarrow> dns_RR \<Rightarrow> dns_RR" where
  "write_subnet p r = r\<lparr>rr_Data := RR_OPT (write_option p (case opt_Option r of Some opts \<Rightarrow> opts | None \<Rightarrow> []))\<rparr>"

definition new_OPT :: dns_RR where
  "new_OPT = \<lparr>rr_Name = ''.'', rr_Rrtype = TypeOPT, rr_Class = 0, rr_Ttl = 0, rr_Data = RR_OPT []\<rparr>"

fun write_first_subnet :: "prefix \<Rightarrow> dns_RR list \<Rightarrow> dns_RR list" where
  "write_first_subnet p [] = []"
| "write_first_subnet p (r # rs) = (if has_subnet r then write_subnet p r # rs else r # write_first_subnet p rs)"

definition set_subnet :: "prefix \<Rightarrow> dns_RR list \<Rightarrow> dns_RR list" where
  "set_subnet p extra =
     (if \<exists>r \<in> set extra. has_subnet r then write_first_subnet p extra
      else if extra \<noteq> [] \<and> opt_Option (last extra) \<noteq> None then butlast extra @ [write_subnet p (last extra)]
      else extra @ [write_subnet p new_OPT])"

definition SetClientSubnet :: "dns_Msg \<Rightarrow> prefix \<Rightarrow> dns_Msg" where
  "SetClientSubnet message clientSubnet = message\<lparr>msg_Extra := set_subnet clientSubnet (msg_Extra message)\<rparr>"

section \<open>Times to live\<close>

definition msg_records :: "dns_Msg \<Rightarrow> dns_RR list" where
  "msg_records m = msg_Answer m @ msg_Ns m @ msg_Extra m"

definition set_records :: "(dns_RR \<Rightarrow> dns_RR) \<Rightarrow> dns_Msg \<Rightarrow> dns_Msg" where
  "set_records f m = m\<lparr>msg_Answer := map f (msg_Answer m), msg_Ns := map f (msg_Ns m), msg_Extra := map f (msg_Extra m)\<rparr>"

fun extractNegativeTTL :: "dns_RR list \<Rightarrow> 32 word option" where
  "extractNegativeTTL [] = None"
| "extractNegativeTTL (r # rs) =
     (case rr_Data r of
        RR_SOA soaMinimum t \<Rightarrow> Some (if rr_Ttl r < soaMinimum then rr_Ttl r else soaMinimum)
      | _ \<Rightarrow> extractNegativeTTL rs)"

text \<open>The loop over the records of a message, which \<open>Exchange\<close> and \<open>loadResponse\<close> have in common.\<close>

definition lower_ttl :: "32 word \<Rightarrow> dns_RR list \<Rightarrow> 32 word" where
  "lower_ttl = foldl (\<lambda>ttl r. if ttl = 0 \<or> rr_Ttl r > 0 \<and> rr_Ttl r < ttl then rr_Ttl r else ttl)"

definition response_ttl :: "dns_Msg \<Rightarrow> 'w DNSQueryOptions \<Rightarrow> 32 word" where
  "response_ttl response options =
     (let timeToLive =
            (if msg_Answer response = [] then
               (case extractNegativeTTL (msg_Ns response) of Some soaTTL \<Rightarrow> soaTTL | None \<Rightarrow> 0)
             else 0);
          timeToLive = (if timeToLive = 0 then lower_ttl 0 (msg_records response) else timeToLive)
      in case qo_RewriteTTL options of Some t \<Rightarrow> t | None \<Rightarrow> timeToLive)"

section \<open>The cache\<close>

definition cache_key_of :: "dns_client \<Rightarrow> question \<Rightarrow> string \<Rightarrow> cache_key" where
  "cache_key_of c q tag = (if cl_independentCache c then transportCacheKey q tag else QuestionKey q)"

text \<open>
  \<open>storeCache\<close>. The cache keeps the message itself and not a copy, so it has what \<open>Exchange\<close> writes to
  the message afterwards: the stored message is the one that is returned.
\<close>

definition storeCache ::
    "('s, 'w) dns_libs \<Rightarrow> dns_client \<Rightarrow> 'w dns_transport \<Rightarrow> question \<Rightarrow> dns_Msg \<Rightarrow> 32 word \<Rightarrow> ('s, 'w) dns_state \<Rightarrow>
     ('s, 'w) dns_state" where
  "storeCache L c tp q message timeToLive s =
     (if timeToLive = 0 then s
      else if cl_disableExpire c then s\<lparr>ds_cache := lru_Add (message_cache L) (cache_key_of c q (pt_Tag tp)) message (ds_cache s)\<rparr>
      else
        s\<lparr>ds_cache := lru_AddWithLifetime (message_cache L) (world_Now L (ds_world s)) (cache_key_of c q (pt_Tag tp)) message
                        (10 ^ 9 * int (unat timeToLive)) (ds_cache s)\<rparr>)"

text \<open>\<open>loadResponse\<close> with the key of a question: the cached message with what is left of its time to live.\<close>

definition loadResponse ::
    "('s, 'w) dns_libs \<Rightarrow> dns_client \<Rightarrow> cache_key \<Rightarrow> ('s, 'w) dns_state \<Rightarrow> (dns_Msg \<times> int) option \<times> ('s, 'w) dns_state" where
  "loadResponse L c k s =
     (let timeNow = world_Now L (ds_world s)
      in if cl_disableExpire c then
           (case lru_Get (message_cache L) timeNow k (ds_cache s) of
              (r, cache) \<Rightarrow> (map_option (\<lambda>m. (m, 0)) r, s\<lparr>ds_cache := cache\<rparr>))
         else
           (case lru_GetWithLifetime (message_cache L) timeNow k (ds_cache s) of
              (None, cache) \<Rightarrow> (None, s\<lparr>ds_cache := cache\<rparr>)
            | (Some (response, expireAt), cache) \<Rightarrow>
                if timeNow > expireAt then (None, s\<lparr>ds_cache := lru_Remove (message_cache L) k cache\<rparr>)
                else
                  (let originTTL = lower_ttl 0 (msg_records response);
                       nowTTL = max 0 (int_Seconds (time_Sub expireAt timeNow));
                       duration = word_of_int (int (unat originTTL) - nowTTL);
                       response =
                         (if originTTL > 0 then set_records (\<lambda>r. r\<lparr>rr_Ttl := rr_Ttl r - duration\<rparr>) response
                          else set_records (\<lambda>r. r\<lparr>rr_Ttl := word_of_int nowTTL\<rparr>) response)
                   in (Some (response, nowTTL), s\<lparr>ds_cache := cache\<rparr>))))"

text \<open>A cache per transport asks the transport for its tag; without a transport that panics.\<close>

definition nil_transport :: "'a go" where
  "nil_transport = Panic (EDriver ''nil pointer dereference'')"

definition load_question ::
    "('s, 'w) dns_libs \<Rightarrow> dns_client \<Rightarrow> question \<Rightarrow> 'w dns_transport option \<Rightarrow> ('s, 'w) dns_state \<Rightarrow>
     ((dns_Msg \<times> int) option \<times> ('s, 'w) dns_state) go" where
  "load_question L c q transport s =
     (case transport of
        Some tp \<Rightarrow> Ret (loadResponse L c (cache_key_of c q (pt_Tag tp)) s)
      | None \<Rightarrow> if cl_independentCache c then nil_transport else Ret (loadResponse L c (QuestionKey q) s))"

definition client_ClearCache :: "('s, 'w) dns_libs \<Rightarrow> dns_client \<Rightarrow> ('s, 'w) dns_state \<Rightarrow> ('s, 'w) dns_state" where
  "client_ClearCache L c s =
     (if cl_disableCache c then s else s\<lparr>ds_cache := lru_Purge (message_cache L) (ds_cache s)\<rparr>)"

section \<open>Exchange\<close>

text \<open>
  A request that asks for nothing beside its question. The options of an \<open>OPT\<close> record are reached by
  a type assertion without a check.
\<close>

definition isSimpleRequest :: "dns_Msg \<Rightarrow> 'w DNSQueryOptions \<Rightarrow> bool go" where
  "isSimpleRequest message options =
     (if length (msg_Question message) = 1 \<and> msg_Ns message = [] then
        (case msg_Extra message of
           [] \<Rightarrow> Ret (\<not> prefix_IsValid (qo_ClientSubnet options))
         | [r] \<Rightarrow>
             if rr_Rrtype r = TypeOPT \<and> rr_Class r > 0 \<and> rr_Ttl r = 0 then
               (case opt_Option r of
                  None \<Rightarrow> Panic (EDriver ''interface conversion'')
                | Some opts \<Rightarrow> Ret (opts = [] \<and> \<not> prefix_IsValid (qo_ClientSubnet options)))
             else Ret False
         | _ \<Rightarrow> Ret False)
      else Ret False)"

definition strategy_rejects :: "16 word \<Rightarrow> int \<Rightarrow> bool" where
  "strategy_rejects qtype strategy \<longleftrightarrow>
     qtype = TypeA \<and> strategy = DomainStrategyIPv6Only \<or> qtype = TypeAAAA \<and> strategy = DomainStrategyIPv4Only"

definition with_subnet :: "dns_client \<Rightarrow> 'w DNSQueryOptions \<Rightarrow> dns_Msg \<Rightarrow> dns_Msg" where
  "with_subnet c options message =
     (let clientSubnet = (if prefix_IsValid (qo_ClientSubnet options) then qo_ClientSubnet options else cl_clientSubnet c)
      in if prefix_IsValid clientSubnet then SetClientSubnet message clientSubnet else message)"

fun svcb_Key :: "svcb_value \<Rightarrow> 16 word" where
  "svcb_Key (SVCBIPv4Hint ips) = 4"
| "svcb_Key (SVCBIPv6Hint ips) = 6"
| "svcb_Key (SVCBOther k t) = k"

text \<open>The hints of the family that the strategy excludes leave the answer to a question for \<open>HTTPS\<close>.\<close>

definition drop_hints :: "16 word \<Rightarrow> int \<Rightarrow> dns_Msg \<Rightarrow> dns_Msg" where
  "drop_hints qtype strategy response =
     (if qtype = TypeHTTPS \<and> (strategy = DomainStrategyIPv4Only \<or> strategy = DomainStrategyIPv6Only) then
        response\<lparr>msg_Answer := map (\<lambda>r.
          case rr_Data r of
            RR_HTTPS values \<Rightarrow>
              r\<lparr>rr_Data := RR_HTTPS (filter (\<lambda>it. svcb_Key it \<noteq> (if strategy = DomainStrategyIPv4Only then 6 else 4)) values)\<rparr>
          | _ \<Rightarrow> r) (msg_Answer response)\<rparr>
      else response)"

text \<open>The EDNS record of the answer is dropped or rewritten when the request has none or an older one.\<close>

definition match_edns :: "('s, 'w) dns_libs \<Rightarrow> dns_Msg \<Rightarrow> dns_Msg \<Rightarrow> dns_Msg" where
  "match_edns L message response =
     (case msg_IsEdns0 L response of
        None \<Rightarrow> response
      | Some ro \<Rightarrow>
          (let response' = response\<lparr>msg_Extra := filter (\<lambda>it. rr_Rrtype it \<noteq> TypeOPT) (msg_Extra response)\<rparr>
           in case msg_IsEdns0 L message of
                None \<Rightarrow> response'
              | Some qopt \<Rightarrow>
                  if opt_Version L qopt < opt_Version L ro then msg_SetEdns0 L (opt_UDPSize L ro) (opt_Do L ro) response'
                  else response))"

definition cacheable_rcode :: "dns_Msg \<Rightarrow> bool" where
  "cacheable_rcode response \<longleftrightarrow> msg_Rcode response = RcodeSuccess \<or> msg_Rcode response = RcodeNameError"

text \<open>What \<open>Exchange\<close> makes of an answer it accepts: times to live, identifier and EDNS record.\<close>

definition finish_response :: "('s, 'w) dns_libs \<Rightarrow> dns_Msg \<Rightarrow> 16 word \<Rightarrow> 'w DNSQueryOptions \<Rightarrow> dns_Msg \<Rightarrow> dns_Msg \<times> 32 word" where
  "finish_response L message qtype options response =
     (let response = drop_hints qtype (qo_Strategy options) response;
          timeToLive = response_ttl response options;
          response = set_records (\<lambda>r. r\<lparr>rr_Ttl := timeToLive\<rparr>) response
      in (match_edns L message (response\<lparr>msg_Id := msg_Id message\<rparr>), timeToLive))"

type_synonym response_checker = "(dns_Msg \<Rightarrow> bool) option"

definition answer_rejected :: "response_checker \<Rightarrow> dns_Msg \<Rightarrow> bool" where
  "answer_rejected checker response =
     (case checker of None \<Rightarrow> False | Some f \<Rightarrow> \<not> cacheable_rcode response \<or> \<not> f response)"

text \<open>The part of \<open>Exchange\<close> that asks the transport.\<close>

definition exchange_transport ::
    "('s, 'w) dns_libs \<Rightarrow> dns_client \<Rightarrow> bool \<Rightarrow> 'w dns_transport \<Rightarrow> question \<Rightarrow> dns_Msg \<Rightarrow> 'w DNSQueryOptions \<Rightarrow>
     response_checker \<Rightarrow> ('s, 'w) dns_state \<Rightarrow> (go_error + dns_Msg) \<times> ('s, 'w) dns_state" where
  "exchange_transport L c disableCache tp q message options checker s =
     (case tp_Exchange tp message (ds_world s) of
        (result, w) \<Rightarrow>
          (let s = s\<lparr>ds_world := w\<rparr>
           in case (case result of
                      Inr response \<Rightarrow> Inr response
                    | Inl e \<Rightarrow> (case as_rcode e of Some rcode \<Rightarrow> Inr (FixedResponseStatus message rcode) | None \<Rightarrow> Inl e)) of
                Inl e \<Rightarrow> (Inl e, s)
              | Inr response \<Rightarrow>
                  (let disableCache = (disableCache \<or> \<not> cacheable_rcode response)
                   in if answer_rejected checker response then
                        (Inl ErrResponseRejected,
                         if disableCache then s
                         else s\<lparr>ds_rdrc := map_option (SaveRDRCAsync (pt_Tag tp, fst q, fst (snd q))) (ds_rdrc s)\<rparr>)
                      else
                        (case finish_response L message (fst (snd q)) options response of
                           (response, timeToLive) \<Rightarrow>
                             (Inr response,
                              if disableCache then s else storeCache L c tp q response timeToLive s)))))"

text \<open>A question whose answer of this transport was rejected before, where a checker asks for that.\<close>

definition known_rejected ::
    "('s, 'w) dns_libs \<Rightarrow> bool \<Rightarrow> 'w dns_transport \<Rightarrow> question \<Rightarrow> response_checker \<Rightarrow> ('s, 'w) dns_state \<Rightarrow>
     bool \<times> ('s, 'w) dns_state" where
  "known_rejected L disableCache tp q checker s =
     (if disableCache \<or> checker = None then (False, s)
      else
        (case ds_rdrc s of
           None \<Rightarrow> (False, s)
         | Some r \<Rightarrow>
             (case LoadRDRC (world_Now L (ds_world s)) (pt_Tag tp, fst q, fst (snd q)) r of
                (rejected, r) \<Rightarrow> (rejected, s\<lparr>ds_rdrc := Some r\<rparr>))))"

text \<open>
  \<open>Client.Exchange\<close>; \<open>tag\<close> is the transport the context names. The transport may be missing: the
  client panics when it first needs it.
\<close>

definition client_Exchange ::
    "('s, 'w) dns_libs \<Rightarrow> dns_client \<Rightarrow> string option \<Rightarrow> 'w dns_transport option \<Rightarrow> dns_Msg \<Rightarrow> 'w DNSQueryOptions \<Rightarrow>
     response_checker \<Rightarrow> ('s, 'w) dns_state \<Rightarrow> ((go_error + dns_Msg) \<times> ('s, 'w) dns_state) go" where
  "client_Exchange L c tag transport message options checker s =
     (case msg_Question message of
        [] \<Rightarrow> Ret (Inr (FixedResponseStatus message RcodeFormatError), s)
      | q # _ \<Rightarrow>
          if strategy_rejects (fst (snd q)) (qo_Strategy options)
          then Ret (Inr (FixedResponseStatus message RcodeSuccess), s)
          else
            (let message = with_subnet c options message
             in go_bind (isSimpleRequest message options) (\<lambda>simple.
                  let disableCache = (\<not> simple \<or> cl_disableCache c \<or> qo_DisableCache options)
                  in go_bind (if disableCache then Ret (None, s) else load_question L c q transport s) (\<lambda>(cached, s).
                       case cached of
                         Some (response, ttl) \<Rightarrow> Ret (Inr (response\<lparr>msg_Id := msg_Id message\<rparr>), s)
                       | None \<Rightarrow>
                           (case transport of
                              None \<Rightarrow> nil_transport
                            | Some tp \<Rightarrow>
                                if tag = Some (pt_Tag tp) then
                                  Ret (Inl (ENew [''DNS query loopback in transport['', pt_Tag tp, '']'']), s)
                                else
                                  Ret (case known_rejected L disableCache tp q checker s of
                                         (True, s) \<Rightarrow> (Inl ErrResponseRejectedCached, s)
                                       | (False, s) \<Rightarrow> exchange_transport L c disableCache tp q message options checker s))))))"

section \<open>Lookup\<close>

definition sortAddresses :: "addr list \<Rightarrow> addr list \<Rightarrow> int \<Rightarrow> addr list" where
  "sortAddresses response4 response6 strategy =
     (if strategy = DomainStrategyPreferIPv6 then response6 @ response4 else response4 @ response6)"

definition lookup_request :: "string \<Rightarrow> 16 word \<Rightarrow> dns_Msg" where
  "lookup_request name qtype =
     \<lparr>msg_Id = 0, msg_Response = False, msg_Authoritative = False, msg_RecursionDesired = True,
      msg_RecursionAvailable = False, msg_Rcode = 0, msg_Question = [(name, qtype, ClassINET)],
      msg_Answer = [], msg_Ns = [], msg_Extra = []\<rparr>"

definition addresses_of :: "dns_Msg \<Rightarrow> go_error + addr list" where
  "addresses_of response =
     (if msg_Rcode response \<noteq> RcodeSuccess then Inl (ERcode (msg_Rcode response)) else Inr (MessageToAddresses response))"

definition questionCache ::
    "('s, 'w) dns_libs \<Rightarrow> dns_client \<Rightarrow> question \<Rightarrow> 'w dns_transport option \<Rightarrow> ('s, 'w) dns_state \<Rightarrow>
     ((go_error + addr list) \<times> ('s, 'w) dns_state) go" where
  "questionCache L c q transport s =
     go_bind (load_question L c q transport s) (\<lambda>(cached, s).
       Ret (case cached of None \<Rightarrow> Inl ErrNotCached | Some (response, ttl) \<Rightarrow> addresses_of response, s))"

definition lookupToExchange ::
    "('s, 'w) dns_libs \<Rightarrow> dns_client \<Rightarrow> string option \<Rightarrow> 'w dns_transport option \<Rightarrow> string \<Rightarrow> 16 word \<Rightarrow> 'w DNSQueryOptions \<Rightarrow>
     response_checker \<Rightarrow> ('s, 'w) dns_state \<Rightarrow> ((go_error + addr list) \<times> ('s, 'w) dns_state) go" where
  "lookupToExchange L c tag transport name qtype options checker s =
     go_bind
       (if cl_disableCache c \<or> qo_DisableCache options then Ret (Inl ErrNotCached, s)
        else questionCache L c (name, qtype, ClassINET) transport s)
       (\<lambda>(cached, s).
         if cached \<noteq> Inl ErrNotCached then Ret (cached, s)
         else
           go_bind (client_Exchange L c tag transport (lookup_request name qtype) options checker s) (\<lambda>(result, s).
             Ret (case result of Inl e \<Rightarrow> Inl e | Inr response \<Rightarrow> addresses_of response, s)))"

text \<open>
  Two lookups that a task group runs side by side, here one after the other; \<open>first6\<close> says which one
  gets ahead. A failed lookup leaves no addresses.
\<close>

definition left_error :: "go_error + 'a \<Rightarrow> go_error option" where
  "left_error r = (case r of Inl e \<Rightarrow> Some e | Inr x \<Rightarrow> None)"

definition right_list :: "go_error + 'a list \<Rightarrow> 'a list" where
  "right_list r = (case r of Inl e \<Rightarrow> [] | Inr xs \<Rightarrow> xs)"

type_synonym 't family_lookup = "16 word \<Rightarrow> 't \<Rightarrow> ((go_error + addr list) \<times> 't) go"

definition lookup_both ::
    "('s, 'w) dns_libs \<Rightarrow> bool \<Rightarrow> 't family_lookup \<Rightarrow> int \<Rightarrow> 't \<Rightarrow> ((addr list \<times> go_error option) \<times> 't) go" where
  "lookup_both L first6 f strategy s =
     go_bind (f (if first6 then TypeAAAA else TypeA) s) (\<lambda>(r1, s).
     go_bind (f (if first6 then TypeA else TypeAAAA) s) (\<lambda>(r2, s).
       let (r4, r6) = (if first6 then (r2, r1) else (r1, r2))
       in Ret (if right_list r4 = [] \<and> right_list r6 = [] then ([], group_error L (left_error r4) (left_error r6))
               else (sortAddresses (right_list r4) (right_list r6) strategy, None), s)))"

text \<open>A lookup of one family, or of both, as the strategy asks.\<close>

definition lookup_families ::
    "('s, 'w) dns_libs \<Rightarrow> bool \<Rightarrow> 't family_lookup \<Rightarrow> int \<Rightarrow> 't \<Rightarrow> ((addr list \<times> go_error option) \<times> 't) go" where
  "lookup_families L first6 f strategy s =
     (if strategy = DomainStrategyIPv4Only then
        go_bind (f TypeA s) (\<lambda>(r, s). Ret ((right_list r, left_error r), s))
      else if strategy = DomainStrategyIPv6Only then
        go_bind (f TypeAAAA s) (\<lambda>(r, s). Ret ((right_list r, left_error r), s))
      else lookup_both L first6 f strategy s)"

definition client_Lookup ::
    "('s, 'w) dns_libs \<Rightarrow> dns_client \<Rightarrow> bool \<Rightarrow> string option \<Rightarrow> 'w dns_transport option \<Rightarrow> string \<Rightarrow> 'w DNSQueryOptions \<Rightarrow>
     response_checker \<Rightarrow> ('s, 'w) dns_state \<Rightarrow> ((addr list \<times> go_error option) \<times> ('s, 'w) dns_state) go" where
  "client_Lookup L c first6 tag transport domain options checker s =
     (let dnsName = Fqdn L (FqdnToDomain L domain);
          strategy = (if qo_LookupStrategy options \<noteq> DomainStrategyAsIS then qo_LookupStrategy options else qo_Strategy options);
          lookupOptions = (if qo_LookupStrategy options \<noteq> DomainStrategyAsIS then options\<lparr>qo_Strategy := strategy\<rparr> else options)
      in lookup_families L first6 (\<lambda>qtype. lookupToExchange L c tag transport dnsName qtype lookupOptions checker) strategy s)"

section \<open>Facts about seconds\<close>

lemma round_half_even_bounds:
  assumes "of_int a \<le> x" and "x \<le> of_int b"
  shows "a \<le> round_half_even x" and "round_half_even x \<le> b"
proof -
  have "a \<le> \<lfloor>x\<rfloor>" "\<lfloor>x\<rfloor> \<le> b" using assms by linarith+
  moreover have "\<lfloor>x\<rfloor> < b" if "x - of_int \<lfloor>x\<rfloor> > 0" using assms(2) that by linarith
  ultimately show "a \<le> round_half_even x" "round_half_even x \<le> b"
    by (auto simp: round_half_even_def Let_def not_less)
qed

text \<open>Below \<open>2^52\<close> the unit divides one, so rounding does not pass an integer.\<close>

lemma f64_unit_small:
  assumes "0 \<le> x" and "x < 2 ^ 52"
  obtains k where "f64_unit x = 1 / 2 ^ k"
proof -
  have "\<lfloor>x * 2 ^ 64\<rfloor> < 2 ^ 116"
  proof -
    have "x * 2 ^ 64 < 2 ^ 52 * 2 ^ 64" using assms(2) by simp
    then show ?thesis by (simp add: floor_less_iff)
  qed
  then have "nat \<lfloor>x * 2 ^ 64\<rfloor> < 2 ^ 116" using assms(1) by (simp add: nat_less_iff)
  then have "bitlen (nat \<lfloor>x * 2 ^ 64\<rfloor>) \<le> 116" by (simp only: bitlen_le_iff)
  then show thesis using that by (simp add: f64_unit_def)
qed

lemma f64_round_bounds:
  assumes "of_int a \<le> x" "x \<le> of_int b" "0 \<le> x" "x < 2 ^ 52"
  shows "of_int a \<le> f64_round x" and "f64_round x \<le> of_int b"
proof -
  obtain k where k: "f64_unit x = 1 / 2 ^ k" using f64_unit_small [OF assms(3,4)] .
  have "of_int (a * 2 ^ k) \<le> x * 2 ^ k" "x * 2 ^ k \<le> of_int (b * 2 ^ k)" using assms(1,2) by simp_all
  from round_half_even_bounds [OF this] have "a * 2 ^ k \<le> round_half_even (x * 2 ^ k)" "round_half_even (x * 2 ^ k) \<le> b * 2 ^ k" .
  then have "of_int (a * 2 ^ k) \<le> (of_int (round_half_even (x * 2 ^ k)) :: rat)"
    "(of_int (round_half_even (x * 2 ^ k)) :: rat) \<le> of_int (b * 2 ^ k)" by (simp_all only: of_int_le_iff)
  then show "of_int a \<le> f64_round x" "f64_round x \<le> of_int b"
    unfolding f64_round_def k by (simp_all add: field_simps)
qed

text \<open>The seconds of a duration that is not negative are its whole seconds, or one more.\<close>

lemma int_Seconds_bounds:
  assumes "0 \<le> d" and "d < 2 ^ 63"
  shows "d div 10 ^ 9 \<le> int_Seconds d" and "int_Seconds d \<le> d div 10 ^ 9 + 1"
proof -
  let ?s = "d div 10 ^ 9" and ?n = "d mod 10 ^ 9"
  have n: "0 \<le> ?n" "?n < 10 ^ 9" and s: "0 \<le> ?s" "?s < 2 ^ 50" using assms by simp_all
  let ?q = "f64_round (of_int ?n / 10 ^ 9)"
  define x :: rat where "x = of_int ?n / 10 ^ 9"
  have "(of_int ?n :: rat) \<le> of_int (10 ^ 9)" using n(2) by (simp only: of_int_le_iff)
  then have "0 \<le> x" "x \<le> 1" using n(1) by (simp_all add: x_def)
  then have q: "0 \<le> ?q" "?q \<le> 1" using f64_round_bounds [of 0 x 1] unfolding x_def [symmetric] by simp_all
  have "(of_int ?s :: rat) < of_int (2 ^ 50)" using s(2) by (simp only: of_int_less_iff)
  then have "(of_int ?s :: rat) + ?q < 2 ^ 52" using q by simp
  then have "of_int ?s \<le> f64_round (of_int ?s + ?q)" "f64_round (of_int ?s + ?q) \<le> of_int (?s + 1)"
    using q s f64_round_bounds [of ?s "of_int ?s + ?q" "?s + 1"] by simp_all
  then have b: "?s \<le> \<lfloor>f64_round (of_int ?s + ?q)\<rfloor>" "\<lfloor>f64_round (of_int ?s + ?q)\<rfloor> \<le> ?s + 1" by linarith+
  have "?s \<le> int_Seconds d \<and> int_Seconds d \<le> ?s + 1"
  proof (cases "d = 0")
    case True
    have "int_Seconds 0 = 0" by (simp only: int_Seconds_def sgn_0 mult_zero_left)
    with True show ?thesis by simp
  next
    case False
    then have "sgn d = 1" "\<bar>d\<bar> = d" using assms(1) by simp_all
    then have "int_Seconds d = \<lfloor>f64_round (of_int ?s + ?q)\<rfloor>" by (simp only: int_Seconds_def mult_1)
    with b show ?thesis by (simp only:)
  qed
  then show "?s \<le> int_Seconds d" "int_Seconds d \<le> ?s + 1" by (simp_all only:)
qed

end
