(* ===== verification/FakeIP.thy ===== *)
theory FakeIP
  imports DnsClient
begin

text \<open>
  The fake addresses of the DNS server of type \<open>fakeip\<close>: the store that hands them out
  (\<open>src/dns/transport/fakeip/store.go\<close>), its two storages, in memory (\<open>memory.go\<close>) and in the cache
  file (\<open>src/experimental/cachefile/fakeip.go\<close>), the metadata that survives a restart
  (\<open>src/adapter/fakeip_metadata.go\<close>), and the transport (\<open>fakeip.go\<close>).

  The buckets of the cache file are finite maps that may be missing; a transaction that fails changes
  nothing. That the database itself fails is not modelled. The saves in the background that nothing
  calls (\<open>FakeIPStoreAsync\<close>) are left out, so the maps of pending saves are empty.
\<close>

section \<open>Addresses of a range\<close>

text \<open>\<open>Next\<close>, \<open>Contains\<close> and \<open>As16\<close> of \<open>net/netip\<close>.\<close>

fun addr_Next :: "addr \<Rightarrow> addr" where
  "addr_Next NoAddr = NoAddr"
| "addr_Next (IPv4 a) = (if a + 1 = 0 then NoAddr else IPv4 (a + 1))"
| "addr_Next (IPv6 a z) = (if a + 1 = 0 then NoAddr else IPv6 (a + 1) z)"

fun prefix_Contains :: "prefix \<Rightarrow> addr \<Rightarrow> bool" where
  "prefix_Contains (IPv4 p, n) (IPv4 a) \<longleftrightarrow> n \<le> 32 \<and> drop_bit (32 - n) p = drop_bit (32 - n) a"
| "prefix_Contains (IPv6 p y, n) (IPv6 a z) \<longleftrightarrow> z = '''' \<and> n \<le> 128 \<and> drop_bit (128 - n) p = drop_bit (128 - n) a"
| "prefix_Contains _ _ \<longleftrightarrow> False"

fun As16 :: "addr \<Rightarrow> 128 word" where
  "As16 NoAddr = 0"
| "As16 (IPv4 a) = push_bit 32 0xFFFF OR ucast a"
| "As16 (IPv6 a z) = a"

text \<open>The loop sets the bits behind the prefix, counted from the left.\<close>

definition broadcastAddress :: "prefix \<Rightarrow> addr" where
  "broadcastAddress p =
     (let bits = snd p + (if Is4 (fst p) then 96 else 0);
          raw = foldl (\<lambda>raw i. raw OR push_bit (127 - i) 1) (As16 (fst p)) [bits..<128]
      in if Is4 (fst p) then IPv4 (ucast raw) else IPv6 raw '''')"

section \<open>Metadata\<close>

record FakeIPMetadata =
  md_Inet4Range :: prefix
  md_Inet6Range :: prefix
  md_Inet4Current :: addr
  md_Inet6Current :: addr

text \<open>
  \<open>MarshalBinary\<close> of an address and of a prefix. A prefix that is not valid has no address and the
  byte 255; zones do not occur in the addresses of a range.
\<close>

definition Addr_MarshalBinary :: "addr \<Rightarrow> nat list" where
  "Addr_MarshalBinary a = AsSlice a"

definition Addr_UnmarshalBinary :: "nat list \<Rightarrow> addr option" where
  "Addr_UnmarshalBinary bs =
     (if bs = [] then Some NoAddr else if length bs \<in> {4, 16} then Some (AddrFromIP bs) else None)"

definition no_prefix :: prefix where
  "no_prefix = (NoAddr, 0)"

definition addr_BitLen :: "addr \<Rightarrow> nat" where
  "addr_BitLen a = (case a of NoAddr \<Rightarrow> 0 | IPv4 w \<Rightarrow> 32 | IPv6 w z \<Rightarrow> 128)"

definition Prefix_MarshalBinary :: "prefix \<Rightarrow> nat list" where
  "Prefix_MarshalBinary p = AsSlice (fst p) @ [if prefix_IsValid p then snd p else 255]"

definition Prefix_UnmarshalBinary :: "nat list \<Rightarrow> prefix option" where
  "Prefix_UnmarshalBinary bs =
     (if bs = [] then None
      else
        map_option (\<lambda>a. if a \<noteq> NoAddr \<and> last bs \<le> addr_BitLen a then (a, last bs) else no_prefix)
          (Addr_UnmarshalBinary (butlast bs)))"

text \<open>Each field with its length in two bytes. Reading a length that is not there panics.\<close>

definition length_bytes :: "nat list \<Rightarrow> nat list" where
  "length_bytes bs = word_bytes 2 (length bs mod 2 ^ 16) @ bs"

definition metadata_MarshalBinary :: "FakeIPMetadata \<Rightarrow> nat list" where
  "metadata_MarshalBinary m =
     length_bytes (Prefix_MarshalBinary (md_Inet4Range m)) @ length_bytes (Prefix_MarshalBinary (md_Inet6Range m)) @
     length_bytes (Addr_MarshalBinary (md_Inet4Current m)) @ length_bytes (Addr_MarshalBinary (md_Inet6Current m))"

definition read_field :: "(nat list \<Rightarrow> 'a option) \<Rightarrow> nat list \<Rightarrow> ('a \<times> nat list) option go" where
  "read_field decode bs =
     (if length bs < 2 then Panic (EDriver ''unexpected EOF'')
      else
        (let n = be_nat (take 2 bs); rest = drop 2 bs
         in if length rest < n then Ret None else Ret (map_option (\<lambda>x. (x, drop n rest)) (decode (take n rest)))))"

definition metadata_UnmarshalBinary :: "nat list \<Rightarrow> FakeIPMetadata option go" where
  "metadata_UnmarshalBinary bs =
     go_bind (read_field Prefix_UnmarshalBinary bs) (\<lambda>r. case r of None \<Rightarrow> Ret None | Some (p4, bs) \<Rightarrow>
     go_bind (read_field Prefix_UnmarshalBinary bs) (\<lambda>r. case r of None \<Rightarrow> Ret None | Some (p6, bs) \<Rightarrow>
     go_bind (read_field Addr_UnmarshalBinary bs) (\<lambda>r. case r of None \<Rightarrow> Ret None | Some (a4, bs) \<Rightarrow>
     go_bind (read_field Addr_UnmarshalBinary bs) (\<lambda>r. case r of None \<Rightarrow> Ret None | Some (a6, bs) \<Rightarrow>
       Ret (Some \<lparr>md_Inet4Range = p4, md_Inet6Range = p6, md_Inet4Current = a4, md_Inet6Current = a6\<rparr>)))))"

section \<open>Storages\<close>

text \<open>\<open>adapter.FakeIPStorage\<close>: its operations on a state \<open>'s\<close>.\<close>

record 's fakeip_ops =
  op_Metadata :: "'s \<Rightarrow> FakeIPMetadata option \<times> 's"
  op_SaveMetadata :: "FakeIPMetadata \<Rightarrow> 's \<Rightarrow> 's"
  op_SaveMetadataAsync :: "FakeIPMetadata \<Rightarrow> 's \<Rightarrow> 's"
  op_Store :: "addr \<Rightarrow> string \<Rightarrow> 's \<Rightarrow> go_error option \<times> 's"
  op_Load :: "addr \<Rightarrow> 's \<Rightarrow> string option"
  op_LoadDomain :: "string \<Rightarrow> bool \<Rightarrow> 's \<Rightarrow> addr option"
  op_Reset :: "'s \<Rightarrow> go_error option \<times> 's"

record MemoryStorage =
  addressCache :: "addr \<rightharpoonup> string"
  domainCache4 :: "string \<rightharpoonup> addr"
  domainCache6 :: "string \<rightharpoonup> addr"

definition NewMemoryStorage :: MemoryStorage where
  "NewMemoryStorage = \<lparr>addressCache = Map.empty, domainCache4 = Map.empty, domainCache6 = Map.empty\<rparr>"

definition memory_FakeIPStore :: "addr \<Rightarrow> string \<Rightarrow> MemoryStorage \<Rightarrow> go_error option \<times> MemoryStorage" where
  "memory_FakeIPStore address domain s =
     (let s = (case addressCache s address of
                 None \<Rightarrow> s
               | Some oldDomain \<Rightarrow>
                   if Is4 address then s\<lparr>domainCache4 := (domainCache4 s)(oldDomain := None)\<rparr>
                   else s\<lparr>domainCache6 := (domainCache6 s)(oldDomain := None)\<rparr>);
          s = s\<lparr>addressCache := (addressCache s)(address \<mapsto> domain)\<rparr>
      in (None,
          if Is4 address then s\<lparr>domainCache4 := (domainCache4 s)(domain \<mapsto> address)\<rparr>
          else s\<lparr>domainCache6 := (domainCache6 s)(domain \<mapsto> address)\<rparr>))"

definition memory_FakeIPLoadDomain :: "string \<Rightarrow> bool \<Rightarrow> MemoryStorage \<Rightarrow> addr option" where
  "memory_FakeIPLoadDomain domain isIPv6 s = (if isIPv6 then domainCache6 s domain else domainCache4 s domain)"

definition memory_storage :: "MemoryStorage fakeip_ops" where
  "memory_storage =
     \<lparr>op_Metadata = (\<lambda>s. (None, s)), op_SaveMetadata = (\<lambda>m s. s), op_SaveMetadataAsync = (\<lambda>m s. s),
      op_Store = memory_FakeIPStore, op_Load = (\<lambda>a s. addressCache s a), op_LoadDomain = memory_FakeIPLoadDomain,
      op_Reset = (\<lambda>s. (None, NewMemoryStorage))\<rparr>"

text \<open>
  The cache file: three buckets, the first with the metadata beside the addresses, and the timer of the
  metadata, which keeps the metadata it was made with. Keys and values are byte strings.
\<close>

record fakeip_buckets =
  bucketFakeIP :: "((nat list \<rightharpoonup> string) \<times> nat list option) option"
  bucketFakeIPDomain4 :: "(string \<rightharpoonup> nat list) option"
  bucketFakeIPDomain6 :: "(string \<rightharpoonup> nat list) option"
  saveMetadataTimer :: "FakeIPMetadata option"

definition empty_buckets :: fakeip_buckets where
  "empty_buckets =
     \<lparr>bucketFakeIP = None, bucketFakeIPDomain4 = None, bucketFakeIPDomain6 = None, saveMetadataTimer = None\<rparr>"

text \<open>The metadata is deleted when it is read; a transaction that cannot decode it is undone.\<close>

definition cache_FakeIPMetadata :: "fakeip_buckets \<Rightarrow> FakeIPMetadata option \<times> fakeip_buckets" where
  "cache_FakeIPMetadata s =
     (case bucketFakeIP s of
        Some (addresses, Some metadataBinary) \<Rightarrow>
          if metadataBinary = [] then (None, s)
          else
            (case metadata_UnmarshalBinary metadataBinary of
               Ret (Some m) \<Rightarrow> (Some m, s\<lparr>bucketFakeIP := Some (addresses, None)\<rparr>)
             | Ret None \<Rightarrow> (None, s)
             | Panic e \<Rightarrow> (None, empty_buckets\<lparr>saveMetadataTimer := saveMetadataTimer s\<rparr>))
      | _ \<Rightarrow> (None, s))"

definition fakeip_bucket :: "fakeip_buckets \<Rightarrow> (nat list \<rightharpoonup> string) \<times> nat list option" where
  "fakeip_bucket s = (case bucketFakeIP s of None \<Rightarrow> (Map.empty, None) | Some b \<Rightarrow> b)"

definition cache_FakeIPSaveMetadata :: "FakeIPMetadata \<Rightarrow> fakeip_buckets \<Rightarrow> fakeip_buckets" where
  "cache_FakeIPSaveMetadata m s = s\<lparr>bucketFakeIP := Some (fst (fakeip_bucket s), Some (metadata_MarshalBinary m))\<rparr>"

text \<open>The first call makes the timer with its metadata, later calls only set it back.\<close>

definition cache_FakeIPSaveMetadataAsync :: "FakeIPMetadata \<Rightarrow> fakeip_buckets \<Rightarrow> fakeip_buckets" where
  "cache_FakeIPSaveMetadataAsync m s =
     (if saveMetadataTimer s = None then s\<lparr>saveMetadataTimer := Some m\<rparr> else s)"

definition cache_timer_fires :: "fakeip_buckets \<Rightarrow> fakeip_buckets" where
  "cache_timer_fires s = (case saveMetadataTimer s of None \<Rightarrow> s | Some m \<Rightarrow> cache_FakeIPSaveMetadata m s)"

definition domain_bucket :: "bool \<Rightarrow> fakeip_buckets \<Rightarrow> (string \<rightharpoonup> nat list) option" where
  "domain_bucket isIPv6 s = (if isIPv6 then bucketFakeIPDomain6 s else bucketFakeIPDomain4 s)"

text \<open>A bucket takes no empty key.\<close>

definition cache_FakeIPStore :: "addr \<Rightarrow> string \<Rightarrow> fakeip_buckets \<Rightarrow> go_error option \<times> fakeip_buckets" where
  "cache_FakeIPStore address domain s =
     (let (addresses, metadataBinary) = fakeip_bucket s;
          oldDomain = addresses (AsSlice address);
          domains = (case domain_bucket (\<not> Is4 address) s of None \<Rightarrow> Map.empty | Some b \<Rightarrow> b);
          domains = (case oldDomain of None \<Rightarrow> domains | Some d \<Rightarrow> domains(d := None));
          s' = s\<lparr>bucketFakeIP := Some (addresses(AsSlice address \<mapsto> domain), metadataBinary)\<rparr>;
          domains = domains(domain \<mapsto> AsSlice address)
      in if AsSlice address = [] \<or> domain = '''' then (Some (EDriver ''key required''), s)
         else
           (None,
            if Is4 address then s'\<lparr>bucketFakeIPDomain4 := Some domains\<rparr>
            else s'\<lparr>bucketFakeIPDomain6 := Some domains\<rparr>))"

definition cache_FakeIPLoad :: "addr \<Rightarrow> fakeip_buckets \<Rightarrow> string option" where
  "cache_FakeIPLoad address s =
     (case fst (fakeip_bucket s) (AsSlice address) of
        None \<Rightarrow> None
      | Some domain \<Rightarrow> if domain = '''' then None else Some domain)"

definition cache_FakeIPLoadDomain :: "string \<Rightarrow> bool \<Rightarrow> fakeip_buckets \<Rightarrow> addr option" where
  "cache_FakeIPLoadDomain domain isIPv6 s =
     (case domain_bucket isIPv6 s of
        None \<Rightarrow> None
      | Some b \<Rightarrow>
          (let address = AddrFromIP (case b domain of None \<Rightarrow> [] | Some bs \<Rightarrow> bs)
           in if addr_IsValid address then Some address else None))"

text \<open>\<open>FakeIPReset\<close>: a bucket that is not there cannot be deleted, and then nothing is.\<close>

definition cache_FakeIPReset :: "fakeip_buckets \<Rightarrow> go_error option \<times> fakeip_buckets" where
  "cache_FakeIPReset s =
     (if bucketFakeIP s = None \<or> bucketFakeIPDomain4 s = None \<or> bucketFakeIPDomain6 s = None
      then (Some (EDriver ''bucket not found''), s)
      else (None, s\<lparr>bucketFakeIP := None, bucketFakeIPDomain4 := None, bucketFakeIPDomain6 := None\<rparr>))"

definition cache_storage :: "fakeip_buckets fakeip_ops" where
  "cache_storage =
     \<lparr>op_Metadata = cache_FakeIPMetadata, op_SaveMetadata = cache_FakeIPSaveMetadata,
      op_SaveMetadataAsync = cache_FakeIPSaveMetadataAsync, op_Store = cache_FakeIPStore, op_Load = cache_FakeIPLoad,
      op_LoadDomain = cache_FakeIPLoadDomain, op_Reset = cache_FakeIPReset\<rparr>"

section \<open>The store\<close>

record 's fakeip_store =
  inet4Range :: prefix
  inet6Range :: prefix
  inet4Last :: addr
  inet6Last :: addr
  inet4Current :: addr
  inet6Current :: addr
  fs_storage :: "'s option"

definition NewStore :: "prefix \<Rightarrow> prefix \<Rightarrow> 's fakeip_store" where
  "NewStore range4 range6 =
     \<lparr>inet4Range = range4, inet6Range = range6,
      inet4Last = (if prefix_IsValid range4 then broadcastAddress range4 else NoAddr),
      inet6Last = (if prefix_IsValid range6 then broadcastAddress range6 else NoAddr),
      inet4Current = NoAddr, inet6Current = NoAddr, fs_storage = None\<rparr>"

text \<open>The branch of \<open>Start\<close> that begins with a range; an error of the reset is dropped.\<close>

definition fresh_start :: "'s fakeip_ops \<Rightarrow> 's \<Rightarrow> 's fakeip_store \<Rightarrow> 's fakeip_store" where
  "fresh_start F storage s =
     s\<lparr>inet4Current := (if prefix_IsValid (inet4Range s) then addr_Next (fst (inet4Range s)) else inet4Current s),
       inet6Current := (if prefix_IsValid (inet6Range s) then addr_Next (fst (inet6Range s)) else inet6Current s),
       fs_storage := Some (snd (op_Reset F storage))\<rparr>"

text \<open>\<open>Start\<close> with the storage it picks: the cache file if that keeps fake addresses, else a new memory.\<close>

definition store_Start :: "'s fakeip_ops \<Rightarrow> 's \<Rightarrow> 's fakeip_store \<Rightarrow> 's fakeip_store" where
  "store_Start F storage s =
     (case op_Metadata F storage of
        (metadata, storage) \<Rightarrow>
          (case metadata of
             Some m \<Rightarrow>
               if md_Inet4Range m = inet4Range s \<and> md_Inet6Range m = inet6Range s
               then s\<lparr>inet4Current := md_Inet4Current m, inet6Current := md_Inet6Current m, fs_storage := Some storage\<rparr>
               else fresh_start F storage s
           | None \<Rightarrow> fresh_start F storage s))"

definition store_Contains :: "'s fakeip_store \<Rightarrow> addr \<Rightarrow> bool" where
  "store_Contains s address \<longleftrightarrow> prefix_Contains (inet4Range s) address \<or> prefix_Contains (inet6Range s) address"

definition store_metadata :: "'s fakeip_store \<Rightarrow> FakeIPMetadata" where
  "store_metadata s =
     \<lparr>md_Inet4Range = inet4Range s, md_Inet6Range = inet6Range s, md_Inet4Current = inet4Current s,
      md_Inet6Current = inet6Current s\<rparr>"

definition store_Close :: "'s fakeip_ops \<Rightarrow> 's fakeip_store \<Rightarrow> 's fakeip_store" where
  "store_Close F s = s\<lparr>fs_storage := map_option (op_SaveMetadata F (store_metadata s)) (fs_storage s)\<rparr>"

text \<open>The address after the current one, or the second of the range when that is used up.\<close>

definition next_address :: "prefix \<Rightarrow> addr \<Rightarrow> addr \<Rightarrow> addr" where
  "next_address r final current =
     (let nextAddress = addr_Next current
      in if nextAddress = final \<or> \<not> prefix_Contains r nextAddress then addr_Next (addr_Next (fst r)) else nextAddress)"

definition store_Create :: "'s fakeip_ops \<Rightarrow> string \<Rightarrow> bool \<Rightarrow> 's fakeip_store \<Rightarrow> ((go_error + addr) \<times> 's fakeip_store) go" where
  "store_Create F domain isIPv6 s =
     (case fs_storage s of
        None \<Rightarrow> Panic (EDriver ''nil pointer dereference'')
      | Some storage \<Rightarrow>
          Ret
            (case op_LoadDomain F domain isIPv6 storage of
               Some address \<Rightarrow> (Inr address, s)
             | None \<Rightarrow>
                 if \<not> isIPv6 \<and> \<not> addr_IsValid (inet4Current s) then (Inl (ENew [''missing IPv4 fakeip address range'']), s)
                 else if isIPv6 \<and> \<not> addr_IsValid (inet6Current s) then (Inl (ENew [''missing IPv6 fakeip address range'']), s)
                 else
                   (let address = (if isIPv6 then next_address (inet6Range s) (inet6Last s) (inet6Current s)
                                   else next_address (inet4Range s) (inet4Last s) (inet4Current s));
                        s = (if isIPv6 then s\<lparr>inet6Current := address\<rparr> else s\<lparr>inet4Current := address\<rparr>);
                        storage = snd (op_Store F address domain storage);
                        storage = op_SaveMetadataAsync F (store_metadata s) storage
                    in (Inr address, s\<lparr>fs_storage := Some storage\<rparr>))))"

definition store_Lookup :: "'s fakeip_ops \<Rightarrow> addr \<Rightarrow> 's fakeip_store \<Rightarrow> string option go" where
  "store_Lookup F address s =
     (case fs_storage s of
        None \<Rightarrow> Panic (EDriver ''nil pointer dereference'')
      | Some storage \<Rightarrow> Ret (op_Load F address storage))"

definition store_Reset :: "'s fakeip_ops \<Rightarrow> 's fakeip_store \<Rightarrow> (go_error option \<times> 's fakeip_store) go" where
  "store_Reset F s =
     (case fs_storage s of
        None \<Rightarrow> Panic (EDriver ''nil pointer dereference'')
      | Some storage \<Rightarrow>
          let (err, storage') = op_Reset F storage in Ret (err, s\<lparr>fs_storage := Some storage'\<rparr>))"

definition DefaultDNSTTL :: "32 word" where
  "DefaultDNSTTL = 600"

text \<open>\<open>Transport.Exchange\<close>.\<close>

definition fakeip_Exchange ::
    "('c, 'w) dns_libs \<Rightarrow> 's fakeip_ops \<Rightarrow> dns_Msg \<Rightarrow> 's fakeip_store \<Rightarrow> ((go_error + dns_Msg) \<times> 's fakeip_store) go" where
  "fakeip_Exchange L F message s =
     (case msg_Question message of
        [] \<Rightarrow> Panic (EDriver ''index out of range'')
      | (name, qtype, qclass) # _ \<Rightarrow>
          if qtype \<noteq> TypeA \<and> qtype \<noteq> TypeAAAA then Ret (Inl (ENew [''only IP queries are supported by fakeip'']), s)
          else
            go_bind (store_Create F (FqdnToDomain L name) (qtype = TypeAAAA) s) (\<lambda>(result, s).
              Ret (map_sum id (\<lambda>address. FixedResponse (msg_Id message) (name, qtype, qclass) [address] DefaultDNSTTL) result, s)))"

end
