(* ===== verification/FakeIPSafety.thy ===== *)
theory FakeIPSafety
  imports FakeIP
begin

text \<open>
  What the store of fake addresses promises: an address it hands out lies in its range, is neither the
  first nor the last of it, and leads back to the name it was made for; a restart on the cache file
  keeps the names. The two storages are providers of the interface \<open>fakeip_storage\<close>, and the store is
  its client.
\<close>

section \<open>Bytes of an address\<close>

lemma length_word_bytes [simp]: "length (word_bytes k n) = k"
  by (induction k arbitrary: n) simp_all

lemma be_nat_snoc: "be_nat (bs @ [b]) = be_nat bs * 256 + b"
  by (simp add: be_nat_def)

lemma be_nat_word_bytes: "be_nat (word_bytes k n) = n mod 256 ^ k"
proof (induction k arbitrary: n)
  case 0
  then show ?case by (simp add: be_nat_def)
next
  case (Suc k)
  have "be_nat (word_bytes (Suc k) n) = (n div 256 mod 256 ^ k) * 256 + n mod 256" by (simp add: be_nat_snoc Suc)
  also have "\<dots> = n mod 256 ^ Suc k" by (simp add: mod_mult2_eq mult.commute)
  finally show ?case .
qed

definition zone_free :: "addr \<Rightarrow> bool" where
  "zone_free a = (case a of IPv6 w z \<Rightarrow> z = '''' | _ \<Rightarrow> True)"

lemma AddrFromIP_AsSlice: "zone_free a \<Longrightarrow> AddrFromIP (AsSlice a) = a"
proof (cases a)
  case (IPv4 w)
  have "unat w < 2 ^ 32" using unsigned_less [of w, where ?'a = nat] by simp
  then show ?thesis using IPv4 by (simp add: AddrFromIP_def be_nat_word_bytes del: word_bytes.simps)
next
  case (IPv6 w z)
  have "unat w < 2 ^ 128" using unsigned_less [of w, where ?'a = nat] by simp
  then show "zone_free a \<Longrightarrow> ?thesis"
    using IPv6 by (simp add: zone_free_def AddrFromIP_def be_nat_word_bytes del: word_bytes.simps)
qed (simp add: AddrFromIP_def)

lemma AsSlice_inj: "zone_free a \<Longrightarrow> zone_free b \<Longrightarrow> AsSlice a = AsSlice b \<longleftrightarrow> a = b"
  by (metis AddrFromIP_AsSlice)

lemma AsSlice_Nil [simp]: "AsSlice a = [] \<longleftrightarrow> a = NoAddr"
proof (cases a)
  case (IPv4 w)
  then show ?thesis using length_word_bytes [of 4 "unat w"] by (auto simp del: length_word_bytes)
next
  case (IPv6 w z)
  then show ?thesis using length_word_bytes [of 16 "unat w"] by (auto simp del: length_word_bytes)
qed simp

section \<open>Addresses of a range\<close>

text \<open>A block of \<open>2 ^ k\<close> words that starts at \<open>p\<close>.\<close>

lemma block_iff:
  fixes p a :: "'a::len word"
  assumes "take_bit k p = 0"
  shows "drop_bit k p = drop_bit k a \<longleftrightarrow> unat p \<le> unat a \<and> unat a < unat p + 2 ^ k"
proof -
  have "take_bit k (unat p) = unat (take_bit k p)" by (simp only: unsigned_take_bit_eq)
  then have "take_bit k (unat p) = 0" using assms by simp
  then have "unat p mod 2 ^ k = 0" by (simp only: take_bit_eq_mod)
  then obtain q where q: "unat p = q * 2 ^ k" by (metis dvd_div_mult_self mod_0_imp_dvd)
  have "drop_bit k p = drop_bit k a \<longleftrightarrow> unat p div 2 ^ k = unat a div 2 ^ k"
    by (metis drop_bit_eq_div unat_drop_bit_eq word_unat_eq_iff)
  also have "\<dots> \<longleftrightarrow> unat a div 2 ^ k = q" using q by auto
  also have "\<dots> \<longleftrightarrow> q * 2 ^ k \<le> unat a \<and> unat a < Suc q * 2 ^ k"
    using div_times_less_eq_dividend [of "unat a" "2 ^ k"] dividend_less_div_times [of "2 ^ k" "unat a"]
      div_nat_eqI [of "2 ^ k" q "unat a"]
    by (auto simp: mult.commute)
  finally show ?thesis by (simp add: q add.commute)
qed

text \<open>The range of the store: a masked prefix of one family with at least four addresses, or none.\<close>

fun range_ok :: "bool \<Rightarrow> prefix \<Rightarrow> bool" where
  "range_ok isIPv6 (NoAddr, n) \<longleftrightarrow> n = 0"
| "range_ok isIPv6 (IPv4 p, n) \<longleftrightarrow> \<not> isIPv6 \<and> n \<le> 30 \<and> take_bit (32 - n) p = 0"
| "range_ok isIPv6 (IPv6 p z, n) \<longleftrightarrow> isIPv6 \<and> z = '''' \<and> n \<le> 126 \<and> take_bit (128 - n) p = 0"

text \<open>The words an address of the family \<open>isIPv6\<close> is, and addresses that can be handed out.\<close>

definition usable :: "prefix \<Rightarrow> addr \<Rightarrow> bool" where
  "usable r a \<longleftrightarrow> prefix_Contains r a \<and> a \<noteq> fst r \<and> a \<noteq> broadcastAddress r"

lemma foldl_bits:
  "bit (foldl (\<lambda>raw i. raw OR push_bit (127 - i) 1) (w :: 128 word) [n..<128]) j \<longleftrightarrow> bit w j \<or> (j < 128 - n \<and> j < 128)"
proof -
  have gen: "bit (foldl (\<lambda>raw i. raw OR push_bit (127 - i) 1) (w :: 128 word) xs) j \<longleftrightarrow> bit w j \<or> (\<exists>i \<in> set xs. j = 127 - i \<and> j < 128)" for xs w
    by (induction xs arbitrary: w) (auto simp: bit_or_iff bit_exp_iff)
  have "(\<exists>i \<in> set [n..<128]. j = 127 - i \<and> j < 128) \<longleftrightarrow> j < 128 - n \<and> j < 128"
    by (auto intro!: bexI [of _ "127 - j"])
  then show ?thesis by (simp only: gen)
qed

lemma broadcast4: "n \<le> 32 \<Longrightarrow> broadcastAddress (IPv4 p, n) = IPv4 (p OR mask (32 - n))"
proof -
  assume n: "n \<le> 32"
  let ?raw = "foldl (\<lambda>raw i. raw OR push_bit (127 - i) 1) (As16 (IPv4 p)) [n + 96..<128]"
  have "ucast ?raw = p OR mask (32 - n)"
  proof (rule bit_word_eqI)
    fix j assume "j < LENGTH(32)"
    then have j: "j < 32" by simp
    then have "bit (As16 (IPv4 p)) j = bit p j" by (simp only: As16.simps bit_or_iff bit_push_bit_iff bit_unsigned_iff) simp
    then have "bit ?raw j \<longleftrightarrow> bit p j \<or> j < 32 - n" using j n by (simp only: foldl_bits) auto
    then show "bit (ucast ?raw :: 32 word) j = bit (p OR mask (32 - n)) j"
      using j by (simp add: bit_unsigned_iff bit_or_iff bit_mask_iff)
  qed
  then show ?thesis by (simp add: broadcastAddress_def)
qed

lemma broadcast6: "broadcastAddress (IPv6 p z, n) = IPv6 (p OR mask (128 - n)) ''''"
proof -
  have "foldl (\<lambda>raw i. raw OR push_bit (127 - i) 1) p [n..<128] = p OR mask (128 - n)"
    by (rule bit_word_eqI) (simp only: foldl_bits bit_or_iff bit_mask_iff, simp)
  then show ?thesis by (simp add: broadcastAddress_def)
qed

lemma or_mask_unat:
  fixes p :: "'a::len word"
  assumes "take_bit k p = 0" "k \<le> LENGTH('a)"
  shows "unat (p OR mask k) = unat p + (2 ^ k - 1)"
proof -
  have "unat p AND unat (mask k :: 'a word) = unat (p AND mask k)" by (simp only: unsigned_and_eq)
  also have "\<dots> = 0" using assms(1) by (simp add: take_bit_eq_mask)
  finally have "unat p OR unat (mask k :: 'a word) = unat p + unat (mask k :: 'a word)" by (simp only: disjunctive_add_eq_or)
  moreover have "unat (mask k :: 'a word) = mask k"
    using assms(2) by (intro bit_eqI) (auto simp: bit_unsigned_iff bit_mask_iff)
  then have "unat (mask k :: 'a word) = 2 ^ k - 1" by (simp only: mask_eq_exp_minus_1)
  ultimately show ?thesis by (simp only: unsigned_or_eq)
qed

text \<open>The words that are neither the first nor the last of a block of at least four, and the one after.\<close>

definition inner :: "nat \<Rightarrow> 'a::len word \<Rightarrow> 'a word \<Rightarrow> bool" where
  "inner k p a \<longleftrightarrow> unat p < unat a \<and> unat a < unat p + (2 ^ k - 1)"

lemma block_bound:
  fixes p :: "'a::len word"
  assumes "take_bit k p = 0" "k \<le> LENGTH('a)"
  shows "unat p + (2 ^ k - 1) < 2 ^ LENGTH('a)"
  using or_mask_unat [OF assms] unsigned_less [of "p OR mask k", where ?'a = nat] by simp

lemma inner_third:
  fixes p :: "'a::len word"
  assumes "take_bit k p = 0" "2 \<le> k" "k \<le> LENGTH('a)"
  shows "inner k p (p + 1 + 1)" and "p + 1 \<noteq> 0" and "p + 1 + 1 \<noteq> 0" and "unat (p + 1) = unat p + 1"
proof -
  have "(4 :: nat) \<le> 2 ^ k" using power_increasing [OF assms(2), of "2 :: nat"] by simp
  then have b: "unat p + 3 < 2 ^ LENGTH('a)" using block_bound [OF assms(1,3)] by linarith
  then show 1: "unat (p + 1) = unat p + 1" by (simp add: unat_word_ariths)
  have 2: "unat (p + 1 + 1) = unat p + 2" using b 1 unat_word_ariths(1) [of "p + 1" 1] by simp
  show "p + 1 \<noteq> 0" using 1 by auto
  show "p + 1 + 1 \<noteq> 0" using 2 by auto
  show "inner k p (p + 1 + 1)" using 2 \<open>4 \<le> 2 ^ k\<close> by (simp add: inner_def)
qed

lemma inner_next:
  fixes p a :: "'a::len word"
  assumes "take_bit k p = 0" "2 \<le> k" "k \<le> LENGTH('a)" "unat p < unat a" "unat a < unat p + (2 ^ k - 1)"
    "a + 1 \<noteq> p OR mask k"
  shows "inner k p (a + 1)" and "a + 1 \<noteq> 0"
proof -
  have "unat a + 1 < 2 ^ LENGTH('a)" using block_bound [OF assms(1,3)] assms(5) by linarith
  then have 1: "unat (a + 1) = unat a + 1" by (simp add: unat_word_ariths)
  then show "a + 1 \<noteq> 0" by auto
  have "unat (a + 1) \<noteq> unat p + (2 ^ k - 1)" using assms(6) or_mask_unat [OF assms(1,3)] by (metis word_unat_eq_iff)
  then show "inner k p (a + 1)" using 1 assms(4,5) by (simp add: inner_def)
qed

lemma inner_iff:
  fixes p a :: "'a::len word"
  assumes "take_bit k p = 0" "k \<le> LENGTH('a)"
  shows "drop_bit k p = drop_bit k a \<and> a \<noteq> p \<and> a \<noteq> p OR mask k \<longleftrightarrow> inner k p a"
proof -
  have "a \<noteq> p \<longleftrightarrow> unat a \<noteq> unat p" by (simp only: word_unat_eq_iff)
  moreover have "a \<noteq> p OR mask k \<longleftrightarrow> unat a \<noteq> unat p + (2 ^ k - 1)"
    by (simp only: word_unat_eq_iff or_mask_unat [OF assms])
  moreover have "(1 :: nat) \<le> 2 ^ k" by simp
  ultimately show ?thesis unfolding block_iff [OF assms(1)] inner_def by linarith
qed

lemma usable4: "n \<le> 30 \<Longrightarrow> take_bit (32 - n) p = 0 \<Longrightarrow> usable (IPv4 p, n) (IPv4 a) \<longleftrightarrow> inner (32 - n) p a"
  using inner_iff [of "32 - n" p a] by (simp add: usable_def broadcast4)

lemma usable6:
  "n \<le> 126 \<Longrightarrow> take_bit (128 - n) p = 0 \<Longrightarrow> usable (IPv6 p '''', n) (IPv6 a z) \<longleftrightarrow> inner (128 - n) p a \<and> z = ''''"
  using inner_iff [of "128 - n" p a] by (auto simp: usable_def broadcast6)

lemma usable_family: "range_ok isIPv6 r \<Longrightarrow> usable r a \<Longrightarrow> Is6 a = isIPv6 \<and> Is4 a = (\<not> isIPv6) \<and> addr_IsValid a \<and> zone_free a"
  by (cases "(r, a)" rule: prefix_Contains.cases) (auto simp: usable_def addr_IsValid_def zone_free_def)

lemma next_usable:
  assumes "range_ok isIPv6 r" and "usable r current"
  shows "usable r (next_address r (broadcastAddress r) current)"
proof (cases "(r, current)" rule: prefix_Contains.cases)
  case (1 p n a)
  then have ok: "n \<le> 30" "take_bit (32 - n) p = 0" using assms(1) by simp_all
  have k: "2 \<le> 32 - n" "32 - n \<le> LENGTH(32)" using ok(1) by simp_all
  have "inner (32 - n) p a" using assms(2) 1 usable4 [OF ok] by simp
  then have in': "inner (32 - n) p (a + 1)" "a + 1 \<noteq> 0" if "a + 1 \<noteq> p OR mask (32 - n)"
    using inner_next [OF ok(2) k] that by (simp_all add: inner_def)
  have third: "addr_Next (addr_Next (IPv4 p)) = IPv4 (p + 1 + 1)" "inner (32 - n) p (p + 1 + 1)"
    using inner_third [OF ok(2) k] by simp_all
  show ?thesis
    using 1 ok in' third usable4 [OF ok] by (auto simp: next_address_def Let_def broadcast4 usable_def)
next
  case (2 p y n a z)
  then have ok: "n \<le> 126" "take_bit (128 - n) p = 0" and y: "y = ''''" using assms(1) by simp_all
  have k: "2 \<le> 128 - n" "128 - n \<le> LENGTH(128)" using ok(1) by simp_all
  have a: "inner (128 - n) p a" "z = ''''" using assms(2) 2 usable6 [OF ok] y by simp_all
  then have in': "inner (128 - n) p (a + 1)" "a + 1 \<noteq> 0" if "a + 1 \<noteq> p OR mask (128 - n)"
    using inner_next [OF ok(2) k] that by (simp_all add: inner_def)
  have third: "addr_Next (addr_Next (IPv6 p '''')) = IPv6 (p + 1 + 1) ''''" "inner (128 - n) p (p + 1 + 1)"
    using inner_third [OF ok(2) k] by simp_all
  show ?thesis
    using 2 ok in' third usable6 [OF ok] a y by (auto simp: next_address_def Let_def broadcast6 usable_def)
qed (use assms(2) in \<open>auto simp: usable_def\<close>)

lemma first_usable:
  assumes "range_ok isIPv6 r" and "prefix_IsValid r"
  shows "usable r (addr_Next (fst r))"
proof (cases r)
  case (Pair b n)
  show ?thesis
  proof (cases b)
    case (IPv4 p)
    then have ok: "n \<le> 30" "take_bit (32 - n) p = 0" using assms(1) Pair by simp_all
    have k: "2 \<le> 32 - n" "32 - n \<le> LENGTH(32)" using ok(1) by simp_all
    have "(4 :: nat) \<le> 2 ^ (32 - n)" using power_increasing [OF k(1), of "2 :: nat"] by simp
    then show ?thesis
      using usable4 [OF ok, of "p + 1"] inner_third [OF ok(2) k] IPv4 Pair by (simp add: inner_def)
  next
    case (IPv6 p z)
    then have ok: "n \<le> 126" "take_bit (128 - n) p = 0" and z: "z = ''''" using assms(1) Pair by simp_all
    have k: "2 \<le> 128 - n" "128 - n \<le> LENGTH(128)" using ok(1) by simp_all
    have "(4 :: nat) \<le> 2 ^ (128 - n)" using power_increasing [OF k(1), of "2 :: nat"] by simp
    then show ?thesis
      using usable6 [OF ok, of "p + 1"] inner_third [OF ok(2) k] IPv6 Pair z by (simp add: inner_def)
  qed (use assms(2) Pair in \<open>simp add: prefix_IsValid_def addr_IsValid_def\<close>)
qed

section \<open>The interface of a storage\<close>

definition storable :: "addr \<Rightarrow> string \<Rightarrow> bool" where
  "storable a d \<longleftrightarrow> zone_free a \<and> addr_IsValid a \<and> d \<noteq> ''''"

text \<open>The store: ranges and positions that fit, and a storage with addresses of the ranges only.\<close>

definition family_ok :: "bool \<Rightarrow> prefix \<Rightarrow> addr \<Rightarrow> addr \<Rightarrow> bool" where
  "family_ok v6 r final current \<longleftrightarrow>
     range_ok v6 r \<and>
     (if prefix_IsValid r then final = broadcastAddress r \<and> usable r current else final = NoAddr \<and> current = NoAddr)"

definition storage_ok :: "'s fakeip_ops \<Rightarrow> ('s \<Rightarrow> bool) \<Rightarrow> prefix \<Rightarrow> prefix \<Rightarrow> 's \<Rightarrow> bool" where
  "storage_ok F good r4 r6 st \<longleftrightarrow>
     good st \<and> (\<forall>d v6 a. op_LoadDomain F d v6 st = Some a \<longrightarrow> usable (if v6 then r6 else r4) a)"

definition store_ok :: "'s fakeip_ops \<Rightarrow> ('s \<Rightarrow> bool) \<Rightarrow> 's fakeip_store \<Rightarrow> bool" where
  "store_ok F good s \<longleftrightarrow>
     family_ok False (inet4Range s) (inet4Last s) (inet4Current s) \<and>
     family_ok True (inet6Range s) (inet6Last s) (inet6Current s) \<and>
     (\<exists>st. fs_storage s = Some st \<and> storage_ok F good (inet4Range s) (inet6Range s) st)"

locale fakeip_storage =
  fixes F :: "'s fakeip_ops" and good :: "'s \<Rightarrow> bool"
  assumes store_good: "good st \<Longrightarrow> storable a d \<Longrightarrow> good (snd (op_Store F a d st))"
    and store_load:
      "good st \<Longrightarrow> storable a d \<Longrightarrow> zone_free b \<Longrightarrow>
       op_Load F b (snd (op_Store F a d st)) = (if b = a then Some d else op_Load F b st)"
    and store_domain:
      "good st \<Longrightarrow> storable a d \<Longrightarrow>
       op_LoadDomain F e v6 (snd (op_Store F a d st)) =
         (if v6 = Is6 a \<and> e = d then Some a
          else if v6 = Is6 a \<and> op_Load F a st = Some e then None
          else op_LoadDomain F e v6 st)"
    and load_back:
      "good st \<Longrightarrow> op_LoadDomain F d v6 st = Some a \<Longrightarrow> op_Load F a st = Some d \<and> Is6 a = v6 \<and> zone_free a"
    and async_good: "good (op_SaveMetadataAsync F m st) \<longleftrightarrow> good st"
    and async_load: "op_Load F a (op_SaveMetadataAsync F m st) = op_Load F a st"
    and async_domain: "op_LoadDomain F d v6 (op_SaveMetadataAsync F m st) = op_LoadDomain F d v6 st"
begin

lemma storage_ok_store:
  assumes "storage_ok F good r4 r6 st" "usable (if v6 then r6 else r4) a" "range_ok False r4" "range_ok True r6" "d \<noteq> ''''"
  shows "storage_ok F good r4 r6 (op_SaveMetadataAsync F m (snd (op_Store F a d st)))"
proof -
  have a: "storable a d" "Is6 a = v6"
    using usable_family [of v6 "if v6 then r6 else r4" a] assms by (auto simp: storable_def split: if_splits)
  have good: "good st" using assms(1) by (simp add: storage_ok_def)
  have "usable (if v then r6 else r4) b" if "op_LoadDomain F e v (snd (op_Store F a d st)) = Some b" for e v b
    using that assms(1,2) a(2) by (auto simp: store_domain [OF good a(1)] storage_ok_def split: if_splits)
  then show ?thesis using store_good [OF good a(1)] by (simp add: storage_ok_def async_good async_domain)
qed

lemma create_new:
  assumes ok: "store_ok F good s" and d: "domain \<noteq> ''''" and st: "fs_storage s = Some st"
    and none: "op_LoadDomain F domain v6 st = None"
    and valid: "prefix_IsValid (if v6 then inet6Range s else inet4Range s)"
  shows "\<exists>a s'. store_Create F domain v6 s = Ret (Inr a, s') \<and> store_ok F good s' \<and> inet4Range s' = inet4Range s \<and>
    inet6Range s' = inet6Range s \<and> usable (if v6 then inet6Range s else inet4Range s) a \<and>
    (\<exists>m. fs_storage s' = Some (op_SaveMetadataAsync F m (snd (op_Store F a domain st))))"
proof -
  let ?r = "if v6 then inet6Range s else inet4Range s"
  let ?c = "if v6 then inet6Current s else inet4Current s"
  let ?a = "next_address ?r (if v6 then inet6Last s else inet4Last s) ?c"
  let ?s = "if v6 then s\<lparr>inet6Current := ?a\<rparr> else s\<lparr>inet4Current := ?a\<rparr>"
  have fam: "family_ok False (inet4Range s) (inet4Last s) (inet4Current s)"
    "family_ok True (inet6Range s) (inet6Last s) (inet6Current s)"
    and sto: "storage_ok F good (inet4Range s) (inet6Range s) st" using ok st by (auto simp: store_ok_def)
  have f: "family_ok v6 ?r (if v6 then inet6Last s else inet4Last s) ?c" using fam by (cases v6) simp_all
  then have u: "usable ?r ?c" "range_ok v6 ?r" and l: "(if v6 then inet6Last s else inet4Last s) = broadcastAddress ?r"
    using valid by (simp_all add: family_ok_def)
  have a: "usable ?r ?a" unfolding l by (rule next_usable [OF u(2,1)])
  have c: "addr_IsValid ?c" using usable_family [OF u(2,1)] by simp
  have "store_Create F domain v6 s =
      Ret (Inr ?a, ?s\<lparr>fs_storage := Some (op_SaveMetadataAsync F (store_metadata ?s) (snd (op_Store F ?a domain st)))\<rparr>)"
    using st none c by (cases v6) (simp_all add: store_Create_def Let_def)
  moreover have "storage_ok F good (inet4Range s) (inet6Range s) (op_SaveMetadataAsync F (store_metadata ?s) (snd (op_Store F ?a domain st)))"
    using storage_ok_store [OF sto _ _ _ d, of v6 ?a] a fam by (simp add: family_ok_def)
  moreover have "family_ok v6 ?r (if v6 then inet6Last s else inet4Last s) ?a" using f a valid by (simp add: family_ok_def)
  ultimately show ?thesis using fam a by (cases v6) (auto simp: store_ok_def)
qed

text \<open>Addresses lead back to their names, and a name keeps its address until that is handed out again.\<close>

lemma create_lookup:
  assumes ok: "store_ok F good s" and d: "domain \<noteq> ''''" and c: "store_Create F domain v6 s = Ret (Inr a, s')"
  shows "store_ok F good s'" and "usable (if v6 then inet6Range s else inet4Range s) a" and "Is6 a = v6"
    and "store_Lookup F a s' = Ret (Some domain)" and "store_Create F domain v6 s' = Ret (Inr a, s')"
    and "zone_free b \<Longrightarrow> b \<noteq> a \<Longrightarrow> store_Lookup F b s' = store_Lookup F b s"
proof -
  obtain st where st: "fs_storage s = Some st" and sto: "storage_ok F good (inet4Range s) (inet6Range s) st"
    and ranges: "range_ok False (inet4Range s)" "range_ok True (inet6Range s)"
    using ok by (auto simp: store_ok_def family_ok_def)
  have good: "good st" using sto by (simp add: storage_ok_def)
  have "store_ok F good s' \<and> usable (if v6 then inet6Range s else inet4Range s) a \<and> Is6 a = v6 \<and>
    store_Lookup F a s' = Ret (Some domain) \<and> store_Create F domain v6 s' = Ret (Inr a, s') \<and>
    (zone_free b \<longrightarrow> b \<noteq> a \<longrightarrow> store_Lookup F b s' = store_Lookup F b s)"
  proof (cases "op_LoadDomain F domain v6 st")
    case (Some address)
    then have [simp]: "address = a" "s' = s" using c st by (simp_all add: store_Create_def)
    have "usable (if v6 then inet6Range s else inet4Range s) address" using sto Some unfolding storage_ok_def by blast
    then show ?thesis using load_back [OF good Some] ok st c by (simp add: store_Lookup_def)
  next
    case None
    have valid: "prefix_IsValid (if v6 then inet6Range s else inet4Range s)"
    proof (rule ccontr)
      assume "\<not> ?thesis"
      then have "(if v6 then inet6Current s else inet4Current s) = NoAddr"
        using ok by (auto simp: store_ok_def family_ok_def split: if_splits)
      then show False using c st None by (cases v6) (simp_all add: store_Create_def addr_IsValid_def)
    qed
    from create_new [OF ok d st None valid] c obtain m where
      s': "store_ok F good s'" "usable (if v6 then inet6Range s else inet4Range s) a"
      "fs_storage s' = Some (op_SaveMetadataAsync F m (snd (op_Store F a domain st)))" by auto
    have a: "storable a domain" "Is6 a = v6"
      using usable_family [of v6 "if v6 then inet6Range s else inet4Range s" a] s'(2) ranges d
      by (auto simp: storable_def split: if_splits)
    have "store_Lookup F a s' = Ret (Some domain)"
      using s'(3) a by (simp add: store_Lookup_def async_load store_load [OF good a(1)] storable_def)
    moreover have "store_Create F domain v6 s' = Ret (Inr a, s')"
      using s'(3) a by (simp add: store_Create_def async_domain store_domain [OF good a(1)])
    moreover have "zone_free b \<longrightarrow> b \<noteq> a \<longrightarrow> store_Lookup F b s' = store_Lookup F b s"
      using s'(3) st by (simp add: store_Lookup_def async_load store_load [OF good a(1)])
    ultimately show ?thesis using s'(1,2) a(2) by blast
  qed
  then show "store_ok F good s'" "usable (if v6 then inet6Range s else inet4Range s) a" "Is6 a = v6"
    "store_Lookup F a s' = Ret (Some domain)" "store_Create F domain v6 s' = Ret (Inr a, s')"
    "zone_free b \<Longrightarrow> b \<noteq> a \<Longrightarrow> store_Lookup F b s' = store_Lookup F b s"
    by blast+
qed

end

section \<open>The storage in memory\<close>

definition memory_good :: "MemoryStorage \<Rightarrow> bool" where
  "memory_good s \<longleftrightarrow>
     (\<forall>d a. domainCache4 s d = Some a \<longrightarrow> addressCache s a = Some d \<and> Is4 a) \<and>
     (\<forall>d a. domainCache6 s d = Some a \<longrightarrow> addressCache s a = Some d \<and> Is6 a \<and> zone_free a)"

lemma valid_family: "addr_IsValid a \<Longrightarrow> Is4 a \<longleftrightarrow> \<not> Is6 a"
  by (cases a) (simp_all add: addr_IsValid_def)

lemma Is4_zone_free: "Is4 a \<Longrightarrow> zone_free a \<and> \<not> Is6 a"
  by (cases a) (simp_all add: zone_free_def)

interpretation memory: fakeip_storage memory_storage memory_good
proof (unfold_locales, goal_cases)
  case (1 st a d)
  then have "Is4 a \<longleftrightarrow> \<not> Is6 a" by (simp add: storable_def valid_family)
  with 1 show ?case
    by (cases "addressCache st a"; cases "Is4 a")
       (auto simp: memory_storage_def memory_FakeIPStore_def Let_def memory_good_def storable_def split: if_splits)
next
  case (2 st a d b)
  then show ?case
    by (cases "addressCache st a") (simp_all add: memory_storage_def memory_FakeIPStore_def Let_def)
next
  case (3 st a d e v6)
  then have "Is4 a \<longleftrightarrow> \<not> Is6 a" by (simp add: storable_def valid_family)
  with 3 show ?case
    by (cases "addressCache st a"; cases "Is4 a"; cases v6)
       (auto simp: memory_storage_def memory_FakeIPStore_def memory_FakeIPLoadDomain_def Let_def)
next
  case (4 st d v6 a)
  then show ?case
    using Is4_zone_free by (auto simp: memory_storage_def memory_FakeIPLoadDomain_def memory_good_def split: if_splits)
qed (simp_all add: memory_storage_def)

section \<open>The storage in the cache file\<close>

definition cache_addresses :: "fakeip_buckets \<Rightarrow> nat list \<rightharpoonup> string" where
  "cache_addresses s = fst (fakeip_bucket s)"

definition cache_domains :: "bool \<Rightarrow> fakeip_buckets \<Rightarrow> string \<rightharpoonup> nat list" where
  "cache_domains v6 s = (case domain_bucket v6 s of None \<Rightarrow> Map.empty | Some b \<Rightarrow> b)"

definition cache_good :: "fakeip_buckets \<Rightarrow> bool" where
  "cache_good s \<longleftrightarrow>
     (\<forall>bs. cache_addresses s bs \<noteq> Some '''') \<and>
     (\<forall>v6 d bs. cache_domains v6 s d = Some bs \<longrightarrow>
        (\<exists>a. bs = AsSlice a \<and> zone_free a \<and> addr_IsValid a \<and> Is6 a = v6) \<and> cache_addresses s bs = Some d)"

text \<open>What a save leaves in the buckets.\<close>

lemma cache_store:
  assumes "storable a d"
  shows "cache_addresses (snd (cache_FakeIPStore a d s)) = (cache_addresses s)(AsSlice a \<mapsto> d)"
    and "cache_domains v6 (snd (cache_FakeIPStore a d s)) =
      (if v6 = Is6 a then
         (case cache_addresses s (AsSlice a) of
            None \<Rightarrow> cache_domains v6 s
          | Some e \<Rightarrow> (cache_domains v6 s)(e := None))(d \<mapsto> AsSlice a)
       else cache_domains v6 s)"
proof -
  have a: "a \<noteq> NoAddr" "d \<noteq> ''''" "Is4 a \<longleftrightarrow> \<not> Is6 a"
    using assms by (simp_all add: storable_def addr_IsValid_def valid_family)
  obtain addresses md where b: "fakeip_bucket s = (addresses, md)" by force
  show "cache_addresses (snd (cache_FakeIPStore a d s)) = (cache_addresses s)(AsSlice a \<mapsto> d)"
    using a b by (simp add: cache_FakeIPStore_def Let_def cache_addresses_def) (simp add: fakeip_bucket_def)
  show "cache_domains v6 (snd (cache_FakeIPStore a d s)) =
      (if v6 = Is6 a then
         (case cache_addresses s (AsSlice a) of
            None \<Rightarrow> cache_domains v6 s
          | Some e \<Rightarrow> (cache_domains v6 s)(e := None))(d \<mapsto> AsSlice a)
       else cache_domains v6 s)"
    using a b
    by (cases v6; cases "Is6 a")
       (auto simp: cache_FakeIPStore_def Let_def domain_bucket_def cache_domains_def cache_addresses_def split: option.split)
qed

lemma cache_good_store:
  assumes good: "cache_good s" and "storable a d"
  shows "cache_good (snd (cache_FakeIPStore a d s))"
proof -
  let ?s = "snd (cache_FakeIPStore a d s)"
  have a: "zone_free a" "addr_IsValid a" "d \<noteq> ''''" using assms(2) by (simp_all add: storable_def)
  have "(\<exists>a. bs = AsSlice a \<and> zone_free a \<and> addr_IsValid a \<and> Is6 a = v6) \<and> cache_addresses ?s bs = Some e"
    if e: "cache_domains v6 ?s e = Some bs" for v6 e bs
  proof (cases "v6 = Is6 a \<and> e = d")
    case True
    then have "bs = AsSlice a" using e by (simp add: cache_store(2) [OF assms(2)])
    then show ?thesis using a True by (auto simp: cache_store(1) [OF assms(2)])
  next
    case False
    then have e': "cache_domains v6 s e = Some bs" "v6 = Is6 a \<Longrightarrow> cache_addresses s (AsSlice a) \<noteq> Some e"
      using e by (auto simp: cache_store(2) [OF assms(2)] split: if_splits option.splits)
    then obtain a' where a': "bs = AsSlice a'" "zone_free a'" "addr_IsValid a'" "Is6 a' = v6" "cache_addresses s bs = Some e"
      using good unfolding cache_good_def by blast
    then have "bs \<noteq> AsSlice a" using e'(2) AsSlice_inj [OF a'(2) a(1)] by auto
    then show ?thesis using a' by (auto simp: cache_store(1) [OF assms(2)])
  qed
  moreover have "cache_addresses ?s bs \<noteq> Some ''''" for bs
    using good a(3) by (simp add: cache_store(1) [OF assms(2)] cache_good_def)
  ultimately show ?thesis unfolding cache_good_def by blast
qed

lemma cache_load: "cache_good s \<Longrightarrow> cache_FakeIPLoad a s = cache_addresses s (AsSlice a)"
  by (cases "cache_addresses s (AsSlice a)") (auto simp: cache_FakeIPLoad_def cache_good_def cache_addresses_def)

lemma cache_load_domain:
  assumes "cache_good s"
  shows "cache_FakeIPLoadDomain d v6 s = map_option AddrFromIP (cache_domains v6 s d)"
proof (cases "cache_domains v6 s d")
  case None
  then show ?thesis
    by (auto simp: cache_FakeIPLoadDomain_def cache_domains_def AddrFromIP_def addr_IsValid_def split: option.splits)
next
  case (Some bs)
  then obtain a where "bs = AsSlice a" "zone_free a" "addr_IsValid a" using assms unfolding cache_good_def by blast
  then show ?thesis
    using Some AddrFromIP_AsSlice [of a] by (auto simp: cache_FakeIPLoadDomain_def cache_domains_def split: option.splits)
qed

lemma cache_timer_fields:
  "cache_addresses (s\<lparr>saveMetadataTimer := t\<rparr>) = cache_addresses s"
  "cache_domains v6 (s\<lparr>saveMetadataTimer := t\<rparr>) = cache_domains v6 s"
  by (simp_all add: cache_addresses_def fakeip_bucket_def cache_domains_def domain_bucket_def)

interpretation cachefile: fakeip_storage cache_storage cache_good
proof (unfold_locales, goal_cases)
  case (1 st a d)
  then show ?case by (simp add: cache_storage_def cache_good_store)
next
  case (2 st a d b)
  then show ?case
    using cache_good_store AsSlice_inj [of b a]
    by (simp add: cache_storage_def cache_load cache_store(1) storable_def)
next
  case (3 st a d e v6)
  then have "zone_free a" "cache_good (snd (cache_FakeIPStore a d st))" by (simp_all add: storable_def cache_good_store)
  with 3 show ?case
    by (auto simp: cache_storage_def cache_load cache_load_domain cache_store(2) AddrFromIP_AsSlice split: option.split)
next
  case (4 st d v6 a)
  then obtain bs where "cache_domains v6 st d = Some bs" "a = AddrFromIP bs"
    by (auto simp: cache_storage_def cache_load_domain)
  moreover from this 4 obtain a' where "bs = AsSlice a'" "zone_free a'" "Is6 a' = v6" "cache_addresses st bs = Some d"
    unfolding cache_good_def by blast
  ultimately show ?case using 4 by (simp add: cache_storage_def cache_load AddrFromIP_AsSlice)
qed (simp_all add: cache_storage_def cache_FakeIPSaveMetadataAsync_def cache_good_def cache_timer_fields cache_FakeIPLoad_def
       cache_FakeIPLoadDomain_def domain_bucket_def fakeip_bucket_def)

section \<open>Metadata\<close>

lemma read_length_bytes:
  assumes "length bs < 2 ^ 16"
  shows "read_field decode (length_bytes bs @ rest) = Ret (map_option (\<lambda>x. (x, rest)) (decode bs))"
  using assms by (simp add: read_field_def length_bytes_def be_nat_word_bytes Let_def del: word_bytes.simps)

lemma length_AsSlice: "length (AsSlice a) \<in> {0, 4, 16}"
  by (cases a) (simp_all del: word_bytes.simps)

lemma Addr_roundtrip: "zone_free a \<Longrightarrow> Addr_UnmarshalBinary (Addr_MarshalBinary a) = Some a"
  using length_AsSlice [of a] AddrFromIP_AsSlice [of a] by (auto simp: Addr_UnmarshalBinary_def Addr_MarshalBinary_def)

definition prefix_ok :: "prefix \<Rightarrow> bool" where
  "prefix_ok p \<longleftrightarrow> p = no_prefix \<or> prefix_IsValid p \<and> zone_free (fst p) \<and> snd p \<le> addr_BitLen (fst p)"

lemma Prefix_roundtrip:
  assumes "prefix_ok p"
  shows "Prefix_UnmarshalBinary (Prefix_MarshalBinary p) = Some p"
proof -
  obtain a n where p: "p = (a, n)" by force
  have "zone_free a" using assms p by (auto simp: prefix_ok_def no_prefix_def zone_free_def)
  then have a: "Addr_UnmarshalBinary (AsSlice a) = Some a" using Addr_roundtrip by (simp add: Addr_MarshalBinary_def)
  show ?thesis
  proof (cases "p = no_prefix")
    case True
    then show ?thesis using a p
      by (simp add: Prefix_UnmarshalBinary_def Prefix_MarshalBinary_def no_prefix_def)
  next
    case False
    then have "a \<noteq> NoAddr" "n \<le> addr_BitLen a" using assms p by (simp_all add: prefix_ok_def prefix_IsValid_def addr_IsValid_def)
    then show ?thesis using a p
      by (simp add: Prefix_UnmarshalBinary_def Prefix_MarshalBinary_def prefix_IsValid_def addr_IsValid_def)
  qed
qed

definition metadata_ok :: "FakeIPMetadata \<Rightarrow> bool" where
  "metadata_ok m \<longleftrightarrow>
     prefix_ok (md_Inet4Range m) \<and> prefix_ok (md_Inet6Range m) \<and> zone_free (md_Inet4Current m) \<and> zone_free (md_Inet6Current m)"

lemma metadata_roundtrip:
  assumes "metadata_ok m"
  shows "metadata_UnmarshalBinary (metadata_MarshalBinary m) = Ret (Some m)"
proof -
  have p: "length (Prefix_MarshalBinary p) < 2 ^ 16" for p
    using length_AsSlice [of "fst p"] by (auto simp: Prefix_MarshalBinary_def)
  have a: "length (Addr_MarshalBinary a) < 2 ^ 16" for a
    using length_AsSlice [of a] by (auto simp: Addr_MarshalBinary_def)
  have last: "read_field decode (length_bytes bs) = Ret (map_option (\<lambda>x. (x, [])) (decode bs))" if "length bs < 2 ^ 16"
    for decode :: "nat list \<Rightarrow> addr option" and bs
    using read_length_bytes [OF that, of decode "[]"] by simp
  show ?thesis
    using assms
    by (simp add: metadata_UnmarshalBinary_def metadata_MarshalBinary_def read_length_bytes [OF p] read_length_bytes [OF a]
        last [OF a] Prefix_roundtrip Addr_roundtrip metadata_ok_def)
qed

section \<open>Starting\<close>

lemma range_prefix_ok: "range_ok v6 r \<Longrightarrow> prefix_ok r"
  by (cases "(v6, r)" rule: range_ok.cases)
     (auto simp: prefix_ok_def no_prefix_def prefix_IsValid_def addr_IsValid_def zone_free_def addr_BitLen_def)

lemma family_zone_free: "family_ok v6 r final current \<Longrightarrow> zone_free current"
  using usable_family [of v6 r current] by (auto simp: family_ok_def zone_free_def split: if_splits)

text \<open>A start without saved metadata: on a new memory, and on a cache file whose reset succeeds or that is new.\<close>

lemma fresh_start_ok:
  assumes "range_ok False r4" "range_ok True r6" "storage_ok F good r4 r6 (snd (op_Reset F st))"
  shows "store_ok F good (fresh_start F st (NewStore r4 r6))"
  using assms first_usable [OF assms(1)] first_usable [OF assms(2)]
  by (auto simp: store_ok_def fresh_start_def NewStore_def family_ok_def)

lemma memory_starts:
  assumes "range_ok False r4" "range_ok True r6"
  shows "store_ok memory_storage memory_good (store_Start memory_storage st (NewStore r4 r6))"
proof -
  have "storage_ok memory_storage memory_good r4 r6 (snd (op_Reset memory_storage st))"
    by (simp add: storage_ok_def memory_storage_def memory_good_def NewMemoryStorage_def memory_FakeIPLoadDomain_def)
  from fresh_start_ok [OF assms this] show ?thesis by (simp add: store_Start_def memory_storage_def)
qed

lemma cache_empty_ok:
  assumes "bucketFakeIP st = None" "bucketFakeIPDomain4 st = None" "bucketFakeIPDomain6 st = None"
  shows "storage_ok cache_storage cache_good r4 r6 st"
  using assms
  by (simp add: storage_ok_def cache_storage_def cache_good_def cache_addresses_def cache_domains_def fakeip_bucket_def
      domain_bucket_def cache_FakeIPLoadDomain_def)

lemma cache_starts:
  assumes "range_ok False r4" "range_ok True r6"
    and "bucketFakeIP st = None" "bucketFakeIPDomain4 st = None" "bucketFakeIPDomain6 st = None"
  shows "store_ok cache_storage cache_good (store_Start cache_storage st (NewStore r4 r6))"
proof -
  have "snd (op_Reset cache_storage st) = st" using assms(3) by (simp add: cache_storage_def cache_FakeIPReset_def)
  then have "storage_ok cache_storage cache_good r4 r6 (snd (op_Reset cache_storage st))" using cache_empty_ok [OF assms(3-5)] by simp
  from fresh_start_ok [OF assms(1,2) this] show ?thesis
    using assms(3) by (simp add: store_Start_def cache_storage_def cache_FakeIPMetadata_def)
qed

text \<open>
  Close and start again with the same ranges. The process is a new one, so the timer is gone.
\<close>

definition reopened :: "fakeip_buckets fakeip_store \<Rightarrow> fakeip_buckets fakeip_store" where
  "reopened s =
     (case fs_storage (store_Close cache_storage s) of
        None \<Rightarrow> s
      | Some st \<Rightarrow> store_Start cache_storage (st\<lparr>saveMetadataTimer := None\<rparr>) (NewStore (inet4Range s) (inet6Range s)))"

lemma reopened_eq:
  assumes "store_ok cache_storage cache_good s" and "fs_storage s = Some st"
  shows "reopened s =
    s\<lparr>fs_storage := Some (st\<lparr>bucketFakeIP := Some (cache_addresses st, None), saveMetadataTimer := None\<rparr>)\<rparr>"
proof -
  have fam: "family_ok False (inet4Range s) (inet4Last s) (inet4Current s)"
    "family_ok True (inet6Range s) (inet6Last s) (inet6Current s)" using assms(1) by (simp_all add: store_ok_def)
  have "metadata_ok (store_metadata s)"
    using fam [THEN family_zone_free] fam range_prefix_ok [of False "inet4Range s"] range_prefix_ok [of True "inet6Range s"]
    by (simp add: metadata_ok_def store_metadata_def family_ok_def)
  from metadata_roundtrip [OF this] have rt: "metadata_UnmarshalBinary (metadata_MarshalBinary (store_metadata s)) = Ret (Some (store_metadata s))" .
  have ne: "metadata_MarshalBinary (store_metadata s) \<noteq> []"
    by (simp add: metadata_MarshalBinary_def length_bytes_def Prefix_MarshalBinary_def)
  let ?st = "(cache_FakeIPSaveMetadata (store_metadata s) st)\<lparr>saveMetadataTimer := None\<rparr>"
  have "cache_FakeIPMetadata ?st =
      (Some (store_metadata s), ?st\<lparr>bucketFakeIP := Some (cache_addresses st, None)\<rparr>)"
    using rt ne by (simp add: cache_FakeIPMetadata_def cache_FakeIPSaveMetadata_def cache_addresses_def)
  moreover have "inet4Last s = inet4Last (NewStore (inet4Range s) (inet6Range s) :: fakeip_buckets fakeip_store)"
    "inet6Last s = inet6Last (NewStore (inet4Range s) (inet6Range s) :: fakeip_buckets fakeip_store)"
    using fam by (simp_all add: family_ok_def NewStore_def split: if_splits)
  ultimately show ?thesis
    using assms(2)
    by (simp add: reopened_def store_Close_def store_Start_def cache_storage_def store_metadata_def NewStore_def
        cache_FakeIPSaveMetadata_def)
qed

lemma reopened_keeps:
  assumes "store_ok cache_storage cache_good s"
  shows "store_ok cache_storage cache_good (reopened s)" and "store_Lookup cache_storage a (reopened s) = store_Lookup cache_storage a s"
    and "inet4Current (reopened s) = inet4Current s" and "inet6Current (reopened s) = inet6Current s"
proof -
  obtain st where st: "fs_storage s = Some st" "storage_ok cache_storage cache_good (inet4Range s) (inet6Range s) st"
    using assms by (auto simp: store_ok_def)
  let ?st = "st\<lparr>bucketFakeIP := Some (cache_addresses st, None), saveMetadataTimer := None\<rparr>"
  have same: "cache_addresses ?st = cache_addresses st" "cache_domains v6 ?st = cache_domains v6 st"
    "domain_bucket v6 ?st = domain_bucket v6 st" for v6
    by (simp_all add: cache_addresses_def fakeip_bucket_def cache_domains_def domain_bucket_def)
  have "storage_ok cache_storage cache_good (inet4Range s) (inet6Range s) ?st"
    using st(2) by (simp add: storage_ok_def cache_good_def same cache_storage_def cache_FakeIPLoadDomain_def)
  then show "store_ok cache_storage cache_good (reopened s)"
    using assms unfolding reopened_eq [OF assms st(1)] by (simp add: store_ok_def)
  show "store_Lookup cache_storage a (reopened s) = store_Lookup cache_storage a s"
    unfolding reopened_eq [OF assms st(1)]
    using st(1) same(1) by (simp add: store_Lookup_def cache_storage_def cache_FakeIPLoad_def cache_addresses_def)
  show "inet4Current (reopened s) = inet4Current s" "inet6Current (reopened s) = inet6Current s"
    unfolding reopened_eq [OF assms st(1)] by simp_all
qed

end
