(* ===== verification/DnsExamples.thy ===== *)
theory DnsExamples
  imports DnsClient
begin

text \<open>
  A concrete instance of what the DNS client takes from other packages, on which the theorems about it
  are applied: a cache that is a map and a world that is a clock. A name is fully qualified when it
  ends with a dot; the messages have no EDNS record.
\<close>

type_synonym 'k map_cache = "'k \<rightharpoonup> dns_Msg \<times> gotime option"

definition fresh_entry :: "gotime \<Rightarrow> dns_Msg \<times> gotime option \<Rightarrow> bool" where
  "fresh_entry now e = (case snd e of None \<Rightarrow> True | Some expireAt \<Rightarrow> now < expireAt)"

definition map_lru :: "('k, dns_Msg, 'k map_cache) lru" where
  "map_lru =
     \<lparr>lru_Add = (\<lambda>k v s. s(k \<mapsto> (v, None))),
      lru_AddWithLifetime = (\<lambda>now k v lifetime s. s(k \<mapsto> (v, Some (now + lifetime)))),
      lru_Get = (\<lambda>now k s. (case s k of None \<Rightarrow> None | Some e \<Rightarrow> if fresh_entry now e then Some (fst e) else None, s)),
      lru_GetWithLifetime =
        (\<lambda>now k s. (case s k of
                      Some (v, Some expireAt) \<Rightarrow> if now < expireAt then Some (v, expireAt) else None
                    | _ \<Rightarrow> None, s)),
      lru_Remove = (\<lambda>k s. s(k := None)), lru_Purge = (\<lambda>s. Map.empty)\<rparr>"

definition dotted :: "string \<Rightarrow> bool" where
  "dotted name \<longleftrightarrow> name \<noteq> [] \<and> last name = CHR ''.''"

definition example_libs :: "(cache_key map_cache, gotime) dns_libs" where
  "example_libs =
     \<lparr>IsFqdn = dotted, Fqdn = (\<lambda>name. if dotted name then name else name @ ''.''),
      msg_IsEdns0 = (\<lambda>m. None), opt_Version = (\<lambda>r. 0), opt_UDPSize = (\<lambda>r. 0), opt_Do = (\<lambda>r. False),
      msg_SetEdns0 = (\<lambda>size do m. m), group_error = (\<lambda>a b. case a of None \<Rightarrow> b | Some e \<Rightarrow> Some e),
      message_cache = map_lru, world_Now = (\<lambda>w. w)\<rparr>"

definition example_client :: dns_client where
  "example_client =
     \<lparr>cl_disableCache = False, cl_disableExpire = False, cl_independentCache = False, cl_clientSubnet = (NoAddr, 0)\<rparr>"

definition example_options :: "'w DNSQueryOptions" where
  "example_options =
     \<lparr>qo_Transport = None, qo_Strategy = 0, qo_LookupStrategy = 0, qo_DisableCache = False, qo_RewriteTTL = None,
      qo_ClientSubnet = (NoAddr, 0)\<rparr>"

text \<open>A transport that answers each question with one address after a second.\<close>

definition example_question :: question where
  "example_question = (''a.'', 1, 1)"

definition example_transport :: "gotime dns_transport" where
  "example_transport =
     \<lparr>pt_Id = 1, pt_Type = ''udp'', pt_Tag = ''server'', pt_Dependencies = [], pt_Start = (\<lambda>stage w. (None, w)),
      pt_Close = (\<lambda>w. (None, w)), tp_Reset = (\<lambda>w. w),
      tp_Exchange = (\<lambda>m w. (Inr (FixedResponse (msg_Id m) example_question [IPv4 1] 60), w + 10 ^ 9))\<rparr>"

lemma example_simps [simp]:
  "world_Now example_libs = (\<lambda>w. w)" "message_cache example_libs = map_lru" "msg_IsEdns0 example_libs m = None"
  "IsFqdn example_libs = dotted" "Fqdn example_libs name = (if dotted name then name else name @ ''.'')"
  by (simp_all add: example_libs_def)

end
