(* ===== verification/FakeIPContracts.thy ===== *)
theory FakeIPContracts
  imports FakeIPSafety Router DnsExamples
begin

text \<open>
  The store of fake addresses as the rest of the program meets it: a history of requests to a store,
  and the way of a fake address from the answer of the DNS transport to the destination of a
  connection, where the router turns it back into the name, also after a restart.
\<close>

section \<open>Histories\<close>

text \<open>Requests to a store in a row, and the name an address was last handed out for.\<close>

fun create_all ::
    "'s fakeip_ops \<Rightarrow> (string \<times> bool) list \<Rightarrow> 's fakeip_store \<Rightarrow> ((go_error + addr) list \<times> 's fakeip_store) go" where
  "create_all F [] s = Ret ([], s)"
| "create_all F ((d, v6) # reqs) s =
     go_bind (store_Create F d v6 s) (\<lambda>(r, s). go_bind (create_all F reqs s) (\<lambda>(rs, s). Ret (r # rs, s)))"

fun last_name :: "addr \<Rightarrow> string option \<Rightarrow> (string \<times> bool) list \<Rightarrow> (go_error + addr) list \<Rightarrow> string option" where
  "last_name a d ((n, v6) # reqs) (r # rs) = last_name a (if r = Inr a then Some n else d) reqs rs"
| "last_name a d _ _ = d"

definition range_of :: "prefix \<Rightarrow> prefix \<Rightarrow> bool \<Rightarrow> prefix" where
  "range_of r4 r6 v6 = (if v6 then r6 else r4)"

text \<open>What each request of a history got.\<close>

definition answers_ok :: "prefix \<Rightarrow> prefix \<Rightarrow> (string \<times> bool) list \<Rightarrow> (go_error + addr) list \<Rightarrow> bool" where
  "answers_ok r4 r6 =
     list_all2 (\<lambda>(d, v6) r.
       case r of Inr a \<Rightarrow> usable (range_of r4 r6 v6) a \<and> Is6 a = v6 | Inl e \<Rightarrow> \<not> prefix_IsValid (range_of r4 r6 v6))"

lemma store_Create_same:
  "store_Create F d v6 s = Ret (r, s') \<Longrightarrow>
   inet4Range s' = inet4Range s \<and> inet6Range s' = inet6Range s \<and> (\<forall>e. r = Inl e \<longrightarrow> s' = s)"
  by (auto simp: store_Create_def Let_def split: option.splits if_splits)

context fakeip_storage
begin

lemma create_returns:
  assumes "store_ok F good s"
  shows "\<exists>r s'. store_Create F d v6 s = Ret (r, s')"
  using assms by (auto simp: store_ok_def store_Create_def Let_def split: option.splits)

lemma create_valid:
  assumes "store_ok F good s" "d \<noteq> ''''" "prefix_IsValid (range_of (inet4Range s) (inet6Range s) v6)"
    and "store_Create F d v6 s = Ret (r, s')"
  shows "\<exists>a. r = Inr a"
proof -
  obtain st where st: "fs_storage s = Some st" using assms(1) by (auto simp: store_ok_def)
  show ?thesis
  proof (cases "op_LoadDomain F d v6 st")
    case None
    with create_new [OF assms(1,2) st None] assms(3,4) show ?thesis by (auto simp: range_of_def)
  next
    case (Some a)
    with st assms(4) have "Inr a = r" by (simp add: store_Create_def)
    then show ?thesis by blast
  qed
qed

lemma history:
  assumes "store_ok F good s" "\<forall>(d, v6) \<in> set reqs. d \<noteq> ''''" "\<And>a. zone_free a \<Longrightarrow> store_Lookup F a s = Ret (names a)"
  shows "\<exists>rs s'. create_all F reqs s = Ret (rs, s') \<and> store_ok F good s' \<and> inet4Range s' = inet4Range s \<and>
    inet6Range s' = inet6Range s \<and> answers_ok (inet4Range s) (inet6Range s) reqs rs \<and>
    (\<forall>a. zone_free a \<longrightarrow> store_Lookup F a s' = Ret (last_name a (names a) reqs rs))"
  using assms
proof (induction reqs arbitrary: s names)
  case (Cons q reqs)
  obtain d v6 where q: "q = (d, v6)" by force
  have d: "d \<noteq> ''''" using Cons.prems(2) q by auto
  obtain r s1 where c: "store_Create F d v6 s = Ret (r, s1)" using create_returns [OF Cons.prems(1)] by blast
  note same = store_Create_same [OF c]
  have step: "store_ok F good s1 \<and> (\<forall>a. zone_free a \<longrightarrow> store_Lookup F a s1 = Ret (if r = Inr a then Some d else names a)) \<and>
      answers_ok (inet4Range s) (inet6Range s) [q] [r]"
  proof (cases r)
    case (Inl e)
    with same Cons.prems(1,3) create_valid [OF Cons.prems(1) d _ c] q show ?thesis by (auto simp: answers_ok_def)
  next
    case (Inr b)
    note cl = create_lookup [OF Cons.prems(1) d c [unfolded Inr]]
    have "store_Lookup F a s1 = Ret (if r = Inr a then Some d else names a)" if "zone_free a" for a
      using that cl(4) cl(6) [OF that] Cons.prems(3) [OF that] Inr by (cases "a = b") simp_all
    with cl(1-3) Inr q show ?thesis by (simp add: answers_ok_def range_of_def)
  qed
  have "\<exists>rs s'. create_all F reqs s1 = Ret (rs, s') \<and> store_ok F good s' \<and> inet4Range s' = inet4Range s1 \<and>
    inet6Range s' = inet6Range s1 \<and> answers_ok (inet4Range s1) (inet6Range s1) reqs rs \<and>
    (\<forall>a. zone_free a \<longrightarrow> store_Lookup F a s' = Ret (last_name a (if r = Inr a then Some d else names a) reqs rs))"
    using Cons.prems(2) step by (intro Cons.IH) auto
  then obtain rs s' where "create_all F reqs s1 = Ret (rs, s')" "store_ok F good s'" "inet4Range s' = inet4Range s"
    "inet6Range s' = inet6Range s" "answers_ok (inet4Range s) (inet6Range s) reqs rs"
    "\<forall>a. zone_free a \<longrightarrow> store_Lookup F a s' = Ret (last_name a (if r = Inr a then Some d else names a) reqs rs)"
    using same by auto
  with step c q show ?case
    by (intro exI [of _ "r # rs"] exI [of _ s']) (simp add: answers_ok_def)
qed (simp add: answers_ok_def)

end

lemma NewStore_ranges [simp]: "inet4Range (NewStore r4 r6) = r4" "inet6Range (NewStore r4 r6) = r6"
  by (simp_all add: NewStore_def)

lemma start_ranges: "inet4Range (store_Start F st s) = inet4Range s" "inet6Range (store_Start F st s) = inet6Range s"
  by (simp_all add: store_Start_def fresh_start_def split: prod.split option.split)

lemma memory_start_empty: "store_Lookup memory_storage a (store_Start memory_storage st (NewStore r4 r6)) = Ret None"
  by (simp add: store_Start_def memory_storage_def fresh_start_def store_Lookup_def NewMemoryStorage_def)

text \<open>
  C26. A store of fake addresses that has just been started in memory is asked for addresses of any
  names in any order. Every answer is an address of the configured range of the family that was asked
  for, neither the first nor the last of it, and there is an error only where the family has no range.
  Afterwards every address leads back to the name it was last handed out for, and an address that was
  never handed out leads to none.
\<close>

theorem fakeip_history:
  assumes "range_ok False r4" "range_ok True r6" "\<forall>(d, v6) \<in> set reqs. d \<noteq> ''''"
  shows "\<exists>rs s. create_all memory_storage reqs (store_Start memory_storage st (NewStore r4 r6)) = Ret (rs, s) \<and>
    answers_ok r4 r6 reqs rs \<and>
    (\<forall>a. zone_free a \<longrightarrow> store_Lookup memory_storage a s = Ret (last_name a None reqs rs))"
  using memory.history [OF memory_starts [OF assms(1,2), of st] assms(3) memory_start_empty]
  by (auto simp: start_ranges)

definition net4 :: prefix where
  "net4 = (IPv4 0xC6120000, 30)"

definition net6 :: prefix where
  "net6 = (IPv6 0xFC000000000000000000000000000000 '''', 18)"

lemma nets_ok: "range_ok False net4" "range_ok True net6"
  by (simp_all add: net4_def net6_def take_bit_eq_mod)

theorem fakeip_history_witness:
  "\<exists>rs s. create_all memory_storage [(''a'', False), (''b'', True), (''c'', False)]
      (store_Start memory_storage NewMemoryStorage (NewStore net4 net6)) = Ret (rs, s) \<and>
    answers_ok net4 net6 [(''a'', False), (''b'', True), (''c'', False)] rs \<and>
    (\<forall>a. zone_free a \<longrightarrow>
      store_Lookup memory_storage a s = Ret (last_name a None [(''a'', False), (''b'', True), (''c'', False)] rs))"
  by (rule fakeip_history [OF nets_ok]) simp

section \<open>From an answer to a connection\<close>

text \<open>The router with the store of the DNS transport; the store is on the cache file.\<close>

definition with_fakeip :: "'w router \<Rightarrow> fakeip_buckets fakeip_store \<Rightarrow> 'w router" where
  "with_fakeip R s =
     R\<lparr>rt_FakeIP := Some (store_Contains s, \<lambda>a. case store_Lookup cache_storage a s of Ret d \<Rightarrow> d | Panic e \<Rightarrow> None)\<rparr>"

lemma fixed_addresses:
  assumes "zone_free a" "addr_IsValid a" "a' \<in> set (MessageToAddresses (FixedResponse i q [a] ttl))"
  shows "a' = a"
  using assms
  by (cases q)
     (auto simp: MessageToAddresses_def DNSResponseAddresses_def FixedResponse_def fixed_answer_def fixed_record_def
      AddrFromIP_AsSlice rcode_defs split: if_splits)

lemma usable_contains:
  "usable (if v6 then inet6Range s else inet4Range s) a \<Longrightarrow> store_Contains s a"
  by (auto simp: usable_def store_Contains_def split: if_splits)

lemma reopened_ranges:
  assumes "store_ok cache_storage cache_good s"
  shows "inet4Range (reopened s) = inet4Range s" "inet6Range (reopened s) = inet6Range s"
  using assms reopened_eq [OF assms] by (auto simp: store_ok_def)

lemma find_domain_fakeip:
  assumes "store_Contains s a" "store_Lookup cache_storage a s = Ret (Some d)" "d \<noteq> ''''" "addr_IsValid a"
    and "sa_Addr (ic_Destination m) = a"
  shows "find_domain (with_fakeip R s) m =
    Inr (m\<lparr>ic_OriginDestination := ic_Destination m,
           ic_Destination := \<lparr>sa_Addr = NoAddr, sa_Port = sa_Port (ic_Destination m), sa_Fqdn = d\<rparr>, ic_FakeIP := True\<rparr>)"
  using assms by (simp add: find_domain_def fakeip_Contains_def fakeip_Lookup_def with_fakeip_def)


definition empty_file :: fakeip_buckets where
  "empty_file =
     \<lparr>bucketFakeIP = None, bucketFakeIPDomain4 = None, bucketFakeIPDomain6 = None, saveMetadataTimer = None\<rparr>"

definition fakeip_query :: dns_Msg where
  "fakeip_query = lookup_request ''a.'' TypeA"

definition fakeip_started :: "fakeip_buckets fakeip_store" where
  "fakeip_started = store_Start cache_storage empty_file (NewStore net4 net6)"

lemma demo_create:
  "\<exists>s'. store_Create cache_storage ''a'' False fakeip_started = Ret (Inr (IPv4 0xC6120002), s')"
proof -
  have "next_address net4 (broadcastAddress net4) (IPv4 0xC6120001) = IPv4 0xC6120002"
    by (simp add: next_address_def net4_def broadcast4 mask_eq_exp_minus_1 drop_bit_eq_div)
  then show ?thesis
    by (simp add: fakeip_started_def store_Start_def store_Create_def cache_storage_def empty_file_def NewStore_def
        cache_FakeIPMetadata_def fakeip_bucket_def fresh_start_def cache_FakeIPReset_def cache_FakeIPLoadDomain_def
        domain_bucket_def net4_def prefix_IsValid_def addr_IsValid_def Let_def)
qed

definition to_address :: "addr \<Rightarrow> InboundContext" where
  "to_address a = no_context\<lparr>ic_Destination := \<lparr>sa_Addr = a, sa_Port = 443, sa_Fqdn = ''''\<rparr>\<rparr>"


end
