(* ===== verification/DnsRules.thy ===== *)
theory DnsRules
  imports DnsClient RuleSets
begin

text \<open>
  The rules of the DNS router (\<open>src/dns/router.go\<close>): which of its two modes they ask for, what each
  mode refuses, how they are built, started and closed, and the check of a rule set that is about to
  change (\<open>ValidateRuleSetMetadataUpdate\<close>). The legacy mode asks the servers of the rules one after
  the other until an answer passes the address filter of its rule; the other mode evaluates rules
  against answers it has got.
\<close>

type_synonym dns_rule_options = "(RawDefaultDNSRule, dns_rule_action_options) rule_options"

section \<open>Which mode the rules need\<close>

record dnsRuleModeFlags =
  mf_disabled :: bool
  mf_needed :: bool
  mf_neededFromStrategy :: bool

definition no_flags :: dnsRuleModeFlags where
  "no_flags = \<lparr>mf_disabled = False, mf_needed = False, mf_neededFromStrategy = False\<rparr>"

definition flags_merge :: "dnsRuleModeFlags \<Rightarrow> dnsRuleModeFlags \<Rightarrow> dnsRuleModeFlags" where
  "flags_merge f other =
     \<lparr>mf_disabled = (mf_disabled f \<or> mf_disabled other), mf_needed = (mf_needed f \<or> mf_needed other),
      mf_neededFromStrategy = (mf_neededFromStrategy f \<or> mf_neededFromStrategy other)\<rparr>"

definition defaultRuleNeedsLegacyDNSModeFromAddressFilter :: "RawDefaultDNSRule \<Rightarrow> bool" where
  "defaultRuleNeedsLegacyDNSModeFromAddressFilter rule \<longleftrightarrow>
     o_IPAcceptAny rule \<or> o_RuleSetIPCIDRAcceptEmpty rule \<or>
     \<not> o_MatchResponse rule \<and> (o_IPCIDR rule \<noteq> [] \<or> o_IPIsPrivate rule)"

definition hasResponseMatchFields :: "RawDefaultDNSRule \<Rightarrow> bool" where
  "hasResponseMatchFields rule \<longleftrightarrow>
     o_ResponseRcode rule \<noteq> None \<or> o_ResponseAnswer rule \<noteq> [] \<or> o_ResponseNs rule \<noteq> [] \<or> o_ResponseExtra rule \<noteq> []"

definition defaultRuleDisablesLegacyDNSMode :: "RawDefaultDNSRule \<Rightarrow> dns_rule_action_options \<Rightarrow> bool" where
  "defaultRuleDisablesLegacyDNSMode rule a \<longleftrightarrow>
     o_MatchResponse rule \<or> hasResponseMatchFields rule \<or> dns_Action a = ''evaluate'' \<or> dns_Action a = ''respond'' \<or>
     o_IPVersion rule > 0 \<or> o_QueryType rule \<noteq> []"

definition dnsRuleActionHasStrategy :: "dns_rule_action_options \<Rightarrow> bool" where
  "dnsRuleActionHasStrategy a =
     (if dns_Action a \<in> {'''', ''route'', ''evaluate''} then do_Strategy (dns_RouteOptions a) \<noteq> DomainStrategyAsIS
      else if dns_Action a = ''route-options'' then do_Strategy (dns_RouteOptionsOptions a) \<noteq> DomainStrategyAsIS
      else False)"

definition action_type :: "dns_rule_action_options \<Rightarrow> string" where
  "action_type a = (if dns_Action a = '''' then ''route'' else dns_Action a)"

definition dnsRuleActionType :: "dns_rule_options \<Rightarrow> string" where
  "dnsRuleActionType rule =
     (if ro_Type rule = '''' \<or> ro_Type rule = RuleTypeDefault then action_type (ro_Action rule)
      else if ro_Type rule = RuleTypeLogical then action_type (ro_LogicalAction rule)
      else '''')"

definition dnsRuleActionServer :: "dns_rule_options \<Rightarrow> string" where
  "dnsRuleActionServer rule =
     (if ro_Type rule = '''' \<or> ro_Type rule = RuleTypeDefault then do_Server (dns_RouteOptions (ro_Action rule))
      else if ro_Type rule = RuleTypeLogical then do_Server (dns_RouteOptions (ro_LogicalAction rule))
      else '''')"

text \<open>The rule sets of the router, if there is one, and metadata that is about to replace theirs.\<close>

definition lookupDNSRuleSetMetadata ::
    "rule_sets \<Rightarrow> string \<Rightarrow> (string \<rightharpoonup> RuleSetMetadata) \<Rightarrow> go_error + RuleSetMetadata" where
  "lookupDNSRuleSetMetadata \<Sigma> tag overrides =
     (case overrides tag of
        Some md \<Rightarrow> Inr md
      | None \<Rightarrow>
          (case \<Sigma> tag of
             None \<Rightarrow> Inl (ENew [''rule-set not found: '', tag])
           | Some s \<Rightarrow> Inr (rs_metadata s)))"

fun rule_set_flags ::
    "rule_sets \<Rightarrow> (string \<rightharpoonup> RuleSetMetadata) \<Rightarrow> bool \<Rightarrow> string list \<Rightarrow> dnsRuleModeFlags \<Rightarrow> go_error + dnsRuleModeFlags" where
  "rule_set_flags \<Sigma> overrides matchSource [] fl = Inr fl"
| "rule_set_flags \<Sigma> overrides matchSource (tag # tags) fl =
     (case lookupDNSRuleSetMetadata \<Sigma> tag overrides of
        Inl e \<Rightarrow> Inl e
      | Inr md \<Rightarrow>
          rule_set_flags \<Sigma> overrides matchSource tags
            (fl\<lparr>mf_disabled := mf_disabled fl \<or> ContainsDNSQueryTypeRule md,
                   mf_needed := mf_needed fl \<or> \<not> matchSource \<and> ContainsIPCIDRRule md\<rparr>))"

definition dnsRuleModeRequirementsInDefaultRule ::
    "rule_sets option \<Rightarrow> (string \<rightharpoonup> RuleSetMetadata) \<Rightarrow> RawDefaultDNSRule \<Rightarrow> dns_rule_action_options \<Rightarrow>
     go_error + dnsRuleModeFlags" where
  "dnsRuleModeRequirementsInDefaultRule router overrides rule a =
     (let fl = \<lparr>mf_disabled = defaultRuleDisablesLegacyDNSMode rule a,
                   mf_needed = (defaultRuleNeedsLegacyDNSModeFromAddressFilter rule \<or> dnsRuleActionHasStrategy a),
                   mf_neededFromStrategy = dnsRuleActionHasStrategy a\<rparr>
      in if o_RuleSet rule = [] then Inr fl
         else
           (case router of
              None \<Rightarrow> Inl (ENew [''router service not found''])
            | Some \<Sigma> \<Rightarrow> rule_set_flags \<Sigma> overrides (o_RuleSetIPCIDRMatchSource rule) (o_RuleSet rule) fl))"

text \<open>A loop over rules that merges their flags and wraps an error with the name and the index.\<close>

fun merge_flags ::
    "string \<Rightarrow> nat \<Rightarrow> ('x \<Rightarrow> go_error + dnsRuleModeFlags) \<Rightarrow> 'x list \<Rightarrow> dnsRuleModeFlags \<Rightarrow> go_error + dnsRuleModeFlags" where
  "merge_flags what i f [] fl = Inr fl"
| "merge_flags what i f (r # rs) fl =
     (case f r of
        Inl e \<Rightarrow> Inl (ECause e [what, dec i, '']''])
      | Inr ruleFlags \<Rightarrow> merge_flags what (Suc i) f rs (flags_merge fl ruleFlags))"

lemma merge_flags_cong [fundef_cong]:
  "what = what' \<Longrightarrow> i = j \<Longrightarrow> xs = ys \<Longrightarrow> fl = fl' \<Longrightarrow> (\<And>x. x \<in> set ys \<Longrightarrow> f x = g x) \<Longrightarrow>
   merge_flags what i f xs fl = merge_flags what' j g ys fl'"
proof (induction ys arbitrary: xs i j fl fl')
  case (Cons y ys)
  then have "merge_flags what' (Suc j) f ys fl = merge_flags what' (Suc j) g ys fl" for fl by simp
  with Cons show ?case by (simp split: sum.split)
qed simp

fun dnsRuleModeRequirementsInRule ::
    "rule_sets option \<Rightarrow> (string \<rightharpoonup> RuleSetMetadata) \<Rightarrow> dns_rule_options \<Rightarrow> go_error + dnsRuleModeFlags" where
  "dnsRuleModeRequirementsInRule router overrides (RuleOptions ty d a mode rules neg la) =
     (if ty = '''' \<or> ty = RuleTypeDefault then dnsRuleModeRequirementsInDefaultRule router overrides d a
      else if ty = RuleTypeLogical then
        merge_flags ''sub rule['' 0 (dnsRuleModeRequirementsInRule router overrides) rules
          \<lparr>mf_disabled = (action_type la = ''evaluate'' \<or> action_type la = ''respond''),
           mf_needed = dnsRuleActionHasStrategy la, mf_neededFromStrategy = dnsRuleActionHasStrategy la\<rparr>
      else Inr no_flags)"

definition dnsRuleModeRequirements ::
    "rule_sets option \<Rightarrow> (string \<rightharpoonup> RuleSetMetadata) \<Rightarrow> dns_rule_options list \<Rightarrow> go_error + dnsRuleModeFlags" where
  "dnsRuleModeRequirements router overrides rules =
     merge_flags ''dns rule['' 0 (dnsRuleModeRequirementsInRule router overrides) rules no_flags"

definition resolveLegacyDNSMode ::
    "rule_sets option \<Rightarrow> dns_rule_options list \<Rightarrow> (string \<rightharpoonup> RuleSetMetadata) \<Rightarrow> go_error + bool \<times> dnsRuleModeFlags" where
  "resolveLegacyDNSMode router rules overrides =
     (case dnsRuleModeRequirements router overrides rules of
        Inl e \<Rightarrow> Inl e
      | Inr fl \<Rightarrow>
          if mf_disabled fl \<and> mf_neededFromStrategy fl then Inl (deprecated_option ''legacy DNS rule strategy'')
          else if mf_disabled fl then Inr (False, fl)
          else Inr (mf_needed fl, fl))"

section \<open>What the new mode refuses\<close>

definition validateLegacyDNSModeDisabledDefaultRule :: "RawDefaultDNSRule \<Rightarrow> dns_rule_action_options \<Rightarrow> go_error + bool" where
  "validateLegacyDNSModeDisabledDefaultRule rule a =
     (if (hasResponseMatchFields rule \<or> o_IPCIDR rule \<noteq> [] \<or> o_IPIsPrivate rule) \<and> \<not> o_MatchResponse rule
      then Inl (ENew [''Response Match Fields (ip_cidr, ip_is_private, response_rcode, response_answer, response_ns, response_extra) require match_response to be enabled''])
      else if o_IPAcceptAny rule then Inl (deprecated_option ''ip_accept_any'')
      else if o_RuleSetIPCIDRAcceptEmpty rule then Inl (deprecated_option ''rule_set_ip_cidr_accept_empty'')
      else Inr (o_MatchResponse rule \<or> dns_Action a = ''respond''))"

text \<open>A loop over sub-rules that collects whether one of them needs an answer.\<close>

fun any_rule :: "nat \<Rightarrow> ('x \<Rightarrow> go_error + bool) \<Rightarrow> 'x list \<Rightarrow> bool \<Rightarrow> go_error + bool" where
  "any_rule i f [] b = Inr b"
| "any_rule i f (r # rs) b =
     (case f r of
        Inl e \<Rightarrow> Inl (sub_rule i e)
      | Inr b' \<Rightarrow> any_rule (Suc i) f rs (b \<or> b'))"

lemma any_rule_cong [fundef_cong]:
  "i = j \<Longrightarrow> xs = ys \<Longrightarrow> b = b' \<Longrightarrow> (\<And>x. x \<in> set ys \<Longrightarrow> f x = g x) \<Longrightarrow> any_rule i f xs b = any_rule j g ys b'"
proof (induction ys arbitrary: xs i j b b')
  case (Cons y ys)
  then have "any_rule (Suc j) f ys c = any_rule (Suc j) g ys c" for c by simp
  with Cons show ?case by (simp split: sum.split)
qed simp

fun validateLegacyDNSModeDisabledRuleTree :: "dns_rule_options \<Rightarrow> go_error + bool" where
  "validateLegacyDNSModeDisabledRuleTree (RuleOptions ty d a mode rules neg la) =
     (if ty = '''' \<or> ty = RuleTypeDefault then validateLegacyDNSModeDisabledDefaultRule d a
      else if ty = RuleTypeLogical then
        any_rule 0 validateLegacyDNSModeDisabledRuleTree rules (action_type la = ''respond'')
      else Inr False)"

fun validate_disabled :: "nat \<Rightarrow> bool \<Rightarrow> dns_rule_options list \<Rightarrow> go_error option" where
  "validate_disabled i seenEvaluate [] = None"
| "validate_disabled i seenEvaluate (rule # rules) =
     (case validateLegacyDNSModeDisabledRuleTree rule of
        Inl e \<Rightarrow> Some (ECause e [''validate dns rule['', dec i, '']''])
      | Inr requiresPriorEvaluate \<Rightarrow>
          if requiresPriorEvaluate \<and> \<not> seenEvaluate
          then Some (ENew [''dns rule['', dec i, '']: response-based matching requires a preceding evaluate action''])
          else validate_disabled (Suc i) (seenEvaluate \<or> dnsRuleActionType rule = ''evaluate'') rules)"

definition validateLegacyDNSModeDisabledRules :: "dns_rule_options list \<Rightarrow> go_error option" where
  "validateLegacyDNSModeDisabledRules rules = validate_disabled 0 False rules"

text \<open>\<open>kind_of\<close> is the type of the transport with a tag, if there is one.\<close>

fun validate_fakeip :: "nat \<Rightarrow> (string \<Rightarrow> string option) \<Rightarrow> dns_rule_options list \<Rightarrow> go_error option" where
  "validate_fakeip i kind_of [] = None"
| "validate_fakeip i kind_of (rule # rules) =
     (if dnsRuleActionType rule = ''evaluate'' \<and> dnsRuleActionServer rule \<noteq> '''' \<and>
         kind_of (dnsRuleActionServer rule) = Some DNSTypeFakeIP
      then Some (ENew [''dns rule['', dec i, '']: evaluate action cannot use fakeip server: '', dnsRuleActionServer rule])
      else validate_fakeip (Suc i) kind_of rules)"

definition validateEvaluateFakeIPRules :: "dns_rule_options list \<Rightarrow> (string \<Rightarrow> string option) option \<Rightarrow> go_error option" where
  "validateEvaluateFakeIPRules rules transportManager =
     (case transportManager of None \<Rightarrow> None | Some kind_of \<Rightarrow> validate_fakeip 0 kind_of rules)"

section \<open>Building, starting and closing rules\<close>

text \<open>\<open>Start\<close> and \<open>Close\<close> of a DNS rule: of its items only the rule-set item has something to do.\<close>

fun dns_rule_Start :: "routing_rule \<Rightarrow> rule_sets \<Rightarrow> (go_error option \<times> routing_rule \<times> rule_sets) go"
  and dns_subrules_Start :: "routing_rule list \<Rightarrow> rule_sets \<Rightarrow> (go_error option \<times> routing_rule list \<times> rule_sets) go" where
  "dns_rule_Start (DefaultRule r None mr) \<Sigma> = Ret (None, DefaultRule r None mr, \<Sigma>)"
| "dns_rule_Start (DefaultRule r (Some it) mr) \<Sigma> =
     go_bind (RuleSetItem_Start it \<Sigma>) (\<lambda>(e, it', \<Sigma>'). Ret (e, DefaultRule r (Some it') mr, \<Sigma>'))"
| "dns_rule_Start (LogicalRule mode rules neg) \<Sigma> =
     go_bind (dns_subrules_Start rules \<Sigma>) (\<lambda>(e, rules', \<Sigma>'). Ret (e, LogicalRule mode rules' neg, \<Sigma>'))"
| "dns_subrules_Start [] \<Sigma> = Ret (None, [], \<Sigma>)"
| "dns_subrules_Start (r # rs) \<Sigma> =
     go_bind (dns_rule_Start r \<Sigma>) (\<lambda>(e, r', \<Sigma>').
       if e \<noteq> None then Ret (e, r' # rs, \<Sigma>')
       else go_bind (dns_subrules_Start rs \<Sigma>') (\<lambda>(e, rs', \<Sigma>''). Ret (e, r' # rs', \<Sigma>'')))"

fun dns_rule_Close :: "routing_rule \<Rightarrow> rule_sets \<Rightarrow> (routing_rule \<times> rule_sets) go"
  and dns_subrules_Close :: "routing_rule list \<Rightarrow> rule_sets \<Rightarrow> (routing_rule list \<times> rule_sets) go" where
  "dns_rule_Close (DefaultRule r None mr) \<Sigma> = Ret (DefaultRule r None mr, \<Sigma>)"
| "dns_rule_Close (DefaultRule r (Some it) mr) \<Sigma> =
     go_bind (RuleSetItem_Close it \<Sigma>) (\<lambda>(it', \<Sigma>'). Ret (DefaultRule r (Some it') mr, \<Sigma>'))"
| "dns_rule_Close (LogicalRule mode rules neg) \<Sigma> =
     go_bind (dns_subrules_Close rules \<Sigma>) (\<lambda>(rules', \<Sigma>'). Ret (LogicalRule mode rules' neg, \<Sigma>'))"
| "dns_subrules_Close [] \<Sigma> = Ret ([], \<Sigma>)"
| "dns_subrules_Close (r # rs) \<Sigma> =
     go_bind (dns_rule_Close r \<Sigma>) (\<lambda>(r', \<Sigma>').
       go_bind (dns_subrules_Close rs \<Sigma>') (\<lambda>(rs', \<Sigma>''). Ret (r' # rs', \<Sigma>'')))"

fun closeRules :: "action_rule list \<Rightarrow> rule_sets \<Rightarrow> rule_sets go" where
  "closeRules [] \<Sigma> = Ret \<Sigma>"
| "closeRules ((a, r) # rules) \<Sigma> = go_bind (dns_rule_Close r \<Sigma>) (\<lambda>(r', \<Sigma>'). closeRules rules \<Sigma>')"

text \<open>The rules of \<open>rawRules\<close>, from the rule of index \<open>i\<close> on.\<close>

fun new_rules :: "rule_libs \<Rightarrow> bool \<Rightarrow> nat \<Rightarrow> dns_rule_options list \<Rightarrow> (go_error + action_rule list) go" where
  "new_rules L legacy i [] = Ret (Inr [])"
| "new_rules L legacy i (r # rs) =
     go_bind (NewDNSRule L legacy True r) (\<lambda>rule.
       case rule of
         Inl e \<Rightarrow> Ret (Inl (ECause e [''parse dns rule['', dec i, '']'']))
       | Inr rule \<Rightarrow> go_bind (new_rules L legacy (Suc i) rs) (\<lambda>rules. Ret (map_sum id (\<lambda>rules. rule # rules) rules)))"

fun start_rules :: "nat \<Rightarrow> action_rule list \<Rightarrow> rule_sets \<Rightarrow> (go_error option \<times> action_rule list \<times> rule_sets) go" where
  "start_rules i [] \<Sigma> = Ret (None, [], \<Sigma>)"
| "start_rules i ((a, r) # rules) \<Sigma> =
     go_bind (dns_rule_Start r \<Sigma>) (\<lambda>(e, r', \<Sigma>').
       case e of
         Some e \<Rightarrow> Ret (Some (ECause e [''initialize DNS rule['', dec i, '']'']), (a, r') # rules, \<Sigma>')
       | None \<Rightarrow> go_bind (start_rules (Suc i) rules \<Sigma>') (\<lambda>(e, rules', \<Sigma>''). Ret (e, (a, r') # rules', \<Sigma>'')))"

definition nested_error :: "dns_rule_options list \<Rightarrow> go_error option" where
  "nested_error rules =
     (case [(i, e). (i, r) \<leftarrow> enumerate 0 rules,
              e \<leftarrow> (case validateNoNestedRuleActions no_dns_rule_action DNSRuleActionNestedUnsupported False r of
                      None \<Rightarrow> [] | Some e \<Rightarrow> [e])] of
        [] \<Rightarrow> None
      | (i, e) # _ \<Rightarrow> Some (ECause e [''parse dns rule['', dec i, '']'']))"

text \<open>
  \<open>buildRules\<close>: the rules with the mode and its flags, and the rule sets with the users the rules are.
  Rules that were built close again when a later one fails; one that has not been started holds no rule
  set, and closing it does nothing.
\<close>

type_synonym built_rules = "action_rule list \<times> bool \<times> dnsRuleModeFlags"

definition buildRules ::
    "rule_libs \<Rightarrow> (string \<Rightarrow> string option) option \<Rightarrow> bool \<Rightarrow> dns_rule_options list \<Rightarrow> rule_sets \<Rightarrow>
     ((go_error + built_rules) \<times> rule_sets) go" where
  "buildRules L transportManager startRules rawRules \<Sigma> =
     (case nested_error rawRules of
        Some e \<Rightarrow> Ret (Inl e, \<Sigma>)
      | None \<Rightarrow>
          (case resolveLegacyDNSMode (Some \<Sigma>) rawRules Map.empty of
             Inl e \<Rightarrow> Ret (Inl e, \<Sigma>)
           | Inr (legacyDNSMode, modeFlags) \<Rightarrow>
               (case (if legacyDNSMode then None else validateLegacyDNSModeDisabledRules rawRules) of
                  Some e \<Rightarrow> Ret (Inl e, \<Sigma>)
                | None \<Rightarrow>
                    (case validateEvaluateFakeIPRules rawRules transportManager of
                       Some e \<Rightarrow> Ret (Inl e, \<Sigma>)
                     | None \<Rightarrow>
                         go_bind (new_rules L legacyDNSMode 0 rawRules) (\<lambda>newRules.
                           case newRules of
                             Inl e \<Rightarrow> Ret (Inl e, \<Sigma>)
                           | Inr newRules \<Rightarrow>
                               if \<not> startRules then Ret (Inr (newRules, legacyDNSMode, modeFlags), \<Sigma>)
                               else
                                 go_bind (start_rules 0 newRules \<Sigma>) (\<lambda>(err, newRules, \<Sigma>).
                                   case err of
                                     Some e \<Rightarrow> go_bind (closeRules newRules \<Sigma>) (\<lambda>\<Sigma>. Ret (Inl e, \<Sigma>))
                                   | None \<Rightarrow> Ret (Inr (newRules, legacyDNSMode, modeFlags), \<Sigma>)))))))"

end
