(* ===== verification/DnsRouter.thy ===== *)
theory DnsRouter
  imports DnsRules
begin

text \<open>
  The DNS router (\<open>src/dns/router.go\<close>): its life cycle, the choice of a transport by rules in both
  modes, the exchange of a message and the lookup of a name, and the map from addresses back to names.

  The client, the transports and the rules are those of the other theories. A rule is known by its
  index; \<open>nil\<close> transports are \<open>None\<close>. What is logged is left out.
\<close>

section \<open>The router\<close>

record ('s, 'w, 'r) dns_router =
  dr_libs :: "('s, 'w) dns_libs"
  dr_env :: rule_env
  dr_client :: dns_client
  dr_transports :: "'w dns_transport transport_manager"
  dr_defaultDomainStrategy :: int
  dr_dnsReverseMapping :: "(addr, string, 'r) lru option"
  dr_rawRules :: "dns_rule_options list"
  dr_rules :: "action_rule list"
  dr_legacyDNSMode :: bool
  dr_started :: bool
  dr_closing :: bool

text \<open>What changes while the router works: client, reverse mapping, and the triggers each reject action remembers.\<close>

record ('s, 'w, 'r) dns_router_state =
  qs_dns :: "('s, 'w) dns_state"
  qs_reverse :: 'r
  qs_drops :: "nat \<Rightarrow> gotime list"

definition transport_kind :: "('s, 'w, 'r) dns_router \<Rightarrow> string \<Rightarrow> string option" where
  "transport_kind R tag = map_option pt_Type (mg_Get (dr_transports R) tag)"

definition set_rules_of :: "rule_sets \<Rightarrow> string \<Rightarrow> headless_rule list" where
  "set_rules_of \<Sigma> tag = (case \<Sigma> tag of None \<Rightarrow> [] | Some s \<Rightarrow> rs_rules s)"

definition set_has_ip_cidr :: "rule_sets \<Rightarrow> string \<Rightarrow> bool" where
  "set_has_ip_cidr \<Sigma> tag = (case \<Sigma> tag of None \<Rightarrow> False | Some s \<Rightarrow> ContainsIPCIDRRule (rs_metadata s))"

section \<open>Life cycle\<close>

definition dns_Initialize ::
    "rule_libs \<Rightarrow> dns_rule_options list \<Rightarrow> ('s, 'w, 'r) dns_router \<Rightarrow> rule_sets \<Rightarrow>
     (go_error option \<times> ('s, 'w, 'r) dns_router \<times> rule_sets) go" where
  "dns_Initialize L rules R \<Sigma> =
     (let R = R\<lparr>dr_rawRules := rules\<rparr>
      in go_bind (buildRules L (Some (transport_kind R)) False (dr_rawRules R) \<Sigma>) (\<lambda>(built, \<Sigma>).
           case built of
             Inl e \<Rightarrow> Ret (Some e, R, \<Sigma>)
           | Inr (newRules, _) \<Rightarrow> go_bind (closeRules newRules \<Sigma>) (\<lambda>\<Sigma>. Ret (None, R, \<Sigma>))))"

definition dns_Start ::
    "rule_libs \<Rightarrow> nat \<Rightarrow> ('s, 'w, 'r) dns_router \<Rightarrow> rule_sets \<Rightarrow> (go_error option \<times> ('s, 'w, 'r) dns_router \<times> rule_sets) go" where
  "dns_Start L stage R \<Sigma> =
     (if stage \<noteq> StartStateStart then Ret (None, R, \<Sigma>)
      else
        go_bind (buildRules L (Some (transport_kind R)) True (dr_rawRules R) \<Sigma>) (\<lambda>(built, \<Sigma>).
          case built of
            Inl e \<Rightarrow> Ret (Some e, R, \<Sigma>)
          | Inr (newRules, legacyDNSMode, modeFlags) \<Rightarrow>
              if dr_closing R then go_bind (closeRules newRules \<Sigma>) (\<lambda>\<Sigma>. Ret (None, R, \<Sigma>))
              else Ret (None, R\<lparr>dr_rules := newRules, dr_legacyDNSMode := legacyDNSMode, dr_started := True\<rparr>, \<Sigma>)))"

definition dns_Close :: "('s, 'w, 'r) dns_router \<Rightarrow> rule_sets \<Rightarrow> (('s, 'w, 'r) dns_router \<times> rule_sets) go" where
  "dns_Close R \<Sigma> =
     (if dr_closing R then Ret (R, \<Sigma>)
      else go_bind (closeRules (dr_rules R) \<Sigma>) (\<lambda>\<Sigma>. Ret (R\<lparr>dr_closing := True, dr_rules := []\<rparr>, \<Sigma>)))"

text \<open>Whether the metadata of a rule set may change, asked before it does.\<close>

definition ValidateRuleSetMetadataUpdate ::
    "('s, 'w, 'r) dns_router \<Rightarrow> rule_sets option \<Rightarrow> string \<Rightarrow> RuleSetMetadata \<Rightarrow> go_error option" where
  "ValidateRuleSetMetadataUpdate R router tag md =
     (if dr_rawRules R = [] then None
      else if router = None then Some (ENew [''router service not found''])
      else if dr_closing R then None
      else
        (case resolveLegacyDNSMode router (dr_rawRules R) [tag \<mapsto> md] of
           Inl e \<Rightarrow> Some e
         | Inr (candidateLegacyDNSMode, fl) \<Rightarrow>
             if \<not> dr_started R then
               (if candidateLegacyDNSMode then None else validateLegacyDNSModeDisabledRules (dr_rawRules R))
             else if dr_legacyDNSMode R then
               (if \<not> candidateLegacyDNSMode \<and> mf_disabled fl then
                  (case validateLegacyDNSModeDisabledRules (dr_rawRules R) of
                     Some e \<Rightarrow> Some e
                   | None \<Rightarrow> Some (deprecated_option ''legacy DNS address filter''))
                else None)
             else if candidateLegacyDNSMode then Some (deprecated_option ''legacy DNS address filter'')
             else None))"

section \<open>Options of a query\<close>

definition with_default_strategy :: "('s, 'w, 'r) dns_router \<Rightarrow> 'w DNSQueryOptions \<Rightarrow> 'w DNSQueryOptions" where
  "with_default_strategy R options =
     (if qo_Strategy options = DomainStrategyAsIS then options\<lparr>qo_Strategy := dr_defaultDomainStrategy R\<rparr> else options)"

definition applyDNSRouteOptions :: "dns_route_options \<Rightarrow> 'w DNSQueryOptions \<Rightarrow> 'w DNSQueryOptions" where
  "applyDNSRouteOptions ro options =
     (let o1 = (if DisableCache ro then options\<lparr>qo_DisableCache := True\<rparr> else options);
          o2 = (if RewriteTTL ro \<noteq> None then o1\<lparr>qo_RewriteTTL := RewriteTTL ro\<rparr> else o1)
      in if prefix_IsValid (ClientSubnet ro) then o2\<lparr>qo_ClientSubnet := ClientSubnet ro\<rparr> else o2)"

text \<open>The legacy mode takes the strategy of the action as well.\<close>

definition apply_legacy_options :: "dns_route_options \<Rightarrow> 'w DNSQueryOptions \<Rightarrow> 'w DNSQueryOptions" where
  "apply_legacy_options ro options =
     applyDNSRouteOptions ro (if Strategy ro \<noteq> DomainStrategyAsIS then options\<lparr>qo_Strategy := Strategy ro\<rparr> else options)"

definition is_fakeip :: "'w dns_transport \<Rightarrow> bool" where
  "is_fakeip tp \<longleftrightarrow> pt_Type tp = DNSTypeFakeIP"

datatype 'w dnsRouteStatus = dnsRouteStatusMissing | dnsRouteStatusSkipped | dnsRouteStatusResolved "'w dns_transport" "'w DNSQueryOptions"

definition resolveDNSRoute ::
    "('s, 'w, 'r) dns_router \<Rightarrow> string \<Rightarrow> dns_route_options \<Rightarrow> bool \<Rightarrow> 'w DNSQueryOptions \<Rightarrow> 'w dnsRouteStatus" where
  "resolveDNSRoute R server ro allowFakeIP options =
     (case mg_Get (dr_transports R) server of
        None \<Rightarrow> dnsRouteStatusMissing
      | Some tp \<Rightarrow>
          if is_fakeip tp \<and> \<not> allowFakeIP then dnsRouteStatusSkipped
          else
            (let o1 = applyDNSRouteOptions ro options
             in dnsRouteStatusResolved tp (if is_fakeip tp then o1\<lparr>qo_DisableCache := True\<rparr> else o1)))"

section \<open>The legacy mode\<close>

text \<open>
  \<open>matchDNS\<close> over the rules that are left, the first of which has the index \<open>i\<close>: the transport, the
  matched rule with the rules after it, the options and the context.
\<close>

type_synonym 'w dns_match =
  "'w dns_transport option \<times> (nat \<times> rule_action \<times> routing_rule \<times> action_rule list) option \<times> 'w DNSQueryOptions \<times> InboundContext"

fun matchDNS ::
    "('s, 'w, 'r) dns_router \<Rightarrow> rule_sets \<Rightarrow> bool \<Rightarrow> bool \<Rightarrow> nat \<Rightarrow> action_rule list \<Rightarrow> 'w DNSQueryOptions \<Rightarrow> InboundContext \<Rightarrow>
     'w dns_match" where
  "matchDNS R \<Sigma> allowFakeIP isAddressQuery i [] options m = (mg_default (dr_transports R), None, options, m)"
| "matchDNS R \<Sigma> allowFakeIP isAddressQuery i ((action, r) # rules) options m =
     (if WithAddressLimit (set_has_ip_cidr \<Sigma>) r \<and> \<not> isAddressQuery
      then matchDNS R \<Sigma> allowFakeIP isAddressQuery (Suc i) rules options m
      else
        (let m = (ResetRuleCache m)\<lparr>ic_DestinationAddressMatchFromResponse := False\<rparr>
         in if \<not> LegacyPreMatch (set_rules_of \<Sigma>) (dr_env R) r m
            then matchDNS R \<Sigma> allowFakeIP isAddressQuery (Suc i) rules options m
            else
              (case action of
                 Some (RuleActionDNSRoute server ro) \<Rightarrow>
                   (case mg_Get (dr_transports R) server of
                      None \<Rightarrow> matchDNS R \<Sigma> allowFakeIP isAddressQuery (Suc i) rules options m
                    | Some tp \<Rightarrow>
                        if is_fakeip tp \<and> \<not> allowFakeIP
                        then matchDNS R \<Sigma> allowFakeIP isAddressQuery (Suc i) rules options m
                        else
                          (let o1 = apply_legacy_options ro options
                           in (Some tp, Some (i, RuleActionDNSRoute server ro, r, rules),
                               if is_fakeip tp then o1\<lparr>qo_DisableCache := True\<rparr> else o1, m)))
               | Some (RuleActionDNSRouteOptions ro) \<Rightarrow>
                   matchDNS R \<Sigma> allowFakeIP isAddressQuery (Suc i) rules (apply_legacy_options ro options) m
               | Some (RuleActionReject a) \<Rightarrow> (None, Some (i, RuleActionReject a, r, rules), options, m)
               | Some (RuleActionPredefined a) \<Rightarrow> (None, Some (i, RuleActionPredefined a, r, rules), options, m)
               | _ \<Rightarrow> matchDNS R \<Sigma> allowFakeIP isAddressQuery (Suc i) rules options m)))"

definition isAddressQuery :: "dns_Msg \<Rightarrow> bool" where
  "isAddressQuery message \<longleftrightarrow>
     (\<exists>(name, qtype, qclass) \<in> set (msg_Question message). qtype = TypeA \<or> qtype = TypeAAAA \<or> qtype = TypeHTTPS)"

definition addressLimitResponseCheck ::
    "('s, 'w, 'r) dns_router \<Rightarrow> rule_sets \<Rightarrow> (nat \<times> rule_action \<times> routing_rule \<times> action_rule list) option \<Rightarrow> InboundContext \<Rightarrow>
     response_checker" where
  "addressLimitResponseCheck R \<Sigma> rule m =
     (case rule of
        None \<Rightarrow> None
      | Some (i, a, r, rest) \<Rightarrow>
          if WithAddressLimit (set_has_ip_cidr \<Sigma>) r
          then Some (\<lambda>response. MatchAddressLimit (set_rules_of \<Sigma>) (dr_env R) r m (Some response))
          else None)"

definition refused_answer :: "dns_Msg \<Rightarrow> dns_Msg" where
  "refused_answer message =
     \<lparr>msg_Id = msg_Id message, msg_Response = True, msg_Authoritative = False, msg_RecursionDesired = False,
      msg_RecursionAvailable = False, msg_Rcode = RcodeRefused, msg_Question = take 1 (msg_Question message),
      msg_Answer = [], msg_Ns = [], msg_Extra = []\<rparr>"

definition response_refused :: "go_error \<Rightarrow> bool" where
  "response_refused e \<longleftrightarrow> error_is ErrResponseRejectedCached e \<or> error_is ErrResponseRejected e"

lemma matchDNS_rest:
  "matchDNS R \<Sigma> af aq i rules options m = (tp, Some (j, a, r, rest), options', m') \<Longrightarrow> length rest < length rules"
proof (induction rules arbitrary: i options m af aq)
  case (Cons p rules)
  obtain action r' where p: "p = (action, r')" by force
  have IH: "matchDNS R \<Sigma> af aq (Suc i) rules o2 m2 = (tp, Some (j, a, r, rest), options', m') \<Longrightarrow> length rest < Suc (length rules)"
    for o2 m2 af aq using Cons.IH by fastforce
  show ?case
    using Cons.prems unfolding p
    by (auto simp: Let_def dest: IH split: if_splits option.splits rule_action.splits)
qed simp

text \<open>
  One turn of the loop of \<open>Exchange\<close>. It ends with an answer and the transport that gave it, or
  returns past the reverse mapping, or goes on with the rules after the matched one, because the
  address filter of the rule rejected the answer.
\<close>

datatype 'w exchange_step =
    Returns "go_error + dns_Msg"
  | Answered dns_Msg "'w dns_transport option"
  | Continues nat "action_rule list" InboundContext

type_synonym dns_matched = "(nat \<times> rule_action \<times> routing_rule \<times> action_rule list) option"

definition reject_method :: "dns_matched \<Rightarrow> string option" where
  "reject_method rule = (case rule of Some (j, RuleActionReject a, r, rest) \<Rightarrow> Some (Method a) | _ \<Rightarrow> None)"

definition predefined_of :: "dns_matched \<Rightarrow> RuleActionPredefined option" where
  "predefined_of rule = (case rule of Some (j, RuleActionPredefined a, r, rest) \<Rightarrow> Some a | _ \<Rightarrow> None)"

definition ask_transport ::
    "('s, 'w, 'r) dns_router \<Rightarrow> rule_sets \<Rightarrow> string option \<Rightarrow> dns_Msg \<Rightarrow> 'w DNSQueryOptions \<Rightarrow> 'w dns_transport option \<Rightarrow> dns_matched \<Rightarrow>
     InboundContext \<Rightarrow> ('s, 'w) dns_state \<Rightarrow> ('w exchange_step \<times> ('s, 'w) dns_state) go" where
  "ask_transport R \<Sigma> tag message dnsOptions transport rule m s =
     (let responseCheck = addressLimitResponseCheck R \<Sigma> rule m
      in go_bind
           (client_Exchange (dr_libs R) (dr_client R) tag transport message (with_default_strategy R dnsOptions) responseCheck s)
           (\<lambda>(result, s).
             Ret (case result of
                    Inr response \<Rightarrow> Answered response transport
                  | Inl e \<Rightarrow>
                      (case rule of
                         Some (j, a, r, rest) \<Rightarrow>
                           if responseCheck \<noteq> None \<and> response_refused e then Continues (Suc j) rest m else Returns (Inl e)
                       | None \<Rightarrow> Returns (Inl e)), s)))"

definition exchange_turn ::
    "('s, 'w, 'r) dns_router \<Rightarrow> rule_sets \<Rightarrow> string option \<Rightarrow> dns_Msg \<Rightarrow> 'w DNSQueryOptions \<Rightarrow> nat \<Rightarrow> action_rule list \<Rightarrow>
     InboundContext \<Rightarrow> ('s, 'w) dns_state \<Rightarrow> ('w exchange_step \<times> ('s, 'w) dns_state) go" where
  "exchange_turn R \<Sigma> tag message options i rules m s =
     (case matchDNS R \<Sigma> True (isAddressQuery message) i rules options m of
        (transport, rule, dnsOptions, m) \<Rightarrow>
          if reject_method rule = Some ''default'' then Ret (Returns (Inr (refused_answer message)), s)
          else if reject_method rule = Some ''drop'' then Ret (Returns (Inl ErrDrop), s)
          else
            (case predefined_of rule of
               Some a \<Rightarrow> go_bind (predefined_Response a message) (\<lambda>response. Ret (Answered response None, s))
             | None \<Rightarrow> ask_transport R \<Sigma> tag message dnsOptions transport rule m s))"

lemma exchange_turn_continues:
  assumes "exchange_turn R \<Sigma> tag message options i rules m s = Ret (Continues j rest m', s')"
  shows "\<exists>tp j' a r o2 m2. matchDNS R \<Sigma> True (isAddressQuery message) i rules options m = (tp, Some (j', a, r, rest), o2, m2)"
proof -
  obtain tp rule o2 m2 where d: "matchDNS R \<Sigma> True (isAddressQuery message) i rules options m = (tp, rule, o2, m2)"
    using prod_cases4 by blast
  with assms have "ask_transport R \<Sigma> tag message o2 tp rule m2 s = Ret (Continues j rest m', s')"
    by (auto simp: exchange_turn_def go_bind_Ret_iff split: if_splits option.splits)
  then obtain result where
    "(case result of
        Inr response \<Rightarrow> Answered response tp
      | Inl e \<Rightarrow>
          (case rule of
             Some (j, a, r, rest) \<Rightarrow>
               if addressLimitResponseCheck R \<Sigma> rule m2 \<noteq> None \<and> response_refused e then Continues (Suc j) rest m2 else Returns (Inl e)
           | None \<Rightarrow> Returns (Inl e))) = Continues j rest m'"
    by (auto simp: ask_transport_def Let_def go_bind_Ret_iff)
  then obtain j' a r where "rule = Some (j', a, r, rest)"
    by (cases result; cases rule) (auto split: if_splits)
  with d show ?thesis by blast
qed

lemma exchange_turn_rest:
  "exchange_turn R \<Sigma> tag message options i rules m s = Ret (Continues j rest m', s') \<Longrightarrow> length rest < length rules"
  by (auto dest!: exchange_turn_continues dest: matchDNS_rest)

lemma go_bind_cong [fundef_cong]: "x = y \<Longrightarrow> (\<And>a. y = Ret a \<Longrightarrow> f a = g a) \<Longrightarrow> go_bind x f = go_bind y g"
  by (cases y) simp_all

function exchange_legacy ::
    "('s, 'w, 'r) dns_router \<Rightarrow> rule_sets \<Rightarrow> string option \<Rightarrow> dns_Msg \<Rightarrow> 'w DNSQueryOptions \<Rightarrow> nat \<Rightarrow> action_rule list \<Rightarrow>
     InboundContext \<Rightarrow> ('s, 'w) dns_state \<Rightarrow> ('w exchange_step \<times> ('s, 'w) dns_state) go" where
  "exchange_legacy R \<Sigma> tag message options i rules m s =
     go_bind (exchange_turn R \<Sigma> tag message options i rules m s) (\<lambda>(turn, s).
       case turn of
         Continues j rest m \<Rightarrow> exchange_legacy R \<Sigma> tag message options j rest m s
       | _ \<Rightarrow> Ret (turn, s))"
  by pat_completeness auto
termination
  by (relation "measure (\<lambda>(R, \<Sigma>, tag, message, options, i, rules, m, s). length rules)")
     (auto dest: exchange_turn_rest)

declare exchange_legacy.simps [simp del]

section \<open>The other mode\<close>

text \<open>
  \<open>exchangeWithRules\<close>: the answer or the error, the transport that was asked last, and the reject
  action with the index of its rule.
\<close>

record 'w exchangeWithRulesResult =
  er_result :: "go_error + dns_Msg"
  er_transport :: "'w dns_transport option"
  er_rejectAction :: "(nat \<times> RuleActionReject) option"

definition exchange_result :: "go_error + dns_Msg \<Rightarrow> 'w dns_transport option \<Rightarrow> 'w exchangeWithRulesResult" where
  "exchange_result result transport = \<lparr>er_result = result, er_transport = transport, er_rejectAction = None\<rparr>"

definition dnsRespondMissingResponse :: go_error where
  "dnsRespondMissingResponse = ENew [''respond action requires an evaluated response from a preceding evaluate action'']"

definition ask_client ::
    "('s, 'w, 'r) dns_router \<Rightarrow> string option \<Rightarrow> dns_Msg \<Rightarrow> 'w dns_transport option \<Rightarrow> 'w DNSQueryOptions \<Rightarrow> ('s, 'w) dns_state \<Rightarrow>
     ((go_error + dns_Msg) \<times> ('s, 'w) dns_state) go" where
  "ask_client R tag message transport options s =
     client_Exchange (dr_libs R) (dr_client R) tag transport message (with_default_strategy R options) None s"

text \<open>The answer of the last evaluate action that matched, with its transport; a failure clears it.\<close>

type_synonym 'w evaluated = "(dns_Msg \<times> 'w dns_transport) option"

definition evaluate ::
    "('s, 'w, 'r) dns_router \<Rightarrow> string option \<Rightarrow> dns_Msg \<Rightarrow> string \<Rightarrow> dns_route_options \<Rightarrow> 'w DNSQueryOptions \<Rightarrow> ('s, 'w) dns_state \<Rightarrow>
     ('w evaluated \<times> ('s, 'w) dns_state) go" where
  "evaluate R tag message server ro options s =
     (case mg_Get (dr_transports R) server of
        None \<Rightarrow> Ret (None, s)
      | Some tp \<Rightarrow>
          go_bind (ask_client R tag message (Some tp) (applyDNSRouteOptions ro options) s) (\<lambda>(result, s).
            Ret (case result of Inl e \<Rightarrow> None | Inr response \<Rightarrow> Some (response, tp), s)))"

fun exchangeWithRules ::
    "('s, 'w, 'r) dns_router \<Rightarrow> rule_sets \<Rightarrow> string option \<Rightarrow> dns_Msg \<Rightarrow> bool \<Rightarrow> nat \<Rightarrow> action_rule list \<Rightarrow> 'w DNSQueryOptions \<Rightarrow>
     'w evaluated \<Rightarrow> InboundContext \<Rightarrow> ('s, 'w) dns_state \<Rightarrow> ('w exchangeWithRulesResult \<times> ('s, 'w) dns_state) go" where
  "exchangeWithRules R \<Sigma> tag message allowFakeIP i [] options ev m s =
     go_bind (ask_client R tag message (mg_default (dr_transports R)) options s) (\<lambda>(result, s).
       Ret (exchange_result result (mg_default (dr_transports R)), s))"
| "exchangeWithRules R \<Sigma> tag message allowFakeIP i ((action, r) # rules) options ev m s =
     (let m = (ResetRuleCache m)\<lparr>ic_DNSResponse := map_option fst ev, ic_DestinationAddressMatchFromResponse := False\<rparr>;
          continue = (\<lambda>options ev s. exchangeWithRules R \<Sigma> tag message allowFakeIP (Suc i) rules options ev m s)
      in if \<not> dns_Match (set_rules_of \<Sigma>) (dr_env R) r m then continue options ev s
         else
           (case action of
              Some (RuleActionDNSRouteOptions ro) \<Rightarrow> continue (applyDNSRouteOptions ro options) ev s
            | Some (RuleActionEvaluate server ro) \<Rightarrow>
                go_bind (evaluate R tag message server ro options s) (\<lambda>(ev, s). continue options ev s)
            | Some RuleActionRespond \<Rightarrow>
                Ret (case ev of
                       None \<Rightarrow> exchange_result (Inl dnsRespondMissingResponse) None
                     | Some (response, tp) \<Rightarrow> exchange_result (Inr response) (Some tp), s)
            | Some (RuleActionDNSRoute server ro) \<Rightarrow>
                (case resolveDNSRoute R server ro allowFakeIP options of
                   dnsRouteStatusResolved tp queryOptions \<Rightarrow>
                     go_bind (ask_client R tag message (Some tp) queryOptions s) (\<lambda>(result, s).
                       Ret (exchange_result result (Some tp), s))
                 | _ \<Rightarrow> continue options ev s)
            | Some (RuleActionReject a) \<Rightarrow>
                if Method a = ''default'' then
                  Ret (\<lparr>er_result = Inr (refused_answer message), er_transport = None, er_rejectAction = Some (i, a)\<rparr>, s)
                else if Method a = ''drop'' then
                  Ret (\<lparr>er_result = Inl ErrDrop, er_transport = None, er_rejectAction = Some (i, a)\<rparr>, s)
                else continue options ev s
            | Some (RuleActionPredefined a) \<Rightarrow>
                go_bind (predefined_Response a message) (\<lambda>response. Ret (exchange_result (Inr response) None, s))
            | _ \<Rightarrow> continue options ev s))"

section \<open>Exchange\<close>

text \<open>The names that an answer gives to addresses are remembered for their time to live.\<close>

fun record_name :: "('s, 'w) dns_libs \<Rightarrow> gotime \<Rightarrow> (addr, string, 'r) lru \<Rightarrow> dns_RR \<Rightarrow> 'r \<Rightarrow> 'r" where
  "record_name L timeNow C r t =
     (let remember = (\<lambda>ip. lru_AddWithLifetime C timeNow (AddrFromIP ip) (FqdnToDomain L (rr_Name r)) (int (unat (rr_Ttl r)) * 10 ^ 9) t)
      in case rr_Data r of RR_A ip \<Rightarrow> remember ip | RR_AAAA ip \<Rightarrow> remember ip | _ \<Rightarrow> t)"

definition map_reverse ::
    "('s, 'w, 'r) dns_router \<Rightarrow> dns_Msg \<Rightarrow> 'w dns_transport option \<Rightarrow> ('s, 'w, 'r) dns_router_state \<Rightarrow> ('s, 'w, 'r) dns_router_state" where
  "map_reverse R response transport s =
     (case dr_dnsReverseMapping R of
        None \<Rightarrow> s
      | Some C \<Rightarrow>
          if (case transport of None \<Rightarrow> True | Some tp \<Rightarrow> \<not> is_fakeip tp) then
            s\<lparr>qs_reverse :=
                fold (record_name (dr_libs R) (world_Now (dr_libs R) (ds_world (qs_dns s))) C) (msg_Answer response) (qs_reverse s)\<rparr>
          else s)"

text \<open>What both \<open>Exchange\<close> and \<open>Lookup\<close> make of the context they are called with; there may be none.\<close>

definition query_context :: "InboundContext option \<Rightarrow> string \<Rightarrow> InboundContext" where
  "query_context ctx domain =
     (case ctx of None \<Rightarrow> no_context | Some m \<Rightarrow> m)
       \<lparr>ic_Destination := no_Socksaddr, ic_Domain := domain, ic_DNSResponse := None,
        ic_DestinationAddressMatchFromResponse := False\<rparr>"

definition exchange_context :: "('s, 'w) dns_libs \<Rightarrow> InboundContext option \<Rightarrow> question \<Rightarrow> InboundContext" where
  "exchange_context L ctx q =
     (let m = (query_context ctx (FqdnToDomain L (fst q)))\<lparr>ic_QueryType := fst (snd q)\<rparr>
      in if fst (snd q) = TypeA then m\<lparr>ic_IPVersion := 4\<rparr>
         else if fst (snd q) = TypeAAAA then m\<lparr>ic_IPVersion := 6\<rparr>
         else m)"

definition bad_question_size :: "dns_Msg \<Rightarrow> dns_Msg" where
  "bad_question_size message =
     \<lparr>msg_Id = msg_Id message, msg_Response = True, msg_Authoritative = False, msg_RecursionDesired = False,
      msg_RecursionAvailable = False, msg_Rcode = RcodeFormatError, msg_Question = msg_Question message,
      msg_Answer = [], msg_Ns = [], msg_Extra = []\<rparr>"

definition closed_error :: go_error where
  "closed_error = ENew [''dns router closed'']"

text \<open>A result as the last turn of a loop.\<close>

definition as_turn :: "go_error + dns_Msg \<Rightarrow> 'w dns_transport option \<Rightarrow> 'w exchange_step" where
  "as_turn result transport = (case result of Inl e \<Rightarrow> Returns (Inl e) | Inr response \<Rightarrow> Answered response transport)"

definition run_exchange ::
    "('s, 'w, 'r) dns_router \<Rightarrow> rule_sets \<Rightarrow> string option \<Rightarrow> dns_Msg \<Rightarrow> 'w DNSQueryOptions \<Rightarrow> InboundContext \<Rightarrow> ('s, 'w) dns_state \<Rightarrow>
     ('w exchange_step \<times> ('s, 'w) dns_state) go" where
  "run_exchange R \<Sigma> tag message options m s =
     (if qo_Transport options \<noteq> None then
        go_bind (ask_client R tag message (qo_Transport options) options s) (\<lambda>(result, s).
          Ret (as_turn result (qo_Transport options), s))
      else if \<not> dr_legacyDNSMode R then
        go_bind (exchangeWithRules R \<Sigma> tag message True 0 (dr_rules R) options None m s) (\<lambda>(result, s).
          Ret (as_turn (er_result result) (er_transport result), s))
      else exchange_legacy R \<Sigma> tag message options 0 (dr_rules R) m s)"

definition dns_Exchange ::
    "('s, 'w, 'r) dns_router \<Rightarrow> rule_sets \<Rightarrow> string option \<Rightarrow> InboundContext option \<Rightarrow> dns_Msg \<Rightarrow> 'w DNSQueryOptions \<Rightarrow>
     ('s, 'w, 'r) dns_router_state \<Rightarrow> ((go_error + dns_Msg) \<times> ('s, 'w, 'r) dns_router_state) go" where
  "dns_Exchange R \<Sigma> tag ctx message options s =
     (case msg_Question message of
        [q] \<Rightarrow>
          if dr_closing R then Ret (Inl closed_error, s)
          else
            go_bind (run_exchange R \<Sigma> tag message options (exchange_context (dr_libs R) ctx q) (qs_dns s)) (\<lambda>(turn, d).
              let s = s\<lparr>qs_dns := d\<rparr>
              in Ret (case turn of
                        Answered response transport \<Rightarrow> (Inr response, map_reverse R response transport s)
                      | Returns result \<Rightarrow> (result, s)
                      | Continues j rest m \<Rightarrow> (Inl closed_error, s)))
      | _ \<Rightarrow> Ret (Inr (bad_question_size message), s))"

section \<open>Lookup\<close>

definition resolveLookupStrategy :: "('s, 'w, 'r) dns_router \<Rightarrow> 'w DNSQueryOptions \<Rightarrow> int" where
  "resolveLookupStrategy R options =
     (if qo_LookupStrategy options \<noteq> DomainStrategyAsIS then qo_LookupStrategy options
      else if qo_Strategy options \<noteq> DomainStrategyAsIS then qo_Strategy options
      else dr_defaultDomainStrategy R)"

definition withLookupQueryMetadata :: "InboundContext \<Rightarrow> 16 word \<Rightarrow> InboundContext" where
  "withLookupQueryMetadata m qtype =
     m\<lparr>ic_QueryType := qtype, ic_IPVersion := (if qtype = TypeA then 4 else if qtype = TypeAAAA then 6 else 0)\<rparr>"

definition filterAddressesByQueryType :: "addr list \<Rightarrow> 16 word \<Rightarrow> addr list" where
  "filterAddressesByQueryType addresses qtype =
     (if qtype = TypeA then filter Is4 addresses else if qtype = TypeAAAA then filter Is6 addresses else addresses)"

definition lookupWithRulesType ::
    "('s, 'w, 'r) dns_router \<Rightarrow> rule_sets \<Rightarrow> string option \<Rightarrow> string \<Rightarrow> InboundContext \<Rightarrow> 'w DNSQueryOptions \<Rightarrow>
     ('s, 'w, 'r) dns_router_state family_lookup" where
  "lookupWithRulesType R \<Sigma> tag domain m options qtype s =
     go_bind
       (exchangeWithRules R \<Sigma> tag (lookup_request (Fqdn (dr_libs R) domain) qtype) False 0 (dr_rules R) options None
         (withLookupQueryMetadata m qtype) (qs_dns s))
       (\<lambda>(result, d).
         let s = s\<lparr>qs_dns := d\<rparr>
         in case er_rejectAction result of
              Some (i, a) \<Rightarrow>
                go_bind (reject_Error a (world_Now (dr_libs R) (ds_world d)) (qs_drops s i)) (\<lambda>(e, drops).
                  Ret (case e of None \<Rightarrow> Inr [] | Some e \<Rightarrow> Inl e, s\<lparr>qs_drops := (qs_drops s)(i := drops)\<rparr>))
            | None \<Rightarrow>
                Ret (case er_result result of
                       Inl e \<Rightarrow> Inl e
                     | Inr response \<Rightarrow> map_sum id (\<lambda>as. filterAddressesByQueryType as qtype) (addresses_of response), s))"

definition lookupWithRules ::
    "('s, 'w, 'r) dns_router \<Rightarrow> rule_sets \<Rightarrow> bool \<Rightarrow> string option \<Rightarrow> string \<Rightarrow> InboundContext \<Rightarrow> 'w DNSQueryOptions \<Rightarrow>
     ('s, 'w, 'r) dns_router_state \<Rightarrow> ((addr list \<times> go_error option) \<times> ('s, 'w, 'r) dns_router_state) go" where
  "lookupWithRules R \<Sigma> first6 tag domain m options s =
     (let strategy = resolveLookupStrategy R options;
          lookupOptions = (if strategy \<noteq> DomainStrategyAsIS then options\<lparr>qo_Strategy := strategy\<rparr> else options)
      in lookup_families (dr_libs R) first6 (lookupWithRulesType R \<Sigma> tag domain m lookupOptions) strategy s)"

text \<open>The addresses a predefined answer lists.\<close>

fun predefined_addresses :: "dns_RR list \<Rightarrow> addr list" where
  "predefined_addresses [] = []"
| "predefined_addresses (r # rs) =
     (case rr_Data r of RR_A ip \<Rightarrow> [AddrFromIP ip] | RR_AAAA ip \<Rightarrow> [AddrFromIP ip] | _ \<Rightarrow> []) @ predefined_addresses rs"

text \<open>
  One turn of the loop of \<open>Lookup\<close> in the legacy mode: it returns, or ends with addresses and an error
  that are still to be completed, or goes on because a rule with an address filter got an error.
\<close>

datatype lookup_step =
    LookupReturns go_error
  | LookupEnds "addr list" "go_error option"
  | LookupContinues nat "action_rule list" InboundContext

definition rejected_lookup :: "go_error option \<Rightarrow> go_error" where
  "rejected_lookup e = EFmt ''rejected'' [] e"

definition client_lookup_turn ::
    "('s, 'w, 'r) dns_router \<Rightarrow> rule_sets \<Rightarrow> bool \<Rightarrow> string option \<Rightarrow> string \<Rightarrow> 'w DNSQueryOptions \<Rightarrow> 'w dns_transport option \<Rightarrow>
     dns_matched \<Rightarrow> InboundContext \<Rightarrow> ('s, 'w, 'r) dns_router_state \<Rightarrow> (lookup_step \<times> ('s, 'w, 'r) dns_router_state) go" where
  "client_lookup_turn R \<Sigma> first6 tag domain dnsOptions transport rule m s =
     (let responseCheck = addressLimitResponseCheck R \<Sigma> rule m
      in go_bind
           (client_Lookup (dr_libs R) (dr_client R) first6 tag transport domain (with_default_strategy R dnsOptions)
             responseCheck (qs_dns s))
           (\<lambda>((addrs, err), d).
             Ret (case rule of
                    Some (j, a, r, rest) \<Rightarrow>
                      if responseCheck = None \<or> err = None then LookupEnds addrs err else LookupContinues (Suc j) rest m
                  | None \<Rightarrow> LookupEnds addrs err, s\<lparr>qs_dns := d\<rparr>)))"

definition lookup_turn ::
    "('s, 'w, 'r) dns_router \<Rightarrow> rule_sets \<Rightarrow> bool \<Rightarrow> string option \<Rightarrow> string \<Rightarrow> 'w DNSQueryOptions \<Rightarrow> nat \<Rightarrow> action_rule list \<Rightarrow>
     InboundContext \<Rightarrow> ('s, 'w, 'r) dns_router_state \<Rightarrow> (lookup_step \<times> ('s, 'w, 'r) dns_router_state) go" where
  "lookup_turn R \<Sigma> first6 tag domain options i rules m s =
     (case matchDNS R \<Sigma> False True i rules options m of
        (transport, rule, dnsOptions, m) \<Rightarrow>
          (case rule of
             Some (j, RuleActionReject a, r, rest) \<Rightarrow>
               go_bind (reject_Error a (world_Now (dr_libs R) (ds_world (qs_dns s))) (qs_drops s j)) (\<lambda>(e, drops).
                 Ret (LookupReturns (rejected_lookup e), s\<lparr>qs_drops := (qs_drops s)(j := drops)\<rparr>))
           | Some (j, RuleActionPredefined a, r, rest) \<Rightarrow>
               Ret (if pre_Rcode a \<noteq> RcodeSuccess then LookupEnds [] (Some (ERcode (pre_Rcode a)))
                    else LookupEnds (predefined_addresses (pre_Answer a)) None, s)
           | _ \<Rightarrow> client_lookup_turn R \<Sigma> first6 tag domain dnsOptions transport rule m s))"

lemma lookup_turn_continues:
  assumes "lookup_turn R \<Sigma> first6 tag domain options i rules m s = Ret (LookupContinues j rest m', s')"
  shows "\<exists>tp j' a r o2 m2. matchDNS R \<Sigma> False True i rules options m = (tp, Some (j', a, r, rest), o2, m2)"
proof -
  obtain tp rule o2 m2 where d: "matchDNS R \<Sigma> False True i rules options m = (tp, rule, o2, m2)"
    using prod_cases4 by blast
  have "client_lookup_turn R \<Sigma> first6 tag domain o2 tp rule m2 s = Ret (LookupContinues j rest m', s')"
    using assms d
    by (auto simp: lookup_turn_def go_bind_Ret_iff split: option.splits rule_action.splits if_splits prod.splits)
  then obtain addrs err where
    "(case rule of
        Some (j, a, r, rest) \<Rightarrow>
          if addressLimitResponseCheck R \<Sigma> rule m2 = None \<or> err = None then LookupEnds addrs err else LookupContinues (Suc j) rest m2
      | None \<Rightarrow> LookupEnds addrs err) = LookupContinues j rest m'"
    by (auto simp: client_lookup_turn_def Let_def go_bind_Ret_iff)
  then obtain j' a r where "rule = Some (j', a, r, rest)" by (cases rule) (auto split: if_splits)
  with d show ?thesis by blast
qed

lemma lookup_turn_rest:
  "lookup_turn R \<Sigma> first6 tag domain options i rules m s = Ret (LookupContinues j rest m', s') \<Longrightarrow> length rest < length rules"
  by (auto dest!: lookup_turn_continues dest: matchDNS_rest)

function lookup_legacy ::
    "('s, 'w, 'r) dns_router \<Rightarrow> rule_sets \<Rightarrow> (nat \<Rightarrow> bool) \<Rightarrow> string option \<Rightarrow> string \<Rightarrow> 'w DNSQueryOptions \<Rightarrow> nat \<Rightarrow> action_rule list \<Rightarrow>
     InboundContext \<Rightarrow> ('s, 'w, 'r) dns_router_state \<Rightarrow> (lookup_step \<times> ('s, 'w, 'r) dns_router_state) go" where
  "lookup_legacy R \<Sigma> first6 tag domain options i rules m s =
     go_bind (lookup_turn R \<Sigma> (first6 i) tag domain options i rules m s) (\<lambda>(turn, s).
       case turn of
         LookupContinues j rest m \<Rightarrow> lookup_legacy R \<Sigma> first6 tag domain options j rest m s
       | _ \<Rightarrow> Ret (turn, s))"
  by pat_completeness auto
termination
  by (relation "measure (\<lambda>(R, \<Sigma>, first6, tag, domain, options, i, rules, m, s). length rules)")
     (auto dest: lookup_turn_rest)

declare lookup_legacy.simps [simp del]

text \<open>\<open>printResult\<close>, which completes the error.\<close>

definition printResult :: "string \<Rightarrow> addr list \<Rightarrow> go_error option \<Rightarrow> addr list \<times> go_error option" where
  "printResult domain addrs err =
     (let err = (if err = None \<and> addrs = [] then Some (ENew [''empty result'']) else err)
      in (addrs, map_option (\<lambda>e. ECause e [''lookup '', domain]) err))"

text \<open>\<open>first6\<close> says for each turn which of the two families of a lookup gets ahead.\<close>

definition run_lookup ::
    "('s, 'w, 'r) dns_router \<Rightarrow> rule_sets \<Rightarrow> (nat \<Rightarrow> bool) \<Rightarrow> string option \<Rightarrow> string \<Rightarrow> 'w DNSQueryOptions \<Rightarrow> InboundContext \<Rightarrow>
     ('s, 'w, 'r) dns_router_state \<Rightarrow> (lookup_step \<times> ('s, 'w, 'r) dns_router_state) go" where
  "run_lookup R \<Sigma> first6 tag domain options m s =
     (if qo_Transport options \<noteq> None then
        go_bind
          (client_Lookup (dr_libs R) (dr_client R) (first6 0) tag (qo_Transport options) domain (with_default_strategy R options)
            None (qs_dns s))
          (\<lambda>((addrs, err), d). Ret (LookupEnds addrs err, s\<lparr>qs_dns := d\<rparr>))
      else if \<not> dr_legacyDNSMode R then
        go_bind (lookupWithRules R \<Sigma> (first6 0) tag domain m options s) (\<lambda>((addrs, err), s). Ret (LookupEnds addrs err, s))
      else lookup_legacy R \<Sigma> first6 tag domain options 0 (dr_rules R) m s)"

definition dns_Lookup ::
    "('s, 'w, 'r) dns_router \<Rightarrow> rule_sets \<Rightarrow> (nat \<Rightarrow> bool) \<Rightarrow> string option \<Rightarrow> InboundContext option \<Rightarrow> string \<Rightarrow> 'w DNSQueryOptions \<Rightarrow>
     ('s, 'w, 'r) dns_router_state \<Rightarrow> ((addr list \<times> go_error option) \<times> ('s, 'w, 'r) dns_router_state) go" where
  "dns_Lookup R \<Sigma> first6 tag ctx domain options s =
     (if dr_closing R then Ret (([], Some closed_error), s)
      else
        go_bind (run_lookup R \<Sigma> first6 tag domain options (query_context ctx (FqdnToDomain (dr_libs R) domain)) s) (\<lambda>(turn, s).
          Ret (case turn of
                 LookupReturns e \<Rightarrow> ([], Some e)
               | LookupEnds addrs err \<Rightarrow> printResult domain addrs err
               | LookupContinues j rest m \<Rightarrow> ([], Some closed_error), s)))"

section \<open>Caches and networks\<close>

text \<open>The platform interface \<open>ClearCache\<close> would ask as well is a field that nothing sets.\<close>

definition dns_ClearCache :: "('s, 'w, 'r) dns_router \<Rightarrow> ('s, 'w, 'r) dns_router_state \<Rightarrow> ('s, 'w, 'r) dns_router_state" where
  "dns_ClearCache R s = s\<lparr>qs_dns := client_ClearCache (dr_libs R) (dr_client R) (qs_dns s)\<rparr>"

definition LookupReverseMapping ::
    "('s, 'w, 'r) dns_router \<Rightarrow> addr \<Rightarrow> ('s, 'w, 'r) dns_router_state \<Rightarrow> string option \<times> ('s, 'w, 'r) dns_router_state" where
  "LookupReverseMapping R ip s =
     (case dr_dnsReverseMapping R of
        None \<Rightarrow> (None, s)
      | Some C \<Rightarrow>
          (case lru_Get C (world_Now (dr_libs R) (ds_world (qs_dns s))) ip (qs_reverse s) of
             (domain, t) \<Rightarrow> (domain, s\<lparr>qs_reverse := t\<rparr>)))"

definition ResetNetwork :: "('s, 'w, 'r) dns_router \<Rightarrow> ('s, 'w, 'r) dns_router_state \<Rightarrow> ('s, 'w, 'r) dns_router_state" where
  "ResetNetwork R s =
     (let s = dns_ClearCache R s
      in s\<lparr>qs_dns := (qs_dns s)\<lparr>ds_world := fold tp_Reset (mg_parts (dr_transports R)) (ds_world (qs_dns s))\<rparr>\<rparr>)"

end
