(* ===== verification/DnsSafety.thy ===== *)
theory DnsSafety
  imports DnsRouter
begin

text \<open>
  What a start of the DNS router guarantees about its rules, and what follows: a query and a lookup
  return, and a lookup asks no fake-address transport. The last part is about the users that the rules
  are to the rule sets.
\<close>

section \<open>The rules of a started router\<close>

text \<open>The action of a rule, and one whose reject method is one of those that the options can have.\<close>

definition top_action :: "dns_rule_options \<Rightarrow> dns_rule_action_options" where
  "top_action r = (if ro_Type r = '''' \<or> ro_Type r = RuleTypeDefault then ro_Action r else ro_LogicalAction r)"

definition reject_parsed :: "dns_rule_options \<Rightarrow> bool" where
  "reject_parsed r \<longleftrightarrow> rj_Method (dns_RejectOptions (top_action r)) \<in> {''default'', ''drop'', ''reply''}"

text \<open>What each mode can rely on of an action; \<open>kind_of\<close> is the type of a transport.\<close>

definition action_ok :: "bool \<Rightarrow> (string \<Rightarrow> string option) \<Rightarrow> rule_action option \<Rightarrow> bool" where
  "action_ok legacy kind_of action =
     (case action of
        Some (RuleActionReject a) \<Rightarrow> Method a = ''default'' \<or> Method a = ''drop''
      | Some (RuleActionEvaluate server ro) \<Rightarrow>
          \<not> legacy \<and> kind_of server \<noteq> Some DNSTypeFakeIP \<and> Strategy ro = DomainStrategyAsIS
      | Some RuleActionRespond \<Rightarrow> \<not> legacy
      | Some (RuleActionDNSRoute server ro) \<Rightarrow> legacy \<or> Strategy ro = DomainStrategyAsIS
      | Some (RuleActionDNSRouteOptions ro) \<Rightarrow> legacy \<or> Strategy ro = DomainStrategyAsIS
      | _ \<Rightarrow> True)"

lemma NewDNSRule_action:
  assumes "NewDNSRule L legacy True r = Ret (Inr (action, rule))"
  shows "NewDNSRuleAction (top_action r) = Ret action \<and> check_dns_action True (top_action r) = None"
proof (cases r)
  case (RuleOptions ty d a mode rules neg la)
  show ?thesis
  proof (cases "ty = [] \<or> ty = RuleTypeDefault")
    case True
    with assms RuleOptions have "check_dns_action True a = None" "NewDefaultDNSRule L d a legacy = Ret (Inr (action, rule))"
      by (auto split: if_splits option.splits)
    then show ?thesis using True RuleOptions
      by (auto simp: NewDefaultDNSRule_def go_bind_Ret_iff result_iffs top_action_def)
  next
    case False
    with assms RuleOptions show ?thesis
      by (auto simp: go_bind_Ret_iff result_iffs top_action_def split: if_split_asm option.split_asm)
  qed
qed

lemma flags_merge_or:
  "mf_disabled (flags_merge f g) \<longleftrightarrow> mf_disabled f \<or> mf_disabled g"
  "mf_needed (flags_merge f g) \<longleftrightarrow> mf_needed f \<or> mf_needed g"
  "mf_neededFromStrategy (flags_merge f g) \<longleftrightarrow> mf_neededFromStrategy f \<or> mf_neededFromStrategy g"
  by (simp_all add: flags_merge_def)

definition flags_le :: "dnsRuleModeFlags \<Rightarrow> dnsRuleModeFlags \<Rightarrow> bool" where
  "flags_le f g \<longleftrightarrow> (mf_disabled f \<longrightarrow> mf_disabled g) \<and> (mf_needed f \<longrightarrow> mf_needed g) \<and>
     (mf_neededFromStrategy f \<longrightarrow> mf_neededFromStrategy g)"

lemma merge_flags_le:
  "merge_flags what i f xs fl = Inr fl' \<Longrightarrow> flags_le fl fl' \<and> (\<forall>x \<in> set xs. \<exists>g. f x = Inr g \<and> flags_le g fl')"
proof (induction xs arbitrary: i fl)
  case (Cons x xs)
  then obtain g where g: "f x = Inr g" "merge_flags what (Suc i) f xs (flags_merge fl g) = Inr fl'"
    by (auto split: sum.splits)
  from Cons.IH [OF g(2)] g(1) show ?case by (auto simp: flags_le_def flags_merge_or)
qed (simp add: flags_le_def)

lemma rule_set_flags_le: "rule_set_flags \<Sigma> ov src tags fl = Inr fl' \<Longrightarrow> flags_le fl fl'"
proof (induction tags arbitrary: fl)
  case (Cons t tags)
  then obtain md :: RuleSetMetadata where "rule_set_flags \<Sigma> ov src tags
      (fl\<lparr>mf_disabled := mf_disabled fl \<or> ContainsDNSQueryTypeRule md,
          mf_needed := mf_needed fl \<or> \<not> src \<and> ContainsIPCIDRRule md\<rparr>) = Inr fl'"
    by (cases "lookupDNSRuleSetMetadata \<Sigma> t ov") auto
  from Cons.IH [OF this] show ?case by (simp add: flags_le_def)
qed (simp add: flags_le_def)

text \<open>The flags of a rule that is built say what its action asks for.\<close>

definition top_flags :: "dns_rule_action_options \<Rightarrow> dnsRuleModeFlags" where
  "top_flags a =
     \<lparr>mf_disabled = (dns_Action a = ''evaluate'' \<or> dns_Action a = ''respond''), mf_needed = dnsRuleActionHasStrategy a,
      mf_neededFromStrategy = dnsRuleActionHasStrategy a\<rparr>"

lemma rule_flags:
  assumes "dnsRuleModeRequirementsInRule router ov r = Inr fl"
    and "ro_Type r = '''' \<or> ro_Type r = RuleTypeDefault \<or> ro_Type r = RuleTypeLogical"
  shows "flags_le (top_flags (top_action r)) fl"
proof (cases r)
  case (RuleOptions ty d a mode rules neg la)
  show ?thesis
  proof (cases "ty = [] \<or> ty = RuleTypeDefault")
    case True
    define fl0 where "fl0 = \<lparr>mf_disabled = defaultRuleDisablesLegacyDNSMode d a,
      mf_needed = (defaultRuleNeedsLegacyDNSModeFromAddressFilter d \<or> dnsRuleActionHasStrategy a),
      mf_neededFromStrategy = dnsRuleActionHasStrategy a\<rparr>"
    have fl0: "flags_le (top_flags a) fl0"
      by (simp add: flags_le_def top_flags_def fl0_def defaultRuleDisablesLegacyDNSMode_def)
    have "fl = fl0 \<or> (\<exists>\<Sigma>. rule_set_flags \<Sigma> ov (o_RuleSetIPCIDRMatchSource d) (o_RuleSet d) fl0 = Inr fl)"
      using assms(1) True RuleOptions
      by (auto simp: dnsRuleModeRequirementsInDefaultRule_def fl0_def [symmetric] split: if_splits option.splits)
    then have "flags_le fl0 fl" by (auto simp: flags_le_def dest: rule_set_flags_le)
    with fl0 True RuleOptions show ?thesis by (auto simp: flags_le_def top_action_def)
  next
    case False
    with assms RuleOptions have "merge_flags ''sub rule['' 0 (dnsRuleModeRequirementsInRule router ov) rules
        \<lparr>mf_disabled = (action_type la = ''evaluate'' \<or> action_type la = ''respond''),
         mf_needed = dnsRuleActionHasStrategy la, mf_neededFromStrategy = dnsRuleActionHasStrategy la\<rparr> = Inr fl"
      by simp
    from merge_flags_le [OF this] False RuleOptions show ?thesis
      by (auto simp: flags_le_def top_action_def top_flags_def action_type_def)
  qed
qed

lemma new_rules_actions:
  "new_rules L legacy i rs = Ret (Inr rules) \<Longrightarrow>
   list_all2 (\<lambda>r (action, rule). NewDNSRule L legacy True r = Ret (Inr (action, rule))) rs rules"
proof (induction rs arbitrary: i rules)
  case (Cons r rs)
  from Cons.prems obtain rule where r: "NewDNSRule L legacy True r = Ret (Inr rule)"
    by (cases "NewDNSRule L legacy True r") (auto split: sum.split_asm)
  with Cons.prems obtain rest where "new_rules L legacy (Suc i) rs = Ret (Inr rest)" "rules = rule # rest"
    by (auto simp: go_bind_Ret_iff result_iffs)
  with Cons.IH r show ?case by (cases rule) simp
qed simp

lemma start_rules_actions: "start_rules i rules \<Sigma> = Ret (e, rules', \<Sigma>') \<Longrightarrow> map fst rules' = map fst rules"
proof (induction i rules \<Sigma> arbitrary: e rules' \<Sigma>' rule: start_rules.induct)
  case (2 i a r rules \<Sigma>)
  from "2.prems" obtain e1 r' \<Sigma>1 where r: "dns_rule_Start r \<Sigma> = Ret (e1, r', \<Sigma>1)" by (auto simp: go_bind_Ret_iff)
  show ?case
  proof (cases e1)
    case None
    with "2.prems" r obtain e2 rest \<Sigma>2 where "start_rules (Suc i) rules \<Sigma>1 = Ret (e2, rest, \<Sigma>2)" "rules' = (a, r') # rest"
      by (auto simp: go_bind_Ret_iff)
    with "2.IH" None show ?thesis by simp
  qed (use "2.prems" r in auto)
qed simp

lemma validate_fakeip_ok:
  "validate_fakeip i kind_of rules = None \<Longrightarrow> r \<in> set rules \<Longrightarrow> dnsRuleActionType r = ''evaluate'' \<Longrightarrow>
   dnsRuleActionServer r \<noteq> '''' \<Longrightarrow> kind_of (dnsRuleActionServer r) \<noteq> Some DNSTypeFakeIP"
  by (induction i kind_of rules rule: validate_fakeip.induct) (auto split: if_splits)

lemma legacy_mode_flags:
  assumes "resolveLegacyDNSMode router rules ov = Inr (legacy, fl)" and "r \<in> set rules"
    and "ro_Type r = '''' \<or> ro_Type r = RuleTypeDefault \<or> ro_Type r = RuleTypeLogical"
  shows "(legacy \<longrightarrow> dns_Action (top_action r) \<noteq> ''evaluate'' \<and> dns_Action (top_action r) \<noteq> ''respond'') \<and>
    (\<not> legacy \<longrightarrow> \<not> dnsRuleActionHasStrategy (top_action r))"
proof -
  from assms(1) have m: "merge_flags ''dns rule['' 0 (dnsRuleModeRequirementsInRule router ov) rules no_flags = Inr fl"
    and l: "legacy \<longrightarrow> \<not> mf_disabled fl" "\<not> legacy \<longrightarrow> mf_disabled fl \<and> \<not> mf_neededFromStrategy fl \<or> \<not> mf_needed fl"
    by (auto simp: resolveLegacyDNSMode_def dnsRuleModeRequirements_def split: sum.splits if_splits)
  from merge_flags_le [OF m] assms(2) obtain g where g: "dnsRuleModeRequirementsInRule router ov r = Inr g" "flags_le g fl"
    by blast
  from rule_flags [OF g(1) assms(3)] g(2) l show ?thesis by (auto simp: flags_le_def top_flags_def)
qed

lemma built_type:
  "NewDNSRule L legacy check r = Ret (Inr x) \<Longrightarrow> ro_Type r = '''' \<or> ro_Type r = RuleTypeDefault \<or> ro_Type r = RuleTypeLogical"
  by (cases r) (auto split: if_splits)

lemma top_action_type:
  "ro_Type r = '''' \<or> ro_Type r = RuleTypeDefault \<or> ro_Type r = RuleTypeLogical \<Longrightarrow>
   dnsRuleActionType r = action_type (top_action r) \<and> dnsRuleActionServer r = do_Server (dns_RouteOptions (top_action r))"
  by (auto simp: dnsRuleActionType_def dnsRuleActionServer_def top_action_def)

lemma built_action_ok:
  assumes mode: "resolveLegacyDNSMode router rules ov = Inr (legacy, fl)" and r: "r \<in> set rules"
    and fakeip: "validate_fakeip 0 kind_of rules = None" and "reject_parsed r"
    and new: "NewDNSRule L legacy True r = Ret (Inr (action, rule))"
  shows "action_ok legacy kind_of action"
proof -
  let ?a = "top_action r"
  note ty = built_type [OF new]
  have a: "NewDNSRuleAction ?a = Ret action" "check_dns_action True ?a = None" using NewDNSRule_action [OF new] by simp_all
  note flags = legacy_mode_flags [OF mode r ty]
  have ev: "dns_Action ?a = ''evaluate'' \<Longrightarrow> kind_of (do_Server (dns_RouteOptions ?a)) \<noteq> Some DNSTypeFakeIP"
    using validate_fakeip_ok [OF fakeip r] top_action_type [OF ty] a(2)
    by (cases "do_Server (dns_RouteOptions ?a) = []")
       (simp_all add: check_dns_action_def validateDNSRuleAction_def action_type_def)
  have rej: "dns_Action ?a = ''reject'' \<Longrightarrow> rj_Method (dns_RejectOptions ?a) \<in> {''default'', ''drop''}"
    using assms(4) a(2) by (auto simp: reject_parsed_def check_dns_action_def validateDNSRuleAction_def split: if_splits)
  show ?thesis using a(1) flags ev rej
    by (auto simp: NewDNSRuleAction_def action_ok_def unknown_action_def build_dns_options_def dnsRuleActionHasStrategy_def
        split: if_splits)
qed

lemma buildRules_started:
  assumes "buildRules L (Some kind_of) True raw \<Sigma> = Ret (Inr (rules, legacy, fl), \<Sigma>')"
  shows "\<exists>new. resolveLegacyDNSMode (Some \<Sigma>) raw Map.empty = Inr (legacy, fl) \<and> validate_fakeip 0 kind_of raw = None \<and>
    new_rules L legacy 0 raw = Ret (Inr new) \<and> start_rules 0 new \<Sigma> = Ret (None, rules, \<Sigma>')"
proof -
  obtain legacy' fl' where m: "resolveLegacyDNSMode (Some \<Sigma>) raw Map.empty = Inr (legacy', fl')"
    using assms by (auto simp: buildRules_def split: option.split_asm sum.split_asm)
  obtain new where n: "new_rules L legacy' 0 raw = Ret (Inr new)"
    using assms m
    by (cases "new_rules L legacy' 0 raw")
       (auto simp: buildRules_def validateEvaluateFakeIPRules_def split: option.split_asm sum.split_asm if_split_asm)
  obtain e started \<Sigma>1 where "start_rules 0 new \<Sigma> = Ret (e, started, \<Sigma>1)"
    using assms m n by (cases "start_rules 0 new \<Sigma>")
       (auto simp: buildRules_def validateEvaluateFakeIPRules_def split: option.split_asm if_split_asm)
  with assms m n show ?thesis
    by (auto simp: buildRules_def validateEvaluateFakeIPRules_def go_bind_Ret_iff split: option.split_asm if_split_asm)
qed

lemma start_actions:
  assumes "dns_Start L StartStateStart R \<Sigma> = Ret (None, R', \<Sigma>')" and "\<not> dr_closing R"
    and "\<forall>r \<in> set (dr_rawRules R). reject_parsed r"
  shows "\<forall>(action, rule) \<in> set (dr_rules R'). action_ok (dr_legacyDNSMode R') (transport_kind R') action"
proof -
  from assms(1,2) obtain rules legacy fl where b: "buildRules L (Some (transport_kind R)) True (dr_rawRules R) \<Sigma> = Ret (Inr (rules, legacy, fl), \<Sigma>')"
    and R': "R' = R\<lparr>dr_rules := rules, dr_legacyDNSMode := legacy, dr_started := True\<rparr>"
    by (cases "buildRules L (Some (transport_kind R)) True (dr_rawRules R) \<Sigma>") (auto simp: dns_Start_def split: sum.split_asm)
  from buildRules_started [OF b] obtain new where mode: "resolveLegacyDNSMode (Some \<Sigma>) (dr_rawRules R) Map.empty = Inr (legacy, fl)"
    and fakeip: "validate_fakeip 0 (transport_kind R) (dr_rawRules R) = None"
    and new: "new_rules L legacy 0 (dr_rawRules R) = Ret (Inr new)" and started: "start_rules 0 new \<Sigma> = Ret (None, rules, \<Sigma>')"
    by blast
  have "action_ok legacy (transport_kind R) action" if "(action, rule) \<in> set new" for action rule
  proof -
    from that new_rules_actions [OF new] obtain r where "r \<in> set (dr_rawRules R)" "NewDNSRule L legacy True r = Ret (Inr (action, rule))"
      by (fastforce simp: in_set_conv_nth list_all2_conv_all_nth)
    then show ?thesis using built_action_ok [OF mode _ fakeip] assms(3) by blast
  qed
  then have "\<forall>action \<in> set (map fst new). action_ok legacy (transport_kind R) action" by auto
  then have "\<forall>action \<in> set (map fst rules). action_ok legacy (transport_kind R) action" using start_rules_actions [OF started] by simp
  moreover have "transport_kind R' = transport_kind R" by (simp add: R' transport_kind_def fun_eq_iff)
  ultimately show ?thesis by (auto simp: R')
qed

section \<open>Queries and lookups return\<close>

text \<open>A message as a parser makes it: a record of the type \<open>OPT\<close> has the data of one.\<close>

definition well_typed :: "dns_Msg \<Rightarrow> bool" where
  "well_typed m \<longleftrightarrow> (\<forall>r \<in> set (msg_Extra m). rr_Rrtype r = TypeOPT \<longrightarrow> opt_Option r \<noteq> None)"

lemma write_subnet_option: "opt_Option (write_subnet p r) \<noteq> None"
  by (simp add: write_subnet_def opt_Option_def)

lemma write_first_subnet_set: "set (write_first_subnet p rs) \<subseteq> set rs \<union> write_subnet p ` set rs"
  by (induction rs) auto

lemma with_subnet_typed:
  assumes "well_typed m"
  shows "well_typed (with_subnet c options m)"
proof -
  have "well_typed (SetClientSubnet m p)" for p
    unfolding well_typed_def
  proof
    fix r assume "r \<in> set (msg_Extra (SetClientSubnet m p))"
    then have "r \<in> set (set_subnet p (msg_Extra m))" by (simp add: SetClientSubnet_def)
    then have "r \<in> set (msg_Extra m) \<or> (\<exists>r'. r = write_subnet p r')"
      using write_first_subnet_set [of p "msg_Extra m"]
      by (auto simp: set_subnet_def dest: in_set_butlastD split: if_split_asm)
    then show "rr_Rrtype r = TypeOPT \<longrightarrow> opt_Option r \<noteq> None"
    proof
      assume "r \<in> set (msg_Extra m)"
      then show ?thesis using assms by (simp add: well_typed_def)
    next
      assume "\<exists>r'. r = write_subnet p r'"
      then show ?thesis using write_subnet_option [of p] by (elim exE) (simp only: simp_thms)
    qed
  qed
  then show ?thesis using assms by (simp add: with_subnet_def Let_def)
qed

lemma with_subnet_question [simp]: "msg_Question (with_subnet c options m) = msg_Question m"
  by (simp add: with_subnet_def SetClientSubnet_def Let_def)

lemma isSimpleRequest_returns: "well_typed m \<Longrightarrow> returns (isSimpleRequest m options)"
  by (auto simp: isSimpleRequest_def well_typed_def split: list.split option.split)

lemma client_Exchange_returns:
  assumes "well_typed m"
  shows "returns (client_Exchange L c tag (Some tp) m options checker s)"
proof (cases "msg_Question m")
  case (Cons q qs)
  have "returns (isSimpleRequest (with_subnet c options m) options)"
    by (rule isSimpleRequest_returns [OF with_subnet_typed [OF assms]])
  then obtain simple where "isSimpleRequest (with_subnet c options m) options = Ret simple" by (auto simp: returns_iff)
  then show ?thesis using Cons
    by (auto simp: client_Exchange_def load_question_def Let_def returns_go_bind split: prod.split option.split)
qed (simp add: client_Exchange_def)

lemma lookup_request_typed: "well_typed (lookup_request name qtype)"
  by (simp add: well_typed_def lookup_request_def)

lemma lookupToExchange_returns: "returns (lookupToExchange L c tag (Some tp) name qtype options checker s)"
  using client_Exchange_returns [OF lookup_request_typed]
  by (auto simp: lookupToExchange_def questionCache_def load_question_def returns_go_bind split: prod.split)

lemma lookup_families_returns:
  assumes "\<And>qtype s. returns (f qtype s)"
  shows "returns (lookup_families L first6 f strategy s)"
  using assms by (auto simp: lookup_families_def lookup_both_def returns_go_bind Let_def split: prod.split)

lemma client_Lookup_returns: "returns (client_Lookup L c first6 tag (Some tp) domain options checker s)"
  by (simp add: client_Lookup_def Let_def lookup_families_returns lookupToExchange_returns)

lemma predefined_Response_returns: "msg_Question m \<noteq> [] \<Longrightarrow> returns (predefined_Response a m)"
  by (simp add: predefined_Response_def split: list.split)

lemma ask_client_returns: "well_typed m \<Longrightarrow> transport \<noteq> None \<Longrightarrow> returns (ask_client R tag m transport options s)"
  using client_Exchange_returns by (auto simp: ask_client_def)

lemma evaluate_returns: "well_typed m \<Longrightarrow> returns (evaluate R tag m server ro options s)"
  by (auto simp: evaluate_def returns_go_bind ask_client_returns split: option.split)

lemma exchangeWithRules_returns:
  assumes "well_typed m" "msg_Question m \<noteq> []" "mg_default (dr_transports R) \<noteq> None"
  shows "returns (exchangeWithRules R \<Sigma> tag m allowFakeIP i rules options ev md s)"
proof (induction rules arbitrary: i options ev md s)
  case (Cons p rules)
  then show ?case using assms
    by (cases p)
       (auto simp: Let_def returns_go_bind ask_client_returns evaluate_returns predefined_Response_returns
          split: option.split rule_action.split dnsRouteStatus.split)
qed (simp add: assms returns_go_bind ask_client_returns split: prod.split)

text \<open>A reject action that ends the loop has a method that \<open>Error\<close> knows.\<close>

lemma exchangeWithRules_reject:
  "exchangeWithRules R \<Sigma> tag m allowFakeIP i rules options ev md s = Ret (result, s') \<Longrightarrow>
   er_rejectAction result = Some (j, a) \<Longrightarrow> Method a = ''default'' \<or> Method a = ''drop''"
proof (induction rules arbitrary: i options ev md s)
  case (Cons p rules)
  obtain action r where p: "p = (action, r)" by force
  show ?case
    using Cons.prems Cons.IH unfolding p
    by (auto simp: Let_def go_bind_Ret_iff exchange_result_def
          split: if_split_asm option.split_asm rule_action.split_asm dnsRouteStatus.split_asm)
qed (auto simp: go_bind_Ret_iff exchange_result_def)

text \<open>What \<open>matchDNS\<close> ends with: the default transport, a transport of a rule, or a rule that answers itself.\<close>

definition match_result :: "('s, 'w, 'r) dns_router \<Rightarrow> action_rule list \<Rightarrow> 'w dns_transport option \<Rightarrow> dns_matched \<Rightarrow> bool" where
  "match_result R rules tp rule =
     (case rule of
        None \<Rightarrow> tp = mg_default (dr_transports R)
      | Some (j, a, r, rest) \<Rightarrow>
          (Some a, r) \<in> set rules \<and> set rest \<subseteq> set rules \<and>
          ((\<exists>server ro t. a = RuleActionDNSRoute server ro \<and> mg_Get (dr_transports R) server = Some t \<and> tp = Some t) \<or>
           (\<exists>x. a = RuleActionReject x) \<or> (\<exists>x. a = RuleActionPredefined x)))"

lemma match_result_Cons: "match_result R rules tp rule \<Longrightarrow> match_result R (p # rules) tp rule"
  by (auto simp: match_result_def split: option.splits)

lemma matchDNS_result:
  "matchDNS R \<Sigma> af aq i rules options m = (tp, rule, options', m') \<Longrightarrow> match_result R rules tp rule"
proof (induction rules arbitrary: i options m)
  case (Cons p rules)
  obtain action r where p: "p = (action, r)" by force
  show ?case
    using Cons.prems Cons.IH unfolding p
    by (auto simp: Let_def match_result_Cons split: if_split_asm option.split_asm rule_action.split_asm)
       (auto simp: match_result_def, metis+)
qed (simp add: match_result_def)

lemma reject_handled: "Method a = ''default'' \<or> Method a = ''drop'' \<Longrightarrow> returns (reject_Error a t drops)"
  by (auto simp: reject_Error_def Let_def)

definition actions_ok :: "('s, 'w, 'r) dns_router \<Rightarrow> action_rule list \<Rightarrow> bool" where
  "actions_ok R rules \<longleftrightarrow> (\<forall>(action, rule) \<in> set rules. action_ok (dr_legacyDNSMode R) (transport_kind R) action)"

lemma actions_ok_reject: "actions_ok R rules \<Longrightarrow> (Some (RuleActionReject a), r) \<in> set rules \<Longrightarrow> Method a = ''default'' \<or> Method a = ''drop''"
  by (fastforce simp: actions_ok_def action_ok_def)

lemma exchange_turn_returns:
  assumes "well_typed m" "msg_Question m \<noteq> []" "mg_default (dr_transports R) \<noteq> None" "actions_ok R rules"
  shows "returns (exchange_turn R \<Sigma> tag m options i rules md s)"
proof -
  obtain tp rule o2 m2 where d: "matchDNS R \<Sigma> True (isAddressQuery m) i rules options md = (tp, rule, o2, m2)"
    using prod_cases4 by blast
  note r = matchDNS_result [OF d]
  have ask: "tp \<noteq> None \<Longrightarrow> returns (ask_transport R \<Sigma> tag m o2 tp rule m2 s)"
    using client_Exchange_returns [OF assms(1)] by (auto simp: ask_transport_def Let_def returns_go_bind)
  show ?thesis
  proof (cases "tp = None")
    case True
    with r assms(3) obtain j a r' rest where rule: "rule = Some (j, a, r', rest)" "(Some a, r') \<in> set rules"
      "(\<exists>x. a = RuleActionReject x) \<or> (\<exists>x. a = RuleActionPredefined x)"
      by (auto simp: match_result_def split: option.splits)
    have "Method x = ''default'' \<or> Method x = ''drop''" if "a = RuleActionReject x" for x
      using actions_ok_reject [OF assms(4)] rule(2) that by blast
    with rule(1,3) predefined_Response_returns [OF assms(2)] d show ?thesis
      by (auto simp: exchange_turn_def reject_method_def predefined_of_def returns_go_bind)
  next
    case False
    with ask d predefined_Response_returns [OF assms(2)] show ?thesis
      by (auto simp: exchange_turn_def returns_go_bind split: option.split)
  qed
qed

lemma exchange_turn_rules:
  assumes "exchange_turn R \<Sigma> tag m options i rules md s = Ret (Continues j rest m', s')"
  shows "set rest \<subseteq> set rules"
  using exchange_turn_continues [OF assms] by (auto dest!: matchDNS_result simp: match_result_def)

lemma exchange_legacy_returns:
  assumes "well_typed m" "msg_Question m \<noteq> []" "mg_default (dr_transports R) \<noteq> None"
  shows "actions_ok R rules \<Longrightarrow> returns (exchange_legacy R \<Sigma> tag m options i rules md s)"
proof (induction "length rules" arbitrary: rules i md s rule: less_induct)
  case less
  obtain turn s1 where t: "exchange_turn R \<Sigma> tag m options i rules md s = Ret (turn, s1)"
    using exchange_turn_returns [OF assms less.prems, of \<Sigma> tag options i md s] by (auto simp: returns_iff)
  have "returns (exchange_legacy R \<Sigma> tag m options j rest m' s1)" if "turn = Continues j rest m'" for j rest m'
    using less.hyps [OF exchange_turn_rest] exchange_turn_rules less.prems t that by (fastforce simp: actions_ok_def)
  then show ?case by (subst exchange_legacy.simps) (simp add: t split: exchange_step.split)
qed

lemma client_lookup_turn_returns: "returns (client_lookup_turn R \<Sigma> first6 tag domain options (Some tp) rule md s)"
  using client_Lookup_returns by (auto simp: client_lookup_turn_def Let_def returns_go_bind split: prod.split)

lemma lookup_turn_returns:
  assumes "mg_default (dr_transports R) \<noteq> None" "actions_ok R rules"
  shows "returns (lookup_turn R \<Sigma> first6 tag domain options i rules md s)"
proof -
  obtain tp rule o2 m2 where d: "matchDNS R \<Sigma> False True i rules options md = (tp, rule, o2, m2)"
    using prod_cases4 by blast
  from matchDNS_result [OF d] consider (ask) t where "tp = Some t" "\<forall>j x r rest. rule \<noteq> Some (j, RuleActionReject x, r, rest)"
    | (reject) j x r rest where "rule = Some (j, RuleActionReject x, r, rest)" "(Some (RuleActionReject x), r) \<in> set rules"
    | (predefined) j x r rest where "rule = Some (j, RuleActionPredefined x, r, rest)"
    using assms(1) by (cases rule) (auto simp: match_result_def)
  then show ?thesis
  proof cases
    case ask
    then show ?thesis using client_lookup_turn_returns d
      by (auto simp: lookup_turn_def split: option.split rule_action.split)
  next
    case reject
    with d reject_handled [OF actions_ok_reject [OF assms(2)]] show ?thesis
      by (auto simp: lookup_turn_def returns_go_bind split: prod.split)
  next
    case predefined
    with d show ?thesis by (simp add: lookup_turn_def)
  qed
qed

lemma lookup_turn_rules:
  "lookup_turn R \<Sigma> first6 tag domain options i rules md s = Ret (LookupContinues j rest m', s') \<Longrightarrow> set rest \<subseteq> set rules"
  by (auto dest!: lookup_turn_continues matchDNS_result simp: match_result_def)

lemma lookup_legacy_returns:
  assumes "mg_default (dr_transports R) \<noteq> None"
  shows "actions_ok R rules \<Longrightarrow> returns (lookup_legacy R \<Sigma> first6 tag domain options i rules md s)"
proof (induction "length rules" arbitrary: rules i md s rule: less_induct)
  case less
  obtain turn s1 where t: "lookup_turn R \<Sigma> (first6 i) tag domain options i rules md s = Ret (turn, s1)"
    using lookup_turn_returns [OF assms less.prems, of \<Sigma> "first6 i" tag domain options i md s] by (auto simp: returns_iff)
  have "returns (lookup_legacy R \<Sigma> first6 tag domain options j rest m' s1)" if "turn = LookupContinues j rest m'" for j rest m'
    using less.hyps [OF lookup_turn_rest] lookup_turn_rules less.prems t that by (fastforce simp: actions_ok_def)
  then show ?case by (subst lookup_legacy.simps) (simp add: t split: lookup_step.split)
qed

lemma lookup_request_question [simp]: "msg_Question (lookup_request name qtype) \<noteq> []"
  by (simp add: lookup_request_def)

lemma lookupWithRulesType_returns:
  assumes "mg_default (dr_transports R) \<noteq> None"
  shows "returns (lookupWithRulesType R \<Sigma> tag domain md options qtype s)"
  using exchangeWithRules_returns [OF lookup_request_typed lookup_request_question assms] reject_handled
    exchangeWithRules_reject
  by (auto simp: lookupWithRulesType_def returns_go_bind Let_def split: prod.split option.split) fastforce

lemma dns_Exchange_returns:
  assumes "well_typed m" "mg_default (dr_transports R) \<noteq> None" "actions_ok R (dr_rules R)"
  shows "returns (dns_Exchange R \<Sigma> tag ctx m options s)"
proof -
  have "returns (run_exchange R \<Sigma> tag m options md d)" if "msg_Question m \<noteq> []" for md d
    by (simp add: run_exchange_def returns_go_bind ask_client_returns [OF assms(1)]
        exchange_legacy_returns [OF assms(1) that assms(2,3)] exchangeWithRules_returns [OF assms(1) that assms(2)] split: prod.split)
  then show ?thesis by (auto simp: dns_Exchange_def returns_go_bind Let_def split: list.split prod.split)
qed

lemma dns_Lookup_returns:
  assumes "mg_default (dr_transports R) \<noteq> None" "actions_ok R (dr_rules R)"
  shows "returns (dns_Lookup R \<Sigma> first6 tag ctx domain options s)"
proof -
  have "returns (run_lookup R \<Sigma> first6 tag domain options md s)" for md
    by (cases "qo_Transport options")
       (simp_all add: run_lookup_def lookupWithRules_def Let_def returns_go_bind lookup_legacy_returns [OF assms]
         lookup_families_returns [OF lookupWithRulesType_returns [OF assms(1)]] client_Lookup_returns split: prod.split)
  then show ?thesis by (auto simp: dns_Lookup_def returns_go_bind)
qed

section \<open>Lookups and fake addresses\<close>

text \<open>Transports that differ in the fake-address transports only, which are not the default.\<close>

definition same_but_fakeip :: "'w dns_transport transport_manager \<Rightarrow> 'w dns_transport transport_manager \<Rightarrow> bool" where
  "same_but_fakeip T T' \<longleftrightarrow>
     mg_default T' = mg_default T \<and> (\<forall>tag. rel_option (\<lambda>a b. a = b \<or> is_fakeip a \<and> is_fakeip b) (mg_Get T tag) (mg_Get T' tag))"

lemma same_Get:
  assumes "same_but_fakeip T T'"
  obtains "mg_Get T' tag = mg_Get T tag"
  | a b where "mg_Get T tag = Some a" "mg_Get T' tag = Some b" "is_fakeip a" "is_fakeip b"
proof -
  have "rel_option (\<lambda>a b. a = b \<or> is_fakeip a \<and> is_fakeip b) (mg_Get T tag) (mg_Get T' tag)"
    using assms by (simp add: same_but_fakeip_def)
  then show thesis using that by (cases rule: option.rel_cases) auto
qed

lemma matchDNS_same:
  assumes "same_but_fakeip (dr_transports R) T'"
  shows "matchDNS (R\<lparr>dr_transports := T'\<rparr>) \<Sigma> False aq i rules options m = matchDNS R \<Sigma> False aq i rules options m"
proof (induction rules arbitrary: aq i options m)
  case Nil
  then show ?case using assms by (simp add: same_but_fakeip_def)
next
  case (Cons p rules)
  obtain action r where p: "p = (action, r)" by force
  show ?case
  proof (cases "\<exists>server ro. action = Some (RuleActionDNSRoute server ro)")
    case True
    then obtain server ro where a: "action = Some (RuleActionDNSRoute server ro)" by blast
    from same_Get [OF assms, of server] show ?thesis
      unfolding p a by cases (simp_all add: Let_def Cons.IH split: option.split)
  next
    case False
    then show ?thesis unfolding p
      by (cases action) (auto simp: Let_def Cons.IH split: rule_action.split)
  qed
qed

lemma resolveDNSRoute_same:
  assumes "same_but_fakeip (dr_transports R) T'"
  shows "resolveDNSRoute (R\<lparr>dr_transports := T'\<rparr>) server ro False options = resolveDNSRoute R server ro False options"
  using same_Get [OF assms, of server] by cases (simp_all add: resolveDNSRoute_def)

lemma ask_client_same [simp]: "ask_client (R\<lparr>dr_transports := T'\<rparr>) = ask_client R"
  by (simp add: ask_client_def with_default_strategy_def fun_eq_iff)

lemma evaluate_same:
  assumes "same_but_fakeip (dr_transports R) T'" "transport_kind R server \<noteq> Some DNSTypeFakeIP"
  shows "evaluate (R\<lparr>dr_transports := T'\<rparr>) tag m server ro options s = evaluate R tag m server ro options s"
  using same_Get [OF assms(1), of server] assms(2)
  by cases (simp_all add: evaluate_def transport_kind_def is_fakeip_def split: option.split)

lemma exchangeWithRules_same:
  assumes "same_but_fakeip (dr_transports R) T'"
  shows "actions_ok R rules \<Longrightarrow>
    exchangeWithRules (R\<lparr>dr_transports := T'\<rparr>) \<Sigma> tag m False i rules options ev md s =
    exchangeWithRules R \<Sigma> tag m False i rules options ev md s"
proof (induction rules arbitrary: i options ev md s)
  case Nil
  then show ?case using assms by (simp add: same_but_fakeip_def)
next
  case (Cons p rules)
  obtain action r where p: "p = (action, r)" by force
  have ok: "actions_ok R rules" using Cons.prems by (simp add: actions_ok_def)
  have "transport_kind R server \<noteq> Some DNSTypeFakeIP" if "action = Some (RuleActionEvaluate server ro)" for server ro
    using Cons.prems that p by (simp add: actions_ok_def action_ok_def)
  then have ev: "action = Some (RuleActionEvaluate server ro) \<Longrightarrow>
      evaluate (R\<lparr>dr_transports := T'\<rparr>) tag m server ro options s = evaluate R tag m server ro options s" for server ro
    by (simp add: evaluate_same [OF assms])
  show ?case unfolding p
    by (auto simp: Let_def Cons.IH [OF ok] ev resolveDNSRoute_same [OF assms] intro!: go_bind_cong
        split: option.split rule_action.split dnsRouteStatus.split)
qed

lemma addressLimitResponseCheck_same: "addressLimitResponseCheck (R\<lparr>dr_transports := T'\<rparr>) = addressLimitResponseCheck R"
  by (simp add: addressLimitResponseCheck_def fun_eq_iff split: option.split)

lemma with_default_strategy_same: "with_default_strategy (R\<lparr>dr_transports := T'\<rparr>) = with_default_strategy R"
  by (simp add: with_default_strategy_def fun_eq_iff)

lemma lookup_turn_same:
  assumes "same_but_fakeip (dr_transports R) T'"
  shows "lookup_turn (R\<lparr>dr_transports := T'\<rparr>) = lookup_turn R"
proof -
  have "client_lookup_turn (R\<lparr>dr_transports := T'\<rparr>) = client_lookup_turn R"
    by (simp add: fun_eq_iff client_lookup_turn_def addressLimitResponseCheck_same with_default_strategy_same)
  then show ?thesis
    by (simp add: fun_eq_iff lookup_turn_def matchDNS_same [OF assms] split: prod.split option.split rule_action.split)
qed

lemma lookup_legacy_same:
  assumes "same_but_fakeip (dr_transports R) T'"
  shows "lookup_legacy (R\<lparr>dr_transports := T'\<rparr>) \<Sigma> first6 tag domain options i rules md s =
    lookup_legacy R \<Sigma> first6 tag domain options i rules md s"
proof (induction "length rules" arbitrary: i rules md s rule: less_induct)
  case less
  show ?case
  proof (subst (1 2) lookup_legacy.simps, rule go_bind_cong)
    fix t assume t: "lookup_turn R \<Sigma> (first6 i) tag domain options i rules md s = Ret t"
    then have "length rest < length rules" if "fst t = LookupContinues j rest m'" for j rest m'
      using lookup_turn_rest that by (cases t) fastforce
    then show "(case t of (turn, s) \<Rightarrow> case turn of
          LookupContinues j rest m \<Rightarrow> lookup_legacy (R\<lparr>dr_transports := T'\<rparr>) \<Sigma> first6 tag domain options j rest m s
        | _ \<Rightarrow> Ret (turn, s)) =
      (case t of (turn, s) \<Rightarrow> case turn of
          LookupContinues j rest m \<Rightarrow> lookup_legacy R \<Sigma> first6 tag domain options j rest m s
        | _ \<Rightarrow> Ret (turn, s))"
      by (cases t) (simp add: less split: lookup_step.split)
  qed (simp add: lookup_turn_same [OF assms])
qed

lemma dns_Lookup_same:
  assumes "same_but_fakeip (dr_transports R) T'" "actions_ok R (dr_rules R)"
  shows "dns_Lookup (R\<lparr>dr_transports := T'\<rparr>) \<Sigma> first6 tag ctx domain options s = dns_Lookup R \<Sigma> first6 tag ctx domain options s"
proof -
  have "lookupWithRulesType (R\<lparr>dr_transports := T'\<rparr>) \<Sigma> tag domain m options = lookupWithRulesType R \<Sigma> tag domain m options"
    for \<Sigma> tag domain m options
    by (simp add: fun_eq_iff lookupWithRulesType_def exchangeWithRules_same [OF assms] cong: option.case_cong)
  then show ?thesis
    by (simp add: dns_Lookup_def run_lookup_def lookupWithRules_def resolveLookupStrategy_def Let_def
        lookup_legacy_same [OF assms(1)] with_default_strategy_same)
qed

section \<open>Rule sets of the rules\<close>

text \<open>The rule-set items of rules, and what the rule sets have to count for them.\<close>

fun sets_of :: "routing_rule \<Rightarrow> ruleSetItem list" where
  "sets_of (DefaultRule r rs mr) = (case rs of None \<Rightarrow> [] | Some it \<Rightarrow> [it])"
| "sets_of (LogicalRule mode rules neg) = concat (map sets_of rules)"

definition all_sets :: "routing_rule list \<Rightarrow> ruleSetItem list" where
  "all_sets rules = concat (map sets_of rules)"

definition owned :: "rule_sets \<Rightarrow> ruleSetItem list \<Rightarrow> bool" where
  "owned \<Sigma> its \<longleftrightarrow> (\<forall>it \<in> set its. set (setList it) \<subseteq> dom \<Sigma>) \<and> (\<forall>tag. held tag its \<le> refs_of \<Sigma> tag)"

text \<open>Going from one state and its items to another one keeps the difference of what is counted and held.\<close>

definition keeps_count :: "rule_sets \<Rightarrow> ruleSetItem list \<Rightarrow> rule_sets \<Rightarrow> ruleSetItem list \<Rightarrow> bool" where
  "keeps_count \<Sigma> its \<Sigma>' its' \<longleftrightarrow>
     dom \<Sigma>' = dom \<Sigma> \<and> (\<forall>it \<in> set its'. set (setList it) \<subseteq> dom \<Sigma>) \<and>
     (\<forall>tag. refs_of \<Sigma>' tag - held tag its' = refs_of \<Sigma> tag - held tag its)"

lemma held_append [simp]: "held tag (xs @ ys) = held tag xs + held tag ys"
  by (simp add: held_def)

lemma held_Nil [simp]: "held tag [] = 0"
  by (simp add: held_def)

lemma held_single [simp]: "held tag [it] = int (count_list (setList it) tag)"
  by (simp add: held_def)

lemma held_nonneg: "0 \<le> held tag its"
  unfolding held_def by (rule sum_list_nonneg) auto

lemma owned_append: "owned \<Sigma> (xs @ ys) \<Longrightarrow> owned \<Sigma> xs \<and> owned \<Sigma> ys"
  using held_nonneg [of _ xs] held_nonneg [of _ ys] by (fastforce simp: owned_def intro: order_trans [rotated])

lemma keeps_count_held: "keeps_count \<Sigma> xs \<Sigma>' xs' \<Longrightarrow> refs_of \<Sigma>' tag = refs_of \<Sigma> tag - held tag xs + held tag xs'"
  by (simp add: keeps_count_def algebra_simps)

lemma owned_step:
  assumes "owned \<Sigma> (xs @ ys)" and "keeps_count \<Sigma> xs \<Sigma>' xs'"
  shows "owned \<Sigma>' (xs' @ ys)"
proof -
  have "held tag xs + held tag ys \<le> refs_of \<Sigma> tag" for tag using assms(1) by (simp add: owned_def)
  then have "held tag (xs' @ ys) \<le> refs_of \<Sigma>' tag" for tag
    unfolding held_append keeps_count_held [OF assms(2), of tag] by (simp add: algebra_simps)
  then show ?thesis using assms by (auto simp: owned_def keeps_count_def)
qed

lemma keeps_count_trans:
  "keeps_count \<Sigma> xs \<Sigma>' xs' \<Longrightarrow> keeps_count \<Sigma>' ys \<Sigma>'' ys' \<Longrightarrow> keeps_count \<Sigma> (xs @ ys) \<Sigma>'' (xs' @ ys')"
  using keeps_count_held [of \<Sigma> xs \<Sigma>' xs'] keeps_count_held [of \<Sigma>' ys \<Sigma>'' ys'] by (auto simp: keeps_count_def)

lemma keeps_count_same: "\<forall>it \<in> set its. set (setList it) \<subseteq> dom \<Sigma> \<Longrightarrow> keeps_count \<Sigma> its \<Sigma> its"
  by (simp add: keeps_count_def)

lemma dns_rule_Start_ok:
  "owned \<Sigma> (sets_of r) \<Longrightarrow> \<exists>e r' \<Sigma>'. dns_rule_Start r \<Sigma> = Ret (e, r', \<Sigma>') \<and> keeps_count \<Sigma> (sets_of r) \<Sigma>' (sets_of r')"
  "owned \<Sigma> (all_sets rs) \<Longrightarrow>
   \<exists>e rs' \<Sigma>'. dns_subrules_Start rs \<Sigma> = Ret (e, rs', \<Sigma>') \<and> keeps_count \<Sigma> (all_sets rs) \<Sigma>' (all_sets rs')"
proof (induction r \<Sigma> and rs \<Sigma> rule: dns_rule_Start_dns_subrules_Start.induct)
  case (1 d mr \<Sigma>)
  then show ?case by (simp add: keeps_count_def)
next
  case (2 d it mr \<Sigma>)
  from RuleSetItem_Start_ok [of it \<Sigma>] 2 obtain e it' \<Sigma>' where "RuleSetItem_Start it \<Sigma> = Ret (e, it', \<Sigma>')" "dom \<Sigma>' = dom \<Sigma>"
    "set (setList it') \<subseteq> dom \<Sigma>"
    "\<forall>tag. refs_of \<Sigma>' tag - int (count_list (setList it') tag) = refs_of \<Sigma> tag - int (count_list (setList it) tag)"
    by (auto simp: owned_def)
  then show ?case by (simp add: keeps_count_def)
next
  case (3 mode rules neg \<Sigma>)
  then obtain e rs' \<Sigma>' where "dns_subrules_Start rules \<Sigma> = Ret (e, rs', \<Sigma>')" "keeps_count \<Sigma> (all_sets rules) \<Sigma>' (all_sets rs')"
    by (auto simp: all_sets_def)
  then show ?case by (simp add: all_sets_def)
next
  case (4 \<Sigma>)
  then show ?case by (simp add: keeps_count_def all_sets_def)
next
  case (5 r rs \<Sigma>)
  have o: "owned \<Sigma> (sets_of r @ all_sets rs)" using "5.prems" by (simp add: all_sets_def)
  with 5(1) owned_append obtain e r' \<Sigma>' where s: "dns_rule_Start r \<Sigma> = Ret (e, r', \<Sigma>')" "keeps_count \<Sigma> (sets_of r) \<Sigma>' (sets_of r')"
    by blast
  have o': "owned \<Sigma>' (all_sets rs)" using owned_append [OF owned_step [OF o s(2)]] by simp
  show ?case
  proof (cases e)
    case None
    with 5(2) s(1) o' obtain e' rs' \<Sigma>'' where "dns_subrules_Start rs \<Sigma>' = Ret (e', rs', \<Sigma>'')" "keeps_count \<Sigma>' (all_sets rs) \<Sigma>'' (all_sets rs')"
      by blast
    with s None keeps_count_trans [OF s(2)] show ?thesis by (simp add: all_sets_def)
  next
    case (Some e')
    have "keeps_count \<Sigma>' (all_sets rs) \<Sigma>' (all_sets rs)" using o' by (intro keeps_count_same) (simp add: owned_def)
    with s Some keeps_count_trans [OF s(2)] show ?thesis by (simp add: all_sets_def)
  qed
qed

lemma dns_rule_Close_ok:
  "owned \<Sigma> (sets_of r) \<Longrightarrow> \<exists>r' \<Sigma>'. dns_rule_Close r \<Sigma> = Ret (r', \<Sigma>') \<and> keeps_count \<Sigma> (sets_of r) \<Sigma>' []"
  "owned \<Sigma> (all_sets rs) \<Longrightarrow> \<exists>rs' \<Sigma>'. dns_subrules_Close rs \<Sigma> = Ret (rs', \<Sigma>') \<and> keeps_count \<Sigma> (all_sets rs) \<Sigma>' []"
proof (induction r \<Sigma> and rs \<Sigma> rule: dns_rule_Close_dns_subrules_Close.induct)
  case (2 d it mr \<Sigma>)
  from RuleSetItem_Close_ok [of it \<Sigma>] 2 obtain \<Sigma>' where "RuleSetItem_Close it \<Sigma> = Ret (it\<lparr>setList := []\<rparr>, \<Sigma>')" "dom \<Sigma>' = dom \<Sigma>"
    "\<forall>tag. refs_of \<Sigma>' tag = refs_of \<Sigma> tag - int (count_list (setList it) tag)"
    by (auto simp: owned_def)
  then show ?case by (simp add: keeps_count_def)
next
  case (3 mode rules neg \<Sigma>)
  then obtain rs' \<Sigma>' where "dns_subrules_Close rules \<Sigma> = Ret (rs', \<Sigma>')" "keeps_count \<Sigma> (all_sets rules) \<Sigma>' []"
    by (auto simp: all_sets_def)
  then show ?case by (simp add: all_sets_def)
next
  case (5 r rs \<Sigma>)
  have o: "owned \<Sigma> (sets_of r @ all_sets rs)" using "5.prems" by (simp add: all_sets_def)
  with 5(1) owned_append obtain r' \<Sigma>' where s: "dns_rule_Close r \<Sigma> = Ret (r', \<Sigma>')" "keeps_count \<Sigma> (sets_of r) \<Sigma>' []"
    by blast
  have "owned \<Sigma>' (all_sets rs)" using owned_step [OF o s(2)] by simp
  with 5(2) s(1) obtain rs' \<Sigma>'' where "dns_subrules_Close rs \<Sigma>' = Ret (rs', \<Sigma>'')" "keeps_count \<Sigma>' (all_sets rs) \<Sigma>'' []"
    by blast
  with s keeps_count_trans [OF s(2)] show ?case by (simp add: all_sets_def)
qed (simp_all add: keeps_count_def all_sets_def)

lemma closeRules_ok:
  "owned \<Sigma> (all_sets (map snd rules)) \<Longrightarrow>
   \<exists>\<Sigma>'. closeRules rules \<Sigma> = Ret \<Sigma>' \<and> keeps_count \<Sigma> (all_sets (map snd rules)) \<Sigma>' []"
proof (induction rules \<Sigma> rule: closeRules.induct)
  case (2 a r rules \<Sigma>)
  have o: "owned \<Sigma> (sets_of r @ all_sets (map snd rules))" using "2.prems" by (simp add: all_sets_def)
  with dns_rule_Close_ok(1) owned_append obtain r' \<Sigma>' where s: "dns_rule_Close r \<Sigma> = Ret (r', \<Sigma>')" "keeps_count \<Sigma> (sets_of r) \<Sigma>' []"
    by blast
  have "owned \<Sigma>' (all_sets (map snd rules))" using owned_step [OF o s(2)] by simp
  with 2(1) s(1) obtain \<Sigma>'' where "closeRules rules \<Sigma>' = Ret \<Sigma>''" "keeps_count \<Sigma>' (all_sets (map snd rules)) \<Sigma>'' []" by blast
  with s keeps_count_trans [OF s(2)] show ?case by (simp add: all_sets_def)
qed (simp add: keeps_count_def all_sets_def)

lemma start_rules_ok:
  "owned \<Sigma> (all_sets (map snd rules)) \<Longrightarrow>
   \<exists>e rules' \<Sigma>'. start_rules i rules \<Sigma> = Ret (e, rules', \<Sigma>') \<and>
     keeps_count \<Sigma> (all_sets (map snd rules)) \<Sigma>' (all_sets (map snd rules'))"
proof (induction i rules \<Sigma> rule: start_rules.induct)
  case (2 i a r rules \<Sigma>)
  have o: "owned \<Sigma> (sets_of r @ all_sets (map snd rules))" using "2.prems" by (simp add: all_sets_def)
  with dns_rule_Start_ok(1) owned_append obtain e r' \<Sigma>' where s: "dns_rule_Start r \<Sigma> = Ret (e, r', \<Sigma>')"
    "keeps_count \<Sigma> (sets_of r) \<Sigma>' (sets_of r')"
    by blast
  have o': "owned \<Sigma>' (all_sets (map snd rules))" using owned_append [OF owned_step [OF o s(2)]] by simp
  show ?case
  proof (cases e)
    case None
    with 2(1) s(1) o' obtain e' rules' \<Sigma>'' where "start_rules (Suc i) rules \<Sigma>' = Ret (e', rules', \<Sigma>'')"
      "keeps_count \<Sigma>' (all_sets (map snd rules)) \<Sigma>'' (all_sets (map snd rules'))"
      by blast
    with s None keeps_count_trans [OF s(2)] show ?thesis by (simp add: all_sets_def)
  next
    case (Some e')
    have "keeps_count \<Sigma>' (all_sets (map snd rules)) \<Sigma>' (all_sets (map snd rules))"
      using o' by (intro keeps_count_same) (simp add: owned_def)
    with s Some keeps_count_trans [OF s(2)] show ?thesis by (simp add: all_sets_def)
  qed
qed (simp add: keeps_count_def all_sets_def)

lemma fresh_sets: "well_built fresh_item r \<Longrightarrow> \<forall>it \<in> set (sets_of r). setList it = []"
  by (induction r) (auto simp: fresh_item_def split: option.split)

lemma new_rules_fresh:
  assumes "new_rules L legacy i raw = Ret (Inr rules)"
  shows "\<forall>it \<in> set (all_sets (map snd rules)). setList it = []"
proof -
  have "well_built fresh_item r" if "(action, r) \<in> set rules" for action r
    using new_rules_actions [OF assms] that NewDNSRule_well_built
    by (fastforce simp: in_set_conv_nth list_all2_conv_all_nth)
  then show ?thesis using fresh_sets by (fastforce simp: all_sets_def)
qed

lemma fresh_held: "\<forall>it \<in> set its. setList it = [] \<Longrightarrow> held tag its = 0"
  by (induction its) (simp_all add: held_def)

lemma fresh_owned: "\<forall>it \<in> set its. setList it = [] \<Longrightarrow> \<forall>tag. 0 \<le> refs_of \<Sigma> tag \<Longrightarrow> owned \<Sigma> its"
  by (simp add: owned_def fresh_held)

lemma start_built:
  assumes "new_rules L legacy i raw = Ret (Inr new)" "\<forall>tag. 0 \<le> refs_of \<Sigma> tag"
  shows "\<exists>e rules \<Sigma>'. start_rules 0 new \<Sigma> = Ret (e, rules, \<Sigma>') \<and> keeps_count \<Sigma> [] \<Sigma>' (all_sets (map snd rules)) \<and>
    owned \<Sigma>' (all_sets (map snd rules))"
proof -
  have fresh: "\<forall>it \<in> set (all_sets (map snd new)). setList it = []" by (rule new_rules_fresh [OF assms(1)])
  have o: "owned \<Sigma> (all_sets (map snd new) @ [])" using fresh_owned [OF fresh assms(2)] by simp
  from start_rules_ok [of \<Sigma> new 0] o obtain e rules \<Sigma>' where s: "start_rules 0 new \<Sigma> = Ret (e, rules, \<Sigma>')"
    "keeps_count \<Sigma> (all_sets (map snd new)) \<Sigma>' (all_sets (map snd rules))"
    by auto
  moreover have "keeps_count \<Sigma> [] \<Sigma>' (all_sets (map snd rules))" using s(2) fresh_held [OF fresh] by (simp add: keeps_count_def)
  moreover have "owned \<Sigma>' (all_sets (map snd rules))" using owned_step [OF o s(2)] by simp
  ultimately show ?thesis by blast
qed

lemma buildRules_failed:
  assumes "buildRules L kind True raw \<Sigma> = Ret (Inl e, \<Sigma>')" "\<forall>tag. 0 \<le> refs_of \<Sigma> tag"
  shows "refs_of \<Sigma>' tag = refs_of \<Sigma> tag"
proof (cases "\<Sigma>' = \<Sigma>")
  case False
  with assms(1) obtain legacy fl where m: "resolveLegacyDNSMode (Some \<Sigma>) raw Map.empty = Inr (legacy, fl)"
    by (auto simp: buildRules_def split: option.split_asm sum.split_asm)
  obtain new where n: "new_rules L legacy 0 raw = Ret (Inr new)"
    using assms(1) m False
    by (cases "new_rules L legacy 0 raw") (auto simp: buildRules_def split: option.split_asm sum.split_asm if_split_asm)
  from start_built [OF n assms(2)] obtain e' rules \<Sigma>1 where s: "start_rules 0 new \<Sigma> = Ret (e', rules, \<Sigma>1)"
    "keeps_count \<Sigma> [] \<Sigma>1 (all_sets (map snd rules))" "owned \<Sigma>1 (all_sets (map snd rules))"
    by blast
  from closeRules_ok [OF s(3)] obtain \<Sigma>2 where c: "closeRules rules \<Sigma>1 = Ret \<Sigma>2" "keeps_count \<Sigma>1 (all_sets (map snd rules)) \<Sigma>2 []"
    by blast
  have "\<Sigma>' = \<Sigma>2" using assms(1) m n s(1) c(1) False by (auto simp: buildRules_def split: option.split_asm if_split_asm)
  then show ?thesis using keeps_count_held [OF s(2), of tag] keeps_count_held [OF c(2), of tag] by simp
qed simp

end
