(* ===== verification/DnsContracts.thy ===== *)
theory DnsContracts
  imports DnsSafety DnsExamples RouteContracts
begin

text \<open>
  The properties of the DNS router, each applied to an example: what a start guarantees
  about the rules, that queries and lookups return, which transports a lookup asks, and what the
  rules are to the rule sets.
\<close>

section \<open>Examples\<close>

text \<open>
  Two rules for a router with a transport and one for fake addresses: questions to port 53 that are in the rule set \<open>web\<close> go to
  the transport, and those to port 80 are refused.
\<close>

definition ask_server :: dns_rule_action_options where
  "ask_server =
     no_dns_rule_action\<lparr>dns_Action := ''route'', dns_RouteOptions := no_DNSOptions\<lparr>do_Server := ''server''\<rparr>,
                        dns_RejectOptions := \<lparr>rj_Method = ''default'', rj_NoDrop = False\<rparr>\<rparr>"

definition example_raw :: "dns_rule_options list" where
  "example_raw =
     [RuleOptions ''default'' (no_RawDefaultDNSRule\<lparr>o_Port := [53], o_RuleSet := [''web'']\<rparr>) ask_server '''' [] False
        no_dns_rule_action,
      RuleOptions ''default'' (no_RawDefaultDNSRule\<lparr>o_Port := [80]\<rparr>) (ask_server\<lparr>dns_Action := ''reject''\<rparr>) '''' [] False
        no_dns_rule_action]"

definition fake_transport :: "addr \<Rightarrow> gotime dns_transport" where
  "fake_transport a =
     example_transport\<lparr>pt_Id := 2, pt_Type := DNSTypeFakeIP, pt_Tag := ''fake'',
       tp_Exchange := (\<lambda>m w. (Inr (FixedResponse (msg_Id m) example_question [a] 60), w))\<rparr>"

definition example_transports :: "addr \<Rightarrow> gotime dns_transport transport_manager" where
  "example_transports a =
     \<lparr>mg_started = True, mg_stage = 3, mg_parts = [example_transport, fake_transport a],
      mg_byTag = [(''server'', example_transport), (''fake'', fake_transport a)],
      mg_defaultTag = '''', mg_default = Some example_transport, mg_dependBy = (\<lambda>t. []), mg_fakeIP = Some (fake_transport a)\<rparr>"

definition example_dns :: "(cache_key map_cache, gotime, unit) dns_router" where
  "example_dns =
     \<lparr>dr_libs = example_libs, dr_env = demo_env, dr_client = example_client, dr_transports = example_transports (IPv4 2),
      dr_defaultDomainStrategy = 0, dr_dnsReverseMapping = None, dr_rawRules = example_raw, dr_rules = [],
      dr_legacyDNSMode = False, dr_started = False, dr_closing = False\<rparr>"

definition example_sets :: rule_sets where
  "example_sets = [''web'' \<mapsto> demo_set]"

definition example_item :: "string list \<Rightarrow> ruleSetItem" where
  "example_item tags = \<lparr>tagList = [''web''], setList = tags, ipCidrMatchSource = False, ipCidrAcceptEmpty = False\<rparr>"

definition example_rules :: "string list \<Rightarrow> action_rule list" where
  "example_rules tags =
     [(Some (RuleActionDNSRoute ''server'' (build_dns_options no_DNSOptions)),
       DefaultRule (port_rule 53 False) (Some (example_item tags)) False),
      (Some (RuleActionReject \<lparr>Method = ''default'', NoDrop = False\<rparr>), DefaultRule (port_rule 80 False) None False)]"

lemmas raw_rule_simps =
  no_RawDefaultDNSRule_def no_action_match_options_def no_match_options_def action_match_options.defs match_options.defs
  RawDefaultDNSRule.defs ask_server_def no_dns_rule_action_def no_DNSOptions_def

lemma example_new: "new_rules demo_libs False 0 example_raw = Ret (Inr (example_rules []))"
  by (simp add: example_raw_def RuleTypeDefault_def default_dns_IsValid_def raw_rule_simps check_dns_action_def
      validateDNSRuleAction_def NewDefaultDNSRule_def NewDNSRuleAction_def default_dns_rule_steps_def port_steps_def
      process_steps_def network_steps_def interface_steps_def ip_version_steps_def geo_steps_def rule_set_of_def
      empty_rule_def port_rule_def example_rules_def example_item_def build_dns_options_def)

lemma example_mode:
  "nested_error example_raw = None"
  "resolveLegacyDNSMode (Some example_sets) example_raw Map.empty = Inr (False, no_flags)"
  "validateLegacyDNSModeDisabledRules example_raw = None"
  "validate_fakeip 0 (transport_kind example_dns) example_raw = None"
  by (simp_all add: example_raw_def RuleTypeDefault_def RuleTypeLogical_def raw_rule_simps nested_error_def
      resolveLegacyDNSMode_def dnsRuleModeRequirements_def dnsRuleModeRequirementsInDefaultRule_def Let_def
      defaultRuleDisablesLegacyDNSMode_def hasResponseMatchFields_def defaultRuleNeedsLegacyDNSModeFromAddressFilter_def
      dnsRuleActionHasStrategy_def strategy_defs lookupDNSRuleSetMetadata_def example_sets_def demo_set_def
      buildRuleSetMetadata_def HasHeadlessRule_def flags_merge_def no_flags_def validateLegacyDNSModeDisabledRules_def
      validateLegacyDNSModeDisabledDefaultRule_def dnsRuleActionType_def action_type_def)

definition example_started :: "(cache_key map_cache, gotime, unit) dns_router" where
  "example_started = example_dns\<lparr>dr_rules := example_rules [''web''], dr_started := True\<rparr>"

lemma example_Start:
  "dns_Start demo_libs StartStateStart example_dns example_sets =
     Ret (None, example_started, [''web'' \<mapsto> demo_set\<lparr>rs_refs := 2\<rparr>])"
proof -
  have start: "start_rules 0 (example_rules []) example_sets =
      Ret (None, example_rules [''web''], [''web'' \<mapsto> demo_set\<lparr>rs_refs := 2\<rparr>])"
    by (simp add: example_rules_def example_item_def example_sets_def RuleSetItem_Start_def RuleSetItem_Close_def
        IncRef_def demo_set_def)
  have raw: "dr_rawRules example_dns = example_raw" "\<not> dr_closing example_dns" "\<not> dr_legacyDNSMode example_dns"
    by (simp_all add: example_dns_def)
  have "buildRules demo_libs (Some (transport_kind example_dns)) True example_raw example_sets =
      Ret (Inr (example_rules [''web''], False, no_flags), [''web'' \<mapsto> demo_set\<lparr>rs_refs := 2\<rparr>])"
    by (simp add: buildRules_def example_mode example_new validateEvaluateFakeIPRules_def start del: new_rules.simps start_rules.simps)
  then show ?thesis using raw by (simp add: dns_Start_def example_started_def)
qed

lemma example_parsed: "\<forall>r \<in> set (dr_rawRules example_dns). reject_parsed r"
  by (simp add: example_dns_def example_raw_def reject_parsed_def top_action_def raw_rule_simps RuleTypeDefault_def)

lemma example_open: "\<not> dr_closing example_dns"
  by (simp add: example_dns_def)

section \<open>Rules\<close>

text \<open>
  C34. After a successful start of the DNS router outside the legacy mode no action of a rule has a
  strategy, so the router may ignore strategies there. In the legacy mode no rule evaluates or
  responds. No rule evaluates on a fake-address transport, and every reject action has a method that
  the router handles.
\<close>

theorem started_rules_ok:
  assumes "dns_Start L StartStateStart R \<Sigma> = Ret (None, R', \<Sigma>')" and "\<not> dr_closing R"
    and "\<forall>r \<in> set (dr_rawRules R). reject_parsed r"
  shows "\<forall>(action, rule) \<in> set (dr_rules R').
    (\<forall>a. action = Some (RuleActionReject a) \<longrightarrow> Method a = ''default'' \<or> Method a = ''drop'') \<and>
    (\<forall>server ro. action = Some (RuleActionEvaluate server ro) \<longrightarrow>
      \<not> dr_legacyDNSMode R' \<and> transport_kind R' server \<noteq> Some DNSTypeFakeIP \<and> Strategy ro = DomainStrategyAsIS) \<and>
    (action = Some RuleActionRespond \<longrightarrow> \<not> dr_legacyDNSMode R') \<and>
    (\<forall>server ro. action = Some (RuleActionDNSRoute server ro) \<or> action = Some (RuleActionDNSRouteOptions ro) \<longrightarrow>
      dr_legacyDNSMode R' \<or> Strategy ro = DomainStrategyAsIS)"
  using start_actions [OF assms] by (auto simp: action_ok_def split: option.splits rule_action.splits)

theorem started_rules_ok_witness:
  "dns_Start demo_libs StartStateStart example_dns example_sets =
     Ret (None, example_started, [''web'' \<mapsto> demo_set\<lparr>rs_refs := 2\<rparr>]) \<and>
   Strategy (build_dns_options no_DNSOptions) = DomainStrategyAsIS"
proof (intro conjI example_Start)
  show "Strategy (build_dns_options no_DNSOptions) = DomainStrategyAsIS"
    using started_rules_ok [OF example_Start example_open example_parsed]
    by (simp add: example_started_def example_rules_def example_dns_def)
qed

text \<open>
  C33. The rules of the DNS router count as users of the rule sets exactly while they need them. A start
  that fails leaves the counts of all rule sets as they were. A successful start adds the uses of its
  rules to the counts, and closing the router takes them away again, whatever other users have done to
  the counts in between; closing it once more changes nothing.
\<close>

theorem dns_rules_release_sets:
  assumes "dns_Start L StartStateStart R \<Sigma> = Ret (e, R', \<Sigma>')" "\<not> dr_closing R" "\<forall>tag. 0 \<le> refs_of \<Sigma> tag"
  shows "(e \<noteq> None \<longrightarrow> (\<forall>tag. refs_of \<Sigma>' tag = refs_of \<Sigma> tag)) \<and>
    (e = None \<longrightarrow>
      (\<forall>tag. refs_of \<Sigma>' tag = refs_of \<Sigma> tag + held tag (all_sets (map snd (dr_rules R')))) \<and>
      (\<forall>\<Sigma>1. owned \<Sigma>1 (all_sets (map snd (dr_rules R'))) \<longrightarrow>
        (\<exists>R'' \<Sigma>''. dns_Close R' \<Sigma>1 = Ret (R'', \<Sigma>'') \<and> dr_rules R'' = [] \<and> dns_Close R'' \<Sigma>'' = Ret (R'', \<Sigma>'') \<and>
          (\<forall>tag. refs_of \<Sigma>'' tag = refs_of \<Sigma>1 tag - held tag (all_sets (map snd (dr_rules R')))))))"
proof (cases e)
  case (Some e')
  then have "buildRules L (Some (transport_kind R)) True (dr_rawRules R) \<Sigma> = Ret (Inl e', \<Sigma>')"
    using assms(1,2)
    by (cases "buildRules L (Some (transport_kind R)) True (dr_rawRules R) \<Sigma>") (auto simp: dns_Start_def split: sum.split_asm)
  from buildRules_failed [OF this assms(3)] Some show ?thesis by simp
next
  case None
  with assms(1,2) obtain rules legacy fl where b: "buildRules L (Some (transport_kind R)) True (dr_rawRules R) \<Sigma> = Ret (Inr (rules, legacy, fl), \<Sigma>')"
    and R': "R' = R\<lparr>dr_rules := rules, dr_legacyDNSMode := legacy, dr_started := True\<rparr>"
    by (cases "buildRules L (Some (transport_kind R)) True (dr_rawRules R) \<Sigma>") (auto simp: dns_Start_def split: sum.split_asm)
  from buildRules_started [OF b] obtain new where new: "new_rules L legacy 0 (dr_rawRules R) = Ret (Inr new)"
    "start_rules 0 new \<Sigma> = Ret (None, rules, \<Sigma>')"
    by blast
  from start_built [OF new(1) assms(3)] new(2) have k: "keeps_count \<Sigma> [] \<Sigma>' (all_sets (map snd rules))" by auto
  have "\<exists>R'' \<Sigma>''. dns_Close R' \<Sigma>1 = Ret (R'', \<Sigma>'') \<and> dr_rules R'' = [] \<and> dns_Close R'' \<Sigma>'' = Ret (R'', \<Sigma>'') \<and>
      (\<forall>tag. refs_of \<Sigma>'' tag = refs_of \<Sigma>1 tag - held tag (all_sets (map snd rules)))"
    if o: "owned \<Sigma>1 (all_sets (map snd rules))" for \<Sigma>1
  proof -
    from closeRules_ok [OF o] obtain \<Sigma>2 where c: "closeRules rules \<Sigma>1 = Ret \<Sigma>2" "keeps_count \<Sigma>1 (all_sets (map snd rules)) \<Sigma>2 []"
      by blast
    with R' assms(2) keeps_count_held [OF c(2)] show ?thesis by (simp add: dns_Close_def)
  qed
  then show ?thesis using None R' keeps_count_held [OF k] by simp
qed

theorem dns_rules_release_sets_witness:
  "\<exists>R'' \<Sigma>''. dns_Close example_started [''web'' \<mapsto> demo_set\<lparr>rs_refs := 5\<rparr>] = Ret (R'', \<Sigma>'') \<and> refs_of \<Sigma>'' ''web'' = 4"
proof -
  have sets: "all_sets (map snd (dr_rules example_started)) = [example_item [''web'']]"
    by (simp add: example_started_def example_rules_def all_sets_def)
  have "\<forall>tag. 0 \<le> refs_of example_sets tag" by (simp add: example_sets_def refs_of_def demo_set_def)
  moreover have "owned [''web'' \<mapsto> demo_set\<lparr>rs_refs := 5\<rparr>] [example_item [''web'']]"
    by (simp add: owned_def example_item_def refs_of_def)
  ultimately obtain R'' \<Sigma>'' where
    "dns_Close example_started [''web'' \<mapsto> demo_set\<lparr>rs_refs := 5\<rparr>] = Ret (R'', \<Sigma>'')"
    "\<forall>tag. refs_of \<Sigma>'' tag = refs_of [''web'' \<mapsto> demo_set\<lparr>rs_refs := 5\<rparr>] tag - held tag [example_item [''web'']]"
    using dns_rules_release_sets [OF example_Start example_open, THEN conjunct2] unfolding sets by blast
  then show ?thesis by (intro exI [of _ R''] exI [of _ \<Sigma>'']) (simp add: example_item_def refs_of_def)
qed

section \<open>Queries and lookups\<close>

text \<open>
  C15. A started DNS router with a default transport never panics: every query, of a message as the
  parser makes it, and every lookup return a value, in both modes, with any rules, transports and
  answers, and whether a transport is given or chosen.
\<close>

theorem dns_router_returns:
  assumes "dns_Start L StartStateStart R0 \<Sigma>0 = Ret (None, R, \<Sigma>1)" and "\<not> dr_closing R0"
    and "\<forall>r \<in> set (dr_rawRules R0). reject_parsed r" and "mg_default (dr_transports R) \<noteq> None" and "well_typed message"
  shows "returns (dns_Exchange R \<Sigma> tag ctx message options s) \<and> returns (dns_Lookup R \<Sigma> first6 tag ctx domain options s)"
proof -
  have "actions_ok R (dr_rules R)" using start_actions [OF assms(1-3)] by (simp add: actions_ok_def)
  with dns_Exchange_returns dns_Lookup_returns assms(4,5) show ?thesis by blast
qed

definition example_state :: "(cache_key map_cache, gotime, unit) dns_router_state" where
  "example_state =
     \<lparr>qs_dns = \<lparr>ds_cache = Map.empty, ds_rdrc = None, ds_world = 0\<rparr>, qs_reverse = (), qs_drops = (\<lambda>i. [])\<rparr>"

theorem dns_router_returns_witness:
  "returns (dns_Exchange example_started example_sets None None (lookup_request ''a.'' TypeA) example_options example_state) \<and>
   returns (dns_Lookup example_started example_sets (\<lambda>i. False) None None ''a'' example_options example_state)"
  by (rule dns_router_returns [OF example_Start example_open example_parsed])
     (simp_all add: example_started_def example_dns_def example_transports_def lookup_request_typed)

text \<open>
  C16. A lookup of a name asks no fake-address transport except a given or default one. The result of a
  lookup and the state after it do not depend on what the other fake-address transports are: replacing
  them by any others changes nothing, whichever rules route to them.
\<close>

theorem lookup_ignores_fakeip:
  assumes "dns_Start L StartStateStart R0 \<Sigma>0 = Ret (None, R, \<Sigma>1)" and "\<not> dr_closing R0"
    and "\<forall>r \<in> set (dr_rawRules R0). reject_parsed r" and "same_but_fakeip (dr_transports R) T'"
  shows "dns_Lookup (R\<lparr>dr_transports := T'\<rparr>) \<Sigma> first6 tag ctx domain options s = dns_Lookup R \<Sigma> first6 tag ctx domain options s"
proof -
  have "actions_ok R (dr_rules R)" using start_actions [OF assms(1-3)] by (simp add: actions_ok_def)
  with dns_Lookup_same assms(4) show ?thesis by blast
qed

theorem lookup_ignores_fakeip_witness:
  "dns_Lookup (example_started\<lparr>dr_transports := example_transports (IPv4 3)\<rparr>) example_sets (\<lambda>i. False) None None ''a''
     example_options example_state =
   dns_Lookup example_started example_sets (\<lambda>i. False) None None ''a'' example_options example_state"
  by (rule lookup_ignores_fakeip [OF example_Start example_open example_parsed])
     (simp add: same_but_fakeip_def example_started_def example_dns_def example_transports_def mg_Get_def is_fakeip_def
        fake_transport_def)

end
