(* ===== verification/DnsCache.thy ===== *)
theory DnsCache
  imports DnsSafety DnsExamples
begin

text \<open>
  What the DNS client keeps of an answer: the cache of accepted answers, whose times to live count
  down, and the store of rejected ones.
\<close>

section \<open>Times to live of a cached answer\<close>

lemma int_Seconds_whole: "0 \<le> s \<Longrightarrow> s < 2 ^ 33 \<Longrightarrow> int_Seconds (s * 10 ^ 9) = s"
proof -
  assume s: "0 \<le> s" "s < 2 ^ 33"
  have z: "f64_round (0 :: rat) = 0" using f64_round_bounds [of 0 0 0] by simp
  have "(of_int s :: rat) < of_int (2 ^ 33)" using s(2) by (simp only: of_int_less_iff)
  then have "f64_round (of_int s) = (of_int s :: rat)" using f64_round_bounds [of s "of_int s" s] s(1) by simp
  then show ?thesis using s(1) by (cases "s = 0") (simp_all add: int_Seconds_def z sgn_mult)
qed

lemma int_Seconds_le:
  assumes "0 \<le> d" "d \<le> b * 10 ^ 9" "b < 2 ^ 33"
  shows "int_Seconds d \<le> b"
proof (cases "d mod 10 ^ 9 = 0")
  case True
  then obtain s where d: "d = s * 10 ^ 9" by (metis dvd_def mod_0_imp_dvd mult.commute)
  with assms have "0 \<le> s" "s \<le> b" by simp_all
  then show ?thesis using d int_Seconds_whole [of s] assms(3) by simp
next
  case False
  have "d \<noteq> b * 10 ^ 9" using False by auto
  then have "d < b * 10 ^ 9" using assms(2) by simp
  then have "d div 10 ^ 9 < b" by (simp add: div_less_iff_less_mult [of "10 ^ 9"] div_pos_geq)
  moreover have "d < 2 ^ 63" using assms by simp
  ultimately show ?thesis using int_Seconds_bounds(2) [OF assms(1)] by simp
qed

lemma lower_ttl_all: "\<forall>r \<in> set rs. rr_Ttl r = t \<Longrightarrow> lower_ttl 0 rs = (if rs = [] then 0 else t)"
proof -
  have "\<forall>r \<in> set rs. rr_Ttl r = t \<Longrightarrow> lower_ttl t rs = t" for rs
    by (induction rs) (auto simp: lower_ttl_def)
  then show "\<forall>r \<in> set rs. rr_Ttl r = t \<Longrightarrow> ?thesis" by (cases rs) (auto simp: lower_ttl_def)
qed

definition set_ttl :: "32 word \<Rightarrow> dns_Msg \<Rightarrow> dns_Msg" where
  "set_ttl t = set_records (\<lambda>r. r\<lparr>rr_Ttl := t\<rparr>)"

lemma set_ttl_again: "set_ttl t (set_ttl t' m) = set_ttl t m"
  by (simp add: set_ttl_def set_records_def comp_def)

text \<open>An entry with equal times to live is loaded with the whole seconds that are left.\<close>

lemma loadResponse_ages:
  assumes "\<not> cl_disableExpire c"
    and "lru_GetWithLifetime (message_cache L) (world_Now L (ds_world s)) k (ds_cache s) = (Some (response, expireAt), cache)"
    and "world_Now L (ds_world s) \<le> expireAt" and "\<forall>r \<in> set (msg_records response). rr_Ttl r = ttl" and "0 < ttl"
  shows "loadResponse L c k s =
    (Some (set_ttl (word_of_int (max 0 (int_Seconds (time_Sub expireAt (world_Now L (ds_world s)))))) response,
           max 0 (int_Seconds (time_Sub expireAt (world_Now L (ds_world s))))), s\<lparr>ds_cache := cache\<rparr>)"
proof -
  define n where "n = max 0 (int_Seconds (time_Sub expireAt (world_Now L (ds_world s))))"
  let ?f = "\<lambda>r. r\<lparr>rr_Ttl := rr_Ttl r - word_of_int (int (unat (lower_ttl 0 (msg_records response))) - n)\<rparr>"
  let ?g = "\<lambda>r. r\<lparr>rr_Ttl := word_of_int n\<rparr>"
  have "set_records ?f response = set_records ?g response"
  proof (cases "msg_records response = []")
    case True
    then show ?thesis by (simp add: set_records_def msg_records_def)
  next
    case False
    then have "lower_ttl 0 (msg_records response) = ttl" using lower_ttl_all [OF assms(4)] by simp
    then have "\<forall>r \<in> set (msg_records response). ?f r = ?g r" using assms(4) by simp
    then show ?thesis by (simp add: set_records_def msg_records_def)
  qed
  then show ?thesis using assms(1-3)
    by (simp add: loadResponse_def Let_def set_ttl_def n_def [symmetric])
qed

section \<open>Accepted answers\<close>

text \<open>
  What the client relies on of the cache: an entry is found until its lifetime is over. The instant of
  expiry may be rounded down to a millisecond.
\<close>

definition keeps_entries :: "('k, 'v, 's) lru \<Rightarrow> bool" where
  "keeps_entries C \<longleftrightarrow>
     (\<forall>now k v lifetime s now'. now \<le> now' \<and> now' + 10 ^ 6 \<le> now + lifetime \<longrightarrow>
        (\<exists>expireAt s'. lru_GetWithLifetime C now' k (lru_AddWithLifetime C now k v lifetime s) = (Some (v, expireAt), s') \<and>
           now + lifetime - 10 ^ 6 \<le> expireAt \<and> expireAt \<le> now + lifetime))"

text \<open>A query that may be answered from the cache, and a client and options under which it is.\<close>

definition plain_query :: "question \<Rightarrow> dns_Msg \<Rightarrow> bool" where
  "plain_query q m \<longleftrightarrow> msg_Question m = [q] \<and> msg_Ns m = [] \<and> msg_Extra m = []"

definition caching :: "dns_client \<Rightarrow> question \<Rightarrow> 'w DNSQueryOptions \<Rightarrow> bool" where
  "caching c q options \<longleftrightarrow>
     \<not> cl_disableCache c \<and> \<not> cl_disableExpire c \<and> \<not> prefix_IsValid (cl_clientSubnet c) \<and> \<not> qo_DisableCache options \<and>
     \<not> prefix_IsValid (qo_ClientSubnet options) \<and> \<not> strategy_rejects (fst (snd q)) (qo_Strategy options)"

lemma plain_simple:
  assumes "plain_query q m" "caching c q options"
  shows "with_subnet c options m = m" "isSimpleRequest m options = Ret True"
  using assms by (simp_all add: plain_query_def caching_def with_subnet_def isSimpleRequest_def Let_def)

lemma cached_Exchange:
  assumes "plain_query q m" "caching c q options" "loadResponse L c (cache_key_of c q (pt_Tag tp)) s = (Some (response, ttl), s')"
  shows "client_Exchange L c tag (Some tp) m options checker s = Ret (Inr (response\<lparr>msg_Id := msg_Id m\<rparr>), s')"
  using assms plain_simple [OF assms(1,2)]
  by (simp add: client_Exchange_def plain_query_def caching_def load_question_def)

lemma uncached_Exchange:
  assumes "plain_query q m" "caching c q options" "loadResponse L c (cache_key_of c q (pt_Tag tp)) s = (None, s')"
    and "tag \<noteq> Some (pt_Tag tp)"
  shows "client_Exchange L c tag (Some tp) m options checker s =
    Ret (case known_rejected L False tp q checker s' of
           (True, s) \<Rightarrow> (Inl ErrResponseRejectedCached, s)
         | (False, s) \<Rightarrow> exchange_transport L c False tp q m options checker s)"
  using assms plain_simple [OF assms(1,2)]
  by (simp add: client_Exchange_def plain_query_def caching_def load_question_def)

lemma loadResponse_world [simp]: "ds_world (snd (loadResponse L c k s)) = ds_world s"
  "ds_rdrc (snd (loadResponse L c k s)) = ds_rdrc s"
  by (auto simp: loadResponse_def Let_def split: prod.split option.split)

lemma finish_response_ttl:
  assumes "msg_IsEdns0 L message = None" and "finish_response L message qtype options raw = (response, ttl)"
  shows "\<forall>r \<in> set (msg_records response). rr_Ttl r = ttl" and "msg_Id response = msg_Id message"
    and "ttl = response_ttl (drop_hints qtype (qo_Strategy options) raw) options"
  using assms
  by (auto simp: finish_response_def Let_def match_edns_def msg_records_def set_records_def split: option.splits)

lemma left_over:
  assumes "now \<le> now'" "now' + 10 ^ 6 \<le> now + int (unat ttl) * 10 ^ 9"
    and "now + int (unat ttl) * 10 ^ 9 - 10 ^ 6 \<le> expireAt" "expireAt \<le> now + int (unat (ttl :: 32 word)) * 10 ^ 9"
  shows "(now + int (unat ttl) * 10 ^ 9 - now' - 10 ^ 6) div 10 ^ 9 \<le> max 0 (int_Seconds (time_Sub expireAt now'))"
    and "max 0 (int_Seconds (time_Sub expireAt now')) \<le> int (unat ttl)"
    and "max 0 (int_Seconds (time_Sub expireAt now')) \<le> (now + int (unat ttl) * 10 ^ 9 - now') div 10 ^ 9 + 1"
proof -
  have ttl: "int (unat ttl) < 2 ^ 32" using uint_lt2p [of ttl] by simp
  define d where "d = expireAt - now'"
  have d: "0 \<le> d" "d \<le> int (unat ttl) * 10 ^ 9" "now + int (unat ttl) * 10 ^ 9 - now' - 10 ^ 6 \<le> d"
    "d \<le> now + int (unat ttl) * 10 ^ 9 - now'"
    using assms by (simp_all add: d_def)
  have "d < 2 ^ 63" using d(2) ttl by simp
  then have sub: "time_Sub expireAt now' = d" using d(1) by (simp add: time_Sub_def d_def [symmetric])
  note b = int_Seconds_bounds [OF d(1) \<open>d < 2 ^ 63\<close>]
  have "(now + int (unat ttl) * 10 ^ 9 - now' - 10 ^ 6) div 10 ^ 9 \<le> d div 10 ^ 9" by (rule zdiv_mono1 [OF d(3)]) simp
  with b(1) show "(now + int (unat ttl) * 10 ^ 9 - now' - 10 ^ 6) div 10 ^ 9 \<le> max 0 (int_Seconds (time_Sub expireAt now'))"
    by (simp add: sub)
  show "max 0 (int_Seconds (time_Sub expireAt now')) \<le> int (unat ttl)"
    using int_Seconds_le [OF d(1,2)] ttl by (simp add: sub)
  have "d div 10 ^ 9 \<le> (now + int (unat ttl) * 10 ^ 9 - now') div 10 ^ 9" by (rule zdiv_mono1 [OF d(4)]) simp
  moreover have "0 \<le> d div 10 ^ 9" using d(1) by simp
  ultimately show "max 0 (int_Seconds (time_Sub expireAt now')) \<le> (now + int (unat ttl) * 10 ^ 9 - now') div 10 ^ 9 + 1"
    using b(2) by (simp add: sub)
qed

text \<open>
  C27. An answer that a transport gave to a plain query, and that may be cached, answers the same
  question again until its time to live is over, without asking any transport. The second answer has
  the identifier of its own query and the records of the first. Their times to live have counted down:
  they are at most the first ones, and are the seconds that are left, up to the rounding of one. It
  does not matter which transport the second query is for, unless the cache is kept by transport.
\<close>

theorem cached_answer_ages:
  assumes cache: "keeps_entries (message_cache L)" and client: "caching c q options"
    and queries: "plain_query q message" "plain_query q message'" "msg_IsEdns0 L message = None"
    and miss: "fst (loadResponse L c (cache_key_of c q (pt_Tag tp)) s) = None" "tag \<noteq> Some (pt_Tag tp)"
    and answer: "tp_Exchange tp message (ds_world s) = (Inr raw, w)" "cacheable_rcode raw"
    and ttl: "ttl = response_ttl (drop_hints (fst (snd q)) (qo_Strategy options) raw) options" "0 < ttl"
    and other: "cl_independentCache c \<longrightarrow> pt_Tag tp' = pt_Tag tp"
    and later: "world_Now L w \<le> world_Now L w'" "world_Now L w' + 10 ^ 6 \<le> world_Now L w + int (unat ttl) * 10 ^ 9"
  shows "\<exists>response s1 t s2.
    client_Exchange L c tag (Some tp) message options None s = Ret (Inr response, s1) \<and> ds_world s1 = w \<and>
    (\<forall>r \<in> set (msg_records response). rr_Ttl r = ttl) \<and>
    client_Exchange L c tag' (Some tp') message' options None (s1\<lparr>ds_world := w'\<rparr>) =
      Ret (Inr ((set_ttl (word_of_int t) response)\<lparr>msg_Id := msg_Id message'\<rparr>), s2) \<and> ds_world s2 = w' \<and>
    t \<le> int (unat ttl) \<and> (world_Now L w + int (unat ttl) * 10 ^ 9 - world_Now L w' - 10 ^ 6) div 10 ^ 9 \<le> t \<and>
    t \<le> (world_Now L w + int (unat ttl) * 10 ^ 9 - world_Now L w') div 10 ^ 9 + 1"
proof -
  let ?k = "cache_key_of c q (pt_Tag tp)" and ?C = "message_cache L" and ?now = "world_Now L w" and ?now' = "world_Now L w'"
  obtain s0 where s0: "loadResponse L c ?k s = (None, s0)" "ds_world s0 = ds_world s"
    using miss(1) loadResponse_world(1) [of L c ?k s] by (metis prod.collapse)
  obtain response ttl' where f: "finish_response L message (fst (snd q)) options raw = (response, ttl')" by force
  note f' = finish_response_ttl [OF queries(3) f]
  have t: "ttl' = ttl" using f'(3) ttl(1) by simp
  let ?s1 = "s0\<lparr>ds_world := w, ds_cache := lru_AddWithLifetime ?C ?now ?k response (int (unat ttl) * 10 ^ 9) (ds_cache s0)\<rparr>"
  have first: "client_Exchange L c tag (Some tp) message options None s = Ret (Inr response, ?s1)"
    using uncached_Exchange [OF queries(1) client s0(1) miss(2), of None] s0(2) answer f t ttl(2) client
    by (simp add: known_rejected_def exchange_transport_def answer_rejected_def storeCache_def caching_def Let_def mult.commute)
  obtain e cache' where e: "lru_GetWithLifetime ?C ?now' ?k (lru_AddWithLifetime ?C ?now ?k response (int (unat ttl) * 10 ^ 9) (ds_cache s0)) =
      (Some (response, e), cache')" "?now + int (unat ttl) * 10 ^ 9 - 10 ^ 6 \<le> e" "e \<le> ?now + int (unat ttl) * 10 ^ 9"
    using cache later unfolding keeps_entries_def by blast
  define n where "n = max 0 (int_Seconds (time_Sub e ?now'))"
  have load: "loadResponse L c ?k (?s1\<lparr>ds_world := w'\<rparr>) = (Some (set_ttl (word_of_int n) response, n), ?s1\<lparr>ds_world := w', ds_cache := cache'\<rparr>)"
    using loadResponse_ages [of c L "?s1\<lparr>ds_world := w'\<rparr>" ?k response e cache' ttl] client e later f'(1) t ttl(2)
    by (simp add: n_def caching_def)
  have key: "cache_key_of c q (pt_Tag tp') = ?k" using other by (simp add: cache_key_of_def)
  have "client_Exchange L c tag' (Some tp') message' options None (?s1\<lparr>ds_world := w'\<rparr>) =
      Ret (Inr ((set_ttl (word_of_int n) response)\<lparr>msg_Id := msg_Id message'\<rparr>), ?s1\<lparr>ds_world := w', ds_cache := cache'\<rparr>)"
    by (rule cached_Exchange [OF queries(2) client, where ttl = n]) (simp only: key load)
  then show ?thesis using first f'(1) t left_over [OF later e(2,3)]
    by (intro exI [of _ response] exI [of _ ?s1] exI [of _ n] exI [of _ "?s1\<lparr>ds_world := w', ds_cache := cache'\<rparr>"])
       (simp add: n_def)
qed

lemma map_lru_keeps: "keeps_entries map_lru"
  by (simp add: keeps_entries_def map_lru_def)

lemma example_answer:
  "response_ttl (drop_hints 1 0 (FixedResponse i example_question [IPv4 1] 60)) example_options = 60"
  by (simp add: drop_hints_def response_ttl_def FixedResponse_def fixed_answer_def fixed_record_def example_question_def
      example_options_def dns_type_defs msg_records_def lower_ttl_def)

lemma example_caching: "caching example_client example_question example_options"
  by (simp add: caching_def example_client_def example_options_def example_question_def prefix_IsValid_def addr_IsValid_def
      strategy_rejects_def strategy_defs)

lemma example_plain: "plain_query example_question ((lookup_request ''a.'' 1)\<lparr>msg_Id := i\<rparr>)"
  by (simp add: plain_query_def lookup_request_def example_question_def ClassINET_def)

theorem cached_answer_ages_witness:
  "\<exists>response s1 t s2.
    client_Exchange example_libs example_client None (Some example_transport) ((lookup_request ''a.'' 1)\<lparr>msg_Id := 7\<rparr>) example_options None
      \<lparr>ds_cache = Map.empty, ds_rdrc = None, ds_world = 0\<rparr> = Ret (Inr response, s1) \<and> ds_world s1 = 10 ^ 9 \<and>
    (\<forall>r \<in> set (msg_records response). rr_Ttl r = 60) \<and>
    client_Exchange example_libs example_client None (Some example_transport) ((lookup_request ''a.'' 1)\<lparr>msg_Id := 8\<rparr>) example_options None
      (s1\<lparr>ds_world := 21 * 10 ^ 9\<rparr>) =
      Ret (Inr ((set_ttl (word_of_int t) response)\<lparr>msg_Id := 8\<rparr>), s2) \<and> ds_world s2 = 21 * 10 ^ 9 \<and>
    t \<in> {39, 40, 41}"
proof -
  let ?m = "\<lambda>i. (lookup_request ''a.'' 1)\<lparr>msg_Id := i\<rparr>" and ?s = "\<lparr>ds_cache = Map.empty, ds_rdrc = None, ds_world = 0\<rparr> :: (cache_key map_cache, gotime) dns_state"
  let ?raw = "FixedResponse 7 example_question [IPv4 1] 60"
  have "\<exists>response s1 t s2.
    client_Exchange example_libs example_client None (Some example_transport) (?m 7) example_options None ?s = Ret (Inr response, s1) \<and>
    ds_world s1 = 10 ^ 9 \<and> (\<forall>r \<in> set (msg_records response). rr_Ttl r = 60) \<and>
    client_Exchange example_libs example_client None (Some example_transport) (?m 8) example_options None (s1\<lparr>ds_world := 21 * 10 ^ 9\<rparr>) =
      Ret (Inr ((set_ttl (word_of_int t) response)\<lparr>msg_Id := msg_Id (?m 8)\<rparr>), s2) \<and> ds_world s2 = 21 * 10 ^ 9 \<and>
    t \<le> int (unat (60 :: 32 word)) \<and>
    (world_Now example_libs (10 ^ 9) + int (unat (60 :: 32 word)) * 10 ^ 9 - world_Now example_libs (21 * 10 ^ 9) - 10 ^ 6) div 10 ^ 9 \<le> t \<and>
    t \<le> (world_Now example_libs (10 ^ 9) + int (unat (60 :: 32 word)) * 10 ^ 9 - world_Now example_libs (21 * 10 ^ 9)) div 10 ^ 9 + 1"
  proof (rule cached_answer_ages [OF _ example_caching example_plain example_plain, where raw = ?raw])
    show "keeps_entries (message_cache example_libs)" by (simp add: map_lru_keeps)
    show "fst (loadResponse example_libs example_client (cache_key_of example_client example_question (pt_Tag example_transport)) ?s) = None"
      by (simp add: loadResponse_def map_lru_def example_client_def)
    show "60 = response_ttl (drop_hints (fst (snd example_question)) (qo_Strategy example_options) ?raw) example_options"
      using example_answer [of 7] by (simp add: example_question_def example_options_def)
  qed (simp_all add: example_transport_def cacheable_rcode_def FixedResponse_def fixed_answer_def)
  then obtain response s1 t s2 where r: "client_Exchange example_libs example_client None (Some example_transport) (?m 7) example_options None ?s = Ret (Inr response, s1)"
    "ds_world s1 = 10 ^ 9" "\<forall>r \<in> set (msg_records response). rr_Ttl r = 60"
    "client_Exchange example_libs example_client None (Some example_transport) (?m 8) example_options None (s1\<lparr>ds_world := 21 * 10 ^ 9\<rparr>) =
      Ret (Inr ((set_ttl (word_of_int t) response)\<lparr>msg_Id := msg_Id (?m 8)\<rparr>), s2)" "ds_world s2 = 21 * 10 ^ 9" "39 \<le> t" "t \<le> 41"
    by auto
  then have "t \<in> {39, 40, 41}" by auto
  with r show ?thesis by (intro exI [of _ response] exI [of _ s1] exI [of _ t] exI [of _ s2]) simp
qed

section \<open>Rejected answers\<close>

lemma LoadRDRC_pending: "LoadRDRC now k (SaveRDRCAsync k r) = (True, SaveRDRCAsync k r)"
  by (simp add: LoadRDRC_def SaveRDRCAsync_def)

lemma LoadRDRC_saved:
  "fst (LoadRDRC now k (finish_SaveRDRC t False k r)) \<longleftrightarrow> now \<le> unix_sec (t + rdrcTimeout r) * 10 ^ 9"
  by (auto simp: LoadRDRC_def finish_SaveRDRC_def SaveRDRC_def)

text \<open>The store after the save has been started, and after it has succeeded at the instant \<open>t\<close>.\<close>

definition remembered :: "rdrc_key \<Rightarrow> rdrc_store \<Rightarrow> gotime option \<Rightarrow> rdrc_store" where
  "remembered k r t = (case t of None \<Rightarrow> SaveRDRCAsync k r | Some t \<Rightarrow> finish_SaveRDRC t False k (SaveRDRCAsync k r))"

definition still_rejected :: "rdrc_store \<Rightarrow> gotime \<Rightarrow> gotime option \<Rightarrow> bool" where
  "still_rejected r now t = (case t of None \<Rightarrow> True | Some t \<Rightarrow> now \<le> unix_sec (t + rdrcTimeout r) * 10 ^ 9)"

lemma LoadRDRC_remembered: "fst (LoadRDRC now k (remembered k r t)) \<longleftrightarrow> still_rejected r now t"
proof (cases t)
  case (Some t')
  have "rdrcTimeout (SaveRDRCAsync k r) = rdrcTimeout r" by (simp add: SaveRDRCAsync_def)
  with Some LoadRDRC_saved [of now k t' "SaveRDRCAsync k r"] show ?thesis by (simp add: remembered_def still_rejected_def)
qed (simp add: remembered_def still_rejected_def LoadRDRC_pending)

lemma known_rejected_store:
  assumes "ds_rdrc s = Some r" and "checker \<noteq> None"
  shows "known_rejected L False tp q checker s =
    (fst (LoadRDRC (world_Now L (ds_world s)) (pt_Tag tp, fst q, fst (snd q)) r),
     s\<lparr>ds_rdrc := Some (snd (LoadRDRC (world_Now L (ds_world s)) (pt_Tag tp, fst q, fst (snd q)) r))\<rparr>)"
  using assms by (auto simp: known_rejected_def split: prod.split)

text \<open>
  C28. An answer that the address filter of a rule rejects is remembered. Asking the same transport the
  same question again for a rule with an address filter is answered with the rejection at once, without
  asking the transport: as long as the save of the rejection is under way, and afterwards until the time
  of the store is over. Then the transport is asked again.
\<close>

theorem rejected_answer_remembered:
  assumes client: "caching c q options" and queries: "plain_query q message" "plain_query q message'"
    and miss: "fst (loadResponse L c (cache_key_of c q (pt_Tag tp)) s) = None" "tag \<noteq> Some (pt_Tag tp)"
    and store: "ds_rdrc s = Some r" "LoadRDRC (world_Now L (ds_world s)) (pt_Tag tp, fst q, fst (snd q)) r = (False, r1)"
    and answer: "tp_Exchange tp message (ds_world s) = (Inr raw, w)" "cacheable_rcode raw" "\<not> f raw"
    and again: "checker \<noteq> None" "fst (loadResponse L c (cache_key_of c q (pt_Tag tp)) (s2\<lparr>ds_world := w'\<rparr>)) = None"
      "tag' \<noteq> Some (pt_Tag tp)" "ds_rdrc s2 = Some (remembered (pt_Tag tp, fst q, fst (snd q)) r1 t)"
  shows "\<exists>s1 s3. client_Exchange L c tag (Some tp) message options (Some f) s = Ret (Inl ErrResponseRejected, s1) \<and>
    ds_world s1 = w \<and> ds_rdrc s1 = Some (remembered (pt_Tag tp, fst q, fst (snd q)) r1 None) \<and> ds_world s3 = w' \<and>
    client_Exchange L c tag' (Some tp) message' options checker (s2\<lparr>ds_world := w'\<rparr>) =
      Ret (if still_rejected r1 (world_Now L w') t then (Inl ErrResponseRejectedCached, s3)
           else exchange_transport L c False tp q message' options checker s3)"
proof -
  let ?k = "(pt_Tag tp, fst q, fst (snd q))" and ?key = "cache_key_of c q (pt_Tag tp)"
  obtain s0 where s0: "loadResponse L c ?key s = (None, s0)" "ds_world s0 = ds_world s" "ds_rdrc s0 = Some r"
    using miss(1) store(1) loadResponse_world [of L c ?key s] by (metis prod.collapse)
  let ?s1 = "s0\<lparr>ds_rdrc := Some (SaveRDRCAsync ?k r1), ds_world := w\<rparr>"
  have first: "client_Exchange L c tag (Some tp) message options (Some f) s = Ret (Inl ErrResponseRejected, ?s1)"
    using uncached_Exchange [OF queries(1) client s0(1) miss(2), of "Some f"] known_rejected_store [OF s0(3), of "Some f" L tp q]
      s0(2) store(2) answer
    by (simp add: exchange_transport_def answer_rejected_def Let_def)
  obtain s4 where s4: "loadResponse L c ?key (s2\<lparr>ds_world := w'\<rparr>) = (None, s4)" "ds_world s4 = w'" "ds_rdrc s4 = Some (remembered ?k r1 t)"
    using again(2,4) loadResponse_world [of L c ?key "s2\<lparr>ds_world := w'\<rparr>"]
    by (cases "loadResponse L c ?key (s2\<lparr>ds_world := w'\<rparr>)") simp
  let ?s3 = "s4\<lparr>ds_rdrc := Some (snd (LoadRDRC (world_Now L w') ?k (remembered ?k r1 t)))\<rparr>"
  have "client_Exchange L c tag' (Some tp) message' options checker (s2\<lparr>ds_world := w'\<rparr>) =
    Ret (if still_rejected r1 (world_Now L w') t then (Inl ErrResponseRejectedCached, ?s3)
         else exchange_transport L c False tp q message' options checker ?s3)"
    unfolding uncached_Exchange [OF queries(2) client s4(1) again(3)] known_rejected_store [OF s4(3) again(1)] s4(2)
      LoadRDRC_remembered by simp
  then show ?thesis using first s4(2)
    by (intro exI [of _ ?s1] exI [of _ ?s3]) (simp add: remembered_def)
qed

definition example_rdrc :: rdrc_store where
  "example_rdrc = \<lparr>saveRDRC = {}, bucketRDRC = Map.empty, rdrcTimeout = 3600 * 10 ^ 9\<rparr>"

theorem rejected_answer_remembered_witness:
  "\<exists>s1 s3. client_Exchange example_libs example_client None (Some example_transport) (lookup_request ''a.'' 1) example_options
      (Some (\<lambda>m. False)) \<lparr>ds_cache = Map.empty, ds_rdrc = Some example_rdrc, ds_world = 0\<rparr> = Ret (Inl ErrResponseRejected, s1) \<and>
    ds_world s3 = 1800 * 10 ^ 9 \<and>
    client_Exchange example_libs example_client None (Some example_transport) (lookup_request ''a.'' 1) example_options
      (Some (\<lambda>m. True))
      \<lparr>ds_cache = Map.empty, ds_rdrc = Some (remembered (''server'', ''a.'', 1) example_rdrc (Some (10 ^ 9))), ds_world = 1800 * 10 ^ 9\<rparr> =
      Ret (Inl ErrResponseRejectedCached, s3)"
proof -
  let ?s = "\<lparr>ds_cache = Map.empty, ds_rdrc = Some example_rdrc, ds_world = 0\<rparr> :: (cache_key map_cache, gotime) dns_state"
  let ?s2 = "\<lparr>ds_cache = Map.empty, ds_rdrc = Some (remembered (''server'', ''a.'', 1) example_rdrc (Some (10 ^ 9))), ds_world = 1800 * 10 ^ 9\<rparr>
    :: (cache_key map_cache, gotime) dns_state"
  have plain: "plain_query example_question (lookup_request ''a.'' 1)"
    by (simp add: plain_query_def lookup_request_def example_question_def ClassINET_def)
  have still: "still_rejected example_rdrc (1800 * 10 ^ 9) (Some (10 ^ 9))"
    by (simp add: still_rejected_def example_rdrc_def unix_sec_def)
  have "\<exists>s1 s3. client_Exchange example_libs example_client None (Some example_transport) (lookup_request ''a.'' 1) example_options
      (Some (\<lambda>m. False)) ?s = Ret (Inl ErrResponseRejected, s1) \<and>
    ds_world s1 = 10 ^ 9 \<and> ds_rdrc s1 = Some (remembered (pt_Tag example_transport, fst example_question, fst (snd example_question)) example_rdrc None) \<and>
    ds_world s3 = 1800 * 10 ^ 9 \<and>
    client_Exchange example_libs example_client None (Some example_transport) (lookup_request ''a.'' 1) example_options
      (Some (\<lambda>m. True)) (?s2\<lparr>ds_world := 1800 * 10 ^ 9\<rparr>) =
      Ret (if still_rejected example_rdrc (world_Now example_libs (1800 * 10 ^ 9)) (Some (10 ^ 9)) then (Inl ErrResponseRejectedCached, s3)
           else exchange_transport example_libs example_client False example_transport example_question (lookup_request ''a.'' 1)
             example_options (Some (\<lambda>m. True)) s3)"
    by (rule rejected_answer_remembered [OF example_caching plain plain, where r = example_rdrc
          and raw = "FixedResponse 0 example_question [IPv4 1] 60"])
       (simp_all add: loadResponse_def map_lru_def example_client_def example_transport_def LoadRDRC_def example_rdrc_def
          lookup_request_def cacheable_rcode_def FixedResponse_def fixed_answer_def example_question_def)
  then show ?thesis using still by auto
qed

end
