(* ===== verification/Spec2Isabelle.thy ===== *)
theory Spec2Isabelle
  imports AdminContracts RoutedQuota ManagerSafety FakeIPContracts DnsContracts DnsCache
begin

text \<open>
  A verification development for this fork of sing-box, a proxy platform with per-user accounting. It
  covers the services of the fork (traffic quota, speed limits, users, dynamic configuration, the
  administration interface), the router with its rules and rule sets, the DNS router with its client
  and fake addresses, and the managers that hold the parts of an instance.

  \<^bold>\<open>The program.\<close> An inbound accepts a connection and authenticates a user. The router
  (\<open>src/route\<close>) finds out what it can about the connection, runs through the rules
  (\<open>src/route/rule\<close>), hands the connection to every tracker and then to an outbound. Two trackers are
  services of the fork: \<open>src/service/trafficquota\<close> counts the bytes of a user in the current period,
  closes the connections of a user over the quota and keeps the counts in Redis or PostgreSQL;
  \<open>src/service/speedlimiter\<close> throttles. Both take per-user rows from the sources of
  \<open>src/service/dynamicconfig\<close>. \<open>src/service/userprovider\<close> merges the users of its sources and
  replaces those of the inbounds. \<open>src/service/adminapi\<close> controls the three services over HTTP. When
  a rule needs an address or a DNS query comes in, \<open>src/dns\<close> chooses a transport by its own rules and
  answers through a client with a cache; the \<open>fakeip\<close> transport answers with made-up addresses, which
  the router turns back into names. \<open>src/adapter\<close> and \<open>src/dns/transport_manager.go\<close> hold
  inbounds, outbounds, endpoints, services, certificate providers and transports by their tags, start
  them in stages and close them.

  \<^bold>\<open>How Go is modelled.\<close> \<open>Prelude\<close> holds the vocabulary: symbolic error values
  (\<open>go_error\<close>), results that are a panic or a value (\<open>'a go\<close>), \<open>int64\<close> as 64-bit words
  where it can wrap, instants in nanoseconds, maps, slices and the string functions. \<open>Calendar\<close> is the
  part of \<open>time\<close> that is used and \<open>GoCrypto\<close> base64, SHA-256 and HMAC. A struct is a record, a
  method a function from the state to the result and the new state, a goroutine or timer a step of its
  own. A method that holds a lock is one step; where the code gives a lock up in between
  (\<open>flushPending\<close>), the parts are separate steps. The iteration order of a Go map is an argument, and
  the theorems hold for all of them. Packages that are not part of the repository are records of
  operations, with what they document as the assumptions of a locale or of a theorem.

  \<^bold>\<open>Traffic quota\<close> (\<open>manager.go\<close>, \<open>conn.go\<close>, \<open>service.go\<close>,
  \<open>persist*.go\<close>). \<open>ConnList\<close> is the list of connections of a user, \<open>QuotaConfig\<close> options and
  periods, \<open>QuotaManager\<close> every method of \<open>QuotaManager\<close> and \<open>QuotaConn\<close>,
  \<open>QuotaPersist\<close> the \<open>Persister\<close> interface with its three implementations, \<open>QuotaService\<close>
  the service. \<open>QuotaInvariant\<close> shows that every method keeps \<open>quota_wf\<close>. \<open>QuotaSafety\<close>:
  no method panics, a user over the quota is cut off, accounting touches one user, periods reset and
  configurations are removed exactly. \<open>QuotaLedger\<close>: flushing conserves bytes while traffic goes on
  between its phases, and the service always returns. \<open>QuotaContracts\<close>: usage survives a restart.

  \<^bold>\<open>Speed limits\<close> (\<open>src/service/speedlimiter\<close>). \<open>SpeedConfig\<close> has schedules and the
  resolution of speeds, \<open>SpeedManager\<close> the limiters and throttled connections, \<open>SpeedService\<close> the
  service and its steps. \<open>SpeedInvariant\<close> and \<open>SpeedSafety\<close>: limiters run at the configured
  speed, clients share them as configured, and every byte is charged in portions that fit the burst.

  \<^bold>\<open>Users\<close> (\<open>src/service/userprovider\<close>, \<open>ReplaceUsers\<close> of the inbounds under
  \<open>src/protocol\<close>, \<open>src/transport/trojan/service.go\<close>). \<open>UserInbounds\<close>, \<open>UserSources\<close> and
  \<open>UserProvider\<close> are the inbounds, the four sources and the service; \<open>UserProviderSafety\<close> and
  \<open>UserProviderContracts\<close> show that the methods refine a directory of users, that the merged list is
  independent of map order, and that a deleted user stays away.

  \<^bold>\<open>Dynamic configuration\<close> (\<open>src/service/dynamicconfig\<close>). \<open>DynamicRow\<close>,
  \<open>DynamicSources\<close> and \<open>DynamicContracts\<close>: the rows, the two sources, and the contract
  \<open>config_receiver\<close> with its interpretations on the quota service and the speed limiter.

  \<^bold>\<open>Administration\<close> (\<open>src/service/adminapi\<close>). \<open>AdminAuth\<close> has tokens and passwords,
  \<open>AdminApi\<close> the handlers, middlewares and routes. \<open>AdminContracts\<close>: nothing is reachable without
  credentials, and creating and deleting users is atomic over the three services, each an interface
  interpreted on its model.

  \<^bold>\<open>Rules\<close> (\<open>src/route/rule\<close>, \<open>src/option/rule*.go\<close>). \<open>RuleContext\<close> is
  \<open>adapter.InboundContext\<close>, \<open>RuleItems\<close> the conditions, \<open>RuleState\<close> the bit masks of match
  states, \<open>RuleEngine\<close> the matching, \<open>RuleAction\<close> the actions, \<open>RuleBuild\<close> the construction
  from options, \<open>RuleSets\<close> local and remote rule sets with their users. \<open>RuleSemantics\<close> relates
  the masks to the documented logic, \<open>RuleBuildSafety\<close> says what construction guarantees.

  \<^bold>\<open>Router\<close> (\<open>src/route/route.go\<close>, \<open>router.go\<close>, \<open>rule_conds.go\<close>,
  \<open>src/common/sniff/sniff.go\<close>). \<open>Sniffing\<close> and \<open>Router\<close> are the definitions;
  \<open>RouterSafety\<close> and \<open>RouteContracts\<close> show that the first matching rule decides, that routing
  returns, that an outbound gets a connection that passed every tracker and still delivers what was
  sniffed, and that rule sets are replaced atomically. \<open>RoutedQuota\<close> joins the router and the quota
  service: whatever a routed connection carries is counted.

  \<^bold>\<open>Managers\<close> (\<open>src/adapter/*/manager.go\<close>, \<open>lifecycle.go\<close>,
  \<open>src/dns/transport_manager.go\<close>). \<open>Managers\<close> has the state as the list of parts, the table of
  tags, the stage and, for outbounds and transports, the default and the table of dependents. The
  operations of the four simple managers are instances of one definition each, as their code is the
  same text. \<open>ManagerSafety\<close> proves the interface \<open>named_parts\<close> for the six of them, and that a
  start in the order of dependencies ends, with an error exactly if one is missing or circular.

  \<^bold>\<open>DNS\<close> (\<open>src/dns\<close>, \<open>src/experimental/cachefile/rdrc.go\<close>). \<open>DnsClient\<close> is
  \<open>Client\<close> with cache, client subnets and the store of rejected answers, \<open>DnsRules\<close> the choice of
  the mode and the life of the rules, \<open>DnsRouter\<close> exchange, lookup and reverse mapping in both modes.
  \<open>DnsSafety\<close> collects what follows from a successful start, \<open>DnsContracts\<close> has the properties:
  queries and lookups return, a lookup avoids fake addresses, rules hold their rule sets exactly while
  they are started. \<open>DnsCache\<close>: cached answers age, rejected ones are remembered. \<open>DnsExamples\<close>
  has the instances the theorems are applied to.

  \<^bold>\<open>Fake addresses\<close> (\<open>src/dns/transport/fakeip\<close>,
  \<open>src/experimental/cachefile/fakeip.go\<close>, \<open>src/adapter/fakeip_metadata.go\<close>). \<open>FakeIP\<close> has the
  store and both storages, \<open>FakeIPSafety\<close> the interface \<open>fakeip_storage\<close> between them, and
  \<open>FakeIPContracts\<close> follows an address from the answer to the router, also across a restart.

  \<^bold>\<open>Bounds and termination.\<close> No definition uses fuel. Loops of the code are structural recursion
  or have a termination proof: the legacy loops of the DNS router by the rules that are left, the start
  of outbounds by the parts not yet started, the search for a circular dependency by the tags not yet
  visited, writing digits and splitting into batches by what is left. Reading for a sniffer recurses
  over the reads that the connection delivers.

  \<^bold>\<open>Not modelled.\<close>
  \<^item> Protocol drivers, transports, DNS transports other than \<open>fakeip\<close>, TLS, dialers and listeners
    (\<open>src/protocol\<close>, \<open>src/transport\<close>, \<open>src/dns/transport\<close>, \<open>src/common\<close>): code over sockets
    and third-party protocol libraries. Sniffers, transports and outbounds are parameters.
  \<^item> \<open>src/common/certificate\<close>: certificates as data, and \<open>src/constant\<close>.
  \<^item> The other services (\<open>src/service/ocm\<close>, \<open>ccm\<close>, \<open>acme\<close>, \<open>derp\<close>, \<open>resolved\<close>, ...):
    proxies and daemons around third-party interfaces.
  \<^item> The network and connection managers (\<open>src/route/network.go\<close>, \<open>conn.go\<close>), process and
    neighbour lookup: system calls and copying goroutines.
  \<^item> The command line, \<open>src/box.go\<close>, \<open>src/daemon\<close>, \<open>src/experimental\<close> apart from the two
    cache-file parts above, JSON decoding of \<open>src/option\<close>, logging.
  \<^item> In the DNS client, the wait for another request with the same question, and timeouts: a call
    runs to its end. In the DNS router, \<open>referencedDNSRuleSetTags\<close>, which only tests call.
  \<^item> Preemption inside a critical section; data races on fields that are read without a lock.
\<close>

end
